(* ===== verification/Prelude.thy ===== *)
theory Prelude
  imports Complex_Main "HOL-Library.AList" "HOL-Library.Sublist" "HOL-Library.Multiset"
    "HOL-Library.List_Lexorder" "HOL-Library.Char_ord"
begin

text \<open>
  Shared vocabulary of the development.

  \<^item> Python values as they arrive from JSON columns and request bodies
    (\<open>pyval\<close>), truthiness, \<open>dict.get\<close>, the ASCII part of the \<open>str\<close>
    methods the services call;
  \<^item> instants: an aware UTC \<open>datetime\<close> is the number of microseconds since the
    epoch, so \<open>timedelta(seconds=n)\<close> is \<open>secs n\<close>;
  \<^item> tables: a SQL table is the list of its rows in insertion order; the ORM calls
    \<open>session.get\<close>, \<open>session.add\<close>, attribute assignment and \<open>session.delete\<close> are
    \<open>tget\<close>, \<open>tadd\<close>, \<open>tupd\<close> and \<open>tdel\<close>, each by primary key;
  \<^item> the contract of such a table as the locale \<open>row_store\<close>, which every table of
    the model interprets;
  \<^item> the contract of a relation that steps and loops compose, the locale \<open>state_preorder\<close>;
  \<^item> ULIDs: the third-party generator is a parameter \<open>gen\<close> (the \<open>n\<close>-th ULID
    drawn), threaded through a counter.
\<close>

named_theorems tbl_simps \<open>rewrite rules for table operations\<close>
named_theorems frame_rules \<open>which parts of the state an operation leaves alone\<close>

section \<open>Python values\<close>

datatype pyval =
    VNone
  | VBool bool
  | VInt int
  | VFloat rat
  | VStr string
  | VList "pyval list"
  | VDict "(string \<times> pyval) list"

type_synonym pydict = "(string \<times> pyval) list"

fun truthy :: "pyval \<Rightarrow> bool" where
  "truthy VNone = False"
| "truthy (VBool b) = b"
| "truthy (VInt i) = (i \<noteq> 0)"
| "truthy (VFloat r) = (r \<noteq> 0)"
| "truthy (VStr s) = (s \<noteq> [])"
| "truthy (VList xs) = (xs \<noteq> [])"
| "truthy (VDict d) = (d \<noteq> [])"

text \<open>\<open>isinstance(v, int)\<close>: Python's \<open>bool\<close> is a subclass of \<open>int\<close>.\<close>

fun is_int :: "pyval \<Rightarrow> bool" where
  "is_int (VInt _) = True"
| "is_int (VBool _) = True"
| "is_int _ = False"

fun int_of :: "pyval \<Rightarrow> int" where
  "int_of (VInt i) = i"
| "int_of (VBool b) = (if b then 1 else 0)"
| "int_of _ = 0"

fun is_str :: "pyval \<Rightarrow> bool" where
  "is_str (VStr _) = True"
| "is_str _ = False"

fun is_dict :: "pyval \<Rightarrow> bool" where
  "is_dict (VDict _) = True"
| "is_dict _ = False"

text \<open>\<open>d.get(k)\<close>, \<open>k in d\<close> and \<open>d[k] = v\<close>.\<close>

definition dget :: "pydict \<Rightarrow> string \<Rightarrow> pyval" where
  "dget d k = (case map_of d k of None \<Rightarrow> VNone | Some v \<Rightarrow> v)"

definition dhas :: "pydict \<Rightarrow> string \<Rightarrow> bool" where
  "dhas d k \<longleftrightarrow> map_of d k \<noteq> None"

definition dset :: "pydict \<Rightarrow> string \<Rightarrow> pyval \<Rightarrow> pydict" where
  "dset d k v = AList.update k v d"

text \<open>A nullable dict column or argument with its \<open>x or {}\<close> default.\<close>

definition dict_or_empty :: "pydict option \<Rightarrow> pydict" where
  "dict_or_empty p = (case p of None \<Rightarrow> [] | Some d \<Rightarrow> d)"

text \<open>\<open>x or {}\<close> for a value taken out of a JSON column, and a nullable string as a value.\<close>

fun dict_of :: "pyval \<Rightarrow> pydict" where
  "dict_of (VDict d) = d"
| "dict_of _ = []"

definition of_opt_str :: "string option \<Rightarrow> pyval" where
  "of_opt_str s = (case s of None \<Rightarrow> VNone | Some x \<Rightarrow> VStr x)"

lemma dget_dset [simp]: "dget (dset d k v) k' = (if k = k' then v else dget d k')"
  by (simp add: dget_def dset_def update_conv')

lemma dhas_dset [simp]: "dhas (dset d k v) k' \<longleftrightarrow> k = k' \<or> dhas d k'"
  by (simp add: dhas_def dset_def update_conv')

section \<open>Strings\<close>

definition py_isspace :: "char \<Rightarrow> bool" where
  "py_isspace c \<longleftrightarrow>
     (let n = of_char c :: nat in (9 \<le> n \<and> n \<le> 13) \<or> (28 \<le> n \<and> n \<le> 32))"

definition py_strip :: "string \<Rightarrow> string" where
  "py_strip s = rev (dropWhile py_isspace (rev (dropWhile py_isspace s)))"

definition py_upper :: "string \<Rightarrow> string" where
  "py_upper = map (\<lambda>c. let n = of_char c :: nat
                       in if 97 \<le> n \<and> n \<le> 122 then char_of (n - 32) else c)"

definition py_lower :: "string \<Rightarrow> string" where
  "py_lower = map (\<lambda>c. let n = of_char c :: nat
                       in if 65 \<le> n \<and> n \<le> 90 then char_of (n + 32) else c)"

definition starts_with :: "string \<Rightarrow> string \<Rightarrow> bool" where
  "starts_with s p \<longleftrightarrow> take (length p) s = p"

lemma starts_with_prefix: "starts_with s p \<longleftrightarrow> prefix p s"
  unfolding starts_with_def prefix_def by (metis append_eq_conv_conj append_take_drop_id)

lemma length_py_upper [simp]: "length (py_upper s) = length s"
  by (simp add: py_upper_def)

lemma length_py_lower [simp]: "length (py_lower s) = length s"
  by (simp add: py_lower_def)

lemma dropWhile_snoc_stop: "\<not> P c \<Longrightarrow> dropWhile P (xs @ [c]) = dropWhile P xs @ [c]"
  by (induction xs) auto

lemma dropWhile_idem_on_rev:
  "dropWhile P (rev (dropWhile P (rev (dropWhile P s)))) = rev (dropWhile P (rev (dropWhile P s)))"
proof (cases "dropWhile P s")
  case Nil
  show ?thesis unfolding Nil by simp
next
  case (Cons c cs)
  then have "\<not> P c" by (metis hd_dropWhile list.distinct(1) list.sel(1))
  then show ?thesis unfolding Cons by (simp add: dropWhile_snoc_stop)
qed

lemma py_strip_idem [simp]: "py_strip (py_strip s) = py_strip s"
  by (simp add: py_strip_def dropWhile_idem_on_rev)

text \<open>\<open>sep.join(xs)\<close> and the \<open>repr\<close> of a list of plain strings.\<close>

fun join_with :: "string \<Rightarrow> string list \<Rightarrow> string" where
  "join_with sep [] = []"
| "join_with sep [x] = x"
| "join_with sep (x # xs) = x @ sep @ join_with sep xs"

definition quoted :: "string \<Rightarrow> string" where
  "quoted s = CHR 0x27 # s @ [CHR 0x27]"

definition repr_list :: "string list \<Rightarrow> string" where
  "repr_list xs = ''['' @ join_with '', '' (map quoted xs) @ '']''"

text \<open>\<open>int(s)\<close> for a string: surrounding whitespace, a sign, digits with single underscores
  between them.\<close>

definition digit_value :: "char \<Rightarrow> int option" where
  "digit_value c = (let n = of_char c :: nat
                    in if 48 \<le> n \<and> n \<le> 57 then Some (int n - 48) else None)"

fun int_digits :: "bool \<Rightarrow> int \<Rightarrow> string \<Rightarrow> int option" where
  "int_digits after_digit acc [] = (if after_digit then Some acc else None)"
| "int_digits after_digit acc (c # cs) =
     (case digit_value c of
        Some d \<Rightarrow> int_digits True (acc * 10 + d) cs
      | None \<Rightarrow> (if c = CHR ''_'' \<and> after_digit then int_digits False acc cs else None))"

definition int_of_string :: "string \<Rightarrow> int option" where
  "int_of_string s =
     (case py_strip s of
        [] \<Rightarrow> None
      | c # cs \<Rightarrow> (if c = CHR ''-'' then map_option uminus (int_digits False 0 cs)
                  else if c = CHR ''+'' then int_digits False 0 cs
                  else int_digits False 0 (c # cs)))"

text \<open>\<open>int(v)\<close>: \<open>None\<close> is the \<open>TypeError\<close> or \<open>ValueError\<close>; a float is truncated
  towards zero.\<close>

fun py_int :: "pyval \<Rightarrow> int option" where
  "py_int (VInt i) = Some i"
| "py_int (VBool b) = Some (if b then 1 else 0)"
| "py_int (VFloat r) = Some (if 0 \<le> r then \<lfloor>r\<rfloor> else \<lceil>r\<rceil>)"
| "py_int (VStr s) = int_of_string s"
| "py_int _ = None"

section \<open>Instants\<close>

type_synonym instant = int

definition secs :: "int \<Rightarrow> int" where
  "secs n = n * 1000000"

lemma secs_mono [simp]: "secs a \<le> secs b \<longleftrightarrow> a \<le> b"
  by (simp add: secs_def)

lemma secs_strict_mono [simp]: "secs a < secs b \<longleftrightarrow> a < b"
  by (simp add: secs_def)

lemma secs_0 [simp]: "secs 0 = 0"
  by (simp add: secs_def)

lemma secs_nonneg [simp]: "0 \<le> secs a \<longleftrightarrow> 0 \<le> a"
  by (simp add: secs_def)

section \<open>Tables\<close>

definition tget :: "('r \<Rightarrow> 'k) \<Rightarrow> 'k \<Rightarrow> 'r list \<Rightarrow> 'r option" where
  "tget key k rs = find (\<lambda>r. key r = k) rs"

definition tadd :: "'r \<Rightarrow> 'r list \<Rightarrow> 'r list" where
  "tadd r rs = rs @ [r]"

definition tupd :: "('r \<Rightarrow> 'k) \<Rightarrow> 'k \<Rightarrow> ('r \<Rightarrow> 'r) \<Rightarrow> 'r list \<Rightarrow> 'r list" where
  "tupd key k f rs = map (\<lambda>r. if key r = k then f r else r) rs"

definition tdel :: "('r \<Rightarrow> 'k) \<Rightarrow> 'k \<Rightarrow> 'r list \<Rightarrow> 'r list" where
  "tdel key k rs = filter (\<lambda>r. key r \<noteq> k) rs"

definition pk_ok :: "('r \<Rightarrow> 'k) \<Rightarrow> 'r list \<Rightarrow> bool" where
  "pk_ok key rs \<longleftrightarrow> distinct (map key rs)"

lemma tget_Nil [simp]: "tget key k [] = None"
  by (simp add: tget_def)

lemma tget_Cons [simp]: "tget key k (r # rs) = (if key r = k then Some r else tget key k rs)"
  by (simp add: tget_def)

lemma tget_SomeD: "tget key k rs = Some r \<Longrightarrow> r \<in> set rs \<and> key r = k"
  by (induction rs) (auto split: if_splits)

lemma tget_None_iff: "tget key k rs = None \<longleftrightarrow> k \<notin> key ` set rs"
  by (induction rs) auto

lemma tget_append [tbl_simps]:
  "tget key k (rs @ qs) = (case tget key k rs of None \<Rightarrow> tget key k qs | Some r \<Rightarrow> Some r)"
  by (induction rs) auto

lemma tget_tadd [tbl_simps]:
  "tget key k (tadd r rs) = (case tget key k rs of None \<Rightarrow> (if key r = k then Some r else None)
                             | Some q \<Rightarrow> Some q)"
  by (simp add: tadd_def tget_append split: option.splits)

lemma tget_tupd [tbl_simps]:
  assumes "\<And>r. key (f r) = key r"
  shows "tget key k' (tupd key k f rs) =
           (if k' = k then map_option f (tget key k' rs) else tget key k' rs)"
  using assms by (induction rs) (auto simp: tupd_def)

lemma tget_tdel [tbl_simps]:
  "tget key k' (tdel key k rs) = (if k' = k then None else tget key k' rs)"
  by (induction rs) (auto simp: tdel_def)

lemma pk_ok_get: "pk_ok key rs \<Longrightarrow> tget key k rs = Some r \<longleftrightarrow> r \<in> set rs \<and> key r = k"
  by (induction rs) (auto simp: pk_ok_def)

lemma pk_ok_unique: "pk_ok key rs \<Longrightarrow> a \<in> set rs \<Longrightarrow> b \<in> set rs \<Longrightarrow> key a = key b \<Longrightarrow> a = b"
  by (simp add: pk_ok_def distinct_map inj_on_def)

lemma pk_ok_tadd [tbl_simps]: "pk_ok key (tadd r rs) \<longleftrightarrow> pk_ok key rs \<and> key r \<notin> key ` set rs"
  by (auto simp: pk_ok_def tadd_def)

lemma map_key_tupd:
  assumes "\<And>r. key (f r) = key r"
  shows "map key (tupd key k f rs) = map key rs"
  using assms by (simp add: tupd_def)

lemma pk_ok_tupd [tbl_simps]:
  assumes "\<And>r. key (f r) = key r"
  shows "pk_ok key (tupd key k f rs) \<longleftrightarrow> pk_ok key rs"
  unfolding pk_ok_def by (subst map_key_tupd) (simp_all add: assms)

lemma pk_ok_tdel [tbl_simps]: "pk_ok key rs \<Longrightarrow> pk_ok key (tdel key k rs)"
  by (simp add: pk_ok_def tdel_def distinct_map_filter)

lemma pk_ok_map:
  assumes "\<And>r. key (f r) = key r"
  shows "pk_ok key (map f rs) \<longleftrightarrow> pk_ok key rs"
proof -
  have "map key (map f rs) = map key rs" using assms by simp
  then show ?thesis unfolding pk_ok_def by (rule arg_cong)
qed

lemma tget_map:
  assumes "\<And>r. key (f r) = key r"
  shows "tget key k (map f rs) = map_option f (tget key k rs)"
  using assms by (induction rs) auto

lemma set_tupd: "set (tupd key k f rs) = (\<lambda>r. if key r = k then f r else r) ` set rs"
  by (simp add: tupd_def)

lemma set_tadd [simp]: "set (tadd r rs) = insert r (set rs)"
  by (auto simp: tadd_def)

lemma set_tdel: "set (tdel key k rs) = {r \<in> set rs. key r \<noteq> k}"
  by (simp add: tdel_def)

lemma length_tupd [simp]: "length (tupd key k f rs) = length rs"
  by (simp add: tupd_def)

lemma length_tadd [simp]: "length (tadd r rs) = Suc (length rs)"
  by (simp add: tadd_def)

section \<open>The contract of a table\<close>

text \<open>
  What every service relies on when it reads and writes a table through the session: a
  row is found under its key exactly when it is in the table, and each write changes
  only the row it names.
\<close>

locale row_store =
  fixes key :: "'r \<Rightarrow> 'k"
    and get :: "'k \<Rightarrow> 's \<Rightarrow> 'r option"
    and put :: "'r \<Rightarrow> 's \<Rightarrow> 's"
    and modify :: "'k \<Rightarrow> ('r \<Rightarrow> 'r) \<Rightarrow> 's \<Rightarrow> 's"
    and rows :: "'s \<Rightarrow> 'r list"
    and ok :: "'s \<Rightarrow> bool"
  assumes get_iff: "ok s \<Longrightarrow> get k s = Some r \<longleftrightarrow> r \<in> set (rows s) \<and> key r = k"
    and rows_put: "rows (put r s) = rows s @ [r]"
    and ok_put: "ok s \<Longrightarrow> get (key r) s = None \<Longrightarrow> ok (put r s)"
    and rows_modify: "rows (modify k f s) = map (\<lambda>r. if key r = k then f r else r) (rows s)"
    and ok_modify: "ok s \<Longrightarrow> (\<And>r. key (f r) = key r) \<Longrightarrow> ok (modify k f s)"
begin

lemma get_key: "ok s \<Longrightarrow> get k s = Some r \<Longrightarrow> key r = k"
  using get_iff by blast

lemma get_mem: "ok s \<Longrightarrow> get k s = Some r \<Longrightarrow> r \<in> set (rows s)"
  using get_iff by blast

lemma get_none_iff: "ok s \<Longrightarrow> get k s = None \<longleftrightarrow> k \<notin> key ` set (rows s)"
  by (metis (no_types, lifting) get_iff image_iff not_Some_eq)

lemma get_put_same: "ok s \<Longrightarrow> get (key r) s = None \<Longrightarrow> get (key r) (put r s) = Some r"
  by (simp add: get_iff ok_put rows_put)

lemma get_put_other:
  assumes "ok s" and "get (key r) s = None" and "k \<noteq> key r"
  shows "get k (put r s) = get k s"
proof (rule option.expand)
  show "get k (put r s) = None \<longleftrightarrow> get k s = None"
    using assms by (simp add: get_none_iff ok_put rows_put)
next
  assume "get k (put r s) \<noteq> None" and "get k s \<noteq> None"
  then obtain q where "get k s = Some q" by blast
  then have "get k (put r s) = Some q" using assms by (simp add: get_iff ok_put rows_put)
  then show "the (get k (put r s)) = the (get k s)" using \<open>get k s = Some q\<close> by simp
qed

lemma get_modify_same:
  assumes "ok s" and "\<And>r. key (f r) = key r" and "get k s = Some r"
  shows "get k (modify k f s) = Some (f r)"
proof -
  have "ok (modify k f s)" using assms by (intro ok_modify)
  moreover have "f r \<in> set (rows (modify k f s))"
    using assms by (auto simp: rows_modify get_iff image_iff intro!: bexI [of _ r])
  ultimately show ?thesis using assms by (simp add: get_iff)
qed

lemma get_modify_other:
  assumes "ok s" and "\<And>r. key (f r) = key r" and "k' \<noteq> k" and "get k' s = Some r"
  shows "get k' (modify k f s) = Some r"
proof -
  have "ok (modify k f s)" using assms by (intro ok_modify)
  moreover have "r \<in> set (rows (modify k f s))"
    using assms by (auto simp: rows_modify get_iff image_iff intro!: bexI [of _ r])
  ultimately show ?thesis using assms by (simp add: get_iff)
qed

end

section \<open>Relations that compose\<close>

text \<open>The contract of a relation that loops may compose: a preorder on states.\<close>

locale state_preorder =
  fixes leads :: "'s \<Rightarrow> 's \<Rightarrow> bool"
  assumes leads_refl: "leads s s"
    and leads_trans: "leads s t \<Longrightarrow> leads t u \<Longrightarrow> leads s u"
begin

lemma leads_fold: "(\<And>x s. leads s (f x s)) \<Longrightarrow> leads s (fold f xs s)"
proof (induction xs arbitrary: s)
  case Nil
  show ?case by (simp add: leads_refl)
next
  case (Cons x xs)
  then show ?case by (simp add: leads_trans [of s "f x s"])
qed

lemma leads_star: "(\<And>s t. step s t \<Longrightarrow> leads s t) \<Longrightarrow> step\<^sup>*\<^sup>* s t \<Longrightarrow> leads s t"
  by (erule rtranclp_induct) (auto intro: leads_refl leads_trans)

end

section \<open>Fresh identifiers\<close>

text \<open>
  \<open>new_id(prefix)\<close> is \<open>f"{prefix}_{ULID()}"\<close>. The ULID package is not part of the
  repository: \<open>gen n\<close> stands for the \<open>n\<close>-th identifier it draws.
\<close>

type_synonym ulid_gen = "nat \<Rightarrow> string"

definition new_id :: "ulid_gen \<Rightarrow> string \<Rightarrow> nat \<Rightarrow> string" where
  "new_id gen prfx n = prfx @ ''_'' @ gen n"

lemma new_id_inj: "inj gen \<Longrightarrow> new_id gen p m = new_id gen p n \<longleftrightarrow> m = n"
  by (auto simp: new_id_def inj_eq)

section \<open>Lists\<close>

lemma sort_key_sorted_map: "sorted (map f (sort_key f xs))"
  by simp

lemma filter_sort_key: "filter P (sort_key f xs) = sort_key f (filter P xs)"
  by (rule filter_sort)

lemma find_None_filter: "find P xs = None \<longleftrightarrow> filter P xs = []"
  by (induction xs) auto

end
