(* ===== verification/Models.thy ===== *)
theory Models
  imports Prelude
begin

text \<open>
  The data model (\<open>app/models/\<close>): one record per ORM class, one field per column, and the
  record \<open>hub\<close> of the tables the services share, together with the process state that
  is not in the database (the ULID counter and the subscribers of the event bus).
  A nullable column is an \<open>option\<close>, a JSON object column a \<open>pydict\<close>, a
  \<open>TIMESTAMPTZ\<close> column an instant. Relationships are followed through their foreign
  keys. Only column defaults that a service relies on appear, in the operation that inserts
  the row.
\<close>

section \<open>Rows\<close>

record device =
  dev_id :: string
  dev_display_name :: string
  dev_hardware_model :: "string option"
  dev_hardware_revision :: "string option"
  dev_firmware_version :: "string option"
  dev_mac_address :: "string option"
  dev_serial_number :: "string option"
  dev_local_ip :: "string option"
  dev_notes :: "string option"
  dev_site_id :: "string option"
  dev_central_management_enabled :: bool
  dev_registration_state :: string
  dev_capabilities :: pyval
  dev_last_heartbeat_at :: "instant option"
  dev_last_seen_at :: "instant option"
  dev_is_qa_fixture :: bool
  dev_is_protected :: bool
  dev_is_held_off :: bool
  dev_power_source_device_id :: "string option"
  dev_last_known_relay_on :: "bool option"
  dev_desired_config :: "pydict option"
  dev_desired_mode :: "string option"
  dev_last_reported_config :: "pydict option"
  dev_desired_config_updated_at :: "instant option"
  dev_last_config_pushed_at :: "instant option"
  dev_reported_recovery_mode :: "bool option"
  dev_reported_auto_recovery_triggered :: "bool option"
  dev_reported_last_known_good_restored :: "bool option"
  dev_reported_consecutive_unhealthy_boots :: "int option"
  dev_reported_in_captive_portal :: "bool option"
  dev_reported_central_enabled :: "bool option"
  dev_reported_central_registered :: "bool option"
  dev_reported_central_state :: "string option"
  dev_last_wifi_scan :: "pyval list option"
  dev_last_wifi_scan_at :: "instant option"
  dev_created_at :: instant
  dev_updated_at :: instant

record device_credential =
  cr_id :: string
  cr_device_id :: string
  cr_token_hash :: string
  cr_revoked :: bool
  cr_issued_at :: instant
  cr_last_used_at :: "instant option"

record enrollment_token =
  et_id :: string
  et_organization_id :: "string option"
  et_token_hash :: string
  et_issued_by_user_id :: "string option"
  et_site_id :: "string option"
  et_display_name_hint :: "string option"
  et_note :: "string option"
  et_consumed_at :: "instant option"
  et_consumed_by_device_id :: "string option"
  et_expires_at :: instant
  et_created_at :: instant
  et_target_device_id :: "string option"

record organization =
  org_id :: string
  org_name :: string
  org_slug :: string
  org_status :: string
  org_plan :: string
  org_is_self_hosted_default :: bool
  org_max_devices :: "int option"
  org_max_users :: "int option"
  org_owner_user_id :: "string option"
  org_created_at :: instant
  org_updated_at :: instant

record site =
  site_id :: string
  site_organization_id :: string
  site_name :: string
  site_description :: "string option"
  site_created_at :: instant
  site_updated_at :: instant

record group_row =
  grp_id :: string
  grp_organization_id :: string
  grp_name :: string
  grp_description :: "string option"
  grp_site_id :: "string option"
  grp_created_at :: instant
  grp_updated_at :: instant

record group_membership =
  gm_group_id :: string
  gm_device_id :: string
  gm_added_at :: instant

record user =
  usr_id :: string
  usr_email :: string
  usr_password_hash :: string
  usr_display_name :: string
  usr_is_active :: bool
  usr_is_admin :: bool
  usr_is_super_admin :: bool
  usr_role :: string
  usr_tokens_valid_after :: instant
  usr_created_at :: instant
  usr_updated_at :: instant
  usr_last_login_at :: "instant option"

record role_binding =
  rb_id :: string
  rb_organization_id :: "string option"
  rb_user_id :: string
  rb_scope_type :: string
  rb_scope_id :: "string option"
  rb_role :: string
  rb_created_at :: instant
  rb_updated_at :: instant
  rb_created_by_user_id :: "string option"

record audit_event =
  au_at :: instant
  au_organization_id :: "string option"
  au_actor_user_id :: "string option"
  au_actor_email_snapshot :: "string option"
  au_action :: string
  au_target_type :: "string option"
  au_target_id :: "string option"
  au_details :: pydict
  au_ip :: "string option"

record command =
  c_id :: string
  c_device_id :: string
  c_group_id :: "string option"
  c_issued_by_user_id :: "string option"
  c_type :: string
  c_payload :: pydict
  c_status :: string
  c_created_at :: instant
  c_expires_at :: instant
  c_delivered_at :: "instant option"
  c_ack_received_at :: "instant option"
  c_completed_at :: "instant option"

record command_result =
  r_id :: string
  r_command_id :: string
  r_device_id :: string
  r_status :: string
  r_message :: "string option"
  r_result :: pydict
  r_completed_at :: instant
  r_received_at :: instant

record watchdog_rule =
  wr_id :: string
  wr_organization_id :: "string option"
  wr_site_id :: "string option"
  wr_name :: string
  wr_description :: "string option"
  wr_enabled :: bool
  wr_status :: string
  wr_probe :: pydict
  wr_failure_threshold :: int
  wr_recovery_threshold :: int
  wr_window_seconds :: int
  wr_cooldown_seconds :: int
  wr_target :: pydict
  wr_action :: pydict
  wr_max_retries :: int
  wr_retry_delay_seconds :: int
  wr_escalation :: pydict
  wr_maintenance_windows :: "pyval list"
  wr_created_by_user_id :: "string option"
  wr_created_at :: instant
  wr_updated_at :: instant
  wr_failure_streak :: int
  wr_recovery_streak :: int
  wr_last_probed_at :: "instant option"
  wr_last_action_at :: "instant option"
  wr_last_outcome :: "string option"

record probe_event =
  pe_rule_id :: string
  pe_at :: instant
  pe_outcome :: string
  pe_details :: pydict

record scene =
  scn_id :: string
  scn_organization_id :: "string option"
  scn_name :: string
  scn_description :: "string option"
  scn_items :: "pyval list"
  scn_created_at :: instant
  scn_updated_at :: instant

record runtime_flag =
  rf_name :: string
  rf_value :: pyval
  rf_updated_at :: instant
  rf_updated_by_user_id :: "string option"

record runtime_setting =
  rs_name :: string
  rs_value :: pydict
  rs_updated_at :: instant
  rs_updated_by_user_id :: "string option"

record schedule =
  sch_id :: string
  sch_organization_id :: "string option"
  sch_name :: string
  sch_description :: "string option"
  sch_enabled :: bool
  sch_kind :: string
  sch_recurrence :: string
  sch_at_time_utc :: "string option"
  sch_weekdays :: "pyval list"
  sch_start_at :: "instant option"
  sch_duration_seconds :: int
  sch_target :: pydict
  sch_power_off_seconds :: int
  sch_post_reboot_holdoff_seconds :: int
  sch_last_run_at :: "instant option"
  sch_next_run_at :: "instant option"
  sch_last_outcome :: "string option"
  sch_created_by_user_id :: "string option"
  sch_created_at :: instant
  sch_updated_at :: instant

record organization_membership =
  om_id :: string
  om_organization_id :: string
  om_user_id :: string
  om_org_role :: string
  om_created_at :: instant

record user_session =
  ses_id :: string
  ses_user_id :: string
  ses_kind :: string
  ses_jti :: string
  ses_issued_at :: instant
  ses_last_seen_at :: instant
  ses_expires_at :: instant
  ses_revoked_at :: "instant option"
  ses_user_agent :: "string option"
  ses_ip :: "string option"

record invitation =
  inv_id :: string
  inv_organization_id :: "string option"
  inv_email :: string
  inv_role :: string
  inv_token_hash :: string
  inv_issued_by_user_id :: "string option"
  inv_note :: "string option"
  inv_scope_payload :: "pydict option"
  inv_expires_at :: instant
  inv_consumed_at :: "instant option"
  inv_consumed_by_user_id :: "string option"
  inv_created_at :: instant

record password_reset =
  pwr_id :: string
  pwr_user_id :: string
  pwr_email_snapshot :: string
  pwr_token_hash :: string
  pwr_expires_at :: instant
  pwr_consumed_at :: "instant option"
  pwr_requested_ip :: "string option"
  pwr_consumed_ip :: "string option"
  pwr_created_at :: instant

record api_token =
  apt_id :: string
  apt_organization_id :: "string option"
  apt_name :: string
  apt_token_hash :: string
  apt_token_prefix :: string
  apt_scopes :: "string list"
  apt_site_id :: "string option"
  apt_created_by_user_id :: "string option"
  apt_expires_at :: "instant option"
  apt_last_used_at :: "instant option"
  apt_revoked :: bool
  apt_created_at :: instant

record announcement =
  ann_id :: string
  ann_organization_id :: "string option"
  ann_mac_address :: string
  ann_claimed_hardware_model :: "string option"
  ann_claimed_hardware_revision :: "string option"
  ann_claimed_firmware_version :: "string option"
  ann_claimed_local_ip :: "string option"
  ann_claimed_serial_number :: "string option"
  ann_claimed_display_name_hint :: "string option"
  ann_source_ip :: "string option"
  ann_user_agent :: "string option"
  ann_first_seen_at :: instant
  ann_last_seen_at :: instant
  ann_announce_count :: int
  ann_adopted_at :: "instant option"
  ann_adopted_by_user_id :: "string option"
  ann_adoption_token_secret :: "string option"
  ann_enrollment_token_id :: "string option"
  ann_delivered_at :: "instant option"
  ann_consumed_at :: "instant option"
  ann_rejected_at :: "instant option"

record webhook_channel =
  whc_id :: string
  whc_organization_id :: "string option"
  whc_name :: string
  whc_kind :: string
  whc_config :: pydict
  whc_signing_secret :: "string option"
  whc_enabled :: bool
  whc_created_by_user_id :: "string option"
  whc_created_at :: instant
  whc_updated_at :: instant

record notification_subscription =
  nsub_id :: string
  nsub_organization_id :: "string option"
  nsub_event_type :: string
  nsub_channel_id :: string
  nsub_site_id :: "string option"
  nsub_enabled :: bool
  nsub_created_at :: instant

record webhook_delivery =
  whd_id :: int
  whd_organization_id :: "string option"
  whd_channel_id :: string
  whd_event_type :: string
  whd_payload :: pydict
  whd_status :: string
  whd_attempts :: int
  whd_http_status :: "int option"
  whd_response_snippet :: "string option"
  whd_next_attempt_at :: "instant option"
  whd_created_at :: instant
  whd_updated_at :: instant

record firmware_release =
  fwr_id :: string
  fwr_version :: string
  fwr_channel :: string
  fwr_filename :: string
  fwr_download_url :: string
  fwr_sha256 :: string
  fwr_size_bytes :: "int option"
  fwr_release_notes :: "string option"
  fwr_created_by_user_id :: "string option"
  fwr_created_at :: instant

record firmware_deployment =
  fwd_id :: string
  fwd_release_id :: string
  fwd_target_type :: string
  fwd_target_id :: "string option"
  fwd_channel :: string
  fwd_force :: bool
  fwd_issued_by_user_id :: "string option"
  fwd_created_at :: instant

record deployment_assignment =
  fda_id :: string
  fda_deployment_id :: string
  fda_release_id :: string
  fda_device_id :: string
  fda_state :: string
  fda_last_reported_version :: "string option"
  fda_error_message :: "string option"
  fda_created_at :: instant
  fda_updated_at :: instant

record firmware_mirror =
  fmir_id :: string
  fmir_release_id :: string
  fmir_kind :: string
  fmir_url :: string
  fmir_status :: string
  fmir_verified_sha256 :: "string option"
  fmir_last_probed_at :: "instant option"
  fmir_last_error :: "string option"
  fmir_created_at :: instant

text \<open>
  What devices report. The many columns that hold a reported value as it came are one dictionary by
  column name, in which a column that is \<open>NULL\<close> is absent or \<open>None\<close>.
\<close>

record heartbeat =
  hb_id :: int
  hb_device_id :: string
  hb_received_at :: instant
  hb_last_event_at :: "instant option"
  hb_columns :: pydict

record device_event =
  de_id :: int
  de_device_id :: string
  de_type :: string
  de_timestamp :: instant
  de_received_at :: instant
  de_mode :: pyval
  de_message :: pyval
  de_details :: pyval

record power_sample =
  ps_id :: int
  ps_device_id :: string
  ps_channel_id :: int
  ps_sampled_at :: instant
  ps_received_at :: instant
  ps_source :: string
  ps_source_flags :: int
  ps_columns :: pydict

record failsafe_event =
  fse_id :: string
  fse_device_id :: string
  fse_received_at :: instant
  fse_failed_version :: "string option"
  fse_fallback_to_version :: "string option"
  fse_reason :: string
  fse_details :: "string option"

record auth_attempt =
  ua_id :: int
  ua_claimed_device_id :: "string option"
  ua_source_ip :: string
  ua_endpoint :: string
  ua_user_agent :: "string option"
  ua_auth_present :: bool
  ua_first_seen_at :: instant
  ua_last_seen_at :: instant
  ua_hit_count :: int

record signup_request =
  sreq_id :: string
  sreq_email :: string
  sreq_display_name :: string
  sreq_message :: "string option"
  sreq_status :: string
  sreq_reviewed_by_user_id :: "string option"
  sreq_reviewed_at :: "instant option"
  sreq_invitation_id :: "string option"
  sreq_created_at :: instant

record attention_ack =
  ack_id :: string
  ack_attention_id :: string
  ack_by_user_id :: "string option"
  ack_at :: instant
  ack_snooze_until :: "instant option"
  ack_reason :: "string option"

text \<open>
  External sources and what they delivered, the cached television guide and the daily power totals.
  A \<open>JSON\<close> column keeps the value it was given; \<open>NUMERIC\<close> columns are decimals.
\<close>

record sensor_source =
  src_id :: string
  src_organization_id :: "string option"
  src_kind :: string
  src_display_name :: string
  src_host :: string
  src_port :: int
  src_enabled :: bool
  src_poll_interval_seconds :: int
  src_last_polled_at :: "instant option"
  src_last_success_at :: "instant option"
  src_last_error :: "string option"
  src_config :: "pydict option"
  src_created_at :: instant
  src_updated_at :: instant

record sensor_sample =
  smp_id :: int
  smp_source_id :: string
  smp_sampled_at :: instant
  smp_payload :: pyval

record epg_row =
  epg_id :: int
  epg_provider :: string
  epg_channel_id :: string
  epg_airing_start :: instant
  epg_airing_end :: instant
  epg_show_title :: string
  epg_episode_title :: "string option"
  epg_season :: "int option"
  epg_episode :: "int option"
  epg_extra :: pyval
  epg_fetched_at :: instant

record power_rollup =
  pr_id :: int
  pr_device_id :: string
  pr_day_bucket :: instant
  pr_computed_at :: instant
  pr_sample_count :: int
  pr_synthetic_sample_count :: "int option"
  pr_avg_w :: pyval
  pr_min_w :: pyval
  pr_max_w :: pyval
  pr_kwh :: pyval

section \<open>Process state\<close>

text \<open>
  A subscriber of the in-process event bus: its bounded queue, its closed flag and whether
  the weak reference to it is still alive. \<open>None\<close> in the queue is the sentinel that
  \<open>close()\<close> puts.
\<close>

record bus_event =
  ev_kind :: string
  ev_command_id :: string
  ev_device_id :: string
  ev_device_local_ip :: "string option"
  ev_type :: string
  ev_payload :: pydict
  ev_created_at :: instant

record subscriber =
  sub_id :: nat
  sub_queue :: "bus_event option list"
  sub_maxsize :: nat
  sub_closed :: bool
  sub_alive :: bool

text \<open>Calls that leave the process: a notification handed to \<open>notifications.emit\<close>, and the
  escalation webhook of a watchdog rule.\<close>

datatype outbound =
    Emit string pydict "string option"
  | EscalationWebhook string pyval pydict

text \<open>
  What the services take from outside the repository: the ULID package, the wall clock during
  the call, \<open>datetime.fromisoformat\<close> (a naive result is read as UTC, as every caller does),
  \<open>datetime.isoformat\<close> and the text of \<open>str(v)\<close> for values that are not strings.
\<close>

record env =
  env_ulid :: ulid_gen
  env_now :: instant
  env_fromiso :: "string \<Rightarrow> instant option"
  env_isoformat :: "instant \<Rightarrow> string"
  env_repr :: "pyval \<Rightarrow> string"

section \<open>The hub\<close>

record hub =
  h_devices :: "device list"
  h_credentials :: "device_credential list"
  h_enrollment_tokens :: "enrollment_token list"
  h_organizations :: "organization list"
  h_sites :: "site list"
  h_groups :: "group_row list"
  h_memberships :: "group_membership list"
  h_users :: "user list"
  h_role_bindings :: "role_binding list"
  h_audit :: "audit_event list"
  h_commands :: "command list"
  h_results :: "command_result list"
  h_rules :: "watchdog_rule list"
  h_probe_events :: "probe_event list"
  h_scenes :: "scene list"
  h_flags :: "runtime_flag list"
  h_settings :: "runtime_setting list"
  h_schedules :: "schedule list"
  h_org_memberships :: "organization_membership list"
  h_user_sessions :: "user_session list"
  h_invitations :: "invitation list"
  h_password_resets :: "password_reset list"
  h_api_tokens :: "api_token list"
  h_announcements :: "announcement list"
  h_channels :: "webhook_channel list"
  h_subscriptions :: "notification_subscription list"
  h_deliveries :: "webhook_delivery list"
  h_delivery_seq :: int
  h_releases :: "firmware_release list"
  h_deployments :: "firmware_deployment list"
  h_assignments :: "deployment_assignment list"
  h_mirrors :: "firmware_mirror list"
  h_heartbeats :: "heartbeat list"
  h_device_events :: "device_event list"
  h_power_samples :: "power_sample list"
  h_failsafe_events :: "failsafe_event list"
  h_auth_attempts :: "auth_attempt list"
  h_signup_requests :: "signup_request list"
  h_acks :: "attention_ack list"
  h_sensor_sources :: "sensor_source list"
  h_sensor_samples :: "sensor_sample list"
  h_epg_rows :: "epg_row list"
  h_power_rollups :: "power_rollup list"
  h_row_seq :: int
  h_outbound :: "outbound list"
  h_bus :: "subscriber list"
  h_next_sub :: nat
  h_ulid :: nat

definition empty_hub :: hub where
  "empty_hub = \<lparr>h_devices = [], h_credentials = [], h_enrollment_tokens = [],
     h_organizations = [], h_sites = [], h_groups = [], h_memberships = [], h_users = [],
     h_role_bindings = [], h_audit = [], h_commands = [], h_results = [], h_rules = [],
     h_probe_events = [], h_scenes = [], h_flags = [], h_settings = [], h_schedules = [],
     h_org_memberships = [], h_user_sessions = [], h_invitations = [], h_password_resets = [],
     h_api_tokens = [], h_announcements = [], h_channels = [], h_subscriptions = [], h_deliveries = [], h_delivery_seq = 0,
     h_releases = [], h_deployments = [], h_assignments = [],
     h_mirrors = [], h_heartbeats = [], h_device_events = [], h_power_samples = [], h_failsafe_events = [],
     h_auth_attempts = [], h_signup_requests = [], h_acks = [],
     h_sensor_sources = [], h_sensor_samples = [], h_epg_rows = [], h_power_rollups = [], h_row_seq = 0,
     h_outbound = [], h_bus = [], h_next_sub = 0, h_ulid = 0\<rparr>"

text \<open>A freshly inserted device row with every column at its declared default.\<close>

definition new_device :: "string \<Rightarrow> string \<Rightarrow> instant \<Rightarrow> device" where
  "new_device i name now = \<lparr>dev_id = i, dev_display_name = name, dev_hardware_model = None,
     dev_hardware_revision = None, dev_firmware_version = None, dev_mac_address = None,
     dev_serial_number = None, dev_local_ip = None, dev_notes = None, dev_site_id = None,
     dev_central_management_enabled = True, dev_registration_state = ''pending'',
     dev_capabilities = VDict [], dev_last_heartbeat_at = None, dev_last_seen_at = None,
     dev_is_qa_fixture = False, dev_is_protected = False, dev_is_held_off = False,
     dev_power_source_device_id = None, dev_last_known_relay_on = None,
     dev_desired_config = None, dev_desired_mode = None, dev_last_reported_config = None,
     dev_desired_config_updated_at = None, dev_last_config_pushed_at = None,
     dev_reported_recovery_mode = None, dev_reported_auto_recovery_triggered = None,
     dev_reported_last_known_good_restored = None,
     dev_reported_consecutive_unhealthy_boots = None, dev_reported_in_captive_portal = None,
     dev_reported_central_enabled = None, dev_reported_central_registered = None,
     dev_reported_central_state = None, dev_last_wifi_scan = None,
     dev_last_wifi_scan_at = None,
     dev_created_at = now, dev_updated_at = now\<rparr>"

text \<open>\<open>session.get\<close> on the tables the services address by primary key.\<close>

definition get_device :: "string \<Rightarrow> hub \<Rightarrow> device option" where
  "get_device k h = tget dev_id k (h_devices h)"

definition get_command :: "string \<Rightarrow> hub \<Rightarrow> command option" where
  "get_command k h = tget c_id k (h_commands h)"

definition get_site :: "string \<Rightarrow> hub \<Rightarrow> site option" where
  "get_site k h = tget site_id k (h_sites h)"

definition get_scene :: "string \<Rightarrow> hub \<Rightarrow> scene option" where
  "get_scene k h = tget scn_id k (h_scenes h)"

definition modify_device :: "string \<Rightarrow> (device \<Rightarrow> device) \<Rightarrow> hub \<Rightarrow> hub" where
  "modify_device k f h = h\<lparr>h_devices := tupd dev_id k f (h_devices h)\<rparr>"

definition put_device :: "device \<Rightarrow> hub \<Rightarrow> hub" where
  "put_device d h = h\<lparr>h_devices := tadd d (h_devices h)\<rparr>"

definition modify_command :: "string \<Rightarrow> (command \<Rightarrow> command) \<Rightarrow> hub \<Rightarrow> hub" where
  "modify_command k f h = h\<lparr>h_commands := tupd c_id k f (h_commands h)\<rparr>"

definition put_command :: "command \<Rightarrow> hub \<Rightarrow> hub" where
  "put_command c h = h\<lparr>h_commands := tadd c (h_commands h)\<rparr>"

text \<open>The device ids of a group, in the order the membership query returns them.\<close>

definition group_device_ids :: "string \<Rightarrow> hub \<Rightarrow> string list" where
  "group_device_ids gid h =
     map gm_device_id (filter (\<lambda>m. gm_group_id m = gid) (h_memberships h))"

interpretation dev_tbl: row_store dev_id get_device put_device modify_device h_devices
  "\<lambda>h. pk_ok dev_id (h_devices h)"
  by unfold_locales
    (auto simp: get_device_def put_device_def modify_device_def pk_ok_get pk_ok_tadd pk_ok_tupd
      tget_None_iff tadd_def[symmetric] set_tupd, simp_all add: tadd_def tupd_def)

interpretation cmd_tbl: row_store c_id get_command put_command modify_command h_commands
  "\<lambda>h. pk_ok c_id (h_commands h)"
  by unfold_locales
    (auto simp: get_command_def put_command_def modify_command_def pk_ok_get pk_ok_tadd pk_ok_tupd
      tget_None_iff tadd_def[symmetric] set_tupd, simp_all add: tadd_def tupd_def)

end
