(* ===== verification/RuntimeSettings.thy ===== *)
theory RuntimeSettings
  imports Models
begin

text \<open>
  The key/value settings an operator can change at run time (\<open>app/services/runtime_settings.py\<close>)
  and the context a request or a job runs in: the process environment, the monotonic clock, the
  context variables and module globals of \<open>tenant_scope.py\<close>, the authenticated user and the
  request line. A setting is resolved from its row, then the environment variable, then the default.
\<close>

section \<open>The context of a call\<close>

datatype callback = InvalidateEnforceCache

record ctx =
  cx_environ :: "string \<Rightarrow> string option"
  cx_mono :: instant
  cx_org :: "string option"
  cx_bypass :: bool
  cx_in_filter :: bool
  cx_cache_value :: "string option"
  cx_cache_expires_at :: instant
  cx_callbacks :: "(string \<times> callback list) list"
  cx_callback_registered :: bool
  cx_user :: "user option"
  cx_route :: "string option"
  cx_method :: "string option"
  cx_client_ip :: "string option"

text \<open>\<open>invalidate_enforce_mode_cache\<close> of \<open>tenant_scope.py\<close>, the one callback the program registers.\<close>

definition invalidate_enforce_mode_cache :: "ctx \<Rightarrow> ctx" where
  "invalidate_enforce_mode_cache c = c\<lparr>cx_cache_value := None, cx_cache_expires_at := 0\<rparr>"

fun run_callback :: "callback \<Rightarrow> ctx \<Rightarrow> ctx" where
  "run_callback InvalidateEnforceCache c = invalidate_enforce_mode_cache c"

definition callbacks_of :: "string \<Rightarrow> ctx \<Rightarrow> callback list" where
  "callbacks_of name c = (case map_of (cx_callbacks c) name of None \<Rightarrow> [] | Some cbs \<Rightarrow> cbs)"

definition register_change_callback :: "string \<Rightarrow> callback \<Rightarrow> ctx \<Rightarrow> ctx" where
  "register_change_callback name cb c =
     c\<lparr>cx_callbacks := AList.update name (callbacks_of name c @ [cb]) (cx_callbacks c)\<rparr>"

definition fire_change_callbacks :: "string \<Rightarrow> ctx \<Rightarrow> ctx" where
  "fire_change_callbacks name c = fold run_callback (callbacks_of name c) c"

section \<open>Reading\<close>

definition rs_resolve ::
  "(string \<Rightarrow> string option) \<Rightarrow> runtime_setting option \<Rightarrow> string option \<Rightarrow> pyval \<Rightarrow> pyval" where
  "rs_resolve environ row env_var dflt =
     (case (case row of None \<Rightarrow> None | Some r \<Rightarrow> map_of (rs_value r) ''v'') of
        Some v \<Rightarrow> v
      | None \<Rightarrow>
          (case env_var of
             None \<Rightarrow> dflt
           | Some var \<Rightarrow>
               (if var = [] then dflt
                else case environ var of Some s \<Rightarrow> VStr s | None \<Rightarrow> dflt)))"

definition setting_row :: "string \<Rightarrow> runtime_setting list \<Rightarrow> runtime_setting option" where
  "setting_row name rows = tget rs_name name rows"

definition settings_get ::
  "ctx \<Rightarrow> runtime_setting list \<Rightarrow> string \<Rightarrow> string option \<Rightarrow> pyval \<Rightarrow> pyval" where
  "settings_get c rows name env_var dflt =
     rs_resolve (cx_environ c) (setting_row name rows) env_var dflt"

definition has_db_value :: "string \<Rightarrow> hub \<Rightarrow> bool" where
  "has_db_value name h \<longleftrightarrow> setting_row name (h_settings h) \<noteq> None"

section \<open>Writing\<close>

definition put_setting :: "string \<Rightarrow> pyval \<Rightarrow> instant \<Rightarrow> string option \<Rightarrow>
    runtime_setting list \<Rightarrow> runtime_setting list" where
  "put_setting name v now uid rows =
     (case setting_row name rows of
        None \<Rightarrow> tadd \<lparr>rs_name = name, rs_value = [(''v'', v)], rs_updated_at = now,
                       rs_updated_by_user_id = uid\<rparr> rows
      | Some _ \<Rightarrow> tupd rs_name name
                    (\<lambda>r. r\<lparr>rs_value := [(''v'', v)], rs_updated_at := now, rs_updated_by_user_id := uid\<rparr>)
                    rows)"

definition set_setting :: "string \<Rightarrow> pyval \<Rightarrow> instant \<Rightarrow> string option \<Rightarrow> ctx \<times> hub \<Rightarrow> ctx \<times> hub" where
  "set_setting name v now uid s =
     (fire_change_callbacks name (fst s),
      (snd s)\<lparr>h_settings := put_setting name v now uid (h_settings (snd s))\<rparr>)"

definition delete_setting :: "string \<Rightarrow> ctx \<times> hub \<Rightarrow> bool \<times> ctx \<times> hub" where
  "delete_setting name s =
     (case setting_row name (h_settings (snd s)) of
        None \<Rightarrow> (False, s)
      | Some _ \<Rightarrow> (True, fire_change_callbacks name (fst s),
                   (snd s)\<lparr>h_settings := tdel rs_name name (h_settings (snd s))\<rparr>))"

section \<open>Lemmas\<close>

lemma setting_row_put [simp]:
  "setting_row n (put_setting name v now uid rows) =
     (if n = name
      then Some (case setting_row name rows of
                   None \<Rightarrow> \<lparr>rs_name = name, rs_value = [(''v'', v)], rs_updated_at = now,
                            rs_updated_by_user_id = uid\<rparr>
                 | Some r \<Rightarrow> r\<lparr>rs_value := [(''v'', v)], rs_updated_at := now, rs_updated_by_user_id := uid\<rparr>)
      else setting_row n rows)"
  by (auto simp: put_setting_def setting_row_def tbl_simps split: option.splits)

lemma settings_get_put_same: "settings_get c (put_setting name v now uid rows) name ev d = v"
  by (auto simp: settings_get_def rs_resolve_def split: option.splits)

lemma settings_get_put_other:
  "n \<noteq> name \<Longrightarrow> settings_get c (put_setting name v now uid rows) n ev d = settings_get c rows n ev d"
  by (simp add: settings_get_def)

lemma settings_get_deleted:
  "setting_row name rows = None \<Longrightarrow>
     settings_get c rows name ev d = rs_resolve (cx_environ c) None ev d"
  by (simp add: settings_get_def)

lemma setting_row_tdel [simp]:
  "setting_row n (tdel rs_name name rows) = (if n = name then None else setting_row n rows)"
  by (simp add: setting_row_def tbl_simps)

lemma pk_ok_put_setting [simp]:
  "pk_ok rs_name rows \<Longrightarrow> pk_ok rs_name (put_setting name v now uid rows)"
  by (auto simp: put_setting_def setting_row_def tbl_simps tget_None_iff split: option.splits)

lemma run_callback_frame [simp]:
  "cx_org (run_callback cb c) = cx_org c" "cx_bypass (run_callback cb c) = cx_bypass c"
  "cx_environ (run_callback cb c) = cx_environ c" "cx_mono (run_callback cb c) = cx_mono c"
  by (cases cb; simp add: invalidate_enforce_mode_cache_def)+

lemma fold_run_callback:
  "fold run_callback cbs c = (if cbs = [] then c else invalidate_enforce_mode_cache c)"
proof (induction cbs arbitrary: c)
  case Nil
  show ?case by simp
next
  case (Cons cb cbs)
  then show ?case by (cases cb) (simp add: invalidate_enforce_mode_cache_def)
qed

lemma fire_change_callbacks_eq:
  "fire_change_callbacks name c =
     (if callbacks_of name c = [] then c else invalidate_enforce_mode_cache c)"
  by (simp add: fire_change_callbacks_def fold_run_callback)

lemma callbacks_of_register:
  "callbacks_of n (register_change_callback name cb c) =
     (if n = name then callbacks_of name c @ [cb] else callbacks_of n c)"
  by (simp add: callbacks_of_def register_change_callback_def update_conv')

end
