(* ===== verification/TenantScope.thy ===== *)
theory TenantScope
  imports RuntimeSettings
begin

text \<open>
  Tenant isolation (\<open>app/services/tenant_scope.py\<close>): the active organization and the system bypass
  of a call, the enforcement mode with its cache, the filter every SELECT passes through and the
  guard every flush passes through, with the audit rows they write (\<open>audit.record_on_session\<close>).
  A SELECT is seen through the tables of its FROM clause, a flush through its new and dirty objects.
\<close>

section \<open>Constants\<close>

abbreviation SHADOW :: string where "SHADOW \<equiv> ''shadow''"
abbreviation ENFORCE :: string where "ENFORCE \<equiv> ''enforce''"

definition ORG_ENFORCE_MODE_KEY :: string where
  "ORG_ENFORCE_MODE_KEY = ''org_isolation.enforce''"

definition ORG_ENFORCE_MODE_ENV :: string where
  "ORG_ENFORCE_MODE_ENV = ''REBOOTER_ORG_ISOLATION_ENFORCE''"

definition ENFORCE_CACHE_TTL :: instant where
  "ENFORCE_CACHE_TTL = secs 5"

text \<open>The tables and the classes of the models that mix in \<open>TenantScoped\<close>.\<close>

definition tenant_scoped_tablenames :: "string list" where
  "tenant_scoped_tablenames = [''device_announcements'', ''api_tokens'', ''audit_events'',
     ''enrollment_tokens'', ''external_sensor_sources'', ''groups'', ''invitations'',
     ''webhook_channels'', ''notification_subscriptions'', ''webhook_deliveries'', ''role_bindings'',
     ''scenes'', ''schedules'', ''sites'', ''watchdog_rules'']"

definition tenant_scoped_classes :: "string list" where
  "tenant_scoped_classes = [''DeviceAnnouncement'', ''ApiToken'', ''AuditEvent'', ''EnrollmentToken'',
     ''ExternalSensorSource'', ''Group'', ''Invitation'', ''WebhookChannel'',
     ''NotificationSubscription'', ''WebhookDelivery'', ''RoleBinding'', ''Scene'', ''Schedule'',
     ''Site'', ''WatchdogRule'']"

section \<open>Enforcement mode\<close>

definition py_str :: "env \<Rightarrow> pyval \<Rightarrow> string" where
  "py_str E v = (case v of VStr s \<Rightarrow> s | _ \<Rightarrow> env_repr E v)"

definition mode_of :: "env \<Rightarrow> pyval \<Rightarrow> string" where
  "mode_of E raw = (if py_lower (py_strip (py_str E raw)) = ENFORCE then ENFORCE else SHADOW)"

definition ensure_registered :: "ctx \<Rightarrow> ctx" where
  "ensure_registered c =
     (if cx_callback_registered c then c
      else (register_change_callback ORG_ENFORCE_MODE_KEY InvalidateEnforceCache c)
             \<lparr>cx_callback_registered := True\<rparr>)"

text \<open>The settings the session sees; \<open>None\<close> when reading them raised.\<close>

definition org_setting :: "env \<Rightarrow> ctx \<Rightarrow> runtime_setting list \<Rightarrow> string" where
  "org_setting E c rows =
     mode_of E (settings_get c rows ORG_ENFORCE_MODE_KEY (Some ORG_ENFORCE_MODE_ENV) (VStr SHADOW))"

definition enforce_mode ::
  "env \<Rightarrow> bool \<Rightarrow> runtime_setting list option \<Rightarrow> ctx \<Rightarrow> string \<times> ctx" where
  "enforce_mode E cacheable view c0 =
     (let c = ensure_registered c0 in
      case (if cx_mono c < cx_cache_expires_at c then cx_cache_value c else None) of
        Some m \<Rightarrow> (m, c)
      | None \<Rightarrow> (case view of
                   None \<Rightarrow> (SHADOW, c)
                 | Some rows \<Rightarrow>
                     let mode = org_setting E c rows
                     in (mode, if cacheable
                               then c\<lparr>cx_cache_value := Some mode,
                                      cx_cache_expires_at := cx_mono c + ENFORCE_CACHE_TTL\<rparr>
                               else c)))"

definition is_enforcing ::
  "env \<Rightarrow> bool \<Rightarrow> runtime_setting list option \<Rightarrow> ctx \<Rightarrow> bool \<times> ctx" where
  "is_enforcing E cacheable view c =
     (let (m, c') = enforce_mode E cacheable view c in (m = ENFORCE, c'))"

section \<open>Scope\<close>

text \<open>A \<open>Token\<close> is the value to restore, or one that belongs to another context.\<close>

datatype scope_token = Restore "string option" | ForeignToken

definition set_org :: "string option \<Rightarrow> ctx \<Rightarrow> scope_token \<times> ctx" where
  "set_org org c = (Restore (cx_org c), c\<lparr>cx_org := org\<rparr>)"

fun reset_org :: "scope_token option \<Rightarrow> ctx \<Rightarrow> ctx" where
  "reset_org None c = c\<lparr>cx_org := None\<rparr>"
| "reset_org (Some (Restore org)) c = c\<lparr>cx_org := org\<rparr>"
| "reset_org (Some ForeignToken) c = c\<lparr>cx_org := None\<rparr>"

text \<open>The two context managers around a block; the block's exception is part of its result.\<close>

definition with_scope ::
  "string option \<Rightarrow> bool \<Rightarrow> (ctx \<times> 's \<Rightarrow> 'a \<times> ctx \<times> 's) \<Rightarrow> ctx \<times> 's \<Rightarrow> 'a \<times> ctx \<times> 's" where
  "with_scope org b body s =
     (let (r, c', t) = body ((fst s)\<lparr>cx_org := org, cx_bypass := b\<rparr>, snd s)
      in (r, c'\<lparr>cx_org := cx_org (fst s), cx_bypass := cx_bypass (fst s)\<rparr>, t))"

definition system :: "(ctx \<times> 's \<Rightarrow> 'a \<times> ctx \<times> 's) \<Rightarrow> ctx \<times> 's \<Rightarrow> 'a \<times> ctx \<times> 's" where
  "system body s = with_scope None True body s"

definition org_context :: "string \<Rightarrow> (ctx \<times> 's \<Rightarrow> 'a \<times> ctx \<times> 's) \<Rightarrow> ctx \<times> 's \<Rightarrow> 'a \<times> ctx \<times> 's" where
  "org_context org body s = with_scope (Some org) False body s"

section \<open>Audit rows on the session\<close>

definition build_event ::
  "env \<Rightarrow> ctx \<Rightarrow> string \<Rightarrow> string option \<Rightarrow> string option \<Rightarrow> string option \<Rightarrow> string option \<Rightarrow>
   pydict \<Rightarrow> string option \<Rightarrow> audit_event" where
  "build_event E c action uid email ttype tid details ip =
     \<lparr>au_at = env_now E, au_organization_id = cx_org c, au_actor_user_id = uid,
      au_actor_email_snapshot = email, au_action = action, au_target_type = ttype,
      au_target_id = tid, au_details = details,
      au_ip = (case ip of None \<Rightarrow> cx_client_ip c | Some a \<Rightarrow> Some a)\<rparr>"

definition record_on_session ::
  "env \<Rightarrow> string \<Rightarrow> string option \<Rightarrow> string option \<Rightarrow> string option \<Rightarrow> string option \<Rightarrow>
   pydict \<Rightarrow> string option \<Rightarrow> ctx \<times> hub \<Rightarrow> unit \<times> ctx \<times> hub" where
  "record_on_session E action uid email ttype tid details ip s =
     ((), fst s, (snd s)\<lparr>h_audit := h_audit (snd s) @
        [build_event E (fst s) action uid email ttype tid details ip]\<rparr>)"

definition emit_audit :: "env \<Rightarrow> string \<Rightarrow> pydict \<Rightarrow> ctx \<times> hub \<Rightarrow> ctx \<times> hub" where
  "emit_audit E action details s =
     snd (system (record_on_session E action None None None None details None) s)"

section \<open>The read filter\<close>

definition touches_tenant_scoped :: "string list \<Rightarrow> bool" where
  "touches_tenant_scoped tables = list_ex (\<lambda>t. t \<in> set tenant_scoped_tablenames) tables"

definition unscoped_note :: string where
  "unscoped_note = ''Tier-A SELECT executed with no org scope and no system bypass ''
     @ [CHR 0xE2, CHR 0x80, CHR 0x94] @ '' see design '' @ [CHR 0xC2, CHR 0xA7] @ ''3.4.''"

definition unscoped_violation :: "env \<Rightarrow> string list \<Rightarrow> ctx \<times> hub \<Rightarrow> ctx \<times> hub" where
  "unscoped_violation E tables s =
     emit_audit E ''tenant.unscoped_access''
       [(''tables'', VList (map VStr (sort (remdups tables)))), (''note'', VStr unscoped_note)] s"

text \<open>The organization the statement is restricted to, if any.\<close>

definition add_tenant_filter ::
  "env \<Rightarrow> bool \<Rightarrow> string list \<Rightarrow> ctx \<times> hub \<Rightarrow> string option \<times> ctx \<times> hub" where
  "add_tenant_filter E is_select tables s =
     (let (c, h) = s in
      if \<not> is_select \<or> cx_in_filter c \<or> \<not> touches_tenant_scoped tables \<or> cx_bypass c then (None, c, h)
      else case cx_org c of
             None \<Rightarrow> (let (c', h') = unscoped_violation E tables (c\<lparr>cx_in_filter := True\<rparr>, h)
                      in (None, c'\<lparr>cx_in_filter := cx_in_filter c\<rparr>, h'))
           | Some org \<Rightarrow> (let (enforcing, c') = is_enforcing E True (Some (h_settings h)) (c\<lparr>cx_in_filter := True\<rparr>)
                        in (if enforcing then Some org else None, c'\<lparr>cx_in_filter := cx_in_filter c\<rparr>, h)))"

definition visible :: "('r \<Rightarrow> string option) \<Rightarrow> string option \<Rightarrow> 'r list \<Rightarrow> 'r list" where
  "visible org_of flt rows =
     (case flt of None \<Rightarrow> rows | Some org \<Rightarrow> filter (\<lambda>r. org_of r = Some org) rows)"

text \<open>A SELECT over one tenant-scoped table.\<close>

definition select_scoped ::
  "env \<Rightarrow> string \<Rightarrow> ('r \<Rightarrow> string option) \<Rightarrow> (hub \<Rightarrow> 'r list) \<Rightarrow> ctx \<times> hub \<Rightarrow> 'r list \<times> ctx \<times> hub" where
  "select_scoped E table org_of rows s =
     (let (flt, s') = add_tenant_filter E True [table] s
      in (visible org_of flt (rows (snd s)), s'))"

section \<open>The write guard\<close>

datatype tenant_error = CrossOrgWriteError string "string option" "string option"

record flush_obj =
  fo_class :: string
  fo_org :: "string option"
  fo_modified :: bool

definition write_details :: "bool \<Rightarrow> bool \<Rightarrow> string \<Rightarrow> string \<Rightarrow> string \<Rightarrow> pydict" where
  "write_details enforcing is_insert entity row_org active_org =
     [(''entity'', VStr entity), (''op'', VStr (if is_insert then ''insert'' else ''update'')),
      (''row_organization_id'', VStr row_org), (''active_organization_id'', VStr active_org),
      (''enforce_mode'', VStr (if enforcing then ENFORCE else SHADOW))]"

definition unstamped_note :: string where
  "unstamped_note = ''TenantScoped write with no org scope '' @ [CHR 0xE2, CHR 0x80, CHR 0x94]
     @ '' could not stamp organization_id.''"

definition guard_one ::
  "env \<Rightarrow> bool \<Rightarrow> bool \<Rightarrow> string \<Rightarrow> string option \<Rightarrow> ctx \<times> hub \<Rightarrow>
   tenant_error + (string option \<times> ctx \<times> hub)" where
  "guard_one E enforcing is_insert entity row_org s =
     (case cx_org (fst s) of
        None \<Rightarrow>
          (case row_org of
             None \<Rightarrow> Inr (None, emit_audit E ''tenant.unscoped_access''
                       [(''entity'', VStr entity), (''op'', VStr (if is_insert then ''insert'' else ''update'')),
                        (''note'', VStr unstamped_note)] s)
           | Some _ \<Rightarrow> Inr (row_org, s))
      | Some active \<Rightarrow>
          (case row_org of
             None \<Rightarrow> Inr (Some active, s)
           | Some r \<Rightarrow>
               (if r = active then Inr (row_org, s)
                else
                  let s' = emit_audit E (if enforcing then ''tenant.enforce_write'' else ''tenant.shadow_write'')
                             (write_details enforcing is_insert entity r active) s
                  in if enforcing then Inl (CrossOrgWriteError entity row_org (Some active))
                     else Inr (row_org, s'))))"

definition guarded :: "bool \<Rightarrow> flush_obj \<Rightarrow> bool" where
  "guarded is_insert ob \<longleftrightarrow> fo_class ob \<in> set tenant_scoped_classes \<and> fo_class ob \<noteq> ''AuditEvent''
     \<and> (is_insert \<or> fo_modified ob)"

fun guard_all ::
  "env \<Rightarrow> bool \<Rightarrow> bool \<Rightarrow> flush_obj list \<Rightarrow> ctx \<times> hub \<Rightarrow> tenant_error + (flush_obj list \<times> ctx \<times> hub)" where
  "guard_all E enforcing is_insert [] s = Inr ([], s)"
| "guard_all E enforcing is_insert (ob # obs) s =
     (if \<not> guarded is_insert ob
      then case guard_all E enforcing is_insert obs s of
             Inl e \<Rightarrow> Inl e | Inr (obs', s') \<Rightarrow> Inr (ob # obs', s')
      else case guard_one E enforcing is_insert (fo_class ob) (fo_org ob) s of
             Inl e \<Rightarrow> Inl e
           | Inr (o', s1) \<Rightarrow>
               (case guard_all E enforcing is_insert obs s1 of
                  Inl e \<Rightarrow> Inl e | Inr (obs', s') \<Rightarrow> Inr (ob\<lparr>fo_org := o'\<rparr> # obs', s')))"

definition stamp_and_guard_tenant_writes ::
  "env \<Rightarrow> flush_obj list \<Rightarrow> flush_obj list \<Rightarrow> ctx \<times> hub \<Rightarrow>
   tenant_error + (flush_obj list \<times> flush_obj list \<times> ctx \<times> hub)" where
  "stamp_and_guard_tenant_writes E new dirty s =
     (let (c, h) = s in
      if cx_bypass c then Inr (new, dirty, s)
      else
        let (enforcing, c') = is_enforcing E False (Some (h_settings h)) (c\<lparr>cx_in_filter := True\<rparr>);
            c1 = c'\<lparr>cx_in_filter := cx_in_filter c\<rparr>
        in case guard_all E enforcing True new (c1, h) of
             Inl e \<Rightarrow> Inl e
           | Inr (new', s1) \<Rightarrow>
               (case guard_all E enforcing False dirty s1 of
                  Inl e \<Rightarrow> Inl e
                | Inr (dirty', s2) \<Rightarrow> Inr (new', dirty', s2)))"

section \<open>Frame facts\<close>

lemma ensure_registered_frame [simp]:
  "cx_org (ensure_registered c) = cx_org c" "cx_bypass (ensure_registered c) = cx_bypass c"
  "cx_mono (ensure_registered c) = cx_mono c" "cx_environ (ensure_registered c) = cx_environ c"
  "cx_cache_value (ensure_registered c) = cx_cache_value c"
  "cx_cache_expires_at (ensure_registered c) = cx_cache_expires_at c"
  "cx_in_filter (ensure_registered c) = cx_in_filter c" "cx_user (ensure_registered c) = cx_user c"
  by (simp_all add: ensure_registered_def register_change_callback_def)

lemma org_setting_cong: "cx_environ c = cx_environ c' \<Longrightarrow> org_setting E c rows = org_setting E c' rows"
  by (simp add: org_setting_def settings_get_def)

lemma enforce_mode_frame:
  assumes "enforce_mode E cacheable view c = (m, c')"
  shows "cx_org c' = cx_org c" and "cx_bypass c' = cx_bypass c" and "cx_mono c' = cx_mono c"
    and "cx_environ c' = cx_environ c" and "cx_in_filter c' = cx_in_filter c" and "cx_user c' = cx_user c"
  using assms by (auto simp: enforce_mode_def Let_def split: option.splits if_splits)

lemma emit_audit_eq:
  "emit_audit E action details (c, h) =
     (c, h\<lparr>h_audit := h_audit h @
        [build_event E (c\<lparr>cx_org := None, cx_bypass := True\<rparr>) action None None None None details None]\<rparr>)"
  by (simp add: emit_audit_def system_def with_scope_def record_on_session_def)

text \<open>Both context managers restore the scope they found, whatever the block did to it.\<close>

lemma with_scope_restores:
  assumes "with_scope org b body (c, t) = (r, c', t')"
  shows "cx_org c' = cx_org c" and "cx_bypass c' = cx_bypass c"
  using assms by (auto simp: with_scope_def split: prod.splits)

section \<open>The cache of the enforcement mode\<close>

text \<open>A cached value is only ever there once the invalidation callback is registered.\<close>

definition cache_ok :: "ctx \<Rightarrow> bool" where
  "cache_ok c \<longleftrightarrow>
     (cx_callback_registered c \<longrightarrow> callbacks_of ORG_ENFORCE_MODE_KEY c \<noteq> []) \<and>
     (cx_cache_value c \<noteq> None \<longrightarrow> cx_callback_registered c)"

lemma callbacks_of_cong: "cx_callbacks c = cx_callbacks c' \<Longrightarrow> callbacks_of n c = callbacks_of n c'"
  by (simp add: callbacks_of_def)

lemma callbacks_ensure_registered:
  "cache_ok c \<Longrightarrow> callbacks_of ORG_ENFORCE_MODE_KEY (ensure_registered c) \<noteq> []"
proof (cases "cx_callback_registered c")
  case True
  then show "cache_ok c \<Longrightarrow> ?thesis" by (simp add: cache_ok_def ensure_registered_def)
next
  case False
  let ?c = "register_change_callback ORG_ENFORCE_MODE_KEY InvalidateEnforceCache c"
  have "callbacks_of ORG_ENFORCE_MODE_KEY (?c\<lparr>cx_callback_registered := True\<rparr>)
          = callbacks_of ORG_ENFORCE_MODE_KEY ?c"
    by (rule callbacks_of_cong) simp
  then show "cache_ok c \<Longrightarrow> ?thesis"
    using False by (simp add: ensure_registered_def callbacks_of_register)
qed

lemma registered_ensure_registered [simp]: "cx_callback_registered (ensure_registered c)"
  by (simp add: ensure_registered_def)

lemma cache_ok_ensure_registered: "cache_ok c \<Longrightarrow> cache_ok (ensure_registered c)"
  using callbacks_ensure_registered [of c] by (simp add: cache_ok_def)

lemma cache_ok_set_cache:
  "cache_ok c \<Longrightarrow> cx_callback_registered c \<Longrightarrow>
     cache_ok (c\<lparr>cx_cache_value := v, cx_cache_expires_at := t\<rparr>)"
  using callbacks_of_cong [of "c\<lparr>cx_cache_value := v, cx_cache_expires_at := t\<rparr>" c]
  by (simp add: cache_ok_def)

lemma cache_ok_invalidate: "cache_ok c \<Longrightarrow> cache_ok (invalidate_enforce_mode_cache c)"
  using callbacks_of_cong [of "invalidate_enforce_mode_cache c" c]
  by (simp add: cache_ok_def invalidate_enforce_mode_cache_def)

lemma cache_ok_enforce_mode:
  assumes "cache_ok c" and "enforce_mode E cacheable view c = (m, c')"
  shows "cache_ok c'"
  using assms cache_ok_ensure_registered [OF assms(1)]
  by (auto simp: enforce_mode_def Let_def intro!: cache_ok_set_cache split: option.splits if_splits)

lemma fire_drops_cache:
  assumes "cache_ok c"
  shows "cx_cache_value (fire_change_callbacks ORG_ENFORCE_MODE_KEY c) = None"
  using assms by (auto simp: fire_change_callbacks_eq invalidate_enforce_mode_cache_def cache_ok_def)

lemma fire_frame [simp]:
  "cx_org (fire_change_callbacks n c) = cx_org c" "cx_bypass (fire_change_callbacks n c) = cx_bypass c"
  "cx_in_filter (fire_change_callbacks n c) = cx_in_filter c"
  "cx_mono (fire_change_callbacks n c) = cx_mono c"
  "cx_environ (fire_change_callbacks n c) = cx_environ c"
  by (simp_all add: fire_change_callbacks_eq invalidate_enforce_mode_cache_def)

lemma enforce_mode_no_cache:
  "cx_cache_value c = None \<Longrightarrow> fst (enforce_mode E cacheable (Some rows) c) = org_setting E c rows"
  using org_setting_cong [of "ensure_registered c" c] by (simp add: enforce_mode_def Let_def)

text \<open>
  One process over time: the clock advances, the mode is read (with a committed view, with a failing
  read, or mid-flush with an uncommitted view that must not be cached), this process writes the
  setting, or another process commits any change to the settings table.
\<close>

inductive enforce_step ::
  "env \<Rightarrow> ctx \<times> runtime_setting list \<Rightarrow> ctx \<times> runtime_setting list \<Rightarrow> bool" for E where
  advance: "0 \<le> d \<Longrightarrow> enforce_step E (c, rows) (c\<lparr>cx_mono := cx_mono c + d\<rparr>, rows)"
| read: "enforce_mode E True (Some rows) c = (m, c') \<Longrightarrow> enforce_step E (c, rows) (c', rows)"
| read_fails: "enforce_mode E b None c = (m, c') \<Longrightarrow> enforce_step E (c, rows) (c', rows)"
| read_in_flush: "enforce_mode E False (Some uncommitted) c = (m, c') \<Longrightarrow> enforce_step E (c, rows) (c', rows)"
| local_write: "enforce_step E (c, rows)
    (fire_change_callbacks name c, put_setting name v now uid rows)"
| other_process: "enforce_step E (c, rows) (c, rows')"

text \<open>A run, latest state first.\<close>

inductive enforce_run :: "env \<Rightarrow> (ctx \<times> runtime_setting list) list \<Rightarrow> bool" for E where
  start: "cx_cache_value c = None \<Longrightarrow> enforce_run E [(c, rows)]"
| step: "enforce_run E (s # tr) \<Longrightarrow> enforce_step E s s' \<Longrightarrow> enforce_run E (s' # s # tr)"

text \<open>The cached mode was the committed one at a state of the run, and expires a TTL after it.\<close>

definition cache_from :: "env \<Rightarrow> (ctx \<times> runtime_setting list) set \<Rightarrow> ctx \<Rightarrow> bool" where
  "cache_from E S c \<longleftrightarrow>
     (\<forall>m. cx_cache_value c = Some m \<longrightarrow>
        (\<exists>s \<in> S. m = org_setting E (fst s) (snd s) \<and> cx_mono (fst s) \<le> cx_mono c
                 \<and> cx_cache_expires_at c = cx_mono (fst s) + ENFORCE_CACHE_TTL))"

lemma cache_from_mono: "cache_from E S c \<Longrightarrow> S \<subseteq> T \<Longrightarrow> cache_from E T c"
  unfolding cache_from_def by blast

lemma cache_from_cong:
  "cache_from E S c \<Longrightarrow> cx_cache_value c' = cx_cache_value c \<Longrightarrow> cx_mono c \<le> cx_mono c' \<Longrightarrow>
   cx_cache_expires_at c' = cx_cache_expires_at c \<Longrightarrow> cache_from E S c'"
  unfolding cache_from_def by (metis order_trans)

lemma enforce_mode_cache_cases:
  assumes "enforce_mode E cacheable view c = (m, c')"
  shows "(cx_cache_value c' = cx_cache_value c \<and> cx_cache_expires_at c' = cx_cache_expires_at c)
       \<or> (\<exists>rows. cacheable \<and> view = Some rows \<and> cx_cache_value c' = Some (org_setting E c rows)
              \<and> cx_cache_expires_at c' = cx_mono c + ENFORCE_CACHE_TTL)"
  using assms org_setting_cong [of "ensure_registered c" c]
  by (auto simp: enforce_mode_def Let_def split: option.splits if_splits)

lemma enforce_step_cache_from:
  assumes "enforce_step E s s'" and "cache_from E S (fst s)" and "s \<in> S"
  shows "cache_from E S (fst s') \<and> cx_mono (fst s) \<le> cx_mono (fst s')"
  using assms
proof cases
  case (read rows c m c')
  from enforce_mode_cache_cases [OF read(3)] show ?thesis
  proof
    assume "cx_cache_value c' = cx_cache_value c \<and> cx_cache_expires_at c' = cx_cache_expires_at c"
    then show ?thesis
      using assms(2) enforce_mode_frame(3) [OF read(3)] read(1,2)
      by (auto intro: cache_from_cong [of E S c])
  next
    assume "\<exists>r. True \<and> Some rows = Some r \<and> cx_cache_value c' = Some (org_setting E c r)
              \<and> cx_cache_expires_at c' = cx_mono c + ENFORCE_CACHE_TTL"
    then show ?thesis
      using assms(3) enforce_mode_frame(3) [OF read(3)] read(1,2)
      by (auto simp: cache_from_def intro!: bexI [of _ "(c, rows)"])
  qed
next
  case (local_write c rows name v now uid)
  then show ?thesis using assms(2)
    by (auto simp: fire_change_callbacks_eq invalidate_enforce_mode_cache_def cache_from_def)
next
  case (read_fails b c m c' rows)
  then show ?thesis
    using assms(2) enforce_mode_cache_cases [OF read_fails(3)] enforce_mode_frame(3) [OF read_fails(3)]
    by (auto intro: cache_from_cong [of E S c])
next
  case (read_in_flush uncommitted c m c' rows)
  then show ?thesis
    using assms(2) enforce_mode_cache_cases [OF read_in_flush(3)] enforce_mode_frame(3) [OF read_in_flush(3)]
    by (auto intro: cache_from_cong [of E S c])
next
  case (advance d c rows)
  then show ?thesis using assms(2) by (auto intro: cache_from_cong [of E S c])
next
  case (other_process c rows rows')
  then show ?thesis using assms(2) by simp
qed

lemma enforce_run_cache_from: "enforce_run E tr \<Longrightarrow> tr = s # rest \<Longrightarrow> cache_from E (set tr) (fst s)"
proof (induction arbitrary: s rest rule: enforce_run.induct)
  case (start c rows)
  then show ?case by (auto simp: cache_from_def)
next
  case (step u tr u')
  have "cache_from E (set (u # tr)) (fst u)" using step.IH [OF refl] .
  then have "cache_from E (set (u # tr)) (fst u')"
    using enforce_step_cache_from [OF step.hyps(2)] by simp
  then show ?case using step.prems by (auto intro: cache_from_mono)
qed

section \<open>Properties of the scope\<close>

text \<open>The write guard under enforcement, object by object.\<close>

definition foreign :: "string \<Rightarrow> bool \<Rightarrow> flush_obj \<Rightarrow> bool" where
  "foreign org is_insert ob \<longleftrightarrow> guarded is_insert ob \<and> fo_org ob \<noteq> None \<and> fo_org ob \<noteq> Some org"

definition stamped :: "string \<Rightarrow> bool \<Rightarrow> flush_obj \<Rightarrow> flush_obj" where
  "stamped org is_insert ob = (if guarded is_insert ob then ob\<lparr>fo_org := Some org\<rparr> else ob)"

lemma guard_all_enforcing:
  assumes "cx_org (fst s) = Some org"
  shows "guard_all E True ins obs s =
           (case find (foreign org ins) obs of
              Some ob \<Rightarrow> Inl (CrossOrgWriteError (fo_class ob) (fo_org ob) (Some org))
            | None \<Rightarrow> Inr (map (stamped org ins) obs, s))"
proof (induction obs)
  case Nil
  show ?case by simp
next
  case (Cons ob obs)
  show ?case
  proof (cases "guarded ins ob")
    case False
    then show ?thesis using Cons by (simp add: foreign_def stamped_def split: option.splits)
  next
    case True
    have own: "fo_org ob = Some org \<Longrightarrow> ob\<lparr>fo_org := Some org\<rparr> = ob" by simp
    show ?thesis
      using True Cons assms own
      by (auto simp: foreign_def stamped_def guard_one_def split: option.splits)
  qed
qed

lemma guard_one_shadow:
  assumes "cx_org (fst s) = Some org"
  shows "\<exists>a. guard_one E False ins ent r s = Inr (Some (case r of None \<Rightarrow> org | Some q \<Rightarrow> q), fst s,
               (snd s)\<lparr>h_audit := h_audit (snd s) @ a\<rparr>)
           \<and> length a = (if r = None \<or> r = Some org then 0 else 1)
           \<and> (\<forall>x \<in> set a. au_action x = ''tenant.shadow_write'' \<and> au_organization_id x = None)"
proof (cases "r = None \<or> r = Some org")
  case True
  then show ?thesis using assms
    by (intro exI [of _ "[]"]) (auto simp: guard_one_def)
next
  case False
  then obtain q where r: "r = Some q" and q: "q \<noteq> org" by auto
  obtain c h where s: "s = (c, h)" by (cases s)
  show ?thesis
    using assms q unfolding s r
    by (intro exI [of _ "[build_event E (c\<lparr>cx_org := None, cx_bypass := True\<rparr>) ''tenant.shadow_write''
          None None None None (write_details False ins ent q org) None]"])
      (simp add: guard_one_def emit_audit_eq build_event_def)
qed

lemma guard_all_shadow:
  assumes "cx_org (fst s) = Some org"
  shows "\<exists>a obs'. guard_all E False ins obs s =
             Inr (obs', fst s, (snd s)\<lparr>h_audit := h_audit (snd s) @ a\<rparr>)
           \<and> length a = length (filter (foreign org ins) obs)
           \<and> map fo_org (filter (guarded ins) obs')
               = map (\<lambda>ob. Some (case fo_org ob of None \<Rightarrow> org | Some q \<Rightarrow> q)) (filter (guarded ins) obs)"
  using assms
proof (induction obs arbitrary: s)
  case Nil
  show ?case by (intro exI [of _ "[]"]) simp
next
  case (Cons ob obs)
  show ?case
  proof (cases "guarded ins ob")
    case False
    then show ?thesis using Cons.IH [OF Cons.prems] by (fastforce simp: foreign_def)
  next
    case True
    obtain a1 where one: "guard_one E False ins (fo_class ob) (fo_org ob) s =
        Inr (Some (case fo_org ob of None \<Rightarrow> org | Some q \<Rightarrow> q), fst s,
             (snd s)\<lparr>h_audit := h_audit (snd s) @ a1\<rparr>)"
      and len1: "length a1 = (if fo_org ob = None \<or> fo_org ob = Some org then 0 else 1)"
      using guard_one_shadow [OF Cons.prems] by blast
    let ?s = "(fst s, (snd s)\<lparr>h_audit := h_audit (snd s) @ a1\<rparr>)"
    have "cx_org (fst ?s) = Some org" using Cons.prems by simp
    from Cons.IH [OF this] obtain a2 obs' where
      rest: "guard_all E False ins obs ?s =
        Inr (obs', fst s, (snd s)\<lparr>h_audit := h_audit (snd s) @ a1 @ a2\<rparr>)"
      and len2: "length a2 = length (filter (foreign org ins) obs)"
      and orgs: "map fo_org (filter (guarded ins) obs')
               = map (\<lambda>ob. Some (case fo_org ob of None \<Rightarrow> org | Some q \<Rightarrow> q)) (filter (guarded ins) obs)"
      by (auto)
    have g: "guarded ins (ob\<lparr>fo_org := v\<rparr>)" for v using True by (simp add: guarded_def)
    have f: "foreign org ins ob \<longleftrightarrow> \<not> (fo_org ob = None \<or> fo_org ob = Some org)"
      using True by (auto simp: foreign_def)
    show ?thesis
      using True one rest len1 len2 orgs g f
      by (intro exI [of _ "a1 @ a2"]) auto
  qed
qed

lemma enforce_mode_in_filter:
  "enforce_mode E b view (c\<lparr>cx_in_filter := f\<rparr>) =
     map_prod id (\<lambda>d. d\<lparr>cx_in_filter := f\<rparr>) (enforce_mode E b view c)"
  by (auto simp: enforce_mode_def Let_def ensure_registered_def register_change_callback_def
      callbacks_of_def org_setting_def settings_get_def split: option.splits)

lemma select_scoped_enforced:
  assumes "cx_org c = Some org" and "\<not> cx_bypass c" and "\<not> cx_in_filter c"
    and "table \<in> set tenant_scoped_tablenames"
    and "enforce_mode E True (Some (h_settings h)) c = (m, c')"
  shows "select_scoped E table org_of rows (c, h) =
           ((if m = ENFORCE then filter (\<lambda>r. org_of r = Some org) (rows h) else rows h),
            c'\<lparr>cx_in_filter := False\<rparr>, h)"
  using assms
  by (simp add: select_scoped_def add_tenant_filter_def touches_tenant_scoped_def is_enforcing_def
      enforce_mode_in_filter visible_def)

text \<open>Switching isolation on takes effect at once in the process that writes the setting, whatever
  its cache held before: the next SELECT over any tenant-scoped table under an organization returns
  exactly that organization's rows, and switching back to shadow mode returns all rows again.\<close>

theorem enforce_toggle_isolates:
  assumes "cache_ok c" and "cx_org c = Some org" and "\<not> cx_bypass c" and "\<not> cx_in_filter c"
    and "table \<in> set tenant_scoped_tablenames"
  shows "fst (select_scoped E table org_of rows
               (set_setting ORG_ENFORCE_MODE_KEY (VStr ''enforce'') now uid (c, h)))
           = filter (\<lambda>r. org_of r = Some org) (rows (h\<lparr>h_settings :=
               put_setting ORG_ENFORCE_MODE_KEY (VStr ''enforce'') now uid (h_settings h)\<rparr>))
       \<and> fst (select_scoped E table org_of rows
               (set_setting ORG_ENFORCE_MODE_KEY (VStr ''shadow'') now uid (c, h)))
           = rows (h\<lparr>h_settings :=
               put_setting ORG_ENFORCE_MODE_KEY (VStr ''shadow'') now uid (h_settings h)\<rparr>)"
proof -
  let ?c = "fire_change_callbacks ORG_ENFORCE_MODE_KEY c"
  have "fst (select_scoped E table org_of rows (set_setting ORG_ENFORCE_MODE_KEY (VStr v) now uid (c, h)))
      = (if mode_of E (VStr v) = ENFORCE
         then filter (\<lambda>r. org_of r = Some org) (rows (h\<lparr>h_settings :=
               put_setting ORG_ENFORCE_MODE_KEY (VStr v) now uid (h_settings h)\<rparr>))
         else rows (h\<lparr>h_settings := put_setting ORG_ENFORCE_MODE_KEY (VStr v) now uid (h_settings h)\<rparr>))"
    for v
  proof -
    let ?rows = "put_setting ORG_ENFORCE_MODE_KEY (VStr v) now uid (h_settings h)"
    obtain m c' where em: "enforce_mode E True (Some ?rows) ?c = (m, c')" by (metis prod.exhaust)
    have "m = mode_of E (VStr v)"
      using enforce_mode_no_cache [OF fire_drops_cache [OF assms(1)], of E True ?rows] em
      by (simp add: org_setting_def settings_get_put_same)
    then show ?thesis
      using select_scoped_enforced [of ?c org table E "h\<lparr>h_settings := ?rows\<rparr>" m c' org_of rows] em assms
      by (simp add: set_setting_def)
  qed
  moreover have "mode_of E (VStr ''enforce'') = ENFORCE" and "mode_of E (VStr ''shadow'') \<noteq> ENFORCE"
    by (simp_all add: mode_of_def py_str_def) (code_simp)+
  ultimately show ?thesis by simp
qed

definition scope_env :: env where
  "scope_env = \<lparr>env_ulid = (\<lambda>n. replicate n CHR ''x''), env_now = 0, env_fromiso = (\<lambda>_. None),
                env_isoformat = (\<lambda>_. []), env_repr = (\<lambda>_. [])\<rparr>"

definition scope_ctx :: "string option \<Rightarrow> ctx" where
  "scope_ctx org = \<lparr>cx_environ = (\<lambda>_. None), cx_mono = 0, cx_org = org, cx_bypass = False,
     cx_in_filter = False, cx_cache_value = None, cx_cache_expires_at = 0, cx_callbacks = [],
     cx_callback_registered = False, cx_user = None, cx_route = None, cx_method = None,
     cx_client_ip = None\<rparr>"

definition demo_site :: "string \<Rightarrow> string \<Rightarrow> site" where
  "demo_site i org = \<lparr>site_id = i, site_organization_id = org, site_name = i, site_description = None,
     site_created_at = 0, site_updated_at = 0\<rparr>"

lemma scope_ctx_simps [simp]:
  "cx_org (scope_ctx org) = org" "\<not> cx_bypass (scope_ctx org)" "\<not> cx_in_filter (scope_ctx org)"
  "cx_cache_value (scope_ctx org) = None"
  by (simp_all add: scope_ctx_def)

lemma scope_ctx_ok [simp]: "cache_ok (scope_ctx org)"
  by (simp add: cache_ok_def scope_ctx_def)

theorem enforce_toggle_isolates_witness:
  "let h = empty_hub\<lparr>h_sites := [demo_site ''s1'' ''a'', demo_site ''s2'' ''b'']\<rparr>;
       q = (\<lambda>v. map site_id (fst (select_scoped scope_env ''sites'' (Some \<circ> site_organization_id) h_sites
              (set_setting ORG_ENFORCE_MODE_KEY (VStr v) 0 None (scope_ctx (Some ''a''), h)))))
   in q ''enforce'' = [''s1''] \<and> q ''shadow'' = [''s1'', ''s2'']"
  using enforce_toggle_isolates [of "scope_ctx (Some ''a'')" "''a''" "''sites''" scope_env
      "Some \<circ> site_organization_id" h_sites 0 None
      "empty_hub\<lparr>h_sites := [demo_site ''s1'' ''a'', demo_site ''s2'' ''b'']\<rparr>"]
  by (simp add: tenant_scoped_tablenames_def demo_site_def)

text \<open>A mode read at any moment of any run of the process is the mode committed at some moment
  less than the five-second cache lifetime before, however other processes change the setting, reads
  fail, or flushes read uncommitted values.\<close>

theorem enforce_mode_staleness:
  assumes "enforce_run E ((c, rows) # tr)"
  shows "\<exists>s \<in> set ((c, rows) # tr).
           fst (enforce_mode E cacheable (Some rows) c) = org_setting E (fst s) (snd s)
           \<and> cx_mono (fst s) \<le> cx_mono c \<and> cx_mono c < cx_mono (fst s) + secs 5"
proof (cases "\<exists>m. cx_cache_value c = Some m \<and> cx_mono c < cx_cache_expires_at c")
  case True
  then obtain m where m: "cx_cache_value c = Some m" "cx_mono c < cx_cache_expires_at c" by blast
  have "cache_from E (set ((c, rows) # tr)) c" using enforce_run_cache_from [OF assms] by simp
  then obtain s where "s \<in> set ((c, rows) # tr)" "m = org_setting E (fst s) (snd s)"
    "cx_mono (fst s) \<le> cx_mono c" "cx_cache_expires_at c = cx_mono (fst s) + ENFORCE_CACHE_TTL"
    using m(1) unfolding cache_from_def by blast
  moreover have "fst (enforce_mode E cacheable (Some rows) c) = m"
    using m by (simp add: enforce_mode_def Let_def)
  ultimately show ?thesis using m(2) by (intro bexI [of _ s]) (simp_all add: ENFORCE_CACHE_TTL_def)
next
  case False
  then have "fst (enforce_mode E cacheable (Some rows) c) = org_setting E c rows"
    using org_setting_cong [of "ensure_registered c" c]
    by (auto simp: enforce_mode_def Let_def split: option.splits)
  then show ?thesis by (intro bexI [of _ "(c, rows)"]) (simp_all add: secs_def)
qed

theorem enforce_mode_staleness_witness:
  "let c = scope_ctx (Some ''a'');
       c1 = snd (enforce_mode scope_env True (Some []) c);
       rows = put_setting ORG_ENFORCE_MODE_KEY (VStr ''enforce'') 0 None []
   in \<exists>s \<in> {(c1, rows), (c1, []), (c, [])}.
        fst (enforce_mode scope_env True (Some rows) c1) = org_setting scope_env (fst s) (snd s)"
proof -
  let ?c = "scope_ctx (Some ''a'')"
  let ?c1 = "snd (enforce_mode scope_env True (Some []) ?c)"
  let ?rows = "put_setting ORG_ENFORCE_MODE_KEY (VStr ''enforce'') 0 None []"
  have "enforce_run scope_env [(?c, [])]" by (rule enforce_run.start) (simp add: scope_ctx_def)
  moreover have "enforce_step scope_env (?c, []) (?c1, [])"
    by (rule enforce_step.read [of _ _ _ "fst (enforce_mode scope_env True (Some []) ?c)"]) simp
  ultimately have "enforce_run scope_env [(?c1, []), (?c, [])]" by (rule enforce_run.step)
  then have "enforce_run scope_env [(?c1, ?rows), (?c1, []), (?c, [])]"
    by (rule enforce_run.step) (rule enforce_step.other_process)
  from enforce_mode_staleness [OF this, of True] show ?thesis by (auto simp: Let_def)
qed

text \<open>C6: Under enforcement a flush inside an organization's scope is all or nothing: if one guarded
  object carries another organization the flush is refused, and otherwise every guarded object,
  new or modified, ends up with the active organization and nothing else changes.\<close>

theorem tenant_writes_confined:
  assumes "cx_org c = Some org" and "\<not> cx_bypass c"
    and "fst (enforce_mode E False (Some (h_settings h)) c) = ''enforce''"
  shows "if (\<exists>ob \<in> set new. foreign org True ob) \<or> (\<exists>ob \<in> set dirty. foreign org False ob)
         then \<exists>e. stamp_and_guard_tenant_writes E new dirty (c, h) = Inl e
         else \<exists>c'. stamp_and_guard_tenant_writes E new dirty (c, h) =
                Inr (map (stamped org True) new, map (stamped org False) dirty, c', h)"
proof -
  obtain c1 where em: "enforce_mode E False (Some (h_settings h)) c = (ENFORCE, c1)"
    using assms(3) by (metis prod.collapse)
  have "cx_org c1 = Some org" using enforce_mode_frame(1) [OF em] assms(1) by simp
  then have g: "guard_all E True ins obs (c1\<lparr>cx_in_filter := cx_in_filter c\<rparr>, h) =
      (case find (foreign org ins) obs of
         Some ob \<Rightarrow> Inl (CrossOrgWriteError (fo_class ob) (fo_org ob) (Some org))
       | None \<Rightarrow> Inr (map (stamped org ins) obs, c1\<lparr>cx_in_filter := cx_in_filter c\<rparr>, h))" for ins obs
    by (simp add: guard_all_enforcing)
  have "(\<exists>ob \<in> set obs. P ob) \<longleftrightarrow> find P obs \<noteq> None" for P :: "flush_obj \<Rightarrow> bool" and obs
    by (auto simp: find_None_iff)
  then show ?thesis
    using assms(2) em
    by (simp add: stamp_and_guard_tenant_writes_def is_enforcing_def enforce_mode_in_filter g
        split: option.splits)
qed

definition demo_obj :: "string option \<Rightarrow> flush_obj" where
  "demo_obj org = \<lparr>fo_class = ''Site'', fo_org = org, fo_modified = True\<rparr>"

definition enforcing_hub :: hub where
  "enforcing_hub = empty_hub\<lparr>h_settings := put_setting ORG_ENFORCE_MODE_KEY (VStr ''enforce'') 0 None []\<rparr>"

lemma enforcing_hub_mode:
  "fst (enforce_mode scope_env b (Some (h_settings enforcing_hub)) (scope_ctx org)) = ''enforce''"
  unfolding enforce_mode_no_cache [OF scope_ctx_simps(4)]
  by (simp add: enforcing_hub_def org_setting_def settings_get_put_same mode_of_def py_str_def) code_simp

theorem tenant_writes_confined_witness:
  "(\<exists>e. stamp_and_guard_tenant_writes scope_env [demo_obj None] [demo_obj (Some ''b'')]
          (scope_ctx (Some ''a''), enforcing_hub) = Inl e)
   \<and> (\<exists>c'. stamp_and_guard_tenant_writes scope_env [demo_obj None] [demo_obj (Some ''a'')]
          (scope_ctx (Some ''a''), enforcing_hub)
          = Inr ([demo_obj (Some ''a'')], [demo_obj (Some ''a'')], c', enforcing_hub))"
  using tenant_writes_confined [of "scope_ctx (Some ''a'')" "''a''" scope_env enforcing_hub
      "[demo_obj None]" "[demo_obj (Some ''b'')]"]
    tenant_writes_confined [of "scope_ctx (Some ''a'')" "''a''" scope_env enforcing_hub
      "[demo_obj None]" "[demo_obj (Some ''a'')]"]
  by (simp add: enforcing_hub_mode foreign_def stamped_def guarded_def demo_obj_def
      tenant_scoped_classes_def)

text \<open>In shadow mode no flush is refused: objects keep the organization they carry, objects without
  one get the active organization, and each object of another organization leaves exactly one audit
  row.\<close>

theorem tenant_writes_shadow:
  assumes "cx_org c = Some org" and "\<not> cx_bypass c"
    and "fst (enforce_mode E False (Some (h_settings h)) c) \<noteq> ''enforce''"
  shows "\<exists>new' dirty' c' a.
           stamp_and_guard_tenant_writes E new dirty (c, h)
             = Inr (new', dirty', c', h\<lparr>h_audit := h_audit h @ a\<rparr>)
         \<and> map fo_org (filter (guarded True) new')
             = map (\<lambda>ob. Some (case fo_org ob of None \<Rightarrow> org | Some q \<Rightarrow> q)) (filter (guarded True) new)
         \<and> map fo_org (filter (guarded False) dirty')
             = map (\<lambda>ob. Some (case fo_org ob of None \<Rightarrow> org | Some q \<Rightarrow> q)) (filter (guarded False) dirty)
         \<and> length a = length (filter (foreign org True) new) + length (filter (foreign org False) dirty)"
proof -
  obtain m c1 where em: "enforce_mode E False (Some (h_settings h)) c = (m, c1)" and m: "m \<noteq> ENFORCE"
    using assms(3) by (metis prod.collapse)
  let ?c = "c1\<lparr>cx_in_filter := cx_in_filter c\<rparr>"
  have org: "cx_org ?c = Some org" using enforce_mode_frame(1) [OF em] assms(1) by simp
  have org1: "cx_org (fst (?c, h)) = Some org" using org by simp
  obtain a1 new' where g1: "guard_all E False True new (?c, h) = Inr (new', ?c, h\<lparr>h_audit := h_audit h @ a1\<rparr>)"
    and l1: "length a1 = length (filter (foreign org True) new)"
    and o1: "map fo_org (filter (guarded True) new')
             = map (\<lambda>ob. Some (case fo_org ob of None \<Rightarrow> org | Some q \<Rightarrow> q)) (filter (guarded True) new)"
    using guard_all_shadow [OF org1, of E True new] by auto
  have org2: "cx_org (fst (?c, h\<lparr>h_audit := h_audit h @ a1\<rparr>)) = Some org" using org by simp
  obtain a2 dirty' where g2: "guard_all E False False dirty (?c, h\<lparr>h_audit := h_audit h @ a1\<rparr>)
        = Inr (dirty', ?c, h\<lparr>h_audit := h_audit h @ a1 @ a2\<rparr>)"
    and l2: "length a2 = length (filter (foreign org False) dirty)"
    and o2: "map fo_org (filter (guarded False) dirty')
             = map (\<lambda>ob. Some (case fo_org ob of None \<Rightarrow> org | Some q \<Rightarrow> q)) (filter (guarded False) dirty)"
    using guard_all_shadow [OF org2, of E False dirty] by auto
  have "stamp_and_guard_tenant_writes E new dirty (c, h)
          = Inr (new', dirty', ?c, h\<lparr>h_audit := h_audit h @ a1 @ a2\<rparr>)"
    using assms(2) m
    by (simp add: stamp_and_guard_tenant_writes_def is_enforcing_def enforce_mode_in_filter em g1 g2)
  then show ?thesis using l1 l2 o1 o2 by fastforce
qed

theorem tenant_writes_shadow_witness:
  "\<exists>new' dirty' c' a. stamp_and_guard_tenant_writes scope_env [demo_obj None] [demo_obj (Some ''b'')]
      (scope_ctx (Some ''a''), empty_hub) = Inr (new', dirty', c', empty_hub\<lparr>h_audit := a\<rparr>) \<and> length a = 1"
proof -
  have "fst (enforce_mode scope_env False (Some (h_settings empty_hub)) (scope_ctx (Some ''a''))) \<noteq> ''enforce''"
    by code_simp
  from tenant_writes_shadow [OF _ _ this, of "''a''" "[demo_obj None]" "[demo_obj (Some ''b'')]"] show ?thesis
    by (fastforce simp: foreign_def guarded_def demo_obj_def tenant_scoped_classes_def empty_hub_def)
qed

end
