(* ===== verification/AuditLog.thy ===== *)
theory AuditLog
  imports TenantScope
begin

text \<open>
  The audit log as the services write it (\<open>app/services/audit.py\<close>): every row is added in a session
  of its own, which passes the write guard (audit rows are exempt from it) and never raises.
\<close>

definition audit_record ::
  "env \<Rightarrow> string \<Rightarrow> string option \<Rightarrow> string option \<Rightarrow> string option \<Rightarrow> string option \<Rightarrow>
   pydict \<Rightarrow> string option \<Rightarrow> ctx \<times> hub \<Rightarrow> ctx \<times> hub" where
  "audit_record E action uid email ttype tid details ip s =
     (let evt = build_event E (fst s) action uid email ttype tid details ip in
      case stamp_and_guard_tenant_writes E
             [\<lparr>fo_class = ''AuditEvent'', fo_org = au_organization_id evt, fo_modified = True\<rparr>] [] s of
        Inl _ \<Rightarrow> s
      | Inr (_, _, c, h) \<Rightarrow> (c, h\<lparr>h_audit := h_audit h @ [evt]\<rparr>))"

definition record_scoped ::
  "env \<Rightarrow> string \<Rightarrow> string option \<Rightarrow> string option \<Rightarrow> string option \<Rightarrow> string option \<Rightarrow>
   pydict option \<Rightarrow> pydict option \<Rightarrow> string option \<Rightarrow> ctx \<times> hub \<Rightarrow> ctx \<times> hub" where
  "record_scoped E action uid email ttype tid scope_claim details ip s =
     (let merged = (case scope_claim of
                      None \<Rightarrow> dict_or_empty details
                    | Some cl \<Rightarrow> dset (dict_or_empty details) ''scope_claim'' (VDict cl))
      in audit_record E action uid email ttype tid merged ip s)"

definition dict_update :: "pydict \<Rightarrow> pydict \<Rightarrow> pydict" where
  "dict_update d e = fold (\<lambda>(k, v) acc. dset acc k v) e d"

text \<open>\<open>details_for\<close> is the caller's function; \<open>None\<close> as its result is the exception it raised,
  which skips that device.\<close>

fun record_per_device ::
  "env \<Rightarrow> string \<Rightarrow> string option \<Rightarrow> string option \<Rightarrow> string list \<Rightarrow> (string \<Rightarrow> pydict option) option \<Rightarrow>
   pydict \<Rightarrow> string option \<Rightarrow> ctx \<times> hub \<Rightarrow> nat \<times> ctx \<times> hub" where
  "record_per_device E action uid email [] details_for base ip s = (0, s)"
| "record_per_device E action uid email (did # dids) details_for base ip s =
     (case (case details_for of None \<Rightarrow> Some [] | Some f \<Rightarrow> f did) of
        None \<Rightarrow> record_per_device E action uid email dids details_for base ip s
      | Some d \<Rightarrow>
          (let (n, s') = record_per_device E action uid email dids details_for base ip
                 (audit_record E action uid email (Some ''device'') (Some did) (dict_update d base) ip s)
           in (Suc n, s')))"

section \<open>Lemmas\<close>

lemma audit_exempt: "\<not> guarded b \<lparr>fo_class = ''AuditEvent'', fo_org = org, fo_modified = m\<rparr>"
  by (simp add: guarded_def)

text \<open>Two contexts the tenant layer cannot tell apart: same scope, same request and the same answer
  to the next mode read.\<close>

definition scope_eq :: "env \<Rightarrow> runtime_setting list \<Rightarrow> ctx \<Rightarrow> ctx \<Rightarrow> bool" where
  "scope_eq E rows c c' \<longleftrightarrow>
     cx_org c' = cx_org c \<and> cx_bypass c' = cx_bypass c \<and> cx_in_filter c' = cx_in_filter c \<and>
     cx_environ c' = cx_environ c \<and> cx_user c' = cx_user c \<and> cx_route c' = cx_route c \<and>
     cx_method c' = cx_method c \<and> cx_client_ip c' = cx_client_ip c \<and>
     (\<forall>b. fst (enforce_mode E b (Some rows) c') = fst (enforce_mode E True (Some rows) c))"

lemma enforce_mode_cacheable: "fst (enforce_mode E b v c) = fst (enforce_mode E True v c)"
  by (auto simp: enforce_mode_def Let_def split: option.splits)

lemma scope_eq_refl [simp]: "scope_eq E rows c c"
  unfolding scope_eq_def using enforce_mode_cacheable by blast

lemma scope_eq_trans: "scope_eq E rows c c' \<Longrightarrow> scope_eq E rows c' c'' \<Longrightarrow> scope_eq E rows c c''"
  unfolding scope_eq_def by simp

lemma enforce_mode_frame_request:
  assumes "enforce_mode E b v c = (m, c')"
  shows "cx_route c' = cx_route c" and "cx_method c' = cx_method c" and "cx_client_ip c' = cx_client_ip c"
  using assms
  by (auto simp: enforce_mode_def Let_def ensure_registered_def register_change_callback_def
      split: option.splits if_splits)

lemma enforce_mode_stable:
  assumes "enforce_mode E b (Some rows) c = (m, c')"
  shows "fst (enforce_mode E b' (Some rows) c') = m"
  using assms org_setting_cong [of "ensure_registered c'" c'] org_setting_cong [of c' c]
    org_setting_cong [of "ensure_registered c" c] enforce_mode_frame [OF assms]
  by (auto simp: enforce_mode_def Let_def ENFORCE_CACHE_TTL_def secs_def split: option.splits if_splits)

lemma scope_eq_enforce_mode:
  assumes "enforce_mode E b (Some rows) c = (m, c')"
  shows "scope_eq E rows c (c'\<lparr>cx_in_filter := cx_in_filter c\<rparr>)"
  using enforce_mode_stable [OF assms] enforce_mode_frame [OF assms] enforce_mode_frame_request [OF assms]
    enforce_mode_cacheable [of E b "Some rows" c] assms
  by (simp add: scope_eq_def enforce_mode_in_filter)

lemma fst_add_tenant_filter:
  "fst (add_tenant_filter E b ts (c, h)) =
     (if \<not> b \<or> cx_in_filter c \<or> \<not> touches_tenant_scoped ts \<or> cx_bypass c then None
      else case cx_org c of
             None \<Rightarrow> None
           | Some org \<Rightarrow> if fst (enforce_mode E True (Some (h_settings h)) c) = ENFORCE then Some org else None)"
  by (cases "enforce_mode E True (Some (h_settings h)) c")
    (auto simp: add_tenant_filter_def is_enforcing_def enforce_mode_in_filter split: option.splits prod.splits)

lemma scope_eq_filter:
  assumes "scope_eq E (h_settings h) c c'" and "h_settings h' = h_settings h"
  shows "fst (add_tenant_filter E b ts (c', h')) = fst (add_tenant_filter E b ts (c, h))"
  using assms by (auto simp: fst_add_tenant_filter scope_eq_def split: option.splits)

text \<open>A SELECT leaves an equivalent context and at most one audit row, none when the call is scoped.\<close>

definition scoped :: "ctx \<Rightarrow> bool" where
  "scoped c \<longleftrightarrow> cx_bypass c \<or> cx_org c \<noteq> None"

lemma add_tenant_filter_frame:
  assumes "add_tenant_filter E b ts (c, h) = (f, c', h')"
  shows "scope_eq E (h_settings h) c c' \<and> (\<exists>a. h' = h\<lparr>h_audit := h_audit h @ a\<rparr> \<and> (scoped c \<longrightarrow> a = []))"
proof (cases "\<not> b \<or> cx_in_filter c \<or> \<not> touches_tenant_scoped ts \<or> cx_bypass c")
  case True
  then show ?thesis using assms by (auto simp: add_tenant_filter_def intro!: exI [of _ "[]"])
next
  case False
  show ?thesis
  proof (cases "cx_org c")
    case None
    have "c\<lparr>cx_in_filter := False\<rparr> = c" using False by simp
    then have "scope_eq E (h_settings h) c (c\<lparr>cx_in_filter := False\<rparr>)" by (simp only: scope_eq_refl)
    then show ?thesis using assms False None
      by (auto simp: add_tenant_filter_def unscoped_violation_def emit_audit_eq scoped_def)
  next
    case (Some org)
    obtain m c1 where em: "enforce_mode E True (Some (h_settings h)) c = (m, c1)" by (metis prod.exhaust)
    have "c' = c1\<lparr>cx_in_filter := cx_in_filter c\<rparr>" and "h' = h"
      using assms False Some em by (auto simp: add_tenant_filter_def is_enforcing_def enforce_mode_in_filter)
    then show ?thesis using scope_eq_enforce_mode [OF em] by (auto intro!: exI [of _ "[]"])
  qed
qed

lemma select_scoped_frame:
  assumes "select_scoped E t org_of rows (c, h) = (rs, c', h')"
  shows "scope_eq E (h_settings h) c c'" and "\<exists>a. h' = h\<lparr>h_audit := h_audit h @ a\<rparr>"
    and "scoped c \<Longrightarrow> h' = h"
  using add_tenant_filter_frame [of E True "[t]" c h] assms
  by (auto simp: select_scoped_def split: prod.splits)

lemma fst_select_scoped:
  "fst (select_scoped E t org_of rows s)
     = visible org_of (fst (add_tenant_filter E True [t] s)) (rows (snd s))"
  by (simp add: select_scoped_def split: prod.splits)

lemma select_scoped_again:
  assumes "scope_eq E (h_settings h) c c'" and "h_settings h' = h_settings h" and "rows h' = rows h"
  shows "fst (select_scoped E t org_of rows (c', h')) = fst (select_scoped E t org_of rows (c, h))"
  using scope_eq_filter [OF assms(1,2), of True "[t]"] assms(3) by (simp add: fst_select_scoped)

lemma empty_flush:
  obtains c' where "stamp_and_guard_tenant_writes E [] [] (c, h) = Inr ([], [], c', h)"
    and "scope_eq E (h_settings h) c c'"
proof (cases "cx_bypass c")
  case True
  then show ?thesis using that [of c] by (simp add: stamp_and_guard_tenant_writes_def)
next
  case False
  obtain m c1 where em: "enforce_mode E False (Some (h_settings h)) c = (m, c1)" by (metis prod.exhaust)
  show ?thesis
    using that [of "c1\<lparr>cx_in_filter := cx_in_filter c\<rparr>"] False scope_eq_enforce_mode [OF em]
    by (simp add: stamp_and_guard_tenant_writes_def is_enforcing_def enforce_mode_in_filter em)
qed

lemma audit_ext_refl: "\<exists>a. h = h\<lparr>h_audit := h_audit h @ a\<rparr>"
  by (rule exI [of _ "[]"]) simp

lemma audit_ext_one: "\<exists>a. h\<lparr>h_audit := h_audit h @ x\<rparr> = h\<lparr>h_audit := h_audit h @ a\<rparr>"
  by blast

lemma guard_one_frame:
  assumes "guard_one E enf ins ent org (c, h) = Inr (org', s')"
  shows "fst s' = c" and "\<exists>a. snd s' = h\<lparr>h_audit := h_audit h @ a\<rparr>"
    and "org' = org \<or> org = None \<and> org' = cx_org c"
  using assms
  by (auto simp: guard_one_def emit_audit_eq Let_def split: option.splits if_splits
      intro: audit_ext_refl audit_ext_one)

lemma guard_all_frame:
  assumes "guard_all E enf ins obs (c, h) = Inr (obs', s')"
  shows "fst s' = c \<and> (\<exists>a. snd s' = h\<lparr>h_audit := h_audit h @ a\<rparr>)"
  using assms
proof (induction obs arbitrary: h obs')
  case Nil
  then show ?case by (auto intro!: exI [of _ "[]"])
next
  case (Cons ob obs)
  show ?case
  proof (cases "guarded ins ob")
    case False
    then show ?thesis using Cons by (auto split: sum.splits)
  next
    case True
    obtain org1 s1 where one: "guard_one E enf ins (fo_class ob) (fo_org ob) (c, h) = Inr (org1, s1)"
      using Cons.prems True by (auto split: sum.splits)
    obtain a where "s1 = (c, h\<lparr>h_audit := h_audit h @ a\<rparr>)"
      using guard_one_frame(1,2) [OF one] by (cases s1) auto
    then show ?thesis
      using Cons.prems True one Cons.IH [of "h\<lparr>h_audit := h_audit h @ a\<rparr>"] by (auto split: sum.splits)
  qed
qed

lemma flush_frame:
  assumes "stamp_and_guard_tenant_writes E new dirty (c, h) = Inr (new', dirty', c', h')"
  shows "scope_eq E (h_settings h) c c' \<and> (\<exists>a. h' = h\<lparr>h_audit := h_audit h @ a\<rparr>)"
proof (cases "cx_bypass c")
  case True
  then show ?thesis using assms by (auto simp: stamp_and_guard_tenant_writes_def intro!: exI [of _ "[]"])
next
  case False
  obtain m c1 where em: "enforce_mode E False (Some (h_settings h)) c = (m, c1)" by (metis prod.exhaust)
  let ?c = "c1\<lparr>cx_in_filter := cx_in_filter c\<rparr>"
  obtain s1 where g1: "guard_all E (m = ENFORCE) True new (?c, h) = Inr (new', s1)"
    and g2: "guard_all E (m = ENFORCE) False dirty s1 = Inr (dirty', c', h')"
    using assms False em
    by (auto simp: stamp_and_guard_tenant_writes_def is_enforcing_def enforce_mode_in_filter split: sum.splits)
  obtain a where s1: "s1 = (?c, h\<lparr>h_audit := h_audit h @ a\<rparr>)"
    using guard_all_frame [OF g1] by (cases s1) auto
  show ?thesis using guard_all_frame [OF g2 [unfolded s1]] scope_eq_enforce_mode [OF em] by auto
qed

text \<open>One object in a flush keeps its organization or gets the active one.\<close>

lemma flush_one:
  assumes "stamp_and_guard_tenant_writes E [ob] [] (c, h) = Inr (new', dirty', c', h')
         \<or> stamp_and_guard_tenant_writes E [] [ob] (c, h) = Inr (dirty', new', c', h')"
  shows "\<exists>org. new' = [ob\<lparr>fo_org := org\<rparr>] \<and> (org = fo_org ob \<or> fo_org ob = None \<and> org = cx_org c)"
proof (cases "cx_bypass c")
  case True
  then show ?thesis using assms
    by (intro exI [of _ "fo_org ob"]) (auto simp: stamp_and_guard_tenant_writes_def)
next
  case False
  obtain m c1 where em: "enforce_mode E False (Some (h_settings h)) c = (m, c1)" by (metis prod.exhaust)
  let ?c = "c1\<lparr>cx_in_filter := cx_in_filter c\<rparr>"
  obtain ins s' where "guard_all E (m = ENFORCE) ins [ob] (?c, h) = Inr (new', s')"
    using assms False em
    by (auto simp: stamp_and_guard_tenant_writes_def is_enforcing_def enforce_mode_in_filter Let_def
        simp del: guard_all.simps(2) split: sum.splits)
  then show ?thesis
    using guard_one_frame(3) [of E "m = ENFORCE" ins "fo_class ob" "fo_org ob" ?c h] enforce_mode_frame(1) [OF em]
    by (cases ob) (auto split: if_splits sum.splits)
qed

lemma audit_flush:
  "stamp_and_guard_tenant_writes E [\<lparr>fo_class = ''AuditEvent'', fo_org = org, fo_modified = m\<rparr>] [] s
     = (case stamp_and_guard_tenant_writes E [] [] s of
          Inl e \<Rightarrow> Inl e
        | Inr (_, _, s') \<Rightarrow> Inr ([\<lparr>fo_class = ''AuditEvent'', fo_org = org, fo_modified = m\<rparr>], [], s'))"
  by (simp add: stamp_and_guard_tenant_writes_def audit_exempt split: prod.splits)

text \<open>An audit call appends exactly its row, under the active organization, and leaves the scope and
  the mode cache alone.\<close>

lemma audit_recordE:
  obtains c' where "audit_record E action uid email ttype tid details ip (c, h) =
      (c', h\<lparr>h_audit := h_audit h @ [build_event E c action uid email ttype tid details ip]\<rparr>)"
    and "scope_eq E (h_settings h) c c'"
proof -
  obtain c' where c': "stamp_and_guard_tenant_writes E [] [] (c, h) = Inr ([], [], c', h)"
    "scope_eq E (h_settings h) c c'"
    by (rule empty_flush)
  show ?thesis by (rule that [of c']) (use c' in \<open>simp_all add: audit_record_def audit_flush Let_def\<close>)
qed

end
