(* ===== verification/PyText.thy ===== *)
theory PyText
  imports Prelude
begin

text \<open>
  Text helpers several services share: \<open>str.split\<close> and \<open>str.partition\<close> on one character, decimal
  numerals and their round trip, and \<open>str.replace\<close> of single characters.
\<close>

section \<open>Splitting\<close>

fun split_on :: "char \<Rightarrow> string \<Rightarrow> string list" where
  "split_on c [] = [[]]"
| "split_on c (x # xs) =
     (if x = c then [] # split_on c xs
      else case split_on c xs of [] \<Rightarrow> [[x]] | p # ps \<Rightarrow> (x # p) # ps)"

text \<open>\<open>s.partition(c)\<close>: the head, whether \<open>c\<close> occurs, and what follows it.\<close>

definition py_partition :: "char \<Rightarrow> string \<Rightarrow> string \<times> bool \<times> string" where
  "py_partition c s = (takeWhile (\<lambda>x. x \<noteq> c) s, c \<in> set s, tl (dropWhile (\<lambda>x. x \<noteq> c) s))"

definition is_digit :: "char \<Rightarrow> bool" where
  "is_digit c \<longleftrightarrow> digit_value c \<noteq> None"

lemma split_on_nonempty [simp]: "split_on c s \<noteq> []"
  by (induction s) (auto split: list.splits)

lemma split_on_plain: "c \<notin> set a \<Longrightarrow> split_on c a = [a]"
  by (induction a) (auto split: list.splits)

lemma split_on_sep: "c \<notin> set a \<Longrightarrow> split_on c (a @ c # t) = a # split_on c t"
  by (induction a) (auto split: list.splits)

lemma split_on_join:
  "xs \<noteq> [] \<Longrightarrow> \<forall>x \<in> set xs. c \<notin> set x \<Longrightarrow> split_on c (join_with [c] xs) = xs"
  by (induction "[c]" xs rule: join_with.induct) (auto simp: split_on_plain split_on_sep)

lemma join_split_on [simp]: "join_with [c] (split_on c s) = s"
proof (induction s)
  case (Cons x s)
  obtain p ps where "split_on c s = p # ps" by (cases "split_on c s") auto
  with Cons show ?case by (cases ps) auto
qed simp

section \<open>Decimal numerals\<close>

definition digit_char :: "nat \<Rightarrow> char" where
  "digit_char d = char_of (48 + d)"

fun dec :: "nat \<Rightarrow> string" where
  "dec n = (if n < 10 then [digit_char n] else dec (n div 10) @ [digit_char (n mod 10)])"

declare dec.simps [simp del]

lemma digit_value_char: "d < 10 \<Longrightarrow> digit_value (digit_char d) = Some (int d)"
  by (simp add: digit_value_def digit_char_def Let_def)

lemma digit_value_Some: "digit_value c = Some v \<longleftrightarrow> 0 \<le> v \<and> v < 10 \<and> c = digit_char (nat v)"
proof
  assume "digit_value c = Some v"
  then have v: "48 \<le> (of_char c :: nat)" "(of_char c :: nat) \<le> 57" "v = int (of_char c) - 48"
    by (auto simp: digit_value_def Let_def split: if_splits)
  then have "48 + nat v = of_char c" by simp
  then have "digit_char (nat v) = c" by (simp add: digit_char_def)
  then show "0 \<le> v \<and> v < 10 \<and> c = digit_char (nat v)" using v by auto
next
  assume "0 \<le> v \<and> v < 10 \<and> c = digit_char (nat v)"
  moreover from this have "nat v < 10" by linarith
  ultimately show "digit_value c = Some v" using digit_value_char [of "nat v"] by simp
qed

lemma digit_char_0 [simp]: "digit_char 0 = CHR ''0''"
  using digit_value_Some [of "CHR ''0''" 0] by (simp add: digit_value_def)

text \<open>The value of a string of digits.\<close>

definition dec_value :: "string \<Rightarrow> nat" where
  "dec_value s = fold (\<lambda>c n. n * 10 + nat (the (digit_value c))) s 0"

lemma dec_value_snoc: "dec_value (s @ [c]) = dec_value s * 10 + nat (the (digit_value c))"
  by (simp add: dec_value_def)

lemma dec_digits: "\<forall>c \<in> set (dec n). is_digit c"
  by (induction n rule: dec.induct) (subst dec.simps, auto simp: is_digit_def digit_value_char)

lemma dec_nonempty [simp]: "dec n \<noteq> []"
  by (subst dec.simps) simp

lemma dec_value_dec [simp]: "dec_value (dec n) = n"
proof (induction n rule: dec.induct)
  case (1 n)
  show ?case
  proof (cases "n < 10")
    case True
    then show ?thesis by (subst dec.simps) (simp add: dec_value_def digit_value_char)
  next
    case False
    then show ?thesis using 1 by (subst dec.simps) (simp add: dec_value_snoc digit_value_char)
  qed
qed

text \<open>No leading zero, except for zero itself.\<close>

definition canonical_digits :: "string \<Rightarrow> bool" where
  "canonical_digits s \<longleftrightarrow> s \<noteq> [] \<and> list_all is_digit s \<and> (s = ''0'' \<or> hd s \<noteq> CHR ''0'')"

lemma dec_hd: "0 < n \<Longrightarrow> hd (dec n) \<noteq> CHR ''0''"
proof (induction n rule: dec.induct)
  case (1 n)
  have "digit_char n \<noteq> CHR ''0''" if "n < 10"
    using digit_value_char [OF that] 1(2) by (auto simp: digit_value_def)
  then show ?case using 1 by (subst dec.simps) auto
qed

lemma dec_canonical: "canonical_digits (dec n)"
proof (cases "n = 0")
  case True
  then show ?thesis by (simp add: canonical_digits_def dec.simps is_digit_def digit_value_def)
next
  case False
  then show ?thesis using dec_digits dec_hd by (auto simp: canonical_digits_def list_all_iff)
qed

lemma dec_value_pos: "list_all is_digit s \<Longrightarrow> s \<noteq> [] \<Longrightarrow> hd s \<noteq> CHR ''0'' \<Longrightarrow> 0 < dec_value s"
proof (induction s rule: rev_induct)
  case (snoc c s)
  obtain v where v: "digit_value c = Some v" using snoc.prems(1) by (auto simp: is_digit_def)
  show ?case
  proof (cases "s = []")
    case True
    then have "c \<noteq> CHR ''0''" using snoc.prems(3) by simp
    then have "v \<noteq> 0" using v by (auto simp: digit_value_Some)
    then show ?thesis using v digit_value_Some [of c v] by (simp add: True dec_value_def)
  next
    case False
    then show ?thesis using snoc by (simp add: dec_value_snoc)
  qed
qed simp

lemma dec_dec_value:
  assumes "canonical_digits s"
  shows "dec (dec_value s) = s"
proof -
  have *: "list_all is_digit s \<Longrightarrow> s \<noteq> [] \<Longrightarrow> hd s \<noteq> CHR ''0'' \<Longrightarrow> dec (dec_value s) = s" for s
  proof (induction s rule: rev_induct)
    case (snoc c s)
    obtain v where v: "digit_value c = Some v" "0 \<le> v" "v < 10" "c = digit_char (nat v)"
      using snoc.prems(1) by (auto simp: is_digit_def digit_value_Some)
    show ?case
    proof (cases "s = []")
      case True
      then show ?thesis using v by (subst dec.simps) (auto simp: dec_value_def)
    next
      case False
      then have "0 < dec_value s" using snoc.prems dec_value_pos [of s] by simp
      moreover have "dec (dec_value s) = s" using snoc False by simp
      moreover have "nat v < 10" using v by simp
      ultimately show ?thesis using v by (subst dec.simps) (simp add: dec_value_snoc)
    qed
  qed simp
  show ?thesis
  proof (cases "s = ''0''")
    case True
    then show ?thesis by (simp add: dec_value_def digit_value_def dec.simps)
  qed (use assms * in \<open>auto simp: canonical_digits_def\<close>)
qed

lemma int_digits_dec_value:
  "list_all is_digit s \<Longrightarrow> int_digits b (int a) s
     = (if s = [] \<and> \<not> b then None else Some (int (fold (\<lambda>c n. n * 10 + nat (the (digit_value c))) s a)))"
proof (induction s arbitrary: a b)
  case (Cons c s)
  then obtain v where "digit_value c = Some v" "0 \<le> v" by (auto simp: is_digit_def digit_value_Some)
  with Cons.IH [of True "a * 10 + nat v"] Cons.prems show ?case by simp
qed simp

lemma digit_not_space: "is_digit c \<Longrightarrow> \<not> py_isspace c"
  by (auto simp: is_digit_def digit_value_def py_isspace_def Let_def split: if_splits)

lemma digit_not_mark: "is_digit c \<Longrightarrow> c \<noteq> CHR ''-'' \<and> c \<noteq> CHR ''+'' \<and> c \<noteq> CHR '':'' \<and> c \<noteq> CHR ''.''"
  by (auto simp: is_digit_def digit_value_def Let_def)

lemma py_strip_digits: "list_all is_digit s \<Longrightarrow> py_strip s = s"
proof -
  assume d: "list_all is_digit s"
  have "dropWhile py_isspace xs = xs" if "list_all is_digit xs" for xs
    using that by (cases xs) (auto simp: digit_not_space)
  moreover have "list_all is_digit (rev s)" using d by (simp add: list_all_rev)
  ultimately show ?thesis using d by (simp add: py_strip_def)
qed

text \<open>\<open>int()\<close> of a numeral is its value.\<close>

lemma int_of_dec: "int_of_string (dec n) = Some (int n)"
proof -
  have d: "list_all is_digit (dec n)" using dec_digits by (simp add: list_all_iff)
  obtain c cs where c: "dec n = c # cs" by (cases "dec n") auto
  then have "c \<noteq> CHR ''-'' \<and> c \<noteq> CHR ''+''" using d digit_not_mark by simp
  then show ?thesis
    using int_digits_dec_value [OF d, of False 0] dec_value_dec [of n]
    using py_strip_digits [OF d] by (simp add: int_of_string_def c dec_value_def)
qed

section \<open>Timestamps\<close>

text \<open>\<open>dt.strftime("%Y-%m-%dT%H:%M:%SZ")\<close> of an instant; \<open>ord2ymd\<close> is the calendar computation of
  \<open>datetime\<close> on the number of days since 1 January of year 1.\<close>

definition DAYS_BEFORE_MONTH :: "nat list" where
  "DAYS_BEFORE_MONTH = [0, 0, 31, 59, 90, 120, 151, 181, 212, 243, 273, 304, 334]"

definition days_before :: "bool \<Rightarrow> nat \<Rightarrow> nat" where
  "days_before leap m = DAYS_BEFORE_MONTH ! m + (if 2 < m \<and> leap then 1 else 0)"

definition ord2ymd :: "nat \<Rightarrow> nat \<times> nat \<times> nat" where
  "ord2ymd n =
     (let n400 = n div 146097; a = n mod 146097; n100 = a div 36524; b = a mod 36524;
          n4 = b div 1461; c = b mod 1461; n1 = c div 365; d = c mod 365;
          year = n400 * 400 + 1 + n100 * 100 + n4 * 4 + n1
      in if n1 = 4 \<or> n100 = 4 then (year - 1, 12, 31)
         else let leap = (n1 = 3 \<and> (n4 \<noteq> 24 \<or> n100 = 3));
                  m0 = (d + 50) div 32;
                  m = (if d < days_before leap m0 then m0 - 1 else m0)
              in (year, m, d - days_before leap m + 1))"

definition pad :: "nat \<Rightarrow> nat \<Rightarrow> string" where
  "pad k n = replicate (k - length (dec n)) CHR ''0'' @ dec n"

definition iso_z :: "instant \<Rightarrow> string" where
  "iso_z t =
     (let s = t div secs 1; sod = nat (s mod 86400); (y, m, d) = ord2ymd (nat (s div 86400 + 719162))
      in dec y @ ''-'' @ pad 2 m @ ''-'' @ pad 2 d @ ''T'' @ pad 2 (sod div 3600) @ '':''
           @ pad 2 (sod div 60 mod 60) @ '':'' @ pad 2 (sod mod 60) @ ''Z'')"

end
