(* ===== verification/Schedules.thy ===== *)
theory Schedules
  imports AuditLog PyText
begin

text \<open>
  Schedules (\<open>app/services/schedules.py\<close>): validation and storage of one-shot, daily and weekly
  schedules and the computation of the next run. Days are counted from the epoch, a Thursday;
  \<open>datetime.weekday()\<close> counts Monday as 0.
\<close>

section \<open>Calendar\<close>

definition DAY :: instant where
  "DAY = secs 86400"

definition day_start :: "instant \<Rightarrow> instant" where
  "day_start t = t div DAY * DAY"

definition weekday :: "instant \<Rightarrow> int" where
  "weekday t = (t div DAY + 3) mod 7"

definition at_clock :: "int \<Rightarrow> int \<Rightarrow> instant" where
  "at_clock hh mm = secs (hh * 3600 + mm * 60)"

section \<open>The next run\<close>

text \<open>The exceptions \<open>compute_next_run_at\<close> lets through: \<open>replace\<close> on an impossible time of day and
  \<open>int()\<close> on a weekday that is no number.\<close>

datatype sched_error =
    SchedValidation string
  | BadClock
  | BadWeekday
  | SchedNotNullOrganization
  | SchedTenantRefused tenant_error

definition parse_clock :: "string \<Rightarrow> (int \<times> int) option" where
  "parse_clock s =
     (case map int_of_string (split_on CHR '':'' s) of
        [Some hh, Some mm] \<Rightarrow> Some (hh, mm)
      | _ \<Rightarrow> None)"

fun py_ints :: "pyval list \<Rightarrow> int list option" where
  "py_ints [] = Some []"
| "py_ints (v # vs) =
     (case py_int v of
        None \<Rightarrow> None
      | Some i \<Rightarrow> (case py_ints vs of None \<Rightarrow> None | Some is \<Rightarrow> Some (i # is)))"

fun walk_days :: "nat \<Rightarrow> int list \<Rightarrow> instant \<Rightarrow> instant option" where
  "walk_days 0 days candidate = None"
| "walk_days (Suc n) days candidate =
     (if weekday candidate \<in> set days then Some candidate else walk_days n days (candidate + DAY))"

definition next_daily :: "int \<Rightarrow> int \<Rightarrow> instant \<Rightarrow> instant" where
  "next_daily hh mm now =
     (let candidate = day_start now + at_clock hh mm
      in if candidate \<le> now then candidate + DAY else candidate)"

definition compute_next_run_at :: "schedule \<Rightarrow> instant \<Rightarrow> sched_error + instant option" where
  "compute_next_run_at s now =
     (if sch_recurrence s = ''once'' then
        (case sch_start_at s of
           None \<Rightarrow> Inr None
         | Some start \<Rightarrow>
             (if sch_last_run_at s \<noteq> None then Inr None
              else Inr (if start > now then Some start else None)))
      else if sch_recurrence s = ''daily'' \<or> sch_recurrence s = ''weekly'' then
        (case sch_at_time_utc s of
           None \<Rightarrow> Inr None
         | Some clk \<Rightarrow>
             (if clk = [] then Inr None
              else case parse_clock clk of
                None \<Rightarrow> Inr None
              | Some (hh, mm) \<Rightarrow>
                  (if \<not> (0 \<le> hh \<and> hh \<le> 23 \<and> 0 \<le> mm \<and> mm \<le> 59) then Inl BadClock
                   else if sch_recurrence s = ''daily'' then Inr (Some (next_daily hh mm now))
                   else case py_ints (sch_weekdays s) of
                     None \<Rightarrow> Inl BadWeekday
                   | Some days \<Rightarrow>
                       (if days = [] then Inr None
                        else Inr (walk_days 7 (sort days) (next_daily hh mm now))))))
      else Inr None)"

section \<open>Creating and changing\<close>

text \<open>\<open>re.fullmatch(r"(\d{1,2}):(\d{2})", s)\<close> with the two groups.\<close>

definition match_clock :: "string \<Rightarrow> (string \<times> string) option" where
  "match_clock s =
     (case split_on CHR '':'' s of
        [a, b] \<Rightarrow> (if (length a = 1 \<or> length a = 2) \<and> length b = 2 \<and> list_all is_digit (a @ b)
                  then Some (a, b) else None)
      | _ \<Rightarrow> None)"

definition normal_clock :: "string \<Rightarrow> string option" where
  "normal_clock s =
     (case match_clock (py_strip s) of
        None \<Rightarrow> None
      | Some (a, b) \<Rightarrow>
          (case (int_of_string a, int_of_string b) of
             (Some hh, Some mm) \<Rightarrow>
               (if hh \<le> 23 \<and> mm \<le> 59
                then Some ((if length a = 1 then CHR ''0'' # a else a) @ '':'' @ b) else None)
           | _ \<Rightarrow> None))"

record schedule_args =
  sa_name :: string
  sa_kind :: string
  sa_recurrence :: string
  sa_target :: "pydict option"
  sa_at_time_utc :: "string option"
  sa_weekdays :: "pyval list option"
  sa_start_at :: "instant option"
  sa_duration_seconds :: int
  sa_power_off_seconds :: int
  sa_post_reboot_holdoff_seconds :: int
  sa_description :: "string option"
  sa_created_by_user_id :: "string option"

definition KNOWN_KINDS :: "string list" where
  "KNOWN_KINDS = [''power_cycle'', ''maintenance'']"

definition KNOWN_RECURRENCES :: "string list" where
  "KNOWN_RECURRENCES = [''once'', ''daily'', ''weekly'']"

definition repr_tuple :: "string list \<Rightarrow> string" where
  "repr_tuple xs = ''('' @ join_with '', '' (map quoted xs) @ '')''"

definition repeats :: "string \<Rightarrow> bool" where
  "repeats r \<longleftrightarrow> r = ''daily'' \<or> r = ''weekly''"

text \<open>The weekdays of the request and their cleaned form.\<close>

definition given_days :: "schedule_args \<Rightarrow> pyval list" where
  "given_days a = (case sa_weekdays a of None \<Rightarrow> [] | Some ds \<Rightarrow> ds)"

definition clean_days :: "schedule_args \<Rightarrow> int list" where
  "clean_days a = (case py_ints (given_days a) of None \<Rightarrow> [] | Some days \<Rightarrow> sort (remdups days))"

definition target_ok :: "schedule_args \<Rightarrow> bool" where
  "target_ok a \<longleftrightarrow>
     (case sa_target a of
        None \<Rightarrow> False
      | Some t \<Rightarrow> t \<noteq> [] \<and> dget t ''kind'' \<in> {VStr ''device'', VStr ''group'', VStr ''tag''})"

definition clock_text :: "schedule_args \<Rightarrow> string" where
  "clock_text a = (case sa_at_time_utc a of None \<Rightarrow> [] | Some s \<Rightarrow> s)"

text \<open>The checks in the order the code makes them.\<close>

definition check_schedule :: "schedule_args \<Rightarrow> sched_error option" where
  "check_schedule a =
     (if py_strip (sa_name a) = [] then Some (SchedValidation ''name is required'')
      else if length (py_strip (sa_name a)) > 120
        then Some (SchedValidation ''name must be 120 characters or fewer'')
      else if sa_kind a \<notin> set KNOWN_KINDS then Some (SchedValidation (''kind must be one of '' @ repr_tuple KNOWN_KINDS))
      else if sa_recurrence a \<notin> set KNOWN_RECURRENCES
        then Some (SchedValidation (''recurrence must be one of '' @ repr_tuple KNOWN_RECURRENCES))
      else if repeats (sa_recurrence a) \<and> clock_text a = []
        then Some (SchedValidation ''at_time_utc is required for daily/weekly'')
      else if repeats (sa_recurrence a) \<and> normal_clock (clock_text a) = None
        then Some (SchedValidation ''at_time_utc must be HH:MM (00:00 to 23:59)'')
      else if sa_recurrence a = ''weekly'' \<and> given_days a = []
        then Some (SchedValidation ''weekdays is required for weekly'')
      else if sa_recurrence a = ''weekly'' \<and> py_ints (given_days a) = None then Some BadWeekday
      else if sa_recurrence a = ''weekly'' \<and> list_ex (\<lambda>d. d < 0 \<or> 6 < d) (clean_days a)
        then Some (SchedValidation ''weekdays must be integers 0 (Mon) to 6 (Sun)'')
      else if sa_recurrence a = ''once'' \<and> sa_start_at a = None
        then Some (SchedValidation ''start_at is required for once'')
      else if sa_kind a = ''power_cycle'' \<and> \<not> target_ok a
        then Some (SchedValidation ''power_cycle requires target.kind in {device,group,tag}'')
      else if sa_kind a = ''maintenance'' \<and> sa_duration_seconds a \<le> 0
        then Some (SchedValidation ''maintenance schedule needs duration_seconds > 0'')
      else None)"

definition new_schedule :: "schedule_args \<Rightarrow> string \<Rightarrow> string option \<Rightarrow> instant \<Rightarrow> schedule" where
  "new_schedule a i org now =
     \<lparr>sch_id = i, sch_organization_id = org, sch_name = py_strip (sa_name a), sch_description = sa_description a,
      sch_enabled = True, sch_kind = sa_kind a, sch_recurrence = sa_recurrence a,
      sch_at_time_utc = (if repeats (sa_recurrence a) then normal_clock (clock_text a) else sa_at_time_utc a),
      sch_weekdays = (if sa_recurrence a = ''weekly'' then map VInt (clean_days a) else given_days a),
      sch_start_at = sa_start_at a, sch_duration_seconds = sa_duration_seconds a,
      sch_target = dict_or_empty (sa_target a), sch_power_off_seconds = sa_power_off_seconds a,
      sch_post_reboot_holdoff_seconds = sa_post_reboot_holdoff_seconds a, sch_last_run_at = None,
      sch_next_run_at = None, sch_last_outcome = None, sch_created_by_user_id = sa_created_by_user_id a,
      sch_created_at = now, sch_updated_at = now\<rparr>"

definition schedule_obj :: "string option \<Rightarrow> bool \<Rightarrow> flush_obj" where
  "schedule_obj org m = \<lparr>fo_class = ''Schedule'', fo_org = org, fo_modified = m\<rparr>"

definition create_schedule ::
  "env \<Rightarrow> schedule_args \<Rightarrow> ctx \<times> hub \<Rightarrow> sched_error + (schedule \<times> ctx \<times> hub)" where
  "create_schedule E a s =
     (case check_schedule a of
        Some e \<Rightarrow> Inl e
      | None \<Rightarrow>
          (case stamp_and_guard_tenant_writes E [schedule_obj None True] [] s of
             Inl e \<Rightarrow> Inl (SchedTenantRefused e)
           | Inr (new, _, c, h) \<Rightarrow>
               (let row = new_schedule a (new_id (env_ulid E) ''sch'' (h_ulid h)) (fo_org (hd new)) (env_now E) in
                if sch_organization_id row = None then Inl SchedNotNullOrganization
                else case compute_next_run_at row (env_now E) of
                  Inl e \<Rightarrow> Inl e
                | Inr nxt \<Rightarrow>
                    (let row' = row\<lparr>sch_next_run_at := nxt\<rparr> in
                     case stamp_and_guard_tenant_writes E [] [schedule_obj (sch_organization_id row) (nxt \<noteq> None)] (c, h) of
                       Inl e \<Rightarrow> Inl (SchedTenantRefused e)
                     | Inr (_, _, c', h') \<Rightarrow>
                         Inr (row', c', h'\<lparr>h_schedules := tadd row' (h_schedules h'), h_ulid := Suc (h_ulid h')\<rparr>)))))"

definition get_schedule :: "env \<Rightarrow> string \<Rightarrow> ctx \<times> hub \<Rightarrow> schedule option \<times> ctx \<times> hub" where
  "get_schedule E i s =
     (let (rows, s1) = select_scoped E ''schedules'' sch_organization_id h_schedules s
      in (tget sch_id i rows, s1))"

definition delete_schedule :: "env \<Rightarrow> string \<Rightarrow> ctx \<times> hub \<Rightarrow> bool \<times> ctx \<times> hub" where
  "delete_schedule E i s =
     (case get_schedule E i s of
        (None, s1) \<Rightarrow> (False, s1)
      | (Some row, s1) \<Rightarrow>
          (case stamp_and_guard_tenant_writes E [] [] s1 of
             Inl _ \<Rightarrow> (False, s1)
           | Inr (_, _, c, h) \<Rightarrow> (True, c, h\<lparr>h_schedules := tdel sch_id i (h_schedules h)\<rparr>)))"

definition set_enabled :: "env \<Rightarrow> string \<Rightarrow> bool \<Rightarrow> ctx \<times> hub \<Rightarrow> sched_error + (bool \<times> ctx \<times> hub)" where
  "set_enabled E i on s =
     (case get_schedule E i s of
        (None, s1) \<Rightarrow> Inr (False, s1)
      | (Some row, s1) \<Rightarrow>
          (let row1 = row\<lparr>sch_enabled := on, sch_updated_at := env_now E\<rparr> in
           case (if on then compute_next_run_at row1 (env_now E) else Inr (sch_next_run_at row1)) of
             Inl e \<Rightarrow> Inl e
           | Inr nxt \<Rightarrow>
               (let row2 = row1\<lparr>sch_next_run_at := nxt\<rparr> in
                case stamp_and_guard_tenant_writes E [] [schedule_obj (sch_organization_id row) (row2 \<noteq> row)] s1 of
                  Inl e \<Rightarrow> Inl (SchedTenantRefused e)
                | Inr (_, dirty, c, h) \<Rightarrow>
                    Inr (True, c, h\<lparr>h_schedules := tupd sch_id i
                       (\<lambda>_. row2\<lparr>sch_organization_id := fo_org (hd dirty)\<rparr>) (h_schedules h)\<rparr>))))"

section \<open>The next run is the next matching instant\<close>

lemma DAY_pos [simp]: "0 < DAY"
  by (simp add: DAY_def secs_def)

lemma DAY_nonneg [simp]: "0 \<le> DAY"
  using DAY_pos by linarith

lemma DAY_nonzero [simp]: "DAY \<noteq> 0"
  using DAY_pos by linarith

lemma day_add [simp]: "(t + int n * DAY) div DAY = t div DAY + int n"
  by (simp add: add.commute)

lemma day_start_bounds: "day_start t \<le> t" "t < day_start t + DAY"
  using DAY_pos by (auto simp: day_start_def pos_mod_bound minus_mod_eq_div_mult [symmetric])

lemma clock_bounds:
  assumes "0 \<le> hh" "hh \<le> 23" "0 \<le> mm" "mm \<le> 59"
  shows "0 \<le> at_clock hh mm" "at_clock hh mm < DAY"
  using assms by (auto simp: at_clock_def DAY_def)

text \<open>An instant at that time of day, and the days it can fall on.\<close>

definition at_time :: "int \<Rightarrow> int \<Rightarrow> instant \<Rightarrow> bool" where
  "at_time hh mm t \<longleftrightarrow> t - day_start t = at_clock hh mm"

lemma at_time_iff:
  assumes "0 \<le> hh" "hh \<le> 23" "0 \<le> mm" "mm \<le> 59"
  shows "at_time hh mm t \<longleftrightarrow> (\<exists>k. t = k * DAY + at_clock hh mm)"
proof
  assume "at_time hh mm t"
  then show "\<exists>k. t = k * DAY + at_clock hh mm"
    by (intro exI [of _ "t div DAY"]) (simp add: at_time_def day_start_def)
next
  assume "\<exists>k. t = k * DAY + at_clock hh mm"
  then obtain k where t: "t = k * DAY + at_clock hh mm" by blast
  have "t div DAY = k" using clock_bounds [OF assms] t by simp
  then show "at_time hh mm t" by (simp add: at_time_def day_start_def t)
qed

lemma next_daily_bounds:
  assumes "0 \<le> hh" "hh \<le> 23" "0 \<le> mm" "mm \<le> 59"
  shows "now < next_daily hh mm now" and "next_daily hh mm now \<le> now + DAY"
    and "at_time hh mm (next_daily hh mm now)"
proof -
  show "now < next_daily hh mm now" and "next_daily hh mm now \<le> now + DAY"
    using day_start_bounds [of now] clock_bounds [OF assms] by (auto simp: next_daily_def Let_def)
  show "at_time hh mm (next_daily hh mm now)"
    unfolding at_time_iff [OF assms] next_daily_def Let_def day_start_def
    by (auto intro: exI [of _ "now div DAY"] exI [of _ "now div DAY + 1"] simp: algebra_simps)
qed

lemma at_time_step:
  assumes ok: "0 \<le> hh" "hh \<le> 23" "0 \<le> mm" "mm \<le> 59" and "at_time hh mm t" and "at_time hh mm u" and "t < u"
  shows "t + DAY \<le> u"
proof -
  obtain k l where t: "t = k * DAY + at_clock hh mm" and u: "u = l * DAY + at_clock hh mm"
    using assms(5,6) by (auto simp: at_time_iff [OF ok])
  then have "k * DAY < l * DAY" using assms(7) by simp
  then have "k < l" using DAY_pos by (auto intro: mult_right_less_imp_less)
  then have "(k + 1) * DAY \<le> l * DAY" using DAY_pos by (intro mult_right_mono) simp_all
  then show ?thesis by (simp add: t u algebra_simps)
qed

lemma next_daily_least:
  assumes ok: "0 \<le> hh" "hh \<le> 23" "0 \<le> mm" "mm \<le> 59" and "now < t" and "at_time hh mm t"
  shows "next_daily hh mm now \<le> t"
proof (rule ccontr)
  assume "\<not> ?thesis"
  then have "t + DAY \<le> next_daily hh mm now"
    using at_time_step [OF ok assms(6) next_daily_bounds(3) [OF ok]] by simp
  then show False using next_daily_bounds(2) [OF ok, of now] assms(5) by simp
qed

lemma at_time_add_days: "at_time hh mm t \<Longrightarrow> at_time hh mm (t + int n * DAY)"
  by (simp add: at_time_def day_start_def distrib_right)

lemma weekday_add: "weekday (t + int n * DAY) = (weekday t + int n) mod 7"
  by (simp add: weekday_def mod_simps add.assoc add.commute add.left_commute)

lemma weekday_range: "0 \<le> weekday t" "weekday t \<le> 6"
  using pos_mod_bound [of 7 "t div DAY + 3"] by (auto simp: weekday_def)

text \<open>The walk finds the first candidate day in the list.\<close>

lemma walk_days_spec:
  "walk_days n days t =
     (if \<exists>i < n. weekday (t + int i * DAY) \<in> set days
      then Some (t + int (LEAST i. weekday (t + int i * DAY) \<in> set days) * DAY) else None)"
proof (induction n arbitrary: t)
  case 0
  show ?case by simp
next
  case (Suc n)
  let ?P = "\<lambda>t i. weekday (t + int i * DAY) \<in> set days"
  show ?case
  proof (cases "weekday t \<in> set days")
    case True
    then have "(LEAST i. ?P t i) = 0" by (intro Least_equality) simp_all
    moreover have "\<exists>i < Suc n. ?P t i" using True by (intro exI [of _ 0]) simp
    ultimately show ?thesis using True by simp
  next
    case False
    have sh: "?P t (Suc i) \<longleftrightarrow> ?P (t + DAY) i" for i by (simp add: algebra_simps)
    have ex: "(\<exists>i < Suc n. ?P t i) \<longleftrightarrow> (\<exists>i < n. ?P (t + DAY) i)"
      using False sh by (metis Suc_less_eq add.right_neutral mult_zero_left not0_implies_Suc of_nat_0 zero_less_Suc)
    have least: "(LEAST i. ?P t i) = Suc (LEAST i. ?P (t + DAY) i)" if "?P (t + DAY) i" for i
      using Least_Suc [of "?P t" "Suc i"] that False sh by simp
    show ?thesis
    proof (cases "\<exists>i < n. ?P (t + DAY) i")
      case True
      then obtain i where "?P (t + DAY) i" by blast
      from least [OF this] show ?thesis
        using True False ex Suc.IH [of "t + DAY"] by (simp add: algebra_simps)
    next
      case none: False
      then have "\<not> (\<exists>i < Suc n. ?P t i)" using ex by blast
      moreover have "walk_days n days (t + DAY) = None" using none Suc.IH [of "t + DAY"] by (simp only: if_False)
      ultimately show ?thesis using False by (simp only: walk_days.simps if_False)
    qed
  qed
qed

section \<open>Properties\<close>

lemma weekday_eventually: "0 \<le> d \<Longrightarrow> d \<le> 6 \<Longrightarrow> \<exists>i < 7. weekday (t + int i * DAY) = d"
proof -
  assume d: "0 \<le> d" "d \<le> 6"
  let ?i = "nat ((d - weekday t) mod 7)"
  have "weekday (t + int ?i * DAY) = (weekday t + (d - weekday t) mod 7) mod 7"
    unfolding weekday_add by simp
  also have "\<dots> = d" using d by (simp add: mod_add_right_eq)
  finally show ?thesis by (intro exI [of _ ?i]) (simp add: nat_less_iff)
qed

lemma walk_days_least:
  assumes ok: "0 \<le> hh" "hh \<le> 23" "0 \<le> mm" "mm \<le> 59"
    and ex: "\<exists>d \<in> set days. 0 \<le> d \<and> d \<le> 6"
  obtains t where "walk_days 7 days (next_daily hh mm now) = Some t" and "now < t"
    and "at_time hh mm t" and "weekday t \<in> set days"
    and "\<And>u. now < u \<Longrightarrow> at_time hh mm u \<Longrightarrow> weekday u \<in> set days \<Longrightarrow> t \<le> u"
proof -
  let ?c = "next_daily hh mm now"
  let ?P = "\<lambda>i. weekday (?c + int i * DAY) \<in> set days"
  let ?k = "LEAST i. ?P i"
  have some: "\<exists>i < 7. ?P i" using ex weekday_eventually by metis
  have k: "?P ?k" using some by (metis LeastI)
  show ?thesis
  proof (rule that [of "?c + int ?k * DAY"])
    show "walk_days 7 days ?c = Some (?c + int ?k * DAY)" using some by (simp add: walk_days_spec)
    show "now < ?c + int ?k * DAY"
      using next_daily_bounds(1) [OF ok, of now] mult_nonneg_nonneg [of "int ?k" DAY] DAY_pos by linarith
    show "at_time hh mm (?c + int ?k * DAY)" by (rule at_time_add_days [OF next_daily_bounds(3) [OF ok]])
    show "weekday (?c + int ?k * DAY) \<in> set days" by (rule k)
    show "?c + int ?k * DAY \<le> u" if u: "now < u" "at_time hh mm u" "weekday u \<in> set days" for u
    proof -
      have "?c \<le> u" by (rule next_daily_least [OF ok u(1,2)])
      obtain a b where ab: "?c = a * DAY + at_clock hh mm" "u = b * DAY + at_clock hh mm"
        using next_daily_bounds(3) [OF ok, of now] u(2) unfolding at_time_iff [OF ok] by blast
      then have "a \<le> b" using \<open>?c \<le> u\<close> DAY_pos by (auto intro: mult_right_le_imp_le)
      then have uc: "u = ?c + int (nat (b - a)) * DAY" using ab by (simp add: algebra_simps)
      then have "?P (nat (b - a))" using u(3) by simp
      then have "?k \<le> nat (b - a)" by (rule Least_le)
      then have "int ?k \<le> int (nat (b - a))" by (simp only: of_nat_le_iff)
      then have "int ?k * DAY \<le> int (nat (b - a)) * DAY" by (rule mult_right_mono) simp
      then show ?thesis by (simp only: uc)
    qed
  qed
qed

text \<open>The next run of a daily or weekly schedule is the first instant after now at its time of day
  (and, weekly, on one of its weekdays): it exists, lies strictly in the future, and nothing earlier
  matches.\<close>

theorem compute_next_run_at_least:
  assumes "sch_recurrence s = ''daily'' \<or> sch_recurrence s = ''weekly'' \<and> py_ints (sch_weekdays s) = Some days
             \<and> (\<exists>d \<in> set days. 0 \<le> d \<and> d \<le> 6)"
    and "sch_at_time_utc s = Some clk" and "clk \<noteq> []" and "parse_clock clk = Some (hh, mm)"
    and "0 \<le> hh" and "hh \<le> 23" and "0 \<le> mm" and "mm \<le> 59"
  shows "\<exists>t. compute_next_run_at s now = Inr (Some t) \<and> now < t \<and> at_time hh mm t
           \<and> (sch_recurrence s = ''weekly'' \<longrightarrow> weekday t \<in> set days)
           \<and> (\<forall>u. now < u \<and> at_time hh mm u \<and> (sch_recurrence s = ''weekly'' \<longrightarrow> weekday u \<in> set days) \<longrightarrow> t \<le> u)"
proof (cases "sch_recurrence s = ''daily''")
  case True
  then show ?thesis
    using assms(2-4) next_daily_bounds [OF assms(5-8), of now] next_daily_least [OF assms(5-8), of now] assms(5-8)
    by (simp add: compute_next_run_at_def)
next
  case False
  then have w: "sch_recurrence s = ''weekly''" "py_ints (sch_weekdays s) = Some days"
    and ex: "\<exists>d \<in> set (sort days). 0 \<le> d \<and> d \<le> 6"
    using assms(1) by auto
  have ne: "days \<noteq> []" using ex by auto
  obtain t where "walk_days 7 (sort days) (next_daily hh mm now) = Some t" "now < t" "at_time hh mm t"
    "weekday t \<in> set (sort days)"
    "\<And>u. now < u \<Longrightarrow> at_time hh mm u \<Longrightarrow> weekday u \<in> set (sort days) \<Longrightarrow> t \<le> u"
    using walk_days_least [OF assms(5-8) ex, of now] by blast
  then show ?thesis
    using assms(2-8) w ne by (simp add: compute_next_run_at_def)
qed

definition demo_schedule :: "string \<Rightarrow> schedule" where
  "demo_schedule rec = \<lparr>sch_id = ''s'', sch_organization_id = Some ''a'', sch_name = ''nightly'',
     sch_description = None, sch_enabled = True, sch_kind = ''power_cycle'', sch_recurrence = rec,
     sch_at_time_utc = Some ''03:30'', sch_weekdays = [VInt 5], sch_start_at = Some 100,
     sch_duration_seconds = 3600, sch_target = [(''kind'', VStr ''group''), (''id'', VStr ''g'')],
     sch_power_off_seconds = 5, sch_post_reboot_holdoff_seconds = 180, sch_last_run_at = None,
     sch_next_run_at = None, sch_last_outcome = None, sch_created_by_user_id = None, sch_created_at = 0,
     sch_updated_at = 0\<rparr>"

text \<open>The epoch is a Thursday: the first Saturday 03:30 is two days and three and a half hours later.\<close>

theorem compute_next_run_at_least_witness:
  "compute_next_run_at (demo_schedule ''weekly'') 0 = Inr (Some (secs (2 * 86400 + 12600)))"
proof -
  have c: "parse_clock ''03:30'' = Some (3, 30)" by code_simp
  have "\<exists>t. compute_next_run_at (demo_schedule ''weekly'') 0 = Inr (Some t) \<and> 0 < t"
    using compute_next_run_at_least [OF _ _ _ c, of "demo_schedule ''weekly''" "[5]" 0]
    by (auto simp: demo_schedule_def)
  moreover have "compute_next_run_at (demo_schedule ''weekly'') 0 = Inr (Some (secs (2 * 86400 + 12600)))"
    by code_simp
  ultimately show ?thesis by simp
qed

section \<open>Accepted schedules\<close>

lemma digit_value_range: "digit_value c = Some d \<Longrightarrow> 0 \<le> d \<and> d \<le> 9"
  by (auto simp: digit_value_def Let_def split: if_splits)

lemma int_digits_all:
  "list_all is_digit s \<Longrightarrow> 0 \<le> acc \<Longrightarrow> s \<noteq> [] \<or> b \<Longrightarrow> \<exists>n. int_digits b acc s = Some n \<and> 0 \<le> n"
proof (induction s arbitrary: b acc)
  case Nil
  then show ?case by simp
next
  case (Cons c s)
  then obtain d where d: "digit_value c = Some d" by (auto simp: is_digit_def)
  then show ?case using Cons.IH [of "acc * 10 + d" True] Cons.prems digit_value_range [OF d] by simp
qed

lemma int_of_string_digits:
  assumes "list_all is_digit s" and "s \<noteq> []"
  shows "int_of_string s = int_digits False 0 s" and "\<exists>n. int_of_string s = Some n \<and> 0 \<le> n"
proof -
  show e: "int_of_string s = int_digits False 0 s"
    using assms digit_not_mark by (cases s) (auto simp: int_of_string_def py_strip_digits)
  show "\<exists>n. int_of_string s = Some n \<and> 0 \<le> n"
    unfolding e using int_digits_all [of s 0 False] assms by simp
qed

lemma int_of_string_zero:
  assumes "list_all is_digit s" and "s \<noteq> []"
  shows "int_of_string (CHR ''0'' # s) = int_of_string s"
proof -
  have z: "digit_value CHR ''0'' = Some 0" by (simp add: digit_value_def)
  have "int_digits True 0 s = int_digits False 0 s"
    using assms by (cases s) (auto simp: is_digit_def)
  then show ?thesis
    using int_of_string_digits(1) [of "CHR ''0'' # s"] int_of_string_digits(1) [OF assms] assms z
    by (simp add: is_digit_def)
qed

lemma split_on_digits: "list_all is_digit a \<Longrightarrow> split_on CHR '':'' a = [a]"
  using digit_not_mark by (induction a) auto

lemma split_on_clock: "list_all is_digit a \<Longrightarrow> split_on CHR '':'' (a @ CHR '':'' # t) = a # split_on CHR '':'' t"
  using digit_not_mark by (induction a) auto

lemma normal_clock_parses:
  assumes "normal_clock s = Some n"
  obtains hh mm where "parse_clock n = Some (hh, mm)" and "0 \<le> hh" and "hh \<le> 23" and "0 \<le> mm" and "mm \<le> 59"
    and "n \<noteq> []"
proof -
  obtain a b where m: "match_clock (py_strip s) = Some (a, b)"
    using assms by (auto simp: normal_clock_def split: option.splits)
  then have da: "list_all is_digit a" "a \<noteq> []" and db: "list_all is_digit b" "b \<noteq> []"
    by (auto simp: match_clock_def split: list.splits if_splits)
  obtain hh mm where h: "int_of_string a = Some hh" "0 \<le> hh" and mi: "int_of_string b = Some mm" "0 \<le> mm"
    using int_of_string_digits(2) [OF da] int_of_string_digits(2) [OF db] by blast
  let ?a = "if length a = 1 then CHR ''0'' # a else a"
  have n: "n = ?a @ '':'' @ b" and le: "hh \<le> 23" "mm \<le> 59"
    using assms m h mi by (auto simp: normal_clock_def split: if_splits)
  have "is_digit CHR ''0''" by (simp add: is_digit_def digit_value_def)
  then have "list_all is_digit ?a" using da by simp
  then have "split_on CHR '':'' n = [?a, b]" using n split_on_clock [of ?a b] split_on_digits [OF db(1)] by simp
  moreover have "int_of_string ?a = Some hh" using int_of_string_zero [OF da] h by simp
  ultimately have "parse_clock n = Some (hh, mm)" using mi by (simp add: parse_clock_def)
  then show ?thesis using that h mi le n by simp
qed

lemma py_ints_VInt [simp]: "py_ints (map VInt xs) = Some xs"
  by (induction xs) auto

lemma sort_eq_Nil [simp]: "sort (xs :: int list) = [] \<longleftrightarrow> xs = []"
  by (metis length_0_conv length_sort)

lemma check_schedule_repeats:
  assumes "check_schedule a = None" and "repeats (sa_recurrence a)"
  shows "normal_clock (clock_text a) \<noteq> None"
    and "sa_recurrence a = ''weekly'' \<Longrightarrow> clean_days a \<noteq> [] \<and> (\<forall>d \<in> set (clean_days a). 0 \<le> d \<and> d \<le> 6)"
proof -
  show "normal_clock (clock_text a) \<noteq> None"
    using assms by (auto simp: check_schedule_def split: if_splits)
  assume w: "sa_recurrence a = ''weekly''"
  then have "given_days a \<noteq> []" "py_ints (given_days a) \<noteq> None" "\<not> list_ex (\<lambda>d. d < 0 \<or> 6 < d) (clean_days a)"
    using assms(1) by (auto simp: check_schedule_def repeats_def split: if_splits)
  moreover have "days \<noteq> []" if "py_ints (given_days a) = Some days" for days
    using that \<open>given_days a \<noteq> []\<close> by (cases "given_days a") (auto split: option.splits)
  ultimately show "clean_days a \<noteq> [] \<and> (\<forall>d \<in> set (clean_days a). 0 \<le> d \<and> d \<le> 6)"
    by (auto simp: clean_days_def list_ex_iff split: option.splits)
qed

text \<open>Every daily or weekly schedule the validation accepts runs: whatever was typed for its time
  and its weekdays, the stored row has a next run, strictly in the future.\<close>

theorem accepted_schedule_runs:
  assumes "check_schedule a = None" and "repeats (sa_recurrence a)"
  shows "\<exists>t. compute_next_run_at (new_schedule a i org created) now = Inr (Some t) \<and> now < t"
proof -
  let ?s = "new_schedule a i org created"
  obtain n where n: "normal_clock (clock_text a) = Some n"
    using check_schedule_repeats(1) [OF assms] by blast
  obtain hh mm where p: "parse_clock n = Some (hh, mm)" "0 \<le> hh" "hh \<le> 23" "0 \<le> mm" "mm \<le> 59" "n \<noteq> []"
    using normal_clock_parses [OF n] by blast
  have at: "sch_at_time_utc ?s = Some n" using n assms(2) by (simp add: new_schedule_def)
  show ?thesis
  proof (cases "sa_recurrence a = ''weekly''")
    case True
    note days = check_schedule_repeats(2) [OF assms True]
    then have ex: "\<exists>d \<in> set (sort (clean_days a)). 0 \<le> d \<and> d \<le> 6"
      by (metis last_in_set set_sort)
    obtain t where "walk_days 7 (sort (clean_days a)) (next_daily hh mm now) = Some t" and "now < t"
      using walk_days_least [OF p(2-5) ex, of now] by blast
    then show ?thesis
      using True p at days by (simp add: compute_next_run_at_def new_schedule_def)
  next
    case False
    then have "sa_recurrence a = ''daily''" using assms(2) by (simp add: repeats_def)
    then show ?thesis
      using p at next_daily_bounds(1) [OF p(2-5), of now] by (simp add: compute_next_run_at_def new_schedule_def)
  qed
qed

theorem accepted_schedule_runs_witness:
  "\<exists>t. compute_next_run_at (new_schedule
       \<lparr>sa_name = '' reboot '', sa_kind = ''power_cycle'', sa_recurrence = ''weekly'',
        sa_target = Some [(''kind'', VStr ''group''), (''id'', VStr ''g'')], sa_at_time_utc = Some '' 7:05 '',
        sa_weekdays = Some [VStr ''6'', VInt 0, VInt 6], sa_start_at = None, sa_duration_seconds = 0,
        sa_power_off_seconds = 5, sa_post_reboot_holdoff_seconds = 180, sa_description = None,
        sa_created_by_user_id = None\<rparr> ''sch_1'' (Some ''a'') 0) 0 = Inr (Some t) \<and> 0 < t"
  by (rule accepted_schedule_runs) code_simp+

end
