(* ===== verification/EventBus.thy ===== *)
theory EventBus
  imports Models
begin

text \<open>
  The in-process publish/subscribe bus (\<open>app/services/event_bus.py\<close>). A subscriber owns
  a bounded queue; a publisher never blocks: a full queue drops the event for that one
  subscriber and keeps its backlog, and dead or closed subscribers are pruned on publish.
\<close>

definition DEFAULT_QUEUE_SIZE :: nat where
  "DEFAULT_QUEUE_SIZE = 100"

text \<open>\<open>queue.Queue.put_nowait\<close>: a \<open>maxsize\<close> of 0 is an unbounded queue.\<close>

definition put_nowait :: "bus_event option \<Rightarrow> subscriber \<Rightarrow> subscriber" where
  "put_nowait e s =
     (if sub_maxsize s = 0 \<or> length (sub_queue s) < sub_maxsize s
      then s\<lparr>sub_queue := sub_queue s @ [e]\<rparr> else s)"

definition close_sub :: "subscriber \<Rightarrow> subscriber" where
  "close_sub s = (if sub_closed s then s else put_nowait None (s\<lparr>sub_closed := True\<rparr>))"

definition subscribe :: "nat \<Rightarrow> hub \<Rightarrow> nat \<times> hub" where
  "subscribe n h =
     (let i = h_next_sub h;
          s = \<lparr>sub_id = i, sub_queue = [], sub_maxsize = n, sub_closed = False, sub_alive = True\<rparr>
      in (i, h\<lparr>h_bus := h_bus h @ [s], h_next_sub := Suc i\<rparr>))"

definition unsubscribe :: "nat \<Rightarrow> hub \<Rightarrow> hub" where
  "unsubscribe i h = h\<lparr>h_bus := tupd sub_id i close_sub (h_bus h)\<rparr>"

definition sub_dead :: "subscriber \<Rightarrow> bool" where
  "sub_dead s \<longleftrightarrow> \<not> sub_alive s \<or> sub_closed s"

definition publish :: "bus_event \<Rightarrow> hub \<Rightarrow> hub" where
  "publish e h =
     h\<lparr>h_bus := map (put_nowait (Some e)) (filter (\<lambda>s. \<not> sub_dead s) (h_bus h))\<rparr>"

section \<open>Queue discipline\<close>

definition within_bound :: "subscriber \<Rightarrow> bool" where
  "within_bound s \<longleftrightarrow> sub_maxsize s = 0 \<or> length (sub_queue s) \<le> sub_maxsize s"

lemma put_nowait_within_bound: "within_bound s \<Longrightarrow> within_bound (put_nowait e s)"
  by (auto simp: within_bound_def put_nowait_def)

lemma put_nowait_backlog: "prefix (sub_queue s) (sub_queue (put_nowait e s))"
  by (simp add: put_nowait_def)

lemma put_nowait_fields [simp]:
  "sub_id (put_nowait e s) = sub_id s"
  "sub_maxsize (put_nowait e s) = sub_maxsize s"
  "sub_closed (put_nowait e s) = sub_closed s"
  "sub_alive (put_nowait e s) = sub_alive s"
  by (simp_all add: put_nowait_def)

lemma close_sub_id [simp]: "sub_id (close_sub s) = sub_id s"
  by (simp add: close_sub_def)

lemma close_sub_within_bound: "within_bound s \<Longrightarrow> within_bound (close_sub s)"
  by (auto simp: close_sub_def within_bound_def put_nowait_def)

definition bus_ok :: "hub \<Rightarrow> bool" where
  "bus_ok h \<longleftrightarrow> (\<forall>s \<in> set (h_bus h). within_bound s \<and> sub_id s < h_next_sub h)
     \<and> distinct (map sub_id (h_bus h))"

lemma bus_ok_subscribe: "bus_ok h \<Longrightarrow> bus_ok (snd (subscribe n h))"
  by (fastforce simp: bus_ok_def subscribe_def Let_def within_bound_def)

lemma bus_ok_unsubscribe: "bus_ok h \<Longrightarrow> bus_ok (unsubscribe i h)"
  by (auto simp: bus_ok_def unsubscribe_def set_tupd map_key_tupd close_sub_within_bound)

lemma map_sub_id_put_nowait [simp]: "map (sub_id \<circ> put_nowait e) ss = map sub_id ss"
  by simp

lemma bus_ok_publish: "bus_ok h \<Longrightarrow> bus_ok (publish e h)"
  by (auto simp: bus_ok_def publish_def distinct_map_filter put_nowait_within_bound)

text \<open>Only the bus changes: every table is as before.\<close>

lemma publish_frame [frame_rules]:
  "h_devices (publish e h) = h_devices h"
  "h_commands (publish e h) = h_commands h"
  "h_results (publish e h) = h_results h"
  "h_memberships (publish e h) = h_memberships h"
  "h_rules (publish e h) = h_rules h"
  "h_probe_events (publish e h) = h_probe_events h"
  "h_scenes (publish e h) = h_scenes h"
  "h_flags (publish e h) = h_flags h"
  "h_schedules (publish e h) = h_schedules h"
  "h_outbound (publish e h) = h_outbound h"
  "h_ulid (publish e h) = h_ulid h"
  by (simp_all add: publish_def)

text \<open>Publishing never blocks and never loses a backlog: after an event is published, exactly the
  live, open subscribers remain, in order; each has its old backlog, with the event behind it if there
  was room and unchanged if its queue was full, and no queue exceeds its bound.\<close>

theorem publish_spec:
  assumes "bus_ok h"
  shows "map sub_id (h_bus (publish e h)) = map sub_id (filter (\<lambda>s. sub_alive s \<and> \<not> sub_closed s) (h_bus h))
       \<and> list_all2 (\<lambda>s s'. sub_queue s' = (if sub_maxsize s = 0 \<or> length (sub_queue s) < sub_maxsize s
                                           then sub_queue s @ [Some e] else sub_queue s))
           (filter (\<lambda>s. sub_alive s \<and> \<not> sub_closed s) (h_bus h)) (h_bus (publish e h))
       \<and> bus_ok (publish e h)"
  using bus_ok_publish [OF assms, of e]
  by (simp add: publish_def sub_dead_def list_all2_map2 list_all2_same put_nowait_def)

definition demo_bus :: hub where
  "demo_bus = snd (subscribe 2 (snd (subscribe 1 empty_hub)))"

definition demo_event :: bus_event where
  "demo_event = \<lparr>ev_kind = ''command_queued'', ev_command_id = ''c'', ev_device_id = ''d'',
     ev_device_local_ip = None, ev_type = ''relay_on'', ev_payload = [], ev_created_at = 0\<rparr>"

theorem publish_spec_witness:
  "bus_ok (publish demo_event (publish demo_event demo_bus))
   \<and> map (length \<circ> sub_queue) (h_bus (publish demo_event (publish demo_event demo_bus))) = [1, 2]"
proof -
  have "bus_ok empty_hub" by (simp add: bus_ok_def empty_hub_def)
  then have "bus_ok demo_bus" unfolding demo_bus_def by (intro bus_ok_subscribe)
  then have "bus_ok (publish demo_event demo_bus)" by (rule bus_ok_publish)
  from publish_spec [OF this, of demo_event] show ?thesis
    by (simp add: demo_bus_def subscribe_def publish_def put_nowait_def sub_dead_def empty_hub_def)
qed

end
