(* ===== verification/Commands.thy ===== *)
theory Commands
  imports EventBus
begin

text \<open>
  The command queue (\<open>app/services/commands.py\<close>): validation of a command's payload,
  enqueueing for a device and for a group with the \<open>is_protected\<close> lockout and the
  \<open>is_held_off\<close> side effect, cancellation, delivery to the device, recording of results
  and expiry. Every \<open>raise\<close> is a constructor of \<open>cmd_error\<close>; a raise inside
  \<open>session_scope()\<close> rolls the transaction back, so an error carries no state.
  The lifecycle of the queue as a whole is the step relation \<open>queue_step\<close>.
\<close>

section \<open>Vocabulary\<close>

definition DEFAULT_TTL_SECONDS :: int where
  "DEFAULT_TTL_SECONDS = 600"

definition ALLOWED_TYPES :: "string list" where
  "ALLOWED_TYPES = [''relay_on'', ''relay_off'', ''relay_toggle'', ''relay_cycle'',
     ''device_restart'', ''factory_reset'', ''set_mode'', ''apply_config'', ''check_firmware'',
     ''start_firmware_update'', ''lan_scan'', ''lan_proxy'', ''lan_ota_push'']"

definition ALLOWED_RESULT_STATUSES :: "string list" where
  "ALLOWED_RESULT_STATUSES = [''accepted'', ''running'', ''completed'', ''failed'', ''expired'']"

definition SET_MODE_ALLOWED :: "string list" where
  "SET_MODE_ALLOWED = [''smart_plug'', ''internet_watchdog'', ''device_watchdog'']"

definition APPLY_CONFIG_ALLOWED_TOP_LEVEL :: "string list" where
  "APPLY_CONFIG_ALLOWED_TOP_LEVEL = [''device_name'', ''relay_restore_behavior'',
     ''monitor_interval_seconds'', ''boot_warmup_seconds'', ''manual_button_enabled'',
     ''internet'', ''device'', ''notifications'', ''power'']"

definition POWER_TYPES :: "string list" where
  "POWER_TYPES = [''relay_on'', ''relay_off'', ''relay_toggle'', ''relay_cycle'', ''device_restart'']"

definition POWER_ON_TYPES :: "string list" where
  "POWER_ON_TYPES = [''relay_on'', ''relay_toggle'', ''relay_cycle'']"

definition LIVE_STATUSES :: "string list" where
  "LIVE_STATUSES = [''pending'', ''accepted'', ''running'']"

datatype cmd_error =
    UnsupportedType string
  | BadSetMode
  | ConfigEmpty
  | ConfigUnknownKeys "string list"
  | CycleFieldNotInt string
  | ScanNotInt
  | ScanOutOfRange
  | ScanTooWide
  | ProxyIp
  | ProxyPath
  | ProxyMethod
  | OtaIp
  | OtaUrl
  | PyAttributeError
  | PyTypeError
  | UnsupportedResultStatus string
  | LookupErr string
  | DeviceLockedError string

text \<open>
  \<open>str(e)\<close> of each exception, as the callers that catch them record it. The two exceptions
  the interpreter raises itself carry their class name only; no caller that records exceptions
  sends the command types that can raise them.
\<close>

fun cmd_error_str :: "cmd_error \<Rightarrow> string" where
  "cmd_error_str (UnsupportedType t) = ''unsupported command type: '' @ t"
| "cmd_error_str BadSetMode = ''set_mode.mode must be one of '' @ repr_list (sort SET_MODE_ALLOWED)"
| "cmd_error_str ConfigEmpty = ''apply_config payload must be a non-empty object''"
| "cmd_error_str (ConfigUnknownKeys ks) =
     ''apply_config contains unsupported top-level keys: '' @ join_with '', '' (sort (remdups ks))
       @ ''. Allowed: '' @ repr_list (sort APPLY_CONFIG_ALLOWED_TOP_LEVEL)"
| "cmd_error_str (CycleFieldNotInt k) = ''relay_cycle.'' @ k @ '' must be an integer''"
| "cmd_error_str ScanNotInt =
     ''lan_scan requires integer '' @ quoted ''start'' @ '' and '' @ quoted ''end''"
| "cmd_error_str ScanOutOfRange = ''lan_scan start/end must be in 1..254 with start <= end''"
| "cmd_error_str ScanTooWide = ''lan_scan range too wide (max 254 IPs)''"
| "cmd_error_str ProxyIp = ''lan_proxy requires non-empty '' @ quoted ''ip''"
| "cmd_error_str ProxyPath =
     ''lan_proxy '' @ quoted ''path'' @ '' must be a string starting with '' @ quoted ''/''"
| "cmd_error_str ProxyMethod = ''lan_proxy '' @ quoted ''method'' @ '' must be GET or POST''"
| "cmd_error_str OtaIp = ''lan_ota_push requires non-empty '' @ quoted ''ip''"
| "cmd_error_str OtaUrl = ''lan_ota_push '' @ quoted ''url'' @ '' must be a http(s) URL''"
| "cmd_error_str PyAttributeError = ''AttributeError''"
| "cmd_error_str PyTypeError = ''TypeError''"
| "cmd_error_str (UnsupportedResultStatus t) = ''unsupported result status: '' @ t"
| "cmd_error_str (LookupErr k) = k"
| "cmd_error_str (DeviceLockedError k) =
     ''device '' @ k @ '' is protected; override_lockout=True required''"

section \<open>Payload validation\<close>

text \<open>\<open>payload.get("method") or "GET"\<close> followed by \<open>.upper()\<close>, which only a string has.\<close>

definition proxy_method :: "pydict \<Rightarrow> cmd_error + string" where
  "proxy_method p =
     (let m = dget p ''method''; v = (if truthy m then m else VStr ''GET'')
      in case v of VStr s \<Rightarrow> Inr (py_upper s) | _ \<Rightarrow> Inl PyAttributeError)"

definition copy_key :: "string \<Rightarrow> pydict \<Rightarrow> pydict \<Rightarrow> pydict" where
  "copy_key k p out = (if dhas p k then dset out k (dget p k) else out)"

definition validate_set_mode :: "pydict \<Rightarrow> cmd_error + pydict" where
  "validate_set_mode p =
     (case dget p ''mode'' of
        VStr m \<Rightarrow> (if m \<in> set SET_MODE_ALLOWED then Inr [(''mode'', VStr m)] else Inl BadSetMode)
      | VList _ \<Rightarrow> Inl PyTypeError  \<comment> \<open>an unhashable value in a set membership test\<close>
      | VDict _ \<Rightarrow> Inl PyTypeError
      | _ \<Rightarrow> Inl BadSetMode)"

definition validate_apply_config :: "pydict \<Rightarrow> cmd_error + pydict" where
  "validate_apply_config p =
     (if p = [] then Inl ConfigEmpty
      else let unknown = filter (\<lambda>k. k \<notin> set APPLY_CONFIG_ALLOWED_TOP_LEVEL) (map fst p)
           in if unknown \<noteq> [] then Inl (ConfigUnknownKeys unknown) else Inr p)"

definition validate_relay_cycle :: "pydict \<Rightarrow> cmd_error + pydict" where
  "validate_relay_cycle p =
     (case find (\<lambda>k. dhas p k \<and> \<not> is_int (dget p k))
             [''power_off_seconds'', ''post_reboot_holdoff_seconds''] of
        Some k \<Rightarrow> Inl (CycleFieldNotInt k)
      | None \<Rightarrow> Inr p)"

definition validate_lan_scan :: "pydict \<Rightarrow> cmd_error + pydict" where
  "validate_lan_scan p =
     (let start = dget p ''start''; stop = dget p ''end'' in
      if \<not> is_int start \<or> \<not> is_int stop then Inl ScanNotInt
      else if \<not> (1 \<le> int_of start \<and> int_of start \<le> 254 \<and> 1 \<le> int_of stop \<and> int_of stop \<le> 254
                  \<and> int_of start \<le> int_of stop) then Inl ScanOutOfRange
      else if int_of stop - int_of start > 254 then Inl ScanTooWide
      else Inr [(''start'', start), (''end'', stop)])"

definition validate_lan_proxy :: "pydict \<Rightarrow> cmd_error + pydict" where
  "validate_lan_proxy p =
     (case dget p ''ip'' of
        VStr ip \<Rightarrow>
          (if ip = [] then Inl ProxyIp
           else case dget p ''path'' of
             VStr path \<Rightarrow>
               (if \<not> starts_with path ''/'' then Inl ProxyPath
                else case proxy_method p of
                  Inl e \<Rightarrow> Inl e
                | Inr m \<Rightarrow>
                    (if m \<notin> {''GET'', ''POST''} then Inl ProxyMethod
                     else let out = [(''ip'', VStr ip), (''path'', VStr path), (''method'', VStr m)];
                              out = copy_key ''body'' p out
                          in Inr (if is_dict (dget p ''headers'') then copy_key ''headers'' p out
                                  else out)))
           | _ \<Rightarrow> Inl ProxyPath)
      | _ \<Rightarrow> Inl ProxyIp)"

definition validate_lan_ota_push :: "pydict \<Rightarrow> cmd_error + pydict" where
  "validate_lan_ota_push p =
     (case dget p ''ip'' of
        VStr ip \<Rightarrow>
          (if ip = [] then Inl OtaIp
           else case dget p ''url'' of
             VStr url \<Rightarrow>
               (if starts_with url ''http://'' \<or> starts_with url ''https://''
                then Inr (copy_key ''sha256'' p [(''ip'', VStr ip), (''url'', VStr url)])
                else Inl OtaUrl)
           | _ \<Rightarrow> Inl OtaUrl)
      | _ \<Rightarrow> Inl OtaIp)"

definition validate_payload :: "string \<Rightarrow> pydict option \<Rightarrow> cmd_error + pydict" where
  "validate_payload cmd_type payload =
     (let p = dict_or_empty payload in
      if cmd_type = ''set_mode'' then validate_set_mode p
      else if cmd_type = ''apply_config'' then validate_apply_config p
      else if cmd_type = ''relay_cycle'' then validate_relay_cycle p
      else if cmd_type = ''lan_scan'' then validate_lan_scan p
      else if cmd_type = ''lan_proxy'' then validate_lan_proxy p
      else if cmd_type = ''lan_ota_push'' then validate_lan_ota_push p
      else Inr p)"

section \<open>Operations\<close>

text \<open>\<open>ttl_seconds or DEFAULT_TTL_SECONDS\<close>: both \<open>None\<close> and 0 take the default.\<close>

definition effective_ttl :: "int option \<Rightarrow> int" where
  "effective_ttl ttl = (case ttl of None \<Rightarrow> DEFAULT_TTL_SECONDS
                        | Some n \<Rightarrow> if n = 0 then DEFAULT_TTL_SECONDS else n)"

definition new_command ::
  "string \<Rightarrow> string \<Rightarrow> string option \<Rightarrow> string option \<Rightarrow> string \<Rightarrow> pydict \<Rightarrow> instant \<Rightarrow> instant \<Rightarrow> command"
  where
  "new_command cid did gid uid ty p now expires =
     \<lparr>c_id = cid, c_device_id = did, c_group_id = gid, c_issued_by_user_id = uid, c_type = ty,
      c_payload = p, c_status = ''pending'', c_created_at = now, c_expires_at = expires,
      c_delivered_at = None, c_ack_received_at = None, c_completed_at = None\<rparr>"

definition locked_out :: "device \<Rightarrow> string \<Rightarrow> bool \<Rightarrow> bool" where
  "locked_out d ty override \<longleftrightarrow> ty \<in> set POWER_TYPES \<and> dev_is_protected d \<and> \<not> override"

definition command_queued_event :: "command \<Rightarrow> device \<Rightarrow> bus_event" where
  "command_queued_event c d =
     \<lparr>ev_kind = ''command_queued'', ev_command_id = c_id c, ev_device_id = c_device_id c,
      ev_device_local_ip = dev_local_ip d, ev_type = c_type c, ev_payload = c_payload c,
      ev_created_at = c_created_at c\<rparr>"

text \<open>The hold-off side effect of a queued command on its device.\<close>

definition apply_hold_off :: "bool \<Rightarrow> string \<Rightarrow> device \<Rightarrow> device" where
  "apply_hold_off set_hold_off ty d =
     (if set_hold_off then d\<lparr>dev_is_held_off := True\<rparr>
      else if ty \<in> set POWER_ON_TYPES \<and> dev_is_held_off d then d\<lparr>dev_is_held_off := False\<rparr>
      else d)"

definition enqueue_for_device ::
  "ulid_gen \<Rightarrow> instant \<Rightarrow> string \<Rightarrow> string \<Rightarrow> pydict option \<Rightarrow> string option \<Rightarrow> int option
   \<Rightarrow> string option \<Rightarrow> bool \<Rightarrow> bool \<Rightarrow> hub \<Rightarrow> cmd_error + (command \<times> hub)" where
  "enqueue_for_device gen now device_id cmd_type payload issued_by ttl group_id override
     set_hold_off h =
     (if cmd_type \<notin> set ALLOWED_TYPES then Inl (UnsupportedType cmd_type)
      else case validate_payload cmd_type payload of
        Inl e \<Rightarrow> Inl e
      | Inr p \<Rightarrow>
          (case get_device device_id h of
             None \<Rightarrow> Inl (LookupErr device_id)
           | Some target \<Rightarrow>
               (if locked_out target cmd_type override then Inl (DeviceLockedError device_id)
                else let c = new_command (new_id gen ''cmd'' (h_ulid h)) device_id group_id issued_by
                               cmd_type p now (now + secs (effective_ttl ttl));
                         h1 = modify_device device_id (apply_hold_off set_hold_off cmd_type) h;
                         h2 = put_command c (h1\<lparr>h_ulid := Suc (h_ulid h1)\<rparr>)
                     in Inr (c, publish (command_queued_event c target) h2))))"

text \<open>The fan-out loop of \<open>enqueue_for_group\<close>: created commands, skipped device ids, hub.\<close>

fun fan_out ::
  "ulid_gen \<Rightarrow> instant \<Rightarrow> string \<Rightarrow> string \<Rightarrow> pydict \<Rightarrow> string option \<Rightarrow> instant \<Rightarrow> bool
   \<Rightarrow> string list \<Rightarrow> hub \<Rightarrow> command list \<times> string list \<times> hub" where
  "fan_out gen now gid ty p uid expires override [] h = ([], [], h)"
| "fan_out gen now gid ty p uid expires override (did # dids) h =
     (case get_device did h of
        None \<Rightarrow> fan_out gen now gid ty p uid expires override dids h
      | Some target \<Rightarrow>
          (if locked_out target ty override
           then (let (cs, sk, h') = fan_out gen now gid ty p uid expires override dids h
                 in (cs, did # sk, h'))
           else (let c = new_command (new_id gen ''cmd'' (h_ulid h)) did (Some gid) uid ty p now expires;
                     h1 = modify_device did (apply_hold_off False ty) h;
                     h2 = put_command c (h1\<lparr>h_ulid := Suc (h_ulid h1)\<rparr>);
                     (cs, sk, h') = fan_out gen now gid ty p uid expires override dids h2
                 in (c # cs, sk, h'))))"

definition enqueue_for_group ::
  "ulid_gen \<Rightarrow> instant \<Rightarrow> string \<Rightarrow> string \<Rightarrow> pydict option \<Rightarrow> string option \<Rightarrow> int option \<Rightarrow> bool
   \<Rightarrow> hub \<Rightarrow> cmd_error + (command list \<times> string list \<times> hub)" where
  "enqueue_for_group gen now gid cmd_type payload issued_by ttl override h =
     (if cmd_type \<notin> set ALLOWED_TYPES then Inl (UnsupportedType cmd_type)
      else case validate_payload cmd_type payload of
        Inl e \<Rightarrow> Inl e
      | Inr p \<Rightarrow> Inr (fan_out gen now gid cmd_type p issued_by (now + secs (effective_ttl ttl))
                        override (group_device_ids gid h) h))"

definition cancel_pending_command :: "instant \<Rightarrow> string \<Rightarrow> hub \<Rightarrow> bool \<times> hub" where
  "cancel_pending_command now cid h =
     (case get_command cid h of
        None \<Rightarrow> (False, h)
      | Some c \<Rightarrow>
          (if c_status c \<noteq> ''pending'' then (False, h)
           else (True, modify_command cid
                   (\<lambda>c. c\<lparr>c_status := ''cancelled'', c_completed_at := Some now\<rparr>) h)))"

definition deliverable :: "instant \<Rightarrow> string \<Rightarrow> int option \<Rightarrow> command \<Rightarrow> bool" where
  "deliverable now did grace c \<longleftrightarrow>
     c_device_id c = did \<and> c_status c \<in> set LIVE_STATUSES \<and> c_expires_at c > now \<and>
     (case grace of None \<Rightarrow> True
      | Some g \<Rightarrow> (case c_delivered_at c of None \<Rightarrow> True | Some t \<Rightarrow> t \<le> now - secs g))"

definition mark_delivered :: "instant \<Rightarrow> command \<Rightarrow> command" where
  "mark_delivered now c =
     (if c_status c = ''pending''
      then c\<lparr>c_status := ''accepted'', c_delivered_at := Some now\<rparr> else c)"

definition list_pending_for_device ::
  "instant \<Rightarrow> string \<Rightarrow> bool \<Rightarrow> int option \<Rightarrow> hub \<Rightarrow> command list \<times> hub" where
  "list_pending_for_device now did mark grace h =
     (let rows = sort_key c_created_at (filter (deliverable now did grace) (h_commands h)) in
      if mark
      then (map (mark_delivered now) rows,
            h\<lparr>h_commands := map (\<lambda>c. if deliverable now did grace c then mark_delivered now c else c)
                               (h_commands h)\<rparr>)
      else (rows, h))"

text \<open>\<open>ack_received_at\<close> is stamped once; status and completion time are overwritten.\<close>

definition stamp_result :: "instant \<Rightarrow> string \<Rightarrow> instant \<Rightarrow> command \<Rightarrow> command" where
  "stamp_result now status completed c =
     c\<lparr>c_ack_received_at := (case c_ack_received_at c of None \<Rightarrow> Some now | Some t \<Rightarrow> Some t),
       c_status := status, c_completed_at := Some completed\<rparr>"

definition record_result ::
  "ulid_gen \<Rightarrow> instant \<Rightarrow> string \<Rightarrow> string \<Rightarrow> string \<Rightarrow> string option \<Rightarrow> pydict option
   \<Rightarrow> instant option \<Rightarrow> hub \<Rightarrow> cmd_error + (command_result \<times> hub)" where
  "record_result gen now did cid status message result completed_at h =
     (if status \<notin> set ALLOWED_RESULT_STATUSES then Inl (UnsupportedResultStatus status)
      else let completed = (case completed_at of None \<Rightarrow> now | Some t \<Rightarrow> t) in
        case get_command cid h of
          None \<Rightarrow> Inl (LookupErr cid)
        | Some c \<Rightarrow>
            (if c_device_id c \<noteq> did then Inl (LookupErr cid)
             else let r = \<lparr>r_id = new_id gen ''cmr'' (h_ulid h), r_command_id = cid, r_device_id = did,
                           r_status = status, r_message = message, r_result = dict_or_empty result,
                           r_completed_at = completed, r_received_at = now\<rparr>;
                      h1 = modify_command cid (stamp_result now status completed) h
                  in Inr (r, h1\<lparr>h_results := tadd r (h_results h1), h_ulid := Suc (h_ulid h1)\<rparr>)))"

definition overdue :: "instant \<Rightarrow> command \<Rightarrow> bool" where
  "overdue now c \<longleftrightarrow> c_status c \<in> set LIVE_STATUSES \<and> c_expires_at c \<le> now"

definition expire_overdue_commands :: "instant \<Rightarrow> hub \<Rightarrow> nat \<times> hub" where
  "expire_overdue_commands now h =
     (length (filter (overdue now) (h_commands h)),
      h\<lparr>h_commands := map (\<lambda>c. if overdue now c then c\<lparr>c_status := ''expired''\<rparr> else c)
                         (h_commands h)\<rparr>)"

section \<open>Frame facts\<close>

lemma apply_hold_off_fields [simp]:
  "dev_id (apply_hold_off b ty d) = dev_id d"
  "dev_is_protected (apply_hold_off b ty d) = dev_is_protected d"
  "dev_local_ip (apply_hold_off b ty d) = dev_local_ip d"
  by (simp_all add: apply_hold_off_def)

lemma locked_out_apply_hold_off [simp]:
  "locked_out (apply_hold_off b ty d) ty' ov = locked_out d ty' ov"
  by (simp add: locked_out_def)

lemma get_device_modify:
  assumes "\<And>d. dev_id (f d) = dev_id d"
  shows "get_device k (modify_device k' f h) =
           (if k = k' then map_option f (get_device k h) else get_device k h)"
  using assms by (simp add: get_device_def modify_device_def tget_tupd)

lemma get_device_cong: "h_devices h = h_devices h' \<Longrightarrow> get_device k h = get_device k h'"
  by (simp add: get_device_def)

lemma get_command_cong: "h_commands h = h_commands h' \<Longrightarrow> get_command k h = get_command k h'"
  by (simp add: get_command_def)

lemma get_device_ext [simp]:
  "get_device k (put_command c h) = get_device k h"
  "get_device k (h\<lparr>h_ulid := n\<rparr>) = get_device k h"
  "get_device k (publish e h) = get_device k h"
  by (simp_all add: get_device_def put_command_def frame_rules)

lemma modify_device_frame [frame_rules]:
  "h_commands (modify_device k f h) = h_commands h"
  "h_ulid (modify_device k f h) = h_ulid h"
  "h_results (modify_device k f h) = h_results h"
  "h_memberships (modify_device k f h) = h_memberships h"
  by (simp_all add: modify_device_def)

lemma put_command_frame [frame_rules]:
  "h_devices (put_command c h) = h_devices h"
  "h_ulid (put_command c h) = h_ulid h"
  "h_results (put_command c h) = h_results h"
  "h_memberships (put_command c h) = h_memberships h"
  by (simp_all add: put_command_def)

section \<open>Enqueueing\<close>

text \<open>
  The shape of a successful enqueue: the one row added, the one device touched, the one
  event published.
\<close>

lemma enqueue_for_deviceE:
  assumes "enqueue_for_device gen now did ty p uid ttl gid ov hold h = Inr (c, h')"
  obtains q d where
    "ty \<in> set ALLOWED_TYPES" and "validate_payload ty p = Inr q" and "get_device did h = Some d"
    and "\<not> locked_out d ty ov"
    and "c = new_command (new_id gen ''cmd'' (h_ulid h)) did gid uid ty q now
               (now + secs (effective_ttl ttl))"
    and "h_commands h' = h_commands h @ [c]"
    and "h_devices h' = tupd dev_id did (apply_hold_off hold ty) (h_devices h)"
    and "h_ulid h' = Suc (h_ulid h)"
    and "h_results h' = h_results h"
    and "h_memberships h' = h_memberships h"
  using assms
  by (auto simp: enqueue_for_device_def Let_def frame_rules put_command_def tadd_def
      modify_device_def split: if_splits sum.splits option.splits)

lemma enqueue_locked:
  assumes "get_device did h = Some d" and "dev_is_protected d" and "ty \<in> set POWER_TYPES"
  shows "enqueue_for_device gen now did ty p uid ttl gid False hold h \<noteq> Inr (c, h')"
  using assms by (auto elim!: enqueue_for_deviceE simp: locked_out_def)

lemma enqueue_device_effect:
  assumes "enqueue_for_device gen now did ty p uid ttl gid ov hold h = Inr (c, h')"
  shows "get_device k h' =
           (if k = did then map_option (apply_hold_off hold ty) (get_device k h) else get_device k h)"
  using assms by (auto elim!: enqueue_for_deviceE simp: get_device_def tget_tupd)

text \<open>The two outcomes of the loop body as predicates of the starting state.\<close>

definition accepts :: "string \<Rightarrow> bool \<Rightarrow> hub \<Rightarrow> string \<Rightarrow> bool" where
  "accepts ty ov h did \<longleftrightarrow> (case get_device did h of None \<Rightarrow> False | Some d \<Rightarrow> \<not> locked_out d ty ov)"

definition skips :: "string \<Rightarrow> bool \<Rightarrow> hub \<Rightarrow> string \<Rightarrow> bool" where
  "skips ty ov h did \<longleftrightarrow> (case get_device did h of None \<Rightarrow> False | Some d \<Rightarrow> locked_out d ty ov)"

lemma accepts_step:
  "accepts ty ov (put_command c ((modify_device k (apply_hold_off b ty') h)\<lparr>h_ulid := n\<rparr>)) did
     = accepts ty ov h did"
  by (auto simp: accepts_def get_device_modify split: option.splits)

lemma skips_step:
  "skips ty ov (put_command c ((modify_device k (apply_hold_off b ty') h)\<lparr>h_ulid := n\<rparr>)) did
     = skips ty ov h did"
  by (auto simp: skips_def get_device_modify split: option.splits)

text \<open>One accepted iteration: the row it creates and the hub it leaves.\<close>

abbreviation fan_cmd where
  "fan_cmd gen now gid ty p uid expires did h \<equiv>
     new_command (new_id gen ''cmd'' (h_ulid h)) did (Some gid) uid ty p now expires"

abbreviation fan_hub where
  "fan_hub gen now gid ty p uid expires did h \<equiv>
     put_command (fan_cmd gen now gid ty p uid expires did h)
       ((modify_device did (apply_hold_off False ty) h)\<lparr>h_ulid := Suc (h_ulid h)\<rparr>)"

lemma fan_out_acceptE:
  assumes "fan_out gen now gid ty p uid expires ov (did # dids) h = (cs, sk, h')"
    and "accepts ty ov h did"
  obtains cs' where "cs = fan_cmd gen now gid ty p uid expires did h # cs'"
    and "fan_out gen now gid ty p uid expires ov dids (fan_hub gen now gid ty p uid expires did h)
           = (cs', sk, h')"
  using assms by (auto simp: accepts_def Let_def frame_rules split: option.splits prod.splits)

lemma fan_out_skipE:
  assumes "fan_out gen now gid ty p uid expires ov (did # dids) h = (cs, sk, h')"
    and "skips ty ov h did"
  obtains sk' where "sk = did # sk'"
    and "fan_out gen now gid ty p uid expires ov dids h = (cs, sk', h')"
  using assms by (auto simp: skips_def Let_def split: option.splits prod.splits)

lemma fan_out_missing:
  "\<not> accepts ty ov h did \<Longrightarrow> \<not> skips ty ov h did \<Longrightarrow>
   fan_out gen now gid ty p uid expires ov (did # dids) h
     = fan_out gen now gid ty p uid expires ov dids h"
  by (auto simp: accepts_def skips_def split: option.splits)

lemma accepts_not_skips: "accepts ty ov h did \<Longrightarrow> \<not> skips ty ov h did"
  by (auto simp: accepts_def skips_def split: option.splits)

text \<open>Induction over the loop by the three outcomes of its body.\<close>

lemma fan_out_induct [consumes 1, case_names Nil accept skip missing]:
  assumes "fan_out gen now gid ty p uid expires ov dids h = (cs, sk, h')"
    and "\<And>h. P [] h [] [] h"
    and "\<And>did dids h cs sk h'. accepts ty ov h did \<Longrightarrow> \<not> skips ty ov h did \<Longrightarrow>
           P dids (fan_hub gen now gid ty p uid expires did h) cs sk h' \<Longrightarrow>
           P (did # dids) h (fan_cmd gen now gid ty p uid expires did h # cs) sk h'"
    and "\<And>did dids h cs sk h'. skips ty ov h did \<Longrightarrow> \<not> accepts ty ov h did \<Longrightarrow>
           P dids h cs sk h' \<Longrightarrow> P (did # dids) h cs (did # sk) h'"
    and "\<And>did dids h cs sk h'. \<not> accepts ty ov h did \<Longrightarrow> \<not> skips ty ov h did \<Longrightarrow>
           P dids h cs sk h' \<Longrightarrow> P (did # dids) h cs sk h'"
  shows "P dids h cs sk h'"
  using assms(1)
proof (induction dids arbitrary: h cs sk h')
  case Nil
  then show ?case using assms(2) by simp
next
  case (Cons did dids)
  consider "accepts ty ov h did" | "skips ty ov h did"
    | "\<not> accepts ty ov h did" "\<not> skips ty ov h did" by blast
  then show ?case
  proof cases
    case 1
    with Cons.prems obtain cs' where "cs = fan_cmd gen now gid ty p uid expires did h # cs'"
      and "fan_out gen now gid ty p uid expires ov dids
             (fan_hub gen now gid ty p uid expires did h) = (cs', sk, h')"
      by (rule fan_out_acceptE)
    with Cons.IH 1 assms(3) accepts_not_skips show ?thesis by blast
  next
    case 2
    with Cons.prems obtain sk' where "sk = did # sk'"
      and "fan_out gen now gid ty p uid expires ov dids h = (cs, sk', h')"
      by (rule fan_out_skipE)
    with Cons.IH 2 assms(4) accepts_not_skips show ?thesis by blast
  next
    case 3
    with Cons.prems have "fan_out gen now gid ty p uid expires ov dids h = (cs, sk, h')"
      by (simp only: fan_out_missing [OF 3])
    with 3 show ?thesis by (intro assms(5) Cons.IH)
  qed
qed

lemma fan_out_partition:
  "fan_out gen now gid ty p uid expires ov dids h = (cs, sk, h') \<Longrightarrow>
     map c_device_id cs = filter (accepts ty ov h) dids \<and> sk = filter (skips ty ov h) dids"
  by (induction rule: fan_out_induct) (simp_all add: accepts_step skips_step new_command_def)

lemma fan_out_commands:
  "fan_out gen now gid ty p uid expires ov dids h = (cs, sk, h') \<Longrightarrow>
     list_all (\<lambda>c. c_type c = ty \<and> c_group_id c = Some gid \<and> c_status c = ''pending''
       \<and> c_payload c = p \<and> c_expires_at c = expires \<and> c_delivered_at c = None
       \<and> c_ack_received_at c = None \<and> c_completed_at c = None) cs"
  by (induction rule: fan_out_induct) (simp_all add: new_command_def)

lemma fan_out_ids:
  "fan_out gen now gid ty p uid expires ov dids h = (cs, sk, h') \<Longrightarrow>
     map c_id cs = map (new_id gen ''cmd'') [h_ulid h..<h_ulid h + length cs]"
  by (induction rule: fan_out_induct)
    (simp_all add: new_command_def frame_rules upt_conv_Cons del: upt_Suc)

lemma fan_out_frame:
  "fan_out gen now gid ty p uid expires ov dids h = (cs, sk, h') \<Longrightarrow>
     h_commands h' = h_commands h @ cs \<and> h_results h' = h_results h
     \<and> h_ulid h' = h_ulid h + length cs"
  by (induction rule: fan_out_induct) (simp_all add: frame_rules put_command_def tadd_def)

section \<open>Delivery\<close>

lemma mark_delivered_fields [simp]:
  "c_id (mark_delivered now c) = c_id c"
  "c_device_id (mark_delivered now c) = c_device_id c"
  "c_created_at (mark_delivered now c) = c_created_at c"
  "c_expires_at (mark_delivered now c) = c_expires_at c"
  "c_ack_received_at (mark_delivered now c) = c_ack_received_at c"
  "c_completed_at (mark_delivered now c) = c_completed_at c"
  by (simp_all add: mark_delivered_def)

lemma mark_delivered_not_pending [simp]: "c_status (mark_delivered now c) \<noteq> ''pending''"
  by (simp add: mark_delivered_def)

abbreviation deliver_row :: "instant \<Rightarrow> string \<Rightarrow> int option \<Rightarrow> command \<Rightarrow> command" where
  "deliver_row now did grace c \<equiv>
     (if deliverable now did grace c then mark_delivered now c else c)"

lemma deliver_row_id: "c_id (deliver_row now did grace c) = c_id c"
  by simp

lemma list_pending_marked:
  "list_pending_for_device now did True grace h = (rows, h') \<Longrightarrow>
     set rows = mark_delivered now ` {c \<in> set (h_commands h). deliverable now did grace c} \<and>
     h_commands h' = map (deliver_row now did grace) (h_commands h)"
  by (auto simp: list_pending_for_device_def Let_def)

lemma list_pending_ids:
  "list_pending_for_device now did mark grace h = (rows, h') \<Longrightarrow>
     c_id ` set rows = c_id ` {c \<in> set (h_commands h). deliverable now did grace c}"
  by (cases mark) (auto simp: list_pending_for_device_def Let_def image_image)

lemma list_pending_frame [frame_rules]:
  "h_devices (snd (list_pending_for_device now did mark grace h)) = h_devices h"
  "h_results (snd (list_pending_for_device now did mark grace h)) = h_results h"
  "h_ulid (snd (list_pending_for_device now did mark grace h)) = h_ulid h"
  by (simp_all add: list_pending_for_device_def Let_def)

lemma list_pending_rows_sorted:
  "list_pending_for_device now did mark grace h = (rows, h') \<Longrightarrow> sorted (map c_created_at rows)"
  by (auto simp: list_pending_for_device_def Let_def comp_def split: if_splits)

lemma list_pending_length:
  "list_pending_for_device now did mark grace h = (rows, h') \<Longrightarrow>
     length rows = length (filter (deliverable now did grace) (h_commands h))"
  by (auto simp: list_pending_for_device_def Let_def split: if_splits)

lemma list_pending_in_table:
  assumes "list_pending_for_device now did mark grace h = (rows, h')"
  shows "set rows \<subseteq> set (h_commands h')"
  using assms by (auto simp: list_pending_for_device_def Let_def split: if_splits)

lemma list_pending_distinct:
  assumes "pk_ok c_id (h_commands h)" and "list_pending_for_device now did mark grace h = (rows, h')"
  shows "distinct (map c_id rows)"
proof -
  let ?rs = "sort_key c_created_at (filter (deliverable now did grace) (h_commands h))"
  have "mset (map c_id ?rs) = mset (map c_id (filter (deliverable now did grace) (h_commands h)))"
    by simp
  moreover have "distinct (map c_id (filter (deliverable now did grace) (h_commands h)))"
    using assms(1) by (simp add: pk_ok_def distinct_map_filter)
  ultimately have "distinct (map c_id ?rs)" by (metis mset_eq_imp_distinct_iff)
  then show ?thesis
    using assms(2) by (auto simp: list_pending_for_device_def Let_def comp_def split: if_splits)
qed

text \<open>
  A row handed out as new at \<open>t\<close> carries \<open>delivered_at = t\<close>, so a poll with a grace
  window that has not elapsed does not see it again.
\<close>

lemma not_deliverable_in_grace:
  assumes "c_status c = ''pending''" and "t' < t + secs g"
  shows "\<not> deliverable t' did (Some g) (mark_delivered t c)"
  using assms by (simp add: deliverable_def mark_delivered_def)

section \<open>Expiry\<close>

lemma overdue_not_deliverable: "overdue now c \<Longrightarrow> now \<le> now' \<Longrightarrow> \<not> deliverable now' did grace c"
  by (auto simp: overdue_def deliverable_def)

lemma expired_not_live [simp]: "''expired'' \<notin> set LIVE_STATUSES"
  by (simp add: LIVE_STATUSES_def)

lemma expire_row_not_overdue:
  "\<not> overdue now (if overdue now c then c\<lparr>c_status := ''expired''\<rparr> else c)"
  by (simp add: overdue_def)

lemma expire_clears: "filter (overdue now) (h_commands (snd (expire_overdue_commands now h))) = []"
  by (auto simp: expire_overdue_commands_def filter_empty_conv overdue_def)

lemma filter_deliverable_expired:
  assumes "now \<le> now'"
  shows "filter (deliverable now' did grace) (h_commands (snd (expire_overdue_commands now h)))
           = filter (deliverable now' did grace) (h_commands h)"
proof -
  have "filter (deliverable now' did grace)
          (map (\<lambda>c. if overdue now c then c\<lparr>c_status := ''expired''\<rparr> else c) cs)
        = filter (deliverable now' did grace) cs" for cs
    using assms by (induction cs) (auto simp: deliverable_def overdue_def)
  then show ?thesis by (simp add: expire_overdue_commands_def)
qed

section \<open>Results\<close>

lemma stamp_result_fields [simp]:
  "c_id (stamp_result now st t c) = c_id c"
  "c_device_id (stamp_result now st t c) = c_device_id c"
  "c_status (stamp_result now st t c) = st"
  "c_type (stamp_result now st t c) = c_type c"
  "c_completed_at (stamp_result now st t c) = Some t"
  by (simp_all add: stamp_result_def)

lemma record_resultE:
  assumes "record_result gen now did cid st msg res done_at h = Inr (r, h')"
  obtains t c where "t = (case done_at of None \<Rightarrow> now | Some u \<Rightarrow> u)"
    and "h_commands h' = tupd c_id cid (stamp_result now st t) (h_commands h)"
    and "h_ulid h' = Suc (h_ulid h)" and "h_devices h' = h_devices h"
    and "h_results h' = h_results h @ [r]" and "r_command_id r = cid" and "r_status r = st"
    and "r_completed_at r = t" and "st \<in> set ALLOWED_RESULT_STATUSES"
    and "get_command cid h = Some c" and "c_device_id c = did"
  using assms
  by (auto simp: record_result_def Let_def modify_command_def tadd_def
      split: if_splits option.splits)

section \<open>The lifecycle of the queue\<close>

text \<open>One step of the queue: any service call, at any time, by any caller.\<close>

inductive queue_step :: "ulid_gen \<Rightarrow> hub \<Rightarrow> hub \<Rightarrow> bool" for gen where
  enqueue: "enqueue_for_device gen now did ty p uid ttl gid ov hold h = Inr (c, h') \<Longrightarrow>
    queue_step gen h h'"
| enqueue_group: "enqueue_for_group gen now gid ty p uid ttl ov h = Inr (cs, sk, h') \<Longrightarrow>
    queue_step gen h h'"
| cancel: "cancel_pending_command now cid h = (b, h') \<Longrightarrow> queue_step gen h h'"
| deliver: "list_pending_for_device now did mark grace h = (rows, h') \<Longrightarrow> queue_step gen h h'"
| result: "record_result gen now did cid st msg res done_at h = Inr (r, h') \<Longrightarrow> queue_step gen h h'"
| expire: "expire_overdue_commands now h = (n, h') \<Longrightarrow> queue_step gen h h'"

definition queue_reachable :: "ulid_gen \<Rightarrow> hub \<Rightarrow> bool" where
  "queue_reachable gen h \<longleftrightarrow> (\<exists>h0. h_commands h0 = [] \<and> (queue_step gen)\<^sup>*\<^sup>* h0 h)"

text \<open>
  The invariant of one row: a pending command has not been handed out, acknowledged or
  finished; a cancelled one was never handed out; an acknowledged one has a completion time;
  and the status is one the code writes.
\<close>

definition KNOWN_STATUSES :: "string list" where
  "KNOWN_STATUSES = [''pending'', ''accepted'', ''running'', ''completed'', ''failed'', ''expired'',
     ''cancelled'']"

definition cmd_ok :: "command \<Rightarrow> bool" where
  "cmd_ok c \<longleftrightarrow>
     c_status c \<in> set KNOWN_STATUSES \<and> c_type c \<in> set ALLOWED_TYPES \<and>
     (c_status c = ''pending'' \<longrightarrow>
        c_delivered_at c = None \<and> c_ack_received_at c = None \<and> c_completed_at c = None) \<and>
     (c_status c = ''cancelled'' \<longrightarrow>
        c_delivered_at c = None \<and> c_ack_received_at c = None \<and> c_completed_at c \<noteq> None) \<and>
     (c_ack_received_at c \<noteq> None \<longrightarrow> c_completed_at c \<noteq> None)"

definition queue_inv :: "ulid_gen \<Rightarrow> hub \<Rightarrow> bool" where
  "queue_inv gen h \<longleftrightarrow>
     (\<forall>c \<in> set (h_commands h). cmd_ok c \<and> (\<exists>n < h_ulid h. c_id c = new_id gen ''cmd'' n)) \<and>
     pk_ok c_id (h_commands h)"

lemma queue_inv_map:
  assumes inv: "queue_inv gen h" and "h_commands h' = map f (h_commands h)"
    and "h_ulid h \<le> h_ulid h'" and "\<And>c. c_id (f c) = c_id c"
    and "\<And>c. c \<in> set (h_commands h) \<Longrightarrow> cmd_ok c \<Longrightarrow> cmd_ok (f c)"
  shows "queue_inv gen h'"
  using assms unfolding queue_inv_def
  by (auto simp: pk_ok_map) (meson order_less_le_trans)

lemma cmd_ok_new:
  "ty \<in> set ALLOWED_TYPES \<Longrightarrow> cmd_ok (new_command i did gid uid ty p now e)"
  by (simp add: cmd_ok_def new_command_def KNOWN_STATUSES_def)

lemma cmd_ok_deliver: "cmd_ok c \<Longrightarrow> cmd_ok (deliver_row now did grace c)"
  by (auto simp: cmd_ok_def mark_delivered_def KNOWN_STATUSES_def deliverable_def)

lemma cmd_ok_result:
  "cmd_ok c \<Longrightarrow> st \<in> set ALLOWED_RESULT_STATUSES \<Longrightarrow> cmd_ok (stamp_result now st t c)"
  by (auto simp: cmd_ok_def KNOWN_STATUSES_def ALLOWED_RESULT_STATUSES_def)

lemma cmd_ok_expire: "cmd_ok c \<Longrightarrow> cmd_ok (c\<lparr>c_status := ''expired''\<rparr>)"
  by (auto simp: cmd_ok_def KNOWN_STATUSES_def)

lemma fresh_id:
  assumes "inj gen" and "queue_inv gen h" and "h_ulid h \<le> n"
  shows "new_id gen ''cmd'' n \<notin> c_id ` set (h_commands h)"
  using assms by (fastforce simp: queue_inv_def new_id_inj)

lemma queue_inv_append:
  assumes "inj gen" and inv: "queue_inv gen h" and cmds: "h_commands h' = h_commands h @ cs"
    and ids: "map c_id cs = map (new_id gen ''cmd'') [h_ulid h..<h_ulid h']"
    and le: "h_ulid h \<le> h_ulid h'" and "\<And>c. c \<in> set cs \<Longrightarrow> cmd_ok c"
  shows "queue_inv gen h'"
proof -
  have "\<exists>n. h_ulid h \<le> n \<and> n < h_ulid h' \<and> c_id c = new_id gen ''cmd'' n" if "c \<in> set cs" for c
  proof -
    from that have "c_id c \<in> set (map c_id cs)" by simp
    with ids show ?thesis by auto
  qed
  note cs_id = this
  have dist: "distinct (map c_id cs)"
    unfolding ids using assms(1) by (auto simp: distinct_map inj_on_def new_id_inj)
  have fresh: "c_id c \<notin> c_id ` set (h_commands h)" if "c \<in> set cs" for c
    using cs_id [OF that] fresh_id [OF assms(1,2)] by metis
  have "set (map c_id (h_commands h)) \<inter> set (map c_id cs) = {}"
    unfolding disjoint_iff set_map using fresh by blast
  then have "pk_ok c_id (h_commands h')"
    using inv dist by (simp add: queue_inv_def pk_ok_def cmds)
  moreover have "\<exists>n < h_ulid h'. c_id c = new_id gen ''cmd'' n" if "c \<in> set (h_commands h')" for c
    using that inv cs_id le unfolding queue_inv_def cmds by (metis Un_iff less_le_trans set_append)
  moreover have "cmd_ok c" if "c \<in> set (h_commands h')" for c
    using that inv assms(6) unfolding queue_inv_def cmds by auto
  ultimately show ?thesis unfolding queue_inv_def by blast
qed

lemma queue_inv_step:
  assumes "inj gen" and "queue_step gen h h'" and "queue_inv gen h"
  shows "queue_inv gen h'"
  using assms(2,3)
proof cases
  case (enqueue now did ty p uid ttl gid ov hold c)
  then show ?thesis
    by (elim enqueue_for_deviceE)
      (rule queue_inv_append [OF assms(1,3), where cs = "[c]"],
        auto simp: new_command_def cmd_ok_def KNOWN_STATUSES_def)
next
  case (enqueue_group now gid ty p uid ttl ov cs sk)
  then obtain q where ty: "ty \<in> set ALLOWED_TYPES"
    and fo: "fan_out gen now gid ty q uid (now + secs (effective_ttl ttl)) ov
               (group_device_ids gid h) h = (cs, sk, h')"
    by (auto simp: enqueue_for_group_def split: if_splits sum.splits)
  show ?thesis
  proof (rule queue_inv_append [OF assms(1,3)])
    show "h_commands h' = h_commands h @ cs" using fan_out_frame [OF fo] by simp
    show "map c_id cs = map (new_id gen ''cmd'') [h_ulid h..<h_ulid h']"
      using fan_out_frame [OF fo] fan_out_ids [OF fo] by simp
    show "h_ulid h \<le> h_ulid h'" using fan_out_frame [OF fo] by simp
    show "cmd_ok c" if "c \<in> set cs" for c
      using fan_out_commands [OF fo] that ty
      by (auto simp: list_all_iff cmd_ok_def KNOWN_STATUSES_def)
  qed
next
  case (cancel now cid b)
  show ?thesis
  proof (cases "b")
    case True
    let ?f = "\<lambda>c. if c_id c = cid
                   then c\<lparr>c_status := ''cancelled'', c_completed_at := Some now\<rparr> else c"
    from True cancel obtain c where "h_commands h' = map ?f (h_commands h)" and "h_ulid h' = h_ulid h"
      and c: "get_command cid h = Some c" "c_status c = ''pending''"
      by (auto simp: cancel_pending_command_def modify_command_def tupd_def
          split: option.splits if_splits)
    moreover have "pk_ok c_id (h_commands h)" using assms(3) by (simp add: queue_inv_def)
    then have "c' = c" if "c' \<in> set (h_commands h)" "c_id c' = cid" for c'
      using c that cmd_tbl.get_iff [of h cid c'] by simp
    then have "cmd_ok (?f c')" if "c' \<in> set (h_commands h)" "cmd_ok c'" for c'
      using that c(2) by (auto simp: cmd_ok_def KNOWN_STATUSES_def)
    ultimately show ?thesis
      by (intro queue_inv_map [OF assms(3), where f = ?f]) auto
  next
    case False
    with cancel assms(3) show ?thesis
      by (auto simp: cancel_pending_command_def split: option.splits if_splits)
  qed
next
  case (deliver now did mark grace rows)
  then show ?thesis
    using assms(3) cmd_ok_deliver
    by (cases mark) (auto simp: list_pending_for_device_def Let_def
        intro!: queue_inv_map [OF assms(3), where f = "deliver_row now did grace"])
next
  case (result now did cid st msg res done_at r)
  then obtain t where "h_commands h' = tupd c_id cid (stamp_result now st t) (h_commands h)"
    and "h_ulid h \<le> h_ulid h'" and "st \<in> set ALLOWED_RESULT_STATUSES"
    by (elim record_resultE) simp
  then show ?thesis
    by (intro queue_inv_map [OF assms(3),
          where f = "\<lambda>c. if c_id c = cid then stamp_result now st t c else c"])
      (simp_all add: tupd_def cmd_ok_result)
next
  case (expire now n)
  then show ?thesis
    by (intro queue_inv_map [OF assms(3),
          where f = "\<lambda>c. if overdue now c then c\<lparr>c_status := ''expired''\<rparr> else c"])
      (auto simp: expire_overdue_commands_def cmd_ok_expire)
qed

lemma queue_reachable_inv:
  assumes "inj gen" and "queue_reachable gen h"
  shows "queue_inv gen h"
proof -
  from assms(2) obtain h0 where init: "h_commands h0 = []" and run: "(queue_step gen)\<^sup>*\<^sup>* h0 h"
    by (auto simp: queue_reachable_def)
  from run show ?thesis
  proof (induction rule: rtranclp_induct)
    case base
    show ?case by (simp add: queue_inv_def pk_ok_def init)
  next
    case (step y z)
    then show ?case by (blast intro: queue_inv_step [OF assms(1)])
  qed
qed

section \<open>Validation is a normal form\<close>

lemma py_upper_methods: "m \<in> {''GET'', ''POST''} \<Longrightarrow> py_upper m = m"
  by (auto simp: py_upper_def)

lemma validate_set_mode_idem: "validate_set_mode p = Inr q \<Longrightarrow> validate_set_mode q = Inr q"
  by (auto simp: validate_set_mode_def dget_def split: pyval.splits if_splits)

lemma validate_apply_config_idem: "validate_apply_config p = Inr q \<Longrightarrow> validate_apply_config q = Inr q"
  by (auto simp: validate_apply_config_def Let_def split: if_splits)

lemma validate_relay_cycle_same: "validate_relay_cycle p = Inr q \<Longrightarrow> q = p"
  by (simp add: validate_relay_cycle_def split: option.splits del: find.simps)

lemma validate_relay_cycle_idem: "validate_relay_cycle p = Inr q \<Longrightarrow> validate_relay_cycle q = Inr q"
  using validate_relay_cycle_same by blast

lemma validate_lan_scan_idem: "validate_lan_scan p = Inr q \<Longrightarrow> validate_lan_scan q = Inr q"
  by (auto simp: validate_lan_scan_def Let_def dget_def split: if_splits)

lemma validate_lan_ota_push_idem: "validate_lan_ota_push p = Inr q \<Longrightarrow> validate_lan_ota_push q = Inr q"
  by (auto simp: validate_lan_ota_push_def copy_key_def dset_def dget_def dhas_def
      split: pyval.splits if_splits option.splits)

lemma validate_lan_proxyE:
  assumes "validate_lan_proxy p = Inr q"
  obtains ip path m where "ip \<noteq> []" and "starts_with path ''/''" and "m \<in> {''GET'', ''POST''}"
    and "q = (let out = copy_key ''body'' p
                          [(''ip'', VStr ip), (''path'', VStr path), (''method'', VStr m)]
              in if is_dict (dget p ''headers'') then copy_key ''headers'' p out else out)"
  using assms by (auto simp: validate_lan_proxy_def Let_def split: pyval.splits if_splits sum.splits)

lemma validate_lan_proxy_idem:
  assumes "validate_lan_proxy p = Inr q"
  shows "validate_lan_proxy q = Inr q"
proof -
  from assms obtain ip path m where *: "ip \<noteq> []" "starts_with path ''/''" "m \<in> {''GET'', ''POST''}"
    "q = (let out = copy_key ''body'' p
                      [(''ip'', VStr ip), (''path'', VStr path), (''method'', VStr m)]
          in if is_dict (dget p ''headers'') then copy_key ''headers'' p out else out)"
    by (rule validate_lan_proxyE)
  have "dget q ''ip'' = VStr ip" "dget q ''path'' = VStr path" "dget q ''method'' = VStr m"
    using *(4) by (auto simp: Let_def copy_key_def dget_def dset_def)
  moreover have "proxy_method q = Inr m"
    using \<open>dget q ''method'' = VStr m\<close> *(3) by (auto simp: proxy_method_def Let_def py_upper_def)
  moreover have "dget q ''body'' = dget p ''body''" "dhas q ''body'' = dhas p ''body''"
    using *(4) by (auto simp: Let_def copy_key_def dget_def dset_def dhas_def)
  moreover have "is_dict (dget q ''headers'') = is_dict (dget p ''headers'')"
    "is_dict (dget p ''headers'') \<Longrightarrow> dget q ''headers'' = dget p ''headers''"
    "is_dict (dget p ''headers'') \<Longrightarrow> dhas q ''headers'' = dhas p ''headers''"
    using *(4) by (auto simp: Let_def copy_key_def dget_def dset_def dhas_def split: option.splits)
  ultimately show ?thesis
    using * by (auto simp: validate_lan_proxy_def Let_def copy_key_def)
qed

section \<open>Properties\<close>

text \<open>C1: Enqueueing a command for a device either fails without touching the hub or appends exactly
  one pending row for that device, with the validated payload and the requested lifetime; it never
  succeeds for a power command on a protected device unless the caller overrides the lockout, and
  it changes no other device.\<close>

theorem enqueue_for_device_spec:
  assumes "enqueue_for_device gen now did ty p uid ttl gid ov hold h = Inr (c, h')"
  shows "\<exists>d q. get_device did h = Some d \<and> validate_payload ty p = Inr q
       \<and> (ty \<in> set POWER_TYPES \<and> dev_is_protected d \<longrightarrow> ov)
       \<and> h_commands h' = h_commands h @ [c]
       \<and> c_device_id c = did \<and> c_type c = ty \<and> c_payload c = q \<and> c_status c = ''pending''
       \<and> c_created_at c = now \<and> c_expires_at c = now + secs (effective_ttl ttl)
       \<and> get_device did h' = Some (apply_hold_off hold ty d)
       \<and> (\<forall>k. k \<noteq> did \<longrightarrow> get_device k h' = get_device k h)"
  using enqueue_device_effect [OF assms] assms
  by (elim enqueue_for_deviceE) (auto simp: new_command_def locked_out_def)

definition demo_hub :: hub where
  "demo_hub = empty_hub\<lparr>
     h_devices := [new_device ''d1'' ''Router'' 0,
                   (new_device ''d2'' ''Freezer'' 0)\<lparr>dev_is_protected := True\<rparr>],
     h_memberships := [\<lparr>gm_group_id = ''g'', gm_device_id = ''d1'', gm_added_at = 0\<rparr>,
                       \<lparr>gm_group_id = ''g'', gm_device_id = ''d2'', gm_added_at = 0\<rparr>,
                       \<lparr>gm_group_id = ''g'', gm_device_id = ''gone'', gm_added_at = 0\<rparr>]\<rparr>"

definition demo_gen :: ulid_gen where
  "demo_gen n = replicate n CHR ''x''"

lemma inj_demo_gen: "inj demo_gen"
  by (rule injI) (metis demo_gen_def length_replicate)

lemmas demo_defs = demo_hub_def empty_hub_def new_device_def

lemma get_device_demo:
  "get_device ''d1'' demo_hub = Some (new_device ''d1'' ''Router'' 0)"
  "get_device ''d2'' demo_hub = Some ((new_device ''d2'' ''Freezer'' 0)\<lparr>dev_is_protected := True\<rparr>)"
  "get_device ''gone'' demo_hub = None"
  by (simp_all add: get_device_def demo_defs)

lemma enqueue_demo:
  "\<exists>c h'. enqueue_for_device demo_gen 0 ''d1'' ''relay_on'' None None None None False False demo_hub
     = Inr (c, h')"
  by (simp add: enqueue_for_device_def get_device_demo validate_payload_def locked_out_def
      new_device_def ALLOWED_TYPES_def Let_def)

theorem enqueue_for_device_spec_witness:
  "\<exists>c h'. enqueue_for_device demo_gen 0 ''d1'' ''relay_on'' None None None None False False demo_hub
            = Inr (c, h') \<and> h_commands h' = [c] \<and> c_status c = ''pending''"
proof -
  from enqueue_demo obtain c h' where eq:
    "enqueue_for_device demo_gen 0 ''d1'' ''relay_on'' None None None None False False demo_hub
       = Inr (c, h')" by blast
  from enqueue_for_device_spec [OF eq] show ?thesis
    using eq by (auto simp: demo_defs)
qed

text \<open>A group command reaches exactly the member devices that exist and are not locked out, in
  membership order; exactly the locked members are reported as skipped; members whose device row is
  gone are passed over.\<close>

theorem enqueue_for_group_partition:
  assumes "enqueue_for_group gen now gid ty p uid ttl ov h = Inr (cs, sk, h')"
  shows "map c_device_id cs = filter (accepts ty ov h) (group_device_ids gid h)
       \<and> sk = filter (skips ty ov h) (group_device_ids gid h)
       \<and> h_commands h' = h_commands h @ cs
       \<and> list_all (\<lambda>c. c_group_id c = Some gid \<and> c_type c = ty \<and> c_status c = ''pending'') cs"
proof -
  from assms obtain q where fo: "fan_out gen now gid ty q uid (now + secs (effective_ttl ttl)) ov
      (group_device_ids gid h) h = (cs, sk, h')"
    by (auto simp: enqueue_for_group_def split: if_splits sum.splits)
  show ?thesis
    using fan_out_partition [OF fo] fan_out_frame [OF fo] fan_out_commands [OF fo]
    by (auto simp: list_all_iff)
qed

lemma enqueue_group_demo:
  "\<exists>r. enqueue_for_group demo_gen 0 ''g'' ''relay_cycle'' None None None False demo_hub = Inr r"
  by (simp add: enqueue_for_group_def validate_payload_def validate_relay_cycle_def
      dict_or_empty_def dhas_def ALLOWED_TYPES_def) (metis prod_cases3)

theorem enqueue_for_group_partition_witness:
  "\<exists>cs sk h'. enqueue_for_group demo_gen 0 ''g'' ''relay_cycle'' None None None False demo_hub
                = Inr (cs, sk, h')
            \<and> map c_device_id cs = [''d1''] \<and> sk = [''d2'']"
proof -
  from enqueue_group_demo obtain cs sk h' where eq:
    "enqueue_for_group demo_gen 0 ''g'' ''relay_cycle'' None None None False demo_hub
       = Inr (cs, sk, h')" by (metis prod_cases3)
  have ids: "group_device_ids ''g'' demo_hub = [''d1'', ''d2'', ''gone'']"
    by (simp add: group_device_ids_def demo_defs)
  have acc: "accepts ''relay_cycle'' False demo_hub ''d1''"
    "\<not> accepts ''relay_cycle'' False demo_hub ''d2''"
    "\<not> accepts ''relay_cycle'' False demo_hub ''gone''"
    and skp: "\<not> skips ''relay_cycle'' False demo_hub ''d1''"
    "skips ''relay_cycle'' False demo_hub ''d2''" "\<not> skips ''relay_cycle'' False demo_hub ''gone''"
    by (simp_all add: accepts_def skips_def get_device_demo locked_out_def POWER_TYPES_def
        new_device_def)
  from enqueue_for_group_partition [OF eq] show ?thesis
    using eq by (auto simp: ids acc skp)
qed

text \<open>C2: In every state the queue can reach from an empty one, through any interleaving of
  enqueueing, group fan-out, cancellation, delivery, result reports and expiry, command ids are
  unique, every status is one the code writes, a pending row has been neither handed out nor
  acknowledged nor finished, a cancelled row was never handed out, and an acknowledged row has a
  completion time.\<close>

theorem queue_invariant:
  assumes "inj gen" and "queue_reachable gen h"
  shows "pk_ok c_id (h_commands h) \<and> (\<forall>c \<in> set (h_commands h). cmd_ok c)"
  using queue_reachable_inv [OF assms] by (simp add: queue_inv_def)

theorem queue_invariant_witness:
  "\<exists>h c. queue_reachable demo_gen h \<and> h_commands h = [c] \<and> cmd_ok c"
proof -
  from enqueue_demo obtain c h' where eq:
    "enqueue_for_device demo_gen 0 ''d1'' ''relay_on'' None None None None False False demo_hub
       = Inr (c, h')" by blast
  from eq have cmds: "h_commands h' = [c]" by (elim enqueue_for_deviceE) (simp add: demo_defs)
  have "queue_reachable demo_gen h'"
    unfolding queue_reachable_def
    by (intro exI [of _ demo_hub]) (auto simp: demo_defs [THEN sym] intro: queue_step.enqueue [OF eq],
        simp add: demo_defs)
  with queue_invariant [OF inj_demo_gen this] cmds show ?thesis by auto
qed

text \<open>Delivery hands a device exactly its live, unexpired commands, oldest first and each once;
  when it marks them, no row it returns is still pending, the rows it returns are the rows the table
  now holds, and rows of other devices are untouched.\<close>

theorem list_pending_for_device_spec:
  assumes "pk_ok c_id (h_commands h)"
    and "list_pending_for_device now did True None h = (rows, h')"
  shows "sorted (map c_created_at rows) \<and> distinct (map c_id rows)
       \<and> c_id ` set rows = {c_id c | c. c \<in> set (h_commands h) \<and> c_device_id c = did
                              \<and> c_status c \<in> {''pending'', ''accepted'', ''running''}
                              \<and> now < c_expires_at c}
       \<and> (\<forall>r \<in> set rows. c_status r \<noteq> ''pending'')
       \<and> set rows \<subseteq> set (h_commands h')
       \<and> filter (\<lambda>c. c_device_id c \<noteq> did) (h_commands h')
           = filter (\<lambda>c. c_device_id c \<noteq> did) (h_commands h)"
proof -
  note marked = list_pending_marked [OF assms(2)]
  have "c_id ` set rows = {c_id c | c. c \<in> set (h_commands h) \<and> deliverable now did None c}"
    using marked by (auto simp: image_iff)
  moreover have "filter (\<lambda>c. c_device_id c \<noteq> did) (map (deliver_row now did None) cs)
                   = filter (\<lambda>c. c_device_id c \<noteq> did) cs" for cs
    by (induction cs) (auto simp: deliverable_def)
  ultimately show ?thesis
    using marked list_pending_rows_sorted [OF assms(2)] list_pending_distinct [OF assms]
      list_pending_in_table [OF assms(2)]
    by (auto simp: deliverable_def LIVE_STATUSES_def)
qed

definition demo_queue :: hub where
  "demo_queue = demo_hub\<lparr>h_commands :=
     [new_command ''c1'' ''d1'' None None ''relay_on'' [] 5 (secs 600),
      (new_command ''c2'' ''d1'' None None ''relay_off'' [] 3 (secs 600))
        \<lparr>c_status := ''running'', c_delivered_at := Some 4\<rparr>,
      new_command ''c3'' ''d2'' None None ''check_firmware'' [] 1 (secs 600),
      (new_command ''c4'' ''d1'' None None ''relay_on'' [] 2 (secs 600))
        \<lparr>c_status := ''completed'', c_delivered_at := Some 4, c_ack_received_at := Some 5,
         c_completed_at := Some 5\<rparr>]\<rparr>"

lemma demo_queue_pk: "pk_ok c_id (h_commands demo_queue)"
  by (simp add: demo_queue_def pk_ok_def new_command_def)

lemma demo_queue_delivery:
  "list_pending_for_device 10 ''d1'' True None demo_queue =
     ([(new_command ''c2'' ''d1'' None None ''relay_off'' [] 3 (secs 600))
         \<lparr>c_status := ''running'', c_delivered_at := Some 4\<rparr>,
       (new_command ''c1'' ''d1'' None None ''relay_on'' [] 5 (secs 600))
         \<lparr>c_status := ''accepted'', c_delivered_at := Some 10\<rparr>],
      demo_queue\<lparr>h_commands :=
        map (deliver_row 10 ''d1'' None) (h_commands demo_queue)\<rparr>)"
  by (simp add: list_pending_for_device_def demo_queue_def deliverable_def new_command_def
      LIVE_STATUSES_def mark_delivered_def secs_def Let_def insort_key_def)

theorem list_pending_for_device_spec_witness:
  "\<exists>rows h'. list_pending_for_device 10 ''d1'' True None demo_queue = (rows, h')
     \<and> map c_id rows = [''c2'', ''c1''] \<and> sorted (map c_created_at rows)
     \<and> (\<forall>r \<in> set rows. c_status r \<noteq> ''pending'')"
  using list_pending_for_device_spec [OF demo_queue_pk demo_queue_delivery] demo_queue_delivery
  by (simp add: new_command_def)

text \<open>C5: A command handed out as new on one channel at \<open>t\<close> is not handed out again by a poll that
  runs within the grace window, so the heartbeat piggyback followed by the device's own poll does
  not execute it twice.\<close>

theorem no_redelivery_within_grace:
  assumes "pk_ok c_id (h_commands h)"
    and "list_pending_for_device t did True grace h = (rows, h1)"
    and "c \<in> set (h_commands h)" and "c_status c = ''pending''" and "c_id c \<in> c_id ` set rows"
    and "t' < t + secs g"
    and "list_pending_for_device t' did mark (Some g) h1 = (rows', h2)"
  shows "c_id c \<notin> c_id ` set rows'"
proof -
  have h1: "h_commands h1 = map (deliver_row t did grace) (h_commands h)"
    and "c_id c \<in> c_id ` {c \<in> set (h_commands h). deliverable t did grace c}"
    using list_pending_marked [OF assms(2)] assms(5) by auto
  then obtain d where "d \<in> set (h_commands h)" and "deliverable t did grace d" and "c_id d = c_id c"
    by auto
  then have "deliverable t did grace c" using pk_ok_unique [OF assms(1) assms(3)] by metis
  then have marked: "mark_delivered t c \<in> set (h_commands h1)" using h1 assms(3) by force
  have "pk_ok c_id (h_commands h1)" using assms(1) h1 by (simp add: pk_ok_map)
  then have uniq: "d = mark_delivered t c" if "d \<in> set (h_commands h1)" "c_id d = c_id c" for d
    using pk_ok_unique [where key = c_id, OF _ that(1) marked] that(2) by simp
  have "\<not> deliverable t' did (Some g) (mark_delivered t c)"
    using assms(4,6) by (rule not_deliverable_in_grace)
  then have "c_id c \<noteq> c_id d" if "d \<in> set (h_commands h1)" "deliverable t' did (Some g) d" for d
    using uniq that by metis
  then show ?thesis unfolding list_pending_ids [OF assms(7)] by blast
qed

theorem no_redelivery_within_grace_witness:
  "\<exists>rows h1 rows' h2.
     list_pending_for_device 10 ''d1'' True None demo_queue = (rows, h1)
     \<and> ''c1'' \<in> c_id ` set rows
     \<and> list_pending_for_device (10 + secs 3) ''d1'' True (Some 5) h1 = (rows', h2)
     \<and> ''c1'' \<notin> c_id ` set rows'"
proof -
  let ?c = "new_command ''c1'' ''d1'' None None ''relay_on'' [] 5 (secs 600)"
  obtain rows h1 where d: "list_pending_for_device 10 ''d1'' True None demo_queue = (rows, h1)"
    by (metis prod.exhaust)
  obtain rows' h2 where d': "list_pending_for_device (10 + secs 3) ''d1'' True (Some 5) h1 = (rows', h2)"
    by (metis prod.exhaust)
  have c: "?c \<in> set (h_commands demo_queue)" by (simp add: demo_queue_def)
  have st: "c_status ?c = ''pending''" by (simp add: new_command_def)
  have mem: "c_id ?c \<in> c_id ` set rows"
    using d demo_queue_delivery by (auto simp: new_command_def)
  have t: "10 + secs 3 < 10 + secs (5::int)" by simp
  from no_redelivery_within_grace [OF demo_queue_pk d c st mem t d'] show ?thesis
    using d d' mem by (auto simp: new_command_def)
qed

text \<open>Expiry is settled in one pass (a second pass at the same time changes nothing and reports
  zero rows) and never takes a command away from a device that could still have received it: any
  later delivery hands out the same rows with or without the expiry pass.\<close>

theorem expire_overdue_commands_spec:
  assumes "now \<le> now'"
  shows "fst (expire_overdue_commands now (snd (expire_overdue_commands now h))) = 0
       \<and> snd (expire_overdue_commands now (snd (expire_overdue_commands now h)))
           = snd (expire_overdue_commands now h)
       \<and> fst (list_pending_for_device now' did mark grace (snd (expire_overdue_commands now h)))
           = fst (list_pending_for_device now' did mark grace h)"
proof (intro conjI)
  let ?h = "snd (expire_overdue_commands now h)"
  show "fst (expire_overdue_commands now ?h) = 0"
    using expire_clears [of now h] by (simp add: expire_overdue_commands_def [of now ?h])
  have "map (\<lambda>c. if overdue now c then c\<lparr>c_status := ''expired''\<rparr> else c) (h_commands ?h) = h_commands ?h"
    using expire_clears [of now h] by (intro map_idI) (auto simp: filter_empty_conv)
  then show "snd (expire_overdue_commands now ?h) = ?h"
    by (simp add: expire_overdue_commands_def [of now ?h])
  show "fst (list_pending_for_device now' did mark grace ?h) = fst (list_pending_for_device now' did mark grace h)"
    using filter_deliverable_expired [OF assms] by (simp add: list_pending_for_device_def Let_def)
qed

theorem expire_overdue_commands_spec_witness:
  "fst (expire_overdue_commands (secs 601) demo_queue) = 3
   \<and> fst (expire_overdue_commands (secs 601) (snd (expire_overdue_commands (secs 601) demo_queue))) = 0"
proof -
  have "fst (expire_overdue_commands (secs 601) demo_queue) = 3"
    by (simp add: expire_overdue_commands_def demo_queue_def overdue_def new_command_def
        LIVE_STATUSES_def secs_def)
  then show ?thesis
    using expire_overdue_commands_spec [OF order_refl, of "secs 601" demo_queue] by blast
qed

text \<open>A result report is accepted for any state of the command: the acknowledgement time is kept
  from the first report, but status and completion time are overwritten, so a late \<open>running\<close>
  report reopens a completed command and the next heartbeat hands it to the device again.\<close>

theorem late_report_reopens_command:
  assumes "pk_ok c_id (h_commands h)" and "get_command cid h = Some c" and "c_device_id c = did"
    and "c_status c = ''completed''" and "c_ack_received_at c = Some a" and "now' < c_expires_at c"
  shows "\<exists>r h' c'. record_result gen now did cid ''running'' msg res done_at h = Inr (r, h')
       \<and> get_command cid h' = Some c' \<and> c_status c' = ''running'' \<and> c_ack_received_at c' = Some a
       \<and> cid \<in> c_id ` set (fst (list_pending_for_device now' did True None h'))"
proof -
  obtain r h' where rr: "record_result gen now did cid ''running'' msg res done_at h = Inr (r, h')"
    using assms(2,3) by (simp add: record_result_def Let_def ALLOWED_RESULT_STATUSES_def)
  then obtain t where cmds: "h_commands h' = tupd c_id cid (stamp_result now ''running'' t) (h_commands h)"
    by (elim record_resultE)
  let ?c = "stamp_result now ''running'' t c"
  have get': "get_command cid h' = Some ?c"
    using assms(2) by (simp add: get_command_def cmds tget_tupd)
  then have "?c \<in> set (h_commands h')" and "c_id ?c = cid"
    using tget_SomeD by (fastforce simp: get_command_def)+
  moreover have "deliverable now' did None ?c"
    using assms(3,6) by (simp add: deliverable_def LIVE_STATUSES_def stamp_result_def)
  ultimately have "cid \<in> c_id ` set (fst (list_pending_for_device now' did True None h'))"
    unfolding list_pending_ids [of now' did True None h', OF prod.collapse [symmetric]]
    by (intro image_eqI [where x = ?c]) simp_all
  then show ?thesis using rr get' assms(5) by (auto simp: stamp_result_def)
qed

theorem late_report_reopens_command_witness:
  "\<exists>r h'. record_result demo_gen 20 ''d1'' ''c4'' ''running'' None None None demo_queue = Inr (r, h')
     \<and> ''c4'' \<in> c_id ` set (fst (list_pending_for_device 30 ''d1'' True None h'))"
proof -
  let ?c = "(new_command ''c4'' ''d1'' None None ''relay_on'' [] 2 (secs 600))
        \<lparr>c_status := ''completed'', c_delivered_at := Some 4, c_ack_received_at := Some 5,
         c_completed_at := Some 5\<rparr>"
  have c: "get_command ''c4'' demo_queue = Some ?c"
    by (simp add: get_command_def demo_queue_def new_command_def)
  show ?thesis
    using late_report_reopens_command [OF demo_queue_pk c, of "''d1''" 5 30 demo_gen 20 None None None]
    by (auto simp: new_command_def secs_def)
qed

text \<open>Validation normalises: a payload it returns is accepted again unchanged, so the payload a
  device is sent is itself a valid payload of the command type.\<close>

theorem validate_payload_idempotent:
  assumes "validate_payload ty p = Inr q"
  shows "validate_payload ty (Some q) = Inr q"
  using assms validate_set_mode_idem validate_apply_config_idem validate_relay_cycle_idem
    validate_lan_scan_idem validate_lan_proxy_idem validate_lan_ota_push_idem
  by (auto simp: validate_payload_def Let_def dict_or_empty_def split: if_splits)

theorem validate_payload_idempotent_witness:
  "\<exists>q. validate_payload ''lan_proxy'' (Some [(''ip'', VStr ''10.0.0.9''), (''path'', VStr ''/api''),
          (''method'', VStr ''post''), (''junk'', VNone)]) = Inr q
     \<and> q = [(''ip'', VStr ''10.0.0.9''), (''path'', VStr ''/api''), (''method'', VStr ''POST'')]
     \<and> validate_payload ''lan_proxy'' (Some q) = Inr q"
proof -
  have "validate_payload ''lan_proxy'' (Some [(''ip'', VStr ''10.0.0.9''), (''path'', VStr ''/api''),
          (''method'', VStr ''post''), (''junk'', VNone)])
        = Inr [(''ip'', VStr ''10.0.0.9''), (''path'', VStr ''/api''), (''method'', VStr ''POST'')]"
    by code_simp
  from validate_payload_idempotent [OF this] this show ?thesis by simp
qed

end
