(* ===== verification/WatchdogActions.thy ===== *)
theory WatchdogActions
  imports Commands
begin

text \<open>
  Action dispatch of the watchdog (\<open>app/services/watchdog_runtime/_actions.py\<close>) and the scene
  lookup it uses (\<open>app/services/scenes.py\<close>). Every action reaches devices through
  \<open>enqueue_for_device\<close> with \<open>override_lockout=False\<close>; a rejected enqueue is recorded as
  skipped and the loop goes on. Each enqueue commits its own transaction, so a later exception
  keeps what earlier iterations queued: an action returns its details or the exception together
  with the hub as it is then.
\<close>

section \<open>Target resolution\<close>

definition str_id :: "pyval \<Rightarrow> string option" where
  "str_id v = (case v of VStr s \<Rightarrow> Some s | _ \<Rightarrow> None)"

text \<open>
  \<open>resolve_target_devices\<close>. The ids of a JSON target are values; a non-string id makes the
  query (or the later device lookup) raise, which is \<open>None\<close> here for a group target and a
  failing enqueue for a device target.
\<close>

definition resolve_target_devices :: "pydict \<Rightarrow> hub \<Rightarrow> pyval list option" where
  "resolve_target_devices target h =
     (let kind = dget target ''kind''; i = dget target ''id'' in
      if kind = VStr ''device'' then Some (if truthy i then [i] else [])
      else if kind = VStr ''group'' then
        (if \<not> truthy i then Some []
         else case str_id i of
           None \<Rightarrow> None
         | Some gid \<Rightarrow> Some (map VStr (filter (\<lambda>d. d \<noteq> []) (group_device_ids gid h))))
      else Some [])"

section \<open>The enqueue loop\<close>

text \<open>
  One \<open>try: enqueue_for_device(...) except Exception as e: skipped.append(...)\<close>, shared by the
  relay, cycle and hold-off actions and by scheduled power cycles.
\<close>

definition try_enqueue ::
  "env \<Rightarrow> string \<Rightarrow> pydict option \<Rightarrow> bool \<Rightarrow> pyval \<Rightarrow> hub \<Rightarrow> string + (command \<times> hub)" where
  "try_enqueue E ty payload hold did h =
     (case str_id did of
        None \<Rightarrow> Inl (env_repr E did)
      | Some d \<Rightarrow>
          (case enqueue_for_device (env_ulid E) (env_now E) d ty payload None None None False hold h of
             Inl e \<Rightarrow> Inl (cmd_error_str e)
           | Inr r \<Rightarrow> Inr r))"

fun enqueue_all ::
  "env \<Rightarrow> string \<Rightarrow> pydict option \<Rightarrow> bool \<Rightarrow> pyval list \<Rightarrow> hub
   \<Rightarrow> (pyval \<times> command) list \<times> pyval list \<times> hub" where
  "enqueue_all E ty payload hold [] h = ([], [], h)"
| "enqueue_all E ty payload hold (did # dids) h =
     (case try_enqueue E ty payload hold did h of
        Inl e \<Rightarrow> (let (ok, sk, h') = enqueue_all E ty payload hold dids h
                  in (ok, VDict [(''device_id'', did), (''error'', VStr e)] # sk, h'))
      | Inr (c, h1) \<Rightarrow> (let (ok, sk, h') = enqueue_all E ty payload hold dids h1
                        in ((did, c) # ok, sk, h')))"

section \<open>Leaf actions\<close>

type_synonym action_result = "(string + pydict) \<times> hub"

definition no_devices :: "string \<Rightarrow> pydict" where
  "no_devices kind = [(''action'', VStr kind), (''skipped'', VStr ''no devices in target'')]"

definition fire_relay_set :: "env \<Rightarrow> watchdog_rule \<Rightarrow> pydict \<Rightarrow> string \<Rightarrow> hub \<Rightarrow> action_result" where
  "fire_relay_set E r target cmd_type h =
     (case resolve_target_devices target h of
        None \<Rightarrow> (Inl ''target query failed'', h)
      | Some [] \<Rightarrow> (Inr (no_devices cmd_type), h)
      | Some dids \<Rightarrow>
          (let (ok, sk, h') = enqueue_all E cmd_type None False dids h
           in (Inr [(''action'', VStr cmd_type), (''rule_id'', VStr (wr_id r)),
                    (''enqueued'', VList (map (\<lambda>(d, c). VStr (c_id c)) ok)),
                    (''skipped'', VList sk)], h')))"

text \<open>\<open>int(action.get(k, default))\<close>: the default only stands in for a missing key.\<close>

definition int_field :: "pydict \<Rightarrow> string \<Rightarrow> int \<Rightarrow> int option" where
  "int_field d k dflt = (if dhas d k then py_int (dget d k) else Some dflt)"

definition cycle_payload :: "pydict \<Rightarrow> pydict option" where
  "cycle_payload action =
     (case int_field action ''power_off_seconds'' 5 of
        None \<Rightarrow> None
      | Some a \<Rightarrow>
          (case int_field action ''post_reboot_holdoff_seconds'' 180 of
             None \<Rightarrow> None
           | Some b \<Rightarrow> Some [(''power_off_seconds'', VInt a), (''post_reboot_holdoff_seconds'', VInt b)]))"

definition fire_cycle :: "env \<Rightarrow> watchdog_rule \<Rightarrow> pydict \<Rightarrow> pydict \<Rightarrow> hub \<Rightarrow> action_result" where
  "fire_cycle E r target action h =
     (case resolve_target_devices target h of
        None \<Rightarrow> (Inl ''target query failed'', h)
      | Some [] \<Rightarrow> (Inr (no_devices ''cycle''), h)
      | Some dids \<Rightarrow>
          (case cycle_payload action of
             None \<Rightarrow> (Inl ''int() failed'', h)
           | Some payload \<Rightarrow>
               (let (ok, sk, h') = enqueue_all E ''relay_cycle'' (Some payload) False dids h
                in (Inr [(''action'', VStr ''cycle''), (''rule_id'', VStr (wr_id r)),
                         (''enqueued'', VList (map (\<lambda>(d, c). VStr (c_id c)) ok)),
                         (''skipped'', VList sk), (''payload'', VDict payload)], h'))))"

definition fire_hold_off :: "env \<Rightarrow> watchdog_rule \<Rightarrow> pydict \<Rightarrow> hub \<Rightarrow> action_result" where
  "fire_hold_off E r target h =
     (case resolve_target_devices target h of
        None \<Rightarrow> (Inl ''target query failed'', h)
      | Some [] \<Rightarrow> (Inr (no_devices ''hold_off''), h)
      | Some dids \<Rightarrow>
          (let (ok, sk, h') = enqueue_all E ''relay_off'' None True dids h
           in (Inr [(''action'', VStr ''hold_off''), (''rule_id'', VStr (wr_id r)),
                    (''held'', VList (map fst ok)), (''skipped'', VList sk)], h')))"

section \<open>Scenes\<close>

text \<open>\<open>scenes.scene_items\<close>.\<close>

definition scene_items :: "string \<Rightarrow> hub \<Rightarrow> pyval list option" where
  "scene_items sid h = map_option scn_items (get_scene sid h)"

text \<open>\<open>str(v or "").strip()\<close>.\<close>

definition str_or_empty :: "env \<Rightarrow> pyval \<Rightarrow> string" where
  "str_or_empty E v = py_strip (case v of VStr s \<Rightarrow> s | _ \<Rightarrow> if truthy v then env_repr E v else [])"

text \<open>The commands of one scene item, in order: the relay command, then the configuration.\<close>

definition scene_commands :: "pydict \<Rightarrow> (string \<times> pydict option) list" where
  "scene_commands item =
     (let relay = dget item ''relay''; config = dget item ''config'' in
      (if relay = VStr ''on'' then [(''relay_on'', None)]
       else if relay = VStr ''off'' then [(''relay_off'', None)]
       else if relay = VStr ''cycle'' then
         [(''relay_cycle'', Some [(''power_off_seconds'', VInt 5),
                                  (''post_reboot_holdoff_seconds'', VInt 180)])]
       else []) @
      (case config of VDict d \<Rightarrow> (if d \<noteq> [] then [(''apply_config'', Some d)] else []) | _ \<Rightarrow> []))"

text \<open>The body of the \<open>try\<close>: enqueue each command, stopping at the first exception.\<close>

fun run_scene_commands ::
  "env \<Rightarrow> string \<Rightarrow> (string \<times> pydict option) list \<Rightarrow> hub \<Rightarrow> (string + string list) \<times> hub" where
  "run_scene_commands E did [] h = (Inr [], h)"
| "run_scene_commands E did ((ty, p) # cs) h =
     (case enqueue_for_device (env_ulid E) (env_now E) did ty p None None None False False h of
        Inl e \<Rightarrow> (Inl (cmd_error_str e), h)
      | Inr (c, h1) \<Rightarrow> (case run_scene_commands E did cs h1 of
                          (Inl e, h2) \<Rightarrow> (Inl e, h2)
                        | (Inr tys, h2) \<Rightarrow> (Inr (ty # tys), h2)))"

text \<open>
  The item loop: applied and skipped entries, or the exception that a non-object item raises
  outside the \<open>try\<close>, which ends the loop.
\<close>

fun run_scene_items ::
  "env \<Rightarrow> pyval list \<Rightarrow> hub \<Rightarrow> (string + (pyval list \<times> pyval list)) \<times> hub" where
  "run_scene_items E [] h = (Inr ([], []), h)"
| "run_scene_items E (item # items) h =
     (if truthy item \<and> \<not> is_dict item then (Inl ''AttributeError'', h)
      else let d = dict_of item; did = str_or_empty E (dget d ''device_id'') in
        if did = [] then
          (case run_scene_items E items h of
             (Inl e, h') \<Rightarrow> (Inl e, h')
           | (Inr (ap, sk), h') \<Rightarrow>
               (Inr (ap, VDict [(''item'', item), (''error'', VStr ''missing device_id'')] # sk), h'))
        else
          (case run_scene_commands E did (scene_commands d) h of
             (Inl e, h1) \<Rightarrow>
               (case run_scene_items E items h1 of
                  (Inl e', h') \<Rightarrow> (Inl e', h')
                | (Inr (ap, sk), h') \<Rightarrow>
                    (Inr (ap, VDict [(''device_id'', VStr did), (''error'', VStr e)] # sk), h'))
           | (Inr tys, h1) \<Rightarrow>
               (case run_scene_items E items h1 of
                  (Inl e', h') \<Rightarrow> (Inl e', h')
                | (Inr (ap, sk), h') \<Rightarrow>
                    (Inr (VDict [(''device_id'', VStr did), (''commands'', VList (map VStr tys))] # ap,
                          sk), h'))))"

definition fire_scene :: "env \<Rightarrow> watchdog_rule \<Rightarrow> pydict \<Rightarrow> hub \<Rightarrow> action_result" where
  "fire_scene E r action h =
     (let sid = dget action ''scene_id'';
          run = (\<lambda>items. case run_scene_items E items h of
                   (Inl e, h') \<Rightarrow> (Inl e, h')
                 | (Inr (ap, sk), h') \<Rightarrow>
                     (Inr [(''action'', VStr ''apply_scene''), (''rule_id'', VStr (wr_id r)),
                           (''applied'', VList ap), (''skipped'', VList sk)], h'))
      in if truthy sid then
           (case str_id sid of
              None \<Rightarrow> (Inl ''scene lookup failed'', h)
            | Some s \<Rightarrow>
                (case scene_items s h of
                   None \<Rightarrow> (Inr [(''action'', VStr ''apply_scene''), (''rule_id'', VStr (wr_id r)),
                                 (''error'', VStr (''scene '' @ s @ '' not found'')),
                                 (''applied'', VList []), (''skipped'', VList [])], h)
                 | Some items \<Rightarrow> run items))
         else (case dget action ''items'' of
                 VList items \<Rightarrow> run items
               | v \<Rightarrow> if truthy v then (Inl ''items is not a list'', h) else run []))"

section \<open>Dispatch\<close>

definition dispatch_one :: "env \<Rightarrow> watchdog_rule \<Rightarrow> pydict \<Rightarrow> pydict \<Rightarrow> hub \<Rightarrow> action_result" where
  "dispatch_one E r action target h =
     (let kind = dget action ''kind'' in
      if kind = VStr ''cycle'' then fire_cycle E r target action h
      else if kind = VStr ''hold_off'' then fire_hold_off E r target h
      else if kind = VStr ''relay_on'' then fire_relay_set E r target ''relay_on'' h
      else if kind = VStr ''relay_off'' then fire_relay_set E r target ''relay_off'' h
      else if kind = VStr ''apply_scene'' then fire_scene E r action h
      else if kind = VStr ''notify_only'' then
        (Inr [(''action'', VStr ''notify_only''), (''note'', VStr ''no power action'')], h)
      else (Inr [(''action'', kind),
                 (''error'', VStr (''unsupported action: ''
                    @ (case kind of VStr s \<Rightarrow> s | VNone \<Rightarrow> ''None'' | v \<Rightarrow> env_repr E v)))], h))"

definition capture :: "pydict \<Rightarrow> action_result \<Rightarrow> pydict \<times> hub" where
  "capture action res =
     (case res of
        (Inl e, h') \<Rightarrow> ([(''action'', dget action ''kind''), (''error'', VStr e)], h')
      | (Inr d, h') \<Rightarrow> (d, h'))"

definition fire_action :: "env \<Rightarrow> watchdog_rule \<Rightarrow> hub \<Rightarrow> pydict \<times> hub" where
  "fire_action E r h = capture (wr_action r) (dispatch_one E r (wr_action r) (wr_target r) h)"

definition apply_binding_action :: "env \<Rightarrow> watchdog_rule \<Rightarrow> pydict \<Rightarrow> hub \<Rightarrow> pydict \<times> hub" where
  "apply_binding_action E r action h = capture action (dispatch_one E r action (wr_target r) h)"

section \<open>Actions honour the lockout\<close>

text \<open>
  What every automatic action may do to the hub: append commands, none of them a power command
  for a protected device, without touching any protection flag.
\<close>

definition unprotected_power :: "hub \<Rightarrow> command \<Rightarrow> bool" where
  "unprotected_power h c \<longleftrightarrow>
     (c_type c \<in> set POWER_TYPES \<longrightarrow>
        (case get_device (c_device_id c) h of None \<Rightarrow> False | Some d \<Rightarrow> \<not> dev_is_protected d))"

definition protection :: "hub \<Rightarrow> string \<Rightarrow> bool option" where
  "protection h k = map_option dev_is_protected (get_device k h)"

definition lockout_kept :: "hub \<Rightarrow> hub \<Rightarrow> bool" where
  "lockout_kept h h' \<longleftrightarrow>
     protection h' = protection h \<and>
     (\<exists>cs. h_commands h' = h_commands h @ cs \<and> list_all (unprotected_power h) cs)"

text \<open>Everything but the device rows, the queue, the bus and the id counter.\<close>

definition core :: "hub \<Rightarrow> hub" where
  "core h = h\<lparr>h_devices := [], h_commands := [], h_bus := [], h_ulid := 0\<rparr>"

definition queues_safely :: "hub \<Rightarrow> hub \<Rightarrow> bool" where
  "queues_safely h h' \<longleftrightarrow> lockout_kept h h' \<and> core h' = core h"

lemma unprotected_power_protection:
  "unprotected_power h c \<longleftrightarrow>
     (c_type c \<in> set POWER_TYPES \<longrightarrow> protection h (c_device_id c) = Some False)"
  by (auto simp: unprotected_power_def protection_def split: option.splits)

lemma unprotected_power_cong: "protection h = protection h' \<Longrightarrow> unprotected_power h = unprotected_power h'"
  by (auto simp: fun_eq_iff unprotected_power_protection)

lemma lockout_kept_refl: "lockout_kept h h"
  by (simp add: lockout_kept_def)

lemma lockout_kept_trans: "lockout_kept h h1 \<Longrightarrow> lockout_kept h1 h2 \<Longrightarrow> lockout_kept h h2"
  by (fastforce simp: lockout_kept_def dest: unprotected_power_cong)

lemma lockout_kept_same:
  "h_commands h' = h_commands h \<Longrightarrow> h_devices h' = h_devices h \<Longrightarrow> lockout_kept h h'"
  by (simp add: lockout_kept_def protection_def get_device_def fun_eq_iff)

interpretation kept: state_preorder lockout_kept
  by unfold_locales (auto intro: lockout_kept_refl lockout_kept_trans)

interpretation safely: state_preorder queues_safely
  by unfold_locales (auto simp: queues_safely_def intro: lockout_kept_refl lockout_kept_trans)

lemmas queues_safely_refl = safely.leads_refl
lemmas queues_safely_trans = safely.leads_trans

lemma core_fields:
  "h_rules (core h) = h_rules h" "h_probe_events (core h) = h_probe_events h"
  "h_flags (core h) = h_flags h" "h_schedules (core h) = h_schedules h"
  "h_outbound (core h) = h_outbound h" "h_memberships (core h) = h_memberships h"
  "h_scenes (core h) = h_scenes h"
  by (simp_all add: core_def)

lemma queues_safely_frame:
  assumes "queues_safely h h'"
  shows "h_rules h' = h_rules h" and "h_probe_events h' = h_probe_events h"
    and "h_flags h' = h_flags h" and "h_schedules h' = h_schedules h"
    and "h_outbound h' = h_outbound h" and "h_memberships h' = h_memberships h"
    and "h_scenes h' = h_scenes h"
  using assms by (simp_all add: queues_safely_def) (metis core_fields)+

lemma enqueue_core:
  assumes "enqueue_for_device gen now did ty p uid ttl gid ov hold h = Inr (c, h')"
  shows "core h' = core h"
  using assms by (auto simp: enqueue_for_device_def Let_def core_def publish_def put_command_def
      modify_device_def split: if_splits sum.splits option.splits)

lemma enqueue_queues_safely:
  assumes "enqueue_for_device gen now did ty p uid ttl gid False hold h = Inr (c, h')"
  shows "queues_safely h h'"
proof -
  have "protection h' = protection h"
    using enqueue_device_effect [OF assms]
    by (auto simp: fun_eq_iff protection_def option.map_comp comp_def)
  moreover from assms have "h_commands h' = h_commands h @ [c]" and "unprotected_power h c"
    by (elim enqueue_for_deviceE, auto simp: unprotected_power_def new_command_def locked_out_def)+
  ultimately show ?thesis using enqueue_core [OF assms] by (auto simp: queues_safely_def lockout_kept_def)
qed

lemma try_enqueue_queues_safely: "try_enqueue E ty p hold did h = Inr (c, h') \<Longrightarrow> queues_safely h h'"
  by (auto simp: try_enqueue_def split: option.splits sum.splits dest: enqueue_queues_safely)

lemma enqueue_all_queues_safely:
  "enqueue_all E ty p hold dids h = (ok, sk, h') \<Longrightarrow> queues_safely h h'"
proof (induction dids arbitrary: h ok sk h')
  case Nil
  then show ?case by (simp add: queues_safely_refl)
next
  case (Cons did dids)
  then show ?case
    by (fastforce split: sum.splits prod.splits
        dest: try_enqueue_queues_safely intro: queues_safely_trans)
qed

lemma run_scene_commands_queues_safely:
  "run_scene_commands E did cs h = (res, h') \<Longrightarrow> queues_safely h h'"
proof (induction cs arbitrary: h res h' rule: list.induct)
  case Nil
  then show ?case by (simp add: queues_safely_refl)
next
  case (Cons tp cs)
  then show ?case
    by (cases tp) (fastforce split: sum.splits prod.splits
        dest: enqueue_queues_safely intro: queues_safely_trans queues_safely_refl)
qed

lemma run_scene_items_queues_safely:
  "run_scene_items E items h = (res, h') \<Longrightarrow> queues_safely h h'"
proof (induction items arbitrary: h res h')
  case Nil
  then show ?case by (simp add: queues_safely_refl)
next
  case (Cons item items)
  obtain r1 h1 where rc: "run_scene_commands E (str_or_empty E (dget (dict_of item) ''device_id''))
      (scene_commands (dict_of item)) h = (r1, h1)" by (metis prod.exhaust)
  obtain r2 h2 where ri: "run_scene_items E items h = (r2, h2)" by (metis prod.exhaust)
  obtain r3 h3 where ri1: "run_scene_items E items h1 = (r3, h3)" by (metis prod.exhaust)
  have "h' \<in> {h, h2, h3}"
    using Cons.prems rc ri ri1 by (auto simp: Let_def split: if_splits sum.splits prod.splits)
  moreover have "queues_safely h h2" and "queues_safely h h3"
    using Cons.IH [OF ri] Cons.IH [OF ri1] run_scene_commands_queues_safely [OF rc]
    by (auto intro: queues_safely_trans)
  ultimately show ?case by (auto intro: queues_safely_refl)
qed

lemma fire_scene_queues_safely: "fire_scene E r action h = (res, h') \<Longrightarrow> queues_safely h h'"
  by (auto simp: fire_scene_def Let_def
      split: if_splits option.splits pyval.splits sum.splits prod.splits
      dest: run_scene_items_queues_safely intro: queues_safely_refl)

lemma dispatch_one_queues_safely: "dispatch_one E r action target h = (res, h') \<Longrightarrow> queues_safely h h'"
  by (auto simp: dispatch_one_def Let_def fire_cycle_def fire_hold_off_def fire_relay_set_def
      split: if_splits option.splits list.splits prod.splits
      dest: enqueue_all_queues_safely fire_scene_queues_safely intro: queues_safely_refl
      simp del: enqueue_all.simps)

lemma capture_hub: "snd (capture action res) = snd res"
  by (auto simp: capture_def split: prod.splits sum.splits)

lemma fire_action_queues_safely: "queues_safely h (snd (fire_action E r h))"
  by (simp add: fire_action_def capture_hub)
    (metis dispatch_one_queues_safely prod.collapse)

lemma apply_binding_action_queues_safely: "queues_safely h (snd (apply_binding_action E r a h))"
  by (simp add: apply_binding_action_def capture_hub)
    (metis dispatch_one_queues_safely prod.collapse)

end
