(* ===== verification/RuntimeFlags.thy ===== *)
theory RuntimeFlags
  imports Models
begin

text \<open>
  Runtime flags (\<open>app/services/runtime_flags.py\<close>): a small key/value store whose one
  well-known key is the portal-wide maintenance switch that pauses the watchdog. The value an
  operator writes carries an override stamp; the writes of the schedule runtime do not.
\<close>

definition MAINTENANCE_MODE :: string where
  "MAINTENANCE_MODE = ''maintenance_mode_active''"

definition get_flag :: "string \<Rightarrow> pyval \<Rightarrow> hub \<Rightarrow> pyval" where
  "get_flag name dflt h =
     (case tget rf_name name (h_flags h) of None \<Rightarrow> dflt | Some row \<Rightarrow> rf_value row)"

definition set_flag :: "instant \<Rightarrow> string \<Rightarrow> pyval \<Rightarrow> string option \<Rightarrow> hub \<Rightarrow> hub" where
  "set_flag now name v uid h =
     (case tget rf_name name (h_flags h) of
        None \<Rightarrow> h\<lparr>h_flags := tadd \<lparr>rf_name = name, rf_value = v, rf_updated_at = now,
                                     rf_updated_by_user_id = uid\<rparr> (h_flags h)\<rparr>
      | Some _ \<Rightarrow> h\<lparr>h_flags := tupd rf_name name
                    (\<lambda>row. row\<lparr>rf_value := v, rf_updated_at := now, rf_updated_by_user_id := uid\<rparr>)
                    (h_flags h)\<rparr>)"

definition flag_off :: pyval where
  "flag_off = VDict [(''on'', VBool False)]"

definition is_maintenance_mode_active :: "hub \<Rightarrow> bool" where
  "is_maintenance_mode_active h =
     (case get_flag MAINTENANCE_MODE flag_off h of
        VDict d \<Rightarrow> truthy (dget d ''on'')
      | v \<Rightarrow> truthy v)"

definition maintenance_mode_details :: "hub \<Rightarrow> pydict" where
  "maintenance_mode_details h =
     (case get_flag MAINTENANCE_MODE flag_off h of
        VDict d \<Rightarrow> d
      | v \<Rightarrow> [(''on'', VBool (truthy v))])"

definition cap_reason :: "string option \<Rightarrow> string option" where
  "cap_reason reason =
     (case reason of None \<Rightarrow> None
      | Some s \<Rightarrow> Some (if length s > 200 then take 197 s @ ''...'' else s))"

definition schedule_write :: "string option \<Rightarrow> bool" where
  "schedule_write reason \<longleftrightarrow> reason = Some ''schedule'' \<or> reason = Some ''schedule_window_ended''"

definition set_maintenance_mode :: "env \<Rightarrow> bool \<Rightarrow> string option \<Rightarrow> string option \<Rightarrow> hub \<Rightarrow> hub" where
  "set_maintenance_mode E on uid reason h =
     (let rsn = cap_reason reason;
          set_at = VStr (env_isoformat E (env_now E));
          payload = [(''on'', VBool on), (''reason'', of_opt_str rsn), (''set_at'', set_at)];
          payload = (if schedule_write rsn then payload
                     else dset payload ''operator_override_at'' set_at)
      in set_flag (env_now E) MAINTENANCE_MODE (VDict payload) uid h)"

section \<open>Reading back what was written\<close>

lemma get_set_flag: "get_flag k d (set_flag now name v uid h) = (if k = name then v else get_flag k d h)"
  by (simp add: get_flag_def set_flag_def tget_tadd tget_tupd split: option.splits)

lemma set_flag_frame [frame_rules]:
  "h_devices (set_flag now name v uid h) = h_devices h"
  "h_commands (set_flag now name v uid h) = h_commands h"
  "h_rules (set_flag now name v uid h) = h_rules h"
  "h_schedules (set_flag now name v uid h) = h_schedules h"
  by (simp_all add: set_flag_def split: option.splits)

lemma set_maintenance_mode_frame [frame_rules]:
  "h_devices (set_maintenance_mode E on uid reason h) = h_devices h"
  "h_commands (set_maintenance_mode E on uid reason h) = h_commands h"
  "h_rules (set_maintenance_mode E on uid reason h) = h_rules h"
  "h_schedules (set_maintenance_mode E on uid reason h) = h_schedules h"
  by (simp_all add: set_maintenance_mode_def Let_def frame_rules)

lemma maintenance_details_set:
  "dget (maintenance_mode_details (set_maintenance_mode E on uid reason h)) ''reason''
     = of_opt_str (cap_reason reason)"
  "dget (maintenance_mode_details (set_maintenance_mode E on uid reason h)) ''operator_override_at''
     = (if schedule_write (cap_reason reason) then VNone else VStr (env_isoformat E (env_now E)))"
  "dget (maintenance_mode_details (set_maintenance_mode E on uid reason h)) ''on'' = VBool on"
  by (simp_all add: maintenance_mode_details_def set_maintenance_mode_def Let_def get_set_flag
      dget_def dset_def)

lemma is_maintenance_set [simp]:
  "is_maintenance_mode_active (set_maintenance_mode E on uid reason h) = on"
  by (simp add: is_maintenance_mode_active_def set_maintenance_mode_def Let_def get_set_flag
      dget_def dset_def)

lemma cap_reason_length: "cap_reason reason = Some s \<Longrightarrow> length s \<le> 200"
  by (auto simp: cap_reason_def split: option.splits if_splits)

end
