(* ===== verification/ScheduleRuntime.thy ===== *)
theory ScheduleRuntime
  imports Schedules WatchdogActions RuntimeFlags
begin

text \<open>
  The schedule tick (\<open>app/services/schedule_runtime.py\<close>): every enabled schedule that is due fires
  (a power cycle queues relay cycles, a maintenance window only opens), gets its next run computed,
  and then the portal-wide maintenance flag is reconciled with the windows that cover now. The job
  runs the tick in the system context, so no tenant filter applies. The name of the exception a group
  query raises on an id that is no string is a parameter (\<open>qexc\<close>).
\<close>

section \<open>Firing\<close>

fun nat_str :: "nat \<Rightarrow> string" where
  "nat_str n = (if n < 10 then [char_of (48 + n)] else nat_str (n div 10) @ [char_of (48 + n mod 10)])"

declare nat_str.simps [simp del]

definition fire_power_cycle :: "env \<Rightarrow> string \<Rightarrow> schedule \<Rightarrow> hub \<Rightarrow> (string + string) \<times> hub" where
  "fire_power_cycle E qexc s h =
     (case resolve_target_devices (sch_target s) h of
        None \<Rightarrow> (Inl qexc, h)
      | Some [] \<Rightarrow> (Inr ''no_target_devices'', h)
      | Some dids \<Rightarrow>
          (let payload = [(''power_off_seconds'', VInt (sch_power_off_seconds s)),
                          (''post_reboot_holdoff_seconds'', VInt (sch_post_reboot_holdoff_seconds s))];
               (ok, failed, h') = enqueue_all E ''relay_cycle'' (Some payload) False dids h
           in (Inr (if failed \<noteq> []
                    then ''enqueued:'' @ nat_str (length ok) @ '' failed:'' @ nat_str (length failed)
                    else ''enqueued:'' @ nat_str (length ok)), h')))"

definition fire_schedule :: "env \<Rightarrow> string \<Rightarrow> schedule \<Rightarrow> hub \<Rightarrow> (string + string) \<times> hub" where
  "fire_schedule E qexc s h =
     (if sch_kind s = ''power_cycle'' then fire_power_cycle E qexc s h
      else if sch_kind s = ''maintenance'' then (Inr ''maintenance_window_open'', h)
      else (Inr (''unsupported_kind:'' @ sch_kind s), h))"

section \<open>The maintenance flag\<close>

datatype run_error = ComputeFailed sched_error | OverrideNotText

definition in_sched_window :: "instant \<Rightarrow> schedule \<Rightarrow> bool" where
  "in_sched_window now s \<longleftrightarrow>
     sch_kind s = ''maintenance'' \<and> sch_enabled s \<and>
     (case sch_last_run_at s of
        None \<Rightarrow> False
      | Some t \<Rightarrow> t \<le> now \<and> now \<le> t + secs (sch_duration_seconds s))"

definition active_window_start :: "schedule list \<Rightarrow> instant \<Rightarrow> instant option" where
  "active_window_start rows now =
     (case find (in_sched_window now) rows of None \<Rightarrow> None | Some s \<Rightarrow> sch_last_run_at s)"

text \<open>Whether the operator wrote the flag since the window opened; \<open>None\<close> when \<open>fromisoformat\<close>
  gets something that is no text.\<close>

definition overridden_since :: "env \<Rightarrow> instant \<Rightarrow> pyval \<Rightarrow> bool option" where
  "overridden_since E start v =
     (if \<not> truthy v then Some False
      else case v of
        VStr txt \<Rightarrow> (case env_fromiso E txt of None \<Rightarrow> Some False | Some t \<Rightarrow> Some (t \<ge> start))
      | _ \<Rightarrow> None)"

definition reconcile_maintenance_flag :: "env \<Rightarrow> schedule list \<Rightarrow> instant \<Rightarrow> hub \<Rightarrow> run_error + hub" where
  "reconcile_maintenance_flag E rows now h =
     (let current = is_maintenance_mode_active h;
          details = maintenance_mode_details h
      in case active_window_start rows now of
           Some start \<Rightarrow>
             (case overridden_since E start (dget details ''operator_override_at'') of
                None \<Rightarrow> Inl OverrideNotText
              | Some overridden \<Rightarrow>
                  Inr (if \<not> current \<and> \<not> overridden
                       then set_maintenance_mode E True None (Some ''schedule'') h else h))
         | None \<Rightarrow>
             Inr (if current \<and> dget details ''reason'' = VStr ''schedule''
                  then set_maintenance_mode E False None (Some ''schedule_window_ended'') h else h))"

section \<open>The tick\<close>

record sched_stats =
  ss_fired :: nat
  ss_errors :: nat
  ss_considered :: nat

datatype sched_tick = SchedDisabled | SchedRaised run_error | SchedStats sched_stats

definition due :: "instant \<Rightarrow> schedule \<Rightarrow> bool" where
  "due now s \<longleftrightarrow> (case sch_next_run_at s of None \<Rightarrow> False | Some t \<Rightarrow> t \<le> now)"

definition step_schedule ::
  "env \<Rightarrow> string \<Rightarrow> instant \<Rightarrow> schedule \<Rightarrow> sched_stats \<times> hub \<Rightarrow> (sched_error + schedule) \<times> sched_stats \<times> hub" where
  "step_schedule E qexc now s sh =
     (let (st0, h) = sh; st = st0\<lparr>ss_considered := Suc (ss_considered st0)\<rparr> in
      if sch_next_run_at s = None then
        (case compute_next_run_at s now of
           Inl e \<Rightarrow> (Inl e, st, h)
         | Inr nxt \<Rightarrow> (Inr (s\<lparr>sch_next_run_at := nxt\<rparr>), st, h))
      else if \<not> due now s then (Inr s, st, h)
      else
        let (res, h1) = fire_schedule E qexc s h;
            (outcome, st) = (case res of
                Inr out \<Rightarrow> (out, st\<lparr>ss_fired := Suc (ss_fired st)\<rparr>)
              | Inl exc \<Rightarrow> (''error: '' @ exc, st\<lparr>ss_errors := Suc (ss_errors st)\<rparr>));
            s1 = s\<lparr>sch_last_outcome := Some outcome, sch_last_run_at := Some now\<rparr>
        in (case compute_next_run_at s1 now of
              Inl e \<Rightarrow> (Inl e, st, h1)
            | Inr nxt \<Rightarrow> (Inr (s1\<lparr>sch_next_run_at := nxt\<rparr>), st, h1)))"

fun tick_rows ::
  "env \<Rightarrow> string \<Rightarrow> instant \<Rightarrow> schedule list \<Rightarrow> sched_stats \<times> hub \<Rightarrow>
   (sched_error + schedule list) \<times> sched_stats \<times> hub" where
  "tick_rows E qexc now [] sh = (Inr [], sh)"
| "tick_rows E qexc now (s # ss) sh =
     (case step_schedule E qexc now s sh of
        (Inl e, sh1) \<Rightarrow> (Inl e, sh1)
      | (Inr s', sh1) \<Rightarrow>
          (case tick_rows E qexc now ss sh1 of
             (Inl e, sh2) \<Rightarrow> (Inl e, sh2)
           | (Inr ss', sh2) \<Rightarrow> (Inr (s' # ss'), sh2)))"

definition zero_sched_stats :: sched_stats where
  "zero_sched_stats = \<lparr>ss_fired = 0, ss_errors = 0, ss_considered = 0\<rparr>"

definition put_schedule :: "schedule \<Rightarrow> hub \<Rightarrow> hub" where
  "put_schedule s h = h\<lparr>h_schedules := tupd sch_id (sch_id s) (\<lambda>_. s) (h_schedules h)\<rparr>"

text \<open>An exception rolls the schedule rows back; commands queued before it stay.\<close>

definition schedule_tick :: "env \<Rightarrow> string \<Rightarrow> bool \<Rightarrow> instant \<Rightarrow> hub \<Rightarrow> sched_tick \<times> hub" where
  "schedule_tick E qexc disabled now h =
     (if disabled then (SchedDisabled, h)
      else case tick_rows E qexc now (filter sch_enabled (h_schedules h)) (zero_sched_stats, h) of
        (Inl e, st, h1) \<Rightarrow> (SchedRaised (ComputeFailed e), h1)
      | (Inr rows, st, h1) \<Rightarrow>
          (case reconcile_maintenance_flag E rows now h1 of
             Inl e \<Rightarrow> (SchedRaised e, h1)
           | Inr h2 \<Rightarrow> (SchedStats st, fold put_schedule rows h2)))"

section \<open>The lockout\<close>

lemma fire_schedule_queues_safely: "queues_safely h (snd (fire_schedule E qexc s h))"
  by (auto simp: fire_schedule_def fire_power_cycle_def Let_def
      split: option.splits list.splits prod.splits
      dest: enqueue_all_queues_safely intro: queues_safely_refl simp del: enqueue_all.simps)

lemma step_schedule_queues_safely: "queues_safely (snd sh) (snd (snd (step_schedule E qexc now s sh)))"
proof -
  obtain st h where sh: "sh = (st, h)" by (cases sh)
  obtain res h1 where f: "fire_schedule E qexc s h = (res, h1)" by (metis prod.exhaust)
  have "queues_safely h h1" using fire_schedule_queues_safely [of h E qexc s] f by simp
  then show ?thesis
    by (auto simp: step_schedule_def sh f Let_def split: sum.splits prod.splits intro: queues_safely_refl)
qed

lemma tick_rows_queues_safely: "queues_safely (snd sh) (snd (snd (tick_rows E qexc now ss sh)))"
proof (induction ss arbitrary: sh)
  case Nil
  show ?case by (simp add: queues_safely_refl)
next
  case (Cons s ss)
  obtain res sh1 where st: "step_schedule E qexc now s sh = (res, sh1)" by (metis prod.exhaust)
  have "queues_safely (snd sh) (snd sh1)" using step_schedule_queues_safely [of sh E qexc now s] st by simp
  moreover note Cons.IH [of sh1]
  ultimately show ?case
    by (auto simp: st split: sum.splits prod.splits intro: queues_safely_trans)
qed

lemma put_schedule_kept: "lockout_kept h (put_schedule s h)"
  by (rule lockout_kept_same) (simp_all add: put_schedule_def)

lemma reconcile_kept: "reconcile_maintenance_flag E rows now h = Inr h' \<Longrightarrow> lockout_kept h h'"
  by (auto simp: reconcile_maintenance_flag_def Let_def frame_rules
      split: option.splits if_splits intro: lockout_kept_refl lockout_kept_same)

lemma schedule_tick_kept: "lockout_kept h (snd (schedule_tick E qexc disabled now h))"
proof -
  obtain res st h1 where t: "tick_rows E qexc now (filter sch_enabled (h_schedules h)) (zero_sched_stats, h) = (res, st, h1)"
    by (metis prod_cases3)
  have k1: "lockout_kept h h1"
    using tick_rows_queues_safely [of "(zero_sched_stats, h)" E qexc now "filter sch_enabled (h_schedules h)"] t
    by (simp add: queues_safely_def)
  have k2: "lockout_kept h2 (fold put_schedule rows h2)" for rows h2
    by (rule kept.leads_fold) (rule put_schedule_kept)
  show ?thesis
    by (auto simp: schedule_tick_def t k1 split: sum.splits
        intro: lockout_kept_refl lockout_kept_trans [OF k1 lockout_kept_trans [OF reconcile_kept k2]])
qed

section \<open>After a tick nothing is due\<close>

lemma walk_days_ge: "walk_days n days t = Some u \<Longrightarrow> t \<le> u"
proof (induction n arbitrary: t)
  case 0
  then show ?case by simp
next
  case (Suc n)
  show ?case
  proof (cases "weekday t \<in> set days")
    case True
    then show ?thesis using Suc.prems by simp
  next
    case False
    then have "t + DAY \<le> u" using Suc by simp
    then show ?thesis using DAY_nonneg by linarith
  qed
qed

lemma compute_future:
  assumes "compute_next_run_at s now = Inr (Some t)"
  shows "now < t"
  using assms
  by (auto simp: compute_next_run_at_def split: if_splits option.splits prod.splits
      intro: next_daily_bounds(1) less_le_trans [OF next_daily_bounds(1) walk_days_ge])

lemma compute_not_due: "compute_next_run_at s now = Inr nxt \<Longrightarrow> \<not> due now (s'\<lparr>sch_next_run_at := nxt\<rparr>)"
  using compute_future by (fastforce simp: due_def split: option.splits)

lemma step_schedule_result:
  assumes "step_schedule E qexc now s sh = (Inr s', sh')"
  shows "\<not> due now s'" and "sch_id s' = sch_id s" and "sch_enabled s' = sch_enabled s"
    and "sch_recurrence s' = sch_recurrence s" and "sch_start_at s' = sch_start_at s"
    and "sch_last_run_at s' = (if due now s then Some now else sch_last_run_at s)"
proof -
  obtain st h where sh: "sh = (st, h)" by (cases sh)
  obtain res h1 where f: "fire_schedule E qexc s h = (res, h1)" by (metis prod.exhaust)
  show "\<not> due now s'"
    using assms
    by (auto simp: step_schedule_def sh f Let_def compute_not_due split: if_splits sum.splits prod.splits)
  show "sch_id s' = sch_id s" and "sch_enabled s' = sch_enabled s"
    and "sch_recurrence s' = sch_recurrence s" and "sch_start_at s' = sch_start_at s"
    using assms by (auto simp: step_schedule_def sh f Let_def split: if_splits sum.splits prod.splits)
  show "sch_last_run_at s' = (if due now s then Some now else sch_last_run_at s)"
    using assms by (auto simp: step_schedule_def sh f Let_def due_def split: if_splits sum.splits prod.splits)
qed

lemma tick_rows_result:
  "tick_rows E qexc now ss sh = (Inr ss', sh') \<Longrightarrow>
     map sch_id ss' = map sch_id ss \<and> (\<forall>s \<in> set ss'. \<not> due now s)"
proof (induction ss arbitrary: sh ss')
  case Nil
  then show ?case by simp
next
  case (Cons s ss)
  obtain s1 sh1 where st: "step_schedule E qexc now s sh = (Inr s1, sh1)"
    using Cons.prems by (auto split: prod.splits sum.splits)
  obtain ss1 where "tick_rows E qexc now ss sh1 = (Inr ss1, sh')" and "ss' = s1 # ss1"
    using Cons.prems st by (auto split: prod.splits sum.splits)
  then show ?case using Cons.IH step_schedule_result(1,2) [OF st] by auto
qed

lemma step_schedule_idle:
  "\<not> due now s \<Longrightarrow> \<exists>r. step_schedule E qexc now s (st, h) = (r, st\<lparr>ss_considered := Suc (ss_considered st)\<rparr>, h)"
  by (auto simp: step_schedule_def Let_def split: sum.splits)

lemma tick_rows_idle:
  assumes "\<forall>s \<in> set ss. \<not> due now s"
  shows "\<exists>r st'. tick_rows E qexc now ss (st, h) = (r, st', h) \<and> ss_fired st' = ss_fired st \<and> ss_errors st' = ss_errors st"
  using assms
proof (induction ss arbitrary: st)
  case Nil
  then show ?case by simp
next
  case (Cons s ss)
  let ?st = "st\<lparr>ss_considered := Suc (ss_considered st)\<rparr>"
  obtain r where r: "step_schedule E qexc now s (st, h) = (r, ?st, h)"
    using step_schedule_idle [of now s E qexc st h] Cons.prems by auto
  obtain r2 st2 where "tick_rows E qexc now ss (?st, h) = (r2, st2, h)"
    and "ss_fired st2 = ss_fired st" and "ss_errors st2 = ss_errors st"
    using Cons.IH [of ?st] Cons.prems by auto
  then show ?case using r by (auto split: sum.splits)
qed

lemma fold_put_schedule_rows:
  "set (h_schedules (fold put_schedule rows h)) \<subseteq>
     set rows \<union> {s \<in> set (h_schedules h). sch_id s \<notin> sch_id ` set rows}"
proof (induction rows arbitrary: h)
  case Nil
  show ?case by simp
next
  case (Cons r rows)
  have "set (h_schedules (put_schedule r h)) \<subseteq> insert r {s \<in> set (h_schedules h). sch_id s \<noteq> sch_id r}"
    by (auto simp: put_schedule_def set_tupd)
  then show ?case using Cons.IH [of "put_schedule r h"] by auto
qed

lemma reconcile_schedules: "reconcile_maintenance_flag E rows now h = Inr h' \<Longrightarrow> h_schedules h' = h_schedules h"
  by (auto simp: reconcile_maintenance_flag_def Let_def frame_rules split: option.splits if_splits)

lemma schedule_tick_not_due:
  assumes "schedule_tick E qexc False now h = (SchedStats st, h')"
  shows "\<forall>s \<in> set (h_schedules h'). sch_enabled s \<longrightarrow> \<not> due now s"
proof -
  let ?rows = "filter sch_enabled (h_schedules h)"
  obtain rows st1 h1 h2 where t: "tick_rows E qexc now ?rows (zero_sched_stats, h) = (Inr rows, st1, h1)"
    and r: "reconcile_maintenance_flag E rows now h1 = Inr h2" and h': "h' = fold put_schedule rows h2"
    using assms by (auto simp: schedule_tick_def split: sum.splits prod.splits)
  have "queues_safely h h1"
    using tick_rows_queues_safely [of "(zero_sched_stats, h)" E qexc now ?rows] t by simp
  then have hs: "h_schedules h2 = h_schedules h"
    using reconcile_schedules [OF r] queues_safely_frame(4) by simp
  have "map sch_id rows = map sch_id ?rows" and nd: "\<forall>s \<in> set rows. \<not> due now s"
    using tick_rows_result [OF t] by auto
  then have ids: "sch_id ` set rows = sch_id ` set ?rows" by (metis set_map)
  have "set (h_schedules h') \<subseteq> set rows \<union> {s \<in> set (h_schedules h). sch_id s \<notin> sch_id ` set rows}"
    unfolding h' using fold_put_schedule_rows [of rows h2] hs by simp
  then show ?thesis using nd ids by fastforce
qed

section \<open>Runs of one schedule\<close>

fun sched_run ::
  "env \<Rightarrow> string \<Rightarrow> schedule \<Rightarrow> sched_stats \<times> hub \<Rightarrow> instant list \<Rightarrow> instant list" where
  "sched_run E qexc s sh [] = []"
| "sched_run E qexc s sh (now # nows) =
     (case step_schedule E qexc now s sh of
        (Inl _, _) \<Rightarrow> (if due now s then [now] else [])
      | (Inr s', sh') \<Rightarrow> (if due now s then now # sched_run E qexc s' sh' nows
                           else sched_run E qexc s' sh' nows))"

lemma once_done:
  assumes "sch_recurrence s = ''once''" and "sch_last_run_at s \<noteq> None" and "sch_next_run_at s = None"
  shows "sched_run E qexc s sh nows = []"
  using assms
proof (induction nows arbitrary: sh)
  case Nil
  show ?case by simp
next
  case (Cons now nows)
  have "compute_next_run_at s now = Inr None" using Cons.prems by (auto simp: compute_next_run_at_def split: option.splits)
  then have "step_schedule E qexc now s sh = (Inr (s\<lparr>sch_next_run_at := None\<rparr>),
      (fst sh)\<lparr>ss_considered := Suc (ss_considered (fst sh))\<rparr>, snd sh)"
    using Cons.prems by (cases sh) (simp add: step_schedule_def)
  moreover have "s\<lparr>sch_next_run_at := None\<rparr> = s" using Cons.prems by simp
  ultimately show ?case using Cons by (simp add: due_def)
qed

lemma once_run:
  assumes "sch_recurrence s = ''once''" and "sch_next_run_at s = Some t"
  shows "sched_run E qexc s sh nows = take 1 (dropWhile (\<lambda>now. now < t) nows)"
  using assms
proof (induction nows arbitrary: sh)
  case Nil
  show ?case by simp
next
  case (Cons now nows)
  obtain st h where sh: "sh = (st, h)" by (cases sh)
  show ?case
  proof (cases "now < t")
    case True
    then have nd: "\<not> due now s" using Cons.prems by (simp add: due_def)
    have "step_schedule E qexc now s sh = (Inr s, st\<lparr>ss_considered := Suc (ss_considered st)\<rparr>, h)"
      using Cons.prems nd by (simp add: step_schedule_def sh)
    then show ?thesis using Cons nd True by simp
  next
    case False
    then have d: "due now s" using Cons.prems by (simp add: due_def)
    obtain res h1 where f: "fire_schedule E qexc s h = (res, h1)" by (metis prod.exhaust)
    have "compute_next_run_at (s\<lparr>sch_last_outcome := v, sch_last_run_at := Some now\<rparr>) now = Inr None" for v
      using Cons.prems by (simp add: compute_next_run_at_def split: option.splits)
    then obtain s' sh' where st: "step_schedule E qexc now s sh = (Inr s', sh')" and n: "sch_next_run_at s' = None"
      using Cons.prems d by (cases res) (auto simp: step_schedule_def sh f Let_def)
    have "sched_run E qexc s' sh' nows = []"
      by (rule once_done) (use step_schedule_result(4,6) [OF st] Cons.prems d n in simp_all)
    then show ?thesis using st d False by simp
  qed
qed

section \<open>Properties\<close>

text \<open>A schedule tick honours the operator's lockout: every command it adds is either not a power
  command or is addressed to an existing device that is not protected, and no protection flag
  changes, also when the tick raises half way.\<close>

theorem schedule_tick_honours_lockout:
  "protection (snd (schedule_tick E qexc disabled now h)) = protection h \<and>
   (\<exists>cs. h_commands (snd (schedule_tick E qexc disabled now h)) = h_commands h @ cs
       \<and> list_all (\<lambda>c. c_type c \<in> set POWER_TYPES
                        \<longrightarrow> (\<exists>d. get_device (c_device_id c) h = Some d \<and> \<not> dev_is_protected d)) cs)"
  using schedule_tick_kept [of h E qexc disabled now]
  by (auto simp: lockout_kept_def unprotected_power_def list_all_iff split: option.splits)

definition sched_hub :: "schedule list \<Rightarrow> hub" where
  "sched_hub ss = demo_hub\<lparr>h_schedules := ss\<rparr>"

definition sched_env :: "instant \<Rightarrow> env" where
  "sched_env now = \<lparr>env_ulid = demo_gen, env_now = now, env_fromiso = (\<lambda>s. Some (int (length s))),
                    env_isoformat = (\<lambda>t. replicate (nat t) CHR ''x''), env_repr = (\<lambda>_. [])\<rparr>"

lemma schedule_tick_demo:
  "map c_device_id (h_commands (snd (schedule_tick (sched_env 5) ''TypeError'' False 5
      (sched_hub [(demo_schedule ''daily'')\<lparr>sch_next_run_at := Some 3\<rparr>])))) = [''d1'']"
  by code_simp

theorem schedule_tick_honours_lockout_witness:
  "let h = sched_hub [(demo_schedule ''daily'')\<lparr>sch_next_run_at := Some 3\<rparr>];
       h' = snd (schedule_tick (sched_env 5) ''TypeError'' False 5 h)
   in protection h ''d2'' = Some True \<and> protection h' ''d2'' = Some True
      \<and> map c_device_id (h_commands h') = [''d1'']"
  using schedule_tick_honours_lockout [of "sched_env 5" "''TypeError''" False 5
      "sched_hub [(demo_schedule ''daily'')\<lparr>sch_next_run_at := Some 3\<rparr>]"] schedule_tick_demo
  by (simp add: Let_def) (simp add: protection_def get_device_def sched_hub_def demo_defs)

text \<open>A tick is settled: once it has completed, ticking again at the same time fires nothing, fails
  nothing and queues nothing.\<close>

theorem schedule_tick_settles:
  assumes "schedule_tick E qexc False now h = (SchedStats st, h')"
    and "schedule_tick E' qexc' False now h' = (SchedStats st', h'')"
  shows "ss_fired st' = 0 \<and> ss_errors st' = 0 \<and> h_commands h'' = h_commands h'"
proof -
  have "\<forall>s \<in> set (filter sch_enabled (h_schedules h')). \<not> due now s"
    using schedule_tick_not_due [OF assms(1)] by simp
  from tick_rows_idle [OF this, of E' qexc' zero_sched_stats h'] obtain r st1 where
    t: "tick_rows E' qexc' now (filter sch_enabled (h_schedules h')) (zero_sched_stats, h') = (r, st1, h')"
    and z: "ss_fired st1 = 0" "ss_errors st1 = 0"
    by (auto simp: zero_sched_stats_def)
  obtain rows h2 where r: "r = Inr rows" and rec: "reconcile_maintenance_flag E' rows now h' = Inr h2"
    and st': "st' = st1" and h'': "h'' = fold put_schedule rows h2"
    using assms(2) t by (auto simp: schedule_tick_def split: sum.splits)
  have "h_commands (fold put_schedule rows g) = h_commands g" for g
    by (induction rows arbitrary: g) (simp_all add: put_schedule_def)
  moreover have "h_commands h2 = h_commands h'"
    using rec by (auto simp: reconcile_maintenance_flag_def Let_def frame_rules split: option.splits if_splits)
  ultimately show ?thesis using z st' h'' by simp
qed

theorem schedule_tick_settles_witness:
  "let t1 = schedule_tick (sched_env 5) ''TypeError'' False 5
              (sched_hub [(demo_schedule ''daily'')\<lparr>sch_next_run_at := Some 3\<rparr>]);
       t2 = schedule_tick (sched_env 5) ''TypeError'' False 5 (snd t1)
   in \<exists>st. fst t2 = SchedStats st \<and> ss_fired st = 0 \<and> h_commands (snd t2) = h_commands (snd t1)"
proof -
  let ?t1 = "schedule_tick (sched_env 5) ''TypeError'' False 5
              (sched_hub [(demo_schedule ''daily'')\<lparr>sch_next_run_at := Some 3\<rparr>])"
  let ?t2 = "schedule_tick (sched_env 5) ''TypeError'' False 5 (snd ?t1)"
  have "fst ?t1 = SchedStats \<lparr>ss_fired = 1, ss_errors = 0, ss_considered = 1\<rparr>"
    and f2: "fst ?t2 = SchedStats \<lparr>ss_fired = 0, ss_errors = 0, ss_considered = 1\<rparr>"
    by code_simp+
  then have "?t1 = (SchedStats \<lparr>ss_fired = 1, ss_errors = 0, ss_considered = 1\<rparr>, snd ?t1)"
    and "?t2 = (SchedStats \<lparr>ss_fired = 0, ss_errors = 0, ss_considered = 1\<rparr>, snd ?t2)"
    by (simp_all add: prod_eq_iff)
  from schedule_tick_settles [OF this] f2 show ?thesis by (simp add: Let_def)
qed

text \<open>A one-shot schedule fires exactly once: at the first tick at or after its start, and never
  again, whatever the ticks after it.\<close>

theorem one_shot_fires_once:
  assumes "sch_recurrence s = ''once''" and "sch_next_run_at s = Some t"
  shows "sched_run E qexc s sh nows = take 1 (dropWhile (\<lambda>now. now < t) nows)"
  by (rule once_run [OF assms])

theorem one_shot_fires_once_witness:
  "sched_run (sched_env 0) ''TypeError'' ((demo_schedule ''once'')\<lparr>sch_next_run_at := Some 100\<rparr>)
     (zero_sched_stats, demo_hub) [50, 99, 130, 160] = [130]"
proof -
  let ?s = "(demo_schedule ''once'')\<lparr>sch_next_run_at := Some 100\<rparr>"
  have once: "sch_recurrence ?s = ''once''" and nxt: "sch_next_run_at ?s = Some 100"
    by (simp_all add: demo_schedule_def)
  show ?thesis unfolding one_shot_fires_once [OF once nxt] by simp
qed

text \<open>The operator's word on maintenance mode stands: what an operator writes is left alone by every
  later reconciliation, both outside all scheduled windows and for the rest of the window it was
  written in. The text of a timestamp is assumed to read back as that timestamp.\<close>

theorem operator_override_stands:
  assumes "\<not> schedule_write (cap_reason reason)"
    and "env_isoformat E0 (env_now E0) \<noteq> []"
    and "env_fromiso E (env_isoformat E0 (env_now E0)) = Some (env_now E0)"
    and "\<And>w. active_window_start rows now = Some w \<Longrightarrow> w \<le> env_now E0"
  shows "reconcile_maintenance_flag E rows now (set_maintenance_mode E0 on uid reason h)
           = Inr (set_maintenance_mode E0 on uid reason h)"
proof -
  let ?h = "set_maintenance_mode E0 on uid reason h"
  have ov: "dget (maintenance_mode_details ?h) ''operator_override_at'' = VStr (env_isoformat E0 (env_now E0))"
    and rsn: "dget (maintenance_mode_details ?h) ''reason'' \<noteq> VStr ''schedule''"
    using assms(1) by (auto simp: maintenance_details_set of_opt_str_def schedule_write_def split: option.splits)
  have "overridden_since E w (VStr (env_isoformat E0 (env_now E0))) = Some True"
    if "active_window_start rows now = Some w" for w
    using assms(2,3) assms(4) [OF that] by (simp add: overridden_since_def)
  then show ?thesis
    using ov rsn by (auto simp: reconcile_maintenance_flag_def Let_def split: option.splits)
qed

definition maintenance_at :: "instant \<Rightarrow> schedule" where
  "maintenance_at t = (demo_schedule ''daily'')\<lparr>sch_kind := ''maintenance'', sch_last_run_at := Some t\<rparr>"

theorem operator_override_stands_witness:
  "let h = set_maintenance_mode (sched_env 20) False (Some ''u'') (Some ''back early'') demo_hub
   in reconcile_maintenance_flag (sched_env 30) [maintenance_at 10] 30 h = Inr h"
proof -
  have "active_window_start [maintenance_at 10] 30 = Some 10" by code_simp
  then show ?thesis
    unfolding Let_def
    by (intro operator_override_stands) (simp_all add: cap_reason_def schedule_write_def sched_env_def)
qed

text \<open>A scheduled window opens and closes maintenance mode: with no operator write since the window
  opened, the reconciliation inside the window turns the flag on, and the next one outside all
  windows turns it off again.\<close>

theorem scheduled_window_opens_and_closes:
  assumes "active_window_start rows now = Some w" and "active_window_start rows' now' = None"
    and "\<not> is_maintenance_mode_active h"
    and "overridden_since E w (dget (maintenance_mode_details h) ''operator_override_at'') = Some False"
  shows "\<exists>h1 h2. reconcile_maintenance_flag E rows now h = Inr h1 \<and> is_maintenance_mode_active h1
           \<and> reconcile_maintenance_flag E' rows' now' h1 = Inr h2 \<and> \<not> is_maintenance_mode_active h2"
proof -
  let ?h1 = "set_maintenance_mode E True None (Some ''schedule'') h"
  have "dget (maintenance_mode_details ?h1) ''reason'' = VStr ''schedule''"
    by (simp add: maintenance_details_set cap_reason_def of_opt_str_def)
  then have "reconcile_maintenance_flag E' rows' now' ?h1
      = Inr (set_maintenance_mode E' False None (Some ''schedule_window_ended'') ?h1)"
    using assms(2) by (simp add: reconcile_maintenance_flag_def)
  moreover have "reconcile_maintenance_flag E rows now h = Inr ?h1"
    using assms(1,3,4) by (simp add: reconcile_maintenance_flag_def)
  ultimately show ?thesis by simp
qed

theorem scheduled_window_opens_and_closes_witness:
  "\<exists>h1 h2. reconcile_maintenance_flag (sched_env 30) [maintenance_at 10] 30 demo_hub = Inr h1
     \<and> is_maintenance_mode_active h1
     \<and> reconcile_maintenance_flag (sched_env 30) [maintenance_at 10] (secs 7200) h1 = Inr h2
     \<and> \<not> is_maintenance_mode_active h2"
  by (rule scheduled_window_opens_and_closes [of _ _ 10]) code_simp+

end
