(* ===== verification/Sync.thy ===== *)
theory Sync
  imports Models
begin

text \<open>
  Multi-hub synchronisation (\<open>app/services/sync.py\<close>, \<open>sync_emission.py\<close>, \<open>sync_replicator.py\<close> and
  \<open>sites.resolve_default_site_id\<close>). The code reads and writes the four syncable tables through
  column reflection, so a row here maps its columns to their values; datetimes are
  instants, everything else is the JSON value. What a peer sends is untrusted: an event is applied
  under the organization it claims, last writer wins on \<open>updated_at\<close>, deletes leave tombstones.

  Outside the repository: the schema's constraints (\<open>se_integrity\<close>, false when a flush raises
  \<open>IntegrityError\<close>), the columns' defaults (\<open>se_defaults\<close>) and the clock and parser of \<open>env\<close>;
  \<open>se_enforcing\<close> is the tenant enforcement mode during the call, whose effect on SELECTs and flushes is
  the one shown in \<open>TenantScope\<close>.
\<close>

section \<open>Rows\<close>

datatype colval = Json pyval | Stamp instant

text \<open>A stored row has a value in every column; what arrives is a dict of some of them.\<close>

type_synonym row = "string \<Rightarrow> colval"

type_synonym cols = "(string \<times> colval) list"

definition cget :: "cols \<Rightarrow> string \<Rightarrow> colval" where
  "cget inc k = (case map_of inc k of None \<Rightarrow> Json VNone | Some v \<Rightarrow> v)"

definition row_of :: "cols \<Rightarrow> row" where
  "row_of cs = cget cs"

abbreviation text_col :: "string \<Rightarrow> colval" where
  "text_col s \<equiv> Json (VStr s)"

definition cset :: "string \<Rightarrow> colval \<Rightarrow> cols \<Rightarrow> cols" where
  "cset k v inc = AList.update k v inc"

definition SYNCABLE :: "string list" where
  "SYNCABLE = [''device'', ''site'', ''group'', ''user'']"

definition COLUMNS :: "string \<Rightarrow> string list" where
  "COLUMNS et =
     (if et = ''device'' then [''id'', ''display_name'', ''hardware_model'', ''hardware_revision'',
        ''firmware_version'', ''mac_address'', ''serial_number'', ''local_ip'', ''notes'', ''site_id'',
        ''central_management_enabled'', ''registration_state'', ''capabilities'', ''last_heartbeat_at'',
        ''last_seen_at'', ''is_qa_fixture'', ''is_protected'', ''is_held_off'', ''power_source_device_id'',
        ''last_known_relay_on'', ''desired_config'', ''desired_mode'', ''last_reported_config'',
        ''desired_config_updated_at'', ''last_config_pushed_at'', ''reported_recovery_mode'',
        ''reported_auto_recovery_triggered'', ''reported_last_known_good_restored'',
        ''reported_consecutive_unhealthy_boots'', ''reported_in_captive_portal'',
        ''reported_central_enabled'', ''reported_central_registered'', ''reported_central_state'',
        ''last_wifi_scan'', ''last_wifi_scan_at'', ''created_at'', ''updated_at'']
      else if et = ''site'' then [''organization_id'', ''id'', ''name'', ''description'', ''created_at'', ''updated_at'']
      else if et = ''group'' then [''organization_id'', ''id'', ''name'', ''description'', ''site_id'',
        ''created_at'', ''updated_at'']
      else if et = ''user'' then [''id'', ''email'', ''password_hash'', ''display_name'', ''is_active'', ''is_admin'',
        ''is_super_admin'', ''role'', ''tokens_valid_after'', ''created_at'', ''updated_at'', ''last_login_at'']
      else [])"

definition DATE_COLUMNS :: "string list" where
  "DATE_COLUMNS = [''last_heartbeat_at'', ''last_seen_at'', ''desired_config_updated_at'', ''last_config_pushed_at'',
     ''last_wifi_scan_at'', ''created_at'', ''updated_at'', ''tokens_valid_after'', ''last_login_at'']"

definition NATURAL_KEY :: "string \<Rightarrow> string option" where
  "NATURAL_KEY et = (if et = ''user'' then Some ''email''
                     else if et = ''site'' \<or> et = ''group'' then Some ''name'' else None)"

definition tenant_owned :: "string \<Rightarrow> bool" where
  "tenant_owned et \<longleftrightarrow> et = ''site'' \<or> et = ''group''"

section \<open>State\<close>

record outbox_event =
  ob_seq :: "int option"
  ob_at :: colval
  ob_event_type :: string
  ob_entity_type :: string
  ob_entity_id :: string
  ob_payload :: pydict
  ob_scope_claims :: "pydict option"
  ob_tombstone_for :: "string option"

record sync_cursor =
  sc_peer_hub_id :: string
  sc_last_seq :: int
  sc_updated_at :: instant
  sc_last_error :: "string option"
  sc_last_error_at :: "instant option"

record tombstone =
  tb_entity_id :: string
  tb_entity_type :: string
  tb_created_at :: instant
  tb_from_outbox_seq :: int

record sync_db =
  sy_tables :: "string \<Rightarrow> row list"
  sy_organizations :: "organization list"
  sy_outbox :: "outbox_event list"
  sy_cursors :: "sync_cursor list"
  sy_tombstones :: "tombstone list"
  sy_ulid :: nat

record sync_env =
  se_env :: env
  se_defaults :: "string \<Rightarrow> row"
  se_integrity :: "(string \<Rightarrow> row list) \<Rightarrow> bool"
  se_enforcing :: bool

datatype sync_error =
    UnknownOrgError string string string
  | SyncCrossOrgWrite
  | NotADatetime
  | NoDefaultOrganization
  | IntegrityError

text \<open>A scope is the organization of \<open>org_context\<close>, or none for \<open>system()\<close>.\<close>

definition seen_rows :: "sync_env \<Rightarrow> string option \<Rightarrow> string \<Rightarrow> sync_db \<Rightarrow> row list" where
  "seen_rows S scope et db =
     (case scope of
        Some org \<Rightarrow> (if se_enforcing S \<and> tenant_owned et
                     then filter (\<lambda>r. r ''organization_id'' = text_col org) (sy_tables db et)
                     else sy_tables db et)
      | None \<Rightarrow> sy_tables db et)"

definition find_row :: "sync_env \<Rightarrow> string option \<Rightarrow> string \<Rightarrow> string \<Rightarrow> colval \<Rightarrow> sync_db \<Rightarrow> row option" where
  "find_row S scope et k v db = find (\<lambda>r. r k = v) (seen_rows S scope et db)"

definition set_table :: "string \<Rightarrow> row list \<Rightarrow> sync_db \<Rightarrow> sync_db" where
  "set_table et rows db = db\<lparr>sy_tables := (sy_tables db)(et := rows)\<rparr>"

section \<open>Cursors, tombstones, outbox\<close>

definition get_sync_cursor :: "string \<Rightarrow> sync_db \<Rightarrow> int" where
  "get_sync_cursor peer db =
     (case tget sc_peer_hub_id peer (sy_cursors db) of None \<Rightarrow> 0 | Some c \<Rightarrow> sc_last_seq c)"

definition update_sync_cursor :: "env \<Rightarrow> string \<Rightarrow> int \<Rightarrow> string option \<Rightarrow> sync_db \<Rightarrow> sync_db" where
  "update_sync_cursor E peer last_seq err db =
     (let err_at = (case err of None \<Rightarrow> None | Some m \<Rightarrow> if m = [] then None else Some (env_now E)) in
      case tget sc_peer_hub_id peer (sy_cursors db) of
        Some _ \<Rightarrow> db\<lparr>sy_cursors := tupd sc_peer_hub_id peer
                     (\<lambda>c. c\<lparr>sc_last_seq := last_seq, sc_updated_at := env_now E, sc_last_error := err,
                             sc_last_error_at := err_at\<rparr>) (sy_cursors db)\<rparr>
      | None \<Rightarrow> db\<lparr>sy_cursors := tadd \<lparr>sc_peer_hub_id = peer, sc_last_seq = last_seq, sc_updated_at = env_now E,
                                      sc_last_error = err, sc_last_error_at = err_at\<rparr> (sy_cursors db)\<rparr>)"

definition is_tombstoned :: "string \<Rightarrow> sync_db \<Rightarrow> bool" where
  "is_tombstoned i db \<longleftrightarrow> tget tb_entity_id i (sy_tombstones db) \<noteq> None"

definition add_tombstone :: "env \<Rightarrow> string \<Rightarrow> string \<Rightarrow> int \<Rightarrow> sync_db \<Rightarrow> sync_db" where
  "add_tombstone E i et seq db =
     (if is_tombstoned i db then db
      else db\<lparr>sy_tombstones := tadd \<lparr>tb_entity_id = i, tb_entity_type = et, tb_created_at = env_now E,
                                    tb_from_outbox_seq = seq\<rparr> (sy_tombstones db)\<rparr>)"

definition fetch_outbox_events_since :: "int \<Rightarrow> nat \<Rightarrow> sync_db \<Rightarrow> outbox_event list" where
  "fetch_outbox_events_since since n db =
     take n (sort_key (\<lambda>e. the (ob_seq e)) (filter (\<lambda>e. case ob_seq e of None \<Rightarrow> False | Some q \<Rightarrow> since < q) (sy_outbox db)))"

text \<open>\<open>entity_to_dict\<close>: datetimes become ISO text.\<close>

definition to_json :: "env \<Rightarrow> colval \<Rightarrow> pyval" where
  "to_json E v = (case v of Json j \<Rightarrow> j | Stamp t \<Rightarrow> VStr (env_isoformat E t))"

definition entity_to_dict :: "env \<Rightarrow> string \<Rightarrow> row \<Rightarrow> pydict" where
  "entity_to_dict E et r = map (\<lambda>c. (c, to_json E (r c))) (COLUMNS et)"

definition snapshot_entity :: "sync_env \<Rightarrow> string option \<Rightarrow> string \<Rightarrow> string \<Rightarrow> sync_db \<Rightarrow> pydict option" where
  "snapshot_entity S scope et i db =
     (if et \<notin> set SYNCABLE then None
      else map_option (entity_to_dict (se_env S) et) (find_row S scope et ''id'' (text_col i) db))"

definition org_id_from_payload :: "sync_env \<Rightarrow> string option \<Rightarrow> string \<Rightarrow> pydict \<Rightarrow> sync_db \<Rightarrow> pyval" where
  "org_id_from_payload S scope et payload db =
     (if payload = [] then VNone
      else if et = ''site'' then dget payload ''organization_id''
      else if et = ''device'' \<or> et = ''group'' then
        (if \<not> truthy (dget payload ''site_id'') then VNone
         else case find_row S scope ''site'' ''id'' (Json (dget payload ''site_id'')) db of
           None \<Rightarrow> VNone
         | Some s \<Rightarrow> (case s ''organization_id'' of Json j \<Rightarrow> j | Stamp _ \<Rightarrow> VNone))
      else VNone)"

definition append_outbox :: "outbox_event \<Rightarrow> sync_db \<Rightarrow> sync_db" where
  "append_outbox e db = db\<lparr>sy_outbox := sy_outbox db @ [e\<lparr>ob_seq := Some (int (length (sy_outbox db)) + 1)\<rparr>]\<rparr>"

definition emit_outbox_event ::
  "sync_env \<Rightarrow> string option \<Rightarrow> string \<Rightarrow> string \<Rightarrow> string \<Rightarrow> pydict \<Rightarrow> string option \<Rightarrow> pydict option \<Rightarrow>
   sync_db \<Rightarrow> sync_db" where
  "emit_outbox_event S scope event_type et i payload tomb claims0 db =
     (let claims = dict_or_empty claims0;
          derived = org_id_from_payload S scope et payload db;
          claims = (if \<not> dhas claims ''organization_id'' \<and> derived \<noteq> VNone
                    then dset claims ''organization_id'' derived else claims)
      in append_outbox \<lparr>ob_seq = None, ob_at = Stamp (env_now (se_env S)), ob_event_type = event_type,
           ob_entity_type = et, ob_entity_id = i, ob_payload = payload,
           ob_scope_claims = (if claims = [] then None else Some claims), ob_tombstone_for = tomb\<rparr> db)"

section \<open>Applying a peer's event\<close>

fun replace_z :: "string \<Rightarrow> string" where
  "replace_z [] = []"
| "replace_z (c # cs) = (if c = CHR ''Z'' then ''+00:00'' else [c]) @ replace_z cs"

definition coerce_datetime :: "env \<Rightarrow> colval \<Rightarrow> colval" where
  "coerce_datetime E v =
     (case v of
        Json (VStr s) \<Rightarrow> (case env_fromiso E (replace_z s) of None \<Rightarrow> Json VNone | Some t \<Rightarrow> Stamp t)
      | _ \<Rightarrow> v)"

text \<open>\<open>_as_utc\<close>: \<open>None\<close> when the value has no \<open>tzinfo\<close> attribute.\<close>

definition as_utc :: "colval \<Rightarrow> instant option option" where
  "as_utc v = (case v of Stamp t \<Rightarrow> Some (Some t) | Json VNone \<Rightarrow> Some None | Json _ \<Rightarrow> None)"

fun col_truthy :: "colval \<Rightarrow> bool" where
  "col_truthy (Stamp _) = True"
| "col_truthy (Json v) = truthy v"

definition incoming_cols :: "env \<Rightarrow> string \<Rightarrow> pydict \<Rightarrow> cols" where
  "incoming_cols E et payload =
     map (\<lambda>c. (c, if c \<in> set DATE_COLUMNS then coerce_datetime E (Json (dget payload c)) else Json (dget payload c)))
       (filter (dhas payload) (COLUMNS et))"

definition event_org_id :: "outbox_event \<Rightarrow> string option" where
  "event_org_id ev =
     (case dget (dict_or_empty (ob_scope_claims ev)) ''organization_id'' of
        VStr s \<Rightarrow> (if s = [] then None else Some s) | _ \<Rightarrow> None)"

definition default_org_id :: "sync_db \<Rightarrow> string option" where
  "default_org_id db =
     (case find (\<lambda>g. org_slug g = ''default'') (sy_organizations db) of
        Some g \<Rightarrow> Some (org_id g)
      | None \<Rightarrow> (case sy_organizations db of [g] \<Rightarrow> Some (org_id g) | _ \<Rightarrow> None))"

definition default_site_row :: "env \<Rightarrow> string \<Rightarrow> colval \<Rightarrow> row" where
  "default_site_row E org i = row_of [(''organization_id'', text_col org), (''id'', i), (''name'', text_col ''Default''),
     (''description'', Json VNone), (''created_at'', Stamp (env_now E)), (''updated_at'', Stamp (env_now E))]"

definition resolve_default_site_id ::
  "sync_env \<Rightarrow> string option \<Rightarrow> sync_db \<Rightarrow> sync_error + (colval \<times> sync_db)" where
  "resolve_default_site_id S scope db =
     (let sites = seen_rows S scope ''site'' db in
      case find (\<lambda>r. r ''name'' = text_col ''Default'') sites of
        Some r \<Rightarrow> Inr (r ''id'', db)
      | None \<Rightarrow>
          (case sites of
             [r] \<Rightarrow> Inr (r ''id'', db)
           | _ \<Rightarrow>
               (case default_org_id db of
                  None \<Rightarrow> Inl NoDefaultOrganization
                | Some org \<Rightarrow>
                    (if se_enforcing S \<and> scope \<noteq> None \<and> scope \<noteq> Some org then Inl SyncCrossOrgWrite
                     else
                       let i = text_col (new_id (env_ulid (se_env S)) ''site'' (sy_ulid db));
                           r = default_site_row (se_env S) org i
                       in Inr (i, (set_table ''site'' (sy_tables db ''site'' @ [r]) db)\<lparr>sy_ulid := Suc (sy_ulid db)\<rparr>)))))"

text \<open>The columns to write: reflected from the payload, the organization pinned to the claim, an unknown
  site replaced by the local default.\<close>

definition pin_org :: "string option \<Rightarrow> string \<Rightarrow> cols \<Rightarrow> cols" where
  "pin_org scope et inc =
     (case scope of
        Some org \<Rightarrow> (if tenant_owned et then cset ''organization_id'' (text_col org) inc else inc)
      | None \<Rightarrow> inc)"

definition remap_site ::
  "sync_env \<Rightarrow> string option \<Rightarrow> string \<Rightarrow> cols \<Rightarrow> sync_db \<Rightarrow> sync_error + (cols \<times> sync_db)" where
  "remap_site S scope et inc db =
     (if (et = ''device'' \<or> et = ''group'') \<and> col_truthy (cget inc ''site_id'')
         \<and> find_row S scope ''site'' ''id'' (cget inc ''site_id'') db = None
      then case resolve_default_site_id S scope db of
             Inl e \<Rightarrow> Inl e
           | Inr (i, db') \<Rightarrow> Inr (cset ''site_id'' i inc, db')
      else Inr (inc, db))"

definition incoming_updated :: "env \<Rightarrow> outbox_event \<Rightarrow> instant option option" where
  "incoming_updated E ev =
     (let u = coerce_datetime E (Json (dget (ob_payload ev) ''updated_at''))
      in as_utc (if col_truthy u then u else coerce_datetime E (ob_at ev)))"

definition find_existing ::
  "sync_env \<Rightarrow> string option \<Rightarrow> outbox_event \<Rightarrow> cols \<Rightarrow> sync_db \<Rightarrow> row option" where
  "find_existing S scope ev inc db =
     (let et = ob_entity_type ev in
      case find_row S scope et ''id'' (text_col (ob_entity_id ev)) db of
        Some r \<Rightarrow> Some r
      | None \<Rightarrow>
          (case NATURAL_KEY et of
             None \<Rightarrow> None
           | Some k \<Rightarrow> (if cget inc k = Json VNone then None else find_row S scope et k (cget inc k) db)))"

definition merge_row :: "cols \<Rightarrow> row \<Rightarrow> row" where
  "merge_row inc r = fold (\<lambda>(k, v) acc. if k = ''id'' then acc else acc(k := v)) inc r"

definition replace_row :: "string \<Rightarrow> row \<Rightarrow> row \<Rightarrow> sync_db \<Rightarrow> sync_db" where
  "replace_row et r r' db =
     set_table et (map (\<lambda>q. if q ''id'' = r ''id'' then r' else q) (sy_tables db et)) db"

definition insert_row :: "sync_env \<Rightarrow> outbox_event \<Rightarrow> cols \<Rightarrow> sync_db \<Rightarrow> sync_db" where
  "insert_row S ev inc db =
     (let et = ob_entity_type ev;
          inc1 = (if map_of inc ''id'' = None then inc @ [(''id'', text_col (ob_entity_id ev))] else inc);
          r = (\<lambda>k. case map_of inc1 k of Some v \<Rightarrow> v | None \<Rightarrow> se_defaults S et k)
      in set_table et (sy_tables db et @ [r]) db)"

definition stale :: "instant option \<Rightarrow> instant option \<Rightarrow> bool" where
  "stale incoming local \<longleftrightarrow>
     (case (incoming, local) of (Some i, Some l) \<Rightarrow> i \<le> l | _ \<Rightarrow> False)"

definition upsert ::
  "sync_env \<Rightarrow> string option \<Rightarrow> outbox_event \<Rightarrow> cols \<Rightarrow> sync_db \<Rightarrow> sync_error + (bool \<times> sync_db)" where
  "upsert S scope ev inc db =
     (case incoming_updated (se_env S) ev of
        None \<Rightarrow> Inl NotADatetime
      | Some inc_at \<Rightarrow>
          (case find_existing S scope ev inc db of
             None \<Rightarrow> Inr (True, insert_row S ev inc db)
           | Some r \<Rightarrow>
               (case as_utc (r ''updated_at'') of
                  None \<Rightarrow> Inl NotADatetime
                | Some loc_at \<Rightarrow>
                    (if stale inc_at loc_at then Inr (False, db)
                     else Inr (True, replace_row (ob_entity_type ev) r (merge_row inc r) db)))))"

definition delete_entity :: "sync_env \<Rightarrow> string option \<Rightarrow> outbox_event \<Rightarrow> string \<Rightarrow> sync_db \<Rightarrow> sync_db" where
  "delete_entity S scope ev i db =
     (let et = ob_entity_type ev;
          seq = (case ob_seq ev of None \<Rightarrow> 0 | Some q \<Rightarrow> q);
          db1 = add_tombstone (se_env S) i et seq db
      in case find_row S scope et ''id'' (text_col i) db1 of
           None \<Rightarrow> db1
         | Some _ \<Rightarrow> set_table et (filter (\<lambda>r. r ''id'' \<noteq> text_col i) (sy_tables db1 et)) db1)"

definition apply_core ::
  "sync_env \<Rightarrow> string option \<Rightarrow> outbox_event \<Rightarrow> sync_db \<Rightarrow> sync_error + (bool \<times> sync_db)" where
  "apply_core S scope ev db =
     (if is_tombstoned (ob_entity_id ev) db then Inr (False, db)
      else if ob_entity_type ev \<notin> set SYNCABLE then Inr (False, db)
      else case ob_tombstone_for ev of
        Some (c # i) \<Rightarrow> Inr (True, delete_entity S scope ev (c # i) db)
      | _ \<Rightarrow>
          (let inc0 = incoming_cols (se_env S) (ob_entity_type ev) (ob_payload ev) in
           if inc0 = [] then Inr (False, db)
           else case remap_site S scope (ob_entity_type ev) (pin_org scope (ob_entity_type ev) inc0) db of
             Inl e \<Rightarrow> Inl e
           | Inr (inc, db1) \<Rightarrow> upsert S scope ev inc db1))"

text \<open>The transaction: an error or a refused flush leaves the database as it was.\<close>

definition apply_outbox_event :: "sync_env \<Rightarrow> outbox_event \<Rightarrow> sync_db \<Rightarrow> sync_error + (bool \<times> sync_db)" where
  "apply_outbox_event S ev db =
     (let scope = event_org_id ev in
      if scope \<noteq> None \<and> tget org_id (the scope) (sy_organizations db) = None
      then Inl (UnknownOrgError (the scope) (ob_entity_type ev) (ob_entity_id ev))
      else case apply_core S scope ev db of
        Inl e \<Rightarrow> Inl e
      | Inr (b, db') \<Rightarrow> (if se_integrity S (sy_tables db') then Inr (b, db') else Inl IntegrityError))"

section \<open>Emission hooks\<close>

definition NON_EMITTING :: "string \<Rightarrow> string list" where
  "NON_EMITTING et =
     (if et = ''device'' then [''updated_at'', ''last_heartbeat_at'', ''firmware_version'', ''local_ip'',
        ''last_reported_config'', ''reported_recovery_mode'', ''reported_auto_recovery_triggered'',
        ''reported_last_known_good_restored'', ''reported_consecutive_unhealthy_boots'',
        ''reported_in_captive_portal'', ''reported_central_enabled'', ''reported_central_registered'',
        ''reported_central_state'']
      else if et = ''user'' then [''updated_at'', ''last_login_at'']
      else [''updated_at''])"

text \<open>The lookup runs on the connection, below the tenant filter.\<close>

definition scope_claims_for :: "string \<Rightarrow> pydict \<Rightarrow> sync_db \<Rightarrow> pydict option" where
  "scope_claims_for et payload db =
     (let org = (if et = ''site'' then dget payload ''organization_id''
                 else if (et = ''device'' \<or> et = ''group'') \<and> truthy (dget payload ''site_id'')
                 then (case find (\<lambda>r. r ''id'' = Json (dget payload ''site_id'')) (sy_tables db ''site'') of
                         None \<Rightarrow> VNone
                       | Some s \<Rightarrow> (case s ''organization_id'' of Json j \<Rightarrow> j | Stamp _ \<Rightarrow> VNone))
                 else VNone)
      in if truthy org then Some [(''organization_id'', org)] else None)"

definition emit_row :: "env \<Rightarrow> string \<Rightarrow> string \<Rightarrow> string \<Rightarrow> pydict \<Rightarrow> string option \<Rightarrow> sync_db \<Rightarrow> sync_db" where
  "emit_row E et i verb payload tomb db =
     append_outbox \<lparr>ob_seq = None, ob_at = Stamp (env_now E), ob_event_type = et @ ''.'' @ verb,
       ob_entity_type = et, ob_entity_id = i, ob_payload = payload,
       ob_scope_claims = scope_claims_for et payload db, ob_tombstone_for = tomb\<rparr> db"

definition after_insert :: "env \<Rightarrow> bool \<Rightarrow> string \<Rightarrow> string \<Rightarrow> row \<Rightarrow> sync_db \<Rightarrow> sync_db" where
  "after_insert E suppressed et i r db =
     (if suppressed then db else emit_row E et i ''created'' (entity_to_dict E et r) None db)"

definition after_update :: "env \<Rightarrow> bool \<Rightarrow> string \<Rightarrow> string \<Rightarrow> row \<Rightarrow> row \<Rightarrow> sync_db \<Rightarrow> sync_db" where
  "after_update E suppressed et i old r db =
     (if suppressed then db
      else if list_ex (\<lambda>c. c \<notin> set (NON_EMITTING et) \<and> old c \<noteq> r c) (COLUMNS et)
      then emit_row E et i ''updated'' (entity_to_dict E et r) None db else db)"

definition after_delete :: "env \<Rightarrow> bool \<Rightarrow> string \<Rightarrow> string \<Rightarrow> sync_db \<Rightarrow> sync_db" where
  "after_delete E suppressed et i db =
     (if suppressed then db else emit_row E et i ''deleted'' [(''deleted'', VBool True)] (Some i) db)"

section \<open>The replicator\<close>

text \<open>An event as received: its sequence number and the parsed event, or \<open>None\<close> when a required key was
  missing. \<open>err_text\<close> renders the exception.\<close>

record batch_stats =
  bs_applied :: nat
  bs_skipped :: nat
  bs_errors :: nat

record batch_state =
  bt_stats :: batch_stats
  bt_last_seq :: "int option"
  bt_last_error :: "string option"

definition batch_step ::
  "sync_env \<Rightarrow> (int option \<Rightarrow> sync_error option \<Rightarrow> string) \<Rightarrow> int option \<times> outbox_event option \<Rightarrow>
   batch_state \<times> sync_db \<Rightarrow> batch_state \<times> sync_db" where
  "batch_step S err_text d bd =
     (let (b, db) = bd; (seq, evo) = d; st = bt_stats b;
          (st', err, db') =
            (case evo of
               None \<Rightarrow> (st\<lparr>bs_errors := Suc (bs_errors st)\<rparr>, Some (err_text seq None), db)
             | Some ev \<Rightarrow>
                 (case apply_outbox_event S ev db of
                    Inl e \<Rightarrow> (st\<lparr>bs_errors := Suc (bs_errors st)\<rparr>, Some (err_text seq (Some e)), db)
                  | Inr (True, db1) \<Rightarrow> (st\<lparr>bs_applied := Suc (bs_applied st)\<rparr>, bt_last_error b, db1)
                  | Inr (False, db1) \<Rightarrow> (st\<lparr>bs_skipped := Suc (bs_skipped st)\<rparr>, bt_last_error b, db1)))
      in (\<lparr>bt_stats = st', bt_last_seq = (if seq = None then bt_last_seq b else seq), bt_last_error = err\<rparr>, db'))"

definition apply_event_batch ::
  "sync_env \<Rightarrow> (int option \<Rightarrow> sync_error option \<Rightarrow> string) \<Rightarrow> string \<Rightarrow>
   (int option \<times> outbox_event option) list \<Rightarrow> sync_db \<Rightarrow> batch_stats \<times> sync_db" where
  "apply_event_batch S err_text peer ds db =
     (let (b, db') = fold (batch_step S err_text) ds
            (\<lparr>bt_stats = \<lparr>bs_applied = 0, bs_skipped = 0, bs_errors = 0\<rparr>, bt_last_seq = None, bt_last_error = None\<rparr>, db)
      in (bt_stats b,
          case bt_last_seq b of
            None \<Rightarrow> db'
          | Some q \<Rightarrow> update_sync_cursor (se_env S) peer q (bt_last_error b) db'))"

text \<open>One tick over the configured peers; \<open>fetch\<close> is the HTTP call, which never raises.\<close>

record repl_stats =
  rp_polled :: nat
  rp_applied :: nat
  rp_errors :: nat

definition poll_peer ::
  "sync_env \<Rightarrow> (int option \<Rightarrow> sync_error option \<Rightarrow> string) \<Rightarrow>
   (string \<Rightarrow> int \<Rightarrow> (int option \<times> outbox_event option) list) \<Rightarrow> string \<times> string \<Rightarrow>
   repl_stats \<times> sync_db \<Rightarrow> repl_stats \<times> sync_db" where
  "poll_peer S err_text fetch peer sd =
     (let (st, db) = sd; (i, url) = peer in
      if i = [] \<or> url = [] then (st\<lparr>rp_errors := Suc (rp_errors st)\<rparr>, db)
      else
        let ds = fetch url (get_sync_cursor i db);
            (bs, db1) = (if ds = [] then (\<lparr>bs_applied = 0, bs_skipped = 0, bs_errors = 0\<rparr>, db)
                         else apply_event_batch S err_text i ds db)
        in (st\<lparr>rp_polled := Suc (rp_polled st), rp_applied := rp_applied st + bs_applied bs,
                rp_errors := rp_errors st + bs_errors bs\<rparr>, db1))"

definition replicator_tick ::
  "sync_env \<Rightarrow> (int option \<Rightarrow> sync_error option \<Rightarrow> string) \<Rightarrow>
   (string \<Rightarrow> int \<Rightarrow> (int option \<times> outbox_event option) list) \<Rightarrow> bool \<Rightarrow> (string \<times> string) list \<Rightarrow>
   sync_db \<Rightarrow> repl_stats \<times> sync_db" where
  "replicator_tick S err_text fetch enabled peers db =
     (let zero = \<lparr>rp_polled = 0, rp_applied = 0, rp_errors = 0\<rparr> in
      if \<not> enabled then (zero, db) else fold (poll_peer S err_text fetch) peers (zero, db))"

end
