(* ===== verification/SyncProps.thy ===== *)
theory SyncProps
  imports Sync
begin

text \<open>
  What synchronisation guarantees: tombstones are permanent and nothing is re-emitted, last-writer-wins
  is independent of the order of arrival, a batch always makes progress; and three ways in which it
  does not do what it means to.
\<close>

section \<open>Frame facts\<close>

lemma set_table_simps [simp]:
  "sy_tables (set_table et rows db) = (sy_tables db)(et := rows)"
  "sy_outbox (set_table et rows db) = sy_outbox db"
  "sy_tombstones (set_table et rows db) = sy_tombstones db"
  "sy_cursors (set_table et rows db) = sy_cursors db"
  "sy_organizations (set_table et rows db) = sy_organizations db"
  "sy_ulid (set_table et rows db) = sy_ulid db"
  by (simp_all add: set_table_def)

lemma add_tombstone_simps [simp]:
  "sy_tables (add_tombstone E i et q db) = sy_tables db"
  "sy_outbox (add_tombstone E i et q db) = sy_outbox db"
  "sy_cursors (add_tombstone E i et q db) = sy_cursors db"
  by (simp_all add: add_tombstone_def)

lemma seen_rows_tables: "sy_tables db' et = sy_tables db et \<Longrightarrow> seen_rows S sc et db' = seen_rows S sc et db"
  by (auto simp: seen_rows_def split: option.splits)

lemma seen_rows_subset: "set (seen_rows S sc et db) \<subseteq> set (sy_tables db et)"
  by (auto simp: seen_rows_def split: option.splits)

lemma find_row_SomeD:
  assumes "find_row S sc et k v db = Some r"
  shows "r \<in> set (sy_tables db et)" and "r k = v"
  using assms seen_rows_subset [of S sc et db] by (auto simp: find_row_def find_Some_iff)

lemma merge_row_id [simp]: "merge_row inc r ''id'' = r ''id''"
  unfolding merge_row_def by (induction inc arbitrary: r) (auto split: prod.splits)

lemma merge_row_other:
  "distinct (map fst inc) \<Longrightarrow> k \<noteq> ''id'' \<Longrightarrow>
     merge_row inc r k = (case map_of inc k of None \<Rightarrow> r k | Some v \<Rightarrow> v)"
proof (induction inc arbitrary: r)
  case Nil
  show ?case by (simp add: merge_row_def)
next
  case (Cons kv inc)
  obtain j v where kv: "kv = (j, v)" by (cases kv)
  have step: "merge_row ((j, v) # inc) r = merge_row inc (if j = ''id'' then r else r(j := v))"
    by (simp add: merge_row_def)
  have "map_of inc k = None" if "j = k"
    using Cons.prems(1) that by (auto simp: kv map_of_eq_None_iff)
  then show ?case using Cons unfolding kv step by (auto split: option.splits)
qed

lemma resolve_outcome:
  assumes "resolve_default_site_id S sc db = Inr (i, db')"
  shows "sy_outbox db' = sy_outbox db \<and> sy_tombstones db' = sy_tombstones db
       \<and> sy_organizations db' = sy_organizations db \<and> sy_cursors db' = sy_cursors db
       \<and> (db' = db \<or> (\<exists>r. r ''id'' = text_col (new_id (env_ulid (se_env S)) ''site'' (sy_ulid db))
              \<and> sy_tables db' = (sy_tables db)(''site'' := sy_tables db ''site'' @ [r])))"
proof (cases "db' = db")
  case False
  let ?i = "text_col (new_id (env_ulid (se_env S)) ''site'' (sy_ulid db))"
  from False obtain org where "db' = (set_table ''site'' (sy_tables db ''site'' @ [default_site_row (se_env S) org ?i]) db)
      \<lparr>sy_ulid := Suc (sy_ulid db)\<rparr>"
    using assms
    by (auto simp: resolve_default_site_id_def Let_def split: option.splits list.splits if_splits)
  moreover have "default_site_row (se_env S) org ?i ''id'' = ?i"
    by (simp add: default_site_row_def row_of_def cget_def)
  ultimately show ?thesis by auto
qed simp

lemma remap_site_outcome:
  assumes "remap_site S sc et inc db = Inr (inc', db')"
  shows "sy_outbox db' = sy_outbox db \<and> sy_tombstones db' = sy_tombstones db
       \<and> sy_organizations db' = sy_organizations db \<and> sy_cursors db' = sy_cursors db \<and> map_of inc' ''id'' = map_of inc ''id''
       \<and> (db' = db \<or> (\<exists>r. r ''id'' = text_col (new_id (env_ulid (se_env S)) ''site'' (sy_ulid db))
              \<and> sy_tables db' = (sy_tables db)(''site'' := sy_tables db ''site'' @ [r])))"
proof (cases "inc' = inc \<and> db' = db")
  case False
  then obtain i where "resolve_default_site_id S sc db = Inr (i, db')" and "inc' = cset ''site_id'' i inc"
    using assms by (auto simp: remap_site_def split: if_splits sum.splits)
  from resolve_outcome [OF this(1)] this(2) show ?thesis by (simp add: cset_def update_conv')
qed simp

lemma upsert_outcome:
  assumes "upsert S sc ev inc db = Inr (b, db')"
  shows "(\<not> b \<and> db' = db)
       \<or> (b \<and> db' = insert_row S ev inc db \<and> find_existing S sc ev inc db = None)
       \<or> (\<exists>r. b \<and> db' = replace_row (ob_entity_type ev) r (merge_row inc r) db \<and> find_existing S sc ev inc db = Some r)"
  using assms by (auto simp: upsert_def split: option.splits if_splits)

text \<open>What one successful application did.\<close>

lemma apply_cases:
  assumes "apply_outbox_event S ev db = Inr (b, db')"
  obtains (skipped) "\<not> b" and "sy_tables db' = sy_tables db" and "sy_tombstones db' = sy_tombstones db"
      and "sy_outbox db' = sy_outbox db" and "sy_cursors db' = sy_cursors db"
  | (remapped) db1 inc where "remap_site S (event_org_id ev) (ob_entity_type ev)
        (pin_org (event_org_id ev) (ob_entity_type ev)
           (incoming_cols (se_env S) (ob_entity_type ev) (ob_payload ev))) db = Inr (inc, db1)"
      and "upsert S (event_org_id ev) ev inc db1 = Inr (b, db')" and "\<not> is_tombstoned (ob_entity_id ev) db"
      and "ob_entity_type ev \<in> set SYNCABLE"
  | (deleted) i where "b" and "db' = delete_entity S (event_org_id ev) ev i db" and "ob_tombstone_for ev = Some i"
      and "\<not> is_tombstoned (ob_entity_id ev) db"
  using assms
  by (auto simp: apply_outbox_event_def apply_core_def Let_def split: if_splits sum.splits option.splits list.splits)

lemma replace_row_simps [simp]:
  "sy_outbox (replace_row et r r' db) = sy_outbox db" "sy_tombstones (replace_row et r r' db) = sy_tombstones db"
  "sy_organizations (replace_row et r r' db) = sy_organizations db" "sy_cursors (replace_row et r r' db) = sy_cursors db"
  by (simp_all add: replace_row_def)

lemma insert_row_simps [simp]:
  "sy_outbox (insert_row S ev inc db) = sy_outbox db" "sy_tombstones (insert_row S ev inc db) = sy_tombstones db"
  "sy_cursors (insert_row S ev inc db) = sy_cursors db"
  by (simp_all add: insert_row_def Let_def)

lemma delete_entity_simps [simp]:
  "sy_outbox (delete_entity S sc ev i db) = sy_outbox db" "sy_cursors (delete_entity S sc ev i db) = sy_cursors db"
  by (simp_all add: delete_entity_def Let_def split: option.splits)

lemma apply_outbox_unchanged:
  assumes "apply_outbox_event S ev db = Inr (b, db')"
  shows "sy_outbox db' = sy_outbox db \<and> sy_cursors db' = sy_cursors db"
  using assms
proof (cases rule: apply_cases)
  case (remapped db1 inc)
  then show ?thesis using remap_site_outcome [OF remapped(1)] upsert_outcome [OF remapped(2)] by auto
qed simp_all

section \<open>Tombstones\<close>

definition deleted_stay :: "sync_db \<Rightarrow> bool" where
  "deleted_stay db \<longleftrightarrow>
     (\<forall>t \<in> set (sy_tombstones db). \<forall>r \<in> set (sy_tables db (tb_entity_type t)). r ''id'' \<noteq> text_col (tb_entity_id t))"

lemma tombstoned_iff: "is_tombstoned i db \<longleftrightarrow> (\<exists>t \<in> set (sy_tombstones db). tb_entity_id t = i)"
  unfolding is_tombstoned_def tget_None_iff by (auto simp: image_iff)

lemma add_tombstone_tombstoned: "is_tombstoned j (add_tombstone E i et q db) \<longleftrightarrow> j = i \<or> is_tombstoned j db"
  by (auto simp: tombstoned_iff add_tombstone_def)

lemma delete_entity_tombstones: "is_tombstoned j (delete_entity S sc ev i db) \<longleftrightarrow> j = i \<or> is_tombstoned j db"
  using add_tombstone_tombstoned [of j "se_env S" i "ob_entity_type ev" _ db]
  by (auto simp: delete_entity_def Let_def is_tombstoned_def split: option.splits)

lemma apply_keeps_tombstones:
  assumes "apply_outbox_event S ev db = Inr (b, db')" and "is_tombstoned j db"
  shows "is_tombstoned j db'"
  using assms(1)
proof (cases rule: apply_cases)
  case (remapped db1 inc)
  then have "sy_tombstones db' = sy_tombstones db"
    using remap_site_outcome [OF remapped(1)] upsert_outcome [OF remapped(2)] by auto
  then show ?thesis using assms(2) by (simp add: is_tombstoned_def)
qed (use assms(2) in \<open>simp_all add: delete_entity_tombstones tombstoned_iff [of j db] tombstoned_iff [of j db']\<close>)

text \<open>What the emission hooks of a peer send: the payload's id is the entity's id, and a delete names the
  entity itself and carries no organization claim.\<close>

definition well_formed :: "outbox_event \<Rightarrow> bool" where
  "well_formed ev \<longleftrightarrow>
     (dhas (ob_payload ev) ''id'' \<longrightarrow> dget (ob_payload ev) ''id'' = VStr (ob_entity_id ev)) \<and>
     (\<forall>i. ob_tombstone_for ev = Some i \<longrightarrow> i = ob_entity_id ev \<and> event_org_id ev = None)"

lemma incoming_distinct: "distinct (map fst (incoming_cols E et p))"
proof -
  have "distinct (COLUMNS et)" by (simp add: COLUMNS_def)
  then show ?thesis by (simp add: incoming_cols_def comp_def)
qed

lemma incoming_id:
  "map_of (incoming_cols E et p) ''id'' = (if dhas p ''id'' \<and> ''id'' \<in> set (COLUMNS et) then Some (Json (dget p ''id'')) else None)"
proof -
  have "map_of (map (\<lambda>c. (c, f c)) cs) k = (if k \<in> set cs then Some (f k) else None)"
    for cs and f :: "string \<Rightarrow> colval" and k
    by (induction cs) auto
  moreover have "''id'' \<notin> set DATE_COLUMNS" by (simp add: DATE_COLUMNS_def)
  ultimately show ?thesis by (simp add: incoming_cols_def)
qed

lemma pin_org_id [simp]: "map_of (pin_org sc et inc) ''id'' = map_of inc ''id''"
  by (simp add: pin_org_def cset_def update_conv' split: option.splits)

lemma insert_row_tables:
  assumes "map_of inc ''id'' \<in> {None, Some (text_col (ob_entity_id ev))}"
  obtains r where "sy_tables (insert_row S ev inc db)
      = (sy_tables db)(ob_entity_type ev := sy_tables db (ob_entity_type ev) @ [r])"
    and "r ''id'' = text_col (ob_entity_id ev)"
  by (rule that [of "\<lambda>k. case map_of (if map_of inc ''id'' = None
        then inc @ [(''id'', text_col (ob_entity_id ev))] else inc) k of
          Some v \<Rightarrow> v | None \<Rightarrow> se_defaults S (ob_entity_type ev) k"])
    (use assms in \<open>auto simp: insert_row_def Let_def map_add_def\<close>)

lemma deleted_stay_insert:
  assumes "deleted_stay db" and "\<not> is_tombstoned i db" and "r ''id'' = text_col i"
    and "sy_tables db' = (sy_tables db)(et := sy_tables db et @ [r])" and "sy_tombstones db' = sy_tombstones db"
  shows "deleted_stay db'"
  using assms by (auto simp: deleted_stay_def tombstoned_iff)

lemma deleted_stay_replace:
  assumes "deleted_stay db" and "r' ''id'' = r ''id''" and "r \<in> set (sy_tables db et)"
  shows "deleted_stay (replace_row et r r' db)"
  using assms by (auto simp: deleted_stay_def replace_row_def)

lemma deleted_stay_delete:
  assumes "deleted_stay db"
  shows "deleted_stay (delete_entity S None ev i db)"
proof -
  let ?et = "ob_entity_type ev"
  let ?q = "case ob_seq ev of None \<Rightarrow> 0 | Some q \<Rightarrow> q"
  let ?db = "add_tombstone (se_env S) i ?et ?q db"
  have tb: "t \<in> set (sy_tombstones db) \<or> (tb_entity_id t = i \<and> tb_entity_type t = ?et)"
    if "t \<in> set (sy_tombstones ?db)" for t
    using that by (auto simp: add_tombstone_def split: if_splits)
  show ?thesis
  proof (cases "find_row S None ?et ''id'' (text_col i) ?db")
    case None
    then have "\<forall>r \<in> set (sy_tables db ?et). r ''id'' \<noteq> text_col i"
      by (auto simp: find_row_def seen_rows_def find_None_iff)
    then show ?thesis using assms tb None by (fastforce simp: deleted_stay_def delete_entity_def Let_def)
  next
    case (Some r)
    then show ?thesis using assms tb by (fastforce simp: deleted_stay_def delete_entity_def Let_def)
  qed
qed

lemma apply_deleted_stay:
  assumes ok: "deleted_stay db" and wf: "well_formed ev"
    and fresh: "\<not> is_tombstoned (new_id (env_ulid (se_env S)) ''site'' (sy_ulid db)) db"
    and ap: "apply_outbox_event S ev db = Inr (b, db')"
  shows "deleted_stay db'"
  using ap
proof (cases rule: apply_cases)
  case skipped
  then show ?thesis using ok by (simp add: deleted_stay_def)
next
  case (deleted i)
  then show ?thesis using deleted_stay_delete [OF ok] wf by (simp add: well_formed_def)
next
  case (remapped db1 inc)
  note rm = remap_site_outcome [OF remapped(1)]
  have ok1: "deleted_stay db1"
    using rm ok deleted_stay_insert [OF ok fresh, of _ db1 "''site''"] by auto
  have nt: "\<not> is_tombstoned (ob_entity_id ev) db1" using remapped(3) rm by (simp add: tombstoned_iff)
  have id: "map_of inc ''id'' \<in> {None, Some (text_col (ob_entity_id ev))}"
    using rm wf by (auto simp: incoming_id well_formed_def)
  from upsert_outcome [OF remapped(2)] show ?thesis
  proof (elim disjE exE conjE)
    assume "db' = db1"
    then show ?thesis using ok1 by simp
  next
    assume d: "db' = insert_row S ev inc db1"
    obtain r where t: "sy_tables (insert_row S ev inc db1)
        = (sy_tables db1)(ob_entity_type ev := sy_tables db1 (ob_entity_type ev) @ [r])"
      and r: "r ''id'' = text_col (ob_entity_id ev)"
      by (rule insert_row_tables [OF id])
    show ?thesis unfolding d by (rule deleted_stay_insert [OF ok1 nt r t]) simp
  next
    fix r
    assume d: "db' = replace_row (ob_entity_type ev) r (merge_row inc r) db1"
      and "find_existing S (event_org_id ev) ev inc db1 = Some r"
    then have "r \<in> set (sy_tables db1 (ob_entity_type ev))"
      by (auto simp: find_existing_def Let_def split: option.splits if_splits dest: find_row_SomeD)
    then show ?thesis unfolding d by (intro deleted_stay_replace ok1) simp_all
  qed
qed

section \<open>Last writer wins\<close>

text \<open>Applying a sequence of events, each in its own transaction.\<close>

definition deliver :: "sync_env \<Rightarrow> outbox_event \<Rightarrow> sync_db \<Rightarrow> sync_db" where
  "deliver S ev db = (case apply_outbox_event S ev db of Inl _ \<Rightarrow> db | Inr (_, db') \<Rightarrow> db')"

text \<open>The columns an event writes, and the time it wins with.\<close>

definition inc_of :: "sync_env \<Rightarrow> outbox_event \<Rightarrow> cols" where
  "inc_of S ev = pin_org (event_org_id ev) (ob_entity_type ev)
     (incoming_cols (se_env S) (ob_entity_type ev) (ob_payload ev))"

definition ev_time :: "sync_env \<Rightarrow> outbox_event \<Rightarrow> instant" where
  "ev_time S ev = (case coerce_datetime (se_env S) (Json (dget (ob_payload ev) ''updated_at'')) of
                     Stamp t \<Rightarrow> t | Json _ \<Rightarrow> 0)"

text \<open>A full snapshot of entity \<open>i\<close> as the emission hooks send it, with a readable \<open>updated_at\<close> and a
  site this hub knows.\<close>

definition snapshot_of :: "sync_env \<Rightarrow> string option \<Rightarrow> string \<Rightarrow> string \<Rightarrow> sync_db \<Rightarrow> outbox_event \<Rightarrow> bool" where
  "snapshot_of S sc et i db ev \<longleftrightarrow>
     ob_entity_type ev = et \<and> ob_entity_id ev = i \<and> ob_tombstone_for ev = None \<and> event_org_id ev = sc \<and>
     (\<forall>c \<in> set (COLUMNS et). dhas (ob_payload ev) c) \<and>
     (\<exists>t. coerce_datetime (se_env S) (Json (dget (ob_payload ev) ''updated_at'')) = Stamp t) \<and>
     (et = ''device'' \<or> et = ''group'' \<longrightarrow>
        \<not> col_truthy (cget (inc_of S ev) ''site_id'')
        \<or> find_row S sc ''site'' ''id'' (cget (inc_of S ev) ''site_id'') db \<noteq> None)"

text \<open>A hub that holds exactly one row \<open>r0\<close> for the entity and knows the organization of the scope; where the
  tenant filter is enforced, the row is that organization's.\<close>

definition holds_row :: "sync_env \<Rightarrow> string option \<Rightarrow> string \<Rightarrow> string \<Rightarrow> row \<Rightarrow> instant \<Rightarrow> sync_db \<Rightarrow> bool" where
  "holds_row S sc et i r0 t0 db \<longleftrightarrow>
     et \<in> set SYNCABLE \<and> \<not> is_tombstoned i db \<and>
     (sc = None \<or> tget org_id (the sc) (sy_organizations db) \<noteq> None
        \<and> (\<not> se_enforcing S \<or> \<not> tenant_owned et \<or> r0 ''organization_id'' = text_col (the sc))) \<and>
     filter (\<lambda>r. r ''id'' = text_col i) (sy_tables db et) = [r0] \<and> r0 ''updated_at'' = Stamp t0"

lemma updated_at_column: "et \<in> set SYNCABLE \<Longrightarrow> ''updated_at'' \<in> set (COLUMNS et)"
  by (auto simp: SYNCABLE_def COLUMNS_def)

lemma org_column: "tenant_owned et \<Longrightarrow> ''organization_id'' \<in> set (COLUMNS et)"
  by (auto simp: tenant_owned_def COLUMNS_def)

lemma map_of_graph: "map_of (map (\<lambda>c. (c, f c)) cs) k = (if k \<in> set cs then Some (f k) else None)"
  by (induction cs) auto

lemma inc_of_facts:
  assumes "snapshot_of S sc et i db ev" and "et \<in> set SYNCABLE"
  shows "distinct (map fst (inc_of S ev))" and "map_of (inc_of S ev) k \<noteq> None \<longleftrightarrow> k \<in> set (COLUMNS et)"
    and "map_of (inc_of S ev) ''updated_at'' = Some (Stamp (ev_time S ev))" and "inc_of S ev \<noteq> []"
proof -
  let ?inc = "incoming_cols (se_env S) et (ob_payload ev)"
  have all: "filter (dhas (ob_payload ev)) (COLUMNS et) = COLUMNS et"
    and ty: "ob_entity_type ev = et" and sc: "event_org_id ev = sc"
    using assms(1) by (auto simp: snapshot_of_def)
  have pin: "inc_of S ev = pin_org sc et ?inc" by (simp add: inc_of_def ty sc)
  show "distinct (map fst (inc_of S ev))"
    unfolding pin pin_org_def cset_def
    by (auto simp: incoming_distinct distinct_update split: option.splits)
  have dom: "map_of ?inc k \<noteq> None \<longleftrightarrow> k \<in> set (COLUMNS et)" for k
    by (simp add: incoming_cols_def all map_of_graph)
  show d: "map_of (inc_of S ev) k \<noteq> None \<longleftrightarrow> k \<in> set (COLUMNS et)" for k
    unfolding pin pin_org_def cset_def using dom org_column [of et]
    by (auto simp: update_conv' split: option.splits)
  have u: "''updated_at'' \<in> set (COLUMNS et)" by (rule updated_at_column [OF assms(2)])
  then have "map_of ?inc ''updated_at'' = Some (coerce_datetime (se_env S) (Json (dget (ob_payload ev) ''updated_at'')))"
    by (simp add: incoming_cols_def all map_of_graph DATE_COLUMNS_def)
  then show "map_of (inc_of S ev) ''updated_at'' = Some (Stamp (ev_time S ev))"
    using assms(1) unfolding pin pin_org_def cset_def
    by (auto simp: update_conv' ev_time_def snapshot_of_def split: option.splits)
  show "inc_of S ev \<noteq> []" using d [of "''updated_at''"] u by auto
qed

text \<open>The database after the snapshot of an event has been written over \<open>r0\<close>.\<close>

definition written :: "sync_env \<Rightarrow> string \<Rightarrow> row \<Rightarrow> sync_db \<Rightarrow> outbox_event option \<Rightarrow> sync_db" where
  "written S et r0 db cur =
     (case cur of None \<Rightarrow> db | Some e \<Rightarrow> replace_row et r0 (merge_row (inc_of S e) r0) db)"

definition cur_row :: "sync_env \<Rightarrow> row \<Rightarrow> outbox_event option \<Rightarrow> row" where
  "cur_row S r0 cur = (case cur of None \<Rightarrow> r0 | Some e \<Rightarrow> merge_row (inc_of S e) r0)"

definition cur_time :: "sync_env \<Rightarrow> instant \<Rightarrow> outbox_event option \<Rightarrow> instant" where
  "cur_time S t0 cur = (case cur of None \<Rightarrow> t0 | Some e \<Rightarrow> ev_time S e)"

lemma merge_overwrites:
  assumes "snapshot_of S sc et i db e" and "snapshot_of S sc et i db e'" and "et \<in> set SYNCABLE"
  shows "merge_row (inc_of S e') (merge_row (inc_of S e) r0) = merge_row (inc_of S e') r0"
proof
  fix k
  note f = inc_of_facts [OF assms(1,3)] and g = inc_of_facts [OF assms(2,3)]
  show "merge_row (inc_of S e') (merge_row (inc_of S e) r0) k = merge_row (inc_of S e') r0 k"
  proof (cases "k = ''id''")
    case False
    then show ?thesis
      using f(2) [of k] g(2) [of k] by (auto simp: merge_row_other [OF f(1)] merge_row_other [OF g(1)] split: option.splits)
  qed simp
qed

lemma find_by_filter: "find P xs = (case filter P xs of [] \<Rightarrow> None | x # _ \<Rightarrow> Some x)"
  by (induction xs) auto

lemma cur_row_id [simp]: "cur_row S r0 cur ''id'' = r0 ''id''"
  by (simp add: cur_row_def split: option.splits)

lemma cur_row_updated_at:
  assumes "\<forall>e. cur = Some e \<longrightarrow> snapshot_of S sc et i db e" and "et \<in> set SYNCABLE" and "r0 ''updated_at'' = Stamp t0"
  shows "cur_row S r0 cur ''updated_at'' = Stamp (cur_time S t0 cur)"
proof (cases cur)
  case None
  then show ?thesis using assms(3) by (simp add: cur_row_def cur_time_def)
next
  case (Some e)
  then have "snapshot_of S sc et i db e" using assms(1) by blast
  from inc_of_facts [OF this assms(2)] Some show ?thesis
    by (simp add: cur_row_def cur_time_def merge_row_other)
qed

lemma written_simps [simp]:
  "sy_tombstones (written S et r0 db cur) = sy_tombstones db"
  "sy_organizations (written S et r0 db cur) = sy_organizations db"
  by (simp_all add: written_def split: option.splits)

lemma written_other_table: "et' \<noteq> et \<Longrightarrow> sy_tables (written S et r0 db cur) et' = sy_tables db et'"
  by (simp add: written_def replace_row_def split: option.splits)

lemma written_filter:
  assumes "holds_row S sc et i r0 t0 db"
  shows "filter (\<lambda>r. r ''id'' = text_col i) (sy_tables (written S et r0 db cur) et) = [cur_row S r0 cur]"
proof -
  have one: "filter (\<lambda>r. r ''id'' = text_col i) (sy_tables db et) = [r0]"
    using assms by (simp add: holds_row_def)
  then have r0: "r0 ''id'' = text_col i" by (auto simp: filter_eq_Cons_iff)
  have "filter (\<lambda>r. r ''id'' = text_col i) (map (\<lambda>q. if q ''id'' = text_col i then m else q) xs)
      = map (\<lambda>_. m) (filter (\<lambda>r. r ''id'' = text_col i) xs)" if "m ''id'' = text_col i" for m and xs :: "row list"
    using that by (induction xs) auto
  then show ?thesis using one r0 by (simp add: written_def cur_row_def replace_row_def split: option.splits)
qed

lemma cur_row_org:
  assumes "\<forall>e. cur = Some e \<longrightarrow> snapshot_of S (Some org) et i db e" and "et \<in> set SYNCABLE" and "tenant_owned et"
    and "r0 ''organization_id'' = text_col org"
  shows "cur_row S r0 cur ''organization_id'' = text_col org"
proof (cases cur)
  case (Some e)
  then have e: "snapshot_of S (Some org) et i db e" using assms(1) by blast
  then have "map_of (inc_of S e) ''organization_id'' = Some (text_col org)"
    using assms(3) by (simp add: inc_of_def snapshot_of_def pin_org_def cset_def update_conv')
  then show ?thesis using inc_of_facts(1) [OF e assms(2)] by (simp add: Some cur_row_def merge_row_other)
qed (simp add: cur_row_def assms(4))

lemma written_find:
  assumes h: "holds_row S sc et i r0 t0 db" and cur: "\<forall>e. cur = Some e \<longrightarrow> snapshot_of S sc et i db e"
  shows "find_row S sc et ''id'' (text_col i) (written S et r0 db cur) = Some (cur_row S r0 cur)"
proof -
  have "filter (\<lambda>r. r ''id'' = text_col i) (seen_rows S sc et (written S et r0 db cur)) = [cur_row S r0 cur]"
  proof (cases "sc \<noteq> None \<and> se_enforcing S \<and> tenant_owned et")
    case True
    then obtain org where org: "sc = Some org" by blast
    then have "cur_row S r0 cur ''organization_id'' = text_col org"
      using cur_row_org [of cur S org et i db r0] True h cur by (simp add: holds_row_def)
    then show ?thesis
      using True org written_filter [OF h, of cur]
      by (simp add: seen_rows_def filter_filter flip: filter_filter [of "\<lambda>r. r ''organization_id'' = text_col org" "\<lambda>r. r ''id'' = text_col i"])
        (simp add: filter_filter conj_commute flip: filter_filter)
  next
    case False
    then have "seen_rows S sc et (written S et r0 db cur) = sy_tables (written S et r0 db cur) et"
      by (auto simp: seen_rows_def split: option.splits)
    then show ?thesis by (simp add: written_filter [OF h])
  qed
  then show ?thesis by (simp add: find_row_def find_by_filter)
qed

lemma replace_twice:
  assumes "m ''id'' = r0 ''id''"
  shows "replace_row et m m' (replace_row et r0 m db) = replace_row et r0 m' db"
proof -
  have "map (\<lambda>q. if q ''id'' = m ''id'' then m' else q) (map (\<lambda>q. if q ''id'' = r0 ''id'' then m else q) xs)
      = map (\<lambda>q. if q ''id'' = r0 ''id'' then m' else q) xs" for xs :: "row list"
    using assms by (induction xs) auto
  then show ?thesis by (simp add: replace_row_def set_table_def del: map_map)
qed

lemma written_again:
  assumes "\<forall>e. cur = Some e \<longrightarrow> snapshot_of S sc et i db e" and "et \<in> set SYNCABLE"
    and "snapshot_of S sc et i db ev"
  shows "replace_row et (cur_row S r0 cur) (merge_row (inc_of S ev) (cur_row S r0 cur)) (written S et r0 db cur)
       = written S et r0 db (Some ev)"
proof (cases cur)
  case None
  then show ?thesis by (simp add: cur_row_def written_def)
next
  case (Some e)
  then have "snapshot_of S sc et i db e" using assms(1) by blast
  note over = merge_overwrites [OF this assms(3,2)]
  show ?thesis by (simp add: Some cur_row_def written_def over replace_twice)
qed

lemma snapshot_apply:
  assumes h: "holds_row S sc et i r0 t0 db" and ev: "snapshot_of S sc et i db ev"
    and cur: "\<forall>e. cur = Some e \<longrightarrow> snapshot_of S sc et i db e"
  shows "apply_outbox_event S ev (written S et r0 db cur)
       = (let db' = written S et r0 db (if cur_time S t0 cur < ev_time S ev then Some ev else cur) in
          if se_integrity S (sy_tables db') then Inr (cur_time S t0 cur < ev_time S ev, db') else Inl IntegrityError)"
proof -
  let ?db = "written S et r0 db cur"
  have et: "et \<in> set SYNCABLE" and r0: "r0 ''updated_at'' = Stamp t0" and nt: "\<not> is_tombstoned i ?db"
    and org: "sc = None \<or> tget org_id (the sc) (sy_organizations ?db) \<noteq> None"
    using h by (auto simp: holds_row_def is_tombstoned_def)
  have E: "ob_entity_type ev = et" "ob_entity_id ev = i" "ob_tombstone_for ev = None" "event_org_id ev = sc"
    using ev by (auto simp: snapshot_of_def)
  have "incoming_cols (se_env S) et (ob_payload ev) \<noteq> []"
    using ev updated_at_column [OF et] by (auto simp: snapshot_of_def incoming_cols_def filter_empty_conv)
  moreover have "remap_site S sc et (inc_of S ev) ?db = Inr (inc_of S ev, ?db)"
    using ev seen_rows_tables [OF written_other_table [of "''site''" et S r0 db cur], of S sc]
    by (auto simp: remap_site_def snapshot_of_def find_row_def)
  ultimately have core: "apply_core S sc ev ?db = upsert S sc ev (inc_of S ev) ?db"
    using nt et by (simp add: apply_core_def E inc_of_def)
  have inc_at: "incoming_updated (se_env S) ev = Some (Some (ev_time S ev))"
    using ev by (auto simp: incoming_updated_def ev_time_def as_utc_def snapshot_of_def)
  have ex: "find_existing S sc ev (inc_of S ev) ?db = Some (cur_row S r0 cur)"
    by (simp add: find_existing_def E written_find [OF h cur])
  have loc: "as_utc (cur_row S r0 cur ''updated_at'') = Some (Some (cur_time S t0 cur))"
    using cur_row_updated_at [of cur S sc et i db r0 t0] cur et r0 by (simp add: as_utc_def)
  have "upsert S sc ev (inc_of S ev) ?db = Inr (cur_time S t0 cur < ev_time S ev,
      written S et r0 db (if cur_time S t0 cur < ev_time S ev then Some ev else cur))"
    by (auto simp: upsert_def inc_at ex loc stale_def E written_again [OF cur et ev])
  then show ?thesis using org by (auto simp: apply_outbox_event_def E core)
qed

definition pick :: "sync_env \<Rightarrow> instant \<Rightarrow> outbox_event \<Rightarrow> outbox_event option \<Rightarrow> outbox_event option" where
  "pick S t0 ev cur = (if cur_time S t0 cur < ev_time S ev then Some ev else cur)"

text \<open>The schema's constraints accept the row the snapshot writes. A snapshot they refuse leaves the database as
  it was, whatever was delivered before: it writes the same columns over whichever snapshot the row holds.\<close>

definition accepted :: "sync_env \<Rightarrow> string \<Rightarrow> row \<Rightarrow> sync_db \<Rightarrow> outbox_event \<Rightarrow> bool" where
  "accepted S et r0 db ev \<longleftrightarrow> se_integrity S (sy_tables (written S et r0 db (Some ev)))"

lemma deliver_all:
  assumes "holds_row S sc et i r0 t0 db"
    and "\<forall>ev \<in> set evs. snapshot_of S sc et i db ev" and "\<forall>e. cur = Some e \<longrightarrow> snapshot_of S sc et i db e"
  shows "fold (deliver S) evs (written S et r0 db cur)
       = written S et r0 db (fold (pick S t0) (filter (accepted S et r0 db) evs) cur)"
  using assms(2,3)
proof (induction evs arbitrary: cur)
  case (Cons ev evs)
  let ?cur = "if accepted S et r0 db ev then pick S t0 ev cur else cur"
  have "deliver S ev (written S et r0 db cur) = written S et r0 db ?cur"
    using snapshot_apply [OF assms(1), of ev cur] Cons.prems
    by (simp add: deliver_def pick_def accepted_def Let_def)
  moreover have "\<forall>e. ?cur = Some e \<longrightarrow> snapshot_of S sc et i db e"
    using Cons.prems by (auto simp: pick_def)
  ultimately show ?case using Cons.IH [of ?cur] Cons.prems by simp
qed simp

text \<open>What the fold picks: the newest of the events, if it is newer than what the hub held.\<close>

lemma pick_spec:
  "(case fold (pick S t0) evs cur of
      None \<Rightarrow> cur = None \<and> (\<forall>e \<in> set evs. ev_time S e \<le> t0)
    | Some w \<Rightarrow> (w \<in> set evs \<and> cur_time S t0 cur < ev_time S w \<or> cur = Some w) \<and> (\<forall>e \<in> set evs. ev_time S e \<le> ev_time S w))"
  (is "case ?w of None \<Rightarrow> ?n | Some w \<Rightarrow> ?s w")
proof (induction evs arbitrary: cur)
  case (Cons ev evs)
  have mono: "cur_time S t0 cur \<le> cur_time S t0 (pick S t0 ev cur)" "ev_time S ev \<le> cur_time S t0 (pick S t0 ev cur)"
    by (auto simp: pick_def cur_time_def)
  show ?case
  proof (cases "fold (pick S t0) evs (pick S t0 ev cur)")
    case None
    then have "pick S t0 ev cur = None" and "\<forall>e \<in> set evs. ev_time S e \<le> t0"
      using Cons.IH [of "pick S t0 ev cur"] by simp_all
    then have "cur = None" and "ev_time S ev \<le> t0" by (auto simp: pick_def cur_time_def split: if_splits)
    then show ?thesis using None \<open>\<forall>e \<in> set evs. _\<close> by simp
  next
    case (Some w)
    have "w \<in> set evs \<and> cur_time S t0 (pick S t0 ev cur) < ev_time S w \<or> pick S t0 ev cur = Some w"
      and le: "\<forall>e \<in> set evs. ev_time S e \<le> ev_time S w"
      using Cons.IH [of "pick S t0 ev cur"] Some by simp_all
    then have "cur_time S t0 (pick S t0 ev cur) \<le> ev_time S w"
      by (auto simp: cur_time_def)
    moreover have "w \<in> set (ev # evs) \<and> cur_time S t0 cur < ev_time S w \<or> cur = Some w"
      using \<open>w \<in> set evs \<and> _ \<or> _\<close> mono(1) by (auto simp: pick_def split: if_splits)
    ultimately show ?thesis using Some le mono(2) by auto
  qed
qed (auto split: option.splits)

lemma pick_order_independent:
  assumes "set evs = set evs'" and "inj_on (ev_time S) (set evs)"
  shows "fold (pick S t0) evs None = fold (pick S t0) evs' None"
proof -
  note p = pick_spec [where S = S and evs = evs and cur = None and ?t0.0 = t0]
    and q = pick_spec [where S = S and evs = evs' and cur = None and ?t0.0 = t0]
  show ?thesis
  proof (cases "fold (pick S t0) evs None")
    case None
    then show ?thesis using p q assms(1) by (fastforce simp: cur_time_def split: option.splits)
  next
    case (Some w)
    then have w: "w \<in> set evs" "t0 < ev_time S w" "\<forall>e \<in> set evs. ev_time S e \<le> ev_time S w"
      using p by (auto simp: cur_time_def)
    show ?thesis
    proof (cases "fold (pick S t0) evs' None")
      case None
      then show ?thesis using q w assms(1) by auto
    next
      case (Some v)
      then have "v \<in> set evs" "\<forall>e \<in> set evs. ev_time S e \<le> ev_time S v"
        using q assms(1) by auto
      then have "v = w" using w assms(2) by (meson inj_onD order_antisym)
      then show ?thesis using Some \<open>fold (pick S t0) evs None = Some w\<close> by simp
    qed
  qed
qed

lemma pick_newest:
  assumes "inj_on (ev_time S) (set evs)"
  shows "fold (pick S t0) evs None
       = (if \<forall>e \<in> set evs. ev_time S e \<le> t0 then None else Some (arg_max_on (ev_time S) (set evs)))"
proof -
  note p = pick_spec [where S = S and evs = evs and cur = None and ?t0.0 = t0]
  show ?thesis
  proof (cases "fold (pick S t0) evs None")
    case (Some w)
    then have w: "w \<in> set evs" "t0 < ev_time S w" "\<forall>e \<in> set evs. ev_time S e \<le> ev_time S w"
      using p by (auto simp: cur_time_def)
    have "arg_max_on (ev_time S) (set evs) = w"
      unfolding arg_max_on_def
    proof (rule arg_maxI)
      fix x
      assume x: "x \<in> set evs" "\<forall>y. y \<in> set evs \<longrightarrow> \<not> ev_time S x < ev_time S y"
      then have "ev_time S x = ev_time S w" using w by (meson linorder_not_less order_antisym)
      then show "x = w" by (rule inj_onD [OF assms _ x(1) w(1)])
    qed (use w in \<open>auto simp: not_less\<close>)
    moreover have "\<not> (\<forall>e \<in> set evs. ev_time S e \<le> t0)" using w by (meson linorder_not_less)
    ultimately show ?thesis using Some by simp
  qed (use p in simp)
qed

section \<open>Batches\<close>

definition seqs :: "(int option \<times> outbox_event option) list \<Rightarrow> int list" where
  "seqs ds = List.map_filter fst ds"

lemma batch_step_effect:
  assumes "batch_step S err_text d (b, db) = (b', db')"
  shows "sy_outbox db' = sy_outbox db" and "sy_cursors db' = sy_cursors db"
    and "bs_applied (bt_stats b') + bs_skipped (bt_stats b') + bs_errors (bt_stats b')
       = Suc (bs_applied (bt_stats b) + bs_skipped (bt_stats b) + bs_errors (bt_stats b))"
    and "bt_last_seq b' = (if fst d = None then bt_last_seq b else fst d)"
proof -
  have ap: "sy_outbox db1 = sy_outbox db \<and> sy_cursors db1 = sy_cursors db"
    if "apply_outbox_event S ev db = Inr (a, db1)" for ev a db1
    using apply_outbox_unchanged [OF that] .
  show "sy_outbox db' = sy_outbox db" and "sy_cursors db' = sy_cursors db"
    and "bs_applied (bt_stats b') + bs_skipped (bt_stats b') + bs_errors (bt_stats b')
       = Suc (bs_applied (bt_stats b) + bs_skipped (bt_stats b) + bs_errors (bt_stats b))"
    and "bt_last_seq b' = (if fst d = None then bt_last_seq b else fst d)"
    using assms ap by (auto simp: batch_step_def Let_def split: prod.splits option.splits sum.splits bool.splits if_splits)
qed

lemma batch_fold_effect:
  "fold (batch_step S err_text) ds (b, db) = (b', db') \<Longrightarrow>
     sy_outbox db' = sy_outbox db \<and> sy_cursors db' = sy_cursors db
   \<and> bs_applied (bt_stats b') + bs_skipped (bt_stats b') + bs_errors (bt_stats b')
     = bs_applied (bt_stats b) + bs_skipped (bt_stats b) + bs_errors (bt_stats b) + length ds
   \<and> bt_last_seq b' = (if seqs ds = [] then bt_last_seq b else Some (last (seqs ds)))"
proof (induction ds arbitrary: b db)
  case Nil
  then show ?case by (simp add: seqs_def)
next
  case (Cons d ds)
  obtain b1 db1 where st: "batch_step S err_text d (b, db) = (b1, db1)" by fastforce
  with Cons have "fold (batch_step S err_text) ds (b1, db1) = (b', db')" by simp
  from Cons.IH [OF this] batch_step_effect [OF st] show ?case
    by (auto simp: seqs_def map_filter_simps split: option.splits)
qed

lemma cursor_after_update [simp]: "get_sync_cursor peer (update_sync_cursor E peer q err db) = q"
  by (auto simp: get_sync_cursor_def update_sync_cursor_def Let_def tbl_simps split: option.splits)

lemma update_cursor_outbox [simp]: "sy_outbox (update_sync_cursor E peer q err db) = sy_outbox db"
  by (simp add: update_sync_cursor_def Let_def split: option.splits)

text \<open>a batch always makes progress: every event received is counted once as applied, skipped or an error,
  the cursor moves to the last sequence number of the batch whatever happened to its events, and
  nothing applied is emitted again.\<close>

theorem batch_makes_progress:
  "case apply_event_batch S err_text peer ds db of (st, db') \<Rightarrow>
     bs_applied st + bs_skipped st + bs_errors st = length ds
   \<and> get_sync_cursor peer db' = (if seqs ds = [] then get_sync_cursor peer db else last (seqs ds))
   \<and> sy_outbox db' = sy_outbox db"
proof -
  let ?b0 = "\<lparr>bt_stats = \<lparr>bs_applied = 0, bs_skipped = 0, bs_errors = 0\<rparr>, bt_last_seq = None, bt_last_error = None\<rparr>"
  obtain b' db' where f: "fold (batch_step S err_text) ds (?b0, db) = (b', db')" by fastforce
  from batch_fold_effect [OF f] show ?thesis
    by (auto simp: apply_event_batch_def f get_sync_cursor_def [of peer db'] get_sync_cursor_def [of peer db])
qed

section \<open>Confinement to the claimed organization\<close>

text \<open>Every syncable table is keyed by \<open>id\<close>.\<close>

definition keyed :: "sync_db \<Rightarrow> bool" where
  "keyed db \<longleftrightarrow> (\<forall>et. distinct (map (\<lambda>r. r ''id'') (sy_tables db et)))"

abbreviation others :: "string \<Rightarrow> row list \<Rightarrow> row list" where
  "others org rs \<equiv> filter (\<lambda>r. r ''organization_id'' \<noteq> text_col org) rs"

lemma keyed_same: "keyed db \<Longrightarrow> q \<in> set (sy_tables db et) \<Longrightarrow> r \<in> set (sy_tables db et) \<Longrightarrow> q ''id'' = r ''id'' \<Longrightarrow> q = r"
  unfolding keyed_def by (metis (mono_tags, lifting) distinct_map inj_onD)

lemma pin_org_org: "tenant_owned et \<Longrightarrow> map_of (pin_org (Some org) et inc) ''organization_id'' = Some (text_col org)"
  by (simp add: pin_org_def cset_def update_conv')

lemma remap_site_org:
  assumes "remap_site S sc et inc db = Inr (inc', db')"
  shows "map_of inc' ''organization_id'' = map_of inc ''organization_id''" and "distinct (map fst inc) \<Longrightarrow> distinct (map fst inc')"
  using assms by (auto simp: remap_site_def cset_def update_conv' distinct_update split: if_splits sum.splits)

lemma pin_org_distinct: "distinct (map fst inc) \<Longrightarrow> distinct (map fst (pin_org sc et inc))"
  by (auto simp: pin_org_def cset_def distinct_update split: option.splits)

lemma resolve_confined:
  assumes "resolve_default_site_id S (Some org) db = Inr (i, db')" and "se_enforcing S"
  shows "others org (sy_tables db' et) = others org (sy_tables db et)"
  using assms
  by (auto simp: resolve_default_site_id_def Let_def default_site_row_def row_of_def cget_def
      split: option.splits list.splits if_splits)

lemma remap_confined:
  assumes "remap_site S (Some org) et inc db = Inr (inc', db')" and "se_enforcing S"
  shows "others org (sy_tables db' et') = others org (sy_tables db et')"
  using assms resolve_confined [of S org db] by (auto simp: remap_site_def split: if_splits sum.splits)

lemma find_row_confined:
  assumes "find_row S (Some org) et k v db = Some r" and "se_enforcing S" and "tenant_owned et"
  shows "r \<in> set (sy_tables db et)" and "r ''organization_id'' = text_col org"
  using assms by (auto simp: find_row_def seen_rows_def find_Some_iff dest: nth_mem)

lemma others_map:
  assumes "\<And>q. q \<in> set rs \<Longrightarrow> q ''organization_id'' \<noteq> text_col org \<Longrightarrow> f q = q"
    and "\<And>q. q \<in> set rs \<Longrightarrow> q ''organization_id'' = text_col org \<Longrightarrow> f q ''organization_id'' = text_col org"
  shows "others org (map f rs) = others org rs"
  using assms by (induction rs) auto

lemma replace_confined:
  assumes "keyed db" and "r \<in> set (sy_tables db et)" and "r ''organization_id'' = text_col org"
    and "r' ''organization_id'' = text_col org"
  shows "others org (sy_tables (replace_row et r r' db) et') = others org (sy_tables db et')"
proof -
  have "others org (map (\<lambda>q. if q ''id'' = r ''id'' then r' else q) (sy_tables db et)) = others org (sy_tables db et)"
    by (rule others_map) (use assms(3,4) keyed_same [OF assms(1) _ assms(2)] in \<open>force+\<close>)
  then show ?thesis by (simp add: replace_row_def)
qed

lemma delete_confined:
  assumes "keyed db" and "se_enforcing S" and "tenant_owned et'"
  shows "others org (sy_tables (delete_entity S (Some org) ev i db) et') = others org (sy_tables db et')"
proof (cases "find_row S (Some org) (ob_entity_type ev) ''id'' (text_col i)
    (add_tombstone (se_env S) i (ob_entity_type ev) (case ob_seq ev of None \<Rightarrow> 0 | Some q \<Rightarrow> q) db)")
  case None
  then show ?thesis by (simp add: delete_entity_def Let_def)
next
  case (Some r)
  show ?thesis
  proof (cases "et' = ob_entity_type ev")
    case True
    with find_row_confined [OF Some assms(2)] assms(3)
    have "r \<in> set (sy_tables db et')" and "r ''organization_id'' = text_col org" by simp_all
    moreover have "r ''id'' = text_col i" using Some by (auto dest: find_row_SomeD)
    ultimately have "q ''id'' \<noteq> text_col i" if "q \<in> set (sy_tables db et')" "q ''organization_id'' \<noteq> text_col org" for q
      using keyed_same [OF assms(1) that(1)] that(2) by auto
    then show ?thesis using Some True by (auto simp: delete_entity_def Let_def intro!: filter_cong)
  qed (use Some in \<open>simp add: delete_entity_def Let_def\<close>)
qed

lemma insert_confined:
  assumes "tenant_owned et' \<Longrightarrow> et' = ob_entity_type ev \<Longrightarrow> map_of inc ''organization_id'' = Some (text_col org)"
    and "tenant_owned et'"
  shows "others org (sy_tables (insert_row S ev inc db) et') = others org (sy_tables db et')"
  using assms by (auto simp: insert_row_def Let_def map_add_def)

lemma remap_keyed:
  assumes "remap_site S sc et inc db = Inr (inc', db')" and "keyed db"
    and "text_col (new_id (env_ulid (se_env S)) ''site'' (sy_ulid db)) \<notin> (\<lambda>r. r ''id'') ` set (sy_tables db ''site'')"
  shows "keyed db'"
  using remap_site_outcome [OF assms(1)] assms(2,3) by (auto simp: keyed_def)

lemma apply_confined:
  assumes k: "keyed db" and enf: "se_enforcing S" and org: "event_org_id ev = Some org" and to: "tenant_owned et"
    and fresh: "text_col (new_id (env_ulid (se_env S)) ''site'' (sy_ulid db)) \<notin> (\<lambda>r. r ''id'') ` set (sy_tables db ''site'')"
    and ap: "apply_outbox_event S ev db = Inr (b, db')"
  shows "others org (sy_tables db' et) = others org (sy_tables db et)"
  using ap
proof (cases rule: apply_cases)
  case (deleted i)
  then show ?thesis using delete_confined [OF k enf to, of org ev i] org by simp
next
  case (remapped db1 inc)
  let ?et = "ob_entity_type ev"
  have db1: "others org (sy_tables db1 et) = others org (sy_tables db et)" and k1: "keyed db1"
    using remap_confined [OF _ enf] remap_keyed [OF remapped(1) k fresh] remapped(1) org by auto
  have inc: "map_of inc ''organization_id'' = Some (text_col org)" if "tenant_owned ?et"
    using remap_site_org(1) [OF remapped(1)] pin_org_org [OF that] org by simp
  have dist: "distinct (map fst inc)"
    by (rule remap_site_org(2) [OF remapped(1)]) (intro pin_org_distinct incoming_distinct)
  from upsert_outcome [OF remapped(2)] show ?thesis
  proof (elim disjE exE conjE)
    assume "db' = insert_row S ev inc db1"
    then show ?thesis using insert_confined [of et ev inc org] inc to db1 by simp
  next
    fix r
    assume d: "db' = replace_row ?et r (merge_row inc r) db1"
      and f: "find_existing S (event_org_id ev) ev inc db1 = Some r"
    show ?thesis
    proof (cases "et = ?et")
      case True
      then have r: "r \<in> set (sy_tables db1 ?et)" "r ''organization_id'' = text_col org"
        using f org enf to
        by (auto simp: find_existing_def Let_def split: option.splits if_splits dest: find_row_confined)
      have "merge_row inc r ''organization_id'' = text_col org"
        using inc to True by (simp add: merge_row_other [OF dist])
      then show ?thesis using replace_confined [OF k1 r] db1 by (simp add: d)
    qed (use d db1 in \<open>simp add: replace_row_def\<close>)
  qed (use db1 in simp)
qed simp

section \<open>The guarantees\<close>

text \<open>A hub of two organizations, each with a site, for the instances below.\<close>

definition sync_env0 :: "bool \<Rightarrow> sync_env" where
  "sync_env0 enf = \<lparr>se_env = \<lparr>env_ulid = (\<lambda>n. replicate n CHR ''0''), env_now = 50,
       env_fromiso = (\<lambda>s. Some (int (length s))), env_isoformat = (\<lambda>t. replicate (nat t) CHR ''1''), env_repr = (\<lambda>_. [])\<rparr>,
     se_defaults = (\<lambda>_ _. Json VNone), se_integrity = (\<lambda>_. True), se_enforcing = enf\<rparr>"

definition site_row :: "string \<Rightarrow> string \<Rightarrow> string \<Rightarrow> instant \<Rightarrow> row" where
  "site_row org i name t = row_of [(''organization_id'', text_col org), (''id'', text_col i), (''name'', text_col name),
     (''description'', Json VNone), (''created_at'', Stamp 1), (''updated_at'', Stamp t)]"

definition site_event :: "string \<Rightarrow> string \<Rightarrow> string \<Rightarrow> nat \<Rightarrow> outbox_event" where
  "site_event org i name n = \<lparr>ob_seq = Some 7, ob_at = Json (VStr ''1''), ob_event_type = ''site.updated'',
     ob_entity_type = ''site'', ob_entity_id = i,
     ob_payload = [(''organization_id'', VStr org), (''id'', VStr i), (''name'', VStr name), (''description'', VNone),
       (''created_at'', VStr ''1''), (''updated_at'', VStr (replicate n CHR ''1''))],
     ob_scope_claims = Some [(''organization_id'', VStr org)], ob_tombstone_for = None\<rparr>"

definition demo_org :: "string \<Rightarrow> string \<Rightarrow> organization" where
  "demo_org i slug = \<lparr>org_id = i, org_name = slug, org_slug = slug, org_status = ''active'', org_plan = ''free'',
     org_is_self_hosted_default = False, org_max_devices = None, org_max_users = None,
     org_owner_user_id = None, org_created_at = 0, org_updated_at = 0\<rparr>"

definition two_orgs :: "sync_db" where
  "two_orgs = \<lparr>sy_tables = (\<lambda>et. if et = ''site'' then [site_row ''A'' ''s1'' ''Default'' 3, site_row ''B'' ''s2'' ''Lab'' 3] else []),
     sy_organizations = [demo_org ''A'' ''default'', demo_org ''B'' ''b''],
     sy_outbox = [], sy_cursors = [],
     sy_tombstones = [\<lparr>tb_entity_id = ''s0'', tb_entity_type = ''site'', tb_created_at = 0, tb_from_outbox_seq = 1\<rparr>],
     sy_ulid = 0\<rparr>"

lemma demo_tables [simp]: "sy_tables two_orgs et =
    (if et = ''site'' then [site_row ''A'' ''s1'' ''Default'' 3, site_row ''B'' ''s2'' ''Lab'' 3] else [])"
  by (simp add: two_orgs_def)

lemma site_row_simps [simp]:
  "site_row org i name t ''id'' = text_col i" "site_row org i name t ''organization_id'' = text_col org"
  "site_row org i name t ''name'' = text_col name" "site_row org i name t ''updated_at'' = Stamp t"
  by (simp_all add: site_row_def row_of_def cget_def)

text \<open>A constraint of the schema: no site bears this name.\<close>

definition no_site_named :: "string \<Rightarrow> (string \<Rightarrow> row list) \<Rightarrow> bool" where
  "no_site_named nm tables \<longleftrightarrow> list_all (\<lambda>r. r ''name'' \<noteq> text_col nm) (tables ''site'')"

lemma demo_holds:
  "holds_row ((sync_env0 b)\<lparr>se_integrity := c\<rparr>) (Some ''B'') ''site'' ''s2'' (site_row ''B'' ''s2'' ''Lab'' 3) 3 two_orgs"
  by (simp add: holds_row_def SYNCABLE_def sync_env0_def is_tombstoned_def)
    (simp add: two_orgs_def demo_org_def)

lemma demo_snapshot:
  "snapshot_of ((sync_env0 b)\<lparr>se_integrity := c\<rparr>) (Some ''B'') ''site'' ''s2'' two_orgs (site_event ''B'' ''s2'' nm n)"
  by (simp add: snapshot_of_def site_event_def event_org_id_def COLUMNS_def sync_env0_def coerce_datetime_def dget_def dhas_def dict_or_empty_def)

lemma replace_z_ones [simp]: "replace_z (replicate n CHR ''1'') = replicate n CHR ''1''"
  by (induction n) simp_all

lemma demo_time: "ev_time ((sync_env0 b)\<lparr>se_integrity := c\<rparr>) (site_event org i nm n) = int n"
  by (simp add: ev_time_def site_event_def sync_env0_def coerce_datetime_def dget_def)

text \<open>C7: last writer wins, whatever the order of arrival: full snapshots of one entity, with every
  column, a readable \<open>updated_at\<close> different from the others', one claimed organization and a site the hub knows, where the
  hub has exactly one row for the entity in that organization and no tombstone, leave the database in the same
  state in every order and with any repetition, and the row then holds the newest of the snapshots the schema's constraints accept, unless the row was at least as
  new, and then it stays.\<close>

theorem lww_order_independent:
  assumes h: "holds_row S sc et i r0 t0 db"
    and evs: "\<forall>ev \<in> set evs. snapshot_of S sc et i db ev" and same: "set evs = set evs'"
    and inj: "inj_on (ev_time S) (set evs)"
  shows "fold (deliver S) evs db = fold (deliver S) evs' db
    \<and> find_row S sc et ''id'' (text_col i) (fold (deliver S) evs db)
      = Some (let ok = {e \<in> set evs. accepted S et r0 db e} in
              if \<forall>e \<in> ok. ev_time S e \<le> t0 then r0
              else merge_row (inc_of S (arg_max_on (ev_time S) ok)) r0)"
proof -
  let ?ok = "filter (accepted S et r0 db)"
  have all: "fold (deliver S) es db = written S et r0 db (fold (pick S t0) (?ok es) None)"
    if "set es = set evs" for es
    using deliver_all [OF h, of es None] evs that by (simp add: written_def)
  have inj': "inj_on (ev_time S) (set (?ok evs))" by (rule inj_on_subset [OF inj]) auto
  have snap: "\<forall>e. fold (pick S t0) (?ok evs) None = Some e \<longrightarrow> snapshot_of S sc et i db e"
    using pick_spec [where S = S and evs = "?ok evs" and cur = None and ?t0.0 = t0] evs by (auto split: option.splits)
  let ?A = "{e \<in> set evs. accepted S et r0 db e}"
  have A: "set (?ok evs) = ?A" by simp
  have row: "cur_row S r0 (fold (pick S t0) (?ok evs) None)
      = (if \<forall>e \<in> ?A. ev_time S e \<le> t0 then r0 else merge_row (inc_of S (arg_max_on (ev_time S) ?A)) r0)"
    unfolding pick_newest [OF inj', where ?t0.0 = t0] A by (simp only: cur_row_def option.case split: if_split) blast
  have "fold (pick S t0) (?ok evs) None = fold (pick S t0) (?ok evs') None"
    by (rule pick_order_independent [OF _ inj']) (use same in simp)
  then have "fold (deliver S) evs db = fold (deliver S) evs' db" using all [of evs] all [of evs'] same by simp
  then show ?thesis unfolding all [OF refl] written_find [OF h snap] row Let_def by simp
qed

theorem lww_order_independent_witness:
  "let e = site_event ''B'' ''s2''; S = (sync_env0 True)\<lparr>se_integrity := no_site_named ''z''\<rparr> in
     fold (deliver S) [e ''x'' 5, e ''y'' 7, e ''z'' 9] two_orgs
   = fold (deliver S) [e ''y'' 7, e ''z'' 9, e ''x'' 5, e ''y'' 7] two_orgs"
proof -
  let ?e = "site_event ''B'' ''s2''" and ?S = "(sync_env0 True)\<lparr>se_integrity := no_site_named ''z''\<rparr>"
  have "\<forall>ev \<in> set [?e ''x'' 5, ?e ''y'' 7, ?e ''z'' 9]. snapshot_of ?S (Some ''B'') ''site'' ''s2'' two_orgs ev"
    by (simp add: demo_snapshot)
  moreover have "set [?e ''x'' 5, ?e ''y'' 7, ?e ''z'' 9] = set [?e ''y'' 7, ?e ''z'' 9, ?e ''x'' 5, ?e ''y'' 7]" by auto
  moreover have "inj_on (ev_time ?S) (set [?e ''x'' 5, ?e ''y'' 7, ?e ''z'' 9])"
    by (auto simp: inj_on_def demo_time)
  ultimately show ?thesis
    unfolding Let_def by (rule lww_order_independent [OF demo_holds, THEN conjunct1])
qed

text \<open>C8: a tombstone is permanent: after any event a peer's emission hooks produce, in any table no row carries
  the id of an entity of that table that has a tombstone; an event for a tombstoned entity is skipped, a delete
  leaves a tombstone and no tombstone is ever removed. (A site the applier creates gets a new id.)\<close>

theorem tombstones_permanent:
  assumes "deleted_stay db" and "well_formed ev"
    and "\<not> is_tombstoned (new_id (env_ulid (se_env S)) ''site'' (sy_ulid db)) db"
    and "apply_outbox_event S ev db = Inr (b, db')"
  shows "deleted_stay db' \<and> (is_tombstoned (ob_entity_id ev) db \<longrightarrow> \<not> b \<and> db' = db)
    \<and> (\<forall>i. is_tombstoned i db \<longrightarrow> is_tombstoned i db')
    \<and> (ob_entity_type ev \<in> set SYNCABLE \<and> ob_tombstone_for ev = Some (ob_entity_id ev) \<and> ob_entity_id ev \<noteq> [] \<longrightarrow>
         is_tombstoned (ob_entity_id ev) db')"
proof (intro conjI)
  show "deleted_stay db'" by (rule apply_deleted_stay [OF assms])
  show skip: "is_tombstoned (ob_entity_id ev) db \<longrightarrow> \<not> b \<and> db' = db"
    using assms(4) by (auto simp: apply_outbox_event_def apply_core_def Let_def split: if_splits)
  show kept: "\<forall>i. is_tombstoned i db \<longrightarrow> is_tombstoned i db'"
    using apply_keeps_tombstones [OF assms(4)] by blast
  show "ob_entity_type ev \<in> set SYNCABLE \<and> ob_tombstone_for ev = Some (ob_entity_id ev) \<and> ob_entity_id ev \<noteq> [] \<longrightarrow>
      is_tombstoned (ob_entity_id ev) db'"
  proof
    assume h: "ob_entity_type ev \<in> set SYNCABLE \<and> ob_tombstone_for ev = Some (ob_entity_id ev) \<and> ob_entity_id ev \<noteq> []"
    show "is_tombstoned (ob_entity_id ev) db'"
    proof (cases "is_tombstoned (ob_entity_id ev) db")
      case False
      with h assms(4) have "db' = delete_entity S (event_org_id ev) ev (ob_entity_id ev) db"
        by (cases "ob_entity_id ev") (auto simp: apply_outbox_event_def apply_core_def Let_def split: if_splits)
      then show ?thesis by (simp add: delete_entity_tombstones)
    qed (use kept in blast)
  qed
qed

theorem tombstones_permanent_witness:
  "\<exists>db'. apply_outbox_event (sync_env0 False) (site_event ''B'' ''s3'' ''New'' 5) two_orgs = Inr (True, db') \<and> deleted_stay db'"
proof -
  let ?S = "sync_env0 False" and ?ev = "site_event ''B'' ''s3'' ''New'' 5"
  have "case apply_outbox_event ?S ?ev two_orgs of Inr (b, _) \<Rightarrow> b | Inl _ \<Rightarrow> False" by code_simp
  then obtain db' where ap: "apply_outbox_event ?S ?ev two_orgs = Inr (True, db')"
    by (auto split: sum.splits)
  have "deleted_stay two_orgs" by (simp add: deleted_stay_def two_orgs_def)
  moreover have "well_formed ?ev" by (simp add: well_formed_def site_event_def dget_def)
  moreover have "\<not> is_tombstoned (new_id (env_ulid (se_env ?S)) ''site'' (sy_ulid two_orgs)) two_orgs"
    by (simp add: is_tombstoned_def two_orgs_def new_id_def)
  ultimately show ?thesis using tombstones_permanent [OF _ _ _ ap] ap by blast
qed

text \<open>with enforcement on, an event is confined to the organization it claims: the sites and groups of every
  other organization are exactly what they were, whatever the payload says, for updates, deletes, inserts
  and the default site the applier may create. (The table is keyed by id and a new site id is fresh.)\<close>

theorem enforced_apply_confined:
  assumes "keyed db" and "se_enforcing S" and "event_org_id ev = Some org" and "tenant_owned et"
    and "text_col (new_id (env_ulid (se_env S)) ''site'' (sy_ulid db)) \<notin> (\<lambda>r. r ''id'') ` set (sy_tables db ''site'')"
    and "apply_outbox_event S ev db = Inr (b, db')"
  shows "others org (sy_tables db' et) = others org (sy_tables db et)"
  by (rule apply_confined [OF assms])

text \<open>without it (shadow mode) the natural key reaches across organizations: site names are unique per
  organization only, yet a site event of organization B whose name is in use by organization A
  finds A's site, overwrites it and moves it into B. With enforcement the same event inserts B's own site.\<close>

theorem shadow_site_rehomed:
  "(case apply_outbox_event (sync_env0 False) (site_event ''B'' ''s3'' ''Default'' 5) two_orgs of
      Inl _ \<Rightarrow> False
    | Inr (b, db') \<Rightarrow> b \<and> map (\<lambda>r. (r ''id'', r ''organization_id'')) (sy_tables db' ''site'')
        = [(text_col ''s1'', text_col ''B''), (text_col ''s2'', text_col ''B'')])
 \<and> (case apply_outbox_event (sync_env0 True) (site_event ''B'' ''s3'' ''Default'' 5) two_orgs of
      Inl _ \<Rightarrow> False
    | Inr (b, db') \<Rightarrow> b \<and> map (\<lambda>r. (r ''id'', r ''organization_id'')) (sy_tables db' ''site'')
        = [(text_col ''s1'', text_col ''A''), (text_col ''s2'', text_col ''B''), (text_col ''s3'', text_col ''B'')])"
  by code_simp

theorem enforced_apply_confined_witness:
  "case apply_outbox_event (sync_env0 True) (site_event ''B'' ''s2'' ''Default'' 5) two_orgs of
     Inl _ \<Rightarrow> False
   | Inr (b, db') \<Rightarrow> b \<and> others ''B'' (sy_tables db' ''site'') = [site_row ''A'' ''s1'' ''Default'' 3]"
proof -
  let ?S = "sync_env0 True" and ?ev = "site_event ''B'' ''s2'' ''Default'' 5"
  have "case apply_outbox_event ?S ?ev two_orgs of Inr (b, _) \<Rightarrow> b | Inl _ \<Rightarrow> False" by code_simp
  then obtain db' where ap: "apply_outbox_event ?S ?ev two_orgs = Inr (True, db')"
    by (auto split: sum.splits)
  have "keyed two_orgs" by (simp add: keyed_def)
  moreover have "se_enforcing ?S" by (simp add: sync_env0_def)
  moreover have "event_org_id ?ev = Some ''B''" by (simp add: event_org_id_def site_event_def dget_def dict_or_empty_def)
  moreover have "tenant_owned ''site''" by (simp add: tenant_owned_def)
  moreover have "text_col (new_id (env_ulid (se_env ?S)) ''site'' (sy_ulid two_orgs)) \<notin> (\<lambda>r. r ''id'') ` set (sy_tables two_orgs ''site'')"
    by (simp add: new_id_def)
  ultimately have "others ''B'' (sy_tables db' ''site'') = others ''B'' (sy_tables two_orgs ''site'')"
    using ap by (rule enforced_apply_confined)
  then show ?thesis by (simp add: ap)
qed

text \<open>the tombstone check looks at the event's entity id, but a row is inserted under the id of the
  payload: an event that names a fresh entity and carries the id of a deleted one brings the deleted id back.\<close>

theorem tombstoned_id_returns:
  "is_tombstoned ''s0'' two_orgs
 \<and> (case apply_outbox_event (sync_env0 False) ((site_event ''B'' ''s0'' ''New'' 5)\<lparr>ob_entity_id := ''s9''\<rparr>) two_orgs of
      Inl _ \<Rightarrow> False
    | Inr (b, db') \<Rightarrow> b \<and> is_tombstoned ''s0'' db' \<and> text_col ''s0'' \<in> set (map (\<lambda>r. r ''id'') (sy_tables db' ''site'')))"
  by code_simp

lemma entity_to_dict_simps:
  "c \<in> set (COLUMNS et) \<Longrightarrow> dhas (entity_to_dict E et r) c"
  "c \<in> set (COLUMNS et) \<Longrightarrow> dget (entity_to_dict E et r) c = to_json E (r c)"
  by (simp_all add: dhas_def dget_def entity_to_dict_def map_of_graph)

text \<open>the hooks emit a change of a device that does not move \<open>updated_at\<close> -- which is how \<open>enqueue_for_device\<close>
  and \<open>enqueue_for_group\<close> set and clear \<open>is_held_off\<close> -- but every peer that was in step with the row skips the event:
  last writer wins compares \<open>updated_at\<close>, and the event's is not newer. The hold stays local.\<close>

theorem held_off_change_lost:
  assumes peer: "holds_row S sc ''device'' i r t db" and int: "se_integrity S (sy_tables db)"
    and iso: "env_fromiso (se_env S) (replace_z (env_isoformat (se_env S) t)) = Some t"
    and change: "r ''is_held_off'' \<noteq> v" and upd: "hub' = after_update (se_env S) False ''device'' i r (r(''is_held_off'' := v)) hub"
    and claim: "event_org_id (last (sy_outbox hub')) = sc"
    and site: "r ''site_id'' = text_col s" "find_row S sc ''site'' ''id'' (text_col s) db \<noteq> None"
  shows "length (sy_outbox hub') = Suc (length (sy_outbox hub))
       \<and> dget (ob_payload (last (sy_outbox hub'))) ''is_held_off'' = to_json (se_env S) v
       \<and> apply_outbox_event S (last (sy_outbox hub')) db = Inr (False, db)"
proof -
  let ?r = "r(''is_held_off'' := v)" and ?E = "se_env S" and ?e = "last (sy_outbox hub')"
  have "list_ex (\<lambda>c. c \<notin> set (NON_EMITTING ''device'') \<and> r c \<noteq> ?r c) (COLUMNS ''device'')"
    using change by (simp add: NON_EMITTING_def COLUMNS_def)
  then have hub': "hub' = emit_row ?E ''device'' i ''updated'' (entity_to_dict ?E ''device'' ?r) None hub"
    by (simp add: upd after_update_def)
  have e: "ob_entity_type ?e = ''device''" "ob_entity_id ?e = i" "ob_tombstone_for ?e = None"
    "ob_payload ?e = entity_to_dict ?E ''device'' ?r"
    by (simp_all add: hub' emit_row_def append_outbox_def)
  have cols: "''updated_at'' \<in> set (COLUMNS ''device'')" "''site_id'' \<in> set (COLUMNS ''device'')"
    "''is_held_off'' \<in> set (COLUMNS ''device'')"
    by (simp_all add: COLUMNS_def)
  have t: "coerce_datetime ?E (Json (dget (ob_payload ?e) ''updated_at'')) = Stamp t"
    using peer iso cols by (simp add: e entity_to_dict_simps to_json_def holds_row_def coerce_datetime_def)
  have "filter (dhas (ob_payload ?e)) (COLUMNS ''device'') = COLUMNS ''device''"
    by (simp add: e entity_to_dict_simps)
  then have "cget (inc_of S ?e) ''site_id'' = text_col s"
    using site(1) cols
    by (simp add: inc_of_def e pin_org_def tenant_owned_def incoming_cols_def cget_def map_of_graph DATE_COLUMNS_def
        entity_to_dict_simps to_json_def split: option.splits)
  then have "snapshot_of S sc ''device'' i db ?e"
    using t claim site(2) by (simp add: snapshot_of_def e entity_to_dict_simps)
  from snapshot_apply [OF peer this, of None] have "apply_outbox_event S ?e db = Inr (False, db)"
    using t int by (simp add: written_def cur_time_def ev_time_def Let_def)
  moreover have "length (sy_outbox hub') = Suc (length (sy_outbox hub))" by (simp add: hub' emit_row_def append_outbox_def)
  ultimately show ?thesis using cols by (simp add: e entity_to_dict_simps)
qed

definition demo_device_row :: row where
  "demo_device_row = row_of [(''id'', text_col ''d1''), (''site_id'', text_col ''s2''), (''is_held_off'', Json (VBool False)),
     (''updated_at'', Stamp 3)]"

definition device_hub :: sync_db where
  "device_hub = set_table ''device'' [demo_device_row] two_orgs"

theorem held_off_change_lost_witness:
  "let hub' = after_update (se_env (sync_env0 False)) False ''device'' ''d1'' demo_device_row
                (demo_device_row(''is_held_off'' := Json (VBool True))) device_hub
   in length (sy_outbox hub') = 1 \<and> apply_outbox_event (sync_env0 False) (last (sy_outbox hub')) device_hub = Inr (False, device_hub)"
proof -
  let ?S = "sync_env0 False" and ?v = "Json (VBool True)"
  let ?hub' = "after_update (se_env ?S) False ''device'' ''d1'' demo_device_row (demo_device_row(''is_held_off'' := ?v)) device_hub"
  have r: "demo_device_row ''id'' = text_col ''d1''" "demo_device_row ''site_id'' = text_col ''s2''"
    "demo_device_row ''is_held_off'' = Json (VBool False)" "demo_device_row ''updated_at'' = Stamp 3"
    by (simp_all add: demo_device_row_def row_of_def cget_def)
  have "holds_row ?S (Some ''B'') ''device'' ''d1'' demo_device_row 3 device_hub"
    by (simp add: holds_row_def SYNCABLE_def r device_hub_def sync_env0_def is_tombstoned_def)
      (simp add: two_orgs_def demo_org_def)
  moreover have "se_integrity ?S (sy_tables device_hub)" by (simp add: sync_env0_def)
  moreover have "env_fromiso (se_env ?S) (replace_z (env_isoformat (se_env ?S) 3)) = Some 3" by (simp add: sync_env0_def)
  moreover have "demo_device_row ''is_held_off'' \<noteq> ?v" by (simp add: r)
  moreover have "?hub' = ?hub'" by (rule refl)
  moreover have "event_org_id (last (sy_outbox ?hub')) = Some ''B''" by code_simp
  moreover have "find_row ?S (Some ''B'') ''site'' ''id'' (text_col ''s2'') device_hub \<noteq> None"
    by (simp add: find_row_def seen_rows_def sync_env0_def device_hub_def)
  ultimately have "length (sy_outbox ?hub') = Suc (length (sy_outbox device_hub))
      \<and> dget (ob_payload (last (sy_outbox ?hub'))) ''is_held_off'' = to_json (se_env ?S) ?v
      \<and> apply_outbox_event ?S (last (sy_outbox ?hub')) device_hub = Inr (False, device_hub)"
    using r(2) by (intro held_off_change_lost) assumption+
  moreover have "sy_outbox device_hub = []" by (simp add: device_hub_def two_orgs_def)
  ultimately show ?thesis by (simp add: Let_def)
qed

text \<open>A delete carries no organization claim (its payload has neither an organization nor a site), so a peer
  applies it under \<open>system()\<close>, outside the confinement above.\<close>

lemma delete_event_unscoped:
  "event_org_id (last (sy_outbox (after_delete E False et i db))) = None"
  by (simp add: after_delete_def emit_row_def append_outbox_def event_org_id_def scope_claims_for_def dget_def
      dict_or_empty_def)

end
