(* ===== verification/Notifications.thy ===== *)
theory Notifications
  imports AuditLog PyText
begin

text \<open>
  The configuration and enqueue side of outbound notifications (\<open>app/services/notifications.py\<close>,
  \<open>app/models/notifications.py\<close>): channels and subscriptions, and \<open>emit\<close>, which queues one delivery per
  matching subscription. Every SELECT and every flush goes through the tenant layer.
\<close>

definition CHANNEL_KINDS :: "string list" where
  "CHANNEL_KINDS = [''webhook_generic'', ''slack'', ''discord'', ''pushover'']"

definition EVENT_TYPES :: "string list" where
  "EVENT_TYPES = [''watchdog.rule_fired'', ''watchdog.rule_escalated'', ''device.went_offline'', ''device.recovered'',
     ''device.failsafe'', ''firmware.deployment_completed'']"

definition SECRET_CONFIG_KEYS :: "string list" where
  "SECRET_CONFIG_KEYS = [''url'', ''app_token'', ''user_key'', ''webhook_auth_token'']"

text \<open>\<open>NotificationError(code, message)\<close>; a write the tenant guard refuses; a foreign key that is violated.\<close>

datatype notif_error =
    NotificationError string string
  | NotifRefused tenant_error
  | NotifIntegrityError

abbreviation invalid :: "string \<Rightarrow> notif_error" where
  "invalid m \<equiv> NotificationError ''validation_failed'' m"

section \<open>Channel configuration\<close>

text \<open>\<open>str(v or dflt).strip()\<close>.\<close>

definition text_or :: "env \<Rightarrow> string \<Rightarrow> pyval \<Rightarrow> string" where
  "text_or E dflt v = py_strip (if truthy v then py_str E v else dflt)"

definition clean_headers :: "env \<Rightarrow> pydict \<Rightarrow> pydict" where
  "clean_headers E d =
     map (\<lambda>(k, v). (k, VStr (py_str E v))) (filter (\<lambda>(k, v). py_strip (py_str E v) \<noteq> []) d)"

definition validate_channel_config :: "env \<Rightarrow> string \<Rightarrow> pyval \<Rightarrow> notif_error + pydict" where
  "validate_channel_config E kind config =
     (case config of
        VDict d \<Rightarrow>
          (if kind \<in> set [''webhook_generic'', ''slack'', ''discord''] then
             (let url = text_or E [] (dget d ''url'') in
              if url = [] then Inl (invalid (kind @ '' channel requires a '' @ quoted ''url''))
              else if \<not> (starts_with url ''http://'' \<or> starts_with url ''https://'')
              then Inl (invalid ''url must start with http:// or https://'')
              else if kind = ''webhook_generic'' then
                (let meth = py_upper (text_or E ''POST'' (dget d ''method''));
                     hs = dget d ''headers''
                 in if meth \<noteq> ''POST'' \<and> meth \<noteq> ''PUT'' then Inl (invalid ''method must be POST or PUT'')
                    else if truthy hs \<and> \<not> is_dict hs then Inl (invalid ''headers must be an object'')
                    else Inr [(''url'', VStr url), (''method'', VStr meth),
                              (''headers'', VDict (clean_headers E (dict_of hs)))])
              else Inr [(''url'', VStr url)])
           else if kind = ''pushover'' then
             (let app_token = text_or E [] (dget d ''app_token''); user_key = text_or E [] (dget d ''user_key'') in
              if app_token = [] \<or> user_key = []
              then Inl (invalid (''pushover channel requires '' @ quoted ''app_token'' @ '' and '' @ quoted ''user_key''))
              else Inr [(''app_token'', VStr app_token), (''user_key'', VStr user_key)])
           else Inl (invalid (''unknown channel kind: '' @ quoted kind)))
      | _ \<Rightarrow> Inl (invalid ''config must be an object''))"

section \<open>Serialisation\<close>

definition redact_config :: "pydict \<Rightarrow> pydict" where
  "redact_config config =
     map (\<lambda>(k, v). (k, if k \<in> set SECRET_CONFIG_KEYS \<and> truthy v then VStr ''__redacted__'' else v)) config"

definition serialize_channel :: "bool \<Rightarrow> webhook_channel \<Rightarrow> pydict" where
  "serialize_channel redacted c =
     [(''id'', VStr (whc_id c)), (''name'', VStr (whc_name c)), (''kind'', VStr (whc_kind c)),
      (''config'', VDict (if redacted then redact_config (whc_config c) else whc_config c)),
      (''enabled'', VBool (whc_enabled c)),
      (''has_signing_secret'', VBool (whc_signing_secret c \<noteq> None \<and> whc_signing_secret c \<noteq> Some [])),
      (''created_at'', VStr (iso_z (whc_created_at c))), (''updated_at'', VStr (iso_z (whc_updated_at c)))]"

definition serialize_subscription :: "notification_subscription \<Rightarrow> pydict" where
  "serialize_subscription s =
     [(''id'', VStr (nsub_id s)), (''event_type'', VStr (nsub_event_type s)),
      (''channel_id'', VStr (nsub_channel_id s)), (''site_id'', of_opt_str (nsub_site_id s)),
      (''enabled'', VBool (nsub_enabled s)), (''created_at'', VStr (iso_z (nsub_created_at s)))]"

section \<open>Channels\<close>

definition channel_obj :: "string option \<Rightarrow> bool \<Rightarrow> flush_obj" where
  "channel_obj org m = \<lparr>fo_class = ''WebhookChannel'', fo_org = org, fo_modified = m\<rparr>"

text \<open>\<open>session.get(WebhookChannel, id)\<close> in a fresh session.\<close>

definition load_channel :: "env \<Rightarrow> string \<Rightarrow> ctx \<times> hub \<Rightarrow> webhook_channel option \<times> ctx \<times> hub" where
  "load_channel E i s =
     (let (rows, s1) = select_scoped E ''webhook_channels'' whc_organization_id h_channels s
      in (tget whc_id i rows, s1))"

text \<open>\<open>secret\<close> is what \<open>secrets.token_urlsafe(32)\<close> draws.\<close>

definition create_channel ::
  "env \<Rightarrow> string \<Rightarrow> string option \<Rightarrow> string \<Rightarrow> pyval \<Rightarrow> string option \<Rightarrow> ctx \<times> hub \<Rightarrow>
   notif_error + (pydict \<times> ctx \<times> hub)" where
  "create_channel E secret name kind config created_by s =
     (let nm = py_strip (case name of None \<Rightarrow> [] | Some n \<Rightarrow> n) in
      if nm = [] then Inl (invalid ''name is required'')
      else if 120 < length nm then Inl (invalid ''name must be 120 characters or fewer'')
      else if kind \<notin> set CHANNEL_KINDS
      then Inl (invalid (''kind must be one of ('' @ join_with '', '' (map quoted CHANNEL_KINDS) @ '')''))
      else case validate_channel_config E kind (if truthy config then config else VDict []) of
        Inl e \<Rightarrow> Inl e
      | Inr cleaned \<Rightarrow>
          (case stamp_and_guard_tenant_writes E [channel_obj None True] [] s of
             Inl e \<Rightarrow> Inl (NotifRefused e)
           | Inr (new, _, c, h) \<Rightarrow>
               (let row = \<lparr>whc_id = new_id (env_ulid E) ''whc'' (h_ulid h), whc_organization_id = fo_org (hd new),
                           whc_name = nm, whc_kind = kind, whc_config = cleaned, whc_signing_secret = Some secret,
                           whc_enabled = True, whc_created_by_user_id = created_by,
                           whc_created_at = env_now E, whc_updated_at = env_now E\<rparr>
                in Inr (serialize_channel True row,
                        c, h\<lparr>h_channels := tadd row (h_channels h), h_ulid := Suc (h_ulid h)\<rparr>))))"

definition list_channels :: "env \<Rightarrow> ctx \<times> hub \<Rightarrow> pydict list \<times> ctx \<times> hub" where
  "list_channels E s =
     (let (rows, s1) = select_scoped E ''webhook_channels'' whc_organization_id h_channels s
      in (map (serialize_channel True) (sort_key whc_name rows), s1))"

definition get_channel :: "env \<Rightarrow> string \<Rightarrow> ctx \<times> hub \<Rightarrow> pydict option \<times> ctx \<times> hub" where
  "get_channel E i s = (let (r, s1) = load_channel E i s in (map_option (serialize_channel True) r, s1))"

text \<open>The flush of one changed channel row, under the organization the guard leaves it with.\<close>

definition save_channel ::
  "env \<Rightarrow> webhook_channel \<Rightarrow> webhook_channel \<Rightarrow> ctx \<times> hub \<Rightarrow> notif_error + (webhook_channel \<times> ctx \<times> hub)" where
  "save_channel E old new s =
     (case stamp_and_guard_tenant_writes E [] [channel_obj (whc_organization_id old) (new \<noteq> old)] s of
        Inl e \<Rightarrow> Inl (NotifRefused e)
      | Inr (_, dirty, c, h) \<Rightarrow>
          (let row = new\<lparr>whc_organization_id := fo_org (hd dirty)\<rparr>
           in Inr (row, c, h\<lparr>h_channels := tupd whc_id (whc_id old) (\<lambda>_. row) (h_channels h)\<rparr>)))"

definition update_channel ::
  "env \<Rightarrow> string \<Rightarrow> string option \<Rightarrow> pyval \<Rightarrow> ctx \<times> hub \<Rightarrow> notif_error + (pydict option \<times> ctx \<times> hub)" where
  "update_channel E i name config s =
     (let nm = py_strip (case name of None \<Rightarrow> [] | Some n \<Rightarrow> n) in
      if nm = [] then Inl (invalid ''name is required'')
      else case load_channel E i s of
        (None, s1) \<Rightarrow> Inr (None, s1)
      | (Some row, s1) \<Rightarrow>
          (case (if config = VNone then Inr (whc_config row) else validate_channel_config E (whc_kind row) config) of
             Inl e \<Rightarrow> Inl e
           | Inr cfg \<Rightarrow>
               (case save_channel E row (row\<lparr>whc_name := nm, whc_config := cfg, whc_updated_at := env_now E\<rparr>) s1 of
                  Inl e \<Rightarrow> Inl e
                | Inr (row', s2) \<Rightarrow> Inr (Some (serialize_channel True row'), s2))))"

definition toggle_channel ::
  "env \<Rightarrow> string \<Rightarrow> ctx \<times> hub \<Rightarrow> notif_error + (pydict option \<times> ctx \<times> hub)" where
  "toggle_channel E i s =
     (case load_channel E i s of
        (None, s1) \<Rightarrow> Inr (None, s1)
      | (Some row, s1) \<Rightarrow>
          (case save_channel E row (row\<lparr>whc_enabled := \<not> whc_enabled row, whc_updated_at := env_now E\<rparr>) s1 of
             Inl e \<Rightarrow> Inl e
           | Inr (row', s2) \<Rightarrow> Inr (Some (serialize_channel True row'), s2)))"

text \<open>The foreign keys of subscriptions and deliveries cascade.\<close>

definition delete_channel :: "env \<Rightarrow> string \<Rightarrow> ctx \<times> hub \<Rightarrow> notif_error + (bool \<times> ctx \<times> hub)" where
  "delete_channel E i s =
     (case load_channel E i s of
        (None, s1) \<Rightarrow> Inr (False, s1)
      | (Some row, s1) \<Rightarrow>
          (case stamp_and_guard_tenant_writes E [] [] s1 of
             Inl e \<Rightarrow> Inl (NotifRefused e)
           | Inr (_, _, c, h) \<Rightarrow>
               Inr (True, c, h\<lparr>h_channels := tdel whc_id i (h_channels h),
                  h_subscriptions := filter (\<lambda>b. nsub_channel_id b \<noteq> i) (h_subscriptions h),
                  h_deliveries := filter (\<lambda>d. whd_channel_id d \<noteq> i) (h_deliveries h)\<rparr>)))"

section \<open>Subscriptions\<close>

definition create_subscription ::
  "env \<Rightarrow> string \<Rightarrow> string \<Rightarrow> string option \<Rightarrow> ctx \<times> hub \<Rightarrow> notif_error + (pydict \<times> ctx \<times> hub)" where
  "create_subscription E event_type channel_id sid s =
     (if event_type \<notin> set EVENT_TYPES
      then Inl (invalid (''event_type must be one of ('' @ join_with '', '' (map quoted EVENT_TYPES) @ '')''))
      else case load_channel E channel_id s of
        (None, _) \<Rightarrow> Inl (NotificationError ''channel_unknown'' ''channel not found'')
      | (Some _, s1) \<Rightarrow>
          (case stamp_and_guard_tenant_writes E
                  [\<lparr>fo_class = ''NotificationSubscription'', fo_org = None, fo_modified = True\<rparr>] [] s1 of
             Inl e \<Rightarrow> Inl (NotifRefused e)
           | Inr (new, _, c, h) \<Rightarrow>
               (let row = \<lparr>nsub_id = new_id (env_ulid E) ''nsub'' (h_ulid h), nsub_organization_id = fo_org (hd new),
                           nsub_event_type = event_type, nsub_channel_id = channel_id,
                           nsub_site_id = (if sid = Some [] then None else sid), nsub_enabled = True,
                           nsub_created_at = env_now E\<rparr>
                in case nsub_site_id row of
                     Some k \<Rightarrow> (if get_site k h = None then Inl NotifIntegrityError
                                else Inr (serialize_subscription row, c,
                                       h\<lparr>h_subscriptions := tadd row (h_subscriptions h), h_ulid := Suc (h_ulid h)\<rparr>))
                   | None \<Rightarrow> Inr (serialize_subscription row, c,
                                       h\<lparr>h_subscriptions := tadd row (h_subscriptions h), h_ulid := Suc (h_ulid h)\<rparr>))))"

definition list_subscriptions :: "env \<Rightarrow> ctx \<times> hub \<Rightarrow> pydict list \<times> ctx \<times> hub" where
  "list_subscriptions E s =
     (let (rows, s1) = select_scoped E ''notification_subscriptions'' nsub_organization_id h_subscriptions s
      in (map serialize_subscription (sort_key nsub_event_type rows), s1))"

definition delete_subscription :: "env \<Rightarrow> string \<Rightarrow> ctx \<times> hub \<Rightarrow> notif_error + (bool \<times> ctx \<times> hub)" where
  "delete_subscription E i s =
     (let (rows, s1) = select_scoped E ''notification_subscriptions'' nsub_organization_id h_subscriptions s in
      case tget nsub_id i rows of
        None \<Rightarrow> Inr (False, s1)
      | Some _ \<Rightarrow>
          (case stamp_and_guard_tenant_writes E [] [] s1 of
             Inl e \<Rightarrow> Inl (NotifRefused e)
           | Inr (_, _, c, h) \<Rightarrow> Inr (True, c, h\<lparr>h_subscriptions := tdel nsub_id i (h_subscriptions h)\<rparr>)))"

section \<open>Emission\<close>

definition new_delivery :: "env \<Rightarrow> webhook_channel \<Rightarrow> string \<Rightarrow> pydict \<Rightarrow> webhook_delivery" where
  "new_delivery E ch event_type payload =
     \<lparr>whd_id = 0, whd_organization_id = whc_organization_id ch, whd_channel_id = whc_id ch,
      whd_event_type = event_type, whd_payload = payload, whd_status = ''pending'', whd_attempts = 0,
      whd_http_status = None, whd_response_snippet = None, whd_next_attempt_at = Some (env_now E),
      whd_created_at = env_now E, whd_updated_at = env_now E\<rparr>"

text \<open>A site filter only rules out an event that names another site.\<close>

definition site_skips :: "string option \<Rightarrow> string option \<Rightarrow> bool" where
  "site_skips sub_site event_site \<longleftrightarrow>
     (case (sub_site, event_site) of
        (Some a, Some b) \<Rightarrow> a \<noteq> [] \<and> b \<noteq> [] \<and> a \<noteq> b
      | _ \<Rightarrow> False)"

text \<open>The loop over the subscriptions. The session holds the channel it read last, so a second
  subscription to it is served from the identity map without a SELECT.\<close>

fun queue_matching ::
  "env \<Rightarrow> string \<Rightarrow> pydict \<Rightarrow> string option \<Rightarrow> webhook_channel option \<Rightarrow> notification_subscription list \<Rightarrow>
   ctx \<times> hub \<Rightarrow> webhook_delivery list \<times> ctx \<times> hub" where
  "queue_matching E event_type payload sid held [] s = ([], s)"
| "queue_matching E event_type payload sid held (b # bs) s =
     (if site_skips (nsub_site_id b) sid then queue_matching E event_type payload sid held bs s
      else
        let (found, s1) = (case held of
               Some ch \<Rightarrow> if whc_id ch = nsub_channel_id b then (held, s) else load_channel E (nsub_channel_id b) s
             | None \<Rightarrow> load_channel E (nsub_channel_id b) s);
            (ds, s2) = queue_matching E event_type payload sid found bs s1
        in case found of
             None \<Rightarrow> (ds, s2)
           | Some ch \<Rightarrow> (if whc_enabled ch then (new_delivery E ch event_type payload # ds, s2) else (ds, s2)))"

definition delivery_obj :: "webhook_delivery \<Rightarrow> flush_obj" where
  "delivery_obj d = \<lparr>fo_class = ''WebhookDelivery'', fo_org = whd_organization_id d, fo_modified = True\<rparr>"

text \<open>The rows of the flush: the organization the guard gives them and the next ids of the sequence.\<close>

fun number_rows :: "int \<Rightarrow> webhook_delivery list \<Rightarrow> webhook_delivery list" where
  "number_rows n [] = []"
| "number_rows n (d # ds) = d\<lparr>whd_id := n + 1\<rparr> # number_rows (n + 1) ds"

definition insert_deliveries :: "webhook_delivery list \<Rightarrow> flush_obj list \<Rightarrow> hub \<Rightarrow> hub" where
  "insert_deliveries ds objs h =
     h\<lparr>h_deliveries := h_deliveries h
         @ number_rows (h_delivery_seq h) (map2 (\<lambda>d ob. d\<lparr>whd_organization_id := fo_org ob\<rparr>) ds objs),
       h_delivery_seq := h_delivery_seq h + int (length ds)\<rparr>"

text \<open>A refused flush is swallowed: nothing is queued and the result is 0.\<close>

definition emit :: "env \<Rightarrow> string \<Rightarrow> pydict \<Rightarrow> string option \<Rightarrow> ctx \<times> hub \<Rightarrow> nat \<times> ctx \<times> hub" where
  "emit E event_type payload sid s =
     (if event_type \<notin> set EVENT_TYPES then (0, s)
      else
        let (rows, s1) = select_scoped E ''notification_subscriptions'' nsub_organization_id h_subscriptions s;
            subs = filter (\<lambda>b. nsub_event_type b = event_type \<and> nsub_enabled b) rows;
            (ds, s2) = queue_matching E event_type payload sid None subs s1
        in case stamp_and_guard_tenant_writes E (map delivery_obj ds) [] s2 of
             Inl _ \<Rightarrow> (0, fst s2, snd s)
           | Inr (objs, _, c, h) \<Rightarrow> (length ds, c, insert_deliveries ds objs h))"

section \<open>Stored configurations are well formed\<close>

text \<open>What a channel of a kind must carry: an http(s) URL, for a generic webhook also a method and headers
  with non-blank text, or the two Pushover keys.\<close>

definition header_ok :: "string \<times> pyval \<Rightarrow> bool" where
  "header_ok kv \<longleftrightarrow> (case snd kv of VStr t \<Rightarrow> py_strip t \<noteq> [] | _ \<Rightarrow> False)"

definition url_ok :: "pyval \<Rightarrow> bool" where
  "url_ok v \<longleftrightarrow> (case v of VStr u \<Rightarrow> py_strip u = u \<and> (starts_with u ''http://'' \<or> starts_with u ''https://'') | _ \<Rightarrow> False)"

definition config_ok :: "string \<Rightarrow> pydict \<Rightarrow> bool" where
  "config_ok kind d \<longleftrightarrow>
     (if kind = ''webhook_generic'' then
        url_ok (dget d ''url'') \<and> (dget d ''method'' = VStr ''POST'' \<or> dget d ''method'' = VStr ''PUT'')
        \<and> (case dget d ''headers'' of VDict hs \<Rightarrow> list_all header_ok hs | _ \<Rightarrow> False)
      else if kind = ''slack'' \<or> kind = ''discord'' then url_ok (dget d ''url'')
      else kind = ''pushover'' \<and> is_str (dget d ''app_token'') \<and> is_str (dget d ''user_key''))"

definition channel_ok :: "webhook_channel \<Rightarrow> bool" where
  "channel_ok c \<longleftrightarrow> config_ok (whc_kind c) (whc_config c)"

lemma clean_headers_ok: "list_all header_ok (clean_headers E d)"
  by (auto simp: clean_headers_def list_all_iff header_ok_def)

lemma text_or_strip [simp]: "py_strip (text_or E d v) = text_or E d v"
  by (simp add: text_or_def)

lemma validate_config_ok:
  assumes "validate_channel_config E kind config = Inr d"
  shows "config_ok kind d"
proof -
  obtain cf where cf: "config = VDict cf" using assms by (cases config) (auto simp: validate_channel_config_def)
  consider (hook) "kind = ''webhook_generic''" | (plain) "kind = ''slack'' \<or> kind = ''discord''" | (push) "kind = ''pushover''"
    using assms by (auto simp: validate_channel_config_def cf split: if_splits)
  then show ?thesis
  proof cases
    case hook
    then show ?thesis using assms clean_headers_ok [of E "dict_of (dget cf ''headers'')"]
      by (auto simp: validate_channel_config_def cf Let_def config_ok_def url_ok_def dget_def split: if_splits)
  next
    case plain
    then show ?thesis using assms
      by (auto simp: validate_channel_config_def cf Let_def config_ok_def url_ok_def dget_def split: if_splits)
  next
    case push
    then show ?thesis using assms
      by (auto simp: validate_channel_config_def cf Let_def config_ok_def dget_def split: if_splits)
  qed
qed

section \<open>Reading under the system bypass\<close>

lemma select_system [simp]: "cx_bypass c \<Longrightarrow> select_scoped E t org_of rows (c, h) = (rows h, c, h)"
  by (simp add: select_scoped_def add_tenant_filter_def visible_def)

lemma flush_system [simp]: "cx_bypass c \<Longrightarrow> stamp_and_guard_tenant_writes E new dirty (c, h) = Inr (new, dirty, c, h)"
  by (simp add: stamp_and_guard_tenant_writes_def)

lemma load_system [simp]: "cx_bypass c \<Longrightarrow> load_channel E i (c, h) = (tget whc_id i (h_channels h), c, h)"
  by (simp add: load_channel_def)

text \<open>The channels an event is queued for: one per enabled subscription to its type whose site filter does
  not rule it out and whose channel exists and is enabled.\<close>

definition target_of :: "hub \<Rightarrow> string option \<Rightarrow> notification_subscription \<Rightarrow> webhook_channel list" where
  "target_of h sid b =
     (if site_skips (nsub_site_id b) sid then []
      else case tget whc_id (nsub_channel_id b) (h_channels h) of
        None \<Rightarrow> []
      | Some ch \<Rightarrow> (if whc_enabled ch then [ch] else []))"

definition emit_targets :: "hub \<Rightarrow> string \<Rightarrow> string option \<Rightarrow> webhook_channel list" where
  "emit_targets h event_type sid =
     concat (map (target_of h sid) (filter (\<lambda>b. nsub_event_type b = event_type \<and> nsub_enabled b) (h_subscriptions h)))"

lemma queue_matching_system:
  assumes "cx_bypass c" and "\<forall>ch. held = Some ch \<longrightarrow> tget whc_id (whc_id ch) (h_channels h) = Some ch"
  shows "queue_matching E event_type payload sid held bs (c, h)
     = (map (\<lambda>ch. new_delivery E ch event_type payload) (concat (map (target_of h sid) bs)), c, h)"
  using assms(2)
proof (induction bs arbitrary: held)
  case (Cons b bs)
  let ?found = "tget whc_id (nsub_channel_id b) (h_channels h)"
  have "(case held of Some ch \<Rightarrow> if whc_id ch = nsub_channel_id b then (held, c, h) else load_channel E (nsub_channel_id b) (c, h)
         | None \<Rightarrow> load_channel E (nsub_channel_id b) (c, h)) = (?found, c, h)"
    using assms(1) Cons.prems by (auto split: option.splits)
  moreover have "\<forall>ch. ?found = Some ch \<longrightarrow> tget whc_id (whc_id ch) (h_channels h) = Some ch"
    using tget_SomeD by fastforce
  ultimately show ?case using Cons.IH [of held] Cons.IH [of ?found] Cons.prems
    by (auto simp: target_of_def split: option.splits)
qed simp

lemma stamped_same: "map2 (\<lambda>d ob. d\<lparr>whd_organization_id := fo_org ob\<rparr>) ds (map delivery_obj ds) = ds"
  by (induction ds) (auto simp: delivery_obj_def)

lemma insert_own:
  "insert_deliveries ds (map delivery_obj ds) h =
     h\<lparr>h_deliveries := h_deliveries h @ number_rows (h_delivery_seq h) ds,
       h_delivery_seq := h_delivery_seq h + int (length ds)\<rparr>"
  by (simp add: insert_deliveries_def stamped_same)

lemma emit_system_eq:
  assumes "cx_bypass c" and "event_type \<in> set EVENT_TYPES"
  shows "emit E event_type payload sid (c, h) =
     (length (emit_targets h event_type sid), c,
      h\<lparr>h_deliveries := h_deliveries h @ number_rows (h_delivery_seq h)
           (map (\<lambda>ch. new_delivery E ch event_type payload) (emit_targets h event_type sid)),
        h_delivery_seq := h_delivery_seq h + int (length (emit_targets h event_type sid))\<rparr>)"
  using assms queue_matching_system [OF assms(1), of None]
  by (simp add: emit_def emit_targets_def insert_own del: map_map)

section \<open>Queued rows\<close>

lemma number_rows_simps [simp]:
  "length (number_rows n ds) = length ds"
  "map whd_id (number_rows n ds) = map (\<lambda>k. n + 1 + int k) [0 ..< length ds]"
proof -
  show "length (number_rows n ds) = length ds" by (induction ds arbitrary: n) auto
  show "map whd_id (number_rows n ds) = map (\<lambda>k. n + 1 + int k) [0 ..< length ds]"
  proof (induction ds arbitrary: n)
    case (Cons d ds)
    have "[0 ..< length (d # ds)] = 0 # map Suc [0 ..< length ds]"
      by (simp add: upt_conv_Cons map_Suc_upt del: upt_Suc)
    then show ?case using Cons [of "n + 1"] by simp
  qed simp
qed

lemma number_rows_mem:
  "d \<in> set (number_rows n ds) \<Longrightarrow> \<exists>d0 i. d0 \<in> set ds \<and> d = d0\<lparr>whd_id := i\<rparr> \<and> n < i \<and> i \<le> n + int (length ds)"
proof (induction ds arbitrary: n)
  case (Cons d0 ds)
  show ?case
  proof (cases "d = d0\<lparr>whd_id := n + 1\<rparr>")
    case True
    then show ?thesis by (intro exI [of _ d0] exI [of _ "n + 1"]) auto
  next
    case False
    then have "d \<in> set (number_rows (n + 1) ds)" using Cons.prems by simp
    then obtain d1 i where "d1 \<in> set ds" "d = d1\<lparr>whd_id := i\<rparr>" "n + 1 < i" "i \<le> n + 1 + int (length ds)"
      using Cons.IH by blast
    then show ?thesis by (intro exI [of _ d1] exI [of _ i]) auto
  qed
qed simp

section \<open>Properties\<close>

text \<open>An event emitted by a job (jobs run under the system bypass) is queued for every enabled channel
  with an enabled subscription to its type, in the order of the subscriptions, one pending row each,
  due at once and carrying the payload and the channel's organization. The organization the event
  belongs to plays no part: an event of one tenant is queued for the channels of all the others.\<close>

theorem emit_reaches_every_tenant:
  assumes "cx_bypass c" and "event_type \<in> set EVENT_TYPES"
  shows "\<exists>new. emit E event_type payload sid (c, h) = (length new, c,
           h\<lparr>h_deliveries := h_deliveries h @ new, h_delivery_seq := h_delivery_seq h + int (length new)\<rparr>)
     \<and> map whd_channel_id new = map whc_id (emit_targets h event_type sid)
     \<and> (\<forall>d \<in> set new. whd_payload d = payload \<and> whd_status d = ''pending'' \<and> whd_next_attempt_at d = Some (env_now E))"
proof -
  let ?ds = "map (\<lambda>ch. new_delivery E ch event_type payload) (emit_targets h event_type sid)"
  let ?new = "number_rows (h_delivery_seq h) ?ds"
  have "map whd_channel_id (number_rows n ds) = map whd_channel_id ds" for n ds
    by (induction ds arbitrary: n) auto
  moreover have "whd_payload d = payload \<and> whd_status d = ''pending'' \<and> whd_next_attempt_at d = Some (env_now E)"
    if "d \<in> set ?new" for d
    using number_rows_mem [OF that] by (auto simp: new_delivery_def)
  ultimately show ?thesis
    by (intro exI [of _ ?new]) (simp add: emit_system_eq [OF assms] new_delivery_def)
qed

definition demo_channel :: "string \<Rightarrow> string \<Rightarrow> webhook_channel" where
  "demo_channel i org = \<lparr>whc_id = i, whc_organization_id = Some org, whc_name = i, whc_kind = ''slack'',
     whc_config = [(''url'', VStr ''https://hooks.example.net:x/'')], whc_signing_secret = Some ''k'', whc_enabled = True,
     whc_created_by_user_id = None, whc_created_at = 0, whc_updated_at = 0\<rparr>"

definition demo_subscription :: "string \<Rightarrow> string \<Rightarrow> notification_subscription" where
  "demo_subscription i org = \<lparr>nsub_id = i, nsub_organization_id = Some org, nsub_event_type = ''watchdog.rule_fired'',
     nsub_channel_id = i, nsub_site_id = Some ''site_b'', nsub_enabled = True, nsub_created_at = 0\<rparr>"

definition notif_hub :: hub where
  "notif_hub = empty_hub\<lparr>h_channels := [demo_channel ''whc_a'' ''org_a'', demo_channel ''whc_b'' ''org_b''],
     h_subscriptions := [demo_subscription ''whc_b'' ''org_b'']\<rparr>"

definition job_ctx :: ctx where
  "job_ctx = (scope_ctx None)\<lparr>cx_bypass := True\<rparr>"

lemma job_ctx_bypass [simp]: "cx_bypass job_ctx"
  by (simp add: job_ctx_def)

theorem emit_reaches_every_tenant_witness:
  "map whd_channel_id (h_deliveries (snd (snd (emit scope_env ''watchdog.rule_fired''
      [(''rule_name'', VStr ''a secret of org_a'')] None (job_ctx, notif_hub))))) = [''whc_b'']"
proof -
  have t: "emit_targets notif_hub ''watchdog.rule_fired'' None = [demo_channel ''whc_b'' ''org_b'']"
    by (simp add: emit_targets_def notif_hub_def target_of_def site_skips_def demo_channel_def demo_subscription_def)
  have e: "''watchdog.rule_fired'' \<in> set EVENT_TYPES" by (simp add: EVENT_TYPES_def)
  obtain new where n: "emit scope_env ''watchdog.rule_fired'' [(''rule_name'', VStr ''a secret of org_a'')] None (job_ctx, notif_hub)
      = (length new, job_ctx, notif_hub\<lparr>h_deliveries := h_deliveries notif_hub @ new,
           h_delivery_seq := h_delivery_seq notif_hub + int (length new)\<rparr>)"
    "map whd_channel_id new = map whc_id [demo_channel ''whc_b'' ''org_b'']"
    using emit_reaches_every_tenant [OF job_ctx_bypass e,
        of scope_env "[(''rule_name'', VStr ''a secret of org_a'')]" None notif_hub] unfolding t by blast
  then show ?thesis by (simp add: notif_hub_def empty_hub_def demo_channel_def)
qed

end
