(* ===== verification/Ssrf.thy ===== *)
theory Ssrf
  imports RuntimeSettings PyText "HOL-Library.Word"
begin

text \<open>
  The guard of outbound HTTP (\<open>app/services/ssrf_guard.py\<close>): address parsing and classification on 32-
  and 128-bit words, the validation of a URL and the address a request is pinned to. What the code
  takes from the standard library (\<open>ipaddress\<close> and \<open>urllib.parse\<close> of Python 3.12) is modelled on ASCII text.
  The resolver (\<open>getaddrinfo\<close>) and the HTTP client (\<open>requests\<close>) are arguments; \<open>Inl\<close> is the text of the
  exception they raise.
\<close>

unbundle bit_operations_syntax

section \<open>Addresses\<close>

datatype ip = V4 "32 word" | V6 "128 word" "string option"

text \<open>\<open>IPv4Address\<close>: four decimal octets without leading zeros.\<close>

definition parse_octet :: "string \<Rightarrow> nat option" where
  "parse_octet s =
     (if s = [] \<or> \<not> list_all is_digit s \<or> 3 < length s then None
      else if s \<noteq> ''0'' \<and> hd s = CHR ''0'' then None
      else if 255 < dec_value s then None
      else Some (dec_value s))"

definition quad :: "nat \<Rightarrow> nat \<Rightarrow> nat \<Rightarrow> nat \<Rightarrow> nat" where
  "quad a b c d = ((a * 256 + b) * 256 + c) * 256 + d"

definition v4_of :: "nat \<Rightarrow> nat \<Rightarrow> nat \<Rightarrow> nat \<Rightarrow> 32 word" where
  "v4_of a b c d = of_nat (quad a b c d)"

definition parse_ipv4 :: "string \<Rightarrow> 32 word option" where
  "parse_ipv4 s =
     (case map parse_octet (split_on CHR ''.'' s) of
        [Some a, Some b, Some c, Some d] \<Rightarrow> Some (v4_of a b c d)
      | _ \<Rightarrow> None)"

text \<open>\<open>str(ip)\<close> of an IPv4 address.\<close>

definition print_ipv4 :: "32 word \<Rightarrow> string" where
  "print_ipv4 w = (let n = unat w in
     join_with ''.'' (map dec [n div 16777216, n div 65536 mod 256, n div 256 mod 256, n mod 256]))"

text \<open>\<open>IPv6Address\<close>: a part is the text of a hextet, or one half of an embedded IPv4 address.\<close>

definition hex_value :: "char \<Rightarrow> nat option" where
  "hex_value c =
     (let n = of_char c :: nat in
      if 48 \<le> n \<and> n \<le> 57 then Some (n - 48)
      else if 97 \<le> n \<and> n \<le> 102 then Some (n - 87)
      else if 65 \<le> n \<and> n \<le> 70 then Some (n - 55)
      else None)"

definition parse_hextet :: "string + nat \<Rightarrow> nat option" where
  "parse_hextet p =
     (case p of
        Inr n \<Rightarrow> Some n
      | Inl s \<Rightarrow> (if s = [] \<or> 4 < length s \<or> \<not> list_all (\<lambda>c. hex_value c \<noteq> None) s then None
                 else Some (fold (\<lambda>c n. n * 16 + the (hex_value c)) s 0)))"

definition v6_parts :: "string \<Rightarrow> (string + nat) list option" where
  "v6_parts s =
     (let ps = split_on CHR '':'' s; lst = last ps in
      if s = [] \<or> length ps < 3 then None
      else if CHR ''.'' \<in> set lst then
        (case parse_ipv4 lst of
           None \<Rightarrow> None
         | Some w \<Rightarrow> Some (map Inl (butlast ps) @ [Inr (unat w div 65536), Inr (unat w mod 65536)]))
      else Some (map Inl ps))"

text \<open>The inner positions that are empty: the \<open>::\<close>.\<close>

definition skip_indices :: "(string + nat) list \<Rightarrow> nat list" where
  "skip_indices ps = filter (\<lambda>i. ps ! i = Inl []) [1 ..< length ps - 1]"

text \<open>How many parts stand before and after the \<open>::\<close>, and how many it stands for.\<close>

definition v6_layout :: "(string + nat) list \<Rightarrow> (nat \<times> nat \<times> nat) option" where
  "v6_layout ps =
     (if 9 < length ps then None
      else case skip_indices ps of
        [] \<Rightarrow> (if length ps \<noteq> 8 \<or> hd ps = Inl [] \<or> last ps = Inl [] then None else Some (8, 0, 0))
      | [i] \<Rightarrow>
          (let lo0 = length ps - i - 1;
               hi = (if hd ps = Inl [] then i - 1 else i);
               lo = (if last ps = Inl [] then lo0 - 1 else lo0)
           in if hd ps = Inl [] \<and> hi \<noteq> 0 then None
              else if last ps = Inl [] \<and> lo \<noteq> 0 then None
              else if 8 \<le> hi + lo then None
              else Some (hi, 8 - (hi + lo), lo))
      | _ \<Rightarrow> None)"

definition parse_ipv6 :: "string \<Rightarrow> 128 word option" where
  "parse_ipv6 s =
     (case v6_parts s of
        None \<Rightarrow> None
      | Some ps \<Rightarrow>
          (case v6_layout ps of
             None \<Rightarrow> None
           | Some (hi, skipped, lo) \<Rightarrow>
               (let hs = map parse_hextet (take hi ps @ replicate skipped (Inr 0) @ drop (length ps - lo) ps) in
                if None \<in> set hs then None
                else Some (fold (\<lambda>h w. push_bit 16 w OR of_nat (the h)) hs 0))))"

text \<open>\<open>_split_scope_id\<close>.\<close>

definition split_scope :: "string \<Rightarrow> (string \<times> string option) option" where
  "split_scope s =
     (let (a, found, z) = py_partition CHR ''%'' s in
      if \<not> found then Some (a, None)
      else if z = [] \<or> CHR ''%'' \<in> set z then None
      else Some (a, Some z))"

definition ip_address :: "string \<Rightarrow> ip option" where
  "ip_address s =
     (case parse_ipv4 s of
        Some w \<Rightarrow> Some (V4 w)
      | None \<Rightarrow>
          (if CHR ''/'' \<in> set s then None
           else case split_scope s of
             None \<Rightarrow> None
           | Some (a, z) \<Rightarrow> map_option (\<lambda>w. V6 w z) (parse_ipv6 a)))"

section \<open>Networks\<close>

text \<open>\<open>address in network\<close>: the address under the network's mask is the network address.\<close>

definition in_net :: "'a::len word \<Rightarrow> 'a word \<times> nat \<Rightarrow> bool" where
  "in_net a net \<longleftrightarrow> a AND NOT (mask (LENGTH('a) - snd net)) = fst net"

definition in_any :: "'a::len word \<Rightarrow> ('a word \<times> nat) list \<Rightarrow> bool" where
  "in_any a nets \<longleftrightarrow> list_ex (in_net a) nets"

text \<open>The number of an IPv6 address from its first three hextets and what follows them.\<close>

definition hexts :: "nat \<Rightarrow> nat \<Rightarrow> nat \<Rightarrow> nat \<Rightarrow> nat" where
  "hexts a b c low = ((a * 65536 + b) * 65536 + c) * 2 ^ 80 + low"

definition v6_of :: "nat \<Rightarrow> nat \<Rightarrow> nat \<Rightarrow> nat \<Rightarrow> 128 word" where
  "v6_of a b c low = of_nat (hexts a b c low)"

definition PRIVATE4 :: "(32 word \<times> nat) list" where
  "PRIVATE4 = [(v4_of 0 0 0 0, 8), (v4_of 10 0 0 0, 8), (v4_of 127 0 0 0, 8), (v4_of 169 254 0 0, 16),
     (v4_of 172 16 0 0, 12), (v4_of 192 0 0 0, 24), (v4_of 192 0 0 170, 31), (v4_of 192 0 2 0, 24),
     (v4_of 192 168 0 0, 16), (v4_of 198 18 0 0, 15), (v4_of 198 51 100 0, 24), (v4_of 203 0 113 0, 24),
     (v4_of 240 0 0 0, 4), (v4_of 255 255 255 255, 32)]"

definition PRIVATE4_EXCEPTIONS :: "(32 word \<times> nat) list" where
  "PRIVATE4_EXCEPTIONS = [(v4_of 192 0 0 9, 32), (v4_of 192 0 0 10, 32)]"

definition PRIVATE6 :: "(128 word \<times> nat) list" where
  "PRIVATE6 = [(v6_of 0 0 0 1, 128), (v6_of 0 0 0 0, 128), (v6_of 0 0 0 0xFFFF00000000, 96), (v6_of 0x64 0xff9b 1 0, 48), (v6_of 0x100 0 0 0, 64),
     (v6_of 0x2001 0 0 0, 23), (v6_of 0x2001 0xdb8 0 0, 32), (v6_of 0x2002 0 0 0, 16), (v6_of 0xfc00 0 0 0, 7),
     (v6_of 0xfe80 0 0 0, 10)]"

definition PRIVATE6_EXCEPTIONS :: "(128 word \<times> nat) list" where
  "PRIVATE6_EXCEPTIONS = [(v6_of 0x2001 1 0 1, 128), (v6_of 0x2001 1 0 2, 128), (v6_of 0x2001 3 0 0, 32),
     (v6_of 0x2001 4 0x112 0, 48), (v6_of 0x2001 0x20 0 0, 28), (v6_of 0x2001 0x30 0 0, 28)]"

definition RESERVED6 :: "(128 word \<times> nat) list" where
  "RESERVED6 = [(v6_of 0 0 0 0, 8), (v6_of 0x100 0 0 0, 8), (v6_of 0x200 0 0 0, 7), (v6_of 0x400 0 0 0, 6), (v6_of 0x800 0 0 0, 5),
     (v6_of 0x1000 0 0 0, 4), (v6_of 0x4000 0 0 0, 3), (v6_of 0x6000 0 0 0, 3), (v6_of 0x8000 0 0 0, 3),
     (v6_of 0xA000 0 0 0, 3), (v6_of 0xC000 0 0 0, 3), (v6_of 0xE000 0 0 0, 4), (v6_of 0xF000 0 0 0, 5),
     (v6_of 0xF800 0 0 0, 6), (v6_of 0xFE00 0 0 0, 9)]"

definition CGNAT_NETWORK :: "32 word \<times> nat" where
  "CGNAT_NETWORK = (v4_of 100 64 0 0, 10)"

definition METADATA_IPS :: "ip list" where
  "METADATA_IPS = [V4 (v4_of 169 254 169 254), V6 (v6_of 0xfd00 0xec2 0 0x254) None]"

fun is_unspecified :: "ip \<Rightarrow> bool" where
  "is_unspecified (V4 w) = (w = 0)"
| "is_unspecified (V6 w _) = (w = 0)"

fun is_loopback :: "ip \<Rightarrow> bool" where
  "is_loopback (V4 w) = in_net w (v4_of 127 0 0 0, 8)"
| "is_loopback (V6 w _) = (w = 1)"

fun is_link_local :: "ip \<Rightarrow> bool" where
  "is_link_local (V4 w) = in_net w (v4_of 169 254 0 0, 16)"
| "is_link_local (V6 w _) = in_net w (v6_of 0xfe80 0 0 0, 10)"

fun is_multicast :: "ip \<Rightarrow> bool" where
  "is_multicast (V4 w) = in_net w (v4_of 224 0 0 0, 4)"
| "is_multicast (V6 w _) = in_net w (v6_of 0xff00 0 0 0, 8)"

fun is_reserved :: "ip \<Rightarrow> bool" where
  "is_reserved (V4 w) = in_net w (v4_of 240 0 0 0, 4)"
| "is_reserved (V6 w _) = in_any w RESERVED6"

definition private4 :: "32 word \<Rightarrow> bool" where
  "private4 w \<longleftrightarrow> in_any w PRIVATE4 \<and> \<not> in_any w PRIVATE4_EXCEPTIONS"

definition ipv4_mapped :: "128 word \<Rightarrow> 32 word option" where
  "ipv4_mapped w = (if drop_bit 32 w = 0xFFFF then Some (ucast w) else None)"

definition sixtofour :: "128 word \<Rightarrow> 32 word option" where
  "sixtofour w = (if drop_bit 112 w = 0x2002 then Some (ucast (drop_bit 80 w)) else None)"

fun is_private :: "ip \<Rightarrow> bool" where
  "is_private (V4 w) = private4 w"
| "is_private (V6 w _) =
     (case ipv4_mapped w of
        Some v \<Rightarrow> private4 v
      | None \<Rightarrow> in_any w PRIVATE6 \<and> \<not> in_any w PRIVATE6_EXCEPTIONS)"

section \<open>Classification\<close>

fun normalize_ip :: "ip \<Rightarrow> ip" where
  "normalize_ip (V6 w z) =
     (case ipv4_mapped w of
        Some v \<Rightarrow> V4 v
      | None \<Rightarrow> (case sixtofour w of Some v \<Rightarrow> V4 v | None \<Rightarrow> V6 w z))"
| "normalize_ip (V4 w) = V4 w"

datatype block_reason =
    NotAnAddress | MetadataEndpoint | Unspecified | Loopback | LinkLocal | Multicast | Reserved | Private | Cgnat

fun in_cgnat :: "ip \<Rightarrow> bool" where
  "in_cgnat (V4 w) = in_net w CGNAT_NETWORK"
| "in_cgnat (V6 _ _) = False"

text \<open>\<open>is_blocked_ip\<close>: \<open>None\<close> is \<open>(False, "")\<close>.\<close>

definition classify :: "ip \<Rightarrow> block_reason option" where
  "classify i =
     (if i \<in> set METADATA_IPS then Some MetadataEndpoint
      else if is_unspecified i then Some Unspecified
      else if is_loopback i then Some Loopback
      else if is_link_local i then Some LinkLocal
      else if is_multicast i then Some Multicast
      else if is_reserved i then Some Reserved
      else if is_private i then Some Private
      else if in_cgnat i then Some Cgnat
      else None)"

definition is_blocked_ip :: "string \<Rightarrow> block_reason option" where
  "is_blocked_ip s = (case ip_address s of None \<Rightarrow> Some NotAnAddress | Some i \<Rightarrow> classify (normalize_ip i))"

section \<open>URLs\<close>

text \<open>\<open>urlparse\<close>: scheme, host and port text of the stripped URL; \<open>None\<close> is its \<open>ValueError\<close>.\<close>

definition is_scheme_char :: "char \<Rightarrow> bool" where
  "is_scheme_char c \<longleftrightarrow> (let n = of_char c :: nat in
     48 \<le> n \<and> n \<le> 57 \<or> 65 \<le> n \<and> n \<le> 90 \<or> 97 \<le> n \<and> n \<le> 122 \<or> c \<in> set ''+-.'')"

definition is_alpha :: "char \<Rightarrow> bool" where
  "is_alpha c \<longleftrightarrow> (let n = of_char c :: nat in 65 \<le> n \<and> n \<le> 90 \<or> 97 \<le> n \<and> n \<le> 122)"

definition url_clean :: "string \<Rightarrow> string" where
  "url_clean s = filter (\<lambda>c. c \<notin> {CHR 0x09, CHR 0x0A, CHR 0x0D}) (dropWhile (\<lambda>c. of_char c \<le> (32 :: nat)) s)"

definition url_scheme :: "string \<Rightarrow> string \<times> string" where
  "url_scheme u =
     (let (a, found, rest) = py_partition CHR '':'' u in
      if found \<and> a \<noteq> [] \<and> is_alpha (hd a) \<and> list_all is_scheme_char a then (py_lower a, rest) else ([], u))"

definition url_netloc :: "string \<Rightarrow> string" where
  "url_netloc rest =
     (if take 2 rest = ''//'' then takeWhile (\<lambda>c. c \<notin> set ''/?#'') (drop 2 rest) else [])"

text \<open>\<open>_check_bracketed_host\<close>: \<open>v<hex>.<text>\<close> or an IPv6 address.\<close>

definition bracketed_ok :: "string \<Rightarrow> bool" where
  "bracketed_ok host \<longleftrightarrow>
     (case host of
        CHR ''v'' # rest \<Rightarrow>
          (let (a, found, b) = py_partition CHR ''.'' rest in
           found \<and> a \<noteq> [] \<and> list_all (\<lambda>c. hex_value c \<noteq> None) a \<and> b \<noteq> [] \<and> CHR 0x0A \<notin> set b)
      | _ \<Rightarrow> (case ip_address host of Some (V6 _ _) \<Rightarrow> True | _ \<Rightarrow> False))"

definition brackets_ok :: "string \<Rightarrow> bool" where
  "brackets_ok netloc \<longleftrightarrow>
     (if CHR ''['' \<in> set netloc \<and> CHR '']'' \<in> set netloc
      then bracketed_ok (takeWhile (\<lambda>c. c \<noteq> CHR '']'') (snd (snd (py_partition CHR ''['' netloc))))
      else CHR ''['' \<notin> set netloc \<and> CHR '']'' \<notin> set netloc)"

text \<open>\<open>_hostinfo\<close>: after the last \<open>@\<close>, a bracketed or plain host and the port text.\<close>

definition host_info :: "string \<Rightarrow> string \<times> string option" where
  "host_info netloc =
     (let info = rev (takeWhile (\<lambda>c. c \<noteq> CHR ''@'') (rev netloc));
          (_, opened, bracketed) = py_partition CHR ''['' info;
          (host, after) = (if opened then let (h, _, p) = py_partition CHR '']'' bracketed in (h, p) else ([], info));
          (host', colon, port) =
            (if opened then let (_, f, p) = py_partition CHR '':'' after in (host, f, p)
             else py_partition CHR '':'' after)
      in (host', if colon then Some port else None))"

text \<open>\<open>parsed.hostname\<close>: lower case, except for a zone.\<close>

definition url_hostname :: "string \<Rightarrow> string" where
  "url_hostname host = (let (h, f, z) = py_partition CHR ''%'' host in py_lower h @ (if f then CHR ''%'' # z else []))"

datatype ssrf_error =
    EmptyUrl
  | UnsupportedScheme string
  | PlainHttp
  | NoHostname
  | DoesNotResolve string string
  | NoAddresses string
  | Blocked block_reason string
  | UrlValueError

text \<open>\<open>parsed.port\<close>: \<open>Inl\<close> is the \<open>ValueError\<close>.\<close>

definition url_port :: "string option \<Rightarrow> ssrf_error + nat option" where
  "url_port p =
     (case p of
        None \<Rightarrow> Inr None
      | Some [] \<Rightarrow> Inr None
      | Some s \<Rightarrow> (if list_all is_digit s \<and> dec_value s \<le> 65535 then Inr (Some (dec_value s)) else Inl UrlValueError))"

definition http_allowed :: "ctx \<Rightarrow> hub \<Rightarrow> bool" where
  "http_allowed c h =
     (case settings_get c (h_settings h) ''outbound.allow_http'' (Some ''REBOOTER_OUTBOUND_ALLOW_HTTP'') (VStr ''false'') of
        VStr s \<Rightarrow> py_lower (py_strip s) \<in> set [''1'', ''true'', ''yes'', ''on'']
      | VBool b \<Rightarrow> b
      | VInt i \<Rightarrow> i = 1
      | _ \<Rightarrow> False)"

text \<open>\<open>_resolve_all\<close>: zones stripped, first occurrences in order.\<close>

definition resolve_all :: "(string \<Rightarrow> string + string list) \<Rightarrow> string \<Rightarrow> ssrf_error + string list" where
  "resolve_all getaddrinfo host =
     (case getaddrinfo host of
        Inl e \<Rightarrow> Inl (DoesNotResolve host e)
      | Inr infos \<Rightarrow>
          (let ips = rev (fold (\<lambda>a acc. let b = takeWhile (\<lambda>c. c \<noteq> CHR ''%'') a in
                                     if b \<in> set acc then acc else b # acc) infos [])
           in if ips = [] then Inl (NoAddresses host) else Inr ips))"

definition validate_url ::
  "(string \<Rightarrow> string + string list) \<Rightarrow> ctx \<Rightarrow> hub \<Rightarrow> bool \<Rightarrow> pyval \<Rightarrow> ssrf_error + (string \<times> string \<times> nat)" where
  "validate_url getaddrinfo c h allow_internal url =
     (case url of
        VStr u \<Rightarrow>
          (if u = [] then Inl EmptyUrl
           else
             let (scheme, rest) = url_scheme (url_clean (py_strip u)); netloc = url_netloc rest in
             if \<not> brackets_ok netloc then Inl UrlValueError
             else if scheme \<noteq> ''http'' \<and> scheme \<noteq> ''https'' then Inl (UnsupportedScheme scheme)
             else if scheme = ''http'' \<and> \<not> allow_internal \<and> \<not> http_allowed c h then Inl PlainHttp
             else
               let (host0, port0) = host_info netloc; hostname = url_hostname host0 in
               if hostname = [] then Inl NoHostname
               else case url_port port0 of
                 Inl e \<Rightarrow> Inl e
               | Inr p \<Rightarrow>
                   (let dflt = (if scheme = ''https'' then 443 else 80);
                        port = (case p of Some n \<Rightarrow> if n = 0 then dflt else n | None \<Rightarrow> dflt)
                    in case resolve_all getaddrinfo hostname of
                         Inl e \<Rightarrow> Inl e
                       | Inr candidates \<Rightarrow>
                           (case (if allow_internal then None
                                  else find (\<lambda>a. is_blocked_ip a \<noteq> None) candidates) of
                              Some a \<Rightarrow> Inl (Blocked (the (is_blocked_ip a)) a)
                            | None \<Rightarrow> Inr (hostname, hd candidates, port))))
      | _ \<Rightarrow> Inl EmptyUrl)"

section \<open>Messages\<close>

text \<open>\<open>str(ip)\<close> of an IPv6 address: lower-case hextets, the first longest run of zeros of length two or
  more compressed to \<open>::\<close>.\<close>

fun hex_text :: "nat \<Rightarrow> string" where
  "hex_text n = (let d = [(if n mod 16 < 10 then char_of (48 + n mod 16) else char_of (87 + n mod 16))] in
     if n < 16 then d else hex_text (n div 16) @ d)"

declare hex_text.simps [simp del]

definition hextets :: "128 word \<Rightarrow> string list" where
  "hextets w = map (\<lambda>i. hex_text (unat (take_bit 16 (drop_bit (16 * (7 - i)) w)))) [0 ..< 8]"

definition zero_run :: "string list \<Rightarrow> nat \<Rightarrow> nat" where
  "zero_run hs i = length (takeWhile (\<lambda>h. h = ''0'') (drop i hs))"

definition longest_run :: "string list \<Rightarrow> nat \<times> nat" where
  "longest_run hs = fold (\<lambda>i (at0, len). if len < zero_run hs i then (i, zero_run hs i) else (at0, len)) [0 ..< length hs] (0, 0)"

definition print_ipv6 :: "128 word \<Rightarrow> string" where
  "print_ipv6 w =
     (let hs = hextets w; (i, n) = longest_run hs in
      if n < 2 then join_with '':'' hs
      else join_with '':'' (take i hs) @ ''::'' @ join_with '':'' (drop (i + n) hs))"

fun print_ip :: "ip \<Rightarrow> string" where
  "print_ip (V4 w) = print_ipv4 w"
| "print_ip (V6 w z) = print_ipv6 w @ (case z of None \<Rightarrow> [] | Some zone \<Rightarrow> CHR ''%'' # zone)"

fun block_text :: "block_reason \<Rightarrow> string \<Rightarrow> string" where
  "block_text NotAnAddress a = ''not a valid IP address: '' @ quoted a"
| "block_text MetadataEndpoint a = ''cloud metadata endpoint ('' @ a @ '') is blocked''"
| "block_text Unspecified a = ''unspecified address ('' @ a @ '') is blocked''"
| "block_text Loopback a = ''loopback address ('' @ a @ '') is blocked''"
| "block_text LinkLocal a = ''link-local address ('' @ a @ '') is blocked''"
| "block_text Multicast a = ''multicast address ('' @ a @ '') is blocked''"
| "block_text Reserved a = ''reserved address ('' @ a @ '') is blocked''"
| "block_text Private a = ''private address ('' @ a @ '') is blocked''"
| "block_text Cgnat a = ''CGNAT / shared address space ('' @ a @ '') is blocked''"

fun ssrf_reason :: "ssrf_error \<Rightarrow> string" where
  "ssrf_reason EmptyUrl = ''empty or non-string URL''"
| "ssrf_reason (UnsupportedScheme s) = ''unsupported URL scheme '' @ quoted s @ '': only http/https allowed''"
| "ssrf_reason PlainHttp = ''plain http:// is not allowed for outbound webhooks ''
     @ ''(enable the '' @ quoted ''outbound.allow_http'' @ '' setting to override)''"
| "ssrf_reason NoHostname = ''URL has no hostname''"
| "ssrf_reason (DoesNotResolve n e) = ''hostname does not resolve: '' @ n @ '' ('' @ e @ '')''"
| "ssrf_reason (NoAddresses n) = ''hostname resolved to no addresses: '' @ n"
| "ssrf_reason (Blocked r a) =
     block_text r (case ip_address a of None \<Rightarrow> a | Some i \<Rightarrow> print_ip (normalize_ip i))"
| "ssrf_reason UrlValueError = []"

section \<open>Requests\<close>

definition DEFAULT_TIMEOUT_SECONDS :: int where
  "DEFAULT_TIMEOUT_SECONDS = 10"

definition MAX_RESPONSE_BYTES :: nat where
  "MAX_RESPONSE_BYTES = 64 * 1024"

record http_request =
  rq_method :: string
  rq_url :: string
  rq_headers :: pydict
  rq_data :: string
  rq_timeout :: int
  rq_allow_redirects :: bool

record http_response =
  rsp_status :: int
  rsp_body :: string

text \<open>What the process asks of the network: the resolver, the client sending a request over a connection
  to the pinned address, HMAC-SHA256 (secret, body, hex digest), and the text of the exception the
  standard library raises on a value it cannot take.\<close>

record net =
  net_getaddrinfo :: "string \<Rightarrow> string + string list"
  net_send :: "string \<Rightarrow> http_request \<Rightarrow> string + http_response"
  net_hmac :: "string \<Rightarrow> string \<Rightarrow> string"
  net_exc_text :: "pyval \<Rightarrow> string"

datatype request_error = SSRFBlockedError ssrf_error | RequestFailed string

definition validate_request :: "net \<Rightarrow> ctx \<Rightarrow> hub \<Rightarrow> bool \<Rightarrow> pyval \<Rightarrow> request_error + (string \<times> string \<times> nat)" where
  "validate_request N c h allow_internal url =
     (case validate_url (net_getaddrinfo N) c h allow_internal url of
        Inl UrlValueError \<Rightarrow> Inl (RequestFailed (net_exc_text N url))
      | Inl e \<Rightarrow> Inl (SSRFBlockedError e)
      | Inr t \<Rightarrow> Inr t)"

definition safe_request ::
  "net \<Rightarrow> ctx \<Rightarrow> hub \<Rightarrow> string \<Rightarrow> pyval \<Rightarrow> pydict \<Rightarrow> string \<Rightarrow> bool \<Rightarrow> bool \<Rightarrow>
   request_error + http_response" where
  "safe_request N c h method url headers data allow_redirects allow_internal =
     (case validate_request N c h allow_internal url of
        Inl e \<Rightarrow> Inl e
      | Inr (_, pinned_ip, _) \<Rightarrow>
          (case net_send N pinned_ip
                  \<lparr>rq_method = py_upper method, rq_url = (case url of VStr u \<Rightarrow> u | _ \<Rightarrow> []), rq_headers = headers,
                   rq_data = data, rq_timeout = DEFAULT_TIMEOUT_SECONDS, rq_allow_redirects = allow_redirects\<rparr> of
             Inl e \<Rightarrow> Inl (RequestFailed e)
           | Inr resp \<Rightarrow> Inr (resp\<lparr>rsp_body := take MAX_RESPONSE_BYTES (rsp_body resp)\<rparr>)))"

section \<open>Networks as ranges\<close>

lemma word_eq_unat: "w = v \<longleftrightarrow> unat w = unat v" for w v :: "'a::len word"
  by (simp add: word_unat_eq_iff)

lemma and_not_mask: "a AND NOT (mask k) = push_bit k (drop_bit k a)" for a :: "'a::len word"
  by (rule bit_eqI) (auto simp: bit_simps)

lemma unat_drop_bit: "unat (drop_bit k a) = unat a div 2 ^ k" for a :: "'a::len word"
  by (simp only: unsigned_drop_bit_eq) (simp add: drop_bit_eq_div take_bit_nat_eq_self)

lemma unat_push_drop: "unat (push_bit k (drop_bit k a)) = unat a div 2 ^ k * 2 ^ k" for a :: "'a::len word"
proof -
  have "unat a div 2 ^ k * 2 ^ k \<le> unat a" by simp
  then have lt: "unat a div 2 ^ k * 2 ^ k < 2 ^ LENGTH('a)"
    using unsigned_less [of a, where 'a = nat] by linarith
  have "unat (push_bit k (drop_bit k a)) = take_bit LENGTH('a) (push_bit k (unat (drop_bit k a)))"
    by (simp add: unsigned_push_bit_eq)
  then show ?thesis using lt by (simp only: unat_drop_bit push_bit_eq_mult) (simp add: take_bit_nat_eq_self)
qed

lemma block_range:
  fixes a b m :: nat
  assumes "m dvd b" and "0 < m"
  shows "a div m * m = b \<longleftrightarrow> b \<le> a \<and> a < b + m"
proof
  assume "a div m * m = b"
  then show "b \<le> a \<and> a < b + m" using assms(2) by (metis add.commute dividend_less_div_times div_times_less_eq_dividend)
next
  assume r: "b \<le> a \<and> a < b + m"
  obtain q where q: "b = q * m" using assms(1) by (metis dvd_def mult.commute)
  have "a div m = q"
    by (rule div_nat_eqI) (use r q in \<open>auto simp: algebra_simps\<close>)
  then show "a div m * m = b" by (simp add: q)
qed

text \<open>A network whose base is aligned is the range from its base over \<open>2\<close> to the number of host bits.\<close>

lemma in_net_range:
  fixes a base :: "'a::len word"
  assumes "2 ^ (LENGTH('a) - n) dvd unat base"
  shows "in_net a (base, n) \<longleftrightarrow> unat base \<le> unat a \<and> unat a < unat base + 2 ^ (LENGTH('a) - n)"
proof -
  have "in_net a (base, n) \<longleftrightarrow> unat (a AND NOT (mask (LENGTH('a) - n))) = unat base"
    by (simp add: in_net_def word_eq_unat)
  also have "\<dots> \<longleftrightarrow> unat a div 2 ^ (LENGTH('a) - n) * 2 ^ (LENGTH('a) - n) = unat base"
    by (simp only: and_not_mask unat_push_drop)
  finally show ?thesis using block_range [OF assms] by simp
qed

text \<open>The special ranges as numbers: dotted quads, and the first three hextets of an IPv6 address.\<close>

definition special4 :: "(nat \<times> nat) list" where
  "special4 = [(quad 0 0 0 0, quad 0 255 255 255), (quad 10 0 0 0, quad 10 255 255 255),
     (quad 100 64 0 0, quad 100 127 255 255), (quad 127 0 0 0, quad 127 255 255 255),
     (quad 169 254 0 0, quad 169 254 255 255), (quad 172 16 0 0, quad 172 31 255 255),
     (quad 192 0 0 0, quad 192 0 0 8), (quad 192 0 0 11, quad 192 0 0 255),
     (quad 192 0 2 0, quad 192 0 2 255), (quad 192 168 0 0, quad 192 168 255 255),
     (quad 198 18 0 0, quad 198 19 255 255), (quad 198 51 100 0, quad 198 51 100 255),
     (quad 203 0 113 0, quad 203 0 113 255), (quad 224 0 0 0, quad 255 255 255 255)]"

definition in_range :: "nat \<Rightarrow> nat \<times> nat \<Rightarrow> bool" where
  "in_range n r \<longleftrightarrow> fst r \<le> n \<and> n \<le> snd r"

lemma unat_v4_of: "quad a b c d < 2 ^ 32 \<Longrightarrow> unat (v4_of a b c d) = quad a b c d"
  by (simp add: v4_of_def unsigned_of_nat take_bit_nat_eq_self)

lemma v4_net:
  assumes "quad a b c d < 2 ^ 32" and "2 ^ (32 - n) dvd quad a b c d"
  shows "in_net w (v4_of a b c d, n) \<longleftrightarrow> quad a b c d \<le> unat w \<and> unat w < quad a b c d + 2 ^ (32 - n)"
  using in_net_range [where 'a = 32, of n "v4_of a b c d" w] assms by (simp add: unat_v4_of)

lemma unat_32 [simp]: "unat (w :: 32 word) \<le> 4294967295"
  using unsigned_less [of w, where 'a = nat] by simp

text \<open>The ranges of the networks, as facts about the number of the address.\<close>

lemma v4_ranges:
  defines "R lo hi w \<equiv> in_range (unat w) (lo, hi)"
  shows "in_net w (v4_of 0 0 0 0, 8) = R (quad 0 0 0 0) (quad 0 255 255 255) w"
    "in_net w (v4_of 10 0 0 0, 8) = R (quad 10 0 0 0) (quad 10 255 255 255) w"
    "in_net w (v4_of 100 64 0 0, 10) = R (quad 100 64 0 0) (quad 100 127 255 255) w"
    "in_net w (v4_of 127 0 0 0, 8) = R (quad 127 0 0 0) (quad 127 255 255 255) w"
    "in_net w (v4_of 169 254 0 0, 16) = R (quad 169 254 0 0) (quad 169 254 255 255) w"
    "in_net w (v4_of 172 16 0 0, 12) = R (quad 172 16 0 0) (quad 172 31 255 255) w"
    "in_net w (v4_of 192 0 0 0, 24) = R (quad 192 0 0 0) (quad 192 0 0 255) w"
    "in_net w (v4_of 192 0 0 170, 31) = R (quad 192 0 0 170) (quad 192 0 0 171) w"
    "in_net w (v4_of 192 0 0 9, 32) = (unat w = quad 192 0 0 9)"
    "in_net w (v4_of 192 0 0 10, 32) = (unat w = quad 192 0 0 10)"
    "in_net w (v4_of 192 0 2 0, 24) = R (quad 192 0 2 0) (quad 192 0 2 255) w"
    "in_net w (v4_of 192 168 0 0, 16) = R (quad 192 168 0 0) (quad 192 168 255 255) w"
    "in_net w (v4_of 198 18 0 0, 15) = R (quad 198 18 0 0) (quad 198 19 255 255) w"
    "in_net w (v4_of 198 51 100 0, 24) = R (quad 198 51 100 0) (quad 198 51 100 255) w"
    "in_net w (v4_of 203 0 113 0, 24) = R (quad 203 0 113 0) (quad 203 0 113 255) w"
    "in_net w (v4_of 224 0 0 0, 4) = R (quad 224 0 0 0) (quad 239 255 255 255) w"
    "in_net w (v4_of 240 0 0 0, 4) = R (quad 240 0 0 0) (quad 255 255 255 255) w"
    "in_net w (v4_of 255 255 255 255, 32) = (unat w = quad 255 255 255 255)"
    "w = v4_of 169 254 169 254 \<longleftrightarrow> unat w = quad 169 254 169 254"
  unfolding R_def
  using unat_32 [of w] by (auto simp: v4_net quad_def in_range_def word_eq_unat unat_v4_of simp del: unat_32)

lemma classify_v4: "classify (V4 w) = None \<longleftrightarrow> \<not> list_ex (in_range (unat w)) special4"
proof -
  define n where "n = unat w"
  let ?R = "\<lambda>lo hi. in_range n (lo, hi)"
  have z: "w = 0 \<longleftrightarrow> n = 0" by (simp add: n_def word_eq_unat)
  have "n = 0 \<longrightarrow> ?R (quad 0 0 0 0) (quad 0 255 255 255)"
    and "n = quad 169 254 169 254 \<longrightarrow> ?R (quad 169 254 0 0) (quad 169 254 255 255)"
    and "n = quad 255 255 255 255 \<longrightarrow> ?R (quad 240 0 0 0) (quad 255 255 255 255)"
    and "?R (quad 192 0 0 170) (quad 192 0 0 171) \<longrightarrow> ?R (quad 192 0 0 11) (quad 192 0 0 255)"
    by (simp_all add: in_range_def quad_def)
  moreover have "?R (quad 224 0 0 0) (quad 255 255 255 255)
      \<longleftrightarrow> ?R (quad 224 0 0 0) (quad 239 255 255 255) \<or> ?R (quad 240 0 0 0) (quad 255 255 255 255)"
    by (auto simp: in_range_def quad_def)
  moreover have "?R (quad 192 0 0 0) (quad 192 0 0 255) \<and> n \<noteq> quad 192 0 0 9 \<and> n \<noteq> quad 192 0 0 10
      \<longleftrightarrow> ?R (quad 192 0 0 0) (quad 192 0 0 8) \<or> ?R (quad 192 0 0 11) (quad 192 0 0 255)"
    by (auto simp: in_range_def quad_def)
  moreover have "n = quad 192 0 0 9 \<or> n = quad 192 0 0 10 \<longrightarrow>
      \<not> list_ex (in_range n) special4"
    by (auto simp: in_range_def quad_def special4_def)
  ultimately show ?thesis
    unfolding special4_def
    by (simp add: classify_def METADATA_IPS_def private4_def in_any_def PRIVATE4_def PRIVATE4_EXCEPTIONS_def
        CGNAT_NETWORK_def v4_ranges z flip: n_def) blast
qed

section \<open>IPv6\<close>

lemma unat_128: "unat (w :: 128 word) < 2 ^ 128"
  using unsigned_less [of w, where 'a = nat] by simp

lemma v6_net:
  assumes "hexts a b c l < 2 ^ 128" and "2 ^ (128 - n) dvd hexts a b c l"
  shows "in_net w (v6_of a b c l, n) \<longleftrightarrow> hexts a b c l \<le> unat w \<and> unat w < hexts a b c l + 2 ^ (128 - n)"
  using in_net_range [where 'a = 128, of n "v6_of a b c l" w] assms
  by (simp add: v6_of_def unsigned_of_nat take_bit_nat_eq_self)

text \<open>Below \<open>2000::\<close> everything is reserved, above \<open>3fff:...\<close> everything is reserved, private, link-local or
  multicast except \<open>fec0::/10\<close>.\<close>

lemma reserved_low:
  assumes "\<not> in_any w RESERVED6"
  shows "hexts 0x2000 0 0 0 \<le> unat w"
proof -
  define n where "n = unat w"
  have r: "\<not> (hexts a 0 0 0 \<le> n \<and> n < hexts a 0 0 0 + 2 ^ (128 - k))"
    if "(v6_of a 0 0 0, k) \<in> set RESERVED6" "hexts a 0 0 0 < 2 ^ 128" "2 ^ (128 - k) dvd hexts a 0 0 0" for a k
    using that assms v6_net [of a 0 0 0 k w] unfolding in_any_def list_ex_iff n_def by blast
  have "hexts 0x100 0 0 0 \<le> n" using r [of "0" 8] by (simp add: RESERVED6_def hexts_def)
  moreover have "hexts 0x200 0 0 0 \<le> n" using r [of "0x100" 8] calculation by (simp add: RESERVED6_def hexts_def)
  moreover have "hexts 0x400 0 0 0 \<le> n" using r [of "0x200" 7] calculation by (simp add: RESERVED6_def hexts_def)
  moreover have "hexts 0x800 0 0 0 \<le> n" using r [of "0x400" 6] calculation by (simp add: RESERVED6_def hexts_def)
  moreover have "hexts 0x1000 0 0 0 \<le> n" using r [of "0x800" 5] calculation by (simp add: RESERVED6_def hexts_def)
  ultimately show ?thesis using r [of "0x1000" 4] by (simp add: RESERVED6_def hexts_def n_def)
qed

lemma reserved_high:
  assumes "\<not> in_any w RESERVED6" and "hexts 0x4000 0 0 0 \<le> unat w"
    and "\<not> in_net w (v6_of 0xfc00 0 0 0, 7)" and "\<not> in_net w (v6_of 0xfe80 0 0 0, 10)"
    and "\<not> in_net w (v6_of 0xff00 0 0 0, 8)"
  shows "hexts 0xfec0 0 0 0 \<le> unat w \<and> unat w < hexts 0xff00 0 0 0"
proof -
  define n where "n = unat w"
  have n: "n < 2 ^ 128" unfolding n_def by (rule unat_128)
  have q: "\<not> (hexts a 0 0 0 \<le> n \<and> n < hexts a 0 0 0 + 2 ^ (128 - k))"
    if "\<not> in_net w (v6_of a 0 0 0, k)" "hexts a 0 0 0 < 2 ^ 128" "2 ^ (128 - k) dvd hexts a 0 0 0" for a k
    using that v6_net [of a 0 0 0 k w] unfolding n_def by blast
  have r: "\<not> (hexts a 0 0 0 \<le> n \<and> n < hexts a 0 0 0 + 2 ^ (128 - k))"
    if "(v6_of a 0 0 0, k) \<in> set RESERVED6" "hexts a 0 0 0 < 2 ^ 128" "2 ^ (128 - k) dvd hexts a 0 0 0" for a k
    using that assms(1) q [of a k] unfolding in_any_def list_ex_iff by blast
  have "hexts 0x4000 0 0 0 \<le> n" using assms(2) by (simp add: n_def)
  moreover have "hexts 0x6000 0 0 0 \<le> n" using r [of "0x4000" 3] calculation by (simp add: RESERVED6_def hexts_def)
  moreover have "hexts 0x8000 0 0 0 \<le> n" using r [of "0x6000" 3] calculation by (simp add: RESERVED6_def hexts_def)
  moreover have "hexts 0xA000 0 0 0 \<le> n" using r [of "0x8000" 3] calculation by (simp add: RESERVED6_def hexts_def)
  moreover have "hexts 0xC000 0 0 0 \<le> n" using r [of "0xA000" 3] calculation by (simp add: RESERVED6_def hexts_def)
  moreover have "hexts 0xE000 0 0 0 \<le> n" using r [of "0xC000" 3] calculation by (simp add: RESERVED6_def hexts_def)
  moreover have "hexts 0xF000 0 0 0 \<le> n" using r [of "0xE000" 4] calculation by (simp add: RESERVED6_def hexts_def)
  moreover have "hexts 0xF800 0 0 0 \<le> n" using r [of "0xF000" 5] calculation by (simp add: RESERVED6_def hexts_def)
  moreover have "hexts 0xFC00 0 0 0 \<le> n" using r [of "0xF800" 6] calculation by (simp add: RESERVED6_def hexts_def)
  moreover have "hexts 0xFE00 0 0 0 \<le> n" using q [OF assms(3)] calculation by (simp add: hexts_def)
  moreover have "hexts 0xFE80 0 0 0 \<le> n" using r [of "0xFE00" 9] calculation by (simp add: RESERVED6_def hexts_def)
  moreover have "hexts 0xFEC0 0 0 0 \<le> n" using q [OF assms(4)] calculation by (simp add: hexts_def)
  moreover have "n < hexts 0xFF00 0 0 0" using q [OF assms(5)] n by (simp add: hexts_def)
  ultimately show ?thesis by (simp add: n_def)
qed

text \<open>The part of \<open>2000::/3\<close> that is not special: outside \<open>2001::/23\<close> (but for the blocks the registry
  exempts), the documentation prefix and 6to4.\<close>

definition global_unicast6 :: "nat \<Rightarrow> bool" where
  "global_unicast6 n \<longleftrightarrow>
     hexts 0x2000 0 0 0 \<le> n \<and> n < hexts 0x4000 0 0 0
   \<and> (hexts 0x2001 0 0 0 \<le> n \<and> n < hexts 0x2001 0x200 0 0 \<longrightarrow>
        n = hexts 0x2001 1 0 1 \<or> n = hexts 0x2001 1 0 2
      \<or> hexts 0x2001 3 0 0 \<le> n \<and> n < hexts 0x2001 4 0 0
      \<or> hexts 0x2001 4 0x112 0 \<le> n \<and> n < hexts 0x2001 4 0x113 0
      \<or> hexts 0x2001 0x20 0 0 \<le> n \<and> n < hexts 0x2001 0x40 0 0)
   \<and> \<not> (hexts 0x2001 0xdb8 0 0 \<le> n \<and> n < hexts 0x2001 0xdb9 0 0)
   \<and> \<not> (hexts 0x2002 0 0 0 \<le> n \<and> n < hexts 0x2003 0 0 0)"

definition site_local6 :: "nat \<Rightarrow> bool" where
  "site_local6 n \<longleftrightarrow> hexts 0xfec0 0 0 0 \<le> n \<and> n < hexts 0xff00 0 0 0"

lemma v6_exceptions:
  "in_any w PRIVATE6_EXCEPTIONS \<longleftrightarrow>
     unat w = hexts 0x2001 1 0 1 \<or> unat w = hexts 0x2001 1 0 2
   \<or> hexts 0x2001 3 0 0 \<le> unat w \<and> unat w < hexts 0x2001 4 0 0
   \<or> hexts 0x2001 4 0x112 0 \<le> unat w \<and> unat w < hexts 0x2001 4 0x113 0
   \<or> hexts 0x2001 0x20 0 0 \<le> unat w \<and> unat w < hexts 0x2001 0x40 0 0"
  unfolding in_any_def PRIVATE6_EXCEPTIONS_def by (simp add: v6_net hexts_def) arith

lemma classify_v6:
  assumes "classify (V6 w z) = None" and "ipv4_mapped w = None"
  shows "global_unicast6 (unat w) \<or> site_local6 (unat w)"
proof -
  have nr: "\<not> in_any w RESERVED6" and ll: "\<not> in_net w (v6_of 0xfe80 0 0 0, 10)"
    and mc: "\<not> in_net w (v6_of 0xff00 0 0 0, 8)"
    and np: "\<not> (in_any w PRIVATE6 \<and> \<not> in_any w PRIVATE6_EXCEPTIONS)"
    using assms by (auto simp: classify_def split: if_splits)
  have priv: "\<not> (hexts a b 0 0 \<le> unat w \<and> unat w < hexts a b 0 0 + 2 ^ (128 - k)) \<or> in_any w PRIVATE6_EXCEPTIONS"
    if "(v6_of a b 0 0, k) \<in> set PRIVATE6" "hexts a b 0 0 < 2 ^ 128" "2 ^ (128 - k) dvd hexts a b 0 0" for a b k
    using that np v6_net [of a b 0 0 k w] unfolding in_any_def list_ex_iff by blast
  have low: "hexts 0x2000 0 0 0 \<le> unat w" by (rule reserved_low [OF nr])
  show ?thesis
  proof (cases "unat w < hexts 0x4000 0 0 0")
    case True
    have "\<not> (hexts 0x2001 0 0 0 \<le> unat w \<and> unat w < hexts 0x2001 0x200 0 0) \<or> in_any w PRIVATE6_EXCEPTIONS"
      using priv [of "0x2001" 0 23] by (simp add: PRIVATE6_def hexts_def)
    moreover have "\<not> (hexts 0x2001 0xdb8 0 0 \<le> unat w \<and> unat w < hexts 0x2001 0xdb9 0 0)"
      using priv [of "0x2001" "0xdb8" 32] by (auto simp: PRIVATE6_def v6_exceptions) (simp_all add: hexts_def)
    moreover have "\<not> (hexts 0x2002 0 0 0 \<le> unat w \<and> unat w < hexts 0x2003 0 0 0)"
      using priv [of "0x2002" 0 16] by (auto simp: PRIVATE6_def v6_exceptions) (simp_all add: hexts_def)
    ultimately show ?thesis using low True unfolding global_unicast6_def v6_exceptions by blast
  next
    case False
    have "\<not> in_net w (v6_of 0xfc00 0 0 0, 7)"
    proof
      assume "in_net w (v6_of 0xfc00 0 0 0, 7)"
      then have "in_any w PRIVATE6_EXCEPTIONS" using np by (auto simp: in_any_def PRIVATE6_def)
      then show False using False by (auto simp: v6_exceptions) (simp_all add: hexts_def)
    qed
    then show ?thesis
      using reserved_high [OF nr _ _ ll mc] False by (simp add: site_local6_def)
  qed
qed

section \<open>IPv4 text\<close>

lemma dec_short: "n \<le> 255 \<Longrightarrow> length (dec n) \<le> 3"
  by (subst dec.simps, subst dec.simps, subst dec.simps) simp

lemma parse_octet_Some: "parse_octet s = Some n \<longleftrightarrow> s = dec n \<and> n \<le> 255"
proof
  assume "parse_octet s = Some n"
  then have "canonical_digits s" "n = dec_value s" "n \<le> 255"
    by (auto simp: parse_octet_def canonical_digits_def split: if_splits)
  then show "s = dec n \<and> n \<le> 255" by (simp add: dec_dec_value)
next
  assume "s = dec n \<and> n \<le> 255"
  then show "parse_octet s = Some n"
    using dec_canonical [of n] dec_short [of n] by (auto simp: parse_octet_def canonical_digits_def)
qed

lemma octets_of_quad:
  assumes "a \<le> 255" "b \<le> 255" "c \<le> 255" "d \<le> 255"
  shows "quad a b c d < 2 ^ 32" and "quad a b c d div 16777216 = a" and "quad a b c d div 65536 mod 256 = b"
    and "quad a b c d div 256 mod 256 = c" and "quad a b c d mod 256 = d"
proof -
  have e: "quad a b c d div 256 = (a * 256 + b) * 256 + c" "quad a b c d div 65536 = a * 256 + b"
    "quad a b c d div 16777216 = a"
    using assms by (auto simp: quad_def intro!: div_nat_eqI)
  then show "quad a b c d div 16777216 = a" "quad a b c d div 65536 mod 256 = b"
    "quad a b c d div 256 mod 256 = c"
    using assms by (simp_all only: e mod_mult_self3) simp_all
  show "quad a b c d mod 256 = d" using assms by (simp only: quad_def mod_mult_self3) simp
  show "quad a b c d < 2 ^ 32" using assms by (simp add: quad_def)
qed

lemma quad_of_octets: "quad (n div 16777216) (n div 65536 mod 256) (n div 256 mod 256) (n mod 256) = n"
proof -
  have "n div 65536 = n div 256 div 256" "n div 16777216 = n div 256 div 256 div 256"
    by (simp_all flip: div_mult2_eq)
  then show ?thesis unfolding quad_def by (simp only: div_mult_mod_eq)
qed

lemma dec_no_dot: "CHR ''.'' \<notin> set (dec n)"
  using dec_digits [of n] digit_not_mark by blast

lemma split_quad: "split_on CHR ''.'' (join_with ''.'' (map dec ns)) = map dec ns" if "ns \<noteq> []"
  using split_on_join [of "map dec ns" "CHR ''.''"] that by (simp add: dec_no_dot)

lemma parse_print_ipv4: "parse_ipv4 (print_ipv4 w) = Some w"
proof -
  define n where "n = unat w"
  have "n \<le> 4294967295" by (simp add: n_def)
  then have "n div 16777216 \<le> 255" by (simp add: div_le_mono [of n 4294967295, simplified])
  moreover have "k mod 256 \<le> 255" for k :: nat using mod_less_divisor [of 256 k] by linarith
  ultimately have "map parse_octet (split_on CHR ''.'' (print_ipv4 w))
      = map Some [n div 16777216, n div 65536 mod 256, n div 256 mod 256, n mod 256]"
    by (simp add: print_ipv4_def Let_def split_quad parse_octet_Some flip: n_def list.map)
  moreover have "v4_of (n div 16777216) (n div 65536 mod 256) (n div 256 mod 256) (n mod 256) = w"
    by (simp add: v4_of_def quad_of_octets) (simp add: n_def)
  ultimately show ?thesis by (simp add: parse_ipv4_def)
qed

lemma parse_ipv4_Some:
  assumes "parse_ipv4 s = Some w"
  obtains a b c d where "s = join_with ''.'' (map dec [a, b, c, d])" and "w = v4_of a b c d"
    and "a \<le> 255" "b \<le> 255" "c \<le> 255" "d \<le> 255"
proof -
  obtain a b c d where m: "map parse_octet (split_on CHR ''.'' s) = [Some a, Some b, Some c, Some d]"
    and w: "w = v4_of a b c d"
    using assms by (auto simp: parse_ipv4_def split: list.splits option.splits)
  then have sp: "split_on CHR ''.'' s = map dec [a, b, c, d]" and le: "a \<le> 255" "b \<le> 255" "c \<le> 255" "d \<le> 255"
    by (auto simp: map_eq_Cons_conv parse_octet_Some)
  have "s = join_with ''.'' (map dec [a, b, c, d])" using join_split_on [of "CHR ''.''" s] by (simp only: sp)
  then show thesis using that w le by blast
qed

lemma print_parse_ipv4: "parse_ipv4 s = Some w \<Longrightarrow> s = print_ipv4 w"
  by (erule parse_ipv4_Some) (simp add: print_ipv4_def unat_v4_of [OF octets_of_quad(1)] octets_of_quad Let_def)

section \<open>Passing the guard\<close>

text \<open>Public: outside every special IPv4 range, or IPv6 global unicast. The deprecated site-local range is
  internal, but no check of the guard covers it: what passes is public or site-local.\<close>

definition public_ip :: "ip \<Rightarrow> bool" where
  "public_ip i \<longleftrightarrow>
     (case normalize_ip i of
        V4 w \<Rightarrow> \<not> list_ex (in_range (unat w)) special4
      | V6 w _ \<Rightarrow> global_unicast6 (unat w))"

definition site_local_ip :: "ip \<Rightarrow> bool" where
  "site_local_ip i \<longleftrightarrow> (case normalize_ip i of V4 _ \<Rightarrow> False | V6 w _ \<Rightarrow> site_local6 (unat w))"

abbreviation admitted_ip :: "ip \<Rightarrow> bool" where
  "admitted_ip i \<equiv> public_ip i \<or> site_local_ip i"

lemma not_blocked_public:
  assumes "is_blocked_ip a = None"
  obtains i where "ip_address a = Some i" and "admitted_ip i"
proof -
  obtain i where i: "ip_address a = Some i" and c: "classify (normalize_ip i) = None"
    using assms by (auto simp: is_blocked_ip_def split: option.splits)
  have "admitted_ip i"
  proof (cases "normalize_ip i")
    case (V4 w)
    then show ?thesis using c by (simp add: public_ip_def classify_v4)
  next
    case (V6 w z)
    then have "ipv4_mapped w = None" by (cases i) (auto split: option.splits)
    then show ?thesis using c V6 classify_v6 by (simp add: public_ip_def site_local_ip_def)
  qed
  then show ?thesis using that i by blast
qed

lemma resolve_all_nonempty: "resolve_all g h = Inr xs \<Longrightarrow> xs \<noteq> []"
  by (auto simp: resolve_all_def Let_def split: sum.splits if_splits)

lemma url_port_bound: "url_port p = Inr (Some n) \<Longrightarrow> n \<le> 65535"
  by (auto simp: url_port_def split: option.splits list.splits if_splits)

lemma validate_url_Inr:
  assumes "validate_url g c h False (VStr u) = Inr (hostname, pinned, port)"
  obtains candidates where "resolve_all g hostname = Inr candidates"
    and "find (\<lambda>a. is_blocked_ip a \<noteq> None) candidates = None" and "pinned = hd candidates"
    and "0 < port \<and> port \<le> 65535"
    and "fst (url_scheme (url_clean (py_strip u))) = ''https''
       \<or> fst (url_scheme (url_clean (py_strip u))) = ''http'' \<and> http_allowed c h"
proof -
  have u: "u \<noteq> []" using assms by (auto simp: validate_url_def)
  obtain sch rest where sr: "url_scheme (url_clean (py_strip u)) = (sch, rest)" by (cases "url_scheme (url_clean (py_strip u))")
  obtain host0 port0 where hp: "host_info (url_netloc rest) = (host0, port0)" by (cases "host_info (url_netloc rest)")
  have g1: "brackets_ok (url_netloc rest)" and g2: "sch = ''http'' \<or> sch = ''https''"
    and g3: "\<not> (sch = ''http'' \<and> \<not> http_allowed c h)" and g4: "url_hostname host0 \<noteq> []"
    using assms u unfolding validate_url_def
    by (simp_all only: pyval.case sr hp Let_def prod.case split: if_splits) simp_all
  let ?d = "if sch = ''https'' then 443 else 80 :: nat"
  have g2': "(sch \<noteq> ''http'' \<and> sch \<noteq> ''https'') = False"
    and g3': "(sch = ''http'' \<and> \<not> http_allowed c h) = False" using g2 g3 by blast+
  have E: "validate_url g c h False (VStr u) =
      (case url_port port0 of
         Inl e \<Rightarrow> Inl e
       | Inr p \<Rightarrow>
           (case resolve_all g (url_hostname host0) of
              Inl e \<Rightarrow> Inl e
            | Inr cs \<Rightarrow>
                (case find (\<lambda>a. is_blocked_ip a \<noteq> None) cs of
                   Some a \<Rightarrow> Inl (Blocked (the (is_blocked_ip a)) a)
                 | None \<Rightarrow> Inr (url_hostname host0, hd cs, case p of Some n \<Rightarrow> if n = 0 then ?d else n | None \<Rightarrow> ?d))))"
    unfolding validate_url_def
    by (simp only: pyval.case sr hp Let_def prod.case g1 g2' g3' g4 u not_True_eq_False if_True if_False simp_thms)
  obtain p cs where p: "url_port port0 = Inr p" and cs: "resolve_all g (url_hostname host0) = Inr cs"
    and f: "find (\<lambda>a. is_blocked_ip a \<noteq> None) cs = None"
    and r: "hostname = url_hostname host0" "pinned = hd cs"
      "port = (case p of Some n \<Rightarrow> if n = 0 then ?d else n | None \<Rightarrow> ?d)"
    using assms unfolding E by (simp split: sum.splits option.splits if_splits)
  have "0 < port \<and> port \<le> 65535"
    using url_port_bound [of port0] p unfolding r by (cases p) auto
  then show thesis using that cs f r g2 g3 sr by auto
qed

text \<open>Two clients with the same resolver that treat requests pinned to admitted addresses alike cannot be told
  apart.\<close>

definition same_public :: "net \<Rightarrow> net \<Rightarrow> bool" where
  "same_public N M \<longleftrightarrow> net_getaddrinfo N = net_getaddrinfo M \<and> net_exc_text N = net_exc_text M \<and> net_hmac N = net_hmac M
     \<and> (\<forall>a i r. ip_address a = Some i \<and> admitted_ip i \<longrightarrow> net_send N a r = net_send M a r)"

lemma pinned_public:
  assumes "validate_url g c h False url = Inr (hostname, pinned, port)"
  obtains i where "ip_address pinned = Some i" and "admitted_ip i"
proof -
  obtain u where u: "url = VStr u" using assms by (cases url) (auto simp: validate_url_def)
  obtain candidates where res: "resolve_all g hostname = Inr candidates"
    and none: "find (\<lambda>a. is_blocked_ip a \<noteq> None) candidates = None" and p: "pinned = hd candidates"
    using validate_url_Inr [OF assms [unfolded u]] by blast
  have "pinned \<in> set candidates" using resolve_all_nonempty [OF res] p by simp
  then have "is_blocked_ip pinned = None" using none by (auto simp: find_None_iff)
  then show thesis by (rule not_blocked_public) (rule that)
qed

lemma same_validate:
  "same_public N M \<Longrightarrow> validate_request M c h b url = validate_request N c h b url"
  by (simp only: validate_request_def same_public_def)

lemma safe_request_public:
  assumes "same_public N M"
  shows "safe_request N c h method url headers data redir False = safe_request M c h method url headers data redir False"
proof (cases "validate_request N c h False url")
  case (Inl e)
  then show ?thesis using same_validate [OF assms] by (simp add: safe_request_def)
next
  case (Inr t)
  obtain hn pin port where t: "t = (hn, pin, port)" by (cases t) auto
  have v: "validate_url (net_getaddrinfo N) c h False url = Inr (hn, pin, port)"
    using Inr t by (auto simp: validate_request_def split: sum.splits ssrf_error.splits)
  obtain i where "ip_address pin = Some i" "admitted_ip i" using pinned_public [OF v] .
  then have "net_send N pin r = net_send M pin r" for r using assms by (simp add: same_public_def)
  moreover have "validate_request M c h False url = Inr (hn, pin, port)"
    using Inr t same_validate [OF assms] by simp
  ultimately show ?thesis using Inr t by (simp add: safe_request_def)
qed

section \<open>Wrapped addresses\<close>

lemma ucast_high: "LENGTH('b) \<le> k \<Longrightarrow> drop_bit k (ucast (w :: 'b::len word) :: 'a::len word) = 0"
  by (rule bit_word_eqI) (auto simp: bit_simps dest: bit_imp_le_length)

lemma mapped_wrap: "normalize_ip (V6 (push_bit 32 0xFFFF OR ucast w) z) = V4 w"
proof -
  have "drop_bit 32 (push_bit 32 0xFFFF OR ucast w :: 128 word) = 0xFFFF"
    using ucast_high [of 32 w, where 'a = 128] by (simp add: drop_bit_or)
  moreover have "ucast (push_bit 32 x OR ucast w :: 128 word) = w" for x
    by (rule bit_word_eqI) (auto simp: bit_simps)
  ultimately show ?thesis unfolding normalize_ip.simps ipv4_mapped_def by (simp only: if_True option.case refl)
qed

lemma sixtofour_wrap:
  "normalize_ip (V6 (push_bit 112 0x2002 OR push_bit 80 (ucast w) OR ucast (low :: 80 word)) z) = V4 w"
  (is "normalize_ip (V6 ?a z) = _")
proof -
  have "drop_bit 112 (push_bit 80 (ucast w) :: 128 word) = 0"
    by (rule bit_word_eqI) (auto simp: bit_simps dest: bit_imp_le_length)
  then have top: "drop_bit 112 ?a = 0x2002"
    using ucast_high [of 112 low, where 'a = 128] by (simp add: drop_bit_or)
  moreover have "ucast (drop_bit 80 (push_bit 112 x OR push_bit 80 (ucast w) OR ucast low :: 128 word)) = w" for x
    by (rule bit_word_eqI) (auto simp: bit_simps dest: bit_imp_le_length)
  moreover have "drop_bit 32 ?a \<noteq> 0xFFFF"
  proof
    assume "drop_bit 32 ?a = 0xFFFF"
    then have "drop_bit 80 (drop_bit 32 ?a) = drop_bit 80 0xFFFF" by (simp only:)
    then show False using top by (simp add: drop_bit_drop_bit)
  qed
  ultimately show ?thesis unfolding normalize_ip.simps ipv4_mapped_def sixtofour_def by (simp only: if_True if_False option.case refl)
qed

lemma site_local_plain:
  assumes "site_local6 (unat w)"
  shows "ipv4_mapped w = None" and "sixtofour w = None"
proof -
  have "unat w div 2 ^ 32 \<noteq> 0xFFFF" "unat w div 2 ^ 112 \<noteq> 0x2002"
    using assms by (auto simp: site_local6_def hexts_def)
  then have "unat (drop_bit 32 w) \<noteq> unat (0xFFFF :: 128 word)" "unat (drop_bit 112 w) \<noteq> unat (0x2002 :: 128 word)"
    by (simp_all add: unat_drop_bit)
  then have "drop_bit 32 w \<noteq> 0xFFFF" "drop_bit 112 w \<noteq> 0x2002" by auto
  then show "ipv4_mapped w = None" and "sixtofour w = None" by (simp_all add: ipv4_mapped_def sixtofour_def)
qed

lemma site_local_net:
  assumes "site_local6 (unat w)" and "hexts a b c l < 2 ^ 128" and "2 ^ (128 - n) dvd hexts a b c l"
    and "hexts a b c l + 2 ^ (128 - n) \<le> hexts 0xfec0 0 0 0 \<or> hexts 0xff00 0 0 0 \<le> hexts a b c l"
  shows "\<not> in_net w (v6_of a b c l, n)"
  using assms v6_net [of a b c l n w] unfolding site_local6_def by linarith

lemma site_local_classify:
  assumes "site_local6 (unat w)"
  shows "classify (V6 w z) = None"
proof -
  note n = site_local_net [OF assms]
  have "\<not> in_any w PRIVATE6" "\<not> in_any w RESERVED6"
    unfolding in_any_def PRIVATE6_def RESERVED6_def by (simp_all add: n hexts_def)
  moreover have "\<not> in_net w (v6_of 0xfe80 0 0 0, 10)" "\<not> in_net w (v6_of 0xff00 0 0 0, 8)"
    by (simp_all add: n hexts_def)
  moreover have "unat w \<noteq> 0" "unat w \<noteq> 1" "unat w \<noteq> unat (v6_of 0xfd00 0xec2 0 0x254)"
    using assms by (auto simp: site_local6_def hexts_def v6_of_def unsigned_of_nat take_bit_nat_eq_self)
  then have "w \<noteq> 0" "w \<noteq> 1" "w \<noteq> v6_of 0xfd00 0xec2 0 0x254" by auto
  ultimately show ?thesis
    using site_local_plain [OF assms] by (simp add: classify_def METADATA_IPS_def)
qed

section \<open>Properties\<close>

text \<open>Parsing and printing of IPv4 addresses are inverse: the text of an address is read back as the
  address, and the only text that is read as an address is the one it is printed as (no leading
  zeros, signs, spaces or shortened forms).\<close>

theorem ipv4_round_trip: "parse_ipv4 s = Some w \<longleftrightarrow> s = print_ipv4 w"
  using print_parse_ipv4 parse_print_ipv4 by blast

definition demo_resolver :: "string \<Rightarrow> string + string list" where
  "demo_resolver name =
     (if name = ''hooks.example.net'' then Inr [''8.8.8.8'', ''9.9.9.9%eth0'', ''8.8.8.8''] else Inl ''Name or service not known'')"

text \<open>C11: The guard keeps requests away from internal addresses, but for one range: when a URL passes, its scheme
  is https (or http and the setting allows it), the port is a real port, and the address the connection
  is pinned to is the first of the name's addresses, every one of which is public -- IPv4 outside every
  special range, also when wrapped in an IPv6 literal, or IPv6 global unicast -- or in the deprecated
  site-local range \<open>fec0::/10\<close>, which the guard misses (\<open>site_local_passes\<close> below).\<close>

theorem validate_url_public:
  assumes "validate_url getaddrinfo c h False (VStr u) = Inr (hostname, pinned, port)"
  shows "(\<exists>i. ip_address pinned = Some i \<and> (public_ip i \<or> site_local_ip i)) \<and> 0 < port \<and> port \<le> 65535
    \<and> (\<exists>candidates. resolve_all getaddrinfo hostname = Inr candidates \<and> pinned = hd candidates
         \<and> (\<forall>a \<in> set candidates. \<exists>i. ip_address a = Some i \<and> (public_ip i \<or> site_local_ip i)))
    \<and> (fst (url_scheme (url_clean (py_strip u))) = ''https''
       \<or> fst (url_scheme (url_clean (py_strip u))) = ''http'' \<and> http_allowed c h)"
proof -
  obtain candidates where res: "resolve_all getaddrinfo hostname = Inr candidates"
    and none: "find (\<lambda>a. is_blocked_ip a \<noteq> None) candidates = None" and p: "pinned = hd candidates"
    and port: "0 < port \<and> port \<le> 65535"
    and sch: "fst (url_scheme (url_clean (py_strip u))) = ''https''
       \<or> fst (url_scheme (url_clean (py_strip u))) = ''http'' \<and> http_allowed c h"
    using validate_url_Inr [OF assms] .
  have all: "\<exists>i. ip_address a = Some i \<and> (public_ip i \<or> site_local_ip i)" if "a \<in> set candidates" for a
  proof -
    have "is_blocked_ip a = None" using none that by (auto simp: find_None_iff)
    then show ?thesis by (rule not_blocked_public) blast
  qed
  have "pinned \<in> set candidates" using resolve_all_nonempty [OF res] p by simp
  then show ?thesis using all res p port sch by blast
qed

lemma demo_parse: "parse_ipv4 ''8.8.8.8'' = Some (v4_of 8 8 8 8)" "parse_ipv4 ''9.9.9.9'' = Some (v4_of 9 9 9 9)"
proof -
  have "map parse_octet (split_on CHR ''.'' ''8.8.8.8'') = map Some [8, 8, 8, 8]" by code_simp
  then show "parse_ipv4 ''8.8.8.8'' = Some (v4_of 8 8 8 8)" by (simp only: parse_ipv4_def) simp
  have "map parse_octet (split_on CHR ''.'' ''9.9.9.9'') = map Some [9, 9, 9, 9]" by code_simp
  then show "parse_ipv4 ''9.9.9.9'' = Some (v4_of 9 9 9 9)" by (simp only: parse_ipv4_def) simp
qed

lemma demo_not_blocked: "is_blocked_ip ''8.8.8.8'' = None" "is_blocked_ip ''9.9.9.9'' = None"
proof -
  have "classify (V4 (v4_of 8 8 8 8)) = None" "classify (V4 (v4_of 9 9 9 9)) = None"
    by (simp_all add: classify_v4 special4_def in_range_def unat_v4_of quad_def)
  then show "is_blocked_ip ''8.8.8.8'' = None" "is_blocked_ip ''9.9.9.9'' = None"
    by (simp_all only: is_blocked_ip_def ip_address_def demo_parse option.case normalize_ip.simps)
qed

lemma validate_url_public_witness:
  "(\<exists>i. ip_address ''8.8.8.8'' = Some i \<and> (public_ip i \<or> site_local_ip i))
   \<and> (\<forall>c h. validate_url demo_resolver c h False (VStr '' https://me:pw@Hooks.example.net:8443/x?y'')
        = Inr (''hooks.example.net'', ''8.8.8.8'', 8443))"
proof -
  have u: "url_scheme (url_clean (py_strip '' https://me:pw@Hooks.example.net:8443/x?y''))
      = (''https'', ''//me:pw@Hooks.example.net:8443/x?y'')"
    and n: "url_netloc ''//me:pw@Hooks.example.net:8443/x?y'' = ''me:pw@Hooks.example.net:8443''"
    and b: "brackets_ok ''me:pw@Hooks.example.net:8443''"
    and hi: "host_info ''me:pw@Hooks.example.net:8443'' = (''Hooks.example.net'', Some ''8443'')"
    and hn: "url_hostname ''Hooks.example.net'' = ''hooks.example.net''"
    and res: "resolve_all demo_resolver ''hooks.example.net'' = Inr [''8.8.8.8'', ''9.9.9.9'']"
    by code_simp+
  have p: "url_port (Some ''8443'') = Inr (Some 8443)"
    by (simp add: url_port_def dec_value_def digit_value_def is_digit_def)
  have v: "validate_url demo_resolver c h False (VStr '' https://me:pw@Hooks.example.net:8443/x?y'')
      = Inr (''hooks.example.net'', ''8.8.8.8'', 8443)" for c h
    by (simp add: validate_url_def u n b hi hn p res demo_not_blocked Let_def)
  from validate_url_public [OF v] v show ?thesis by blast
qed

text \<open>Wrapping does not help: an IPv4 address is judged the same as an IPv4-mapped and as a 6to4 IPv6
  address, whatever the zone and the rest of the 6to4 address.\<close>

theorem wrapped_v4_blocked:
  "classify (normalize_ip (V6 (push_bit 32 0xFFFF OR ucast w) z)) = classify (V4 w)
   \<and> classify (normalize_ip (V6 (push_bit 112 0x2002 OR push_bit 80 (ucast w) OR ucast (low :: 80 word)) z)) = classify (V4 w)"
  by (simp only: mapped_wrap sixtofour_wrap simp_thms)

text \<open>Deprecated site-local addresses (\<open>fec0::/10\<close>) pass the guard: no predicate of \<open>ipaddress\<close> the code
  asks covers them.\<close>

theorem site_local_passes:
  assumes "site_local6 (unat w)"
  shows "classify (normalize_ip (V6 w None)) = None"
  using assms by (simp add: site_local_classify site_local_plain)

lemma site_local_passes_witness:
  "site_local6 (unat (v6_of 0xfec0 0 0 1)) \<and> classify (normalize_ip (V6 (v6_of 0xfec0 0 0 1) None)) = None"
proof -
  have "site_local6 (unat (v6_of 0xfec0 0 0 1))"
    by (simp add: site_local6_def hexts_def v6_of_def unsigned_of_nat take_bit_nat_eq_self)
  with site_local_passes [of "v6_of 0xfec0 0 0 1"] show ?thesis by blast
qed

end
