(* ===== verification/WebhookDelivery.thy ===== *)
theory WebhookDelivery
  imports Notifications Ssrf
begin

text \<open>
  The send side of outbound notifications (\<open>app/services/webhook_delivery.py\<close>): the bodies of the four
  channel kinds, the signed and guarded request, and the worker that claims due deliveries and retries
  failed ones. A request leaves the process only through \<open>safe_request\<close>.
\<close>

definition MAX_ATTEMPTS :: int where
  "MAX_ATTEMPTS = 5"

definition BATCH_SIZE :: nat where
  "BATCH_SIZE = 20"

definition PUSHOVER_API_URL :: string where
  "PUSHOVER_API_URL = ''https://api.pushover.net/1/messages.json''"

section \<open>JSON and form text\<close>

text \<open>The code points of UTF-8 text.\<close>

fun utf8_points :: "nat list \<Rightarrow> nat list" where
  "utf8_points [] = []"
| "utf8_points (a # b # c # d # r) =
     (if a < 128 then a # utf8_points (b # c # d # r)
      else if a < 224 then ((a mod 32) * 64 + b mod 64) # utf8_points (c # d # r)
      else if a < 240 then ((a mod 16) * 4096 + (b mod 64) * 64 + c mod 64) # utf8_points (d # r)
      else ((a mod 8) * 262144 + (b mod 64) * 4096 + (c mod 64) * 64 + d mod 64) # utf8_points r)"
| "utf8_points [a, b, c] =
     (if a < 128 then a # utf8_points [b, c]
      else if a < 224 then [(a mod 32) * 64 + b mod 64, c]
      else [(a mod 16) * 4096 + (b mod 64) * 64 + c mod 64])"
| "utf8_points [a, b] = (if a < 128 then [a, b] else [(a mod 32) * 64 + b mod 64])"
| "utf8_points [a] = [a]"

definition hex4 :: "nat \<Rightarrow> string" where
  "hex4 n = replicate (4 - length (hex_text n)) CHR ''0'' @ hex_text n"

definition json_point :: "nat \<Rightarrow> string" where
  "json_point n =
     (if n = 34 then [CHR 0x5C, CHR 0x22]
      else if n = 92 then [CHR 0x5C, CHR 0x5C]
      else if n = 10 then CHR 0x5C # ''n''
      else if n = 13 then CHR 0x5C # ''r''
      else if n = 9 then CHR 0x5C # ''t''
      else if n = 12 then CHR 0x5C # ''f''
      else if n = 8 then CHR 0x5C # ''b''
      else if 32 \<le> n \<and> n \<le> 126 then [char_of n]
      else if n < 65536 then CHR 0x5C # ''u'' @ hex4 n
      else CHR 0x5C # ''u'' @ hex4 (55296 + (n - 65536) div 1024) @ CHR 0x5C # ''u'' @ hex4 (56320 + (n - 65536) mod 1024))"

definition json_string :: "string \<Rightarrow> string" where
  "json_string s = CHR 0x22 # concat (map json_point (utf8_points (map of_char s))) @ [CHR 0x22]"

text \<open>\<open>json.dumps(v, separators=(",", ":"))\<close>.\<close>

fun json_text :: "env \<Rightarrow> pyval \<Rightarrow> string" where
  "json_text E VNone = ''null''"
| "json_text E (VBool b) = (if b then ''true'' else ''false'')"
| "json_text E (VInt i) = (if i < 0 then CHR ''-'' # dec (nat (- i)) else dec (nat i))"
| "json_text E (VFloat r) = env_repr E (VFloat r)"
| "json_text E (VStr s) = json_string s"
| "json_text E (VList xs) = ''['' @ join_with '','' (map (json_text E) xs) @ '']''"
| "json_text E (VDict d) =
     ''{'' @ join_with '','' (map (\<lambda>kv. json_string (fst kv) @ '':'' @ json_text E (snd kv)) d) @ ''}''"

definition quote_plus :: "string \<Rightarrow> string" where
  "quote_plus s = concat (map (\<lambda>c. let n = of_char c :: nat in
     if 48 \<le> n \<and> n \<le> 57 \<or> 65 \<le> n \<and> n \<le> 90 \<or> 97 \<le> n \<and> n \<le> 122 \<or> c \<in> set ''_.-~'' then [c]
     else if n = 32 then ''+''
     else CHR ''%'' # (if n < 16 then ''0'' else []) @ py_upper (hex_text n)) s)"

definition urlencode :: "env \<Rightarrow> pydict \<Rightarrow> string" where
  "urlencode E d = join_with ''&'' (map (\<lambda>(k, v). quote_plus k @ ''='' @ quote_plus (py_str E v)) d)"

section \<open>Formatting\<close>

fun py_type_name :: "pyval \<Rightarrow> string" where
  "py_type_name VNone = ''NoneType''"
| "py_type_name (VBool _) = ''bool''"
| "py_type_name (VInt _) = ''int''"
| "py_type_name (VFloat _) = ''float''"
| "py_type_name (VStr _) = ''str''"
| "py_type_name (VList _) = ''list''"
| "py_type_name (VDict _) = ''dict''"

definition sign_body :: "net \<Rightarrow> string \<Rightarrow> string \<Rightarrow> string" where
  "sign_body N secret body = ''sha256='' @ net_hmac N secret body"

definition or_val :: "pyval \<Rightarrow> pyval \<Rightarrow> pyval" where
  "or_val a b = (if truthy a then a else b)"

definition human_summary :: "env \<Rightarrow> string \<Rightarrow> pydict \<Rightarrow> string" where
  "human_summary E event_type payload =
     (let name = or_val (dget payload ''name'') (or_val (dget payload ''device_name'') (dget payload ''rule_name''));
          base = map (\<lambda>c. if c = CHR ''.'' \<or> c = CHR ''_'' then CHR '' '' else c) event_type
      in if truthy name then ''Rebooter: '' @ base @ '' '' @ [CHR 0xE2, CHR 0x80, CHR 0x94] @ '' '' @ py_str E name
         else ''Rebooter: '' @ base)"

text \<open>A formatted request: URL, method, headers and body; \<open>Inl\<close> is the text of the exception.\<close>

type_synonym formatted = "pyval \<times> string \<times> pydict \<times> string"

definition JSON_HEADERS :: pydict where
  "JSON_HEADERS = [(''Content-Type'', VStr ''application/json'')]"

definition format_generic :: "env \<Rightarrow> net \<Rightarrow> webhook_channel \<Rightarrow> string \<Rightarrow> pydict \<Rightarrow> string + formatted" where
  "format_generic E N ch event_type payload =
     (let config = whc_config ch; url = dget config ''url'';
          body = json_text E (VDict [(''event'', VStr event_type), (''payload'', VDict payload),
                                     (''sent_at'', VStr (iso_z (env_now E)))]);
          extra = or_val (dget config ''headers'') (VDict [])
      in case or_val (dget config ''method'') (VStr ''POST'') of
           VStr m \<Rightarrow>
             (case extra of
                VDict d \<Rightarrow> Inr (url, py_upper m, dict_update JSON_HEADERS d, body)
              | _ \<Rightarrow> Inl (net_exc_text N extra))
         | v \<Rightarrow> Inl (quoted (py_type_name v) @ '' object has no attribute '' @ quoted ''upper''))"

definition format_slack :: "env \<Rightarrow> webhook_channel \<Rightarrow> string \<Rightarrow> pydict \<Rightarrow> formatted" where
  "format_slack E ch event_type payload =
     (dget (whc_config ch) ''url'', ''POST'', JSON_HEADERS,
      json_text E (VDict [(''text'', VStr (human_summary E event_type payload))]))"

definition format_discord :: "env \<Rightarrow> webhook_channel \<Rightarrow> string \<Rightarrow> pydict \<Rightarrow> formatted" where
  "format_discord E ch event_type payload =
     (dget (whc_config ch) ''url'', ''POST'', JSON_HEADERS,
      json_text E (VDict [(''content'', VStr (human_summary E event_type payload))]))"

definition dget_or :: "pydict \<Rightarrow> string \<Rightarrow> pyval \<Rightarrow> pyval" where
  "dget_or d k v = (case map_of d k of None \<Rightarrow> v | Some w \<Rightarrow> w)"

definition format_pushover :: "env \<Rightarrow> webhook_channel \<Rightarrow> string \<Rightarrow> pydict \<Rightarrow> formatted" where
  "format_pushover E ch event_type payload =
     (VStr PUSHOVER_API_URL, ''POST'', [(''Content-Type'', VStr ''application/x-www-form-urlencoded'')],
      urlencode E [(''token'', dget_or (whc_config ch) ''app_token'' (VStr [])),
                   (''user'', dget_or (whc_config ch) ''user_key'' (VStr [])),
                   (''title'', VStr ''Rebooter Hub''),
                   (''message'', VStr (human_summary E event_type payload))])"

definition format_delivery :: "env \<Rightarrow> net \<Rightarrow> webhook_channel \<Rightarrow> string \<Rightarrow> pydict \<Rightarrow> string + formatted" where
  "format_delivery E N ch event_type payload =
     (if whc_kind ch = ''webhook_generic'' then format_generic E N ch event_type payload
      else if whc_kind ch = ''slack'' then Inr (format_slack E ch event_type payload)
      else if whc_kind ch = ''discord'' then Inr (format_discord E ch event_type payload)
      else if whc_kind ch = ''pushover'' then Inr (format_pushover E ch event_type payload)
      else Inl (''no formatter for channel kind '' @ quoted (whc_kind ch)))"

section \<open>One delivery\<close>

record send_result =
  res_delivery_id :: int
  res_status :: "string option"
  res_http_status :: "int option"
  res_error :: "string option"
  res_next_attempt_at :: "instant option"

definition backoff_delay :: "int \<Rightarrow> instant" where
  "backoff_delay attempts = secs (60 * (attempts * attempts))"

definition result_of :: "int \<Rightarrow> string \<Rightarrow> string \<Rightarrow> instant option \<Rightarrow> send_result" where
  "result_of i status err nxt =
     \<lparr>res_delivery_id = i, res_status = Some status, res_http_status = None, res_error = Some err,
      res_next_attempt_at = nxt\<rparr>"

definition schedule_retry_or_dead :: "instant \<Rightarrow> string \<Rightarrow> webhook_delivery \<Rightarrow> send_result \<times> webhook_delivery" where
  "schedule_retry_or_dead now err d0 =
     (let d = d0\<lparr>whd_response_snippet := Some (take 500 err)\<rparr> in
      if MAX_ATTEMPTS \<le> whd_attempts d
      then (result_of (whd_id d) ''dead'' err None, d\<lparr>whd_status := ''dead'', whd_next_attempt_at := None\<rparr>)
      else let nxt = Some (now + backoff_delay (whd_attempts d))
           in (result_of (whd_id d) ''failed'' err nxt, d\<lparr>whd_status := ''failed'', whd_next_attempt_at := nxt\<rparr>))"

text \<open>The formatted, signed and guarded request of one delivery.\<close>

definition signed_headers :: "net \<Rightarrow> webhook_channel \<Rightarrow> pydict \<Rightarrow> string \<Rightarrow> pydict" where
  "signed_headers N ch headers body =
     (case whc_signing_secret ch of
        Some (x # xs) \<Rightarrow> dset headers ''X-Rebooter-Signature'' (VStr (sign_body N (x # xs) body))
      | _ \<Rightarrow> headers)"

definition deliver_request ::
  "env \<Rightarrow> net \<Rightarrow> ctx \<Rightarrow> hub \<Rightarrow> webhook_channel \<Rightarrow> webhook_delivery \<Rightarrow> request_error + http_response" where
  "deliver_request E N c h ch d =
     (case format_delivery E N ch (whd_event_type d) (whd_payload d) of
        Inl e \<Rightarrow> Inl (RequestFailed e)
      | Inr (url, method, headers, body) \<Rightarrow>
          safe_request N c h method url (signed_headers N ch headers body) body False False)"

definition attempt_delivery ::
  "env \<Rightarrow> net \<Rightarrow> ctx \<Rightarrow> hub \<Rightarrow> webhook_channel \<Rightarrow> webhook_delivery \<Rightarrow> send_result \<times> webhook_delivery" where
  "attempt_delivery E N c h ch d0 =
     (let d = d0\<lparr>whd_attempts := whd_attempts d0 + 1, whd_updated_at := env_now E\<rparr> in
      case deliver_request E N c h ch d of
        Inr resp \<Rightarrow>
          (let d1 = d\<lparr>whd_http_status := Some (rsp_status resp), whd_response_snippet := Some (take 500 (rsp_body resp))\<rparr> in
           if 200 \<le> rsp_status resp \<and> rsp_status resp < 300
           then (\<lparr>res_delivery_id = whd_id d, res_status = Some ''sent'', res_http_status = Some (rsp_status resp),
                  res_error = None, res_next_attempt_at = None\<rparr>,
                 d1\<lparr>whd_status := ''sent'', whd_next_attempt_at := None\<rparr>)
           else schedule_retry_or_dead (env_now E) (''HTTP '' @ json_text E (VInt (rsp_status resp))) d1)
      | Inl (SSRFBlockedError e) \<Rightarrow>
          (result_of (whd_id d) ''dead'' (''ssrf_blocked: '' @ ssrf_reason e) None,
           d\<lparr>whd_status := ''dead'', whd_next_attempt_at := None,
             whd_response_snippet := Some (take 500 (''blocked by SSRF guard: '' @ ssrf_reason e))\<rparr>)
      | Inl (RequestFailed e) \<Rightarrow> schedule_retry_or_dead (env_now E) e d)"

definition lost_channel :: "env \<Rightarrow> webhook_delivery \<Rightarrow> send_result \<times> webhook_delivery" where
  "lost_channel E d =
     (result_of (whd_id d) ''dead'' ''channel deleted'' None,
      d\<lparr>whd_status := ''dead'', whd_response_snippet := Some ''channel deleted'', whd_updated_at := env_now E\<rparr>)"

text \<open>\<open>send_one\<close>: the row and its channel are read, the attempt is made, the commit writes the row back.
  \<open>Inl\<close> is a commit the tenant guard refuses.\<close>

definition send_one :: "env \<Rightarrow> net \<Rightarrow> int \<Rightarrow> ctx \<times> hub \<Rightarrow> (tenant_error + send_result) \<times> ctx \<times> hub" where
  "send_one E N i s =
     (let (rows, s1) = select_scoped E ''webhook_deliveries'' whd_organization_id h_deliveries s in
      case tget whd_id i rows of
        None \<Rightarrow> (Inr \<lparr>res_delivery_id = i, res_status = None, res_http_status = None,
                     res_error = Some ''delivery not found'', res_next_attempt_at = None\<rparr>, s1)
      | Some d \<Rightarrow>
          (let (found, s2) = load_channel E (whd_channel_id d) s1;
               (res, d') = (case found of None \<Rightarrow> lost_channel E d
                            | Some ch \<Rightarrow> attempt_delivery E N (fst s2) (snd s2) ch d)
           in case stamp_and_guard_tenant_writes E []
                     [\<lparr>fo_class = ''WebhookDelivery'', fo_org = whd_organization_id d, fo_modified = d' \<noteq> d\<rparr>] s2 of
                Inl e \<Rightarrow> (Inl e, fst s2, snd s)
              | Inr (_, dirty, c, h) \<Rightarrow>
                  (Inr res, c, h\<lparr>h_deliveries := tupd whd_id i (\<lambda>_. d'\<lparr>whd_organization_id := fo_org (hd dirty)\<rparr>) (h_deliveries h)\<rparr>)))"

section \<open>The worker\<close>

record delivery_stats =
  st_considered :: nat
  st_sent :: nat
  st_failed :: nat
  st_dead :: nat

definition count_result :: "send_result \<Rightarrow> delivery_stats \<Rightarrow> delivery_stats" where
  "count_result r st =
     (if res_status r = Some ''sent'' then st\<lparr>st_sent := Suc (st_sent st)\<rparr>
      else if res_status r = Some ''dead'' then st\<lparr>st_dead := Suc (st_dead st)\<rparr>
      else if res_status r = Some ''failed'' then st\<lparr>st_failed := Suc (st_failed st)\<rparr>
      else st)"

definition is_due :: "instant \<Rightarrow> webhook_delivery \<Rightarrow> bool" where
  "is_due now d \<longleftrightarrow> (whd_status d = ''pending'' \<or> whd_status d = ''failed'')
     \<and> (case whd_next_attempt_at d of None \<Rightarrow> False | Some t \<Rightarrow> t \<le> now)"

definition due_ids :: "instant \<Rightarrow> webhook_delivery list \<Rightarrow> int list" where
  "due_ids now ds = map whd_id (take BATCH_SIZE (sort_key (\<lambda>d. the (whd_next_attempt_at d)) (filter (is_due now) ds)))"

text \<open>The loop over the claimed ids; every send is a session of its own, so an exception keeps what
  earlier iterations committed. \<open>Es\<close> is the environment of each iteration.\<close>

fun send_all ::
  "(nat \<Rightarrow> env) \<Rightarrow> (nat \<Rightarrow> net) \<Rightarrow> nat \<Rightarrow> int list \<Rightarrow> delivery_stats \<Rightarrow> ctx \<times> hub \<Rightarrow>
   (tenant_error + delivery_stats) \<times> ctx \<times> hub" where
  "send_all Es Ns k [] st s = (Inr st, s)"
| "send_all Es Ns k (i # is) st s =
     (case send_one (Es k) (Ns k) i s of
        (Inl e, s') \<Rightarrow> (Inl e, s')
      | (Inr r, s') \<Rightarrow> send_all Es Ns (Suc k) is (count_result r (st\<lparr>st_considered := Suc (st_considered st)\<rparr>)) s')"

definition tick ::
  "(nat \<Rightarrow> env) \<Rightarrow> (nat \<Rightarrow> net) \<Rightarrow> instant \<Rightarrow> ctx \<times> hub \<Rightarrow> (tenant_error + delivery_stats) \<times> ctx \<times> hub" where
  "tick Es Ns now s =
     (let (rows, s1) = select_scoped (Es 0) ''webhook_deliveries'' whd_organization_id h_deliveries s
      in send_all Es Ns 0 (due_ids now rows) \<lparr>st_considered = 0, st_sent = 0, st_failed = 0, st_dead = 0\<rparr> s1)"

section \<open>The escalation webhook\<close>

definition send_escalation_webhook ::
  "env \<Rightarrow> net \<Rightarrow> ctx \<Rightarrow> hub \<Rightarrow> string \<Rightarrow> pyval \<Rightarrow> pydict \<Rightarrow> pydict" where
  "send_escalation_webhook E N c h rule_id url payload =
     (let body = json_text E (VDict [(''event'', VStr ''watchdog.rule_escalated''), (''rule_id'', VStr rule_id),
                                     (''payload'', VDict payload), (''sent_at'', VStr (iso_z (env_now E)))])
      in case safe_request N c h ''POST'' url JSON_HEADERS body False False of
           Inr resp \<Rightarrow>
             [(''rule_id'', VStr rule_id), (''escalation'', VStr ''webhook''), (''http_status'', VInt (rsp_status resp)),
              (''ok'', VBool (200 \<le> rsp_status resp \<and> rsp_status resp < 300))]
         | Inl (SSRFBlockedError e) \<Rightarrow>
             [(''rule_id'', VStr rule_id), (''escalation'', VStr ''webhook''),
              (''error'', VStr (''ssrf_blocked: '' @ ssrf_reason e))]
         | Inl (RequestFailed e) \<Rightarrow>
             [(''rule_id'', VStr rule_id), (''escalation'', VStr ''webhook''), (''error'', VStr e)])"

section \<open>Bounded retries\<close>

text \<open>
  The contract of a worker that retries: an item that is still active has attempts left, and every
  try either finishes the item or uses up one attempt. Then no item is tried more than \<open>limit\<close> times.
\<close>

locale bounded_retry =
  fixes ok :: "'s \<Rightarrow> bool" and active :: "'s \<Rightarrow> bool" and used :: "'s \<Rightarrow> nat" and limit :: nat
    and attempt :: "'x \<Rightarrow> 's \<Rightarrow> 's"
  assumes left: "ok s \<Longrightarrow> active s \<Longrightarrow> used s < limit"
    and step_ok: "ok s \<Longrightarrow> active s \<Longrightarrow> ok (attempt x s)"
    and step_used: "ok s \<Longrightarrow> active s \<Longrightarrow> active (attempt x s) \<Longrightarrow> used (attempt x s) = Suc (used s)"
begin

definition allowance :: "'s \<Rightarrow> nat" where
  "allowance s = (if active s then limit - used s else 0)"

lemma allowance_step: "ok s \<Longrightarrow> active s \<Longrightarrow> allowance (attempt x s) < allowance s"
  using left [of s] left [of "attempt x s"] step_ok [of s x] step_used [of s x] by (auto simp: allowance_def)

lemma allowance_le: "allowance s \<le> limit"
  by (simp add: allowance_def)

lemma inactive_within:
  "ok s \<Longrightarrow> allowance s \<le> length xs \<Longrightarrow>
     \<exists>k \<le> allowance s. \<not> active (fold attempt (take k xs) s) \<and> (\<forall>j < k. active (fold attempt (take j xs) s))"
proof (induction "allowance s" arbitrary: s xs rule: less_induct)
  case less
  show ?case
  proof (cases "active s")
    case False
    then show ?thesis by (intro exI [of _ 0]) simp
  next
    case True
    have lt: "allowance (attempt x s) < allowance s" for x using less.prems True by (intro allowance_step)
    obtain x ys where xs: "xs = x # ys" using lt [of undefined] less.prems by (cases xs) auto
    obtain k where k: "k \<le> allowance (attempt x s)" "\<not> active (fold attempt (take k ys) (attempt x s))"
      "\<forall>j < k. active (fold attempt (take j ys) (attempt x s))"
      using less.hyps [of "attempt x s" ys] step_ok [OF less.prems(1) True, of x] less.prems(2) lt [of x] xs by auto
    show ?thesis
      using k lt [of x] True by (intro exI [of _ "Suc k"]) (auto simp: xs less_Suc_eq_0_disj)
  qed
qed

end

section \<open>The life of a delivery\<close>

definition active :: "webhook_delivery \<Rightarrow> bool" where
  "active d \<longleftrightarrow> whd_status d = ''pending'' \<or> whd_status d = ''failed''"

definition delivery_ok :: "webhook_delivery \<Rightarrow> bool" where
  "delivery_ok d \<longleftrightarrow> 0 \<le> whd_attempts d \<and> whd_attempts d \<le> MAX_ATTEMPTS
     \<and> whd_status d \<in> {''pending'', ''failed'', ''sent'', ''dead''}
     \<and> (whd_status d = ''pending'' \<longrightarrow> whd_attempts d = 0 \<and> whd_next_attempt_at d \<noteq> None)
     \<and> (whd_status d = ''failed'' \<longrightarrow> 0 < whd_attempts d \<and> whd_attempts d < MAX_ATTEMPTS \<and> whd_next_attempt_at d \<noteq> None)
     \<and> (whd_status d = ''sent'' \<longrightarrow> 0 < whd_attempts d \<and> whd_next_attempt_at d = None)"

text \<open>One send of a row as the worker makes it.\<close>

definition send_row :: "env \<Rightarrow> net \<Rightarrow> ctx \<Rightarrow> hub \<Rightarrow> webhook_delivery \<Rightarrow> send_result \<times> webhook_delivery" where
  "send_row E N c h d =
     (case tget whc_id (whd_channel_id d) (h_channels h) of
        None \<Rightarrow> lost_channel E d
      | Some ch \<Rightarrow> attempt_delivery E N c h ch d)"

text \<open>What one send can do: the channel is gone, the attempt counts and the row is sent or dead, or it
  failed with attempts left and waits for the square of their number in minutes.\<close>

lemma retry_outcome:
  assumes "schedule_retry_or_dead now err d = (r, d')"
  shows "whd_attempts d' = whd_attempts d" and "whd_id d' = whd_id d" and "whd_organization_id d' = whd_organization_id d"
    and "whd_channel_id d' = whd_channel_id d"
    and "whd_status d' = ''dead'' \<and> whd_next_attempt_at d' = None \<and> MAX_ATTEMPTS \<le> whd_attempts d
       \<or> whd_status d' = ''failed'' \<and> whd_attempts d < MAX_ATTEMPTS
         \<and> whd_next_attempt_at d' = Some (now + backoff_delay (whd_attempts d))"
    and "res_status r = Some (whd_status d')"
  using assms by (auto simp: schedule_retry_or_dead_def Let_def result_of_def split: if_splits)

lemma attempt_outcome:
  assumes "attempt_delivery E N c h ch d = (r, d')"
  shows "whd_attempts d' = whd_attempts d + 1" and "whd_id d' = whd_id d"
    and "whd_organization_id d' = whd_organization_id d" and "whd_channel_id d' = whd_channel_id d"
    and "whd_status d' \<in> {''sent'', ''dead''} \<and> whd_next_attempt_at d' = None
       \<or> whd_status d' = ''failed'' \<and> whd_attempts d' < MAX_ATTEMPTS
         \<and> whd_next_attempt_at d' = Some (env_now E + backoff_delay (whd_attempts d'))"
    and "res_status r = Some (whd_status d')"
proof -
  define d1 where "d1 = d\<lparr>whd_attempts := whd_attempts d + 1, whd_updated_at := env_now E\<rparr>"
  have d1: "whd_attempts d1 = whd_attempts d + 1" "whd_id d1 = whd_id d" "whd_organization_id d1 = whd_organization_id d"
    "whd_channel_id d1 = whd_channel_id d" by (simp_all add: d1_def)
  note defs = attempt_delivery_def d1_def [symmetric] Let_def
  consider (retry) err d2 where "schedule_retry_or_dead (env_now E) err d2 = (r, d')"
      "whd_attempts d2 = whd_attempts d1" "whd_id d2 = whd_id d1" "whd_organization_id d2 = whd_organization_id d1"
      "whd_channel_id d2 = whd_channel_id d1"
    | (final) "whd_attempts d' = whd_attempts d1" "whd_id d' = whd_id d1" "whd_organization_id d' = whd_organization_id d1"
      "whd_channel_id d' = whd_channel_id d1" "whd_status d' \<in> {''sent'', ''dead''}" "whd_next_attempt_at d' = None"
      "res_status r = Some (whd_status d')"
  proof (cases "deliver_request E N c h ch d1")
    case (Inl e)
    show thesis
    proof (cases e)
      case (SSRFBlockedError x)
      have "r = result_of (whd_id d1) ''dead'' (''ssrf_blocked: '' @ ssrf_reason x) None"
        "d' = d1\<lparr>whd_status := ''dead'', whd_next_attempt_at := None,
           whd_response_snippet := Some (take 500 (''blocked by SSRF guard: '' @ ssrf_reason x))\<rparr>"
        using assms Inl by (simp_all only: SSRFBlockedError defs sum.case request_error.case prod.inject)
      then show thesis by (intro final) (simp_all add: result_of_def)
    next
      case (RequestFailed x)
      have "schedule_retry_or_dead (env_now E) x d1 = (r, d')"
        using assms Inl by (simp only: RequestFailed defs sum.case request_error.case)
      then show thesis by (rule retry) (rule refl)+
    qed
  next
    case (Inr resp)
    let ?d2 = "d1\<lparr>whd_http_status := Some (rsp_status resp), whd_response_snippet := Some (take 500 (rsp_body resp))\<rparr>"
    show thesis
    proof (cases "200 \<le> rsp_status resp \<and> rsp_status resp < 300")
      case True
      then have "r = \<lparr>res_delivery_id = whd_id d1, res_status = Some ''sent'', res_http_status = Some (rsp_status resp),
            res_error = None, res_next_attempt_at = None\<rparr>" "d' = ?d2\<lparr>whd_status := ''sent'', whd_next_attempt_at := None\<rparr>"
        using assms Inr by (simp_all only: defs sum.case simp_thms if_True prod.inject)
      then show thesis by (intro final) simp_all
    next
      case False
      then have "schedule_retry_or_dead (env_now E) (''HTTP '' @ json_text E (VInt (rsp_status resp))) ?d2 = (r, d')"
        using assms Inr by (simp only: defs sum.case simp_thms if_False)
      then show thesis by (rule retry) simp_all
    qed
  qed
  then have "whd_attempts d' = whd_attempts d1 \<and> whd_id d' = whd_id d1 \<and> whd_organization_id d' = whd_organization_id d1
      \<and> whd_channel_id d' = whd_channel_id d1 \<and> res_status r = Some (whd_status d')
      \<and> (whd_status d' \<in> {''sent'', ''dead''} \<and> whd_next_attempt_at d' = None
         \<or> whd_status d' = ''failed'' \<and> whd_attempts d' < MAX_ATTEMPTS
           \<and> whd_next_attempt_at d' = Some (env_now E + backoff_delay (whd_attempts d')))"
  proof cases
    case retry
    then show ?thesis using retry_outcome [OF retry(1)] by auto
  qed blast
  then show "whd_attempts d' = whd_attempts d + 1" and "whd_id d' = whd_id d"
    and "whd_organization_id d' = whd_organization_id d" and "whd_channel_id d' = whd_channel_id d"
    and "whd_status d' \<in> {''sent'', ''dead''} \<and> whd_next_attempt_at d' = None
       \<or> whd_status d' = ''failed'' \<and> whd_attempts d' < MAX_ATTEMPTS
         \<and> whd_next_attempt_at d' = Some (env_now E + backoff_delay (whd_attempts d'))"
    and "res_status r = Some (whd_status d')"
    unfolding d1 by blast+
qed

lemma send_row_outcome:
  assumes "send_row E N c h d = (r, d')"
  shows "whd_id d' = whd_id d" and "whd_organization_id d' = whd_organization_id d"
    and "whd_channel_id d' = whd_channel_id d"
    and "whd_status d' = ''dead'' \<and> whd_attempts d' = whd_attempts d
       \<or> whd_status d' \<in> {''sent'', ''dead''} \<and> whd_attempts d' = whd_attempts d + 1 \<and> whd_next_attempt_at d' = None
       \<or> whd_status d' = ''failed'' \<and> whd_attempts d' = whd_attempts d + 1 \<and> whd_attempts d' < MAX_ATTEMPTS
         \<and> whd_next_attempt_at d' = Some (env_now E + backoff_delay (whd_attempts d'))"
    and "res_status r = Some (whd_status d')"
proof -
  have "whd_id d' = whd_id d \<and> whd_organization_id d' = whd_organization_id d \<and> whd_channel_id d' = whd_channel_id d
     \<and> res_status r = Some (whd_status d')
     \<and> (whd_status d' = ''dead'' \<and> whd_attempts d' = whd_attempts d
       \<or> whd_status d' \<in> {''sent'', ''dead''} \<and> whd_attempts d' = whd_attempts d + 1 \<and> whd_next_attempt_at d' = None
       \<or> whd_status d' = ''failed'' \<and> whd_attempts d' = whd_attempts d + 1 \<and> whd_attempts d' < MAX_ATTEMPTS
         \<and> whd_next_attempt_at d' = Some (env_now E + backoff_delay (whd_attempts d')))"
  proof (cases "tget whc_id (whd_channel_id d) (h_channels h)")
    case None
    then show ?thesis using assms by (auto simp: send_row_def lost_channel_def result_of_def)
  next
    case (Some ch)
    then have "attempt_delivery E N c h ch d = (r, d')" using assms by (simp only: send_row_def option.case)
    from attempt_outcome [OF this] show ?thesis by blast
  qed
  then show "whd_id d' = whd_id d" and "whd_organization_id d' = whd_organization_id d"
    and "whd_channel_id d' = whd_channel_id d"
    and "whd_status d' = ''dead'' \<and> whd_attempts d' = whd_attempts d
       \<or> whd_status d' \<in> {''sent'', ''dead''} \<and> whd_attempts d' = whd_attempts d + 1 \<and> whd_next_attempt_at d' = None
       \<or> whd_status d' = ''failed'' \<and> whd_attempts d' = whd_attempts d + 1 \<and> whd_attempts d' < MAX_ATTEMPTS
         \<and> whd_next_attempt_at d' = Some (env_now E + backoff_delay (whd_attempts d'))"
    and "res_status r = Some (whd_status d')"
    by blast+
qed

lemma send_row_ok:
  assumes "delivery_ok d" and "active d"
  shows "delivery_ok (snd (send_row E N c h d))"
proof -
  obtain r d' where sr: "send_row E N c h d = (r, d')" by (cases "send_row E N c h d")
  have a: "0 \<le> whd_attempts d" "whd_attempts d < MAX_ATTEMPTS"
    using assms unfolding delivery_ok_def active_def MAX_ATTEMPTS_def by auto
  have "delivery_ok d'" using send_row_outcome(4) [OF sr]
  proof (elim disjE conjE)
    assume "whd_status d' = ''dead''" "whd_attempts d' = whd_attempts d"
    then show ?thesis using a by (simp add: delivery_ok_def)
  next
    assume st: "whd_status d' \<in> {''sent'', ''dead''}" and d': "whd_attempts d' = whd_attempts d + 1" "whd_next_attempt_at d' = None"
    from st consider "whd_status d' = ''sent''" | "whd_status d' = ''dead''" by blast
    then show ?thesis using a d' by cases (simp_all add: delivery_ok_def)
  next
    assume "whd_status d' = ''failed''" "whd_attempts d' = whd_attempts d + 1" "whd_attempts d' < MAX_ATTEMPTS"
      "whd_next_attempt_at d' = Some (env_now E + backoff_delay (whd_attempts d'))"
    then show ?thesis using a by (simp add: delivery_ok_def)
  qed
  then show ?thesis by (simp add: sr)
qed

interpretation delivery: bounded_retry delivery_ok active "\<lambda>d. nat (whd_attempts d)" 5
  "\<lambda>(E, N, c, h) d. snd (send_row E N c h d)"
proof unfold_locales
  fix d assume "delivery_ok d" "active d"
  then show "nat (whd_attempts d) < 5" by (auto simp: delivery_ok_def active_def MAX_ATTEMPTS_def)
next
  fix d and x :: "env \<times> net \<times> ctx \<times> hub" assume "delivery_ok d" "active d"
  then show "delivery_ok ((case x of (E, N, c, h) \<Rightarrow> \<lambda>d. snd (send_row E N c h d)) d)"
    using send_row_ok by (cases x) simp
next
  fix d and x :: "env \<times> net \<times> ctx \<times> hub"
  assume d: "delivery_ok d" "active d" and act: "active ((case x of (E, N, c, h) \<Rightarrow> \<lambda>d. snd (send_row E N c h d)) d)"
  obtain E N c h where x: "x = (E, N, c, h)" by (cases x)
  obtain r d' where sr: "send_row E N c h d = (r, d')" by (cases "send_row E N c h d")
  show "nat (whd_attempts ((case x of (E, N, c, h) \<Rightarrow> \<lambda>d. snd (send_row E N c h d)) d)) = Suc (nat (whd_attempts d))"
    using send_row_outcome(4) [OF sr] act sr d by (auto simp: x active_def delivery_ok_def)
qed

section \<open>The worker under the system bypass\<close>

lemma send_row_frame: "send_row E N c (h\<lparr>h_deliveries := ds\<rparr>) d = send_row E N c h d"
proof -
  have "http_allowed c (h\<lparr>h_deliveries := ds\<rparr>) = http_allowed c h" by (simp add: http_allowed_def)
  then have "validate_url g c (h\<lparr>h_deliveries := ds\<rparr>) b url = validate_url g c h b url" for g b url
    by (simp only: validate_url_def)
  then have "safe_request N c (h\<lparr>h_deliveries := ds\<rparr>) m url hs data redir b = safe_request N c h m url hs data redir b"
    for m url hs data redir b by (simp only: safe_request_def validate_request_def)
  then have "attempt_delivery E N c (h\<lparr>h_deliveries := ds\<rparr>) ch d = attempt_delivery E N c h ch d" for ch
    by (simp only: attempt_delivery_def deliver_request_def)
  then show ?thesis by (simp add: send_row_def cong: option.case_cong)
qed

lemma send_one_system:
  assumes "cx_bypass c" and "tget whd_id i (h_deliveries h) = Some d"
  shows "send_one E N i (c, h) =
     (Inr (fst (send_row E N c h d)), c, h\<lparr>h_deliveries := tupd whd_id i (\<lambda>_. snd (send_row E N c h d)) (h_deliveries h)\<rparr>)"
proof -
  obtain r d' where sr: "send_row E N c h d = (r, d')" by (cases "send_row E N c h d")
  have "d'\<lparr>whd_organization_id := whd_organization_id d\<rparr> = d'"
    using send_row_outcome(2) [OF sr] by simp
  moreover have "(case tget whc_id (whd_channel_id d) (h_channels h) of None \<Rightarrow> lost_channel E d
      | Some ch \<Rightarrow> attempt_delivery E N c h ch d) = (r, d')"
    using sr by (simp add: send_row_def)
  ultimately show ?thesis using assms sr
    by (cases "tget whc_id (whd_channel_id d) (h_channels h)") (simp_all add: send_one_def)
qed

text \<open>The rows after the loop: row \<open>i\<close> of the ids is sent with the \<open>i\<close>-th environment, the others stay.\<close>

fun step_rows :: "(nat \<Rightarrow> webhook_delivery \<Rightarrow> webhook_delivery) \<Rightarrow> nat \<Rightarrow> int list \<Rightarrow> webhook_delivery list \<Rightarrow> webhook_delivery list" where
  "step_rows f k [] rows = rows"
| "step_rows f k (i # is) rows = step_rows f (Suc k) is (tupd whd_id i (f k) rows)"

lemma tupd_const:
  assumes "pk_ok key rows" and "tget key i rows = Some d"
  shows "tupd key i (\<lambda>_. f d) rows = tupd key i f rows"
  using assms pk_ok_unique [OF assms(1)] by (auto simp: tupd_def dest!: tget_SomeD)

lemma step_rows_rel:
  assumes "\<And>k d. whd_id (f k d) = whd_id d" and "distinct is"
  shows "list_all2 (\<lambda>d d'. if whd_id d \<in> set is then \<exists>j. k \<le> j \<and> j < k + length is \<and> d' = f j d else d' = d)
     rows (step_rows f k is rows)"
  using assms(2)
proof (induction "is" arbitrary: k rows)
  case Nil
  then show ?case by (simp add: list_all2_same)
next
  case (Cons i "is")
  let ?R = "\<lambda>is k d d'. if whd_id d \<in> set is then \<exists>j. k \<le> j \<and> j < k + length is \<and> d' = f j d else d' = d"
  have one: "list_all2 (\<lambda>d d1. d1 = (if whd_id d = i then f k d else d)) rows (tupd whd_id i (f k) rows)"
    by (simp add: tupd_def list_all2_conv_all_nth)
  have rest: "list_all2 (?R is (Suc k)) (tupd whd_id i (f k) rows) (step_rows f (Suc k) is (tupd whd_id i (f k) rows))"
    using Cons.IH Cons.prems by simp
  have "list_all2 (?R (i # is) k) rows (step_rows f (Suc k) is (tupd whd_id i (f k) rows))"
  proof (rule list_all2_trans [OF _ one rest])
    fix d d1 d2 assume a: "d1 = (if whd_id d = i then f k d else d)" and b: "?R is (Suc k) d1 d2"
    show "?R (i # is) k d d2"
    proof (cases "whd_id d = i")
      case True
      then have "d2 = f k d" using a b Cons.prems assms(1) by auto
      then show ?thesis using True by (auto intro: exI [of _ k])
    next
      case False
      show ?thesis
      proof (cases "whd_id d \<in> set is")
        case True
        then obtain j where "Suc k \<le> j" "j < Suc k + length is" "d2 = f j d" using a b False by auto
        then show ?thesis using True by (auto intro!: exI [of _ j])
      qed (use a b False in auto)
    qed
  qed
  then show ?case by simp
qed

lemma send_all_system:
  assumes "cx_bypass c" and "pk_ok whd_id (h_deliveries h)" and "set is \<subseteq> whd_id ` set (h_deliveries h)"
  shows "\<exists>st'. send_all Es Ns k is st (c, h)
       = (Inr st', c, h\<lparr>h_deliveries := step_rows (\<lambda>j d. snd (send_row (Es j) (Ns j) c h d)) k is (h_deliveries h)\<rparr>)
     \<and> st_considered st' = st_considered st + length is"
  using assms(2,3)
proof (induction "is" arbitrary: k st h)
  case Nil
  then show ?case by simp
next
  case (Cons i "is")
  obtain d where d: "tget whd_id i (h_deliveries h) = Some d"
    using Cons.prems(2) tget_None_iff [of whd_id i "h_deliveries h"] by (cases "tget whd_id i (h_deliveries h)") auto
  let ?f = "\<lambda>j d. snd (send_row (Es j) (Ns j) c h d)"
  have id: "whd_id (?f j d) = whd_id d" for j d using send_row_outcome(1) by (metis surjective_pairing)
  let ?rows = "tupd whd_id i (?f k) (h_deliveries h)"
  let ?h = "h\<lparr>h_deliveries := ?rows\<rparr>"
  have one: "send_one (Es k) (Ns k) i (c, h) = (Inr (fst (send_row (Es k) (Ns k) c h d)), c, ?h)"
    using send_one_system [OF assms(1) d] tupd_const [OF Cons.prems(1) d, of "?f k"] by simp
  have keys: "map whd_id ?rows = map whd_id (h_deliveries h)" by (rule map_key_tupd) (rule id)
  then have "whd_id ` set ?rows = whd_id ` set (h_deliveries h)" by (simp only: flip: set_map)
  then have sub: "set is \<subseteq> whd_id ` set (h_deliveries ?h)" using Cons.prems(2) by simp
  have pk: "pk_ok whd_id (h_deliveries ?h)" using Cons.prems(1) keys by (simp add: pk_ok_def)
  show ?case
    using Cons.IH [OF pk sub, of "Suc k" "count_result (fst (send_row (Es k) (Ns k) c h d)) (st\<lparr>st_considered := Suc (st_considered st)\<rparr>)"]
    by (auto simp: one send_row_frame count_result_def)
qed




section \<open>Claiming\<close>

lemma due_ids_facts:
  fixes now :: instant and D :: "webhook_delivery list"
  assumes "pk_ok whd_id D"
  shows "distinct (due_ids now D)" and "set (due_ids now D) \<subseteq> whd_id ` set D"
    and "d \<in> set D \<Longrightarrow> whd_id d \<in> set (due_ids now D) \<Longrightarrow> is_due now d"
    and "length (due_ids now D) \<le> BATCH_SIZE"
    and "length (filter (\<lambda>d. whd_id d \<in> set (due_ids now D)) D) = length (due_ids now D)"
    and "length (filter (is_due now) D) \<le> BATCH_SIZE \<Longrightarrow> d \<in> set D \<Longrightarrow> is_due now d \<Longrightarrow> whd_id d \<in> set (due_ids now D)"
proof -
  let ?S = "sort_key (\<lambda>d. the (whd_next_attempt_at d)) (filter (is_due now) D)"
  let ?T = "take BATCH_SIZE ?S"
  have ids: "due_ids now D = map whd_id ?T" by (simp add: due_ids_def)
  have inj: "inj_on whd_id (set D)" and dD: "distinct D" using assms by (auto simp: pk_ok_def distinct_map)
  have sub: "set ?T \<subseteq> {d \<in> set D. is_due now d}" using set_take_subset [of BATCH_SIZE ?S] by auto
  have dT: "distinct ?T" using dD by simp
  show di: "distinct (due_ids now D)"
    unfolding ids distinct_map using dT inj sub by (auto intro: inj_on_subset)
  show "set (due_ids now D) \<subseteq> whd_id ` set D" unfolding ids using sub by auto
  have mem: "whd_id d \<in> set (due_ids now D) \<longleftrightarrow> d \<in> set ?T" if "d \<in> set D" for d
    unfolding ids using inj sub that by (auto dest: inj_onD)
  show "is_due now d" if "d \<in> set D" "whd_id d \<in> set (due_ids now D)" using mem that sub by blast
  show "length (due_ids now D) \<le> BATCH_SIZE" by (simp add: ids)
  have "set (filter (\<lambda>d. whd_id d \<in> set (due_ids now D)) D) = set ?T" using mem sub by auto
  then have "length (filter (\<lambda>d. whd_id d \<in> set (due_ids now D)) D) = card (set ?T)"
    using dD by (metis distinct_card distinct_filter)
  then show "length (filter (\<lambda>d. whd_id d \<in> set (due_ids now D)) D) = length (due_ids now D)"
    using distinct_card [OF dT] by (simp add: ids)
  show "whd_id d \<in> set (due_ids now D)" if "length (filter (is_due now) D) \<le> BATCH_SIZE" "d \<in> set D" "is_due now d"
    using that mem by simp
qed

definition queue_ok :: "hub \<Rightarrow> bool" where
  "queue_ok h \<longleftrightarrow> pk_ok whd_id (h_deliveries h)
     \<and> (\<forall>d \<in> set (h_deliveries h). delivery_ok d \<and> whd_id d \<le> h_delivery_seq h)"

text \<open>What a tick does to the rows: each claimed row is sent once, every other row is left alone.\<close>

definition ticked :: "(nat \<Rightarrow> env) \<Rightarrow> (nat \<Rightarrow> net) \<Rightarrow> instant \<Rightarrow> ctx \<Rightarrow> hub \<Rightarrow> webhook_delivery \<Rightarrow> webhook_delivery \<Rightarrow> bool" where
  "ticked Es Ns now c h d d' \<longleftrightarrow>
     (if whd_id d \<in> set (due_ids now (h_deliveries h))
      then is_due now d \<and> (\<exists>j < BATCH_SIZE. d' = snd (send_row (Es j) (Ns j) c h d))
      else d' = d)"

lemma tick_system:
  assumes "cx_bypass c" and "pk_ok whd_id (h_deliveries h)"
  obtains st rows where "tick Es Ns now (c, h) = (Inr st, c, h\<lparr>h_deliveries := rows\<rparr>)"
    and "st_considered st = length (due_ids now (h_deliveries h))"
    and "list_all2 (ticked Es Ns now c h) (h_deliveries h) rows"
proof -
  let ?D = "h_deliveries h" and ?f = "\<lambda>j d. snd (send_row (Es j) (Ns j) c h d)"
  note due = due_ids_facts [OF assms(2), where now = now]
  have id: "whd_id (?f j d) = whd_id d" for j d using send_row_outcome(1) by (metis surjective_pairing)
  obtain st where t: "tick Es Ns now (c, h) = (Inr st, c, h\<lparr>h_deliveries := step_rows ?f 0 (due_ids now ?D) ?D\<rparr>)"
    and st: "st_considered st = length (due_ids now ?D)"
    using send_all_system [OF assms due(2), of Es Ns 0 "\<lparr>st_considered = 0, st_sent = 0, st_failed = 0, st_dead = 0\<rparr>"] assms(1)
    by (auto simp: tick_def)
  have "list_all2 (\<lambda>d d'. if whd_id d \<in> set (due_ids now ?D) then \<exists>j. 0 \<le> j \<and> j < 0 + length (due_ids now ?D) \<and> d' = ?f j d else d' = d)
      ?D (step_rows ?f 0 (due_ids now ?D) ?D)"
    by (rule step_rows_rel [OF id due(1)])
  then have "list_all2 (ticked Es Ns now c h) ?D (step_rows ?f 0 (due_ids now ?D) ?D)"
    using due(3,4) unfolding list_all2_conv_all_nth ticked_def
    by (metis (no_types, lifting) add_0 nth_mem order_less_le_trans)
  then show thesis using that t st by blast
qed

text \<open>The number of sends a row may still see.\<close>

definition attempts_left :: "webhook_delivery \<Rightarrow> nat" where
  "attempts_left d = (if active d then 5 - nat (whd_attempts d) else 0)"

definition send_budget :: "hub \<Rightarrow> nat" where
  "send_budget h = sum_list (map attempts_left (h_deliveries h))"

lemma attempts_left_allowance: "attempts_left d = delivery.allowance d"
  by (simp add: attempts_left_def delivery.allowance_def)

lemma due_active: "is_due now d \<Longrightarrow> active d"
  by (simp add: is_due_def active_def)

lemma attempts_left_pos: "delivery_ok d \<Longrightarrow> active d \<Longrightarrow> 0 < attempts_left d"
  using delivery.left [of d] by (simp add: attempts_left_def)

lemma ticked_ok:
  assumes "ticked Es Ns now c h d d'" and "delivery_ok d"
  shows "delivery_ok d'" and "whd_id d' = whd_id d"
    and "attempts_left d' + (if whd_id d \<in> set (due_ids now (h_deliveries h)) then 1 else 0) \<le> attempts_left d"
proof -
  have *: "delivery_ok d' \<and> whd_id d' = whd_id d \<and> attempts_left d' < attempts_left d"
    if due: "whd_id d \<in> set (due_ids now (h_deliveries h))"
  proof -
    obtain j where d': "d' = snd (send_row (Es j) (Ns j) c h d)" and a: "active d"
      using assms(1) due by (auto simp: ticked_def due_active)
    show ?thesis
      using send_row_ok [OF assms(2) a] delivery.allowance_step [OF assms(2) a, of "(Es j, Ns j, c, h)"]
        send_row_outcome(1) [of "Es j" "Ns j" c h d "fst (send_row (Es j) (Ns j) c h d)" d'] d'
      by (simp add: attempts_left_allowance)
  qed
  show "delivery_ok d'" and "whd_id d' = whd_id d"
    and "attempts_left d' + (if whd_id d \<in> set (due_ids now (h_deliveries h)) then 1 else 0) \<le> attempts_left d"
    using * assms by (auto simp: ticked_def split: if_splits)
qed

lemma sum_list_all2:
  fixes g :: "'a \<Rightarrow> nat"
  shows "list_all2 (\<lambda>x y. g y + (if P x then 1 else 0) \<le> g x) xs ys \<Longrightarrow>
     sum_list (map g ys) + length (filter P xs) \<le> sum_list (map g xs)"
  by (induction xs ys rule: list_all2_induct) (auto split: if_splits)

lemma tick_queue_ok:
  assumes "queue_ok h" and "list_all2 (ticked Es Ns now c h) (h_deliveries h) rows"
  shows "queue_ok (h\<lparr>h_deliveries := rows\<rparr>)"
    and "sum_list (map attempts_left rows) + length (due_ids now (h_deliveries h)) \<le> send_budget h"
proof -
  let ?D = "h_deliveries h"
  have ok: "d \<in> set ?D \<Longrightarrow> delivery_ok d" for d using assms(1) by (simp add: queue_ok_def)
  have rel: "list_all2 (\<lambda>d d'. delivery_ok d' \<and> whd_id d' = whd_id d
      \<and> attempts_left d' + (if whd_id d \<in> set (due_ids now ?D) then 1 else 0) \<le> attempts_left d) ?D rows"
    using assms(2) ok ticked_ok unfolding list_all2_conv_all_nth by (metis nth_mem)
  have keys: "map whd_id rows = map whd_id ?D"
    using rel by (auto simp: list_all2_conv_all_nth intro!: nth_equalityI)
  have "delivery_ok d \<and> whd_id d \<le> h_delivery_seq h" if d: "d \<in> set rows" for d
  proof -
    have "whd_id d \<in> whd_id ` set ?D" using d keys by (metis image_eqI image_set)
    moreover have "delivery_ok d" using rel d by (auto simp: list_all2_conv_all_nth in_set_conv_nth)
    ultimately show ?thesis using assms(1) by (auto simp: queue_ok_def)
  qed
  then show "queue_ok (h\<lparr>h_deliveries := rows\<rparr>)" using assms(1) keys by (simp add: queue_ok_def pk_ok_def)
  have pk: "pk_ok whd_id ?D" using assms(1) by (simp add: queue_ok_def)
  show "sum_list (map attempts_left rows) + length (due_ids now ?D) \<le> send_budget h"
    using sum_list_all2 [of attempts_left "\<lambda>d. whd_id d \<in> set (due_ids now ?D)" ?D rows] rel
    by (simp add: send_budget_def due_ids_facts(5) [OF pk] list_all2_mono)
qed






section \<open>Runs of the worker\<close>

text \<open>Consecutive ticks of the job; the result counts the sends.\<close>

type_synonym tick_input = "(nat \<Rightarrow> env) \<times> (nat \<Rightarrow> net) \<times> instant"

fun run_ticks :: "tick_input list \<Rightarrow> ctx \<times> hub \<Rightarrow> nat \<times> ctx \<times> hub" where
  "run_ticks [] s = (0, s)"
| "run_ticks ((Es, Ns, now) # ts) s =
     (let (r, s1) = tick Es Ns now s; (n, s2) = run_ticks ts s1
      in ((case r of Inl _ \<Rightarrow> 0 | Inr st \<Rightarrow> st_considered st) + n, s2))"






text \<open>Ticks that come late enough: every retry an earlier tick scheduled is due at the next one.\<close>

fun spaced :: "tick_input list \<Rightarrow> bool" where
  "spaced ((Es, Ns, now) # (Es', Ns', now') # ts) \<longleftrightarrow>
     (\<forall>j < BATCH_SIZE. env_now (Es j) + backoff_delay 4 \<le> now') \<and> spaced ((Es', Ns', now') # ts)"
| "spaced _ \<longleftrightarrow> True"

definition all_due :: "instant \<Rightarrow> hub \<Rightarrow> bool" where
  "all_due now h \<longleftrightarrow> (\<forall>d \<in> set (h_deliveries h). active d \<longrightarrow>
     (case whd_next_attempt_at d of None \<Rightarrow> False | Some t \<Rightarrow> t \<le> now))"

lemma backoff_le:
  assumes "0 \<le> a" and "a < MAX_ATTEMPTS"
  shows "backoff_delay a \<le> backoff_delay 4"
proof -
  have "a * a \<le> 4 * 4" using assms by (intro mult_mono) (auto simp: MAX_ATTEMPTS_def)
  then show ?thesis by (simp add: backoff_delay_def)
qed

lemma ticked_due:
  assumes "ticked Es Ns now c h d d'" and "delivery_ok d" and "active d'" and "\<not> active d \<or> whd_id d \<in> set (due_ids now (h_deliveries h))"
  obtains j where "j < BATCH_SIZE" and "\<exists>t. whd_next_attempt_at d' = Some t \<and> t \<le> env_now (Es j) + backoff_delay 4"
    and "attempts_left d' < attempts_left d"
proof -
  have due: "whd_id d \<in> set (due_ids now (h_deliveries h))"
    using assms by (auto simp: ticked_def split: if_splits)
  then obtain j where j: "j < BATCH_SIZE" and d': "d' = snd (send_row (Es j) (Ns j) c h d)"
    using assms(1) by (auto simp: ticked_def)
  then have sr: "send_row (Es j) (Ns j) c h d = (fst (send_row (Es j) (Ns j) c h d), d')" by simp
  have "whd_attempts d' < MAX_ATTEMPTS" "whd_next_attempt_at d' = Some (env_now (Es j) + backoff_delay (whd_attempts d'))"
    "0 \<le> whd_attempts d'"
    using send_row_outcome(4) [OF sr] assms(2,3) by (auto simp: active_def delivery_ok_def)
  then have "\<exists>t. whd_next_attempt_at d' = Some t \<and> t \<le> env_now (Es j) + backoff_delay 4"
    using backoff_le by simp
  then show thesis using that [OF j] ticked_ok(3) [OF assms(1,2)] due by simp
qed

lemma run_ticks_drains:
  assumes "cx_bypass c" and "queue_ok h" and "length (filter active (h_deliveries h)) \<le> BATCH_SIZE"
    and "spaced ts" and "\<forall>t \<in> set (take 1 ts). all_due (snd (snd t)) h"
    and "\<forall>d \<in> set (h_deliveries h). attempts_left d \<le> length ts"
  shows "\<forall>d \<in> set (h_deliveries (snd (snd (run_ticks ts (c, h))))). \<not> active d"
  using assms(2-)
proof (induction ts arbitrary: h)
  case Nil
  then show ?case using attempts_left_pos by (force simp: queue_ok_def)
next
  case (Cons t ts)
  obtain Es Ns now where t: "t = (Es, Ns, now)" by (cases t)
  let ?D = "h_deliveries h"
  have pk: "pk_ok whd_id ?D" and ok: "\<And>d. d \<in> set ?D \<Longrightarrow> delivery_ok d" using Cons.prems(1) by (auto simp: queue_ok_def)
  obtain st rows where tk: "tick Es Ns now (c, h) = (Inr st, c, h\<lparr>h_deliveries := rows\<rparr>)"
    and rel: "list_all2 (ticked Es Ns now c h) ?D rows"
    by (rule tick_system [OF assms(1) pk])
  let ?h = "h\<lparr>h_deliveries := rows\<rparr>"
  have act_due: "is_due now d \<longleftrightarrow> active d" if "d \<in> set ?D" for d
    using that Cons.prems(4) by (auto simp: t all_due_def is_due_def active_def split: option.splits)
  then have claimed: "whd_id d \<in> set (due_ids now ?D)" if "d \<in> set ?D" "active d" for d
    using due_ids_facts(6) [OF pk, of now d] Cons.prems(2) that by (simp cong: filter_cong)
  have step: "(active d' \<longrightarrow> active d) \<and> (active d' \<longrightarrow> (\<exists>j < BATCH_SIZE. \<exists>t. whd_next_attempt_at d' = Some t \<and> t \<le> env_now (Es j) + backoff_delay 4))
      \<and> attempts_left d' \<le> length ts" if dD: "d \<in> set ?D" and dd: "ticked Es Ns now c h d d'" for d d'
  proof (cases "active d'")
    case True
    have nd: "\<not> active d \<or> whd_id d \<in> set (due_ids now ?D)" using claimed dD by blast
    obtain j where "j < BATCH_SIZE" "\<exists>t. whd_next_attempt_at d' = Some t \<and> t \<le> env_now (Es j) + backoff_delay 4"
      "attempts_left d' < attempts_left d"
      by (rule ticked_due [OF dd ok [OF dD] True nd])
    moreover have "attempts_left d \<le> Suc (length ts)" using Cons.prems(5) dD by simp
    moreover have "active d" using calculation(3) by (auto simp: attempts_left_def split: if_splits)
    ultimately show ?thesis by auto
  qed (simp add: attempts_left_def)
  have rows: "\<exists>d \<in> set ?D. ticked Es Ns now c h d d'" if "d' \<in> set rows" for d'
    using rel that by (metis in_set_conv_nth list_all2_conv_all_nth)
  have "list_all2 (\<lambda>d d'. active d' \<longrightarrow> active d) ?D rows"
    using rel step unfolding list_all2_conv_all_nth by (metis nth_mem)
  then have "length (filter active rows) \<le> length (filter active ?D)"
    by (induction rule: list_all2_induct) auto
  then have few: "length (filter active (h_deliveries ?h)) \<le> BATCH_SIZE" using Cons.prems(2) by simp
  have due: "\<forall>u \<in> set (take 1 ts). all_due (snd (snd u)) ?h"
  proof
    fix u assume "u \<in> set (take 1 ts)"
    then obtain us where ts: "ts = u # us" by (cases ts) auto
    obtain Es' Ns' now' where u: "u = (Es', Ns', now')" by (cases u)
    have "\<forall>j < BATCH_SIZE. env_now (Es j) + backoff_delay 4 \<le> now'" using Cons.prems(3) by (simp add: t ts u)
    then show "all_due (snd (snd u)) ?h" using rows step by (fastforce simp: all_due_def u)
  qed
  have "spaced ts" using Cons.prems(3) by (cases ts) (auto simp: t)
  moreover have "\<forall>d \<in> set (h_deliveries ?h). attempts_left d \<le> length ts" using rows step by auto
  ultimately have "\<forall>d \<in> set (h_deliveries (snd (snd (run_ticks ts (c, ?h))))). \<not> active d"
    using Cons.IH [OF tick_queue_ok(1) [OF Cons.prems(1) rel] few] due by blast
  then show ?case using tk by (simp add: t split: prod.splits)
qed

section \<open>The queue stays well formed\<close>

lemma queue_ok_insert:
  assumes "queue_ok h" and "\<forall>d \<in> set ds. \<exists>ch. d = new_delivery E ch ty p"
  shows "queue_ok (h\<lparr>h_deliveries := h_deliveries h @ number_rows (h_delivery_seq h) ds,
     h_delivery_seq := h_delivery_seq h + int (length ds)\<rparr>)"
proof -
  let ?new = "number_rows (h_delivery_seq h) ds"
  have "delivery_ok d \<and> h_delivery_seq h < whd_id d \<and> whd_id d \<le> h_delivery_seq h + int (length ds)" if "d \<in> set ?new" for d
    using number_rows_mem [OF that] assms(2) by (auto simp: new_delivery_def delivery_ok_def MAX_ATTEMPTS_def)
  moreover have "distinct (map whd_id ?new)" by (simp add: distinct_map inj_on_def)
  ultimately show ?thesis using assms(1) by (fastforce simp: queue_ok_def pk_ok_def)
qed

lemma delete_channel_frame:
  assumes "delete_channel E i (c, h) = Inr (b, c', h')"
  shows "(h_deliveries h' = h_deliveries h \<or> h_deliveries h' = filter (\<lambda>d. whd_channel_id d \<noteq> i) (h_deliveries h))
    \<and> h_delivery_seq h' = h_delivery_seq h"
proof -
  obtain r c1 h1 where l: "load_channel E i (c, h) = (r, c1, h1)" by (metis prod_cases3)
  then have h1: "h_deliveries h1 = h_deliveries h" "h_delivery_seq h1 = h_delivery_seq h"
    using select_scoped_frame(2) [of E "''webhook_channels''" whc_organization_id h_channels c h]
    by (auto simp: load_channel_def split: prod.splits)
  obtain c2 where "stamp_and_guard_tenant_writes E [] [] (c1, h1) = Inr ([], [], c2, h1)" by (rule empty_flush)
  then show ?thesis using assms l h1 by (auto simp: delete_channel_def split: option.splits)
qed

text \<open>The operations that touch the queue: events emitted and ticks run by jobs, under the system bypass,
  and channels deleted by requests.\<close>

inductive delivery_step :: "hub \<Rightarrow> hub \<Rightarrow> bool" where
  emitted: "cx_bypass c \<Longrightarrow> emit E event_type payload sid (c, h) = (n, c', h') \<Longrightarrow> delivery_step h h'"
| ticked: "cx_bypass c \<Longrightarrow> tick Es Ns now (c, h) = (r, c', h') \<Longrightarrow> delivery_step h h'"
| deleted: "delete_channel E i (c, h) = Inr (b, c', h') \<Longrightarrow> delivery_step h h'"

lemma delivery_step_ok: "delivery_step h h' \<Longrightarrow> queue_ok h \<Longrightarrow> queue_ok h'"
proof (induction rule: delivery_step.induct)
  case (emitted c E event_type payload sid h n c' h')
  show ?case
  proof (cases "event_type \<in> set EVENT_TYPES")
    case True
    let ?ds = "map (\<lambda>ch. new_delivery E ch event_type payload) (emit_targets h event_type sid)"
    show ?thesis
      using emitted emit_system_eq [OF emitted(1) True, of E payload sid h]
        queue_ok_insert [OF emitted(3), of ?ds E event_type payload] by auto
  next
    case False
    then show ?thesis using emitted by (simp add: emit_def)
  qed
next
  case (ticked c Es Ns now h r c' h')
  have pk: "pk_ok whd_id (h_deliveries h)" using ticked(3) by (simp add: queue_ok_def)
  obtain st rows where "tick Es Ns now (c, h) = (Inr st, c, h\<lparr>h_deliveries := rows\<rparr>)"
    and "list_all2 (WebhookDelivery.ticked Es Ns now c h) (h_deliveries h) rows"
    by (rule tick_system [OF ticked(1) pk])
  then show ?case using tick_queue_ok(1) [OF ticked(3)] ticked(2) by auto
next
  case (deleted E i c h b c' h')
  then show ?case
    using delete_channel_frame [OF deleted(1)]
    by (auto simp: queue_ok_def pk_ok_def distinct_map_filter)
qed

section \<open>Properties\<close>

text \<open>The delivery queue keeps its invariant along every sequence of events, worker ticks and channel
  deletions that starts with an empty queue: ids are unique and below the sequence, a pending row has
  no attempts and a due time, a failed row has between one and four attempts and a due time, a sent row
  has none left.\<close>

theorem delivery_queue_invariant:
  assumes "delivery_step\<^sup>*\<^sup>* h h'" and "h_deliveries h = []"
  shows "pk_ok whd_id (h_deliveries h') \<and> (\<forall>d \<in> set (h_deliveries h'). delivery_ok d \<and> whd_id d \<le> h_delivery_seq h')"
proof -
  have "queue_ok h" using assms(2) by (simp add: queue_ok_def pk_ok_def)
  with assms(1) have "queue_ok h'" by (induction rule: rtranclp_induct) (auto intro: delivery_step_ok)
  then show ?thesis by (simp add: queue_ok_def)
qed


text \<open>The queue drains: when at most a batch of deliveries is waiting, all of them due, then after five
  ticks each at least sixteen minutes after the sends of the one before, every delivery is sent or
  dead, whatever the receivers answered.\<close>

theorem queue_drains:
  assumes "cx_bypass c" and "queue_ok h" and "length (filter active (h_deliveries h)) \<le> BATCH_SIZE"
    and "all_due (snd (snd (hd ts))) h" and "spaced ts" and "5 \<le> length ts"
  shows "\<forall>d \<in> set (h_deliveries (snd (snd (run_ticks ts (c, h))))). \<not> active d"
proof -
  have "attempts_left d \<le> length ts" for d
    using le_trans [OF diff_le_self assms(6)] by (simp add: attempts_left_def)
  moreover have "\<forall>t \<in> set (take 1 ts). all_due (snd (snd t)) h" using assms(4) by (cases ts) auto
  ultimately show ?thesis using run_ticks_drains [OF assms(1-3,5)] by blast
qed

text \<open>C12: A delivery cannot carry answers of internal services into the delivery log: take two networks with the
  same resolver, signatures and exception texts that answer alike every request pinned to an address that is
  public (or in the site-local range \<open>fec0::/10\<close>, which the guard misses). However they differ on all the other
  addresses, sending a delivery over either gives the same result, the same row and the same state.\<close>

theorem send_one_public:
  assumes "same_public N M"
  shows "send_one E N i s = send_one E M i s"
proof -
  have f: "format_delivery E N ch ty p = format_delivery E M ch ty p" for ch ty p
    using assms by (simp only: format_delivery_def format_generic_def same_public_def)
  have g: "signed_headers N ch hs body = signed_headers M ch hs body" for ch hs body
    using assms by (simp only: signed_headers_def sign_body_def same_public_def)
  have "deliver_request E N c h ch d = deliver_request E M c h ch d" for c h ch d
    unfolding deliver_request_def f g safe_request_public [OF assms] ..
  then have "attempt_delivery E N c h ch d = attempt_delivery E M c h ch d" for c h ch d
    unfolding attempt_delivery_def by (simp only:)
  then show ?thesis by (simp only: send_one_def)
qed

text \<open>A delivery the worker may not send is dead at once: a URL the guard blocks leaves the row dead
  after that one attempt with the guard's reason, and no further tick claims it.\<close>

theorem blocked_is_dead:
  assumes "cx_bypass c" and "tget whd_id i (h_deliveries h) = Some d"
    and "tget whc_id (whd_channel_id d) (h_channels h) = Some ch"
    and "format_delivery E N ch (whd_event_type d) (whd_payload d) = Inr (url, method, headers, body)"
    and "validate_request N c h False url = Inl (SSRFBlockedError e)"
    and "pk_ok whd_id (h_deliveries h)"
  shows "\<exists>d' r. send_one E N i (c, h) = (Inr r, c, h\<lparr>h_deliveries := tupd whd_id i (\<lambda>_. d') (h_deliveries h)\<rparr>)
     \<and> whd_status d' = ''dead'' \<and> whd_attempts d' = whd_attempts d + 1
     \<and> whd_response_snippet d' = Some (take 500 (''blocked by SSRF guard: '' @ ssrf_reason e))
     \<and> (\<forall>now. \<not> is_due now d')"
proof -
  let ?d = "d\<lparr>whd_attempts := whd_attempts d + 1, whd_updated_at := env_now E\<rparr>"
  have "deliver_request E N c h ch ?d = Inl (SSRFBlockedError e)"
    using assms(4,5) by (simp add: deliver_request_def safe_request_def)
  then have sr: "snd (send_row E N c h d) = ?d\<lparr>whd_status := ''dead'', whd_next_attempt_at := None,
      whd_response_snippet := Some (take 500 (''blocked by SSRF guard: '' @ ssrf_reason e))\<rparr>"
    using assms(3) by (simp add: send_row_def attempt_delivery_def)
  show ?thesis
    by (rule exI [of _ "snd (send_row E N c h d)"], rule exI [of _ "fst (send_row E N c h d)"])
      (simp add: send_one_system [OF assms(1,2)], simp add: sr is_due_def)
qed

text \<open>A channel that was saved can always be formatted: the configuration check leaves only well-typed
  configurations, and for those the formatter of the kind raises nothing and sends to a text URL that
  starts with http:// or https://.\<close>

theorem saved_channel_formats:
  assumes "validate_channel_config E kind config = Inr d" and "whc_kind ch = kind" and "whc_config ch = d"
  shows "\<exists>u method headers body. format_delivery E' N ch event_type payload = Inr (VStr u, method, headers, body)
     \<and> (starts_with u ''http://'' \<or> starts_with u ''https://'')"
proof -
  have ok: "config_ok kind d" by (rule validate_config_ok [OF assms(1)])
  have kinds: "kind \<noteq> ''pushover'' \<Longrightarrow> url_ok (dget d ''url'')"
    and hook: "kind = ''webhook_generic'' \<Longrightarrow> \<exists>m hs. dget d ''method'' = VStr m \<and> m \<noteq> [] \<and> dget d ''headers'' = VDict hs"
    using ok by (auto simp: config_ok_def split: if_splits pyval.splits)
  show ?thesis
  proof (cases "kind = ''pushover''")
    case True
    then show ?thesis using assms(2)
      by (simp add: format_delivery_def format_pushover_def PUSHOVER_API_URL_def starts_with_def)
  next
    case False
    obtain u where u: "dget d ''url'' = VStr u" "starts_with u ''http://'' \<or> starts_with u ''https://''"
      using kinds [OF False] by (auto simp: url_ok_def split: pyval.splits)
    consider "kind = ''webhook_generic''" | "kind = ''slack''" | "kind = ''discord''"
      using ok False unfolding config_ok_def by presburger
    then show ?thesis
    proof cases
      case 1
      then obtain m hs where "dget d ''method'' = VStr m" "m \<noteq> []" "dget d ''headers'' = VDict hs" using hook by blast
      then have "format_generic E' N ch event_type payload = Inr (VStr u, py_upper m, dict_update JSON_HEADERS hs,
          json_text E' (VDict [(''event'', VStr event_type), (''payload'', VDict payload), (''sent_at'', VStr (iso_z (env_now E')))]))"
        using u assms(3) by (cases hs) (simp_all add: format_generic_def or_val_def)
      then show ?thesis using 1 assms(2) u(2) unfolding format_delivery_def by simp
    next
      case 2
      then show ?thesis using assms(2,3) u unfolding format_delivery_def format_slack_def by simp
    next
      case 3
      then show ?thesis using assms(2,3) u unfolding format_delivery_def format_discord_def by simp
    qed
  qed
qed

section \<open>Witnesses\<close>

text \<open>A receiver on a port that is not a number: every send raises a \<open>ValueError\<close> and is retried.\<close>

definition demo_net :: net where
  "demo_net = \<lparr>net_getaddrinfo = demo_resolver, net_send = (\<lambda>_ _. Inl ''no route''), net_hmac = (\<lambda>_ _. ''00''),
     net_exc_text = (\<lambda>_. ''bad port'')\<rparr>"

definition internal_net :: net where
  "internal_net = demo_net\<lparr>net_send := (\<lambda>a _. if a = ''127.0.0.1'' then Inr \<lparr>rsp_status = 200, rsp_body = ''internal''\<rparr>
     else Inl ''no route'')\<rparr>"

definition delivery_hub :: hub where
  "delivery_hub = notif_hub\<lparr>h_delivery_seq := 1,
     h_deliveries := [(new_delivery scope_env (demo_channel ''whc_b'' ''org_b'') ''watchdog.rule_fired'' [])\<lparr>whd_id := 1\<rparr>]\<rparr>"

definition demo_tick :: "int \<Rightarrow> tick_input" where
  "demo_tick m = ((\<lambda>_. scope_env\<lparr>env_now := secs (60 * m)\<rparr>), (\<lambda>_. demo_net), secs (60 * m))"

lemma delivery_hub_ok: "queue_ok delivery_hub"
  by (simp add: queue_ok_def pk_ok_def delivery_hub_def new_delivery_def delivery_ok_def MAX_ATTEMPTS_def)


theorem queue_drains_witness:
  "list_all (\<lambda>d. \<not> active d) (h_deliveries (snd (snd (run_ticks (map demo_tick [0, 20, 40, 60, 80]) (job_ctx, delivery_hub)))))"
unfolding list_all_iff
proof (rule queue_drains [OF job_ctx_bypass delivery_hub_ok])
  show "length (filter active (h_deliveries delivery_hub)) \<le> BATCH_SIZE"
    by (simp add: delivery_hub_def BATCH_SIZE_def)
  show "all_due (snd (snd (hd (map demo_tick [0, 20, 40, 60, 80])))) delivery_hub"
    by (simp add: all_due_def delivery_hub_def new_delivery_def demo_tick_def scope_env_def)
  show "spaced (map demo_tick [0, 20, 40, 60, 80])"
    by (simp add: demo_tick_def backoff_delay_def secs_def)
qed simp

theorem delivery_queue_invariant_witness:
  "h_deliveries notif_hub = []
   \<and> list_all delivery_ok (h_deliveries (snd (snd (emit scope_env ''watchdog.rule_fired'' [] None (job_ctx, notif_hub)))))"
proof -
  let ?s = "emit scope_env ''watchdog.rule_fired'' [] None (job_ctx, notif_hub)"
  have "delivery_step notif_hub (snd (snd ?s))"
    by (rule delivery_step.emitted [OF job_ctx_bypass, of scope_env "''watchdog.rule_fired''" "[]" None _ "fst ?s" "fst (snd ?s)"]) simp
  then have "delivery_step\<^sup>*\<^sup>* notif_hub (snd (snd ?s))" by (rule r_into_rtranclp)
  moreover have "h_deliveries notif_hub = []" by (simp add: notif_hub_def empty_hub_def)
  ultimately show ?thesis using delivery_queue_invariant unfolding list_all_iff by blast
qed

lemma loopback_parse: "parse_ipv4 ''127.0.0.1'' = Some (v4_of 127 0 0 1)"
proof -
  have "map parse_octet (split_on CHR ''.'' ''127.0.0.1'') = map Some [127, 0, 0, 1]" by code_simp
  then show ?thesis by (simp only: parse_ipv4_def) simp
qed

theorem send_one_public_witness:
  "same_public demo_net internal_net
   \<and> send_one scope_env demo_net 1 (job_ctx, delivery_hub) = send_one scope_env internal_net 1 (job_ctx, delivery_hub)"
proof -
  have "\<not> admitted_ip (V4 (v4_of 127 0 0 1))"
    by (simp add: public_ip_def site_local_ip_def special4_def in_range_def unat_v4_of quad_def)
  moreover have "ip_address ''127.0.0.1'' = Some (V4 (v4_of 127 0 0 1))"
    by (simp only: ip_address_def loopback_parse option.case)
  ultimately have "same_public demo_net internal_net"
    by (auto simp: same_public_def internal_net_def demo_net_def)
  then show ?thesis using send_one_public by blast
qed

definition ftp_channel :: webhook_channel where
  "ftp_channel = (demo_channel ''whc_b'' ''org_b'')\<lparr>whc_config := [(''url'', VStr ''ftp://hooks.example.net'')]\<rparr>"

theorem blocked_is_dead_witness:
  "\<exists>d' r. send_one scope_env demo_net 1 (job_ctx, delivery_hub\<lparr>h_channels := [ftp_channel]\<rparr>)
       = (Inr r, job_ctx, delivery_hub\<lparr>h_channels := [ftp_channel],
            h_deliveries := tupd whd_id 1 (\<lambda>_. d') (h_deliveries delivery_hub)\<rparr>)
     \<and> whd_status d' = ''dead''"
proof -
  let ?h = "delivery_hub\<lparr>h_channels := [ftp_channel]\<rparr>"
  let ?d = "(new_delivery scope_env (demo_channel ''whc_b'' ''org_b'') ''watchdog.rule_fired'' [])\<lparr>whd_id := 1\<rparr>"
  have g: "tget whd_id 1 (h_deliveries ?h) = Some ?d" by (simp add: delivery_hub_def)
  have ch: "tget whc_id (whd_channel_id ?d) (h_channels ?h) = Some ftp_channel"
    by (simp add: new_delivery_def demo_channel_def ftp_channel_def)
  obtain m hs b where f: "format_delivery scope_env demo_net ftp_channel (whd_event_type ?d) (whd_payload ?d)
      = Inr (VStr ''ftp://hooks.example.net'', m, hs, b)"
    by (simp add: format_delivery_def ftp_channel_def demo_channel_def format_slack_def dget_def)
  have sch: "url_scheme (url_clean (py_strip ''ftp://hooks.example.net'')) = (''ftp'', ''//hooks.example.net'')"
    and br: "brackets_ok (url_netloc ''//hooks.example.net'')" by code_simp+
  have v: "validate_request demo_net job_ctx ?h False (VStr ''ftp://hooks.example.net'')
      = Inl (SSRFBlockedError (UnsupportedScheme ''ftp''))"
    by (simp add: validate_request_def validate_url_def sch br)
  have pk: "pk_ok whd_id (h_deliveries ?h)" by (simp add: pk_ok_def delivery_hub_def)
  from blocked_is_dead [OF job_ctx_bypass g ch f v pk] show ?thesis by auto
qed

theorem saved_channel_formats_witness:
  "\<exists>u method headers body. format_delivery scope_env demo_net (demo_channel ''whc_b'' ''org_b'') ''device.recovered'' []
     = Inr (VStr u, method, headers, body) \<and> (starts_with u ''http://'' \<or> starts_with u ''https://'')"
proof -
  have "validate_channel_config scope_env ''slack'' (VDict [(''url'', VStr '' https://hooks.example.net:x/ ''), (''x'', VInt 1)])
      = Inr [(''url'', VStr ''https://hooks.example.net:x/'')]" by code_simp
  from saved_channel_formats [OF this, of "demo_channel ''whc_b'' ''org_b''"] show ?thesis by (simp add: demo_channel_def)
qed

end
