(* ===== verification/RoleBindings.thy ===== *)
theory RoleBindings
  imports AuditLog
begin

text \<open>
  Role bindings (\<open>app/services/role_bindings.py\<close>): who holds which role where, the resolvers that
  turn bindings into the sites, groups and devices a user may act on, and the gate that logs a miss
  in shadow mode and refuses it in enforce mode. Every SELECT over the bindings passes the tenant
  filter, so the resolvers thread the call's context and the hub.
\<close>

section \<open>Roles and scopes\<close>

definition ALL_SCOPE_TYPES :: "string list" where
  "ALL_SCOPE_TYPES = [''global'', ''site'', ''group'', ''device'']"

definition ROLE_RANK :: "(string \<times> nat) list" where
  "ROLE_RANK = [(''super_admin'', 4), (''admin'', 3), (''operator'', 2), (''viewer'', 1)]"

definition rank_of :: "string \<Rightarrow> nat" where
  "rank_of role = (case map_of ROLE_RANK role of None \<Rightarrow> 0 | Some n \<Rightarrow> n)"

definition role_satisfies :: "string \<Rightarrow> string \<Rightarrow> bool" where
  "role_satisfies have_role need \<longleftrightarrow> rank_of need \<le> rank_of have_role"

section \<open>Granting and revoking\<close>

datatype rbac_error =
    UnknownScopeType string
  | GlobalScopeId
  | ScopeIdRequired string
  | UnknownRole string
  | NotNullOrganization
  | TenantRefused tenant_error

definition select_bindings :: "env \<Rightarrow> ctx \<times> hub \<Rightarrow> role_binding list \<times> ctx \<times> hub" where
  "select_bindings E s = select_scoped E ''role_bindings'' rb_organization_id h_role_bindings s"

definition binding_is :: "string \<Rightarrow> string \<Rightarrow> string option \<Rightarrow> role_binding \<Rightarrow> bool" where
  "binding_is uid st sid b \<longleftrightarrow> rb_user_id b = uid \<and> rb_scope_type b = st \<and> rb_scope_id b = sid"

definition binding_obj :: "string option \<Rightarrow> bool \<Rightarrow> flush_obj" where
  "binding_obj org m = \<lparr>fo_class = ''RoleBinding'', fo_org = org, fo_modified = m\<rparr>"

definition check_grant :: "string \<Rightarrow> string option \<Rightarrow> string \<Rightarrow> rbac_error option" where
  "check_grant st sid role =
     (if st \<notin> set ALL_SCOPE_TYPES then Some (UnknownScopeType st)
      else if st = ''global'' \<and> sid \<noteq> None then Some GlobalScopeId
      else if st \<noteq> ''global'' \<and> (sid = None \<or> sid = Some []) then Some (ScopeIdRequired st)
      else if map_of ROLE_RANK role = None then Some (UnknownRole role)
      else None)"

definition grant ::
  "env \<Rightarrow> string \<Rightarrow> string \<Rightarrow> string option \<Rightarrow> string \<Rightarrow> string option \<Rightarrow> ctx \<times> hub \<Rightarrow>
   rbac_error + (role_binding \<times> ctx \<times> hub)" where
  "grant E uid st sid role by_uid s =
     (case check_grant st sid role of
        Some e \<Rightarrow> Inl e
      | None \<Rightarrow>
          (let now = env_now E; (rows, s1) = select_bindings E s in
           case find (binding_is uid st sid) rows of
             Some b \<Rightarrow>
               (case stamp_and_guard_tenant_writes E []
                       [binding_obj (rb_organization_id b) (rb_role b \<noteq> role \<or> rb_updated_at b \<noteq> now)] s1 of
                  Inl e \<Rightarrow> Inl (TenantRefused e)
                | Inr (_, dirty, c, h) \<Rightarrow>
                    (let b' = b\<lparr>rb_role := role, rb_updated_at := now,
                                rb_organization_id := fo_org (hd dirty)\<rparr>
                     in if rb_organization_id b' = None then Inl NotNullOrganization
                        else Inr (b', c, h\<lparr>h_role_bindings := tupd rb_id (rb_id b) (\<lambda>_. b') (h_role_bindings h)\<rparr>)))
           | None \<Rightarrow>
               (case stamp_and_guard_tenant_writes E [binding_obj None True] [] s1 of
                  Inl e \<Rightarrow> Inl (TenantRefused e)
                | Inr (new, _, c, h) \<Rightarrow>
                    (let b = \<lparr>rb_id = new_id (env_ulid E) ''rb'' (h_ulid h),
                              rb_organization_id = fo_org (hd new), rb_user_id = uid,
                              rb_scope_type = st, rb_scope_id = sid, rb_role = role, rb_created_at = now,
                              rb_updated_at = now, rb_created_by_user_id = by_uid\<rparr>
                     in if rb_organization_id b = None then Inl NotNullOrganization
                        else Inr (b, c, h\<lparr>h_role_bindings := tadd b (h_role_bindings h),
                                          h_ulid := Suc (h_ulid h)\<rparr>)))))"

definition revoke :: "env \<Rightarrow> string \<Rightarrow> string \<Rightarrow> string option \<Rightarrow> ctx \<times> hub \<Rightarrow> bool \<times> ctx \<times> hub" where
  "revoke E uid st sid s =
     (let (rows, s1) = select_bindings E s in
      case find (binding_is uid st sid) rows of
        None \<Rightarrow> (False, s1)
      | Some b \<Rightarrow>
          (case stamp_and_guard_tenant_writes E [] [] s1 of
             Inl _ \<Rightarrow> (False, s1)
           | Inr (_, _, c, h) \<Rightarrow>
               (True, c, h\<lparr>h_role_bindings := tdel rb_id (rb_id b) (h_role_bindings h)\<rparr>)))"

definition user_bindings :: "env \<Rightarrow> string \<Rightarrow> ctx \<times> hub \<Rightarrow> role_binding list \<times> ctx \<times> hub" where
  "user_bindings E uid s =
     (let (rows, s1) = select_bindings E s in (filter (\<lambda>b. rb_user_id b = uid) rows, s1))"

definition list_for_user ::
  "env \<Rightarrow> string \<Rightarrow> ctx \<times> hub \<Rightarrow>
   (string \<times> string \<times> string option \<times> string \<times> instant \<times> instant) list \<times> ctx \<times> hub" where
  "list_for_user E uid s =
     (let (bs, s1) = user_bindings E uid s
      in (map (\<lambda>b. (rb_id b, rb_scope_type b, rb_scope_id b, rb_role b, rb_created_at b, rb_updated_at b)) bs, s1))"

section \<open>Resolvers\<close>

datatype effective = AllIds | Ids "string set"

definition has_global_role :: "env \<Rightarrow> string \<Rightarrow> string \<Rightarrow> ctx \<times> hub \<Rightarrow> bool \<times> ctx \<times> hub" where
  "has_global_role E uid need s =
     (let (bs, s1) = user_bindings E uid s
      in (list_ex (\<lambda>b. rb_scope_type b = ''global'' \<and> role_satisfies (rb_role b) need) bs, s1))"

definition global_hit :: "string \<Rightarrow> role_binding list \<Rightarrow> bool" where
  "global_hit need bs = list_ex (\<lambda>b. rb_scope_type b = ''global'' \<and> role_satisfies (rb_role b) need) bs"

definition scope_ids :: "string \<Rightarrow> string \<Rightarrow> role_binding list \<Rightarrow> string list" where
  "scope_ids st need bs =
     map (the \<circ> rb_scope_id) (filter (\<lambda>b. rb_scope_type b = st \<and> role_satisfies (rb_role b) need
                                          \<and> rb_scope_id b \<noteq> None) bs)"

definition effective_site_ids :: "env \<Rightarrow> string \<Rightarrow> string \<Rightarrow> ctx \<times> hub \<Rightarrow> effective \<times> ctx \<times> hub" where
  "effective_site_ids E uid need s =
     (let (bs, s1) = user_bindings E uid s
      in (if global_hit need bs then AllIds else Ids (set (scope_ids ''site'' need bs)), s1))"

definition effective_group_ids :: "env \<Rightarrow> string \<Rightarrow> string \<Rightarrow> ctx \<times> hub \<Rightarrow> effective \<times> ctx \<times> hub" where
  "effective_group_ids E uid need s =
     (let (bs, s1) = user_bindings E uid s
      in (if global_hit need bs then AllIds else Ids (set (scope_ids ''group'' need bs)), s1))"

definition effective_device_ids :: "env \<Rightarrow> string \<Rightarrow> string \<Rightarrow> ctx \<times> hub \<Rightarrow> effective \<times> ctx \<times> hub" where
  "effective_device_ids E uid need s =
     (let (bs, s1) = user_bindings E uid s; h = snd s1 in
      if global_hit need bs then (AllIds, s1)
      else
        let sites = scope_ids ''site'' need bs;
            grps = scope_ids ''group'' need bs;
            direct = scope_ids ''device'' need bs;
            by_site = (if sites = [] then []
                       else map dev_id (filter (\<lambda>d. dev_site_id d \<in> Some ` set sites) (h_devices h)));
            by_group = (if grps = [] then []
                        else map gm_device_id (filter (\<lambda>m. gm_group_id m \<in> set grps) (h_memberships h)))
        in (Ids (set (direct @ by_site @ by_group)), s1))"

fun eff_mem :: "string \<Rightarrow> effective \<Rightarrow> bool" where
  "eff_mem x AllIds = True"
| "eff_mem x (Ids X) = (x \<in> X)"

definition can_act_on_device :: "env \<Rightarrow> string \<Rightarrow> string \<Rightarrow> string \<Rightarrow> ctx \<times> hub \<Rightarrow> bool \<times> ctx \<times> hub" where
  "can_act_on_device E uid did need s =
     (let (eff, s1) = effective_device_ids E uid need s in (eff_mem did eff, s1))"

definition can_act_on_site :: "env \<Rightarrow> string \<Rightarrow> string \<Rightarrow> string \<Rightarrow> ctx \<times> hub \<Rightarrow> bool \<times> ctx \<times> hub" where
  "can_act_on_site E uid sid need s =
     (let (eff, s1) = effective_site_ids E uid need s in (eff_mem sid eff, s1))"

definition can_act_on_group :: "env \<Rightarrow> string \<Rightarrow> string \<Rightarrow> string \<Rightarrow> ctx \<times> hub \<Rightarrow> bool \<times> ctx \<times> hub" where
  "can_act_on_group E uid gid need s =
     (let (eff, s1) = effective_group_ids E uid need s in (eff_mem gid eff, s1))"

section \<open>Bindings and organizations\<close>

definition binding_scope_belongs_to_org ::
  "env \<Rightarrow> string \<Rightarrow> string option \<Rightarrow> string \<Rightarrow> ctx \<times> hub \<Rightarrow> bool \<times> ctx \<times> hub" where
  "binding_scope_belongs_to_org E st sid org s =
     (if st = ''global'' \<or> sid = None \<or> sid = Some [] then (st = ''global'', s)
      else system (\<lambda>s0.
        if st = ''site'' then
          (let (rows, s1) = select_scoped E ''sites'' (Some \<circ> site_organization_id) h_sites s0
           in (list_ex (\<lambda>r. Some (site_id r) = sid \<and> site_organization_id r = org) rows, s1))
        else if st = ''group'' then
          (let (rows, s1) = select_scoped E ''groups'' (Some \<circ> grp_organization_id) h_groups s0
           in (list_ex (\<lambda>r. Some (grp_id r) = sid \<and> grp_organization_id r = org) rows, s1))
        else if st = ''device'' then
          (case get_device (the sid) (snd s0) of
             None \<Rightarrow> (False, s0)
           | Some d \<Rightarrow>
               (if dev_site_id d = None \<or> dev_site_id d = Some [] then (False, s0)
                else
                  let (rows, s1) = select_scoped E ''sites'' (Some \<circ> site_organization_id) h_sites s0
                  in (case tget site_id (the (dev_site_id d)) rows of
                        None \<Rightarrow> False | Some r \<Rightarrow> site_organization_id r = org, s1)))
        else (True, s0)) s)"

section \<open>The gate\<close>

definition RBAC_ENFORCE_MODE_KEY :: string where
  "RBAC_ENFORCE_MODE_KEY = ''rbac.enforce_mode''"

definition RBAC_ENFORCE_MODE_ENV :: string where
  "RBAC_ENFORCE_MODE_ENV = ''REBOOTER_RBAC_ENFORCE_MODE''"

definition rbac_enforce_mode :: "env \<Rightarrow> ctx \<times> hub \<Rightarrow> string" where
  "rbac_enforce_mode E s =
     mode_of E (settings_get (fst s) (h_settings (snd s)) RBAC_ENFORCE_MODE_KEY
                  (Some RBAC_ENFORCE_MODE_ENV) (VStr SHADOW))"

text \<open>What callers hand to \<open>_is_super_admin\<close>: the user object, or (the list filters) only its id,
  a string without \<open>role\<close> and \<open>id\<close> attributes.\<close>

datatype principal = UserObj user | UserId string

definition is_super_admin :: "env \<Rightarrow> principal option \<Rightarrow> ctx \<times> hub \<Rightarrow> bool \<times> ctx \<times> hub" where
  "is_super_admin E p s =
     (case p of
        Some (UserObj u) \<Rightarrow>
          (if usr_role u = ''super_admin'' then (True, s)
           else if usr_id u = [] then (False, s)
           else has_global_role E (usr_id u) ''super_admin'' s)
      | _ \<Rightarrow> (False, s))"

datatype scope_denied = RbacScopeDenied string "string option" string

definition gate_details :: "string \<Rightarrow> string option \<Rightarrow> string \<Rightarrow> string \<Rightarrow> ctx \<Rightarrow> pydict" where
  "gate_details st sid need mode c =
     [(''route'', of_opt_str (cx_route c)), (''method'', of_opt_str (cx_method c)),
      (''scope_type'', VStr st), (''scope_id'', of_opt_str sid), (''role_needed'', VStr need),
      (''reason'', VStr ''out_of_scope''), (''enforce_mode'', VStr mode)]"

definition scope_gate ::
  "env \<Rightarrow> user \<Rightarrow> bool \<Rightarrow> string \<Rightarrow> string option \<Rightarrow> string \<Rightarrow> ctx \<times> hub \<Rightarrow>
   (scope_denied + unit) \<times> ctx \<times> hub" where
  "scope_gate E u allowed st sid need s =
     (if allowed then (Inr (), s)
      else
        let mode = rbac_enforce_mode E s;
            action = (if mode = ENFORCE then ''rbac.enforce_deny'' else ''rbac.shadow_deny'');
            s1 = audit_record E action (Some (usr_id u)) (Some (usr_email u)) (Some st) sid
                   (gate_details st sid need mode (fst s)) None s
        in (if mode = ENFORCE then Inl (RbacScopeDenied st sid need) else Inr (), s1))"

definition require_scope ::
  "(env \<Rightarrow> string \<Rightarrow> string \<Rightarrow> string \<Rightarrow> ctx \<times> hub \<Rightarrow> bool \<times> ctx \<times> hub) \<Rightarrow> env \<Rightarrow> string \<Rightarrow> string \<Rightarrow> string \<Rightarrow>
   user option \<Rightarrow> ctx \<times> hub \<Rightarrow> (scope_denied + unit) \<times> ctx \<times> hub" where
  "require_scope can_act E st rid need user0 s =
     (case (case user0 of None \<Rightarrow> cx_user (fst s) | Some u \<Rightarrow> Some u) of
        None \<Rightarrow> (Inr (), s)
      | Some u \<Rightarrow>
          (let (super, s1) = is_super_admin E (Some (UserObj u)) s in
           if super then (Inr (), s1)
           else let (allowed, s2) = can_act E (usr_id u) rid need s1
                in scope_gate E u allowed st (Some rid) need s2))"

definition require_can_act_on_device where
  "require_can_act_on_device E did need u s = require_scope can_act_on_device E ''device'' did need u s"

definition require_can_act_on_site where
  "require_can_act_on_site E sid need u s = require_scope can_act_on_site E ''site'' sid need u s"

definition require_can_act_on_group where
  "require_can_act_on_group E gid need u s = require_scope can_act_on_group E ''group'' gid need u s"

section \<open>What the resolvers compute\<close>

abbreviation seen :: "env \<Rightarrow> ctx \<times> hub \<Rightarrow> role_binding list" where
  "seen E s \<equiv> fst (select_bindings E s)"

text \<open>Whether a binding reaches a device, a site or a group, independent of roles.\<close>

definition covers_device :: "hub \<Rightarrow> role_binding \<Rightarrow> string \<Rightarrow> bool" where
  "covers_device h b did \<longleftrightarrow>
     rb_scope_type b = ''global'' \<or>
     rb_scope_type b = ''site'' \<and> (\<exists>d \<in> set (h_devices h). dev_id d = did \<and> dev_site_id d \<noteq> None \<and> dev_site_id d = rb_scope_id b) \<or>
     rb_scope_type b = ''group'' \<and> (\<exists>m \<in> set (h_memberships h). gm_device_id m = did \<and> Some (gm_group_id m) = rb_scope_id b) \<or>
     rb_scope_type b = ''device'' \<and> rb_scope_id b = Some did"

definition covers_scope :: "string \<Rightarrow> role_binding \<Rightarrow> string \<Rightarrow> bool" where
  "covers_scope st b x \<longleftrightarrow> rb_scope_type b = ''global'' \<or> rb_scope_type b = st \<and> rb_scope_id b = Some x"

lemma select_bindings_frame:
  assumes "select_bindings E (c, h) = (bs, c', h')"
  shows "scope_eq E (h_settings h) c c'" and "\<exists>a. h' = h\<lparr>h_audit := h_audit h @ a\<rparr>" and "scoped c \<Longrightarrow> h' = h"
  using select_scoped_frame [of E _ _ _ c h] assms unfolding select_bindings_def by blast+

lemma user_bindings_eq:
  "user_bindings E uid s = (filter (\<lambda>b. rb_user_id b = uid) (seen E s), snd (select_bindings E s))"
  by (simp add: user_bindings_def split: prod.splits)

lemma select_bindings_devices [simp]:
  "h_devices (snd (snd (select_bindings E s))) = h_devices (snd s)"
  "h_memberships (snd (snd (select_bindings E s))) = h_memberships (snd s)"
  using select_bindings_frame(2) [of E "fst s" "snd s"]
  by (metis (no_types, lifting) hub.select_convs(1,7) hub.surjective hub.update_convs(10) prod.collapse)+

lemma scope_ids_iff:
  "x \<in> set (scope_ids st need bs) \<longleftrightarrow>
     (\<exists>b \<in> set bs. rb_scope_type b = st \<and> role_satisfies (rb_role b) need \<and> rb_scope_id b = Some x)"
  by (force simp: scope_ids_def)

lemma some_scope_ids:
  "v \<in> Some ` set (scope_ids st need bs) \<longleftrightarrow>
     (\<exists>b \<in> set bs. rb_scope_type b = st \<and> role_satisfies (rb_role b) need \<and> v \<noteq> None \<and> v = rb_scope_id b)"
  by (cases v) (auto simp: image_iff scope_ids_iff)

lemma eff_mem_device:
  "eff_mem did (fst (effective_device_ids E uid need s)) \<longleftrightarrow>
     (\<exists>b \<in> set (seen E s). rb_user_id b = uid \<and> role_satisfies (rb_role b) need \<and> covers_device (snd s) b did)"
proof -
  let ?bs = "filter (\<lambda>b. rb_user_id b = uid) (seen E s)"
  have site: "did \<in> dev_id ` {d \<in> set (h_devices (snd s)). dev_site_id d \<in> Some ` set (scope_ids ''site'' need ?bs)}
      \<longleftrightarrow> (\<exists>b \<in> set ?bs. rb_scope_type b = ''site'' \<and> role_satisfies (rb_role b) need
             \<and> (\<exists>d \<in> set (h_devices (snd s)). dev_id d = did \<and> dev_site_id d \<noteq> None \<and> dev_site_id d = rb_scope_id b))"
    unfolding some_scope_ids by blast
  have grp: "did \<in> gm_device_id ` {m \<in> set (h_memberships (snd s)). gm_group_id m \<in> set (scope_ids ''group'' need ?bs)}
      \<longleftrightarrow> (\<exists>b \<in> set ?bs. rb_scope_type b = ''group'' \<and> role_satisfies (rb_role b) need
             \<and> (\<exists>m \<in> set (h_memberships (snd s)). gm_device_id m = did \<and> Some (gm_group_id m) = rb_scope_id b))"
    unfolding scope_ids_iff by (auto simp: eq_commute [of "Some _"])
  have "eff_mem did (fst (effective_device_ids E uid need s)) \<longleftrightarrow>
      global_hit need ?bs \<or> did \<in> set (scope_ids ''device'' need ?bs)
      \<or> did \<in> dev_id ` {d \<in> set (h_devices (snd s)). dev_site_id d \<in> Some ` set (scope_ids ''site'' need ?bs)}
      \<or> did \<in> gm_device_id ` {m \<in> set (h_memberships (snd s)). gm_group_id m \<in> set (scope_ids ''group'' need ?bs)}"
    by (simp add: effective_device_ids_def user_bindings_eq Let_def)
  also have "\<dots> \<longleftrightarrow> (\<exists>b \<in> set ?bs. role_satisfies (rb_role b) need \<and> covers_device (snd s) b did)"
    unfolding site grp by (auto simp: global_hit_def list_ex_iff scope_ids_iff covers_device_def)
  finally show ?thesis by auto
qed

lemma eff_mem_scope:
  "eff_mem x (fst (effective_site_ids E uid need s)) \<longleftrightarrow>
     (\<exists>b \<in> set (seen E s). rb_user_id b = uid \<and> role_satisfies (rb_role b) need \<and> covers_scope ''site'' b x)"
  "eff_mem x (fst (effective_group_ids E uid need s)) \<longleftrightarrow>
     (\<exists>b \<in> set (seen E s). rb_user_id b = uid \<and> role_satisfies (rb_role b) need \<and> covers_scope ''group'' b x)"
  by (auto simp: effective_site_ids_def effective_group_ids_def user_bindings_eq global_hit_def list_ex_iff
      scope_ids_iff covers_scope_def)

lemma can_act_snd [simp]:
  "snd (can_act_on_device E uid x need s) = snd (select_bindings E s)"
  "snd (can_act_on_site E uid x need s) = snd (select_bindings E s)"
  "snd (can_act_on_group E uid x need s) = snd (select_bindings E s)"
  by (simp_all add: can_act_on_device_def can_act_on_site_def can_act_on_group_def effective_device_ids_def
      effective_site_ids_def effective_group_ids_def user_bindings_eq Let_def split: prod.splits)

lemma can_act_fst:
  "fst (can_act_on_device E uid x need s) = eff_mem x (fst (effective_device_ids E uid need s))"
  "fst (can_act_on_site E uid x need s) = eff_mem x (fst (effective_site_ids E uid need s))"
  "fst (can_act_on_group E uid x need s) = eff_mem x (fst (effective_group_ids E uid need s))"
  by (simp_all add: can_act_on_device_def can_act_on_site_def can_act_on_group_def split: prod.splits)

section \<open>Stability of the view\<close>

lemma seen_eq: "seen E (c, h) = visible rb_organization_id
    (fst (add_tenant_filter E True [''role_bindings''] (c, h))) (h_role_bindings h)"
  by (simp add: select_bindings_def fst_select_scoped)

lemma seen_again:
  assumes "scope_eq E (h_settings h) c c'" and "h_settings h' = h_settings h"
    and "h_role_bindings h' = h_role_bindings h"
  shows "seen E (c', h') = seen E (c, h)"
  unfolding select_bindings_def by (rule select_scoped_again [OF assms])

lemma seen_enforced:
  assumes "cx_org c = Some org" and "\<not> cx_bypass c" and "\<not> cx_in_filter c"
    and "fst (enforce_mode E True (Some (h_settings h)) c) = ENFORCE"
  shows "seen E (c, h) = filter (\<lambda>b. rb_organization_id b = Some org) (h_role_bindings h)"
  using assms
  by (simp add: seen_eq fst_add_tenant_filter visible_def touches_tenant_scoped_def tenant_scoped_tablenames_def)

lemma is_super_admin_frame:
  assumes "is_super_admin E p (c, h) = (b, c', h')"
  shows "scope_eq E (h_settings h) c c'" and "\<exists>a. h' = h\<lparr>h_audit := h_audit h @ a\<rparr>" and "scoped c \<Longrightarrow> h' = h"
proof -
  consider "(c', h') = (c, h)" | "(c', h') = snd (select_bindings E (c, h))"
    using assms
    by (auto simp: is_super_admin_def has_global_role_def user_bindings_eq
        split: option.splits principal.splits if_splits prod.splits)
  then have "scope_eq E (h_settings h) c c' \<and> (\<exists>a. h' = h\<lparr>h_audit := h_audit h @ a\<rparr>) \<and> (scoped c \<longrightarrow> h' = h)"
  proof cases
    case 1
    then show ?thesis using audit_ext_refl [of h] by auto
  next
    case 2
    then have "select_bindings E (c, h) = (seen E (c, h), c', h')" by (simp add: prod_eq_iff)
    from select_bindings_frame [OF this] show ?thesis by blast
  qed
  then show "scope_eq E (h_settings h) c c'" and "\<exists>a. h' = h\<lparr>h_audit := h_audit h @ a\<rparr>" and "scoped c \<Longrightarrow> h' = h"
    by blast+
qed

lemma scoped_scope_eq: "scope_eq E rows c c' \<Longrightarrow> scoped c' = scoped c"
  by (simp add: scope_eq_def scoped_def)

lemma rbac_mode_eq:
  "scope_eq E (h_settings h) c c' \<Longrightarrow> rbac_enforce_mode E (c', h) = rbac_enforce_mode E (c, h)"
  by (simp add: rbac_enforce_mode_def settings_get_def scope_eq_def)

text \<open>The gate, once for the three kinds of resource: \<open>can_act\<close> is any check that reads the bindings
  once and whose answer depends on the bindings seen, the devices and the memberships.\<close>

locale scope_check =
  fixes can_act :: "env \<Rightarrow> string \<Rightarrow> string \<Rightarrow> string \<Rightarrow> ctx \<times> hub \<Rightarrow> bool \<times> ctx \<times> hub"
  assumes reads_bindings: "snd (can_act E uid x need s) = snd (select_bindings E s)"
    and answer_cong: "seen E (c', h) = seen E (c, h) \<Longrightarrow>
          fst (can_act E uid x need (c', h)) = fst (can_act E uid x need (c, h))"
begin

lemma gate_passes:
  assumes "scoped c"
    and "fst (is_super_admin E (Some (UserObj u)) (c, h)) \<or> fst (can_act E (usr_id u) x need (c, h))"
  shows "\<exists>c'. require_scope can_act E st x need (Some u) (c, h) = (Inr (), c', h)"
proof -
  obtain super c1 h1 where sup: "is_super_admin E (Some (UserObj u)) (c, h) = (super, c1, h1)"
    by (metis prod_cases3)
  note f = is_super_admin_frame [OF sup]
  have h1: "h1 = h" using f(3) assms(1) by simp
  have "seen E (c1, h) = seen E (c, h)" by (rule seen_again [OF f(1)]) simp_all
  then have same: "fst (can_act E (usr_id u) x need (c1, h)) = fst (can_act E (usr_id u) x need (c, h))"
    by (rule answer_cong)
  obtain c2 h2 where sel: "snd (select_bindings E (c1, h)) = (c2, h2)" by (metis prod.exhaust)
  have "scoped c1" using scoped_scope_eq [OF f(1)] assms(1) by simp
  then have "h2 = h" using select_bindings_frame(3) [of E c1 h "seen E (c1, h)" c2 h2] sel
    by (simp add: prod_eq_iff)
  then have "can_act E (usr_id u) x need (c1, h) = (fst (can_act E (usr_id u) x need (c, h)), c2, h)"
    using reads_bindings [of E "usr_id u" x need "(c1, h)"] sel same by (simp add: prod_eq_iff)
  then show ?thesis using assms(2) sup h1 by (auto simp: require_scope_def scope_gate_def)
qed

lemma gate_denies:
  assumes "scoped c" and "\<not> fst (is_super_admin E (Some (UserObj u)) (c, h))"
    and "\<not> fst (can_act E (usr_id u) x need (c, h))"
  shows "\<exists>c' ev. require_scope can_act E st x need (Some u) (c, h) =
            (if rbac_enforce_mode E (c, h) = ENFORCE then Inl (RbacScopeDenied st (Some x) need) else Inr (),
             c', h\<lparr>h_audit := h_audit h @ [ev]\<rparr>)
          \<and> au_action ev = (if rbac_enforce_mode E (c, h) = ENFORCE then ''rbac.enforce_deny'' else ''rbac.shadow_deny'')
          \<and> au_actor_user_id ev = Some (usr_id u) \<and> au_target_type ev = Some st \<and> au_target_id ev = Some x
          \<and> au_organization_id ev = cx_org c"
proof -
  obtain super c1 h1 where sup: "is_super_admin E (Some (UserObj u)) (c, h) = (super, c1, h1)"
    by (metis prod_cases3)
  note f = is_super_admin_frame [OF sup]
  have h1: "h1 = h" and ns: "\<not> super" using f(3) assms(1,2) sup by auto
  have "seen E (c1, h) = seen E (c, h)" by (rule seen_again [OF f(1)]) simp_all
  then have same: "fst (can_act E (usr_id u) x need (c1, h)) = fst (can_act E (usr_id u) x need (c, h))"
    by (rule answer_cong)
  obtain c2 h2 where sel: "select_bindings E (c1, h) = (seen E (c1, h), c2, h2)" by (metis prod.collapse)
  have "scoped c1" using scoped_scope_eq [OF f(1)] assms(1) by simp
  then have h2: "h2 = h" using select_bindings_frame(3) [OF sel] by simp
  have eq2: "scope_eq E (h_settings h) c c2"
    using scope_eq_trans [OF f(1) select_bindings_frame(1) [OF sel]] .
  have ca: "can_act E (usr_id u) x need (c1, h) = (False, c2, h)"
    using reads_bindings [of E "usr_id u" x need "(c1, h)"] sel same assms(3) h2 by (simp add: prod_eq_iff)
  let ?m = "rbac_enforce_mode E (c, h)"
  let ?act = "if ?m = ENFORCE then ''rbac.enforce_deny'' else ''rbac.shadow_deny''"
  let ?ev = "build_event E c2 ?act (Some (usr_id u)) (Some (usr_email u)) (Some st) (Some x)
               (gate_details st (Some x) need ?m c2) None"
  obtain c3 where "audit_record E ?act (Some (usr_id u)) (Some (usr_email u)) (Some st) (Some x)
      (gate_details st (Some x) need ?m c2) None (c2, h) = (c3, h\<lparr>h_audit := h_audit h @ [?ev]\<rparr>)"
    by (rule audit_recordE)
  then have "require_scope can_act E st x need (Some u) (c, h) =
      (if ?m = ENFORCE then Inl (RbacScopeDenied st (Some x) need) else Inr (), c3,
       h\<lparr>h_audit := h_audit h @ [?ev]\<rparr>)"
    using sup ns h1 ca rbac_mode_eq [OF eq2]
    by (simp add: require_scope_def scope_gate_def Let_def)
  moreover have "au_action ?ev = ?act \<and> au_actor_user_id ?ev = Some (usr_id u) \<and> au_target_type ?ev = Some st
      \<and> au_target_id ?ev = Some x \<and> au_organization_id ?ev = cx_org c"
    using eq2 by (simp add: build_event_def scope_eq_def)
  ultimately show ?thesis by blast
qed

end

interpretation device_check: scope_check can_act_on_device
  by unfold_locales (simp_all add: can_act_fst eff_mem_device)

interpretation site_check: scope_check can_act_on_site
  by unfold_locales (simp_all add: can_act_fst eff_mem_scope)

interpretation group_check: scope_check can_act_on_group
  by unfold_locales (simp_all add: can_act_fst eff_mem_scope)

section \<open>Granting and revoking\<close>

lemma visible_map:
  assumes "\<And>r org. r \<in> set rows \<Longrightarrow> f = Some org \<Longrightarrow> org_of (g r) = Some org \<longleftrightarrow> org_of r = Some org"
  shows "visible org_of f (map g rows) = map g (visible org_of f rows)"
  using assms by (cases f) (auto simp: visible_def filter_map comp_def intro!: arg_cong [where f = "map g"] filter_cong)

lemma set_visible: "set (visible org_of f rows) \<subseteq> set rows"
  by (cases f) (auto simp: visible_def)

lemma seen_mem: "b \<in> set (seen E (c, h)) \<Longrightarrow> b \<in> set (h_role_bindings h)"
  using set_visible [of rb_organization_id "fst (add_tenant_filter E True [''role_bindings''] (c, h))"
      "h_role_bindings h"]
  by (auto simp: seen_eq)

lemma find_filter: "find P xs = Some x \<Longrightarrow> length (filter P xs) \<le> 1 \<Longrightarrow> filter P xs = [x]"
  by (induction xs) (auto split: if_splits)

text \<open>The view after a row of it is replaced, or a row added to it.\<close>

lemma seen_replace:
  assumes eq: "scope_eq E (h_settings h) c c'" and st: "h_settings h' = h_settings h"
    and pk: "pk_ok rb_id (h_role_bindings h)" and b: "b \<in> set (h_role_bindings h)"
    and org: "rb_organization_id b' = rb_organization_id b
              \<or> fst (add_tenant_filter E True [''role_bindings''] (c, h)) = None"
    and h': "h_role_bindings h' = tupd rb_id (rb_id b) (\<lambda>_. b') (h_role_bindings h)"
  shows "seen E (c', h') = map (\<lambda>r. if r = b then b' else r) (seen E (c, h))"
proof -
  have "rb_id r = rb_id b \<longleftrightarrow> r = b" if "r \<in> set (h_role_bindings h)" for r
    using pk_ok_unique [OF pk that b] by blast
  then have "tupd rb_id (rb_id b) (\<lambda>_. b') (h_role_bindings h)
      = map (\<lambda>r. if r = b then b' else r) (h_role_bindings h)"
    by (simp add: tupd_def)
  then show ?thesis
    using scope_eq_filter [OF eq st, of True "[''role_bindings'']"] org
    by (auto simp: seen_eq h' intro!: visible_map split: if_splits)
qed

lemma seen_add:
  assumes eq: "scope_eq E (h_settings h) c c'" and st: "h_settings h' = h_settings h"
    and org: "rb_organization_id b = cx_org c"
    and h': "h_role_bindings h' = tadd b (h_role_bindings h)"
  shows "seen E (c', h') = seen E (c, h) @ [b]"
proof -
  let ?f = "fst (add_tenant_filter E True [''role_bindings''] (c, h))"
  have "?f = None \<or> ?f = cx_org c" by (auto simp: fst_add_tenant_filter split: option.splits)
  then show ?thesis
    using scope_eq_filter [OF eq st, of True "[''role_bindings'']"] org
    by (auto simp: seen_eq h' tadd_def visible_def split: option.splits)
qed

lemma filter_map_replace:
  assumes "P b' = P b"
  shows "filter P (map (\<lambda>r. if r = b then b' else r) xs)
           = map (\<lambda>r. if r = b then b' else r) (filter P xs)"
  using assms by (induction xs) auto

lemma map_replace_absent: "b \<notin> set xs \<Longrightarrow> map (\<lambda>r. if r = b then b' else r) xs = xs"
  by (rule map_idI) auto

text \<open>Under the hypotheses of the schema (unique ids, at most one binding per user and scope in the
  view), what a successful grant leaves.\<close>

lemma grant_view:
  assumes g: "grant E uid st sid role by_uid (c, h) = Inr (b, c', h')"
    and pk: "pk_ok rb_id (h_role_bindings h)"
    and one: "length (filter (binding_is uid st sid) (seen E (c, h))) \<le> 1"
  shows "rb_role b = role \<and> filter (binding_is uid st sid) (seen E (c', h')) = [b]
       \<and> filter (\<lambda>r. \<not> binding_is uid st sid r) (seen E (c', h'))
         = filter (\<lambda>r. \<not> binding_is uid st sid r) (seen E (c, h))"
proof -
  obtain rows c1 h1 where sel: "select_bindings E (c, h) = (rows, c1, h1)" by (metis prod_cases3)
  have rows: "seen E (c, h) = rows" using sel by simp
  note eq1 = select_bindings_frame(1) [OF sel]
  obtain a1 where h1: "h1 = h\<lparr>h_audit := h_audit h @ a1\<rparr>" using select_bindings_frame(2) [OF sel] by blast
  have ok: "check_grant st sid role = None" using g by (auto simp: grant_def split: option.splits)
  show ?thesis
  proof (cases "find (binding_is uid st sid) rows")
    case None
    obtain new dirty c2 h2 where fl: "stamp_and_guard_tenant_writes E [binding_obj None True] [] (c1, h1)
        = Inr (new, dirty, c2, h2)"
      using g ok sel None by (auto simp: grant_def Let_def split: sum.splits)
    obtain a2 where h2: "h2 = h1\<lparr>h_audit := h_audit h1 @ a2\<rparr>" and eq2: "scope_eq E (h_settings h1) c1 c2"
      using flush_frame [OF fl] by blast
    obtain org where new: "new = [(binding_obj None True)\<lparr>fo_org := org\<rparr>]" and org: "org = None \<or> org = cx_org c1"
      using flush_one [OF disjI1, OF fl] by (auto simp: binding_obj_def)
    have res: "org \<noteq> None \<and> b = \<lparr>rb_id = new_id (env_ulid E) ''rb'' (h_ulid h2), rb_organization_id = org,
          rb_user_id = uid, rb_scope_type = st, rb_scope_id = sid, rb_role = role, rb_created_at = env_now E,
          rb_updated_at = env_now E, rb_created_by_user_id = by_uid\<rparr> \<and> c' = c2
        \<and> h' = h2\<lparr>h_role_bindings := tadd b (h_role_bindings h2), h_ulid := Suc (h_ulid h2)\<rparr>"
      using g ok sel None fl new by (auto simp: grant_def Let_def split: if_splits)
    have eq: "scope_eq E (h_settings h) c c'" using scope_eq_trans [OF eq1] eq2 h1 res by simp
    have "rb_organization_id b = cx_org c" using res org eq1 by (auto simp: scope_eq_def)
    then have "seen E (c', h') = seen E (c, h) @ [b]"
      by (rule seen_add [OF eq, rotated]) (use res h1 h2 in simp_all)
    moreover have "binding_is uid st sid b" using res by (simp add: binding_is_def)
    ultimately show ?thesis using None res rows by (simp add: find_None_filter)
  next
    case (Some b0)
    let ?ob = "binding_obj (rb_organization_id b0) (rb_role b0 \<noteq> role \<or> rb_updated_at b0 \<noteq> env_now E)"
    obtain new dirty c2 h2 where fl: "stamp_and_guard_tenant_writes E [] [?ob] (c1, h1) = Inr (new, dirty, c2, h2)"
      using g ok sel Some by (auto simp: grant_def Let_def split: sum.splits)
    obtain a2 where h2: "h2 = h1\<lparr>h_audit := h_audit h1 @ a2\<rparr>" and eq2: "scope_eq E (h_settings h1) c1 c2"
      using flush_frame [OF fl] by blast
    obtain org where dirty: "dirty = [?ob\<lparr>fo_org := org\<rparr>]"
      and org: "org = rb_organization_id b0 \<or> rb_organization_id b0 = None"
      using flush_one [OF disjI2, OF fl] by (auto simp: binding_obj_def)
    have res: "b = b0\<lparr>rb_role := role, rb_updated_at := env_now E, rb_organization_id := org\<rparr> \<and> c' = c2
        \<and> h' = h2\<lparr>h_role_bindings := tupd rb_id (rb_id b0) (\<lambda>_. b) (h_role_bindings h2)\<rparr>"
      using g ok sel Some fl dirty by (auto simp: grant_def Let_def split: if_splits)
    have b0: "b0 \<in> set (seen E (c, h))" and is0: "binding_is uid st sid b0"
      using Some rows by (auto simp: find_Some_iff)
    have mem: "b0 \<in> set (h_role_bindings h)" using b0 by (rule seen_mem)
    have vis: "rb_organization_id b = rb_organization_id b0
        \<or> fst (add_tenant_filter E True [''role_bindings''] (c, h)) = None"
      using b0 res org by (auto simp: seen_eq visible_def split: option.splits)
    have "scope_eq E (h_settings h) c c'" using scope_eq_trans [OF eq1] eq2 h1 res by simp
    then have view: "seen E (c', h') = map (\<lambda>r. if r = b0 then b else r) (seen E (c, h))"
      by (rule seen_replace [OF _ _ pk mem vis]) (use res h1 h2 in simp_all)
    have isb: "binding_is uid st sid b" using is0 res by (simp add: binding_is_def)
    have "filter (binding_is uid st sid) (seen E (c', h')) = [b]"
      using find_filter [OF Some] one rows is0 isb by (simp add: view filter_map_replace)
    moreover have "filter (\<lambda>r. \<not> binding_is uid st sid r) (seen E (c', h'))
        = filter (\<lambda>r. \<not> binding_is uid st sid r) (seen E (c, h))"
      using is0 isb by (simp add: view filter_map_replace map_replace_absent)
    ultimately show ?thesis using res by simp
  qed
qed

lemma seen_delete:
  assumes eq: "scope_eq E (h_settings h) c c'" and st: "h_settings h' = h_settings h"
    and pk: "pk_ok rb_id (h_role_bindings h)" and b: "b \<in> set (h_role_bindings h)"
    and h': "h_role_bindings h' = tdel rb_id (rb_id b) (h_role_bindings h)"
  shows "seen E (c', h') = filter (\<lambda>r. r \<noteq> b) (seen E (c, h))"
proof -
  have "rb_id r \<noteq> rb_id b \<longleftrightarrow> r \<noteq> b" if "r \<in> set (h_role_bindings h)" for r
    using pk_ok_unique [OF pk that b] by blast
  then have "tdel rb_id (rb_id b) (h_role_bindings h) = filter (\<lambda>r. r \<noteq> b) (h_role_bindings h)"
    unfolding tdel_def by (intro filter_cong) simp_all
  then show ?thesis
    using scope_eq_filter [OF eq st, of True "[''role_bindings'']"]
    by (auto simp: seen_eq h' visible_def conj_commute split: option.splits)
qed

lemma revoke_view:
  assumes r: "revoke E uid st sid (c, h) = (found, c', h')"
    and pk: "pk_ok rb_id (h_role_bindings h)"
    and one: "length (filter (binding_is uid st sid) (seen E (c, h))) \<le> 1"
  shows "(found \<longleftrightarrow> (\<exists>b \<in> set (seen E (c, h)). binding_is uid st sid b))
       \<and> seen E (c', h') = filter (\<lambda>r. \<not> binding_is uid st sid r) (seen E (c, h))"
proof -
  obtain rows c1 h1 where sel: "select_bindings E (c, h) = (rows, c1, h1)" by (metis prod_cases3)
  have rows: "seen E (c, h) = rows" using sel by simp
  note eq1 = select_bindings_frame(1) [OF sel]
  obtain a1 where h1: "h1 = h\<lparr>h_audit := h_audit h @ a1\<rparr>" using select_bindings_frame(2) [OF sel] by blast
  show ?thesis
  proof (cases "find (binding_is uid st sid) rows")
    case None
    then have "\<not> found" and "c' = c1" and "h' = h1" using r sel by (auto simp: revoke_def)
    moreover have "seen E (c1, h1) = rows" using seen_again [OF eq1] h1 rows by simp
    moreover have "\<not> binding_is uid st sid b" if "b \<in> set rows" for b
      using None that by (auto simp: find_None_iff)
    ultimately show ?thesis using rows by simp
  next
    case (Some b)
    obtain c2 where fl: "stamp_and_guard_tenant_writes E [] [] (c1, h1) = Inr ([], [], c2, h1)"
      and eq2: "scope_eq E (h_settings h1) c1 c2" by (rule empty_flush)
    have res: "found \<and> c' = c2 \<and> h' = h1\<lparr>h_role_bindings := tdel rb_id (rb_id b) (h_role_bindings h1)\<rparr>"
      using r sel Some fl by (auto simp: revoke_def)
    have b: "b \<in> set rows" "binding_is uid st sid b" using Some by (auto simp: find_Some_iff)
    then have mem: "b \<in> set (h_role_bindings h)" using rows by (auto intro: seen_mem)
    have eq: "scope_eq E (h_settings h) c c'" using scope_eq_trans [OF eq1] eq2 h1 res by simp
    have view: "seen E (c', h') = filter (\<lambda>r. r \<noteq> b) rows"
      unfolding rows [symmetric] by (rule seen_delete [OF eq _ pk mem]) (use res h1 in simp_all)
    have uniq: "r = b" if "r \<in> set rows" "binding_is uid st sid r" for r
    proof -
      have fb: "filter (binding_is uid st sid) rows = [b]" using find_filter [OF Some] one rows by simp
      have "r \<in> set (filter (binding_is uid st sid) rows)" using that by simp
      then show ?thesis unfolding fb by simp
    qed
    have "filter (\<lambda>r. r \<noteq> b) rows = filter (\<lambda>r. \<not> binding_is uid st sid r) rows"
      using uniq b(2) by (intro filter_cong refl) blast
    then show ?thesis unfolding rows view using res b by blast
  qed
qed

section \<open>Properties\<close>

text \<open>A user may act on a device at a role exactly when one of the bindings the tenant filter lets
  through is the user's, is at or above that role, and is global, or for the site the device is in,
  or for a group the device is a member of, or for the device itself.\<close>

theorem can_act_on_device_iff:
  "fst (can_act_on_device E uid did need s) \<longleftrightarrow>
     (\<exists>b \<in> set (fst (select_bindings E s)).
        rb_user_id b = uid \<and> role_satisfies (rb_role b) need \<and> covers_device (snd s) b did)"
  by (simp add: can_act_fst eff_mem_device)

text \<open>C9: Under tenant enforcement, role resolution inside an organization does not depend on any
  binding of another organization: two hubs with the same bindings of the active organization, the
  same devices and memberships and the same settings give the same answer for every device, site and
  group, so a global role in one organization gives nothing in another.\<close>

theorem rbac_org_noninterference:
  assumes "cx_org c = Some org" and "\<not> cx_bypass c" and "\<not> cx_in_filter c"
    and "fst (enforce_mode E True (Some (h_settings h)) c) = ''enforce''"
    and "h_settings h' = h_settings h" and "h_devices h' = h_devices h" and "h_memberships h' = h_memberships h"
    and "filter (\<lambda>b. rb_organization_id b = Some org) (h_role_bindings h')
         = filter (\<lambda>b. rb_organization_id b = Some org) (h_role_bindings h)"
  shows "fst (can_act_on_device E uid x need (c, h')) = fst (can_act_on_device E uid x need (c, h))
       \<and> fst (can_act_on_site E uid x need (c, h')) = fst (can_act_on_site E uid x need (c, h))
       \<and> fst (can_act_on_group E uid x need (c, h')) = fst (can_act_on_group E uid x need (c, h))"
proof -
  have "seen E (c, h') = seen E (c, h)"
    using seen_enforced [OF assms(1-3)] assms(4,5,8) by simp
  moreover have "covers_device h' b x = covers_device h b x" for b
    using assms(6,7) by (simp add: covers_device_def)
  ultimately show ?thesis by (simp add: can_act_fst eff_mem_device eff_mem_scope)
qed

definition demo_binding_row :: "string \<Rightarrow> string \<Rightarrow> string \<Rightarrow> string \<Rightarrow> string option \<Rightarrow> string \<Rightarrow> role_binding" where
  "demo_binding_row i org uid st sid role = \<lparr>rb_id = i, rb_organization_id = Some org, rb_user_id = uid,
     rb_scope_type = st, rb_scope_id = sid, rb_role = role, rb_created_at = 0, rb_updated_at = 0,
     rb_created_by_user_id = None\<rparr>"

theorem rbac_org_noninterference_witness:
  "\<not> fst (can_act_on_device scope_env ''u'' ''d1'' ''viewer'' (scope_ctx (Some ''a''),
       enforcing_hub\<lparr>h_role_bindings := [demo_binding_row ''r1'' ''b'' ''u'' ''global'' None ''super_admin'']\<rparr>))"
proof -
  let ?h = "enforcing_hub\<lparr>h_role_bindings := [demo_binding_row ''r1'' ''b'' ''u'' ''global'' None ''super_admin'']\<rparr>"
  have mode: "fst (enforce_mode scope_env True (Some (h_settings enforcing_hub)) (scope_ctx (Some ''a''))) = ''enforce''"
    by (rule enforcing_hub_mode)
  have "fst (can_act_on_device scope_env ''u'' ''d1'' ''viewer'' (scope_ctx (Some ''a''), ?h))
      = fst (can_act_on_device scope_env ''u'' ''d1'' ''viewer'' (scope_ctx (Some ''a''), enforcing_hub))"
    using rbac_org_noninterference [OF scope_ctx_simps(1,2,3) mode, of ?h "''u''" "''d1''" "''viewer''"]
    by (simp add: demo_binding_row_def) (simp add: enforcing_hub_def empty_hub_def)
  moreover have "\<not> fst (can_act_on_device scope_env ''u'' ''d1'' ''viewer'' (scope_ctx (Some ''a''), enforcing_hub))"
    using seen_enforced [OF scope_ctx_simps(1,2,3) mode]
    by (simp add: can_act_fst eff_mem_device) (simp add: enforcing_hub_def empty_hub_def)
  ultimately show ?thesis by simp
qed

text \<open>The device gate: inside a scope, a super-admin or a user whose bindings cover the device
  passes and leaves no trace; anyone else leaves exactly one audit row naming user, device and active
  organization, and is refused in enforce mode and let through in shadow mode.\<close>

theorem require_can_act_on_device_gate:
  assumes "cx_bypass c \<or> cx_org c \<noteq> None"
  shows "if fst (is_super_admin E (Some (UserObj u)) (c, h)) \<or> fst (can_act_on_device E (usr_id u) did need (c, h))
         then \<exists>c'. require_can_act_on_device E did need (Some u) (c, h) = (Inr (), c', h)
         else \<exists>c' ev. require_can_act_on_device E did need (Some u) (c, h) =
                (if rbac_enforce_mode E (c, h) = ''enforce''
                 then Inl (RbacScopeDenied ''device'' (Some did) need) else Inr (),
                 c', h\<lparr>h_audit := h_audit h @ [ev]\<rparr>)
              \<and> au_action ev = (if rbac_enforce_mode E (c, h) = ''enforce''
                                then ''rbac.enforce_deny'' else ''rbac.shadow_deny'')
              \<and> au_actor_user_id ev = Some (usr_id u) \<and> au_target_type ev = Some ''device''
              \<and> au_target_id ev = Some did \<and> au_organization_id ev = cx_org c"
proof -
  have sc: "scoped c" using assms by (simp add: scoped_def)
  show ?thesis
    using device_check.gate_passes [OF sc, of E u h did need] device_check.gate_denies [OF sc, of E u h did need]
    by (simp add: require_can_act_on_device_def)
qed

definition demo_user :: "string \<Rightarrow> string \<Rightarrow> user" where
  "demo_user i role = \<lparr>usr_id = i, usr_email = i @ ''@example.org'', usr_password_hash = [], usr_display_name = i,
     usr_is_active = True, usr_is_admin = False, usr_is_super_admin = False, usr_role = role,
     usr_tokens_valid_after = 0, usr_created_at = 0, usr_updated_at = 0, usr_last_login_at = None\<rparr>"

theorem require_can_act_on_device_gate_witness:
  "\<exists>c' ev. require_can_act_on_device scope_env ''d1'' ''viewer'' (Some (demo_user ''u'' ''operator''))
             (scope_ctx (Some ''a''), empty_hub) = (Inr (), c', empty_hub\<lparr>h_audit := [ev]\<rparr>)
           \<and> au_action ev = ''rbac.shadow_deny''"
proof -
  let ?u = "demo_user ''u'' ''operator''"
  have f: "\<not> fst (is_super_admin scope_env (Some (UserObj ?u)) (scope_ctx (Some ''a''), empty_hub))"
    "\<not> fst (can_act_on_device scope_env (usr_id ?u) ''d1'' ''viewer'' (scope_ctx (Some ''a''), empty_hub))"
    "rbac_enforce_mode scope_env (scope_ctx (Some ''a''), empty_hub) \<noteq> ''enforce''"
    by code_simp+
  have "h_audit empty_hub = []" by (simp add: empty_hub_def)
  then show ?thesis
    using require_can_act_on_device_gate [of "scope_ctx (Some ''a'')" scope_env ?u empty_hub "''d1''" "''viewer''"] f
    by auto
qed

text \<open>A successful grant leaves exactly one binding of that user for that scope in the view, with
  the granted role, and does not touch any other binding; re-granting changes the role in place.\<close>

theorem grant_spec:
  assumes "grant E uid st sid role by_uid (c, h) = Inr (b, c', h')"
    and "pk_ok rb_id (h_role_bindings h)"
    and "length (filter (binding_is uid st sid) (fst (select_bindings E (c, h)))) \<le> 1"
  shows "rb_role b = role
       \<and> filter (binding_is uid st sid) (fst (select_bindings E (c', h'))) = [b]
       \<and> filter (\<lambda>r. \<not> binding_is uid st sid r) (fst (select_bindings E (c', h')))
         = filter (\<lambda>r. \<not> binding_is uid st sid r) (fst (select_bindings E (c, h)))"
  by (rule grant_view [OF assms])

theorem grant_spec_witness:
  "\<exists>b c' h'. grant scope_env ''u'' ''site'' (Some ''s1'') ''admin'' None (scope_ctx (Some ''a''),
       empty_hub\<lparr>h_role_bindings := [demo_binding_row ''r1'' ''a'' ''u'' ''site'' (Some ''s1'') ''viewer'']\<rparr>)
         = Inr (b, c', h')
     \<and> filter (binding_is ''u'' ''site'' (Some ''s1'')) (fst (select_bindings scope_env (c', h'))) = [b]
     \<and> rb_role b = ''admin'' \<and> rb_id b = ''r1''"
proof -
  let ?h = "empty_hub\<lparr>h_role_bindings := [demo_binding_row ''r1'' ''a'' ''u'' ''site'' (Some ''s1'') ''viewer'']\<rparr>"
  let ?g = "grant scope_env ''u'' ''site'' (Some ''s1'') ''admin'' None (scope_ctx (Some ''a''), ?h)"
  have "(case ?g of Inl _ \<Rightarrow> False | Inr (b, _) \<Rightarrow> rb_id b = ''r1'')" by code_simp
  then obtain b c' h' where g: "?g = Inr (b, c', h')" and i: "rb_id b = ''r1''"
    by (auto split: sum.splits)
  have pre: "pk_ok rb_id (h_role_bindings ?h)"
    "length (filter (binding_is ''u'' ''site'' (Some ''s1'')) (fst (select_bindings scope_env (scope_ctx (Some ''a''), ?h)))) \<le> 1"
    by code_simp+
  from grant_spec [OF g pre] g i show ?thesis by blast
qed

text \<open>Revoking reports whether the binding was there and leaves exactly the other bindings, so after
  a grant and a revoke the view is what it was without that scope.\<close>

theorem revoke_spec:
  assumes "revoke E uid st sid (c, h) = (found, c', h')" and "pk_ok rb_id (h_role_bindings h)"
    and "length (filter (binding_is uid st sid) (fst (select_bindings E (c, h)))) \<le> 1"
  shows "(found \<longleftrightarrow> (\<exists>b \<in> set (fst (select_bindings E (c, h))). binding_is uid st sid b))
       \<and> fst (select_bindings E (c', h'))
         = filter (\<lambda>r. \<not> binding_is uid st sid r) (fst (select_bindings E (c, h)))"
  by (rule revoke_view [OF assms])

theorem revoke_spec_witness:
  "\<exists>c' h'. revoke scope_env ''u'' ''global'' None (scope_ctx (Some ''a''),
       empty_hub\<lparr>h_role_bindings := [demo_binding_row ''r1'' ''a'' ''u'' ''global'' None ''viewer'']\<rparr>) = (True, c', h')
     \<and> fst (select_bindings scope_env (c', h')) = []"
proof -
  let ?h = "empty_hub\<lparr>h_role_bindings := [demo_binding_row ''r1'' ''a'' ''u'' ''global'' None ''viewer'']\<rparr>"
  obtain f c' h' where r: "revoke scope_env ''u'' ''global'' None (scope_ctx (Some ''a''), ?h) = (f, c', h')"
    by (metis prod_cases3)
  have pre: "pk_ok rb_id (h_role_bindings ?h)"
    "length (filter (binding_is ''u'' ''global'' None) (fst (select_bindings scope_env (scope_ctx (Some ''a''), ?h)))) \<le> 1"
    by code_simp+
  have "list_ex (binding_is ''u'' ''global'' None) (fst (select_bindings scope_env (scope_ctx (Some ''a''), ?h)))"
    and "filter (\<lambda>r. \<not> binding_is ''u'' ''global'' None r) (fst (select_bindings scope_env (scope_ctx (Some ''a''), ?h))) = []"
    by code_simp+
  with revoke_spec [OF r pre] r show ?thesis by (auto simp: list_ex_iff)
qed

end
