(* ===== verification/Accounts.thy ===== *)
theory Accounts
  imports RoleBindings PyText "HOL-Library.Product_Lexorder"
begin

text \<open>
  Accounts: users (\<open>app/services/users.py\<close>), sign-in (\<open>auth.py\<close>), the server-side session log
  (\<open>sessions.py\<close>), organization memberships (\<open>org_membership.py\<close>) and the authentication of a request
  (\<open>app/middleware/admin_auth.py\<close>, \<open>_resolve_user\<close> and \<open>_bind_tenant_scope\<close>). Argon2 and SHA-256 are the
  fields of \<open>crypto\<close>; a bearer token arrives as the claims PyJWT decoded from it, or \<open>None\<close>.
\<close>

record crypto =
  cy_sha256 :: "string \<Rightarrow> string"
  cy_hash_password :: "string \<Rightarrow> string"
  cy_verify_password :: "string \<Rightarrow> string \<Rightarrow> bool"

definition ALL_ROLES :: "string list" where
  "ALL_ROLES = [''super_admin'', ''admin'', ''operator'', ''viewer'']"

section \<open>Users\<close>

datatype user_error =
    BadRole
  | EmailTaken string
  | DisplayNameRequired
  | PasswordTooShort
  | PasswordUnchanged
  | UserNotFound
  | WrongPassword

definition serialize_user :: "user \<Rightarrow> pydict" where
  "serialize_user u =
     [(''id'', VStr (usr_id u)), (''email'', VStr (usr_email u)), (''display_name'', VStr (usr_display_name u)),
      (''role'', VStr (usr_role u)), (''is_active'', VBool (usr_is_active u)),
      (''is_super_admin'', VBool (usr_is_super_admin u)), (''created_at'', VStr (iso_z (usr_created_at u))),
      (''last_login_at'', case usr_last_login_at u of None \<Rightarrow> VNone | Some t \<Rightarrow> VStr (iso_z t))]"

definition list_users :: "hub \<Rightarrow> pydict list" where
  "list_users h = map serialize_user (sort_key (\<lambda>u. - usr_created_at u) (h_users h))"

definition load_user :: "string \<Rightarrow> hub \<Rightarrow> user option" where
  "load_user i h = tget usr_id i (h_users h)"

definition get_user :: "string \<Rightarrow> hub \<Rightarrow> pydict option" where
  "get_user i h = map_option serialize_user (load_user i h)"

definition modify_user :: "string \<Rightarrow> (user \<Rightarrow> user) \<Rightarrow> hub \<Rightarrow> hub" where
  "modify_user i f h = h\<lparr>h_users := tupd usr_id i f (h_users h)\<rparr>"

definition put_user :: "user \<Rightarrow> hub \<Rightarrow> hub" where
  "put_user u h = h\<lparr>h_users := tadd u (h_users h)\<rparr>"

definition create_user ::
  "env \<Rightarrow> crypto \<Rightarrow> string \<Rightarrow> string \<Rightarrow> string \<Rightarrow> string \<Rightarrow> hub \<Rightarrow> user_error + (user \<times> hub)" where
  "create_user E K email password display_name role h =
     (if role \<notin> set ALL_ROLES then Inl BadRole
      else
        let addr = py_strip (py_lower email) in
        if tget usr_email addr (h_users h) \<noteq> None then Inl (EmailTaken addr)
        else
          let u = \<lparr>usr_id = new_id (env_ulid E) ''usr'' (h_ulid h), usr_email = addr,
                   usr_password_hash = cy_hash_password K password,
                   usr_display_name = (if display_name \<noteq> [] then display_name else fst (py_partition CHR ''@'' addr)),
                   usr_is_active = True, usr_is_admin = (role \<noteq> ''viewer''), usr_is_super_admin = (role = ''super_admin''),
                   usr_role = role, usr_tokens_valid_after = env_now E, usr_created_at = env_now E,
                   usr_updated_at = env_now E, usr_last_login_at = None\<rparr>
          in Inr (u, put_user u (h\<lparr>h_ulid := Suc (h_ulid h)\<rparr>)))"

definition update_user_role :: "env \<Rightarrow> string \<Rightarrow> string \<Rightarrow> hub \<Rightarrow> user_error + (pydict option \<times> hub)" where
  "update_user_role E i role h =
     (if role \<notin> set ALL_ROLES then Inl BadRole
      else case load_user i h of
        None \<Rightarrow> Inr (None, h)
      | Some u \<Rightarrow>
          (let f = (\<lambda>u. u\<lparr>usr_role := role, usr_is_super_admin := (role = ''super_admin''),
                          usr_is_admin := (role \<noteq> ''viewer''), usr_updated_at := env_now E\<rparr>)
           in Inr (Some (serialize_user (f u)), modify_user i f h)))"

definition deactivate_user :: "env \<Rightarrow> string \<Rightarrow> hub \<Rightarrow> bool \<times> hub" where
  "deactivate_user E i h =
     (case load_user i h of
        None \<Rightarrow> (False, h)
      | Some _ \<Rightarrow> (True, modify_user i (\<lambda>u. u\<lparr>usr_is_active := False, usr_tokens_valid_after := env_now E,
                                             usr_updated_at := env_now E\<rparr>) h))"

definition update_user_display_name ::
  "env \<Rightarrow> string \<Rightarrow> string option \<Rightarrow> hub \<Rightarrow> user_error + (pydict option \<times> hub)" where
  "update_user_display_name E i name h =
     (let nm = py_strip (case name of None \<Rightarrow> [] | Some n \<Rightarrow> n) in
      if nm = [] then Inl DisplayNameRequired
      else case load_user i h of
        None \<Rightarrow> Inr (None, h)
      | Some u \<Rightarrow>
          (let f = (\<lambda>u. u\<lparr>usr_display_name := nm, usr_updated_at := env_now E\<rparr>)
           in Inr (Some (serialize_user (f u)), modify_user i f h)))"

definition change_own_password ::
  "env \<Rightarrow> crypto \<Rightarrow> string \<Rightarrow> string \<Rightarrow> string \<Rightarrow> hub \<Rightarrow> user_error + hub" where
  "change_own_password E K i current new h =
     (if length new < 8 then Inl PasswordTooShort
      else if current = new then Inl PasswordUnchanged
      else case load_user i h of
        None \<Rightarrow> Inl UserNotFound
      | Some u \<Rightarrow>
          (if \<not> cy_verify_password K (usr_password_hash u) current then Inl WrongPassword
           else Inr (modify_user i (\<lambda>u. u\<lparr>usr_password_hash := cy_hash_password K new, usr_updated_at := env_now E,
                                         usr_tokens_valid_after := env_now E\<rparr>) h)))"

section \<open>Sign-in\<close>

text \<open>SQL \<open>LIKE\<close> with the default escape of PostgreSQL.\<close>

fun sql_like :: "string \<Rightarrow> string \<Rightarrow> bool" where
  "sql_like [] t \<longleftrightarrow> t = []"
| "sql_like (p # ps) t \<longleftrightarrow>
     (if p = CHR ''%'' then sql_like ps t \<or> (case t of [] \<Rightarrow> False | _ # t' \<Rightarrow> sql_like (p # ps) t')
      else if p = CHR ''_'' then (case t of [] \<Rightarrow> False | _ # t' \<Rightarrow> sql_like ps t')
      else if p = CHR 0x5C \<and> ps \<noteq> [] then (case t of [] \<Rightarrow> False | c # t' \<Rightarrow> c = hd ps \<and> sql_like (tl ps) t')
      else (case t of [] \<Rightarrow> False | c # t' \<Rightarrow> c = p \<and> sql_like ps t'))"

text \<open>A full address, or a bare name when exactly one address starts with it.\<close>

definition find_login :: "string \<Rightarrow> hub \<Rightarrow> user option" where
  "find_login identifier h =
     (case tget usr_email identifier (h_users h) of
        Some u \<Rightarrow> Some u
      | None \<Rightarrow>
          (if CHR ''@'' \<in> set identifier then None
           else case filter (\<lambda>u. sql_like (identifier @ ''@%'') (usr_email u)) (h_users h) of
             [u] \<Rightarrow> Some u
           | _ \<Rightarrow> None))"

definition authenticate :: "env \<Rightarrow> crypto \<Rightarrow> string \<Rightarrow> string \<Rightarrow> hub \<Rightarrow> user option \<times> hub" where
  "authenticate E K email password h =
     (case find_login (py_strip (py_lower email)) h of
        None \<Rightarrow> (None, h)
      | Some u \<Rightarrow>
          (if \<not> usr_is_active u \<or> \<not> cy_verify_password K (usr_password_hash u) password then (None, h)
           else (Some (u\<lparr>usr_last_login_at := Some (env_now E)\<rparr>),
                 modify_user (usr_id u) (\<lambda>u. u\<lparr>usr_last_login_at := Some (env_now E)\<rparr>) h)))"

section \<open>The session log\<close>

text \<open>A row is written when a cookie or a token is issued; a duplicate \<open>jti\<close> is swallowed.\<close>

definition session_record ::
  "env \<Rightarrow> string \<Rightarrow> string \<Rightarrow> string \<Rightarrow> int \<Rightarrow> string option \<Rightarrow> string option \<Rightarrow> hub \<Rightarrow> string option \<times> hub" where
  "session_record E uid kind jti ttl ua ip h =
     (if tget ses_jti jti (h_user_sessions h) \<noteq> None \<or> load_user uid h = None then (None, h)
      else
        let i = new_id (env_ulid E) ''sess'' (h_ulid h) in
        (Some i, h\<lparr>h_ulid := Suc (h_ulid h), h_user_sessions := tadd
           \<lparr>ses_id = i, ses_user_id = uid, ses_kind = kind, ses_jti = jti, ses_issued_at = env_now E,
            ses_last_seen_at = env_now E, ses_expires_at = env_now E + secs ttl, ses_revoked_at = None,
            ses_user_agent = (case ua of None \<Rightarrow> None | Some t \<Rightarrow> if take 255 t = [] then None else Some (take 255 t)),
            ses_ip = ip\<rparr> (h_user_sessions h)\<rparr>))"

definition revoke_where :: "env \<Rightarrow> (user_session \<Rightarrow> bool) \<Rightarrow> hub \<Rightarrow> nat \<times> hub" where
  "revoke_where E P h =
     (let hit = (\<lambda>r. P r \<and> ses_revoked_at r = None) in
      (length (filter hit (h_user_sessions h)),
       h\<lparr>h_user_sessions := map (\<lambda>r. if hit r then r\<lparr>ses_revoked_at := Some (env_now E)\<rparr> else r) (h_user_sessions h)\<rparr>))"

definition revoke_one :: "env \<Rightarrow> string \<Rightarrow> hub \<Rightarrow> bool \<times> hub" where
  "revoke_one E jti h = (let (n, h') = revoke_where E (\<lambda>r. ses_jti r = jti) h in (0 < n, h'))"

definition revoke_all_for_user :: "env \<Rightarrow> string \<Rightarrow> hub \<Rightarrow> nat \<times> hub" where
  "revoke_all_for_user E uid h = revoke_where E (\<lambda>r. ses_user_id r = uid) h"

definition list_active_for_user :: "string \<Rightarrow> hub \<Rightarrow> pydict list" where
  "list_active_for_user uid h =
     map (\<lambda>r. [(''id'', VStr (ses_id r)), (''kind'', VStr (ses_kind r)), (''issued_at'', VStr (iso_z (ses_issued_at r))),
               (''expires_at'', VStr (iso_z (ses_expires_at r))), (''user_agent'', of_opt_str (ses_user_agent r)),
               (''ip'', of_opt_str (ses_ip r))])
       (sort_key (\<lambda>r. - ses_issued_at r)
         (filter (\<lambda>r. ses_user_id r = uid \<and> ses_revoked_at r = None) (h_user_sessions h)))"

definition revoke_all_tokens :: "env \<Rightarrow> string \<Rightarrow> hub \<Rightarrow> bool \<times> hub" where
  "revoke_all_tokens E i h =
     (case load_user i h of
        None \<Rightarrow> (False, h)
      | Some _ \<Rightarrow> (True, snd (revoke_all_for_user E i
                    (modify_user i (\<lambda>u. u\<lparr>usr_tokens_valid_after := env_now E, usr_updated_at := env_now E\<rparr>) h))))"

section \<open>Tokens\<close>

definition ACCESS_TOKEN_TTL_SECONDS :: int where
  "ACCESS_TOKEN_TTL_SECONDS = 60 * 60 * 8"

definition REFRESH_TOKEN_TTL_SECONDS :: int where
  "REFRESH_TOKEN_TTL_SECONDS = 60 * 60 * 24 * 14"

text \<open>The claims of a JWT and \<open>int(dt.timestamp())\<close>, whole seconds.\<close>

record claims =
  cl_sub :: "string option"
  cl_kind :: "string option"
  cl_iat :: "int option"
  cl_exp :: "int option"
  cl_jti :: "string option"

definition epoch :: "instant \<Rightarrow> int" where
  "epoch t = t div secs 1"

definition issue_token :: "env \<Rightarrow> string \<Rightarrow> string \<Rightarrow> string \<Rightarrow> int \<Rightarrow> string option \<Rightarrow> string option \<Rightarrow> hub \<Rightarrow> claims \<times> hub" where
  "issue_token E jti uid kind ttl ua ip h =
     (\<lparr>cl_sub = Some uid, cl_kind = Some kind, cl_iat = Some (epoch (env_now E)),
       cl_exp = Some (epoch (env_now E + secs ttl)), cl_jti = Some jti\<rparr>,
      snd (session_record E uid (if kind = ''access'' then ''access'' else ''refresh'') jti ttl ua ip h))"

definition issue_access_token :: "env \<Rightarrow> string \<Rightarrow> string \<Rightarrow> string option \<Rightarrow> string option \<Rightarrow> hub \<Rightarrow> claims \<times> hub" where
  "issue_access_token E jti uid ua ip h = issue_token E jti uid ''access'' ACCESS_TOKEN_TTL_SECONDS ua ip h"

definition issue_refresh_token :: "env \<Rightarrow> string \<Rightarrow> string \<Rightarrow> string option \<Rightarrow> string option \<Rightarrow> hub \<Rightarrow> claims \<times> hub" where
  "issue_refresh_token E jti uid ua ip h = issue_token E jti uid ''refresh'' REFRESH_TOKEN_TTL_SECONDS ua ip h"

text \<open>\<open>decode_token\<close> after PyJWT has checked signature, audience and expiry: only the kind is left.\<close>

definition decode_token :: "string \<Rightarrow> claims option \<Rightarrow> claims option" where
  "decode_token kind decoded =
     (case decoded of None \<Rightarrow> None | Some c \<Rightarrow> if cl_kind c = Some kind then Some c else None)"

section \<open>Authenticating a request\<close>

text \<open>The cookie session and the decoded bearer token of a request.\<close>

record web_session =
  ws_user_id :: "string option"
  ws_sid :: "string option"
  ws_iat :: "int option"
  ws_active_org_id :: "string option"

definition empty_session :: web_session where
  "empty_session = \<lparr>ws_user_id = None, ws_sid = None, ws_iat = None, ws_active_org_id = None\<rparr>"

definition signed_in :: "web_session \<Rightarrow> bool" where
  "signed_in w \<longleftrightarrow> (case ws_user_id w of None \<Rightarrow> False | Some i \<Rightarrow> i \<noteq> [])"

definition is_jti_revoked :: "string option \<Rightarrow> hub \<Rightarrow> bool" where
  "is_jti_revoked jti h \<longleftrightarrow>
     (case jti of
        None \<Rightarrow> False
      | Some j \<Rightarrow> j \<noteq> [] \<and> (case tget ses_jti j (h_user_sessions h) of None \<Rightarrow> False | Some r \<Rightarrow> ses_revoked_at r \<noteq> None))"

definition resolve_user_and_iat :: "web_session \<Rightarrow> claims option \<Rightarrow> hub \<Rightarrow> (user \<times> int option) option" where
  "resolve_user_and_iat w bearer h =
     (if signed_in w then
        (case load_user (the (ws_user_id w)) h of
           None \<Rightarrow> None
         | Some u \<Rightarrow> if is_jti_revoked (ws_sid w) h then None else Some (u, ws_iat w))
      else case decode_token ''access'' bearer of
        None \<Rightarrow> None
      | Some c \<Rightarrow>
          (case load_user (case cl_sub c of None \<Rightarrow> [] | Some i \<Rightarrow> i) h of
             None \<Rightarrow> None
           | Some u \<Rightarrow> if is_jti_revoked (cl_jti c) h then None else Some (u, cl_iat c)))"

definition resolve_user :: "web_session \<Rightarrow> claims option \<Rightarrow> hub \<Rightarrow> user option \<times> web_session" where
  "resolve_user w bearer h =
     (let dropped = (if signed_in w then empty_session else w) in
      case resolve_user_and_iat w bearer h of
        None \<Rightarrow> (None, dropped)
      | Some (u, iat) \<Rightarrow>
          (if \<not> usr_is_active u then (None, dropped)
           else case iat of
             Some t \<Rightarrow> (if t < epoch (usr_tokens_valid_after u) then (None, dropped) else (Some u, w))
           | None \<Rightarrow> (Some u, w)))"

section \<open>Memberships and the active organization\<close>

record membership_view =
  mv_membership_id :: string
  mv_organization_id :: string
  mv_org_role :: string
  mv_slug :: string
  mv_name :: string
  mv_status :: string

definition memberships_for_user :: "string \<Rightarrow> hub \<Rightarrow> membership_view list" where
  "memberships_for_user uid h =
     (if uid = [] then []
      else sort_key (\<lambda>v. (mv_org_role v \<noteq> ''owner'', mv_name v))
        (concat (map (\<lambda>m. case tget org_id (om_organization_id m) (h_organizations h) of
             None \<Rightarrow> []
           | Some g \<Rightarrow> [\<lparr>mv_membership_id = om_id m, mv_organization_id = om_organization_id m, mv_org_role = om_org_role m,
                        mv_slug = org_slug g, mv_name = org_name g, mv_status = org_status g\<rparr>])
           (filter (\<lambda>m. om_user_id m = uid) (h_org_memberships h)))))"

definition is_member :: "string \<Rightarrow> string \<Rightarrow> hub \<Rightarrow> bool" where
  "is_member uid oid h \<longleftrightarrow> uid \<noteq> [] \<and> oid \<noteq> []
     \<and> list_ex (\<lambda>m. om_user_id m = uid \<and> om_organization_id m = oid) (h_org_memberships h)"

definition resolve_active_org :: "string \<Rightarrow> string option \<Rightarrow> hub \<Rightarrow> string option" where
  "resolve_active_org uid session_org h =
     (case memberships_for_user uid h of
        [] \<Rightarrow> None
      | primary # rest \<Rightarrow>
          (let ms = primary # rest;
               kept = (case session_org of
                         None \<Rightarrow> None
                       | Some o' \<Rightarrow> if o' = [] then None else find (\<lambda>v. mv_organization_id v = o') ms)
           in case kept of
                Some v \<Rightarrow> Some (if mv_status v \<noteq> ''closed'' then mv_organization_id v else mv_organization_id primary)
              | None \<Rightarrow> Some (mv_organization_id primary)))"

text \<open>\<open>_bind_tenant_scope\<close>: \<open>failing\<close> is whether the lookup of the memberships raises; the exception is logged and
  the request goes on with the scope it had.\<close>

definition bind_tenant_scope :: "bool \<Rightarrow> user \<Rightarrow> web_session \<Rightarrow> ctx \<times> hub \<Rightarrow> web_session \<times> ctx" where
  "bind_tenant_scope failing u w s =
     (if failing then (w, fst s)
      else let oid = resolve_active_org (usr_id u) (ws_active_org_id w) (snd s)
      in (if oid = None then w else w\<lparr>ws_active_org_id := oid\<rparr>, snd (set_org oid (fst s))))"

text \<open>The two role decorators: who may enter, and the scope the view runs under.\<close>

datatype gate = AuthRequired | Forbidden string | Entered user

definition role_required ::
  "string list \<Rightarrow> bool \<Rightarrow> web_session \<Rightarrow> claims option \<Rightarrow> ctx \<times> hub \<Rightarrow> gate \<times> web_session \<times> ctx" where
  "role_required allowed failing w bearer s =
     (case resolve_user w bearer (snd s) of
        (None, w') \<Rightarrow> (AuthRequired, w', fst s)
      | (Some u, w') \<Rightarrow>
          (if usr_role u \<notin> set allowed then (Forbidden (usr_role u), w', fst s)
           else let (w2, c) = bind_tenant_scope failing u w' s in (Entered u, w2, c\<lparr>cx_user := Some u\<rparr>)))"

section \<open>Lemmas\<close>

interpretation usr_tbl: row_store usr_id load_user put_user modify_user h_users
  "\<lambda>h. pk_ok usr_id (h_users h)"
  by unfold_locales
    (auto simp: load_user_def put_user_def modify_user_def pk_ok_get pk_ok_tadd pk_ok_tupd
      tget_None_iff tadd_def[symmetric] set_tupd, simp_all add: tadd_def tupd_def)

lemma load_modify:
  assumes "\<And>u. usr_id (f u) = usr_id u"
  shows "load_user j (modify_user i f h) = (if j = i then map_option f (load_user j h) else load_user j h)"
  using assms by (simp add: load_user_def modify_user_def tget_tupd)

lemma load_user_id: "load_user i h = Some u \<Longrightarrow> usr_id u = i"
  using tget_SomeD [of usr_id i "h_users h" u] by (simp add: load_user_def)

lemma revoked_modify [simp]: "is_jti_revoked j (modify_user i f h) = is_jti_revoked j h"
  by (simp add: is_jti_revoked_def modify_user_def split: option.splits)

text \<open>The credential a request presents: the user it names, the session it belongs to and its issue time.\<close>

definition credential :: "web_session \<Rightarrow> claims option \<Rightarrow> (string \<times> string option \<times> int option) option" where
  "credential w bearer =
     (if signed_in w then Some (the (ws_user_id w), ws_sid w, ws_iat w)
      else map_option (\<lambda>c. (case cl_sub c of None \<Rightarrow> [] | Some i \<Rightarrow> i, cl_jti c, cl_iat c)) (decode_token ''access'' bearer))"

lemma resolve_user_iff:
  "fst (resolve_user w bearer h) = Some u \<longleftrightarrow>
     (\<exists>jti iat. credential w bearer = Some (usr_id u, jti, iat) \<and> load_user (usr_id u) h = Some u \<and> usr_is_active u
        \<and> \<not> is_jti_revoked jti h \<and> (\<forall>t. iat = Some t \<longrightarrow> epoch (usr_tokens_valid_after u) \<le> t))"
proof (cases "credential w bearer")
  case None
  then have "resolve_user_and_iat w bearer h = None"
    by (auto simp: credential_def resolve_user_and_iat_def split: if_splits option.splits)
  then show ?thesis using None by (simp add: resolve_user_def)
next
  case (Some k)
  obtain i jti iat where k: "k = (i, jti, iat)" by (cases k)
  have r: "resolve_user_and_iat w bearer h =
      (case load_user i h of None \<Rightarrow> None | Some u \<Rightarrow> if is_jti_revoked jti h then None else Some (u, iat))"
    using Some k by (auto simp: credential_def resolve_user_and_iat_def split: if_splits option.splits)
  show ?thesis
  proof (cases "load_user i h")
    case None
    then show ?thesis using Some k r by (auto simp: resolve_user_def)
  next
    case v: (Some v)
    have id: "usr_id v = i" using v by (rule load_user_id)
    let ?ok = "usr_is_active v \<and> \<not> is_jti_revoked jti h \<and> (\<forall>t. iat = Some t \<longrightarrow> epoch (usr_tokens_valid_after v) \<le> t)"
    have e: "fst (resolve_user w bearer h) = (if ?ok then Some v else None)"
      by (cases iat) (simp_all add: resolve_user_def r v Let_def not_less)
    have cr: "credential w bearer = Some (i, jti, iat)" using Some k by (simp only:)
    show ?thesis
    proof
      assume "fst (resolve_user w bearer h) = Some u"
      then have "?ok" and "v = u" using e by (simp_all split: if_splits)
      then show "\<exists>jti iat. credential w bearer = Some (usr_id u, jti, iat) \<and> load_user (usr_id u) h = Some u \<and> usr_is_active u
          \<and> \<not> is_jti_revoked jti h \<and> (\<forall>t. iat = Some t \<longrightarrow> epoch (usr_tokens_valid_after u) \<le> t)"
        using cr v id by blast
    next
      assume "\<exists>jti iat. credential w bearer = Some (usr_id u, jti, iat) \<and> load_user (usr_id u) h = Some u \<and> usr_is_active u
          \<and> \<not> is_jti_revoked jti h \<and> (\<forall>t. iat = Some t \<longrightarrow> epoch (usr_tokens_valid_after u) \<le> t)"
      then obtain jti' iat' where a: "credential w bearer = Some (usr_id u, jti', iat')" "load_user (usr_id u) h = Some u"
        "usr_is_active u" "\<not> is_jti_revoked jti' h" "\<forall>t. iat' = Some t \<longrightarrow> epoch (usr_tokens_valid_after u) \<le> t" by blast
      have eqs: "usr_id u = i" "jti' = jti" "iat' = iat" using a(1) cr by simp_all
      have "u = v" using a(2) v by (simp only: eqs option.inject)
      then have "?ok" using a(3-5) by (simp only: eqs) blast
      then show "fst (resolve_user w bearer h) = Some u" using e \<open>u = v\<close> by simp
    qed
  qed
qed

lemma memberships_from:
  assumes "v \<in> set (memberships_for_user uid h)"
  shows "\<exists>m \<in> set (h_org_memberships h). om_user_id m = uid \<and> om_organization_id m = mv_organization_id v
    \<and> om_id m = mv_membership_id v"
  using assms by (auto simp: memberships_for_user_def split: if_splits option.splits)

lemma active_org_member:
  assumes "resolve_active_org uid so h = Some oid"
  shows "\<exists>v \<in> set (memberships_for_user uid h). mv_organization_id v = oid"
proof -
  obtain p rest where ms: "memberships_for_user uid h = p # rest"
    using assms by (auto simp: resolve_active_org_def split: list.splits)
  let ?kept = "case so of None \<Rightarrow> None | Some o' \<Rightarrow> if o' = [] then None else find (\<lambda>v. mv_organization_id v = o') (p # rest)"
  show ?thesis
  proof (cases ?kept)
    case None
    then show ?thesis using assms unfolding resolve_active_org_def ms Let_def by simp
  next
    case (Some v)
    then have "v \<in> set (p # rest)" by (auto simp: find_Some_iff split: option.splits if_splits)
    moreover have "oid = (if mv_status v \<noteq> ''closed'' then mv_organization_id v else mv_organization_id p)"
      using assms Some unfolding resolve_active_org_def ms Let_def by simp
    ultimately show ?thesis unfolding ms by auto
  qed
qed

lemma membership_listed:
  assumes "m \<in> set (h_org_memberships h)" and "om_user_id m = uid" and "uid \<noteq> []"
    and "tget org_id (om_organization_id m) (h_organizations h) \<noteq> None"
  shows "memberships_for_user uid h \<noteq> []"
proof -
  have "\<exists>v \<in> set (memberships_for_user uid h). mv_organization_id v = om_organization_id m"
    using assms by (force simp: memberships_for_user_def)
  then show ?thesis by auto
qed

lemma unresolved_no_membership:
  assumes "resolve_active_org uid so h = None"
  shows "uid = [] \<or> (\<forall>m \<in> set (h_org_memberships h). om_user_id m = uid \<longrightarrow> tget org_id (om_organization_id m) (h_organizations h) = None)"
proof -
  have "memberships_for_user uid h = []"
    using assms by (auto simp: resolve_active_org_def Let_def split: list.splits option.splits)
  then show ?thesis using membership_listed [of _ h uid] by blast
qed

lemma no_memberships:
  "(\<forall>m \<in> set (h_org_memberships h). om_user_id m \<noteq> uid) \<Longrightarrow> memberships_for_user uid h = []"
  using memberships_from [of _ uid h] by (cases "memberships_for_user uid h") force+

lemma role_required_Entered:
  assumes "role_required allowed failing w bearer (c, h) = (Entered u, w', c')"
  shows "fst (resolve_user w bearer h) = Some u" and "usr_role u \<in> set allowed"
    and "\<exists>so. cx_org c' = (if failing then cx_org c else resolve_active_org (usr_id u) so h)"
    and "cx_bypass c' = cx_bypass c" and "cx_in_filter c' = cx_in_filter c"
proof -
  obtain x w1 where ru: "resolve_user w bearer h = (x, w1)" by (cases "resolve_user w bearer h")
  have x: "x = Some u" "usr_role u \<in> set allowed"
    and b: "c' = (if failing then c else snd (set_org (resolve_active_org (usr_id u) (ws_active_org_id w1) h) c))\<lparr>cx_user := Some u\<rparr>"
    using assms ru by (auto simp: role_required_def bind_tenant_scope_def Let_def split: option.splits if_splits)
  show "fst (resolve_user w bearer h) = Some u" "usr_role u \<in> set allowed" using ru x by simp_all
  show "\<exists>so. cx_org c' = (if failing then cx_org c else resolve_active_org (usr_id u) so h)"
    using b by (auto simp: set_org_def)
  show "cx_bypass c' = cx_bypass c" "cx_in_filter c' = cx_in_filter c" using b by (simp_all add: set_org_def)
qed

lemma unscoped_sees_all:
  assumes "cx_org c = None"
  shows "fst (select_scoped E t org_of rows (c, h)) = rows h"
  using assms by (simp add: fst_select_scoped fst_add_tenant_filter visible_def)

section \<open>Consistent accounts\<close>

definition account_ok :: "user \<Rightarrow> bool" where
  "account_ok u \<longleftrightarrow> usr_role u \<in> set ALL_ROLES \<and> (usr_is_admin u \<longleftrightarrow> usr_role u \<noteq> ''viewer'')
     \<and> (usr_is_super_admin u \<longleftrightarrow> usr_role u = ''super_admin'') \<and> py_strip (usr_email u) = usr_email u"

definition accounts_ok :: "hub \<Rightarrow> bool" where
  "accounts_ok h \<longleftrightarrow> distinct (map usr_email (h_users h)) \<and> (\<forall>u \<in> set (h_users h). account_ok u)"

text \<open>The operations on accounts.\<close>

inductive account_step :: "hub \<Rightarrow> hub \<Rightarrow> bool" where
  created: "create_user E K email pw name role h = Inr (u, h') \<Longrightarrow> account_step h h'"
| role_set: "update_user_role E i role h = Inr (r, h') \<Longrightarrow> account_step h h'"
| deactivated: "deactivate_user E i h = (b, h') \<Longrightarrow> account_step h h'"
| renamed: "update_user_display_name E i name h = Inr (r, h') \<Longrightarrow> account_step h h'"
| password: "change_own_password E K i cur new h = Inr h' \<Longrightarrow> account_step h h'"
| signed: "authenticate E K email pw h = (r, h') \<Longrightarrow> account_step h h'"
| revoked: "revoke_all_tokens E i h = (b, h') \<Longrightarrow> account_step h h'"
| logged: "session_record E uid kind jti ttl ua ip h = (r, h') \<Longrightarrow> account_step h h'"

lemma accounts_ok_modify:
  assumes "accounts_ok h" and "\<And>u. usr_email (f u) = usr_email u" and "\<And>u. account_ok u \<Longrightarrow> account_ok (f u)"
  shows "accounts_ok (modify_user i f h)"
proof -
  have "map usr_email (tupd usr_id i f (h_users h)) = map usr_email (h_users h)" using assms(2) by (simp add: tupd_def)
  then show ?thesis using assms(1,3) by (auto simp: accounts_ok_def modify_user_def set_tupd)
qed

lemma accounts_ok_sessions: "h_users h' = h_users h \<Longrightarrow> accounts_ok h' = accounts_ok h"
  by (simp add: accounts_ok_def)

lemma create_user_ok:
  assumes "create_user E K email pw name role h = Inr (u, h')" and "accounts_ok h"
  shows "accounts_ok h'"
  using assms
  by (auto simp: create_user_def Let_def accounts_ok_def put_user_def account_ok_def tget_None_iff tadd_def
      split: if_splits)

lemma account_step_ok:
  assumes "account_step h h'" and "accounts_ok h"
  shows "accounts_ok h'"
  using assms
proof (induction rule: account_step.induct)
  case (created E K email pw name role h u h')
  then show ?case using create_user_ok by blast
next
  case (role_set E i role h r h')
  then show ?case
    by (auto simp: update_user_role_def Let_def account_ok_def split: if_splits option.splits intro!: accounts_ok_modify)
next
  case (deactivated E i h b h')
  then show ?case
    by (auto simp: deactivate_user_def account_ok_def split: option.splits intro!: accounts_ok_modify)
next
  case (renamed E i name h r h')
  then show ?case
    by (auto simp: update_user_display_name_def Let_def account_ok_def split: if_splits option.splits intro!: accounts_ok_modify)
next
  case (password E K i cur new h h')
  then show ?case
    by (auto simp: change_own_password_def account_ok_def split: if_splits option.splits intro!: accounts_ok_modify)
next
  case (signed E K email pw h r h')
  then show ?case
    by (auto simp: authenticate_def account_ok_def split: if_splits option.splits intro!: accounts_ok_modify)
next
  case (revoked E i h b h')
  let ?f = "\<lambda>u. u\<lparr>usr_tokens_valid_after := env_now E, usr_updated_at := env_now E\<rparr>"
  have "accounts_ok (modify_user i ?f h)"
    using revoked(2) by (rule accounts_ok_modify) (simp_all add: account_ok_def)
  moreover have "h_users h' = h_users (modify_user i ?f h) \<or> h' = h"
    using revoked(1) by (auto simp: revoke_all_tokens_def revoke_all_for_user_def revoke_where_def Let_def split: option.splits)
  ultimately show ?case using accounts_ok_sessions revoked(2) by blast
next
  case (logged E uid kind jti ttl ua ip h r h')
  then show ?case using accounts_ok_sessions [of h' h] by (auto simp: session_record_def Let_def split: if_splits)
qed

section \<open>Properties\<close>

text \<open>C15: Accounts stay consistent under every sequence of account operations: addresses are unique and
  trimmed, roles are known ones, and the two legacy flags always agree with the role.\<close>

theorem accounts_invariant:
  assumes "account_step\<^sup>*\<^sup>* h h'" and "accounts_ok h"
  shows "distinct (map usr_email (h_users h')) \<and> (\<forall>u \<in> set (h_users h'). account_ok u)"
proof -
  from assms have "accounts_ok h'" by (induction rule: rtranclp_induct) (auto intro: account_step_ok)
  then show ?thesis by (simp add: accounts_ok_def)
qed

text \<open>C13: A password change logs everyone out, up to the second: afterwards a credential of that user gets
  in exactly when it carries no issue time or was issued in the second of the change or later; in
  particular one issued earlier within the same second, before the change, is still accepted.\<close>

theorem password_change_cutoff:
  assumes "change_own_password E K i cur new h = Inr h'" and "credential w bearer = Some (i, jti, iat)"
    and "load_user i h = Some u" and "usr_is_active u" and "\<not> is_jti_revoked jti h"
  shows "(\<exists>u'. fst (resolve_user w bearer h') = Some u') \<longleftrightarrow> (\<forall>t. iat = Some t \<longrightarrow> epoch (env_now E) \<le> t)"
proof -
  let ?f = "\<lambda>u. u\<lparr>usr_password_hash := cy_hash_password K new, usr_updated_at := env_now E,
                   usr_tokens_valid_after := env_now E\<rparr>"
  have h': "h' = modify_user i ?f h" using assms(1,3) by (auto simp: change_own_password_def split: if_splits)
  have l: "load_user i h' = Some (?f u)" using assms(3) by (simp add: h' load_modify)
  have id: "usr_id u = i" using assms(3) by (rule load_user_id)
  have r: "\<not> is_jti_revoked jti h'" using assms(5) by (simp add: h')
  show ?thesis
  proof
    assume "\<exists>u'. fst (resolve_user w bearer h') = Some u'"
    then obtain u' where "usr_id u' = i" "load_user i h' = Some u'" "\<forall>t. iat = Some t \<longrightarrow> epoch (usr_tokens_valid_after u') \<le> t"
      using assms(2) unfolding resolve_user_iff by auto
    then show "\<forall>t. iat = Some t \<longrightarrow> epoch (env_now E) \<le> t" using l by auto
  next
    assume t: "\<forall>t. iat = Some t \<longrightarrow> epoch (env_now E) \<le> t"
    have "fst (resolve_user w bearer h') = Some (?f u)"
      unfolding resolve_user_iff using assms(2,4) l id r t by simp
    then show "\<exists>u'. fst (resolve_user w bearer h') = Some u'" by blast
  qed
qed

text \<open>C14: The scope a signed-in request runs under is never wider than its user's memberships, whatever the
  session claims: the view is entered only by an active user with an allowed role; an organization that is
  bound is one the user is a member of, and none is bound only for a user without a membership in any organization.
  The one exception is the fallback of the code: when the lookup itself raises, the request keeps the
  scope it started with.\<close>

theorem entered_scope_is_membership:
  assumes "role_required allowed failing w bearer (c, h) = (Entered u, w', c')"
  shows "load_user (usr_id u) h = Some u \<and> usr_is_active u \<and> usr_role u \<in> set allowed
    \<and> (if failing then cx_org c' = cx_org c
       else case cx_org c' of
           None \<Rightarrow> usr_id u = [] \<or> (\<forall>m \<in> set (h_org_memberships h).
             om_user_id m = usr_id u \<longrightarrow> tget org_id (om_organization_id m) (h_organizations h) = None)
         | Some oid \<Rightarrow> (\<exists>m \<in> set (h_org_memberships h). om_user_id m = usr_id u \<and> om_organization_id m = oid))"
proof -
  obtain so where so: "cx_org c' = (if failing then cx_org c else resolve_active_org (usr_id u) so h)"
    using role_required_Entered(3) [OF assms] by blast
  have "load_user (usr_id u) h = Some u \<and> usr_is_active u"
    using role_required_Entered(1) [OF assms] by (auto simp: resolve_user_iff)
  moreover have "\<exists>m \<in> set (h_org_memberships h). om_user_id m = usr_id u \<and> om_organization_id m = oid"
    if nf: "\<not> failing" and oid: "cx_org c' = Some oid" for oid
  proof -
    obtain v where "v \<in> set (memberships_for_user (usr_id u) h)" "mv_organization_id v = oid"
      using active_org_member [of "usr_id u" so h oid] so nf oid by auto
    then show ?thesis using memberships_from [of v "usr_id u" h] by auto
  qed
  moreover have "usr_id u = [] \<or> (\<forall>m \<in> set (h_org_memberships h).
      om_user_id m = usr_id u \<longrightarrow> tget org_id (om_organization_id m) (h_organizations h) = None)"
    if "\<not> failing" "cx_org c' = None"
    using unresolved_no_membership [of "usr_id u" so h] so that by simp
  ultimately show ?thesis using role_required_Entered(2) [OF assms] so by (auto split: option.splits)
qed

section \<open>Witnesses\<close>

text \<open>Hashing that the laws of Argon2 hold for: the hash of a password verifies exactly that password.\<close>

definition demo_crypto :: crypto where
  "demo_crypto = \<lparr>cy_sha256 = (\<lambda>s. s), cy_hash_password = (\<lambda>p. p), cy_verify_password = (\<lambda>h p. h = p)\<rparr>"

definition account_user :: "string \<Rightarrow> string \<Rightarrow> user" where
  "account_user i role = \<lparr>usr_id = i, usr_email = i @ ''@example.net'', usr_password_hash = ''oldpassword'', usr_display_name = i,
     usr_is_active = True, usr_is_admin = (role \<noteq> ''viewer''), usr_is_super_admin = (role = ''super_admin''), usr_role = role,
     usr_tokens_valid_after = 0, usr_created_at = 0, usr_updated_at = 0, usr_last_login_at = None\<rparr>"

definition demo_cookie :: "string \<Rightarrow> int \<Rightarrow> string option \<Rightarrow> web_session" where
  "demo_cookie i iat oid = \<lparr>ws_user_id = Some i, ws_sid = Some ''sid'', ws_iat = Some iat, ws_active_org_id = oid\<rparr>"

definition account_org :: "string \<Rightarrow> organization" where
  "account_org i = \<lparr>org_id = i, org_name = i, org_slug = i, org_status = ''active'', org_plan = ''free'',
     org_is_self_hosted_default = False, org_max_devices = None, org_max_users = None, org_owner_user_id = None,
     org_created_at = 0, org_updated_at = 0\<rparr>"

definition account_hub :: hub where
  "account_hub = empty_hub\<lparr>h_users := [account_user ''u1'' ''admin'', account_user ''u2'' ''viewer''],
     h_organizations := [account_org ''org_a'', account_org ''org_b''],
     h_org_memberships := [\<lparr>om_id = ''om1'', om_organization_id = ''org_a'', om_user_id = ''u1'', om_org_role = ''member'', om_created_at = 0\<rparr>]\<rparr>"

theorem accounts_invariant_witness:
  "\<exists>h'. account_step\<^sup>*\<^sup>* account_hub h' \<and> length (h_users h') = 3 \<and> distinct (map usr_email (h_users h'))"
proof -
  have "case create_user scope_env demo_crypto '' New@example.net'' ''pw'' [] ''operator'' account_hub of
      Inl _ \<Rightarrow> False | Inr (u, h') \<Rightarrow> length (h_users h') = 3" by code_simp
  then obtain u h' where c: "create_user scope_env demo_crypto '' New@example.net'' ''pw'' [] ''operator'' account_hub = Inr (u, h')"
    and l: "length (h_users h') = 3" by (auto split: sum.splits)
  have "account_step\<^sup>*\<^sup>* account_hub h'" using account_step.created [OF c] by (rule r_into_rtranclp)
  moreover have "accounts_ok account_hub" by code_simp
  ultimately show ?thesis using accounts_invariant [of account_hub h'] l by blast
qed

theorem password_change_cutoff_witness:
  "\<exists>h'. change_own_password (scope_env\<lparr>env_now := 1500000\<rparr>) demo_crypto ''u1'' ''oldpassword'' ''newpassword'' account_hub = Inr h'
     \<and> (\<exists>u. fst (resolve_user (demo_cookie ''u1'' 1 None) None h') = Some u)
     \<and> \<not> (\<exists>u. fst (resolve_user (demo_cookie ''u1'' 0 None) None h') = Some u)"
proof -
  let ?E = "scope_env\<lparr>env_now := 1500000\<rparr>"
  obtain h' where h': "change_own_password ?E demo_crypto ''u1'' ''oldpassword'' ''newpassword'' account_hub = Inr h'"
    by (simp add: change_own_password_def load_user_def account_hub_def account_user_def demo_crypto_def)
  have l: "load_user ''u1'' account_hub = Some (account_user ''u1'' ''admin'')"
    by (simp add: load_user_def account_hub_def account_user_def)
  have a: "usr_is_active (account_user ''u1'' ''admin'')" by (simp add: account_user_def)
  have j: "\<not> is_jti_revoked (Some ''sid'') account_hub"
    by (simp add: is_jti_revoked_def account_hub_def empty_hub_def)
  have c: "credential (demo_cookie ''u1'' t None) None = Some (''u1'', Some ''sid'', Some t)" for t
    by (simp add: credential_def demo_cookie_def signed_in_def)
  show ?thesis
    using h' password_change_cutoff [OF h' c [of 1] l a j] password_change_cutoff [OF h' c [of 0] l a j]
    by (auto simp: epoch_def secs_def)
qed

theorem entered_scope_is_membership_witness:
  "\<exists>u w' c'. role_required ALL_ROLES False (demo_cookie ''u1'' 0 (Some ''org_b'')) None (scope_ctx None, account_hub) = (Entered u, w', c')
     \<and> cx_org c' = Some ''org_a'' \<and> (\<exists>m \<in> set (h_org_memberships account_hub). om_user_id m = usr_id u \<and> om_organization_id m = ''org_a'')"
proof -
  obtain u w' c' where r: "role_required ALL_ROLES False (demo_cookie ''u1'' 0 (Some ''org_b'')) None (scope_ctx None, account_hub)
      = (Entered u, w', c')" and o': "cx_org c' = Some ''org_a''"
    by (simp add: role_required_def resolve_user_def resolve_user_and_iat_def demo_cookie_def signed_in_def load_user_def
        account_hub_def empty_hub_def account_user_def is_jti_revoked_def epoch_def secs_def ALL_ROLES_def bind_tenant_scope_def
        resolve_active_org_def memberships_for_user_def account_org_def set_org_def Let_def)
  have "\<exists>m \<in> set (h_org_memberships account_hub). om_user_id m = usr_id u \<and> om_organization_id m = ''org_a''"
    using entered_scope_is_membership [OF r] by (simp add: o')
  then show ?thesis using r o' by blast
qed

end
