(* ===== verification/Invitations.thy ===== *)
theory Invitations
  imports Accounts
begin

text \<open>
  Single-use tokens that create or recover an account: invitations (\<open>app/services/invitations.py\<close>) and
  password resets (\<open>app/services/password_resets.py\<close>). The secret is what \<open>secrets.token_urlsafe(24)\<close> draws;
  only its SHA-256 is stored. The configuration object carries the fallback lifetimes.
\<close>

record settings =
  cfg_invitation_ttl_seconds :: int
  cfg_password_reset_ttl_seconds :: int
  cfg_enrollment_token_ttl_seconds :: int
  cfg_announce_pending_retry_after_seconds :: int
  cfg_public_base_url :: string

text \<open>A lifetime in seconds from the runtime settings, the environment or the configuration.\<close>

definition ttl_setting :: "ctx \<Rightarrow> hub \<Rightarrow> string \<Rightarrow> string \<Rightarrow> int \<Rightarrow> int" where
  "ttl_setting c h name env_var dflt =
     (case settings_get c (h_settings h) name (Some env_var) VNone of
        VNone \<Rightarrow> dflt
      | v \<Rightarrow> (case py_int v of None \<Rightarrow> dflt | Some n \<Rightarrow> n))"

section \<open>Invitations\<close>

datatype invitation_error =
    InvitationError string string
  | InvitationRefused tenant_error
  | InvitationIntegrityError

abbreviation inv_invalid :: "string \<Rightarrow> invitation_error" where
  "inv_invalid m \<equiv> InvitationError ''validation_failed'' m"

definition invitation_ttl :: "settings \<Rightarrow> ctx \<Rightarrow> hub \<Rightarrow> int" where
  "invitation_ttl cfg c h =
     ttl_setting c h ''system.invitation_ttl_seconds'' ''REBOOTER_INVITATION_TTL_SECONDS'' (cfg_invitation_ttl_seconds cfg)"

definition check_binding :: "env \<Rightarrow> pyval \<Rightarrow> string option" where
  "check_binding E b =
     (case b of
        VDict d \<Rightarrow>
          (if \<not> dhas d ''scope_type'' \<or> \<not> dhas d ''scope_id'' then Some ''each binding must have scope_type and scope_id''
           else if dget d ''scope_type'' \<notin> set (map VStr [''site'', ''group'', ''device''])
           then Some (''scope_type must be site/group/device, got '' @ py_str E (dget d ''scope_type''))
           else None)
      | _ \<Rightarrow> Some ''each binding must be a dict'')"

definition check_scope_payload :: "env \<Rightarrow> pydict option \<Rightarrow> string option" where
  "check_scope_payload E p =
     (case p of
        None \<Rightarrow> None
      | Some d \<Rightarrow>
          (if \<not> dhas d ''bindings'' then Some (''scope_payload must have '' @ quoted ''bindings'' @ '' key'')
           else case dget d ''bindings'' of
             VList bs \<Rightarrow> (case find (\<lambda>b. check_binding E b \<noteq> None) bs of None \<Rightarrow> None | Some b \<Rightarrow> check_binding E b)
           | _ \<Rightarrow> Some ''scope_payload.bindings must be a list''))"

definition invitation_obj :: "string option \<Rightarrow> bool \<Rightarrow> flush_obj" where
  "invitation_obj org m = \<lparr>fo_class = ''Invitation'', fo_org = org, fo_modified = m\<rparr>"

definition mint_invitation ::
  "env \<Rightarrow> crypto \<Rightarrow> settings \<Rightarrow> string \<Rightarrow> string \<Rightarrow> string \<Rightarrow> string option \<Rightarrow> string option \<Rightarrow> pydict option \<Rightarrow>
   ctx \<times> hub \<Rightarrow> invitation_error + (invitation \<times> string \<times> ctx \<times> hub)" where
  "mint_invitation E K cfg rnd email role issued_by note scope_payload s =
     (let addr = py_strip (py_lower email) in
      if addr = [] \<or> CHR ''@'' \<notin> set addr then Inl (inv_invalid ''valid email is required'')
      else if role \<notin> set ALL_ROLES
      then Inl (inv_invalid (''role must be one of ('' @ join_with '', '' (map quoted ALL_ROLES) @ '')''))
      else case check_scope_payload E scope_payload of
        Some m \<Rightarrow> Inl (inv_invalid m)
      | None \<Rightarrow>
          (let secret = ''inv_'' @ rnd in
           case stamp_and_guard_tenant_writes E [invitation_obj None True] [] s of
             Inl e \<Rightarrow> Inl (InvitationRefused e)
           | Inr (new, _, c, h) \<Rightarrow>
               (let row = \<lparr>inv_id = new_id (env_ulid E) ''inv'' (h_ulid h), inv_organization_id = fo_org (hd new),
                           inv_email = addr, inv_role = role, inv_token_hash = cy_sha256 K secret,
                           inv_issued_by_user_id = issued_by, inv_note = note, inv_scope_payload = scope_payload,
                           inv_expires_at = env_now E + secs (invitation_ttl cfg (fst s) (snd s)), inv_consumed_at = None,
                           inv_consumed_by_user_id = None, inv_created_at = env_now E\<rparr>
                in if inv_organization_id row = None \<or> tget inv_id (inv_id row) (h_invitations h) \<noteq> None
                     \<or> tget inv_token_hash (inv_token_hash row) (h_invitations h) \<noteq> None
                   then Inl InvitationIntegrityError
                   else Inr (row, secret, c, h\<lparr>h_invitations := tadd row (h_invitations h), h_ulid := Suc (h_ulid h)\<rparr>))))"

definition select_invitations :: "env \<Rightarrow> ctx \<times> hub \<Rightarrow> invitation list \<times> ctx \<times> hub" where
  "select_invitations E s = select_scoped E ''invitations'' inv_organization_id h_invitations s"

definition list_invitations :: "env \<Rightarrow> ctx \<times> hub \<Rightarrow> invitation list \<times> ctx \<times> hub" where
  "list_invitations E s = (let (rows, s1) = select_invitations E s in (sort_key (\<lambda>r. - inv_created_at r) rows, s1))"

definition cancel_invitation :: "env \<Rightarrow> string \<Rightarrow> ctx \<times> hub \<Rightarrow> invitation_error + (bool \<times> ctx \<times> hub)" where
  "cancel_invitation E i s =
     (let (rows, s1) = select_invitations E s in
      case tget inv_id i rows of
        None \<Rightarrow> Inr (False, s1)
      | Some r \<Rightarrow>
          (if inv_consumed_at r \<noteq> None then Inr (False, s1)
           else case stamp_and_guard_tenant_writes E [] [] s1 of
             Inl e \<Rightarrow> Inl (InvitationRefused e)
           | Inr (_, _, c, h) \<Rightarrow> Inr (True, c, h\<lparr>h_invitations := tdel inv_id i (h_invitations h)\<rparr>)))"

text \<open>The bulk form: the ids cancelled, unknown and already used; deletions happen at the flush.\<close>

fun sort_ids :: "env \<Rightarrow> string list \<Rightarrow> ctx \<times> hub \<Rightarrow> (string list \<times> string list \<times> string list) \<times> ctx \<times> hub" where
  "sort_ids E [] s = (([], [], []), s)"
| "sort_ids E (i # is) s =
     (let (rows, s1) = select_invitations E s; ((cs, us, xs), s2) = sort_ids E is s1 in
      case tget inv_id i rows of
        None \<Rightarrow> ((cs, i # us, xs), s2)
      | Some r \<Rightarrow> (if inv_consumed_at r \<noteq> None then ((cs, us, i # xs), s2) else ((i # cs, us, xs), s2)))"

definition cancel_invitations_bulk ::
  "env \<Rightarrow> string list \<Rightarrow> ctx \<times> hub \<Rightarrow> invitation_error + ((string list \<times> string list \<times> string list) \<times> ctx \<times> hub)" where
  "cancel_invitations_bulk E is s =
     (let ((cs, us, xs), s1) = sort_ids E is s in
      case stamp_and_guard_tenant_writes E [] [] s1 of
        Inl e \<Rightarrow> Inl (InvitationRefused e)
      | Inr (_, _, c, h) \<Rightarrow>
          Inr ((cs, us, xs), c, h\<lparr>h_invitations := filter (\<lambda>r. inv_id r \<notin> set cs) (h_invitations h)\<rparr>))"

definition inv_pending :: "instant \<Rightarrow> invitation \<Rightarrow> bool" where
  "inv_pending now r \<longleftrightarrow> inv_consumed_at r = None \<and> now < inv_expires_at r"

definition lookup_pending :: "env \<Rightarrow> crypto \<Rightarrow> string \<Rightarrow> ctx \<times> hub \<Rightarrow> invitation option \<times> ctx \<times> hub" where
  "lookup_pending E K token s =
     (let (rows, s1) = select_invitations E s in
      (case tget inv_token_hash (cy_sha256 K token) rows of
         None \<Rightarrow> None
       | Some r \<Rightarrow> if inv_pending (env_now E) r then Some r else None, s1))"

text \<open>The bindings of the payload are granted one by one in sessions of their own; one that raises is
  logged and skipped.\<close>

definition grant_one :: "env \<Rightarrow> string \<Rightarrow> string \<Rightarrow> pyval \<Rightarrow> ctx \<times> hub \<Rightarrow> ctx \<times> hub" where
  "grant_one E uid role b s =
     (case (dget (dict_of b) ''scope_type'', dget (dict_of b) ''scope_id'') of
        (VStr st, VStr sid) \<Rightarrow> (case grant E uid st (Some sid) role None s of Inl _ \<Rightarrow> s | Inr (_, s') \<Rightarrow> s')
      | (VStr st, VNone) \<Rightarrow> (case grant E uid st None role None s of Inl _ \<Rightarrow> s | Inr (_, s') \<Rightarrow> s')
      | _ \<Rightarrow> s)"

fun grant_all :: "env \<Rightarrow> string \<Rightarrow> string \<Rightarrow> pyval list \<Rightarrow> ctx \<times> hub \<Rightarrow> ctx \<times> hub" where
  "grant_all E uid role [] s = s"
| "grant_all E uid role (b # bs) s = grant_all E uid role bs (grant_one E uid role b s)"

definition user_error_text :: "user_error \<Rightarrow> string" where
  "user_error_text e =
     (case e of
        BadRole \<Rightarrow> ''role must be one of ('' @ join_with '', '' (map quoted ALL_ROLES) @ '')''
      | EmailTaken a \<Rightarrow> ''a user with email '' @ quoted a @ '' already exists''
      | _ \<Rightarrow> [])"

text \<open>\<open>create_user\<close> and the grants commit before the invitation is marked; a refused final flush keeps them.
  What the open session itself has added to the audit log is committed last, or lost with it.\<close>

definition session_audit :: "hub \<Rightarrow> hub \<Rightarrow> audit_event list" where
  "session_audit h h1 = drop (length (h_audit h)) (h_audit h1)"

definition redeem_invitation ::
  "env \<Rightarrow> crypto \<Rightarrow> string \<Rightarrow> string \<Rightarrow> string \<Rightarrow> ctx \<times> hub \<Rightarrow> (invitation_error + user) \<times> ctx \<times> hub" where
  "redeem_invitation E K token password display_name s =
     (if length password < 8 then (Inl (inv_invalid ''password must be at least 8 characters''), s)
      else
        let (rows, c1, h1) = select_invitations E s in
        case tget inv_token_hash (cy_sha256 K token) rows of
          None \<Rightarrow> (Inl (InvitationError ''invitation_invalid'' ''invitation token is not recognized''), c1, snd s)
        | Some r \<Rightarrow>
            (if inv_consumed_at r \<noteq> None
             then (Inl (InvitationError ''invitation_consumed'' ''invitation already used''), c1, snd s)
             else if inv_expires_at r \<le> env_now E
             then (Inl (InvitationError ''invitation_expired'' ''invitation has expired''), c1, snd s)
             else case create_user E K (inv_email r) password display_name (inv_role r) (snd s) of
               Inl e \<Rightarrow> (Inl (inv_invalid (user_error_text e)), c1, snd s)
             | Inr (u, h2) \<Rightarrow>
                 (let bindings = (case inv_scope_payload r of
                                    None \<Rightarrow> []
                                  | Some d \<Rightarrow> (case dget d ''bindings'' of VList bs \<Rightarrow> bs | _ \<Rightarrow> []));
                      (c3, h3) = grant_all E (usr_id u) (inv_role r) bindings (c1, h2)
                  in case stamp_and_guard_tenant_writes E [] [invitation_obj (inv_organization_id r) True]
                          (c3, h3\<lparr>h_audit := h_audit h3 @ session_audit (snd s) h1\<rparr>) of
                       Inl e \<Rightarrow> (Inl (InvitationRefused e), c3, h3)
                     | Inr (_, dirty, c4, h4) \<Rightarrow>
                         (Inr u, c4, h4\<lparr>h_invitations := tupd inv_token_hash (cy_sha256 K token)
                            (\<lambda>r. r\<lparr>inv_consumed_at := Some (env_now E), inv_consumed_by_user_id := Some (usr_id u),
                                   inv_organization_id := fo_org (hd dirty)\<rparr>) (h_invitations h4)\<rparr>))))"

section \<open>Password resets\<close>

definition mask_email :: "string \<Rightarrow> string" where
  "mask_email email =
     (if CHR ''@'' \<notin> set email then email
      else let (name, _, domain) = py_partition CHR ''@'' email
           in take (if length name \<le> 3 then 1 else 3) name @ ''***@'' @ domain)"

definition request_reset ::
  "env \<Rightarrow> crypto \<Rightarrow> settings \<Rightarrow> string \<Rightarrow> string option \<Rightarrow> string option \<Rightarrow> ctx \<times> hub \<Rightarrow>
   invitation_error + ((string option \<times> string) \<times> hub)" where
  "request_reset E K cfg rnd email ip s =
     (let addr = py_lower (py_strip (case email of None \<Rightarrow> [] | Some a \<Rightarrow> a)); h = snd s in
      if addr = [] \<or> CHR ''@'' \<notin> set addr then Inr ((None, mask_email addr), h)
      else case tget usr_email addr (h_users h) of
        None \<Rightarrow> Inr ((None, mask_email addr), h)
      | Some u \<Rightarrow>
          (if \<not> usr_is_active u then Inr ((None, mask_email addr), h)
           else
             let secret = ''pwr_'' @ rnd;
                 ttl = ttl_setting (fst s) h ''system.password_reset_ttl_seconds'' ''REBOOTER_PASSWORD_RESET_TTL_SECONDS''
                         (cfg_password_reset_ttl_seconds cfg);
                 row = \<lparr>pwr_id = new_id (env_ulid E) ''pwr'' (h_ulid h), pwr_user_id = usr_id u, pwr_email_snapshot = addr,
                        pwr_token_hash = cy_sha256 K secret, pwr_expires_at = env_now E + secs ttl, pwr_consumed_at = None,
                        pwr_requested_ip = ip, pwr_consumed_ip = None, pwr_created_at = env_now E\<rparr>
             in if tget pwr_token_hash (pwr_token_hash row) (h_password_resets h) \<noteq> None then Inl InvitationIntegrityError
                else Inr ((Some secret, mask_email addr),
                          h\<lparr>h_ulid := Suc (h_ulid h), h_password_resets := tadd row (h_password_resets h)\<rparr>)))"

definition consume_reset ::
  "env \<Rightarrow> crypto \<Rightarrow> string \<Rightarrow> string \<Rightarrow> string option \<Rightarrow> hub \<Rightarrow> user option \<times> hub" where
  "consume_reset E K token new_password ip h =
     (if token = [] \<or> length new_password < 8 then (None, h)
      else case tget pwr_token_hash (cy_sha256 K token) (h_password_resets h) of
        None \<Rightarrow> (None, h)
      | Some r \<Rightarrow>
          (if pwr_consumed_at r \<noteq> None \<or> pwr_expires_at r \<le> env_now E then (None, h)
           else case load_user (pwr_user_id r) h of
             None \<Rightarrow> (None, h)
           | Some u \<Rightarrow>
               (if \<not> usr_is_active u then (None, h)
                else
                  let f = (\<lambda>u. u\<lparr>usr_password_hash := cy_hash_password K new_password, usr_updated_at := env_now E,
                                 usr_tokens_valid_after := env_now E\<rparr>)
                  in (Some (f u), (modify_user (usr_id u) f h)\<lparr>h_password_resets :=
                        tupd pwr_token_hash (cy_sha256 K token)
                          (\<lambda>r. r\<lparr>pwr_consumed_at := Some (env_now E), pwr_consumed_ip := ip\<rparr>) (h_password_resets h)\<rparr>))))"

definition expire_old :: "env \<Rightarrow> hub \<Rightarrow> nat \<times> hub" where
  "expire_old E h =
     (let old = (\<lambda>r. pwr_expires_at r < env_now E - secs (7 * 86400) \<and> pwr_consumed_at r = None)
      in (length (filter old (h_password_resets h)),
          h\<lparr>h_password_resets := filter (\<lambda>r. \<not> old r) (h_password_resets h)\<rparr>))"

section \<open>The contract of a single-use token\<close>

text \<open>
  A store of single-use tokens: a successful redemption leaves the token spent, a spent token is refused,
  and no operation makes a spent token usable again. Then a token is redeemed at most once.
\<close>

locale one_time_token =
  fixes redeem :: "'x \<Rightarrow> string \<Rightarrow> 's \<Rightarrow> ('r \<times> 's) option"
    and spent :: "string \<Rightarrow> 's \<Rightarrow> bool"
    and step :: "'s \<Rightarrow> 's \<Rightarrow> bool"
    and ok :: "'s \<Rightarrow> bool"
  assumes redeem_spends: "ok s \<Longrightarrow> redeem x t s = Some (r, s') \<Longrightarrow> spent t s'"
    and redeem_ok: "ok s \<Longrightarrow> redeem x t s = Some (r, s') \<Longrightarrow> ok s'"
    and spent_refused: "spent t s \<Longrightarrow> redeem x t s = None"
    and step_spent: "ok s \<Longrightarrow> step s s' \<Longrightarrow> spent t s \<Longrightarrow> spent t s'"
    and step_ok: "ok s \<Longrightarrow> step s s' \<Longrightarrow> ok s'"
begin

lemma steps_spent: "step\<^sup>*\<^sup>* s s' \<Longrightarrow> ok s \<Longrightarrow> spent t s \<Longrightarrow> spent t s' \<and> ok s'"
  by (induction rule: rtranclp_induct) (auto intro: step_spent step_ok)

lemma single_use:
  assumes "ok s" and "redeem x t s = Some (r, s1)" and "step\<^sup>*\<^sup>* s1 s2"
  shows "redeem y t s2 = None"
  using steps_spent [OF assms(3) redeem_ok redeem_spends] assms(1,2) spent_refused by blast

end

section \<open>Frames\<close>

lemma visible_subset: "set (visible org_of flt rows) \<subseteq> set rows"
  by (auto simp: visible_def split: option.splits)

lemma select_invitations_frame:
  assumes "select_invitations E (c, h) = (rows, c', h')"
  shows "set rows \<subseteq> set (h_invitations h)" and "\<exists>a. h' = h\<lparr>h_audit := a\<rparr>" and "cx_org c' = cx_org c"
proof -
  have e: "select_scoped E ''invitations'' inv_organization_id h_invitations (c, h) = (rows, c', h')"
    using assms by (simp only: select_invitations_def)
  have "rows = fst (select_scoped E ''invitations'' inv_organization_id h_invitations (c, h))" by (simp only: e fst_conv)
  then show "set rows \<subseteq> set (h_invitations h)" using visible_subset by (simp add: fst_select_scoped)
  show "\<exists>a. h' = h\<lparr>h_audit := a\<rparr>" using select_scoped_frame(2) [OF e] by blast
  show "cx_org c' = cx_org c" using select_scoped_frame(1) [OF e] by (simp add: scope_eq_def)
qed

lemma grant_frame:
  assumes "grant E uid st sid role by_uid (c, h) = Inr (b, c', h')"
  shows "(\<exists>a rb n. h' = h\<lparr>h_audit := a, h_role_bindings := rb, h_ulid := n\<rparr>) \<and> cx_org c' = cx_org c"
proof -
  obtain rows c1 h1 where sel: "select_bindings E (c, h) = (rows, c1, h1)" by (metis prod_cases3)
  then have e: "select_scoped E ''role_bindings'' rb_organization_id h_role_bindings (c, h) = (rows, c1, h1)"
    by (simp add: select_bindings_def)
  obtain a1 where h1: "h1 = h\<lparr>h_audit := a1\<rparr>" using select_scoped_frame(2) [OF e] by blast
  have c1: "cx_org c1 = cx_org c" using select_scoped_frame(1) [OF e] by (simp add: scope_eq_def)
  have "\<exists>obs obs' new dirty h2 rb n. stamp_and_guard_tenant_writes E obs obs' (c1, h1) = Inr (new, dirty, c', h2)
      \<and> h' = h2\<lparr>h_role_bindings := rb, h_ulid := n\<rparr>"
  proof (cases "find (binding_is uid st sid) rows")
    case None
    obtain new d h2 where "stamp_and_guard_tenant_writes E [binding_obj None True] [] (c1, h1) = Inr (new, d, c', h2)"
      and "h' = h2\<lparr>h_role_bindings := tadd b (h_role_bindings h2), h_ulid := Suc (h_ulid h2)\<rparr>"
      using assms sel None by (auto simp: grant_def Let_def split: option.splits sum.splits if_splits)
    then show ?thesis by blast
  next
    case (Some x)
    obtain obs new d h2 rb where f: "stamp_and_guard_tenant_writes E [] obs (c1, h1) = Inr (new, d, c', h2)"
      and "h' = h2\<lparr>h_role_bindings := rb\<rparr>"
      using assms sel Some by (auto simp: grant_def Let_def split: option.splits sum.splits if_splits)
    then have "h' = h2\<lparr>h_role_bindings := rb, h_ulid := h_ulid h2\<rparr>" by simp
    then show ?thesis using f by blast
  qed
  then obtain obs obs' new dirty h2 rb n where f: "stamp_and_guard_tenant_writes E obs obs' (c1, h1) = Inr (new, dirty, c', h2)"
    and h': "h' = h2\<lparr>h_role_bindings := rb, h_ulid := n\<rparr>" by blast
  from flush_frame [OF f] obtain a2 where "h2 = h1\<lparr>h_audit := a2\<rparr>" and "cx_org c' = cx_org c1"
    by (auto simp: scope_eq_def)
  then show ?thesis using h1 c1 h' by auto
qed

lemma grant_one_cases:
  "grant_one E uid role b s = s \<or> (\<exists>st sid x. grant E uid st sid role None s = Inr (x, grant_one E uid role b s))"
  by (auto simp: grant_one_def split: pyval.splits sum.splits)

lemma grant_all_frame:
  assumes "grant_all E uid role bs (c, h) = (c', h')"
  shows "(\<exists>a rb n. h' = h\<lparr>h_audit := a, h_role_bindings := rb, h_ulid := n\<rparr>) \<and> cx_org c' = cx_org c"
  using assms
proof (induction bs arbitrary: c h)
  case Nil
  then have "h' = h\<lparr>h_audit := h_audit h, h_role_bindings := h_role_bindings h, h_ulid := h_ulid h\<rparr>" "c' = c" by simp_all
  then show ?case by blast
next
  case (Cons b bs)
  define s1 where "s1 = grant_one E uid role b (c, h)"
  have s1: "grant_all E uid role bs s1 = (c', h')"
    and st: "s1 = (c, h) \<or> (\<exists>st sid x. grant E uid st sid role None (c, h) = Inr (x, s1))"
    using Cons.prems grant_one_cases [of E uid role b "(c, h)"] by (simp_all add: s1_def)
  obtain c1 h1 where s1': "s1 = (c1, h1)" by (cases s1)
  have "(\<exists>a rb n. h1 = h\<lparr>h_audit := a, h_role_bindings := rb, h_ulid := n\<rparr>) \<and> cx_org c1 = cx_org c"
    using st
  proof
    assume "s1 = (c, h)"
    then have "h1 = h\<lparr>h_audit := h_audit h, h_role_bindings := h_role_bindings h, h_ulid := h_ulid h\<rparr>" "c1 = c" by (simp_all add: s1')
    then show ?thesis by blast
  qed (auto simp: s1' dest: grant_frame)
  then obtain a rb n where "h1 = h\<lparr>h_audit := a, h_role_bindings := rb, h_ulid := n\<rparr>" "cx_org c1 = cx_org c" by blast
  moreover obtain a' rb' n' where "h' = h1\<lparr>h_audit := a', h_role_bindings := rb', h_ulid := n'\<rparr>" "cx_org c' = cx_org c1"
    using Cons.IH [OF s1 [unfolded s1']] by blast
  ultimately have "h' = h\<lparr>h_audit := a', h_role_bindings := rb', h_ulid := n'\<rparr>" "cx_org c' = cx_org c" by simp_all
  then show ?case by blast
qed

text \<open>Without a bound organization a new user is granted nothing: the row would have no organization, which
  the column does not allow, and the error is swallowed.\<close>

lemma grant_unscoped:
  assumes "cx_org c = None" and "\<forall>b \<in> set (h_role_bindings h). rb_user_id b \<noteq> uid"
  shows "\<exists>e. grant E uid st sid role by_uid (c, h) = Inl e"
proof -
  obtain rows c1 h1 where sel: "select_bindings E (c, h) = (rows, c1, h1)" by (metis prod_cases3)
  then have e: "select_scoped E ''role_bindings'' rb_organization_id h_role_bindings (c, h) = (rows, c1, h1)"
    by (simp add: select_bindings_def)
  have "rows = fst (select_scoped E ''role_bindings'' rb_organization_id h_role_bindings (c, h))" by (simp only: e fst_conv)
  then have "rows = h_role_bindings h" using unscoped_sees_all [OF assms(1)] by simp
  then have none: "find (binding_is uid st sid) rows = None" using assms(2) by (auto simp: find_None_iff binding_is_def)
  have c1: "cx_org c1 = None" using select_scoped_frame(1) [OF e] assms(1) by (simp add: scope_eq_def)
  have org: "fo_org (hd new) = None" if fl: "stamp_and_guard_tenant_writes E [binding_obj None True] [] (c1, h1) = Inr (new, d, s')" for new d s'
  proof -
    obtain c2 h2 where s': "s' = (c2, h2)" by (cases s')
    obtain org where "new = [(binding_obj None True)\<lparr>fo_org := org\<rparr>]"
        "org = fo_org (binding_obj None True) \<or> fo_org (binding_obj None True) = None \<and> org = cx_org c1"
      using flush_one [of E "binding_obj None True" c1 h1 new d c2 h2] fl s' by auto
    then show ?thesis using c1 by (auto simp: binding_obj_def)
  qed
  then show ?thesis using sel none by (auto simp: grant_def Let_def split: option.splits sum.splits)
qed

lemma grant_all_unscoped:
  assumes "cx_org c = None" and "\<forall>b \<in> set (h_role_bindings h). rb_user_id b \<noteq> uid"
  shows "grant_all E uid role bs (c, h) = (c, h)"
proof (induction bs)
  case (Cons b bs)
  have "grant_one E uid role b (c, h) = (c, h)"
    using grant_one_cases [of E uid role b "(c, h)"] grant_unscoped [OF assms] by (metis sum.distinct(1))
  then show ?case using Cons by simp
qed simp

lemma create_user_frame:
  assumes "create_user E K email pw name role h = Inr (u, h')"
  shows "\<exists>us n. h' = h\<lparr>h_ulid := n, h_users := us\<rparr>" and "usr_id u = new_id (env_ulid E) ''usr'' (h_ulid h)"
  using assms by (auto simp: create_user_def Let_def put_user_def split: if_splits)

text \<open>What a redemption does when it succeeds.\<close>

lemma redeem_Inr:
  assumes "redeem_invitation E K token pw name (c, h) = (Inr u, c', h')"
  obtains r c1 h1 h2 c3 h3 new dirty h4 org where
    "r \<in> set (h_invitations h)" "inv_token_hash r = cy_sha256 K token" "inv_pending (env_now E) r" "8 \<le> length pw"
    "\<exists>a. h1 = h\<lparr>h_audit := a\<rparr>" "cx_org c1 = cx_org c"
    "create_user E K (inv_email r) pw name (inv_role r) h1 = Inr (u, h2)"
    "\<exists>bs. grant_all E (usr_id u) (inv_role r) bs (c1, h2) = (c3, h3)"
    "\<exists>a. h4 = h3\<lparr>h_audit := a\<rparr>"
    "h' = h4\<lparr>h_invitations := tupd inv_token_hash (cy_sha256 K token)
        (\<lambda>r. r\<lparr>inv_consumed_at := Some (env_now E), inv_consumed_by_user_id := Some (usr_id u),
               inv_organization_id := org\<rparr>) (h_invitations h4)\<rparr>"
proof -
  obtain rows c1 h1 where sel: "select_invitations E (c, h) = (rows, c1, h1)" by (metis prod_cases3)
  obtain r where r: "tget inv_token_hash (cy_sha256 K token) rows = Some r"
    using assms sel by (auto simp: redeem_invitation_def split: option.splits if_splits)
  have g: "8 \<le> length pw" "inv_consumed_at r = None" "env_now E < inv_expires_at r"
    using assms sel r by (auto simp: redeem_invitation_def not_less split: if_splits)
  obtain u' h2 where cu: "create_user E K (inv_email r) pw name (inv_role r) h = Inr (u', h2)"
    using assms sel r g by (auto simp: redeem_invitation_def split: sum.splits)
  define bs where "bs = (case inv_scope_payload r of None \<Rightarrow> [] | Some d \<Rightarrow> (case dget d ''bindings'' of VList bs \<Rightarrow> bs | _ \<Rightarrow> []))"
  obtain c3 h3 where ga: "grant_all E (usr_id u') (inv_role r) bs (c1, h2) = (c3, h3)" by (cases "grant_all E (usr_id u') (inv_role r) bs (c1, h2)")
  obtain new dirty h4 where fl: "stamp_and_guard_tenant_writes E [] [invitation_obj (inv_organization_id r) True]
      (c3, h3\<lparr>h_audit := h_audit h3 @ session_audit h h1\<rparr>) = Inr (new, dirty, c', h4)"
    and u: "u' = u"
    and h': "h' = h4\<lparr>h_invitations := tupd inv_token_hash (cy_sha256 K token)
        (\<lambda>r. r\<lparr>inv_consumed_at := Some (env_now E), inv_consumed_by_user_id := Some (usr_id u),
               inv_organization_id := fo_org (hd dirty)\<rparr>) (h_invitations h4)\<rparr>"
    using assms sel r g cu ga by (auto simp: redeem_invitation_def bs_def [symmetric] Let_def split: sum.splits)
  have "r \<in> set (h_invitations h)" "inv_token_hash r = cy_sha256 K token"
    using tget_SomeD [OF r] select_invitations_frame(1) [OF sel] by auto
  moreover have "inv_pending (env_now E) r" using g by (simp add: inv_pending_def)
  moreover have "\<exists>a. h4 = h3\<lparr>h_audit := a\<rparr>" using flush_frame [OF fl] by auto
  moreover have "\<exists>a. h = h\<lparr>h_audit := a\<rparr>" by (rule exI [of _ "h_audit h"]) simp
  ultimately show thesis
    using that g(1) select_invitations_frame(3) [OF sel] cu ga u h' by blast
qed

lemma redeem_frame:
  assumes "redeem_invitation E K token pw name (c, h) = (Inr u, c', h')"
  shows "\<exists>org. h_invitations h' = tupd inv_token_hash (cy_sha256 K token)
        (\<lambda>r. r\<lparr>inv_consumed_at := Some (env_now E), inv_consumed_by_user_id := Some (usr_id u),
               inv_organization_id := org\<rparr>) (h_invitations h)"
    and "h_org_memberships h' = h_org_memberships h" and "h_sites h' = h_sites h"
    and "\<exists>r \<in> set (h_invitations h). inv_token_hash r = cy_sha256 K token \<and> inv_pending (env_now E) r"
    and "cx_org c = None \<Longrightarrow> \<forall>b \<in> set (h_role_bindings h). rb_user_id b \<noteq> usr_id u \<Longrightarrow> h_role_bindings h' = h_role_bindings h"
  using assms
proof -
  obtain r c1 h1 h2 c3 h3 new dirty h4 org where r: "r \<in> set (h_invitations h)" "inv_token_hash r = cy_sha256 K token"
    "inv_pending (env_now E) r" and h1: "\<exists>a. h1 = h\<lparr>h_audit := a\<rparr>" and c1: "cx_org c1 = cx_org c"
    and cu: "create_user E K (inv_email r) pw name (inv_role r) h1 = Inr (u, h2)"
    and ga: "\<exists>bs. grant_all E (usr_id u) (inv_role r) bs (c1, h2) = (c3, h3)" and h4: "\<exists>a. h4 = h3\<lparr>h_audit := a\<rparr>"
    and h': "h' = h4\<lparr>h_invitations := tupd inv_token_hash (cy_sha256 K token)
        (\<lambda>r. r\<lparr>inv_consumed_at := Some (env_now E), inv_consumed_by_user_id := Some (usr_id u),
               inv_organization_id := org\<rparr>) (h_invitations h4)\<rparr>"
    using redeem_Inr [OF assms] by metis
  have i: "h_invitations h1 = h_invitations h" "h_org_memberships h1 = h_org_memberships h" "h_sites h1 = h_sites h" "h_role_bindings h1 = h_role_bindings h"
    using h1 by auto
  have ii: "h_invitations h2 = h_invitations h1" "h_org_memberships h2 = h_org_memberships h1" "h_sites h2 = h_sites h1" "h_role_bindings h2 = h_role_bindings h1"
    using create_user_frame(1) [OF cu] by auto
  obtain bs where bs: "grant_all E (usr_id u) (inv_role r) bs (c1, h2) = (c3, h3)" using ga by blast
  have iii: "h_invitations h3 = h_invitations h2" "h_org_memberships h3 = h_org_memberships h2" "h_sites h3 = h_sites h2"
    using grant_all_frame [OF bs] by auto
  have iv: "h_invitations h4 = h_invitations h3" "h_org_memberships h4 = h_org_memberships h3" "h_sites h4 = h_sites h3" "h_role_bindings h4 = h_role_bindings h3"
    using h4 by auto
  show "\<exists>org. h_invitations h' = tupd inv_token_hash (cy_sha256 K token)
        (\<lambda>r. r\<lparr>inv_consumed_at := Some (env_now E), inv_consumed_by_user_id := Some (usr_id u),
               inv_organization_id := org\<rparr>) (h_invitations h)"
    unfolding h' using i ii iii iv by (intro exI [of _ org]) simp
  show "h_org_memberships h' = h_org_memberships h" "h_sites h' = h_sites h" unfolding h' using i ii iii iv by simp_all
  show "\<exists>r \<in> set (h_invitations h). inv_token_hash r = cy_sha256 K token \<and> inv_pending (env_now E) r" using r by blast
  show "h_role_bindings h' = h_role_bindings h"
    if "cx_org c = None" "\<forall>b \<in> set (h_role_bindings h). rb_user_id b \<noteq> usr_id u"
  proof -
    have "grant_all E (usr_id u) (inv_role r) bs (c1, h2) = (c1, h2)"
      using that c1 i ii by (intro grant_all_unscoped) simp_all
    then have "h3 = h2" using bs by simp
    then show ?thesis unfolding h' using i ii iv by simp
  qed
qed

section \<open>Invitations are single-use\<close>

definition inv_ok :: "hub \<Rightarrow> bool" where
  "inv_ok h \<longleftrightarrow> pk_ok inv_id (h_invitations h)"

definition inv_spent :: "crypto \<Rightarrow> string \<Rightarrow> hub \<Rightarrow> bool" where
  "inv_spent K t h \<longleftrightarrow> (\<exists>r \<in> set (h_invitations h). inv_token_hash r = cy_sha256 K t)
     \<and> (\<forall>r \<in> set (h_invitations h). inv_token_hash r = cy_sha256 K t \<longrightarrow> inv_consumed_at r \<noteq> None)"

text \<open>A successful redemption as seen by the invitee, in whatever context the request runs.\<close>

definition inv_redeem :: "crypto \<Rightarrow> env \<times> string \<times> string \<times> ctx \<Rightarrow> string \<Rightarrow> hub \<Rightarrow> (user \<times> hub) option" where
  "inv_redeem K x t h =
     (case x of (E, pw, name, c) \<Rightarrow>
        (case redeem_invitation E K t pw name (c, h) of (Inr u, _, h') \<Rightarrow> Some (u, h') | _ \<Rightarrow> None))"

text \<open>Everything that touches the table: minting, cancelling, redeeming (with any token), and operations on
  other tables.\<close>

inductive inv_step :: "crypto \<Rightarrow> hub \<Rightarrow> hub \<Rightarrow> bool" for K where
  minted: "mint_invitation E K cfg rnd email role uid note p (c, h) = Inr (r, sec, c', h') \<Longrightarrow> inv_step K h h'"
| cancelled: "cancel_invitation E i (c, h) = Inr (b, c', h') \<Longrightarrow> inv_step K h h'"
| bulk: "cancel_invitations_bulk E ids (c, h) = Inr (res, c', h') \<Longrightarrow> inv_step K h h'"
| redeemed: "redeem_invitation E K t pw name (c, h) = (Inr u, c', h') \<Longrightarrow> inv_step K h h'"
| other: "h_invitations h' = h_invitations h \<Longrightarrow> inv_step K h h'"

lemma mint_frame:
  assumes "mint_invitation E K cfg rnd email role uid note p (c, h) = Inr (r, sec, c', h')"
  shows "h_invitations h' = h_invitations h @ [r]" and "inv_id r \<notin> inv_id ` set (h_invitations h)"
    and "inv_token_hash r \<notin> inv_token_hash ` set (h_invitations h)" and "inv_consumed_at r = None"
    and "inv_token_hash r = cy_sha256 K sec" and "sec = ''inv_'' @ rnd"
proof -
  obtain new d c1 h1 where fl: "stamp_and_guard_tenant_writes E [invitation_obj None True] [] (c, h) = Inr (new, d, c1, h1)"
    using assms by (auto simp: mint_invitation_def Let_def split: if_splits option.splits sum.splits)
  have h1: "h_invitations h1 = h_invitations h" using flush_frame [OF fl] by auto
  have "h_invitations h' = h_invitations h1 @ [r] \<and> inv_id r \<notin> inv_id ` set (h_invitations h1)
      \<and> inv_token_hash r \<notin> inv_token_hash ` set (h_invitations h1) \<and> inv_consumed_at r = None
      \<and> inv_token_hash r = cy_sha256 K sec \<and> sec = ''inv_'' @ rnd"
    using assms fl
    by (auto simp: mint_invitation_def Let_def tget_None_iff tadd_def split: if_splits option.splits)
  then show "h_invitations h' = h_invitations h @ [r]" "inv_id r \<notin> inv_id ` set (h_invitations h)"
    "inv_token_hash r \<notin> inv_token_hash ` set (h_invitations h)" "inv_consumed_at r = None"
    "inv_token_hash r = cy_sha256 K sec" "sec = ''inv_'' @ rnd"
    unfolding h1 by blast+
qed

text \<open>Cancelling removes only rows that were never used.\<close>

lemma sort_ids_unused:
  assumes "sort_ids E is (c, h) = ((cs, us, xs), c', h')"
  shows "h_invitations h' = h_invitations h
     \<and> (\<forall>i \<in> set cs. \<exists>r \<in> set (h_invitations h). inv_id r = i \<and> inv_consumed_at r = None)"
  using assms
proof (induction "is" arbitrary: c h cs us xs)
  case (Cons i "is")
  obtain rows c1 h1 where sel: "select_invitations E (c, h) = (rows, c1, h1)" by (metis prod_cases3)
  obtain cs1 us1 xs1 where rec: "sort_ids E is (c1, h1) = ((cs1, us1, xs1), c', h')"
    using Cons.prems sel by (auto simp: Let_def split: prod.splits option.splits if_splits)
  have h1: "h_invitations h1 = h_invitations h" using select_invitations_frame(2) [OF sel] by auto
  note IH = Cons.IH [OF rec]
  show ?case
  proof (cases "\<exists>r. tget inv_id i rows = Some r \<and> inv_consumed_at r = None")
    case True
    then obtain r where r: "tget inv_id i rows = Some r" "inv_consumed_at r = None" by blast
    have "cs = i # cs1" using Cons.prems sel rec r by simp
    moreover have "r \<in> set (h_invitations h) \<and> inv_id r = i"
      using tget_SomeD [OF r(1)] select_invitations_frame(1) [OF sel] by auto
    ultimately show ?thesis using IH h1 r(2) by auto
  next
    case False
    then have "cs = cs1" using Cons.prems sel rec by (auto split: option.splits if_splits)
    then show ?thesis using IH h1 by simp
  qed
qed simp

lemma cancel_rows:
  assumes "cancel_invitation E i (c, h) = Inr (b, c', h')"
  shows "\<exists>S. h_invitations h' = filter (\<lambda>r. inv_id r \<notin> S) (h_invitations h)
     \<and> (\<forall>i \<in> S. \<exists>r \<in> set (h_invitations h). inv_id r = i \<and> inv_consumed_at r = None)"
proof -
  obtain rows c1 h1 where sel: "select_invitations E (c, h) = (rows, c1, h1)" by (metis prod_cases3)
  have h1: "h_invitations h1 = h_invitations h" using select_invitations_frame(2) [OF sel] by auto
  obtain c2 where fl: "stamp_and_guard_tenant_writes E [] [] (c1, h1) = Inr ([], [], c2, h1)" by (rule empty_flush)
  show ?thesis
  proof (cases "\<exists>r. tget inv_id i rows = Some r \<and> inv_consumed_at r = None")
    case True
    then obtain r where r: "tget inv_id i rows = Some r" "inv_consumed_at r = None" by blast
    have "h_invitations h' = filter (\<lambda>r. inv_id r \<notin> {i}) (h_invitations h)"
      using assms sel r fl h1 by (auto simp: cancel_invitation_def tdel_def)
    moreover have "r \<in> set (h_invitations h) \<and> inv_id r = i"
      using tget_SomeD [OF r(1)] select_invitations_frame(1) [OF sel] by auto
    ultimately show ?thesis using r(2) by (intro exI [of _ "{i}"]) auto
  next
    case False
    then have "h_invitations h' = h_invitations h"
      using assms sel h1 by (auto simp: cancel_invitation_def split: option.splits if_splits)
    then show ?thesis by (intro exI [of _ "{}"]) simp
  qed
qed

lemma bulk_rows:
  assumes "cancel_invitations_bulk E is (c, h) = Inr (res, c', h')"
  shows "\<exists>S. h_invitations h' = filter (\<lambda>r. inv_id r \<notin> S) (h_invitations h)
     \<and> (\<forall>i \<in> S. \<exists>r \<in> set (h_invitations h). inv_id r = i \<and> inv_consumed_at r = None)"
proof -
  obtain cs us xs c1 h1 where so: "sort_ids E is (c, h) = ((cs, us, xs), c1, h1)" by (metis prod_cases3)
  obtain c2 where fl: "stamp_and_guard_tenant_writes E [] [] (c1, h1) = Inr ([], [], c2, h1)" by (rule empty_flush)
  have "h_invitations h' = filter (\<lambda>r. inv_id r \<notin> set cs) (h_invitations h1)"
    using assms so fl by (auto simp: cancel_invitations_bulk_def)
  then show ?thesis using sort_ids_unused [OF so] by (intro exI [of _ "set cs"]) simp
qed

lemma removed_spent:
  assumes "inv_ok h" and "h_invitations h' = filter (\<lambda>r. inv_id r \<notin> S) (h_invitations h)"
    and "\<forall>i \<in> S. \<exists>r \<in> set (h_invitations h). inv_id r = i \<and> inv_consumed_at r = None"
  shows "inv_ok h'" and "inv_spent K t h \<Longrightarrow> inv_spent K t h'"
proof -
  show "inv_ok h'" using assms(1,2) by (simp add: inv_ok_def pk_ok_def distinct_map_filter)
  have keep: "inv_id r \<notin> S" if r: "r \<in> set (h_invitations h)" "inv_consumed_at r \<noteq> None" for r
  proof
    assume "inv_id r \<in> S"
    then obtain q where "q \<in> set (h_invitations h)" "inv_id q = inv_id r" "inv_consumed_at q = None" using assms(3) by blast
    then show False using pk_ok_unique [of inv_id "h_invitations h" q r] assms(1) r by (simp add: inv_ok_def)
  qed
  show "inv_spent K t h'" if sp: "inv_spent K t h"
  proof -
    obtain r where "r \<in> set (h_invitations h)" "inv_token_hash r = cy_sha256 K t" "inv_consumed_at r \<noteq> None"
      using sp by (auto simp: inv_spent_def)
    then have "r \<in> set (h_invitations h') \<and> inv_token_hash r = cy_sha256 K t" using keep assms(2) by simp
    then show ?thesis using sp assms(2) by (auto simp: inv_spent_def)
  qed
qed

lemma marked_spent:
  assumes "h_invitations h' = tupd inv_token_hash k (\<lambda>r. r\<lparr>inv_consumed_at := Some n, inv_consumed_by_user_id := u, inv_organization_id := g\<rparr>) (h_invitations h)"
  shows "inv_ok h \<Longrightarrow> inv_ok h'" and "inv_spent K t h \<Longrightarrow> inv_spent K t h'"
    and "\<exists>r \<in> set (h_invitations h). inv_token_hash r = k \<Longrightarrow> k = cy_sha256 K t \<Longrightarrow> inv_spent K t h'"
proof -
  have "map inv_id (h_invitations h') = map inv_id (h_invitations h)" using assms by (simp add: tupd_def)
  then show "inv_ok h \<Longrightarrow> inv_ok h'" by (simp add: inv_ok_def pk_ok_def)
  have keep: "\<exists>r \<in> set (h_invitations h'). inv_token_hash r = x"
    if r: "r \<in> set (h_invitations h)" "inv_token_hash r = x" for r x
  proof -
    let ?g = "\<lambda>r. if inv_token_hash r = k then r\<lparr>inv_consumed_at := Some n, inv_consumed_by_user_id := u, inv_organization_id := g\<rparr> else r"
    have "?g r \<in> set (h_invitations h')" unfolding assms set_tupd using r(1) by (rule imageI)
    moreover have "inv_token_hash (?g r) = x" using r(2) by simp
    ultimately show ?thesis by blast
  qed
  have all: "\<forall>r \<in> set (h_invitations h'). inv_token_hash r = cy_sha256 K t \<longrightarrow> inv_consumed_at r \<noteq> None"
    if "inv_spent K t h \<or> k = cy_sha256 K t"
    using that by (auto simp: inv_spent_def assms set_tupd)
  show "inv_spent K t h'" if "inv_spent K t h"
    using that keep all unfolding inv_spent_def by blast
  show "inv_spent K t h'" if "\<exists>r \<in> set (h_invitations h). inv_token_hash r = k" and "k = cy_sha256 K t"
    using that keep all unfolding inv_spent_def by blast
qed

lemma inv_step_facts:
  assumes "inv_step K h h'" and "inv_ok h"
  shows "inv_ok h' \<and> (inv_spent K t h \<longrightarrow> inv_spent K t h')"
  using assms
proof (induction rule: inv_step.induct)
  case (minted E cfg rnd email role uid nt p c h r sec c' h')
  then show ?case using mint_frame [OF minted(1)] by (force simp: inv_ok_def pk_ok_def inv_spent_def)
next
  case (cancelled E i c h b c' h')
  then show ?case using cancel_rows [OF cancelled(1)] removed_spent by blast
next
  case (bulk E ids c h res c' h')
  then show ?case using bulk_rows [OF bulk(1)] removed_spent by blast
next
  case (redeemed E t pw name c h u c' h')
  then show ?case using redeem_frame(1) [OF redeemed(1)] marked_spent by blast
next
  case (other h' h)
  then show ?case by (simp add: inv_ok_def inv_spent_def)
qed

interpretation invitation: one_time_token "inv_redeem K" "inv_spent K" "inv_step K" inv_ok for K
proof unfold_locales
  fix x t h r h' assume ok: "inv_ok h" and "inv_redeem K x t h = Some (r, h')"
  then obtain E pw name c c' where red: "redeem_invitation E K t pw name (c, h) = (Inr r, c', h')"
    by (auto simp: inv_redeem_def split: prod.splits sum.splits)
  show "inv_spent K t h'" using redeem_frame(1,4) [OF red] marked_spent(3) by blast
  show "inv_ok h'" using redeem_frame(1) [OF red] marked_spent(1) ok by blast
next
  fix t h and x :: "env \<times> string \<times> string \<times> ctx" assume sp: "inv_spent K t h"
  obtain E pw name c where x: "x = (E, pw, name, c)" by (cases x)
  have "\<nexists>r. r \<in> set (h_invitations h) \<and> inv_token_hash r = cy_sha256 K t \<and> inv_pending (env_now E) r"
    using sp by (auto simp: inv_spent_def inv_pending_def)
  then have "redeem_invitation E K t pw name (c, h) \<noteq> (Inr u, c', h')" for u c' h'
    using redeem_frame(4) by blast
  then show "inv_redeem K x t h = None" by (auto simp: inv_redeem_def x split: prod.splits sum.splits)
qed (use inv_step_facts in blast)+

section \<open>Password resets are single-use\<close>

definition pwr_spent :: "crypto \<Rightarrow> string \<Rightarrow> hub \<Rightarrow> bool" where
  "pwr_spent K t h \<longleftrightarrow> (\<exists>r \<in> set (h_password_resets h). pwr_token_hash r = cy_sha256 K t)
     \<and> (\<forall>r \<in> set (h_password_resets h). pwr_token_hash r = cy_sha256 K t \<longrightarrow> pwr_consumed_at r \<noteq> None)"

definition pwr_redeem :: "crypto \<Rightarrow> env \<times> string \<times> string option \<Rightarrow> string \<Rightarrow> hub \<Rightarrow> (user \<times> hub) option" where
  "pwr_redeem K x t h =
     (case x of (E, pw, ip) \<Rightarrow> (case consume_reset E K t pw ip h of (Some u, h') \<Rightarrow> Some (u, h') | _ \<Rightarrow> None))"

inductive pwr_step :: "crypto \<Rightarrow> hub \<Rightarrow> hub \<Rightarrow> bool" for K where
  requested: "request_reset E K cfg rnd email ip (c, h) = Inr (res, h') \<Longrightarrow> pwr_step K h h'"
| consumed: "consume_reset E K t pw ip h = (res, h') \<Longrightarrow> pwr_step K h h'"
| expired: "expire_old E h = (n, h') \<Longrightarrow> pwr_step K h h'"
| other: "h_password_resets h' = h_password_resets h \<Longrightarrow> pwr_step K h h'"

lemma consume_Some:
  assumes "consume_reset E K t pw ip h = (Some u, h')"
  obtains r u0 where "tget pwr_token_hash (cy_sha256 K t) (h_password_resets h) = Some r" "pwr_consumed_at r = None"
    "env_now E < pwr_expires_at r" "load_user (pwr_user_id r) h = Some u0" "usr_is_active u0" "t \<noteq> []" "8 \<le> length pw"
    "u = u0\<lparr>usr_password_hash := cy_hash_password K pw, usr_updated_at := env_now E, usr_tokens_valid_after := env_now E\<rparr>"
    "h' = (modify_user (usr_id u0) (\<lambda>u. u\<lparr>usr_password_hash := cy_hash_password K pw, usr_updated_at := env_now E,
             usr_tokens_valid_after := env_now E\<rparr>) h)\<lparr>h_password_resets := tupd pwr_token_hash (cy_sha256 K t)
             (\<lambda>r. r\<lparr>pwr_consumed_at := Some (env_now E), pwr_consumed_ip := ip\<rparr>) (h_password_resets h)\<rparr>"
  using assms by (auto simp: consume_reset_def Let_def not_less split: if_splits option.splits)

lemma consume_rows:
  assumes "consume_reset E K t pw ip h = (res, h')"
  shows "h' = h \<or> h_password_resets h' = tupd pwr_token_hash (cy_sha256 K t)
     (\<lambda>r. r\<lparr>pwr_consumed_at := Some (env_now E), pwr_consumed_ip := ip\<rparr>) (h_password_resets h)"
proof (cases res)
  case None
  then show ?thesis using assms by (auto simp: consume_reset_def Let_def split: if_splits option.splits)
next
  case (Some u)
  show ?thesis by (rule consume_Some [OF assms [unfolded Some]]) simp
qed

lemma pwr_marked:
  assumes "h_password_resets h' = tupd pwr_token_hash k (\<lambda>r. r\<lparr>pwr_consumed_at := Some n, pwr_consumed_ip := ip\<rparr>) (h_password_resets h)"
    and "pwr_spent K t h \<or> k = cy_sha256 K t \<and> (\<exists>r \<in> set (h_password_resets h). pwr_token_hash r = k)"
  shows "pwr_spent K t h'"
proof -
  let ?g = "\<lambda>r. if pwr_token_hash r = k then r\<lparr>pwr_consumed_at := Some n, pwr_consumed_ip := ip\<rparr> else r"
  obtain r where r: "r \<in> set (h_password_resets h)" "pwr_token_hash r = cy_sha256 K t"
    using assms(2) by (auto simp: pwr_spent_def)
  have "?g r \<in> set (h_password_resets h')" unfolding assms(1) set_tupd using r(1) by (rule imageI)
  moreover have "pwr_token_hash (?g r) = cy_sha256 K t" using r(2) by simp
  ultimately have "\<exists>r \<in> set (h_password_resets h'). pwr_token_hash r = cy_sha256 K t" by blast
  moreover have "\<forall>r \<in> set (h_password_resets h'). pwr_token_hash r = cy_sha256 K t \<longrightarrow> pwr_consumed_at r \<noteq> None"
    using assms(2) by (auto simp: pwr_spent_def assms(1) set_tupd)
  ultimately show ?thesis by (simp add: pwr_spent_def)
qed

lemma pwr_step_spent:
  assumes "pwr_step K h h'" and "pwr_spent K t h"
  shows "pwr_spent K t h'"
  using assms
proof (induction rule: pwr_step.induct)
  case (requested E cfg rnd email ip c h res h')
  have "h_password_resets h' = h_password_resets h
      \<or> (\<exists>r. h_password_resets h' = h_password_resets h @ [r] \<and> pwr_token_hash r \<notin> pwr_token_hash ` set (h_password_resets h))"
    using requested(1)
    by (auto simp: request_reset_def Let_def tget_None_iff tadd_def split: if_splits option.splits)
  then show ?case
  proof
    assume "\<exists>r. h_password_resets h' = h_password_resets h @ [r] \<and> pwr_token_hash r \<notin> pwr_token_hash ` set (h_password_resets h)"
    then obtain r where r: "h_password_resets h' = h_password_resets h @ [r]"
      "pwr_token_hash r \<notin> pwr_token_hash ` set (h_password_resets h)" by blast
    then have "pwr_token_hash r \<noteq> cy_sha256 K t" using requested(2) unfolding pwr_spent_def by (metis imageI)
    then show ?thesis using requested(2) r(1) by (auto simp: pwr_spent_def)
  qed (use requested(2) in \<open>simp add: pwr_spent_def\<close>)
next
  case (consumed E t' pw ip h res h')
  then show ?case using consume_rows [OF consumed(1)] pwr_marked by blast
next
  case (expired E h n h')
  then show ?case by (auto simp: pwr_spent_def expire_old_def Let_def)
next
  case (other h' h)
  then show ?case by (simp add: pwr_spent_def)
qed

interpretation reset: one_time_token "pwr_redeem K" "pwr_spent K" "pwr_step K" "\<lambda>_. True" for K
proof unfold_locales
  fix x t h r h' assume "pwr_redeem K x t h = Some (r, h')"
  then obtain E pw ip where c: "consume_reset E K t pw ip h = (Some r, h')"
    by (auto simp: pwr_redeem_def split: prod.splits option.splits)
  obtain q where q: "tget pwr_token_hash (cy_sha256 K t) (h_password_resets h) = Some q" and hh: "h_password_resets h'
      = tupd pwr_token_hash (cy_sha256 K t) (\<lambda>r. r\<lparr>pwr_consumed_at := Some (env_now E), pwr_consumed_ip := ip\<rparr>) (h_password_resets h)"
    by (rule consume_Some [OF c]) simp
  show "pwr_spent K t h'"
    by (rule pwr_marked [OF hh]) (use tget_SomeD [OF q] in blast)
next
  fix t h and x :: "env \<times> string \<times> string option" assume sp: "pwr_spent K t h"
  obtain E pw ip where x: "x = (E, pw, ip)" by (cases x)
  have "consume_reset E K t pw ip h \<noteq> (Some u, h')" for u h'
  proof
    assume c: "consume_reset E K t pw ip h = (Some u, h')"
    obtain r where r: "tget pwr_token_hash (cy_sha256 K t) (h_password_resets h) = Some r" "pwr_consumed_at r = None"
      by (rule consume_Some [OF c]) (rule that; assumption)
    show False using sp tget_SomeD [OF r(1)] r(2) unfolding pwr_spent_def by blast
  qed
  then show "pwr_redeem K x t h = None" by (auto simp: pwr_redeem_def x split: prod.splits option.splits)
qed (use pwr_step_spent in blast)+

section \<open>Properties\<close>

text \<open>An invitation creates at most one account: after a redemption of its token succeeded, whatever is
  minted, cancelled, redeemed or done elsewhere in between, in whatever context, no redemption of the
  same token succeeds again.\<close>

theorem invitation_single_use:
  assumes "pk_ok inv_id (h_invitations h)" and "redeem_invitation E K t pw name (c, h) = (Inr u, c1, h1)"
    and "(inv_step K)\<^sup>*\<^sup>* h1 h2"
  shows "fst (redeem_invitation E' K t pw' name' (c', h2)) \<noteq> Inr u'"
proof -
  have "inv_redeem K (E, pw, name, c) t h = Some (u, h1)" using assms(2) by (simp add: inv_redeem_def)
  moreover have "inv_ok h" using assms(1) by (simp add: inv_ok_def)
  ultimately have "inv_redeem K (E', pw', name', c') t h2 = None" using invitation.single_use assms(3) by blast
  then show ?thesis by (cases "redeem_invitation E' K t pw' name' (c', h2)") (auto simp: inv_redeem_def)
qed

text \<open>A password reset works once: it sets the password the user chose, cuts off the credentials issued
  before, and afterwards its token is refused whatever other resets are requested, consumed or expired.\<close>

theorem reset_single_use:
  assumes "consume_reset E K t pw ip h = (Some u, h1)" and "(pwr_step K)\<^sup>*\<^sup>* h1 h2"
    and "\<And>p. cy_verify_password K (cy_hash_password K p) p"
  shows "load_user (usr_id u) h1 = Some u \<and> cy_verify_password K (usr_password_hash u) pw
     \<and> usr_tokens_valid_after u = env_now E \<and> fst (consume_reset E' K t pw' ip' h2) = None"
proof -
  obtain r :: password_reset and u0 where u0: "load_user (pwr_user_id r) h = Some u0"
    and u: "u = u0\<lparr>usr_password_hash := cy_hash_password K pw, usr_updated_at := env_now E, usr_tokens_valid_after := env_now E\<rparr>"
    and h1: "h1 = (modify_user (usr_id u0) (\<lambda>u. u\<lparr>usr_password_hash := cy_hash_password K pw, usr_updated_at := env_now E,
             usr_tokens_valid_after := env_now E\<rparr>) h)\<lparr>h_password_resets := tupd pwr_token_hash (cy_sha256 K t)
             (\<lambda>r. r\<lparr>pwr_consumed_at := Some (env_now E), pwr_consumed_ip := ip\<rparr>) (h_password_resets h)\<rparr>"
    by (rule consume_Some [OF assms(1)]) (rule that; assumption)
  have id: "usr_id u0 = pwr_user_id r" using u0 by (rule load_user_id)
  have "load_user (usr_id u) h1 = load_user (usr_id u) (modify_user (usr_id u0) (\<lambda>u. u\<lparr>usr_password_hash := cy_hash_password K pw,
      usr_updated_at := env_now E, usr_tokens_valid_after := env_now E\<rparr>) h)"
    unfolding h1 by (simp add: load_user_def)
  also have "\<dots> = Some u" using u0 id by (simp add: load_modify u)
  finally have "load_user (usr_id u) h1 = Some u" .
  moreover have "pwr_redeem K (E, pw, ip) t h = Some (u, h1)" using assms(1) by (simp add: pwr_redeem_def)
  then have "pwr_redeem K (E', pw', ip') t h2 = None" using reset.single_use assms(2) by blast
  then have "fst (consume_reset E' K t pw' ip' h2) = None"
    by (cases "consume_reset E' K t pw' ip' h2") (auto simp: pwr_redeem_def split: option.splits)
  ultimately show ?thesis using u assms(3) by simp
qed

text \<open>An invitation to part of an organization lets its user see all of it, and all the others. The
  public page redeems with no organization bound, so every binding of the invitation fails unnoticed,
  and no membership is created; then every request of the new user runs unscoped, and a SELECT over a
  tenant-scoped table returns the rows of every organization, also in enforce mode.\<close>

theorem invited_user_unscoped:
  assumes "cx_org c = None" and "redeem_invitation E K t pw name (c, h) = (Inr u, c1, h1)"
    and "\<forall>b \<in> set (h_role_bindings h). rb_user_id b \<noteq> usr_id u"
    and "\<forall>m \<in> set (h_org_memberships h). om_user_id m \<noteq> usr_id u"
    and "role_required allowed False w bearer (c2, h1) = (Entered u', w', c3)" and "usr_id u' = usr_id u"
  shows "h_role_bindings h1 = h_role_bindings h \<and> h_org_memberships h1 = h_org_memberships h
    \<and> cx_org c3 = None \<and> fst (select_scoped E' tbl org_of rows (c3, h1)) = rows h1"
proof -
  have m: "h_org_memberships h1 = h_org_memberships h" by (rule redeem_frame(2) [OF assms(2)])
  obtain so where "cx_org c3 = resolve_active_org (usr_id u) so h1"
    using role_required_Entered(3) [OF assms(5)] assms(6) by auto
  moreover have "memberships_for_user (usr_id u) h1 = []" using assms(4) m by (intro no_memberships) simp
  ultimately have "cx_org c3 = None" by (simp add: resolve_active_org_def)
  then show ?thesis
    using m redeem_frame(5) [OF assms(2,1,3)] unscoped_sees_all [of c3 E' tbl org_of rows h1] by blast
qed

text \<open>A reset does not retire the other reset links of the user: a second token that was pending for the
  same user stays usable after the first one was consumed.\<close>

theorem other_reset_survives:
  assumes "consume_reset E K t pw ip h = (Some u, h1)"
    and "tget pwr_token_hash (cy_sha256 K t2) (h_password_resets h) = Some r2" and "cy_sha256 K t2 \<noteq> cy_sha256 K t"
    and "pwr_user_id r2 = usr_id u" and "pwr_consumed_at r2 = None" and "env_now E2 < pwr_expires_at r2"
    and "t2 \<noteq> []" and "8 \<le> length pw2"
  shows "\<exists>u2 h2. consume_reset E2 K t2 pw2 ip2 h1 = (Some u2, h2) \<and> usr_id u2 = usr_id u
    \<and> usr_password_hash u2 = cy_hash_password K pw2"
proof -
  obtain r :: password_reset and u0 where u0: "load_user (pwr_user_id r) h = Some u0" "usr_is_active u0"
    and u: "u = u0\<lparr>usr_password_hash := cy_hash_password K pw, usr_updated_at := env_now E, usr_tokens_valid_after := env_now E\<rparr>"
    and h1: "h1 = (modify_user (usr_id u0) (\<lambda>u. u\<lparr>usr_password_hash := cy_hash_password K pw, usr_updated_at := env_now E,
             usr_tokens_valid_after := env_now E\<rparr>) h)\<lparr>h_password_resets := tupd pwr_token_hash (cy_sha256 K t)
             (\<lambda>r. r\<lparr>pwr_consumed_at := Some (env_now E), pwr_consumed_ip := ip\<rparr>) (h_password_resets h)\<rparr>"
    by (rule consume_Some [OF assms(1)]) (rule that; assumption)
  have id: "usr_id u0 = pwr_user_id r" using u0(1) by (rule load_user_id)
  have g: "tget pwr_token_hash (cy_sha256 K t2) (h_password_resets h1) = Some r2"
    using assms(2,3) by (simp add: h1 tget_tupd)
  have "load_user (usr_id u) h1 = load_user (usr_id u) (modify_user (usr_id u0) (\<lambda>u. u\<lparr>usr_password_hash := cy_hash_password K pw,
      usr_updated_at := env_now E, usr_tokens_valid_after := env_now E\<rparr>) h)"
    unfolding h1 by (simp add: load_user_def)
  also have "\<dots> = Some u" using u0(1) id by (simp add: load_modify u)
  finally have l: "load_user (usr_id u) h1 = Some u" .
  have "usr_is_active u" using u0(2) u by simp
  then show ?thesis using g l assms(4-8) by (simp add: consume_reset_def)
qed

section \<open>Witnesses\<close>

definition demo_invitation :: invitation where
  "demo_invitation = \<lparr>inv_id = ''inv1'', inv_organization_id = Some ''org_a'', inv_email = ''new@example.net'', inv_role = ''operator'',
     inv_token_hash = ''inv_tok'', inv_issued_by_user_id = None, inv_note = None,
     inv_scope_payload = Some [(''bindings'', VList [VDict [(''scope_type'', VStr ''site''), (''scope_id'', VStr ''s1'')]])],
     inv_expires_at = 100, inv_consumed_at = None, inv_consumed_by_user_id = None, inv_created_at = 0\<rparr>"

definition invite_hub :: hub where
  "invite_hub = account_hub\<lparr>h_invitations := [demo_invitation],
     h_sites := [demo_site ''s1'' ''org_a'', demo_site ''s2'' ''org_b'']\<rparr>"

abbreviation demo_redeem :: "(invitation_error + user) \<times> ctx \<times> hub" where
  "demo_redeem \<equiv> redeem_invitation scope_env demo_crypto ''inv_tok'' ''longpassword'' [] (scope_ctx None, invite_hub)"

theorem invitation_single_use_witness:
  "\<exists>u c1 h1. demo_redeem = (Inr u, c1, h1)
   \<and> (\<forall>u'. fst (redeem_invitation scope_env demo_crypto ''inv_tok'' ''longpassword'' [] (scope_ctx None, h1)) \<noteq> Inr u')"
proof -
  have "case demo_redeem of (Inr u, _, _) \<Rightarrow> True | _ \<Rightarrow> False" by code_simp
  then obtain u c1 h1 where r: "demo_redeem = (Inr u, c1, h1)" by (auto split: prod.splits sum.splits)
  moreover have "pk_ok inv_id (h_invitations invite_hub)" by (simp add: invite_hub_def pk_ok_def)
  ultimately show ?thesis using invitation_single_use [OF _ r rtranclp.rtrancl_refl] by blast
qed

theorem invited_user_unscoped_witness:
  "\<exists>u c1 h1 c3. demo_redeem = (Inr u, c1, h1) \<and> h_role_bindings h1 = []
     \<and> fst (select_scoped scope_env ''sites'' (Some \<circ> site_organization_id) h_sites (c3, h1))
         = [demo_site ''s1'' ''org_a'', demo_site ''s2'' ''org_b'']"
proof -
  have "case demo_redeem of
      (Inr u, c1, h1) \<Rightarrow>
        (case role_required ALL_ROLES False (demo_cookie (usr_id u) 0 None) None (scope_ctx None, h1) of
           (Entered u', w', c3) \<Rightarrow> usr_id u' = usr_id u \<and> usr_id u = ''usr_'' \<and> map site_id (h_sites h1) = [''s1'', ''s2'']
         | _ \<Rightarrow> False)
    | _ \<Rightarrow> False" by code_simp
  moreover obtain x c1 h1 where d: "demo_redeem = (x, c1, h1)" by (cases demo_redeem)
  moreover obtain g w' c3 where g: "role_required ALL_ROLES False (demo_cookie (usr_id (projr x)) 0 None) None (scope_ctx None, h1) = (g, w', c3)"
    by (metis prod_cases3)
  ultimately obtain u u' where x: "x = Inr u" "g = Entered u'" and id: "usr_id u' = usr_id u" "usr_id u = ''usr_''"
    by (cases x; cases g) simp_all
  have r: "demo_redeem = (Inr u, c1, h1)"
    and e: "role_required ALL_ROLES False (demo_cookie (usr_id u) 0 None) None (scope_ctx None, h1) = (Entered u', w', c3)"
    using d g x by simp_all
  have rb: "\<forall>b \<in> set (h_role_bindings invite_hub). rb_user_id b \<noteq> usr_id u"
    and om: "\<forall>m \<in> set (h_org_memberships invite_hub). om_user_id m \<noteq> usr_id u"
    using id(2) by (simp_all add: invite_hub_def account_hub_def empty_hub_def)
  have "h_sites h1 = [demo_site ''s1'' ''org_a'', demo_site ''s2'' ''org_b'']"
    using redeem_frame(3) [OF r] by (simp add: invite_hub_def)
  moreover have "h_role_bindings invite_hub = []" by (simp add: invite_hub_def account_hub_def empty_hub_def)
  ultimately show ?thesis
    using r invited_user_unscoped [OF _ r rb om e id(1), of scope_env "''sites''" "Some \<circ> site_organization_id" h_sites] by auto
qed

definition demo_reset :: "string \<Rightarrow> password_reset" where
  "demo_reset t = \<lparr>pwr_id = t, pwr_user_id = ''u1'', pwr_email_snapshot = [], pwr_token_hash = t, pwr_expires_at = 100,
     pwr_consumed_at = None, pwr_requested_ip = None, pwr_consumed_ip = None, pwr_created_at = 0\<rparr>"

definition reset_hub :: hub where
  "reset_hub = account_hub\<lparr>h_password_resets := [demo_reset ''pwr_a'', demo_reset ''pwr_b'']\<rparr>"

lemma demo_consume:
  obtains u h1 where "consume_reset scope_env demo_crypto ''pwr_a'' ''longpassword'' None reset_hub = (Some u, h1)" and "usr_id u = ''u1''"
proof -
  have "case consume_reset scope_env demo_crypto ''pwr_a'' ''longpassword'' None reset_hub of
      (Some u, _) \<Rightarrow> usr_id u = ''u1'' | _ \<Rightarrow> False" by code_simp
  then show thesis using that by (auto split: prod.splits option.splits)
qed

theorem reset_single_use_witness:
  "\<exists>u h1. consume_reset scope_env demo_crypto ''pwr_a'' ''longpassword'' None reset_hub = (Some u, h1)
     \<and> cy_verify_password demo_crypto (usr_password_hash u) ''longpassword''
     \<and> fst (consume_reset scope_env demo_crypto ''pwr_a'' ''longpassword'' None h1) = None"
proof -
  obtain u h1 where r: "consume_reset scope_env demo_crypto ''pwr_a'' ''longpassword'' None reset_hub = (Some u, h1)"
    by (rule demo_consume)
  have "cy_verify_password demo_crypto (cy_hash_password demo_crypto p) p" for p by (simp add: demo_crypto_def)
  from reset_single_use [OF r rtranclp.rtrancl_refl this, of scope_env "''longpassword''" None] r show ?thesis by blast
qed

theorem other_reset_survives_witness:
  "\<exists>u h1 u2 h2. consume_reset scope_env demo_crypto ''pwr_a'' ''longpassword'' None reset_hub = (Some u, h1)
     \<and> consume_reset scope_env demo_crypto ''pwr_b'' ''anotherpassword'' None h1 = (Some u2, h2) \<and> usr_id u2 = usr_id u"
proof -
  obtain u h1 where r: "consume_reset scope_env demo_crypto ''pwr_a'' ''longpassword'' None reset_hub = (Some u, h1)"
    and id: "usr_id u = ''u1''" by (rule demo_consume)
  have "tget pwr_token_hash (cy_sha256 demo_crypto ''pwr_b'') (h_password_resets reset_hub) = Some (demo_reset ''pwr_b'')"
    by (simp add: reset_hub_def demo_reset_def demo_crypto_def)
  from other_reset_survives [OF r this, of scope_env "''anotherpassword''" None] r id show ?thesis
    by (auto simp: demo_crypto_def demo_reset_def scope_env_def)
qed

end
