(* ===== verification/DeviceConfig.thy ===== *)
theory DeviceConfig
  imports AuditLog Commands PyText
begin

text \<open>
  The configuration an operator wants on a device and the one the device reports
  (\<open>app/services/device_config.py\<close>): storing both, the comparison between them, and the push of the
  wanted configuration as an \<open>apply_config\<close> command, by hand or after a recovery.
\<close>

section \<open>Equality of JSON values\<close>

text \<open>Python's \<open>==\<close>: numbers and booleans by value, dicts without regard to the order of their keys.\<close>

fun py_num :: "pyval \<Rightarrow> rat option" where
  "py_num (VBool b) = Some (if b then 1 else 0)"
| "py_num (VInt i) = Some (of_int i)"
| "py_num (VFloat r) = Some r"
| "py_num _ = None"

fun py_eq :: "pyval \<Rightarrow> pyval \<Rightarrow> bool" where
  "py_eq (VStr s) v = (v = VStr s)"
| "py_eq VNone v = (v = VNone)"
| "py_eq (VList xs) v = (case v of VList ys \<Rightarrow> list_all2 py_eq xs ys | _ \<Rightarrow> False)"
| "py_eq (VDict d) v =
     (case v of
        VDict e \<Rightarrow> length d = length e
          \<and> list_all (\<lambda>kv. case map_of e (fst kv) of None \<Rightarrow> False | Some w \<Rightarrow> py_eq (snd kv) w) d
      | _ \<Rightarrow> False)"
| "py_eq (VBool b) v = (py_num v = Some (if b then 1 else 0))"
| "py_eq (VInt i) v = (py_num v = Some (of_int i))"
| "py_eq (VFloat r) v = (py_num v = Some r)"

section \<open>The wanted configuration\<close>

definition ALLOWED_DESIRED_CONFIG_KEYS :: "string list" where
  "ALLOWED_DESIRED_CONFIG_KEYS = [''device_name'', ''relay_restore_behavior'', ''monitor_interval_seconds'',
     ''boot_warmup_seconds'', ''manual_button_enabled'', ''internet'', ''device'', ''notifications'', ''power'']"

definition DESIRED_MODES :: "string list" where
  "DESIRED_MODES = [''smart_plug'', ''internet_watchdog'', ''device_watchdog'']"

definition PUSH_SOURCES :: "string list" where
  "PUSH_SOURCES = [''restore'', ''manual'', ''drift_repair'']"

datatype config_error =
    NotAnObject
  | UnsupportedKeys "string list"
  | NameNotString
  | NameTooLong
  | BadDesiredMode
  | BadPushSource string

definition nonempty_dict :: "pydict option \<Rightarrow> pydict option" where
  "nonempty_dict p = (case p of None \<Rightarrow> None | Some d \<Rightarrow> if d = [] then None else Some d)"

definition get_desired_config :: "string \<Rightarrow> hub \<Rightarrow> pydict option" where
  "get_desired_config i h = (case get_device i h of None \<Rightarrow> None | Some d \<Rightarrow> nonempty_dict (dev_desired_config d))"

definition check_desired_config :: "pyval \<Rightarrow> string option \<Rightarrow> config_error + pydict" where
  "check_desired_config payload mode =
     (case payload of
        VDict p \<Rightarrow>
          (let unknown = filter (\<lambda>k. k \<notin> set ALLOWED_DESIRED_CONFIG_KEYS) (map fst p) in
           if unknown \<noteq> [] then Inl (UnsupportedKeys (sort (remdups unknown)))
           else if dhas p ''device_name'' \<and> dget p ''device_name'' \<noteq> VNone \<and> \<not> is_str (dget p ''device_name'')
           then Inl NameNotString
           else if (case dget p ''device_name'' of VStr s \<Rightarrow> 120 < length s | _ \<Rightarrow> False) then Inl NameTooLong
           else if (case mode of None \<Rightarrow> False | Some m \<Rightarrow> m \<notin> set DESIRED_MODES) then Inl BadDesiredMode
           else Inr p)
      | _ \<Rightarrow> Inl NotAnObject)"

definition set_desired_config ::
  "env \<Rightarrow> string \<Rightarrow> pyval \<Rightarrow> string option \<Rightarrow> hub \<Rightarrow> config_error + (pydict option \<times> hub)" where
  "set_desired_config E i payload mode h =
     (case check_desired_config payload mode of
        Inl e \<Rightarrow> Inl e
      | Inr p \<Rightarrow>
          (case get_device i h of
             None \<Rightarrow> Inr (None, h)
           | Some d0 \<Rightarrow>
               (let f = (\<lambda>d. d\<lparr>dev_desired_config := nonempty_dict (Some p),
                              dev_desired_mode := (if mode = None then dev_desired_mode d else mode),
                              dev_desired_config_updated_at := Some (env_now E), dev_updated_at := env_now E\<rparr>);
                    d = f d0
                in Inr (Some [(''device_id'', VStr (dev_id d)), (''desired_config'', VDict (dict_or_empty (dev_desired_config d))),
                              (''desired_mode'', of_opt_str (dev_desired_mode d)),
                              (''desired_config_updated_at'', VStr (iso_z (env_now E)))],
                        modify_device i f h))))"

section \<open>The reported configuration\<close>

definition record_reported_config :: "string \<Rightarrow> pyval \<Rightarrow> hub \<Rightarrow> hub" where
  "record_reported_config i reported h =
     (if \<not> truthy reported then h
      else case reported of
        VDict r \<Rightarrow> (case get_device i h of
                      None \<Rightarrow> h
                    | Some _ \<Rightarrow> modify_device i (\<lambda>d. d\<lparr>dev_last_reported_config := Some r\<rparr>) h)
      | _ \<Rightarrow> h)"

record drift =
  dr_in_sync :: bool
  dr_missing :: "string list"
  dr_mismatch :: "(string \<times> pyval \<times> pyval) list"
  dr_extra :: "string list"
  dr_reason :: "string option"

definition mismatches :: "pydict \<Rightarrow> pydict \<Rightarrow> (string \<times> pyval \<times> pyval) list" where
  "mismatches desired reported =
     map (\<lambda>(k, want). (k, want, dget reported k))
       (filter (\<lambda>(k, want). dhas reported k \<and> \<not> py_eq (dget reported k) want) desired)"

definition compute_drift :: "string \<Rightarrow> hub \<Rightarrow> drift" where
  "compute_drift i h =
     (case get_device i h of
        None \<Rightarrow> \<lparr>dr_in_sync = False, dr_missing = [], dr_mismatch = [], dr_extra = [], dr_reason = Some ''device not found''\<rparr>
      | Some d \<Rightarrow>
          (let desired = dict_or_empty (dev_desired_config d); reported = dict_or_empty (dev_last_reported_config d) in
           if desired = []
           then \<lparr>dr_in_sync = True, dr_missing = [], dr_mismatch = [], dr_extra = [], dr_reason = Some ''no desired_config set''\<rparr>
           else if reported = []
           then \<lparr>dr_in_sync = False, dr_missing = sort (map fst desired), dr_mismatch = [], dr_extra = [],
                 dr_reason = Some ''no last_reported_config recorded yet''\<rparr>
           else
             let missing = filter (\<lambda>k. \<not> dhas reported k) (map fst desired); mismatch = mismatches desired reported
             in \<lparr>dr_in_sync = (missing = [] \<and> mismatch = []), dr_missing = sort missing, dr_mismatch = mismatch,
                 dr_extra = sort (filter (\<lambda>k. \<not> dhas desired k) (map fst reported)), dr_reason = None\<rparr>))"

section \<open>Pushing\<close>

record push_result =
  pr_enqueued :: bool
  pr_command_id :: "string option"
  pr_reason :: "string option"
  pr_source :: "string option"

definition not_pushed :: "string \<Rightarrow> push_result" where
  "not_pushed why = \<lparr>pr_enqueued = False, pr_command_id = None, pr_reason = Some why, pr_source = None\<rparr>"

definition push_desired_config ::
  "env \<Rightarrow> string \<Rightarrow> string \<Rightarrow> string option \<Rightarrow> hub \<Rightarrow> config_error + (push_result \<times> hub)" where
  "push_desired_config E i source uid h =
     (if source \<notin> set PUSH_SOURCES then Inl (BadPushSource source)
      else Inr (case get_device i h of
        None \<Rightarrow> (not_pushed ''device not found'', h)
      | Some d \<Rightarrow>
          (if \<not> dev_central_management_enabled d then (not_pushed ''central management disabled'', h)
           else case nonempty_dict (dev_desired_config d) of
             None \<Rightarrow> (not_pushed ''no desired_config set'', h)
           | Some payload \<Rightarrow>
               (case enqueue_for_device (env_ulid E) (env_now E) i ''apply_config'' (Some payload) uid (Some 600) None False False h of
                  Inl e \<Rightarrow> (not_pushed (cmd_error_str e), h)
                | Inr (c, h1) \<Rightarrow>
                    (\<lparr>pr_enqueued = True, pr_command_id = Some (c_id c), pr_reason = None, pr_source = Some source\<rparr>,
                     modify_device i (\<lambda>d. d\<lparr>dev_last_config_pushed_at := Some (env_now E)\<rparr>) h1)))))"

definition is_feature_enabled :: "env \<Rightarrow> ctx \<Rightarrow> hub \<Rightarrow> bool" where
  "is_feature_enabled E c h =
     (let v = settings_get c (h_settings h) ''desired_config.enabled'' None VNone
      in py_lower (py_strip (if truthy v then py_str E v else [])) \<in> set [''1'', ''true'', ''yes'', ''on''])"

definition maybe_push_after_recovery ::
  "env \<Rightarrow> string \<Rightarrow> string \<Rightarrow> ctx \<times> hub \<Rightarrow> push_result \<times> ctx \<times> hub" where
  "maybe_push_after_recovery E i trigger s =
     (case get_desired_config i (snd s) of
        None \<Rightarrow> (not_pushed ''no desired_config set'', s)
      | Some cfg \<Rightarrow>
          (if \<not> is_feature_enabled E (fst s) (snd s) then (not_pushed ''feature disabled'', s)
           else case push_desired_config E i ''restore'' None (snd s) of
             Inl _ \<Rightarrow> (not_pushed ''internal error'', s)
           | Inr (r, h1) \<Rightarrow>
               (r, if pr_enqueued r
                   then audit_record E ''device.recovery_config_pushed'' None None (Some ''device'') (Some i)
                          [(''trigger'', VStr trigger), (''command_id'', of_opt_str (pr_command_id r)),
                           (''pushed_fields'', VList (map VStr (sort (map fst cfg))))] None (fst s, h1)
                   else (fst s, h1))))"


section \<open>Lemmas\<close>

text \<open>A JSON value as Python holds it: the keys of a dict are distinct.\<close>

fun wf_val :: "pyval \<Rightarrow> bool" where
  "wf_val (VList xs) = list_all wf_val xs"
| "wf_val (VDict d) = (distinct (map fst d) \<and> list_all (\<lambda>kv. wf_val (snd kv)) d)"
| "wf_val _ = True"

lemma py_eq_refl: "wf_val v \<Longrightarrow> py_eq v v"
proof (induction v)
  case (VList xs)
  then show ?case by (auto simp: list_all_iff list_all2_same)
next
  case (VDict d)
  have "list_all (\<lambda>kv. case map_of d (fst kv) of None \<Rightarrow> False | Some w \<Rightarrow> py_eq (snd kv) w) d"
    unfolding list_all_iff
  proof
    fix kv assume m: "kv \<in> set d"
    then have "map_of d (fst kv) = Some (snd kv)" using VDict.prems by simp
    moreover have "py_eq (snd kv) (snd kv)"
      using VDict.IH [of kv "snd kv"] m VDict.prems by (auto simp: list_all_iff snds.simps)
    ultimately show "case map_of d (fst kv) of None \<Rightarrow> False | Some w \<Rightarrow> py_eq (snd kv) w" by simp
  qed
  then show ?case by simp
qed auto

lemma check_desired_dict: "check_desired_config payload mode = Inr p \<Longrightarrow> payload = VDict p"
  by (auto simp: check_desired_config_def Let_def split: pyval.splits if_splits)

lemma check_desired_keys:
  "check_desired_config payload mode = Inr p \<Longrightarrow> set (map fst p) \<subseteq> set ALLOWED_DESIRED_CONFIG_KEYS"
  by (auto simp: check_desired_config_def Let_def filter_empty_conv split: pyval.splits if_splits)

text \<open>What the operator may store the command validator accepts.\<close>

lemma desired_validates:
  assumes "set (map fst p) \<subseteq> set ALLOWED_DESIRED_CONFIG_KEYS" and "p \<noteq> []"
  shows "validate_payload ''apply_config'' (Some p) = Inr p"
  using assms
  by (auto simp: validate_payload_def validate_apply_config_def Let_def filter_empty_conv
      APPLY_CONFIG_ALLOWED_TOP_LEVEL_def ALLOWED_DESIRED_CONFIG_KEYS_def dict_or_empty_def)

lemma get_device_modify_field:
  assumes "\<And>d. dev_id (f d) = dev_id d"
  shows "get_device k (modify_device i f h) = (if k = i then map_option f (get_device k h) else get_device k h)"
  using assms by (simp add: get_device_def modify_device_def tget_tupd)

lemma set_desired_stored:
  assumes "set_desired_config E i (VDict p) mode h = Inr (Some out, h')"
  obtains d where "check_desired_config (VDict p) mode = Inr p" and "get_device i h = Some d"
    and "get_device i h' = Some (d\<lparr>dev_desired_config := nonempty_dict (Some p),
           dev_desired_mode := (if mode = None then dev_desired_mode d else mode),
           dev_desired_config_updated_at := Some (env_now E), dev_updated_at := env_now E\<rparr>)"
proof -
  obtain q where q: "check_desired_config (VDict p) mode = Inr q" using assms by (auto simp: set_desired_config_def split: sum.splits)
  then have "q = p" using check_desired_dict by blast
  with q assms that show ?thesis
    by (auto simp: set_desired_config_def Let_def get_device_modify_field split: option.splits)
qed

lemma push_managed:
  assumes "get_device i h = Some d" and "dev_central_management_enabled d"
    and "dev_desired_config d = Some p" and "p \<noteq> []" and "set (map fst p) \<subseteq> set ALLOWED_DESIRED_CONFIG_KEYS"
    and "source \<in> set PUSH_SOURCES"
  obtains r c h' where "push_desired_config E i source uid h = Inr (r, h')"
    and "pr_enqueued r" and "pr_command_id r = Some (c_id c)"
    and "h_commands h' = h_commands h @ [c]" and "c_device_id c = i" and "c_type c = ''apply_config''" and "c_payload c = p"
    and "get_device i h' = Some (d\<lparr>dev_last_config_pushed_at := Some (env_now E)\<rparr>)"
proof -
  let ?enq = "enqueue_for_device (env_ulid E) (env_now E) i ''apply_config'' (Some p) uid (Some 600) None False False h"
  have v: "validate_payload ''apply_config'' (Some p) = Inr p" using desired_validates [OF assms(5,4)] .
  have "\<not> locked_out d ''apply_config'' False" by (simp add: locked_out_def POWER_TYPES_def)
  then obtain c h1 where e: "?enq = Inr (c, h1)"
    using v assms(1) by (auto simp: enqueue_for_device_def Let_def ALLOWED_TYPES_def)
  have d1: "get_device i h1 = Some d"
    using enqueue_device_effect [OF e] assms(1) by (simp add: apply_hold_off_def POWER_ON_TYPES_def)
  let ?h2 = "modify_device i (\<lambda>d. d\<lparr>dev_last_config_pushed_at := Some (env_now E)\<rparr>) h1"
  let ?r = "\<lparr>pr_enqueued = True, pr_command_id = Some (c_id c), pr_reason = None, pr_source = Some source\<rparr>"
  have cc: "h_commands h1 = h_commands h @ [c] \<and> c_device_id c = i \<and> c_type c = ''apply_config'' \<and> c_payload c = p"
    using e v by (elim enqueue_for_deviceE) (simp add: new_command_def)
  show ?thesis
  proof (rule that)
    show "push_desired_config E i source uid h = Inr (?r, ?h2)"
      using assms(1-4,6) e by (simp add: push_desired_config_def nonempty_dict_def)
    show "h_commands ?h2 = h_commands h @ [c]" using cc by (simp add: modify_device_def)
    show "get_device i ?h2 = Some (d\<lparr>dev_last_config_pushed_at := Some (env_now E)\<rparr>)"
      using d1 by (simp add: get_device_modify_field)
  qed (use cc in simp_all)
qed

lemma echo_in_sync:
  assumes "get_device i h = Some d" and "dev_desired_config d = Some p" and "wf_val (VDict p)" and "p \<noteq> []"
  shows "compute_drift i (record_reported_config i (VDict p) h) =
    \<lparr>dr_in_sync = True, dr_missing = [], dr_mismatch = [], dr_extra = [], dr_reason = None\<rparr>"
proof -
  have g: "get_device i (record_reported_config i (VDict p) h) = Some (d\<lparr>dev_last_reported_config := Some p\<rparr>)"
    using assms(1,4) by (simp add: record_reported_config_def get_device_modify_field)
  have has: "dhas p k" if "k \<in> fst ` set p" for k using that by (simp add: dhas_def map_of_eq_None_iff)
  have "py_eq (dget p k) v" if "(k, v) \<in> set p" for k v
  proof -
    have "map_of p k = Some v" using that assms(3) by simp
    moreover have "wf_val v" using that assms(3) by (auto simp: list_all_iff)
    ultimately show ?thesis by (simp add: dget_def py_eq_refl)
  qed
  then have "mismatches p p = []" by (auto simp: mismatches_def filter_empty_conv)
  moreover have "filter (\<lambda>k. \<not> dhas p k) (map fst p) = []" using has by (auto simp: filter_empty_conv)
  ultimately show ?thesis using assms(2,4) by (simp add: compute_drift_def g dict_or_empty_def)
qed

section \<open>Properties\<close>

text \<open>A device is reported in sync exactly when the operator wants nothing of it, or it has reported
  every wanted field with a value Python finds equal.\<close>

theorem in_sync_iff:
  "dr_in_sync (compute_drift i h) \<longleftrightarrow>
     (\<exists>d. get_device i h = Some d \<and>
        list_all (\<lambda>(k, want). case map_of (dict_or_empty (dev_last_reported_config d)) k of
                                None \<Rightarrow> False | Some got \<Rightarrow> py_eq got want)
          (dict_or_empty (dev_desired_config d)))"
proof (cases "get_device i h")
  case None
  then show ?thesis by (simp add: compute_drift_def)
next
  case (Some d)
  define want rep where "want = dict_or_empty (dev_desired_config d)" and "rep = dict_or_empty (dev_last_reported_config d)"
  let ?covered = "list_all (\<lambda>(k, w). case map_of rep k of None \<Rightarrow> False | Some got \<Rightarrow> py_eq got w) want"
  have "(filter (\<lambda>k. \<not> dhas rep k) (map fst want) = [] \<and> mismatches want rep = []) \<longleftrightarrow> ?covered"
    by (fastforce simp: mismatches_def filter_empty_conv list_all_iff dhas_def dget_def split: option.splits)
  moreover have "rep = [] \<Longrightarrow> want \<noteq> [] \<Longrightarrow> \<not> ?covered" by (cases want) auto
  ultimately show ?thesis
    unfolding compute_drift_def Some by (auto simp: Let_def want_def [symmetric] rep_def [symmetric])
qed

text \<open>C19: What an operator stores reaches the device: for a centrally managed device every configuration
  that was accepted is also accepted by the command queue when it is pushed, the command carries
  exactly that configuration, and once the device echoes it the two are in sync with nothing missing,
  different or extra.\<close>

theorem desired_config_converges:
  assumes "set_desired_config E i (VDict p) mode h = Inr (Some out, h1)" and "p \<noteq> []" and "wf_val (VDict p)"
    and "map_option dev_central_management_enabled (get_device i h) = Some True" and "source \<in> set PUSH_SOURCES"
  shows "\<exists>r c h2. push_desired_config E' i source uid h1 = Inr (r, h2) \<and> pr_enqueued r
    \<and> h_commands h2 = h_commands h1 @ [c] \<and> pr_command_id r = Some (c_id c) \<and> c_device_id c = i
    \<and> c_type c = ''apply_config'' \<and> c_payload c = p
    \<and> compute_drift i (record_reported_config i (VDict (c_payload c)) h2)
        = \<lparr>dr_in_sync = True, dr_missing = [], dr_mismatch = [], dr_extra = [], dr_reason = None\<rparr>"
proof -
  obtain d where chk: "check_desired_config (VDict p) mode = Inr p" and d: "get_device i h = Some d"
    and h1: "get_device i h1 = Some (d\<lparr>dev_desired_config := nonempty_dict (Some p),
           dev_desired_mode := (if mode = None then dev_desired_mode d else mode),
           dev_desired_config_updated_at := Some (env_now E), dev_updated_at := env_now E\<rparr>)" (is "_ = Some ?d1")
    by (rule set_desired_stored [OF assms(1)])
  have d1: "dev_desired_config ?d1 = Some p" "dev_central_management_enabled ?d1"
    using assms(2,4) d by (simp_all add: nonempty_dict_def)
  obtain r c h2 where pushed: "push_desired_config E' i source uid h1 = Inr (r, h2)" "pr_enqueued r"
    "pr_command_id r = Some (c_id c)" "h_commands h2 = h_commands h1 @ [c]" "c_device_id c = i" "c_type c = ''apply_config''"
    and pay: "c_payload c = p" and g2: "get_device i h2 = Some (?d1\<lparr>dev_last_config_pushed_at := Some (env_now E')\<rparr>)"
    by (rule push_managed [OF h1 d1(2,1) assms(2) check_desired_keys [OF chk] assms(5)])
  have "dev_desired_config (?d1\<lparr>dev_last_config_pushed_at := Some (env_now E')\<rparr>) = Some p"
    using assms(2) by (simp add: nonempty_dict_def)
  from echo_in_sync [OF g2 this assms(3,2)] show ?thesis using pushed pay by (intro exI [of _ r] exI [of _ c] exI [of _ h2]) simp
qed

definition demo_config :: pydict where
  "demo_config = [(''device_name'', VStr ''Attic''), (''boot_warmup_seconds'', VInt 30), (''power'', VDict [(''enabled'', VBool True)])]"

theorem desired_config_converges_witness:
  "\<exists>out h1 r h2. set_desired_config scope_env ''d1'' (VDict demo_config) (Some ''smart_plug'') demo_hub = Inr (Some out, h1)
     \<and> push_desired_config scope_env ''d1'' ''manual'' None h1 = Inr (r, h2) \<and> pr_enqueued r"
proof -
  have m: "map_option dev_central_management_enabled (get_device ''d1'' demo_hub) = Some True"
    and "check_desired_config (VDict demo_config) (Some ''smart_plug'') = Inr demo_config"
    and "get_device ''d1'' demo_hub \<noteq> None" and src: "''manual'' \<in> set PUSH_SOURCES" and ne: "demo_config \<noteq> []" by code_simp+
  then obtain out h1 where st: "set_desired_config scope_env ''d1'' (VDict demo_config) (Some ''smart_plug'') demo_hub = Inr (Some out, h1)"
    by (auto simp: set_desired_config_def Let_def)
  have "wf_val (VDict demo_config)" by (simp add: demo_config_def)
  from desired_config_converges [OF st ne this m src, of scope_env None] st show ?thesis by blast
qed

end
