(* ===== verification/Enrollment.thy ===== *)
theory Enrollment
  imports Invitations DeviceConfig
begin

text \<open>
  How a device joins the hub: enrollment tokens and registration (\<open>app/services/enrollment.py\<close>) and the
  authentication of a registered device (\<open>_resolve_device\<close> of \<open>app/middleware/device_auth.py\<close>). Announcements and adoption are
  in \<open>Announcements\<close>. The route \<open>/register\<close> is public and runs with no organization bound; the operator's actions run under theirs.
\<close>

datatype enroll_error =
    EnrollmentError string string
  | AnnouncementError string string
  | EnrollRefused tenant_error
  | EnrollIntegrityError
  | NoDefaultOrg

abbreviation invalid_registration :: "string \<Rightarrow> enroll_error" where
  "invalid_registration \<equiv> EnrollmentError ''validation_failed''"

abbreviation invalid_announcement :: "string \<Rightarrow> enroll_error" where
  "invalid_announcement \<equiv> AnnouncementError ''validation_failed''"

text \<open>\<open>x or ""\<close> for a nullable string.\<close>

definition opt_text :: "string option \<Rightarrow> string" where
  "opt_text t = (case t of None \<Rightarrow> [] | Some x \<Rightarrow> x)"

text \<open>SELECTs over the three tenant-scoped tables.\<close>

definition select_tokens :: "env \<Rightarrow> ctx \<times> hub \<Rightarrow> enrollment_token list \<times> ctx \<times> hub" where
  "select_tokens E s = select_scoped E ''enrollment_tokens'' et_organization_id h_enrollment_tokens s"

definition select_announcements :: "env \<Rightarrow> ctx \<times> hub \<Rightarrow> announcement list \<times> ctx \<times> hub" where
  "select_announcements E s = select_scoped E ''device_announcements'' ann_organization_id h_announcements s"

definition select_sites :: "env \<Rightarrow> ctx \<times> hub \<Rightarrow> site list \<times> ctx \<times> hub" where
  "select_sites E s = select_scoped E ''sites'' (Some \<circ> site_organization_id) h_sites s"

section \<open>Enrollment tokens\<close>

definition MAX_TOKEN_TTL :: int where
  "MAX_TOKEN_TTL = 60 * 60 * 24 * 30"

definition enrollment_ttl :: "settings \<Rightarrow> ctx \<Rightarrow> hub \<Rightarrow> int option \<Rightarrow> int" where
  "enrollment_ttl cfg c h ttl =
     (let dflt = ttl_setting c h ''system.enrollment_token_ttl_seconds'' ''REBOOTER_ENROLLMENT_TOKEN_TTL_SECONDS''
                   (cfg_enrollment_token_ttl_seconds cfg)
      in case ttl of None \<Rightarrow> dflt | Some n \<Rightarrow> if n \<le> 0 then dflt else min n MAX_TOKEN_TTL)"

definition token_obj :: "string option \<Rightarrow> flush_obj" where
  "token_obj org = \<lparr>fo_class = ''EnrollmentToken'', fo_org = org, fo_modified = True\<rparr>"

text \<open>The columns a token is minted with.\<close>

record token_request =
  tr_issued_by_user_id :: "string option"
  tr_site_id :: "string option"
  tr_display_name_hint :: "string option"
  tr_note :: "string option"
  tr_ttl_seconds :: "int option"
  tr_target_device_id :: "string option"

definition token_row ::
  "env \<Rightarrow> crypto \<Rightarrow> settings \<Rightarrow> string \<Rightarrow> token_request \<Rightarrow> string option \<Rightarrow> ctx \<Rightarrow> hub \<Rightarrow> enrollment_token" where
  "token_row E K cfg secret q org c h =
     \<lparr>et_id = new_id (env_ulid E) ''et'' (h_ulid h), et_organization_id = org, et_token_hash = cy_sha256 K secret,
      et_issued_by_user_id = tr_issued_by_user_id q, et_site_id = tr_site_id q,
      et_display_name_hint = tr_display_name_hint q, et_note = tr_note q, et_consumed_at = None,
      et_consumed_by_device_id = None, et_expires_at = env_now E + secs (enrollment_ttl cfg c h (tr_ttl_seconds q)),
      et_created_at = env_now E, et_target_device_id = tr_target_device_id q\<rparr>"

text \<open>The constraints of the table: the organization is NOT NULL, id and hash are unique, the foreign keys.\<close>

definition token_insertable :: "enrollment_token \<Rightarrow> hub \<Rightarrow> bool" where
  "token_insertable r h \<longleftrightarrow> et_organization_id r \<noteq> None
     \<and> tget et_id (et_id r) (h_enrollment_tokens h) = None \<and> tget et_token_hash (et_token_hash r) (h_enrollment_tokens h) = None
     \<and> (case et_site_id r of None \<Rightarrow> True | Some i \<Rightarrow> get_site i h \<noteq> None)
     \<and> (case et_target_device_id r of None \<Rightarrow> True | Some i \<Rightarrow> get_device i h \<noteq> None)
     \<and> (case et_issued_by_user_id r of None \<Rightarrow> True | Some i \<Rightarrow> load_user i h \<noteq> None)"

text \<open>The organization of the token is its site's; without one the write guard stamps the active one.\<close>

definition token_org :: "env \<Rightarrow> string option \<Rightarrow> ctx \<times> hub \<Rightarrow> string option \<times> ctx \<times> hub" where
  "token_org E site s =
     (if opt_text site = [] then (None, s)
      else let (rows, s1) = select_sites E s in (map_option site_organization_id (tget site_id (opt_text site) rows), s1))"

definition mint_enrollment_token ::
  "env \<Rightarrow> crypto \<Rightarrow> settings \<Rightarrow> string \<Rightarrow> token_request \<Rightarrow> ctx \<times> hub \<Rightarrow>
   enroll_error + (enrollment_token \<times> string \<times> ctx \<times> hub)" where
  "mint_enrollment_token E K cfg rnd q s =
     (let secret = ''et_'' @ rnd; (org, s1) = token_org E (tr_site_id q) s
      in case stamp_and_guard_tenant_writes E [token_obj org] [] s1 of
           Inl e \<Rightarrow> Inl (EnrollRefused e)
         | Inr (new, _, c, h) \<Rightarrow>
             (let r = token_row E K cfg secret q (fo_org (hd new)) (fst s) h
              in if token_insertable r h
                 then Inr (r, secret, c, h\<lparr>h_enrollment_tokens := tadd r (h_enrollment_tokens h), h_ulid := Suc (h_ulid h)\<rparr>)
                 else Inl EnrollIntegrityError))"

definition list_enrollment_tokens :: "env \<Rightarrow> ctx \<times> hub \<Rightarrow> enrollment_token list \<times> ctx \<times> hub" where
  "list_enrollment_tokens E s =
     (let (rows, s1) = select_tokens E s in (sort_key (\<lambda>r. - et_created_at r) rows, s1))"

definition revoke_enrollment_token :: "env \<Rightarrow> string \<Rightarrow> ctx \<times> hub \<Rightarrow> enroll_error + (bool \<times> ctx \<times> hub)" where
  "revoke_enrollment_token E i s =
     (let (rows, s1) = select_tokens E s in
      case tget et_id i rows of
        None \<Rightarrow> Inr (False, s1)
      | Some r \<Rightarrow>
          (if et_consumed_at r \<noteq> None then Inr (False, s1)
           else case stamp_and_guard_tenant_writes E [] [] s1 of
             Inl e \<Rightarrow> Inl (EnrollRefused e)
           | Inr (_, _, c, h) \<Rightarrow> Inr (True, c, h\<lparr>h_enrollment_tokens := tdel et_id i (h_enrollment_tokens h)\<rparr>)))"

text \<open>The bulk form: the ids revoked, unknown and already used; deletions happen at the flush.\<close>

fun sort_tokens :: "env \<Rightarrow> string list \<Rightarrow> ctx \<times> hub \<Rightarrow> (string list \<times> string list \<times> string list) \<times> ctx \<times> hub" where
  "sort_tokens E [] s = (([], [], []), s)"
| "sort_tokens E (i # is) s =
     (let (rows, s1) = select_tokens E s; ((rs, us, cs), s2) = sort_tokens E is s1 in
      case tget et_id i rows of
        None \<Rightarrow> ((rs, i # us, cs), s2)
      | Some r \<Rightarrow> (if et_consumed_at r \<noteq> None then ((rs, us, i # cs), s2) else ((i # rs, us, cs), s2)))"

definition revoke_enrollment_tokens_bulk ::
  "env \<Rightarrow> string list \<Rightarrow> ctx \<times> hub \<Rightarrow> enroll_error + ((string list \<times> string list \<times> string list) \<times> ctx \<times> hub)" where
  "revoke_enrollment_tokens_bulk E ids s =
     (let ((rs, us, cs), s1) = sort_tokens E ids s in
      case stamp_and_guard_tenant_writes E [] [] s1 of
        Inl e \<Rightarrow> Inl (EnrollRefused e)
      | Inr (_, _, c, h) \<Rightarrow>
          Inr ((rs, us, cs), c, h\<lparr>h_enrollment_tokens := filter (\<lambda>r. et_id r \<notin> set rs) (h_enrollment_tokens h)\<rparr>))"

section \<open>Registration\<close>

definition REGISTRATION_FIELDS :: "(string \<times> nat) list" where
  "REGISTRATION_FIELDS = [(''display_name'', 120), (''hardware_model'', 80), (''hardware_revision'', 40),
     (''firmware_version'', 40), (''mac_address'', 40), (''serial_number'', 80), (''local_ip'', 64)]"

text \<open>The characters of \<open>[0-9A-Fa-f:.\-\s]\<close>.\<close>

definition mac_char :: "char \<Rightarrow> bool" where
  "mac_char c \<longleftrightarrow> (let n = of_char c :: nat in 48 \<le> n \<and> n \<le> 57 \<or> 65 \<le> n \<and> n \<le> 70 \<or> 97 \<le> n \<and> n \<le> 102)
     \<or> c = CHR '':'' \<or> c = CHR ''.'' \<or> c = CHR ''-'' \<or> py_isspace c"

definition text_field :: "pydict \<Rightarrow> string \<Rightarrow> string option" where
  "text_field p k = (case dget p k of VStr s \<Rightarrow> Some s | _ \<Rightarrow> None)"

definition bad_field :: "pydict \<Rightarrow> string \<times> nat \<Rightarrow> bool" where
  "bad_field p f = (case dget p (fst f) of VNone \<Rightarrow> False | VStr s \<Rightarrow> snd f < length s | _ \<Rightarrow> True)"

definition MAC_MESSAGE :: string where
  "MAC_MESSAGE = ''mac_address must contain only hex digits, '' @ quoted '':'' @ '', '' @ quoted ''-'' @ '', ''
     @ quoted ''.'' @ '', or spaces''"

definition check_registration :: "pydict \<Rightarrow> enroll_error option" where
  "check_registration p =
     (case find (bad_field p) REGISTRATION_FIELDS of
        Some (k, n) \<Rightarrow> Some (invalid_registration (if is_str (dget p k) then k @ '' must be '' @ dec n @ '' characters or fewer''
                                               else k @ '' must be a string''))
      | None \<Rightarrow>
          (case text_field p ''mac_address'' of
             Some m \<Rightarrow> if list_all mac_char m then None else Some (invalid_registration MAC_MESSAGE)
           | None \<Rightarrow> None))"

definition QA_PREFIXES :: "string list" where
  "QA_PREFIXES = [''qa '', ''qa-'', ''qa_'', ''test-'', ''playwright'']"

definition looks_like_qa :: "string option list \<Rightarrow> bool" where
  "looks_like_qa cs = list_ex (\<lambda>c. case c of
     None \<Rightarrow> False | Some s \<Rightarrow> s \<noteq> [] \<and> list_ex (starts_with (py_lower (py_strip s))) QA_PREFIXES) cs"

text \<open>\<open>a or b\<close> for nullable strings, and \<open>(mac or "").strip().upper()\<close>.\<close>

definition or_else :: "string option \<Rightarrow> string option \<Rightarrow> string option" where
  "or_else a b = (case a of Some (x # xs) \<Rightarrow> Some (x # xs) | _ \<Rightarrow> b)"

definition plain_mac :: "string option \<Rightarrow> string" where
  "plain_mac m = py_upper (py_strip (case m of None \<Rightarrow> [] | Some t \<Rightarrow> t))"

text \<open>\<open>resolve_default_site_id\<close> of \<open>sites.py\<close> and \<open>resolve_default_org_id\<close> of \<open>bootstrap.py\<close> on the hub.\<close>

definition hub_default_org :: "hub \<Rightarrow> string option" where
  "hub_default_org h =
     (case find (\<lambda>g. org_slug g = ''default'') (h_organizations h) of
        Some g \<Rightarrow> Some (org_id g)
      | None \<Rightarrow> (case h_organizations h of [g] \<Rightarrow> Some (org_id g) | _ \<Rightarrow> None))"

definition hub_default_site :: "env \<Rightarrow> ctx \<times> hub \<Rightarrow> enroll_error + (string \<times> ctx \<times> hub)" where
  "hub_default_site E s =
     (let (rows, s1) = select_sites E s in
      case find (\<lambda>r. site_name r = ''Default'') rows of
        Some r \<Rightarrow> Inr (site_id r, s1)
      | None \<Rightarrow>
          (let (rows2, s2) = select_sites E s1 in
           case rows2 of
             [r] \<Rightarrow> Inr (site_id r, s2)
           | _ \<Rightarrow>
               (case hub_default_org (snd s2) of
                  None \<Rightarrow> Inl NoDefaultOrg
                | Some org \<Rightarrow>
                    (case stamp_and_guard_tenant_writes E [\<lparr>fo_class = ''Site'', fo_org = Some org, fo_modified = True\<rparr>] [] s2 of
                       Inl e \<Rightarrow> Inl (EnrollRefused e)
                     | Inr (_, _, c, h) \<Rightarrow>
                         (let r = \<lparr>site_id = new_id (env_ulid E) ''site'' (h_ulid h), site_organization_id = org,
                                   site_name = ''Default'', site_description = None, site_created_at = env_now E,
                                   site_updated_at = env_now E\<rparr>
                          in if list_ex (\<lambda>q. site_id q = site_id r \<or> site_organization_id q = org \<and> site_name q = ''Default'') (h_sites h)
                             then Inl EnrollIntegrityError
                             else Inr (site_id r, c, h\<lparr>h_sites := tadd r (h_sites h), h_ulid := Suc (h_ulid h)\<rparr>))))))"

definition new_credential :: "env \<Rightarrow> crypto \<Rightarrow> string \<Rightarrow> string \<Rightarrow> hub \<Rightarrow> device_credential" where
  "new_credential E K did secret h =
     \<lparr>cr_id = new_id (env_ulid E) ''dcr'' (h_ulid h), cr_device_id = did, cr_token_hash = cy_sha256 K secret,
      cr_revoked = False, cr_issued_at = env_now E, cr_last_used_at = None\<rparr>"

text \<open>Inserting the credential: one per device, hashes unique.\<close>

definition add_credential :: "env \<Rightarrow> crypto \<Rightarrow> string \<Rightarrow> string \<Rightarrow> hub \<Rightarrow> enroll_error + hub" where
  "add_credential E K did secret h =
     (let r = new_credential E K did secret h
      in if list_ex (\<lambda>q. cr_id q = cr_id r \<or> cr_device_id q = did \<or> cr_token_hash q = cr_token_hash r) (h_credentials h)
         then Inl EnrollIntegrityError
         else Inr (h\<lparr>h_credentials := tadd r (h_credentials h), h_ulid := Suc (h_ulid h)\<rparr>))"

text \<open>Restore after a reflash: the existing row is rebound, its credential rotated.\<close>

definition restored :: "env \<Rightarrow> pydict \<Rightarrow> device \<Rightarrow> device" where
  "restored E p d =
     d\<lparr>dev_firmware_version := or_else (text_field p ''firmware_version'') (dev_firmware_version d),
       dev_hardware_revision := or_else (text_field p ''hardware_revision'') (dev_hardware_revision d),
       dev_local_ip := or_else (text_field p ''local_ip'') (dev_local_ip d),
       dev_mac_address := (if plain_mac (text_field p ''mac_address'') \<noteq> [] \<and> plain_mac (dev_mac_address d) = []
                           then text_field p ''mac_address'' else dev_mac_address d),
       dev_registration_state := ''active'',
       dev_capabilities := (if truthy (dget p ''capabilities'') then dget p ''capabilities''
                            else if truthy (dev_capabilities d) then dev_capabilities d else VDict []),
       dev_last_heartbeat_at := None, dev_updated_at := env_now E\<rparr>"

definition register_restore ::
  "env \<Rightarrow> crypto \<Rightarrow> string \<Rightarrow> pydict \<Rightarrow> string \<Rightarrow> hub \<Rightarrow> enroll_error + (device \<times> hub)" where
  "register_restore E K secret p target h =
     (case get_device target h of
        None \<Rightarrow> Inl (EnrollmentError ''enrollment_invalid'' ''Restore target device no longer exists.'')
      | Some d \<Rightarrow>
          (let incoming = plain_mac (text_field p ''mac_address''); existing = plain_mac (dev_mac_address d) in
           if dev_registration_state d = ''decommissioned''
           then Inl (EnrollmentError ''enrollment_invalid'' ''Restore target device no longer exists.'')
           else if incoming \<noteq> [] \<and> existing \<noteq> [] \<and> incoming \<noteq> existing
           then Inl (EnrollmentError ''device_mismatch'' ''MAC address does not match restore target.'')
           else
             let h1 = (modify_device target (restored E p) h)\<lparr>h_credentials := filter (\<lambda>c. cr_device_id c \<noteq> target) (h_credentials h)\<rparr>
             in case add_credential E K target secret h1 of
                  Inl e \<Rightarrow> Inl e
                | Inr h2 \<Rightarrow> Inr (restored E p d, h2)))"

definition duplicate_mac :: "string \<Rightarrow> device \<Rightarrow> bool" where
  "duplicate_mac mac d \<longleftrightarrow> dev_registration_state d = ''active'' \<and> dev_mac_address d \<noteq> None \<and> plain_mac (dev_mac_address d) = mac"

definition register_fresh ::
  "env \<Rightarrow> crypto \<Rightarrow> string \<Rightarrow> pydict \<Rightarrow> string \<Rightarrow> bool \<Rightarrow> string option \<Rightarrow> ctx \<times> hub \<Rightarrow> enroll_error + (device \<times> ctx \<times> hub)" where
  "register_fresh E K secret p name qa token_site s =
     (let mac = plain_mac (text_field p ''mac_address'') in
      if mac \<noteq> [] \<and> list_ex (duplicate_mac mac) (h_devices (snd s))
      then Inl (EnrollmentError ''device_already_registered'' (''An active device with this MAC address already exists. ''
             @ ''Use the Restore path (pending-adoption -> '' @ quoted ''Restore to this device'' @ '') to rebind the ''
             @ ''existing device row instead of creating a duplicate.''))
      else case (case token_site of Some (x # xs) \<Rightarrow> Inr (x # xs, s) | _ \<Rightarrow> hub_default_site E s) of
        Inl e \<Rightarrow> Inl e
      | Inr (sid, c, h) \<Rightarrow>
          (let d = (new_device (new_id (env_ulid E) ''dev'' (h_ulid h)) name (env_now E))
                     \<lparr>dev_hardware_model := text_field p ''hardware_model'', dev_hardware_revision := text_field p ''hardware_revision'',
                      dev_firmware_version := text_field p ''firmware_version'', dev_mac_address := text_field p ''mac_address'',
                      dev_serial_number := text_field p ''serial_number'', dev_local_ip := text_field p ''local_ip'',
                      dev_site_id := Some sid, dev_registration_state := ''active'',
                      dev_capabilities := (if truthy (dget p ''capabilities'') then dget p ''capabilities'' else VDict []),
                      dev_is_qa_fixture := qa\<rparr>
           in if get_device (dev_id d) h \<noteq> None \<or> get_site sid h = None then Inl EnrollIntegrityError
              else case add_credential E K (dev_id d) secret (put_device d (h\<lparr>h_ulid := Suc (h_ulid h)\<rparr>)) of
                     Inl e \<Rightarrow> Inl e
                   | Inr h2 \<Rightarrow> Inr (d, c, h2)))"

text \<open>The device the token stands for: its target rebound, or a new row.\<close>

definition register_device ::
  "env \<Rightarrow> crypto \<Rightarrow> string \<Rightarrow> pydict \<Rightarrow> enrollment_token \<Rightarrow> ctx \<times> hub \<Rightarrow> enroll_error + (device \<times> ctx \<times> hub)" where
  "register_device E K secret p et s =
     (let name = opt_text (or_else (text_field p ''display_name'') (et_display_name_hint et));
          qa = (truthy (dget p ''qa_fixture'') \<or> looks_like_qa [Some name, et_display_name_hint et, et_note et]);
          target = opt_text (et_target_device_id et)
      in if target = [] then register_fresh E K secret p name qa (et_site_id et) s
         else case register_restore E K secret p target (snd s) of
                Inl e \<Rightarrow> Inl e
              | Inr (d, h) \<Rightarrow> Inr (d, fst s, h))"

definition marked :: "env \<Rightarrow> string \<Rightarrow> string option \<Rightarrow> enrollment_token \<Rightarrow> enrollment_token" where
  "marked E did org r = r\<lparr>et_consumed_at := Some (env_now E), et_consumed_by_device_id := Some did, et_organization_id := org\<rparr>"

text \<open>The session of a registration: the token is found and open, the device is written, the token is marked
  used. Afterwards, in sessions of their own, the announcement is cross-linked and a restored device gets
  its configuration.\<close>

definition register_session ::
  "env \<Rightarrow> crypto \<Rightarrow> string \<Rightarrow> string \<Rightarrow> pydict \<Rightarrow> ctx \<times> hub \<Rightarrow> enroll_error + (device \<times> enrollment_token \<times> ctx \<times> hub)" where
  "register_session E K secret token p s =
     (let (rows, s1) = select_tokens E s in
      case tget et_token_hash (cy_sha256 K token) rows of
        None \<Rightarrow> Inl (EnrollmentError ''enrollment_invalid'' ''Enrollment token is not recognized.'')
      | Some et \<Rightarrow>
          (if et_consumed_at et \<noteq> None then Inl (EnrollmentError ''enrollment_consumed'' ''Enrollment token already used.'')
           else if et_expires_at et \<le> env_now E then Inl (EnrollmentError ''enrollment_expired'' ''Enrollment token has expired.'')
           else case register_device E K secret p et s1 of
             Inl e \<Rightarrow> Inl e
           | Inr (d, s2) \<Rightarrow>
               (case stamp_and_guard_tenant_writes E [] [token_obj (et_organization_id et)] s2 of
                  Inl e \<Rightarrow> Inl (EnrollRefused e)
                | Inr (_, dirty, c, h) \<Rightarrow>
                    (let mark = marked E (dev_id d) (fo_org (hd dirty))
                     in Inr (d, mark et, c, h\<lparr>h_enrollment_tokens :=
                          tupd et_token_hash (cy_sha256 K token) mark (h_enrollment_tokens h)\<rparr>)))))"

definition normalize_mac :: "string option \<Rightarrow> string" where
  "normalize_mac m =
     filter (\<lambda>c. c \<noteq> CHR '':'' \<and> c \<noteq> CHR ''-'' \<and> c \<noteq> CHR ''.'' \<and> c \<noteq> CHR '' '' \<and> c \<noteq> CHR 9 \<and> c \<noteq> CHR 13 \<and> c \<noteq> CHR 10)
       (plain_mac m)"

text \<open>Flushing an announcement row on the session; the guard looks at it only when a column changed.\<close>

definition announcement_obj :: "announcement \<Rightarrow> hub \<Rightarrow> flush_obj" where
  "announcement_obj r h = \<lparr>fo_class = ''DeviceAnnouncement'', fo_org = ann_organization_id r,
     fo_modified = (tget ann_id (ann_id r) (h_announcements h) \<noteq> Some r)\<rparr>"

definition flush_announcement :: "env \<Rightarrow> announcement \<Rightarrow> ctx \<times> hub \<Rightarrow> enroll_error + (announcement \<times> ctx \<times> hub)" where
  "flush_announcement E r s =
     (case stamp_and_guard_tenant_writes E [] [announcement_obj r (snd s)] s of
        Inl e \<Rightarrow> Inl (EnrollRefused e)
      | Inr (_, dirty, c, h) \<Rightarrow>
          (let r' = r\<lparr>ann_organization_id := fo_org (hd dirty)\<rparr>
           in Inr (r', c, h\<lparr>h_announcements := tupd ann_id (ann_id r) (\<lambda>_. r') (h_announcements h)\<rparr>)))"

definition mark_consumed :: "env \<Rightarrow> string \<Rightarrow> ctx \<times> hub \<Rightarrow> ctx \<times> hub" where
  "mark_consumed E mac s =
     (let target = normalize_mac (Some mac) in
      if target = [] then s
      else
        let (rows, s1) = select_announcements E s;
            (found, s2) = (case tget ann_mac_address target rows of
                Some r \<Rightarrow> (Some r, s1)
              | None \<Rightarrow> (let (rows2, s2) = select_announcements E s1
                         in (find (\<lambda>r. normalize_mac (Some (ann_mac_address r)) = target) rows2, s2)))
        in case found of
             None \<Rightarrow> s2
           | Some r \<Rightarrow>
               (if ann_consumed_at r \<noteq> None then s2
                else case flush_announcement E (r\<lparr>ann_consumed_at := Some (env_now E), ann_adoption_token_secret := None\<rparr>) s2 of
                       Inl _ \<Rightarrow> s
                     | Inr (_, s3) \<Rightarrow> s3))"

definition restore_details :: "string \<Rightarrow> pydict \<Rightarrow> pydict" where
  "restore_details via rest = [(''trigger'', VStr ''restore_after_reflash''), (''via'', VStr via)] @ rest"

definition push_restore_config :: "env \<Rightarrow> string \<Rightarrow> string \<Rightarrow> string option \<Rightarrow> ctx \<times> hub \<Rightarrow> ctx \<times> hub" where
  "push_restore_config E did name uid s =
     (let audit = (\<lambda>details s. audit_record E ''device.restore_config_pushed'' uid None (Some ''device'') (Some did) details None s);
          desired = dict_or_empty (get_desired_config did (snd s));
          pushed = (if desired \<noteq> [] \<and> is_feature_enabled E (fst s) (snd s)
                    then (case push_desired_config E did ''restore'' uid (snd s) of Inr (r, h) \<Rightarrow> if pr_enqueued r then Some (r, h) else None
                          | Inl _ \<Rightarrow> None)
                    else None)
      in case pushed of
           Some (r, h) \<Rightarrow> audit (restore_details ''desired_config_blob'' [(''command_id'', of_opt_str (pr_command_id r)),
                              (''pushed_keys'', VList (map VStr (sort (map fst desired))))]) (fst s, h)
         | None \<Rightarrow>
             (if name = [] then s
              else case enqueue_for_device (env_ulid E) (env_now E) did ''apply_config'' (Some [(''device_name'', VStr name)]) uid
                          (Some 600) None False False (snd s) of
                     Inl _ \<Rightarrow> s
                   | Inr (_, h) \<Rightarrow> audit (restore_details ''display_name_only'' [(''pushed_fields'', VList [VStr ''device_name'']),
                                        (''device_name'', VStr name)]) (fst s, h)))"

definition consume_enrollment_token ::
  "env \<Rightarrow> crypto \<Rightarrow> string \<Rightarrow> string \<Rightarrow> pydict \<Rightarrow> ctx \<times> hub \<Rightarrow> enroll_error + (device \<times> string \<times> ctx \<times> hub)" where
  "consume_enrollment_token E K rnd token p s =
     (case check_registration p of
        Some e \<Rightarrow> Inl e
      | None \<Rightarrow>
          (let secret = ''dt_'' @ rnd in
           case register_session E K secret token p s of
             Inl e \<Rightarrow> Inl e
           | Inr (d, et, s1) \<Rightarrow>
               (let s2 = mark_consumed E (opt_text (dev_mac_address d)) s1;
                    s3 = (if opt_text (et_target_device_id et) = [] then s2
                          else push_restore_config E (dev_id d) (dev_display_name d) (et_issued_by_user_id et) s2)
                in Inr (d, secret, s3))))"

section \<open>Authentication of a device\<close>

text \<open>\<open>_resolve_device\<close> runs under the system bypass: no read of it is filtered.\<close>

definition device_org :: "device \<Rightarrow> hub \<Rightarrow> string option" where
  "device_org d h =
     (case dev_site_id d of
        Some (x # xs) \<Rightarrow> map_option site_organization_id (get_site (x # xs) h)
      | _ \<Rightarrow> None)"

definition resolve_device :: "env \<Rightarrow> crypto \<Rightarrow> string \<Rightarrow> hub \<Rightarrow> (device \<times> string option) option \<times> hub" where
  "resolve_device E K auth h =
     (if \<not> starts_with auth ''Bearer '' then (None, h)
      else let tok = cy_sha256 K (drop 7 auth) in
        case find (\<lambda>c. cr_token_hash c = tok \<and> \<not> cr_revoked c) (h_credentials h) of
          None \<Rightarrow> (None, h)
        | Some cr \<Rightarrow>
            (case get_device (cr_device_id cr) h of
               None \<Rightarrow> (None, h)
             | Some d \<Rightarrow>
                 (if dev_registration_state d \<noteq> ''active'' then (None, h)
                  else
                    let f = (\<lambda>d. d\<lparr>dev_last_seen_at := Some (env_now E)\<rparr>)
                    in (Some (f d, device_org d h),
                        (modify_device (dev_id d) f h)\<lparr>h_credentials :=
                           tupd cr_id (cr_id cr) (\<lambda>c. c\<lparr>cr_last_used_at := Some (env_now E)\<rparr>) (h_credentials h)\<rparr>))))"

section \<open>Frames\<close>

lemma select_scoped_facts:
  assumes "select_scoped E t org_of rows (c, h) = (rs, c', h')"
  shows "set rs \<subseteq> set (rows h)" and "\<exists>a. h' = h\<lparr>h_audit := a\<rparr>" and "cx_org c' = cx_org c"
proof -
  have "rs = fst (select_scoped E t org_of rows (c, h))" by (simp only: assms fst_conv)
  then show "set rs \<subseteq> set (rows h)" using visible_subset by (simp add: fst_select_scoped)
  show "\<exists>a. h' = h\<lparr>h_audit := a\<rparr>" using select_scoped_frame(2) [OF assms] by blast
  show "cx_org c' = cx_org c" using select_scoped_frame(1) [OF assms] by (simp add: scope_eq_def)
qed

lemmas select_tokens_facts = select_scoped_facts [OF select_tokens_def [symmetric, THEN trans]]
lemmas select_announcements_facts = select_scoped_facts [OF select_announcements_def [symmetric, THEN trans]]
lemmas select_sites_facts = select_scoped_facts [OF select_sites_def [symmetric, THEN trans]]

text \<open>The two tables registration is about; everything here leaves them alone unless it says so.\<close>

definition same_registry :: "hub \<Rightarrow> hub \<Rightarrow> bool" where
  "same_registry h h' \<longleftrightarrow> h_enrollment_tokens h' = h_enrollment_tokens h \<and> h_credentials h' = h_credentials h"

lemma same_registry_audit [simp]: "same_registry h (h\<lparr>h_audit := a\<rparr>)"
  by (simp add: same_registry_def)

lemma same_registry_refl [simp]: "same_registry h h"
  by (simp add: same_registry_def)

lemma same_registry_trans: "same_registry h h' \<Longrightarrow> same_registry h' h'' \<Longrightarrow> same_registry h h''"
  by (simp add: same_registry_def)

lemma flush_same: "stamp_and_guard_tenant_writes E new dirty (c, h) = Inr (new', dirty', c', h') \<Longrightarrow> \<exists>a. h' = h\<lparr>h_audit := a\<rparr>"
  using flush_frame by blast

text \<open>The hub without the announcements, and without the sites, next to the audit log and the id counter.\<close>

definition sans_ann :: "hub \<Rightarrow> hub" where
  "sans_ann h = h\<lparr>h_audit := [], h_announcements := []\<rparr>"

definition sans_sites :: "hub \<Rightarrow> hub" where
  "sans_sites h = h\<lparr>h_audit := [], h_sites := [], h_ulid := 0\<rparr>"

lemma sans_audit [simp]: "sans_ann (h\<lparr>h_audit := a\<rparr>) = sans_ann h" "sans_sites (h\<lparr>h_audit := a\<rparr>) = sans_sites h"
  by (simp_all add: sans_ann_def sans_sites_def)

lemma sans_annD:
  assumes "sans_ann h' = sans_ann h"
  shows "h_enrollment_tokens h' = h_enrollment_tokens h" "h_credentials h' = h_credentials h" "h_devices h' = h_devices h"
    "h_sites h' = h_sites h" "h_settings h' = h_settings h" "h_commands h' = h_commands h"
  using arg_cong [OF assms, of h_enrollment_tokens] arg_cong [OF assms, of h_credentials] arg_cong [OF assms, of h_devices]
    arg_cong [OF assms, of h_sites] arg_cong [OF assms, of h_settings] arg_cong [OF assms, of h_commands]
  by (simp_all add: sans_ann_def)

lemma sans_sitesD:
  assumes "sans_sites h' = sans_sites h"
  shows "h_enrollment_tokens h' = h_enrollment_tokens h" "h_credentials h' = h_credentials h" "h_devices h' = h_devices h"
    "h_announcements h' = h_announcements h"
  using arg_cong [OF assms, of h_enrollment_tokens] arg_cong [OF assms, of h_credentials] arg_cong [OF assms, of h_devices]
    arg_cong [OF assms, of h_announcements]
  by (simp_all add: sans_sites_def)

lemma select_announcements_sans [simp]: "sans_ann (snd (snd (select_announcements E s))) = sans_ann (snd s)"
  by (cases s; cases "select_announcements E s") (use select_announcements_facts(2) in fastforce)

lemma flush_announcement_sans: "flush_announcement E r s = Inr (r', s') \<Longrightarrow> sans_ann (snd s') = sans_ann (snd s)"
  by (cases s) (auto simp: flush_announcement_def Let_def sans_ann_def split: sum.splits dest!: flush_same)

lemma mark_consumed_sans: "sans_ann (snd (mark_consumed E mac s)) = sans_ann (snd s)"
proof -
  obtain rows s1 where s1: "select_announcements E s = (rows, s1)" by (cases "select_announcements E s")
  obtain rows2 s2 where s2: "select_announcements E s1 = (rows2, s2)" by (cases "select_announcements E s1")
  have sans: "sans_ann (snd s1) = sans_ann (snd s)" "sans_ann (snd s2) = sans_ann (snd s)"
    using select_announcements_sans [of E s] select_announcements_sans [of E s1] s1 s2 by simp_all
  have "sans_ann (snd (case found of None \<Rightarrow> t | Some r \<Rightarrow> if ann_consumed_at r \<noteq> None then t
      else case flush_announcement E (r\<lparr>ann_consumed_at := Some (env_now E), ann_adoption_token_secret := None\<rparr>) t of
             Inl _ \<Rightarrow> s | Inr (_, s3) \<Rightarrow> s3)) = sans_ann (snd s)"
    if "sans_ann (snd t) = sans_ann (snd s)" for found t
    using that by (auto split: option.splits sum.splits dest: flush_announcement_sans)
  note fin = this
  show ?thesis
  proof (cases "tget ann_mac_address (normalize_mac (Some mac)) rows")
    case None
    then show ?thesis
      using fin [OF sans(2), of "find (\<lambda>r. normalize_mac (Some (ann_mac_address r)) = normalize_mac (Some mac)) rows2"]
      by (simp add: mark_consumed_def Let_def s1 s2)
  next
    case (Some r)
    then show ?thesis using fin [OF sans(1), of "Some r"] by (simp add: mark_consumed_def Let_def s1)
  qed
qed

lemma token_org_frame:
  assumes "token_org E site (c, h) = (org, c1, h1)"
  shows "\<exists>a. h1 = h\<lparr>h_audit := a\<rparr>"
proof (cases "opt_text site = []")
  case True
  then have "h1 = h\<lparr>h_audit := h_audit h\<rparr>" using assms by (simp add: token_org_def)
  then show ?thesis by blast
next
  case False
  obtain rows c2 h2 where sel: "select_sites E (c, h) = (rows, c2, h2)" by (metis prod_cases3)
  then have "h1 = h2" using False assms by (auto simp: token_org_def)
  then show ?thesis using select_sites_facts(2) [OF sel] by simp
qed

lemma mint_token_frame:
  assumes "mint_enrollment_token E K cfg rnd q (c, h) = Inr (r, sec, c', h')"
  shows "\<exists>a. h' = h\<lparr>h_audit := a, h_enrollment_tokens := h_enrollment_tokens h @ [r], h_ulid := Suc (h_ulid h)\<rparr>"
    and "et_id r \<notin> et_id ` set (h_enrollment_tokens h)" and "et_token_hash r \<notin> et_token_hash ` set (h_enrollment_tokens h)"
    and "et_consumed_at r = None" and "et_token_hash r = cy_sha256 K sec" and "sec = ''et_'' @ rnd"
    and "et_target_device_id r = tr_target_device_id q"
proof -
  obtain org c1 h1 where s1: "token_org E (tr_site_id q) (c, h) = (org, c1, h1)" by (metis prod_cases3)
  have h1: "\<exists>a. h1 = h\<lparr>h_audit := a\<rparr>" by (rule token_org_frame [OF s1])
  obtain new d c2 h2 where fl: "stamp_and_guard_tenant_writes E [token_obj org] [] (c1, h1) = Inr (new, d, c2, h2)"
    using assms s1 by (auto simp: mint_enrollment_token_def Let_def split: sum.splits)
  obtain a where h2: "h2 = h\<lparr>h_audit := a\<rparr>" using flush_same [OF fl] h1 by auto
  have r: "token_insertable r h2" "h' = h2\<lparr>h_enrollment_tokens := tadd r (h_enrollment_tokens h2), h_ulid := Suc (h_ulid h2)\<rparr>"
    "sec = ''et_'' @ rnd" "\<exists>org c0. r = token_row E K cfg sec q org c0 h2"
    using assms s1 fl by (auto simp: mint_enrollment_token_def Let_def split: if_splits)
  show "\<exists>a. h' = h\<lparr>h_audit := a, h_enrollment_tokens := h_enrollment_tokens h @ [r], h_ulid := Suc (h_ulid h)\<rparr>"
    using r(2) h2 by (auto simp: tadd_def)
  show "et_id r \<notin> et_id ` set (h_enrollment_tokens h)" "et_token_hash r \<notin> et_token_hash ` set (h_enrollment_tokens h)"
    using r(1) h2 by (simp_all add: token_insertable_def tget_None_iff)
  show "et_consumed_at r = None" "et_token_hash r = cy_sha256 K sec" "sec = ''et_'' @ rnd" "et_target_device_id r = tr_target_device_id q"
    using r(3,4) by (auto simp: token_row_def)
qed

lemma add_credentialE:
  assumes "add_credential E K did secret h = Inr h'"
  obtains r where "h' = h\<lparr>h_credentials := h_credentials h @ [r], h_ulid := Suc (h_ulid h)\<rparr>"
    and "cr_device_id r = did" and "cr_token_hash r = cy_sha256 K secret" and "\<not> cr_revoked r"
    and "cr_id r \<notin> cr_id ` set (h_credentials h)" and "did \<notin> cr_device_id ` set (h_credentials h)"
    and "cy_sha256 K secret \<notin> cr_token_hash ` set (h_credentials h)"
proof -
  let ?r = "new_credential E K did secret h"
  have fresh: "\<not> (cr_id q = cr_id ?r \<or> cr_device_id q = did \<or> cr_token_hash q = cr_token_hash ?r)" if "q \<in> set (h_credentials h)" for q
    using assms that by (auto simp: add_credential_def Let_def list_ex_iff split: if_splits)
  have "h' = h\<lparr>h_credentials := h_credentials h @ [?r], h_ulid := Suc (h_ulid h)\<rparr>"
    using assms by (auto simp: add_credential_def Let_def tadd_def split: if_splits)
  then show ?thesis
    by (rule that) (auto simp: new_credential_def dest: fresh [unfolded new_credential_def, simplified] sym)
qed

lemma default_site_sans:
  assumes "hub_default_site E s = Inr (i, s')"
  shows "sans_sites (snd s') = sans_sites (snd s)"
proof -
  have sel: "sans_sites (snd (snd (select_sites E t))) = sans_sites (snd t)" for t
    by (cases t; cases "select_sites E t") (use select_sites_facts(2) in fastforce)
  obtain rows s1 where s1: "select_sites E s = (rows, s1)" by (cases "select_sites E s")
  obtain rows2 s2 where s2: "select_sites E s1 = (rows2, s2)" by (cases "select_sites E s1")
  have sans: "sans_sites (snd s1) = sans_sites (snd s)" "sans_sites (snd s2) = sans_sites (snd s)"
    using sel [of s] sel [of s1] s1 s2 by simp_all
  have ins: "sans_sites h3 = sans_sites (snd s)"
    if "stamp_and_guard_tenant_writes E new dirty s2 = Inr (new', dirty', c3, h3)" for new dirty new' dirty' c3 h3
    using that sans(2) flush_same by (cases s2) fastforce
  have upd: "sans_sites (h3\<lparr>h_sites := x, h_ulid := n\<rparr>) = sans_sites h3" for h3 x n by (simp add: sans_sites_def)
  show ?thesis
  proof (cases "find (\<lambda>r. site_name r = ''Default'') rows")
    case (Some r)
    then show ?thesis using assms s1 sans by (simp add: hub_default_site_def)
  next
    case None
    then show ?thesis using assms s1 s2 sans
      by (auto simp: hub_default_site_def Let_def upd ins split: list.splits option.splits sum.splits if_splits)
  qed
qed

lemma register_freshE:
  assumes "register_fresh E K secret p name qa site (c, h) = Inr (d, c', h')"
  obtains r where "h_enrollment_tokens h' = h_enrollment_tokens h" and "h_credentials h' = h_credentials h @ [r]"
    and "h_devices h' = h_devices h @ [d]" and "get_device (dev_id d) h = None"
    and "dev_registration_state d = ''active''"
    and "cr_device_id r = dev_id d" and "cr_token_hash r = cy_sha256 K secret" and "\<not> cr_revoked r"
    and "cr_id r \<notin> cr_id ` set (h_credentials h)" and "dev_id d \<notin> cr_device_id ` set (h_credentials h)"
    and "cy_sha256 K secret \<notin> cr_token_hash ` set (h_credentials h)"
proof -
  let ?site = "case site of Some (x # xs) \<Rightarrow> Inr (x # xs, c, h) | _ \<Rightarrow> hub_default_site E (c, h)"
  obtain sid c1 h1 where st: "?site = Inr (sid, c1, h1)"
    using assms by (auto simp: register_fresh_def Let_def split: if_splits sum.splits)
  have sans: "sans_sites h1 = sans_sites h"
    using st default_site_sans [of E "(c, h)"] by (auto split: option.splits list.splits)
  obtain h2 where d: "get_device (dev_id d) h1 = None" "dev_registration_state d = ''active''"
    and ac: "add_credential E K (dev_id d) secret (put_device d (h1\<lparr>h_ulid := Suc (h_ulid h1)\<rparr>)) = Inr h2" and h2: "h' = h2"
    using assms st by (auto simp: register_fresh_def Let_def split: if_splits sum.splits)
  show ?thesis
    by (rule add_credentialE [OF ac], rule that) (use d h2 sans_sitesD [OF sans] in \<open>auto simp: put_device_def tadd_def get_device_def\<close>)
qed

lemma register_restoreE:
  assumes "register_restore E K secret p t h = Inr (d, h')"
  obtains d0 r where "get_device t h = Some d0" and "d = restored E p d0" and "h_enrollment_tokens h' = h_enrollment_tokens h"
    and "h_credentials h' = filter (\<lambda>c. cr_device_id c \<noteq> t) (h_credentials h) @ [r]"
    and "h_devices h' = tupd dev_id t (restored E p) (h_devices h)"
    and "cr_device_id r = t" and "cr_token_hash r = cy_sha256 K secret" and "\<not> cr_revoked r"
    and "cr_id r \<notin> cr_id ` set (filter (\<lambda>c. cr_device_id c \<noteq> t) (h_credentials h))"
    and "cy_sha256 K secret \<notin> cr_token_hash ` set (filter (\<lambda>c. cr_device_id c \<noteq> t) (h_credentials h))"
proof -
  let ?h1 = "(modify_device t (restored E p) h)\<lparr>h_credentials := filter (\<lambda>c. cr_device_id c \<noteq> t) (h_credentials h)\<rparr>"
  obtain d0 where d0: "get_device t h = Some d0" using assms by (auto simp: register_restore_def split: option.splits)
  have ac: "add_credential E K t secret ?h1 = Inr h'" and d: "d = restored E p d0"
    using assms d0 by (auto simp: register_restore_def Let_def split: if_splits sum.splits)
  show ?thesis
    by (rule add_credentialE [OF ac], rule that [OF d0 d]) (simp_all add: modify_device_def)
qed

text \<open>What a successful registration did: the token was open and is marked, and the device has exactly one
  new credential, in place of its old one for a restore.\<close>

definition kept_credentials :: "enrollment_token \<Rightarrow> hub \<Rightarrow> device_credential list" where
  "kept_credentials et h =
     (if opt_text (et_target_device_id et) = [] then h_credentials h
      else filter (\<lambda>c. cr_device_id c \<noteq> opt_text (et_target_device_id et)) (h_credentials h))"

lemma register_sessionE:
  assumes "register_session E K secret token p (c, h) = Inr (d, et', c', h')"
  obtains et org r where "et \<in> set (h_enrollment_tokens h)" and "et_token_hash et = cy_sha256 K token"
    and "et_consumed_at et = None" and "env_now E < et_expires_at et" and "et' = marked E (dev_id d) org et"
    and "h_enrollment_tokens h' = tupd et_token_hash (cy_sha256 K token) (marked E (dev_id d) org) (h_enrollment_tokens h)"
    and "h_credentials h' = kept_credentials et h @ [r]"
    and "cr_device_id r = dev_id d" and "cr_token_hash r = cy_sha256 K secret" and "\<not> cr_revoked r"
    and "cr_id r \<notin> cr_id ` set (kept_credentials et h)" and "dev_id d \<notin> cr_device_id ` set (kept_credentials et h)"
    and "cy_sha256 K secret \<notin> cr_token_hash ` set (kept_credentials et h)"
    and "dev_registration_state d = ''active''"
    and "opt_text (et_target_device_id et) = [] \<Longrightarrow> get_device (dev_id d) h = None \<and> h_devices h' = h_devices h @ [d]"
    and "opt_text (et_target_device_id et) \<noteq> [] \<Longrightarrow> dev_id d = opt_text (et_target_device_id et)
           \<and> (\<exists>d0. get_device (dev_id d) h = Some d0 \<and> d = restored E p d0)
           \<and> h_devices h' = tupd dev_id (dev_id d) (restored E p) (h_devices h)"
proof -
  obtain rows c1 h1 where sel: "select_tokens E (c, h) = (rows, c1, h1)" by (metis prod_cases3)
  obtain a1 where h1: "h1 = h\<lparr>h_audit := a1\<rparr>" using select_tokens_facts(2) [OF sel] by blast
  obtain et where get: "tget et_token_hash (cy_sha256 K token) rows = Some et"
    and open_tok: "et_consumed_at et = None" "env_now E < et_expires_at et"
    using assms sel by (auto simp: register_session_def not_le split: option.splits if_splits)
  have et: "et \<in> set (h_enrollment_tokens h)" "et_token_hash et = cy_sha256 K token"
    using tget_SomeD [OF get] select_tokens_facts(1) [OF sel] by auto
  obtain d2 c2 h2 where out: "register_device E K secret p et (c1, h1) = Inr (d2, c2, h2)"
    using assms sel get open_tok by (auto simp: register_session_def split: sum.splits)
  obtain new dirty c3 h3 where fl: "stamp_and_guard_tenant_writes E [] [token_obj (et_organization_id et)] (c2, h2) = Inr (new, dirty, c3, h3)"
    using assms sel get open_tok out by (auto simp: register_session_def Let_def split: sum.splits)
  have res: "d2 = d" "et' = marked E (dev_id d) (fo_org (hd dirty)) et"
    and h': "h' = h3\<lparr>h_enrollment_tokens := tupd et_token_hash (cy_sha256 K token) (marked E (dev_id d) (fo_org (hd dirty))) (h_enrollment_tokens h3)\<rparr>"
    using assms sel get open_tok out fl by (auto simp: register_session_def Let_def)
  obtain a3 where h3: "h3 = h2\<lparr>h_audit := a3\<rparr>" using flush_same [OF fl] by blast
  show ?thesis
  proof (cases "opt_text (et_target_device_id et) = []")
    case True
    then have "\<exists>name qa. register_fresh E K secret p name qa (et_site_id et) (c1, h1) = Inr (d, c2, h2)"
      using out res by (auto simp: register_device_def Let_def)
    then obtain name qa where "register_fresh E K secret p name qa (et_site_id et) (c1, h1) = Inr (d, c2, h2)" by blast
    then show ?thesis
      by (rule register_freshE, intro that [OF et open_tok res(2)])
        (use True h' h3 h1 in \<open>simp_all add: kept_credentials_def get_device_def\<close>)
  next
    case False
    then have rr: "register_restore E K secret p (opt_text (et_target_device_id et)) h1 = Inr (d, h2)"
      using out res by (auto simp: register_device_def Let_def split: sum.splits)
    obtain d0 r where q: "get_device (opt_text (et_target_device_id et)) h1 = Some d0" "d = restored E p d0"
      "h_enrollment_tokens h2 = h_enrollment_tokens h1"
      "h_credentials h2 = filter (\<lambda>c. cr_device_id c \<noteq> opt_text (et_target_device_id et)) (h_credentials h1) @ [r]"
      "h_devices h2 = tupd dev_id (opt_text (et_target_device_id et)) (restored E p) (h_devices h1)"
      "cr_device_id r = opt_text (et_target_device_id et)" "cr_token_hash r = cy_sha256 K secret" "\<not> cr_revoked r"
      "cr_id r \<notin> cr_id ` set (filter (\<lambda>c. cr_device_id c \<noteq> opt_text (et_target_device_id et)) (h_credentials h1))"
      "cy_sha256 K secret \<notin> cr_token_hash ` set (filter (\<lambda>c. cr_device_id c \<noteq> opt_text (et_target_device_id et)) (h_credentials h1))"
      by (rule register_restoreE [OF rr]) (rule that; assumption)
    have id: "dev_id d = opt_text (et_target_device_id et)"
      using tget_SomeD [OF q(1) [unfolded get_device_def]] q(2) by (simp add: restored_def)
    show ?thesis
      by (rule that [OF et open_tok res(2), of r])
        (use False h' h3 h1 q id in \<open>auto simp: kept_credentials_def get_device_def restored_def\<close>)
  qed
qed

end
