(* ===== verification/Announcements.thy ===== *)
theory Announcements
  imports Enrollment
begin

text \<open>
  Devices without a token (\<open>app/services/announcements.py\<close>): a device announces itself on the public route and
  polls; an operator adopts or rejects it; an adopted one is handed an enrollment token until it has
  registered. Two self-healing paths re-arm the row of a known device that lost its token and of
  one that was stranded after delivery.
\<close>

section \<open>Announcing\<close>

definition FIELD_CAPS :: "(string \<times> nat) list" where
  "FIELD_CAPS = [(''claimed_hardware_model'', 80), (''claimed_hardware_revision'', 40), (''claimed_firmware_version'', 40),
     (''claimed_local_ip'', 64), (''claimed_serial_number'', 80), (''claimed_display_name_hint'', 120)]"

definition check_claims :: "pydict \<Rightarrow> enroll_error option" where
  "check_claims claims =
     (case find (bad_field claims) FIELD_CAPS of
        Some (k, n) \<Rightarrow> Some (invalid_announcement (if is_str (dget claims k) then k @ '' must be '' @ dec n @ '' characters or fewer''
                                                else k @ '' must be a string''))
      | None \<Rightarrow> None)"

definition short_mac :: "string \<Rightarrow> string" where
  "short_mac mac = ''device-'' @ filter (\<lambda>c. c \<noteq> CHR '':'') (drop (length mac - 5) mac)"

definition has_secret :: "announcement \<Rightarrow> bool" where
  "has_secret r \<longleftrightarrow> opt_text (ann_adoption_token_secret r) \<noteq> []"

text \<open>The device the auto-rebind is for: not decommissioned, centrally managed, same MAC in canonical form; and
  the address test.\<close>

definition rebind_device :: "announcement \<Rightarrow> hub \<Rightarrow> device option" where
  "rebind_device r h =
     find (\<lambda>d. dev_registration_state d \<noteq> ''decommissioned'' \<and> dev_central_management_enabled d
               \<and> normalize_mac (dev_mac_address d) = normalize_mac (Some (ann_mac_address r))) (h_devices h)"

definition known_address :: "announcement \<Rightarrow> device \<Rightarrow> bool" where
  "known_address r d \<longleftrightarrow>
     (let known = py_strip (opt_text (dev_local_ip d))
      in known \<noteq> [] \<and> (py_strip (opt_text (ann_claimed_local_ip r)) = known \<or> py_strip (opt_text (ann_source_ip r)) = known))"

definition maybe_prepare_auto_rebind ::
  "env \<Rightarrow> crypto \<Rightarrow> settings \<Rightarrow> string \<Rightarrow> announcement \<Rightarrow> ctx \<times> hub \<Rightarrow> enroll_error + (announcement \<times> ctx \<times> hub)" where
  "maybe_prepare_auto_rebind E K cfg rnd r s =
     (if ann_consumed_at r = None \<or> has_secret r then Inr (r, s)
      else case rebind_device r (snd s) of
        None \<Rightarrow> Inr (r, s)
      | Some d \<Rightarrow>
          (if \<not> known_address r d then Inr (r, s)
           else
             let hint = or_else (ann_claimed_display_name_hint r) (or_else (Some (dev_display_name d)) (Some (short_mac (ann_mac_address r))));
                 text = ''Auto-rebind after device-side token loss (announcement '' @ ann_id r @ '', device '' @ dev_id d
                          @ '', MAC '' @ ann_mac_address r @ '')''
             in case mint_enrollment_token E K cfg rnd
                       \<lparr>tr_issued_by_user_id = None, tr_site_id = dev_site_id d, tr_display_name_hint = hint, tr_note = Some text,
                        tr_ttl_seconds = Some 86400, tr_target_device_id = Some (dev_id d)\<rparr> s of
                  Inl e \<Rightarrow> Inl e
                | Inr (tok, secret, s1) \<Rightarrow>
                    flush_announcement E (r\<lparr>ann_adopted_at := Some (env_now E), ann_adopted_by_user_id := None,
                      ann_adoption_token_secret := Some secret, ann_enrollment_token_id := Some (et_id tok),
                      ann_delivered_at := None, ann_consumed_at := None\<rparr>) s1))"

definition maybe_recover_stranded_pickup ::
  "env \<Rightarrow> crypto \<Rightarrow> settings \<Rightarrow> string \<Rightarrow> announcement \<Rightarrow> ctx \<times> hub \<Rightarrow> enroll_error + (announcement \<times> ctx \<times> hub)" where
  "maybe_recover_stranded_pickup E K cfg rnd r s =
     (if ann_adopted_at r = None \<or> ann_rejected_at r \<noteq> None \<or> has_secret r \<or> ann_consumed_at r \<noteq> None
         \<or> ann_delivered_at r = None
      then Inr (r, s)
      else
        let (old, s1) = (case ann_enrollment_token_id r of
               Some (x # xs) \<Rightarrow> (let (rows, s1) = select_tokens E s in (tget et_id (x # xs) rows, s1))
             | _ \<Rightarrow> (None, s))
        in if (case old of None \<Rightarrow> False | Some t \<Rightarrow> et_consumed_at t \<noteq> None)
           then flush_announcement E (r\<lparr>ann_consumed_at := et_consumed_at (the old)\<rparr>) s1
           else
             let hint = or_else (case old of None \<Rightarrow> None | Some t \<Rightarrow> et_display_name_hint t)
                          (or_else (ann_claimed_display_name_hint r) (Some (short_mac (ann_mac_address r))));
                 text = ''Re-mint after stranded awaiting_register (announcement '' @ ann_id r @ '', MAC '' @ ann_mac_address r @ '')''
             in case mint_enrollment_token E K cfg rnd
                       \<lparr>tr_issued_by_user_id = None, tr_site_id = (case old of None \<Rightarrow> None | Some t \<Rightarrow> et_site_id t),
                        tr_display_name_hint = hint, tr_note = Some text, tr_ttl_seconds = Some (86400 * 7),
                        tr_target_device_id = (case old of None \<Rightarrow> None | Some t \<Rightarrow> et_target_device_id t)\<rparr> s1 of
                  Inl e \<Rightarrow> Inl e
                | Inr (tok, secret, s2) \<Rightarrow>
                    (case flush_announcement E (r\<lparr>ann_adoption_token_secret := Some secret, ann_enrollment_token_id := Some (et_id tok),
                            ann_delivered_at := None\<rparr>) s2 of
                       Inl e \<Rightarrow> Inl e
                     | Inr (r', c, h) \<Rightarrow>
                         Inr (r', c, case old of
                            None \<Rightarrow> h
                          | Some t \<Rightarrow> h\<lparr>h_enrollment_tokens := tdel et_id (et_id t) (h_enrollment_tokens h)\<rparr>)))"

text \<open>The reply to the device; the last argument of \<open>Adopted\<close> is the registration URL.\<close>

datatype announce_reply = Rejected | Pending int | Adopted string string | Registered | AwaitingRegister

definition resolve_public_base_url :: "env \<Rightarrow> settings \<Rightarrow> ctx \<Rightarrow> hub \<Rightarrow> string" where
  "resolve_public_base_url E cfg c h =
     (let v = settings_get c (h_settings h) ''network.public_base_url'' (Some ''REBOOTER_PUBLIC_BASE_URL'') VNone
      in if truthy v then py_str E v else cfg_public_base_url cfg)"

definition rstrip_slash :: "string \<Rightarrow> string" where
  "rstrip_slash u = rev (dropWhile (\<lambda>c. c = CHR ''/'') (rev u))"

definition announce_reply_of ::
  "env \<Rightarrow> settings \<Rightarrow> announcement \<Rightarrow> ctx \<times> hub \<Rightarrow> enroll_error + (announce_reply \<times> ctx \<times> hub)" where
  "announce_reply_of E cfg r s =
     (if ann_rejected_at r \<noteq> None then Inr (Rejected, s)
      else if ann_adopted_at r = None then Inr (Pending (cfg_announce_pending_retry_after_seconds cfg), s)
      else if has_secret r
      then case flush_announcement E (if ann_delivered_at r = None then r\<lparr>ann_delivered_at := Some (env_now E)\<rparr> else r) s of
             Inl e \<Rightarrow> Inl e
           | Inr (r', s1) \<Rightarrow>
               Inr (Adopted (opt_text (ann_adoption_token_secret r))
                      (rstrip_slash (resolve_public_base_url E cfg (fst s1) (snd s1)) @ ''/api/v1/device/register''), s1)
      else if ann_consumed_at r \<noteq> None then Inr (Registered, s)
      else Inr (AwaitingRegister, s))"

definition claim :: "pydict \<Rightarrow> string \<Rightarrow> string option \<Rightarrow> string option" where
  "claim claims k old = or_else (text_field claims k) old"

definition take_claims :: "pydict \<Rightarrow> announcement \<Rightarrow> announcement" where
  "take_claims claims r =
     r\<lparr>ann_claimed_hardware_model := claim claims ''claimed_hardware_model'' (ann_claimed_hardware_model r),
       ann_claimed_hardware_revision := claim claims ''claimed_hardware_revision'' (ann_claimed_hardware_revision r),
       ann_claimed_firmware_version := claim claims ''claimed_firmware_version'' (ann_claimed_firmware_version r),
       ann_claimed_local_ip := claim claims ''claimed_local_ip'' (ann_claimed_local_ip r),
       ann_claimed_serial_number := claim claims ''claimed_serial_number'' (ann_claimed_serial_number r),
       ann_claimed_display_name_hint := claim claims ''claimed_display_name_hint'' (ann_claimed_display_name_hint r)\<rparr>"

definition new_announcement :: "env \<Rightarrow> string \<Rightarrow> string option \<Rightarrow> string option \<Rightarrow> nat \<Rightarrow> announcement" where
  "new_announcement E mac source_ip user_agent n =
     \<lparr>ann_id = new_id (env_ulid E) ''ann'' n, ann_organization_id = None, ann_mac_address = mac,
      ann_claimed_hardware_model = None, ann_claimed_hardware_revision = None, ann_claimed_firmware_version = None,
      ann_claimed_local_ip = None, ann_claimed_serial_number = None, ann_claimed_display_name_hint = None,
      ann_source_ip = source_ip, ann_user_agent = or_else (map_option (take 200) user_agent) None,
      ann_first_seen_at = env_now E, ann_last_seen_at = env_now E, ann_announce_count = 1, ann_adopted_at = None,
      ann_adopted_by_user_id = None, ann_adoption_token_secret = None, ann_enrollment_token_id = None,
      ann_delivered_at = None, ann_consumed_at = None, ann_rejected_at = None\<rparr>"

text \<open>The row is inserted or refreshed.\<close>

definition upsert_row ::
  "env \<Rightarrow> string \<Rightarrow> pydict \<Rightarrow> string option \<Rightarrow> string option \<Rightarrow> ctx \<times> hub \<Rightarrow> enroll_error + (announcement \<times> ctx \<times> hub)" where
  "upsert_row E mac claims source_ip user_agent s =
     (let (rows, c1, h1) = select_announcements E s in
      case tget ann_mac_address mac rows of
        Some r \<Rightarrow>
          flush_announcement E (take_claims claims (r\<lparr>ann_last_seen_at := env_now E, ann_announce_count := ann_announce_count r + 1,
            ann_source_ip := source_ip, ann_user_agent := or_else (map_option (take 200) user_agent) (ann_user_agent r)\<rparr>)) (c1, h1)
      | None \<Rightarrow>
          (let r = take_claims claims (new_announcement E mac source_ip user_agent (h_ulid h1)) in
           case stamp_and_guard_tenant_writes E [(announcement_obj r h1)] [] (c1, h1) of
             Inl e \<Rightarrow> Inl (EnrollRefused e)
           | Inr (new, _, c2, h2) \<Rightarrow>
               (let r' = r\<lparr>ann_organization_id := fo_org (hd new)\<rparr>
                in if list_ex (\<lambda>q. ann_id q = ann_id r \<or> ann_mac_address q = mac) (h_announcements h2) then Inl EnrollIntegrityError
                   else Inr (r', c2, h2\<lparr>h_announcements := tadd r' (h_announcements h2), h_ulid := Suc (h_ulid h2)\<rparr>))))"

definition touch_device :: "env \<Rightarrow> string \<Rightarrow> hub \<Rightarrow> hub" where
  "touch_device E mac h =
     (case find (\<lambda>d. dev_registration_state d \<noteq> ''decommissioned'' \<and> normalize_mac (dev_mac_address d) = mac) (h_devices h) of
        None \<Rightarrow> h
      | Some d \<Rightarrow> modify_device (dev_id d) (\<lambda>d. d\<lparr>dev_last_seen_at := Some (env_now E)\<rparr>) h)"

definition upsert_announcement ::
  "env \<Rightarrow> crypto \<Rightarrow> settings \<Rightarrow> string \<Rightarrow> string \<Rightarrow> pydict \<Rightarrow> string option \<Rightarrow> string option \<Rightarrow> ctx \<times> hub \<Rightarrow>
   enroll_error + (announce_reply \<times> ctx \<times> hub)" where
  "upsert_announcement E K cfg rnd mac_address claims source_ip user_agent s =
     (let raw = py_strip mac_address in
      if raw = [] then Inl (invalid_announcement ''mac_address is required'')
      else if 40 < length raw then Inl (invalid_announcement ''mac_address must be 40 characters or fewer'')
      else if \<not> list_all mac_char raw then Inl (invalid_announcement MAC_MESSAGE)
      else case check_claims claims of
        Some e \<Rightarrow> Inl e
      | None \<Rightarrow>
          (let mac = normalize_mac (Some raw) in
           case upsert_row E mac claims source_ip user_agent s of
             Inl e \<Rightarrow> Inl e
           | Inr (r1, c1, h1) \<Rightarrow>
               (case maybe_prepare_auto_rebind E K cfg rnd r1 (c1, touch_device E mac h1) of
                  Inl e \<Rightarrow> Inl e
                | Inr (r2, s2) \<Rightarrow>
                    (case maybe_recover_stranded_pickup E K cfg rnd r2 s2 of
                       Inl e \<Rightarrow> Inl e
                     | Inr (r3, s3) \<Rightarrow> announce_reply_of E cfg r3 s3))))"

section \<open>The operator's side\<close>

definition ANNOUNCEMENT_STALE_AFTER_SECONDS :: int where
  "ANNOUNCEMENT_STALE_AFTER_SECONDS = 3600"

definition humanize_age :: "int \<Rightarrow> string" where
  "humanize_age n =
     (let seconds = max 0 n; minutes = seconds div 60; hours = minutes div 60 in
      if seconds < 90 then dec (nat seconds) @ '' s''
      else if minutes < 90 then dec (nat minutes) @ '' m''
      else if hours < 48 then dec (nat hours) @ '' h''
      else dec (nat (hours div 24)) @ '' d'')"

definition announcement_state :: "announcement \<Rightarrow> string" where
  "announcement_state r =
     (if ann_rejected_at r \<noteq> None then ''rejected''
      else if ann_consumed_at r \<noteq> None then ''registered''
      else if ann_delivered_at r \<noteq> None then ''awaiting_register''
      else if ann_adopted_at r \<noteq> None then ''awaiting_pickup''
      else ''pending'')"

definition opt_iso :: "instant option \<Rightarrow> pyval" where
  "opt_iso t = (case t of None \<Rightarrow> VNone | Some x \<Rightarrow> VStr (iso_z x))"

definition serialize_announcement :: "env \<Rightarrow> announcement \<Rightarrow> pydict" where
  "serialize_announcement E r =
     (let state = announcement_state r; age = max 0 ((env_now E - ann_last_seen_at r) div secs 1)
      in [(''id'', VStr (ann_id r)), (''mac_address'', VStr (ann_mac_address r)),
          (''claimed_hardware_model'', of_opt_str (ann_claimed_hardware_model r)),
          (''claimed_hardware_revision'', of_opt_str (ann_claimed_hardware_revision r)),
          (''claimed_firmware_version'', of_opt_str (ann_claimed_firmware_version r)),
          (''claimed_local_ip'', of_opt_str (ann_claimed_local_ip r)),
          (''claimed_serial_number'', of_opt_str (ann_claimed_serial_number r)),
          (''claimed_display_name_hint'', of_opt_str (ann_claimed_display_name_hint r)),
          (''source_ip'', of_opt_str (ann_source_ip r)), (''user_agent'', of_opt_str (ann_user_agent r)),
          (''first_seen_at'', VStr (iso_z (ann_first_seen_at r))), (''last_seen_at'', VStr (iso_z (ann_last_seen_at r))),
          (''announce_count'', VInt (ann_announce_count r)), (''state'', VStr state),
          (''adopted_at'', opt_iso (ann_adopted_at r)), (''delivered_at'', opt_iso (ann_delivered_at r)),
          (''consumed_at'', opt_iso (ann_consumed_at r)), (''rejected_at'', opt_iso (ann_rejected_at r)),
          (''enrollment_token_id'', of_opt_str (ann_enrollment_token_id r)), (''seconds_since_last_seen'', VInt age),
          (''last_seen_age'', VStr (humanize_age age)),
          (''is_stale'', VBool (state \<in> set [''pending'', ''awaiting_pickup'', ''awaiting_register'']
                             \<and> ANNOUNCEMENT_STALE_AFTER_SECONDS \<le> age))])"

definition list_announcements :: "env \<Rightarrow> bool \<Rightarrow> ctx \<times> hub \<Rightarrow> pydict list \<times> ctx \<times> hub" where
  "list_announcements E include_consumed s =
     (let (rows, s1) = select_announcements E s;
          sorted = sort_key (\<lambda>r. - ann_last_seen_at r) rows;
          shown = (if include_consumed then sorted
                   else filter (\<lambda>r. ann_consumed_at r = None \<and> ann_rejected_at r = None) sorted)
      in (map (serialize_announcement E) shown, s1))"

definition count_pending_announcements :: "env \<Rightarrow> ctx \<times> hub \<Rightarrow> nat \<times> ctx \<times> hub" where
  "count_pending_announcements E s =
     (let (rows, s1) = select_announcements E s
      in (length (filter (\<lambda>r. ann_consumed_at r = None \<and> ann_rejected_at r = None) rows), s1))"

text \<open>The checks of a restore: the target exists, is in service and has the announced MAC.\<close>

definition check_restore_target :: "announcement \<Rightarrow> string option \<Rightarrow> hub \<Rightarrow> enroll_error option" where
  "check_restore_target r target h =
     (case get_device (opt_text target) h of
        None \<Rightarrow> Some (AnnouncementError ''not_found'' (''target device '' @ opt_text target @ '' not found''))
      | Some d \<Rightarrow>
          (let ann_mac = plain_mac (Some (ann_mac_address r)); dev_mac = plain_mac (dev_mac_address d) in
           if dev_registration_state d = ''decommissioned''
           then Some (invalid_announcement ''target device is decommissioned; cannot restore'')
           else if ann_mac \<noteq> [] \<and> dev_mac \<noteq> [] \<and> ann_mac \<noteq> dev_mac
           then Some (invalid_announcement ''MAC mismatch between announcement and target device'')
           else None))"

text \<open>The token is minted in a session of its own, which stays committed when the outer one is rolled back.\<close>

definition adopt ::
  "env \<Rightarrow> crypto \<Rightarrow> settings \<Rightarrow> string \<Rightarrow> string \<Rightarrow> string option \<Rightarrow> string option \<Rightarrow> string \<Rightarrow> string option \<Rightarrow> ctx \<times> hub \<Rightarrow>
   (enroll_error + pydict) \<times> ctx \<times> hub" where
  "adopt E K cfg rnd i by_user display_name mode target s =
     (if mode \<noteq> ''fresh'' \<and> mode \<noteq> ''restore'' then (Inl (invalid_announcement (''unknown adopt mode: '' @ mode)), s)
      else if mode = ''restore'' \<and> opt_text target = [] then (Inl (invalid_announcement ''restore mode requires target_device_id''), s)
      else
        let (rows, c1, h1) = select_announcements E s in
        case tget ann_id i rows of
          None \<Rightarrow> (Inl (AnnouncementError ''not_found'' ''Announcement not found''), c1, snd s)
        | Some r \<Rightarrow>
            (if ann_rejected_at r \<noteq> None
             then (Inl (AnnouncementError ''rejected'' ''Announcement was rejected; cannot adopt''), c1, snd s)
             else if ann_adopted_at r \<noteq> None then (Inr (serialize_announcement E r), c1, h1)
             else case (if mode = ''restore'' then check_restore_target r target (snd s) else None) of
               Some e \<Rightarrow> (Inl e, c1, snd s)
             | None \<Rightarrow>
                 (let hint = or_else display_name (or_else (ann_claimed_display_name_hint r) (Some (short_mac (ann_mac_address r))));
                      where_from = '' via /app/pending-adoption (announcement '' @ ann_id r @ '', MAC '' @ ann_mac_address r @ '')'';
                      text = (if mode = ''fresh'' then ''Adopted'' @ where_from
                              else ''Restored to existing device '' @ opt_text target @ where_from)
                  in case mint_enrollment_token E K cfg rnd
                            \<lparr>tr_issued_by_user_id = by_user, tr_site_id = None, tr_display_name_hint = hint, tr_note = Some text,
                             tr_ttl_seconds = Some (86400 * 7), tr_target_device_id = (if mode = ''restore'' then target else None)\<rparr>
                            (c1, snd s) of
                       Inl e \<Rightarrow> (Inl e, c1, snd s)
                     | Inr (tok, secret, c2, h2) \<Rightarrow>
                         (case flush_announcement E (r\<lparr>ann_adopted_at := Some (env_now E), ann_adopted_by_user_id := by_user,
                                 ann_adoption_token_secret := Some secret, ann_enrollment_token_id := Some (et_id tok)\<rparr>)
                                 (c2, h2\<lparr>h_audit := h_audit h2 @ session_audit (snd s) h1\<rparr>) of
                            Inl e \<Rightarrow> (Inl e, c2, h2)
                          | Inr (r', c3, h3) \<Rightarrow> (Inr (serialize_announcement E r'), c3, h3)))))"

definition reject :: "env \<Rightarrow> string \<Rightarrow> string option \<Rightarrow> ctx \<times> hub \<Rightarrow> enroll_error + (pydict option \<times> ctx \<times> hub)" where
  "reject E i by_user s =
     (let (rows, s1) = select_announcements E s in
      case tget ann_id i rows of
        None \<Rightarrow> Inr (None, s1)
      | Some r \<Rightarrow>
          (case flush_announcement E
                  (r\<lparr>ann_rejected_at := (if ann_rejected_at r = None then Some (env_now E) else ann_rejected_at r),
                     ann_adopted_by_user_id := (if ann_adopted_by_user_id r = None then or_else by_user None
                                                else ann_adopted_by_user_id r)\<rparr>) s1 of
             Inl e \<Rightarrow> Inl e
           | Inr (r', s2) \<Rightarrow> Inr (Some (serialize_announcement E r'), s2)))"

definition force_adopt_reconcile :: "env \<Rightarrow> string \<Rightarrow> ctx \<times> hub \<Rightarrow> enroll_error + (pydict \<times> ctx \<times> hub)" where
  "force_adopt_reconcile E i s =
     (let (rows, s1) = select_announcements E s in
      case tget ann_id i rows of
        None \<Rightarrow> Inl (AnnouncementError ''not_found'' ''Announcement not found'')
      | Some r \<Rightarrow>
          (if ann_consumed_at r \<noteq> None
           then Inl (AnnouncementError ''already_consumed'' ''Announcement is already reconciled (consumed_at set).'')
           else
             let mac = normalize_mac (Some (ann_mac_address r));
                 device = (if mac = [] then None
                           else find (\<lambda>d. dev_registration_state d = ''active'' \<and> normalize_mac (dev_mac_address d) = mac)
                                  (h_devices (snd s1)))
             in case device of
                  None \<Rightarrow> Inl (AnnouncementError ''no_active_device'' (''No active device with this MAC '' @ [CHR 0xE2, CHR 0x80, CHR 0x94]
                           @ '' force-adopt only reconciles rows whose device has already registered. Use Adopt or Reject instead.''))
                | Some d \<Rightarrow>
                    (case flush_announcement E (r\<lparr>ann_consumed_at := Some (env_now E), ann_adoption_token_secret := None\<rparr>) s1 of
                       Inl e \<Rightarrow> Inl e
                     | Inr (r', s2) \<Rightarrow> Inr (serialize_announcement E r' @ [(''reconciled_device_id'', VStr (dev_id d))], s2))))"

definition delete_announcement :: "env \<Rightarrow> string \<Rightarrow> ctx \<times> hub \<Rightarrow> enroll_error + (bool \<times> ctx \<times> hub)" where
  "delete_announcement E i s =
     (let (rows, s1) = select_announcements E s in
      case tget ann_id i rows of
        None \<Rightarrow> Inr (False, s1)
      | Some _ \<Rightarrow>
          (case stamp_and_guard_tenant_writes E [] [] s1 of
             Inl e \<Rightarrow> Inl (EnrollRefused e)
           | Inr (_, _, c, h) \<Rightarrow> Inr (True, c, h\<lparr>h_announcements := tdel ann_id i (h_announcements h)\<rparr>)))"

end
