(* ===== verification/Registry.thy ===== *)
theory Registry
  imports Announcements WatchdogActions
begin

text \<open>
  What enrollment promises, as an abstract machine, and that the code implements it. The machine knows the
  state of every enrollment token (by hash) and the key of every device (the hash of its secret). A token
  is minted, revoked while open, or used once to enroll a new device or to replace the key of its target.
  Every operation of \<open>Enrollment\<close> and \<open>Announcements\<close> is a sequence of steps of the machine.
\<close>

section \<open>The abstract machine\<close>

datatype token_state = Open "string option" | Used

record registry =
  rg_tokens :: "string \<Rightarrow> token_state option"
  rg_keys :: "string \<Rightarrow> string option"

inductive registry_step :: "registry \<Rightarrow> registry \<Rightarrow> bool" where
  mint: "rg_tokens g t = None \<Longrightarrow> registry_step g (g\<lparr>rg_tokens := (rg_tokens g)(t := Some (Open target))\<rparr>)"
| revoke: "rg_tokens g t = Some (Open target) \<Longrightarrow> registry_step g (g\<lparr>rg_tokens := (rg_tokens g)(t := None)\<rparr>)"
| enroll: "rg_tokens g t = Some (Open None) \<Longrightarrow> rg_keys g d = None \<Longrightarrow> k \<notin> ran (rg_keys g) \<Longrightarrow>
    registry_step g \<lparr>rg_tokens = (rg_tokens g)(t := Some Used), rg_keys = (rg_keys g)(d := Some k)\<rparr>"
| rebind: "rg_tokens g t = Some (Open (Some d)) \<Longrightarrow> k \<notin> ran ((rg_keys g)(d := None)) \<Longrightarrow>
    registry_step g \<lparr>rg_tokens = (rg_tokens g)(t := Some Used), rg_keys = (rg_keys g)(d := Some k)\<rparr>"

inductive_cases registry_stepE: "registry_step g g'"

lemma used_stays: "registry_step\<^sup>*\<^sup>* g g' \<Longrightarrow> rg_tokens g t = Some Used \<Longrightarrow> rg_tokens g' t = Some Used"
  by (induction rule: rtranclp_induct) (auto elim!: registry_stepE)

text \<open>No two devices ever share a key.\<close>

lemma keys_inj: "registry_step g g' \<Longrightarrow> inj_on (rg_keys g) (dom (rg_keys g)) \<Longrightarrow> inj_on (rg_keys g') (dom (rg_keys g'))"
proof (erule registry_stepE, goal_cases)
  case (3 t d k)
  then show ?case by (auto simp: inj_on_def ran_def dom_def)
next
  case (4 t d k)
  then show ?case by (auto simp: inj_on_def ran_def dom_def split: if_splits)
qed simp_all

section \<open>The abstraction\<close>

definition token_state :: "enrollment_token \<Rightarrow> token_state" where
  "token_state r = (if et_consumed_at r \<noteq> None then Used
     else Open (if opt_text (et_target_device_id r) = [] then None else Some (opt_text (et_target_device_id r))))"

definition registry_of :: "hub \<Rightarrow> registry" where
  "registry_of h =
     \<lparr>rg_tokens = (\<lambda>t. map_option token_state (tget et_token_hash t (h_enrollment_tokens h))),
      rg_keys = (\<lambda>d. map_option cr_token_hash (tget cr_device_id d (h_credentials h)))\<rparr>"

text \<open>The unique constraints of the two tables.\<close>

definition registry_ok :: "hub \<Rightarrow> bool" where
  "registry_ok h \<longleftrightarrow> pk_ok et_id (h_enrollment_tokens h) \<and> pk_ok et_token_hash (h_enrollment_tokens h)
     \<and> pk_ok cr_id (h_credentials h) \<and> pk_ok cr_device_id (h_credentials h) \<and> pk_ok cr_token_hash (h_credentials h)"

definition simulates :: "hub \<Rightarrow> hub \<Rightarrow> bool" where
  "simulates h h' \<longleftrightarrow> (registry_ok h \<longrightarrow> registry_ok h' \<and> registry_step\<^sup>*\<^sup>* (registry_of h) (registry_of h'))"

interpretation sim: state_preorder simulates
  by unfold_locales (auto simp: simulates_def)

lemmas sim_trans [trans] = sim.leads_trans

lemma sim_same:
  "h_enrollment_tokens h' = h_enrollment_tokens h \<Longrightarrow> h_credentials h' = h_credentials h \<Longrightarrow> simulates h h'"
  by (simp add: simulates_def registry_ok_def registry_of_def)

lemma sim_sans: "sans_ann h' = sans_ann h \<Longrightarrow> simulates h h'"
  using sans_annD sim_same by blast

section \<open>One step of the machine per write\<close>

lemma pk_ok_append: "pk_ok key (rs @ [r]) \<longleftrightarrow> pk_ok key rs \<and> key r \<notin> key ` set rs"
  using pk_ok_tadd [of key r rs] by (simp add: tadd_def)

lemma sim_mint:
  assumes "mint_enrollment_token E K cfg rnd q (c, h) = Inr (r, sec, c', h')"
  shows "simulates h h'"
proof -
  note mf = mint_token_frame [OF assms]
  obtain a where h': "h' = h\<lparr>h_audit := a, h_enrollment_tokens := h_enrollment_tokens h @ [r], h_ulid := Suc (h_ulid h)\<rparr>"
    using mf(1) by blast
  have none: "tget et_token_hash (et_token_hash r) (h_enrollment_tokens h) = None"
    using mf(3) by (simp add: tget_None_iff)
  have "registry_of h' = (registry_of h)\<lparr>rg_tokens := (rg_tokens (registry_of h))(et_token_hash r := Some (token_state r))\<rparr>"
    using none by (auto simp: registry_of_def h' tget_append split: option.splits)
  moreover have "rg_tokens (registry_of h) (et_token_hash r) = None" using none by (simp add: registry_of_def)
  moreover have "\<exists>target. token_state r = Open target" using mf(4) by (simp add: token_state_def)
  ultimately have "registry_step (registry_of h) (registry_of h')" using registry_step.mint by metis
  moreover have "registry_ok h \<longrightarrow> registry_ok h'"
    using mf(2,3) by (simp add: registry_ok_def h' pk_ok_append)
  ultimately show ?thesis by (simp add: simulates_def r_into_rtranclp)
qed

lemma sim_delete_one:
  assumes "h_enrollment_tokens h' = tdel et_id i (h_enrollment_tokens h)" and "h_credentials h' = h_credentials h"
    and "\<And>r. r \<in> set (h_enrollment_tokens h) \<Longrightarrow> et_id r = i \<Longrightarrow> et_consumed_at r = None"
  shows "simulates h h'"
proof (cases "\<exists>r \<in> set (h_enrollment_tokens h). et_id r = i")
  case False
  then have "h_enrollment_tokens h' = h_enrollment_tokens h"
    using assms(1) by (auto simp: tdel_def filter_id_conv)
  then show ?thesis using assms(2) by (rule sim_same)
next
  case True
  then obtain r where r: "r \<in> set (h_enrollment_tokens h)" "et_id r = i" by blast
  show ?thesis
    unfolding simulates_def
  proof (intro impI conjI)
    assume ok: "registry_ok h"
    show "registry_ok h'" using ok by (simp add: registry_ok_def assms(1,2) pk_ok_tdel pk_ok_def tdel_def distinct_map_filter)
    have "et_id q = i \<longleftrightarrow> et_token_hash q = et_token_hash r" if "q \<in> set (h_enrollment_tokens h)" for q
      using ok that r pk_ok_unique [of et_id _ q r] pk_ok_unique [of et_token_hash _ q r] by (auto simp: registry_ok_def)
    then have "h_enrollment_tokens h' = tdel et_token_hash (et_token_hash r) (h_enrollment_tokens h)"
      unfolding assms(1) tdel_def by (intro filter_cong) auto
    then have "registry_of h' = (registry_of h)\<lparr>rg_tokens := (rg_tokens (registry_of h))(et_token_hash r := None)\<rparr>"
      by (auto simp: registry_of_def assms(2) tget_tdel)
    moreover have "tget et_token_hash (et_token_hash r) (h_enrollment_tokens h) = Some r"
      using ok r by (simp add: registry_ok_def pk_ok_get)
    then have "\<exists>target. rg_tokens (registry_of h) (et_token_hash r) = Some (Open target)"
      using assms(3) [OF r] by (simp add: registry_of_def token_state_def)
    ultimately have "registry_step (registry_of h) (registry_of h')" using registry_step.revoke by metis
    then show "registry_step\<^sup>*\<^sup>* (registry_of h) (registry_of h')" by (rule r_into_rtranclp)
  qed
qed

lemma sim_delete:
  assumes "h_enrollment_tokens h' = filter (\<lambda>r. et_id r \<notin> set is) (h_enrollment_tokens h)" and "h_credentials h' = h_credentials h"
    and "\<And>r. r \<in> set (h_enrollment_tokens h) \<Longrightarrow> et_id r \<in> set is \<Longrightarrow> et_consumed_at r = None"
  shows "simulates h h'"
  using assms
proof (induction "is" arbitrary: h)
  case Nil
  then show ?case by (intro sim_same) simp_all
next
  case (Cons i "is")
  let ?h1 = "h\<lparr>h_enrollment_tokens := tdel et_id i (h_enrollment_tokens h)\<rparr>"
  have "simulates h ?h1" by (rule sim_delete_one [of _ i]) (use Cons.prems(3) in auto)
  also have "simulates ?h1 h'"
  proof (rule Cons.IH)
    show "h_enrollment_tokens h' = filter (\<lambda>r. et_id r \<notin> set is) (h_enrollment_tokens ?h1)"
      unfolding Cons.prems(1) by (simp add: tdel_def)
  qed (use Cons.prems in \<open>auto simp: tdel_def\<close>)
  finally show ?case .
qed

lemma sim_register:
  assumes "register_session E K secret token p (c, h) = Inr (d, et', c', h')"
  shows "simulates h h'"
proof -
  obtain et org r where et: "et \<in> set (h_enrollment_tokens h)" "et_token_hash et = cy_sha256 K token" "et_consumed_at et = None"
    and toks: "h_enrollment_tokens h' = tupd et_token_hash (cy_sha256 K token) (marked E (dev_id d) org) (h_enrollment_tokens h)"
    and crs: "h_credentials h' = kept_credentials et h @ [r]"
    and r: "cr_device_id r = dev_id d" "cr_token_hash r = cy_sha256 K secret" "cr_id r \<notin> cr_id ` set (kept_credentials et h)"
    "dev_id d \<notin> cr_device_id ` set (kept_credentials et h)" "cy_sha256 K secret \<notin> cr_token_hash ` set (kept_credentials et h)"
    and tgt: "opt_text (et_target_device_id et) \<noteq> [] \<Longrightarrow> dev_id d = opt_text (et_target_device_id et)"
    by (rule register_sessionE [OF assms]) (rule that; (assumption | blast))
  let ?k = "cy_sha256 K secret" and ?t = "cy_sha256 K token"
  have mk: "et_id (marked E i o' x) = et_id x" "et_token_hash (marked E i o' x) = et_token_hash x"
    "token_state (marked E i o' x) = Used" for i o' x
    by (simp_all add: marked_def token_state_def)
  have keys: "rg_keys (registry_of h') = (rg_keys (registry_of h))(dev_id d := Some ?k)"
    and range: "?k \<notin> ran ((rg_keys (registry_of h))(dev_id d := None))"
    and none: "opt_text (et_target_device_id et) = [] \<Longrightarrow> rg_keys (registry_of h) (dev_id d) = None"
  proof -
    have kept: "tget cr_device_id i (kept_credentials et h) = (if i = dev_id d then None else tget cr_device_id i (h_credentials h))" for i
    proof (cases "opt_text (et_target_device_id et) = []")
      case True
      then show ?thesis using r(4) by (auto simp: kept_credentials_def tget_None_iff)
    next
      case False
      then have "kept_credentials et h = tdel cr_device_id (dev_id d) (h_credentials h)"
        using tgt by (simp add: kept_credentials_def tdel_def)
      then show ?thesis by (simp add: tget_tdel)
    qed
    show "rg_keys (registry_of h') = (rg_keys (registry_of h))(dev_id d := Some ?k)"
      using r(1,2) by (auto simp: registry_of_def crs tget_append kept split: option.splits)
    show "?k \<notin> ran ((rg_keys (registry_of h))(dev_id d := None))"
    proof
      assume "?k \<in> ran ((rg_keys (registry_of h))(dev_id d := None))"
      then obtain i where i: "i \<noteq> dev_id d" "rg_keys (registry_of h) i = Some ?k"
        by (auto simp: ran_def split: if_splits)
      then obtain q where "tget cr_device_id i (h_credentials h) = Some q" "cr_token_hash q = ?k"
        by (auto simp: registry_of_def)
      then have "tget cr_device_id i (kept_credentials et h) = Some q" "cr_token_hash q = ?k" using i(1) kept by simp_all
      then show False using r(5) tget_SomeD [of cr_device_id i "kept_credentials et h" q] by (metis imageI)
    qed
    show "rg_keys (registry_of h) (dev_id d) = None" if "opt_text (et_target_device_id et) = []"
      using that r(4) by (simp add: registry_of_def kept_credentials_def tget_None_iff)
  qed
  show ?thesis
    unfolding simulates_def
  proof (intro impI conjI)
    assume ok: "registry_ok h"
    have "pk_ok cr_id (kept_credentials et h)" "pk_ok cr_device_id (kept_credentials et h)" "pk_ok cr_token_hash (kept_credentials et h)"
      using ok by (auto simp: registry_ok_def kept_credentials_def pk_ok_def distinct_map_filter)
    then show "registry_ok h'"
      using ok r by (simp add: registry_ok_def toks crs pk_ok_append pk_ok_tupd mk) (simp add: pk_ok_def tupd_def mk comp_def if_distrib cong: if_cong)
    have tget: "tget et_token_hash ?t (h_enrollment_tokens h) = Some et"
      using ok et by (simp add: registry_ok_def pk_ok_get)
    have state: "rg_tokens (registry_of h) ?t = Some (Open (if opt_text (et_target_device_id et) = [] then None else Some (dev_id d)))"
      using tget et(3) tgt by (simp add: registry_of_def token_state_def)
    have toks': "rg_tokens (registry_of h') = (rg_tokens (registry_of h))(?t := Some Used)"
      using tget by (auto simp: registry_of_def toks tget_tupd mk)
    have "registry_of h' = \<lparr>rg_tokens = (rg_tokens (registry_of h))(?t := Some Used), rg_keys = (rg_keys (registry_of h))(dev_id d := Some ?k)\<rparr>"
      by (simp add: toks' [symmetric] keys [symmetric])
    moreover have "registry_step (registry_of h) \<dots>"
    proof (cases "opt_text (et_target_device_id et) = []")
      case True
      have "?k \<notin> ran (rg_keys (registry_of h))"
        using range none [OF True] by (metis fun_upd_triv)
      then show ?thesis using registry_step.enroll [of "registry_of h" ?t "dev_id d" ?k] state none True by simp
    next
      case False
      then show ?thesis using registry_step.rebind [of "registry_of h" ?t "dev_id d" ?k] state range by simp
    qed
    ultimately show "registry_step\<^sup>*\<^sup>* (registry_of h) (registry_of h')" by simp
  qed
qed

section \<open>After the registration\<close>

text \<open>A configuration push writes the queue, the audit log and one time stamp of the device.\<close>

definition unpushed :: "device \<Rightarrow> device" where
  "unpushed d = d\<lparr>dev_last_config_pushed_at := None\<rparr>"

definition only_pushes :: "hub \<Rightarrow> hub \<Rightarrow> bool" where
  "only_pushes h h' \<longleftrightarrow> (core h')\<lparr>h_audit := []\<rparr> = (core h)\<lparr>h_audit := []\<rparr>
     \<and> (\<forall>i. map_option unpushed (get_device i h') = map_option unpushed (get_device i h))"

lemma only_pushes_refl [simp]: "only_pushes h h"
  by (simp add: only_pushes_def)

lemma only_pushes_trans: "only_pushes h h' \<Longrightarrow> only_pushes h' h'' \<Longrightarrow> only_pushes h h''"
  by (simp add: only_pushes_def)

lemma only_pushesD:
  assumes "only_pushes h h'"
  shows "h_enrollment_tokens h' = h_enrollment_tokens h" "h_credentials h' = h_credentials h" "h_sites h' = h_sites h"
proof -
  have m: "(core h')\<lparr>h_audit := []\<rparr> = (core h)\<lparr>h_audit := []\<rparr>" using assms by (simp add: only_pushes_def)
  show "h_enrollment_tokens h' = h_enrollment_tokens h" using arg_cong [OF m, of h_enrollment_tokens] by (simp add: core_def)
  show "h_credentials h' = h_credentials h" using arg_cong [OF m, of h_credentials] by (simp add: core_def)
  show "h_sites h' = h_sites h" using arg_cong [OF m, of h_sites] by (simp add: core_def)
qed

lemma audit_only_pushes: "only_pushes h h' \<Longrightarrow> only_pushes h (snd (audit_record E action uid email ttype tid details ip (c, h')))"
  by (rule audit_recordE [of E action uid email ttype tid details ip c h'])
    (simp add: only_pushes_def core_def get_device_def)

lemma enqueue_only_pushes:
  assumes "enqueue_for_device gen now did ''apply_config'' p uid ttl gid ov False h = Inr (x, h')"
  shows "only_pushes h h'"
proof -
  have "apply_hold_off False ''apply_config'' = id"
    by (rule ext) (simp add: apply_hold_off_def POWER_ON_TYPES_def)
  then show ?thesis using enqueue_core [OF assms] enqueue_device_effect [OF assms] by (simp add: only_pushes_def option.map_id)
qed

lemma push_only_pushes:
  assumes "push_desired_config E i source uid h = Inr (r, h')"
  shows "only_pushes h h'"
proof (cases "pr_enqueued r")
  case False
  then have "h' = h"
    using assms by (auto simp: push_desired_config_def not_pushed_def split: if_splits option.splits sum.splits)
  then show ?thesis by simp
next
  case True
  then obtain payload x h1 where e: "enqueue_for_device (env_ulid E) (env_now E) i ''apply_config'' (Some payload) uid (Some 600) None False False h = Inr (x, h1)"
    and h': "h' = modify_device i (\<lambda>d. d\<lparr>dev_last_config_pushed_at := Some (env_now E)\<rparr>) h1"
    using assms by (auto simp: push_desired_config_def not_pushed_def split: if_splits option.splits sum.splits)
  have "only_pushes h1 h'"
    by (auto simp: h' only_pushes_def core_def modify_device_def get_device_def tget_tupd option.map_comp intro!: option.map_cong)
      (simp add: unpushed_def)?
  then show ?thesis using enqueue_only_pushes [OF e] only_pushes_trans by blast
qed

lemma push_restore_only_pushes: "only_pushes (snd s) (snd (push_restore_config E did name uid s))"
proof -
  obtain c h where s: "s = (c, h)" by (cases s)
  show ?thesis
    unfolding push_restore_config_def s
    by (auto simp: Let_def intro!: audit_only_pushes intro: push_only_pushes enqueue_only_pushes
        split: option.splits sum.splits if_splits)
qed

lemma consumeE:
  assumes "consume_enrollment_token E K rnd token p (c, h) = Inr (d, secret, c', h')"
  obtains et c1 h1 h2 where "secret = ''dt_'' @ rnd" and "register_session E K secret token p (c, h) = Inr (d, et, c1, h1)"
    and "sans_ann h2 = sans_ann h1" and "only_pushes h2 h'"
proof -
  obtain et c1 h1 where rs: "register_session E K (''dt_'' @ rnd) token p (c, h) = Inr (d, et, c1, h1)"
    and sec: "secret = ''dt_'' @ rnd"
    using assms by (auto simp: consume_enrollment_token_def Let_def split: option.splits sum.splits)
  obtain c2 h2 where mc: "mark_consumed E (opt_text (dev_mac_address d)) (c1, h1) = (c2, h2)"
    by (cases "mark_consumed E (opt_text (dev_mac_address d)) (c1, h1)")
  have "only_pushes h2 h'"
    using assms rs mc push_restore_only_pushes [of "(c2, h2)" E "dev_id d" "dev_display_name d" "et_issued_by_user_id et"]
    by (auto simp: consume_enrollment_token_def Let_def split: option.splits if_splits)
  moreover have "sans_ann h2 = sans_ann h1" using mark_consumed_sans [of E _ "(c1, h1)"] mc by (metis snd_conv)
  ultimately show ?thesis using that rs sec by blast
qed

lemma sim_consume: "consume_enrollment_token E K rnd token p (c, h) = Inr (d, secret, c', h') \<Longrightarrow> simulates h h'"
proof (erule consumeE)
  fix et c1 h1 h2
  assume "register_session E K secret token p (c, h) = Inr (d, et, c1, h1)"
  then have "simulates h h1" by (rule sim_register)
  also assume "sans_ann h2 = sans_ann h1"
  then have "simulates h1 h2" by (rule sim_sans)
  also assume "only_pushes h2 h'"
  then have "simulates h2 h'" by (intro sim_same only_pushesD)
  finally show "simulates h h'" .
qed

section \<open>The other operations\<close>

lemma sim_flush_announcement: "flush_announcement E r (c, h) = Inr (r', c', h') \<Longrightarrow> simulates h h'"
  using flush_announcement_sans sim_sans by fastforce

lemma sim_audit: "simulates h (h\<lparr>h_audit := a\<rparr>)"
  by (rule sim_same) simp_all

lemma sim_select_tokens: "select_tokens E (c, h) = (rows, c', h') \<Longrightarrow> simulates h h'"
  using select_tokens_facts(2) sim_audit by blast

lemma sim_delete_open:
  assumes "r \<in> set (h_enrollment_tokens h)" and "et_consumed_at r = None"
    and "h_enrollment_tokens h' = tdel et_id (et_id r) (h_enrollment_tokens h)" and "h_credentials h' = h_credentials h"
  shows "simulates h h'"
  unfolding simulates_def
proof (rule impI)
  assume ok: "registry_ok h"
  have "et_consumed_at q = None" if "q \<in> set (h_enrollment_tokens h)" "et_id q = et_id r" for q
    using ok that assms(1,2) pk_ok_unique [of et_id "h_enrollment_tokens h" q r] by (auto simp: registry_ok_def)
  then have "simulates h h'" using assms(3,4) by (rule sim_delete_one [rotated 2])
  then show "registry_ok h' \<and> registry_step\<^sup>*\<^sup>* (registry_of h) (registry_of h')" using ok by (simp add: simulates_def)
qed

lemma sim_revoke:
  assumes "revoke_enrollment_token E i (c, h) = Inr (b, c', h')"
  shows "simulates h h'"
proof -
  obtain rows c1 h1 where sel: "select_tokens E (c, h) = (rows, c1, h1)" by (metis prod_cases3)
  show ?thesis
  proof (cases "\<exists>r. tget et_id i rows = Some r \<and> et_consumed_at r = None")
    case False
    then have "h' = h1" using assms sel by (auto simp: revoke_enrollment_token_def split: option.splits)
    then show ?thesis using sim_select_tokens [OF sel] by simp
  next
    case True
    then obtain r where r: "tget et_id i rows = Some r" "et_consumed_at r = None" by blast
    obtain new d c2 h2 where fl: "stamp_and_guard_tenant_writes E [] [] (c1, h1) = Inr (new, d, c2, h2)"
      and h': "h' = h2\<lparr>h_enrollment_tokens := tdel et_id i (h_enrollment_tokens h2)\<rparr>"
      using assms sel r by (auto simp: revoke_enrollment_token_def split: sum.splits)
    obtain a where h2: "h2 = h\<lparr>h_audit := a\<rparr>" using flush_same [OF fl] select_tokens_facts(2) [OF sel] by auto
    have mem: "r \<in> set (h_enrollment_tokens h)" "et_id r = i"
      using tget_SomeD [OF r(1)] select_tokens_facts(1) [OF sel] by auto
    then show ?thesis using r(2) by (intro sim_delete_open [of r]) (simp_all add: h' h2)
  qed
qed

lemma sort_tokens_facts:
  "sort_tokens E is (c, h) = ((rs, us, cs), c', h') \<Longrightarrow>
   (\<exists>a. h' = h\<lparr>h_audit := a\<rparr>) \<and> (\<forall>i \<in> set rs. \<exists>r \<in> set (h_enrollment_tokens h). et_id r = i \<and> et_consumed_at r = None)"
proof (induction "is" arbitrary: c h rs us cs c' h')
  case Nil
  then show ?case by (auto intro: exI [of _ "h_audit h"])
next
  case (Cons i "is")
  obtain rows c1 h1 where sel: "select_tokens E (c, h) = (rows, c1, h1)" by (metis prod_cases3)
  obtain rs2 us2 cs2 c2 h2 where rec: "sort_tokens E is (c1, h1) = ((rs2, us2, cs2), c2, h2)" by (metis prod_cases3)
  obtain a where h1: "h1 = h\<lparr>h_audit := a\<rparr>" using select_tokens_facts(2) [OF sel] by blast
  have sub: "set rows \<subseteq> set (h_enrollment_tokens h)" using select_tokens_facts(1) [OF sel] .
  from Cons.IH [OF rec] obtain b where b: "h2 = h\<lparr>h_audit := b\<rparr>"
    "\<forall>i \<in> set rs2. \<exists>r \<in> set (h_enrollment_tokens h). et_id r = i \<and> et_consumed_at r = None"
    by (auto simp: h1)
  have h': "h' = h2" using Cons.prems by (auto simp: sel rec split: option.splits if_splits)
  have "\<exists>r \<in> set (h_enrollment_tokens h). et_id r = j \<and> et_consumed_at r = None" if j: "j \<in> set rs" for j
  proof (cases "j \<in> set rs2")
    case True
    then show ?thesis using b(2) by blast
  next
    case False
    then obtain r where "tget et_id i rows = Some r" "et_consumed_at r = None" "j = i"
      using Cons.prems j False by (auto simp: sel rec split: option.splits if_splits)
    then show ?thesis using tget_SomeD [of et_id i rows r] sub by auto
  qed
  then show ?case using b(1) h' by blast
qed

lemma sim_revoke_bulk:
  assumes "revoke_enrollment_tokens_bulk E ids (c, h) = Inr (x, c', h')"
  shows "simulates h h'"
proof -
  obtain rs us cs c1 h1 where st: "sort_tokens E ids (c, h) = ((rs, us, cs), c1, h1)" by (metis prod_cases3)
  obtain new d c2 h2 where fl: "stamp_and_guard_tenant_writes E [] [] (c1, h1) = Inr (new, d, c2, h2)"
    and h': "h' = h2\<lparr>h_enrollment_tokens := filter (\<lambda>r. et_id r \<notin> set rs) (h_enrollment_tokens h2)\<rparr>"
    using assms st by (auto simp: revoke_enrollment_tokens_bulk_def split: sum.splits)
  obtain a where h2: "h2 = h\<lparr>h_audit := a\<rparr>" using flush_same [OF fl] sort_tokens_facts [OF st] by auto
  show ?thesis
    unfolding simulates_def
  proof (rule impI)
    assume ok: "registry_ok h"
    have "et_consumed_at q = None" if q: "q \<in> set (h_enrollment_tokens h)" "et_id q \<in> set rs" for q
    proof -
      obtain r where "r \<in> set (h_enrollment_tokens h)" "et_id r = et_id q" "et_consumed_at r = None"
        using sort_tokens_facts [OF st] q(2) by blast
      then show ?thesis using ok q(1) pk_ok_unique [of et_id "h_enrollment_tokens h" q r] by (simp add: registry_ok_def)
    qed
    then have "simulates h h'" by (intro sim_delete [of _ rs]) (simp_all add: h' h2)
    then show "registry_ok h' \<and> registry_step\<^sup>*\<^sup>* (registry_of h) (registry_of h')" using ok by (simp add: simulates_def)
  qed
qed

lemma sim_authenticate: "simulates h (snd (resolve_device E K auth h))"
proof -
  have hash: "map_option cr_token_hash (tget cr_device_id d (tupd cr_id i (\<lambda>c. c\<lparr>cr_last_used_at := t\<rparr>) rs))
      = map_option cr_token_hash (tget cr_device_id d rs)" for d i t rs
    by (induction rs) (auto simp: tget_def tupd_def)
  have ids: "map key (tupd cr_id i (\<lambda>c. c\<lparr>cr_last_used_at := t\<rparr>) rs) = map key rs"
    if "\<And>c. key (c\<lparr>cr_last_used_at := t\<rparr>) = key c" for key :: "device_credential \<Rightarrow> string" and i t rs
    using that by (simp add: tupd_def)
  have "simulates h (h'\<lparr>h_credentials := tupd cr_id i (\<lambda>c. c\<lparr>cr_last_used_at := t\<rparr>) (h_credentials h)\<rparr>)"
    if "h_enrollment_tokens h' = h_enrollment_tokens h" for h' i t
    using that by (simp add: simulates_def registry_of_def registry_ok_def hash ids pk_ok_def)
  then show ?thesis
    by (auto simp: resolve_device_def Let_def modify_device_def intro: sim_same split: option.splits)
qed

end
