(* ===== verification/RegistryProps.thy ===== *)
theory RegistryProps
  imports Registry
begin

text \<open>
  Every operation of enrollment, announcement and device authentication is a run of the abstract machine of
  \<open>Registry\<close>; what follows for tokens, keys and devices; and the paths that break the documented promises.
\<close>

section \<open>The announcement operations\<close>

lemma sim_select_announcements: "select_announcements E (c, h) = (rows, c', h') \<Longrightarrow> simulates h h'"
  using select_announcements_facts(2) sim_audit by blast

lemma sim_auto_rebind:
  assumes "maybe_prepare_auto_rebind E K cfg rnd r (c, h) = Inr (r', c', h')"
  shows "simulates h h'"
proof (cases "h' = h")
  case True
  then show ?thesis by (simp add: sim.leads_refl)
next
  case False
  then obtain q tok secret c1 h1 r1 where "mint_enrollment_token E K cfg rnd q (c, h) = Inr (tok, secret, c1, h1)"
    and "flush_announcement E r1 (c1, h1) = Inr (r', c', h')"
    using assms by (auto simp: maybe_prepare_auto_rebind_def Let_def split: if_splits option.splits sum.splits)
  then show ?thesis by (rule sim_trans [OF sim_mint sim_flush_announcement])
qed

text \<open>The old token of a stranded device, if it still exists, was never used.\<close>

definition old_token :: "env \<Rightarrow> announcement \<Rightarrow> ctx \<times> hub \<Rightarrow> enrollment_token option \<times> ctx \<times> hub" where
  "old_token E r s =
     (case ann_enrollment_token_id r of
        Some (x # xs) \<Rightarrow> (let (rows, s1) = select_tokens E s in (tget et_id (x # xs) rows, s1))
      | _ \<Rightarrow> (None, s))"

lemma old_token_facts:
  assumes "old_token E r (c, h) = (old, c1, h1)"
  shows "simulates h h1" and "case old of None \<Rightarrow> True | Some t \<Rightarrow> t \<in> set (h_enrollment_tokens h1)"
proof -
  have "simulates h h1 \<and> (case old of None \<Rightarrow> True | Some t \<Rightarrow> t \<in> set (h_enrollment_tokens h1))"
  proof (cases "\<exists>x xs. ann_enrollment_token_id r = Some (x # xs)")
    case False
    then have "old = None \<and> h1 = h" using assms by (auto simp: old_token_def split: option.splits list.splits)
    then show ?thesis by (simp add: sim.leads_refl)
  next
    case True
    then obtain x xs where i: "ann_enrollment_token_id r = Some (x # xs)" by blast
    obtain rows c2 h2 where sel: "select_tokens E (c, h) = (rows, c2, h2)" by (metis prod_cases3)
    have eq: "old = tget et_id (x # xs) rows" "h1 = h2" using assms i sel by (simp_all add: old_token_def)
    obtain a where "h2 = h\<lparr>h_audit := a\<rparr>" using select_tokens_facts(2) [OF sel] by blast
    moreover have "set rows \<subseteq> set (h_enrollment_tokens h)" using select_tokens_facts(1) [OF sel] .
    ultimately show ?thesis using eq sim_select_tokens [OF sel]
      by (auto split: option.splits dest: tget_SomeD)
  qed
  then show "simulates h h1" "case old of None \<Rightarrow> True | Some t \<Rightarrow> t \<in> set (h_enrollment_tokens h1)" by blast+
qed

lemma sim_recover:
  assumes "maybe_recover_stranded_pickup E K cfg rnd r (c, h) = Inr (r', c', h')"
  shows "simulates h h'"
proof -
  obtain old c1 h1 where o1: "old_token E r (c, h) = (old, c1, h1)" by (metis prod_cases3)
  note facts = old_token_facts [OF o1]
  consider "h' = h"
    | r1 where "flush_announcement E r1 (c1, h1) = Inr (r', c', h')"
    | q tok secret c2 h2 r1 h3 where "mint_enrollment_token E K cfg rnd q (c1, h1) = Inr (tok, secret, c2, h2)"
        and "flush_announcement E r1 (c2, h2) = Inr (r', c', h3)"
        and "case old of None \<Rightarrow> h' = h3
             | Some t \<Rightarrow> et_consumed_at t = None \<and> h' = h3\<lparr>h_enrollment_tokens := tdel et_id (et_id t) (h_enrollment_tokens h3)\<rparr>"
    using assms
    by (simp add: maybe_recover_stranded_pickup_def old_token_def [symmetric] o1 split: if_splits)
      (auto simp: Let_def split: if_splits option.splits sum.splits)
  then show ?thesis
  proof cases
    case 1
    then show ?thesis by (simp add: sim.leads_refl)
  next
    case 2
    show ?thesis by (rule sim_trans [OF facts(1) sim_flush_announcement [OF 2]])
  next
    case 3
    have sim: "simulates h h3"
      by (rule sim_trans [OF sim_trans [OF facts(1) sim_mint [OF 3(1)]] sim_flush_announcement [OF 3(2)]])
    have "h_enrollment_tokens h3 = h_enrollment_tokens h1 @ [tok]"
      using mint_token_frame(1) [OF 3(1)] flush_announcement_sans [OF 3(2)] by (auto dest: sans_annD)
    then have "simulates h3 h'"
      using 3(3) facts(2) by (auto intro: sim_delete_open sim.leads_refl split: option.splits)
    with sim show ?thesis by (rule sim_trans)
  qed
qed

lemma sim_reply: "announce_reply_of E cfg r (c, h) = Inr (reply, c', h') \<Longrightarrow> simulates h h'"
  by (auto simp: announce_reply_of_def sim.leads_refl dest: sim_flush_announcement split: if_splits sum.splits)

lemma sim_upsert_row:
  assumes "upsert_row E mac claims ip ua (c, h) = Inr (r, c', h')"
  shows "simulates h h'"
proof -
  obtain rows c1 h1 where sel: "select_announcements E (c, h) = (rows, c1, h1)" by (metis prod_cases3)
  show ?thesis
  proof (cases "tget ann_mac_address mac rows")
    case (Some q)
    then obtain q' where "flush_announcement E q' (c1, h1) = Inr (r, c', h')"
      using assms sel by (auto simp: upsert_row_def)
    then show ?thesis by (rule sim_trans [OF sim_select_announcements [OF sel] sim_flush_announcement])
  next
    case None
    then obtain new d c2 h2 a n where fl: "stamp_and_guard_tenant_writes E [announcement_obj (take_claims claims (new_announcement E mac ip ua (h_ulid h1))) h1] [] (c1, h1) = Inr (new, d, c2, h2)"
      and h': "h' = h2\<lparr>h_announcements := a, h_ulid := n\<rparr>"
      using assms sel by (auto simp: upsert_row_def Let_def split: sum.splits if_splits)
    obtain b where "h2 = h1\<lparr>h_audit := b\<rparr>" using flush_same [OF fl] by blast
    then have "simulates h1 h'" by (intro sim_same) (simp_all add: h')
    then show ?thesis by (rule sim_trans [OF sim_select_announcements [OF sel]])
  qed
qed

lemma sim_touch: "simulates h (touch_device E mac h)"
  by (auto simp: touch_device_def modify_device_def intro: sim_same split: option.splits)

lemma upsertE:
  assumes "upsert_announcement E K cfg rnd mac claims ip ua s = Inr (reply, s')"
  obtains r1 c1 h1 r2 s2 r3 s3 where "upsert_row E (normalize_mac (Some (py_strip mac))) claims ip ua s = Inr (r1, c1, h1)"
    and "maybe_prepare_auto_rebind E K cfg rnd r1 (c1, touch_device E (normalize_mac (Some (py_strip mac))) h1) = Inr (r2, s2)"
    and "maybe_recover_stranded_pickup E K cfg rnd r2 s2 = Inr (r3, s3)"
    and "announce_reply_of E cfg r3 s3 = Inr (reply, s')"
  using assms by (auto simp: upsert_announcement_def Let_def split: if_splits option.splits sum.splits)

lemma sim_announce:
  assumes "upsert_announcement E K cfg rnd mac claims ip ua (c, h) = Inr (reply, c', h')"
  shows "simulates h h'"
proof (rule upsertE [OF assms])
  fix r1 c1 h1 r2 s2 r3 s3
  assume steps: "upsert_row E (normalize_mac (Some (py_strip mac))) claims ip ua (c, h) = Inr (r1, c1, h1)"
    "maybe_prepare_auto_rebind E K cfg rnd r1 (c1, touch_device E (normalize_mac (Some (py_strip mac))) h1) = Inr (r2, s2)"
    "maybe_recover_stranded_pickup E K cfg rnd r2 s2 = Inr (r3, s3)"
    "announce_reply_of E cfg r3 s3 = Inr (reply, c', h')"
  have "simulates h h1" by (rule sim_upsert_row [OF steps(1)])
  also have "simulates h1 (touch_device E (normalize_mac (Some (py_strip mac))) h1)" by (rule sim_touch)
  also have "simulates \<dots> (snd s2)" using steps(2) sim_auto_rebind by (cases s2) simp
  also have "simulates (snd s2) (snd s3)" using steps(3) sim_recover by (cases s2; cases s3) simp
  also have "simulates (snd s3) h'" using steps(4) sim_reply by (cases s3) simp
  finally show ?thesis .
qed

lemma sim_adopt:
  assumes "adopt E K cfg rnd i by name mode target (c, h) = (res, c', h')"
  shows "simulates h h'"
proof -
  obtain rows c1 h1 where sel: "select_announcements E (c, h) = (rows, c1, h1)" by (metis prod_cases3)
  consider "h' = h" | "h' = h1"
    | q tok secret c2 where "mint_enrollment_token E K cfg rnd q (c1, h) = Inr (tok, secret, c2, h')"
    | q tok secret c2 h2 r1 a r' where "mint_enrollment_token E K cfg rnd q (c1, h) = Inr (tok, secret, c2, h2)"
        and "flush_announcement E r1 (c2, h2\<lparr>h_audit := a\<rparr>) = Inr (r', c', h')"
    using assms
    by (simp add: adopt_def sel split: if_splits)
      (auto simp: Let_def split: if_splits option.splits sum.splits)
  then show ?thesis
  proof cases
    case 1
    then show ?thesis by (simp add: sim.leads_refl)
  next
    case 2
    then show ?thesis using sim_select_announcements [OF sel] by simp
  next
    case 3
    then show ?thesis by (rule sim_mint)
  next
    case 4
    show ?thesis by (rule sim_trans [OF sim_trans [OF sim_mint [OF 4(1)] sim_audit] sim_flush_announcement [OF 4(2)]])
  qed
qed

lemma sim_reject:
  assumes "reject E i by (c, h) = Inr (res, c', h')"
  shows "simulates h h'"
proof -
  obtain rows c1 h1 where sel: "select_announcements E (c, h) = (rows, c1, h1)" by (metis prod_cases3)
  have "simulates h1 h'"
    using assms sel by (auto simp: reject_def Let_def sim.leads_refl dest: sim_flush_announcement split: option.splits sum.splits)
  then show ?thesis by (rule sim_trans [OF sim_select_announcements [OF sel]])
qed

lemma sim_reconcile:
  assumes "force_adopt_reconcile E i (c, h) = Inr (res, c', h')"
  shows "simulates h h'"
proof -
  obtain rows c1 h1 where sel: "select_announcements E (c, h) = (rows, c1, h1)" by (metis prod_cases3)
  have "simulates h1 h'"
    using assms sel by (auto simp: force_adopt_reconcile_def Let_def dest: sim_flush_announcement split: option.splits sum.splits if_splits)
  then show ?thesis by (rule sim_trans [OF sim_select_announcements [OF sel]])
qed

lemma sim_delete_announcement:
  assumes "delete_announcement E i (c, h) = Inr (res, c', h')"
  shows "simulates h h'"
proof -
  obtain rows c1 h1 where sel: "select_announcements E (c, h) = (rows, c1, h1)" by (metis prod_cases3)
  have "simulates h1 h'"
  proof (cases "tget ann_id i rows")
    case None
    then show ?thesis using assms sel by (simp add: delete_announcement_def sim.leads_refl)
  next
    case (Some q)
    then obtain new d c2 h2 where "stamp_and_guard_tenant_writes E [] [] (c1, h1) = Inr (new, d, c2, h2)"
      and "h' = h2\<lparr>h_announcements := tdel ann_id i (h_announcements h2)\<rparr>"
      using assms sel by (auto simp: delete_announcement_def split: sum.splits)
    moreover obtain b where "h2 = h1\<lparr>h_audit := b\<rparr>" using flush_same calculation(1) by blast
    ultimately show ?thesis by (intro sim_same) simp_all
  qed
  then show ?thesis by (rule sim_trans [OF sim_select_announcements [OF sel]])
qed

section \<open>The code implements the machine\<close>

text \<open>One committed operation, in any organization's context, with any generator output.\<close>

inductive enroll_step :: "crypto \<Rightarrow> hub \<Rightarrow> hub \<Rightarrow> bool" for K where
  mint: "mint_enrollment_token E K cfg rnd q (c, h) = Inr (r, sec, c', h') \<Longrightarrow> enroll_step K h h'"
| revoke: "revoke_enrollment_token E i (c, h) = Inr (b, c', h') \<Longrightarrow> enroll_step K h h'"
| revoke_bulk: "revoke_enrollment_tokens_bulk E ids (c, h) = Inr (x, c', h') \<Longrightarrow> enroll_step K h h'"
| register: "consume_enrollment_token E K rnd token p (c, h) = Inr (d, secret, c', h') \<Longrightarrow> enroll_step K h h'"
| authenticate: "resolve_device E K auth h = (res, h') \<Longrightarrow> enroll_step K h h'"
| announce: "upsert_announcement E K cfg rnd mac claims ip ua (c, h) = Inr (reply, c', h') \<Longrightarrow> enroll_step K h h'"
| adopt: "adopt E K cfg rnd i by name mode target (c, h) = (res, c', h') \<Longrightarrow> enroll_step K h h'"
| reject: "reject E i by (c, h) = Inr (res, c', h') \<Longrightarrow> enroll_step K h h'"
| reconcile: "force_adopt_reconcile E i (c, h) = Inr (res, c', h') \<Longrightarrow> enroll_step K h h'"
| delete: "delete_announcement E i (c, h) = Inr (res, c', h') \<Longrightarrow> enroll_step K h h'"

lemma sim_step: "enroll_step K h h' \<Longrightarrow> simulates h h'"
proof (induction rule: enroll_step.induct)
  case (authenticate E auth h res h')
  then show ?case using sim_authenticate [of h E K auth] by simp
qed (rule sim_mint sim_revoke sim_revoke_bulk sim_consume sim_announce sim_adopt sim_reject sim_reconcile sim_delete_announcement; assumption)+

lemma sim_steps: "(enroll_step K)\<^sup>*\<^sup>* h h' \<Longrightarrow> simulates h h'"
  by (rule sim.leads_star [OF sim_step])

text \<open>C16: Enrollment refines the abstract machine of tokens and keys: over any sequence of operations (minting and
  revoking tokens, registering, announcing with its two self-healing paths, adopting, rejecting,
  reconciling and deleting announcements, devices authenticating), the uniqueness constraints of tokens and
  credentials are kept and the change is a run of the machine, in which a token is used at most
  once and every device has at most one key, shared with no other device.\<close>

theorem registration_refines:
  assumes "(enroll_step K)\<^sup>*\<^sup>* h h'" and "registry_ok h"
  shows "registry_ok h' \<and> registry_step\<^sup>*\<^sup>* (registry_of h) (registry_of h')"
  using sim_steps [OF assms(1)] assms(2) by (simp add: simulates_def)

definition join_settings :: settings where
  "join_settings = \<lparr>cfg_invitation_ttl_seconds = 3600, cfg_password_reset_ttl_seconds = 3600, cfg_enrollment_token_ttl_seconds = 3600,
     cfg_announce_pending_retry_after_seconds = 5, cfg_public_base_url = ''https://hub/''\<rparr>"

text \<open>A hub with one site and a device \<open>d1\<close> whose secret is \<open>old\<close>.\<close>

definition join_device :: device where
  "join_device = (new_device ''d1'' ''Attic'' 0)\<lparr>dev_mac_address := Some ''aa:bb:cc:00:11:22'', dev_local_ip := Some ''10.0.0.7'',
     dev_registration_state := ''active'', dev_site_id := Some ''s1'', dev_central_management_enabled := True\<rparr>"

definition join_hub :: hub where
  "join_hub = empty_hub\<lparr>h_sites := [(demo_site ''s1'' ''o1'')\<lparr>site_name := ''Default''\<rparr>], h_devices := [join_device],
     h_credentials := [\<lparr>cr_id = ''dcr1'', cr_device_id = ''d1'', cr_token_hash = ''old'', cr_revoked = False, cr_issued_at = 0,
                        cr_last_used_at = None\<rparr>]\<rparr>"

definition join_request :: "string option \<Rightarrow> token_request" where
  "join_request target = \<lparr>tr_issued_by_user_id = None, tr_site_id = Some ''s1'', tr_display_name_hint = Some ''Cellar'', tr_note = None,
     tr_ttl_seconds = None, tr_target_device_id = target\<rparr>"

text \<open>The token \<open>et_t\<close> is minted, for a new device or for \<open>d1\<close>, and used.\<close>

definition join_minted :: "string option \<Rightarrow> hub" where
  "join_minted target =
     (case mint_enrollment_token scope_env demo_crypto join_settings ''t'' (join_request target) (scope_ctx (Some ''o1''), join_hub) of
        Inr (r, sec, c, h) \<Rightarrow> h | Inl e \<Rightarrow> join_hub)"

definition join_payload :: "string \<Rightarrow> pydict" where
  "join_payload mac = [(''mac_address'', VStr mac), (''firmware_version'', VStr ''1.2.0'')]"

definition join_used :: "string option \<Rightarrow> string \<Rightarrow> hub" where
  "join_used target mac =
     (case consume_enrollment_token scope_env demo_crypto ''n'' ''et_t'' (join_payload mac) (scope_ctx None, join_minted target) of
        Inr (d, sec, c, h) \<Rightarrow> h | Inl e \<Rightarrow> join_hub)"

lemma join_minted:
  assumes "target \<in> {None, Some ''d1''}"
  shows "\<exists>r sec c. mint_enrollment_token scope_env demo_crypto join_settings ''t'' (join_request target) (scope_ctx (Some ''o1''), join_hub)
       = Inr (r, sec, c, join_minted target)"
proof -
  have "\<not> isl (mint_enrollment_token scope_env demo_crypto join_settings ''t'' (join_request None) (scope_ctx (Some ''o1''), join_hub))"
    and "\<not> isl (mint_enrollment_token scope_env demo_crypto join_settings ''t'' (join_request (Some ''d1'')) (scope_ctx (Some ''o1''), join_hub))"
    by code_simp+
  then show ?thesis using assms by (auto simp: join_minted_def split: sum.splits)
qed

lemma join_used:
  shows "\<exists>d sec c. consume_enrollment_token scope_env demo_crypto ''n'' ''et_t'' (join_payload ''AA:BB:CC:00:11:33'') (scope_ctx None, join_minted None)
       = Inr (d, sec, c, join_used None ''AA:BB:CC:00:11:33'')"
    and "\<exists>d c. consume_enrollment_token scope_env demo_crypto ''n'' ''et_t'' (join_payload ''AA:BB:CC:00:11:22'') (scope_ctx None, join_minted (Some ''d1''))
       = Inr (d, ''dt_n'', c, join_used (Some ''d1'') ''AA:BB:CC:00:11:22'') \<and> dev_id d = ''d1''"
proof -
  have "\<not> isl (consume_enrollment_token scope_env demo_crypto ''n'' ''et_t'' (join_payload ''AA:BB:CC:00:11:33'') (scope_ctx None, join_minted None))"
    by code_simp
  then show "\<exists>d sec c. consume_enrollment_token scope_env demo_crypto ''n'' ''et_t'' (join_payload ''AA:BB:CC:00:11:33'') (scope_ctx None, join_minted None)
       = Inr (d, sec, c, join_used None ''AA:BB:CC:00:11:33'')"
    by (auto simp: join_used_def split: sum.splits)
  have "(case consume_enrollment_token scope_env demo_crypto ''n'' ''et_t'' (join_payload ''AA:BB:CC:00:11:22'') (scope_ctx None, join_minted (Some ''d1'')) of
      Inr (d, sec, c, h) \<Rightarrow> dev_id d = ''d1'' \<and> sec = ''dt_n'' | Inl e \<Rightarrow> False)"
    by code_simp
  then show "\<exists>d c. consume_enrollment_token scope_env demo_crypto ''n'' ''et_t'' (join_payload ''AA:BB:CC:00:11:22'') (scope_ctx None, join_minted (Some ''d1''))
       = Inr (d, ''dt_n'', c, join_used (Some ''d1'') ''AA:BB:CC:00:11:22'') \<and> dev_id d = ''d1''"
    by (auto simp: join_used_def split: sum.splits)
qed

lemma join_registry_ok: "registry_ok join_hub"
  by code_simp

lemma join_minted_ok: "target \<in> {None, Some ''d1''} \<Longrightarrow> registry_ok (join_minted target)"
  using join_minted [of target] sim_mint join_registry_ok by (auto simp: simulates_def)

theorem registration_refines_witness:
  "registry_step\<^sup>*\<^sup>* (registry_of join_hub) (registry_of (join_used None ''AA:BB:CC:00:11:33''))
     \<and> rg_tokens (registry_of (join_used None ''AA:BB:CC:00:11:33'')) ''et_t'' = Some Used"
proof -
  have "enroll_step demo_crypto join_hub (join_minted None)" using join_minted [of None] enroll_step.mint by blast
  moreover have "enroll_step demo_crypto (join_minted None) (join_used None ''AA:BB:CC:00:11:33'')"
    using join_used(1) enroll_step.register by blast
  ultimately have "(enroll_step demo_crypto)\<^sup>*\<^sup>* join_hub (join_used None ''AA:BB:CC:00:11:33'')" by simp
  moreover have "rg_tokens (registry_of (join_used None ''AA:BB:CC:00:11:33'')) ''et_t'' = Some Used" by code_simp
  ultimately show ?thesis using registration_refines join_registry_ok by blast
qed

section \<open>Tokens and keys\<close>

lemma consume_uses:
  assumes "consume_enrollment_token E K rnd token p (c, h) = Inr (d, secret, c', h')" and "registry_ok h"
  shows "rg_tokens (registry_of h') (cy_sha256 K token) = Some Used"
proof (rule consumeE [OF assms(1)])
  fix et c1 h1 h2
  assume rs: "register_session E K secret token p (c, h) = Inr (d, et, c1, h1)"
    and frames: "sans_ann h2 = sans_ann h1" "only_pushes h2 h'"
  obtain r0 org where et: "r0 \<in> set (h_enrollment_tokens h)" "et_token_hash r0 = cy_sha256 K token"
    and toks: "h_enrollment_tokens h1 = tupd et_token_hash (cy_sha256 K token) (marked E (dev_id d) org) (h_enrollment_tokens h)"
    by (rule register_sessionE [OF rs]) (rule that; assumption)
  have "tget et_token_hash (cy_sha256 K token) (h_enrollment_tokens h) = Some r0"
    using assms(2) et by (simp add: registry_ok_def pk_ok_get)
  moreover have "h_enrollment_tokens h' = h_enrollment_tokens h1" using frames sans_annD only_pushesD by metis
  ultimately show ?thesis by (simp add: registry_of_def toks tget_tupd marked_def token_state_def)
qed

lemma used_token_refused:
  assumes "rg_tokens (registry_of h) (cy_sha256 K token) = Some Used" and "registry_ok h"
  shows "\<exists>e. consume_enrollment_token E K rnd token p (c, h) = Inl e"
proof (cases "consume_enrollment_token E K rnd token p (c, h)")
  case (Inr x)
  then obtain d secret c' h' where "consume_enrollment_token E K rnd token p (c, h) = Inr (d, secret, c', h')" by (cases x) auto
  then show ?thesis
  proof (rule consumeE)
    fix et c1 h1 h2
    assume "register_session E K secret token p (c, h) = Inr (d, et, c1, h1)"
    then obtain r0 where et: "r0 \<in> set (h_enrollment_tokens h)" "et_token_hash r0 = cy_sha256 K token" "et_consumed_at r0 = None"
      by (rule register_sessionE) (rule that; assumption)
    have "tget et_token_hash (cy_sha256 K token) (h_enrollment_tokens h) = Some r0"
      using assms(2) et by (simp add: registry_ok_def pk_ok_get)
    then show ?thesis using assms(1) et(3) by (simp add: registry_of_def token_state_def)
  qed
qed simp

text \<open>C17: An enrollment token enrolls one device, ever: after it was used, no sequence of operations, no revocation, no
  re-armed announcement and no time passing makes a registration with it succeed again.\<close>

theorem enrollment_single_use:
  assumes "consume_enrollment_token E K rnd token p (c, h) = Inr (d, secret, c1, h1)" and "registry_ok h"
    and "(enroll_step K)\<^sup>*\<^sup>* h1 h2"
  shows "\<exists>e. consume_enrollment_token E' K rnd' token p' (c2, h2) = Inl e"
proof -
  have ok1: "registry_ok h1" using sim_consume [OF assms(1)] assms(2) by (simp add: simulates_def)
  then have ok2: "registry_ok h2" and run: "registry_step\<^sup>*\<^sup>* (registry_of h1) (registry_of h2)"
    using sim_steps [OF assms(3)] by (simp_all add: simulates_def)
  show ?thesis by (rule used_token_refused [OF used_stays [OF run consume_uses [OF assms(1,2)]] ok2])
qed

theorem enrollment_single_use_witness:
  "\<exists>e. consume_enrollment_token scope_env demo_crypto ''m'' ''et_t'' (join_payload ''AA:BB:CC:00:11:44'')
         (scope_ctx None, join_used None ''AA:BB:CC:00:11:33'') = Inl e"
  using enrollment_single_use [of scope_env demo_crypto "''n''" "''et_t''" "join_payload ''AA:BB:CC:00:11:33''" "scope_ctx None" "join_minted None"]
    join_used(1) join_minted_ok [of None] by blast

text \<open>A registered device in the hub after the registration.\<close>

lemma consume_device:
  assumes "consume_enrollment_token E K rnd token p (c, h) = Inr (d, secret, c', h')" and "registry_ok h"
  obtains r d' where "get_device (dev_id d) h' = Some d'" and "dev_registration_state d' = ''active''" and "dev_id d' = dev_id d"
    and "r \<in> set (h_credentials h')" and "cr_device_id r = dev_id d" and "cr_token_hash r = cy_sha256 K secret" and "\<not> cr_revoked r"
    and "\<And>q. q \<in> set (h_credentials h') \<Longrightarrow> q = r \<or> q \<in> set (h_credentials h) \<and> cr_device_id q \<noteq> dev_id d"
proof (rule consumeE [OF assms(1)])
  fix et c1 h1 h2
  assume rs: "register_session E K secret token p (c, h) = Inr (d, et, c1, h1)"
    and frames: "sans_ann h2 = sans_ann h1" "only_pushes h2 h'"
  obtain r0 r where crs: "h_credentials h1 = kept_credentials r0 h @ [r]"
    and r: "cr_device_id r = dev_id d" "cr_token_hash r = cy_sha256 K secret" "\<not> cr_revoked r"
    and new: "dev_id d \<notin> cr_device_id ` set (kept_credentials r0 h)"
    and act: "dev_registration_state d = ''active''"
    and fresh: "opt_text (et_target_device_id r0) = [] \<Longrightarrow> get_device (dev_id d) h = None \<and> h_devices h1 = h_devices h @ [d]"
    and rebound: "opt_text (et_target_device_id r0) \<noteq> [] \<Longrightarrow> dev_id d = opt_text (et_target_device_id r0)
           \<and> (\<exists>d0. get_device (dev_id d) h = Some d0 \<and> d = restored E p d0)
           \<and> h_devices h1 = tupd dev_id (dev_id d) (restored E p) (h_devices h)"
    by (rule register_sessionE [OF rs]) (rule that; assumption)
  have "get_device (dev_id d) h1 = Some d"
  proof (cases "opt_text (et_target_device_id r0) = []")
    case True
    then show ?thesis using fresh by (simp add: get_device_def tget_append)
  next
    case False
    then obtain d0 where "get_device (dev_id d) h = Some d0" "d = restored E p d0"
      "h_devices h1 = tupd dev_id (dev_id d) (restored E p) (h_devices h)" using rebound by blast
    then show ?thesis by (simp add: get_device_def tget_tupd restored_def)
  qed
  then have "get_device (dev_id d) h2 = Some d" using sans_annD(3) [OF frames(1)] by (simp add: get_device_def)
  then have "map_option unpushed (get_device (dev_id d) h') = Some (unpushed d)"
    using frames(2) by (simp add: only_pushes_def)
  then obtain d' where d': "get_device (dev_id d) h' = Some d'" "unpushed d' = unpushed d" by auto
  have st: "dev_registration_state d' = ''active''"
    using arg_cong [OF d'(2), of dev_registration_state] act by (simp add: unpushed_def)
  have di: "dev_id d' = dev_id d" using arg_cong [OF d'(2), of dev_id] by (simp add: unpushed_def)
  have crs': "h_credentials h' = kept_credentials r0 h @ [r]"
    using crs sans_annD(2) [OF frames(1)] only_pushesD(2) [OF frames(2)] by simp
  show ?thesis
  proof (rule that [OF d'(1) st di _ r])
    show "r \<in> set (h_credentials h')" by (simp add: crs')
    fix q
    assume "q \<in> set (h_credentials h')"
    then show "q = r \<or> q \<in> set (h_credentials h) \<and> cr_device_id q \<noteq> dev_id d"
      using new by (auto simp: crs' kept_credentials_def image_iff split: if_splits)
  qed
qed

lemma resolve_bearer:
  assumes "pk_ok cr_token_hash (h_credentials h)" and "r \<in> set (h_credentials h)" and "cr_token_hash r = cy_sha256 K secret"
    and "\<not> cr_revoked r" and "get_device (cr_device_id r) h = Some d" and "dev_registration_state d = ''active''"
  shows "fst (resolve_device E K (''Bearer '' @ secret) h) = Some (d\<lparr>dev_last_seen_at := Some (env_now E)\<rparr>, device_org d h)"
proof -
  have eq: "q = r" if "q \<in> set (h_credentials h)" "cr_token_hash q = cy_sha256 K secret" for q
    using pk_ok_unique [OF assms(1) that(1) assms(2)] that(2) assms(3) by simp
  obtain q where q: "find (\<lambda>c. cr_token_hash c = cy_sha256 K secret \<and> \<not> cr_revoked c) (h_credentials h) = Some q"
    using assms(2-4) by (metis (mono_tags, lifting) find_None_iff option.exhaust)
  then have "q = r" using eq by (auto simp: find_Some_iff)
  then show ?thesis using q assms(5,6) by (simp add: resolve_device_def starts_with_def Let_def)
qed

text \<open>A device that registered is in: the secret it was handed authenticates it, as an active device of
  the organization of its site, whether it is new or restored and whatever configuration was pushed.\<close>

theorem registered_device_authenticates:
  assumes "consume_enrollment_token E K rnd token p (c, h) = Inr (d, secret, c1, h1)" and "registry_ok h"
  shows "\<exists>d'. fst (resolve_device E' K (''Bearer '' @ secret) h1) = Some (d', device_org d' h1)
    \<and> dev_id d' = dev_id d \<and> dev_registration_state d' = ''active'' \<and> dev_last_seen_at d' = Some (env_now E')"
proof -
  obtain r d' where r: "get_device (dev_id d) h1 = Some d'" "dev_registration_state d' = ''active''" "dev_id d' = dev_id d"
    "r \<in> set (h_credentials h1)" "cr_device_id r = dev_id d" "cr_token_hash r = cy_sha256 K secret" "\<not> cr_revoked r"
    by (rule consume_device [OF assms]) (rule that; assumption)
  have "pk_ok cr_token_hash (h_credentials h1)"
    using sim_consume [OF assms(1)] assms(2) by (simp add: simulates_def registry_ok_def)
  then show ?thesis
    using resolve_bearer [of h1 r K secret d' E'] r by (simp add: device_org_def)
qed

theorem registered_device_authenticates_witness:
  "map_option (dev_id \<circ> fst) (fst (resolve_device scope_env demo_crypto ''Bearer dt_n'' (join_used (Some ''d1'') ''AA:BB:CC:00:11:22''))) = Some ''d1''"
proof -
  obtain d c where d: "consume_enrollment_token scope_env demo_crypto ''n'' ''et_t'' (join_payload ''AA:BB:CC:00:11:22'') (scope_ctx None, join_minted (Some ''d1''))
       = Inr (d, ''dt_n'', c, join_used (Some ''d1'') ''AA:BB:CC:00:11:22'')" "dev_id d = ''d1''" using join_used(2) by blast
  show ?thesis
    using registered_device_authenticates [OF d(1) join_minted_ok, of scope_env] d(2) by auto
qed

text \<open>C18: Restoring a device locks out the secret it had before: after the registration no other secret of
  that device, and no secret unknown before, opens the hub.\<close>

theorem restore_revokes_old_secret:
  assumes "consume_enrollment_token E K rnd token p (c, h) = Inr (d, secret, c1, h1)" and "registry_ok h"
    and "cy_sha256 K old \<noteq> cy_sha256 K secret"
    and "case tget cr_token_hash (cy_sha256 K old) (h_credentials h) of None \<Rightarrow> True | Some q \<Rightarrow> cr_device_id q = dev_id d"
  shows "fst (resolve_device E' K (''Bearer '' @ old) h1) = None"
proof -
  obtain r where r: "cr_token_hash r = cy_sha256 K secret"
    "\<And>q. q \<in> set (h_credentials h1) \<Longrightarrow> q = r \<or> q \<in> set (h_credentials h) \<and> cr_device_id q \<noteq> dev_id d"
    by (rule consume_device [OF assms(1,2)]) (rule that; assumption)
  have "cr_token_hash q \<noteq> cy_sha256 K old" if "q \<in> set (h_credentials h1)" for q
  proof
    assume hash: "cr_token_hash q = cy_sha256 K old"
    then have "q \<noteq> r" using r(1) assms(3) by auto
    then have "q \<in> set (h_credentials h)" "cr_device_id q \<noteq> dev_id d" using r(2) [OF that] by simp_all
    moreover from this have "tget cr_token_hash (cy_sha256 K old) (h_credentials h) = Some q"
      using assms(2) hash by (simp add: registry_ok_def pk_ok_get)
    ultimately show False using assms(4) by auto
  qed
  then have "find (\<lambda>q. cr_token_hash q = cy_sha256 K old \<and> \<not> cr_revoked q) (h_credentials h1) = None"
    by (auto simp: find_None_iff)
  then show ?thesis by (simp add: resolve_device_def)
qed

theorem restore_revokes_old_secret_witness:
  "fst (resolve_device scope_env demo_crypto ''Bearer old'' (join_used (Some ''d1'') ''AA:BB:CC:00:11:22'')) = None
     \<and> map_option (dev_id \<circ> fst) (fst (resolve_device scope_env demo_crypto ''Bearer old'' (join_minted (Some ''d1'')))) = Some ''d1''"
proof
  obtain d c where d: "consume_enrollment_token scope_env demo_crypto ''n'' ''et_t'' (join_payload ''AA:BB:CC:00:11:22'') (scope_ctx None, join_minted (Some ''d1''))
       = Inr (d, ''dt_n'', c, join_used (Some ''d1'') ''AA:BB:CC:00:11:22'')" "dev_id d = ''d1''" using join_used(2) by blast
  have "map_option cr_device_id (tget cr_token_hash ''old'' (h_credentials (join_minted (Some ''d1'')))) = Some ''d1''" by code_simp
  then have "case tget cr_token_hash (cy_sha256 demo_crypto ''old'') (h_credentials (join_minted (Some ''d1''))) of None \<Rightarrow> True | Some q \<Rightarrow> cr_device_id q = dev_id d"
    using d(2) by (auto simp: demo_crypto_def)
  then show "fst (resolve_device scope_env demo_crypto ''Bearer old'' (join_used (Some ''d1'') ''AA:BB:CC:00:11:22'')) = None"
    using restore_revokes_old_secret [OF d(1) join_minted_ok, of "''old''" scope_env] by (simp add: demo_crypto_def)
  show "map_option (dev_id \<circ> fst) (fst (resolve_device scope_env demo_crypto ''Bearer old'' (join_minted (Some ''d1'')))) = Some ''d1''"
    by code_simp
qed

section \<open>The reply to a device that polls\<close>

definition lifecycle :: "announcement \<Rightarrow> instant option \<times> string option \<times> instant option \<times> instant option" where
  "lifecycle r = (ann_adopted_at r, ann_adoption_token_secret r, ann_consumed_at r, ann_rejected_at r)"

lemma flush_lifecycle: "flush_announcement E r s = Inr (r', s') \<Longrightarrow> lifecycle r' = lifecycle r"
  by (auto simp: flush_announcement_def Let_def lifecycle_def split: sum.splits)

lemma upsert_row_lifecycle:
  assumes "upsert_row E mac claims ip ua s = Inr (r', s')" and "tget ann_mac_address mac (fst (select_announcements E s)) = Some r"
  shows "lifecycle r' = lifecycle r" and "sans_ann (snd s') = sans_ann (snd s)"
proof -
  obtain rows c1 h1 where sel: "select_announcements E s = (rows, c1, h1)" by (metis prod_cases3)
  let ?r = "take_claims claims (r\<lparr>ann_last_seen_at := env_now E, ann_announce_count := ann_announce_count r + 1,
            ann_source_ip := ip, ann_user_agent := or_else (map_option (take 200) ua) (ann_user_agent r)\<rparr>)"
  have fl: "flush_announcement E ?r (c1, h1) = Inr (r', s')"
    using assms sel by (simp add: upsert_row_def)
  show "lifecycle r' = lifecycle r"
    unfolding flush_lifecycle [OF fl] by (simp add: lifecycle_def take_claims_def)
  show "sans_ann (snd s') = sans_ann (snd s)"
    using flush_announcement_sans [OF fl] select_announcements_sans [of E s] sel by simp
qed

text \<open>A rejected device stays out: whatever it claims, whatever state its row, its old token and the device
  with its MAC are in, an announcement for a rejected row is answered with a rejection, never with a token.\<close>

theorem rejected_gets_no_token:
  assumes "upsert_announcement E K cfg rnd mac claims ip ua s = Inr (reply, s')"
    and "tget ann_mac_address (normalize_mac (Some (py_strip mac))) (fst (select_announcements E s)) = Some r"
    and "ann_rejected_at r \<noteq> None"
  shows "reply = Rejected"
proof (rule upsertE [OF assms(1)])
  fix r1 c1 h1 r2 s2 r3 s3
  assume st: "upsert_row E (normalize_mac (Some (py_strip mac))) claims ip ua s = Inr (r1, c1, h1)"
    "maybe_prepare_auto_rebind E K cfg rnd r1 (c1, touch_device E (normalize_mac (Some (py_strip mac))) h1) = Inr (r2, s2)"
    "maybe_recover_stranded_pickup E K cfg rnd r2 s2 = Inr (r3, s3)" "announce_reply_of E cfg r3 s3 = Inr (reply, s')"
  have "ann_rejected_at r1 \<noteq> None" using upsert_row_lifecycle(1) [OF st(1) assms(2)] assms(3) by (simp add: lifecycle_def)
  then have r2: "ann_rejected_at r2 \<noteq> None"
    using st(2) by (auto simp: maybe_prepare_auto_rebind_def Let_def lifecycle_def split: if_splits option.splits sum.splits
        dest!: flush_lifecycle)
  then have "r3 = r2" using st(3) by (simp add: maybe_recover_stranded_pickup_def)
  then show ?thesis using st(4) r2 by (simp add: announce_reply_of_def)
qed

text \<open>Delivery can be repeated: while an adopted device has not registered, every announcement of it is answered
  with the same token secret, and polling mints no token and touches none. This holds even when the token was
  revoked or has expired: the reply does not look at it.\<close>

theorem adopted_reply_repeats:
  assumes "upsert_announcement E K cfg rnd mac claims ip ua s = Inr (reply, s')"
    and "tget ann_mac_address (normalize_mac (Some (py_strip mac))) (fst (select_announcements E s)) = Some r"
    and "ann_rejected_at r = None" and "ann_adopted_at r \<noteq> None" and "ann_adoption_token_secret r = Some secret" and "secret \<noteq> []"
  shows "(\<exists>url. reply = Adopted secret url) \<and> h_enrollment_tokens (snd s') = h_enrollment_tokens (snd s)"
proof (rule upsertE [OF assms(1)])
  fix r1 c1 h1 r2 s2 r3 s3
  assume st: "upsert_row E (normalize_mac (Some (py_strip mac))) claims ip ua s = Inr (r1, c1, h1)"
    "maybe_prepare_auto_rebind E K cfg rnd r1 (c1, touch_device E (normalize_mac (Some (py_strip mac))) h1) = Inr (r2, s2)"
    "maybe_recover_stranded_pickup E K cfg rnd r2 s2 = Inr (r3, s3)" "announce_reply_of E cfg r3 s3 = Inr (reply, s')"
  note row = upsert_row_lifecycle [OF st(1) assms(2)]
  have r1: "ann_rejected_at r1 = None" "ann_adopted_at r1 \<noteq> None" "ann_adoption_token_secret r1 = Some secret"
    using row(1) assms(3-5) by (simp_all add: lifecycle_def)
  then have hs: "has_secret r1" using assms(6) by (simp add: has_secret_def opt_text_def)
  then have r3: "r3 = r1" "s3 = (c1, touch_device E (normalize_mac (Some (py_strip mac))) h1)"
    using st(2,3) by (auto simp: maybe_prepare_auto_rebind_def maybe_recover_stranded_pickup_def)
  have "h_enrollment_tokens (snd s3) = h_enrollment_tokens (snd s)"
    using sans_annD(1) [OF row(2)] by (auto simp: r3 touch_device_def modify_device_def split: option.splits)
  then show ?thesis
    using st(4) r1 hs by (auto simp: announce_reply_of_def r3(1) opt_text_def split: sum.splits if_splits
        dest!: flush_announcement_sans sans_annD(1))
qed

text \<open>Hubs with an announcement of the MAC AABBCC001122, that of device \<open>d1\<close>.\<close>

definition announced_hub :: "(announcement \<Rightarrow> announcement) \<Rightarrow> hub" where
  "announced_hub f = join_hub\<lparr>h_announcements := [f ((new_announcement scope_env ''AABBCC001122'' (Some ''203.0.113.9'') None 0)\<lparr>ann_id := ''a1''\<rparr>)]\<rparr>"

definition poll :: "pydict \<Rightarrow> hub \<Rightarrow> enroll_error + (announce_reply \<times> ctx \<times> hub)" where
  "poll claims h = upsert_announcement scope_env demo_crypto join_settings ''x'' ''aa:bb:cc:00:11:22'' claims (Some ''203.0.113.9'') None (scope_ctx None, h)"

lemma poll_row:
  "tget ann_mac_address (normalize_mac (Some (py_strip ''aa:bb:cc:00:11:22''))) (fst (select_announcements scope_env (scope_ctx None, h)))
     = tget ann_mac_address ''AABBCC001122'' (h_announcements h)"
proof -
  have "normalize_mac (Some (py_strip ''aa:bb:cc:00:11:22'')) = ''AABBCC001122''" by code_simp
  moreover have "fst (select_announcements scope_env (scope_ctx None, h)) = h_announcements h"
    by (simp add: select_announcements_def select_scoped_def add_tenant_filter_def touches_tenant_scoped_def
        tenant_scoped_tablenames_def unscoped_violation_def visible_def split_beta scope_ctx_def emit_audit_eq)
  ultimately show ?thesis by simp
qed

theorem rejected_gets_no_token_witness:
  "map_sum id fst (poll [] (announced_hub (\<lambda>r. r\<lparr>ann_consumed_at := Some 1, ann_rejected_at := Some 2\<rparr>))) = Inr Rejected"
proof -
  let ?h = "announced_hub (\<lambda>r. r\<lparr>ann_consumed_at := Some 1, ann_rejected_at := Some 2\<rparr>)"
  have "\<not> isl (poll [] ?h)" by code_simp
  then obtain reply s' where p: "poll [] ?h = Inr (reply, s')" by (cases "poll [] ?h") auto
  obtain r where r: "tget ann_mac_address ''AABBCC001122'' (h_announcements ?h) = Some r" "ann_rejected_at r = Some 2"
    by (simp add: announced_hub_def new_announcement_def tget_def)
  show ?thesis
    using rejected_gets_no_token [OF p [unfolded poll_def], unfolded poll_row, OF r(1)] r(2) p by simp
qed

theorem adopted_reply_repeats_witness:
  "\<exists>url s'. poll [] (announced_hub (\<lambda>r. r\<lparr>ann_adopted_at := Some 1, ann_adoption_token_secret := Some ''et_gone''\<rparr>))
     = Inr (Adopted ''et_gone'' url, s') \<and> h_enrollment_tokens (snd s') = []"
proof -
  let ?h = "announced_hub (\<lambda>r. r\<lparr>ann_adopted_at := Some 1, ann_adoption_token_secret := Some ''et_gone''\<rparr>)"
  have "\<not> isl (poll [] ?h)" by code_simp
  then obtain reply s' where p: "poll [] ?h = Inr (reply, s')" by (cases "poll [] ?h") auto
  obtain r where r: "tget ann_mac_address ''AABBCC001122'' (h_announcements ?h) = Some r" "ann_rejected_at r = None"
    "ann_adopted_at r = Some 1" "ann_adoption_token_secret r = Some ''et_gone''"
    by (simp add: announced_hub_def new_announcement_def tget_def)
  have "h_enrollment_tokens ?h = []" by (simp add: announced_hub_def join_hub_def empty_hub_def)
  then show ?thesis
    using adopted_reply_repeats [OF p [unfolded poll_def], unfolded poll_row, OF r(1,2) _ r(4)] r(3) p by auto
qed

section \<open>Two holes\<close>

text \<open>An announcement from elsewhere that claims the address of the device \<open>d1\<close>, and a registration with the
  token it is handed.\<close>

definition takeover :: "(string \<times> string \<times> hub) option" where
  "takeover =
     (case poll [(''claimed_local_ip'', VStr ''10.0.0.7'')] (announced_hub (\<lambda>r. r\<lparr>ann_consumed_at := Some 1\<rparr>)) of
        Inr (Adopted token url, c, h) \<Rightarrow>
          (case consume_enrollment_token scope_env demo_crypto ''evil'' token [] (scope_ctx None, h) of
             Inr (d, secret, c', h') \<Rightarrow> Some (dev_id d, secret, h')
           | Inl e \<Rightarrow> None)
      | _ \<Rightarrow> None)"

definition who_is :: "string \<Rightarrow> hub \<Rightarrow> string option" where
  "who_is secret h = map_option (dev_id \<circ> fst) (fst (resolve_device scope_env demo_crypto (''Bearer '' @ secret) h))"

text \<open>The guard of the automatic rebind does not bind: its address test accepts the address the announcement
  itself claims. Anyone who reaches the public route and knows the MAC and the local address of a
  registered device obtains a token for that device without an operator, registers as it and holds its
  credential; the real device, which had access before, is locked out.\<close>

theorem announcement_takes_over:
  "map_option (\<lambda>(i, secret, h). (i, who_is secret h, who_is ''old'' h)) takeover = Some (''d1'', Some ''d1'', None)
     \<and> who_is ''old'' join_hub = Some ''d1''"
  by code_simp

text \<open>Under enforcement nobody can adopt a device that announced itself: the public route leaves the
  announcement without an organization, and the read filter of every operator hides rows without one, so
  adopting it reports that it does not exist, and nothing is written.\<close>

theorem enforced_adoption_impossible:
  assumes "cx_org c = Some org" and "\<not> cx_bypass c" and "\<not> cx_in_filter c"
    and "fst (enforce_mode E True (Some (h_settings h)) c) = ENFORCE"
    and "list_all (\<lambda>r. ann_id r = i \<longrightarrow> ann_organization_id r = None) (h_announcements h)"
  shows "\<exists>c'. adopt E K cfg rnd i by name ''fresh'' target (c, h)
      = (Inl (AnnouncementError ''not_found'' ''Announcement not found''), c', h)"
proof -
  obtain c' where em: "enforce_mode E True (Some (h_settings h)) c = (ENFORCE, c')" using assms(4) by (metis prod.collapse)
  have sel: "select_announcements E (c, h) = (filter (\<lambda>r. ann_organization_id r = Some org) (h_announcements h), c'\<lparr>cx_in_filter := False\<rparr>, h)"
    unfolding select_announcements_def
    by (subst select_scoped_enforced [OF assms(1-3) _ em]) (simp_all add: tenant_scoped_tablenames_def)
  have "tget ann_id i (filter (\<lambda>r. ann_organization_id r = Some org) (h_announcements h)) = None"
    using assms(5) by (auto simp: tget_None_iff list_all_iff)
  then show ?thesis by (simp add: adopt_def sel)
qed

text \<open>The row of a first announcement on the public route.\<close>

lemma public_row_unowned:
  assumes "upsert_row E mac claims ip ua (c, h) = Inr (r, c', h')" and "cx_org c = None"
    and "tget ann_mac_address mac (fst (select_announcements E (c, h))) = None"
  shows "ann_organization_id r = None"
proof -
  obtain rows c1 h1 where sel: "select_announcements E (c, h) = (rows, c1, h1)" by (metis prod_cases3)
  have org: "cx_org c1 = None" using select_announcements_facts(3) [OF sel] assms(2) by simp
  have mode: "cx_org (snd (enforce_mode E b v k)) = cx_org k" for b v k
    by (rule enforce_mode_frame(1)) (rule surjective_pairing)
  have guard: "fo_org (hd new) = None"
    if "stamp_and_guard_tenant_writes E [ob] [] (c1, h1) = Inr (new, d, c2, h2)" "fo_org ob = None" for ob new d c2 h2
    using that org
    by (auto simp: stamp_and_guard_tenant_writes_def Let_def is_enforcing_def split_beta guard_one_def mode
        split: if_splits sum.splits option.splits)
  have "fo_org (announcement_obj (take_claims claims (new_announcement E mac ip ua (h_ulid h1))) h1) = None"
    by (simp add: announcement_obj_def take_claims_def new_announcement_def)
  then show ?thesis
    using assms(1,3) sel by (auto simp: upsert_row_def Let_def dest!: guard split: sum.splits if_splits)
qed

theorem enforced_adoption_impossible_witness:
  "case poll [] enforcing_hub of Inl e \<Rightarrow> False
   | Inr (reply, c, h) \<Rightarrow> reply = Pending 5 \<and> length (h_announcements h) = 1
       \<and> (\<exists>e. fst (adopt scope_env demo_crypto join_settings ''y'' (ann_id (hd (h_announcements h))) None None ''fresh'' None
                (scope_ctx (Some ''o1''), h)) = Inl e)"
proof -
  have facts: "case poll [] enforcing_hub of Inl e \<Rightarrow> False
    | Inr (reply, c, h) \<Rightarrow> reply = Pending 5 \<and> map ann_organization_id (h_announcements h) = [None]
        \<and> fst (enforce_mode scope_env True (Some (h_settings h)) (scope_ctx (Some ''o1''))) = ENFORCE"
    by code_simp
  obtain reply c h where p: "poll [] enforcing_hub = Inr (reply, c, h)" using facts by (auto split: sum.splits)
  then obtain r where r: "h_announcements h = [r]" "ann_organization_id r = None" "reply = Pending 5"
    and m: "fst (enforce_mode scope_env True (Some (h_settings h)) (scope_ctx (Some ''o1''))) = ENFORCE"
    using facts by (auto simp: map_eq_Cons_conv)
  have "list_all (\<lambda>q. ann_id q = ann_id r \<longrightarrow> ann_organization_id q = None) (h_announcements h)" using r by simp
  from enforced_adoption_impossible [OF _ _ _ m this, of "''o1''" demo_crypto join_settings "''y''" None None None]
  show ?thesis using p r by auto
qed

text \<open>The restore path refuses the very device it is for: the announcement's MAC is stored without separators
  and the device's as the firmware sent it, and the two are compared as they are. A device that reports its
  MAC with colons is a mismatch for itself, although the canonical forms agree.\<close>

theorem restore_adoption_mismatch:
  "let r = hd (h_announcements (announced_hub id))
   in normalize_mac (Some (ann_mac_address r)) = normalize_mac (dev_mac_address join_device)
     \<and> check_restore_target r (Some ''d1'') join_hub = Some (invalid_announcement ''MAC mismatch between announcement and target device'')"
  by code_simp

end
