(* ===== verification/ApiTokens.thy ===== *)
theory ApiTokens
  imports AuditLog PyText Accounts
begin

text \<open>
  Machine credentials (\<open>app/services/api_tokens.py\<close>, \<open>app/middleware/token_auth.py\<close>): minting a token with scopes and an
  expiry, listing and revoking, verifying a presented one, and the gate in front of the routes open to them.
\<close>

datatype token_error =
    ApiTokenError string string
  | ApiTokenCrash
  | ApiTokenRefused tenant_error
  | ApiTokenIntegrityError

abbreviation invalid_token :: "string \<Rightarrow> token_error" where
  "invalid_token \<equiv> ApiTokenError ''validation_failed''"

section \<open>Minting\<close>

definition TOKEN_STRING_PREFIX :: string where "TOKEN_STRING_PREFIX = ''rbt_''"
definition SCOPE_READ :: string where "SCOPE_READ = ''read''"
definition SCOPE_WRITE :: string where "SCOPE_WRITE = ''write''"
definition KNOWN_SCOPES :: "string list" where "KNOWN_SCOPES = [SCOPE_READ, SCOPE_WRITE]"
definition DEFAULT_EXPIRY_DAYS :: int where "DEFAULT_EXPIRY_DAYS = 90"
definition MAX_NAME_LEN :: nat where "MAX_NAME_LEN = 120"
definition MAX_EXPIRY_DAYS :: int where "MAX_EXPIRY_DAYS = 365"

text \<open>What \<open>for x in v\<close> runs over; a number or \<open>None\<close> raises.\<close>

fun py_iter :: "pyval \<Rightarrow> pyval list option" where
  "py_iter (VList xs) = Some xs"
| "py_iter (VStr s) = Some (map (\<lambda>c. VStr [c]) s)"
| "py_iter (VDict d) = Some (map (VStr \<circ> fst) d)"
| "py_iter _ = None"

definition scope_name :: "env \<Rightarrow> pyval \<Rightarrow> string" where
  "scope_name E v = py_lower (py_strip (py_str E v))"

definition ordered_scopes :: "string list \<Rightarrow> string list" where
  "ordered_scopes out = filter (\<lambda>x. x \<in> set out \<or> x = SCOPE_READ \<and> SCOPE_WRITE \<in> set out) [SCOPE_READ, SCOPE_WRITE]"

definition clean_scopes :: "env \<Rightarrow> pyval \<Rightarrow> token_error + string list" where
  "clean_scopes E scopes =
     (if \<not> truthy scopes then Inr [SCOPE_READ]
      else case py_iter scopes of
        None \<Rightarrow> Inl ApiTokenCrash
      | Some xs \<Rightarrow>
          (case find (\<lambda>s. s \<notin> set KNOWN_SCOPES) (map (scope_name E) xs) of
             Some s \<Rightarrow> Inl (invalid_token (''unknown scope '' @ env_repr E (VStr s) @ ''; allowed: '' @ join_with '', '' KNOWN_SCOPES))
           | None \<Rightarrow> Inr (ordered_scopes (map (scope_name E) xs))))"

definition resolve_expiry :: "env \<Rightarrow> pyval \<Rightarrow> token_error + instant option" where
  "resolve_expiry E v =
     (let expiry = (\<lambda>days. Inr (Some (env_now E + secs (86400 * days)))) in
      if v = VNone then expiry DEFAULT_EXPIRY_DAYS
      else case py_int v of
        None \<Rightarrow> Inl ApiTokenCrash
      | Some days \<Rightarrow>
          (if days < 0 then Inl (invalid_token ''expiry days cannot be negative'')
           else if days = 0 then Inr None
           else if MAX_EXPIRY_DAYS < days then Inl (invalid_token ''expiry cannot exceed 365 days'')
           else expiry days))"

definition is_expired :: "env \<Rightarrow> api_token \<Rightarrow> bool" where
  "is_expired E t = (case apt_expires_at t of None \<Rightarrow> False | Some x \<Rightarrow> x < env_now E)"

definition token_iso :: "instant option \<Rightarrow> pyval" where
  "token_iso t = (case t of None \<Rightarrow> VNone | Some x \<Rightarrow> VStr (iso_z x))"

definition serialize_token :: "env \<Rightarrow> api_token \<Rightarrow> pydict" where
  "serialize_token E t =
     [(''id'', VStr (apt_id t)), (''name'', VStr (apt_name t)), (''token_prefix'', VStr (apt_token_prefix t)),
      (''scopes'', VList (map VStr (apt_scopes t))), (''site_id'', of_opt_str (apt_site_id t)),
      (''created_by_user_id'', of_opt_str (apt_created_by_user_id t)), (''created_at'', VStr (iso_z (apt_created_at t))),
      (''expires_at'', token_iso (apt_expires_at t)), (''last_used_at'', token_iso (apt_last_used_at t)),
      (''revoked'', VBool (apt_revoked t)), (''expired'', VBool (is_expired E t))]"

definition api_token_obj :: "string option \<Rightarrow> bool \<Rightarrow> flush_obj" where
  "api_token_obj org modified = \<lparr>fo_class = ''ApiToken'', fo_org = org, fo_modified = modified\<rparr>"

record token_form =
  tf_name :: "string option"
  tf_scopes :: pyval
  tf_site_id :: "string option"
  tf_expires_in_days :: pyval
  tf_created_by_user_id :: "string option"

definition some_text :: "string option \<Rightarrow> string option" where
  "some_text s = (case s of Some (x # xs) \<Rightarrow> Some (x # xs) | _ \<Rightarrow> None)"

definition new_api_token :: "env \<Rightarrow> crypto \<Rightarrow> string \<Rightarrow> token_form \<Rightarrow> string \<Rightarrow> string list \<Rightarrow> instant option \<Rightarrow> string option \<Rightarrow> nat \<Rightarrow> api_token" where
  "new_api_token E K plaintext f name scopes expiry org n =
     \<lparr>apt_id = new_id (env_ulid E) ''apt'' n, apt_organization_id = org, apt_name = name,
      apt_token_hash = cy_sha256 K plaintext, apt_token_prefix = take 12 plaintext, apt_scopes = scopes,
      apt_site_id = some_text (tf_site_id f), apt_created_by_user_id = tf_created_by_user_id f, apt_expires_at = expiry,
      apt_last_used_at = None, apt_revoked = False, apt_created_at = env_now E\<rparr>"

definition api_token_insertable :: "api_token \<Rightarrow> hub \<Rightarrow> bool" where
  "api_token_insertable t h \<longleftrightarrow> tget apt_id (apt_id t) (h_api_tokens h) = None
     \<and> tget apt_token_hash (apt_token_hash t) (h_api_tokens h) = None
     \<and> (case apt_site_id t of None \<Rightarrow> True | Some i \<Rightarrow> get_site i h \<noteq> None)
     \<and> (case apt_created_by_user_id t of None \<Rightarrow> True | Some i \<Rightarrow> load_user i h \<noteq> None)"

definition mint_api_token ::
  "env \<Rightarrow> crypto \<Rightarrow> string \<Rightarrow> token_form \<Rightarrow> ctx \<times> hub \<Rightarrow> token_error + (pydict \<times> string \<times> ctx \<times> hub)" where
  "mint_api_token E K rnd f s =
     (let name = py_strip (case tf_name f of None \<Rightarrow> [] | Some n \<Rightarrow> n) in
      if name = [] then Inl (invalid_token ''name is required'')
      else if MAX_NAME_LEN < length name then Inl (invalid_token ''name must be 120 characters or fewer'')
      else case clean_scopes E (tf_scopes f) of
        Inl e \<Rightarrow> Inl e
      | Inr scopes \<Rightarrow>
          (case resolve_expiry E (tf_expires_in_days f) of
             Inl e \<Rightarrow> Inl e
           | Inr expiry \<Rightarrow>
               (case stamp_and_guard_tenant_writes E [api_token_obj None True] [] s of
                  Inl e \<Rightarrow> Inl (ApiTokenRefused e)
                | Inr (new, _, c, h) \<Rightarrow>
                    (let plaintext = TOKEN_STRING_PREFIX @ rnd;
                         t = new_api_token E K plaintext f name scopes expiry (fo_org (hd new)) (h_ulid h)
                     in if api_token_insertable t h
                        then Inr (serialize_token E t, plaintext, c, h\<lparr>h_api_tokens := tadd t (h_api_tokens h), h_ulid := Suc (h_ulid h)\<rparr>)
                        else Inl ApiTokenIntegrityError))))"

section \<open>Listing and revoking\<close>

definition select_api_tokens :: "env \<Rightarrow> ctx \<times> hub \<Rightarrow> api_token list \<times> ctx \<times> hub" where
  "select_api_tokens E s = select_scoped E ''api_tokens'' apt_organization_id h_api_tokens s"

definition list_api_tokens :: "env \<Rightarrow> bool \<Rightarrow> ctx \<times> hub \<Rightarrow> pydict list \<times> ctx \<times> hub" where
  "list_api_tokens E include_revoked s =
     (let (rows, s1) = select_api_tokens E s
      in (map (serialize_token E) (filter (\<lambda>t. include_revoked \<or> \<not> apt_revoked t) (sort_key (\<lambda>t. - apt_created_at t) rows)), s1))"

definition get_api_token :: "env \<Rightarrow> string \<Rightarrow> ctx \<times> hub \<Rightarrow> pydict option \<times> ctx \<times> hub" where
  "get_api_token E i s = (let (rows, s1) = select_api_tokens E s in (map_option (serialize_token E) (tget apt_id i rows), s1))"

text \<open>A changed row is flushed through the write guard, which may stamp it.\<close>

definition flush_api_token :: "env \<Rightarrow> api_token \<Rightarrow> ctx \<times> hub \<Rightarrow> token_error + (api_token \<times> ctx \<times> hub)" where
  "flush_api_token E t s =
     (case stamp_and_guard_tenant_writes E []
             [api_token_obj (apt_organization_id t) (tget apt_id (apt_id t) (h_api_tokens (snd s)) \<noteq> Some t)] s of
        Inl e \<Rightarrow> Inl (ApiTokenRefused e)
      | Inr (_, dirty, c, h) \<Rightarrow>
          (let t' = t\<lparr>apt_organization_id := fo_org (hd dirty)\<rparr>
           in Inr (t', c, h\<lparr>h_api_tokens := tupd apt_id (apt_id t) (\<lambda>_. t') (h_api_tokens h)\<rparr>)))"

definition revoke_api_token :: "env \<Rightarrow> string \<Rightarrow> ctx \<times> hub \<Rightarrow> token_error + (bool \<times> ctx \<times> hub)" where
  "revoke_api_token E i s =
     (let (rows, s1) = select_api_tokens E s in
      case tget apt_id i rows of
        None \<Rightarrow> Inr (False, s1)
      | Some t \<Rightarrow> (case flush_api_token E (t\<lparr>apt_revoked := True\<rparr>) s1 of Inl e \<Rightarrow> Inl e | Inr (_, s2) \<Rightarrow> Inr (True, s2)))"

section \<open>Verifying\<close>

record principal =
  pr_token_id :: string
  pr_name :: string
  pr_scopes :: "string list"
  pr_site_id :: "string option"
  pr_organization_id :: "string option"
  pr_created_by_user_id :: "string option"

definition principal_of :: "api_token \<Rightarrow> principal" where
  "principal_of t = \<lparr>pr_token_id = apt_id t, pr_name = apt_name t, pr_scopes = apt_scopes t, pr_site_id = apt_site_id t,
     pr_organization_id = apt_organization_id t, pr_created_by_user_id = apt_created_by_user_id t\<rparr>"

text \<open>The failure of the flush is caught, but the commit at the end of the session flushes again and raises.\<close>

definition verify_api_token ::
  "env \<Rightarrow> crypto \<Rightarrow> string option \<Rightarrow> ctx \<times> hub \<Rightarrow> token_error + (principal option \<times> ctx \<times> hub)" where
  "verify_api_token E K presented s =
     (case presented of
        None \<Rightarrow> Inr (None, s)
      | Some raw \<Rightarrow>
          (let p = py_strip raw in
           if raw = [] \<or> \<not> starts_with p TOKEN_STRING_PREFIX then Inr (None, s)
           else
             let (rows, s1) = select_api_tokens E s in
             case tget apt_token_hash (cy_sha256 K p) rows of
               None \<Rightarrow> Inr (None, s1)
             | Some t \<Rightarrow>
                 (if apt_revoked t \<or> is_expired E t then Inr (None, s1)
                  else case flush_api_token E (t\<lparr>apt_last_used_at := Some (env_now E)\<rparr>) s1 of
                    Inl e \<Rightarrow> Inl e
                  | Inr (t', s2) \<Rightarrow> Inr (Some (principal_of t'), s2))))"

definition has_scope :: "principal \<Rightarrow> string \<Rightarrow> bool" where
  "has_scope p scope \<longleftrightarrow> scope \<in> set (pr_scopes p) \<or> scope = SCOPE_READ \<and> SCOPE_WRITE \<in> set (pr_scopes p)"

section \<open>The gate\<close>

definition presented_token :: "string \<Rightarrow> string option" where
  "presented_token auth =
     (let candidate = py_strip (drop 7 auth)
      in if starts_with auth ''Bearer '' \<and> starts_with candidate TOKEN_STRING_PREFIX then Some candidate else None)"

definition resolve_api_token_principal ::
  "env \<Rightarrow> crypto \<Rightarrow> string \<Rightarrow> ctx \<times> hub \<Rightarrow> token_error + (principal option \<times> ctx \<times> hub)" where
  "resolve_api_token_principal E K auth s =
     (case presented_token auth of None \<Rightarrow> Inr (None, s) | Some p \<Rightarrow> verify_api_token E K (Some p) s)"

text \<open>401, 403, or the view runs as the principal under the organization of the token.\<close>

datatype token_gate = AuthRequired | InsufficientScope string | TokenEntered principal

definition bind_token_tenant_scope :: "principal \<Rightarrow> ctx \<Rightarrow> ctx" where
  "bind_token_tenant_scope p c = (case pr_organization_id p of None \<Rightarrow> c | Some org \<Rightarrow> snd (set_org (Some org) c))"

definition api_token_required ::
  "env \<Rightarrow> crypto \<Rightarrow> string \<Rightarrow> string \<Rightarrow> ctx \<times> hub \<Rightarrow> token_error + (token_gate \<times> ctx \<times> hub)" where
  "api_token_required E K scope auth s =
     (case resolve_api_token_principal E K auth s of
        Inl e \<Rightarrow> Inl e
      | Inr (None, s1) \<Rightarrow> Inr (AuthRequired, s1)
      | Inr (Some p, c, h) \<Rightarrow>
          (if \<not> has_scope p scope then Inr (InsufficientScope scope, c, h)
           else Inr (TokenEntered p, bind_token_tenant_scope p c, h)))"

section \<open>Frames\<close>

lemma select_api_tokens_facts:
  assumes "select_api_tokens E (c, h) = (rows, c', h')"
  shows "set rows \<subseteq> set (h_api_tokens h)" and "\<exists>a. h' = h\<lparr>h_audit := a\<rparr>" and "cx_org c' = cx_org c"
    and "cx_org c = None \<Longrightarrow> rows = h_api_tokens h"
proof -
  note sel = assms [unfolded select_api_tokens_def]
  have rows: "rows = visible apt_organization_id (fst (add_tenant_filter E True [''api_tokens''] (c, h))) (h_api_tokens h)"
    using fst_select_scoped [of E "''api_tokens''" apt_organization_id h_api_tokens "(c, h)"] sel by simp
  then show "set rows \<subseteq> set (h_api_tokens h)" by (auto simp: visible_def split: option.splits)
  show "\<exists>a. h' = h\<lparr>h_audit := a\<rparr>" using select_scoped_frame(2) [OF sel] by blast
  show "cx_org c' = cx_org c" using select_scoped_frame(1) [OF sel] by (simp add: scope_eq_def)
  show "rows = h_api_tokens h" if "cx_org c = None"
    using rows that by (simp add: add_tenant_filter_def visible_def unscoped_violation_def emit_audit_eq split_beta)
qed

text \<open>One object flushed without an organization bound is never refused and stays as it is.\<close>

lemma flush_unscoped:
  assumes "cx_org c = None"
  obtains c' a where "stamp_and_guard_tenant_writes E [] [ob] (c, h) = Inr ([], [ob], c', h\<lparr>h_audit := a\<rparr>)" and "cx_org c' = None"
proof -
  obtain m c1 where em: "enforce_mode E False (Some (h_settings h)) c = (m, c1)" by (metis prod.exhaust)
  have org: "cx_org c1 = None" using enforce_mode_frame(1) [OF em] assms by simp
  have "\<exists>c' a. stamp_and_guard_tenant_writes E [] [ob] (c, h) = Inr ([], [ob], c', h\<lparr>h_audit := a\<rparr>) \<and> cx_org c' = None"
  proof (cases "cx_bypass c \<or> \<not> guarded False ob")
    case True
    then show ?thesis using assms org
      by (cases "cx_bypass c") (auto simp: stamp_and_guard_tenant_writes_def is_enforcing_def enforce_mode_in_filter em
          intro!: exI [of _ "h_audit h"])
  next
    case False
    let ?c = "c1\<lparr>cx_in_filter := cx_in_filter c\<rparr>"
    have "\<exists>o' s1. guard_one E (m = ENFORCE) False (fo_class ob) (fo_org ob) (?c, h) = Inr (o', s1)"
      using org by (cases "fo_org ob") (simp_all add: guard_one_def)
    then obtain o' k h1 where g: "guard_one E (m = ENFORCE) False (fo_class ob) (fo_org ob) (?c, h) = Inr (o', k, h1)"
      by (metis prod.exhaust)
    obtain a where k: "k = ?c" "h1 = h\<lparr>h_audit := h_audit h @ a\<rparr>" "o' = fo_org ob"
      using guard_one_frame [OF g] org by auto
    have "stamp_and_guard_tenant_writes E [] [ob] (c, h) = Inr ([], [ob], ?c, h1)"
      using False g k by (simp add: stamp_and_guard_tenant_writes_def is_enforcing_def enforce_mode_in_filter em Let_def)
    then show ?thesis using org k by auto
  qed
  then show ?thesis using that by blast
qed

lemma inserted_org:
  assumes "stamp_and_guard_tenant_writes E [api_token_obj None True] [] (c, h) = Inr (new, d, c', h')" and "\<not> cx_bypass c"
  shows "fo_org (hd new) = cx_org c"
proof -
  obtain m c1 where em: "enforce_mode E False (Some (h_settings h)) c = (m, c1)" by (metis prod.exhaust)
  have "guarded True (api_token_obj None True)"
    by (simp add: guarded_def api_token_obj_def tenant_scoped_classes_def)
  then show ?thesis
    using assms enforce_mode_frame(1) [OF em]
    by (cases "cx_org c") (auto simp: stamp_and_guard_tenant_writes_def is_enforcing_def enforce_mode_in_filter em guard_one_def
        api_token_obj_def emit_audit_eq Let_def)
qed

lemma mint_api_tokenE:
  assumes "mint_api_token E K rnd f (c, h) = Inr (row, plain, c1, h1)"
  obtains t name scopes expiry org a n where "name = py_strip (case tf_name f of None \<Rightarrow> [] | Some x \<Rightarrow> x)"
    and "clean_scopes E (tf_scopes f) = Inr scopes" and "resolve_expiry E (tf_expires_in_days f) = Inr expiry"
    and "plain = TOKEN_STRING_PREFIX @ rnd" and "t = new_api_token E K plain f name scopes expiry org n"
    and "\<not> cx_bypass c \<Longrightarrow> org = cx_org c"
    and "apt_id t \<notin> apt_id ` set (h_api_tokens h)" and "apt_token_hash t \<notin> apt_token_hash ` set (h_api_tokens h)"
    and "h1 = h\<lparr>h_audit := a, h_api_tokens := h_api_tokens h @ [t], h_ulid := Suc (h_ulid h)\<rparr>"
proof -
  obtain scopes expiry new d c2 h2 where cl: "clean_scopes E (tf_scopes f) = Inr scopes" "resolve_expiry E (tf_expires_in_days f) = Inr expiry"
    and fl: "stamp_and_guard_tenant_writes E [api_token_obj None True] [] (c, h) = Inr (new, d, c2, h2)"
    using assms by (auto simp: mint_api_token_def Let_def split: if_splits sum.splits)
  let ?name = "py_strip (case tf_name f of None \<Rightarrow> [] | Some x \<Rightarrow> x)"
  let ?t = "new_api_token E K (TOKEN_STRING_PREFIX @ rnd) f ?name scopes expiry (fo_org (hd new)) (h_ulid h2)"
  have ins: "api_token_insertable ?t h2" and res: "plain = TOKEN_STRING_PREFIX @ rnd"
    "h1 = h2\<lparr>h_api_tokens := tadd ?t (h_api_tokens h2), h_ulid := Suc (h_ulid h2)\<rparr>"
    using assms cl fl by (auto simp: mint_api_token_def Let_def split: if_splits)
  obtain a where h2: "h2 = h\<lparr>h_audit := a\<rparr>" using flush_frame [OF fl] by blast
  show ?thesis
    by (rule that [OF refl cl res(1), of ?t "fo_org (hd new)" "h_ulid h2" a])
      (use res ins inserted_org [OF fl] in \<open>simp_all add: h2 tadd_def api_token_insertable_def tget_None_iff\<close>)
qed

lemma verify_api_tokenE:
  assumes "verify_api_token E K presented (c, h) = Inr (Some p, c', h')"
  obtains raw t a t' where "presented = Some raw" and "starts_with (py_strip raw) TOKEN_STRING_PREFIX"
    and "t \<in> set (h_api_tokens h)" and "apt_token_hash t = cy_sha256 K (py_strip raw)" and "\<not> apt_revoked t" and "\<not> is_expired E t"
    and "apt_id t' = apt_id t" and "apt_revoked t' = apt_revoked t" and "p = principal_of t'" and "pr_scopes p = apt_scopes t"
    and "pr_organization_id p = apt_organization_id t \<or> apt_organization_id t = None \<and> pr_organization_id p = cx_org c"
    and "h' = h\<lparr>h_audit := a, h_api_tokens := tupd apt_id (apt_id t) (\<lambda>_. t') (h_api_tokens h)\<rparr>"
proof -
  obtain rows c1 h1 where sel: "select_api_tokens E (c, h) = (rows, c1, h1)" by (metis prod_cases3)
  obtain raw t where raw: "presented = Some raw" "starts_with (py_strip raw) TOKEN_STRING_PREFIX"
    and t: "tget apt_token_hash (cy_sha256 K (py_strip raw)) rows = Some t" "\<not> apt_revoked t" "\<not> is_expired E t"
    using assms sel by (auto simp: verify_api_token_def Let_def split: option.splits if_splits)
  let ?t = "t\<lparr>apt_last_used_at := Some (env_now E)\<rparr>"
  obtain t' where fl: "flush_api_token E ?t (c1, h1) = Inr (t', c', h')" and p: "p = principal_of t'"
    using assms sel raw t by (auto simp: verify_api_token_def Let_def split: if_splits sum.splits)
  obtain new dirty c2 h2 where st: "stamp_and_guard_tenant_writes E [] [api_token_obj (apt_organization_id t)
      (tget apt_id (apt_id t) (h_api_tokens h1) \<noteq> Some ?t)] (c1, h1) = Inr (new, dirty, c2, h2)"
    and t': "t' = ?t\<lparr>apt_organization_id := fo_org (hd dirty)\<rparr>"
    and h': "h' = h2\<lparr>h_api_tokens := tupd apt_id (apt_id t) (\<lambda>_. t') (h_api_tokens h2)\<rparr>"
    using fl by (auto simp: flush_api_token_def Let_def split: sum.splits)
  obtain a where h2: "h2 = h\<lparr>h_audit := a\<rparr>"
    using flush_frame [OF st] select_api_tokens_facts(2) [OF sel] by auto
  have "fo_org (hd dirty) = apt_organization_id t \<or> apt_organization_id t = None \<and> fo_org (hd dirty) = cx_org c"
    using flush_one [OF disjI2 [OF st]] select_api_tokens_facts(3) [OF sel] by (auto simp: api_token_obj_def)
  then show ?thesis
    using that [OF raw, of t t' a] tget_SomeD [OF t(1)] select_api_tokens_facts(1) [OF sel] t p t' h' h2
    by (auto simp: principal_of_def)
qed

section \<open>What the gate guarantees\<close>

text \<open>C20: A machine credential works as minted: the plaintext shown once, presented as a bearer before the expiry that
  was asked for, is resolved to a principal with the name, the site, exactly the cleaned scopes and the
  organization it was minted in, whatever else happened to the hub but the token table.\<close>

theorem minted_token_verifies:
  assumes "mint_api_token E K rnd f (c, h) = Inr (row, plain, c1, h1)" and "\<not> cx_bypass c" and "pk_ok apt_token_hash (h_api_tokens h)"
    and "py_strip plain = plain"
    and "case resolve_expiry E (tf_expires_in_days f) of Inr (Some x) \<Rightarrow> env_now E' \<le> x | _ \<Rightarrow> True"
    and "h_api_tokens h2 = h_api_tokens h1" and "cx_org c2 = None"
  shows "\<exists>p s'. resolve_api_token_principal E' K (''Bearer '' @ plain) (c2, h2) = Inr (Some p, s')
    \<and> clean_scopes E (tf_scopes f) = Inr (pr_scopes p) \<and> pr_organization_id p = cx_org c \<and> pr_site_id p = some_text (tf_site_id f)
    \<and> pr_name p = py_strip (case tf_name f of None \<Rightarrow> [] | Some x \<Rightarrow> x)"
proof -
  obtain t name scopes expiry org a n where name: "name = py_strip (case tf_name f of None \<Rightarrow> [] | Some x \<Rightarrow> x)"
    and cl: "clean_scopes E (tf_scopes f) = Inr scopes" and ex: "resolve_expiry E (tf_expires_in_days f) = Inr expiry"
    and plain: "plain = TOKEN_STRING_PREFIX @ rnd" and t: "t = new_api_token E K plain f name scopes expiry org n"
    and org: "org = cx_org c"
    and fresh: "apt_token_hash t \<notin> apt_token_hash ` set (h_api_tokens h)"
    and h1: "h1 = h\<lparr>h_audit := a, h_api_tokens := h_api_tokens h @ [t], h_ulid := Suc (h_ulid h)\<rparr>"
    by (rule mint_api_tokenE [OF assms(1)]) (rule that; use assms(2) in simp)
  have hash: "apt_token_hash t = cy_sha256 K plain" by (simp add: t new_api_token_def)
  obtain rows c3 h3 where sel: "select_api_tokens E' (c2, h2) = (rows, c3, h3)" by (metis prod_cases3)
  have rows: "rows = h_api_tokens h @ [t]" using select_api_tokens_facts(4) [OF sel assms(7)] assms(6) h1 by simp
  have "tget apt_token_hash (cy_sha256 K plain) (h_api_tokens h) = None" using fresh by (simp add: tget_None_iff hash)
  then have get: "tget apt_token_hash (cy_sha256 K plain) rows = Some t" by (simp add: rows tget_append hash)
  have live: "\<not> apt_revoked t" "\<not> is_expired E' t"
    using assms(5) ex by (auto simp: t new_api_token_def is_expired_def split: option.splits)
  have pt: "presented_token (''Bearer '' @ plain) = Some plain"
    using assms(4) by (simp add: presented_token_def starts_with_def plain TOKEN_STRING_PREFIX_def)
  have pre: "plain \<noteq> []" "starts_with plain TOKEN_STRING_PREFIX" by (simp_all add: plain TOKEN_STRING_PREFIX_def starts_with_def)
  obtain c4 b where "stamp_and_guard_tenant_writes E' [] [api_token_obj org (tget apt_id (apt_id t) (h_api_tokens h3)
      \<noteq> Some (t\<lparr>apt_last_used_at := Some (env_now E')\<rparr>))] (c3, h3) = Inr ([], [api_token_obj org (tget apt_id (apt_id t) (h_api_tokens h3)
      \<noteq> Some (t\<lparr>apt_last_used_at := Some (env_now E')\<rparr>))], c4, h3\<lparr>h_audit := b\<rparr>)"
    by (rule flush_unscoped) (use select_api_tokens_facts(3) [OF sel] assms(7) in simp_all)
  moreover have "apt_organization_id t = org" by (simp add: t new_api_token_def)
  ultimately have "\<exists>s'. resolve_api_token_principal E' K (''Bearer '' @ plain) (c2, h2) = Inr (Some (principal_of t), s')"
    using sel get live pt pre assms(4)
    by (simp add: resolve_api_token_principal_def verify_api_token_def flush_api_token_def api_token_obj_def principal_of_def Let_def)
  then show ?thesis
    using cl org name by (auto simp: t new_api_token_def principal_of_def)
qed

text \<open>C21: The token gate lets a request in only with the plaintext of a stored token that is neither revoked nor
  expired and whose scopes cover the route, and the request then runs under the organization of that token.\<close>

theorem token_gate_sound:
  assumes "api_token_required E K scope auth (c, h) = Inr (TokenEntered p, c', h')"
  shows "\<exists>plain t. presented_token auth = Some plain \<and> t \<in> set (h_api_tokens h) \<and> apt_token_hash t = cy_sha256 K (py_strip plain)
    \<and> \<not> apt_revoked t \<and> \<not> is_expired E t \<and> (scope \<in> set (apt_scopes t) \<or> scope = SCOPE_READ \<and> SCOPE_WRITE \<in> set (apt_scopes t))
    \<and> (apt_organization_id t = None \<or> cx_org c' = apt_organization_id t)"
proof -
  obtain plain c1 where pt: "presented_token auth = Some plain" and v: "verify_api_token E K (Some plain) (c, h) = Inr (Some p, c1, h')"
    and sc: "has_scope p scope" and c': "c' = bind_token_tenant_scope p c1"
    using assms by (auto simp: api_token_required_def resolve_api_token_principal_def split: sum.splits option.splits if_splits)
  obtain raw t where "Some plain = Some raw" "t \<in> set (h_api_tokens h)" "apt_token_hash t = cy_sha256 K (py_strip raw)" "\<not> apt_revoked t"
    "\<not> is_expired E t" "pr_scopes p = apt_scopes t"
    "pr_organization_id p = apt_organization_id t \<or> apt_organization_id t = None \<and> pr_organization_id p = cx_org c"
    by (rule verify_api_tokenE [OF v]) (rule that; assumption)
  then show ?thesis using pt sc c'
    by (intro exI [of _ plain] exI [of _ t])
      (auto simp: has_scope_def bind_token_tenant_scope_def set_org_def split: option.splits)
qed

section \<open>Revocation\<close>

inductive token_step :: "crypto \<Rightarrow> hub \<Rightarrow> hub \<Rightarrow> bool" for K where
  mint: "mint_api_token E K rnd f (c, h) = Inr (row, plain, c', h') \<Longrightarrow> token_step K h h'"
| revoke: "revoke_api_token E i (c, h) = Inr (b, c', h') \<Longrightarrow> token_step K h h'"
| verify: "verify_api_token E K presented (c, h) = Inr (p, c', h') \<Longrightarrow> token_step K h h'"

definition dead_token :: "string \<Rightarrow> hub \<Rightarrow> bool" where
  "dead_token i h \<longleftrightarrow> i \<in> apt_id ` set (h_api_tokens h) \<and> (\<forall>t \<in> set (h_api_tokens h). apt_id t = i \<longrightarrow> apt_revoked t)"

text \<open>Writing a row back keeps a token dead unless it revives that row.\<close>

lemma dead_tupd: "dead_token i h \<Longrightarrow> h_api_tokens h' = tupd apt_id j (\<lambda>_. t') (h_api_tokens h) \<Longrightarrow>
    apt_id t' = j \<Longrightarrow> (j = i \<Longrightarrow> apt_revoked t') \<Longrightarrow> dead_token i h'"
  by (auto simp: dead_token_def tupd_def image_iff)

lemma flush_api_tokenE:
  assumes "flush_api_token E t (c, h) = Inr (t', c', h')"
  obtains org a where "t' = t\<lparr>apt_organization_id := org\<rparr>"
    and "h' = h\<lparr>h_audit := a, h_api_tokens := tupd apt_id (apt_id t) (\<lambda>_. t') (h_api_tokens h)\<rparr>"
  using assms by (auto simp: flush_api_token_def Let_def split: sum.splits dest!: flush_frame)

lemma dead_stays:
  assumes "token_step K h h'" and "dead_token i h"
  shows "dead_token i h'"
  using assms
proof (induction rule: token_step.induct)
  case (mint E rnd f c h row plain c' h')
  show ?case
    by (rule mint_api_tokenE [OF mint(1)]) (use mint(2) in \<open>auto simp: dead_token_def\<close>)
next
  case (revoke E j c h b c' h')
  obtain rows c1 h1 where sel: "select_api_tokens E (c, h) = (rows, c1, h1)" by (metis prod_cases3)
  obtain a where h1: "h1 = h\<lparr>h_audit := a\<rparr>" using select_api_tokens_facts(2) [OF sel] by blast
  then have d1: "dead_token i h1" using revoke(2) by (simp add: dead_token_def)
  show ?case
  proof (cases "tget apt_id j rows")
    case None
    then show ?thesis using revoke(1) sel d1 by (simp add: revoke_api_token_def)
  next
    case (Some t)
    then obtain t' where "flush_api_token E (t\<lparr>apt_revoked := True\<rparr>) (c1, h1) = Inr (t', c', h')"
      using revoke(1) sel by (auto simp: revoke_api_token_def split: sum.splits)
    then show ?thesis by (rule flush_api_tokenE) (rule dead_tupd [OF d1, of _ "apt_id t" t'], simp_all)
  qed
next
  case (verify E presented c h p c' h')
  show ?case
  proof (cases p)
    case None
    have aud: "dead_token i (h\<lparr>h_audit := a\<rparr>)" for a using verify(2) by (simp add: dead_token_def)
    have sel: "\<exists>a. h1 = h\<lparr>h_audit := a\<rparr>" if "select_api_tokens E (c, h) = (rows, c1, h1)" for rows c1 h1
      using select_api_tokens_facts(2) [OF that] .
    have "h' = h \<or> (\<exists>rows c1. select_api_tokens E (c, h) = (rows, c1, h'))"
      using verify(1) None by (auto simp: verify_api_token_def Let_def split: option.splits if_splits sum.splits prod.splits)
    then show ?thesis using verify(2) aud sel by auto
  next
    case (Some q)
    show ?thesis
    proof (rule verify_api_tokenE [OF verify(1) [unfolded Some]])
      fix t t' a
      assume t: "t \<in> set (h_api_tokens h)" "\<not> apt_revoked t" "apt_id t' = apt_id t"
        and h': "h' = h\<lparr>h_audit := a, h_api_tokens := tupd apt_id (apt_id t) (\<lambda>_. t') (h_api_tokens h)\<rparr>"
      have "apt_id t \<noteq> i" using verify(2) t by (auto simp: dead_token_def)
      then show ?thesis using h' t by (intro dead_tupd [OF verify(2), of _ "apt_id t" t']) simp_all
    qed
  qed
qed

text \<open>Revocation is final: once a token is revoked, no sequence of minting, revoking and verifying makes any
  presented string resolve to it again.\<close>

theorem revoked_token_dead:
  assumes "revoke_api_token E i (c, h) = Inr (True, c1, h1)" and "pk_ok apt_id (h_api_tokens h)" and "(token_step K)\<^sup>*\<^sup>* h1 h2"
    and "verify_api_token E' K presented (c2, h2) = Inr (Some p, c3, h3)"
  shows "pr_token_id p \<noteq> i"
proof
  assume id: "pr_token_id p = i"
  obtain rows c0 h0 where sel: "select_api_tokens E (c, h) = (rows, c0, h0)" by (metis prod_cases3)
  obtain t where t: "tget apt_id i rows = Some t" using assms(1) sel by (auto simp: revoke_api_token_def split: option.splits)
  then obtain t' where fl: "flush_api_token E (t\<lparr>apt_revoked := True\<rparr>) (c0, h0) = Inr (t', c1, h1)"
    using assms(1) sel by (auto simp: revoke_api_token_def split: sum.splits)
  obtain a where h0: "h0 = h\<lparr>h_audit := a\<rparr>" using select_api_tokens_facts(2) [OF sel] by blast
  have t_in: "t \<in> set (h_api_tokens h)" "apt_id t = i"
    using tget_SomeD [OF t] select_api_tokens_facts(1) [OF sel] by auto
  have "dead_token i h1"
    by (rule flush_api_tokenE [OF fl]) (use t_in h0 in \<open>force simp: dead_token_def tupd_def image_Un image_image\<close>)
  then have dead: "dead_token i h2"
    using assms(3) by (induction rule: rtranclp_induct [consumes 1, OF assms(3)]) (auto intro: dead_stays)
  show False
    by (rule verify_api_tokenE [OF assms(4)]) (use dead id in \<open>auto simp: dead_token_def principal_of_def\<close>)
qed

definition ci_form :: token_form where
  "ci_form = \<lparr>tf_name = Some '' CI bot '', tf_scopes = VList [VStr ''Write''], tf_site_id = None, tf_expires_in_days = VInt 7,
     tf_created_by_user_id = None\<rparr>"

definition ci_token :: api_token where
  "ci_token = new_api_token scope_env demo_crypto ''rbt_secret'' ci_form ''CI bot'' [''read'', ''write''] (Some (secs 604800)) (Some ''o1'') 0"

definition ci_hub :: hub where
  "ci_hub = empty_hub\<lparr>h_api_tokens := [ci_token], h_ulid := 1\<rparr>"

lemma ci_minted:
  "\<exists>row c. mint_api_token scope_env demo_crypto ''secret'' ci_form (scope_ctx (Some ''o1''), empty_hub) = Inr (row, ''rbt_secret'', c, ci_hub)"
proof -
  have form: "clean_scopes scope_env (tf_scopes ci_form) = Inr [''read'', ''write'']"
    "resolve_expiry scope_env (tf_expires_in_days ci_form) = Inr (Some (secs 604800))"
    "py_strip (case tf_name ci_form of None \<Rightarrow> [] | Some n \<Rightarrow> n) = ''CI bot''" by code_simp+
  have "case stamp_and_guard_tenant_writes scope_env [api_token_obj None True] [] (scope_ctx (Some ''o1''), empty_hub) of
      Inl e \<Rightarrow> False | Inr (new, d, c, h) \<Rightarrow> h_audit h = [] \<and> fo_org (hd new) = Some ''o1''" by code_simp
  then obtain new d c h where fl: "stamp_and_guard_tenant_writes scope_env [api_token_obj None True] [] (scope_ctx (Some ''o1''), empty_hub) = Inr (new, d, c, h)"
    and h: "h_audit h = []" "fo_org (hd new) = Some ''o1''" by (auto split: sum.splits)
  obtain a where "h = empty_hub\<lparr>h_audit := a\<rparr>" using flush_frame [OF fl] by blast
  then have "h = empty_hub" using h(1) by (simp add: empty_hub_def)
  then show ?thesis
    using form fl h(2)
    by (simp add: mint_api_token_def Let_def MAX_NAME_LEN_def TOKEN_STRING_PREFIX_def)
      (simp add: api_token_insertable_def new_api_token_def ci_form_def some_text_def ci_hub_def ci_token_def empty_hub_def tadd_def tget_def)
qed

theorem minted_token_verifies_witness:
  "\<exists>p s'. resolve_api_token_principal scope_env demo_crypto ''Bearer rbt_secret'' (scope_ctx None, ci_hub) = Inr (Some p, s')
    \<and> pr_scopes p = [''read'', ''write''] \<and> pr_organization_id p = Some ''o1'' \<and> pr_name p = ''CI bot''"
proof -
  obtain row c where m: "mint_api_token scope_env demo_crypto ''secret'' ci_form (scope_ctx (Some ''o1''), empty_hub) = Inr (row, ''rbt_secret'', c, ci_hub)"
    using ci_minted by blast
  have pk: "pk_ok apt_token_hash (h_api_tokens empty_hub)" by code_simp
  have strip: "py_strip ''rbt_secret'' = ''rbt_secret''" by code_simp
  have live: "case resolve_expiry scope_env (tf_expires_in_days ci_form) of Inr (Some x) \<Rightarrow> env_now scope_env \<le> x | _ \<Rightarrow> True" by code_simp
  have cl: "clean_scopes scope_env (tf_scopes ci_form) = Inr [''read'', ''write'']" by code_simp
  have nm: "py_strip (case tf_name ci_form of None \<Rightarrow> [] | Some x \<Rightarrow> x) = ''CI bot''" by code_simp
  show ?thesis
    using minted_token_verifies [OF m _ pk strip live, of ci_hub "scope_ctx None"] by (simp add: cl nm) (metis cl nm)
qed

theorem token_gate_sound_witness:
  "\<exists>p c' h'. api_token_required scope_env demo_crypto ''read'' ''Bearer rbt_secret'' (scope_ctx None, ci_hub) = Inr (TokenEntered p, c', h')
     \<and> cx_org c' = Some ''o1''"
proof -
  have "case api_token_required scope_env demo_crypto ''read'' ''Bearer rbt_secret'' (scope_ctx None, ci_hub) of
      Inr (g, c', h') \<Rightarrow> (case g of TokenEntered p \<Rightarrow> True | _ \<Rightarrow> False) | Inl e \<Rightarrow> False" by code_simp
  then obtain g c' h' where "api_token_required scope_env demo_crypto ''read'' ''Bearer rbt_secret'' (scope_ctx None, ci_hub) = Inr (g, c', h')"
    and "case g of TokenEntered p \<Rightarrow> True | _ \<Rightarrow> False" by (auto split: sum.splits)
  then obtain p where e: "api_token_required scope_env demo_crypto ''read'' ''Bearer rbt_secret'' (scope_ctx None, ci_hub) = Inr (TokenEntered p, c', h')"
    by (cases g) auto
  have "list_all (\<lambda>t. apt_organization_id t = Some ''o1'') (h_api_tokens ci_hub)" by code_simp
  with token_gate_sound [OF e] have "cx_org c' = Some ''o1''" by (auto simp: list_all_iff)
  with e show ?thesis by blast
qed

theorem revoked_token_dead_witness:
  "\<exists>c1 h1. revoke_api_token scope_env (apt_id (hd (h_api_tokens ci_hub))) (scope_ctx (Some ''o1''), ci_hub) = Inr (True, c1, h1)
     \<and> (\<exists>c3 h3. verify_api_token scope_env demo_crypto (Some ''rbt_secret'') (scope_ctx None, h1) = Inr (None, c3, h3))"
proof -
  let ?i = "apt_id (hd (h_api_tokens ci_hub))"
  have "case revoke_api_token scope_env ?i (scope_ctx (Some ''o1''), ci_hub) of
      Inr (b, c1, h1) \<Rightarrow> b \<and> list_all (\<lambda>t. apt_id t = ?i) (h_api_tokens h1)
        \<and> \<not> isl (verify_api_token scope_env demo_crypto (Some ''rbt_secret'') (scope_ctx None, h1)) | Inl e \<Rightarrow> False"
    by code_simp
  then obtain c1 h1 where r: "revoke_api_token scope_env ?i (scope_ctx (Some ''o1''), ci_hub) = Inr (True, c1, h1)"
    and ids: "list_all (\<lambda>t. apt_id t = ?i) (h_api_tokens h1)"
    and v: "\<not> isl (verify_api_token scope_env demo_crypto (Some ''rbt_secret'') (scope_ctx None, h1))"
    by (auto split: sum.splits)
  obtain p c3 h3 where res: "verify_api_token scope_env demo_crypto (Some ''rbt_secret'') (scope_ctx None, h1) = Inr (p, c3, h3)"
    using v by (cases "verify_api_token scope_env demo_crypto (Some ''rbt_secret'') (scope_ctx None, h1)") auto
  have "p = None"
  proof (rule ccontr)
    assume "p \<noteq> None"
    then obtain q where q: "p = Some q" by blast
    have pk: "pk_ok apt_id (h_api_tokens ci_hub)" by code_simp
    have "pr_token_id q \<noteq> ?i" by (rule revoked_token_dead [OF r pk _ res [unfolded q]]) simp
    moreover have "pr_token_id q = ?i"
      by (rule verify_api_tokenE [OF res [unfolded q]]) (use ids in \<open>auto simp: principal_of_def list_all_iff\<close>)
    ultimately show False by simp
  qed
  then show ?thesis using r res by blast
qed

end
