(* ===== verification/RbacFilter.thy ===== *)
theory RbacFilter
  imports RoleBindings
begin

text \<open>
  Role-based filtering of list queries (\<open>app/services/rbac_filter.py\<close>): in enforce mode a list
  holds only what the user's bindings cover, in shadow mode it is unchanged and the rows it would have
  lost are logged. A statement is its WHERE condition and what ORDER BY and LIMIT make of the rows.
\<close>

section \<open>Statements\<close>

record 'r stmt =
  q_where :: "'r \<Rightarrow> bool"
  q_arrange :: "'r list \<Rightarrow> 'r list"

definition stmt_where :: "('r \<Rightarrow> bool) \<Rightarrow> 'r stmt \<Rightarrow> 'r stmt" where
  "stmt_where P q = q\<lparr>q_where := (\<lambda>r. q_where q r \<and> P r)\<rparr>"

definition run_stmt ::
  "env \<Rightarrow> string \<Rightarrow> ('r \<Rightarrow> string option) \<Rightarrow> (hub \<Rightarrow> 'r list) \<Rightarrow> 'r stmt \<Rightarrow> ctx \<times> hub \<Rightarrow> 'r list \<times> ctx \<times> hub" where
  "run_stmt E table org_of rows q s =
     (let (rs, s1) = select_scoped E table org_of rows s in (q_arrange q (filter (q_where q) rs), s1))"

definition run_devices :: "env \<Rightarrow> device stmt \<Rightarrow> ctx \<times> hub \<Rightarrow> device list \<times> ctx \<times> hub" where
  "run_devices E q s = run_stmt E ''devices'' (\<lambda>_. None) h_devices q s"

definition effective_user :: "string option \<Rightarrow> ctx \<Rightarrow> string option" where
  "effective_user uid c = (case uid of None \<Rightarrow> map_option usr_id (cx_user c) | Some u \<Rightarrow> Some u)"

definition role_or_viewer :: "string \<Rightarrow> string" where
  "role_or_viewer role = (if role = [] then ''viewer'' else role)"

section \<open>Devices\<close>

record filter_meta =
  fm_mode :: string
  fm_filtered :: bool
  fm_scope :: effective
  fm_scope_size :: nat

fun scope_size :: "effective \<Rightarrow> nat" where
  "scope_size AllIds = 0"
| "scope_size (Ids X) = card X"

definition apply_device_scope_filter ::
  "env \<Rightarrow> device stmt \<Rightarrow> string option \<Rightarrow> string \<Rightarrow> ctx \<times> hub \<Rightarrow> (device stmt \<times> filter_meta) \<times> ctx \<times> hub" where
  "apply_device_scope_filter E q uid0 role s =
     (let uid = effective_user uid0 (fst s) in
      if uid = None \<or> uid = Some []
      then ((q, \<lparr>fm_mode = ''none'', fm_filtered = False, fm_scope = AllIds, fm_scope_size = 0\<rparr>), s)
      else
        let (super, s1) = is_super_admin E (Some (UserId (the uid))) s in
        if super
        then ((q, \<lparr>fm_mode = ''bypass'', fm_filtered = False, fm_scope = AllIds, fm_scope_size = 0\<rparr>), s1)
        else
          let mode = rbac_enforce_mode E s1;
              (scope, s2) = effective_device_ids E (the uid) (role_or_viewer role) s1
          in case scope of
               AllIds \<Rightarrow> ((q, \<lparr>fm_mode = mode, fm_filtered = False, fm_scope = AllIds, fm_scope_size = 0\<rparr>), s2)
             | Ids X \<Rightarrow> ((stmt_where (\<lambda>d. dev_id d \<in> X) q,
                          \<lparr>fm_mode = mode, fm_filtered = True, fm_scope = scope, fm_scope_size = card X\<rparr>), s2))"

definition diff_details :: "string \<Rightarrow> string \<Rightarrow> nat \<Rightarrow> nat \<Rightarrow> string list \<Rightarrow> nat \<Rightarrow> pydict" where
  "diff_details kind role n_all n_in hidden n_scope =
     [(''resource_type'', VStr kind), (''role_needed'', VStr role), (''total_count'', VInt (int n_all)),
      (''scoped_count'', VInt (int n_in)), (''hidden_count'', VInt (int (length hidden))),
      (''hidden_sample'', VList (map VStr (take 10 (sort hidden)))), (''scope_size'', VInt (int n_scope))]"

definition log_diff :: "env \<Rightarrow> string option \<Rightarrow> string \<Rightarrow> pydict \<Rightarrow> ctx \<times> hub \<Rightarrow> ctx \<times> hub" where
  "log_diff E uid kind details s =
     audit_record E ''rbac.shadow_diff'' uid (map_option usr_email (cx_user (fst s))) (Some kind) None details None s"

definition filter_devices_with_shadow_logging ::
  "env \<Rightarrow> device stmt \<Rightarrow> string option \<Rightarrow> string \<Rightarrow> ctx \<times> hub \<Rightarrow> device list \<times> ctx \<times> hub" where
  "filter_devices_with_shadow_logging E q uid role s =
     (let ((fq, meta), s1) = apply_device_scope_filter E q uid role s in
      if \<not> fm_filtered meta then run_devices E q s1
      else if fm_mode meta = ENFORCE then run_devices E fq s1
      else
        let (rows, s2) = run_devices E q s1;
            ids = remdups (map dev_id rows);
            hidden = (case fm_scope meta of AllIds \<Rightarrow> [] | Ids X \<Rightarrow> filter (\<lambda>i. i \<notin> X) ids)
        in (rows,
            if hidden = [] then s2
            else log_diff E uid ''device''
                   (diff_details ''device'' role (length ids) (length ids - length hidden) hidden (fm_scope_size meta)) s2))"

section \<open>Groups and sites\<close>

text \<open>The two functions differ in table and resolver only; both run the filtered query as well in
  shadow mode to count what it hides.\<close>

definition filter_by_scope ::
  "env \<Rightarrow> string \<Rightarrow> string \<Rightarrow> ('r \<Rightarrow> string option) \<Rightarrow> (hub \<Rightarrow> 'r list) \<Rightarrow> ('r \<Rightarrow> string) \<Rightarrow>
   (env \<Rightarrow> string \<Rightarrow> string \<Rightarrow> ctx \<times> hub \<Rightarrow> effective \<times> ctx \<times> hub) \<Rightarrow>
   'r stmt \<Rightarrow> string option \<Rightarrow> string \<Rightarrow> ctx \<times> hub \<Rightarrow> 'r list \<times> ctx \<times> hub" where
  "filter_by_scope E kind table org_of rows id_of resolve q uid0 role s =
     (let uid = effective_user uid0 (fst s); run = run_stmt E table org_of rows in
      if uid = None \<or> uid = Some [] then run q s
      else
        let (super, s1) = is_super_admin E (Some (UserId (the uid))) s in
        if super then run q s1
        else
          let mode = rbac_enforce_mode E s1;
              (scope, s2) = resolve E (the uid) (role_or_viewer role) s1
          in case scope of
               AllIds \<Rightarrow> run q s2
             | Ids X \<Rightarrow>
                 (let fq = stmt_where (\<lambda>r. id_of r \<in> X) q in
                  if mode = ENFORCE then run fq s2
                  else
                    let (all_rows, s3) = run q s2;
                        (in_rows, s4) = run fq s3;
                        ids = remdups (map id_of all_rows);
                        in_ids = remdups (map id_of in_rows);
                        hidden = filter (\<lambda>i. i \<notin> set in_ids) ids
                    in (all_rows,
                        if hidden = [] then s4
                        else log_diff E uid kind
                               (diff_details kind role (length ids) (length in_ids) hidden (card X)) s4)))"

definition filter_groups_with_shadow_logging ::
  "env \<Rightarrow> group_row stmt \<Rightarrow> string option \<Rightarrow> string \<Rightarrow> ctx \<times> hub \<Rightarrow> group_row list \<times> ctx \<times> hub" where
  "filter_groups_with_shadow_logging E q uid role s =
     filter_by_scope E ''group'' ''groups'' (Some \<circ> grp_organization_id) h_groups grp_id effective_group_ids
       q uid role s"

definition filter_sites_with_shadow_logging ::
  "env \<Rightarrow> site stmt \<Rightarrow> string option \<Rightarrow> string \<Rightarrow> ctx \<times> hub \<Rightarrow> site list \<times> ctx \<times> hub" where
  "filter_sites_with_shadow_logging E q uid role s =
     filter_by_scope E ''site'' ''sites'' (Some \<circ> site_organization_id) h_sites site_id effective_site_ids
       q uid role s"

section \<open>Audit events\<close>

text \<open>The rows of the audit table with their autoincremented keys.\<close>

definition audit_rows :: "hub \<Rightarrow> (nat \<times> audit_event) list" where
  "audit_rows h = enumerate 1 (h_audit h)"

definition target_in :: "effective \<Rightarrow> string option \<Rightarrow> bool" where
  "target_in eff tid = (case eff of AllIds \<Rightarrow> True | Ids X \<Rightarrow> tid \<in> Some ` X)"

definition audit_visible :: "effective \<Rightarrow> effective \<Rightarrow> effective \<Rightarrow> audit_event \<Rightarrow> bool" where
  "audit_visible devs sites grps e =
     (case au_target_type e of
        None \<Rightarrow> True
      | Some t \<Rightarrow> (t = ''device'' \<and> target_in devs (au_target_id e))
                \<or> (t = ''site'' \<and> target_in sites (au_target_id e))
                \<or> (t = ''group'' \<and> target_in grps (au_target_id e))
                \<or> t \<notin> {''device'', ''site'', ''group''})"

definition filter_audit_with_shadow_logging ::
  "env \<Rightarrow> (nat \<times> audit_event) stmt \<Rightarrow> string option \<Rightarrow> string \<Rightarrow> ctx \<times> hub \<Rightarrow>
   (nat \<times> audit_event) list \<times> ctx \<times> hub" where
  "filter_audit_with_shadow_logging E q uid0 role s =
     (let uid = effective_user uid0 (fst s);
          run = run_stmt E ''audit_events'' (au_organization_id \<circ> snd) audit_rows in
      if uid = None \<or> uid = Some [] then run q s
      else
        let (super, s1) = is_super_admin E (Some (UserId (the uid))) s in
        if super then run q s1
        else
          let mode = rbac_enforce_mode E s1;
              (devs, s2) = effective_device_ids E (the uid) (role_or_viewer role) s1;
              (sites, s3) = effective_site_ids E (the uid) (role_or_viewer role) s2;
              (grps, s4) = effective_group_ids E (the uid) (role_or_viewer role) s3
          in if devs = AllIds \<and> sites = AllIds \<and> grps = AllIds then run q s4
             else
               let fq = stmt_where (audit_visible devs sites grps \<circ> snd) q in
               if mode = ENFORCE then run fq s4
               else
                 let (all_rows, s5) = run q s4;
                     (in_rows, s6) = run fq s5;
                     ids = remdups (map fst all_rows);
                     in_ids = remdups (map fst in_rows);
                     hidden = filter (\<lambda>i. i \<notin> set in_ids) ids
                 in (all_rows,
                     if hidden = [] then s6
                     else log_diff E uid ''audit_event''
                            [(''resource_type'', VStr ''audit_event''), (''role_needed'', VStr role),
                             (''total_count'', VInt (int (length ids))), (''scoped_count'', VInt (int (length in_ids))),
                             (''hidden_count'', VInt (int (length hidden))),
                             (''device_scope_size'', VInt (int (scope_size devs))),
                             (''site_scope_size'', VInt (int (scope_size sites))),
                             (''group_scope_size'', VInt (int (scope_size grps)))] s6))"

section \<open>Lemmas\<close>

lemma run_devices_eq [simp]: "run_devices E q s = (q_arrange q (filter (q_where q) (h_devices (snd s))), s)"
  by (cases s) (simp add: run_devices_def run_stmt_def select_scoped_def add_tenant_filter_def
      touches_tenant_scoped_def tenant_scoped_tablenames_def visible_def)

lemma super_admin_by_id [simp]: "is_super_admin E (Some (UserId uid)) s = (False, s)"
  by (simp add: is_super_admin_def)

lemma effective_device_snd: "snd (effective_device_ids E uid need s) = snd (select_bindings E s)"
  using can_act_snd(1) [of E uid "[]" need s] by (simp add: can_act_on_device_def split: prod.splits)

lemma fst_log_diff: "h_devices (snd (log_diff E uid kind d s)) = h_devices (snd s)"
proof -
  obtain c h where s: "s = (c, h)" by (cases s)
  obtain c' where "log_diff E uid kind d s = (c', h\<lparr>h_audit := h_audit h @ [build_event E c ''rbac.shadow_diff'' uid
      (map_option usr_email (cx_user c)) (Some kind) None d None]\<rparr>)"
    unfolding log_diff_def s by (metis audit_recordE fst_conv)
  then show ?thesis by (simp add: s)
qed

lemma filter_where_in:
  "filter (q_where (stmt_where P q)) xs = filter (\<lambda>d. q_where q d \<and> P d) xs"
  by (simp add: stmt_where_def)

lemma device_list_eq:
  assumes "uid \<noteq> []" and "role \<noteq> []"
  shows "fst (filter_devices_with_shadow_logging E q (Some uid) role s) =
           q_arrange q (filter (\<lambda>d. q_where q d \<and>
               (rbac_enforce_mode E s = ENFORCE \<longrightarrow> fst (can_act_on_device E uid (dev_id d) role s)))
             (h_devices (snd s)))"
proof -
  obtain eff s2 where eff: "effective_device_ids E uid role s = (eff, s2)" by (metis prod.exhaust)
  have h: "h_devices (snd s2) = h_devices (snd s)"
    using effective_device_snd [of E uid role s] eff by simp
  have can: "fst (can_act_on_device E uid x role s) = eff_mem x eff" for x
    using eff by (simp add: can_act_fst)
  show ?thesis
    using assms h
    by (cases eff)
      (simp_all add: filter_devices_with_shadow_logging_def apply_device_scope_filter_def effective_user_def
        role_or_viewer_def eff can Let_def filter_where_in stmt_where_def)
qed

section \<open>Properties\<close>

text \<open>The device list and the device gate agree: in enforce mode the list is exactly the statement
  run over the devices the user may act on at that role; in shadow mode it is the statement run over
  all devices.\<close>

theorem device_list_matches_gate:
  assumes "uid \<noteq> []" and "role \<noteq> []"
  shows "fst (filter_devices_with_shadow_logging E q (Some uid) role s) =
           q_arrange q (filter (\<lambda>d. q_where q d \<and>
               (rbac_enforce_mode E s = ''enforce'' \<longrightarrow> fst (can_act_on_device E uid (dev_id d) role s)))
             (h_devices (snd s)))"
  by (rule device_list_eq [OF assms])

definition any_device :: "device stmt" where
  "any_device = \<lparr>q_where = (\<lambda>_. True), q_arrange = id\<rparr>"

definition rbac_hub :: "role_binding list \<Rightarrow> hub" where
  "rbac_hub bs = empty_hub\<lparr>h_devices := [new_device ''d1'' ''one'' 0, new_device ''d2'' ''two'' 0],
     h_role_bindings := bs,
     h_settings := put_setting RBAC_ENFORCE_MODE_KEY (VStr ''enforce'') 0 None []\<rparr>"

lemma rbac_hub_enforces: "rbac_enforce_mode scope_env (scope_ctx org, rbac_hub bs) = ''enforce''"
  by (simp add: rbac_enforce_mode_def rbac_hub_def settings_get_put_same mode_of_def py_str_def) code_simp

theorem device_list_matches_gate_witness:
  "map dev_id (fst (filter_devices_with_shadow_logging scope_env any_device (Some ''u'') ''viewer''
      (scope_ctx (Some ''a''), rbac_hub [demo_binding_row ''r1'' ''a'' ''u'' ''device'' (Some ''d2'') ''operator''])))
   = [''d2'']"
proof -
  let ?s = "(scope_ctx (Some ''a''), rbac_hub [demo_binding_row ''r1'' ''a'' ''u'' ''device'' (Some ''d2'') ''operator''])"
  have "fst (can_act_on_device scope_env ''u'' ''d1'' ''viewer'' ?s) = False"
    "fst (can_act_on_device scope_env ''u'' ''d2'' ''viewer'' ?s) = True"
    by code_simp+
  moreover have "h_devices (snd ?s) = [new_device ''d1'' ''one'' 0, new_device ''d2'' ''two'' 0]"
    by (simp add: rbac_hub_def)
  ultimately show ?thesis
    using device_list_matches_gate [of "''u''" "''viewer''" scope_env any_device ?s]
    by (simp add: rbac_hub_enforces any_device_def new_device_def)
qed

text \<open>The super-admin exemption does not reach the lists: a user whose \<open>role\<close> column is super_admin
  and who holds no binding passes the gate of every device, but in enforce mode gets an empty device
  list, because the list filter hands the user's id instead of the user to the exemption check.\<close>

theorem super_admin_sees_empty_list:
  assumes "usr_role u = ''super_admin''" and "usr_id u \<noteq> []"
    and "\<forall>b \<in> set (h_role_bindings h). rb_user_id b \<noteq> usr_id u"
    and "rbac_enforce_mode E (c, h) = ''enforce''" and "q_arrange q [] = []"
  shows "fst (require_can_act_on_device E did ''viewer'' (Some u) (c, h)) = Inr ()
       \<and> fst (filter_devices_with_shadow_logging E q (Some (usr_id u)) ''viewer'' (c, h)) = []"
proof -
  have "\<not> fst (can_act_on_device E (usr_id u) x ''viewer'' (c, h))" for x
    using assms(3) seen_mem by (fastforce simp: can_act_fst eff_mem_device)
  then have "fst (filter_devices_with_shadow_logging E q (Some (usr_id u)) ''viewer'' (c, h)) = []"
    using assms(2,4,5) by (simp add: device_list_eq)
  moreover have "is_super_admin E (Some (UserObj u)) (c, h) = (True, c, h)"
    using assms(1) by (simp add: is_super_admin_def)
  ultimately show ?thesis by (simp add: require_can_act_on_device_def require_scope_def)
qed

theorem super_admin_sees_empty_list_witness:
  "fst (filter_devices_with_shadow_logging scope_env any_device (Some ''root'') ''viewer''
     (scope_ctx (Some ''a''), rbac_hub [])) = []"
  using super_admin_sees_empty_list [of "demo_user ''root'' ''super_admin''" "rbac_hub []" scope_env
      "scope_ctx (Some ''a'')" any_device "''d1''"]
  by (simp add: rbac_hub_enforces demo_user_def any_device_def) (simp add: rbac_hub_def)

end
