(* ===== verification/Directory.thy ===== *)
theory Directory
  imports RbacFilter Commands PyText Accounts
begin

text \<open>
  The directory of the fleet: sites (\<open>app/services/sites.py\<close>), groups and their members (\<open>groups.py\<close>), the audit slice
  shown with a group (\<open>query\<close> of \<open>audit.py\<close>), the confirmation gate of mass actions (\<open>mass_action.py\<close>) and the API
  route that sends a command to a group (\<open>send_group_command\<close> of \<open>app/blueprints/admin/groups.py\<close>).
\<close>

datatype directory_error =
    DuplicateNameError string
  | DirectoryRefused tenant_error
  | DirectoryIntegrityError
  | UnknownGroup string

section \<open>The audit slice\<close>

text \<open>SQL \<open>LIKE\<close>: \<open>%\<close> stands for any text, \<open>_\<close> for any character, a backslash quotes the next one.\<close>

function sql_like :: "string \<Rightarrow> string \<Rightarrow> bool" where
  "sql_like [] s \<longleftrightarrow> s = []"
| "sql_like (p # ps) s \<longleftrightarrow>
     (if p = CHR ''%'' then list_ex (\<lambda>k. sql_like ps (drop k s)) [0 ..< Suc (length s)]
      else if p = CHR 0x5C \<and> ps \<noteq> [] then s \<noteq> [] \<and> hd s = hd ps \<and> sql_like (tl ps) (tl s)
      else s \<noteq> [] \<and> (p = CHR ''_'' \<or> hd s = p) \<and> sql_like ps (tl s))"
  by pat_completeness auto
termination by (relation "measure (length \<circ> fst)") auto

record audit_query =
  aq_actor_user_id :: "string option"
  aq_action :: "string option"
  aq_action_prefix :: "string option"
  aq_target_type :: "string option"
  aq_target_id :: "string option"
  aq_limit :: int

definition given :: "string option \<Rightarrow> (string \<Rightarrow> bool) \<Rightarrow> bool" where
  "given f P \<longleftrightarrow> (case f of Some (x # xs) \<Rightarrow> P (x # xs) | _ \<Rightarrow> True)"

definition audit_matches :: "audit_query \<Rightarrow> audit_event \<Rightarrow> bool" where
  "audit_matches q e \<longleftrightarrow> given (aq_actor_user_id q) (\<lambda>v. au_actor_user_id e = Some v) \<and> given (aq_action q) (\<lambda>v. au_action e = v)
     \<and> given (aq_action_prefix q) (\<lambda>v. sql_like (v @ ''.%'') (au_action e))
     \<and> given (aq_target_type q) (\<lambda>v. au_target_type e = Some v) \<and> given (aq_target_id q) (\<lambda>v. au_target_id e = Some v)"

definition serialize_audit :: "nat \<times> audit_event \<Rightarrow> pydict" where
  "serialize_audit r =
     [(''id'', VInt (int (fst r))), (''at'', VStr (iso_z (au_at (snd r)))), (''actor_user_id'', of_opt_str (au_actor_user_id (snd r))),
      (''actor_email_snapshot'', of_opt_str (au_actor_email_snapshot (snd r))), (''action'', VStr (au_action (snd r))),
      (''target_type'', of_opt_str (au_target_type (snd r))), (''target_id'', of_opt_str (au_target_id (snd r))),
      (''details'', VDict (au_details (snd r))), (''ip'', of_opt_str (au_ip (snd r)))]"

definition query_audit :: "env \<Rightarrow> audit_query \<Rightarrow> ctx \<times> hub \<Rightarrow> pydict list \<times> ctx \<times> hub" where
  "query_audit E q s =
     (let (rows, s1) = select_scoped E ''audit_events'' (au_organization_id \<circ> snd) audit_rows s;
          n = nat (max 1 (min (aq_limit q) 1000))
      in (map serialize_audit (take n (sort_key (\<lambda>r. - au_at (snd r)) (filter (audit_matches q \<circ> snd) rows))), s1))"

section \<open>Sites\<close>

definition serialize_site :: "site \<Rightarrow> pydict" where
  "serialize_site r = [(''id'', VStr (site_id r)), (''name'', VStr (site_name r)), (''description'', of_opt_str (site_description r)),
     (''created_at'', VStr (iso_z (site_created_at r)))]"

definition list_sites :: "env \<Rightarrow> ctx \<times> hub \<Rightarrow> pydict list \<times> ctx \<times> hub" where
  "list_sites E s =
     (let (rows, s1) = filter_sites_with_shadow_logging E \<lparr>q_where = (\<lambda>_. True), q_arrange = sort_key site_name\<rparr> None ''viewer'' s
      in (map serialize_site rows, s1))"

text \<open>Any constraint that fails is reported as a duplicate name.\<close>

definition create_site :: "env \<Rightarrow> string \<Rightarrow> string option \<Rightarrow> ctx \<times> hub \<Rightarrow> directory_error + (pydict \<times> ctx \<times> hub)" where
  "create_site E name description s =
     (case stamp_and_guard_tenant_writes E [\<lparr>fo_class = ''Site'', fo_org = None, fo_modified = True\<rparr>] [] s of
        Inl e \<Rightarrow> Inl (DirectoryRefused e)
      | Inr (new, _, c, h) \<Rightarrow>
          (case fo_org (hd new) of
             None \<Rightarrow> Inl (DuplicateNameError name)
           | Some org \<Rightarrow>
               (let r = \<lparr>site_id = new_id (env_ulid E) ''site'' (h_ulid h), site_organization_id = org, site_name = name,
                         site_description = description, site_created_at = env_now E, site_updated_at = env_now E\<rparr>
                in if list_ex (\<lambda>q. site_id q = site_id r \<or> site_organization_id q = org \<and> site_name q = name) (h_sites h)
                      \<or> tget org_id org (h_organizations h) = None
                   then Inl (DuplicateNameError name)
                   else Inr (serialize_site r, c, h\<lparr>h_sites := tadd r (h_sites h), h_ulid := Suc (h_ulid h)\<rparr>))))"

text \<open>The foreign keys to a deleted site are set to NULL.\<close>

definition unset :: "string \<Rightarrow> string option \<Rightarrow> string option" where
  "unset i f = (if f = Some i then None else f)"

definition delete_site :: "env \<Rightarrow> string \<Rightarrow> ctx \<times> hub \<Rightarrow> directory_error + (bool \<times> ctx \<times> hub)" where
  "delete_site E i s =
     (let (rows, s1) = select_scoped E ''sites'' (Some \<circ> site_organization_id) h_sites s in
      case tget site_id i rows of
        None \<Rightarrow> Inr (False, s1)
      | Some _ \<Rightarrow>
          (case stamp_and_guard_tenant_writes E [] [] s1 of
             Inl e \<Rightarrow> Inl (DirectoryRefused e)
           | Inr (_, _, c, h) \<Rightarrow>
               Inr (True, c, h\<lparr>h_sites := tdel site_id i (h_sites h),
                 h_devices := map (\<lambda>r. r\<lparr>dev_site_id := unset i (dev_site_id r)\<rparr>) (h_devices h),
                 h_enrollment_tokens := map (\<lambda>r. r\<lparr>et_site_id := unset i (et_site_id r)\<rparr>) (h_enrollment_tokens h),
                 h_groups := map (\<lambda>r. r\<lparr>grp_site_id := unset i (grp_site_id r)\<rparr>) (h_groups h),
                 h_rules := map (\<lambda>r. r\<lparr>wr_site_id := unset i (wr_site_id r)\<rparr>) (h_rules h),
                 h_api_tokens := map (\<lambda>r. r\<lparr>apt_site_id := unset i (apt_site_id r)\<rparr>) (h_api_tokens h),
                 h_subscriptions := map (\<lambda>r. r\<lparr>nsub_site_id := unset i (nsub_site_id r)\<rparr>) (h_subscriptions h)\<rparr>)))"

section \<open>Groups\<close>

definition select_groups :: "env \<Rightarrow> ctx \<times> hub \<Rightarrow> group_row list \<times> ctx \<times> hub" where
  "select_groups E s = select_scoped E ''groups'' (Some \<circ> grp_organization_id) h_groups s"

definition serialize_group :: "group_row \<Rightarrow> nat \<Rightarrow> pydict" where
  "serialize_group r n = [(''id'', VStr (grp_id r)), (''name'', VStr (grp_name r)), (''description'', of_opt_str (grp_description r)),
     (''site_id'', of_opt_str (grp_site_id r)), (''member_count'', VInt (int n)), (''created_at'', VStr (iso_z (grp_created_at r)))]"

definition list_groups :: "env \<Rightarrow> ctx \<times> hub \<Rightarrow> pydict list \<times> ctx \<times> hub" where
  "list_groups E s =
     (let (rows, s1) = filter_groups_with_shadow_logging E
            \<lparr>q_where = (\<lambda>_. True), q_arrange = sort_key (\<lambda>r. - grp_created_at r)\<rparr> None ''viewer'' s
      in (map (\<lambda>r. serialize_group r (length (group_device_ids (grp_id r) (snd s1)))) rows, s1))"

definition create_group ::
  "env \<Rightarrow> string \<Rightarrow> string option \<Rightarrow> string option \<Rightarrow> ctx \<times> hub \<Rightarrow> directory_error + (pydict \<times> ctx \<times> hub)" where
  "create_group E name description site s =
     (case stamp_and_guard_tenant_writes E [\<lparr>fo_class = ''Group'', fo_org = None, fo_modified = True\<rparr>] [] s of
        Inl e \<Rightarrow> Inl (DirectoryRefused e)
      | Inr (new, _, c, h) \<Rightarrow>
          (case fo_org (hd new) of
             None \<Rightarrow> Inl (DuplicateNameError name)
           | Some org \<Rightarrow>
               (let r = \<lparr>grp_id = new_id (env_ulid E) ''grp'' (h_ulid h), grp_organization_id = org, grp_name = name,
                         grp_description = description, grp_site_id = site, grp_created_at = env_now E, grp_updated_at = env_now E\<rparr>
                in if list_ex (\<lambda>q. grp_id q = grp_id r \<or> grp_organization_id q = org \<and> grp_name q = name) (h_groups h)
                      \<or> tget org_id org (h_organizations h) = None \<or> (case site of None \<Rightarrow> False | Some i \<Rightarrow> get_site i h = None)
                   then Inl (DuplicateNameError name)
                   else Inr (serialize_group r 0, c, h\<lparr>h_groups := tadd r (h_groups h), h_ulid := Suc (h_ulid h)\<rparr>))))"

definition member_summary :: "device \<Rightarrow> pydict" where
  "member_summary d = [(''id'', VStr (dev_id d)), (''display_name'', VStr (dev_display_name d)),
     (''registration_state'', VStr (dev_registration_state d)),
     (''last_heartbeat_at'', case dev_last_heartbeat_at d of None \<Rightarrow> VNone | Some t \<Rightarrow> VStr (iso_z t))]"

definition group_audit :: "string \<Rightarrow> audit_query" where
  "group_audit i = \<lparr>aq_actor_user_id = None, aq_action = None, aq_action_prefix = None, aq_target_type = Some ''group'',
     aq_target_id = Some i, aq_limit = 25\<rparr>"

definition get_group_detail :: "env \<Rightarrow> string \<Rightarrow> ctx \<times> hub \<Rightarrow> pydict option \<times> ctx \<times> hub" where
  "get_group_detail E i s =
     (let (rows, s1) = select_groups E s in
      case tget grp_id i rows of
        None \<Rightarrow> (None, s1)
      | Some r \<Rightarrow>
          (let members = map member_summary (sort_key dev_display_name
                 (filter (\<lambda>d. dev_id d \<in> set (group_device_ids i (snd s1))) (h_devices (snd s1))));
               (history, s2) = query_audit E (group_audit i) s1
           in (Some (serialize_group r (length members)
                 @ [(''members'', VList (map VDict members)), (''audit_history'', VList (map VDict history))]), s2)))"

text \<open>The session does not flush before a query: each id is checked against the stored memberships only.\<close>

definition new_members :: "string \<Rightarrow> string list \<Rightarrow> hub \<Rightarrow> string list" where
  "new_members gid dids h = filter (\<lambda>d. get_device d h \<noteq> None \<and> d \<notin> set (group_device_ids gid h)) dids"

definition add_members ::
  "env \<Rightarrow> string \<Rightarrow> string list \<Rightarrow> ctx \<times> hub \<Rightarrow> directory_error + (nat \<times> ctx \<times> hub)" where
  "add_members E gid dids s =
     (let (rows, s1) = select_groups E s in
      case tget grp_id gid rows of
        None \<Rightarrow> Inl (UnknownGroup gid)
      | Some _ \<Rightarrow>
          (let added = new_members gid dids (snd s1) in
           case stamp_and_guard_tenant_writes E [] [] s1 of
             Inl e \<Rightarrow> Inl (DirectoryRefused e)
           | Inr (_, _, c, h) \<Rightarrow>
               (if \<not> distinct added then Inl DirectoryIntegrityError
                else Inr (length added, c, h\<lparr>h_memberships := h_memberships h
                       @ map (\<lambda>d. \<lparr>gm_group_id = gid, gm_device_id = d, gm_added_at = env_now E\<rparr>) added\<rparr>))))"

definition remove_member :: "env \<Rightarrow> string \<Rightarrow> string \<Rightarrow> ctx \<times> hub \<Rightarrow> directory_error + (bool \<times> ctx \<times> hub)" where
  "remove_member E gid did s =
     (if did \<notin> set (group_device_ids gid (snd s)) then Inr (False, s)
      else case stamp_and_guard_tenant_writes E [] [] s of
        Inl e \<Rightarrow> Inl (DirectoryRefused e)
      | Inr (_, _, c, h) \<Rightarrow>
          Inr (True, c, h\<lparr>h_memberships := filter (\<lambda>m. \<not> (gm_group_id m = gid \<and> gm_device_id m = did)) (h_memberships h)\<rparr>))"

text \<open>Deleting a group: its memberships go with it, commands lose their reference.\<close>

definition drop_groups :: "string list \<Rightarrow> hub \<Rightarrow> hub" where
  "drop_groups is h = h\<lparr>h_groups := filter (\<lambda>r. grp_id r \<notin> set is) (h_groups h),
     h_memberships := filter (\<lambda>m. gm_group_id m \<notin> set is) (h_memberships h),
     h_commands := map (\<lambda>c. if list_ex (\<lambda>i. c_group_id c = Some i) is then c\<lparr>c_group_id := None\<rparr> else c) (h_commands h)\<rparr>"

definition delete_group :: "env \<Rightarrow> string \<Rightarrow> ctx \<times> hub \<Rightarrow> directory_error + (bool \<times> ctx \<times> hub)" where
  "delete_group E i s =
     (let (rows, s1) = select_groups E s in
      case tget grp_id i rows of
        None \<Rightarrow> Inr (False, s1)
      | Some _ \<Rightarrow>
          (case stamp_and_guard_tenant_writes E [] [] s1 of
             Inl e \<Rightarrow> Inl (DirectoryRefused e)
           | Inr (_, _, c, h) \<Rightarrow> Inr (True, c, drop_groups [i] h)))"

fun sort_groups :: "env \<Rightarrow> string list \<Rightarrow> ctx \<times> hub \<Rightarrow> (string list \<times> string list) \<times> ctx \<times> hub" where
  "sort_groups E [] s = (([], []), s)"
| "sort_groups E (i # is) s =
     (let (rows, s1) = select_groups E s; ((ds, us), s2) = sort_groups E is s1
      in (if tget grp_id i rows = None then (ds, i # us) else (i # ds, us), s2))"

definition delete_groups_bulk :: "env \<Rightarrow> string list \<Rightarrow> ctx \<times> hub \<Rightarrow> directory_error + ((string list \<times> string list) \<times> ctx \<times> hub)" where
  "delete_groups_bulk E ids s =
     (let ((ds, us), s1) = sort_groups E ids s in
      case stamp_and_guard_tenant_writes E [] [] s1 of
        Inl e \<Rightarrow> Inl (DirectoryRefused e)
      | Inr (_, _, c, h) \<Rightarrow> Inr ((ds, us), c, drop_groups ds h))"

section \<open>Confirmation of mass actions\<close>

datatype confirmation_level = LevelNone | LevelSimple | LevelTyped

definition SIMPLE_THRESHOLD :: nat where "SIMPLE_THRESHOLD = 5"
definition TYPED_THRESHOLD :: nat where "TYPED_THRESHOLD = 20"

definition required_level :: "nat \<Rightarrow> confirmation_level" where
  "required_level n = (if TYPED_THRESHOLD < n then LevelTyped else if SIMPLE_THRESHOLD < n then LevelSimple else LevelNone)"

definition level_text :: "confirmation_level \<Rightarrow> string" where
  "level_text l = (case l of LevelNone \<Rightarrow> ''none'' | LevelSimple \<Rightarrow> ''simple'' | LevelTyped \<Rightarrow> ''typed'')"

datatype confirmation_required = ConfirmationRequired nat confirmation_level "string option"

definition validate_confirmation :: "nat \<Rightarrow> string \<Rightarrow> pyval \<Rightarrow> pyval \<Rightarrow> confirmation_required option" where
  "validate_confirmation n expected level typed =
     (case required_level n of
        LevelNone \<Rightarrow> None
      | LevelSimple \<Rightarrow> if level = VStr ''simple'' \<or> level = VStr ''typed'' then None else Some (ConfirmationRequired n LevelSimple None)
      | LevelTyped \<Rightarrow> if level = VStr ''typed'' \<and> typed = VStr expected then None
                     else Some (ConfirmationRequired n LevelTyped (Some expected)))"

definition count_group_members :: "string \<Rightarrow> hub \<Rightarrow> nat" where
  "count_group_members gid h = length (group_device_ids gid h)"

definition count_all_active_devices :: "hub \<Rightarrow> nat" where
  "count_all_active_devices h = length (filter (\<lambda>d. dev_registration_state d = ''active'') (h_devices h))"

section \<open>A command for a group\<close>

datatype group_reply =
    BadRequest
  | Unconfirmed confirmation_required
  | GroupCommandError cmd_error
  | GroupCommandSent "string list" nat "string list"

text \<open>The body of the request; \<open>type\<close> is required.\<close>

record group_command =
  gc_type :: string
  gc_payload :: "pydict option"
  gc_ttl_seconds :: "int option"
  gc_override_lockout :: bool
  gc_confirmation_level :: pyval
  gc_confirmation_typed_value :: pyval

definition issued_details :: "group_command \<Rightarrow> nat \<Rightarrow> nat \<Rightarrow> nat \<Rightarrow> pydict" where
  "issued_details b target sent skipped =
     [(''type'', VStr (gc_type b)), (''target_count'', VInt (int target)), (''fan_out_count'', VInt (int sent)),
      (''skipped_protected'', VInt (int skipped)), (''override_lockout'', VBool (gc_override_lockout b)),
      (''reason'', VStr ''operator''), (''confirmation_level'', VStr (level_text (required_level target)))]"

definition per_device_details :: "string \<Rightarrow> string \<Rightarrow> pydict" where
  "per_device_details gid ty = [(''via'', VStr ''group_mass_command''), (''group_id'', VStr gid), (''type'', VStr ty)]"

definition send_group_command :: "env \<Rightarrow> string \<Rightarrow> group_command \<Rightarrow> user \<Rightarrow> ctx \<times> hub \<Rightarrow> group_reply \<times> ctx \<times> hub" where
  "send_group_command E gid b u s =
     (if gc_type b = [] then (BadRequest, s)
      else
        let target = count_group_members gid (snd s) in
        case validate_confirmation target (gc_type b) (gc_confirmation_level b) (gc_confirmation_typed_value b) of
          Some e \<Rightarrow> (Unconfirmed e, s)
        | None \<Rightarrow>
            (case enqueue_for_group (env_ulid E) (env_now E) gid (gc_type b) (gc_payload b) (Some (usr_id u)) (gc_ttl_seconds b)
                    (gc_override_lockout b) (snd s) of
               Inl e \<Rightarrow> (GroupCommandError e, s)
             | Inr (cs, skipped, h) \<Rightarrow>
                 (let s1 = audit_record E ''group.mass_command_issued'' (Some (usr_id u)) (Some (usr_email u)) (Some ''group'') (Some gid)
                             (issued_details b target (length cs) (length skipped)) None (fst s, h);
                      s2 = snd (record_per_device E ''device.mass_command_issued_per_device'' (Some (usr_id u)) (Some (usr_email u))
                             (map c_device_id cs) None (per_device_details gid (gc_type b)) None s1);
                      s3 = (if skipped = [] then s2
                            else snd (record_per_device E ''device.mass_command_skipped_per_device'' (Some (usr_id u)) (Some (usr_email u))
                                   skipped None (per_device_details gid (gc_type b) @ [(''reason'', VStr ''is_protected'')]) None s2))
                  in (GroupCommandSent (map c_id cs) target skipped, s3))))"

section \<open>Lemmas\<close>

lemma select_groups_facts:
  assumes "select_groups E (c, h) = (rows, c', h')"
  shows "\<exists>a. h' = h\<lparr>h_audit := a\<rparr>"
  using select_scoped_frame(2) [OF assms [unfolded select_groups_def]] by blast

lemma group_device_ids_audit [simp]: "group_device_ids gid (h\<lparr>h_audit := a\<rparr>) = group_device_ids gid h"
  by (simp add: group_device_ids_def)

lemma audit_frame: "\<exists>c' a. audit_record E action uid email ttype tid details ip (c, h) = (c', h\<lparr>h_audit := a\<rparr>)"
  by (rule audit_recordE [of E action uid email ttype tid details ip c h]) blast

lemma per_device_frame: "\<exists>n c' a. record_per_device E action uid email dids f base ip (c, h) = (n, c', h\<lparr>h_audit := a\<rparr>)"
proof (induction dids arbitrary: c h)
  case Nil
  show ?case by (auto intro: exI [of _ "h_audit h"])
next
  case (Cons d dids)
  show ?case
  proof (cases "case f of None \<Rightarrow> Some [] | Some g \<Rightarrow> g d")
    case None
    then show ?thesis using Cons.IH [of c h] by simp
  next
    case (Some x)
    obtain c1 a where r: "audit_record E action uid email (Some ''device'') (Some d) (dict_update x base) ip (c, h) = (c1, h\<lparr>h_audit := a\<rparr>)"
      using audit_frame by blast
    obtain n c2 b where "record_per_device E action uid email dids f base ip (c1, h\<lparr>h_audit := a\<rparr>) = (n, c2, h\<lparr>h_audit := b\<rparr>)"
      using Cons.IH [of c1 "h\<lparr>h_audit := a\<rparr>"] by auto
    then show ?thesis using Some r by (intro exI [of _ "Suc n"] exI [of _ c2] exI [of _ b]) simp
  qed
qed

lemma per_device_frame2:
  "\<exists>n c' a. record_per_device E action uid email dids f base ip (c, h\<lparr>h_audit := b\<rparr>) = (n, c', h\<lparr>h_audit := a\<rparr>)"
  using per_device_frame [of E action uid email dids f base ip c "h\<lparr>h_audit := b\<rparr>"] by simp

lemma add_membersE:
  assumes "add_members E gid dids (c, h) = Inr (n, c', h')"
  obtains a where "distinct (new_members gid dids h)" and "n = length (new_members gid dids h)"
    and "h' = h\<lparr>h_audit := a, h_memberships := h_memberships h
           @ map (\<lambda>d. \<lparr>gm_group_id = gid, gm_device_id = d, gm_added_at = env_now E\<rparr>) (new_members gid dids h)\<rparr>"
proof -
  obtain rows c1 h1 where sel: "select_groups E (c, h) = (rows, c1, h1)" by (metis prod_cases3)
  obtain a where h1: "h1 = h\<lparr>h_audit := a\<rparr>" using select_groups_facts [OF sel] by blast
  have nm: "new_members gid dids h1 = new_members gid dids h" by (simp add: h1 new_members_def get_device_def)
  obtain r where r: "tget grp_id gid rows = Some r" using assms sel by (auto simp: add_members_def split: option.splits)
  have "\<not> isl (stamp_and_guard_tenant_writes E [] [] (c1, h1))"
    using assms by (cases "stamp_and_guard_tenant_writes E [] [] (c1, h1)") (simp_all add: add_members_def sel r)
  then obtain new d c2 h2 where fl: "stamp_and_guard_tenant_writes E [] [] (c1, h1) = Inr (new, d, c2, h2)"
    by (cases "stamp_and_guard_tenant_writes E [] [] (c1, h1)") auto
  have res: "distinct (new_members gid dids h) \<and> n = length (new_members gid dids h) \<and>
    h' = h2\<lparr>h_memberships := h_memberships h2
           @ map (\<lambda>d. \<lparr>gm_group_id = gid, gm_device_id = d, gm_added_at = env_now E\<rparr>) (new_members gid dids h)\<rparr>"
    using assms by (simp add: add_members_def sel r fl Let_def nm split: if_splits)
  obtain b where h2: "h2 = h\<lparr>h_audit := b\<rparr>" using flush_frame [OF fl] h1 by auto
  show ?thesis by (rule that [of b]) (use res in \<open>simp_all add: h2\<close>)
qed

definition member_pairs :: "hub \<Rightarrow> (string \<times> string) list" where
  "member_pairs h = map (\<lambda>m. (gm_group_id m, gm_device_id m)) (h_memberships h)"

text \<open>Adding members puts exactly the existing devices among those asked for into the group, next to the members it
  had, counts only the new ones, never duplicates a membership, and leaves every other group and every
  device as it was.\<close>

theorem members_added:
  assumes "add_members E gid dids (c, h) = Inr (n, c', h')" and "distinct (member_pairs h)"
  shows "set (group_device_ids gid h') = set (group_device_ids gid h) \<union> {d \<in> set dids. get_device d h \<noteq> None}
    \<and> length (group_device_ids gid h') = length (group_device_ids gid h) + n
    \<and> distinct (member_pairs h') \<and> h_devices h' = h_devices h
    \<and> (g \<noteq> gid \<longrightarrow> group_device_ids g h' = group_device_ids g h)"
proof (rule add_membersE [OF assms(1)])
  fix a
  assume st: "distinct (new_members gid dids h)" "n = length (new_members gid dids h)"
    and h': "h' = h\<lparr>h_audit := a, h_memberships := h_memberships h
           @ map (\<lambda>d. \<lparr>gm_group_id = gid, gm_device_id = d, gm_added_at = env_now E\<rparr>) (new_members gid dids h)\<rparr>"
  have ids: "group_device_ids i h' = group_device_ids i h @ (if i = gid then new_members gid dids h else [])" for i
    by (simp add: group_device_ids_def h' comp_def)
  have "distinct (member_pairs h')"
    using assms(2) st(1)
    by (auto simp: member_pairs_def h' comp_def distinct_map inj_on_def new_members_def group_device_ids_def)
  then show ?thesis using st ids [of gid] ids [of g] by (auto simp: new_members_def h')
qed

text \<open>Asking twice for a device that is not a member yet fails as a whole: the second request is checked before the
  first is written, and the two rows collide.\<close>

lemma repeated_member_fails:
  assumes "d \<in> set (new_members gid dids h)" and "1 < count (mset dids) d"
  shows "\<exists>e. add_members E gid dids (c, h) = Inl e"
proof (cases "add_members E gid dids (c, h)")
  case (Inr r)
  then obtain n c' h' where "add_members E gid dids (c, h) = Inr (n, c', h')" by (cases r) auto
  then have "distinct (new_members gid dids h)" by (rule add_membersE)
  then have "count (mset (new_members gid dids h)) d \<le> 1" by (simp add: distinct_count_atmost_1)
  moreover have "count (mset (new_members gid dids h)) d = count (mset dids) d"
    using assms(1) by (simp add: new_members_def)
  ultimately show ?thesis using assms(2) by simp
qed simp

lemma send_group_commandE:
  assumes "send_group_command E gid b u (c, h) = (GroupCommandSent ids target skipped, c', h')"
  obtains cs h1 a where "target = count_group_members gid h" and "ids = map c_id cs"
    and "validate_confirmation target (gc_type b) (gc_confirmation_level b) (gc_confirmation_typed_value b) = None"
    and "enqueue_for_group (env_ulid E) (env_now E) gid (gc_type b) (gc_payload b) (Some (usr_id u)) (gc_ttl_seconds b)
           (gc_override_lockout b) h = Inr (cs, skipped, h1)"
    and "h' = h1\<lparr>h_audit := a\<rparr>"
proof -
  let ?n = "count_group_members gid h"
  have ty: "gc_type b \<noteq> []" using assms by (auto simp: send_group_command_def)
  have ok: "validate_confirmation ?n (gc_type b) (gc_confirmation_level b) (gc_confirmation_typed_value b) = None"
    using assms ty by (auto simp: send_group_command_def Let_def split: option.splits)
  let ?e = "enqueue_for_group (env_ulid E) (env_now E) gid (gc_type b) (gc_payload b) (Some (usr_id u)) (gc_ttl_seconds b)
           (gc_override_lockout b) h"
  have "\<not> isl ?e" using assms ty ok by (cases ?e) (simp_all add: send_group_command_def Let_def)
  then obtain cs sk h1 where enq': "?e = Inr (cs, sk, h1)" by (cases ?e) auto
  have res: "target = ?n" "ids = map c_id cs" and enq: "enqueue_for_group (env_ulid E) (env_now E) gid (gc_type b) (gc_payload b)
      (Some (usr_id u)) (gc_ttl_seconds b) (gc_override_lockout b) h = Inr (cs, skipped, h1)"
    using assms ty ok enq' by (simp_all add: send_group_command_def Let_def)
  let ?who = "\<lambda>action. record_per_device E action (Some (usr_id u)) (Some (usr_email u))"
  obtain c1 a1 where r1: "audit_record E ''group.mass_command_issued'' (Some (usr_id u)) (Some (usr_email u)) (Some ''group'') (Some gid)
      (issued_details b target (length cs) (length skipped)) None (c, h1) = (c1, h1\<lparr>h_audit := a1\<rparr>)" using audit_frame by blast
  obtain n2 c2 a2 where r2: "?who ''device.mass_command_issued_per_device'' (map c_device_id cs) None (per_device_details gid (gc_type b)) None
      (c1, h1\<lparr>h_audit := a1\<rparr>) = (n2, c2, h1\<lparr>h_audit := a2\<rparr>)" using per_device_frame2 by blast
  obtain n3 c3 a3 where r3: "?who ''device.mass_command_skipped_per_device'' skipped None
      (per_device_details gid (gc_type b) @ [(''reason'', VStr ''is_protected'')]) None (c2, h1\<lparr>h_audit := a2\<rparr>) = (n3, c3, h1\<lparr>h_audit := a3\<rparr>)"
    using per_device_frame2 by blast
  have "h' = h1\<lparr>h_audit := if skipped = [] then a2 else a3\<rparr>"
    using assms ty ok enq r1 r2 r3 by (simp add: send_group_command_def Let_def res split: if_splits)
  then show ?thesis by (intro that [OF res _ enq]) (simp_all add: ok res(1))
qed

text \<open>A command for a group goes out exactly to the members that accept it, in order and once per membership, each
  refused one is reported, and nothing else joins the queue; and it goes out only if the confirmation
  matches the number of members: none up to 5, at least a simple one up to 20, beyond that the typed
  name of the command.\<close>

theorem group_command_confirmed:
  assumes "send_group_command E gid b u (c, h) = (GroupCommandSent ids target skipped, c', h')"
  shows "(\<exists>cs. h_commands h' = h_commands h @ cs \<and> ids = map c_id cs
           \<and> map c_device_id cs = filter (accepts (gc_type b) (gc_override_lockout b) h) (group_device_ids gid h))
    \<and> skipped = filter (skips (gc_type b) (gc_override_lockout b) h) (group_device_ids gid h)
    \<and> target = length (group_device_ids gid h)
    \<and> (target \<le> 5 \<or> target \<le> 20 \<and> gc_confirmation_level b \<in> {VStr ''simple'', VStr ''typed''}
       \<or> gc_confirmation_level b = VStr ''typed'' \<and> gc_confirmation_typed_value b = VStr (gc_type b))"
proof (rule send_group_commandE [OF assms])
  fix cs h1 a
  assume st: "target = count_group_members gid h" "ids = map c_id cs"
    and conf: "validate_confirmation target (gc_type b) (gc_confirmation_level b) (gc_confirmation_typed_value b) = None"
    and enq: "enqueue_for_group (env_ulid E) (env_now E) gid (gc_type b) (gc_payload b) (Some (usr_id u)) (gc_ttl_seconds b)
           (gc_override_lockout b) h = Inr (cs, skipped, h1)"
    and h': "h' = h1\<lparr>h_audit := a\<rparr>"
  show ?thesis
    using enqueue_for_group_partition [OF enq] st conf h'
    by (auto simp: count_group_members_def validate_confirmation_def required_level_def SIMPLE_THRESHOLD_def TYPED_THRESHOLD_def
        split: if_splits)
qed

text \<open>The organization of the caller plays no part in it: the route never loads the group, and neither
  memberships, devices nor commands are tenant-scoped. Whatever organization is bound and whatever the
  enforcement mode, the same command goes to the same devices, also of a group the caller cannot even see.\<close>

theorem group_command_ignores_scope:
  "fst (send_group_command E gid b u (c2, h)) = fst (send_group_command E gid b u (c1, h))
   \<and> h_commands (snd (snd (send_group_command E gid b u (c2, h)))) = h_commands (snd (snd (send_group_command E gid b u (c1, h))))"
proof -
  have reply: "fst (send_group_command E gid b u (c, h)) = fst (send_group_command E gid b u (c1, h))" for c
    by (simp add: send_group_command_def Let_def split: option.splits sum.splits)
  have refused: "case fst (send_group_command E gid b u (c, h)) of GroupCommandSent ids target skipped \<Rightarrow> True
      | _ \<Rightarrow> snd (send_group_command E gid b u (c, h)) = (c, h)" for c
    by (simp add: send_group_command_def Let_def split: option.splits sum.splits)
  have queue: "h_commands (snd (snd (send_group_command E gid b u (c, h)))) =
      (case fst (send_group_command E gid b u (c, h)) of
         GroupCommandSent ids target skipped \<Rightarrow>
           (case enqueue_for_group (env_ulid E) (env_now E) gid (gc_type b) (gc_payload b) (Some (usr_id u)) (gc_ttl_seconds b)
              (gc_override_lockout b) h of Inr (cs, sk, h1) \<Rightarrow> h_commands h1 | Inl e \<Rightarrow> h_commands h)
       | _ \<Rightarrow> h_commands h)" for c
  proof (cases "fst (send_group_command E gid b u (c, h))")
    case (GroupCommandSent ids target skipped)
    then obtain c' h' where s: "send_group_command E gid b u (c, h) = (GroupCommandSent ids target skipped, c', h')"
      by (metis prod.collapse)
    show ?thesis by (rule send_group_commandE [OF s]) (simp add: s)
  qed (use refused [of c] in simp_all)
  show ?thesis unfolding queue [of c1] queue [of c2] reply [of c2] by simp
qed

definition fleet_hub :: hub where
  "fleet_hub = demo_hub\<lparr>h_groups := [\<lparr>grp_id = ''g'', grp_organization_id = ''o1'', grp_name = ''Lab'', grp_description = None,
     grp_site_id = None, grp_created_at = 0, grp_updated_at = 0\<rparr>],
     h_memberships := [\<lparr>gm_group_id = ''g'', gm_device_id = ''d1'', gm_added_at = 0\<rparr>]\<rparr>"

theorem members_added_witness:
  "case add_members scope_env ''g'' [''d2'', ''d1'', ''zz''] (scope_ctx (Some ''o1''), fleet_hub) of
     Inl e \<Rightarrow> False | Inr (n, c', h') \<Rightarrow> set (group_device_ids ''g'' h') = {''d1'', ''d2''} \<and> n = 1"
proof -
  have "\<not> isl (add_members scope_env ''g'' [''d2'', ''d1'', ''zz''] (scope_ctx (Some ''o1''), fleet_hub))" by code_simp
  then obtain n c' h' where r: "add_members scope_env ''g'' [''d2'', ''d1'', ''zz''] (scope_ctx (Some ''o1''), fleet_hub) = Inr (n, c', h')"
    by (cases "add_members scope_env ''g'' [''d2'', ''d1'', ''zz''] (scope_ctx (Some ''o1''), fleet_hub)") auto
  have d: "distinct (member_pairs fleet_hub)" by code_simp
  have n: "new_members ''g'' [''d2'', ''d1'', ''zz''] fleet_hub = [''d2'']" "get_device ''d1'' fleet_hub \<noteq> None"
    "group_device_ids ''g'' fleet_hub = [''d1'']" by code_simp+
  then have ex: "{d \<in> set [''d2'', ''d1'', ''zz'']. get_device d fleet_hub \<noteq> None} = {''d1'', ''d2''}"
    by (auto simp: new_members_def split: if_splits)
  have "n = 1" by (rule add_membersE [OF r]) (simp add: n(1))
  then show ?thesis using members_added [OF r d, of "''g''"] n(3) unfolding r ex by auto
qed

definition lab_command :: group_command where
  "lab_command = \<lparr>gc_type = ''relay_off'', gc_payload = None, gc_ttl_seconds = None, gc_override_lockout = False,
     gc_confirmation_level = VNone, gc_confirmation_typed_value = VNone\<rparr>"

theorem group_command_confirmed_witness:
  "case send_group_command scope_env ''g'' lab_command (account_user ''u1'' ''admin'') (scope_ctx (Some ''o1''), fleet_hub) of
     (GroupCommandSent ids target skipped, c', h') \<Rightarrow> length (h_commands h') = length (h_commands fleet_hub) + 1 \<and> target = 1 | _ \<Rightarrow> False"
proof -
  have "case fst (send_group_command scope_env ''g'' lab_command (account_user ''u1'' ''admin'') (scope_ctx (Some ''o1''), fleet_hub)) of
     GroupCommandSent ids target skipped \<Rightarrow> True | _ \<Rightarrow> False" by code_simp
  then obtain ids target skipped c' h' where
    r: "send_group_command scope_env ''g'' lab_command (account_user ''u1'' ''admin'') (scope_ctx (Some ''o1''), fleet_hub) = (GroupCommandSent ids target skipped, c', h')"
    by (cases "send_group_command scope_env ''g'' lab_command (account_user ''u1'' ''admin'') (scope_ctx (Some ''o1''), fleet_hub)")
      (auto split: group_reply.splits)
  have ids: "group_device_ids ''g'' fleet_hub = [''d1'']" by code_simp
  have "get_device ''d1'' fleet_hub \<noteq> None \<and> \<not> locked_out (the (get_device ''d1'' fleet_hub)) ''relay_off'' False" by code_simp
  then have "accepts ''relay_off'' False fleet_hub ''d1''" by (auto simp: accepts_def)
  with group_command_confirmed [OF r] ids show ?thesis
    unfolding r by (auto simp: lab_command_def dest!: arg_cong [of "map _ _" _ length])
qed

end
