(* ===== verification/WatchdogState.thy ===== *)
theory WatchdogState
  imports WatchdogActions RuntimeFlags
begin

text \<open>
  The watchdog state machine and its tick (\<open>app/services/watchdog_runtime/_state.py\<close> and
  \<open>__init__.py\<close>). An edge-triggered rule counts consecutive failures, fires its action when the
  threshold is reached outside the cooldown, and re-arms after enough consecutive successes; a
  binding rule follows the probe both ways. The probe itself is network and integration I/O: its
  outcome (or the exception it raised) is an argument of the tick.
\<close>

section \<open>Scheduling\<close>

definition rule_is_due :: "watchdog_rule \<Rightarrow> instant \<Rightarrow> bool" where
  "rule_is_due r now \<longleftrightarrow>
     (case wr_last_probed_at r of None \<Rightarrow> True | Some t \<Rightarrow> now - t \<ge> secs (wr_window_seconds r))"

text \<open>One maintenance window: any malformed entry is no window.\<close>

definition window_covers :: "env \<Rightarrow> instant \<Rightarrow> pyval \<Rightarrow> bool" where
  "window_covers E now w =
     (case w of
        VDict d \<Rightarrow>
          (case (dget d ''start'', dget d ''end'') of
             (VStr a, VStr b) \<Rightarrow>
               (case (env_fromiso E a, env_fromiso E b) of
                  (Some s, Some e) \<Rightarrow> s \<le> now \<and> now \<le> e
                | _ \<Rightarrow> False)
           | _ \<Rightarrow> False)
      | _ \<Rightarrow> False)"

definition in_maintenance_window :: "env \<Rightarrow> watchdog_rule \<Rightarrow> instant \<Rightarrow> bool" where
  "in_maintenance_window E r now = list_ex (window_covers E now) (wr_maintenance_windows r)"

definition record_event :: "watchdog_rule \<Rightarrow> string \<Rightarrow> pydict \<Rightarrow> instant \<Rightarrow> hub \<Rightarrow> hub" where
  "record_event r outcome details t h =
     h\<lparr>h_probe_events := h_probe_events h @
        [\<lparr>pe_rule_id = wr_id r, pe_at = t, pe_outcome = outcome, pe_details = details\<rparr>]\<rparr>"

section \<open>Firing\<close>

definition in_cooldown :: "watchdog_rule \<Rightarrow> instant \<Rightarrow> bool" where
  "in_cooldown r now \<longleftrightarrow>
     (case wr_last_action_at r of None \<Rightarrow> False | Some t \<Rightarrow> now - t < secs (wr_cooldown_seconds r))"

definition run_escalation_and_emit :: "watchdog_rule \<Rightarrow> pydict \<Rightarrow> hub \<Rightarrow> hub" where
  "run_escalation_and_emit r fired h =
     (let fired_call = Emit ''watchdog.rule_fired''
            [(''rule_id'', VStr (wr_id r)), (''rule_name'', VStr (wr_name r)),
             (''outcome'', VStr ''action_fired''), (''details'', VDict fired)] (wr_site_id r);
          esc = wr_escalation r;
          esc_calls = (if dget esc ''kind'' = VStr ''webhook'' \<and> truthy (dget esc ''url'')
            then [EscalationWebhook (wr_id r) (dget esc ''url'')
                    [(''rule_name'', VStr (wr_name r)), (''details'', VDict fired)],
                  Emit ''watchdog.rule_escalated''
                    [(''rule_id'', VStr (wr_id r)), (''rule_name'', VStr (wr_name r))] (wr_site_id r)]
            else [])
      in h\<lparr>h_outbound := h_outbound h @ fired_call # esc_calls\<rparr>)"

text \<open>\<open>_binding_tick\<close>: the applied edge is remembered in \<open>last_outcome\<close>.\<close>

definition binding_tick ::
  "env \<Rightarrow> watchdog_rule \<Rightarrow> string \<Rightarrow> instant \<Rightarrow> hub \<Rightarrow> bool \<times> watchdog_rule \<times> hub" where
  "binding_tick E r0 outcome now h =
     (let r = r0\<lparr>wr_last_probed_at := Some now\<rparr> in
      if outcome \<noteq> ''success'' \<and> outcome \<noteq> ''failure''
      then (False, r\<lparr>wr_last_outcome := Some outcome\<rparr>, h)
      else
        let r = (if outcome = ''success''
                 then r\<lparr>wr_recovery_streak := wr_recovery_streak r + 1, wr_failure_streak := 0\<rparr>
                 else r\<lparr>wr_failure_streak := wr_failure_streak r + 1, wr_recovery_streak := 0\<rparr>);
            active = (wr_recovery_streak r \<ge> max 1 (wr_recovery_threshold r));
            cleared = (wr_failure_streak r \<ge> max 1 (wr_failure_threshold r))
        in if \<not> active \<and> \<not> cleared
           then (False, r\<lparr>wr_last_outcome := Some (''binding_settling:'' @ outcome)\<rparr>, h)
           else
             let edge = (if active then ''active'' else ''cleared'');
                 marker = ''binding:'' @ edge
             in if wr_last_outcome r = Some marker then (False, r, h)
                else
                  let leaf = dict_of (dget (wr_action r) (if active then ''on_active'' else ''on_clear''));
                      (result, h1) = apply_binding_action E r leaf h;
                      r = r\<lparr>wr_last_outcome := Some marker, wr_last_action_at := Some now,
                            wr_status := (if active then ''firing'' else ''armed'')\<rparr>;
                      h2 = record_event r ''binding_applied''
                             [(''edge'', VStr edge), (''outcome'', VStr outcome),
                              (''leaf_action'', dget leaf ''kind''), (''result'', VDict result)] now h1
                  in (True, r, h2))"

definition update_state_and_maybe_fire ::
  "env \<Rightarrow> watchdog_rule \<Rightarrow> string \<Rightarrow> instant \<Rightarrow> hub \<Rightarrow> bool \<times> watchdog_rule \<times> hub" where
  "update_state_and_maybe_fire E r0 outcome now h =
     (if dget (wr_action r0) ''kind'' = VStr ''binding'' then binding_tick E r0 outcome now h
      else
        let r = r0\<lparr>wr_last_probed_at := Some now, wr_last_outcome := Some outcome\<rparr> in
        if outcome = ''success'' then
          (if wr_failure_streak r > 0 \<or> wr_status r = ''firing'' then
             let r = r\<lparr>wr_recovery_streak := wr_recovery_streak r + 1\<rparr> in
             if wr_recovery_streak r \<ge> wr_recovery_threshold r then
               (False, r\<lparr>wr_failure_streak := 0, wr_recovery_streak := 0, wr_status := ''armed''\<rparr>,
                record_event r ''recovery'' [(''reason'', VStr ''recovery_threshold reached'')] now h)
             else (False, r, h)
           else (False, r\<lparr>wr_recovery_streak := 0\<rparr>, h))
        else if outcome \<noteq> ''failure'' then (False, r, h)
        else
          let r = r\<lparr>wr_recovery_streak := 0, wr_failure_streak := wr_failure_streak r + 1\<rparr> in
          if wr_failure_streak r < wr_failure_threshold r then (False, r, h)
          else if in_cooldown r now then
            (False, r, record_event r ''cooldown_skip''
                         [(''failure_streak'', VInt (wr_failure_streak r))] now h)
          else
            let (fired, h1) = fire_action E r h;
                r = r\<lparr>wr_status := ''firing'', wr_last_action_at := Some now\<rparr>;
                h2 = record_event r ''action_fired'' fired now h1
            in (True, r, run_escalation_and_emit r fired h2))"

section \<open>The tick\<close>

record tick_stats =
  st_considered :: nat
  st_probed :: nat
  st_fired :: nat
  st_errors :: nat
  st_in_window :: nat

datatype tick_result = TickDisabled | TickMaintenance | TickStats tick_stats

type_synonym probe_fn = "hub \<Rightarrow> watchdog_rule \<Rightarrow> string + (string \<times> pydict)"

definition put_rule :: "watchdog_rule \<Rightarrow> hub \<Rightarrow> hub" where
  "put_rule r h = h\<lparr>h_rules := tupd wr_id (wr_id r) (\<lambda>_. r) (h_rules h)\<rparr>"

definition process_rule ::
  "env \<Rightarrow> probe_fn \<Rightarrow> instant \<Rightarrow> watchdog_rule \<Rightarrow> tick_stats \<times> hub \<Rightarrow> tick_stats \<times> hub" where
  "process_rule E probe now r sh =
     (let (st0, h) = sh; st = st0\<lparr>st_considered := Suc (st_considered st0)\<rparr> in
      if \<not> rule_is_due r now then (st, h)
      else if in_maintenance_window E r now then
        (st\<lparr>st_in_window := Suc (st_in_window st)\<rparr>,
         put_rule (r\<lparr>wr_last_probed_at := Some now, wr_last_outcome := Some ''maintenance_skip''\<rparr>)
           (record_event r ''maintenance_skip'' [(''reason'', VStr ''rule maintenance window'')] now h))
      else
        let (outcome, details, st) =
              (case probe h r of
                 Inr (out, det) \<Rightarrow> (out, det, st\<lparr>st_probed := Suc (st_probed st)\<rparr>)
               | Inl e \<Rightarrow> (''probe_error'', [(''error'', VStr e)], st\<lparr>st_errors := Suc (st_errors st)\<rparr>));
            (fired, r', h') = update_state_and_maybe_fire E r outcome now
                                (record_event r outcome details now h)
        in (if fired then st\<lparr>st_fired := Suc (st_fired st)\<rparr> else st, put_rule r' h'))"

definition zero_stats :: tick_stats where
  "zero_stats = \<lparr>st_considered = 0, st_probed = 0, st_fired = 0, st_errors = 0, st_in_window = 0\<rparr>"

definition active_rules :: "hub \<Rightarrow> watchdog_rule list" where
  "active_rules h = filter (\<lambda>r. wr_enabled r \<and> wr_status r \<noteq> ''disabled'') (h_rules h)"

definition watchdog_tick :: "env \<Rightarrow> bool \<Rightarrow> probe_fn \<Rightarrow> instant \<Rightarrow> hub \<Rightarrow> tick_result \<times> hub" where
  "watchdog_tick E disabled probe now h =
     (if disabled then (TickDisabled, h)
      else if is_maintenance_mode_active h then (TickMaintenance, h)
      else let (st, h') = fold (process_rule E probe now) (active_rules h) (zero_stats, h)
           in (TickStats st, h'))"

section \<open>Frame facts\<close>

lemma record_event_frame [frame_rules, simp]:
  "h_devices (record_event r out d t h) = h_devices h"
  "h_commands (record_event r out d t h) = h_commands h"
  "h_rules (record_event r out d t h) = h_rules h"
  by (simp_all add: record_event_def)

lemma run_escalation_frame [frame_rules, simp]:
  "h_devices (run_escalation_and_emit r d h) = h_devices h"
  "h_commands (run_escalation_and_emit r d h) = h_commands h"
  "h_rules (run_escalation_and_emit r d h) = h_rules h"
  "h_probe_events (run_escalation_and_emit r d h) = h_probe_events h"
  by (simp_all add: run_escalation_and_emit_def Let_def)

lemma put_rule_frame [frame_rules, simp]:
  "h_devices (put_rule r h) = h_devices h"
  "h_commands (put_rule r h) = h_commands h"
  "h_probe_events (put_rule r h) = h_probe_events h"
  by (simp_all add: put_rule_def)

lemma record_event_kept: "lockout_kept h (record_event r out d t h)"
  by (rule lockout_kept_same) simp_all

lemma put_rule_kept: "lockout_kept h (put_rule r h)"
  by (rule lockout_kept_same) simp_all

lemma escalation_kept: "lockout_kept h (run_escalation_and_emit r d h)"
  by (rule lockout_kept_same) simp_all

lemma fire_action_kept: "fire_action E r h = (d, h') \<Longrightarrow> lockout_kept h h'"
  using fire_action_queues_safely [of h E r] by (simp add: queues_safely_def)

lemma apply_binding_kept: "apply_binding_action E r a h = (d, h') \<Longrightarrow> lockout_kept h h'"
  using apply_binding_action_queues_safely [of h E r a] by (simp add: queues_safely_def)

lemmas kept_intros = record_event_kept put_rule_kept escalation_kept lockout_kept_refl

lemma binding_tick_kept: "binding_tick E r outcome now h = (b, r', h') \<Longrightarrow> lockout_kept h h'"
  by (auto simp: binding_tick_def Let_def split: if_splits prod.splits
      intro: kept_intros lockout_kept_trans [OF apply_binding_kept record_event_kept])

lemma update_state_kept:
  assumes "update_state_and_maybe_fire E r outcome now h = (b, r', h')"
  shows "lockout_kept h h'"
  using assms
  by (auto simp: update_state_and_maybe_fire_def Let_def split: if_splits prod.splits
      intro: kept_intros binding_tick_kept
        lockout_kept_trans [OF fire_action_kept lockout_kept_trans [OF record_event_kept escalation_kept]])

lemma process_rule_kept: "lockout_kept (snd sh) (snd (process_rule E probe now r sh))"
proof -
  obtain st h where sh: "sh = (st, h)" by (metis prod.exhaust)
  show ?thesis
    unfolding sh process_rule_def
    by (auto simp: Let_def split: sum.splits prod.splits
        intro: kept_intros lockout_kept_trans [OF record_event_kept put_rule_kept]
          lockout_kept_trans [OF record_event_kept lockout_kept_trans [OF update_state_kept put_rule_kept]])
qed

lemma fold_process_rule_kept:
  "lockout_kept (snd sh) (snd (fold (process_rule E probe now) rs sh))"
proof (induction rs arbitrary: sh)
  case Nil
  show ?case by (simp add: lockout_kept_refl)
next
  case (Cons r rs)
  show ?case
    using lockout_kept_trans [OF process_rule_kept Cons.IH] by simp
qed

section \<open>Edge-triggered rules\<close>

definition is_binding :: "watchdog_rule \<Rightarrow> bool" where
  "is_binding r \<longleftrightarrow> dget (wr_action r) ''kind'' = VStr ''binding''"

lemma update_state_config:
  assumes "update_state_and_maybe_fire E r outcome now h = (b, r', h')"
  shows "wr_id r' = wr_id r" and "wr_action r' = wr_action r"
    and "wr_cooldown_seconds r' = wr_cooldown_seconds r"
    and "wr_failure_threshold r' = wr_failure_threshold r"
    and "wr_recovery_threshold r' = wr_recovery_threshold r"
    and "wr_enabled r' = wr_enabled r"
  using assms
  by (auto simp: update_state_and_maybe_fire_def binding_tick_def Let_def
      split: if_splits prod.splits)

text \<open>When an edge-triggered rule fires, and what its row looks like afterwards.\<close>

lemma update_state_fires_iff:
  assumes "\<not> is_binding r" and "update_state_and_maybe_fire E r outcome now h = (b, r', h')"
  shows "b \<longleftrightarrow> outcome = ''failure'' \<and> wr_failure_threshold r \<le> wr_failure_streak r + 1
             \<and> \<not> in_cooldown r now"
  using assms
  by (auto simp: update_state_and_maybe_fire_def is_binding_def Let_def in_cooldown_def
      split: if_splits prod.splits option.splits)

lemma update_state_last_action:
  assumes "\<not> is_binding r" and "update_state_and_maybe_fire E r outcome now h = (b, r', h')"
  shows "wr_last_action_at r' = (if b then Some now else wr_last_action_at r)"
  using assms
  by (auto simp: update_state_and_maybe_fire_def is_binding_def Let_def
      split: if_splits prod.splits option.splits)

text \<open>The counters of an edge-triggered rule that the code keeps consistent.\<close>

definition edge_ok :: "watchdog_rule \<Rightarrow> bool" where
  "edge_ok r \<longleftrightarrow>
     0 \<le> wr_failure_streak r \<and> 0 \<le> wr_recovery_streak r \<and>
     wr_recovery_streak r < max 1 (wr_recovery_threshold r) \<and>
     (wr_recovery_streak r > 0 \<longrightarrow> wr_failure_streak r > 0 \<or> wr_status r = ''firing'') \<and>
     (wr_status r = ''firing'' \<longrightarrow> wr_last_action_at r \<noteq> None)"

lemma edge_ok_step:
  assumes "\<not> is_binding r" and "edge_ok r"
    and "update_state_and_maybe_fire E r outcome now h = (b, r', h')"
  shows "edge_ok r'"
  using assms
  by (auto simp: update_state_and_maybe_fire_def is_binding_def edge_ok_def Let_def
      split: if_splits prod.splits)

section \<open>Runs of one rule\<close>

text \<open>A sequence of probe outcomes with their times; the result lists the times of the fires.\<close>

fun rule_run ::
  "env \<Rightarrow> watchdog_rule \<Rightarrow> hub \<Rightarrow> (string \<times> instant) list \<Rightarrow> instant list \<times> watchdog_rule \<times> hub" where
  "rule_run E r h [] = ([], r, h)"
| "rule_run E r h ((outcome, now) # xs) =
     (case update_state_and_maybe_fire E r outcome now h of
        (b, r1, h1) \<Rightarrow> (case rule_run E r1 h1 xs of
                          (ts, r2, h2) \<Rightarrow> (if b then now # ts else ts, r2, h2)))"

lemma rule_run_spaced:
  assumes "\<not> is_binding r" and "rule_run E r h xs = (ts, r', h')"
  shows "(case wr_last_action_at r of
            None \<Rightarrow> successively (\<lambda>t u. secs (wr_cooldown_seconds r) \<le> u - t) ts
          | Some t \<Rightarrow> successively (\<lambda>t u. secs (wr_cooldown_seconds r) \<le> u - t) (t # ts))"
  using assms
proof (induction xs arbitrary: r h ts r' h')
  case Nil
  then show ?case by (simp split: option.splits)
next
  case (Cons x xs)
  obtain outcome now where x: "x = (outcome, now)" by (metis prod.exhaust)
  obtain b r1 h1 where up: "update_state_and_maybe_fire E r outcome now h = (b, r1, h1)"
    by (metis prod_cases3)
  obtain us r2 h2 where run: "rule_run E r1 h1 xs = (us, r2, h2)" by (metis prod_cases3)
  have ts: "ts = (if b then now # us else us)" using Cons.prems(2) by (simp add: x up run split: if_splits)
  have nb: "\<not> is_binding r1" using Cons.prems(1) update_state_config(2) [OF up] by (simp add: is_binding_def)
  note IH = Cons.IH [OF nb run]
  note la = update_state_last_action [OF Cons.prems(1) up]
  note cd = update_state_config(3) [OF up]
  show ?case
  proof (cases b)
    case True
    then have "\<not> in_cooldown r now" using update_state_fires_iff [OF Cons.prems(1) up] by simp
    then show ?thesis using IH la True ts cd
      by (auto simp: in_cooldown_def split: option.splits)
  next
    case False
    then show ?thesis using IH la ts cd by (simp split: option.splits)
  qed
qed

lemma success_step:
  assumes "\<not> is_binding r" and "0 < wr_failure_streak r \<or> wr_status r = ''firing''"
    and "wr_recovery_streak r + 1 < wr_recovery_threshold r"
  shows "update_state_and_maybe_fire E r ''success'' now h =
           (False, r\<lparr>wr_last_probed_at := Some now, wr_last_outcome := Some ''success'',
                     wr_recovery_streak := wr_recovery_streak r + 1\<rparr>, h)"
  using assms by (simp add: update_state_and_maybe_fire_def is_binding_def Let_def)

lemma recovery_progress:
  assumes "\<not> is_binding r" and "0 < wr_failure_streak r \<or> wr_status r = ''firing''"
    and "wr_recovery_streak r + int (length ts) < wr_recovery_threshold r"
    and "rule_run E r h (map (Pair ''success'') ts) = (fs, r', h')"
  shows "fs = [] \<and> \<not> is_binding r' \<and> wr_status r' = wr_status r
       \<and> wr_failure_streak r' = wr_failure_streak r
       \<and> wr_recovery_streak r' = wr_recovery_streak r + int (length ts)
       \<and> wr_recovery_threshold r' = wr_recovery_threshold r \<and> h' = h"
  using assms
proof (induction ts arbitrary: r h fs)
  case Nil
  then show ?case by simp
next
  case (Cons t ts)
  let ?r = "r\<lparr>wr_last_probed_at := Some t, wr_last_outcome := Some ''success'',
              wr_recovery_streak := wr_recovery_streak r + 1\<rparr>"
  have "update_state_and_maybe_fire E r ''success'' t h = (False, ?r, h)"
    using Cons.prems(3) by (intro success_step [OF Cons.prems(1,2)]) simp
  then have "rule_run E ?r h (map (Pair ''success'') ts) = (fs, r', h')"
    using Cons.prems(4) by (simp split: prod.splits)
  with Cons.IH [of ?r] Cons.prems show ?case by (simp add: is_binding_def)
qed

section \<open>Binding rules\<close>

abbreviation active_marker :: string where
  "active_marker \<equiv> ''binding:active''"

abbreviation on_threshold :: "watchdog_rule \<Rightarrow> int" where
  "on_threshold r \<equiv> max 1 (wr_recovery_threshold r)"

lemma binding_success_cases:
  assumes "is_binding r" and "update_state_and_maybe_fire E r ''success'' now h = (b, r', h')"
  shows "is_binding r'" and "wr_recovery_threshold r' = wr_recovery_threshold r"
    and "wr_recovery_streak r' = wr_recovery_streak r + 1"
    and "0 \<le> wr_recovery_streak r \<Longrightarrow> b \<longleftrightarrow> on_threshold r \<le> wr_recovery_streak r + 1
           \<and> wr_last_outcome r \<noteq> Some active_marker"
    and "wr_last_outcome r' = Some active_marker \<longleftrightarrow> on_threshold r \<le> wr_recovery_streak r + 1"
    and "\<not> b \<Longrightarrow> h' = h"
  using assms
  by (auto simp: update_state_and_maybe_fire_def binding_tick_def is_binding_def Let_def
      split: if_splits prod.splits)

lemma binding_holds:
  assumes "is_binding r" and "wr_last_outcome r = Some active_marker"
    and "on_threshold r \<le> wr_recovery_streak r + 1" and "0 \<le> wr_recovery_streak r"
    and "rule_run E r h (map (Pair ''success'') ts) = (fs, r', h')"
  shows "fs = [] \<and> h' = h"
  using assms
proof (induction ts arbitrary: r h fs r' h')
  case Nil
  then show ?case by simp
next
  case (Cons t ts)
  obtain b r1 h1 where up: "update_state_and_maybe_fire E r ''success'' t h = (b, r1, h1)"
    by (metis prod_cases3)
  note c = binding_success_cases [OF Cons.prems(1) up]
  have nb: "\<not> b" and h1: "h1 = h" using c(4,6) Cons.prems by auto
  have run: "rule_run E r1 h (map (Pair ''success'') ts) = (fs, r', h')"
    using Cons.prems(5) nb by (simp add: up h1 split: prod.splits)
  show ?case
    by (rule Cons.IH [OF c(1) _ _ _ run]) (use c Cons.prems in auto)
qed

lemma binding_fires_at_threshold:
  assumes "is_binding r" and "wr_last_outcome r \<noteq> Some active_marker"
    and "0 \<le> wr_recovery_streak r" and "wr_recovery_streak r < on_threshold r"
    and "rule_run E r h (map (Pair ''success'') ts) = (fs, r', h')"
  shows "fs = take 1 (drop (nat (on_threshold r - wr_recovery_streak r - 1)) ts)"
  using assms
proof (induction ts arbitrary: r h fs r' h')
  case Nil
  then show ?case by simp
next
  case (Cons t ts)
  obtain b r1 h1 where up: "update_state_and_maybe_fire E r ''success'' t h = (b, r1, h1)"
    by (metis prod_cases3)
  note c = binding_success_cases [OF Cons.prems(1) up]
  obtain gs r2 h2 where run: "rule_run E r1 h1 (map (Pair ''success'') ts) = (gs, r2, h2)"
    by (metis prod_cases3)
  have fs: "fs = (if b then t # gs else gs)"
    using Cons.prems(5) by (simp add: up run split: if_splits)
  show ?case
  proof (cases "on_threshold r \<le> wr_recovery_streak r + 1")
    case True
    then have "b" and "gs = []"
      using c Cons.prems binding_holds [OF c(1) _ _ _ run] by auto
    then show ?thesis using True fs Cons.prems by simp
  next
    case False
    then have "\<not> b" using c(4) Cons.prems by simp
    moreover have "gs = take 1 (drop (nat (on_threshold r1 - wr_recovery_streak r1 - 1)) ts)"
      by (rule Cons.IH [OF c(1) _ _ _ run]) (use c False Cons.prems in auto)
    moreover have "nat (on_threshold r - wr_recovery_streak r - 1)
                     = Suc (nat (on_threshold r1 - wr_recovery_streak r1 - 1))"
      using c(2,3) False Cons.prems(3) by (simp add: Suc_nat_eq_nat_zadd1 max_def split: if_splits)
    ultimately show ?thesis using fs by simp
  qed
qed

lemma binding_error_step:
  assumes "is_binding r" and "outcome \<noteq> ''success''" and "outcome \<noteq> ''failure''"
  shows "update_state_and_maybe_fire E r outcome now h =
           (False, r\<lparr>wr_last_probed_at := Some now, wr_last_outcome := Some outcome\<rparr>, h)"
  using assms by (simp add: update_state_and_maybe_fire_def binding_tick_def is_binding_def Let_def)

section \<open>Tick statistics\<close>

definition stats_sum :: "tick_stats \<Rightarrow> nat" where
  "stats_sum st = st_probed st + st_errors st + st_in_window st"

lemma process_rule_stats:
  "st_considered (fst (process_rule E probe now r (st, h))) = Suc (st_considered st)"
  "stats_sum (fst (process_rule E probe now r (st, h)))
     = stats_sum st + (if rule_is_due r now then 1 else 0)"
  by (auto simp: process_rule_def stats_sum_def Let_def split: sum.splits prod.splits)

lemma fold_process_rule_stats:
  "st_considered (fst (fold (process_rule E probe now) rs (st, h))) = st_considered st + length rs
   \<and> stats_sum (fst (fold (process_rule E probe now) rs (st, h)))
       = stats_sum st + length (filter (\<lambda>r. rule_is_due r now) rs)"
proof (induction rs arbitrary: st h)
  case Nil
  show ?case by simp
next
  case (Cons r rs)
  obtain st1 h1 where p: "process_rule E probe now r (st, h) = (st1, h1)" by (metis prod.exhaust)
  have "st_considered st1 = Suc (st_considered st)"
    and "stats_sum st1 = stats_sum st + (if rule_is_due r now then 1 else 0)"
    using process_rule_stats [of E probe now r st h] by (simp_all add: p)
  then show ?case using Cons.IH [of st1 h1] by (simp add: p)
qed

lemma watchdog_tick_running:
  assumes "\<not> is_maintenance_mode_active h"
  obtains st where "fst (watchdog_tick E False probe now h) = TickStats st"
  using assms
  by (cases "fold (process_rule E probe now) (active_rules h) (zero_stats, h)")
    (simp add: watchdog_tick_def)

section \<open>Properties\<close>

definition demo_env :: env where
  "demo_env = \<lparr>env_ulid = demo_gen, env_now = 0, env_fromiso = (\<lambda>_. None),
               env_isoformat = (\<lambda>_. []), env_repr = (\<lambda>_. [])\<rparr>"

definition demo_rule :: "pydict \<Rightarrow> watchdog_rule" where
  "demo_rule action = \<lparr>wr_id = ''w1'', wr_organization_id = None, wr_site_id = None, wr_name = ''wan'',
     wr_description = None, wr_enabled = True, wr_status = ''armed'', wr_probe = [(''kind'', VStr ''internet'')],
     wr_failure_threshold = 2, wr_recovery_threshold = 2, wr_window_seconds = 60, wr_cooldown_seconds = 300,
     wr_target = [(''kind'', VStr ''group''), (''id'', VStr ''g'')], wr_action = action, wr_max_retries = 3,
     wr_retry_delay_seconds = 60, wr_escalation = [(''kind'', VStr ''stop'')], wr_maintenance_windows = [],
     wr_created_by_user_id = None, wr_created_at = 0, wr_updated_at = 0, wr_failure_streak = 0,
     wr_recovery_streak = 0, wr_last_probed_at = None, wr_last_action_at = None, wr_last_outcome = None\<rparr>"

lemma watchdog_tick_kept: "lockout_kept h (snd (watchdog_tick E disabled probe now h))"
  using fold_process_rule_kept [of "(zero_stats, h)" E probe now "active_rules h"]
  by (auto simp: watchdog_tick_def Let_def lockout_kept_refl split: prod.splits)

text \<open>A watchdog tick honours the operator's lockout: whatever the rules, the probe outcomes and
  the scenes, every command the tick adds to the queue is either not a power command or is addressed
  to an existing device that is not protected, and no device's protection flag changes.\<close>

theorem watchdog_tick_honours_lockout:
  "protection (snd (watchdog_tick E disabled probe now h)) = protection h \<and>
   (\<exists>cs. h_commands (snd (watchdog_tick E disabled probe now h)) = h_commands h @ cs
       \<and> list_all (\<lambda>c. c_type c \<in> set POWER_TYPES
                        \<longrightarrow> (\<exists>d. get_device (c_device_id c) h = Some d \<and> \<not> dev_is_protected d)) cs)"
  using watchdog_tick_kept [of h E disabled probe now]
  by (auto simp: lockout_kept_def unprotected_power_def list_all_iff split: option.splits)

lemma watchdog_tick_demo:
  "map c_device_id (h_commands (snd (watchdog_tick demo_env False (\<lambda>h r. Inr (''failure'', [])) 0
       (demo_hub\<lparr>h_rules := [(demo_rule [(''kind'', VStr ''cycle'')])\<lparr>wr_failure_threshold := 1\<rparr>]\<rparr>))))
     = [''d1'']"
  by code_simp

theorem watchdog_tick_honours_lockout_witness:
  "let h = demo_hub\<lparr>h_rules := [(demo_rule [(''kind'', VStr ''cycle'')])\<lparr>wr_failure_threshold := 1\<rparr>]\<rparr>;
       h' = snd (watchdog_tick demo_env False (\<lambda>h r. Inr (''failure'', [])) 0 h)
   in protection h ''d2'' = Some True \<and> protection h' ''d2'' = Some True
      \<and> map c_device_id (h_commands h') = [''d1'']"
  using watchdog_tick_honours_lockout [of demo_env False "\<lambda>h r. Inr (''failure'', [])" 0
      "demo_hub\<lparr>h_rules := [(demo_rule [(''kind'', VStr ''cycle'')])\<lparr>wr_failure_threshold := 1\<rparr>]\<rparr>"]
    watchdog_tick_demo
  by (simp add: Let_def) (simp add: protection_def get_device_def demo_defs)

text \<open>An edge-triggered rule fires exactly when the probe failed, the failure streak including
  this probe has reached the threshold, and the cooldown since its last action has passed.\<close>

theorem edge_rule_fires_iff:
  assumes "\<not> is_binding r"
  shows "fst (update_state_and_maybe_fire E r outcome now h) \<longleftrightarrow>
           outcome = ''failure'' \<and> wr_failure_threshold r \<le> wr_failure_streak r + 1
           \<and> (\<forall>t. wr_last_action_at r = Some t \<longrightarrow> secs (wr_cooldown_seconds r) \<le> now - t)"
proof -
  obtain b r' h' where up: "update_state_and_maybe_fire E r outcome now h = (b, r', h')"
    by (metis prod_cases3)
  show ?thesis
    using update_state_fires_iff [OF assms up] up by (auto simp: in_cooldown_def split: option.splits)
qed

lemma demo_rule_edge: "\<not> is_binding ((demo_rule [(''kind'', VStr ''cycle'')])\<lparr>wr_failure_streak := n\<rparr>)"
  by (simp add: is_binding_def demo_rule_def dget_def)

theorem edge_rule_fires_iff_witness:
  "fst (update_state_and_maybe_fire demo_env
          ((demo_rule [(''kind'', VStr ''cycle'')])\<lparr>wr_failure_streak := 1\<rparr>) ''failure'' 7 demo_hub)
   \<and> \<not> fst (update_state_and_maybe_fire demo_env
          ((demo_rule [(''kind'', VStr ''cycle'')])\<lparr>wr_failure_streak := 0\<rparr>) ''failure'' 7 demo_hub)"
  using edge_rule_fires_iff [OF demo_rule_edge, of demo_env _ "''failure''" 7 demo_hub]
  by (simp add: demo_rule_def)

text \<open>C4: Over any sequence of probe outcomes, consecutive fires of an edge-triggered rule are at
  least its cooldown apart.\<close>

theorem edge_rule_fires_spaced:
  assumes "\<not> is_binding r" and "wr_last_action_at r = None"
  shows "successively (\<lambda>t u. secs (wr_cooldown_seconds r) \<le> u - t) (fst (rule_run E r h xs))"
proof -
  obtain ts r' h' where run: "rule_run E r h xs = (ts, r', h')" by (metis prod_cases3)
  show ?thesis using rule_run_spaced [OF assms(1) run] assms(2) by (simp add: run)
qed

theorem edge_rule_fires_spaced_witness:
  "successively (\<lambda>t u. secs 300 \<le> u - t)
     (fst (rule_run demo_env (demo_rule [(''kind'', VStr ''notify_only'')]) demo_hub
        [(''failure'', 0), (''failure'', secs 60), (''failure'', secs 120), (''failure'', secs 400)]))"
proof -
  have nb: "\<not> is_binding (demo_rule [(''kind'', VStr ''notify_only'')])"
    by (simp add: is_binding_def demo_rule_def dget_def)
  show ?thesis
    using edge_rule_fires_spaced [OF nb, of demo_env demo_hub
        "[(''failure'', 0), (''failure'', secs 60), (''failure'', secs 120), (''failure'', secs 400)]"]
    by (simp add: demo_rule_def)
qed

text \<open>Recovery is exact: from a failing state, fewer consecutive successes than the recovery
  threshold leave status and failure streak alone, and the success that reaches the threshold arms
  the rule, clears both streaks and records one recovery event.\<close>

theorem edge_rule_recovery:
  assumes "\<not> is_binding r" and "0 < wr_failure_streak r \<or> wr_status r = ''firing''"
    and "wr_recovery_streak r = 0" and "int (length ts) + 1 = wr_recovery_threshold r"
    and "rule_run E r h (map (Pair ''success'') ts) = (fs, r1, h1)"
    and "update_state_and_maybe_fire E r1 ''success'' t h1 = (b, r2, h2)"
  shows "fs = [] \<and> wr_status r1 = wr_status r \<and> wr_failure_streak r1 = wr_failure_streak r \<and> h1 = h
       \<and> \<not> b \<and> wr_status r2 = ''armed'' \<and> wr_failure_streak r2 = 0 \<and> wr_recovery_streak r2 = 0
       \<and> map pe_outcome (h_probe_events h2) = map pe_outcome (h_probe_events h) @ [''recovery'']"
proof -
  have p: "fs = [] \<and> \<not> is_binding r1 \<and> wr_status r1 = wr_status r
       \<and> wr_failure_streak r1 = wr_failure_streak r
       \<and> wr_recovery_streak r1 = wr_recovery_streak r + int (length ts)
       \<and> wr_recovery_threshold r1 = wr_recovery_threshold r \<and> h1 = h"
    using assms(3,4) by (intro recovery_progress [OF assms(1,2) _ assms(5)]) simp
  then show ?thesis
    using assms(2-4,6)
    by (auto simp: update_state_and_maybe_fire_def is_binding_def Let_def record_event_def)
qed

theorem edge_rule_recovery_witness:
  "\<exists>r2 h2. rule_run demo_env ((demo_rule [(''kind'', VStr ''cycle'')])\<lparr>wr_failure_streak := 5\<rparr>) demo_hub
             [(''success'', 1), (''success'', 2)] = ([], r2, h2)
     \<and> wr_status r2 = ''armed'' \<and> wr_failure_streak r2 = 0"
proof -
  let ?r = "(demo_rule [(''kind'', VStr ''cycle'')])\<lparr>wr_failure_streak := 5\<rparr>"
  obtain fs r1 h1 where run: "rule_run demo_env ?r demo_hub (map (Pair ''success'') [1]) = (fs, r1, h1)"
    by (metis prod_cases3)
  obtain b r2 h2 where up: "update_state_and_maybe_fire demo_env r1 ''success'' 2 h1 = (b, r2, h2)"
    by (metis prod_cases3)
  have "fs = [] \<and> \<not> b \<and> wr_status r2 = ''armed'' \<and> wr_failure_streak r2 = 0"
    using edge_rule_recovery [OF demo_rule_edge _ _ _ run up] by (simp add: demo_rule_def)
  moreover obtain b0 s0 g0 where
    "update_state_and_maybe_fire demo_env ?r ''success'' 1 demo_hub = (b0, s0, g0)"
    by (metis prod_cases3)
  ultimately show ?thesis using run up by (auto split: if_splits)
qed

text \<open>The counters of an edge-triggered rule stay consistent under every outcome at every time:
  both streaks are non-negative, the recovery streak stays below the threshold and only counts while
  the rule is failing or firing, and a firing rule has a recorded action time.\<close>

theorem edge_rule_invariant:
  assumes "\<not> is_binding r" and "edge_ok r"
  shows "edge_ok (fst (snd (rule_run E r h xs)))"
  using assms
proof (induction xs arbitrary: r h)
  case Nil
  then show ?case by simp
next
  case (Cons x xs)
  obtain outcome now where x: "x = (outcome, now)" by (metis prod.exhaust)
  obtain b r1 h1 where up: "update_state_and_maybe_fire E r outcome now h = (b, r1, h1)"
    by (metis prod_cases3)
  have "edge_ok r1" and "\<not> is_binding r1"
    using edge_ok_step [OF Cons.prems up] update_state_config(2) [OF up] Cons.prems(1)
    by (simp_all add: is_binding_def)
  then have "edge_ok (fst (snd (rule_run E r1 h1 xs)))" by (rule Cons.IH [rotated])
  then show ?case by (auto simp: x up split: prod.splits)
qed

theorem edge_rule_invariant_witness:
  "edge_ok (fst (snd (rule_run demo_env ((demo_rule [(''kind'', VStr ''cycle'')])\<lparr>wr_failure_streak := 0\<rparr>)
      demo_hub [(''failure'', 1), (''failure'', 2), (''success'', 3), (''probe_error'', 4)])))"
  by (rule edge_rule_invariant [OF demo_rule_edge]) (simp add: edge_ok_def demo_rule_def)

text \<open>A binding rule is level-triggered: over any run of successes it applies its active edge
  exactly once, at the probe that completes the threshold, and never again while the probe keeps
  succeeding.\<close>

theorem binding_applies_edge_once:
  assumes "is_binding r" and "wr_last_outcome r \<noteq> Some ''binding:active''" and "wr_recovery_streak r = 0"
  shows "fst (rule_run E r h (map (Pair ''success'') ts))
           = take 1 (drop (nat (max 1 (wr_recovery_threshold r)) - 1) ts)"
proof -
  obtain fs r' h' where run: "rule_run E r h (map (Pair ''success'') ts) = (fs, r', h')"
    by (metis prod_cases3)
  have "fs = take 1 (drop (nat (on_threshold r - wr_recovery_streak r - 1)) ts)"
    by (rule binding_fires_at_threshold [OF assms(1,2) _ _ run]) (simp_all add: assms(3))
  then show ?thesis using run assms(3) by (simp add: nat_diff_distrib)
qed

definition demo_binding :: watchdog_rule where
  "demo_binding = demo_rule [(''kind'', VStr ''binding''),
     (''on_active'', VDict [(''kind'', VStr ''relay_on'')]),
     (''on_clear'', VDict [(''kind'', VStr ''relay_off'')])]"

lemma demo_binding_binding: "is_binding demo_binding"
  by (simp add: is_binding_def demo_binding_def demo_rule_def dget_def)

theorem binding_applies_edge_once_witness:
  "fst (rule_run demo_env demo_binding demo_hub (map (Pair ''success'') [10, 20, 30, 40])) = [20]"
  using binding_applies_edge_once [OF demo_binding_binding, of demo_env demo_hub "[10, 20, 30, 40]"]
  by (simp add: demo_binding_def demo_rule_def)

text \<open>The applied-edge marker of a binding does not survive a probe error: a rule that has
  already applied its active edge applies it again on the first success after one transient error,
  although its target never left that state.\<close>

theorem binding_reapplies_after_probe_error:
  assumes "is_binding r" and "wr_last_outcome r = Some ''binding:active''"
    and "max 1 (wr_recovery_threshold r) \<le> wr_recovery_streak r"
  shows "fst (rule_run E r h [(''success'', t1)]) = []
       \<and> fst (rule_run E r h [(''probe_error'', t1), (''success'', t2)]) = [t2]"
proof
  obtain b r1 h1 where up: "update_state_and_maybe_fire E r ''success'' t1 h = (b, r1, h1)"
    by (metis prod_cases3)
  show "fst (rule_run E r h [(''success'', t1)]) = []"
    using binding_success_cases(4) [OF assms(1) up] assms(2,3) by (simp add: up)
next
  let ?r = "r\<lparr>wr_last_probed_at := Some t1, wr_last_outcome := Some ''probe_error''\<rparr>"
  have e: "update_state_and_maybe_fire E r ''probe_error'' t1 h = (False, ?r, h)"
    by (rule binding_error_step [OF assms(1)]) simp_all
  obtain b r2 h2 where up: "update_state_and_maybe_fire E ?r ''success'' t2 h = (b, r2, h2)"
    by (metis prod_cases3)
  have "is_binding ?r" using assms(1) by (simp add: is_binding_def)
  then have "b" using binding_success_cases(4) [OF _ up] assms(3) by simp
  then show "fst (rule_run E r h [(''probe_error'', t1), (''success'', t2)]) = [t2]"
    by (simp add: e up)
qed

theorem binding_reapplies_after_probe_error_witness:
  "fst (rule_run demo_env (demo_binding\<lparr>wr_last_outcome := Some ''binding:active'', wr_recovery_streak := 2\<rparr>)
          demo_hub [(''probe_error'', 5), (''success'', 6)]) = [6]"
proof -
  have "is_binding (demo_binding\<lparr>wr_last_outcome := Some ''binding:active'', wr_recovery_streak := 2\<rparr>)"
    using demo_binding_binding by (simp add: is_binding_def)
  from binding_reapplies_after_probe_error [OF this, of demo_env demo_hub 5 6] show ?thesis
    by (simp add: demo_binding_def demo_rule_def)
qed

text \<open>A tick accounts for every active rule: each is considered once, and each rule that is due is
  probed, recorded as a probe error or skipped for its maintenance window, exactly one of the three;
  in portal-wide maintenance mode nothing at all happens.\<close>

theorem watchdog_tick_accounts:
  "(is_maintenance_mode_active h \<longrightarrow> snd (watchdog_tick E disabled probe now h) = h) \<and>
   (\<forall>st. fst (watchdog_tick E disabled probe now h) = TickStats st \<longrightarrow>
      st_considered st = length (active_rules h) \<and>
      st_probed st + st_errors st + st_in_window st
        = length (filter (\<lambda>r. rule_is_due r now) (active_rules h)))"
  using fold_process_rule_stats [of E probe now "active_rules h" zero_stats h]
  by (auto simp: watchdog_tick_def Let_def stats_sum_def zero_stats_def split: prod.splits if_splits)

theorem watchdog_tick_accounts_witness:
  "\<exists>st. fst (watchdog_tick demo_env False (\<lambda>h r. Inl ''boom'') 0
               (demo_hub\<lparr>h_rules := [demo_binding, demo_binding\<lparr>wr_id := ''w2'', wr_enabled := False\<rparr>]\<rparr>))
          = TickStats st
      \<and> st_considered st = 1 \<and> st_probed st + st_errors st + st_in_window st = 1"
proof -
  let ?h = "demo_hub\<lparr>h_rules := [demo_binding, demo_binding\<lparr>wr_id := ''w2'', wr_enabled := False\<rparr>]\<rparr>"
  have "\<not> is_maintenance_mode_active ?h"
    by (simp add: is_maintenance_mode_active_def get_flag_def demo_defs flag_off_def dget_def)
  then obtain st where st: "fst (watchdog_tick demo_env False (\<lambda>h r. Inl ''boom'') 0 ?h) = TickStats st"
    by (rule watchdog_tick_running)
  have "active_rules ?h = [demo_binding]" and "rule_is_due demo_binding 0"
    by (simp_all add: active_rules_def rule_is_due_def demo_binding_def demo_rule_def)
  then show ?thesis using watchdog_tick_accounts [of ?h demo_env False] st by auto
qed

end
