(* ===== verification/RuleChecks.thy ===== *)
theory RuleChecks
  imports WatchdogState AuditLog PyText "HOL-Library.Log_Nat"
begin

text \<open>
  What a watchdog rule and a scene may look like (\<open>app/services/watchdog/_validate.py\<close> and the item check of
  \<open>app/services/scenes.py\<close>): one check per kind of probe and action, and the normal form of scene items.
  An error carries the field its message is about. A check that raises something else than a
  validation error (a method call on a value of another type, an integer too large for a float) is
  \<open>PyError\<close>.
\<close>

datatype rule_error =
    WatchdogValidationError string
  | PyError
  | RuleRefused tenant_error
  | RuleIntegrityError

text \<open>Checks in the order of the code; the first that fails is raised.\<close>

fun first_error :: "'e option list \<Rightarrow> 'e option" where
  "first_error [] = None"
| "first_error (None # cs) = first_error cs"
| "first_error (Some e # cs) = Some e"

lemma first_error_None [simp]: "first_error cs = None \<longleftrightarrow> list_all (\<lambda>c. c = None) cs"
  by (induction cs rule: first_error.induct) auto

definition unless_ok :: "bool \<Rightarrow> string \<Rightarrow> rule_error option" where
  "unless_ok ok field = (if ok then None else Some (WatchdogValidationError field))"

lemma unless_ok_None [simp]: "unless_ok ok f = None \<longleftrightarrow> ok"
  by (simp add: unless_ok_def)

section \<open>The float constructor\<close>

text \<open>\<open>float(v)\<close>: an exact rational rounded to the nearest double (ties to the even significand), an
  infinity or a NaN.\<close>

datatype pyfloat = Finite rat | Infinite | NotANumber

datatype float_result = FloatOk pyfloat | FloatInvalid | FloatOverflow

definition binary_exponent :: "rat \<Rightarrow> int" where
  "binary_exponent r =
     (let (n, d) = quotient_of r; k = int (floorlog 2 (nat n)) - int (floorlog 2 (nat d))
      in if 2 powi k \<le> r then k else k - 1)"

definition nearest_double :: "rat \<Rightarrow> rat" where
  "nearest_double r =
     (if r = 0 then 0
      else let unit = 2 powi (max (binary_exponent \<bar>r\<bar> - 52) (-1074)); q = \<bar>r\<bar> / unit; n = \<lfloor>q\<rfloor>; rest = q - of_int n;
               m = (if rest < 1 / 2 \<or> rest = 1 / 2 \<and> even n then n else n + 1)
           in (if r < 0 then - 1 else 1) * of_int m * unit)"

definition rounded :: "rat \<Rightarrow> pyfloat" where
  "rounded r = (let d = nearest_double r in if 2 ^ 1024 \<le> \<bar>d\<bar> then Infinite else Finite d)"

text \<open>A string: an optional sign, then digits with at most one point and an optional exponent, or one of the
  words for infinity and NaN. The digit groups allow single underscores.\<close>

definition group_value :: "string \<Rightarrow> (int \<times> nat) option" where
  "group_value s = (case s of [] \<Rightarrow> Some (0, 0)
     | _ \<Rightarrow> map_option (\<lambda>v. (v, length (filter (\<lambda>c. c \<noteq> CHR ''_'') s))) (int_digits False 0 s))"

definition signed_digits :: "string \<Rightarrow> int option" where
  "signed_digits s = (case s of
     c # cs \<Rightarrow> (if c = CHR ''-'' then map_option uminus (int_digits False 0 cs)
               else if c = CHR ''+'' then int_digits False 0 cs else int_digits False 0 s)
   | [] \<Rightarrow> None)"

definition mantissa :: "string \<Rightarrow> rat option" where
  "mantissa s =
     (let (w, _, f) = py_partition (CHR ''.'') s in
      if w = [] \<and> f = [] then None
      else case (group_value w, group_value f) of
        (Some (a, _), Some (b, k)) \<Rightarrow> Some (of_int a + of_int b / 10 ^ k)
      | _ \<Rightarrow> None)"

definition unsigned_float :: "string \<Rightarrow> pyfloat option" where
  "unsigned_float s =
     (if s = ''inf'' \<or> s = ''infinity'' then Some Infinite
      else if s = ''nan'' then Some NotANumber
      else let (m, has_exponent, e) = py_partition (CHR ''e'') s in
        case mantissa m of
          None \<Rightarrow> None
        | Some x \<Rightarrow> (if \<not> has_exponent then Some (rounded x)
                    else map_option (\<lambda>k. rounded (x * 10 powi k)) (signed_digits e)))"

fun negated :: "pyfloat \<Rightarrow> pyfloat" where
  "negated (Finite r) = Finite (- r)"
| "negated f = f"

definition float_of_string :: "string \<Rightarrow> pyfloat option" where
  "float_of_string s =
     (case py_lower (py_strip s) of
        [] \<Rightarrow> None
      | c # cs \<Rightarrow> (if c = CHR ''-'' then map_option negated (unsigned_float cs)
                  else if c = CHR ''+'' then unsigned_float cs else unsigned_float (c # cs)))"

fun py_float :: "pyval \<Rightarrow> float_result" where
  "py_float (VBool b) = FloatOk (Finite (if b then 1 else 0))"
| "py_float (VInt i) = (case rounded (of_int i) of Infinite \<Rightarrow> FloatOverflow | f \<Rightarrow> FloatOk f)"
| "py_float (VFloat r) = FloatOk (Finite r)"
| "py_float (VStr s) = (case float_of_string s of None \<Rightarrow> FloatInvalid | Some f \<Rightarrow> FloatOk f)"
| "py_float _ = FloatInvalid"

text \<open>\<open>v < low or v > high\<close>: no comparison with a NaN holds.\<close>

fun out_of_range :: "rat \<Rightarrow> rat \<Rightarrow> pyfloat \<Rightarrow> bool" where
  "out_of_range low high (Finite v) \<longleftrightarrow> v < low \<or> high < v"
| "out_of_range low high Infinite \<longleftrightarrow> True"
| "out_of_range low high NotANumber \<longleftrightarrow> False"

section \<open>Probes\<close>

definition KNOWN_PROBE_KINDS :: "string list" where
  "KNOWN_PROBE_KINDS = [''internet'', ''ping'', ''tcp'', ''http'', ''dns'', ''gateway'', ''host_awake'', ''roku_app_active'',
     ''ha_state_is'', ''ha_numeric_above'', ''ha_numeric_below'', ''weather_alert_active'', ''ical_event_active'',
     ''power_above'', ''power_below'', ''power_zero_while_on'', ''solar_production_above'', ''solar_production_below'',
     ''snmp_interface_down'', ''snmp_throughput_above'', ''snmp_throughput_below'', ''snmp_error_rate_above'',
     ''media_session_active'', ''webhook_field_equals'', ''mqtt_topic_equals'', ''epg_show_airing'',
     ''device_heartbeat_stale'']"

definition WEATHER_SEVERITIES :: "string list" where
  "WEATHER_SEVERITIES = [''Minor'', ''Moderate'', ''Severe'', ''Extreme'']"

definition kind_in :: "pydict \<Rightarrow> string list \<Rightarrow> bool" where
  "kind_in d kinds \<longleftrightarrow> (case dget d ''kind'' of VStr k \<Rightarrow> k \<in> set kinds | _ \<Rightarrow> False)"

definition require :: "pydict \<Rightarrow> string \<Rightarrow> rule_error option" where
  "require p field =
     unless_ok (case dget p field of VNone \<Rightarrow> False | VStr s \<Rightarrow> py_strip s \<noteq> [] | _ \<Rightarrow> True) field"

definition require_numeric :: "pydict \<Rightarrow> string \<Rightarrow> rat \<Rightarrow> rat \<Rightarrow> rule_error option" where
  "require_numeric p field low high =
     (if dget p field = VNone then unless_ok False field
      else case py_float (dget p field) of
        FloatOverflow \<Rightarrow> Some PyError
      | FloatInvalid \<Rightarrow> unless_ok False field
      | FloatOk v \<Rightarrow> unless_ok (\<not> out_of_range low high v) field)"

definition require_int :: "pydict \<Rightarrow> string \<Rightarrow> int \<Rightarrow> int \<Rightarrow> rule_error option" where
  "require_int p field low high =
     unless_ok (dget p field \<noteq> VNone
       \<and> (case py_int (dget p field) of None \<Rightarrow> False | Some v \<Rightarrow> low \<le> v \<and> v \<le> high)) field"

text \<open>No bound excludes a NaN.\<close>

lemma nan_accepted: "require_numeric [(''threshold_w'', VStr ''nan'')] ''threshold_w'' 0 10000 = None"
  by code_simp

text \<open>A field that is only checked when the probe has it.\<close>

definition if_present :: "pydict \<Rightarrow> string \<Rightarrow> rule_error option \<Rightarrow> rule_error option" where
  "if_present p field check = (if dhas p field then check else None)"

text \<open>\<open>(v or "").strip()\<close>: \<open>None\<close> when a value of another type has no such method.\<close>

definition strip_or_raise :: "pyval \<Rightarrow> string option" where
  "strip_or_raise v = (if \<not> truthy v then Some [] else case v of VStr s \<Rightarrow> Some (py_strip s) | _ \<Rightarrow> None)"

definition check_probe_target :: "env \<Rightarrow> pyval \<Rightarrow> rule_error option" where
  "check_probe_target E t =
     (case t of
        VDict d \<Rightarrow> first_error [
          unless_ok (str_or_empty E (dget d ''host'') \<noteq> []) ''host'',
          unless_ok (case py_int (if truthy (dget d ''port'') then dget d ''port'' else VInt 0) of
                       None \<Rightarrow> False | Some v \<Rightarrow> 1 \<le> v \<and> v \<le> 65535) ''port'']
      | _ \<Rightarrow> unless_ok False ''targets'')"

definition check_probe_targets :: "env \<Rightarrow> pydict \<Rightarrow> rule_error option" where
  "check_probe_targets E p =
     (case dget p ''targets'' of
        VNone \<Rightarrow> None
      | VList ts \<Rightarrow> (if 10 < length ts then unless_ok False ''targets'' else first_error (map (check_probe_target E) ts))
      | _ \<Rightarrow> unless_ok False ''targets'')"

definition check_url :: "pydict \<Rightarrow> rule_error option" where
  "check_url p =
     (case strip_or_raise (dget p ''url'') of
        None \<Rightarrow> Some PyError
      | Some url \<Rightarrow> unless_ok (url \<noteq> [] \<and> (starts_with url ''http://'' \<or> starts_with url ''https://'')) ''url'')"

definition check_severity :: "pydict \<Rightarrow> rule_error option" where
  "check_severity p =
     (case strip_or_raise (dget p ''min_severity'') of
        None \<Rightarrow> Some PyError
      | Some sev \<Rightarrow> unless_ok (sev = [] \<or> sev \<in> set WEATHER_SEVERITIES) ''min_severity'')"

definition probe_checks :: "env \<Rightarrow> pydict \<Rightarrow> rule_error option list" where
  "probe_checks E p =
     (if kind_in p [''internet''] then [check_probe_targets E p]
      else if kind_in p [''ping''] then [require p ''host'']
      else if kind_in p [''tcp''] then [require p ''host'', require_int p ''port'' 1 65535]
      else if kind_in p [''http''] then [check_url p]
      else if kind_in p [''dns''] then [require p ''hostname'']
      else if kind_in p [''gateway''] then []
      else if kind_in p [''roku_app_active''] then [require p ''source_id'', require p ''app_name'']
      else if kind_in p [''ha_state_is''] then [require p ''source_id'', require p ''entity_id'', require p ''expected_state'']
      else if kind_in p [''weather_alert_active''] then [require p ''source_id'', check_severity p]
      else if kind_in p [''ical_event_active''] then [require p ''source_id'']
      else if kind_in p [''power_above'', ''power_below''] then
        [require p ''device_id'', require_numeric p ''threshold_w'' 0 10000,
         if_present p ''window_seconds'' (require_int p ''window_seconds'' 30 86400)]
      else if kind_in p [''power_zero_while_on''] then
        [require p ''device_id'', if_present p ''near_zero_threshold_w'' (require_numeric p ''near_zero_threshold_w'' 0 100),
         if_present p ''window_seconds'' (require_int p ''window_seconds'' 30 86400)]
      else if kind_in p [''device_heartbeat_stale''] then
        [require p ''device_id'', if_present p ''max_age_seconds'' (require_int p ''max_age_seconds'' 30 86400)]
      else if kind_in p [''ha_numeric_above'', ''ha_numeric_below''] then
        [require p ''source_id'', require p ''entity_id'', require_numeric p ''threshold'' (-1000000) 1000000]
      else if kind_in p [''solar_production_above'', ''solar_production_below''] then
        [require p ''source_id'', require_numeric p ''threshold_w'' 0 1000000]
      else if kind_in p [''snmp_interface_down''] then [require p ''source_id'', require p ''interface'']
      else if kind_in p [''snmp_throughput_above'', ''snmp_throughput_below''] then
        [require p ''source_id'', require p ''interface'', require_numeric p ''threshold_bps'' 0 1000000000000]
      else if kind_in p [''snmp_error_rate_above''] then
        [require p ''source_id'', require p ''interface'', require_numeric p ''threshold_errors_per_min'' 0 1000000000]
      else if kind_in p [''media_session_active''] then [require p ''source_id'']
      else if kind_in p [''webhook_field_equals''] then [require p ''source_id'', require p ''field'']
      else if kind_in p [''mqtt_topic_equals''] then [require p ''source_id'', require p ''topic'']
      else if kind_in p [''epg_show_airing''] then [require p ''show'']
      else if kind_in p [''host_awake''] then [require p ''host'', if_present p ''port'' (require_int p ''port'' 1 65535)]
      else [unless_ok False ''kind''])"

definition validate_probe :: "env \<Rightarrow> pyval \<Rightarrow> rule_error option" where
  "validate_probe E probe = (case probe of VDict p \<Rightarrow> first_error (probe_checks E p) | _ \<Rightarrow> unless_ok False ''probe'')"

section \<open>Actions\<close>

definition LEAF_ACTION_KINDS :: "string list" where
  "LEAF_ACTION_KINDS = [''cycle'', ''hold_off'', ''notify_only'', ''relay_on'', ''relay_off'', ''apply_scene'']"

definition RELAY_STATES :: "string list" where
  "RELAY_STATES = [''on'', ''off'', ''cycle'']"

definition relay_ok :: "pyval \<Rightarrow> bool" where
  "relay_ok v \<longleftrightarrow> (case v of VNone \<Rightarrow> True | VStr s \<Rightarrow> s \<in> set RELAY_STATES | _ \<Rightarrow> False)"

definition config_ok :: "pyval \<Rightarrow> bool" where
  "config_ok v \<longleftrightarrow> v = VNone \<or> is_dict v"

text \<open>The field of the first check a scene item fails.\<close>

definition item_problem :: "env \<Rightarrow> pyval \<Rightarrow> string option" where
  "item_problem E item =
     (case item of
        VDict d \<Rightarrow>
          (if str_or_empty E (dget d ''device_id'') = [] then Some ''device_id''
           else if \<not> relay_ok (dget d ''relay'') then Some ''relay''
           else if \<not> config_ok (dget d ''config'') then Some ''config''
           else if dget d ''relay'' = VNone \<and> \<not> truthy (dget d ''config'') then Some ''relay or config''
           else None)
      | _ \<Rightarrow> Some ''item'')"

definition validate_leaf :: "env \<Rightarrow> pydict \<Rightarrow> rule_error option" where
  "validate_leaf E a =
     (if \<not> kind_in a LEAF_ACTION_KINDS then unless_ok False ''kind''
      else if \<not> kind_in a [''apply_scene''] then None
      else if dget a ''scene_id'' \<noteq> VNone then
        unless_ok (case dget a ''scene_id'' of VStr s \<Rightarrow> py_strip s \<noteq> [] | _ \<Rightarrow> False) ''scene_id''
      else case dget a ''items'' of
        VList items \<Rightarrow>
          (if items = [] \<or> 50 < length items then unless_ok False ''items''
           else first_error (map (\<lambda>i. map_option WatchdogValidationError (item_problem E i)) items))
      | _ \<Rightarrow> unless_ok False ''items'')"

definition check_sub_action :: "env \<Rightarrow> pyval \<Rightarrow> string \<Rightarrow> rule_error option" where
  "check_sub_action E v field =
     (case v of
        VDict d \<Rightarrow> (if kind_in d [''binding''] then unless_ok False field else validate_leaf E d)
      | _ \<Rightarrow> unless_ok False field)"

definition validate_action :: "env \<Rightarrow> pyval \<Rightarrow> rule_error option" where
  "validate_action E action =
     (case action of
        VDict a \<Rightarrow>
          (if kind_in a [''binding'']
           then first_error [check_sub_action E (dget a ''on_active'') ''on_active'', check_sub_action E (dget a ''on_clear'') ''on_clear'']
           else validate_leaf E a)
      | _ \<Rightarrow> unless_ok False ''action'')"

section \<open>Scene items\<close>

text \<open>An accepted item keeps its trimmed device, its relay state and a configuration that is not empty.\<close>

definition clean_item :: "env \<Rightarrow> pydict \<Rightarrow> pydict" where
  "clean_item E d = [(''device_id'', VStr (str_or_empty E (dget d ''device_id'')))]
     @ (if dget d ''relay'' \<noteq> VNone then [(''relay'', dget d ''relay'')] else [])
     @ (if truthy (dget d ''config'') then [(''config'', dget d ''config'')] else [])"

datatype scene_error =
    SceneInvalid string
  | SceneNameConflict string
  | SceneRefused tenant_error

definition MAX_ITEMS :: nat where "MAX_ITEMS = 50"

definition validate_scene_items :: "env \<Rightarrow> pyval \<Rightarrow> scene_error + pyval list" where
  "validate_scene_items E items =
     (case items of
        VList xs \<Rightarrow>
          (if xs = [] \<or> MAX_ITEMS < length xs then Inl (SceneInvalid ''items'')
           else case first_error (map (item_problem E) xs) of
             Some f \<Rightarrow> Inl (SceneInvalid f)
           | None \<Rightarrow> Inr (map (VDict \<circ> clean_item E \<circ> dict_of) xs))
      | _ \<Rightarrow> Inl (SceneInvalid ''items''))"

end
