(* ===== verification/Scenes.thy ===== *)
theory Scenes
  imports RuleChecks
begin

text \<open>
  The scenes of an organization (\<open>app/services/scenes.py\<close>): creating, changing, deleting and listing named lists
  of device states. Names are unique per organization. The item check of \<open>RuleChecks\<close> decides what is
  stored; the watchdog reads it back through \<open>scene_items\<close>.
\<close>

section \<open>Operations\<close>

definition scene_name :: "string option \<Rightarrow> scene_error + string" where
  "scene_name name =
     (let n = py_strip (case name of None \<Rightarrow> [] | Some x \<Rightarrow> x) in
      if n = [] then Inl (SceneInvalid ''name is required'')
      else if 120 < length n then Inl (SceneInvalid ''name must be 120 characters or fewer'')
      else Inr n)"

definition scene_description :: "string option \<Rightarrow> string option" where
  "scene_description d = (let t = py_strip (case d of None \<Rightarrow> [] | Some x \<Rightarrow> x) in if t = [] then None else Some t)"

definition serialize_scene :: "scene \<Rightarrow> pydict" where
  "serialize_scene s = [(''id'', VStr (scn_id s)), (''name'', VStr (scn_name s)), (''description'', of_opt_str (scn_description s)),
     (''items'', VList (scn_items s)), (''device_count'', VInt (int (length (scn_items s)))),
     (''created_at'', VStr (iso_z (scn_created_at s))), (''updated_at'', VStr (iso_z (scn_updated_at s)))]"

definition select_scenes :: "env \<Rightarrow> ctx \<times> hub \<Rightarrow> scene list \<times> ctx \<times> hub" where
  "select_scenes E s = select_scoped E ''scenes'' scn_organization_id h_scenes s"

definition list_scenes :: "env \<Rightarrow> ctx \<times> hub \<Rightarrow> pydict list \<times> ctx \<times> hub" where
  "list_scenes E s = (let (rows, s1) = select_scenes E s in (map serialize_scene (sort_key scn_name rows), s1))"

definition get_scene_view :: "env \<Rightarrow> string \<Rightarrow> ctx \<times> hub \<Rightarrow> pydict option \<times> ctx \<times> hub" where
  "get_scene_view E i s = (let (rows, s1) = select_scenes E s in (map_option serialize_scene (tget scn_id i rows), s1))"

text \<open>The constraints of the table: an organization that exists, and no other scene of it with the name or the id.\<close>

definition scene_fits :: "scene \<Rightarrow> scene list \<Rightarrow> hub \<Rightarrow> bool" where
  "scene_fits r others h \<longleftrightarrow>
     (case scn_organization_id r of None \<Rightarrow> False | Some org \<Rightarrow> tget org_id org (h_organizations h) \<noteq> None)
     \<and> list_all (\<lambda>q. scn_id q \<noteq> scn_id r \<and> (scn_organization_id q, scn_name q) \<noteq> (scn_organization_id r, scn_name r)) others"

definition scene_obj :: "string option \<Rightarrow> bool \<Rightarrow> flush_obj" where
  "scene_obj org modified = \<lparr>fo_class = ''Scene'', fo_org = org, fo_modified = modified\<rparr>"

text \<open>Any constraint that fails is reported as a name that is taken.\<close>

definition create_scene ::
  "env \<Rightarrow> string option \<Rightarrow> string option \<Rightarrow> pyval \<Rightarrow> ctx \<times> hub \<Rightarrow> scene_error + (pydict \<times> ctx \<times> hub)" where
  "create_scene E name description items s =
     (case scene_name name of
        Inl e \<Rightarrow> Inl e
      | Inr n \<Rightarrow>
          (case validate_scene_items E items of
             Inl e \<Rightarrow> Inl e
           | Inr cleaned \<Rightarrow>
               (case stamp_and_guard_tenant_writes E [scene_obj None True] [] s of
                  Inl e \<Rightarrow> Inl (SceneRefused e)
                | Inr (new, _, c, h) \<Rightarrow>
                    (let r = \<lparr>scn_id = new_id (env_ulid E) ''scn'' (h_ulid h), scn_organization_id = fo_org (hd new), scn_name = n,
                              scn_description = scene_description description, scn_items = cleaned,
                              scn_created_at = env_now E, scn_updated_at = env_now E\<rparr>
                     in if scene_fits r (h_scenes h) h
                        then Inr (serialize_scene r, c, h\<lparr>h_scenes := tadd r (h_scenes h), h_ulid := Suc (h_ulid h)\<rparr>)
                        else Inl (SceneNameConflict n)))))"

definition update_scene ::
  "env \<Rightarrow> string \<Rightarrow> string option \<Rightarrow> string option \<Rightarrow> pyval \<Rightarrow> ctx \<times> hub \<Rightarrow> scene_error + (pydict option \<times> ctx \<times> hub)" where
  "update_scene E i name description items s =
     (case scene_name name of
        Inl e \<Rightarrow> Inl e
      | Inr n \<Rightarrow>
          (case validate_scene_items E items of
             Inl e \<Rightarrow> Inl e
           | Inr cleaned \<Rightarrow>
               (let (rows, s1) = select_scenes E s in
                case tget scn_id i rows of
                  None \<Rightarrow> Inr (None, s1)
                | Some r0 \<Rightarrow>
                    (let r1 = r0\<lparr>scn_name := n, scn_description := scene_description description, scn_items := cleaned\<rparr> in
                     case stamp_and_guard_tenant_writes E [] [scene_obj (scn_organization_id r1) (r1 \<noteq> r0)] s1 of
                       Inl e \<Rightarrow> Inl (SceneRefused e)
                     | Inr (_, dirty, c, h) \<Rightarrow>
                         (let r = r1\<lparr>scn_organization_id := fo_org (hd dirty)\<rparr> in
                          if scene_fits r (filter (\<lambda>q. scn_id q \<noteq> i) (h_scenes h)) h
                          then Inr (Some (serialize_scene r), c, h\<lparr>h_scenes := tupd scn_id i (\<lambda>_. r) (h_scenes h)\<rparr>)
                          else Inl (SceneNameConflict n))))))"

definition delete_scene :: "env \<Rightarrow> string \<Rightarrow> ctx \<times> hub \<Rightarrow> scene_error + (bool \<times> ctx \<times> hub)" where
  "delete_scene E i s =
     (let (rows, s1) = select_scenes E s in
      case tget scn_id i rows of
        None \<Rightarrow> Inr (False, s1)
      | Some _ \<Rightarrow>
          (case stamp_and_guard_tenant_writes E [] [] s1 of
             Inl e \<Rightarrow> Inl (SceneRefused e)
           | Inr (_, _, c, h) \<Rightarrow> Inr (True, c, h\<lparr>h_scenes := tdel scn_id i (h_scenes h)\<rparr>)))"

section \<open>The normal form of items\<close>

lemma str_or_empty_VStr [simp]: "str_or_empty E (VStr s) = py_strip s"
  by (simp add: str_or_empty_def)

lemma str_or_empty_strip [simp]: "py_strip (str_or_empty E v) = str_or_empty E v"
  by (simp add: str_or_empty_def)

lemma clean_item_get [simp]:
  "dget (clean_item E d) ''device_id'' = VStr (str_or_empty E (dget d ''device_id''))"
  "dget (clean_item E d) ''relay'' = dget d ''relay''"
  "dget (clean_item E d) ''config'' = (if truthy (dget d ''config'') then dget d ''config'' else VNone)"
  by (simp_all add: clean_item_def dget_def split: option.splits)

lemma clean_item_idem [simp]: "clean_item E' (clean_item E d) = clean_item E d"
  by (simp add: clean_item_def [of E' "clean_item E d"]) (simp add: clean_item_def)

lemma clean_item_fine: "item_problem E (VDict d) = None \<Longrightarrow> item_problem E' (VDict (clean_item E d)) = None"
  by (auto simp: item_problem_def config_ok_def split: if_splits)

text \<open>What a stored scene looks like.\<close>

definition item_normal :: "env \<Rightarrow> pyval \<Rightarrow> bool" where
  "item_normal E v \<longleftrightarrow> item_problem E v = None \<and> v = VDict (clean_item E (dict_of v))"

definition items_normal :: "env \<Rightarrow> pyval list \<Rightarrow> bool" where
  "items_normal E xs \<longleftrightarrow> xs \<noteq> [] \<and> length xs \<le> 50 \<and> list_all (item_normal E) xs"

lemma item_ok_dict: "item_problem E v = None \<Longrightarrow> \<exists>d. v = VDict d"
  by (cases v) (simp_all add: item_problem_def)

lemma cleaned_normal: "item_problem E v = None \<Longrightarrow> item_normal E' (VDict (clean_item E (dict_of v)))"
  using item_ok_dict [of E v] clean_item_fine [of E _ E'] by (auto simp: item_normal_def)

text \<open>The normal form does not depend on how other values are printed.\<close>

lemma item_normal_env: "item_normal E v \<Longrightarrow> item_normal E' v"
  using cleaned_normal [of E v E'] by (simp add: item_normal_def)

lemma items_normal_env: "items_normal E xs \<Longrightarrow> items_normal E' xs"
  using item_normal_env [of E _ E'] by (auto simp: items_normal_def list_all_iff)

lemma validate_scene_items_Inr:
  "validate_scene_items E items = Inr ys \<longleftrightarrow>
     (\<exists>xs. items = VList xs \<and> xs \<noteq> [] \<and> length xs \<le> 50 \<and> list_all (\<lambda>v. item_problem E v = None) xs
        \<and> ys = map (VDict \<circ> clean_item E \<circ> dict_of) xs)"
  by (auto simp: validate_scene_items_def MAX_ITEMS_def list_all_iff comp_def split: pyval.splits option.splits)
     (metis (mono_tags, lifting) first_error_None list.pred_map comp_apply list_all_iff option.distinct(1))

lemma validated_normal: "validate_scene_items E items = Inr ys \<Longrightarrow> items_normal E ys"
  by (auto simp: validate_scene_items_Inr items_normal_def list_all_iff intro!: cleaned_normal)

lemma normal_validates: "items_normal E ys \<Longrightarrow> validate_scene_items E (VList ys) = Inr ys"
  by (auto simp: validate_scene_items_Inr items_normal_def item_normal_def list_all_iff intro!: map_idI [symmetric])


text \<open>The item check is a normal form: what it returns, and so what is stored, is accepted again and returned as
  it is. In particular a scene whose items are read back and saved without a change keeps them.\<close>

theorem scene_items_normal_form:
  assumes "validate_scene_items E items = Inr ys"
  shows "validate_scene_items E (VList ys) = Inr ys"
  by (rule normal_validates [OF validated_normal [OF assms]])

definition tv_items :: "pyval list" where
  "tv_items = [VDict [(''relay'', VStr ''off''), (''device_id'', VStr '' d1 ''), (''label'', VInt 3)],
     VDict [(''device_id'', VStr ''d2''), (''config'', VDict [(''device_name'', VStr ''amp'')]), (''relay'', VNone)]]"

definition tv_clean :: "pyval list" where
  "tv_clean = [VDict [(''device_id'', VStr ''d1''), (''relay'', VStr ''off'')],
     VDict [(''device_id'', VStr ''d2''), (''config'', VDict [(''device_name'', VStr ''amp'')])]]"

lemma tv_cleaned: "validate_scene_items demo_env (VList tv_items) = Inr tv_clean"
  by code_simp

theorem scene_items_normal_form_witness: "validate_scene_items demo_env (VList tv_clean) = Inr tv_clean"
  by (rule scene_items_normal_form [OF tv_cleaned])

section \<open>The table of scenes\<close>

definition scene_ok :: "scene \<Rightarrow> bool" where
  "scene_ok r \<longleftrightarrow> (\<forall>E. items_normal E (scn_items r)) \<and> scene_name (Some (scn_name r)) = Inr (scn_name r) \<and> scn_organization_id r \<noteq> None"

definition scenes_ok :: "hub \<Rightarrow> bool" where
  "scenes_ok h \<longleftrightarrow> list_all scene_ok (h_scenes h) \<and> distinct (map scn_id (h_scenes h))
     \<and> distinct (map (\<lambda>r. (scn_organization_id r, scn_name r)) (h_scenes h))"

lemma scene_name_normal: "scene_name name = Inr n \<Longrightarrow> scene_name (Some n) = Inr n"
  by (auto simp: scene_name_def Let_def split: if_splits)

lemma select_scenes_facts:
  assumes "select_scenes E (c, h) = (rows, c', h')"
  shows "\<exists>a. h' = h\<lparr>h_audit := a\<rparr>" and "set rows \<subseteq> set (h_scenes h)"
proof -
  note sel = assms [unfolded select_scenes_def]
  show "\<exists>a. h' = h\<lparr>h_audit := a\<rparr>" using select_scoped_frame(2) [OF sel] by blast
  show "set rows \<subseteq> set (h_scenes h)"
    using fst_select_scoped [of E "''scenes''" scn_organization_id h_scenes "(c, h)"] sel
    by (auto simp: visible_def split: option.splits)
qed

lemma create_sceneE:
  assumes "create_scene E name description items (c, h) = Inr (v, c', h')"
  obtains r a where "scene_ok r" and "scene_fits r (h_scenes h) h" and "v = serialize_scene r"
    and "validate_scene_items E items = Inr (scn_items r)" and "scene_name name = Inr (scn_name r)"
    and "h' = h\<lparr>h_audit := a, h_scenes := h_scenes h @ [r], h_ulid := Suc (h_ulid h)\<rparr>"
proof -
  obtain n cleaned where n: "scene_name name = Inr n" and cl: "validate_scene_items E items = Inr cleaned"
    using assms by (auto simp: create_scene_def split: sum.splits)
  obtain new d c1 h1 where fl: "stamp_and_guard_tenant_writes E [scene_obj None True] [] (c, h) = Inr (new, d, c1, h1)"
    using assms n cl by (auto simp: create_scene_def split: sum.splits)
  obtain a where h1: "h1 = h\<lparr>h_audit := a\<rparr>" using flush_frame [OF fl] by blast
  let ?r = "\<lparr>scn_id = new_id (env_ulid E) ''scn'' (h_ulid h), scn_organization_id = fo_org (hd new), scn_name = n,
     scn_description = scene_description description, scn_items = cleaned, scn_created_at = env_now E, scn_updated_at = env_now E\<rparr>"
  have fits: "scene_fits ?r (h_scenes h1) h1" and res: "v = serialize_scene ?r"
    "h' = h1\<lparr>h_scenes := tadd ?r (h_scenes h1), h_ulid := Suc (h_ulid h1)\<rparr>"
    using assms n cl fl by (auto simp: create_scene_def Let_def h1 split: if_splits)
  show ?thesis
    by (rule that [of ?r a])
      (use fits res n cl scene_name_normal [OF n] items_normal_env [OF validated_normal [OF cl]]
        in \<open>auto simp: scene_ok_def scene_fits_def h1 tadd_def split: option.splits\<close>)
qed

lemma update_sceneE:
  assumes "update_scene E i name description items (c, h) = Inr (Some v, c', h')"
  obtains r r0 a where "scene_ok r" and "scn_id r = i" and "r0 \<in> set (h_scenes h)" and "scn_id r0 = i"
    and "scene_fits r (filter (\<lambda>q. scn_id q \<noteq> i) (h_scenes h)) h" and "v = serialize_scene r"
    and "validate_scene_items E items = Inr (scn_items r)" and "scene_name name = Inr (scn_name r)"
    and "h' = h\<lparr>h_audit := a, h_scenes := tupd scn_id i (\<lambda>_. r) (h_scenes h)\<rparr>"
proof -
  obtain n cleaned where n: "scene_name name = Inr n" and cl: "validate_scene_items E items = Inr cleaned"
    using assms by (auto simp: update_scene_def split: sum.splits)
  obtain rows c1 h1 where sel: "select_scenes E (c, h) = (rows, c1, h1)" by (metis prod_cases3)
  obtain r0 where r0: "tget scn_id i rows = Some r0"
    using assms n cl sel by (auto simp: update_scene_def split: option.splits)
  let ?r1 = "r0\<lparr>scn_name := n, scn_description := scene_description description, scn_items := cleaned\<rparr>"
  let ?st = "stamp_and_guard_tenant_writes E [] [scene_obj (scn_organization_id ?r1) (?r1 \<noteq> r0)] (c1, h1)"
  have "\<not> isl ?st" using assms n cl sel r0 by (cases ?st) (simp_all add: update_scene_def Let_def)
  then obtain new d c2 h2 where fl: "?st = Inr (new, d, c2, h2)" by (cases ?st) auto
  obtain a where h2: "h2 = h\<lparr>h_audit := a\<rparr>" using flush_frame [OF fl] select_scenes_facts(1) [OF sel] by auto
  let ?r = "?r1\<lparr>scn_organization_id := fo_org (hd d)\<rparr>"
  have fits: "scene_fits ?r (filter (\<lambda>q. scn_id q \<noteq> i) (h_scenes h2)) h2" and res: "v = serialize_scene ?r"
    "h' = h2\<lparr>h_scenes := tupd scn_id i (\<lambda>_. ?r) (h_scenes h2)\<rparr>"
    using assms n cl sel r0 fl by (auto simp: update_scene_def Let_def split: if_splits)
  have r0': "r0 \<in> set (h_scenes h)" "scn_id r0 = i"
    using r0 select_scenes_facts(2) [OF sel] by (auto dest: tget_SomeD)
  show ?thesis
    by (rule that [of ?r r0 a])
      (use fits res n cl r0' scene_name_normal [OF n] items_normal_env [OF validated_normal [OF cl]]
        in \<open>auto simp: scene_ok_def scene_fits_def h2 split: option.splits\<close>)
qed

lemma delete_scene_frame:
  assumes "delete_scene E i (c, h) = Inr (b, c', h')"
  shows "\<exists>a. h' = h\<lparr>h_audit := a, h_scenes := if b then tdel scn_id i (h_scenes h) else h_scenes h\<rparr>"
proof -
  obtain rows c1 h1 where sel: "select_scenes E (c, h) = (rows, c1, h1)" by (metis prod_cases3)
  obtain a where h1: "h1 = h\<lparr>h_audit := a\<rparr>" using select_scenes_facts(1) [OF sel] by blast
  show ?thesis
  proof (cases "tget scn_id i rows")
    case None
    then show ?thesis using assms h1 by (auto simp: delete_scene_def sel)
  next
    case (Some r)
    then obtain new d c2 h2 where fl: "stamp_and_guard_tenant_writes E [] [] (c1, h1) = Inr (new, d, c2, h2)"
      using assms sel by (auto simp: delete_scene_def split: sum.splits)
    then show ?thesis using assms sel Some flush_frame [OF fl] h1 by (auto simp: delete_scene_def)
  qed
qed


text \<open>One step: an operator of any organization creates, changes or deletes a scene; an operation that fails
  leaves the hub as it was.\<close>

inductive scene_step :: "hub \<Rightarrow> hub \<Rightarrow> bool" where
  create: "create_scene E name description items (c, h) = Inr (v, c', h') \<Longrightarrow> scene_step h h'"
| update: "update_scene E i name description items (c, h) = Inr (v, c', h') \<Longrightarrow> scene_step h h'"
| delete: "delete_scene E i (c, h) = Inr (b, c', h') \<Longrightarrow> scene_step h h'"

lemma distinct_tupd:
  assumes "distinct (map f rs)" and "\<And>q. q \<in> set rs \<Longrightarrow> key q \<noteq> k \<Longrightarrow> f q \<noteq> f r" and "distinct (map key rs)"
  shows "distinct (map f (tupd key k (\<lambda>_. r) rs))"
proof -
  have "inj_on (\<lambda>q. f (if key q = k then r else q)) (set rs)"
  proof (rule inj_onI)
    fix x y
    assume xy: "x \<in> set rs" "y \<in> set rs" and eq: "f (if key x = k then r else x) = f (if key y = k then r else y)"
    show "x = y"
      using eq xy assms(2) [of x] assms(2) [of y] assms(1,3) by (auto simp: distinct_map inj_on_def split: if_splits)
  qed
  then show ?thesis using assms(1) by (simp add: tupd_def comp_def distinct_map)
qed

lemma update_scene_missing:
  assumes "update_scene E i name description items (c, h) = Inr (None, c', h')"
  shows "\<exists>a. h' = h\<lparr>h_audit := a\<rparr>"
proof -
  obtain n cleaned where n: "scene_name name = Inr n" and cl: "validate_scene_items E items = Inr cleaned"
    using assms by (auto simp: update_scene_def split: sum.splits)
  obtain rows c1 h1 where sel: "select_scenes E (c, h) = (rows, c1, h1)" by (metis prod_cases3)
  have "h' = h1" using assms n cl sel by (auto simp: update_scene_def Let_def split: option.splits sum.splits if_splits)
  then show ?thesis using select_scenes_facts(1) [OF sel] by simp
qed

lemma scene_step_ok:
  assumes "scene_step h h'" and "scenes_ok h"
  shows "scenes_ok h'"
  using assms
proof cases
  case (create E name description items c v c')
  then show ?thesis
    by (rule create_sceneE) (use assms(2) in \<open>auto simp: scenes_ok_def scene_fits_def list_all_iff\<close>)
next
  case (update E i name description items c v c')
  show ?thesis
  proof (cases v)
    case None
    with update have "update_scene E i name description items (c, h) = Inr (None, c', h')" by simp
    from update_scene_missing [OF this] show ?thesis using assms(2) by (auto simp: scenes_ok_def)
  next
    case (Some w)
    from update [unfolded Some] show ?thesis
    proof (rule update_sceneE)
      fix r r0 a
      assume r: "scene_ok r" "scn_id r = i" and fits: "scene_fits r (filter (\<lambda>q. scn_id q \<noteq> i) (h_scenes h)) h"
        and h': "h' = h\<lparr>h_audit := a, h_scenes := tupd scn_id i (\<lambda>_. r) (h_scenes h)\<rparr>"
      have ok: "list_all scene_ok (h_scenes h)" "distinct (map scn_id (h_scenes h))"
        "distinct (map (\<lambda>r. (scn_organization_id r, scn_name r)) (h_scenes h))"
        using assms(2) by (simp_all add: scenes_ok_def)
      have "distinct (map scn_id (tupd scn_id i (\<lambda>_. r) (h_scenes h)))"
        by (rule distinct_tupd [OF ok(2) _ ok(2)]) (simp add: r)
      moreover have "distinct (map (\<lambda>r. (scn_organization_id r, scn_name r)) (tupd scn_id i (\<lambda>_. r) (h_scenes h)))"
        by (rule distinct_tupd [OF ok(3) _ ok(2)]) (use fits in \<open>auto simp: scene_fits_def list_all_iff\<close>)
      moreover have "list_all scene_ok (tupd scn_id i (\<lambda>_. r) (h_scenes h))"
        using ok(1) r by (auto simp: list_all_iff set_tupd)
      ultimately show ?thesis by (simp add: scenes_ok_def h')
    qed
  qed
next
  case (delete E i c b c')
  then show ?thesis
    using delete_scene_frame [of E i c h b c' h'] assms(2)
    by (auto simp: scenes_ok_def list_all_iff tdel_def distinct_map_filter split: if_splits)
qed

lemma scene_steps_ok: "scene_step\<^sup>*\<^sup>* h h' \<Longrightarrow> scenes_ok h \<Longrightarrow> scenes_ok h'"
  by (induction rule: rtranclp_induct) (auto intro: scene_step_ok)

section \<open>Firing a stored scene\<close>

definition item_device :: "pyval \<Rightarrow> pyval" where
  "item_device v = dget (dict_of v) ''device_id''"

lemma item_device_entry [simp]: "item_device (VDict ((''device_id'', d) # r)) = d"
  by (simp add: item_device_def dget_def)

text \<open>No item in normal form stops the loop, and each is reported once, as applied or as skipped.\<close>

lemma run_scene_items_normal:
  assumes "list_all (item_normal E) items"
  shows "\<exists>ap sk h'. run_scene_items E items h = (Inr (ap, sk), h')
    \<and> mset (map item_device (ap @ sk)) = mset (map item_device items)"
  using assms
proof (induction items arbitrary: h)
  case (Cons v vs)
  obtain d where v: "v = VDict d" using Cons.prems item_ok_dict [of E v] by (auto simp: item_normal_def)
  let ?did = "str_or_empty E (dget d ''device_id'')"
  have did: "?did \<noteq> []" "dget d ''device_id'' = VStr ?did"
    using Cons.prems clean_item_get(1) [of E d] by (auto simp: v item_normal_def item_problem_def split: if_splits)
  obtain res h1 where c: "run_scene_commands E ?did (scene_commands d) h = (res, h1)" by (metis prod.exhaust)
  obtain ap sk h2 where rest: "run_scene_items E vs h1 = (Inr (ap, sk), h2)"
    and m: "mset (map item_device (ap @ sk)) = mset (map item_device vs)"
    using Cons.IH [of h1] Cons.prems by auto
  have dev: "item_device v = VStr ?did" using did(2) by (simp add: v item_device_def)
  show ?case
    by (cases res) (use did(1) c rest m dev in \<open>simp_all add: v Let_def union_commute\<close>)
qed simp

text \<open>A scene that is in the table of the hub, after any number of creations, changes and deletions by anyone, can
  always be fired: the action of a watchdog rule that names it never raises, and reports every device
  of the scene exactly once, as applied or as skipped.\<close>

theorem stored_scene_fires:
  assumes "scene_step\<^sup>*\<^sup>* h0 h" and "scenes_ok h0" and "get_scene sid h = Some s" and "sid \<noteq> []"
    and "dget action ''scene_id'' = VStr sid"
  shows "\<exists>ap sk h'. fire_scene E r action h
      = (Inr [(''action'', VStr ''apply_scene''), (''rule_id'', VStr (wr_id r)), (''applied'', VList ap), (''skipped'', VList sk)], h')
    \<and> mset (map item_device (ap @ sk)) = mset (map item_device (scn_items s))"
proof -
  have "s \<in> set (h_scenes h)" using assms(3) by (auto simp: get_scene_def dest: tget_SomeD)
  then have "list_all (item_normal E) (scn_items s)"
    using scene_steps_ok [OF assms(1,2)] by (auto simp: scenes_ok_def list_all_iff scene_ok_def items_normal_def)
  from run_scene_items_normal [OF this, of h] obtain ap sk h' where
    "run_scene_items E (scn_items s) h = (Inr (ap, sk), h')"
    "mset (map item_device (ap @ sk)) = mset (map item_device (scn_items s))" by blast
  then show ?thesis
    using assms(3-5) by (simp add: fire_scene_def Let_def scene_items_def str_id_def)
qed

definition tv_scene :: scene where
  "tv_scene = \<lparr>scn_id = ''scn_1'', scn_organization_id = Some ''acme'', scn_name = ''tv off'', scn_description = None,
     scn_items = tv_clean, scn_created_at = 0, scn_updated_at = 0\<rparr>"

lemma tv_clean_normal: "items_normal E tv_clean"
  using items_normal_env [OF validated_normal [OF tv_cleaned]] .

lemma tv_hub_ok: "scenes_ok (demo_hub\<lparr>h_scenes := [tv_scene]\<rparr>)"
proof -
  have "scene_name (Some ''tv off'') = Inr ''tv off''" by code_simp
  then show ?thesis by (simp add: scenes_ok_def scene_ok_def tv_scene_def tv_clean_normal)
qed

theorem stored_scene_fires_witness:
  "\<exists>ap sk h'. fire_scene demo_env (demo_rule []) [(''kind'', VStr ''apply_scene''), (''scene_id'', VStr ''scn_1'')]
      (demo_hub\<lparr>h_scenes := [tv_scene]\<rparr>)
     = (Inr [(''action'', VStr ''apply_scene''), (''rule_id'', VStr ''w1''), (''applied'', VList ap), (''skipped'', VList sk)], h')
   \<and> mset (map item_device (ap @ sk)) = {#VStr ''d1'', VStr ''d2''#}"
  using stored_scene_fires [OF rtranclp.rtrancl_refl tv_hub_ok, of "''scn_1''" tv_scene
      "[(''kind'', VStr ''apply_scene''), (''scene_id'', VStr ''scn_1'')]" demo_env "demo_rule []"]
  by (simp add: get_scene_def tv_scene_def dget_def demo_rule_def tv_clean_def item_device_def)

end
