(* ===== verification/Rules.thy ===== *)
theory Rules
  imports Scenes
begin

text \<open>
  Managing watchdog rules (\<open>app/services/watchdog/_mutations.py\<close>, \<open>_query.py\<close>, \<open>_render.py\<close>): creating, changing,
  enabling, deleting and listing rules, the diagnostic probe, and the English sentence of a rule. The
  arguments that the code checks are arbitrary values; the others have their annotated types.
\<close>

section \<open>Checking a form\<close>

record rule_form =
  wf_name :: pyval
  wf_probe :: pyval
  wf_target :: pyval
  wf_action :: pyval
  wf_site_id :: "string option"
  wf_description :: "string option"
  wf_failure_threshold :: pyval
  wf_recovery_threshold :: pyval
  wf_window_seconds :: pyval
  wf_cooldown_seconds :: pyval
  wf_max_retries :: pyval
  wf_retry_delay_seconds :: pyval
  wf_escalation :: "pydict option"
  wf_maintenance_windows :: "pyval list option"
  wf_user_id :: "string option"

definition check_name :: "pyval \<Rightarrow> rule_error option" where
  "check_name v =
     (case strip_or_raise v of
        None \<Rightarrow> Some PyError
      | Some n \<Rightarrow> unless_ok (n \<noteq> [] \<and> length n \<le> 120) ''name'')"

definition check_known_probe :: "pyval \<Rightarrow> rule_error option" where
  "check_known_probe v = unless_ok (is_dict v \<and> kind_in (dict_of v) KNOWN_PROBE_KINDS) ''probe.kind''"

definition check_target_field :: "pydict \<Rightarrow> string \<Rightarrow> rule_error option" where
  "check_target_field t field =
     (case strip_or_raise (dget t field) of None \<Rightarrow> Some PyError | Some s \<Rightarrow> unless_ok (s \<noteq> []) field)"

definition check_target :: "pyval \<Rightarrow> rule_error option" where
  "check_target v =
     (let t = dict_of v in
      first_error [unless_ok (is_dict v \<and> kind_in t [''device'', ''group'', ''tag'']) ''target.kind'',
        if kind_in t [''device'', ''group''] then check_target_field t ''id'' else None,
        if kind_in t [''tag''] then check_target_field t ''tag'' else None])"

definition check_bounds :: "string \<Rightarrow> pyval \<Rightarrow> int \<Rightarrow> int \<Rightarrow> rule_error option" where
  "check_bounds field v low high =
     (case py_int v of None \<Rightarrow> Some PyError | Some n \<Rightarrow> unless_ok (low \<le> n \<and> n \<le> high) field)"

definition rule_problem :: "env \<Rightarrow> rule_form \<Rightarrow> rule_error option" where
  "rule_problem E f = first_error
     [check_name (wf_name f), check_known_probe (wf_probe f), validate_probe E (wf_probe f), check_target (wf_target f),
      validate_action E (wf_action f),
      check_bounds ''failure_threshold'' (wf_failure_threshold f) 1 100,
      check_bounds ''recovery_threshold'' (wf_recovery_threshold f) 1 100,
      check_bounds ''window_seconds'' (wf_window_seconds f) 5 86400,
      check_bounds ''cooldown_seconds'' (wf_cooldown_seconds f) 0 86400]"

definition validate_rule_inputs :: "env \<Rightarrow> rule_form \<Rightarrow> rule_error + string" where
  "validate_rule_inputs E f =
     (case rule_problem E f of
        Some e \<Rightarrow> Inl e
      | None \<Rightarrow> Inr (case strip_or_raise (wf_name f) of None \<Rightarrow> [] | Some n \<Rightarrow> n))"

section \<open>The sentence of a rule\<close>

definition get_or :: "pydict \<Rightarrow> string \<Rightarrow> pyval \<Rightarrow> pyval" where
  "get_or d k dflt = (if dhas d k then dget d k else dflt)"

definition shown :: "env \<Rightarrow> pydict \<Rightarrow> string \<Rightarrow> string" where
  "shown E d k = py_str E (get_or d k (VStr ''?''))"

definition ticked :: "env \<Rightarrow> pydict \<Rightarrow> string \<Rightarrow> string" where
  "ticked E d k = ''`'' @ shown E d k @ ''`''"

definition int_text :: "int \<Rightarrow> string" where
  "int_text n = (if n < 0 then CHR ''-'' # dec (nat (- n)) else dec (nat n))"

text \<open>\<open>a if cond else b\<close> for one value of an optional filter.\<close>

definition weather_bits :: "env \<Rightarrow> pydict \<Rightarrow> string list" where
  "weather_bits E p =
     (if truthy (dget p ''event_contains'') then [''event contains `'' @ py_str E (dget p ''event_contains'') @ ''`''] else [])
     @ (if truthy (dget p ''min_severity'')
        then [''severity '' @ [CHR 0xE2, CHR 0x89, CHR 0xA5] @ '' `'' @ py_str E (dget p ''min_severity'') @ ''`''] else [])"

definition probe_to_phrase :: "env \<Rightarrow> pydict \<Rightarrow> string" where
  "probe_to_phrase E p =
     (if kind_in p [''internet''] then
        (case dget p ''targets'' of
           VList (t # ts) \<Rightarrow> ''outbound internet connectivity ('' @ dec (length (t # ts)) @ '' target''
                           @ (if ts \<noteq> [] then ''s'' else []) @ '')''
         | _ \<Rightarrow> ''outbound internet connectivity (3 default targets)'')
      else if kind_in p [''ping''] then ''ping to '' @ ticked E p ''host''
      else if kind_in p [''tcp''] then ''TCP connect to `'' @ shown E p ''host'' @ '':'' @ shown E p ''port'' @ ''`''
      else if kind_in p [''http''] then ''HTTP GET to '' @ ticked E p ''url''
      else if kind_in p [''dns''] then ''DNS resolve '' @ ticked E p ''hostname''
      else if kind_in p [''gateway''] then ''ping to the device'' @ [CHR 0x27] @ ''s LAN gateway''
      else if kind_in p [''roku_app_active''] then
        ''Roku source '' @ ticked E p ''source_id'' @ '' showing app matching '' @ ticked E p ''app_name''
      else if kind_in p [''ha_state_is''] then
        ''Home Assistant source '' @ ticked E p ''source_id'' @ '' entity '' @ ticked E p ''entity_id''
          @ '' in state '' @ ticked E p ''expected_state''
      else if kind_in p [''weather_alert_active''] then
        ''weather source '' @ ticked E p ''source_id'' @ '' has alerts''
          @ (if weather_bits E p = [] then '' (any active)'' else '' matching ('' @ join_with '', '' (weather_bits E p) @ '')'')
      else if kind_in p [''ical_event_active''] then
        (if truthy (dget p ''summary_contains'')
         then ''calendar source '' @ ticked E p ''source_id'' @ '' has event matching `''
                @ py_str E (dget p ''summary_contains'') @ ''` currently airing''
         else ''calendar source '' @ ticked E p ''source_id'' @ '' has any event currently airing'')
      else if kind_in p [''power_above'', ''power_below''] then
        ''device '' @ ticked E p ''device_id'' @ '' averaging '' @ (if kind_in p [''power_above''] then ''>'' else ''<'') @ '' ''
          @ shown E p ''threshold_w'' @ '' W over '' @ py_str E (get_or p ''window_seconds'' (VInt 300)) @ '' s''
      else if kind_in p [''power_zero_while_on''] then
        ''device '' @ ticked E p ''device_id'' @ '' drawing near-zero (< ''
          @ py_str E (get_or p ''near_zero_threshold_w'' (VFloat (1 / 2))) @ '' W) while relay is on''
      else if kind_in p [''device_heartbeat_stale''] then
        ''device '' @ ticked E p ''device_id'' @ '' has not heartbeated in ''
          @ py_str E (get_or p ''max_age_seconds'' (VInt 300)) @ '' s (gone / silent)''
      else if kind_in p [''ha_numeric_above'', ''ha_numeric_below''] then
        ''Home Assistant source '' @ ticked E p ''source_id'' @ '' entity '' @ ticked E p ''entity_id''
          @ (if truthy (dget p ''attribute'') then '' attribute `'' @ py_str E (dget p ''attribute'') @ ''`'' else [])
          @ (if kind_in p [''ha_numeric_above''] then '' > '' else '' < '') @ shown E p ''threshold''
      else if kind_in p [''solar_production_above'', ''solar_production_below''] then
        ''solar source '' @ ticked E p ''source_id'' @ '' producing''
          @ (if kind_in p [''solar_production_above''] then '' > '' else '' < '') @ shown E p ''threshold_w'' @ '' W''
      else if kind_in p [''snmp_interface_down''] then
        ''SNMP source '' @ ticked E p ''source_id'' @ '' interface '' @ ticked E p ''interface'' @ '' is down''
      else if kind_in p [''snmp_throughput_above'', ''snmp_throughput_below''] then
        ''SNMP source '' @ ticked E p ''source_id'' @ '' interface '' @ ticked E p ''interface'' @ '' ''
          @ py_str E (get_or p ''direction'' (VStr ''total'')) @ '' throughput''
          @ (if kind_in p [''snmp_throughput_above''] then '' > '' else '' < '') @ shown E p ''threshold_bps'' @ '' bps''
      else if kind_in p [''snmp_error_rate_above''] then
        ''SNMP source '' @ ticked E p ''source_id'' @ '' interface '' @ ticked E p ''interface'' @ '' error rate > ''
          @ shown E p ''threshold_errors_per_min'' @ '' errors/min''
      else if kind_in p [''media_session_active''] then ''media source '' @ ticked E p ''source_id'' @ '' has an active session''
      else if kind_in p [''webhook_field_equals''] then
        ''webhook source '' @ ticked E p ''source_id'' @ '' field '' @ ticked E p ''field'' @ '' equals `''
          @ py_str E (get_or p ''expected'' (VStr [])) @ ''`''
      else if kind_in p [''mqtt_topic_equals''] then
        ''MQTT source '' @ ticked E p ''source_id'' @ '' topic '' @ ticked E p ''topic'' @ '' equals `''
          @ py_str E (get_or p ''expected_value'' (VStr [])) @ ''`''
      else if kind_in p [''epg_show_airing''] then
        ''EPG shows '' @ ticked E p ''show'' @ '' currently airing''
          @ (if truthy (dget p ''network'') then '' on `'' @ py_str E (dget p ''network'') @ ''`'' else [])
      else if kind_in p [''host_awake''] then
        ''TCP connect to `'' @ shown E p ''host'' @ '':'' @ py_str E (get_or p ''port'' (VInt 22)) @ ''` (host is awake)''
      else ''unknown probe '' @ [CHR 0x27] @ shown E p ''kind'' @ [CHR 0x27])"

text \<open>The name of a target; looking up a list or a dict raises.\<close>

definition named :: "env \<Rightarrow> (string \<rightharpoonup> string) \<Rightarrow> pyval \<Rightarrow> string option" where
  "named E names v =
     (case v of
        VStr s \<Rightarrow> Some (case names s of None \<Rightarrow> s | Some n \<Rightarrow> n)
      | VList _ \<Rightarrow> None
      | VDict _ \<Rightarrow> None
      | _ \<Rightarrow> Some (py_str E v))"

definition target_to_phrase :: "env \<Rightarrow> (string \<rightharpoonup> string) \<Rightarrow> (string \<rightharpoonup> string) \<Rightarrow> pydict \<Rightarrow> string option" where
  "target_to_phrase E devices groups t =
     (if kind_in t [''device''] then map_option (\<lambda>n. ''device `'' @ n @ ''`'') (named E devices (get_or t ''id'' (VStr ''?'')))
      else if kind_in t [''group''] then map_option (\<lambda>n. ''group `'' @ n @ ''`'') (named E groups (get_or t ''id'' (VStr ''?'')))
      else if kind_in t [''tag''] then Some (''any device tagged '' @ ticked E t ''tag'')
      else Some ''no target'')"

fun py_len :: "pyval \<Rightarrow> nat option" where
  "py_len (VStr s) = Some (length s)"
| "py_len (VList xs) = Some (length xs)"
| "py_len (VDict d) = Some (length d)"
| "py_len v = (if truthy v then None else Some 0)"

lemma size_sub_action: "a \<noteq> [] \<Longrightarrow> size (VDict (dict_of (dget a k))) < size (VDict a)"
proof -
  assume ne: "a \<noteq> []"
  show ?thesis
  proof (cases "\<exists>d. dget a k = VDict d")
    case True
    then obtain d where d: "dget a k = VDict d" by blast
    then have "(k, VDict d) \<in> set a" by (auto simp: dget_def split: option.splits dest: map_of_SomeD)
    then have "size (VDict d) \<le> size_list (size_prod (\<lambda>_. 0) size) a"
      by (rule size_list_estimation') simp
    then show ?thesis by (simp add: d)
  next
    case False
    then have "dict_of (dget a k) = []" by (cases "dget a k") auto
    then show ?thesis using ne by (cases a) simp_all
  qed
qed


text \<open>\<open>a.get(k) or {}\<close> as the next action: \<open>None\<close> for a value that is true but no dict.\<close>

definition sub_action :: "pydict \<Rightarrow> string \<Rightarrow> pydict option" where
  "sub_action a k = (if truthy (dget a k) \<and> \<not> is_dict (dget a k) then None else Some (dict_of (dget a k)))"

lemma kind_in_nonempty: "kind_in a ks \<Longrightarrow> a \<noteq> []"
  by (auto simp: kind_in_def dget_def)

function action_to_phrase :: "env \<Rightarrow> pydict \<Rightarrow> string option" where
  "action_to_phrase E a =
     (if kind_in a [''cycle''] then Some (''power-cycle ('' @ py_str E (get_or a ''power_off_seconds'' (VInt 5)) @ ''s off)'')
      else if kind_in a [''hold_off''] then Some ''hold off (power off until manually restored)''
      else if kind_in a [''notify_only''] then Some ''notify (no power action)''
      else if kind_in a [''relay_on''] then Some ''turn power on''
      else if kind_in a [''relay_off''] then Some ''turn power off''
      else if kind_in a [''apply_scene''] then
        (if truthy (dget a ''scene_id'') then Some ''apply a saved scene''
         else map_option (\<lambda>n. ''apply a '' @ dec n @ ''-device scene'') (py_len (dget a ''items'')))
      else if kind_in a [''binding''] then
        (if sub_action a ''on_active'' = None \<or> sub_action a ''on_clear'' = None then None
         else case (action_to_phrase E (dict_of (dget a ''on_active'')), action_to_phrase E (dict_of (dget a ''on_clear''))) of
           (Some on, Some off) \<Rightarrow> Some (on @ '' while the condition holds, '' @ off @ '' when it clears'')
         | _ \<Rightarrow> None)
      else Some ''no action'')"
  by pat_completeness auto

termination
  by (relation "measure (\<lambda>(E, a). size (VDict a))")
    (simp, unfold in_measure case_prod_conv, (rule size_sub_action, erule kind_in_nonempty)+)

declare action_to_phrase.simps [simp del]

text \<open>\<open>{s % 3600 // 60} min\<close> never ends in a space, so the final \<open>rstrip\<close> changes nothing.\<close>

definition seconds_to_phrase :: "int \<Rightarrow> string" where
  "seconds_to_phrase s =
     (if s < 60 then int_text s @ '' s''
      else if s < 3600 then int_text (s div 60) @ '' min''
      else int_text (s div 3600) @ '' h '' @ int_text ((s mod 3600) div 60) @ '' min'')"

definition render_rule_sentence ::
  "env \<Rightarrow> (string \<rightharpoonup> string) \<Rightarrow> (string \<rightharpoonup> string) \<Rightarrow> watchdog_rule \<Rightarrow> string option" where
  "render_rule_sentence E devices groups r =
     (case target_to_phrase E devices groups (wr_target r) of
        None \<Rightarrow> None
      | Some target \<Rightarrow>
          (let a = wr_action r; probe = probe_to_phrase E (wr_probe r) in
           if kind_in a [''binding''] then
             (if sub_action a ''on_active'' = None \<or> sub_action a ''on_clear'' = None then None
              else case (action_to_phrase E (dict_of (dget a ''on_active'')), action_to_phrase E (dict_of (dget a ''on_clear''))) of
                (Some on, Some off) \<Rightarrow> Some (''While '' @ probe @ '', '' @ on @ '' on '' @ target @ ''; when it clears, '' @ off @ ''.'')
              | _ \<Rightarrow> None)
           else case action_to_phrase E a of
             None \<Rightarrow> None
           | Some act \<Rightarrow> Some (''If '' @ probe @ '' fails '' @ int_text (wr_failure_threshold r) @ '' consecutive times over ''
               @ seconds_to_phrase (wr_window_seconds r) @ '', '' @ act @ '' on '' @ target @ '', then wait ''
               @ seconds_to_phrase (wr_cooldown_seconds r) @ '' and check '' @ int_text (wr_recovery_threshold r)
               @ '' successes before re-arming.'')))"

section \<open>Reading rules\<close>

definition rule_time :: "instant option \<Rightarrow> pyval" where
  "rule_time t = (case t of None \<Rightarrow> VNone | Some u \<Rightarrow> VStr (iso_z u))"

definition serialize_rule :: "watchdog_rule \<Rightarrow> string option \<Rightarrow> pydict" where
  "serialize_rule r sentence =
     [(''id'', VStr (wr_id r)), (''site_id'', of_opt_str (wr_site_id r)), (''name'', VStr (wr_name r)),
      (''description'', of_opt_str (wr_description r)), (''enabled'', VBool (wr_enabled r)), (''status'', VStr (wr_status r)),
      (''probe'', VDict (wr_probe r)), (''failure_threshold'', VInt (wr_failure_threshold r)),
      (''recovery_threshold'', VInt (wr_recovery_threshold r)), (''window_seconds'', VInt (wr_window_seconds r)),
      (''cooldown_seconds'', VInt (wr_cooldown_seconds r)), (''target'', VDict (wr_target r)), (''action'', VDict (wr_action r)),
      (''max_retries'', VInt (wr_max_retries r)), (''retry_delay_seconds'', VInt (wr_retry_delay_seconds r)),
      (''escalation'', VDict (wr_escalation r)), (''maintenance_windows'', VList (wr_maintenance_windows r)),
      (''created_at'', VStr (iso_z (wr_created_at r))), (''updated_at'', VStr (iso_z (wr_updated_at r))),
      (''failure_streak'', VInt (wr_failure_streak r)), (''recovery_streak'', VInt (wr_recovery_streak r)),
      (''last_probed_at'', rule_time (wr_last_probed_at r)), (''last_action_at'', rule_time (wr_last_action_at r)),
      (''last_outcome'', of_opt_str (wr_last_outcome r)), (''sentence'', of_opt_str sentence)]"

text \<open>A row with its sentence; a sentence that cannot be built raises.\<close>

definition with_sentence ::
  "env \<Rightarrow> (string \<rightharpoonup> string) \<Rightarrow> (string \<rightharpoonup> string) \<Rightarrow> watchdog_rule \<Rightarrow> rule_error + pydict" where
  "with_sentence E devices groups r =
     (case render_rule_sentence E devices groups r of
        None \<Rightarrow> Inl PyError
      | Some t \<Rightarrow> Inr (serialize_rule r (Some t)))"

definition select_rules :: "env \<Rightarrow> ctx \<times> hub \<Rightarrow> watchdog_rule list \<times> ctx \<times> hub" where
  "select_rules E s = select_scoped E ''watchdog_rules'' wr_organization_id h_rules s"

fun all_of :: "('e + 'a) list \<Rightarrow> 'e + 'a list" where
  "all_of [] = Inr []"
| "all_of (Inl e # xs) = Inl e"
| "all_of (Inr a # xs) = (case all_of xs of Inl e \<Rightarrow> Inl e | Inr as \<Rightarrow> Inr (a # as))"

definition device_names :: "hub \<Rightarrow> string \<rightharpoonup> string" where
  "device_names h i = map_option (\<lambda>d. if dev_display_name d \<noteq> [] then dev_display_name d else dev_id d) (get_device i h)"

definition rules_of_site :: "string option \<Rightarrow> watchdog_rule list \<Rightarrow> watchdog_rule list" where
  "rules_of_site site rs =
     sort_key (\<lambda>r. - wr_created_at r) (case site of Some (c # cs) \<Rightarrow> filter (\<lambda>r. wr_site_id r = Some (c # cs)) rs | _ \<Rightarrow> rs)"

definition listed_rules :: "env \<Rightarrow> string option \<Rightarrow> ctx \<times> hub \<Rightarrow> (watchdog_rule list \<times> (string \<rightharpoonup> string)) \<times> ctx \<times> hub" where
  "listed_rules E site s =
     (let (rows, s1) = select_rules E s; (groups, s2) = select_scoped E ''groups'' (Some \<circ> grp_organization_id) h_groups s1
      in ((rules_of_site site rows, \<lambda>g. map_option grp_name (tget grp_id g groups)), s2))"

definition list_rules :: "env \<Rightarrow> string option \<Rightarrow> ctx \<times> hub \<Rightarrow> rule_error + (pydict list \<times> ctx \<times> hub)" where
  "list_rules E site s =
     (let ((rules, groups), s2) = listed_rules E site s in
      case all_of (map (with_sentence E (device_names (snd s)) groups) rules) of
        Inl e \<Rightarrow> Inl e
      | Inr out \<Rightarrow> Inr (out, s2))"

definition get_rule :: "env \<Rightarrow> string \<Rightarrow> ctx \<times> hub \<Rightarrow> rule_error + (pydict option \<times> ctx \<times> hub)" where
  "get_rule E i s =
     (let (rows, s1) = select_rules E s in
      case tget wr_id i rows of
        None \<Rightarrow> Inr (None, s1)
      | Some r \<Rightarrow> (case with_sentence E Map.empty Map.empty r of Inl e \<Rightarrow> Inl e | Inr d \<Rightarrow> Inr (Some d, s1)))"

text \<open>The rules whose target the watchdog would resolve to the device; a target whose query raises, raises.\<close>

definition list_rules_for_device :: "env \<Rightarrow> string \<Rightarrow> ctx \<times> hub \<Rightarrow> rule_error + (pydict list \<times> ctx \<times> hub)" where
  "list_rules_for_device E did s =
     (case list_rules E None s of
        Inl e \<Rightarrow> Inl e
      | Inr (rules, s1) \<Rightarrow>
          (case all_of (map (\<lambda>d. case resolve_target_devices (dict_of (dget d ''target'')) (snd s1) of
                               None \<Rightarrow> Inl PyError | Some ids \<Rightarrow> Inr (d, VStr did \<in> set ids)) rules) of
             Inl e \<Rightarrow> Inl e
           | Inr ds \<Rightarrow> Inr (map fst (filter snd ds), s1)))"


text \<open>The events of a rule, newest first, without the row number that the database assigns.\<close>

definition list_recent_events :: "string \<Rightarrow> nat \<Rightarrow> hub \<Rightarrow> pydict list" where
  "list_recent_events i limit h =
     map (\<lambda>e. [(''at'', VStr (iso_z (pe_at e))), (''outcome'', VStr (pe_outcome e)), (''details'', VDict (pe_details e))])
       (take limit (sort_key (\<lambda>e. - pe_at e) (filter (\<lambda>e. pe_rule_id e = i) (h_probe_events h))))"

section \<open>Changing rules\<close>

definition rule_obj :: "string option \<Rightarrow> bool \<Rightarrow> flush_obj" where
  "rule_obj org modified = \<lparr>fo_class = ''WatchdogRule'', fo_org = org, fo_modified = modified\<rparr>"

definition fk_ok :: "string option \<Rightarrow> (string \<Rightarrow> 'r option) \<Rightarrow> bool" where
  "fk_ok ref get = (case ref of None \<Rightarrow> True | Some i \<Rightarrow> get i \<noteq> None)"

text \<open>NOT NULL and the foreign keys of a rule.\<close>

definition rule_fits :: "watchdog_rule \<Rightarrow> hub \<Rightarrow> bool" where
  "rule_fits r h \<longleftrightarrow>
     (case wr_organization_id r of None \<Rightarrow> False | Some org \<Rightarrow> tget org_id org (h_organizations h) \<noteq> None)
     \<and> fk_ok (wr_site_id r) (\<lambda>i. get_site i h) \<and> fk_ok (wr_created_by_user_id r) (\<lambda>i. tget usr_id i (h_users h))"

definition text_or_none :: "string option \<Rightarrow> string option" where
  "text_or_none d = (case d of Some (c # cs) \<Rightarrow> Some (c # cs) | _ \<Rightarrow> None)"

definition the_int :: "pyval \<Rightarrow> int" where
  "the_int v = (case py_int v of None \<Rightarrow> 0 | Some n \<Rightarrow> n)"

text \<open>The columns both operations set from the form, once \<open>int()\<close> is known to succeed on every number.\<close>

definition apply_form :: "rule_form \<Rightarrow> string \<Rightarrow> watchdog_rule \<Rightarrow> watchdog_rule" where
  "apply_form f name r = r\<lparr>wr_name := name, wr_description := text_or_none (wf_description f), wr_site_id := wf_site_id f,
     wr_probe := dict_of (wf_probe f), wr_target := dict_of (wf_target f), wr_action := dict_of (wf_action f),
     wr_failure_threshold := the_int (wf_failure_threshold f), wr_recovery_threshold := the_int (wf_recovery_threshold f),
     wr_window_seconds := the_int (wf_window_seconds f), wr_cooldown_seconds := the_int (wf_cooldown_seconds f),
     wr_max_retries := the_int (wf_max_retries f), wr_retry_delay_seconds := the_int (wf_retry_delay_seconds f),
     wr_escalation := (case wf_escalation f of Some (x # xs) \<Rightarrow> x # xs | _ \<Rightarrow> [(''kind'', VStr ''stop'')]),
     wr_maintenance_windows := (case wf_maintenance_windows f of None \<Rightarrow> [] | Some ws \<Rightarrow> ws)\<rparr>"

definition extra_ints_ok :: "rule_form \<Rightarrow> bool" where
  "extra_ints_ok f \<longleftrightarrow> py_int (wf_max_retries f) \<noteq> None \<and> py_int (wf_retry_delay_seconds f) \<noteq> None"

definition blank_rule :: "env \<Rightarrow> rule_form \<Rightarrow> string \<Rightarrow> string option \<Rightarrow> watchdog_rule" where
  "blank_rule E f i org = \<lparr>wr_id = i, wr_organization_id = org, wr_site_id = None, wr_name = [], wr_description = None,
     wr_enabled = True, wr_status = ''armed'', wr_probe = [], wr_failure_threshold = 3, wr_recovery_threshold = 2,
     wr_window_seconds = 60, wr_cooldown_seconds = 300, wr_target = [], wr_action = [], wr_max_retries = 3,
     wr_retry_delay_seconds = 60, wr_escalation = [], wr_maintenance_windows = [], wr_created_by_user_id = wf_user_id f,
     wr_created_at = env_now E, wr_updated_at = env_now E, wr_failure_streak = 0, wr_recovery_streak = 0,
     wr_last_probed_at = None, wr_last_action_at = None, wr_last_outcome = None\<rparr>"

definition create_rule :: "env \<Rightarrow> rule_form \<Rightarrow> ctx \<times> hub \<Rightarrow> rule_error + (pydict \<times> ctx \<times> hub)" where
  "create_rule E f s =
     (case validate_rule_inputs E f of
        Inl e \<Rightarrow> Inl e
      | Inr name \<Rightarrow>
          (if \<not> extra_ints_ok f then Inl PyError
           else case stamp_and_guard_tenant_writes E [rule_obj None True] [] s of
             Inl e \<Rightarrow> Inl (RuleRefused e)
           | Inr (new, _, c, h) \<Rightarrow>
               (let r = apply_form f name (blank_rule E f (new_id (env_ulid E) ''wdr'' (h_ulid h)) (fo_org (hd new))) in
                if \<not> rule_fits r h \<or> tget wr_id (wr_id r) (h_rules h) \<noteq> None then Inl RuleIntegrityError
                else case with_sentence E Map.empty Map.empty r of
                  Inl e \<Rightarrow> Inl e
                | Inr d \<Rightarrow> Inr (d, c, h\<lparr>h_rules := tadd r (h_rules h), h_ulid := Suc (h_ulid h)\<rparr>))))"

text \<open>A change starts the state machine afresh: both streaks are reset, and an enabled rule is armed.\<close>

definition rearmed :: "env \<Rightarrow> watchdog_rule \<Rightarrow> watchdog_rule" where
  "rearmed E r = r\<lparr>wr_failure_streak := 0, wr_recovery_streak := 0,
     wr_status := (if wr_enabled r \<and> wr_status r \<noteq> ''disabled'' then ''armed'' else wr_status r), wr_updated_at := env_now E\<rparr>"

text \<open>Flushing a changed rule through the write guard.\<close>

definition flush_rule :: "env \<Rightarrow> watchdog_rule \<Rightarrow> watchdog_rule \<Rightarrow> ctx \<times> hub \<Rightarrow> rule_error + (watchdog_rule \<times> ctx \<times> hub)" where
  "flush_rule E r0 r s =
     (case stamp_and_guard_tenant_writes E [] [rule_obj (wr_organization_id r) (r \<noteq> r0)] s of
        Inl e \<Rightarrow> Inl (RuleRefused e)
      | Inr (_, dirty, c, h) \<Rightarrow>
          (let r' = r\<lparr>wr_organization_id := fo_org (hd dirty)\<rparr> in
           if rule_fits r' h then Inr (r', c, put_rule r' h) else Inl RuleIntegrityError))"

definition update_rule :: "env \<Rightarrow> string \<Rightarrow> rule_form \<Rightarrow> ctx \<times> hub \<Rightarrow> rule_error + (pydict option \<times> ctx \<times> hub)" where
  "update_rule E i f s =
     (case validate_rule_inputs E f of
        Inl e \<Rightarrow> Inl e
      | Inr name \<Rightarrow>
          (let (rows, s1) = select_rules E s in
           case tget wr_id i rows of
             None \<Rightarrow> Inr (None, s1)
           | Some r0 \<Rightarrow>
               (if \<not> extra_ints_ok f then Inl PyError
                else case flush_rule E r0 (rearmed E (apply_form f name r0)) s1 of
                  Inl e \<Rightarrow> Inl e
                | Inr (r, s2) \<Rightarrow>
                    (case with_sentence E Map.empty Map.empty r of Inl e \<Rightarrow> Inl e | Inr d \<Rightarrow> Inr (Some d, s2)))))"

text \<open>The probe events of a deleted rule go with it.\<close>

definition delete_rule :: "env \<Rightarrow> string \<Rightarrow> ctx \<times> hub \<Rightarrow> rule_error + (bool \<times> ctx \<times> hub)" where
  "delete_rule E i s =
     (let (rows, s1) = select_rules E s in
      case tget wr_id i rows of
        None \<Rightarrow> Inr (False, s1)
      | Some _ \<Rightarrow>
          (case stamp_and_guard_tenant_writes E [] [] s1 of
             Inl e \<Rightarrow> Inl (RuleRefused e)
           | Inr (_, _, c, h) \<Rightarrow>
               Inr (True, c, h\<lparr>h_rules := tdel wr_id i (h_rules h),
                               h_probe_events := filter (\<lambda>e. pe_rule_id e \<noteq> i) (h_probe_events h)\<rparr>)))"

definition set_rule_enabled :: "env \<Rightarrow> string \<Rightarrow> bool \<Rightarrow> ctx \<times> hub \<Rightarrow> rule_error + (bool \<times> ctx \<times> hub)" where
  "set_rule_enabled E i enabled s =
     (let (rows, s1) = select_rules E s in
      case tget wr_id i rows of
        None \<Rightarrow> Inr (False, s1)
      | Some r0 \<Rightarrow>
          (case flush_rule E r0 (r0\<lparr>wr_enabled := enabled, wr_status := (if enabled then ''armed'' else ''disabled''),
                                   wr_updated_at := env_now E\<rparr>) s1 of
             Inl e \<Rightarrow> Inl e
           | Inr (_, s2) \<Rightarrow> Inr (True, s2)))"

text \<open>The diagnostic probe: one event, no change of the rule and no action.\<close>

definition probe_now :: "env \<Rightarrow> probe_fn \<Rightarrow> string \<Rightarrow> ctx \<times> hub \<Rightarrow> rule_error + (pydict option \<times> ctx \<times> hub)" where
  "probe_now E probe i s =
     (let (rows, s1) = select_rules E s in
      case tget wr_id i rows of
        None \<Rightarrow> Inr (None, s1)
      | Some r \<Rightarrow>
          (let (outcome, details0) = (case probe (snd s1) r of Inl e \<Rightarrow> (''probe_error'', [(''error'', VStr e)]) | Inr od \<Rightarrow> od);
               details = dset details0 ''via'' (VStr ''probe_now'')
           in case stamp_and_guard_tenant_writes E [] [] s1 of
                Inl e \<Rightarrow> Inl (RuleRefused e)
              | Inr (_, _, c, h) \<Rightarrow>
                  Inr (Some [(''outcome'', VStr outcome), (''details'', VDict details), (''at'', VStr (iso_z (env_now E)))],
                       c, record_event r outcome details (env_now E) h)))"

end
