(* ===== verification/Conflicts.thy ===== *)
theory Conflicts
  imports Rules Schedules DeviceConfig "HOL-Library.Product_Lexorder"
begin

text \<open>
  Which rules and schedules a proposed rule would fight (\<open>app/services/conflict_detection.py\<close>), and the list of
  schedules it looks at (\<open>list_all\<close>, \<open>serialize\<close> and \<open>render_sentence\<close> of \<open>app/services/schedules.py\<close>).
  The rules it compares with are the dicts of \<open>list_rules\<close>. The iteration order of a Python set is the
  argument \<open>arrange\<close>.
\<close>

section \<open>Listing schedules\<close>

definition DAY_NAMES :: "string list" where
  "DAY_NAMES = [''Mon'', ''Tue'', ''Wed'', ''Thu'', ''Fri'', ''Sat'', ''Sun'']"

definition em_dash :: string where
  "em_dash = [CHR 0xE2, CHR 0x80, CHR 0x94]"

definition py_capitalize :: "string \<Rightarrow> string" where
  "py_capitalize s = py_upper (take 1 s) @ py_lower (drop 1 s)"

text \<open>\<open>_DAY_NAMES[d] for d in weekdays if 0 <= d < 7\<close>; only an integer compares and indexes.\<close>

fun day_names :: "pyval list \<Rightarrow> string list option" where
  "day_names [] = Some []"
| "day_names (d # ds) =
     (if \<not> is_int d then None
      else map_option (\<lambda>ns. if 0 \<le> int_of d \<and> int_of d < 7 then DAY_NAMES ! nat (int_of d) # ns else ns) (day_names ds))"

definition schedule_target_text :: "env \<Rightarrow> pydict \<Rightarrow> string" where
  "schedule_target_text E t =
     (if kind_in t [''device''] then ''device '' @ py_str E (dget t ''id'')
      else if kind_in t [''group''] then ''group '' @ py_str E (dget t ''id'')
      else if kind_in t [''tag''] then ''tag `'' @ py_str E (dget t ''tag'') @ ''`''
      else ''?'')"

definition opt_text :: "string option \<Rightarrow> string" where
  "opt_text s = (case s of None \<Rightarrow> ''None'' | Some x \<Rightarrow> x)"

definition schedule_sentence :: "env \<Rightarrow> schedule \<Rightarrow> string option" where
  "schedule_sentence E s =
     (let action =
            (if sch_kind s = ''power_cycle'' then
               ''power-cycle ('' @ int_text (sch_power_off_seconds s) @ ''s off) '' @ schedule_target_text E (sch_target s)
             else if sch_kind s = ''maintenance'' then
               ''pause watchdog rules for '' @ int_text (max (sch_duration_seconds s div 60) 1) @ '' min''
             else ''unknown action `'' @ sch_kind s @ ''`'');
          sentence = (\<lambda>when. py_capitalize action @ '' '' @ em_dash @ '' '' @ when @ ''.'')
      in if sch_recurrence s = ''once'' then
           Some (sentence (case sch_start_at s of None \<Rightarrow> ''once (no start time set)''
                           | Some t \<Rightarrow> ''once at '' @ take 16 (iso_z t) @ ''Z''))
         else if sch_recurrence s = ''daily'' then Some (sentence (''every day at '' @ opt_text (sch_at_time_utc s) @ '' UTC''))
         else if sch_recurrence s = ''weekly'' then
           map_option (\<lambda>days. sentence (''every week on '' @ join_with '', '' days @ '' at '' @ opt_text (sch_at_time_utc s) @ '' UTC''))
             (day_names (sch_weekdays s))
         else Some (sentence ''?''))"

definition serialize_schedule :: "env \<Rightarrow> schedule \<Rightarrow> rule_error + pydict" where
  "serialize_schedule E s =
     (case schedule_sentence E s of
        None \<Rightarrow> Inl PyError
      | Some sentence \<Rightarrow> Inr
          [(''id'', VStr (sch_id s)), (''name'', VStr (sch_name s)), (''description'', of_opt_str (sch_description s)),
           (''enabled'', VBool (sch_enabled s)), (''kind'', VStr (sch_kind s)), (''recurrence'', VStr (sch_recurrence s)),
           (''at_time_utc'', of_opt_str (sch_at_time_utc s)), (''weekdays'', VList (sch_weekdays s)),
           (''start_at'', rule_time (sch_start_at s)), (''duration_seconds'', VInt (sch_duration_seconds s)),
           (''target'', VDict (sch_target s)), (''power_off_seconds'', VInt (sch_power_off_seconds s)),
           (''post_reboot_holdoff_seconds'', VInt (sch_post_reboot_holdoff_seconds s)), (''last_run_at'', rule_time (sch_last_run_at s)),
           (''next_run_at'', rule_time (sch_next_run_at s)), (''last_outcome'', of_opt_str (sch_last_outcome s)),
           (''created_at'', VStr (iso_z (sch_created_at s))), (''sentence'', VStr sentence)])"

definition select_schedules :: "env \<Rightarrow> ctx \<times> hub \<Rightarrow> schedule list \<times> ctx \<times> hub" where
  "select_schedules E s = select_scoped E ''schedules'' sch_organization_id h_schedules s"

definition list_schedules :: "env \<Rightarrow> ctx \<times> hub \<Rightarrow> rule_error + (pydict list \<times> ctx \<times> hub)" where
  "list_schedules E s =
     (let (rows, s1) = select_schedules E s in
      case all_of (map (serialize_schedule E) (sort_key (\<lambda>r. - sch_created_at r) rows)) of
        Inl e \<Rightarrow> Inl e
      | Inr out \<Rightarrow> Inr (out, s1))"

definition get_schedule_view :: "env \<Rightarrow> string \<Rightarrow> ctx \<times> hub \<Rightarrow> rule_error + (pydict option \<times> ctx \<times> hub)" where
  "get_schedule_view E i s =
     (let (rows, s1) = select_schedules E s in
      case tget sch_id i rows of
        None \<Rightarrow> Inr (None, s1)
      | Some r \<Rightarrow> (case serialize_schedule E r of Inl e \<Rightarrow> Inl e | Inr d \<Rightarrow> Inr (Some d, s1)))"

definition list_schedules_for_device :: "env \<Rightarrow> string \<Rightarrow> ctx \<times> hub \<Rightarrow> rule_error + (pydict list \<times> ctx \<times> hub)" where
  "list_schedules_for_device E did s =
     (case list_schedules E s of
        Inl e \<Rightarrow> Inl e
      | Inr (scheds, s1) \<Rightarrow>
          (case all_of (map (\<lambda>d. case resolve_target_devices (dict_of (dget d ''target'')) (snd s1) of
                               None \<Rightarrow> Inl PyError | Some ids \<Rightarrow> Inr (d, VStr did \<in> set ids)) scheds) of
             Inl e \<Rightarrow> Inl e
           | Inr ds \<Rightarrow> Inr (map fst (filter snd ds), s1)))"

section \<open>What an action does to power\<close>

text \<open>The sides of a binding are dicts in every stored rule and every form.\<close>

definition leaf_action_kinds :: "pydict \<Rightarrow> pyval list" where
  "leaf_action_kinds a =
     (if kind_in a [''binding'']
      then filter truthy [dget (dict_of (dget a ''on_active'')) ''kind'', dget (dict_of (dget a ''on_clear'')) ''kind'']
      else filter truthy [dget a ''kind''])"

definition KEEP_ON_ACTIONS :: "string list" where "KEEP_ON_ACTIONS = [''relay_on'']"
definition KEEP_OFF_ACTIONS :: "string list" where "KEEP_OFF_ACTIONS = [''hold_off'', ''relay_off'']"
definition CYCLE_ACTIONS :: "string list" where "CYCLE_ACTIONS = [''cycle'']"

definition any_kind :: "pydict \<Rightarrow> string list \<Rightarrow> bool" where
  "any_kind a ks = list_ex (\<lambda>k. VStr k \<in> set (leaf_action_kinds a)) ks"

definition action_drives_power :: "pydict \<Rightarrow> bool" where
  "action_drives_power a = any_kind a (KEEP_ON_ACTIONS @ KEEP_OFF_ACTIONS @ CYCLE_ACTIONS)"

definition power_intents :: "pydict \<Rightarrow> string list" where
  "power_intents a =
     (if any_kind a KEEP_ON_ACTIONS then [''on''] else []) @ (if any_kind a KEEP_OFF_ACTIONS then [''off''] else [])
     @ (if any_kind a CYCLE_ACTIONS then [''cycle''] else [])"

section \<open>Signatures\<close>

text \<open>The normal form of the targets of an internet probe; an entry without a dict is skipped.\<close>

definition target_entry :: "env \<Rightarrow> pydict \<Rightarrow> rule_error + string \<times> int" where
  "target_entry E t =
     (case py_int (if truthy (get_or t ''port'' (VInt 0)) then get_or t ''port'' (VInt 0) else VInt 0) of
        None \<Rightarrow> Inl PyError
      | Some p \<Rightarrow> Inr (py_str E (get_or t ''host'' (VStr [])), p))"

definition probe_signature :: "env \<Rightarrow> pydict \<Rightarrow> rule_error + pyval list" where
  "probe_signature E p =
     (if kind_in p [''internet''] then
        (case (case dget p ''targets'' of VList ts \<Rightarrow> all_of (map (target_entry E \<circ> dict_of) (filter is_dict ts)) | _ \<Rightarrow> Inr []) of
           Inl e \<Rightarrow> Inl e
         | Inr xs \<Rightarrow> Inr [VStr ''internet'', VList (map (\<lambda>(h, n). VList [VStr h, VInt n]) (sort xs))])
      else Inr (if kind_in p [''ping''] then [VStr ''ping'', dget p ''host'']
        else if kind_in p [''tcp''] then [VStr ''tcp'', dget p ''host'', dget p ''port'']
        else if kind_in p [''http''] then [VStr ''http'', dget p ''url'']
        else if kind_in p [''dns''] then [VStr ''dns'', dget p ''hostname'']
        else if kind_in p [''gateway''] then [VStr ''gateway'']
        else if kind_in p [''power_above'', ''power_below'', ''power_zero_while_on''] then
          [dget p ''kind'', dget p ''device_id'', dget p ''threshold_w'', dget p ''near_zero_threshold_w'']
        else map (dget p) [''kind'', ''source_id'', ''entity_id'', ''app_name'', ''topic'', ''field'', ''interface'', ''show'']))"

definition action_signature :: "pydict \<Rightarrow> pyval list" where
  "action_signature a =
     (if kind_in a [''cycle''] then [VStr ''cycle'', dget a ''power_off_seconds'']
      else if kind_in a [''binding''] then
        (let on = dict_of (dget a ''on_active''); off = dict_of (dget a ''on_clear'')
         in [VStr ''binding'', dget on ''kind'', dget on ''scene_id'', dget off ''kind'', dget off ''scene_id''])
      else if kind_in a [''apply_scene''] then [VStr ''apply_scene'', dget a ''scene_id'']
      else [dget a ''kind''])"

definition py_or :: "pyval \<Rightarrow> pyval \<Rightarrow> pyval" where
  "py_or a b = (if truthy a then a else b)"

definition rule_signature :: "env \<Rightarrow> pydict \<Rightarrow> pydict \<Rightarrow> pydict \<Rightarrow> rule_error + pyval list list" where
  "rule_signature E probe action target =
     (case probe_signature E probe of
        Inl e \<Rightarrow> Inl e
      | Inr ps \<Rightarrow> Inr [ps, action_signature action, [dget target ''kind''], [py_or (dget target ''id'') (dget target ''tag'')]])"

definition holdoff_seconds :: "pydict \<Rightarrow> int option" where
  "holdoff_seconds a =
     (if \<not> kind_in a [''cycle''] \<or> dget a ''post_reboot_holdoff_seconds'' = VNone then None
      else py_int (dget a ''post_reboot_holdoff_seconds''))"

section \<open>The findings\<close>

datatype severity = Block | Warn | Info

datatype conflict_kind =
    ContradictoryActions
  | WatchdogVsSchedule
  | OverlappingSchedules
  | DuplicateRule
  | PowerCycleLoop
  | ModeRuleMismatch

record finding =
  cf_severity :: severity
  cf_kind :: conflict_kind
  cf_message :: string
  cf_related :: "pyval list"

text \<open>A rule as it is proposed: by a form, or a stored one.\<close>

record proposal =
  pp_probe :: pydict
  pp_target :: pydict
  pp_action :: pydict
  pp_failure_threshold :: pyval
  pp_window_seconds :: pyval
  pp_cooldown_seconds :: pyval

text \<open>\<open>set(resolve_target_devices(target))\<close>; whatever it raises, no devices.\<close>

definition conflict_devices :: "pydict \<Rightarrow> hub \<Rightarrow> pyval list" where
  "conflict_devices target h =
     (case resolve_target_devices target h of
        None \<Rightarrow> []
      | Some ids \<Rightarrow> (if list_ex (\<lambda>v. case v of VList _ \<Rightarrow> True | VDict _ \<Rightarrow> True | _ \<Rightarrow> False) ids then [] else remdups ids))"

definition shared_devices :: "pyval list \<Rightarrow> pyval list \<Rightarrow> pyval list" where
  "shared_devices a b = filter (\<lambda>v. v \<in> set b) a"

fun text_of :: "pyval \<Rightarrow> string" where
  "text_of (VStr s) = s"
| "text_of _ = []"

text \<open>\<open>sorted(...)\<close> of device ids, which are strings, or one single other value.\<close>

definition sorted_ids :: "pyval list \<Rightarrow> pyval list" where
  "sorted_ids = sort_key text_of"

definition of_dict :: "pydict \<Rightarrow> string \<Rightarrow> pydict" where
  "of_dict d k = dict_of (dget d k)"

definition opposite :: "string list \<Rightarrow> string list \<Rightarrow> bool" where
  "opposite a b \<longleftrightarrow> ''on'' \<in> set a \<and> ''off'' \<in> set b \<or> ''off'' \<in> set a \<and> ''on'' \<in> set b"

definition quote_char :: string where "quote_char = [CHR 0x22]"

definition check_contradictions :: "pyval list \<Rightarrow> string list \<Rightarrow> hub \<Rightarrow> pydict list \<Rightarrow> finding list" where
  "check_contradictions devices intents h rules =
     concat (map (\<lambda>r. let shared = shared_devices devices (conflict_devices (of_dict r ''target'') h) in
        if shared \<noteq> [] \<and> opposite intents (power_intents (of_dict r ''action'')) then
          [\<lparr>cf_severity = Block, cf_kind = ContradictoryActions,
            cf_message = ''This rule and rule '' @ quote_char @ text_of (dget r ''name'') @ quote_char
              @ '' drive opposite power states on the same device '' @ em_dash
              @ '' one wants power ON, the other OFF. Mains power would stick or oscillate.'',
            cf_related = dget r ''id'' # sorted_ids shared\<rparr>]
        else []) rules)"

definition check_schedules :: "pyval list \<Rightarrow> string list \<Rightarrow> hub \<Rightarrow> pydict list \<Rightarrow> finding list" where
  "check_schedules devices intents h scheds =
     concat (map (\<lambda>s. let shared = shared_devices devices (conflict_devices (of_dict s ''target'') h); off = ''off'' \<in> set intents in
        if kind_in s [''power_cycle''] \<and> shared \<noteq> [] then
          [\<lparr>cf_severity = (if off then Block else Warn), cf_kind = WatchdogVsSchedule,
            cf_message = ''This rule and schedule '' @ quote_char @ text_of (dget s ''name'') @ quote_char
              @ '' both control power on the same device '' @ em_dash @ '' ''
              @ (if off then ''the rule holds the device powered off while the schedule power-cycles it on a timer '' @ em_dash @ '' they fight.''
                 else ''both act on the device'' @ [CHR 0x27] @ ''s power '' @ em_dash
                   @ '' confirm the timed cycle will not interrupt the watchdog'' @ [CHR 0x27] @ ''s recovery.''),
            cf_related = dget s ''id'' # sorted_ids shared\<rparr>]
        else []) scheds)"

text \<open>Grouping keeps the order in which keys first occur.\<close>

definition first_keys :: "('k \<times> 'a) list \<Rightarrow> 'k list" where
  "first_keys kvs = rev (remdups (rev (map fst kvs)))"

definition schedule_slots :: "(pyval list \<Rightarrow> pyval list) \<Rightarrow> pyval list \<Rightarrow> hub \<Rightarrow> pydict list \<Rightarrow> ((pyval \<times> pyval) \<times> pydict) list" where
  "schedule_slots arrange devices h scheds =
     concat (map (\<lambda>s. let slot = py_or (dget s ''at_time_utc'') (dget s ''start_at'') in
        if kind_in s [''power_cycle''] \<and> truthy slot
        then map (\<lambda>dev. ((dev, slot), s)) (arrange (shared_devices devices (conflict_devices (of_dict s ''target'') h)))
        else []) scheds)"

definition check_overlaps :: "(pyval list \<Rightarrow> pyval list) \<Rightarrow> pyval list \<Rightarrow> hub \<Rightarrow> pydict list \<Rightarrow> finding list" where
  "check_overlaps arrange devices h scheds =
     (let slots = schedule_slots arrange devices h scheds in
      concat (map (\<lambda>k. let slot = map snd (filter (\<lambda>kv. fst kv = k) slots) in
        if 1 < length slot then
          [\<lparr>cf_severity = Warn, cf_kind = OverlappingSchedules,
            cf_message = ''The device this rule targets already has '' @ dec (length slot) @ '' power schedules firing at ''
              @ text_of (snd k) @ '' '' @ em_dash @ '' overlapping power actions at the same time.'',
            cf_related = map (\<lambda>s. dget s ''id'') slot @ [fst k]\<rparr>]
        else []) (first_keys slots)))"

definition check_duplicates :: "env \<Rightarrow> pyval list list \<Rightarrow> pydict list \<Rightarrow> rule_error + finding list" where
  "check_duplicates E sig rules =
     (case all_of (map (\<lambda>r. rule_signature E (of_dict r ''probe'') (of_dict r ''action'') (of_dict r ''target'')) rules) of
        Inl e \<Rightarrow> Inl e
      | Inr sigs \<Rightarrow> Inr (map (\<lambda>(r, _).
          \<lparr>cf_severity = Info, cf_kind = DuplicateRule,
           cf_message = ''Rule '' @ quote_char @ text_of (dget r ''name'') @ quote_char @ '' already does the same thing '' @ em_dash
             @ '' same probe, same target, same action. This rule is likely redundant.'',
           cf_related = [dget r ''id'']\<rparr>)
          (filter (\<lambda>(_, other). list_all2 (list_all2 py_eq) other sig) (zip rules sigs))))"

definition loop_finding :: "string \<Rightarrow> finding" where
  "loop_finding m = \<lparr>cf_severity = Warn, cf_kind = PowerCycleLoop, cf_message = m, cf_related = []\<rparr>"

definition int_or_none :: "pyval \<Rightarrow> int option" where
  "int_or_none v = (if v = VNone then None else py_int v)"

definition check_timing :: "proposal \<Rightarrow> finding list" where
  "check_timing p =
     (case holdoff_seconds (pp_action p) of
        None \<Rightarrow> []
      | Some holdoff \<Rightarrow>
          (case int_or_none (pp_cooldown_seconds p) of
             None \<Rightarrow> []
           | Some cooldown \<Rightarrow>
               (if cooldown < holdoff then
                  [loop_finding (''cooldown_seconds ('' @ int_text cooldown @ ''s) is shorter than this rule'' @ [CHR 0x27] @ ''s post-reboot hold-off (''
                     @ int_text holdoff @ ''s) '' @ em_dash
                     @ '' the rule can re-fire before the device has finished coming back, causing a power-cycle loop.'')]
                else []))
          @ (case (int_or_none (pp_failure_threshold p), int_or_none (pp_window_seconds p)) of
               (Some ft, Some ws) \<Rightarrow>
                 (if ft \<noteq> 0 \<and> ws \<noteq> 0 \<and> ft * ws < holdoff then
                    [loop_finding (''failure_threshold x window_seconds ('' @ int_text ft @ '' x '' @ int_text ws @ '' = '' @ int_text (ft * ws)
                       @ ''s) is shorter than the post-reboot hold-off ('' @ int_text holdoff @ ''s) '' @ em_dash
                       @ '' the device cannot finish rebooting before the rule fires again.'')]
                  else [])
             | _ \<Rightarrow> []))"

definition check_modes :: "pyval list \<Rightarrow> hub \<Rightarrow> finding list" where
  "check_modes devices h =
     concat (map (\<lambda>v. case get_device (text_of v) h of
        None \<Rightarrow> []
      | Some d \<Rightarrow> (if dev_desired_mode d = Some ''smart_plug'' then
          [\<lparr>cf_severity = Warn, cf_kind = ModeRuleMismatch,
            cf_message = ''Device '' @ quote_char @ (if dev_display_name d \<noteq> [] then dev_display_name d else text_of v) @ quote_char
              @ '' is set to smart-plug mode, which is not meant to run watchdog rules. Confirm you meant to change the device''
              @ [CHR 0x27] @ ''s role.'',
            cf_related = [v]\<rparr>]
        else [])) (sorted_ids (filter is_str devices)))"

fun severity_rank :: "severity \<Rightarrow> nat" where
  "severity_rank Block = 0"
| "severity_rank Warn = 1"
| "severity_rank Info = 2"

definition detect_conflicts ::
  "env \<Rightarrow> (pyval list \<Rightarrow> pyval list) \<Rightarrow> proposal \<Rightarrow> string option \<Rightarrow> ctx \<times> hub \<Rightarrow> rule_error + (finding list \<times> ctx \<times> hub)" where
  "detect_conflicts E arrange p exclude s =
     (case list_rules E None s of
        Inl e \<Rightarrow> Inl e
      | Inr (all_rules, s1) \<Rightarrow>
          (case list_schedules E s1 of
             Inl e \<Rightarrow> Inl e
           | Inr (scheds, c, h) \<Rightarrow>
               (let rules = filter (\<lambda>r. dget r ''id'' \<noteq> of_opt_str exclude) all_rules;
                    devices = conflict_devices (pp_target p) h;
                    intents = power_intents (pp_action p);
                    drives = action_drives_power (pp_action p)
                in case rule_signature E (pp_probe p) (pp_action p) (pp_target p) of
                     Inl e \<Rightarrow> Inl e
                   | Inr sig \<Rightarrow>
                       (case check_duplicates E sig rules of
                          Inl e \<Rightarrow> Inl e
                        | Inr dups \<Rightarrow>
                            Inr (sort_key (severity_rank \<circ> cf_severity)
                                   ((if drives then check_contradictions devices intents h rules @ check_schedules devices intents h scheds else [])
                                    @ check_overlaps arrange devices h scheds @ dups @ check_timing p
                                    @ (if drives then check_modes devices h else [])),
                                 c, h)))))"

definition has_blocking :: "finding list \<Rightarrow> bool" where
  "has_blocking fs = list_ex (\<lambda>f. cf_severity f = Block) fs"


section \<open>When a finding blocks\<close>

lemma has_blocking_simps [simp]:
  "has_blocking [] = False" "has_blocking (a @ b) \<longleftrightarrow> has_blocking a \<or> has_blocking b"
  "has_blocking (f # fs) \<longleftrightarrow> cf_severity f = Block \<or> has_blocking fs"
  by (simp_all add: has_blocking_def)

lemma has_blocking_concat: "has_blocking (concat (map f xs)) \<longleftrightarrow> (\<exists>x\<in>set xs. has_blocking (f x))"
  by (auto simp: has_blocking_def list_ex_iff)

lemma has_blocking_sort [simp]: "has_blocking (sort_key k fs) \<longleftrightarrow> has_blocking fs"
  by (simp add: has_blocking_def list_ex_iff)

lemma contradictions_block:
  "has_blocking (check_contradictions devices intents h rules) \<longleftrightarrow>
     (\<exists>r\<in>set rules. shared_devices devices (conflict_devices (of_dict r ''target'') h) \<noteq> [] \<and> opposite intents (power_intents (of_dict r ''action'')))"
  unfolding check_contradictions_def has_blocking_concat by (rule bex_cong) (simp_all add: Let_def)

lemma schedules_block:
  "has_blocking (check_schedules devices intents h scheds) \<longleftrightarrow>
     ''off'' \<in> set intents \<and> (\<exists>s\<in>set scheds. kind_in s [''power_cycle'']
        \<and> shared_devices devices (conflict_devices (of_dict s ''target'') h) \<noteq> [])"
  unfolding check_schedules_def has_blocking_concat by (auto simp: Let_def split: if_splits)

lemma others_never_block [simp]:
  "\<not> has_blocking (check_overlaps arrange devices h scheds)" "\<not> has_blocking (check_timing p)" "\<not> has_blocking (check_modes devices h)"
  by (auto simp: check_overlaps_def check_timing_def check_modes_def loop_finding_def Let_def has_blocking_concat split: option.splits if_splits)

lemma duplicates_never_block: "check_duplicates E sig rules = Inr dups \<Longrightarrow> \<not> has_blocking dups"
  by (auto simp: check_duplicates_def has_blocking_def list_ex_iff split: sum.splits prod.splits)

lemma intents_drive: "power_intents a \<noteq> [] \<longleftrightarrow> action_drives_power a"
  by (auto simp: power_intents_def action_drives_power_def any_kind_def KEEP_ON_ACTIONS_def KEEP_OFF_ACTIONS_def CYCLE_ACTIONS_def)

lemma all_of_map_Inr [simp]: "all_of (map Inr ys) = Inr ys"
  by (induction ys) simp_all

lemma all_of_InrD: "all_of xs = Inr ys \<Longrightarrow> xs = map Inr ys"
  by (induction xs arbitrary: ys rule: all_of.induct) (auto split: sum.splits)

text \<open>The dicts that are listed are the visible rows.\<close>

lemma with_sentence_dict: "with_sentence E ds gs r = Inr d \<Longrightarrow> \<exists>t. d = serialize_rule r t"
  by (auto simp: with_sentence_def split: option.splits)

lemma serialize_rule_get [simp]:
  "dget (serialize_rule r t) ''id'' = VStr (wr_id r)" "dget (serialize_rule r t) ''target'' = VDict (wr_target r)"
  "dget (serialize_rule r t) ''action'' = VDict (wr_action r)" "dget (serialize_rule r t) ''probe'' = VDict (wr_probe r)"
  by (simp_all add: serialize_rule_def dget_def)

lemma rule_dicts:
  assumes "all_of (map (with_sentence E ds gs) rs) = Inr out"
  shows "length out = length rs \<and> (\<forall>n < length rs. \<exists>t. out ! n = serialize_rule (rs ! n) t)"
proof -
  have m: "map (with_sentence E ds gs) rs = map Inr out" by (rule all_of_InrD [OF assms])
  then have l: "length out = length rs" by (metis length_map)
  have "\<exists>t. out ! n = serialize_rule (rs ! n) t" if "n < length rs" for n
    using arg_cong [OF m, of "\<lambda>xs. xs ! n"] that l by (auto intro: with_sentence_dict)
  then show ?thesis using l by blast
qed

definition visible_rules :: "env \<Rightarrow> ctx \<times> hub \<Rightarrow> watchdog_rule list" where
  "visible_rules E s = fst (select_rules E s)"

lemma list_rules_bex:
  assumes "list_rules E None s = Inr (out, s1)" and "\<And>r t t'. P (serialize_rule r t) = P (serialize_rule r t')"
  shows "(\<exists>d\<in>set out. P d) \<longleftrightarrow> (\<exists>r\<in>set (visible_rules E s). P (serialize_rule r None))"
proof -
  obtain rs groups s2 where l: "listed_rules E None s = ((rs, groups), s2)" by (metis prod.exhaust)
  have rs: "set rs = set (visible_rules E s)"
    using l by (auto simp: listed_rules_def visible_rules_def rules_of_site_def Let_def split: prod.splits)
  have out: "all_of (map (with_sentence E (device_names (snd s)) groups) rs) = Inr out"
    using assms(1) l by (auto simp: list_rules_def split: sum.splits)
  note d = rule_dicts [OF out]
  have "(\<exists>d\<in>set out. P d) \<longleftrightarrow> (\<exists>r\<in>set rs. P (serialize_rule r None))"
    unfolding in_set_conv_nth Bex_def using d assms(2) by (metis (no_types, lifting))
  then show ?thesis by (simp add: rs)
qed


definition visible_schedules :: "env \<Rightarrow> ctx \<times> hub \<Rightarrow> schedule list" where
  "visible_schedules E s = fst (select_schedules E s)"

lemma serialize_schedule_get:
  "serialize_schedule E r = Inr d \<Longrightarrow> dget d ''kind'' = VStr (sch_kind r) \<and> dget d ''target'' = VDict (sch_target r)"
  by (auto simp: serialize_schedule_def dget_def split: option.splits)

lemma list_schedules_bex:
  assumes "list_schedules E s = Inr (out, s1)" and "\<And>r d. serialize_schedule E r = Inr d \<Longrightarrow> P d \<longleftrightarrow> Q r"
  shows "(\<exists>d\<in>set out. P d) \<longleftrightarrow> (\<exists>r\<in>set (visible_schedules E s). Q r)"
proof -
  obtain rows s2 where l: "select_schedules E s = (rows, s2)" by (metis prod.exhaust)
  let ?rs = "sort_key (\<lambda>r. - sch_created_at r) rows"
  have m: "map (serialize_schedule E) ?rs = map Inr out"
    using assms(1) l by (auto simp: list_schedules_def split: sum.splits intro: all_of_InrD)
  then have len: "length out = length ?rs" by (metis length_map)
  have "serialize_schedule E (?rs ! n) = Inr (out ! n)" if "n < length ?rs" for n
    using arg_cong [OF m, of "\<lambda>xs. xs ! n"] that len by simp
  then have "(\<exists>d\<in>set out. P d) \<longleftrightarrow> (\<exists>r\<in>set ?rs. Q r)"
    unfolding in_set_conv_nth Bex_def using assms(2) len by (metis (no_types, lifting))
  then show ?thesis by (simp add: visible_schedules_def l)
qed

lemma conflict_devices_audit [simp]: "conflict_devices t (h\<lparr>h_audit := a\<rparr>) = conflict_devices t h"
proof -
  have "group_device_ids g (h\<lparr>h_audit := a\<rparr>) = group_device_ids g h" for g by (simp add: group_device_ids_def)
  then have "resolve_target_devices t (h\<lparr>h_audit := a\<rparr>) = resolve_target_devices t h"
    by (simp add: resolve_target_devices_def Let_def split: option.split)
  then show ?thesis by (simp only: conflict_devices_def)
qed

lemma list_rules_frame:
  assumes "list_rules E site (c, h) = Inr (out, c', h')"
  shows "scope_eq E (h_settings h) c c' \<and> (\<exists>a. h' = h\<lparr>h_audit := a\<rparr>)"
proof -
  obtain rows c1 h1 where s1: "select_scoped E ''watchdog_rules'' wr_organization_id h_rules (c, h) = (rows, c1, h1)" by (metis prod_cases3)
  obtain gs c2 h2 where s2: "select_scoped E ''groups'' (Some \<circ> grp_organization_id) h_groups (c1, h1) = (gs, c2, h2)" by (metis prod_cases3)
  have "(c', h') = (c2, h2)"
    using assms s1 s2 by (auto simp: list_rules_def listed_rules_def select_rules_def Let_def split: sum.splits)
  moreover obtain a1 where h1: "h1 = h\<lparr>h_audit := a1\<rparr>" using select_scoped_frame(2) [OF s1] by blast
  moreover obtain a2 where "h2 = h1\<lparr>h_audit := a2\<rparr>" using select_scoped_frame(2) [OF s2] by blast
  moreover have "scope_eq E (h_settings h) c c2"
    using select_scoped_frame(1) [OF s1] select_scoped_frame(1) [OF s2] by (auto simp: h1 scope_eq_def)
  ultimately have "scope_eq E (h_settings h) c c'" "h' = h\<lparr>h_audit := a2\<rparr>" by simp_all
  then show ?thesis by blast
qed

lemma visible_schedules_again:
  assumes "scope_eq E (h_settings h) c c'"
  shows "visible_schedules E (c', h\<lparr>h_audit := a\<rparr>) = visible_schedules E (c, h)"
  unfolding visible_schedules_def select_schedules_def by (rule select_scoped_again [OF assms]) simp_all

definition touching :: "hub \<Rightarrow> pydict \<Rightarrow> pydict \<Rightarrow> bool" where
  "touching h t u \<longleftrightarrow> shared_devices (conflict_devices t h) (conflict_devices u h) \<noteq> []"

text \<open>C25: Detection blocks exactly when it should: some other rule the caller can see drives a device of the proposed
  rule the opposite way, or the proposed rule holds power off on a device that a power-cycle schedule
  switches. No other finding blocks, and the order in which sets are walked does not matter.\<close>

theorem blocking_iff:
  assumes "detect_conflicts E arrange p exclude (c, h) = Inr (fs, s')"
  shows "has_blocking fs \<longleftrightarrow>
      (\<exists>r\<in>set (visible_rules E (c, h)). Some (wr_id r) \<noteq> exclude \<and> touching h (pp_target p) (wr_target r)
         \<and> opposite (power_intents (pp_action p)) (power_intents (wr_action r)))
    \<or> ''off'' \<in> set (power_intents (pp_action p))
      \<and> (\<exists>s\<in>set (visible_schedules E (c, h)). sch_kind s = ''power_cycle'' \<and> touching h (pp_target p) (sch_target s))"
proof -
  let ?i = "power_intents (pp_action p)" and ?d = "conflict_devices (pp_target p) h"
  obtain all_rules c1 h1 where lr: "list_rules E None (c, h) = Inr (all_rules, c1, h1)"
    using assms by (auto simp: detect_conflicts_def split: sum.splits)
  obtain a where h1: "h1 = h\<lparr>h_audit := a\<rparr>" and sc: "scope_eq E (h_settings h) c c1" using list_rules_frame [OF lr] by blast
  obtain scheds c2 h2 where ls: "list_schedules E (c1, h1) = Inr (scheds, c2, h2)"
    using assms lr by (auto simp: detect_conflicts_def split: sum.splits)
  have "\<exists>b. h2 = h1\<lparr>h_audit := b\<rparr>"
    using ls select_scoped_frame(2) by (fastforce simp: list_schedules_def select_schedules_def split: sum.splits prod.splits)
  then obtain b where h2: "h2 = h\<lparr>h_audit := b\<rparr>" by (auto simp: h1)
  let ?rules = "filter (\<lambda>r. dget r ''id'' \<noteq> of_opt_str exclude) all_rules"
  obtain sig dups where dups: "check_duplicates E sig ?rules = Inr dups"
    and fs: "fs = sort_key (severity_rank \<circ> cf_severity)
       ((if action_drives_power (pp_action p) then check_contradictions ?d ?i h2 ?rules @ check_schedules ?d ?i h2 scheds else [])
        @ check_overlaps arrange ?d h2 scheds @ dups @ check_timing p @ (if action_drives_power (pp_action p) then check_modes ?d h2 else []))"
    using assms lr ls by (auto simp: detect_conflicts_def Let_def h2 split: sum.splits)
  have rules: "(\<exists>r\<in>set ?rules. shared_devices ?d (conflict_devices (of_dict r ''target'') h2) \<noteq> [] \<and> opposite ?i (power_intents (of_dict r ''action'')))
     \<longleftrightarrow> (\<exists>r\<in>set (visible_rules E (c, h)). Some (wr_id r) \<noteq> exclude \<and> touching h (pp_target p) (wr_target r)
         \<and> opposite ?i (power_intents (wr_action r)))"
    using list_rules_bex [OF lr, of "\<lambda>r. dget r ''id'' \<noteq> of_opt_str exclude \<and> shared_devices ?d (conflict_devices (of_dict r ''target'') h2) \<noteq> []
        \<and> opposite ?i (power_intents (of_dict r ''action''))"]
    by (auto simp: of_dict_def h2 touching_def of_opt_str_def split: option.splits)
  have "(\<exists>s\<in>set scheds. kind_in s [''power_cycle''] \<and> shared_devices ?d (conflict_devices (of_dict s ''target'') h2) \<noteq> [])
     \<longleftrightarrow> (\<exists>s\<in>set (visible_schedules E (c1, h1)). sch_kind s = ''power_cycle'' \<and> touching h (pp_target p) (sch_target s))"
    by (rule list_schedules_bex [OF ls]) (auto simp: of_dict_def h2 touching_def kind_in_def dest!: serialize_schedule_get)
  then have scheds: "(\<exists>s\<in>set scheds. kind_in s [''power_cycle''] \<and> shared_devices ?d (conflict_devices (of_dict s ''target'') h2) \<noteq> [])
     \<longleftrightarrow> (\<exists>s\<in>set (visible_schedules E (c, h)). sch_kind s = ''power_cycle'' \<and> touching h (pp_target p) (sch_target s))"
    by (simp add: h1 visible_schedules_again [OF sc])
  have idle: "?i = []" if "\<not> action_drives_power (pp_action p)" using intents_drive that by blast
  show ?thesis
    unfolding fs has_blocking_sort rules [symmetric] scheds [symmetric]
    using duplicates_never_block [OF dups] idle by (auto simp: contradictions_block schedules_block opposite_def)
qed


definition guard_rule :: watchdog_rule where
  "guard_rule = (demo_rule [(''kind'', VStr ''relay_on'')])\<lparr>wr_id := ''w2'', wr_organization_id := Some ''acme''\<rparr>"

definition off_proposal :: proposal where
  "off_proposal = \<lparr>pp_probe = [(''kind'', VStr ''gateway'')], pp_target = [(''kind'', VStr ''device''), (''id'', VStr ''d1'')],
     pp_action = [(''kind'', VStr ''hold_off'')], pp_failure_threshold = VInt 3, pp_window_seconds = VInt 60, pp_cooldown_seconds = VInt 300\<rparr>"


definition guard_hub :: hub where
  "guard_hub = demo_hub\<lparr>h_rules := [guard_rule]\<rparr>"

lemma off_detected: "\<exists>fs s. detect_conflicts scope_env (\<lambda>xs. xs) off_proposal None (scope_ctx (Some ''acme''), guard_hub) = Inr (fs, s)"
proof -
  let ?s = "(scope_ctx (Some ''acme''), guard_hub)"
  have "fst (fst (listed_rules scope_env None ?s)) = [guard_rule]" by code_simp
  then obtain gs c1 h1 where l: "listed_rules scope_env None ?s = (([guard_rule], gs), c1, h1)" by (metis prod.collapse)
  have "render_rule_sentence scope_env ds gs guard_rule \<noteq> None" for ds gs
  proof -
    have "wr_target guard_rule = [(''kind'', VStr ''group''), (''id'', VStr ''g'')]" "wr_action guard_rule = [(''kind'', VStr ''relay_on'')]"
      by (simp_all add: guard_rule_def demo_rule_def)
    moreover have "action_to_phrase scope_env [(''kind'', VStr ''relay_on'')] = Some ''turn power on''"
      by (subst action_to_phrase.simps) (simp add: kind_in_def dget_def)
    ultimately show ?thesis
      by (simp add: render_rule_sentence_def Let_def target_to_phrase_def named_def get_or_def dget_def dhas_def kind_in_def)
  qed
  then obtain t where "render_rule_sentence scope_env (device_names guard_hub) gs guard_rule = Some t" by blast
  then obtain d where d: "with_sentence scope_env (device_names guard_hub) gs guard_rule = Inr d" by (simp add: with_sentence_def)
  have lr: "list_rules scope_env None ?s = Inr ([d], c1, h1)" by (simp add: list_rules_def l d)
  have "h_schedules guard_hub = []" by code_simp
  then have "h_schedules h1 = []" using list_rules_frame [OF lr] by auto
  then have "fst (select_schedules scope_env (c1, h1)) = []" by (simp add: select_schedules_def fst_select_scoped visible_def split: option.splits)
  then obtain s2 where ls: "list_schedules scope_env (c1, h1) = Inr ([], s2)"
    by (cases "select_schedules scope_env (c1, h1)") (simp add: list_schedules_def)
  obtain t where t: "d = serialize_rule guard_rule t" using with_sentence_dict [OF d] by blast
  have "of_dict d ''probe'' = [(''kind'', VStr ''internet'')]" by (simp add: of_dict_def t guard_rule_def demo_rule_def)
  then have sig: "\<exists>g. rule_signature scope_env (of_dict d ''probe'') x y = Inr g" for x y
    by (simp add: rule_signature_def probe_signature_def dget_def)
  then obtain g where "rule_signature scope_env (of_dict d ''probe'') (of_dict d ''action'') (of_dict d ''target'') = Inr g" by blast
  then have "\<exists>dups. check_duplicates scope_env sg [d] = Inr dups" for sg by (simp add: check_duplicates_def)
  then have dup: "\<exists>dups. check_duplicates scope_env sg (filter P [d]) = Inr dups" for sg P
    by (cases "P d") (simp_all add: check_duplicates_def)
  obtain g0 where g0: "rule_signature scope_env (pp_probe off_proposal) (pp_action off_proposal) (pp_target off_proposal) = Inr g0"
    by (simp add: off_proposal_def rule_signature_def probe_signature_def kind_in_def dget_def)
  obtain dups where dups: "check_duplicates scope_env g0 (filter (\<lambda>r. dget r ''id'' \<noteq> of_opt_str None) [d]) = Inr dups" using dup by blast
  obtain c2 h2 where s2: "s2 = (c2, h2)" by (cases s2)
  show ?thesis unfolding detect_conflicts_def lr ls s2 sum.case prod.case Let_def g0 dups by blast
qed

theorem blocking_iff_witness:
  "\<exists>fs s. detect_conflicts scope_env (\<lambda>xs. xs) off_proposal None (scope_ctx (Some ''acme''), guard_hub) = Inr (fs, s) \<and> has_blocking fs"
proof -
  obtain fs s where d: "detect_conflicts scope_env (\<lambda>xs. xs) off_proposal None (scope_ctx (Some ''acme''), guard_hub) = Inr (fs, s)"
    using off_detected by blast
  have "visible_rules scope_env (scope_ctx (Some ''acme''), guard_hub) = [guard_rule]"
    "touching guard_hub (pp_target off_proposal) (wr_target guard_rule)"
    "opposite (power_intents (pp_action off_proposal)) (power_intents (wr_action guard_rule))" by code_simp+
  then have "has_blocking fs" using blocking_iff [OF d] by simp
  with d show ?thesis by blast
qed

end
