(* ===== verification/RuleProps.thy ===== *)
theory RuleProps
  imports Rules
begin

text \<open>
  What rule management and the watchdog promise each other: every operation on rules and scenes keeps the
  tables in the shape the runtime needs, and every action the validation accepted can be fired.
\<close>

section \<open>Well-formed rules\<close>

text \<open>What the runtime needs of an action and a target.\<close>

definition blank :: "pyval \<Rightarrow> bool" where
  "blank v \<longleftrightarrow> (case v of VStr s \<Rightarrow> py_strip s = [] | _ \<Rightarrow> True)"

definition leaf_wf :: "pydict \<Rightarrow> bool" where
  "leaf_wf a \<longleftrightarrow> kind_in a LEAF_ACTION_KINDS
     \<and> (kind_in a [''apply_scene''] \<longrightarrow>
          (if dget a ''scene_id'' \<noteq> VNone then \<not> blank (dget a ''scene_id'')
           else \<exists>items. dget a ''items'' = VList items \<and> items \<noteq> [] \<and> list_all is_dict items))"

definition leaves :: "pydict \<Rightarrow> pydict list" where
  "leaves a = (if kind_in a [''binding''] then [dict_of (dget a ''on_active''), dict_of (dget a ''on_clear'')] else [a])"

definition action_wf :: "pydict \<Rightarrow> bool" where
  "action_wf a \<longleftrightarrow> list_all leaf_wf (leaves a)"

definition target_wf :: "pydict \<Rightarrow> bool" where
  "target_wf t \<longleftrightarrow> kind_in t [''device'', ''group''] \<and> \<not> blank (dget t ''id'') \<or> kind_in t [''tag''] \<and> \<not> blank (dget t ''tag'')"

definition in_bounds :: "int \<Rightarrow> int \<Rightarrow> int \<Rightarrow> bool" where
  "in_bounds low high n \<longleftrightarrow> low \<le> n \<and> n \<le> high"

text \<open>The configuration of a rule, and the state of its machine.\<close>

definition config_wf :: "watchdog_rule \<Rightarrow> bool" where
  "config_wf r \<longleftrightarrow> wr_name r \<noteq> [] \<and> length (wr_name r) \<le> 120 \<and> kind_in (wr_probe r) KNOWN_PROBE_KINDS
     \<and> target_wf (wr_target r) \<and> action_wf (wr_action r)
     \<and> in_bounds 1 100 (wr_failure_threshold r) \<and> in_bounds 1 100 (wr_recovery_threshold r)
     \<and> in_bounds 5 86400 (wr_window_seconds r) \<and> in_bounds 0 86400 (wr_cooldown_seconds r)"

definition machine_wf :: "watchdog_rule \<Rightarrow> bool" where
  "machine_wf r \<longleftrightarrow> 0 \<le> wr_failure_streak r \<and> 0 \<le> wr_recovery_streak r
     \<and> wr_status r \<in> {''armed'', ''firing'', ''disabled''} \<and> (wr_enabled r \<longleftrightarrow> wr_status r \<noteq> ''disabled'')
     \<and> (\<not> is_binding r \<longrightarrow> wr_recovery_streak r < wr_recovery_threshold r \<and> (0 < wr_recovery_streak r \<longrightarrow> 0 < wr_failure_streak r)
          \<and> (wr_status r = ''firing'' \<longrightarrow> 0 < wr_failure_streak r \<and> wr_last_action_at r \<noteq> None))"

definition rules_ok :: "hub \<Rightarrow> bool" where
  "rules_ok h \<longleftrightarrow> list_all (\<lambda>r. config_wf r \<and> machine_wf r) (h_rules h)"

lemma kind_in_cases [simp]: "kind_in a [] \<longleftrightarrow> False" "kind_in a (k # ks) \<longleftrightarrow> dget a ''kind'' = VStr k \<or> kind_in a ks"
  by (auto simp: kind_in_def split: pyval.splits)

lemma is_binding_kind: "is_binding r \<longleftrightarrow> kind_in (wr_action r) [''binding'']"
  by (simp add: is_binding_def)

section \<open>The validation accepts well-formed rules only\<close>

lemma strip_or_raise_Some: "strip_or_raise v = Some s \<Longrightarrow> s \<noteq> [] \<Longrightarrow> \<not> blank v"
  by (auto simp: strip_or_raise_def blank_def split: pyval.splits if_splits)

lemma validate_leaf_wf: "validate_leaf E a = None \<Longrightarrow> leaf_wf a"
proof -
  assume ok: "validate_leaf E a = None"
  then have k: "kind_in a LEAF_ACTION_KINDS" by (auto simp: validate_leaf_def split: if_splits)
  show ?thesis
  proof (cases "kind_in a [''apply_scene''] \<and> dget a ''scene_id'' = VNone")
    case True
    then obtain items where i: "dget a ''items'' = VList items" using ok k
      by (auto simp: validate_leaf_def split: pyval.splits)
    then have "items \<noteq> []" "list_all (\<lambda>v. item_problem E v = None) items"
      using ok k True by (auto simp: validate_leaf_def list_all_iff split: if_splits)
    moreover from this have "list_all is_dict items" by (auto simp: list_all_iff dest!: item_ok_dict)
    ultimately show ?thesis using k True i by (simp add: leaf_wf_def)
  next
    case False
    then show ?thesis using ok k by (auto simp: leaf_wf_def validate_leaf_def blank_def split: pyval.splits)
  qed
qed

lemma check_sub_action_wf: "check_sub_action E v field = None \<Longrightarrow> is_dict v \<and> leaf_wf (dict_of v)"
  by (auto simp: check_sub_action_def split: pyval.splits if_splits intro: validate_leaf_wf)

lemma validate_action_wf: "validate_action E v = None \<Longrightarrow> is_dict v \<and> action_wf (dict_of v)"
  by (auto simp: validate_action_def action_wf_def leaves_def split: pyval.splits if_splits
      intro: validate_leaf_wf dest!: check_sub_action_wf)

lemma check_target_wf: "check_target v = None \<Longrightarrow> is_dict v \<and> target_wf (dict_of v)"
  by (auto simp: check_target_def check_target_field_def target_wf_def Let_def split: option.splits if_splits
      dest!: strip_or_raise_Some)

lemma check_bounds_within: "check_bounds f v low high = None \<Longrightarrow> in_bounds low high (the_int v)"
  by (auto simp: check_bounds_def in_bounds_def the_int_def split: option.splits)

lemma apply_form_wf:
  assumes "validate_rule_inputs E f = Inr name"
  shows "config_wf (apply_form f name r)"
proof -
  have ok: "rule_problem E f = None" and name: "name = (case strip_or_raise (wf_name f) of None \<Rightarrow> [] | Some n \<Rightarrow> n)"
    using assms by (auto simp: validate_rule_inputs_def split: option.splits)
  have n: "name \<noteq> [] \<and> length name \<le> 120"
    using ok name by (auto simp: rule_problem_def check_name_def split: option.splits)
  have p: "kind_in (dict_of (wf_probe f)) KNOWN_PROBE_KINDS"
    using ok by (simp add: rule_problem_def check_known_probe_def)
  have t: "target_wf (dict_of (wf_target f))" and a: "action_wf (dict_of (wf_action f))"
    using ok check_target_wf [of "wf_target f"] validate_action_wf [of E "wf_action f"] by (simp_all add: rule_problem_def)
  have b: "in_bounds 1 100 (the_int (wf_failure_threshold f))" "in_bounds 1 100 (the_int (wf_recovery_threshold f))"
    "in_bounds 5 86400 (the_int (wf_window_seconds f))" "in_bounds 0 86400 (the_int (wf_cooldown_seconds f))"
    using ok by (auto simp: rule_problem_def intro: check_bounds_within)
  show ?thesis by (simp add: config_wf_def apply_form_def n p t a b)
qed


section \<open>The watchdog keeps rules well formed\<close>

lemma fire_action_frames: "fire_action E r h = (d, h') \<Longrightarrow> h_rules h' = h_rules h \<and> h_scenes h' = h_scenes h"
  using queues_safely_frame(1,7) [OF fire_action_queues_safely [of h E r]] by simp

lemma apply_binding_frames: "apply_binding_action E r a h = (d, h') \<Longrightarrow> h_rules h' = h_rules h \<and> h_scenes h' = h_scenes h"
  using queues_safely_frame(1,7) [OF apply_binding_action_queues_safely [of h E r a]] by simp

lemma record_event_scenes [simp]: "h_scenes (record_event r out d t h) = h_scenes h"
  by (simp add: record_event_def)

lemma escalation_scenes [simp]: "h_scenes (run_escalation_and_emit r d h) = h_scenes h"
  by (simp add: run_escalation_and_emit_def Let_def)

lemma put_rule_scenes [simp]: "h_scenes (put_rule r h) = h_scenes h"
  by (simp add: put_rule_def)

lemma binding_tick_frames: "binding_tick E r outcome now h = (b, r', h') \<Longrightarrow> h_rules h' = h_rules h \<and> h_scenes h' = h_scenes h"
  by (auto simp: binding_tick_def Let_def split: if_splits prod.splits dest!: apply_binding_frames)

lemma update_state_frames:
  "update_state_and_maybe_fire E r outcome now h = (b, r', h') \<Longrightarrow> h_rules h' = h_rules h \<and> h_scenes h' = h_scenes h"
  by (auto simp: update_state_and_maybe_fire_def Let_def split: if_splits prod.splits dest!: fire_action_frames dest: binding_tick_frames)

lemma update_state_config2:
  assumes "update_state_and_maybe_fire E r outcome now h = (b, r', h')"
  shows "wr_name r' = wr_name r" and "wr_probe r' = wr_probe r" and "wr_target r' = wr_target r"
    and "wr_window_seconds r' = wr_window_seconds r"
  using assms by (auto simp: update_state_and_maybe_fire_def binding_tick_def Let_def split: if_splits prod.splits)

lemma update_state_config_wf:
  "update_state_and_maybe_fire E r outcome now h = (b, r', h') \<Longrightarrow> config_wf r \<Longrightarrow> config_wf r'"
  using update_state_config [of E r outcome now h b r' h'] update_state_config2 [of E r outcome now h b r' h']
  by (simp add: config_wf_def)

lemma binding_state:
  assumes "is_binding r" and "update_state_and_maybe_fire E r outcome now h = (b, r', h')"
  shows "0 \<le> wr_failure_streak r \<Longrightarrow> 0 \<le> wr_failure_streak r'" and "0 \<le> wr_recovery_streak r \<Longrightarrow> 0 \<le> wr_recovery_streak r'"
    and "wr_status r' = wr_status r \<or> wr_status r' = ''firing'' \<or> wr_status r' = ''armed''"
  using assms by (auto simp: update_state_and_maybe_fire_def binding_tick_def is_binding_def Let_def split: if_splits prod.splits)

lemma edge_state:
  assumes "\<not> is_binding r" and "update_state_and_maybe_fire E r outcome now h = (b, r', h')"
    and "0 \<le> wr_failure_streak r" and "0 \<le> wr_recovery_streak r" and "wr_recovery_streak r < wr_recovery_threshold r"
  shows "0 \<le> wr_failure_streak r'" and "0 \<le> wr_recovery_streak r'" and "wr_recovery_streak r' < wr_recovery_threshold r"
    and "wr_status r' = wr_status r \<or> wr_status r' = ''firing'' \<or> wr_status r' = ''armed''"
  using assms by (auto simp: update_state_and_maybe_fire_def is_binding_def Let_def split: if_splits prod.splits)

lemma edge_state2:
  assumes "\<not> is_binding r" and "update_state_and_maybe_fire E r outcome now h = (b, r', h')"
    and "0 \<le> wr_failure_streak r" and "0 \<le> wr_recovery_streak r" and "0 < wr_recovery_streak r \<Longrightarrow> 0 < wr_failure_streak r"
    and "wr_status r = ''firing'' \<Longrightarrow> 0 < wr_failure_streak r \<and> wr_last_action_at r \<noteq> None"
  shows "0 < wr_recovery_streak r' \<Longrightarrow> 0 < wr_failure_streak r'"
    and "wr_status r' = ''firing'' \<Longrightarrow> 0 < wr_failure_streak r' \<and> wr_last_action_at r' \<noteq> None"
  using assms by (auto simp: update_state_and_maybe_fire_def is_binding_def Let_def split: if_splits prod.splits)

lemma update_state_machine_wf:
  assumes up: "update_state_and_maybe_fire E r outcome now h = (b, r', h')" and "machine_wf r" and "wr_status r \<noteq> ''disabled''"
  shows "machine_wf r'"
proof -
  have bind: "is_binding r' = is_binding r" using update_state_config(2) [OF up] by (simp add: is_binding_def)
  note cfg = update_state_config(5,6) [OF up]
  show ?thesis
  proof (cases "is_binding r")
    case True
    then show ?thesis using binding_state [OF True up] assms(2,3) bind cfg by (auto simp: machine_wf_def)
  next
    case False
    then show ?thesis using edge_state [OF False up] edge_state2 [OF False up] assms(2,3) bind cfg by (auto simp: machine_wf_def)
  qed
qed

definition rule_wf :: "watchdog_rule \<Rightarrow> bool" where
  "rule_wf r \<longleftrightarrow> config_wf r \<and> machine_wf r"

lemma rules_ok_alt: "rules_ok h \<longleftrightarrow> list_all rule_wf (h_rules h)"
  by (simp add: rules_ok_def rule_wf_def list_all_iff)

lemma put_rule_ok: "rules_ok h \<Longrightarrow> rule_wf r \<Longrightarrow> rules_ok (put_rule r h)"
  by (auto simp: rules_ok_alt put_rule_def list_all_iff set_tupd)

lemma rules_ok_cong: "h_rules h' = h_rules h \<Longrightarrow> rules_ok h' \<longleftrightarrow> rules_ok h"
  by (simp add: rules_ok_alt)

lemma process_rule_ok:
  assumes "rules_ok (snd sh)" and "rule_wf r" and "wr_status r \<noteq> ''disabled''"
  shows "rules_ok (snd (process_rule E probe now r sh)) \<and> h_scenes (snd (process_rule E probe now r sh)) = h_scenes (snd sh)"
proof -
  obtain st h where sh: "sh = (st, h)" by (metis prod.exhaust)
  consider (idle) "\<not> rule_is_due r now" | (window) "rule_is_due r now" "in_maintenance_window E r now"
    | (probed) "rule_is_due r now" "\<not> in_maintenance_window E r now" by blast
  then show ?thesis
  proof cases
    case idle
    then show ?thesis using assms(1) by (simp add: process_rule_def sh Let_def)
  next
    case window
    have "rule_wf (r\<lparr>wr_last_probed_at := Some now, wr_last_outcome := Some ''maintenance_skip''\<rparr>)"
      using assms(2) by (simp add: rule_wf_def config_wf_def machine_wf_def is_binding_def)
    then show ?thesis using window assms(1)
      by (simp add: process_rule_def sh Let_def put_rule_ok rules_ok_cong [OF record_event_frame(3)])
  next
    case probed
    have "\<exists>out det b r' h'. update_state_and_maybe_fire E r out now (record_event r out det now h) = (b, r', h')
        \<and> snd (process_rule E probe now r sh) = put_rule r' h'"
      using probed by (cases "probe h r") (auto simp: process_rule_def sh Let_def split: prod.splits, blast+)
    then obtain out det b r' h' where up: "update_state_and_maybe_fire E r out now (record_event r out det now h) = (b, r', h')"
      and res: "snd (process_rule E probe now r sh) = put_rule r' h'" by blast
    have "rule_wf r'" using update_state_config_wf [OF up] update_state_machine_wf [OF up] assms(2,3) by (simp add: rule_wf_def)
    moreover have "rules_ok h'" using update_state_frames [OF up] assms(1) by (simp add: sh rules_ok_alt)
    ultimately show ?thesis using update_state_frames [OF up] unfolding res by (simp add: put_rule_ok sh)
  qed
qed

lemma fold_process_rule_ok:
  assumes "rules_ok (snd sh)" and "list_all (\<lambda>r. rule_wf r \<and> wr_status r \<noteq> ''disabled'') rs"
  shows "rules_ok (snd (fold (process_rule E probe now) rs sh)) \<and> h_scenes (snd (fold (process_rule E probe now) rs sh)) = h_scenes (snd sh)"
  using assms
proof (induction rs arbitrary: sh)
  case (Cons r rs)
  then show ?case using process_rule_ok [of sh r E probe now] Cons.IH [of "process_rule E probe now r sh"] by simp
qed simp

lemma watchdog_tick_ok:
  assumes "rules_ok h"
  shows "rules_ok (snd (watchdog_tick E disabled probe now h)) \<and> h_scenes (snd (watchdog_tick E disabled probe now h)) = h_scenes h"
proof -
  have "list_all (\<lambda>r. rule_wf r \<and> wr_status r \<noteq> ''disabled'') (active_rules h)"
    using assms by (auto simp: rules_ok_alt active_rules_def list_all_iff)
  from fold_process_rule_ok [OF _ this, of "(zero_stats, h)" E probe now] assms show ?thesis
    by (auto simp: watchdog_tick_def split: prod.splits)
qed


section \<open>Rule management keeps rules well formed\<close>

lemma select_rules_facts:
  assumes "select_rules E (c, h) = (rows, c', h')"
  shows "\<exists>a. h' = h\<lparr>h_audit := a\<rparr>" and "set rows \<subseteq> set (h_rules h)"
proof -
  note sel = assms [unfolded select_rules_def]
  show "\<exists>a. h' = h\<lparr>h_audit := a\<rparr>" using select_scoped_frame(2) [OF sel] by blast
  show "set rows \<subseteq> set (h_rules h)"
    using fst_select_scoped [of E "''watchdog_rules''" wr_organization_id h_rules "(c, h)"] sel
    by (auto simp: visible_def split: option.splits)
qed

lemma create_ruleE:
  assumes "create_rule E f (c, h) = Inr (v, c', h')"
  obtains name org i a where "validate_rule_inputs E f = Inr name"
    and "h' = h\<lparr>h_audit := a, h_rules := h_rules h @ [apply_form f name (blank_rule E f i org)], h_ulid := Suc (h_ulid h)\<rparr>"
    and "tget wr_id i (h_rules h) = None" and "with_sentence E Map.empty Map.empty (apply_form f name (blank_rule E f i org)) = Inr v"
    and "\<exists>new d. stamp_and_guard_tenant_writes E [rule_obj None True] [] (c, h) = Inr (new, d, c', h\<lparr>h_audit := a\<rparr>) \<and> org = fo_org (hd new)"
    and "org \<noteq> None" and "extra_ints_ok f"
proof -
  obtain name where n: "validate_rule_inputs E f = Inr name" and x: "extra_ints_ok f"
    using assms by (auto simp: create_rule_def split: sum.splits if_splits)
  let ?st = "stamp_and_guard_tenant_writes E [rule_obj None True] [] (c, h)"
  have "\<not> isl ?st" using assms n x by (cases ?st) (simp_all add: create_rule_def)
  then obtain new d c1 h1 where fl: "?st = Inr (new, d, c1, h1)" by (cases ?st) auto
  obtain a where h1: "h1 = h\<lparr>h_audit := a\<rparr>" using flush_frame [OF fl] by blast
  let ?i = "new_id (env_ulid E) ''wdr'' (h_ulid h)"
  let ?r = "apply_form f name (blank_rule E f ?i (fo_org (hd new)))"
  have id: "wr_id ?r = ?i" "wr_organization_id ?r = fo_org (hd new)" by (simp_all add: apply_form_def blank_rule_def)
  have fits: "rule_fits ?r h1" "tget wr_id (wr_id ?r) (h_rules h1) = None"
    using assms n x fl by (auto simp: create_rule_def Let_def h1 split: if_splits)
  have "\<not> isl (with_sentence E Map.empty Map.empty ?r)"
    using assms n x fl fits by (cases "with_sentence E Map.empty Map.empty ?r") (simp_all add: create_rule_def Let_def h1)
  then obtain d where ws: "with_sentence E Map.empty Map.empty ?r = Inr d" by (cases "with_sentence E Map.empty Map.empty ?r") auto
  have res: "d = v" "c1 = c'" "h' = h1\<lparr>h_rules := tadd ?r (h_rules h1), h_ulid := Suc (h_ulid h1)\<rparr>"
    using assms n x fl fits ws by (simp_all add: create_rule_def Let_def h1)
  show ?thesis
    by (rule that [OF n, where a = a and i = ?i and org = "fo_org (hd new)"])
      (use fl fits res ws id x in \<open>auto simp: h1 tadd_def rule_fits_def split: option.splits\<close>)
qed

lemma flush_ruleE:
  assumes "flush_rule E r0 r (c, h) = Inr (r', c', h')"
  obtains org a where "r' = r\<lparr>wr_organization_id := org\<rparr>" and "h' = put_rule r' (h\<lparr>h_audit := a\<rparr>)"
proof -
  obtain new d c1 h1 where fl: "stamp_and_guard_tenant_writes E [] [rule_obj (wr_organization_id r) (r \<noteq> r0)] (c, h) = Inr (new, d, c1, h1)"
    and r: "r' = r\<lparr>wr_organization_id := fo_org (hd d)\<rparr>" and h': "h' = put_rule r' h1"
    using assms by (auto simp: flush_rule_def Let_def split: sum.splits if_splits)
  obtain a where "h1 = h\<lparr>h_audit := a\<rparr>" using flush_frame [OF fl] by blast
  then show ?thesis using that [OF r] h' by simp
qed

lemma update_ruleE:
  assumes "update_rule E i f (c, h) = Inr (Some v, c', h')"
  obtains name r0 r org a where "validate_rule_inputs E f = Inr name" and "r0 \<in> set (h_rules h)" and "wr_id r0 = i"
    and "r = (rearmed E (apply_form f name r0))\<lparr>wr_organization_id := org\<rparr>" and "h' = put_rule r (h\<lparr>h_audit := a\<rparr>)"
proof -
  obtain name where n: "validate_rule_inputs E f = Inr name"
    using assms by (auto simp: update_rule_def split: sum.splits)
  obtain rows c1 h1 where sel: "select_rules E (c, h) = (rows, c1, h1)" by (metis prod_cases3)
  obtain r0 where r0: "tget wr_id i rows = Some r0"
    using assms n sel by (auto simp: update_rule_def split: option.splits)
  let ?fl = "flush_rule E r0 (rearmed E (apply_form f name r0)) (c1, h1)"
  have x: "extra_ints_ok f" using assms n sel r0 by (auto simp: update_rule_def Let_def split: if_splits)
  have "\<not> isl ?fl" using assms n sel r0 x by (cases ?fl) (simp_all add: update_rule_def Let_def)
  then obtain r c2 h2 where fl: "?fl = Inr (r, c2, h2)" by (cases ?fl) auto
  have "h' = h2" using assms n sel r0 x fl by (auto simp: update_rule_def Let_def split: sum.splits)
  moreover obtain b where "h1 = h\<lparr>h_audit := b\<rparr>" using select_rules_facts(1) [OF sel] by blast
  moreover have "r0 \<in> set (h_rules h)" "wr_id r0 = i"
    using r0 select_rules_facts(2) [OF sel] by (auto dest: tget_SomeD)
  moreover obtain org a where "r = (rearmed E (apply_form f name r0))\<lparr>wr_organization_id := org\<rparr>" "h2 = put_rule r (h1\<lparr>h_audit := a\<rparr>)"
    by (rule flush_ruleE [OF fl])
  ultimately show ?thesis by (intro that [OF n, where ?r0.0 = r0 and r = r and org = org and a = a]) simp_all
qed

text \<open>Anything an operator or the watchdog does to the tables of rules and scenes.\<close>

inductive mgmt_step :: "hub \<Rightarrow> hub \<Rightarrow> bool" where
  create: "create_rule E f (c, h) = Inr (v, c', h') \<Longrightarrow> mgmt_step h h'"
| update: "update_rule E i f (c, h) = Inr (v, c', h') \<Longrightarrow> mgmt_step h h'"
| delete: "delete_rule E i (c, h) = Inr (b, c', h') \<Longrightarrow> mgmt_step h h'"
| enable: "set_rule_enabled E i e (c, h) = Inr (b, c', h') \<Longrightarrow> mgmt_step h h'"
| probe: "probe_now E probe i (c, h) = Inr (v, c', h') \<Longrightarrow> mgmt_step h h'"
| scene: "scene_step h h' \<Longrightarrow> mgmt_step h h'"
| tick: "mgmt_step h (snd (watchdog_tick E disabled probe now h))"

lemma apply_form_state [simp]:
  "wr_failure_streak (apply_form f n r) = wr_failure_streak r" "wr_recovery_streak (apply_form f n r) = wr_recovery_streak r"
  "wr_status (apply_form f n r) = wr_status r" "wr_enabled (apply_form f n r) = wr_enabled r"
  "wr_id (apply_form f n r) = wr_id r" "wr_last_outcome (apply_form f n r) = wr_last_outcome r"
  "wr_organization_id (apply_form f n r) = wr_organization_id r" "wr_last_action_at (apply_form f n r) = wr_last_action_at r"
  by (simp_all add: apply_form_def)

lemma config_wf_cong: "config_wf (r\<lparr>wr_organization_id := org\<rparr>) = config_wf r" "config_wf (rearmed E r) = config_wf r"
  by (simp_all add: config_wf_def rearmed_def)

lemma created_wf: "validate_rule_inputs E f = Inr name \<Longrightarrow> rule_wf (apply_form f name (blank_rule E f i org))"
  using apply_form_wf [of E f name "blank_rule E f i org"]
  by (simp add: rule_wf_def machine_wf_def config_wf_def in_bounds_def) (simp add: blank_rule_def)

lemma updated_wf:
  assumes "validate_rule_inputs E f = Inr name" and "machine_wf r0"
  shows "rule_wf ((rearmed E (apply_form f name r0))\<lparr>wr_organization_id := org\<rparr>)"
proof -
  have c: "config_wf (apply_form f name r0)" by (rule apply_form_wf [OF assms(1)])
  then have "1 \<le> wr_recovery_threshold (apply_form f name r0)" by (simp add: config_wf_def in_bounds_def)
  then show ?thesis
    using assms(2) c by (auto simp: rule_wf_def config_wf_cong) (auto simp: machine_wf_def rearmed_def)
qed

lemma enabled_wf:
  assumes "rule_wf r"
  shows "rule_wf (r\<lparr>wr_enabled := e, wr_status := (if e then ''armed'' else ''disabled''), wr_updated_at := t, wr_organization_id := org\<rparr>)"
  using assms by (auto simp: rule_wf_def config_wf_def machine_wf_def is_binding_def)


text \<open>What the other operations change of the two tables.\<close>

lemma update_rule_missing:
  assumes "update_rule E i f (c, h) = Inr (None, c', h')"
  shows "\<exists>a. h' = h\<lparr>h_audit := a\<rparr>"
proof -
  obtain name where n: "validate_rule_inputs E f = Inr name"
    using assms by (auto simp: update_rule_def split: sum.splits)
  obtain rows c1 h1 where sel: "select_rules E (c, h) = (rows, c1, h1)" by (metis prod_cases3)
  have "h' = h1" using assms n sel by (auto simp: update_rule_def Let_def split: option.splits sum.splits if_splits)
  then show ?thesis using select_rules_facts(1) [OF sel] by simp
qed

lemma delete_rule_frame:
  assumes "delete_rule E i (c, h) = Inr (b, c', h')"
  shows "h_scenes h' = h_scenes h \<and> set (h_rules h') \<subseteq> set (h_rules h)"
proof -
  obtain rows c1 h1 where sel: "select_rules E (c, h) = (rows, c1, h1)" by (metis prod_cases3)
  obtain a where h1: "h1 = h\<lparr>h_audit := a\<rparr>" using select_rules_facts(1) [OF sel] by blast
  show ?thesis
  proof (cases "tget wr_id i rows")
    case None
    then show ?thesis using assms h1 by (auto simp: delete_rule_def sel)
  next
    case (Some r)
    then obtain new d c2 h2 where fl: "stamp_and_guard_tenant_writes E [] [] (c1, h1) = Inr (new, d, c2, h2)"
      using assms sel by (auto simp: delete_rule_def split: sum.splits)
    then show ?thesis using assms sel Some flush_frame [OF fl] h1 by (auto simp: delete_rule_def set_tdel)
  qed
qed

lemma set_rule_enabled_ok:
  assumes "set_rule_enabled E i e (c, h) = Inr (b, c', h')" and "rules_ok h"
  shows "rules_ok h' \<and> h_scenes h' = h_scenes h"
proof -
  obtain rows c1 h1 where sel: "select_rules E (c, h) = (rows, c1, h1)" by (metis prod_cases3)
  obtain a where h1: "h1 = h\<lparr>h_audit := a\<rparr>" using select_rules_facts(1) [OF sel] by blast
  show ?thesis
  proof (cases "tget wr_id i rows")
    case None
    then show ?thesis using assms h1 by (auto simp: set_rule_enabled_def sel rules_ok_alt)
  next
    case (Some r0)
    let ?r = "r0\<lparr>wr_enabled := e, wr_status := (if e then ''armed'' else ''disabled''), wr_updated_at := env_now E\<rparr>"
    have "\<not> isl (flush_rule E r0 ?r (c1, h1))"
      using assms sel Some by (cases "flush_rule E r0 ?r (c1, h1)") (simp_all add: set_rule_enabled_def)
    then obtain r c2 h2 where fl: "flush_rule E r0 ?r (c1, h1) = Inr (r, c2, h2)" by (cases "flush_rule E r0 ?r (c1, h1)") auto
    have h': "h' = h2" using assms sel Some fl by (simp add: set_rule_enabled_def)
    obtain org b where r: "r = ?r\<lparr>wr_organization_id := org\<rparr>" and h2: "h2 = put_rule r (h1\<lparr>h_audit := b\<rparr>)" by (rule flush_ruleE [OF fl])
    have "rule_wf r0" using assms(2) Some select_rules_facts(2) [OF sel] by (auto simp: rules_ok_alt list_all_iff dest: tget_SomeD)
    then have "rule_wf r" unfolding r by (rule enabled_wf)
    then have "rules_ok h'" unfolding h' h2 using assms(2) by (intro put_rule_ok) (simp add: h1 rules_ok_alt)
    then show ?thesis by (simp add: h' h2 h1)
  qed
qed

lemma probe_now_frame:
  assumes "probe_now E probe i (c, h) = Inr (v, c', h')"
  shows "h_scenes h' = h_scenes h \<and> h_rules h' = h_rules h \<and> h_commands h' = h_commands h"
proof -
  obtain rows c1 h1 where sel: "select_rules E (c, h) = (rows, c1, h1)" by (metis prod_cases3)
  obtain a where h1: "h1 = h\<lparr>h_audit := a\<rparr>" using select_rules_facts(1) [OF sel] by blast
  show ?thesis
  proof (cases "tget wr_id i rows")
    case None
    then show ?thesis using assms h1 by (auto simp: probe_now_def sel)
  next
    case (Some r)
    obtain new d c2 h2 where fl: "stamp_and_guard_tenant_writes E [] [] (c1, h1) = Inr (new, d, c2, h2)"
      using assms sel Some by (auto simp: probe_now_def Let_def split: sum.splits prod.splits)
    then show ?thesis using assms sel Some flush_frame [OF fl] h1
      by (auto simp: probe_now_def Let_def split: sum.splits prod.splits)
  qed
qed

lemma scene_step_rules: "scene_step h h' \<Longrightarrow> h_rules h' = h_rules h"
proof (induction rule: scene_step.induct)
  case (create E name description items c h v c' h')
  then show ?case by (rule create_sceneE) simp
next
  case (update E i name description items c h v c' h')
  show ?case
  proof (cases v)
    case None
    with update have "update_scene E i name description items (c, h) = Inr (None, c', h')" by simp
    from update_scene_missing [OF this] show ?thesis by auto
  next
    case (Some w)
    then show ?thesis using update by (auto elim: update_sceneE)
  qed
next
  case (delete E i c h b c' h')
  then show ?case using delete_scene_frame by fastforce
qed

definition tables_ok :: "hub \<Rightarrow> bool" where
  "tables_ok h \<longleftrightarrow> rules_ok h \<and> scenes_ok h"

lemma scenes_ok_cong: "h_scenes h' = h_scenes h \<Longrightarrow> scenes_ok h' \<longleftrightarrow> scenes_ok h"
  by (simp add: scenes_ok_def)


lemma mgmt_step_ok:
  assumes "mgmt_step h h'" and "tables_ok h"
  shows "tables_ok h'"
  using assms
proof cases
  case (create E f c v c')
  then show ?thesis
    by (rule create_ruleE) (use assms(2) created_wf in \<open>auto simp: tables_ok_def rules_ok_alt scenes_ok_def\<close>)
next
  case (update E i f c v c')
  show ?thesis
  proof (cases v)
    case None
    with update have "update_rule E i f (c, h) = Inr (None, c', h')" by simp
    from update_rule_missing [OF this] show ?thesis using assms(2) by (auto simp: tables_ok_def rules_ok_alt scenes_ok_def)
  next
    case (Some w)
    with update have "update_rule E i f (c, h) = Inr (Some w, c', h')" by simp
    then show ?thesis
    proof (rule update_ruleE)
      fix name r0 r org a
      assume n: "validate_rule_inputs E f = Inr name" and r0: "r0 \<in> set (h_rules h)"
        and r: "r = (rearmed E (apply_form f name r0))\<lparr>wr_organization_id := org\<rparr>" and h': "h' = put_rule r (h\<lparr>h_audit := a\<rparr>)"
      have "machine_wf r0" using assms(2) r0 by (auto simp: tables_ok_def rules_ok_def list_all_iff)
      then have "rule_wf r" unfolding r by (rule updated_wf [OF n])
      moreover have "rules_ok (h\<lparr>h_audit := a\<rparr>)" using assms(2) by (simp add: tables_ok_def rules_ok_alt)
      ultimately show ?thesis using assms(2) by (simp add: tables_ok_def h' put_rule_ok scenes_ok_def)
    qed
  qed
next
  case (delete E i c b c')
  then show ?thesis using delete_rule_frame [of E i c h b c' h'] assms(2)
    by (auto simp: tables_ok_def rules_ok_alt scenes_ok_def list_all_iff)
next
  case (enable E i e c b c')
  then show ?thesis using set_rule_enabled_ok [of E i e c h b c' h'] assms(2) by (auto simp: tables_ok_def scenes_ok_def)
next
  case (probe E pr i c v c')
  then show ?thesis using probe_now_frame [of E pr i c h v c' h'] assms(2) by (auto simp: tables_ok_def scenes_ok_def rules_ok_alt)
next
  case scene
  then show ?thesis using scene_step_ok scene_step_rules assms(2) by (simp add: tables_ok_def rules_ok_alt)
next
  case (tick E disabled probe now)
  then show ?thesis using watchdog_tick_ok assms(2) by (simp add: tables_ok_def scenes_ok_def)
qed

lemma mgmt_steps_ok: "mgmt_step\<^sup>*\<^sup>* h h' \<Longrightarrow> tables_ok h \<Longrightarrow> tables_ok h'"
  by (induction rule: rtranclp_induct) (auto intro: mgmt_step_ok)

text \<open>C22: Along every interleaving of rule management, scene management, diagnostic probes and watchdog ticks with any
  probe results, every rule keeps a configuration the validation would accept (thresholds, window and
  cooldown in their bounds, a known probe, a target that names something, complete actions), is enabled
  exactly when its status is not disabled, and its streaks are consistent: an edge-triggered rule that
  counts successes or is firing has failures to recover from, and one that is firing has acted.\<close>

theorem rules_stay_well_formed:
  assumes "mgmt_step\<^sup>*\<^sup>* h0 h" and "rules_ok h0" and "scenes_ok h0" and "r \<in> set (h_rules h)"
  shows "config_wf r \<and> (wr_enabled r \<longleftrightarrow> wr_status r \<noteq> ''disabled'') \<and> 0 \<le> wr_failure_streak r \<and> 0 \<le> wr_recovery_streak r
    \<and> (is_binding r \<or> wr_recovery_streak r < wr_recovery_threshold r
         \<and> (wr_recovery_streak r = 0 \<and> wr_status r \<noteq> ''firing'' \<or> 0 < wr_failure_streak r)
         \<and> (wr_status r \<noteq> ''firing'' \<or> wr_last_action_at r \<noteq> None))"
proof -
  have "tables_ok h" using mgmt_steps_ok [OF assms(1)] assms(2,3) by (simp add: tables_ok_def)
  then have "config_wf r" "machine_wf r" using assms(4) by (auto simp: tables_ok_def rules_ok_def list_all_iff)
  then show ?thesis by (auto simp: machine_wf_def)
qed

section \<open>Accepted actions fire\<close>

lemma target_wf_resolves: "target_wf t \<Longrightarrow> resolve_target_devices t h \<noteq> None"
  by (auto simp: target_wf_def resolve_target_devices_def blank_def str_id_def Let_def split: pyval.splits)

text \<open>The one thing the validation does not look at: the two times of a power cycle.\<close>

definition times_ok :: "pydict \<Rightarrow> bool" where
  "times_ok a \<longleftrightarrow> kind_in a [''cycle''] \<longrightarrow> cycle_payload a \<noteq> None"

lemma not_isl_pair: "\<not> isl (fst p) \<Longrightarrow> \<exists>x k. p = (Inr x, k)"
  by (cases p; cases "fst p") auto

lemma run_scene_items_dicts:
  "list_all is_dict items \<Longrightarrow> \<not> isl (fst (run_scene_items E items h))"
proof (induction items arbitrary: h)
  case (Cons v vs)
  let ?did = "str_or_empty E (dget (dict_of v) ''device_id'')"
  obtain res h1 where c: "run_scene_commands E ?did (scene_commands (dict_of v)) h = (res, h1)" by (metis prod.exhaust)
  have "\<not> isl (fst (run_scene_items E vs k))" for k using Cons by simp
  then obtain ap sk k ap2 sk2 k2 where "run_scene_items E vs h = (Inr (ap, sk), k)" "run_scene_items E vs h1 = (Inr (ap2, sk2), k2)"
    by (metis not_isl_pair prod.collapse)
  then show ?case using Cons.prems c by (cases res) (simp_all add: Let_def)
qed simp

lemma fire_scene_wf:
  assumes "leaf_wf a" and "kind_in a [''apply_scene'']" and "scenes_ok h"
  shows "\<not> isl (fst (fire_scene E r a h))"
proof (cases "dget a ''scene_id'' = VNone")
  case True
  then obtain items where i: "dget a ''items'' = VList items" "list_all is_dict items"
    using assms(1,2) by (auto simp: leaf_wf_def)
  then obtain ap sk k where "run_scene_items E items h = (Inr (ap, sk), k)"
    using not_isl_pair [OF run_scene_items_dicts [of items E h]] by auto
  then show ?thesis using True i by (simp add: fire_scene_def Let_def)
next
  case False
  then obtain sid where s: "dget a ''scene_id'' = VStr sid" and "py_strip sid \<noteq> []"
    using assms(1,2) by (auto simp: leaf_wf_def blank_def split: pyval.splits)
  then have "sid \<noteq> []" by (auto simp: py_strip_def)
  note s = s this
  show ?thesis
  proof (cases "get_scene sid h")
    case None
    then show ?thesis using s by (simp add: fire_scene_def Let_def str_id_def scene_items_def)
  next
    case (Some sc)
    then have "sc \<in> set (h_scenes h)" by (auto simp: get_scene_def dest: tget_SomeD)
    then have "list_all (item_normal E) (scn_items sc)"
      using assms(3) by (auto simp: scenes_ok_def list_all_iff scene_ok_def items_normal_def)
    from run_scene_items_normal [OF this, of h] obtain ap sk k where "run_scene_items E (scn_items sc) h = (Inr (ap, sk), k)" by blast
    then show ?thesis using s Some by (simp add: fire_scene_def Let_def str_id_def scene_items_def)
  qed
qed

lemma leaf_kinds: "leaf_wf a \<Longrightarrow> kind_in a LEAF_ACTION_KINDS"
  by (simp add: leaf_wf_def)

lemma wf_action_dispatches:
  assumes "leaf_wf a" and "times_ok a" and "target_wf t" and "scenes_ok h"
  shows "\<not> isl (fst (dispatch_one E r a t h))"
proof -
  obtain dids where dids: "resolve_target_devices t h = Some dids" using target_wf_resolves [OF assms(3)] by blast
  obtain ok sk k where e1: "enqueue_all E ''relay_on'' None False dids h = (ok, sk, k)" by (metis prod_cases3)
  obtain ok2 sk2 k2 where e2: "enqueue_all E ''relay_off'' None False dids h = (ok2, sk2, k2)" by (metis prod_cases3)
  obtain ok3 sk3 k3 where e3: "enqueue_all E ''relay_off'' None True dids h = (ok3, sk3, k3)" by (metis prod_cases3)
  consider "kind_in a [''cycle'']" | "kind_in a [''hold_off'']" | "kind_in a [''notify_only'']" | "kind_in a [''relay_on'']"
    | "kind_in a [''relay_off'']" | "kind_in a [''apply_scene'']"
    using leaf_kinds [OF assms(1)] by (auto simp: LEAF_ACTION_KINDS_def)
  then show ?thesis
  proof cases
    case 1
    then obtain p where p: "cycle_payload a = Some p" using assms(2) by (auto simp: times_ok_def)
    obtain ok4 sk4 k4 where "enqueue_all E ''relay_cycle'' (Some p) False dids h = (ok4, sk4, k4)" by (metis prod_cases3)
    then show ?thesis using 1 p dids by (cases dids) (simp_all add: dispatch_one_def fire_cycle_def)
  next
    case 6
    then show ?thesis using fire_scene_wf [OF assms(1) 6 assms(4)] by (simp add: dispatch_one_def)
  qed (use dids e1 e2 e3 in \<open>cases dids; simp add: dispatch_one_def fire_hold_off_def fire_relay_set_def\<close>)+
qed


text \<open>C23: Whatever operators and the watchdog did before, firing an action of a stored rule, plain or the side of a
  binding, never raises: the target resolves, a scene is applied or reported as missing, and every
  device is queued or skipped. The one exception is a power cycle whose times are not numbers, which the
  validation does not look at.\<close>

theorem stored_rule_fires:
  assumes "mgmt_step\<^sup>*\<^sup>* h0 h" and "rules_ok h0" and "scenes_ok h0" and "r \<in> set (h_rules h)"
    and "a \<in> set (leaves (wr_action r))"
  shows "kind_in a LEAF_ACTION_KINDS
    \<and> (\<not> isl (fst (dispatch_one E r a (wr_target r) h)) \<or> kind_in a [''cycle''] \<and> cycle_payload a = None)"
proof -
  have ok: "tables_ok h" using mgmt_steps_ok [OF assms(1)] assms(2,3) by (simp add: tables_ok_def)
  then have c: "config_wf r" using assms(4) by (auto simp: tables_ok_def rules_ok_def list_all_iff)
  then have "leaf_wf a" using assms(5) by (auto simp: config_wf_def action_wf_def list_all_iff)
  moreover have "target_wf (wr_target r)" using c by (simp add: config_wf_def)
  ultimately show ?thesis
    using wf_action_dispatches [of a "wr_target r" h E r] leaf_kinds [of a] ok
    by (cases "cycle_payload a") (auto simp: times_ok_def tables_ok_def)
qed

section \<open>Reading back and starting afresh\<close>

lemma filter_is_scope: "fst (add_tenant_filter E b ts (c, h)) = Some org \<Longrightarrow> cx_org c = Some org"
  by (auto simp: add_tenant_filter_def unscoped_violation_def emit_audit_eq split: if_splits prod.splits option.splits)

lemma inserted_rule_org:
  assumes "stamp_and_guard_tenant_writes E [rule_obj None True] [] (c, h) = Inr (new, d, c', h')" and "fo_org (hd new) = Some org"
  shows "cx_org c' = Some org"
proof -
  have "cx_org c' = cx_org c" using flush_frame [OF assms(1)] by (simp add: scope_eq_def)
  moreover have "cx_org c = Some org" using flush_one [OF disjI1 [OF assms(1)]] assms(2) by (auto simp: rule_obj_def)
  ultimately show ?thesis by simp
qed

text \<open>A number of the form is read by \<open>int()\<close>, lies within its bounds and is shown under its key.\<close>

definition reads_back :: "rule_form \<Rightarrow> pydict \<Rightarrow> int \<times> int \<Rightarrow> string \<Rightarrow> (rule_form \<Rightarrow> pyval) \<Rightarrow> bool" where
  "reads_back f d bounds key get \<longleftrightarrow>
     (\<exists>n. py_int (get f) = Some n \<and> dget d key = VInt n \<and> fst bounds \<le> n \<and> n \<le> snd bounds)"

lemma check_bounds_None: "check_bounds field v low high = None \<longleftrightarrow> (\<exists>n. py_int v = Some n \<and> low \<le> n \<and> n \<le> high)"
  by (auto simp: check_bounds_def unless_ok_def split: option.splits)

lemma check_name_None: "check_name v = None \<Longrightarrow> \<exists>s. v = VStr s \<and> strip_or_raise v = Some (py_strip s)"
  by (cases v) (auto simp: check_name_def strip_or_raise_def unless_ok_def split: if_splits)

lemma rule_problem_bounds:
  assumes "rule_problem E f = None"
  shows "\<exists>n. py_int (wf_failure_threshold f) = Some n \<and> 1 \<le> n \<and> n \<le> 100"
    and "\<exists>n. py_int (wf_recovery_threshold f) = Some n \<and> 1 \<le> n \<and> n \<le> 100"
    and "\<exists>n. py_int (wf_window_seconds f) = Some n \<and> 5 \<le> n \<and> n \<le> 86400"
    and "\<exists>n. py_int (wf_cooldown_seconds f) = Some n \<and> 0 \<le> n \<and> n \<le> 86400" and "check_name (wf_name f) = None"
  using assms by (simp_all add: rule_problem_def check_bounds_None split: option.splits)

text \<open>What the serializer shows of a row a form has just filled.\<close>

lemma serialized_form:
  fixes f name E i org t
  defines "d \<equiv> serialize_rule (apply_form f name (blank_rule E f i org)) (Some t)"
  shows "dget d ''id'' = VStr i" and "dget d ''name'' = VStr name"
    and "dget d ''site_id'' = of_opt_str (wf_site_id f)" and "dget d ''description'' = of_opt_str (text_or_none (wf_description f))"
    and "dget d ''probe'' = VDict (dict_of (wf_probe f))" and "dget d ''action'' = VDict (dict_of (wf_action f))"
    and "dget d ''target'' = VDict (dict_of (wf_target f))"
    and "dget d ''failure_threshold'' = VInt (the_int (wf_failure_threshold f))"
    and "dget d ''recovery_threshold'' = VInt (the_int (wf_recovery_threshold f))"
    and "dget d ''window_seconds'' = VInt (the_int (wf_window_seconds f))"
    and "dget d ''cooldown_seconds'' = VInt (the_int (wf_cooldown_seconds f))"
    and "dget d ''max_retries'' = VInt (the_int (wf_max_retries f))"
    and "dget d ''retry_delay_seconds'' = VInt (the_int (wf_retry_delay_seconds f))"
    and "dget d ''escalation'' = VDict (case wf_escalation f of Some (x # xs) \<Rightarrow> x # xs | _ \<Rightarrow> [(''kind'', VStr ''stop'')])"
    and "dget d ''maintenance_windows'' = VList (case wf_maintenance_windows f of None \<Rightarrow> [] | Some ws \<Rightarrow> ws)"
    and "dget d ''enabled'' = VBool True" and "dget d ''status'' = VStr ''armed''"
    and "dget d ''failure_streak'' = VInt 0" and "dget d ''recovery_streak'' = VInt 0"
  unfolding d_def by (simp_all add: serialize_rule_def dget_def apply_form_def blank_rule_def)

text \<open>C24: A rule reads back as it was created: in the organization it was created in, looking up the id of the reply
  gives the reply again, sentence included; and the reply is the form: its name without the surrounding space,
  its site, description, probe, target and action, each of its six numbers under its own key and the four
  checked ones within their bounds, the escalation (a stop by default) and the maintenance windows, in a rule
  that starts enabled and armed with both streaks at zero.\<close>

theorem created_rule_reads_back:
  assumes "create_rule E f (c, h) = Inr (d, c', h')"
  shows "\<exists>i s. dget d ''id'' = VStr i \<and> get_rule E i (c', h') = Inr (Some d, s)
    \<and> (\<exists>name. wf_name f = VStr name \<and> dget d ''name'' = VStr (py_strip name))
    \<and> dget d ''site_id'' = of_opt_str (wf_site_id f) \<and> dget d ''description'' = of_opt_str (text_or_none (wf_description f))
    \<and> dget d ''probe'' = wf_probe f \<and> dget d ''action'' = wf_action f \<and> dget d ''target'' = wf_target f
    \<and> reads_back f d (1, 100) ''failure_threshold'' wf_failure_threshold
    \<and> reads_back f d (1, 100) ''recovery_threshold'' wf_recovery_threshold
    \<and> reads_back f d (5, 86400) ''window_seconds'' wf_window_seconds
    \<and> reads_back f d (0, 86400) ''cooldown_seconds'' wf_cooldown_seconds
    \<and> map_option VInt (py_int (wf_max_retries f)) = Some (dget d ''max_retries'')
    \<and> map_option VInt (py_int (wf_retry_delay_seconds f)) = Some (dget d ''retry_delay_seconds'')
    \<and> dget d ''escalation'' = VDict (case wf_escalation f of Some (x # xs) \<Rightarrow> x # xs | _ \<Rightarrow> [(''kind'', VStr ''stop'')])
    \<and> dget d ''maintenance_windows'' = VList (case wf_maintenance_windows f of None \<Rightarrow> [] | Some ws \<Rightarrow> ws)
    \<and> dget d ''enabled'' = VBool True \<and> dget d ''status'' = VStr ''armed''
    \<and> dget d ''failure_streak'' = VInt 0 \<and> dget d ''recovery_streak'' = VInt 0"
  using assms
proof (rule create_ruleE)
  fix name org i a
  let ?r = "apply_form f name (blank_rule E f i org)"
  assume n: "validate_rule_inputs E f = Inr name" and h': "h' = h\<lparr>h_audit := a, h_rules := h_rules h @ [?r], h_ulid := Suc (h_ulid h)\<rparr>"
    and fresh: "tget wr_id i (h_rules h) = None" and ws: "with_sentence E Map.empty Map.empty ?r = Inr d"
    and fl: "\<exists>new d. stamp_and_guard_tenant_writes E [rule_obj None True] [] (c, h) = Inr (new, d, c', h\<lparr>h_audit := a\<rparr>) \<and> org = fo_org (hd new)"
    and "org \<noteq> None" and x: "extra_ints_ok f"
  then obtain o' where org: "org = Some o'" by blast
  have scope: "cx_org c' = Some o'" using fl org inserted_rule_org by metis
  obtain rows c1 h1 where sel: "select_rules E (c', h') = (rows, c1, h1)" by (metis prod_cases3)
  have rows: "rows = visible wr_organization_id (fst (add_tenant_filter E True [''watchdog_rules''] (c', h'))) (h_rules h')"
    using fst_select_scoped [of E "''watchdog_rules''" wr_organization_id h_rules "(c', h')"] sel by (simp add: select_rules_def)
  have r: "wr_id ?r = i" "wr_organization_id ?r = org" by (simp_all add: blank_rule_def)
  have "i \<notin> wr_id ` set (h_rules h)" using fresh by (simp add: tget_None_iff)
  then have "tget wr_id i (filter P (h_rules h)) = None" for P by (auto simp: tget_None_iff)
  then have "tget wr_id i rows = Some ?r"
    using rows fresh filter_is_scope [of E True "[''watchdog_rules'']" c' h'] scope org r
    by (cases "fst (add_tenant_filter E True [''watchdog_rules''] (c', h'))") (simp_all add: visible_def h' tget_append)
  then have get: "get_rule E i (c', h') = Inr (Some d, c1, h1)" using sel ws by (simp add: get_rule_def)
  have d: "\<exists>t. d = serialize_rule ?r (Some t)" using ws by (auto simp: with_sentence_def split: option.splits)
  have ok: "rule_problem E f = None" using n by (auto simp: validate_rule_inputs_def split: option.splits)
  then have dicts: "is_dict (wf_probe f)" "is_dict (wf_target f)" "is_dict (wf_action f)"
    using check_target_wf [of "wf_target f"] validate_action_wf [of E "wf_action f"]
    by (auto simp: rule_problem_def check_known_probe_def split: option.splits)
  have dict_back: "VDict (dict_of v) = v" if "is_dict v" for v using that by (cases v) simp_all
  obtain t where dt: "d = serialize_rule ?r (Some t)" using d by blast
  obtain nm where nm: "wf_name f = VStr nm" "name = py_strip nm"
    using n check_name_None [of "wf_name f"] rule_problem_bounds(5) [OF ok] ok by (auto simp: validate_rule_inputs_def)
  note shown_form = serialized_form [where E = E and i = i and org = org]
  have ints: "reads_back f d (1, 100) ''failure_threshold'' wf_failure_threshold"
    "reads_back f d (1, 100) ''recovery_threshold'' wf_recovery_threshold"
    "reads_back f d (5, 86400) ''window_seconds'' wf_window_seconds"
    "reads_back f d (0, 86400) ''cooldown_seconds'' wf_cooldown_seconds"
    using rule_problem_bounds [OF ok] by (auto simp: reads_back_def dt shown_form the_int_def)
  have extra: "map_option VInt (py_int (wf_max_retries f)) = Some (dget d ''max_retries'')"
    "map_option VInt (py_int (wf_retry_delay_seconds f)) = Some (dget d ''retry_delay_seconds'')"
    using x by (auto simp: extra_ints_ok_def dt shown_form the_int_def)
  show ?thesis
    using get ints extra nm dicts by (intro exI [of _ i] exI [of _ "(c1, h1)"]) (simp add: dt shown_form dict_back)
qed

text \<open>An update leaves the machine of the rule at its start.\<close>

lemma failures_needed:
  assumes "\<not> is_binding r" and "0 \<le> wr_failure_streak r" and "wr_failure_streak r + int (length (filter (\<lambda>x. fst x = ''failure'') xs)) < wr_failure_threshold r"
  shows "fst (rule_run E r h xs) = []"
  using assms
proof (induction xs arbitrary: r h)
  case (Cons x xs)
  obtain outcome now where x: "x = (outcome, now)" by (metis prod.exhaust)
  obtain b r1 h1 where up: "update_state_and_maybe_fire E r outcome now h = (b, r1, h1)" by (metis prod_cases3)
  obtain ts r2 h2 where rest: "rule_run E r1 h1 xs = (ts, r2, h2)" by (metis prod_cases3)
  have nb: "\<not> b" using update_state_fires_iff [OF Cons.prems(1) up] Cons.prems(3) by (auto simp: x)
  have step: "0 \<le> wr_failure_streak r1" "wr_failure_streak r1 \<le> wr_failure_streak r + (if outcome = ''failure'' then 1 else 0)"
    using Cons.prems(1,2) up by (auto simp: update_state_and_maybe_fire_def is_binding_def Let_def split: if_splits prod.splits)
  have "\<not> is_binding r1" "wr_failure_threshold r1 = wr_failure_threshold r"
    using update_state_config [OF up] Cons.prems(1) by (simp_all add: is_binding_def)
  then have "fst (rule_run E r1 h1 xs) = []"
    by (intro Cons.IH) (use step Cons.prems(3) in \<open>auto simp: x split: if_splits\<close>)
  then show ?case using nb rest by (simp add: x up)
qed simp

text \<open>After an update an edge-triggered rule starts afresh: whatever it counted before, it does not fire before
  its new number of failures has been seen.\<close>

theorem updated_rule_starts_afresh:
  assumes "update_rule E i f (c, h) = Inr (Some v, c', h')" and "r \<in> set (h_rules h')" and "wr_id r = i" and "\<not> is_binding r"
    and "int (length (filter (\<lambda>x. fst x = ''failure'') xs)) < wr_failure_threshold r"
  shows "wr_failure_threshold r = the_int (wf_failure_threshold f) \<and> VDict (wr_action r) = wf_action f \<and> fst (rule_run E' r k xs) = []"
  using assms(1)
proof (rule update_ruleE)
  fix name r0 q org a
  assume n: "validate_rule_inputs E f = Inr name" and q: "q = (rearmed E (apply_form f name r0))\<lparr>wr_organization_id := org\<rparr>"
    and id: "wr_id r0 = i" and h': "h' = put_rule q (h\<lparr>h_audit := a\<rparr>)"
  have "r = q" using assms(2,3) id by (auto simp: h' put_rule_def set_tupd q rearmed_def)
  then have "wr_failure_streak r = 0" "wr_failure_threshold r = the_int (wf_failure_threshold f)" "wr_action r = dict_of (wf_action f)"
    by (simp_all add: q rearmed_def apply_form_def)
  moreover have "is_dict (wf_action f)"
    using n validate_action_wf [of E "wf_action f"] by (auto simp: validate_rule_inputs_def rule_problem_def split: option.splits)
  ultimately show ?thesis
    using failures_needed [OF assms(4), of xs E' k] assms(5) by (cases "wf_action f") simp_all
qed

text \<open>Not so a binding: the edge it applied last is kept, so with a recovery threshold of one a new action for that edge
  is never applied while the condition holds.\<close>

lemma updated_binding_keeps_edge:
  assumes "is_binding r" and "wr_last_outcome r = Some active_marker" and "wr_recovery_threshold r = 1"
  shows "rule_run E (rearmed E r) h (map (Pair ''success'') ts) = ([], fst (snd (rule_run E (rearmed E r) h (map (Pair ''success'') ts))), h)"
proof -
  obtain fs r' h' where run: "rule_run E (rearmed E r) h (map (Pair ''success'') ts) = (fs, r', h')" by (metis prod_cases3)
  have "fs = [] \<and> h' = h"
    by (rule binding_holds [OF _ _ _ _ run]) (use assms in \<open>simp_all add: rearmed_def is_binding_def\<close>)
  then show ?thesis by (simp add: run)
qed

section \<open>Witnesses\<close>

definition rule_hub :: hub where
  "rule_hub = demo_hub\<lparr>h_organizations := [\<lparr>org_id = ''acme'', org_name = ''Acme'', org_slug = ''acme'',
       org_status = ''active'', org_plan = ''free'', org_is_self_hosted_default = True, org_max_devices = None, org_max_users = None,
       org_owner_user_id = None, org_created_at = 0, org_updated_at = 0\<rparr>], h_scenes := [tv_scene]\<rparr>"

definition wan_form :: rule_form where
  "wan_form = \<lparr>wf_name = VStr '' wan '', wf_probe = VDict [(''kind'', VStr ''ping''), (''host'', VStr ''192.0.2.1'')],
     wf_target = VDict [(''kind'', VStr ''group''), (''id'', VStr ''g'')],
     wf_action = VDict [(''kind'', VStr ''apply_scene''), (''scene_id'', VStr ''scn_1'')], wf_site_id = None, wf_description = None,
     wf_failure_threshold = VInt 2, wf_recovery_threshold = VInt 2, wf_window_seconds = VInt 60, wf_cooldown_seconds = VInt 300,
     wf_max_retries = VInt 3, wf_retry_delay_seconds = VInt 60, wf_escalation = None, wf_maintenance_windows = None, wf_user_id = None\<rparr>"


definition wan_rule :: watchdog_rule where
  "wan_rule = apply_form wan_form ''wan'' (blank_rule scope_env wan_form (new_id (env_ulid scope_env) ''wdr'' 0) (Some ''acme''))"

lemma wan_created:
  "\<exists>d c'. create_rule scope_env wan_form (scope_ctx (Some ''acme''), rule_hub)
     = Inr (d, c', rule_hub\<lparr>h_rules := [wan_rule], h_ulid := 1\<rparr>)"
proof -
  have form: "validate_rule_inputs scope_env wan_form = Inr ''wan''" "extra_ints_ok wan_form" by code_simp+
  have "case stamp_and_guard_tenant_writes scope_env [rule_obj None True] [] (scope_ctx (Some ''acme''), rule_hub) of
      Inl e \<Rightarrow> False | Inr (new, d, c, h) \<Rightarrow> h_audit h = [] \<and> fo_org (hd new) = Some ''acme''" by code_simp
  then obtain new d c h where fl: "stamp_and_guard_tenant_writes scope_env [rule_obj None True] [] (scope_ctx (Some ''acme''), rule_hub) = Inr (new, d, c, h)"
    and h: "h_audit h = []" "fo_org (hd new) = Some ''acme''" by (auto split: sum.splits)
  obtain a where "h = rule_hub\<lparr>h_audit := a\<rparr>" using flush_frame [OF fl] by blast
  moreover have "h_audit rule_hub = []" by code_simp
  ultimately have h': "h = rule_hub" using h(1) by (cases rule_hub) simp
  have empty: "h_ulid rule_hub = 0" "h_rules rule_hub = []" by code_simp+
  have fits: "rule_fits wan_rule rule_hub" by code_simp
  have "render_rule_sentence scope_env Map.empty Map.empty wan_rule \<noteq> None"
    by (simp add: render_rule_sentence_def target_to_phrase_def named_def wan_rule_def apply_form_def wan_form_def get_or_def dget_def dhas_def
        action_to_phrase.simps)
  then obtain t where "render_rule_sentence scope_env Map.empty Map.empty wan_rule = Some t" by blast
  then show ?thesis
    using form fl h(2) fits empty by (simp add: create_rule_def Let_def h' wan_rule_def with_sentence_def tadd_def)
qed


definition wan_hub :: hub where
  "wan_hub = rule_hub\<lparr>h_rules := [wan_rule], h_ulid := 1\<rparr>"

lemma rule_hub_ok: "rules_ok rule_hub" "scenes_ok rule_hub"
proof -
  show "rules_ok rule_hub" by (simp add: rules_ok_def rule_hub_def demo_defs)
  show "scenes_ok rule_hub" using tv_hub_ok by (simp add: scenes_ok_def rule_hub_def)
qed

lemma wan_steps: "mgmt_step\<^sup>*\<^sup>* rule_hub wan_hub"
  using wan_created by (auto simp: wan_hub_def intro: mgmt_step.create)

theorem rules_stay_well_formed_witness: "config_wf wan_rule \<and> wr_recovery_streak wan_rule < wr_recovery_threshold wan_rule"
proof -
  have "\<not> is_binding wan_rule" by code_simp
  then show ?thesis using rules_stay_well_formed [OF wan_steps rule_hub_ok, of wan_rule] by (simp add: wan_hub_def)
qed

theorem stored_rule_fires_witness:
  "\<not> isl (fst (dispatch_one demo_env wan_rule (wr_action wan_rule) (wr_target wan_rule) wan_hub))"
proof -
  have "leaves (wr_action wan_rule) = [wr_action wan_rule]" "\<not> kind_in (wr_action wan_rule) [''cycle'']" by code_simp+
  then show ?thesis
    using stored_rule_fires [OF wan_steps rule_hub_ok, of wan_rule "wr_action wan_rule" demo_env] by (simp add: wan_hub_def)
qed

theorem created_rule_reads_back_witness:
  "\<exists>d c' i s. get_rule scope_env i (c', wan_hub) = Inr (Some d, s) \<and> dget d ''failure_threshold'' = VInt 2"
proof -
  obtain d c' where "create_rule scope_env wan_form (scope_ctx (Some ''acme''), rule_hub) = Inr (d, c', wan_hub)"
    using wan_created unfolding wan_hub_def by blast
  from created_rule_reads_back [OF this] obtain i s where "get_rule scope_env i (c', wan_hub) = Inr (Some d, s)"
    and "reads_back wan_form d (1, 100) ''failure_threshold'' wf_failure_threshold" by blast
  moreover have "dget d ''failure_threshold'' = VInt 2"
    using \<open>reads_back _ _ _ _ _\<close> by (simp add: wan_form_def reads_back_def)
  ultimately show ?thesis by blast
qed

definition slow_form :: rule_form where
  "slow_form = wan_form\<lparr>wf_failure_threshold := VStr ''3''\<rparr>"

definition worn_rule :: watchdog_rule where
  "worn_rule = wan_rule\<lparr>wr_failure_streak := 7, wr_last_action_at := Some 0, wr_status := ''firing''\<rparr>"

lemma slow_updated:
  "\<exists>d c'. update_rule scope_env (wr_id worn_rule) slow_form (scope_ctx (Some ''acme''), rule_hub\<lparr>h_rules := [worn_rule]\<rparr>)
     = Inr (Some d, c', rule_hub\<lparr>h_rules := [rearmed scope_env (apply_form slow_form ''wan'' worn_rule)]\<rparr>)"
proof -
  let ?h = "rule_hub\<lparr>h_rules := [worn_rule]\<rparr>" and ?r = "rearmed scope_env (apply_form slow_form ''wan'' worn_rule)"
  let ?ob = "rule_obj (wr_organization_id ?r) (?r \<noteq> worn_rule)"
  have form: "validate_rule_inputs scope_env slow_form = Inr ''wan''" "extra_ints_ok slow_form" by code_simp+
  obtain rows c1 h1 where sel: "select_rules scope_env (scope_ctx (Some ''acme''), ?h) = (rows, c1, h1)" by (metis prod_cases3)
  have "case select_rules scope_env (scope_ctx (Some ''acme''), ?h) of (rows, c1, h1) \<Rightarrow> rows = [worn_rule] \<and> h_audit h1 = []
      \<and> (case stamp_and_guard_tenant_writes scope_env [] [?ob] (c1, h1) of
          Inl e \<Rightarrow> False | Inr (new, d, c, h) \<Rightarrow> h_audit h = [] \<and> fo_org (hd d) = Some ''acme'')" by code_simp
  then have rows: "rows = [worn_rule]" "h_audit h1 = []" and st: "case stamp_and_guard_tenant_writes scope_env [] [?ob] (c1, h1) of
          Inl e \<Rightarrow> False | Inr (new, d, c, h) \<Rightarrow> h_audit h = [] \<and> fo_org (hd d) = Some ''acme''" by (simp_all add: sel)
  from st obtain new d c2 h2 where fl: "stamp_and_guard_tenant_writes scope_env [] [?ob] (c1, h1) = Inr (new, d, c2, h2)"
    and h2: "h_audit h2 = []" "fo_org (hd d) = Some ''acme''" by (auto split: sum.splits)
  have "h_audit ?h = []" by code_simp
  have h1': "h1 = ?h"
    using select_rules_facts(1) [OF sel] rows(2) \<open>h_audit ?h = []\<close> by (cases rule_hub) auto
  then have h2': "h2 = ?h" using flush_frame [OF fl] h2(1) \<open>h_audit ?h = []\<close> by (cases rule_hub) auto
  have fits: "rule_fits ?r ?h" "wr_organization_id ?r = Some ''acme''" "wr_id ?r = wr_id worn_rule" by code_simp+
  have same: "?r\<lparr>wr_organization_id := Some ''acme''\<rparr> = ?r" using fits(2) by (cases ?r) simp
  have put: "put_rule ?r ?h = rule_hub\<lparr>h_rules := [?r]\<rparr>" using fits(3) by (simp add: put_rule_def tupd_def)
  have flr: "flush_rule scope_env worn_rule ?r (c1, h1) = Inr (?r, c2, rule_hub\<lparr>h_rules := [?r]\<rparr>)"
    using fl h2 fits(1) same put by (simp add: flush_rule_def Let_def h2')
  have "render_rule_sentence scope_env Map.empty Map.empty ?r \<noteq> None"
    by (simp add: render_rule_sentence_def target_to_phrase_def named_def rearmed_def apply_form_def slow_form_def wan_form_def get_or_def
        dget_def dhas_def action_to_phrase.simps)
  then obtain t where "render_rule_sentence scope_env Map.empty Map.empty ?r = Some t" by blast
  then show ?thesis
    using form sel rows(1) flr by (simp add: update_rule_def Let_def with_sentence_def)
qed

theorem updated_rule_starts_afresh_witness:
  "fst (rule_run demo_env (rearmed scope_env (apply_form slow_form ''wan'' worn_rule)) demo_hub
     [(''failure'', 60), (''success'', 120), (''failure'', 180)]) = []"
proof -
  let ?r = "rearmed scope_env (apply_form slow_form ''wan'' worn_rule)"
  obtain d c' where u: "update_rule scope_env (wr_id worn_rule) slow_form (scope_ctx (Some ''acme''), rule_hub\<lparr>h_rules := [worn_rule]\<rparr>)
     = Inr (Some d, c', rule_hub\<lparr>h_rules := [?r]\<rparr>)" using slow_updated by blast
  have facts: "wr_id ?r = wr_id worn_rule" "\<not> is_binding ?r" "wr_failure_threshold ?r = 3" by code_simp+
  show ?thesis
    using updated_rule_starts_afresh [OF u, of ?r "[(''failure'', 60), (''success'', 120), (''failure'', 180)]" demo_env demo_hub] facts by simp
qed

end
