(* ===== verification/RuleForms.thy ===== *)
theory RuleForms
  imports Conflicts RuleProps RoleBindings
begin

text \<open>
  The form that creates a rule (\<open>app/blueprints/admin/_rules_forms.py\<close>, the create handler of
  \<open>app/blueprints/admin/rules.py\<close>, \<open>_int_field\<close> of \<open>_common.py\<close> and \<open>app/middleware/picker_scope.py\<close>): from the flat fields
  to the values the service stores, with the target re-validated against what the picker offered and the
  conflicts shown before anything is saved. What the pickers offer is an argument.
\<close>

section \<open>Form fields\<close>

type_synonym form = "(string \<times> string) list"

definition fget :: "form \<Rightarrow> string \<Rightarrow> string" where
  "fget f k = (case map_of f k of None \<Rightarrow> [] | Some v \<Rightarrow> v)"

definition ftext :: "form \<Rightarrow> string \<Rightarrow> string" where
  "ftext f k = py_strip (fget f k)"

definition fgetlist :: "form \<Rightarrow> string \<Rightarrow> string list" where
  "fgetlist f k = map snd (filter (\<lambda>kv. fst kv = k) f)"

text \<open>\<open>int(form.get(k) or dflt)\<close>: \<open>None\<close> is the \<open>ValueError\<close>.\<close>

definition fint :: "form \<Rightarrow> string \<Rightarrow> int \<Rightarrow> int option" where
  "fint f k dflt = (if fget f k = [] then Some dflt else int_of_string (fget f k))"

datatype form_error =
    RuleFormError string
  | FormValidationError string string
  | PickerScopeError string
  | UncaughtValueError

definition form_int :: "form \<Rightarrow> string \<Rightarrow> int \<Rightarrow> int option \<Rightarrow> int option \<Rightarrow> form_error + int" where
  "form_int f name dflt lo hi =
     (if ftext f name = [] then Inr dflt
      else case int_of_string (ftext f name) of
        None \<Rightarrow> Inl (FormValidationError name (fget f name))
      | Some v \<Rightarrow>
          (if (case lo of None \<Rightarrow> False | Some l \<Rightarrow> v < l) \<or> (case hi of None \<Rightarrow> False | Some u \<Rightarrow> u < v)
           then Inl (FormValidationError name (fget f name)) else Inr v))"

definition validate_picker_id :: "string option \<Rightarrow> string list \<Rightarrow> string \<Rightarrow> bool \<Rightarrow> form_error + string option" where
  "validate_picker_id form_value ids label required =
     (let v = py_strip (case form_value of None \<Rightarrow> [] | Some x \<Rightarrow> x) in
      if v = [] then (if required then Inl (PickerScopeError label) else Inr None)
      else if v \<notin> set ids then Inl (PickerScopeError label) else Inr (Some v))"

section \<open>The values of a rule\<close>

text \<open>A number read by \<open>float()\<close>. An infinity and a NaN have no JSON value here and are kept as their text, which the
  checks treat alike.\<close>

fun float_value :: "pyfloat \<Rightarrow> pyval" where
  "float_value (Finite r) = VFloat r"
| "float_value Infinite = VStr ''inf''"
| "float_value NotANumber = VStr ''nan''"

definition ffloat :: "form \<Rightarrow> string \<Rightarrow> rat \<Rightarrow> pyfloat option" where
  "ffloat f k dflt = (if fget f k = [] then Some (Finite dflt) else float_of_string (fget f k))"

text \<open>A field that is left out when its number cannot be read.\<close>

definition optional_int :: "form \<Rightarrow> string \<Rightarrow> string \<Rightarrow> int \<Rightarrow> pydict" where
  "optional_int f field k dflt = (case fint f k dflt of None \<Rightarrow> [] | Some n \<Rightarrow> [(field, VInt n)])"

definition optional_text :: "form \<Rightarrow> string \<Rightarrow> string \<Rightarrow> pydict" where
  "optional_text f field k = (if ftext f k = [] then [] else [(field, VStr (ftext f k))])"

definition internet_targets :: "form \<Rightarrow> pyval list" where
  "internet_targets f =
     map (\<lambda>(h, p). VDict [(''host'', VStr h), (''port'', VInt (case int_of_string p of None \<Rightarrow> 0 | Some n \<Rightarrow> n))])
       (filter (\<lambda>(h, p). \<not> (h = [] \<and> p = []))
         (map (\<lambda>(h, p). (py_strip h, py_strip p)) (zip (fgetlist f ''internet_target_host[]'') (fgetlist f ''internet_target_port[]''))))"

definition build_probe_from_form :: "form \<Rightarrow> form_error + pydict" where
  "build_probe_from_form f =
     (let kind = ftext f ''probe_kind''; arg = ftext f ''probe_arg''; named = (\<lambda>fields. (''kind'', VStr kind) # fields) in
      if kind = ''internet'' then
        Inr (named (if internet_targets f = [] then [] else [(''targets'', VList (internet_targets f))]))
      else if kind = ''ping'' then Inr (named [(''host'', VStr arg)])
      else if kind = ''tcp'' then
        (let (host, _, port) = py_partition (CHR '':'') arg in
         case (if port = [] then Some 0 else int_of_string port) of
           None \<Rightarrow> Inl UncaughtValueError
         | Some n \<Rightarrow> Inr (named [(''host'', VStr host), (''port'', VInt n)]))
      else if kind = ''http'' then Inr (named [(''url'', VStr arg)])
      else if kind = ''dns'' then Inr (named [(''hostname'', VStr arg)])
      else if kind = ''gateway'' then Inr (named [])
      else if kind = ''roku_app_active'' then
        Inr (named ([(''source_id'', VStr (ftext f ''roku_source_id'')), (''app_name'', VStr (ftext f ''roku_app_name''))]
          @ optional_int f ''max_sample_age_seconds'' ''roku_max_sample_age_seconds'' 120))
      else if kind = ''ha_state_is'' then
        Inr (named ([(''source_id'', VStr (ftext f ''ha_source_id'')), (''entity_id'', VStr (ftext f ''ha_entity_id'')),
            (''expected_state'', VStr (ftext f ''ha_expected_state''))]
          @ optional_int f ''max_sample_age_seconds'' ''ha_max_sample_age_seconds'' 60))
      else if kind = ''weather_alert_active'' then
        Inr (named ([(''source_id'', VStr (ftext f ''weather_source_id''))]
          @ optional_text f ''event_contains'' ''weather_event_contains'' @ optional_text f ''min_severity'' ''weather_min_severity''
          @ optional_int f ''max_sample_age_seconds'' ''weather_max_sample_age_seconds'' 600))
      else if kind = ''ical_event_active'' then
        Inr (named ([(''source_id'', VStr (ftext f ''ical_source_id''))]
          @ optional_text f ''summary_contains'' ''ical_summary_contains''
          @ optional_int f ''max_sample_age_seconds'' ''ical_max_sample_age_seconds'' 1800))
      else if kind = ''epg_show_airing'' then
        Inr (named ([(''show'', VStr (ftext f ''epg_show''))] @ optional_text f ''network'' ''epg_network''))
      else if kind = ''power_above'' \<or> kind = ''power_below'' then
        (case ffloat f ''power_threshold_w'' 0 of
           None \<Rightarrow> Inl (RuleFormError ''threshold_w must be a number (e.g. 1500 for 1500W).'')
         | Some w \<Rightarrow> Inr (named ([(''device_id'', VStr (ftext f ''power_device_id'')), (''threshold_w'', float_value w),
             (''window_seconds'', VInt (case fint f ''power_window_seconds'' 300 of None \<Rightarrow> 300 | Some n \<Rightarrow> n))]
             @ optional_int f ''max_sample_age_seconds'' ''power_max_sample_age_seconds'' 600)))
      else if kind = ''power_zero_while_on'' then
        Inr (named ([(''device_id'', VStr (ftext f ''power_device_id'')),
          (''near_zero_threshold_w'', case ffloat f ''power_near_zero_threshold_w'' (1 / 2) of None \<Rightarrow> VFloat (1 / 2) | Some w \<Rightarrow> float_value w),
          (''window_seconds'', VInt (case fint f ''power_window_seconds'' 300 of None \<Rightarrow> 300 | Some n \<Rightarrow> n))]
          @ optional_int f ''max_sample_age_seconds'' ''power_max_sample_age_seconds'' 600))
      else Inl (RuleFormError ''Unsupported probe kind.''))"

definition build_target_from_form :: "form \<Rightarrow> form_error + pydict" where
  "build_target_from_form f =
     (let kind = ftext f ''target_kind''; i = ftext f ''target_id'' in
      if kind = ''device'' \<or> kind = ''group'' then Inr [(''kind'', VStr kind), (''id'', VStr i)]
      else if kind = ''tag'' then Inr [(''kind'', VStr ''tag''), (''tag'', VStr i)]
      else Inl (RuleFormError ''Pick a target.''))"

definition scene_side :: "string \<Rightarrow> pyval" where
  "scene_side i = VDict [(''kind'', VStr ''apply_scene''), (''scene_id'', VStr i)]"

definition build_action_from_form :: "form \<Rightarrow> form_error + pydict" where
  "build_action_from_form f =
     (let kind = py_strip (if fget f ''action_kind'' = [] then ''cycle'' else fget f ''action_kind'') in
      if kind = ''cycle'' then
        (case (fint f ''power_off_seconds'' 5, fint f ''post_reboot_holdoff_seconds'' 180) of
           (Some a, Some b) \<Rightarrow> Inr [(''kind'', VStr ''cycle''), (''power_off_seconds'', VInt a), (''post_reboot_holdoff_seconds'', VInt b)]
         | _ \<Rightarrow> Inl UncaughtValueError)
      else if kind \<in> {''hold_off'', ''notify_only'', ''relay_on'', ''relay_off''} then Inr [(''kind'', VStr kind)]
      else if kind = ''apply_scene'' then
        (if ftext f ''scene_id'' = [] then Inl (RuleFormError ''Pick a scene for the apply_scene action.'')
         else Inr [(''kind'', VStr ''apply_scene''), (''scene_id'', VStr (ftext f ''scene_id''))])
      else if kind = ''binding'' then
        (let active = ftext f ''binding_active_scene_id''; clear = ftext f ''binding_clear_scene_id'' in
         if active = [] \<or> clear = [] then
           Inl (RuleFormError ''A binding needs a scene for both the active and cleared states. Create scenes under Scenes first.'')
         else Inr [(''kind'', VStr ''binding''), (''on_active'', scene_side active), (''on_clear'', scene_side clear)])
      else Inl (RuleFormError ''Unsupported action.''))"

definition window_end :: "string \<Rightarrow> pyval" where
  "window_end s = VStr (if length s = 16 then s @ '':00+00:00'' else s)"

definition build_maintenance_windows_from_form :: "form \<Rightarrow> pyval list option" where
  "build_maintenance_windows_from_form f =
     (let a = ftext f ''maint_start''; b = ftext f ''maint_end'' in
      if a = [] \<or> b = [] then None else Some [VDict [(''start'', window_end a), (''end'', window_end b)]])"

section \<open>Submitting the form\<close>

definition scope_rule_target :: "string list \<Rightarrow> string list \<Rightarrow> pydict \<Rightarrow> form_error + pydict" where
  "scope_rule_target device_ids group_ids t =
     (if \<not> kind_in t [''device'', ''group''] then Inr t
      else case validate_picker_id (Some (text_of (dget t ''id''))) (if kind_in t [''device''] then device_ids else group_ids)
             (''Rule '' @ text_of (dget t ''kind'')) True of
        Inl e \<Rightarrow> Inl e
      | Inr v \<Rightarrow> Inr (dset t ''id'' (of_opt_str v)))"

text \<open>The values of the form, in the order the handler builds them.\<close>

definition form_values :: "string list \<Rightarrow> string list \<Rightarrow> form \<Rightarrow> form_error + (pydict \<times> pydict \<times> pydict \<times> int \<times> int \<times> int \<times> int)" where
  "form_values device_ids group_ids f =
     (case build_probe_from_form f of Inl e \<Rightarrow> Inl e | Inr probe \<Rightarrow>
      (case build_target_from_form f of Inl e \<Rightarrow> Inl e | Inr t0 \<Rightarrow>
      (case scope_rule_target device_ids group_ids t0 of Inl e \<Rightarrow> Inl e | Inr target \<Rightarrow>
      (case build_action_from_form f of Inl e \<Rightarrow> Inl e | Inr action \<Rightarrow>
      (case form_int f ''failure_threshold'' 3 None None of Inl e \<Rightarrow> Inl e | Inr ft \<Rightarrow>
      (case form_int f ''recovery_threshold'' 2 None None of Inl e \<Rightarrow> Inl e | Inr rt \<Rightarrow>
      (case form_int f ''window_seconds'' 60 None None of Inl e \<Rightarrow> Inl e | Inr ws \<Rightarrow>
      (case form_int f ''cooldown_seconds'' 300 None None of Inl e \<Rightarrow> Inl e | Inr cd \<Rightarrow>
         Inr (probe, target, action, ft, rt, ws, cd)))))))))"

definition conflicts_acknowledged :: "form \<Rightarrow> bool" where
  "conflicts_acknowledged f \<longleftrightarrow> py_lower (fget f ''conflicts_acknowledged'') \<in> {''1'', ''true'', ''on''}"

datatype submit_reply =
    FormRejected form_error
  | ConflictsShown "finding list"
  | RuleRejected rule_error
  | RuleSaved string "finding list"
  | SubmitFailed

definition submitted_form :: "form \<Rightarrow> pydict \<times> pydict \<times> pydict \<times> int \<times> int \<times> int \<times> int \<Rightarrow> string \<Rightarrow> rule_form" where
  "submitted_form f v user = (case v of (probe, target, action, ft, rt, ws, cd) \<Rightarrow>
     \<lparr>wf_name = VStr (ftext f ''name''), wf_probe = VDict probe, wf_target = VDict target, wf_action = VDict action, wf_site_id = None,
      wf_description = None, wf_failure_threshold = VInt ft, wf_recovery_threshold = VInt rt, wf_window_seconds = VInt ws,
      wf_cooldown_seconds = VInt cd, wf_max_retries = VInt 3, wf_retry_delay_seconds = VInt 60, wf_escalation = None,
      wf_maintenance_windows = build_maintenance_windows_from_form f, wf_user_id = Some user\<rparr>)"

definition proposal_of :: "pydict \<times> pydict \<times> pydict \<times> int \<times> int \<times> int \<times> int \<Rightarrow> proposal" where
  "proposal_of v = (case v of (probe, target, action, ft, rt, ws, cd) \<Rightarrow>
     \<lparr>pp_probe = probe, pp_target = target, pp_action = action, pp_failure_threshold = VInt ft, pp_window_seconds = VInt ws,
      pp_cooldown_seconds = VInt cd\<rparr>)"

definition rules_create_submit ::
  "env \<Rightarrow> (pyval list \<Rightarrow> pyval list) \<Rightarrow> string list \<Rightarrow> string list \<Rightarrow> form \<Rightarrow> user \<Rightarrow> ctx \<times> hub \<Rightarrow> submit_reply \<times> ctx \<times> hub" where
  "rules_create_submit E arrange device_ids group_ids f u s =
     (case form_values device_ids group_ids f of
        Inl UncaughtValueError \<Rightarrow> (SubmitFailed, s)
      | Inl e \<Rightarrow> (FormRejected e, s)
      | Inr v \<Rightarrow>
          (case detect_conflicts E arrange (proposal_of v) None s of
             Inl e \<Rightarrow> (SubmitFailed, s)
           | Inr (conflicts, s1) \<Rightarrow>
               (if has_blocking conflicts \<and> \<not> conflicts_acknowledged f then (ConflictsShown conflicts, s1)
                else case create_rule E (submitted_form f v (usr_id u)) s1 of
                  Inl (WatchdogValidationError e) \<Rightarrow> (RuleRejected (WatchdogValidationError e), s1)
                | Inl e \<Rightarrow> (SubmitFailed, s1)
                | Inr (d, s2) \<Rightarrow>
                    (RuleSaved (text_of (dget d ''id'')) conflicts,
                     audit_record E ''watchdog_rule.created'' (Some (usr_id u)) (Some (usr_email u)) (Some ''watchdog_rule'')
                       (Some (text_of (dget d ''id''))) [(''name'', VStr (ftext f ''name'')), (''reason'', VStr ''operator'')] None s2))))"


section \<open>What the form guarantees\<close>

lemma ftext_strip [simp]: "py_strip (ftext f k) = ftext f k"
  by (simp add: ftext_def)

lemma strip_nonempty: "ftext f k \<noteq> [] \<Longrightarrow> py_strip (ftext f k) \<noteq> []"
  by simp

lemma cycle_times: "cycle_payload [(''kind'', VStr ''cycle''), (''power_off_seconds'', VInt a), (''post_reboot_holdoff_seconds'', VInt b)]
    = Some [(''power_off_seconds'', VInt a), (''post_reboot_holdoff_seconds'', VInt b)]"
  by (simp add: cycle_payload_def int_field_def dhas_def dget_def)

lemma built_action:
  assumes "build_action_from_form f = Inr a"
  shows "(\<exists>x y. a = [(''kind'', VStr ''cycle''), (''power_off_seconds'', VInt x), (''post_reboot_holdoff_seconds'', VInt y)])
    \<or> (\<exists>k \<in> {''hold_off'', ''notify_only'', ''relay_on'', ''relay_off''}. a = [(''kind'', VStr k)])
    \<or> (\<exists>i. py_strip i \<noteq> [] \<and> a = [(''kind'', VStr ''apply_scene''), (''scene_id'', VStr i)])
    \<or> (\<exists>i j. py_strip i \<noteq> [] \<and> py_strip j \<noteq> [] \<and> a = [(''kind'', VStr ''binding''), (''on_active'', scene_side i), (''on_clear'', scene_side j)])"
proof -
  define k where "k = py_strip (if fget f ''action_kind'' = [] then ''cycle'' else fget f ''action_kind'')"
  note built = assms [unfolded build_action_from_form_def Let_def, folded k_def]
  consider "k = ''cycle''" | "k \<in> {''hold_off'', ''notify_only'', ''relay_on'', ''relay_off''}" | "k = ''apply_scene''" | "k = ''binding''"
    using built by (auto split: if_splits)
  then show ?thesis
  proof cases
    case 1
    then have "\<exists>x y. a = [(''kind'', VStr ''cycle''), (''power_off_seconds'', VInt x), (''post_reboot_holdoff_seconds'', VInt y)]"
      using built by (auto split: option.splits)
    then show ?thesis by (rule disjI1)
  next
    case 2
    then have "k \<noteq> ''cycle''" by auto
    have "a = [(''kind'', VStr k)]" using built unfolding if_not_P [OF \<open>k \<noteq> ''cycle''\<close>] if_P [OF 2] by simp
    show ?thesis by (rule disjI2, rule disjI1, rule bexI [OF _ 2]) fact
  next
    case 3
    then have i: "ftext f ''scene_id'' \<noteq> []" and a: "a = [(''kind'', VStr ''apply_scene''), (''scene_id'', VStr (ftext f ''scene_id''))]"
      using built by (simp_all split: if_splits)
    show ?thesis by (rule disjI2, rule disjI2, rule disjI1, rule exI, rule conjI [OF strip_nonempty [OF i] a])
  next
    case 4
    then have i: "ftext f ''binding_active_scene_id'' \<noteq> []" and j: "ftext f ''binding_clear_scene_id'' \<noteq> []"
      and a: "a = [(''kind'', VStr ''binding''), (''on_active'', scene_side (ftext f ''binding_active_scene_id'')),
            (''on_clear'', scene_side (ftext f ''binding_clear_scene_id''))]"
      using built by (simp_all split: if_splits)
    show ?thesis
      by (rule disjI2, rule disjI2, rule disjI2, rule exI, rule exI, rule conjI [OF strip_nonempty [OF i] conjI [OF strip_nonempty [OF j] a]])
  qed
qed

lemma scene_side_fine: "py_strip i \<noteq> [] \<Longrightarrow> check_sub_action E (scene_side i) field = None"
  by (simp add: scene_side_def check_sub_action_def validate_leaf_def LEAF_ACTION_KINDS_def dget_def)

text \<open>Every action the form can build is accepted by the validation, and none of its parts can fail when it fires:
  the times of a power cycle are numbers. So rules made with the form are free of the gap of the
  validation.\<close>

theorem form_action_accepted:
  assumes "build_action_from_form f = Inr a"
  shows "validate_action E (VDict a) = None \<and> list_all (\<lambda>l. kind_in l LEAF_ACTION_KINDS \<and> (kind_in l [''cycle''] \<longrightarrow> cycle_payload l \<noteq> None)) (leaves a)"
  using built_action [OF assms]
proof (elim disjE exE bexE conjE)
  fix x y
  assume a: "a = [(''kind'', VStr ''cycle''), (''power_off_seconds'', VInt x), (''post_reboot_holdoff_seconds'', VInt y)]"
  show ?thesis unfolding a
    by (simp add: validate_action_def validate_leaf_def LEAF_ACTION_KINDS_def leaves_def cycle_times) (simp add: dget_def)
next
  fix k
  assume "k \<in> {''hold_off'', ''notify_only'', ''relay_on'', ''relay_off''}" and a: "a = [(''kind'', VStr k)]"
  then show ?thesis
    by (auto simp: validate_action_def validate_leaf_def LEAF_ACTION_KINDS_def leaves_def dget_def)
next
  fix i
  assume "py_strip i \<noteq> []" and a: "a = [(''kind'', VStr ''apply_scene''), (''scene_id'', VStr i)]"
  then show ?thesis
    by (simp add: validate_action_def validate_leaf_def LEAF_ACTION_KINDS_def leaves_def dget_def)
next
  fix i j
  assume ij: "py_strip i \<noteq> []" "py_strip j \<noteq> []" and a: "a = [(''kind'', VStr ''binding''), (''on_active'', scene_side i), (''on_clear'', scene_side j)]"
  have "dget a ''kind'' = VStr ''binding''" "dget a ''on_active'' = scene_side i" "dget a ''on_clear'' = scene_side j"
    by (simp_all add: a dget_def)
  then show ?thesis
    by (simp add: validate_action_def leaves_def scene_side_fine ij)
      (simp add: scene_side_def dget_def LEAF_ACTION_KINDS_def)
qed


text \<open>Rules that do not fight: no two of them drive a common device in opposite ways.\<close>

definition conflict_free :: "hub \<Rightarrow> watchdog_rule list \<Rightarrow> bool" where
  "conflict_free h rs \<longleftrightarrow> (\<forall>r\<in>set rs. \<forall>q\<in>set rs. wr_id r \<noteq> wr_id q \<longrightarrow>
     \<not> (touching h (wr_target r) (wr_target q) \<and> opposite (power_intents (wr_action r)) (power_intents (wr_action q))))"

lemma touching_sym: "touching h t u \<longleftrightarrow> touching h u t"
proof -
  have "touching h t u \<longleftrightarrow> set (conflict_devices t h) \<inter> set (conflict_devices u h) \<noteq> {}" for t u
    by (auto simp: touching_def shared_devices_def filter_empty_conv)
  then show ?thesis by blast
qed

lemma opposite_sym: "opposite a b \<longleftrightarrow> opposite b a"
  by (auto simp: opposite_def)

lemma touching_cong: "h_memberships h' = h_memberships h \<Longrightarrow> touching h' = touching h"
proof -
  assume m: "h_memberships h' = h_memberships h"
  then have "group_device_ids g h' = group_device_ids g h" for g by (simp add: group_device_ids_def)
  then have "resolve_target_devices t h' = resolve_target_devices t h" for t
    by (simp add: resolve_target_devices_def Let_def split: option.split)
  then show ?thesis by (simp add: fun_eq_iff touching_def conflict_devices_def)
qed

lemma detect_frame:
  assumes "detect_conflicts E arrange p x (c, h) = Inr (fs, c', h')"
  shows "scope_eq E (h_settings h) c c' \<and> (\<exists>a. h' = h\<lparr>h_audit := a\<rparr>)"
proof -
  obtain all_rules c1 h1 where lr: "list_rules E None (c, h) = Inr (all_rules, c1, h1)"
    using assms by (auto simp: detect_conflicts_def split: sum.splits)
  obtain scheds c2 h2 where ls: "list_schedules E (c1, h1) = Inr (scheds, c2, h2)"
    using assms lr by (auto simp: detect_conflicts_def split: sum.splits)
  have "(c', h') = (c2, h2)" using assms lr ls by (auto simp: detect_conflicts_def Let_def split: sum.splits)
  moreover obtain rows where sel: "select_scoped E ''schedules'' sch_organization_id h_schedules (c1, h1) = (rows, c2, h2)"
    using ls by (auto simp: list_schedules_def select_schedules_def split: sum.splits prod.splits)
  moreover obtain a1 where h1: "h1 = h\<lparr>h_audit := a1\<rparr>" and sc: "scope_eq E (h_settings h) c c1" using list_rules_frame [OF lr] by blast
  moreover obtain a2 where "h2 = h1\<lparr>h_audit := a2\<rparr>" using select_scoped_frame(2) [OF sel] by blast
  moreover have "scope_eq E (h_settings h) c c2" using sc select_scoped_frame(1) [OF sel] by (auto simp: h1 scope_eq_def)
  ultimately have "scope_eq E (h_settings h) c c'" "h' = h\<lparr>h_audit := a2\<rparr>" by simp_all
  then show ?thesis by blast
qed

lemma rules_create_submitE:
  assumes "rules_create_submit E arrange dids gids f u (c, h) = (RuleSaved i fs, c', h')"
  obtains v c1 h1 d c2 h2 a where "form_values dids gids f = Inr v" and "detect_conflicts E arrange (proposal_of v) None (c, h) = Inr (fs, c1, h1)"
    and "has_blocking fs \<longrightarrow> conflicts_acknowledged f" and "create_rule E (submitted_form f v (usr_id u)) (c1, h1) = Inr (d, c2, h2)"
    and "i = text_of (dget d ''id'')" and "scope_eq E (h_settings h2) c2 c'" and "h' = h2\<lparr>h_audit := a\<rparr>"
proof -
  have "\<not> isl (form_values dids gids f)"
    using assms by (cases "form_values dids gids f") (auto simp: rules_create_submit_def split: form_error.splits)
  then obtain v where v: "form_values dids gids f = Inr v" by (cases "form_values dids gids f") auto
  let ?dc = "detect_conflicts E arrange (proposal_of v) None (c, h)"
  have "\<not> isl ?dc" using assms v by (cases ?dc) (simp_all add: rules_create_submit_def)
  then obtain fs' c1 h1 where dc: "?dc = Inr (fs', c1, h1)" by (cases ?dc) auto
  have ack: "has_blocking fs' \<longrightarrow> conflicts_acknowledged f"
    using assms v dc by (auto simp: rules_create_submit_def split: if_splits)
  let ?cr = "create_rule E (submitted_form f v (usr_id u)) (c1, h1)"
  have "\<not> isl ?cr"
    using assms v dc ack by (cases ?cr) (auto simp: rules_create_submit_def split: if_splits rule_error.splits)
  then obtain d c2 h2 where cr: "?cr = Inr (d, c2, h2)" by (cases ?cr) auto
  have res: "RuleSaved i fs = RuleSaved (text_of (dget d ''id'')) fs'"
    and au: "audit_record E ''watchdog_rule.created'' (Some (usr_id u)) (Some (usr_email u)) (Some ''watchdog_rule'')
       (Some (text_of (dget d ''id''))) [(''name'', VStr (ftext f ''name'')), (''reason'', VStr ''operator'')] None (c2, h2) = (c', h')"
    using assms v dc ack cr by (auto simp: rules_create_submit_def split: if_splits)
  obtain c3 where c3: "audit_record E ''watchdog_rule.created'' (Some (usr_id u)) (Some (usr_email u)) (Some ''watchdog_rule'')
       (Some (text_of (dget d ''id''))) [(''name'', VStr (ftext f ''name'')), (''reason'', VStr ''operator'')] None (c2, h2)
       = (c3, h2\<lparr>h_audit := h_audit h2 @ [build_event E c2 ''watchdog_rule.created'' (Some (usr_id u)) (Some (usr_email u)) (Some ''watchdog_rule'')
       (Some (text_of (dget d ''id''))) [(''name'', VStr (ftext f ''name'')), (''reason'', VStr ''operator'')] None]\<rparr>)"
    and sc: "scope_eq E (h_settings h2) c2 c3" by (rule audit_recordE)
  have fs: "fs' = fs" and i: "i = text_of (dget d ''id'')" using res by simp_all
  have "c3 = c'" and "\<exists>a. h' = h2\<lparr>h_audit := a\<rparr>" using au c3 by auto
  then obtain a where "h' = h2\<lparr>h_audit := a\<rparr>" by blast
  show ?thesis
    by (rule that [OF v dc [unfolded fs] ack [unfolded fs] cr i sc [unfolded \<open>c3 = c'\<close>] \<open>h' = h2\<lparr>h_audit := a\<rparr>\<close>])
qed


lemma rule_fits_audit [simp]: "rule_fits r (h\<lparr>h_audit := a\<rparr>) = rule_fits r h"
  by (simp add: rule_fits_def get_site_def split: option.split)

lemma visible_rules_eq:
  "visible_rules E (c, h) = visible wr_organization_id (fst (add_tenant_filter E True [''watchdog_rules''] (c, h))) (h_rules h)"
  by (simp add: visible_rules_def select_rules_def fst_select_scoped)

lemma visible_rules_subset: "set (visible f flt (rs @ qs)) \<subseteq> set (visible f flt rs) \<union> set qs"
  by (auto simp: visible_def split: option.splits)

text \<open>A rule that is saved with the form without acknowledging a conflict fights no other rule: if no two rules the
  operator can see drive a common device in opposite ways, the same holds with the new one, for every
  order in which sets are walked.\<close>

theorem form_keeps_conflict_free:
  assumes "rules_create_submit E arrange dids gids f u (c, h) = (RuleSaved i fs, c', h')" and "\<not> conflicts_acknowledged f"
    and "conflict_free h (visible_rules E (c, h))"
  shows "conflict_free h' (visible_rules E (c', h'))"
  using assms(1)
proof (rule rules_create_submitE)
  fix v c1 h1 d c2 h2 a
  assume v: "form_values dids gids f = Inr v" and dc: "detect_conflicts E arrange (proposal_of v) None (c, h) = Inr (fs, c1, h1)"
    and ack: "has_blocking fs \<longrightarrow> conflicts_acknowledged f" and cr: "create_rule E (submitted_form f v (usr_id u)) (c1, h1) = Inr (d, c2, h2)"
    and sc3: "scope_eq E (h_settings h2) c2 c'" and h': "h' = h2\<lparr>h_audit := a\<rparr>"
  obtain a1 where h1: "h1 = h\<lparr>h_audit := a1\<rparr>" and sc1: "scope_eq E (h_settings h) c c1" using detect_frame [OF dc] by blast
  let ?sf = "submitted_form f v (usr_id u)"
  show ?thesis
    using cr
  proof (rule create_ruleE)
    fix name org k b
    let ?r = "apply_form ?sf name (blank_rule E ?sf k org)"
    assume h2: "h2 = h1\<lparr>h_audit := b, h_rules := h_rules h1 @ [?r], h_ulid := Suc (h_ulid h1)\<rparr>"
      and st: "\<exists>new d. stamp_and_guard_tenant_writes E [rule_obj None True] [] (c1, h1) = Inr (new, d, c2, h1\<lparr>h_audit := b\<rparr>) \<and> org = fo_org (hd new)"
    from st obtain new d' where st': "stamp_and_guard_tenant_writes E [rule_obj None True] [] (c1, h1) = Inr (new, d', c2, h1\<lparr>h_audit := b\<rparr>)"
      by (elim exE conjE)
    have sc2: "scope_eq E (h_settings h) c1 c2" using flush_frame [OF st'] by (simp add: h1)
    have sc3': "scope_eq E (h_settings h) c2 c'" using sc3 by (simp add: h1 h2)
    note sc = scope_eq_trans [OF scope_eq_trans [OF sc1 sc2] sc3']
    have flt: "fst (add_tenant_filter E True [''watchdog_rules''] (c', h')) = fst (add_tenant_filter E True [''watchdog_rules''] (c, h))"
      by (rule scope_eq_filter [OF sc]) (simp add: h' h2 h1)
    have rules: "set (visible_rules E (c', h')) \<subseteq> insert ?r (set (visible_rules E (c, h)))"
      unfolding visible_rules_eq flt
      using visible_rules_subset [of wr_organization_id _ "h_rules h" "[?r]"] by (simp add: h' h2 h1)
    have touch: "touching h' = touching h" by (rule touching_cong) (simp add: h' h2 h1)
    have r: "wr_target ?r = pp_target (proposal_of v)" "wr_action ?r = pp_action (proposal_of v)"
      by (simp_all add: apply_form_def submitted_form_def proposal_of_def split: prod.splits)
    have "\<not> has_blocking fs" using ack assms(2) by blast
    then have new: "\<not> (touching h (wr_target ?r) (wr_target q) \<and> opposite (power_intents (wr_action ?r)) (power_intents (wr_action q)))"
      if "q \<in> set (visible_rules E (c, h))" for q
      using blocking_iff [OF dc] that unfolding r by blast
    show ?thesis
      unfolding conflict_free_def touch
    proof (intro ballI impI)
      fix x y
      assume xy: "x \<in> set (visible_rules E (c', h'))" "y \<in> set (visible_rules E (c', h'))" "wr_id x \<noteq> wr_id y"
      consider "x = ?r" "y \<in> set (visible_rules E (c, h))" | "y = ?r" "x \<in> set (visible_rules E (c, h))"
        | "x \<in> set (visible_rules E (c, h))" "y \<in> set (visible_rules E (c, h))" using xy rules by blast
      then show "\<not> (touching h (wr_target x) (wr_target y) \<and> opposite (power_intents (wr_action x)) (power_intents (wr_action y)))"
      proof cases
        case 1
        then show ?thesis using new by simp
      next
        case 2
        then show ?thesis using new [of x] touching_sym opposite_sym by blast
      next
        case 3
        then show ?thesis using assms(3) xy(3) by (auto simp: conflict_free_def)
      qed
    qed
  qed
qed


section \<open>Witnesses\<close>

theorem form_action_accepted_witness:
  "validate_action demo_env (VDict [(''kind'', VStr ''cycle''), (''power_off_seconds'', VInt 8), (''post_reboot_holdoff_seconds'', VInt 180)]) = None"
proof -
  have "build_action_from_form [(''power_off_seconds'', '' 8'')]
      = Inr [(''kind'', VStr ''cycle''), (''power_off_seconds'', VInt 8), (''post_reboot_holdoff_seconds'', VInt 180)]" by code_simp
  from form_action_accepted [OF this, of demo_env] show ?thesis by simp
qed

definition wan_fields :: form where
  "wan_fields = [(''name'', '' wan''), (''probe_kind'', ''ping''), (''probe_arg'', ''192.0.2.1''), (''target_kind'', ''group''),
     (''target_id'', ''g''), (''action_kind'', ''apply_scene''), (''scene_id'', ''scn_1'')]"

definition form_hub :: hub where
  "form_hub = rule_hub\<lparr>h_users := [demo_user ''ann'' ''admin'']\<rparr>"

definition wan_values :: "pydict \<times> pydict \<times> pydict \<times> int \<times> int \<times> int \<times> int" where
  "wan_values = ([(''kind'', VStr ''ping''), (''host'', VStr ''192.0.2.1'')], [(''kind'', VStr ''group''), (''id'', VStr ''g'')],
     [(''kind'', VStr ''apply_scene''), (''scene_id'', VStr ''scn_1'')], 3, 2, 60, 300)"

lemma wan_submitted:
  "\<exists>i fs c' h'. rules_create_submit scope_env (\<lambda>xs. xs) [] [''g''] wan_fields (demo_user ''ann'' ''admin'') (scope_ctx (Some ''acme''), form_hub)
     = (RuleSaved i fs, c', h')"
proof -
  let ?u = "demo_user ''ann'' ''admin''" and ?f = "submitted_form wan_fields wan_values ''ann''"
  have v: "form_values [] [''g''] wan_fields = Inr wan_values" by code_simp
  have ev: "case detect_conflicts scope_env (\<lambda>xs. xs) (proposal_of wan_values) None (scope_ctx (Some ''acme''), form_hub) of Inl e \<Rightarrow> False
      | Inr (fs, s1) \<Rightarrow> \<not> has_blocking fs
         \<and> (case stamp_and_guard_tenant_writes scope_env [rule_obj None True] [] s1 of Inl e \<Rightarrow> False
             | Inr (new, d, c, h) \<Rightarrow> fo_org (hd new) = Some ''acme'')" by code_simp
  let ?dc = "detect_conflicts scope_env (\<lambda>xs. xs) (proposal_of wan_values) None (scope_ctx (Some ''acme''), form_hub)"
  have "\<not> isl ?dc" using ev by (cases ?dc) simp_all
  then obtain fs c1 h1 where dc: "?dc = Inr (fs, c1, h1)" by (cases ?dc) auto
  have nb: "\<not> has_blocking fs" and st: "case stamp_and_guard_tenant_writes scope_env [rule_obj None True] [] (c1, h1) of Inl e \<Rightarrow> False
      | Inr (new, d, c, h) \<Rightarrow> fo_org (hd new) = Some ''acme''" using ev by (simp_all add: dc)
  from st obtain new d c2 h2 where fl: "stamp_and_guard_tenant_writes scope_env [rule_obj None True] [] (c1, h1) = Inr (new, d, c2, h2)"
    and org: "fo_org (hd new) = Some ''acme''" by (auto split: sum.splits)
  obtain a where h1: "h1 = form_hub\<lparr>h_audit := a\<rparr>" using detect_frame [OF dc] by blast
  obtain b where h2: "h2 = form_hub\<lparr>h_audit := b\<rparr>" using flush_frame [OF fl] h1 by auto
  have form: "validate_rule_inputs scope_env ?f = Inr ''wan''" "extra_ints_ok ?f" by code_simp+
  let ?r = "apply_form ?f ''wan'' (blank_rule scope_env ?f (new_id (env_ulid scope_env) ''wdr'' (h_ulid form_hub)) (Some ''acme''))"
  have "rule_fits ?r form_hub" "h_rules form_hub = []" by code_simp+
  then have fits: "rule_fits ?r h2" "h_rules h2 = []" "h_ulid h2 = h_ulid form_hub"
    by (simp_all add: h2)
  have "render_rule_sentence scope_env Map.empty Map.empty ?r \<noteq> None"
    by (simp add: render_rule_sentence_def target_to_phrase_def named_def apply_form_def submitted_form_def wan_values_def get_or_def dget_def
        dhas_def action_to_phrase.simps)
  then obtain t where "render_rule_sentence scope_env Map.empty Map.empty ?r = Some t" by blast
  then have "\<not> isl (create_rule scope_env ?f (c1, h1))"
    using form fl org fits by (simp add: create_rule_def Let_def with_sentence_def)
  then obtain d' c3 h3 where cr: "create_rule scope_env ?f (c1, h1) = Inr (d', c3, h3)" by (cases "create_rule scope_env ?f (c1, h1)") auto
  have "usr_id ?u = ''ann''" by (simp add: demo_user_def)
  then show ?thesis using v dc nb cr by (simp add: rules_create_submit_def)
qed

theorem form_keeps_conflict_free_witness:
  "\<exists>i fs c' h'. rules_create_submit scope_env (\<lambda>xs. xs) [] [''g''] wan_fields (demo_user ''ann'' ''admin'') (scope_ctx (Some ''acme''), form_hub)
     = (RuleSaved i fs, c', h') \<and> conflict_free h' (visible_rules scope_env (c', h'))"
proof -
  obtain i fs c' h' where s: "rules_create_submit scope_env (\<lambda>xs. xs) [] [''g''] wan_fields (demo_user ''ann'' ''admin'') (scope_ctx (Some ''acme''), form_hub)
     = (RuleSaved i fs, c', h')" using wan_submitted by blast
  have ack: "\<not> conflicts_acknowledged wan_fields" by code_simp
  have "visible_rules scope_env (scope_ctx (Some ''acme''), form_hub) = []" by code_simp
  then have "conflict_free form_hub (visible_rules scope_env (scope_ctx (Some ''acme''), form_hub))" by (simp add: conflict_free_def)
  from form_keeps_conflict_free [OF s ack this] s show ?thesis by blast
qed

end
