(* ===== verification/Firmware.thy ===== *)
theory Firmware
  imports Directory RuleChecks Accounts ScheduleRuntime
begin

text \<open>
  Firmware: the ordering of version strings (\<open>app/services/_versions.py\<close>), releases with their files and mirror
  rows (\<open>app/services/firmware.py\<close>) and the public pointer to the newest release of a channel
  (\<open>app/blueprints/firmware_public.py\<close>). The firmware directory is a list of files by subdirectory and name; the
  flat files are in the subdirectory \<open>''''\<close>. Writing to the disk does not fail here. None of these
  tables belongs to an organization, so neither the read filter nor the write guard applies.
\<close>

section \<open>Versions\<close>

definition version_sort_key :: "string option \<Rightarrow> int list \<times> string" where
  "version_sort_key v =
     (case v of
        None \<Rightarrow> ([-1], [])
      | Some s \<Rightarrow>
          (if s = [] then ([-1], [])
           else let (head, _, tail) = py_partition (CHR ''-'') s
                in (map (\<lambda>p. case int_of_string p of None \<Rightarrow> 0 | Some n \<Rightarrow> n) (split_on (CHR ''.'') head), tail)))"

text \<open>The order of Python's tuples.\<close>

fun tuple_less :: "int list \<Rightarrow> int list \<Rightarrow> bool" where
  "tuple_less [] ys \<longleftrightarrow> ys \<noteq> []"
| "tuple_less (x # xs) [] \<longleftrightarrow> False"
| "tuple_less (x # xs) (y # ys) \<longleftrightarrow> x < y \<or> x = y \<and> tuple_less xs ys"

definition is_upgrade :: "string option \<Rightarrow> string option \<Rightarrow> bool" where
  "is_upgrade target current \<longleftrightarrow>
     target \<noteq> None \<and> target \<noteq> Some [] \<and> current \<noteq> None \<and> current \<noteq> Some []
     \<and> tuple_less (fst (version_sort_key current)) (fst (version_sort_key target))"

lemma tuple_less_irrefl [simp]: "\<not> tuple_less xs xs"
  by (induction xs) auto

lemma tuple_less_trans: "tuple_less xs ys \<Longrightarrow> tuple_less ys zs \<Longrightarrow> tuple_less xs zs"
proof (induction xs ys arbitrary: zs rule: tuple_less.induct)
  case (3 x xs y ys)
  then show ?case by (cases zs) auto
qed (auto elim: tuple_less.elims)

lemma tuple_less_total: "tuple_less xs ys \<or> xs = ys \<or> tuple_less ys xs"
  by (induction xs ys rule: tuple_less.induct) auto

text \<open>How a release is named: numbers with dots between them and a label after a dash.\<close>

definition release_name :: "nat list \<Rightarrow> string \<Rightarrow> string" where
  "release_name ns label = join_with ''.'' (map dec ns) @ (if label = [] then [] else CHR ''-'' # label)"

lemma dec_plain: "c \<in> {CHR ''-'', CHR ''.''} \<Longrightarrow> c \<notin> set (dec n)"
  using dec_digits [of n] digit_not_mark by blast

lemma set_join_with: "set (join_with sep xs) \<subseteq> set sep \<union> (\<Union>x\<in>set xs. set x)"
  by (induction sep xs rule: join_with.induct) auto

lemma dotted_plain: "CHR ''-'' \<notin> set (join_with ''.'' (map dec ns))"
proof
  assume "CHR ''-'' \<in> set (join_with ''.'' (map dec ns))"
  then have "CHR ''-'' \<in> set ''.'' \<union> (\<Union>x\<in>set (map dec ns). set x)" by (rule subsetD [OF set_join_with])
  then obtain n where "CHR ''-'' \<in> set (dec n)" by auto
  then show False using dec_plain [of "CHR ''-''" n] by simp
qed

lemma dotted_nonempty: "ns \<noteq> [] \<Longrightarrow> join_with ''.'' (map dec ns) \<noteq> []"
proof -
  assume "ns \<noteq> []"
  then obtain n ms where "ns = n # ms" by (cases ns) auto
  then show ?thesis by (cases ms) auto
qed

lemma takeWhile_plain: "c \<notin> set a \<Longrightarrow> takeWhile (\<lambda>x. x \<noteq> c) (a @ c # t) = a"
  by (induction a) auto

lemma dropWhile_plain: "c \<notin> set a \<Longrightarrow> dropWhile (\<lambda>x. x \<noteq> c) (a @ c # t) = c # t"
  by (induction a) auto

lemma takeWhile_all_plain: "c \<notin> set a \<Longrightarrow> takeWhile (\<lambda>x. x \<noteq> c) a = a \<and> dropWhile (\<lambda>x. x \<noteq> c) a = []"
  by (induction a) auto

lemma release_key: "ns \<noteq> [] \<Longrightarrow> version_sort_key (Some (release_name ns label)) = (map int ns, label)"
proof -
  assume ns: "ns \<noteq> []"
  let ?d = "join_with ''.'' (map dec ns)"
  have split: "split_on (CHR ''.'') ?d = map dec ns"
    using split_on_join [of "map dec ns" "CHR ''.''"] ns by (auto simp: dec_plain)
  have nums: "map (\<lambda>p. case int_of_string p of None \<Rightarrow> 0 | Some n \<Rightarrow> n) (map dec ns) = map int ns"
    by (simp add: int_of_dec)
  have part: "py_partition (CHR ''-'') (release_name ns label) = (?d, label \<noteq> [], label)"
    using dotted_plain [of ns] takeWhile_plain [OF dotted_plain, of ns] dropWhile_plain [OF dotted_plain, of ns]
      takeWhile_all_plain [OF dotted_plain, of ns]
    by (auto simp: py_partition_def release_name_def)
  have "release_name ns label \<noteq> []" using dotted_nonempty [OF ns] by (simp add: release_name_def)
  then show ?thesis unfolding version_sort_key_def by (simp add: part split nums del: map_map)
qed

text \<open>An upgrade is strictly newer: the relation is irreflexive, asymmetric and transitive on all strings, and on
  release names it is the lexicographic order of their numbers as numbers, whatever the labels, so
  \<open>0.1.10\<close> upgrades \<open>0.1.9\<close> and a change of label alone never counts.\<close>

theorem is_upgrade_numeric:
  assumes "ns \<noteq> []" and "ms \<noteq> []"
  shows "\<not> is_upgrade v v \<and> \<not> (is_upgrade v w \<and> is_upgrade w v) \<and> (is_upgrade u v \<and> is_upgrade v w \<longrightarrow> is_upgrade u w)
    \<and> (is_upgrade (Some (release_name ns a)) (Some (release_name ms b)) \<longleftrightarrow> tuple_less (map int ms) (map int ns))"
proof (intro conjI)
  show "\<not> is_upgrade v v" by (simp add: is_upgrade_def)
  show "\<not> (is_upgrade v w \<and> is_upgrade w v)"
    using tuple_less_trans [of "fst (version_sort_key v)" "fst (version_sort_key w)" "fst (version_sort_key v)"]
    by (auto simp: is_upgrade_def)
  show "is_upgrade u v \<and> is_upgrade v w \<longrightarrow> is_upgrade u w"
    by (auto simp: is_upgrade_def intro: tuple_less_trans)
  show "is_upgrade (Some (release_name ns a)) (Some (release_name ms b)) \<longleftrightarrow> tuple_less (map int ms) (map int ns)"
    using dotted_nonempty [OF assms(1)] dotted_nonempty [OF assms(2)]
    by (simp add: is_upgrade_def release_key assms) (simp add: release_name_def)
qed

theorem is_upgrade_numeric_witness:
  "is_upgrade (Some (release_name [0, 1, 10] ''dev'')) (Some (release_name [0, 1, 9] ''dev-central''))
   \<and> \<not> is_upgrade (Some (release_name [0, 1, 9] ''b'')) (Some (release_name [0, 1, 9] ''a''))"
  using is_upgrade_numeric [of "[0, 1, 10]" "[0, 1, 9]" None None None "''dev''" "''dev-central''"]
    is_upgrade_numeric [of "[0, 1, 9]" "[0, 1, 9]" None None None "''b''" "''a''"] by simp

section \<open>Releases\<close>

type_synonym files = "((string \<times> string) \<times> string) list"

definition file_at :: "string \<Rightarrow> string \<Rightarrow> files \<Rightarrow> string option" where
  "file_at dir name fs = map_of fs (dir, name)"

definition drop_file :: "string \<Rightarrow> string \<Rightarrow> files \<Rightarrow> files" where
  "drop_file dir name fs = filter (\<lambda>f. fst f \<noteq> (dir, name)) fs"

definition put_file :: "string \<Rightarrow> string \<Rightarrow> string \<Rightarrow> files \<Rightarrow> files" where
  "put_file dir name bytes fs = ((dir, name), bytes) # drop_file dir name fs"

lemma file_at_put [simp]:
  "file_at d n (put_file d' n' b fs) = (if (d, n) = (d', n') then Some b else file_at d n fs)"
  by (auto simp: file_at_def put_file_def drop_file_def map_of_eq_None_iff) (induction fs; auto)+

lemma file_at_drop [simp]: "file_at d n (drop_file d' n' fs) = (if (d, n) = (d', n') then None else file_at d n fs)"
  by (induction fs) (auto simp: file_at_def drop_file_def)

definition ALLOWED_CHANNELS :: "string list" where "ALLOWED_CHANNELS = [''dev'', ''beta'', ''stable'']"

definition CHANNEL_POINTER_FILENAME :: string where "CHANNEL_POINTER_FILENAME = ''latest.bin''"

datatype firmware_error =
    BadChannel
  | VersionRequired
  | ShaMismatch string string
  | EmptyFirmware
  | FirmwareExists string

definition strip_trailing_slash :: "string \<Rightarrow> string" where
  "strip_trailing_slash s = rev (dropWhile (\<lambda>c. c = CHR ''/'') (rev s))"

definition ends_with :: "string \<Rightarrow> string \<Rightarrow> bool" where
  "ends_with s p \<longleftrightarrow> suffix p s"

definition api_root :: "string \<Rightarrow> string" where
  "api_root base = (if ends_with base ''/firmware'' then take (length base - 9) base @ ''/api/v1/firmware'' else base)"

definition serialize_mirror :: "firmware_mirror \<Rightarrow> pydict" where
  "serialize_mirror m = [(''id'', VStr (fmir_id m)), (''kind'', VStr (fmir_kind m)), (''url'', VStr (fmir_url m)),
     (''status'', VStr (fmir_status m)), (''verified_sha256'', of_opt_str (fmir_verified_sha256 m)),
     (''last_probed_at'', of_opt_str (map_option iso_z (fmir_last_probed_at m))), (''last_error'', of_opt_str (fmir_last_error m)),
     (''created_at'', VStr (iso_z (fmir_created_at m)))]"

definition of_opt_int :: "int option \<Rightarrow> pyval" where
  "of_opt_int v = (case v of None \<Rightarrow> VNone | Some n \<Rightarrow> VInt n)"

definition serialize_release :: "firmware_release \<Rightarrow> firmware_mirror list \<Rightarrow> pydict" where
  "serialize_release r ms = [(''id'', VStr (fwr_id r)), (''version'', VStr (fwr_version r)), (''channel'', VStr (fwr_channel r)),
     (''filename'', VStr (fwr_filename r)), (''download_url'', VStr (fwr_download_url r)), (''sha256'', VStr (fwr_sha256 r)),
     (''size_bytes'', of_opt_int (fwr_size_bytes r)), (''release_notes'', of_opt_str (fwr_release_notes r)),
     (''created_at'', VStr (iso_z (fwr_created_at r))), (''mirrors'', VList (map (VDict \<circ> serialize_mirror) ms))]"

definition mirrors_of :: "string \<Rightarrow> hub \<Rightarrow> firmware_mirror list" where
  "mirrors_of rid h = filter (\<lambda>m. fmir_release_id m = rid) (h_mirrors h)"

definition list_releases :: "hub \<Rightarrow> pydict list" where
  "list_releases h = map (\<lambda>r. serialize_release r (mirrors_of (fwr_id r) h)) (sort_key (\<lambda>r. - fwr_created_at r) (h_releases h))"

definition new_mirror :: "env \<Rightarrow> string \<Rightarrow> string \<Rightarrow> string \<Rightarrow> string \<Rightarrow> nat \<Rightarrow> firmware_mirror" where
  "new_mirror E rid kind url sha n = \<lparr>fmir_id = new_id (env_ulid E) ''fmir'' n, fmir_release_id = rid, fmir_kind = kind, fmir_url = url,
     fmir_status = ''live'', fmir_verified_sha256 = Some sha, fmir_last_probed_at = Some (env_now E), fmir_last_error = None,
     fmir_created_at = env_now E\<rparr>"

text \<open>The unique constraint on version and channel, and the foreign key of the user. Ids of the generator are
  fresh.\<close>

definition release_insertable :: "string \<Rightarrow> string \<Rightarrow> string option \<Rightarrow> hub \<Rightarrow> bool" where
  "release_insertable version channel user h \<longleftrightarrow>
     \<not> list_ex (\<lambda>r. fwr_version r = version \<and> fwr_channel r = channel) (h_releases h)
     \<and> (case user of None \<Rightarrow> True | Some u \<Rightarrow> load_user u h \<noteq> None)"

definition insert_release :: "env \<Rightarrow> (string \<Rightarrow> firmware_release) \<Rightarrow> (string \<times> string) list \<Rightarrow> hub \<Rightarrow> firmware_release \<times> hub" where
  "insert_release E mk mirrors h =
     (let n = h_ulid h; r = mk (new_id (env_ulid E) ''fwr'' n);
          ms = map (\<lambda>(k, kind, url). new_mirror E (fwr_id r) kind url (fwr_sha256 r) (Suc n + k)) (enumerate 0 mirrors)
      in (r, h\<lparr>h_releases := tadd r (h_releases h), h_mirrors := h_mirrors h @ ms, h_ulid := Suc n + length mirrors\<rparr>))"

definition final_name :: "string \<Rightarrow> string \<Rightarrow> string" where
  "final_name version channel = (if channel \<noteq> ''stable'' then ''rebooter-'' @ version @ ''-'' @ channel @ ''.bin'' else ''rebooter-'' @ version @ ''.bin'')"

definition uploaded_release ::
  "env \<Rightarrow> string \<Rightarrow> string \<Rightarrow> string \<Rightarrow> string \<Rightarrow> string \<Rightarrow> nat \<Rightarrow> string option \<Rightarrow> string option \<Rightarrow> string \<Rightarrow> firmware_release" where
  "uploaded_release E version channel name url sha len notes user i =
     \<lparr>fwr_id = i, fwr_version = version, fwr_channel = channel, fwr_filename = name, fwr_download_url = url, fwr_sha256 = sha,
      fwr_size_bytes = Some (int len), fwr_release_notes = notes, fwr_created_by_user_id = user, fwr_created_at = env_now E\<rparr>"

definition upload_mirrors :: "string \<Rightarrow> string \<Rightarrow> string \<Rightarrow> (string \<times> string) list" where
  "upload_mirrors base channel name =
     [(''local'', base @ ''/'' @ name), (''local_per_channel'', base @ ''/'' @ channel @ ''/'' @ name),
      (''local_channel_pointer'', api_root base @ ''/'' @ channel @ ''/latest'')]"

definition upload_release ::
  "env \<Rightarrow> crypto \<Rightarrow> string \<Rightarrow> string \<Rightarrow> string \<Rightarrow> string \<Rightarrow> string option \<Rightarrow> string option \<Rightarrow> string option \<Rightarrow> hub \<times> files
   \<Rightarrow> (firmware_error + pydict) \<times> hub \<times> files" where
  "upload_release E K public_base bytes version0 channel expected notes user s =
     (let h = fst s; fs = snd s; version = py_strip version0; sha = cy_sha256 K bytes; name = final_name version channel;
          want = (case expected of None \<Rightarrow> [] | Some x \<Rightarrow> x) in
      if channel \<notin> set ALLOWED_CHANNELS then (Inl BadChannel, s)
      else if version = [] then (Inl VersionRequired, s)
      else if want \<noteq> [] \<and> py_lower want \<noteq> sha then (Inl (ShaMismatch (py_lower want) sha), s)
      else if bytes = [] then (Inl EmptyFirmware, s)
      else if file_at [] name fs \<noteq> None then (Inl (FirmwareExists name), s)
      else
        let fs1 = put_file channel name bytes (put_file [] name bytes fs); base = strip_trailing_slash public_base;
            url = base @ ''/'' @ name
        in if \<not> release_insertable version channel user h
           then (Inl (FirmwareExists name), h, drop_file channel name (drop_file [] name fs1))
           else let (r, h1) = insert_release E
                      (uploaded_release E version channel name url sha (length bytes) notes user) (upload_mirrors base channel name) h
                in (Inr (serialize_release r (mirrors_of (fwr_id r) h1)), h1, fs1))"

section \<open>Scanning the directory\<close>

record scan =
  sc_discovered :: "pydict list"
  sc_updated :: "pydict list"
  sc_existing :: nat
  sc_pointer :: nat

definition scanned_version :: "string \<Rightarrow> string \<Rightarrow> string" where
  "scanned_version channel name =
     (let stem = take (length name - 4) name;
          v = (if starts_with stem ''rebooter-'' then drop 9 stem else stem)
      in if ends_with v (CHR ''-'' # channel) then take (length v - Suc (length channel)) v else v)"

definition refresh_release :: "env \<Rightarrow> string \<Rightarrow> string \<Rightarrow> nat \<Rightarrow> hub \<Rightarrow> hub" where
  "refresh_release E rid sha len h =
     h\<lparr>h_releases := tupd fwr_id rid (\<lambda>r. r\<lparr>fwr_sha256 := sha, fwr_size_bytes := Some (int len)\<rparr>) (h_releases h),
       h_mirrors := map (\<lambda>m. if fmir_release_id m = rid
           then m\<lparr>fmir_verified_sha256 := Some sha, fmir_last_probed_at := Some (env_now E), fmir_last_error := None, fmir_status := ''live''\<rparr>
           else m) (h_mirrors h)\<rparr>"

text \<open>What the scan does with a file whose name a release had when the scan began, and with any other.\<close>

definition scan_known :: "env \<Rightarrow> crypto \<Rightarrow> firmware_release \<Rightarrow> string \<Rightarrow> string \<Rightarrow> scan \<times> hub \<Rightarrow> scan \<times> hub" where
  "scan_known E K r name bytes st =
     (let (sc, h) = st; sha = cy_sha256 K bytes in
      if sha = fwr_sha256 r \<and> fwr_size_bytes r = Some (int (length bytes)) \<or> tget fwr_id (fwr_id r) (h_releases h) = None
      then (sc\<lparr>sc_existing := Suc (sc_existing sc)\<rparr>, h)
      else (sc\<lparr>sc_updated := sc_updated sc @
              [[(''id'', VStr (fwr_id r)), (''filename'', VStr name), (''channel'', VStr (fwr_channel r)), (''old_sha256'', VStr (fwr_sha256 r)),
                (''new_sha256'', VStr sha), (''old_size_bytes'', of_opt_int (fwr_size_bytes r)), (''new_size_bytes'', VInt (int (length bytes)))]]\<rparr>,
            refresh_release E (fwr_id r) sha (length bytes) h))"

definition scan_new :: "env \<Rightarrow> crypto \<Rightarrow> string \<Rightarrow> string option \<Rightarrow> string \<Rightarrow> string \<Rightarrow> string \<Rightarrow> scan \<times> hub \<Rightarrow> scan \<times> hub" where
  "scan_new E K public_base user channel name bytes st =
     (let (sc, h) = st; version = scanned_version channel name; base = strip_trailing_slash public_base; url = base @ ''/'' @ channel @ ''/'' @ name in
      if \<not> release_insertable version channel user h then (sc\<lparr>sc_existing := Suc (sc_existing sc)\<rparr>, h)
      else let (r, h1) = insert_release E
                 (uploaded_release E version channel name url (cy_sha256 K bytes) (length bytes) (Some ''discovered by on-disk scan'') user)
                 [(''local_per_channel'', url), (''local_channel_pointer'', api_root base @ ''/'' @ channel @ ''/latest'')] h
           in (sc\<lparr>sc_discovered := sc_discovered sc @
                 [[(''id'', VStr (fwr_id r)), (''version'', VStr version), (''channel'', VStr channel), (''filename'', VStr name),
                   (''size_bytes'', VInt (int (length bytes))), (''sha256'', VStr (fwr_sha256 r))]]\<rparr>, h1))"

definition scan_entry ::
  "env \<Rightarrow> crypto \<Rightarrow> string \<Rightarrow> string option \<Rightarrow> firmware_release list \<Rightarrow> string \<times> string \<times> string \<Rightarrow> scan \<times> hub \<Rightarrow> scan \<times> hub" where
  "scan_entry E K base user known entry st =
     (case entry of (channel, name, bytes) \<Rightarrow>
        if name = CHANNEL_POINTER_FILENAME then ((fst st)\<lparr>sc_pointer := Suc (sc_pointer (fst st))\<rparr>, snd st)
        else if \<not> ends_with name ''.bin'' then st
        else case tget fwr_filename name (rev known) of
          Some r \<Rightarrow> scan_known E K r name bytes st
        | None \<Rightarrow> scan_new E K base user channel name bytes st)"

text \<open>The files of the channel directories, by channel and name.\<close>

definition channel_entries :: "files \<Rightarrow> (string \<times> string \<times> string) list" where
  "channel_entries fs =
     concat (map (\<lambda>ch. map (\<lambda>n. (ch, n, case file_at ch n fs of None \<Rightarrow> [] | Some b \<Rightarrow> b))
                   (sort (remdups (map (snd \<circ> fst) (filter (\<lambda>f. fst (fst f) = ch) fs))))) ALLOWED_CHANNELS)"

definition discover_on_disk_releases ::
  "env \<Rightarrow> crypto \<Rightarrow> string \<Rightarrow> string option \<Rightarrow> hub \<times> files \<Rightarrow> scan \<times> hub" where
  "discover_on_disk_releases E K base user s =
     fold (scan_entry E K base user (h_releases (fst s))) (channel_entries (snd s))
       (\<lparr>sc_discovered = [], sc_updated = [], sc_existing = 0, sc_pointer = 0\<rparr>, fst s)"

section \<open>Deletion and the channel pointer\<close>

definition drop_release :: "string \<Rightarrow> hub \<Rightarrow> hub" where
  "drop_release rid h =
     (let gone = map fwd_id (filter (\<lambda>d. fwd_release_id d = rid) (h_deployments h)) in
      h\<lparr>h_releases := tdel fwr_id rid (h_releases h), h_mirrors := filter (\<lambda>m. fmir_release_id m \<noteq> rid) (h_mirrors h),
        h_deployments := filter (\<lambda>d. fwd_release_id d \<noteq> rid) (h_deployments h),
        h_assignments := filter (\<lambda>a. fda_release_id a \<noteq> rid \<and> fda_deployment_id a \<notin> set gone) (h_assignments h)\<rparr>)"

definition delete_release :: "string \<Rightarrow> hub \<times> files \<Rightarrow> bool \<times> hub \<times> files" where
  "delete_release rid s =
     (case tget fwr_id rid (h_releases (fst s)) of
        None \<Rightarrow> (False, s)
      | Some r \<Rightarrow> (True, drop_release rid (fst s), drop_file (fwr_channel r) (fwr_filename r) (drop_file [] (fwr_filename r) (snd s))))"

definition latest_in_channel :: "string \<Rightarrow> hub \<Rightarrow> firmware_release option" where
  "latest_in_channel channel h =
     (if channel \<notin> set ALLOWED_CHANNELS then None
      else case sort_key (\<lambda>r. - fwr_created_at r) (filter (\<lambda>r. fwr_channel r = channel) (h_releases h)) of
        [] \<Rightarrow> None | r # _ \<Rightarrow> Some r)"

datatype pointer_reply = UnknownChannel | NoRelease | RedirectTo string

definition channel_latest_redirect :: "string \<Rightarrow> string \<Rightarrow> hub \<Rightarrow> pointer_reply" where
  "channel_latest_redirect public_base channel h =
     (if channel \<notin> set ALLOWED_CHANNELS then UnknownChannel
      else case latest_in_channel channel h of
        None \<Rightarrow> NoRelease
      | Some r \<Rightarrow> RedirectTo (strip_trailing_slash public_base @ ''/'' @ channel @ ''/'' @ fwr_filename r))"

section \<open>What releases promise\<close>

lemma insert_release_rows:
  "insert_release E mk mirrors h = (r, h') \<Longrightarrow>
     r = mk (new_id (env_ulid E) ''fwr'' (h_ulid h)) \<and> h_releases h' = h_releases h @ [r] \<and> h_users h' = h_users h"
  by (auto simp: insert_release_def Let_def tadd_def)

lemma latest_newest:
  assumes "ch \<in> set ALLOWED_CHANNELS" and "h_releases h' = rs @ [r]" and "fwr_channel r = ch"
    and "list_all (\<lambda>q. fwr_channel q = ch \<longrightarrow> fwr_created_at q < fwr_created_at r) rs"
  shows "latest_in_channel ch h' = Some r"
proof -
  define xs where "xs = sort_key (\<lambda>q. - fwr_created_at q) (filter (\<lambda>q. fwr_channel q = ch) (h_releases h'))"
  have r: "r \<in> set xs" by (simp add: xs_def assms)
  then obtain a as where xs: "xs = a # as" by (cases xs) auto
  have "sorted (map (\<lambda>q. - fwr_created_at q) xs)" by (simp add: xs_def)
  then have "fwr_created_at r \<le> fwr_created_at a" using r by (auto simp: xs)
  moreover have "a \<in> set xs" by (simp add: xs)
  then have "a = r \<or> a \<in> set rs \<and> fwr_channel a = ch" by (auto simp: xs_def assms)
  ultimately have "a = r" using assms(4) by (auto simp: list_all_iff)
  then show ?thesis using assms(1) xs by (simp add: latest_in_channel_def flip: xs_def)
qed

lemma past_guard: "(if b then (Inl e, s) else x) = (Inr d, t) \<longleftrightarrow> \<not> b \<and> x = (Inr d, t)"
  by simp

lemma upload_cases:
  assumes "upload_release E K public_base bytes v ch expected notes user (h, fs) = (Inr d, h', fs')"
  obtains r h1 where "ch \<in> set ALLOWED_CHANNELS" "bytes \<noteq> []"
    "case expected of None \<Rightarrow> True | Some x \<Rightarrow> x = [] \<or> py_lower x = cy_sha256 K bytes"
    "fs' = put_file ch (final_name (py_strip v) ch) bytes (put_file [] (final_name (py_strip v) ch) bytes fs)"
    "h_releases h' = h_releases h @ [r]" "fwr_channel r = ch" "fwr_filename r = final_name (py_strip v) ch"
    "fwr_sha256 r = cy_sha256 K bytes" "fwr_created_at r = env_now E" "d = serialize_release r (mirrors_of (fwr_id r) h')"
proof -
  let ?name = "final_name (py_strip v) ch"
  note up = assms [unfolded upload_release_def Let_def fst_conv snd_conv past_guard]
  let ?mk = "uploaded_release E (py_strip v) ch ?name (strip_trailing_slash public_base @ ''/'' @ ?name) (cy_sha256 K bytes) (length bytes) notes user"
  obtain r h1 where ins: "insert_release E ?mk (upload_mirrors (strip_trailing_slash public_base) ch ?name) h = (r, h1)"
    by fastforce
  have rows: "r = ?mk (new_id (env_ulid E) ''fwr'' (h_ulid h))" "h_releases h1 = h_releases h @ [r]"
    using insert_release_rows [OF ins] by blast+
  have ok: "ch \<in> set ALLOWED_CHANNELS" "bytes \<noteq> []" using up by blast+
  have want: "\<not> ((case expected of None \<Rightarrow> [] | Some x \<Rightarrow> x) \<noteq> [] \<and> py_lower (case expected of None \<Rightarrow> [] | Some x \<Rightarrow> x) \<noteq> cy_sha256 K bytes)"
    using up by blast
  have out: "d = serialize_release r (mirrors_of (fwr_id r) h1)" "h' = h1"
    "fs' = put_file ch ?name bytes (put_file [] ?name bytes fs)"
    using up [THEN conjunct2, THEN conjunct2, THEN conjunct2, THEN conjunct2, THEN conjunct2, THEN conjunct2] unfolding ins prod.case by blast+
  show thesis
  proof (rule that [OF ok _ out(3)])
    show "case expected of None \<Rightarrow> True | Some x \<Rightarrow> x = [] \<or> py_lower x = cy_sha256 K bytes"
      using want by (cases expected) auto
    show "h_releases h' = h_releases h @ [r]" using rows out(2) by simp
    show "fwr_channel r = ch" "fwr_filename r = ?name" "fwr_sha256 r = cy_sha256 K bytes" "fwr_created_at r = env_now E"
      unfolding rows(1) uploaded_release_def by simp_all
    show "d = serialize_release r (mirrors_of (fwr_id r) h')" using out by simp
  qed
qed

text \<open>After a successful upload the flat file and the file of the channel hold the uploaded bytes, the recorded hash is
  theirs and the one the operator expected, and when the channel has no newer release the public pointer
  leads to that file.\<close>

theorem uploaded_release_served:
  assumes "upload_release E K public_base bytes v ch expected notes user (h, fs) = (Inr d, h', fs')"
    and "list_all (\<lambda>q. fwr_channel q = ch \<longrightarrow> fwr_created_at q < env_now E) (h_releases h)"
  shows "\<exists>name. file_at [] name fs' = Some bytes \<and> file_at ch name fs' = Some bytes
    \<and> channel_latest_redirect public_base ch h' = RedirectTo (strip_trailing_slash public_base @ ''/'' @ ch @ ''/'' @ name)
    \<and> map_option fwr_sha256 (latest_in_channel ch h') = Some (cy_sha256 K bytes) \<and> dget d ''sha256'' = VStr (cy_sha256 K bytes)
    \<and> (case expected of None \<Rightarrow> True | Some x \<Rightarrow> x = [] \<or> py_lower x = cy_sha256 K bytes)"
  using assms(1)
proof (rule upload_cases)
  fix r h1
  let ?name = "final_name (py_strip v) ch"
  assume r: "ch \<in> set ALLOWED_CHANNELS" "case expected of None \<Rightarrow> True | Some x \<Rightarrow> x = [] \<or> py_lower x = cy_sha256 K bytes"
    "fs' = put_file ch ?name bytes (put_file [] ?name bytes fs)" "h_releases h' = h_releases h @ [r]"
    "fwr_channel r = ch" "fwr_filename r = ?name" "fwr_sha256 r = cy_sha256 K bytes" "fwr_created_at r = env_now E"
    "d = serialize_release r (mirrors_of (fwr_id r) h')"
  have latest: "latest_in_channel ch h' = Some r"
    by (rule latest_newest [OF r(1,4,5)]) (simp add: r(8) assms(2))
  have files: "file_at [] ?name fs' = Some bytes" "file_at ch ?name fs' = Some bytes" by (simp_all add: r(3))
  have pointer: "channel_latest_redirect public_base ch h' = RedirectTo (strip_trailing_slash public_base @ ''/'' @ ch @ ''/'' @ ?name)"
    unfolding channel_latest_redirect_def latest option.case r(6) using r(1) by simp
  have hash: "map_option fwr_sha256 (latest_in_channel ch h') = Some (cy_sha256 K bytes)" "dget d ''sha256'' = VStr (cy_sha256 K bytes)"
    by (simp_all add: latest r(7) r(9) serialize_release_def dget_def)
  show ?thesis
    by (rule exI [of _ ?name], intro conjI) (rule files pointer hash r(2))+
qed

lemma upload_succeeds:
  assumes "ch \<in> set ALLOWED_CHANNELS" "py_strip v \<noteq> []" "bytes \<noteq> []" "file_at [] (final_name (py_strip v) ch) fs = None"
    and "release_insertable (py_strip v) ch user h"
  shows "\<exists>d h'. upload_release E K public_base bytes v ch None notes user (h, fs) =
    (Inr d, h', put_file ch (final_name (py_strip v) ch) bytes (put_file [] (final_name (py_strip v) ch) bytes fs))"
  unfolding upload_release_def Let_def using assms by (simp split: prod.splits)

definition plain_crypto :: crypto where
  "plain_crypto = \<lparr>cy_sha256 = (\<lambda>s. ''#'' @ s), cy_hash_password = id, cy_verify_password = (=)\<rparr>"

theorem uploaded_release_served_witness:
  "\<exists>d h' fs'. upload_release (sched_env 5) plain_crypto ''http://hub/firmware/'' ''bin'' '' 1.2 '' ''dev'' None None None (empty_hub, []) = (Inr d, h', fs')
     \<and> channel_latest_redirect ''http://hub/firmware/'' ''dev'' h' = RedirectTo ''http://hub/firmware/dev/rebooter-1.2-dev.bin''"
proof -
  have guards: "''dev'' \<in> set ALLOWED_CHANNELS" "py_strip '' 1.2 '' \<noteq> []" "''bin'' \<noteq> []"
      "file_at [] (final_name (py_strip '' 1.2 '') ''dev'') [] = None" "release_insertable (py_strip '' 1.2 '') ''dev'' None empty_hub"
    by code_simp+
  have name: "final_name (py_strip '' 1.2 '') ''dev'' = ''rebooter-1.2-dev.bin''" by code_simp
  obtain d h' fs' where u: "upload_release (sched_env 5) plain_crypto ''http://hub/firmware/'' ''bin'' '' 1.2 '' ''dev'' None None None (empty_hub, []) = (Inr d, h', fs')"
      and fs': "fs' = put_file ''dev'' ''rebooter-1.2-dev.bin'' ''bin'' (put_file [] ''rebooter-1.2-dev.bin'' ''bin'' [])"
    using upload_succeeds [OF guards] unfolding name by blast
  have none: "list_all (\<lambda>q. fwr_channel q = ''dev'' \<longrightarrow> fwr_created_at q < env_now (sched_env 5)) (h_releases empty_hub)"
    by (simp add: empty_hub_def)
  obtain name where n: "file_at [] name fs' = Some ''bin''"
      "channel_latest_redirect ''http://hub/firmware/'' ''dev'' h' = RedirectTo (strip_trailing_slash ''http://hub/firmware/'' @ ''/'' @ ''dev'' @ ''/'' @ name)"
    using uploaded_release_served [OF u none] by (elim exE conjE)
  have name: "name = ''rebooter-1.2-dev.bin''" using n(1) by (auto simp: fs' file_at_def[of _ _ "[]"] split: if_splits)
  have "strip_trailing_slash ''http://hub/firmware/'' = ''http://hub/firmware''" by code_simp
  then have "channel_latest_redirect ''http://hub/firmware/'' ''dev'' h' = RedirectTo ''http://hub/firmware/dev/rebooter-1.2-dev.bin''"
    unfolding n(2) name by simp
  then show ?thesis using u by blast
qed

section \<open>Uploads and deletions that destroy other files\<close>

text \<open>An upload that loses to an existing release of the version deletes the file of that release.\<close>

lemma refused_upload_deletes_file:
  assumes "ch \<in> set ALLOWED_CHANNELS" "py_strip v \<noteq> []" "bytes \<noteq> []" "file_at [] (final_name (py_strip v) ch) fs = None"
    and "r \<in> set (h_releases h)" "fwr_version r = py_strip v" "fwr_channel r = ch"
  shows "\<exists>fs'. upload_release E K base bytes v ch None notes user (h, fs) = (Inl (FirmwareExists (final_name (py_strip v) ch)), h, fs')
    \<and> file_at ch (final_name (py_strip v) ch) fs' = None"
  using assms by (auto simp: upload_release_def Let_def release_insertable_def list_ex_iff)

text \<open>Deleting a release also deletes the flat file of its name, whichever release it belongs to.\<close>

lemma delete_release_takes_flat_file:
  assumes "tget fwr_id rid (h_releases h) = Some r" and "q \<in> set (h_releases h)" "fwr_filename q = fwr_filename r"
  shows "\<exists>h' fs'. delete_release rid (h, fs) = (True, h', fs') \<and> file_at [] (fwr_filename q) fs' = None"
  using assms by (simp add: delete_release_def)

section \<open>A scan settles the directory\<close>

definition release_keys :: "hub \<Rightarrow> (string \<times> string \<times> string) set" where
  "release_keys h = (\<lambda>r. (fwr_filename r, fwr_version r, fwr_channel r)) ` set (h_releases h)"

definition grows :: "hub \<Rightarrow> hub \<Rightarrow> bool" where
  "grows h h' \<longleftrightarrow> release_keys h \<subseteq> release_keys h' \<and> h_users h' = h_users h"

interpretation growing: state_preorder grows
  by unfold_locales (auto simp: grows_def)

lemma insertable_keys:
  "release_insertable v ch user h \<longleftrightarrow> (\<forall>f. (f, v, ch) \<notin> release_keys h) \<and> (case user of None \<Rightarrow> True | Some u \<Rightarrow> load_user u h \<noteq> None)"
  by (auto simp: release_insertable_def release_keys_def list_ex_iff)

lemma insertable_grows: "grows h h' \<Longrightarrow> release_insertable v ch user h' \<Longrightarrow> release_insertable v ch user h"
  by (auto simp: insertable_keys grows_def load_user_def split: option.splits)

lemma refresh_keys: "release_keys (refresh_release E i sha n h) = release_keys h \<and> h_users (refresh_release E i sha n h) = h_users h"
proof -
  have "(\<lambda>r. (fwr_filename r, fwr_version r, fwr_channel r)) ` set (tupd fwr_id i (\<lambda>r. r\<lparr>fwr_sha256 := sha, fwr_size_bytes := Some (int n)\<rparr>) rs)
      = (\<lambda>r. (fwr_filename r, fwr_version r, fwr_channel r)) ` set rs" for rs
    by (induction rs) (auto simp: tupd_def)
  then show ?thesis by (simp add: refresh_release_def release_keys_def)
qed

lemma insert_keys:
  "insert_release E (uploaded_release E v ch f url sha n notes user) ms h = (r, h') \<Longrightarrow>
     release_keys h' = insert (f, v, ch) (release_keys h) \<and> h_users h' = h_users h"
  using insert_release_rows [of E "uploaded_release E v ch f url sha n notes user" ms h r h']
  by (auto simp: release_keys_def uploaded_release_def)

lemma scan_entry_grows: "grows (snd st) (snd (scan_entry E K base user known e st))"
proof -
  obtain sc h where st: "st = (sc, h)" by (cases st)
  obtain ch n b where e: "e = (ch, n, b)" by (cases e)
  show ?thesis
    unfolding st e scan_entry_def scan_known_def scan_new_def Let_def
    by (auto simp: grows_def refresh_keys split: option.splits prod.splits dest!: insert_keys)
qed

lemma scan_fold_grows: "grows (snd st) (snd (fold (scan_entry E K base user known) es st))"
proof (induction es arbitrary: st)
  case Nil
  show ?case by (simp add: growing.leads_refl)
next
  case (Cons e es)
  show ?case using growing.leads_trans [OF scan_entry_grows Cons.IH] by simp
qed

text \<open>An entry the scan has nothing to add for.\<close>

definition settled :: "string option \<Rightarrow> hub \<Rightarrow> string \<times> string \<times> string \<Rightarrow> bool" where
  "settled user h e = (case e of (ch, n, b) \<Rightarrow>
     n = CHANNEL_POINTER_FILENAME \<or> \<not> ends_with n ''.bin'' \<or> (\<exists>v c. (n, v, c) \<in> release_keys h)
     \<or> \<not> release_insertable (scanned_version ch n) ch user h)"

lemma settled_grows: "settled user h e \<Longrightarrow> grows h h' \<Longrightarrow> settled user h' e"
  using insertable_grows by (cases e) (fastforce simp: settled_def grows_def)

lemma known_name: "tget fwr_filename n (rev rs) = Some r \<Longrightarrow> \<exists>v c. (n, v, c) \<in> (\<lambda>r. (fwr_filename r, fwr_version r, fwr_channel r)) ` set rs"
  by (drule tget_SomeD) force

lemma scan_entry_settles:
  assumes "(\<lambda>r. (fwr_filename r, fwr_version r, fwr_channel r)) ` set known \<subseteq> release_keys (snd st)"
  shows "settled user (snd (scan_entry E K base user known e st)) e"
proof -
  obtain sc h where st: "st = (sc, h)" by (cases st)
  obtain ch n b where e: "e = (ch, n, b)" by (cases e)
  have g: "grows h (snd (scan_entry E K base user known e st))" using scan_entry_grows [of st] st by simp
  consider "n = CHANNEL_POINTER_FILENAME \<or> \<not> ends_with n ''.bin''"
    | r where "n \<noteq> CHANNEL_POINTER_FILENAME" "ends_with n ''.bin''" "tget fwr_filename n (rev known) = Some r"
    | "n \<noteq> CHANNEL_POINTER_FILENAME" "ends_with n ''.bin''" "tget fwr_filename n (rev known) = None"
    by fastforce
  then show ?thesis
  proof cases
    case 1
    then show ?thesis by (auto simp: settled_def e)
  next
    case 2
    obtain v c where "(n, v, c) \<in> (\<lambda>r. (fwr_filename r, fwr_version r, fwr_channel r)) ` set known"
      using known_name [OF 2(3)] by blast
    moreover have "(\<lambda>r. (fwr_filename r, fwr_version r, fwr_channel r)) ` set known \<subseteq> release_keys h"
      using assms by (simp add: st)
    ultimately have "\<exists>v c. (n, v, c) \<in> release_keys h" by blast
    then have "settled user h e" by (auto simp: settled_def e)
    then show ?thesis by (rule settled_grows [OF _ g])
  next
    case 3
    show ?thesis
    proof (cases "release_insertable (scanned_version ch n) ch user h")
      case False
      then have "settled user h e" by (simp add: settled_def e)
      then show ?thesis by (rule settled_grows [OF _ g])
    next
      case True
      have "\<exists>v c. (n, v, c) \<in> release_keys (snd (scan_entry E K base user known e st))"
        unfolding scan_entry_def e prod.case scan_new_def Let_def st using 3 True
        by (auto split: prod.splits dest!: insert_keys)
      then show ?thesis by (auto simp: settled_def e)
    qed
  qed
qed

lemma scan_fold_settles:
  assumes "(\<lambda>r. (fwr_filename r, fwr_version r, fwr_channel r)) ` set known \<subseteq> release_keys (snd st)" and "e \<in> set es"
  shows "settled user (snd (fold (scan_entry E K base user known) es st)) e"
  using assms
proof (induction es arbitrary: st)
  case (Cons x es)
  let ?st = "scan_entry E K base user known x st"
  have g: "grows (snd st) (snd ?st)" by (rule scan_entry_grows)
  then have k: "(\<lambda>r. (fwr_filename r, fwr_version r, fwr_channel r)) ` set known \<subseteq> release_keys (snd ?st)"
    unfolding grows_def using Cons.prems(1) by (rule subset_trans [rotated, OF conjunct1])
  show ?case
  proof (cases "e = x")
    case True
    have "settled user (snd ?st) x" by (rule scan_entry_settles [OF Cons.prems(1)])
    then show ?thesis using settled_grows [OF _ scan_fold_grows] True by simp
  next
    case False
    then show ?thesis using Cons.IH [OF k] Cons.prems(2) by simp
  qed
qed simp

lemma settled_adds_nothing:
  assumes "settled user h e" and "grows h (snd st)" and "known = h_releases h"
  shows "sc_discovered (fst (scan_entry E K base user known e st)) = sc_discovered (fst st)"
proof -
  obtain sc h1 where st: "st = (sc, h1)" by (cases st)
  obtain ch n b where e: "e = (ch, n, b)" by (cases e)
  have "\<not> release_insertable (scanned_version ch n) ch user h1"
    if "n \<noteq> CHANNEL_POINTER_FILENAME" "ends_with n ''.bin''" "tget fwr_filename n (rev known) = None"
  proof -
    have "(n, v, c) \<notin> release_keys h" for v c
      using that(3) assms(3) by (auto simp: release_keys_def tget_None_iff)
    then have "\<not> release_insertable (scanned_version ch n) ch user h" using assms(1) that by (auto simp: settled_def e)
    then show ?thesis using insertable_grows assms(2) st by auto
  qed
  then show ?thesis
    unfolding scan_entry_def e prod.case st scan_known_def scan_new_def Let_def by (auto split: option.splits)
qed

lemma settled_fold:
  assumes "\<forall>e\<in>set es. settled user h e" and "grows h (snd st)" and "known = h_releases h"
  shows "sc_discovered (fst (fold (scan_entry E K base user known) es st)) = sc_discovered (fst st)"
  using assms(1,2)
proof (induction es arbitrary: st)
  case (Cons x es)
  let ?st = "scan_entry E K base user known x st"
  have "grows h (snd ?st)" by (rule growing.leads_trans [OF Cons.prems(2) scan_entry_grows])
  then have "sc_discovered (fst (fold (scan_entry E K base user known) es ?st)) = sc_discovered (fst ?st)"
    using Cons.IH Cons.prems(1) by simp
  also have "\<dots> = sc_discovered (fst st)"
    by (rule settled_adds_nothing [OF _ Cons.prems(2) assms(3)]) (use Cons.prems(1) in simp)
  finally show ?case by simp
qed simp

text \<open>A scan settles the directory: whatever files and releases there are, a second scan of the same files by the same
  operator discovers nothing, and no scan loses a release or changes its version, channel or file.\<close>

theorem scan_settles:
  shows "sc_discovered (fst (discover_on_disk_releases E' K base user (snd (discover_on_disk_releases E K base user (h, fs)), fs))) = []
    \<and> release_keys h \<subseteq> release_keys (snd (discover_on_disk_releases E K base user (h, fs)))"
proof
  let ?z = "\<lparr>sc_discovered = [], sc_updated = [], sc_existing = 0, sc_pointer = 0\<rparr>"
  define h1 where "h1 = snd (discover_on_disk_releases E K base user (h, fs))"
  have h1: "h1 = snd (fold (scan_entry E K base user (h_releases h)) (channel_entries fs) (?z, h))"
    by (simp add: h1_def discover_on_disk_releases_def)
  have "(\<lambda>r. (fwr_filename r, fwr_version r, fwr_channel r)) ` set (h_releases h) \<subseteq> release_keys (snd (?z, h))" by (simp add: release_keys_def)
  then have "\<forall>e\<in>set (channel_entries fs). settled user h1 e"
    unfolding h1 by (intro ballI scan_fold_settles)
  then show "sc_discovered (fst (discover_on_disk_releases E' K base user (snd (discover_on_disk_releases E K base user (h, fs)), fs))) = []"
    unfolding h1_def [symmetric] unfolding discover_on_disk_releases_def fst_conv snd_conv
    by (rule trans [OF settled_fold]) (simp_all add: growing.leads_refl)
  show "release_keys h \<subseteq> release_keys (snd (discover_on_disk_releases E K base user (h, fs)))"
    using scan_fold_grows [of "(?z, h)" E K base user "h_releases h" "channel_entries fs"]
    by (simp add: discover_on_disk_releases_def grows_def)
qed

end
