(* ===== verification/Deployments.thy ===== *)
theory Deployments
  imports Firmware
begin

text \<open>
  Firmware deployments (\<open>app/services/deployments.py\<close>): assigning a release to devices, handing it out, and
  completing the assignment when the device reports the version; the routes that create a deployment
  (\<open>app/blueprints/admin/firmware.py\<close>) and the device's \<open>/firmware\<close> route (\<open>app/blueprints/device_api.py\<close>).
\<close>

section \<open>Creating a deployment\<close>

definition ALLOWED_TARGET_TYPES :: "string list" where
  "ALLOWED_TARGET_TYPES = [''device'', ''group'', ''site'', ''all_devices'']"

definition ASSIGNMENT_STATES :: "string list" where
  "ASSIGNMENT_STATES = [''pending'', ''delivered'', ''completed'', ''failed'', ''superseded'']"

datatype deploy_error =
    BadTargetType
  | TargetIdRequired
  | DeployLookupError
  | DeployIntegrityError

definition serialize_deployment :: "firmware_deployment \<Rightarrow> firmware_release option \<Rightarrow> (string \<times> nat) list \<Rightarrow> pydict" where
  "serialize_deployment d rel counts = [(''id'', VStr (fwd_id d)), (''release_id'', VStr (fwd_release_id d)), (''target_type'', VStr (fwd_target_type d)),
     (''target_id'', of_opt_str (fwd_target_id d)), (''channel'', VStr (fwd_channel d)), (''force'', VBool (fwd_force d)),
     (''release'', case rel of None \<Rightarrow> VNone
        | Some r \<Rightarrow> VDict [(''version'', VStr (fwr_version r)), (''filename'', VStr (fwr_filename r)),
            (''download_url'', VStr (fwr_download_url r)), (''sha256'', VStr (fwr_sha256 r))]),
     (''counts'', VDict (map (\<lambda>(k, n). (k, VInt (int n))) counts)), (''created_at'', VStr (iso_z (fwd_created_at d)))]"

definition active_assignment :: "deployment_assignment \<Rightarrow> bool" where
  "active_assignment a \<longleftrightarrow> fda_state a = ''pending'' \<or> fda_state a = ''delivered''"

text \<open>The devices a target names; \<open>None\<close> is the \<open>LookupError\<close> of an unknown device.\<close>

definition target_devices :: "string \<Rightarrow> string option \<Rightarrow> hub \<Rightarrow> string list option" where
  "target_devices ty tid h =
     (let i = (case tid of None \<Rightarrow> [] | Some x \<Rightarrow> x) in
      if ty = ''device'' then map_option (\<lambda>d. [dev_id d]) (get_device i h)
      else if ty = ''group'' then Some (group_device_ids i h)
      else if ty = ''site'' then Some (map dev_id (filter (\<lambda>d. dev_site_id d = tid) (h_devices h)))
      else Some (map dev_id (h_devices h)))"

definition new_assignment :: "env \<Rightarrow> string \<Rightarrow> string \<Rightarrow> nat \<times> string \<Rightarrow> deployment_assignment" where
  "new_assignment E dep rel k = \<lparr>fda_id = new_id (env_ulid E) ''fda'' (fst k), fda_deployment_id = dep, fda_release_id = rel, fda_device_id = snd k,
     fda_state = ''pending'', fda_last_reported_version = None, fda_error_message = None, fda_created_at = env_now E, fda_updated_at = env_now E\<rparr>"

definition supersede :: "instant \<Rightarrow> string list \<Rightarrow> deployment_assignment \<Rightarrow> deployment_assignment" where
  "supersede now ids a =
     (if fda_device_id a \<in> set ids \<and> active_assignment a then a\<lparr>fda_state := ''superseded'', fda_updated_at := now\<rparr> else a)"

definition create_deployment ::
  "env \<Rightarrow> string \<Rightarrow> string \<Rightarrow> string option \<Rightarrow> string option \<Rightarrow> bool \<Rightarrow> string option \<Rightarrow> hub \<Rightarrow> deploy_error + (pydict \<times> hub)" where
  "create_deployment E release_id target_type target_id channel force user h =
     (if target_type \<notin> set ALLOWED_TARGET_TYPES then Inl BadTargetType
      else if target_type \<noteq> ''all_devices'' \<and> (target_id = None \<or> target_id = Some []) then Inl TargetIdRequired
      else case tget fwr_id release_id (h_releases h) of
        None \<Rightarrow> Inl DeployLookupError
      | Some r \<Rightarrow>
          (if (case user of None \<Rightarrow> False | Some u \<Rightarrow> load_user u h = None) then Inl DeployIntegrityError
           else case target_devices target_type target_id h of
             None \<Rightarrow> Inl DeployLookupError
           | Some ids \<Rightarrow>
               (let n = h_ulid h;
                    d = \<lparr>fwd_id = new_id (env_ulid E) ''fwd'' n, fwd_release_id = fwr_id r, fwd_target_type = target_type, fwd_target_id = target_id,
                         fwd_channel = (case channel of None \<Rightarrow> fwr_channel r | Some c \<Rightarrow> if c = [] then fwr_channel r else c),
                         fwd_force = force, fwd_issued_by_user_id = user, fwd_created_at = env_now E\<rparr>
                in Inr (serialize_deployment d (Some r) [(''target_devices'', length ids)],
                        h\<lparr>h_deployments := tadd d (h_deployments h),
                          h_assignments := map (supersede (env_now E) ids) (h_assignments h)
                            @ map (new_assignment E (fwd_id d) (fwr_id r)) (enumerate (Suc n) ids),
                          h_ulid := Suc n + length ids\<rparr>))))"

definition list_deployments :: "hub \<Rightarrow> pydict list" where
  "list_deployments h =
     map (\<lambda>d. let mine = filter (\<lambda>a. fda_deployment_id a = fwd_id d) (h_assignments h) in
            serialize_deployment d (tget fwr_id (fwd_release_id d) (h_releases h))
              ((''total'', length mine)
               # map (\<lambda>st. (st, length (filter (\<lambda>a. fda_state a = st) mine))) [''pending'', ''delivered'', ''completed'', ''failed'', ''superseded'']))
       (sort_key (\<lambda>d. - fwd_created_at d) (h_deployments h))"

section \<open>Handing out and completing\<close>

text \<open>The newest assignment of a device that satisfies a condition.\<close>

definition newest_assignment :: "(deployment_assignment \<Rightarrow> bool) \<Rightarrow> string \<Rightarrow> hub \<Rightarrow> deployment_assignment option" where
  "newest_assignment P did h =
     (case sort_key (\<lambda>a. - fda_created_at a) (filter (\<lambda>a. fda_device_id a = did \<and> P a) (h_assignments h)) of [] \<Rightarrow> None | a # _ \<Rightarrow> Some a)"

record offer =
  of_assignment_id :: string
  of_deployment_id :: string
  of_channel :: string
  of_target_version :: string
  of_download_url :: string
  of_sha256 :: string
  of_force :: bool

definition assignment_for_device :: "string \<Rightarrow> hub \<Rightarrow> offer option" where
  "assignment_for_device did h =
     (case newest_assignment active_assignment did h of
        None \<Rightarrow> None
      | Some a \<Rightarrow>
          (case (tget fwr_id (fda_release_id a) (h_releases h), tget fwd_id (fda_deployment_id a) (h_deployments h)) of
             (Some r, Some d) \<Rightarrow> Some \<lparr>of_assignment_id = fda_id a, of_deployment_id = fwd_id d, of_channel = fwd_channel d,
                of_target_version = fwr_version r, of_download_url = fwr_download_url r, of_sha256 = fwr_sha256 r, of_force = fwd_force d\<rparr>
           | _ \<Rightarrow> None))"

definition modify_assignment :: "string \<Rightarrow> (deployment_assignment \<Rightarrow> deployment_assignment) \<Rightarrow> hub \<Rightarrow> hub" where
  "modify_assignment i f h = h\<lparr>h_assignments := tupd fda_id i f (h_assignments h)\<rparr>"

definition mark_assignment_delivered :: "instant \<Rightarrow> string \<Rightarrow> hub \<Rightarrow> hub" where
  "mark_assignment_delivered now did h =
     (case newest_assignment (\<lambda>a. fda_state a = ''pending'') did h of
        None \<Rightarrow> h
      | Some a \<Rightarrow> modify_assignment (fda_id a) (\<lambda>a. a\<lparr>fda_state := ''delivered'', fda_updated_at := now\<rparr>) h)"

text \<open>
  What the database stores for a reported value in a column, by the column's qualified name; \<open>None\<close> when it
  refuses the value. The columns here are texts.
\<close>

type_synonym column_store = "string \<Rightarrow> pyval \<Rightarrow> pyval option"

fun column_text :: "pyval \<Rightarrow> string option" where
  "column_text (VStr s) = Some s"
| "column_text _ = None"

datatype report_error =
    ReportLookupError
  | ReportAttributeError
  | ReportRefused

definition store_text :: "column_store \<Rightarrow> string \<Rightarrow> pyval \<Rightarrow> report_error + string option" where
  "store_text D col v = (if v = VNone then Inr None else case D col v of None \<Rightarrow> Inl ReportRefused | Some w \<Rightarrow> Inr (column_text w))"

definition reconcile_assignment_reported_version ::
  "column_store \<Rightarrow> string \<Rightarrow> pyval \<Rightarrow> pyval \<Rightarrow> instant \<Rightarrow> hub \<Rightarrow> report_error + hub" where
  "reconcile_assignment_reported_version D did reported message now h =
     (case strip_or_raise reported of
        None \<Rightarrow> Inl ReportAttributeError
      | Some version \<Rightarrow>
          (if did = [] then Inr h
           else case newest_assignment active_assignment did h of
             None \<Rightarrow> Inr h
           | Some a \<Rightarrow>
               (let given = (if version = [] then VNone else VStr version);
                    new_version = (given \<noteq> of_opt_str (fda_last_reported_version a));
                    new_message = (truthy message \<and> message \<noteq> of_opt_str (fda_error_message a));
                    target = (case tget fwr_id (fda_release_id a) (h_releases h) of None \<Rightarrow> [] | Some r \<Rightarrow> py_strip (fwr_version r));
                    reached = (version \<noteq> [] \<and> target \<noteq> [] \<and> version = target)
                in case (if new_version then store_text D ''deployment_assignments.last_reported_version'' given else Inr (fda_last_reported_version a)) of
                     Inl e \<Rightarrow> Inl e
                   | Inr v \<Rightarrow>
                       (case (if reached then Inr None
                              else if new_message then store_text D ''deployment_assignments.error_message'' message else Inr (fda_error_message a)) of
                          Inl e \<Rightarrow> Inl e
                        | Inr m \<Rightarrow>
                            Inr (if new_version \<or> new_message \<or> reached
                                 then modify_assignment (fda_id a) (\<lambda>a. a\<lparr>fda_last_reported_version := v, fda_error_message := m,
                                        fda_state := (if reached then ''completed'' else fda_state a), fda_updated_at := now\<rparr>) h
                                 else h)))))"

text \<open>\<open>GET /device/firmware\<close> of an authenticated device.\<close>

definition firmware_assignment :: "instant \<Rightarrow> string \<Rightarrow> hub \<Rightarrow> offer option \<times> hub" where
  "firmware_assignment now did h =
     (case assignment_for_device did h of
        None \<Rightarrow> (None, h)
      | Some a \<Rightarrow> (Some a, mark_assignment_delivered now did h))"

section \<open>The routes that create a deployment\<close>

record deploy_request =
  dq_release_id :: string
  dq_target_type :: string
  dq_target_id :: "string option"
  dq_channel :: "string option"
  dq_force :: bool
  dq_confirmation_level :: pyval
  dq_confirmation_typed_value :: pyval

datatype deploy_reply =
    DeployInvalid
  | DeployUnconfirmed confirmation_required
  | DeployFailed deploy_error
  | Deployed pydict nat

definition deploy_target_count :: "deploy_request \<Rightarrow> hub \<Rightarrow> nat" where
  "deploy_target_count q h =
     (if dq_target_type q = ''all_devices'' then count_all_active_devices h
      else if dq_target_type q = ''group'' \<and> dq_target_id q \<noteq> None \<and> dq_target_id q \<noteq> Some []
      then count_group_members (case dq_target_id q of None \<Rightarrow> [] | Some i \<Rightarrow> i) h
      else 1)"

definition deploy_details :: "deploy_request \<Rightarrow> nat \<Rightarrow> pydict" where
  "deploy_details q n = [(''release_id'', VStr (dq_release_id q)), (''target_type'', VStr (dq_target_type q)), (''target_id'', of_opt_str (dq_target_id q)),
     (''target_count'', VInt (int n)), (''force'', VBool (dq_force q)), (''confirmation_level'', VStr (level_text (required_level n)))]"

definition create_firmware_deployment :: "env \<Rightarrow> deploy_request \<Rightarrow> user \<Rightarrow> ctx \<times> hub \<Rightarrow> deploy_reply \<times> ctx \<times> hub" where
  "create_firmware_deployment E q0 u s =
     (let q = q0\<lparr>dq_release_id := py_strip (dq_release_id q0), dq_target_type := py_strip (dq_target_type q0)\<rparr>; n = deploy_target_count q (snd s) in
      if dq_release_id q = [] then (DeployInvalid, s)
      else case validate_confirmation n ''deploy_firmware'' (dq_confirmation_level q) (dq_confirmation_typed_value q) of
        Some e \<Rightarrow> (DeployUnconfirmed e, s)
      | None \<Rightarrow>
          (case create_deployment E (dq_release_id q) (dq_target_type q) (dq_target_id q) (dq_channel q) (dq_force q) (Some (usr_id u)) (snd s) of
             Inl e \<Rightarrow> (DeployFailed e, s)
           | Inr (out, h1) \<Rightarrow>
               (Deployed out n,
                audit_record E ''firmware.mass_deployment_issued'' (Some (usr_id u)) (Some (usr_email u)) (Some ''firmware_deployment'')
                  (Some (dq_release_id q)) (deploy_details q n) None (fst s, h1))))"

text \<open>The form of the page: no channel, an empty target id is none, and a missing release or type is refused.\<close>

definition firmware_deploy_submit :: "env \<Rightarrow> deploy_request \<Rightarrow> user \<Rightarrow> ctx \<times> hub \<Rightarrow> deploy_reply \<times> ctx \<times> hub" where
  "firmware_deploy_submit E q0 u s =
     (let q = q0\<lparr>dq_target_type := py_strip (dq_target_type q0), dq_channel := None,
              dq_target_id := (if py_strip (dq_target_type q0) = ''all_devices'' then None
                 else case dq_target_id q0 of None \<Rightarrow> None | Some i \<Rightarrow> if py_strip i = [] then None else Some (py_strip i))\<rparr> in
      if py_strip (dq_release_id q) = [] \<or> dq_target_type q = [] then (DeployInvalid, s) else create_firmware_deployment E q u s)"

section \<open>One active assignment for each device\<close>

definition keys_ok :: "hub \<Rightarrow> bool" where
  "keys_ok h \<longleftrightarrow> distinct (map dev_id (h_devices h)) \<and> distinct (map (\<lambda>m. (gm_group_id m, gm_device_id m)) (h_memberships h))"

definition row_ok :: "ulid_gen \<Rightarrow> nat \<Rightarrow> deployment_assignment \<Rightarrow> bool" where
  "row_ok gen n a \<longleftrightarrow> fda_state a \<in> set ASSIGNMENT_STATES \<and> (\<exists>k<n. fda_id a = new_id gen ''fda'' k)"

definition assignments_ok :: "ulid_gen \<Rightarrow> hub \<Rightarrow> bool" where
  "assignments_ok gen h \<longleftrightarrow>
     distinct (map fda_device_id (filter active_assignment (h_assignments h)))
     \<and> distinct (map fda_id (h_assignments h))
     \<and> (\<forall>a\<in>set (h_assignments h). row_ok gen (h_ulid h) a)"

lemma row_ok_mono: "row_ok gen m a \<Longrightarrow> m \<le> n \<Longrightarrow> row_ok gen n a"
  by (auto simp: row_ok_def intro: less_le_trans)

text \<open>The operations on assignments in any order, and in between any change of other tables, with the
  deletions that cascade from them.\<close>

inductive deploy_step :: "ulid_gen \<Rightarrow> hub \<Rightarrow> hub \<Rightarrow> bool" for gen where
  create: "create_deployment E rel ty tid ch force user h = Inr (out, h') \<Longrightarrow> env_ulid E = gen \<Longrightarrow> keys_ok h \<Longrightarrow> deploy_step gen h h'"
| poll: "deploy_step gen h (snd (firmware_assignment now did h))"
| report: "reconcile_assignment_reported_version D did v m now h = Inr h' \<Longrightarrow> deploy_step gen h h'"
| delete: "delete_release rid (h, fs) = (b, h', fs') \<Longrightarrow> deploy_step gen h h'"
| other: "h_assignments h' = filter P (h_assignments h) \<Longrightarrow> h_ulid h \<le> h_ulid h' \<Longrightarrow> deploy_step gen h h'"

lemma distinct_filter_map:
  assumes "distinct (map key (filter P xs))" and "\<And>x. x \<in> set xs \<Longrightarrow> key (g x) = key x \<and> (P (g x) \<longrightarrow> P x)"
  shows "distinct (map key (filter P (map g xs)))"
  using assms
proof (induction xs)
  case (Cons x xs)
  have sub: "key ` set (filter P (map g xs)) \<subseteq> key ` set (filter P xs)"
  proof
    fix k
    assume "k \<in> key ` set (filter P (map g xs))"
    then obtain y where y: "y \<in> set xs" "P (g y)" "k = key (g y)" by auto
    then have "P y" "k = key y" using Cons.prems(2) [of y] by auto
    then show "k \<in> key ` set (filter P xs)" using y(1) by auto
  qed
  have ih: "distinct (map key (filter P (map g xs)))" using Cons by (auto split: if_splits)
  show ?case using Cons.prems(1) Cons.prems(2) [of x] ih sub by (auto split: if_splits)
qed simp

lemma newest_assignment_Some:
  "newest_assignment P did h = Some a \<Longrightarrow> a \<in> set (h_assignments h) \<and> fda_device_id a = did \<and> P a"
proof -
  assume "newest_assignment P did h = Some a"
  then obtain as where "sort_key (\<lambda>a. - fda_created_at a) (filter (\<lambda>a. fda_device_id a = did \<and> P a) (h_assignments h)) = a # as"
    by (auto simp: newest_assignment_def split: list.splits)
  then have "a \<in> set (sort_key (\<lambda>a. - fda_created_at a) (filter (\<lambda>a. fda_device_id a = did \<and> P a) (h_assignments h)))" by simp
  then show ?thesis by simp
qed

lemma newest_assignment_None: "newest_assignment P did h = None \<longleftrightarrow> (\<forall>a\<in>set (h_assignments h). \<not> (fda_device_id a = did \<and> P a))"
proof -
  have "newest_assignment P did h = None \<longleftrightarrow> sort_key (\<lambda>a. - fda_created_at a) (filter (\<lambda>a. fda_device_id a = did \<and> P a) (h_assignments h)) = []"
    by (simp add: newest_assignment_def split: list.splits)
  also have "\<dots> \<longleftrightarrow> filter (\<lambda>a. fda_device_id a = did \<and> P a) (h_assignments h) = []" by (simp flip: length_0_conv)
  finally show ?thesis by (auto simp: filter_empty_conv)
qed

lemma assignments_ok_modify:
  assumes ok: "assignments_ok gen h" and a: "a \<in> set (h_assignments h)" "active_assignment a"
    and f: "\<And>x. fda_device_id (f x) = fda_device_id x \<and> fda_id (f x) = fda_id x" "fda_state (f a) \<in> set ASSIGNMENT_STATES"
  shows "assignments_ok gen (modify_assignment (fda_id a) f h)"
proof -
  have only: "x = a" if "x \<in> set (h_assignments h)" "fda_id x = fda_id a" for x
    using ok that a by (auto simp: assignments_ok_def distinct_map dest: inj_onD)
  let ?g = "\<lambda>x. if fda_id x = fda_id a then f x else x"
  have rows: "h_assignments (modify_assignment (fda_id a) f h) = map ?g (h_assignments h)" "h_ulid (modify_assignment (fda_id a) f h) = h_ulid h"
    by (simp_all add: modify_assignment_def tupd_def)
  show ?thesis unfolding assignments_ok_def rows
  proof (intro conjI ballI)
    show "distinct (map fda_device_id (filter active_assignment (map ?g (h_assignments h))))"
      by (rule distinct_filter_map) (use ok only a f in \<open>auto simp: assignments_ok_def\<close>)
    have "map fda_id (map ?g (h_assignments h)) = map fda_id (h_assignments h)" using f by simp
    then show "distinct (map fda_id (map ?g (h_assignments h)))" using ok unfolding assignments_ok_def by (elim conjE) (simp only:)
    fix y
    assume "y \<in> set (map ?g (h_assignments h))"
    then obtain x where x: "x \<in> set (h_assignments h)" "y = ?g x" by auto
    have r: "row_ok gen (h_ulid h) x" using ok x(1) by (simp add: assignments_ok_def)
    show "row_ok gen (h_ulid h) y"
    proof (cases "fda_id x = fda_id a")
      case True
      then have "x = a" by (rule only [OF x(1)])
      then show ?thesis using r f x(2) by (simp add: row_ok_def)
    next
      case False
      then show ?thesis using r x(2) by simp
    qed
  qed
qed

lemma filter_swap: "filter P (filter Q xs) = filter Q (filter P xs)"
  by (induction xs) auto

lemma assignments_ok_filter:
  assumes ok: "assignments_ok gen h" and f: "h_assignments h' = filter P (h_assignments h)" and u: "h_ulid h \<le> h_ulid h'"
  shows "assignments_ok gen h'"
  unfolding assignments_ok_def f filter_swap [of active_assignment]
proof (intro conjI ballI)
  show "distinct (map fda_device_id (filter P (filter active_assignment (h_assignments h))))" "distinct (map fda_id (filter P (h_assignments h)))"
    by (rule distinct_map_filter, use ok in \<open>simp add: assignments_ok_def\<close>)+
  fix a
  assume "a \<in> set (filter P (h_assignments h))"
  then have "row_ok gen (h_ulid h) a" using ok by (simp add: assignments_ok_def)
  then show "row_ok gen (h_ulid h') a" by (rule row_ok_mono [OF _ u])
qed

lemma distinct_column: "distinct (map (\<lambda>m. (g m, d m)) ms) \<Longrightarrow> distinct (map d (filter (\<lambda>m. g m = i) ms))"
proof (induction ms)
  case (Cons m ms)
  have "d m \<notin> d ` set (filter (\<lambda>m. g m = i) ms)" if "g m = i"
    using Cons.prems that by (auto simp: image_iff)
  then show ?case using Cons by simp
qed simp

lemma target_devices_distinct: "keys_ok h \<Longrightarrow> target_devices ty tid h = Some ids \<Longrightarrow> distinct ids"
proof -
  assume ok: "keys_ok h" and t: "target_devices ty tid h = Some ids"
  have "distinct (group_device_ids i h)" for i
    unfolding group_device_ids_def by (rule distinct_column) (use ok in \<open>simp add: keys_ok_def\<close>)
  moreover have "distinct (map dev_id (filter Q (h_devices h)))" for Q
    using ok by (simp add: keys_ok_def distinct_map_filter)
  ultimately show ?thesis using t ok by (auto simp: target_devices_def Let_def keys_ok_def split: if_splits)
qed

lemma supersede_keeps [simp]:
  "fda_id (supersede now ids a) = fda_id a" "fda_device_id (supersede now ids a) = fda_device_id a"
  "active_assignment (supersede now ids a) \<longleftrightarrow> active_assignment a \<and> fda_device_id a \<notin> set ids"
  by (auto simp: supersede_def active_assignment_def)

lemma new_assignment_get [simp]:
  "fda_id (new_assignment E dep rel k) = new_id (env_ulid E) ''fda'' (fst k)" "fda_device_id (new_assignment E dep rel k) = snd k"
  "active_assignment (new_assignment E dep rel k)" "fda_state (new_assignment E dep rel k) = ''pending''"
  by (simp_all add: new_assignment_def active_assignment_def)

lemma created_ok:
  assumes ok: "assignments_ok gen h" and ids: "distinct ids" and gen: "inj gen" "env_ulid E = gen"
    and h': "h_assignments h' = map (supersede now ids) (h_assignments h) @ map (new_assignment E dep rel) (enumerate (Suc (h_ulid h)) ids)"
      "h_ulid h' = Suc (h_ulid h) + length ids"
  shows "assignments_ok gen h'"
proof -
  let ?old = "map (supersede now ids) (h_assignments h)" and ?ks = "enumerate (Suc (h_ulid h)) ids"
  have act: "map fda_device_id (filter active_assignment (h_assignments h'))
      = map fda_device_id (filter (\<lambda>a. fda_device_id a \<notin> set ids) (filter active_assignment (h_assignments h))) @ ids"
    by (simp add: h' filter_map o_def conj_commute)
  have all_ids: "map fda_id (h_assignments h') = map fda_id (h_assignments h) @ map (\<lambda>k. new_id gen ''fda'' (fst k)) ?ks"
    by (simp add: h' o_def gen)
  show ?thesis unfolding assignments_ok_def act all_ids
  proof (intro conjI ballI)
    show "distinct (map fda_device_id (filter (\<lambda>a. fda_device_id a \<notin> set ids) (filter active_assignment (h_assignments h))) @ ids)"
    proof -
      have "distinct (map fda_device_id (filter (\<lambda>a. fda_device_id a \<notin> set ids) (filter active_assignment (h_assignments h))))"
        by (rule distinct_map_filter) (use ok in \<open>simp add: assignments_ok_def\<close>)
      then show ?thesis using ids by auto
    qed
    have old: "\<exists>k<Suc (h_ulid h). i = new_id gen ''fda'' k" if i: "i \<in> fda_id ` set (h_assignments h)" for i
    proof -
      obtain a where a: "a \<in> set (h_assignments h)" "i = fda_id a" using i by blast
      have "row_ok gen (h_ulid h) a" using ok a(1) by (simp add: assignments_ok_def)
      then show ?thesis using a(2) unfolding row_ok_def by (elim conjE exE) (auto intro: less_SucI)
    qed
    have new: "map (\<lambda>k. new_id gen ''fda'' (fst k)) ?ks = map (new_id gen ''fda'') [Suc (h_ulid h)..<Suc (h_ulid h) + length ids]"
    proof -
      have "map (\<lambda>k. new_id gen ''fda'' (fst k)) ?ks = map (new_id gen ''fda'') (map fst ?ks)" by (simp only: map_map o_def)
      then show ?thesis by (simp only: map_fst_enumerate)
    qed
    show "distinct (map fda_id (h_assignments h) @ map (\<lambda>k. new_id gen ''fda'' (fst k)) ?ks)"
      unfolding new using ok old
      by (fastforce simp: assignments_ok_def distinct_map inj_on_def new_id_inj [OF gen(1)])
    fix a
    assume "a \<in> set (h_assignments h')"
    then consider b where "b \<in> set (h_assignments h)" "a = supersede now ids b" | k where "k \<in> set ?ks" "a = new_assignment E dep rel k"
      by (auto simp: h')
    then show "row_ok gen (h_ulid h') a"
    proof cases
      case 1
      have "row_ok gen (h_ulid h) b" using ok 1(1) by (simp add: assignments_ok_def)
      then have "row_ok gen (h_ulid h) a" unfolding 1(2) row_ok_def by (auto simp: supersede_def ASSIGNMENT_STATES_def)
      then show ?thesis by (rule row_ok_mono) (simp add: h')
    next
      case 2
      have "fst k < h_ulid h'" using 2(1) by (auto simp: h' in_set_enumerate_eq)
      then show ?thesis unfolding 2(2) row_ok_def by (auto simp: ASSIGNMENT_STATES_def gen)
    qed
  qed
qed

lemma create_deployment_cases:
  assumes "create_deployment E rel ty tid ch force user h = Inr (out, h')"
  obtains r ids d where "ty \<in> set ALLOWED_TARGET_TYPES" "tget fwr_id rel (h_releases h) = Some r" "target_devices ty tid h = Some ids"
    "fwd_id d = new_id (env_ulid E) ''fwd'' (h_ulid h)" "fwd_release_id d = fwr_id r" "fwd_force d = force"
    "h' = h\<lparr>h_deployments := tadd d (h_deployments h),
            h_assignments := map (supersede (env_now E) ids) (h_assignments h) @ map (new_assignment E (fwd_id d) (fwr_id r)) (enumerate (Suc (h_ulid h)) ids),
            h_ulid := Suc (h_ulid h) + length ids\<rparr>"
    "out = serialize_deployment d (Some r) [(''target_devices'', length ids)]"
proof -
  have g: "ty \<in> set ALLOWED_TARGET_TYPES" "\<not> (ty \<noteq> ''all_devices'' \<and> (tid = None \<or> tid = Some []))"
    using assms unfolding create_deployment_def by (auto split: if_splits)
  obtain r where r: "tget fwr_id rel (h_releases h) = Some r"
    using assms unfolding create_deployment_def by (auto split: if_splits option.splits)
  obtain ids where ids: "target_devices ty tid h = Some ids"
    using assms unfolding create_deployment_def r by (auto split: if_splits option.splits)
  have u: "\<not> (case user of None \<Rightarrow> False | Some u \<Rightarrow> load_user u h = None)"
    using assms unfolding create_deployment_def r by (auto split: if_splits)
  let ?d = "\<lparr>fwd_id = new_id (env_ulid E) ''fwd'' (h_ulid h), fwd_release_id = fwr_id r, fwd_target_type = ty, fwd_target_id = tid,
    fwd_channel = (case ch of None \<Rightarrow> fwr_channel r | Some c \<Rightarrow> if c = [] then fwr_channel r else c),
    fwd_force = force, fwd_issued_by_user_id = user, fwd_created_at = env_now E\<rparr>"
  have e: "Inr (out, h') = (Inr (serialize_deployment ?d (Some r) [(''target_devices'', length ids)],
      h\<lparr>h_deployments := tadd ?d (h_deployments h),
        h_assignments := map (supersede (env_now E) ids) (h_assignments h) @ map (new_assignment E (fwd_id ?d) (fwr_id r)) (enumerate (Suc (h_ulid h)) ids),
        h_ulid := Suc (h_ulid h) + length ids\<rparr>) :: deploy_error + pydict \<times> hub)"
    unfolding assms [symmetric] create_deployment_def r ids Let_def option.case if_not_P [OF u] using g by (simp only: not_not if_not_P if_False)
  show thesis
    by (rule that [OF g(1) r ids, of ?d]) (use e in simp_all)
qed

lemma strip_or_raise_text: "strip_or_raise v = Some t \<Longrightarrow> t \<noteq> [] \<Longrightarrow> \<exists>w. v = VStr w \<and> py_strip w = t"
  by (cases v) (auto simp: strip_or_raise_def split: if_splits)

lemma reconcile_cases:
  assumes "reconcile_assignment_reported_version D did v m now h = Inr h'"
  obtains "h' = h" | a x y reached where "newest_assignment active_assignment did h = Some a"
    "h' = modify_assignment (fda_id a) (\<lambda>a. a\<lparr>fda_last_reported_version := x, fda_error_message := y,
            fda_state := (if reached then ''completed'' else fda_state a), fda_updated_at := now\<rparr>) h"
    "reached \<longleftrightarrow> (\<exists>w r. v = VStr w \<and> py_strip w \<noteq> [] \<and> tget fwr_id (fda_release_id a) (h_releases h) = Some r \<and> py_strip (fwr_version r) = py_strip w)"
proof -
  obtain version where v: "strip_or_raise v = Some version"
    using assms by (auto simp: reconcile_assignment_reported_version_def split: option.splits)
  show thesis
  proof (cases "did = [] \<or> newest_assignment active_assignment did h = None")
    case True
    then have "h' = h" using assms v by (auto simp: reconcile_assignment_reported_version_def split: if_splits)
    then show thesis by (rule that(1))
  next
    case False
    then obtain a where a: "newest_assignment active_assignment did h = Some a" and d: "did \<noteq> []" by auto
    define target where "target = (case tget fwr_id (fda_release_id a) (h_releases h) of None \<Rightarrow> [] | Some r \<Rightarrow> py_strip (fwr_version r))"
    define reached where "reached \<longleftrightarrow> version \<noteq> [] \<and> target \<noteq> [] \<and> version = target"
    have r: "reached \<longleftrightarrow> (\<exists>w r. v = VStr w \<and> py_strip w \<noteq> [] \<and> tget fwr_id (fda_release_id a) (h_releases h) = Some r \<and> py_strip (fwr_version r) = py_strip w)"
    proof
      assume "reached"
      then have t: "version \<noteq> []" "target = version" "target \<noteq> []" by (simp_all add: reached_def)
      obtain w where w: "v = VStr w" "py_strip w = version" using strip_or_raise_text [OF v t(1)] by blast
      obtain r where r: "tget fwr_id (fda_release_id a) (h_releases h) = Some r" "py_strip (fwr_version r) = target"
        using t(3) unfolding target_def by (cases "tget fwr_id (fda_release_id a) (h_releases h)") auto
      show "\<exists>w r. v = VStr w \<and> py_strip w \<noteq> [] \<and> tget fwr_id (fda_release_id a) (h_releases h) = Some r \<and> py_strip (fwr_version r) = py_strip w"
        by (rule exI [of _ w], rule exI [of _ r]) (simp add: w r t)
    next
      assume "\<exists>w r. v = VStr w \<and> py_strip w \<noteq> [] \<and> tget fwr_id (fda_release_id a) (h_releases h) = Some r \<and> py_strip (fwr_version r) = py_strip w"
      then obtain w r where w: "v = VStr w" "py_strip w \<noteq> []" "tget fwr_id (fda_release_id a) (h_releases h) = Some r" "py_strip (fwr_version r) = py_strip w"
        by (elim exE conjE)
      have "w \<noteq> []" using w(2) by (auto simp: py_strip_def)
      then have "version = py_strip w" using v w(1) by (simp add: strip_or_raise_def)
      then show "reached" using w(2,3,4) by (simp add: reached_def target_def)
    qed
    note e = assms [unfolded reconcile_assignment_reported_version_def v a Let_def option.case if_not_P [OF d], folded target_def, folded reached_def]
    show thesis
      using e by (auto split: sum.splits if_splits intro: that(1) that(2) [OF a _ r])
  qed
qed

lemma reconcile_ok: "assignments_ok gen h \<Longrightarrow> reconcile_assignment_reported_version D did v m now h = Inr h' \<Longrightarrow> assignments_ok gen h'"
proof (erule reconcile_cases)
  fix a x y reached
  assume ok: "assignments_ok gen h" and a: "newest_assignment active_assignment did h = Some a"
    and h': "h' = modify_assignment (fda_id a) (\<lambda>a. a\<lparr>fda_last_reported_version := x, fda_error_message := y,
            fda_state := (if reached then ''completed'' else fda_state a), fda_updated_at := now\<rparr>) h"
  note b = newest_assignment_Some [OF a]
  show ?thesis unfolding h'
    by (rule assignments_ok_modify [OF ok]) (use b in \<open>auto simp: ASSIGNMENT_STATES_def active_assignment_def\<close>)
qed simp

lemma deliver_ok: "assignments_ok gen h \<Longrightarrow> assignments_ok gen (mark_assignment_delivered now did h)"
proof (cases "newest_assignment (\<lambda>a. fda_state a = ''pending'') did h")
  case (Some a)
  assume ok: "assignments_ok gen h"
  note b = newest_assignment_Some [OF Some]
  show ?thesis unfolding mark_assignment_delivered_def Some option.case
    by (rule assignments_ok_modify [OF ok]) (use b in \<open>auto simp: ASSIGNMENT_STATES_def active_assignment_def\<close>)
qed (simp add: mark_assignment_delivered_def)

lemma deploy_step_ok:
  assumes "deploy_step gen h h'" and "inj gen" and "assignments_ok gen h"
  shows "assignments_ok gen h'"
  using assms(1)
proof cases
  case (create E rel ty tid ch force user out)
  show ?thesis using create(1)
  proof (rule create_deployment_cases)
    fix r ids d
    assume ids: "target_devices ty tid h = Some ids" and h': "h' = h\<lparr>h_deployments := tadd d (h_deployments h),
            h_assignments := map (supersede (env_now E) ids) (h_assignments h) @ map (new_assignment E (fwd_id d) (fwr_id r)) (enumerate (Suc (h_ulid h)) ids),
            h_ulid := Suc (h_ulid h) + length ids\<rparr>"
    show ?thesis
      by (rule created_ok [OF assms(3) target_devices_distinct [OF create(3) ids] assms(2) create(2),
          where now = "env_now E" and dep = "fwd_id d" and rel = "fwr_id r"]) (simp_all add: h')
  qed
next
  case (poll now did)
  then show ?thesis using deliver_ok assms(3) by (simp add: firmware_assignment_def split: option.splits)
next
  case (report D did v m now)
  then show ?thesis using reconcile_ok assms(3) by blast
next
  case (delete rid fs b fs')
  have "\<exists>P. h_assignments h' = filter P (h_assignments h) \<and> h_ulid h' = h_ulid h"
    using delete by (auto simp: delete_release_def drop_release_def Let_def split: option.splits intro: exI [of _ "\<lambda>_. True"])
  then show ?thesis using assignments_ok_filter [OF assms(3)] by fastforce
next
  case (other P)
  then show ?thesis using assignments_ok_filter assms(3) by blast
qed

text \<open>C27: However deployments, polls, reports and deletions interleave, a device never has two active assignments: the one it
  is offered is the only pending or delivered one, and the states stay within the known ones.\<close>

theorem one_active_assignment:
  assumes "(deploy_step gen)\<^sup>*\<^sup>* h h'" and "inj gen" and "assignments_ok gen h"
  shows "assignments_ok gen h' \<and> length (filter (\<lambda>a. fda_device_id a = did \<and> active_assignment a) (h_assignments h')) \<le> 1
    \<and> (newest_assignment active_assignment did h' = None
       \<or> filter (\<lambda>a. fda_device_id a = did \<and> active_assignment a) (h_assignments h') = [the (newest_assignment active_assignment did h')])"
proof -
  have ok: "assignments_ok gen h'"
    using assms(1) by (induction rule: rtranclp_induct) (auto intro: deploy_step_ok assms)
  define xs where "xs = filter (\<lambda>a. fda_device_id a = did \<and> active_assignment a) (h_assignments h')"
  have "distinct (map fda_device_id xs)"
  proof -
    have "xs = filter (\<lambda>a. fda_device_id a = did) (filter active_assignment (h_assignments h'))" by (simp add: xs_def conj_commute)
    then show ?thesis using ok by (simp add: assignments_ok_def distinct_map_filter del: filter_filter)
  qed
  moreover have "\<forall>a\<in>set xs. fda_device_id a = did" by (simp add: xs_def)
  ultimately have one: "xs = [] \<or> (\<exists>a. xs = [a])"
    by (cases xs; cases "tl xs") auto
  have "newest_assignment active_assignment did h' = (case xs of [] \<Rightarrow> None | a # _ \<Rightarrow> Some a)"
    using one by (auto simp: newest_assignment_def simp flip: xs_def)
  then show ?thesis unfolding xs_def [symmetric] using ok one by auto
qed

section \<open>An update runs to completion\<close>

lemma the_active:
  assumes ok: "assignments_ok gen h" and a: "a \<in> set (h_assignments h)" "active_assignment a"
    and b: "b \<in> set (h_assignments h)" "active_assignment b" "fda_device_id b = fda_device_id a"
  shows "b = a"
proof -
  have "inj_on fda_device_id (set (filter active_assignment (h_assignments h)))"
    using ok by (simp add: assignments_ok_def distinct_map)
  then show ?thesis using a b by (simp add: inj_on_def)
qed

lemma newest_is:
  assumes ok: "assignments_ok gen h" and a: "a \<in> set (h_assignments h)" "P a" and P: "\<And>x. P x \<Longrightarrow> active_assignment x"
  shows "newest_assignment P (fda_device_id a) h = Some a"
proof (cases "newest_assignment P (fda_device_id a) h")
  case None
  then show ?thesis using a by (auto simp: newest_assignment_None)
next
  case (Some b)
  note b = newest_assignment_Some [OF Some]
  have "b = a" by (rule the_active [OF ok a(1) P [OF a(2)]]) (use b P in auto)
  then show ?thesis using Some by simp
qed

lemma modified_member: "a \<in> set (h_assignments h) \<Longrightarrow> f a \<in> set (h_assignments (modify_assignment (fda_id a) f h))"
  by (force simp: modify_assignment_def tupd_def)

lemma delivered_is:
  assumes ok: "assignments_ok gen h" and a: "a \<in> set (h_assignments h)" "fda_state a = ''pending''"
  shows "mark_assignment_delivered now (fda_device_id a) h = modify_assignment (fda_id a) (\<lambda>a. a\<lparr>fda_state := ''delivered'', fda_updated_at := now\<rparr>) h"
  unfolding mark_assignment_delivered_def
  using newest_is [OF ok a(1), of "\<lambda>a. fda_state a = ''pending''"] a(2) by (simp add: active_assignment_def)

lemma completed_none_left:
  assumes ok: "assignments_ok gen h" and a: "a \<in> set (h_assignments h)" "active_assignment a"
    and f: "\<And>x. fda_device_id (f x) = fda_device_id x \<and> fda_id (f x) = fda_id x \<and> fda_state (f x) = ''completed''"
  shows "newest_assignment active_assignment (fda_device_id a) (modify_assignment (fda_id a) f h) = None"
  unfolding newest_assignment_None
proof
  fix b
  assume b: "b \<in> set (h_assignments (modify_assignment (fda_id a) f h))"
  then obtain x where x: "x \<in> set (h_assignments h)" "b = (if fda_id x = fda_id a then f x else x)"
    by (auto simp: modify_assignment_def tupd_def)
  show "\<not> (fda_device_id b = fda_device_id a \<and> active_assignment b)"
  proof (cases "fda_id x = fda_id a")
    case True
    then show ?thesis using x f by (simp add: active_assignment_def)
  next
    case False
    then have "x \<noteq> a" by auto
    then show ?thesis using False the_active [OF ok a x(1)] x(2) by auto
  qed
qed

lemma reconcile_reached:
  assumes ok: "assignments_ok gen h" and a: "a \<in> set (h_assignments h)" "active_assignment a" "fda_device_id a \<noteq> []"
    and r: "tget fwr_id (fda_release_id a) (h_releases h) = Some r" "py_strip (fwr_version r) = py_strip w" "py_strip w \<noteq> []"
    and D: "\<not> isl (store_text D ''deployment_assignments.last_reported_version'' (VStr (py_strip w)))"
  shows "\<exists>h' a'. reconcile_assignment_reported_version D (fda_device_id a) (VStr w) m now h = Inr h' \<and> newest_assignment active_assignment (fda_device_id a) h' = None
    \<and> a' \<in> set (h_assignments h') \<and> fda_id a' = fda_id a \<and> fda_state a' = ''completed''"
proof -
  have w: "strip_or_raise (VStr w) = Some (py_strip w)" using r(3) by (auto simp: strip_or_raise_def py_strip_def)
  have n: "newest_assignment active_assignment (fda_device_id a) h = Some a" by (rule newest_is [where P = active_assignment, OF ok a(1,2)])
  let ?new = "VStr (py_strip w) \<noteq> of_opt_str (fda_last_reported_version a)"
  obtain v where v: "(if ?new then store_text D ''deployment_assignments.last_reported_version'' (VStr (py_strip w)) else Inr (fda_last_reported_version a)) = Inr v"
  proof -
    obtain u where u: "store_text D ''deployment_assignments.last_reported_version'' (VStr (py_strip w)) = Inr u"
      using D by (cases "store_text D ''deployment_assignments.last_reported_version'' (VStr (py_strip w))") auto
    show thesis by (rule that [of "if ?new then u else fda_last_reported_version a"]) (simp add: u)
  qed
  have "reconcile_assignment_reported_version D (fda_device_id a) (VStr w) m now h
      = Inr (modify_assignment (fda_id a) (\<lambda>a. a\<lparr>fda_last_reported_version := v, fda_error_message := None, fda_state := ''completed'', fda_updated_at := now\<rparr>) h)"
    unfolding reconcile_assignment_reported_version_def w n Let_def option.case if_not_P [OF a(3)] if_not_P [OF r(3)] v sum.case
    by (simp add: r)
  moreover define f :: "deployment_assignment \<Rightarrow> deployment_assignment" where "f = (\<lambda>a. a\<lparr>fda_last_reported_version := v, fda_error_message := None, fda_state := ''completed'', fda_updated_at := now\<rparr>)"
  ultimately have "reconcile_assignment_reported_version D (fda_device_id a) (VStr w) m now h = Inr (modify_assignment (fda_id a) f h)" by simp
  moreover have "newest_assignment active_assignment (fda_device_id a) (modify_assignment (fda_id a) f h) = None"
    by (rule completed_none_left [OF ok a(1,2)]) (simp add: f_def)
  moreover have "f a \<in> set (h_assignments (modify_assignment (fda_id a) f h))" by (rule modified_member [OF a(1)])
  moreover have "fda_id (f a) = fda_id a" "fda_state (f a) = ''completed''" by (simp_all add: f_def)
  ultimately show ?thesis by blast
qed

text \<open>The state of the assignment with an id.\<close>

definition assignment_state :: "string \<Rightarrow> hub \<Rightarrow> string option" where
  "assignment_state i h = map_option fda_state (tget fda_id i (h_assignments h))"

lemma assignment_stateI:
  assumes "assignments_ok gen h" and "a \<in> set (h_assignments h)" and "fda_id a = i" and "fda_state a = st"
  shows "assignment_state i h = Some st"
  using assms pk_ok_get [of fda_id "h_assignments h" i a] by (simp add: assignment_state_def assignments_ok_def pk_ok_def)

text \<open>C28: A deployment runs to completion: with fresh ids and a version that fits its column, creating it leaves the device one assignment of it, pending; the device's
  poll is offered that release and makes the assignment delivered, not yet completed; and when the device then
  reports the version (blanks aside, with any health text), the report completes that assignment, and nothing
  is offered to the device any more.\<close>

theorem deployment_completes:
  assumes created: "create_deployment E rel ty tid ch force user h = Inr (out, h1)" and ids: "target_devices ty tid h = Some ids" "did \<in> set ids" "did \<noteq> []"
    and r: "tget fwr_id rel (h_releases h) = Some r" "py_strip (fwr_version r) = py_strip w" "py_strip w \<noteq> []"
    and db: "assignments_ok (env_ulid E) h" "keys_ok h" "inj (env_ulid E)" "distinct (map fwd_id (h_deployments h1))"
    and D: "\<not> isl (store_text D ''deployment_assignments.last_reported_version'' (VStr (py_strip w)))"
  shows "\<exists>i x h2 h3. tget fda_id i (h_assignments h) = None \<and> assignment_state i h1 = Some ''pending''
    \<and> firmware_assignment t1 did h1 = (Some x, h2) \<and> of_target_version x = fwr_version r \<and> of_sha256 x = fwr_sha256 r \<and> of_force x = force
    \<and> assignment_state i h2 = Some ''delivered''
    \<and> reconcile_assignment_reported_version D did (VStr w) m t2 h2 = Inr h3 \<and> assignment_state i h3 = Some ''completed''
    \<and> firmware_assignment t3 did h3 = (None, h3)"
  using created
proof (rule create_deployment_cases)
  fix r' ids' d
  assume c: "tget fwr_id rel (h_releases h) = Some r'" "target_devices ty tid h = Some ids'" "fwd_force d = force"
    and h1: "h1 = h\<lparr>h_deployments := tadd d (h_deployments h),
            h_assignments := map (supersede (env_now E) ids') (h_assignments h) @ map (new_assignment E (fwd_id d) (fwr_id r')) (enumerate (Suc (h_ulid h)) ids'),
            h_ulid := Suc (h_ulid h) + length ids'\<rparr>"
  have same: "r' = r" "ids' = ids" using c(1,2) r(1) ids(1) by simp_all
  have ok1: "assignments_ok (env_ulid E) h1"
    by (rule created_ok [OF db(1) target_devices_distinct [OF db(2) ids(1)] db(3) refl,
        where now = "env_now E" and dep = "fwd_id d" and rel = "fwr_id r"]) (simp_all add: h1 same)
  obtain k where k: "(k, did) \<in> set (enumerate (Suc (h_ulid h)) ids)"
  proof -
    have "did \<in> set (map snd (enumerate (Suc (h_ulid h)) ids))" using ids(2) by (simp only: map_snd_enumerate)
    then obtain p where p: "p \<in> set (enumerate (Suc (h_ulid h)) ids)" "did = snd p" unfolding set_map by (rule imageE)
    show thesis by (rule that [of "fst p"]) (simp add: p)
  qed
  define a where "a = new_assignment E (fwd_id d) (fwr_id r) (k, did)"
  have a: "a \<in> set (h_assignments h1)" "fda_state a = ''pending''" "active_assignment a" "fda_device_id a = did"
      "fda_release_id a = fwr_id r" "fda_deployment_id a = fwd_id d"
    using k by (auto simp: h1 same a_def) (simp_all add: new_assignment_def)
  have rel1: "tget fwr_id (fwr_id r) (h_releases h1) = Some r" using r(1) tget_SomeD [OF r(1)] by (simp add: h1)
  have dep1: "tget fwd_id (fwd_id d) (h_deployments h1) = Some d"
    using db(4) pk_ok_get [of fwd_id "h_deployments h1" "fwd_id d" d] by (simp add: pk_ok_def h1)
  have n1: "newest_assignment active_assignment did h1 = Some a"
    using newest_is [where P = active_assignment, OF ok1 a(1,3)] a(4) by simp
  define f :: "deployment_assignment \<Rightarrow> deployment_assignment" where "f = (\<lambda>a. a\<lparr>fda_state := ''delivered'', fda_updated_at := t1\<rparr>)"
  define h2 where "h2 = modify_assignment (fda_id a) f h1"
  have poll: "\<exists>x. firmware_assignment t1 did h1 = (Some x, h2) \<and> of_target_version x = fwr_version r \<and> of_sha256 x = fwr_sha256 r \<and> of_force x = force"
    unfolding firmware_assignment_def assignment_for_device_def n1 option.case a(5,6) rel1 dep1 prod.case h2_def f_def
    using delivered_is [OF ok1 a(1,2), of t1] a(4) c(3) by simp
  have ok2: "assignments_ok (env_ulid E) h2"
    unfolding h2_def by (rule assignments_ok_modify [OF ok1 a(1,3)]) (simp_all add: f_def ASSIGNMENT_STATES_def)
  have a2: "f a \<in> set (h_assignments h2)" unfolding h2_def by (rule modified_member [OF a(1)])
  have fa: "active_assignment (f a)" "fda_device_id (f a) = did" "fda_release_id (f a) = fwr_id r"
    using a by (simp_all add: f_def active_assignment_def)
  have rel2: "tget fwr_id (fda_release_id (f a)) (h_releases h2) = Some r" using rel1 fa(3) by (simp add: h2_def modify_assignment_def)
  let ?new = "map (new_assignment E (fwd_id d) (fwr_id r)) (enumerate (Suc (h_ulid h)) ids)"
  have "distinct (map fda_id (h_assignments h) @ map fda_id ?new)"
    using ok1 by (simp add: assignments_ok_def h1 same o_def del: distinct_append)
  moreover have "fda_id a \<in> set (map fda_id ?new)" using k by (force simp: a_def)
  ultimately have new: "tget fda_id (fda_id a) (h_assignments h) = None" by (auto simp: tget_None_iff)
  have pending: "assignment_state (fda_id a) h1 = Some ''pending''" by (rule assignment_stateI [OF ok1 a(1) refl a(2)])
  have delivered: "assignment_state (fda_id a) h2 = Some ''delivered''" by (rule assignment_stateI [OF ok2 a2]) (simp_all add: f_def)
  obtain h3 a3 where h3: "reconcile_assignment_reported_version D did (VStr w) m t2 h2 = Inr h3" "newest_assignment active_assignment did h3 = None"
      and a3: "a3 \<in> set (h_assignments h3)" "fda_id a3 = fda_id (f a)" "fda_state a3 = ''completed''"
    using reconcile_reached [OF ok2 a2 fa(1) _ rel2 r(2,3) D, of m t2, unfolded fa(2), OF ids(3)] by blast
  have ok3: "assignments_ok (env_ulid E) h3" by (rule reconcile_ok [OF ok2 h3(1)])
  have completed: "assignment_state (fda_id a) h3 = Some ''completed''" by (rule assignment_stateI [OF ok3 a3(1) _ a3(3)]) (simp add: a3(2) f_def)
  have "firmware_assignment t3 did h3 = (None, h3)"
    by (simp add: firmware_assignment_def assignment_for_device_def h3(2))
  then show ?thesis using poll h3(1) new pending delivered completed by blast
qed

section \<open>A concrete fleet\<close>

definition fleet_release :: firmware_release where
  "fleet_release = \<lparr>fwr_id = ''r1'', fwr_version = ''0.2.0'', fwr_channel = ''dev'', fwr_filename = ''rebooter-0.2.0-dev.bin'',
     fwr_download_url = ''http://hub/f.bin'', fwr_sha256 = ''abc'', fwr_size_bytes = Some 3, fwr_release_notes = None,
     fwr_created_by_user_id = None, fwr_created_at = 0\<rparr>"

definition site_device :: "string \<Rightarrow> device" where
  "site_device i = (new_device i i 0)\<lparr>dev_site_id := Some ''s1'', dev_registration_state := ''active''\<rparr>"

definition deploy_hub :: hub where
  "deploy_hub = empty_hub\<lparr>h_releases := [fleet_release], h_devices := map site_device [''d1'', ''d2'', ''d3'', ''d4'', ''d5'', ''d6'', ''d7'']\<rparr>"

definition deploy_env :: env where
  "deploy_env = \<lparr>env_ulid = (\<lambda>n. replicate n CHR ''x''), env_now = 7, env_fromiso = (\<lambda>_. None), env_isoformat = (\<lambda>_. []), env_repr = (\<lambda>_. [])\<rparr>"

lemma deploy_hub_ok: "assignments_ok gen deploy_hub" "keys_ok deploy_hub" "inj (env_ulid deploy_env)"
  by (auto simp: assignments_ok_def keys_ok_def deploy_hub_def empty_hub_def site_device_def new_device_def deploy_env_def inj_on_def)

definition after_deploy :: hub where
  "after_deploy = (case create_deployment deploy_env ''r1'' ''device'' (Some ''d1'') None False None deploy_hub of Inr (_, h) \<Rightarrow> h | Inl _ \<Rightarrow> deploy_hub)"

lemma created_some: "\<exists>out h1. create_deployment deploy_env ''r1'' ''device'' (Some ''d1'') None False None deploy_hub = Inr (out, h1)"
proof -
  have "tget fwr_id ''r1'' (h_releases deploy_hub) = Some fleet_release" "target_devices ''device'' (Some ''d1'') deploy_hub = Some [''d1'']"
    by code_simp+
  then show ?thesis by (simp add: create_deployment_def ALLOWED_TARGET_TYPES_def Let_def)
qed

theorem one_active_assignment_witness:
  "\<exists>h1 h2. (deploy_step (env_ulid deploy_env))\<^sup>*\<^sup>* deploy_hub h2 \<and> deploy_step (env_ulid deploy_env) deploy_hub h1
     \<and> length (filter (\<lambda>a. fda_device_id a = ''d1'' \<and> active_assignment a) (h_assignments h2)) \<le> 1"
proof -
  obtain out h1 where c: "create_deployment deploy_env ''r1'' ''device'' (Some ''d1'') None False None deploy_hub = Inr (out, h1)"
    using created_some by blast
  have s: "deploy_step (env_ulid deploy_env) deploy_hub h1" by (rule deploy_step.create [OF c refl deploy_hub_ok(2)])
  have star: "(deploy_step (env_ulid deploy_env))\<^sup>*\<^sup>* deploy_hub (snd (firmware_assignment 8 ''d1'' h1))"
    by (rule rtranclp.rtrancl_into_rtrancl [OF r_into_rtranclp [where r = "deploy_step (env_ulid deploy_env)", OF s] deploy_step.poll])
  show ?thesis
    using one_active_assignment [OF star deploy_hub_ok(3,1), of "''d1''"] s star by blast
qed

theorem deployment_completes_witness:
  "\<exists>i h1 x h2 h3. assignment_state i h1 = Some ''pending'' \<and> firmware_assignment 8 ''d1'' h1 = (Some x, h2)
     \<and> of_target_version x = ''0.2.0'' \<and> assignment_state i h2 = Some ''delivered''
     \<and> reconcile_assignment_reported_version (\<lambda>_. Some) ''d1'' (VStr ''0.2.0 '') (VStr ''ok'') 9 h2 = Inr h3
     \<and> assignment_state i h3 = Some ''completed'' \<and> firmware_assignment 10 ''d1'' h3 = (None, h3)"
proof -
  obtain out h1 where c: "create_deployment deploy_env ''r1'' ''device'' (Some ''d1'') None False None deploy_hub = Inr (out, h1)"
    using created_some by blast
  have t: "target_devices ''device'' (Some ''d1'') deploy_hub = Some [''d1'']" "''d1'' \<in> set [''d1'']" "''d1'' \<noteq> []"
    by code_simp simp_all
  have r: "tget fwr_id ''r1'' (h_releases deploy_hub) = Some fleet_release" "py_strip (fwr_version fleet_release) = py_strip ''0.2.0 ''" "py_strip ''0.2.0 '' \<noteq> []"
    by code_simp+
  have d: "distinct (map fwd_id (h_deployments h1))"
    using c by (rule create_deployment_cases) (simp add: deploy_hub_def empty_hub_def tadd_def)
  have D: "\<not> isl (store_text (\<lambda>_. Some) ''deployment_assignments.last_reported_version'' (VStr (py_strip ''0.2.0 '')))"
    by (simp add: store_text_def)
  have "fwr_version fleet_release = ''0.2.0''" by (simp add: fleet_release_def)
  with deployment_completes [OF c t r deploy_hub_ok(1,2,3) d D, of 8 "VStr ''ok''" 9 10] show ?thesis by metis
qed

section \<open>The confirmation of a deployment\<close>

text \<open>The route creates a deployment for a group only with the confirmation the group's size demands; a refused request and a
  failed creation leave the hub as it was.\<close>

theorem group_deployment_confirmed:
  "(case create_firmware_deployment E q u s of (reply, s') \<Rightarrow> case reply of Deployed out n \<Rightarrow>
        (if py_strip (dq_target_type q) = ''group'' then n = length (group_device_ids (the (dq_target_id q)) (snd s)) else True)
        \<and> validate_confirmation n ''deploy_firmware'' (dq_confirmation_level q) (dq_confirmation_typed_value q) = None
        \<and> (\<exists>h1. create_deployment E (py_strip (dq_release_id q)) (py_strip (dq_target_type q)) (dq_target_id q) (dq_channel q) (dq_force q) (Some (usr_id u)) (snd s) = Inr (out, h1))
      | _ \<Rightarrow> s' = s)"
proof -
  obtain reply s' where run: "create_firmware_deployment E q u s = (reply, s')" by (metis surj_pair)
  let ?q = "q\<lparr>dq_release_id := py_strip (dq_release_id q), dq_target_type := py_strip (dq_target_type q)\<rparr>"
  let ?n = "deploy_target_count ?q (snd s)"
  let ?c = "create_deployment E (py_strip (dq_release_id q)) (py_strip (dq_target_type q)) (dq_target_id q) (dq_channel q) (dq_force q) (Some (usr_id u)) (snd s)"
  show ?thesis
  proof (cases ?c)
    case (Inl e)
    have "reply = DeployInvalid \<and> s' = s \<or> (\<exists>e. reply = DeployUnconfirmed e) \<and> s' = s \<or> (\<exists>e. reply = DeployFailed e) \<and> s' = s"
      using run by (auto simp: create_firmware_deployment_def Let_def Inl split: if_splits option.splits)
    then show ?thesis by (elim disjE conjE exE) (simp_all add: run)
  next
    case (Inr p)
    obtain out h1 where c: "?c = Inr (out, h1)" using Inr by (cases p) auto
    have group: "?n = length (group_device_ids (the (dq_target_id q)) (snd s))" if "py_strip (dq_target_type q) = ''group''"
      using c that by (auto simp: deploy_target_count_def count_group_members_def create_deployment_def split: if_splits option.splits)
    have r: "reply = DeployInvalid \<and> s' = s \<or> (\<exists>e. reply = DeployUnconfirmed e) \<and> s' = s
        \<or> reply = Deployed out ?n \<and> validate_confirmation ?n ''deploy_firmware'' (dq_confirmation_level q) (dq_confirmation_typed_value q) = None"
      using run by (auto simp: create_firmware_deployment_def Let_def c split: if_splits option.splits)
    then show ?thesis using group c by (elim disjE conjE exE) (simp_all add: run)
  qed
qed

text \<open>A deployment to a site counts as one device: it goes out to all of them without any confirmation.\<close>

lemma site_deployment_unconfirmed:
  assumes "py_strip (dq_target_type q) = ''site''" "dq_target_id q = Some i" "i \<noteq> []" "py_strip (dq_release_id q) \<noteq> []"
    and "tget fwr_id (py_strip (dq_release_id q)) (h_releases (snd s)) = Some r" "load_user (usr_id u) (snd s) \<noteq> None"
  shows "\<exists>out s'. create_firmware_deployment E q u s = (Deployed out 1, s')
    \<and> dget out ''counts'' = VDict [(''target_devices'', VInt (int (length (filter (\<lambda>d. dev_site_id d = Some i) (h_devices (snd s))))))]"
proof -
  have v: "validate_confirmation 1 e l t = None" for e l t by (simp add: validate_confirmation_def required_level_def SIMPLE_THRESHOLD_def TYPED_THRESHOLD_def)
  have n: "deploy_target_count (q\<lparr>dq_release_id := py_strip (dq_release_id q), dq_target_type := py_strip (dq_target_type q)\<rparr>) (snd s) = 1"
    using assms(1) by (simp add: deploy_target_count_def)
  show ?thesis
    unfolding create_firmware_deployment_def Let_def n using assms v
    by (auto simp: create_deployment_def target_devices_def ALLOWED_TARGET_TYPES_def Let_def serialize_deployment_def dget_def)
qed

end
