(* ===== verification/Devices.thy ===== *)
theory Devices
  imports Deployments Conflicts
begin

text \<open>
  The device registry (\<open>app/services/devices/\<close>): how a device is shown and which state it is given
  (\<open>_serialize.py\<close>), lookups (\<open>_query.py\<close>), and the operations that change devices (\<open>_mutations.py\<close>), with the validation of the
  power topology. The table of devices belongs to no organization.
\<close>

section \<open>Presentation\<close>

definition of_opt_bool :: "bool option \<Rightarrow> pyval" where
  "of_opt_bool v = (case v of None \<Rightarrow> VNone | Some b \<Rightarrow> VBool b)"

definition iso_or_none :: "instant option \<Rightarrow> pyval" where
  "iso_or_none t = of_opt_str (map_option iso_z t)"

definition serialize_device :: "bool \<Rightarrow> device \<Rightarrow> pydict" where
  "serialize_device with_secret d =
     [(''id'', VStr (dev_id d)), (''display_name'', VStr (dev_display_name d)), (''hardware_model'', of_opt_str (dev_hardware_model d)),
      (''hardware_revision'', of_opt_str (dev_hardware_revision d)), (''firmware_version'', of_opt_str (dev_firmware_version d)),
      (''mac_address'', of_opt_str (dev_mac_address d)), (''serial_number'', of_opt_str (dev_serial_number d)), (''local_ip'', of_opt_str (dev_local_ip d)),
      (''site_id'', of_opt_str (dev_site_id d)), (''registration_state'', VStr (dev_registration_state d)),
      (''central_management_enabled'', VBool (dev_central_management_enabled d)), (''capabilities'', if truthy (dev_capabilities d) then dev_capabilities d else VDict []),
      (''notes'', of_opt_str (dev_notes d)), (''last_heartbeat_at'', iso_or_none (dev_last_heartbeat_at d)), (''last_seen_at'', iso_or_none (dev_last_seen_at d)),
      (''is_qa_fixture'', VBool (dev_is_qa_fixture d)), (''is_protected'', VBool (dev_is_protected d)), (''is_held_off'', VBool (dev_is_held_off d)),
      (''created_at'', VStr (iso_z (dev_created_at d))), (''updated_at'', VStr (iso_z (dev_updated_at d))),
      (''reported_recovery_mode'', of_opt_bool (dev_reported_recovery_mode d)), (''reported_auto_recovery_triggered'', of_opt_bool (dev_reported_auto_recovery_triggered d)),
      (''reported_last_known_good_restored'', of_opt_bool (dev_reported_last_known_good_restored d)),
      (''reported_consecutive_unhealthy_boots'', of_opt_int (dev_reported_consecutive_unhealthy_boots d)),
      (''reported_in_captive_portal'', of_opt_bool (dev_reported_in_captive_portal d)), (''reported_central_enabled'', of_opt_bool (dev_reported_central_enabled d)),
      (''reported_central_registered'', of_opt_bool (dev_reported_central_registered d)), (''reported_central_state'', of_opt_str (dev_reported_central_state d))]
     @ (if with_secret then [(''device_secret_status'', VStr ''issued'')] else [])"

definition effective_last_contact :: "instant option \<Rightarrow> instant option \<Rightarrow> instant option" where
  "effective_last_contact hb heard =
     (case (hb, heard) of
        (None, None) \<Rightarrow> None
      | (Some a, None) \<Rightarrow> Some a
      | (None, Some b) \<Rightarrow> Some b
      | (Some a, Some b) \<Rightarrow> Some (max a b))"

datatype contact = Never | Online | Offline

definition heartbeat_state_for :: "instant option \<Rightarrow> instant \<Rightarrow> int \<Rightarrow> instant option \<Rightarrow> contact" where
  "heartbeat_state_for hb now threshold heard =
     (case effective_last_contact hb heard of
        None \<Rightarrow> Never
      | Some t \<Rightarrow> (if now - t < secs threshold then Online else Offline))"

record active_assignment_view =
  av_state :: string
  av_target_version :: "string option"

definition REBIND_CENTRAL_STATES :: "string list" where
  "REBIND_CENTRAL_STATES = [''registered_no_token'', ''awaiting_register_no_token'', ''reauth_required'']"

definition TRANSPORT_FAIL_CENTRAL_STATES :: "string list" where
  "TRANSPORT_FAIL_CENTRAL_STATES = [''announce_transport_failed'', ''register_transport_failed'', ''heartbeat_transport_failed'',
     ''poll_transport_failed'', ''firmware_check_transport_failed'']"

record central_status =
  cs_code :: string
  cs_label :: string
  cs_reason :: string
  cs_badge_class :: string

definition apostrophe :: string where "apostrophe = [CHR 0x27]"

definition boot_note :: "device \<Rightarrow> string \<Rightarrow> string \<Rightarrow> string" where
  "boot_note d before after =
     (case dev_reported_consecutive_unhealthy_boots d of
        Some n \<Rightarrow> (if 1 < n then before @ int_text n @ '' consecutive unhealthy boots'' @ after else [])
      | None \<Rightarrow> [])"

definition none_if_blank :: "string option \<Rightarrow> string option" where
  "none_if_blank v = (let s = py_strip (case v of None \<Rightarrow> [] | Some x \<Rightarrow> x) in if s = [] then None else Some s)"

definition derive_central_status :: "device \<Rightarrow> contact \<Rightarrow> string option \<Rightarrow> active_assignment_view option \<Rightarrow> central_status" where
  "derive_central_status d contact health assignment =
     (let mk = (\<lambda>code label reason badge. \<lparr>cs_code = code, cs_label = label, cs_reason = reason, cs_badge_class = badge\<rparr>);
          st = (case dev_reported_central_state d of None \<Rightarrow> [] | Some x \<Rightarrow> x);
          current = none_if_blank (dev_firmware_version d);
          shown = (case current of None \<Rightarrow> ''unknown'' | Some v \<Rightarrow> v);
          target = none_if_blank (case assignment of None \<Rightarrow> None | Some a \<Rightarrow> av_target_version a);
          goal = (case target of None \<Rightarrow> [] | Some v \<Rightarrow> v);
          active = (case assignment of None \<Rightarrow> False | Some a \<Rightarrow> av_state a \<in> {''pending'', ''delivered''})
      in if \<not> dev_central_management_enabled d then mk ''local_only'' ''local-only'' ''Device opts out of central management.'' []
      else if dev_reported_central_enabled d = Some False then
        mk ''central_disabled'' ''central disabled on device''
          (''The device'' @ apostrophe @ ''s local config has central management turned off. It may be healthy and reachable on the LAN '' @ em_dash
            @ '' re-enable central on the device to resume hub coordination.'') ''amber''
      else if dev_reported_recovery_mode d = Some True then
        mk ''recovery_mode'' ''recovery mode''
          (''Device reported it booted into recovery mode'' @ boot_note d '' after '' [] @ ''. It is alive '' @ em_dash @ '' follow up on the recovery, not transport.'') ''amber''
      else if st \<in> set REBIND_CENTRAL_STATES then
        mk ''rebind_needed'' ''rebind needed''
          (''Device central state is '' @ quoted st @ '' '' @ em_dash @ '' its central identity needs repair or is mid-rebind.'') ''amber''
      else if target \<noteq> None \<and> current \<noteq> target then
        (if contact = Offline then
           mk ''transport_stale'' ''transport stale''
             (''Device is assigned '' @ goal @ '' but last reported '' @ shown @ '' and is no longer heartbeating.'') ''amber''
         else mk ''upgrade_pending'' ''upgrade pending'' (''Device is assigned '' @ goal @ '' but still reports '' @ shown @ ''.'') ''amber'')
      else if contact = Never then
        mk ''awaiting_first_heartbeat'' ''awaiting first heartbeat'' ''Device is enrolled for central management but has not heartbeated yet.'' []
      else if contact = Offline then
        (if st \<in> set TRANSPORT_FAIL_CENTRAL_STATES then
           mk ''transport_stale'' ''transport stale''
             (''Device last reported central state '' @ quoted st @ '' and is no longer heartbeating '' @ em_dash @ '' the central transport is failing.'') ''amber''
         else mk ''central_stale'' ''stale'' ''Central has not heard from this device within the heartbeat window.'' ''red'')
      else if (case health of None \<Rightarrow> False | Some x \<Rightarrow> x \<noteq> [] \<and> x \<noteq> ''healthy'' \<and> x \<noteq> ''ok'') then
        mk ''attention'' ''attention''
          (''Latest heartbeat reported health_state='' @ (case health of None \<Rightarrow> [] | Some x \<Rightarrow> x) @ boot_note d '' ('' '')'' @ ''.'') ''red''
      else if active \<and> target \<noteq> None then
        mk ''upgrade_pending'' ''upgrade pending'' (''Waiting for device to report target firmware '' @ goal @ ''.'') ''amber''
      else mk ''central_ok'' ''central'' ''Central management is enabled and the device is reporting normally.'' ''green'')"

section \<open>Lookups\<close>

text \<open>SQL's \<open>trim\<close> removes blanks only.\<close>

definition sql_trim :: "string \<Rightarrow> string" where
  "sql_trim s = rev (dropWhile (\<lambda>c. c = CHR 32) (rev (dropWhile (\<lambda>c. c = CHR 32) s)))"

definition find_by_mac :: "string option \<Rightarrow> hub \<Rightarrow> pydict list" where
  "find_by_mac m h =
     (let mac = py_upper (py_strip (case m of None \<Rightarrow> [] | Some x \<Rightarrow> x)) in
      if mac = [] then []
      else map (serialize_device False)
        (filter (\<lambda>d. (case dev_mac_address d of None \<Rightarrow> False | Some x \<Rightarrow> py_upper (sql_trim x) = mac) \<and> dev_registration_state d \<noteq> ''decommissioned'')
          (h_devices h)))"

definition text_less :: "string \<Rightarrow> string \<Rightarrow> bool" where
  "text_less s t \<longleftrightarrow> tuple_less (map (\<lambda>c. int (of_char c)) s) (map (\<lambda>c. int (of_char c)) t)"

definition key_less :: "int list \<times> string \<Rightarrow> int list \<times> string \<Rightarrow> bool" where
  "key_less a b \<longleftrightarrow> tuple_less (fst a) (fst b) \<or> fst a = fst b \<and> text_less (snd a) (snd b)"

text \<open>Python's \<open>max\<close> returns the first greatest element.\<close>

fun max_by :: "('a \<Rightarrow> 'a \<Rightarrow> bool) \<Rightarrow> 'a \<Rightarrow> 'a list \<Rightarrow> 'a" where
  "max_by lt best [] = best"
| "max_by lt best (x # xs) = max_by lt (if lt best x then x else best) xs"

definition stable_window :: "hub \<Rightarrow> firmware_release list" where
  "stable_window h = take 200 (sort_key (\<lambda>r. - fwr_created_at r) (filter (\<lambda>r. fwr_channel r = ''stable'') (h_releases h)))"

definition latest_stable_release :: "hub \<Rightarrow> firmware_release option" where
  "latest_stable_release h =
     (case stable_window h of
        [] \<Rightarrow> None
      | r # rs \<Rightarrow> Some (max_by (\<lambda>a b. key_less (version_sort_key (Some (fwr_version a))) (version_sort_key (Some (fwr_version b)))) r rs))"

definition version_label :: "device \<Rightarrow> string" where
  "version_label d =
     (let v = py_strip (case dev_firmware_version d of None \<Rightarrow> ''(unknown)'' | Some x \<Rightarrow> if x = [] then ''(unknown)'' else x)
      in if v = [] then ''(unknown)'' else v)"

record version_bucket =
  vb_version :: string
  vb_count :: nat
  vb_devices :: "(string \<times> string) list"
  vb_is_majority :: bool

definition firmware_version_breakdown :: "bool \<Rightarrow> hub \<Rightarrow> version_bucket list" where
  "firmware_version_breakdown include_qa h =
     (let ds = filter (\<lambda>d. include_qa \<or> \<not> dev_is_qa_fixture d) (h_devices h);
          labels = first_keys (map (\<lambda>d. (version_label d, d)) ds);
          bucket = (\<lambda>v. map (\<lambda>d. (dev_id d, if dev_display_name d = [] then dev_id d else dev_display_name d)) (filter (\<lambda>d. version_label d = v) ds));
          sorted_labels = sort_key (\<lambda>v. - int (length (bucket v))) (sort labels);
          top = (case sorted_labels of [] \<Rightarrow> 0 | v # _ \<Rightarrow> length (bucket v))
      in map (\<lambda>v. \<lparr>vb_version = v, vb_count = length (bucket v), vb_devices = sort_key snd (bucket v),
                   vb_is_majority = (length (bucket v) = top \<and> 1 < length sorted_labels)\<rparr>) sorted_labels)"

section \<open>Changing a device\<close>

datatype device_error =
    SiteScopeError string
  | PowerTopologyError string
  | UnknownPatchFieldError "string list"
  | MergeRetireError string
  | DeviceColumnRefused

definition PATCHABLE :: "string list" where
  "PATCHABLE = [''display_name'', ''site_id'', ''notes'', ''central_management_enabled'', ''is_protected'', ''power_source_device_id'']"

text \<open>
  Walking from the proposed parent towards the roots: \<open>True\<close> when a device without a parent is reached within
  the given number of hops and \<open>i\<close> is not on the way. The loop of the source allows fifty.
\<close>

fun walk_ok :: "nat \<Rightarrow> string \<Rightarrow> device \<Rightarrow> hub \<Rightarrow> bool" where
  "walk_ok 0 i cur h = False"
| "walk_ok (Suc n) i cur h =
     (if dev_id cur = i then False
      else case dev_power_source_device_id cur of
        None \<Rightarrow> True
      | Some p \<Rightarrow> (case get_device p h of None \<Rightarrow> True | Some parent \<Rightarrow> walk_ok n i parent h))"

definition validate_power_source_device_id :: "pyval \<Rightarrow> device \<Rightarrow> hub \<Rightarrow> device_error + pyval" where
  "validate_power_source_device_id v d h =
     (case v of
        VNone \<Rightarrow> Inr VNone
      | VStr p \<Rightarrow>
          (if p = dev_id d then Inl (PowerTopologyError ''self_parent'')
           else case get_device p h of
             None \<Rightarrow> Inl (PowerTopologyError ''parent_missing'')
           | Some parent \<Rightarrow> (if walk_ok 50 (dev_id d) parent h then Inr v else Inl (PowerTopologyError ''cycle'')))
      | _ \<Rightarrow> Inl DeviceColumnRefused)"

definition validate_site_id :: "env \<Rightarrow> pyval \<Rightarrow> ctx \<times> hub \<Rightarrow> device_error + (pyval \<times> ctx \<times> hub)" where
  "validate_site_id E v s =
     (case v of
        VNone \<Rightarrow> Inr (VNone, s)
      | VStr i \<Rightarrow>
          (if i = [] then Inr (VNone, s)
           else let (rows, s1) = select_scoped E ''sites'' (Some \<circ> site_organization_id) h_sites s
                in case tget site_id i rows of None \<Rightarrow> Inl (SiteScopeError ''missing'') | Some _ \<Rightarrow> Inr (v, s1))
      | _ \<Rightarrow> Inl DeviceColumnRefused)"

definition validate_patch_field :: "env \<Rightarrow> device \<Rightarrow> string \<Rightarrow> pyval \<Rightarrow> ctx \<times> hub \<Rightarrow> device_error + (pyval \<times> ctx \<times> hub)" where
  "validate_patch_field E d k v s =
     (if k = ''site_id'' then validate_site_id E v s
      else if k = ''power_source_device_id'' then (case validate_power_source_device_id v d (snd s) of Inl e \<Rightarrow> Inl e | Inr w \<Rightarrow> Inr (w, s))
      else Inr (v, s))"

fun validate_patch :: "env \<Rightarrow> device \<Rightarrow> pydict \<Rightarrow> ctx \<times> hub \<Rightarrow> device_error + (pydict \<times> ctx \<times> hub)" where
  "validate_patch E d [] s = Inr ([], s)"
| "validate_patch E d ((k, v) # kvs) s =
     (case validate_patch_field E d k v s of
        Inl e \<Rightarrow> Inl e
      | Inr (w, s1) \<Rightarrow>
          (case validate_patch E d kvs s1 of
             Inl e \<Rightarrow> Inl e
           | Inr (rest, s2) \<Rightarrow> Inr ((k, w) # rest, s2)))"

definition dev_column :: "device \<Rightarrow> string \<Rightarrow> pyval" where
  "dev_column d k =
     (if k = ''display_name'' then VStr (dev_display_name d)
      else if k = ''site_id'' then of_opt_str (dev_site_id d)
      else if k = ''notes'' then of_opt_str (dev_notes d)
      else if k = ''central_management_enabled'' then VBool (dev_central_management_enabled d)
      else if k = ''is_protected'' then VBool (dev_is_protected d)
      else of_opt_str (dev_power_source_device_id d))"

text \<open>
  What the row holds after the flush; a value the database refuses, or \<open>NULL\<close> where the column has none, fails. The two
  references hold keys that their validators found in the database, so they are stored as they are.
\<close>

definition set_dev_column :: "column_store \<Rightarrow> string \<Rightarrow> pyval \<Rightarrow> device \<Rightarrow> device option" where
  "set_dev_column D k v d =
     (if k = ''site_id'' then Some (d\<lparr>dev_site_id := column_text v\<rparr>)
      else if k = ''power_source_device_id'' then Some (d\<lparr>dev_power_source_device_id := column_text v\<rparr>)
      else case (if v = VNone then Some VNone else D (''devices.'' @ k) v) of
        None \<Rightarrow> None
      | Some w \<Rightarrow>
          (if k = ''display_name'' then map_option (\<lambda>x. d\<lparr>dev_display_name := x\<rparr>) (column_text w)
           else if k = ''notes'' then Some (d\<lparr>dev_notes := column_text w\<rparr>)
           else if k = ''central_management_enabled'' then (case w of VBool b \<Rightarrow> Some (d\<lparr>dev_central_management_enabled := b\<rparr>) | _ \<Rightarrow> None)
           else if k = ''is_protected'' then (case w of VBool b \<Rightarrow> Some (d\<lparr>dev_is_protected := b\<rparr>) | _ \<Rightarrow> None)
           else None))"

fun set_dev_columns :: "column_store \<Rightarrow> pydict \<Rightarrow> device \<Rightarrow> device option" where
  "set_dev_columns D [] d = Some d"
| "set_dev_columns D ((k, v) # kvs) d = (case set_dev_column D k v d of None \<Rightarrow> None | Some d1 \<Rightarrow> set_dev_columns D kvs d1)"

definition patch_diff :: "device \<Rightarrow> pydict \<Rightarrow> (string \<times> pyval \<times> pyval) list" where
  "patch_diff d normalized =
     map (\<lambda>(k, v). (k, dev_column d k, v)) (filter (\<lambda>(k, v). \<not> py_eq (dev_column d k) v) normalized)"

definition apply_patch ::
  "env \<Rightarrow> column_store \<Rightarrow> device \<Rightarrow> pydict \<Rightarrow> ctx \<times> hub \<Rightarrow> device_error + ((device \<times> (string \<times> pyval \<times> pyval) list) \<times> ctx \<times> hub)" where
  "apply_patch E D d patch s =
     (case validate_patch E d patch s of
        Inl e \<Rightarrow> Inl e
      | Inr (normalized, c, h) \<Rightarrow>
          (let diff = patch_diff d normalized in
           case set_dev_columns D (map (\<lambda>(k, _, v). (k, v)) diff) d of
             None \<Rightarrow> Inl DeviceColumnRefused
           | Some d1 \<Rightarrow>
               (let d2 = (if diff = [] then d else d1\<lparr>dev_updated_at := env_now E\<rparr>)
                in Inr ((d2, diff), c, modify_device (dev_id d) (\<lambda>_. d2) h))))"

definition unknown_fields :: "pydict \<Rightarrow> string list" where
  "unknown_fields patch = sort (remdups (filter (\<lambda>k. k \<notin> set PATCHABLE) (map fst patch)))"

definition update_device_with_diff ::
  "env \<Rightarrow> column_store \<Rightarrow> string \<Rightarrow> pydict \<Rightarrow> ctx \<times> hub \<Rightarrow> device_error + ((pydict option \<times> (string \<times> pyval \<times> pyval) list) \<times> ctx \<times> hub)" where
  "update_device_with_diff E D i patch s =
     (if unknown_fields patch \<noteq> [] then Inl (UnknownPatchFieldError (unknown_fields patch))
      else case get_device i (snd s) of
        None \<Rightarrow> Inr ((None, []), s)
      | Some d \<Rightarrow>
          (case apply_patch E D d patch s of
             Inl e \<Rightarrow> Inl e
           | Inr ((d1, diff), s1) \<Rightarrow> Inr ((Some (serialize_device True d1), diff), s1)))"

definition update_device :: "env \<Rightarrow> column_store \<Rightarrow> string \<Rightarrow> pydict \<Rightarrow> ctx \<times> hub \<Rightarrow> device_error + (pydict option \<times> ctx \<times> hub)" where
  "update_device E D i patch s =
     (case update_device_with_diff E D i patch s of Inl e \<Rightarrow> Inl e | Inr ((out, _), s1) \<Rightarrow> Inr (out, s1))"

section \<open>Deleting and merging\<close>

text \<open>The row and what the foreign keys make of it: rows that cascade, and references that become \<open>NULL\<close>.\<close>

definition clear_ref :: "string \<Rightarrow> string option \<Rightarrow> string option" where
  "clear_ref i v = (if v = Some i then None else v)"

definition drop_device :: "string \<Rightarrow> hub \<Rightarrow> hub" where
  "drop_device i h =
     (let gone = map c_id (filter (\<lambda>c. c_device_id c = i) (h_commands h)) in
      h\<lparr>h_devices := map (\<lambda>d. d\<lparr>dev_power_source_device_id := clear_ref i (dev_power_source_device_id d)\<rparr>) (tdel dev_id i (h_devices h)),
        h_credentials := filter (\<lambda>c. cr_device_id c \<noteq> i) (h_credentials h),
        h_enrollment_tokens := map (\<lambda>t. t\<lparr>et_consumed_by_device_id := clear_ref i (et_consumed_by_device_id t),
            et_target_device_id := clear_ref i (et_target_device_id t)\<rparr>) (h_enrollment_tokens h),
        h_memberships := filter (\<lambda>m. gm_device_id m \<noteq> i) (h_memberships h),
        h_commands := filter (\<lambda>c. c_device_id c \<noteq> i) (h_commands h),
        h_results := filter (\<lambda>r. r_device_id r \<noteq> i \<and> r_command_id r \<notin> set gone) (h_results h),
        h_assignments := filter (\<lambda>a. fda_device_id a \<noteq> i) (h_assignments h),
        h_heartbeats := filter (\<lambda>b. hb_device_id b \<noteq> i) (h_heartbeats h),
        h_device_events := filter (\<lambda>e. de_device_id e \<noteq> i) (h_device_events h),
        h_power_samples := filter (\<lambda>p. ps_device_id p \<noteq> i) (h_power_samples h),
        h_failsafe_events := filter (\<lambda>f. fse_device_id f \<noteq> i) (h_failsafe_events h)\<rparr>)"

definition delete_device :: "string \<Rightarrow> hub \<Rightarrow> bool \<times> hub" where
  "delete_device i h = (case get_device i h of None \<Rightarrow> (False, h) | Some _ \<Rightarrow> (True, drop_device i h))"

definition delete_device_with_audit_context :: "string \<Rightarrow> hub \<Rightarrow> (string \<times> (string \<times> string) list) option \<times> hub" where
  "delete_device_with_audit_context i h =
     (case get_device i h of
        None \<Rightarrow> (None, h)
      | Some _ \<Rightarrow>
          (Some (i, map (\<lambda>d. (dev_id d, if dev_display_name d = [] then dev_id d else dev_display_name d))
                      (filter (\<lambda>d. dev_power_source_device_id d = Some i) (h_devices h))),
           drop_device i h))"

record bulk_result =
  br_deleted :: "string list"
  br_skipped_protected :: "string list"
  br_skipped_unknown :: "string list"

definition delete_devices_bulk :: "string list \<Rightarrow> bool \<Rightarrow> hub \<Rightarrow> bulk_result \<times> hub" where
  "delete_devices_bulk ids override h =
     (let protect = (\<lambda>i. case get_device i h of None \<Rightarrow> False | Some d \<Rightarrow> dev_is_protected d \<and> \<not> override);
          deleted = filter (\<lambda>i. get_device i h \<noteq> None \<and> \<not> protect i) ids
      in (\<lparr>br_deleted = deleted, br_skipped_protected = filter protect ids,
           br_skipped_unknown = filter (\<lambda>i. get_device i h = None) ids\<rparr>,
          fold drop_device deleted h))"

definition merge_retire_device :: "env \<Rightarrow> string \<Rightarrow> string \<Rightarrow> hub \<Rightarrow> device_error + (pydict \<times> hub)" where
  "merge_retire_device E keep_id retire_id h =
     (if keep_id = [] \<or> retire_id = [] then Inl (MergeRetireError ''validation_failed'')
      else if keep_id = retire_id then Inl (MergeRetireError ''validation_failed'')
      else case get_device keep_id h of
        None \<Rightarrow> Inl (MergeRetireError ''not_found'')
      | Some keep \<Rightarrow>
          (case get_device retire_id h of
             None \<Rightarrow> Inl (MergeRetireError ''not_found'')
           | Some retire \<Rightarrow>
               (let keep_mac = py_strip (case dev_mac_address keep of None \<Rightarrow> [] | Some x \<Rightarrow> x);
                    retire_mac = py_strip (case dev_mac_address retire of None \<Rightarrow> [] | Some x \<Rightarrow> x);
                    matches = map (\<lambda>d. dget d ''id'') (find_by_mac (Some keep_mac) h)
                in if dev_registration_state keep = ''decommissioned'' then Inl (MergeRetireError ''validation_failed'')
                   else if dev_registration_state retire = ''decommissioned'' then Inl (MergeRetireError ''already_retired'')
                   else if keep_mac = [] \<or> retire_mac = [] then Inl (MergeRetireError ''mac_mismatch'')
                   else if VStr retire_id \<notin> set matches \<or> VStr keep_id \<notin> set matches then Inl (MergeRetireError ''mac_mismatch'')
                   else Inr ([(''keep_device_id'', VStr keep_id), (''retire_device_id'', VStr retire_id), (''mac_address'', VStr keep_mac),
                              (''keep_display_name'', VStr (dev_display_name keep)), (''retired_display_name'', VStr (dev_display_name retire))],
                             modify_device retire_id (\<lambda>d. d\<lparr>dev_registration_state := ''decommissioned'', dev_updated_at := env_now E\<rparr>) h))))"

definition enqueue_display_name_sync :: "env \<Rightarrow> string \<Rightarrow> string option \<Rightarrow> string option \<Rightarrow> hub \<Rightarrow> bool \<times> hub" where
  "enqueue_display_name_sync E i name user h =
     (if i = [] \<or> name = None \<or> name = Some [] then (False, h)
      else case get_device i h of
        None \<Rightarrow> (False, h)
      | Some d \<Rightarrow>
          (if \<not> dev_central_management_enabled d then (False, h)
           else case enqueue_for_device (env_ulid E) (env_now E) i ''apply_config'' (Some [(''device_name'', of_opt_str name)]) user (Some 600) None False False h of
             Inl _ \<Rightarrow> (False, h)
           | Inr (_, h1) \<Rightarrow> (True, h1)))"

section \<open>The power topology\<close>

text \<open>Who is fed by whom: from a device to the device named as its power source.\<close>

definition powers :: "hub \<Rightarrow> (string \<times> string) set" where
  "powers h = {(dev_id d, p) |d p. d \<in> set (h_devices h) \<and> dev_power_source_device_id d = Some p}"

definition sound_topology :: "hub \<Rightarrow> bool" where
  "sound_topology h \<longleftrightarrow> pk_ok dev_id (h_devices h) \<and> acyclic (powers h)"

lemma powers_cong: "h_devices h' = h_devices h \<Longrightarrow> powers h' = powers h"
  by (simp add: powers_def)

lemma sound_topology_cong: "h_devices h' = h_devices h \<Longrightarrow> sound_topology h' \<longleftrightarrow> sound_topology h"
  by (simp add: sound_topology_def powers_def)

lemma powers_step:
  assumes "pk_ok dev_id (h_devices h)" and "d \<in> set (h_devices h)" and "(dev_id d, y) \<in> powers h"
  shows "dev_power_source_device_id d = Some y"
  using assms pk_ok_unique [OF assms(1)] unfolding powers_def by blast

lemma walk_ok_unreachable:
  assumes pk: "pk_ok dev_id (h_devices h)" and there: "get_device i h \<noteq> None"
  shows "walk_ok n i cur h \<Longrightarrow> cur \<in> set (h_devices h) \<Longrightarrow> (dev_id cur, i) \<notin> (powers h)\<^sup>*"
proof (induction n arbitrary: cur)
  case (Suc n)
  have ne: "dev_id cur \<noteq> i" using Suc.prems(1) by (auto split: if_splits)
  show ?case
  proof
    assume "(dev_id cur, i) \<in> (powers h)\<^sup>*"
    then obtain y where first: "(dev_id cur, y) \<in> powers h" and rest: "(y, i) \<in> (powers h)\<^sup>*"
      using ne by (meson converse_rtranclE)
    have p: "dev_power_source_device_id cur = Some y" using powers_step [OF pk Suc.prems(2) first] .
    show False
    proof (cases "get_device y h")
      case None
      then have "(y, z) \<notin> powers h" for z
        by (auto simp: get_device_def tget_None_iff powers_def)
      then have "y = i" using rest by (metis converse_rtranclE)
      then show False using None there by simp
    next
      case (Some parent)
      then have "parent \<in> set (h_devices h)" and "dev_id parent = y"
        using tget_SomeD [of dev_id] unfolding get_device_def by blast+
      moreover have "walk_ok n i parent h" using Suc.prems(1) ne p Some by simp
      ultimately show False using Suc.IH rest by blast
    qed
  qed
qed simp

lemma accepted_parent:
  assumes "pk_ok dev_id (h_devices h)" and "get_device (dev_id d) h \<noteq> None"
    and "validate_power_source_device_id v d h = Inr w"
  shows "w = VNone \<or> (\<exists>p. w = VStr p \<and> (p, dev_id d) \<notin> (powers h)\<^sup>*)"
proof (cases v)
  case (VStr p)
  then obtain parent where par: "get_device p h = Some parent" "walk_ok 50 (dev_id d) parent h" "w = v"
    using assms(3) by (auto simp: validate_power_source_device_id_def simp del: walk_ok.simps split: if_splits option.splits)
  then have mem: "parent \<in> set (h_devices h)" "dev_id parent = p"
    using tget_SomeD [of dev_id] unfolding get_device_def by blast+
  have "(p, dev_id d) \<notin> (powers h)\<^sup>*"
    using walk_ok_unreachable [OF assms(1,2) par(2) mem(1)] mem(2) by simp
  then show ?thesis using VStr par(3) by simp
qed (use assms(3) in \<open>simp_all add: validate_power_source_device_id_def\<close>)

lemma set_dev_column_facts:
  assumes "set_dev_column D k v d = Some d1"
  shows "dev_id d1 = dev_id d
    \<and> dev_power_source_device_id d1 = (if k = ''power_source_device_id'' then column_text v else dev_power_source_device_id d)"
  using assms unfolding set_dev_column_def
  by (auto split: if_splits option.splits pyval.splits)

lemma set_dev_columns_facts:
  "set_dev_columns D kvs d = Some d1 \<Longrightarrow> dev_id d1 = dev_id d
    \<and> (dev_power_source_device_id d1 = dev_power_source_device_id d
       \<or> (\<exists>v. (''power_source_device_id'', v) \<in> set kvs \<and> dev_power_source_device_id d1 = column_text v))"
proof (induction D kvs d rule: set_dev_columns.induct)
  case (2 D k v kvs d)
  obtain d2 where d2: "set_dev_column D k v d = Some d2" and rest: "set_dev_columns D kvs d2 = Some d1"
    using 2(2) by (auto split: option.splits)
  show ?case
  proof (cases "k = ''power_source_device_id''")
    case True
    then show ?thesis using 2(1) [OF d2 rest] set_dev_column_facts [OF d2] by (metis list.set_intros)
  qed (use 2(1) [OF d2 rest] set_dev_column_facts [OF d2] in auto)
qed simp

lemma validate_patch_field_facts:
  assumes "validate_patch_field E d k v s = Inr (w, s1)"
  shows "h_devices (snd s1) = h_devices (snd s)
    \<and> (k = ''power_source_device_id'' \<longrightarrow> validate_power_source_device_id v d (snd s) = Inr w)"
proof -
  obtain c h where s: "s = (c, h)" by (cases s)
  have "h_devices (snd s1) = h_devices h" if "validate_site_id E v s = Inr (w, s1)"
    using that select_scoped_frame(2) [of E "''sites''" "Some \<circ> site_organization_id" h_sites c h]
    unfolding validate_site_id_def s
    by (cases s1) (force simp: Let_def split: pyval.splits if_splits prod.splits option.splits)
  then show ?thesis using assms unfolding validate_patch_field_def s
    by (auto split: if_splits sum.splits)
qed

lemma validate_patch_facts:
  "validate_patch E d kvs s = Inr (out, s1) \<Longrightarrow> h_devices (snd s1) = h_devices (snd s)
    \<and> (\<forall>w. (''power_source_device_id'', w) \<in> set out \<longrightarrow>
           (\<exists>v h. h_devices h = h_devices (snd s) \<and> validate_power_source_device_id v d h = Inr w))"
proof (induction E d kvs s arbitrary: out s1 rule: validate_patch.induct)
  case (2 E d k v kvs s)
  obtain w s2 where f: "validate_patch_field E d k v s = Inr (w, s2)"
    using 2(2) by (auto split: sum.splits)
  obtain rest where r: "validate_patch E d kvs s2 = Inr (rest, s1)" and out: "out = (k, w) # rest"
    using 2(2) by (auto simp: f split: sum.splits)
  have ih: "h_devices (snd s1) = h_devices (snd s2)
    \<and> (\<forall>w. (''power_source_device_id'', w) \<in> set rest \<longrightarrow>
           (\<exists>v h. h_devices h = h_devices (snd s2) \<and> validate_power_source_device_id v d h = Inr w))"
    using 2(1) [OF f refl r] .
  show ?case using ih validate_patch_field_facts [OF f] out by auto
qed auto

lemma update_keeps_topology:
  assumes ok: "sound_topology (snd s)" and run: "update_device_with_diff E D i patch s = Inr (out, s1)"
  shows "sound_topology (snd s1)"
proof (cases "get_device i (snd s)")
  case None
  then show ?thesis using ok run by (auto simp: update_device_with_diff_def split: if_splits)
next
  case (Some d)
  obtain d1 diff where ap: "apply_patch E D d patch s = Inr ((d1, diff), s1)"
    using run by (auto simp: update_device_with_diff_def Some split: if_splits sum.splits)
  obtain normalized c h where val: "validate_patch E d patch s = Inr (normalized, c, h)"
    using ap by (auto simp: apply_patch_def split: sum.splits)
  let ?kvs = "map (\<lambda>(k, _, v). (k, v)) (patch_diff d normalized)"
  obtain d2 where set2: "set_dev_columns D ?kvs d = Some d2" and d1: "d1 = (if patch_diff d normalized = [] then d else d2\<lparr>dev_updated_at := env_now E\<rparr>)"
    and s1: "snd s1 = modify_device (dev_id d) (\<lambda>_. d1) h"
    using ap by (auto simp: apply_patch_def val Let_def simp del: split_paired_Ex split: option.splits)
  have pk: "pk_ok dev_id (h_devices h)" and acyc: "acyclic (powers h)" and same: "h_devices h = h_devices (snd s)"
    using ok validate_patch_facts [OF val] by (simp_all add: sound_topology_def powers_def)
  have there: "get_device (dev_id d) h = Some d" and mem: "d \<in> set (h_devices h)"
    using Some same tget_SomeD [of dev_id] by (auto simp: get_device_def)
  have sub: "set ?kvs \<subseteq> set normalized" by (auto simp: patch_diff_def)
  have id: "dev_id d1 = dev_id d" using set_dev_columns_facts [OF set2] d1 by simp
  have parent: "dev_power_source_device_id d1 = dev_power_source_device_id d
      \<or> dev_power_source_device_id d1 = None
      \<or> (\<exists>p. dev_power_source_device_id d1 = Some p \<and> (p, dev_id d) \<notin> (powers h)\<^sup>*)"
  proof (cases "dev_power_source_device_id d1 = dev_power_source_device_id d")
    case False
    then obtain w where w: "(''power_source_device_id'', w) \<in> set normalized" "dev_power_source_device_id d1 = column_text w"
      using set_dev_columns_facts [OF set2] d1 sub by (auto split: if_splits)
    then obtain v h' where v: "h_devices h' = h_devices (snd s)" "validate_power_source_device_id v d h' = Inr w"
      using validate_patch_facts [OF val] by blast
    have "h_devices h' = h_devices h" using v(1) same by simp
    then have "w = VNone \<or> (\<exists>p. w = VStr p \<and> (p, dev_id d) \<notin> (powers h)\<^sup>*)"
      using accepted_parent [OF _ _ v(2)] pk there by (simp add: powers_def get_device_def)
    then show ?thesis using w(2) by auto
  qed simp
  have set1: "set (h_devices (snd s1)) \<subseteq> insert d1 (set (h_devices h) - {d})"
    unfolding s1 modify_device_def using pk_ok_unique [OF pk mem] by (auto simp: set_tupd)
  have "acyclic (powers (snd s1))"
  proof (cases "dev_power_source_device_id d1 = dev_power_source_device_id d \<or> dev_power_source_device_id d1 = None")
    case True
    then have "powers (snd s1) \<subseteq> powers h" using set1 id mem unfolding powers_def by fastforce
    then show ?thesis by (rule acyclic_subset [OF acyc])
  next
    case False
    then obtain p where p: "dev_power_source_device_id d1 = Some p" "(p, dev_id d) \<notin> (powers h)\<^sup>*"
      using parent by auto
    have "powers (snd s1) \<subseteq> insert (dev_id d, p) (powers h)" using set1 id p(1) unfolding powers_def by fastforce
    moreover have "acyclic (insert (dev_id d, p) (powers h))" using acyc p(2) by (simp add: acyclic_insert)
    ultimately show ?thesis by (rule acyclic_subset [rotated])
  qed
  moreover have "pk_ok dev_id (h_devices (snd s1))"
    unfolding s1 modify_device_def using pk id tget_SomeD [of dev_id] by (simp add: tupd_def pk_ok_map)
  ultimately show ?thesis by (simp add: sound_topology_def)
qed

lemma drop_keeps_topology: "sound_topology h \<Longrightarrow> sound_topology (drop_device i h)"
proof -
  assume ok: "sound_topology h"
  have "powers (drop_device i h) \<subseteq> powers h"
    by (auto simp: powers_def drop_device_def Let_def set_tdel clear_ref_def split: if_splits)
  moreover have "pk_ok dev_id (h_devices (drop_device i h))"
    using ok by (simp add: drop_device_def Let_def sound_topology_def pk_ok_map pk_ok_tdel)
  ultimately show ?thesis using ok acyclic_subset by (auto simp: sound_topology_def)
qed

lemma fold_drop_keeps_topology: "sound_topology h \<Longrightarrow> sound_topology (fold drop_device ids h)"
  by (induction ids arbitrary: h) (simp_all add: drop_keeps_topology)

lemma modify_keeps_topology:
  assumes "\<And>d. dev_id (f d) = dev_id d \<and> dev_power_source_device_id (f d) = dev_power_source_device_id d"
  shows "sound_topology h \<Longrightarrow> sound_topology (modify_device i f h)"
  using assms by (auto simp: sound_topology_def modify_device_def pk_ok_tupd powers_def set_tupd elim!: acyclic_subset)

text \<open>Every operation of this theory that changes the table of devices.\<close>

inductive registry_step :: "hub \<Rightarrow> hub \<Rightarrow> bool" where
  update: "update_device_with_diff E D i patch (c, h) = Inr (out, c', h') \<Longrightarrow> registry_step h h'"
| delete: "registry_step h (snd (delete_device_with_audit_context i h))"
| bulk: "registry_step h (snd (delete_devices_bulk ids override h))"
| merge: "merge_retire_device E keep retire h = Inr (out, h') \<Longrightarrow> registry_step h h'"

inductive_cases registry_stepE: "registry_step h h'"

lemma step_keeps_topology: "registry_step h h' \<Longrightarrow> sound_topology h \<Longrightarrow> sound_topology h'"
proof (induction rule: registry_step.induct)
  case (update E D i patch c h out c' h')
  then show ?case using update_keeps_topology [OF _ update(1)] by simp
next
  case (merge E keep retire h out h')
  then obtain f where "h' = modify_device retire f h" and "f = (\<lambda>d. d\<lparr>dev_registration_state := ''decommissioned'', dev_updated_at := env_now E\<rparr>)"
    by (auto simp: merge_retire_device_def Let_def split: if_splits option.splits)
  then show ?case using modify_keeps_topology merge(2) by simp
qed (auto simp: delete_device_with_audit_context_def delete_devices_bulk_def Let_def drop_keeps_topology fold_drop_keeps_topology
       split: option.splits)

lemma steps_keep_topology: "registry_step\<^sup>*\<^sup>* h h' \<Longrightarrow> sound_topology h \<Longrightarrow> sound_topology h'"
  by (induction rule: rtranclp_induct) (auto intro: step_keeps_topology)

text \<open>C26: no sequence of device updates, deletions and merges closes a loop in the power topology: starting from a table without
  loops, every table reached has none, and in it every request to feed a device from one of the devices it feeds,
  directly or through others, is refused.\<close>
theorem power_topology_acyclic:
  assumes "sound_topology h" and "registry_step\<^sup>*\<^sup>* h h'"
  shows "acyclic (powers h')
    \<and> (\<forall>d p. get_device (dev_id d) h' = Some d \<longrightarrow> (p, dev_id d) \<in> (powers h')\<^sup>* \<longrightarrow>
         (\<exists>why. validate_power_source_device_id (VStr p) d h' = Inl (PowerTopologyError why)))"
proof (intro conjI allI impI)
  have ok: "sound_topology h'" by (rule steps_keep_topology [OF assms(2,1)])
  then show "acyclic (powers h')" by (simp add: sound_topology_def)
  fix d p
  assume there: "get_device (dev_id d) h' = Some d" and loop: "(p, dev_id d) \<in> (powers h')\<^sup>*"
  have refused: "validate_power_source_device_id (VStr p) d h' \<noteq> Inr (VStr p)"
  proof
    assume acc: "validate_power_source_device_id (VStr p) d h' = Inr (VStr p)"
    show False using accepted_parent [OF _ _ acc] ok there loop by (auto simp: sound_topology_def)
  qed
  show "\<exists>why. validate_power_source_device_id (VStr p) d h' = Inl (PowerTopologyError why)"
    using refused unfolding validate_power_source_device_id_def
    by (cases "p = dev_id d"; cases "get_device p h'"; cases "walk_ok 50 (dev_id d) (the (get_device p h')) h'")
      (simp_all del: walk_ok.simps)
qed

theorem power_topology_acyclic_witness:
  "\<exists>h out c d. update_device_with_diff deploy_env (\<lambda>_. Some) ''d1'' [(''power_source_device_id'', VStr ''d2'')] (scope_ctx None, demo_hub) = Inr (out, c, h)
     \<and> powers h = {(''d1'', ''d2'')} \<and> acyclic (powers h) \<and> get_device ''d2'' h = Some d
     \<and> (\<exists>why. validate_power_source_device_id (VStr ''d1'') d h = Inl (PowerTopologyError why))"
proof -
  define d1 where "d1 = (new_device ''d1'' ''Router'' 0)\<lparr>dev_power_source_device_id := Some ''d2'', dev_updated_at := env_now deploy_env\<rparr>"
  define h where "h = modify_device ''d1'' (\<lambda>_. d1) demo_hub"
  let ?d2 = "(new_device ''d2'' ''Freezer'' 0)\<lparr>dev_is_protected := True\<rparr>"
  have dev: "dev_id (new_device i n t) = i" "dev_power_source_device_id (new_device i n t) = None" for i n t
    by (simp_all add: new_device_def)
  have w: "walk_ok 50 ''d1'' ?d2 demo_hub" by (simp add: eval_nat_numeral dev)
  have v: "validate_power_source_device_id (VStr ''d2'') (new_device ''d1'' ''Router'' 0) demo_hub = Inr (VStr ''d2'')"
    unfolding validate_power_source_device_id_def using w by (simp add: dev get_device_demo del: walk_ok.simps)
  have ap: "apply_patch deploy_env (\<lambda>_. Some) (new_device ''d1'' ''Router'' 0) [(''power_source_device_id'', VStr ''d2'')] (scope_ctx None, demo_hub)
      = Inr ((d1, [(''power_source_device_id'', VNone, VStr ''d2'')]), scope_ctx None, h)"
    unfolding apply_patch_def by (simp add: validate_patch_field_def v patch_diff_def dev_column_def set_dev_column_def dev Let_def d1_def h_def of_opt_str_def)
  have up: "update_device_with_diff deploy_env (\<lambda>_. Some) ''d1'' [(''power_source_device_id'', VStr ''d2'')] (scope_ctx None, demo_hub)
      = Inr ((Some (serialize_device True d1), [(''power_source_device_id'', VNone, VStr ''d2'')]), scope_ctx None, h)"
    unfolding update_device_with_diff_def by (simp add: get_device_demo ap unknown_fields_def PATCHABLE_def)
  have rows: "h_devices h = [d1, ?d2]"
    by (simp add: h_def modify_device_def demo_hub_def tupd_def dev d1_def)
  have pw: "powers h = {(''d1'', ''d2'')}"
    unfolding powers_def rows
    by (rule set_eqI, rule iffI) (auto simp: d1_def dev intro!: exI [of _ "(new_device ''d1'' ''Router'' 0)\<lparr>dev_power_source_device_id := Some ''d2'', dev_updated_at := env_now deploy_env\<rparr>"])
  have "powers demo_hub = {}" by (auto simp: powers_def demo_hub_def dev)
  then have ok: "sound_topology demo_hub" by (simp add: sound_topology_def acyclic_def demo_hub_def pk_ok_def dev)
  have g: "get_device ''d2'' h = Some ?d2" by (simp add: get_device_def rows dev d1_def)
  have step: "registry_step\<^sup>*\<^sup>* demo_hub h" using registry_step.update [OF up] by (rule r_into_rtranclp)
  have loop: "(''d1'', dev_id ?d2) \<in> (powers h)\<^sup>*" and self: "get_device (dev_id ?d2) h = Some ?d2"
    using g by (simp_all add: pw dev r_into_rtrancl)
  have both: "acyclic (powers h) \<and> (\<exists>why. validate_power_source_device_id (VStr ''d1'') ?d2 h = Inl (PowerTopologyError why))"
    using power_topology_acyclic [OF ok step] self loop by blast
  show ?thesis using up pw g both by blast
qed

section \<open>Deleting\<close>

lemma get_drop_device:
  "get_device k (drop_device i h) =
     (if k = i then None else map_option (\<lambda>d. d\<lparr>dev_power_source_device_id := clear_ref i (dev_power_source_device_id d)\<rparr>) (get_device k h))"
  by (simp add: get_device_def drop_device_def Let_def tget_map tget_tdel)

lemma get_fold_drop:
  "get_device k (fold drop_device ids h) =
     (if k \<in> set ids then None
      else map_option (\<lambda>d. d\<lparr>dev_power_source_device_id :=
              (case dev_power_source_device_id d of None \<Rightarrow> None | Some p \<Rightarrow> if p \<in> set ids then None else Some p)\<rparr>) (get_device k h))"
proof (induction ids arbitrary: h)
  case Nil
  show ?case by (cases "get_device k h") (simp_all split: option.splits)
next
  case (Cons i ids)
  show ?case by (cases "get_device k h") (auto simp: Cons get_drop_device clear_ref_def split: option.splits)
qed

text \<open>a bulk deletion removes exactly the devices it reports as deleted. A protected device survives it unless the lockout is
  overridden, and keeps everything but a power source that was deleted; every identifier of the request is in exactly one of the three
  lists of the result.\<close>
theorem bulk_delete_spares_protected:
  assumes "get_device i h = Some d" and "delete_devices_bulk ids override h = (out, h')"
  shows "(get_device i h' = None \<longleftrightarrow> i \<in> set (br_deleted out))
    \<and> (dev_is_protected d \<and> \<not> override \<longrightarrow> i \<notin> set (br_deleted out) \<and> (\<exists>p. get_device i h' = Some (d\<lparr>dev_power_source_device_id := p\<rparr>)))
    \<and> (i \<in> set ids \<longrightarrow> (i \<in> set (br_deleted out)) \<noteq> (i \<in> set (br_skipped_protected out)))
    \<and> set ids = set (br_deleted out) \<union> set (br_skipped_protected out) \<union> set (br_skipped_unknown out)"
proof -
  have h': "h' = fold drop_device (br_deleted out) h" using assms(2) by (auto simp: delete_devices_bulk_def Let_def)
  have del: "br_deleted out = filter (\<lambda>i. get_device i h \<noteq> None \<and> \<not> (case get_device i h of None \<Rightarrow> False | Some d \<Rightarrow> dev_is_protected d \<and> \<not> override)) ids"
    and prot: "br_skipped_protected out = filter (\<lambda>i. case get_device i h of None \<Rightarrow> False | Some d \<Rightarrow> dev_is_protected d \<and> \<not> override) ids"
    and unk: "br_skipped_unknown out = filter (\<lambda>i. get_device i h = None) ids"
    using assms(2) by (auto simp: delete_devices_bulk_def Let_def)
  have all: "set ids = set (br_deleted out) \<union> set (br_skipped_protected out) \<union> set (br_skipped_unknown out)"
    unfolding del prot unk by auto
  have mem: "i \<in> set (br_deleted out) \<longleftrightarrow> i \<in> set ids \<and> \<not> (dev_is_protected d \<and> \<not> override)"
    "i \<in> set (br_skipped_protected out) \<longleftrightarrow> i \<in> set ids \<and> dev_is_protected d \<and> \<not> override"
    unfolding del prot by (simp_all add: assms(1))
  have get: "get_device i h' = (if i \<in> set (br_deleted out) then None
      else Some (d\<lparr>dev_power_source_device_id := (case dev_power_source_device_id d of None \<Rightarrow> None
        | Some p \<Rightarrow> if p \<in> set (br_deleted out) then None else Some p)\<rparr>))"
    unfolding h' get_fold_drop by (simp add: assms(1))
  show ?thesis
  proof (intro conjI impI)
    show "(get_device i h' = None) = (i \<in> set (br_deleted out))" unfolding get by simp
    assume keep: "dev_is_protected d \<and> \<not> override"
    then show out: "i \<notin> set (br_deleted out)" using mem by simp
    show "\<exists>p. get_device i h' = Some (d\<lparr>dev_power_source_device_id := p\<rparr>)" unfolding get if_not_P [OF out] by blast
  next
    assume "i \<in> set ids"
    then show "(i \<in> set (br_deleted out)) \<noteq> (i \<in> set (br_skipped_protected out))" using mem by simp
  qed (rule all)
qed

theorem bulk_delete_spares_protected_witness:
  "case delete_devices_bulk [''d2'', ''zz'', ''d1''] False demo_hub of
     (out, h) \<Rightarrow> br_deleted out = [''d1''] \<and> br_skipped_protected out = [''d2''] \<and> br_skipped_unknown out = [''zz'']
       \<and> get_device ''d2'' h \<noteq> None"
proof -
  obtain out h where r: "delete_devices_bulk [''d2'', ''zz'', ''d1''] False demo_hub = (out, h)" by (metis surj_pair)
  have zz: "get_device ''zz'' demo_hub = None" by (simp add: get_device_def demo_defs)
  have out: "br_deleted out = [''d1''] \<and> br_skipped_protected out = [''d2''] \<and> br_skipped_unknown out = [''zz'']"
    using r by (auto simp: delete_devices_bulk_def Let_def get_device_demo zz new_device_def)
  then show ?thesis using bulk_delete_spares_protected [OF get_device_demo(2) r] r by simp
qed

section \<open>The newest stable release\<close>

lemma text_less_trans: "text_less a b \<Longrightarrow> text_less b c \<Longrightarrow> text_less a c"
  unfolding text_less_def by (rule tuple_less_trans)

lemma key_less_trans: "key_less a b \<Longrightarrow> key_less b c \<Longrightarrow> key_less a c"
  using tuple_less_trans [of "fst a" "fst b" "fst c"] text_less_trans [of "snd a" "snd b" "snd c"] by (auto simp: key_less_def)

lemma key_less_neg: "\<not> key_less a b \<Longrightarrow> \<not> tuple_less (fst a) (fst b)"
  by (simp add: key_less_def)

lemma max_by_props:
  assumes trans: "\<And>a b c. lt a b \<Longrightarrow> lt b c \<Longrightarrow> lt a c" and total: "\<And>a b c. \<not> lt a b \<Longrightarrow> lt a c \<Longrightarrow> lt b c"
    and irr: "\<And>a. \<not> lt a a"
  shows "max_by lt b xs \<in> insert b (set xs) \<and> (\<forall>x \<in> insert b (set xs). \<not> lt (max_by lt b xs) x)"
proof (induction xs arbitrary: b)
  case (Cons x xs)
  define m where "m = max_by lt (if lt b x then x else b) xs"
  have m: "m \<in> insert (if lt b x then x else b) (set xs)" and top: "\<forall>y \<in> insert (if lt b x then x else b) (set xs). \<not> lt m y"
    using Cons [of "if lt b x then x else b"] by (simp_all add: m_def)
  have "\<not> lt m b" and "\<not> lt m x"
  proof -
    show "\<not> lt m b" using top trans [of m b x] by (cases "lt b x") auto
    show "\<not> lt m x" using top total [of m b x] by (cases "lt b x") auto
  qed
  then show ?case using m top by (auto simp: m_def split: if_splits)
qed (simp add: irr)

lemma tuple_less_neg_trans: "\<not> tuple_less a b \<Longrightarrow> tuple_less a c \<Longrightarrow> tuple_less b c"
  using tuple_less_total [of a b] tuple_less_trans [of b a c] by blast

lemma key_less_total:
  assumes "\<not> key_less a b" and "key_less a c"
  shows "key_less b c"
proof (cases "tuple_less (fst b) (fst a)")
  case True
  then show ?thesis using assms(2) tuple_less_trans [of "fst b" "fst a" "fst c"] by (auto simp: key_less_def)
next
  case False
  then have eq: "fst a = fst b" using assms(1) tuple_less_total [of "fst a" "fst b"] by (auto simp: key_less_def)
  then have "\<not> text_less (snd a) (snd b)" using assms(1) by (simp add: key_less_def)
  then have "text_less (snd a) (snd c) \<longrightarrow> text_less (snd b) (snd c)"
    using tuple_less_neg_trans [of "map (\<lambda>c. int (of_char c)) (snd a)" "map (\<lambda>c. int (of_char c)) (snd b)" "map (\<lambda>c. int (of_char c)) (snd c)"]
    unfolding text_less_def by argo
  then show ?thesis using assms(2) eq by (auto simp: key_less_def)
qed

lemma key_less_irrefl: "\<not> key_less a a"
  by (simp add: key_less_def text_less_def)

text \<open>the latest stable release is one of the two hundred newest stable releases, and none of those would upgrade a device that
  runs it; when there is none, there is no stable release at all.\<close>
theorem latest_stable_is_latest:
  shows "(case latest_stable_release h of
      None \<Rightarrow> (\<forall>r \<in> set (h_releases h). fwr_channel r \<noteq> ''stable'')
    | Some r \<Rightarrow> r \<in> set (stable_window h) \<and> fwr_channel r = ''stable''
        \<and> (\<forall>x \<in> set (stable_window h). \<not> is_upgrade (Some (fwr_version x)) (Some (fwr_version r))))"
proof -
  let ?key = "\<lambda>r. version_sort_key (Some (fwr_version r))"
  let ?lt = "\<lambda>a b. key_less (?key a) (?key b)"
  have sub: "set (stable_window h) \<subseteq> {r \<in> set (h_releases h). fwr_channel r = ''stable''}"
    unfolding stable_window_def by (auto dest: in_set_takeD)
  show ?thesis
  proof (cases "stable_window h")
    case Nil
    then have "filter (\<lambda>r. fwr_channel r = ''stable'') (h_releases h) = []"
      unfolding stable_window_def by (metis set_empty set_sort take_eq_Nil zero_neq_numeral)
    then show ?thesis by (simp add: latest_stable_release_def Nil filter_empty_conv)
  next
    case (Cons r rs)
    have props: "max_by ?lt r rs \<in> insert r (set rs) \<and> (\<forall>x \<in> insert r (set rs). \<not> ?lt (max_by ?lt r rs) x)"
      by (rule max_by_props) (auto intro: key_less_trans key_less_total simp: key_less_irrefl)
    have latest: "latest_stable_release h = Some (max_by ?lt r rs)" by (simp add: latest_stable_release_def Cons)
    have mem: "max_by ?lt r rs \<in> set (stable_window h)" using props by (simp add: Cons)
    have "\<not> is_upgrade (Some (fwr_version x)) (Some (fwr_version (max_by ?lt r rs)))" if "x \<in> set (stable_window h)" for x
      using props that by (auto simp: Cons is_upgrade_def dest!: key_less_neg)
    then show ?thesis using mem sub by (auto simp: latest)
  qed
qed

text \<open>the green badge is shown exactly for a device that is under central management on both sides, is online, has booted
  normally, reports neither a state that needs a new binding nor ill health, and runs the version it is assigned, with no assignment
  still in flight.\<close>
theorem green_badge_iff:
  shows "cs_badge_class (derive_central_status d contact health assignment) = ''green'' \<longleftrightarrow>
      dev_central_management_enabled d \<and> dev_reported_central_enabled d \<noteq> Some False \<and> dev_reported_recovery_mode d \<noteq> Some True
    \<and> contact = Online
    \<and> (case dev_reported_central_state d of None \<Rightarrow> True | Some x \<Rightarrow> x \<notin> set REBIND_CENTRAL_STATES)
    \<and> health \<in> {None, Some [], Some ''healthy'', Some ''ok''}
    \<and> (case assignment of None \<Rightarrow> True
       | Some a \<Rightarrow> (case none_if_blank (av_target_version a) of None \<Rightarrow> True
           | Some v \<Rightarrow> none_if_blank (dev_firmware_version d) = Some v \<and> av_state a \<notin> {''pending'', ''delivered''}))"
proof -
  define st where "st = (case dev_reported_central_state d of None \<Rightarrow> [] | Some x \<Rightarrow> x)"
  have st: "(case dev_reported_central_state d of None \<Rightarrow> True | Some x \<Rightarrow> x \<notin> set REBIND_CENTRAL_STATES) \<longleftrightarrow> st \<notin> set REBIND_CENTRAL_STATES"
    by (simp add: st_def REBIND_CENTRAL_STATES_def split: option.splits)
  have none: "none_if_blank None = None" by (simp add: none_if_blank_def Let_def py_strip_def)
  have ill: "(case health of None \<Rightarrow> False | Some x \<Rightarrow> x \<noteq> [] \<and> x \<noteq> ''healthy'' \<and> x \<noteq> ''ok'')
      \<longleftrightarrow> health \<notin> {None, Some [], Some ''healthy'', Some ''ok''}"
    by (cases health) auto
  define healthy where "healthy \<longleftrightarrow> health \<in> {None, Some [], Some ''healthy'', Some ''ok''}"
  define rebind where "rebind \<longleftrightarrow> st \<in> set REBIND_CENTRAL_STATES"
  define failing where "failing \<longleftrightarrow> st \<in> set TRANSPORT_FAIL_CENTRAL_STATES"
  show ?thesis
  proof (cases assignment)
    case None
    show ?thesis
      unfolding derive_central_status_def Let_def st_def [symmetric] st ill None healthy_def [symmetric] rebind_def [symmetric] failing_def [symmetric]
      by (cases contact; simp add: none)
  next
    case (Some a)
    define target where "target = none_if_blank (av_target_version a)"
    define active where "active \<longleftrightarrow> av_state a \<in> {''pending'', ''delivered''}"
    show ?thesis
      unfolding derive_central_status_def Let_def st_def [symmetric] st ill Some option.case target_def [symmetric] active_def [symmetric]
        healthy_def [symmetric] rebind_def [symmetric] failing_def [symmetric]
      by (cases target; cases contact; simp)
  qed
qed

end
