(* ===== verification/Telemetry.thy ===== *)
theory Telemetry
  imports Devices Sync
begin

text \<open>
  What devices upload besides their heartbeats: operational events and power samples (\<open>app/services/events.py\<close>) and failsafe
  reports (\<open>app/services/failsafe.py\<close>). The values come from the device as they are; a column of the database
  keeps, changes or refuses one (\<open>column_store\<close>), and a refusal fails the flush of the whole batch. The parameter
  \<open>nonfinite\<close> is what the database driver makes of a float that is no number.
\<close>

definition MAX_BATCH :: nat where "MAX_BATCH = 200"
definition MAX_POWER_BATCH :: nat where "MAX_POWER_BATCH = 3600"

definition ALLOWED_POWER_SOURCES :: "string list" where
  "ALLOWED_POWER_SOURCES = [''steady'', ''burst'', ''synthetic'', ''heartbeat'']"

datatype telemetry_error =
    TelemetryValueError string
  | TelemetryAttributeError
  | TelemetryOverflow
  | TelemetryRefused

type_synonym nonfinite = "pyfloat \<Rightarrow> pyval"

section \<open>Coercions\<close>

definition parse_ts :: "env \<Rightarrow> pyval \<Rightarrow> telemetry_error + instant option" where
  "parse_ts E v =
     (if \<not> truthy v then Inr None
      else case v of VStr s \<Rightarrow> Inr (env_fromiso E (replace_z s)) | _ \<Rightarrow> Inl TelemetryAttributeError)"

definition as_int :: "pyval \<Rightarrow> string \<Rightarrow> telemetry_error + int option" where
  "as_int v field =
     (if v = VNone then Inr None
      else case py_int v of None \<Rightarrow> Inl (TelemetryValueError (field @ '' must be an integer'')) | Some i \<Rightarrow> Inr (Some i))"

definition as_float :: "pyval \<Rightarrow> string \<Rightarrow> telemetry_error + pyfloat option" where
  "as_float v field =
     (if v = VNone then Inr None
      else case py_float v of
        FloatOk f \<Rightarrow> Inr (Some f)
      | FloatInvalid \<Rightarrow> Inl (TelemetryValueError (field @ '' must be numeric''))
      | FloatOverflow \<Rightarrow> Inl TelemetryOverflow)"

text \<open>The text of a list or a dictionary starts with a bracket, so it is none of the four words.\<close>

fun as_bool :: "pyval \<Rightarrow> bool option" where
  "as_bool VNone = None"
| "as_bool (VBool b) = Some b"
| "as_bool (VInt i) = Some (i \<noteq> 0)"
| "as_bool (VFloat r) = Some (r \<noteq> 0)"
| "as_bool (VStr s) = Some (py_lower (py_strip s) \<in> set [''1'', ''true'', ''yes'', ''on''])"
| "as_bool _ = Some False"

definition first_of :: "pydict \<Rightarrow> string list \<Rightarrow> pyval" where
  "first_of raw keys = (case filter (\<lambda>v. v \<noteq> VNone) (map (dget raw) keys) of [] \<Rightarrow> VNone | v # _ \<Rightarrow> v)"

definition float_value :: "nonfinite \<Rightarrow> pyfloat option \<Rightarrow> pyval" where
  "float_value N f = (case f of None \<Rightarrow> VNone | Some (Finite r) \<Rightarrow> VFloat r | Some g \<Rightarrow> N g)"

text \<open>Keyword arguments are evaluated from left to right; the first that raises ends the call.\<close>

fun collect :: "(string \<times> ('e + pyval)) list \<Rightarrow> 'e + pydict" where
  "collect [] = Inr []"
| "collect ((k, r) # rest) =
     (case r of Inl e \<Rightarrow> Inl e | Inr v \<Rightarrow> (case collect rest of Inl e \<Rightarrow> Inl e | Inr kvs \<Rightarrow> Inr ((k, v) # kvs)))"

fun collect_rows :: "('e + 'r) list \<Rightarrow> 'e + 'r list" where
  "collect_rows [] = Inr []"
| "collect_rows (x # xs) =
     (case x of Inl e \<Rightarrow> Inl e | Inr r \<Rightarrow> (case collect_rows xs of Inl e \<Rightarrow> Inl e | Inr rs \<Rightarrow> Inr (r # rs)))"

section \<open>Columns\<close>

definition store_value :: "column_store \<Rightarrow> string \<Rightarrow> pyval \<Rightarrow> pyval option" where
  "store_value D column v = (if v = VNone then Some VNone else D column v)"

fun store_columns :: "column_store \<Rightarrow> string \<Rightarrow> pydict \<Rightarrow> pydict option" where
  "store_columns D table [] = Some []"
| "store_columns D table ((k, v) # kvs) =
     (case store_value D (table @ ''.'' @ k) v of
        None \<Rightarrow> None
      | Some w \<Rightarrow> map_option (\<lambda>rest. (k, w) # rest) (store_columns D table kvs))"

section \<open>Events\<close>

definition event_row :: "env \<Rightarrow> string \<Rightarrow> instant \<Rightarrow> pyval \<Rightarrow> telemetry_error + device_event" where
  "event_row E did now raw =
     (case raw of
        VDict r \<Rightarrow>
          (case parse_ts E (dget r ''timestamp'') of
             Inl e \<Rightarrow> Inl e
           | Inr t \<Rightarrow>
               Inr \<lparr>de_id = 0, de_device_id = did,
                    de_type = take 80 (py_str E (if truthy (dget r ''type'') then dget r ''type'' else VStr ''unknown'')),
                    de_timestamp = (case t of None \<Rightarrow> now | Some x \<Rightarrow> x), de_received_at = now,
                    de_mode = dget r ''mode'', de_message = dget r ''message'',
                    de_details = (if truthy (dget r ''details'') then dget r ''details'' else VDict [])\<rparr>)
      | _ \<Rightarrow> Inl TelemetryAttributeError)"

text \<open>The flush: the device must still exist, and each reported value must fit its column.\<close>

definition store_event :: "column_store \<Rightarrow> device_event \<Rightarrow> device_event option" where
  "store_event D e =
     (case (store_value D ''device_events.mode'' (de_mode e), store_value D ''device_events.message'' (de_message e)) of
        (Some m, Some t) \<Rightarrow> Some (e\<lparr>de_mode := m, de_message := t\<rparr>)
      | _ \<Rightarrow> None)"

fun insert_events :: "column_store \<Rightarrow> device_event list \<Rightarrow> hub \<Rightarrow> hub option" where
  "insert_events D [] h = Some h"
| "insert_events D (e # es) h =
     (if get_device (de_device_id e) h = None then None
      else case store_event D e of
        None \<Rightarrow> None
      | Some x \<Rightarrow> insert_events D es (h\<lparr>h_device_events := tadd (x\<lparr>de_id := h_row_seq h\<rparr>) (h_device_events h), h_row_seq := h_row_seq h + 1\<rparr>))"

definition ingest_events :: "env \<Rightarrow> column_store \<Rightarrow> string \<Rightarrow> pyval list \<Rightarrow> hub \<Rightarrow> telemetry_error + (nat \<times> hub)" where
  "ingest_events E D did events h =
     (if events = [] then Inr (0, h)
      else if MAX_BATCH < length events then Inl (TelemetryValueError ''too many events in one batch (max 200)'')
      else case collect_rows (map (event_row E did (env_now E)) events) of
        Inl e \<Rightarrow> Inl e
      | Inr rows \<Rightarrow> (case insert_events D rows h of None \<Rightarrow> Inl TelemetryRefused | Some h1 \<Rightarrow> Inr (length rows, h1)))"

definition serialize_event :: "device_event \<Rightarrow> pydict" where
  "serialize_event e =
     [(''id'', VInt (de_id e)), (''device_id'', VStr (de_device_id e)), (''type'', VStr (de_type e)),
      (''timestamp'', VStr (iso_z (de_timestamp e))), (''received_at'', VStr (iso_z (de_received_at e))),
      (''mode'', de_mode e), (''message'', de_message e), (''details'', de_details e)]"

record event_query =
  eq_device_id :: "string option"
  eq_group_id :: "string option"
  eq_type :: "string option"
  eq_from :: "string option"
  eq_to :: "string option"
  eq_limit :: int

definition query_bound :: "env \<Rightarrow> string option \<Rightarrow> instant option" where
  "query_bound E s = (case s of None \<Rightarrow> None | Some x \<Rightarrow> if x = [] then None else env_fromiso E (replace_z x))"

definition event_matches :: "env \<Rightarrow> event_query \<Rightarrow> hub \<Rightarrow> device_event \<Rightarrow> bool" where
  "event_matches E q h e \<longleftrightarrow>
     given (eq_device_id q) (\<lambda>i. de_device_id e = i)
   \<and> given (eq_group_id q) (\<lambda>g. de_device_id e \<in> set (group_device_ids g h))
   \<and> given (eq_type q) (\<lambda>t. de_type e = t)
   \<and> (case query_bound E (eq_from q) of None \<Rightarrow> True | Some t \<Rightarrow> t \<le> de_timestamp e)
   \<and> (case query_bound E (eq_to q) of None \<Rightarrow> True | Some t \<Rightarrow> de_timestamp e \<le> t)"

definition clamp :: "int \<Rightarrow> int \<Rightarrow> nat" where
  "clamp highest n = nat (max 1 (min n highest))"

definition query_events :: "env \<Rightarrow> event_query \<Rightarrow> hub \<Rightarrow> pydict list" where
  "query_events E q h =
     map serialize_event (take (clamp 1000 (eq_limit q)) (sort_key (\<lambda>e. - de_timestamp e) (filter (event_matches E q h) (h_device_events h))))"

section \<open>Power samples\<close>

definition int_field :: "pydict \<Rightarrow> string \<Rightarrow> string \<times> (telemetry_error + pyval)" where
  "int_field r k = (k, map_sum id of_opt_int (as_int (dget r k) k))"

definition float_field :: "nonfinite \<Rightarrow> pydict \<Rightarrow> string \<Rightarrow> string \<times> (telemetry_error + pyval)" where
  "float_field N r k = (k, map_sum id (float_value N) (as_float (dget r k) k))"

text \<open>\<open>raw.get(k, 0)\<close> through \<open>_as_int\<close>, and then \<open>or 0\<close>.\<close>

definition int_or_zero :: "pydict \<Rightarrow> string \<Rightarrow> telemetry_error + int" where
  "int_or_zero r k =
     (case as_int (if dhas r k then dget r k else VInt 0) k of Inl e \<Rightarrow> Inl e | Inr None \<Rightarrow> Inr 0 | Inr (Some i) \<Rightarrow> Inr i)"

definition sample_source :: "env \<Rightarrow> pydict \<Rightarrow> telemetry_error + string" where
  "sample_source E r =
     (let s = take 20 (py_str E (if truthy (dget r ''source'') then dget r ''source'' else VStr ''steady'')) in
      if s \<in> set ALLOWED_POWER_SOURCES then Inr s
      else Inl (TelemetryValueError (''source must be one of '' @ repr_list (sort ALLOWED_POWER_SOURCES))))"

definition sample_columns :: "env \<Rightarrow> nonfinite \<Rightarrow> pydict \<Rightarrow> telemetry_error + pydict" where
  "sample_columns E N r = collect
     ([(''i_ma_estimated'', Inr (of_opt_bool (as_bool (first_of r [''i_ma_estimated'', ''power_current_estimated'', ''current_estimated''])))),
       (''i_ma_estimate'', map_sum id of_opt_int
          (as_int (first_of r [''i_ma_estimate'', ''power_estimated_current_ma'', ''estimated_current_ma'']) ''i_ma_estimate'')),
       int_field r ''sampled_uptime_seconds'', float_field N r ''v_v'', int_field r ''i_ma'', float_field N r ''p_w'', float_field N r ''s_va'',
       float_field N r ''pf'', float_field N r ''hz'', int_field r ''energy_wh'', int_field r ''rssi_dbm'', int_field r ''tx_retry_count'',
       int_field r ''beacon_miss_count'', int_field r ''crc_fail_count'',
       (''chip_type'', Inr (if truthy (dget r ''chip_type'') then VStr (take 32 (py_str E (dget r ''chip_type''))) else VNone))])"

definition sample_row :: "env \<Rightarrow> nonfinite \<Rightarrow> string \<Rightarrow> instant \<Rightarrow> pyval \<Rightarrow> telemetry_error + power_sample" where
  "sample_row E N did now raw =
     (case raw of
        VDict r \<Rightarrow>
          (case sample_source E r of
             Inl e \<Rightarrow> Inl e
           | Inr source \<Rightarrow>
          (case parse_ts E (dget r ''sampled_at'') of
             Inl e \<Rightarrow> Inl e
           | Inr t \<Rightarrow>
          (case int_or_zero r ''channel_id'' of
             Inl e \<Rightarrow> Inl e
           | Inr channel \<Rightarrow>
               (if channel < 0 \<or> 255 < channel then Inl (TelemetryValueError ''channel_id must be in 0..255'')
                else case int_or_zero r ''source_flags'' of
                  Inl e \<Rightarrow> Inl e
                | Inr flags \<Rightarrow>
                    (if flags < 0 then Inl (TelemetryValueError ''source_flags must be >= 0'')
                     else map_sum id (\<lambda>columns.
                       \<lparr>ps_id = 0, ps_device_id = did, ps_channel_id = channel, ps_sampled_at = (case t of None \<Rightarrow> now | Some x \<Rightarrow> x),
                        ps_received_at = now, ps_source = source, ps_source_flags = flags, ps_columns = columns\<rparr>)
                       (sample_columns E N r))))))
      | _ \<Rightarrow> Inl (TelemetryValueError ''each power sample must be an object''))"

definition store_sample :: "column_store \<Rightarrow> power_sample \<Rightarrow> power_sample option" where
  "store_sample D p =
     (case (D ''device_power_samples.source_flags'' (VInt (ps_source_flags p)), store_columns D ''device_power_samples'' (ps_columns p)) of
        (Some _, Some columns) \<Rightarrow> Some (p\<lparr>ps_columns := columns\<rparr>)
      | _ \<Rightarrow> None)"

fun insert_samples :: "column_store \<Rightarrow> power_sample list \<Rightarrow> hub \<Rightarrow> hub option" where
  "insert_samples D [] h = Some h"
| "insert_samples D (p # ps) h =
     (if get_device (ps_device_id p) h = None then None
      else case store_sample D p of
        None \<Rightarrow> None
      | Some x \<Rightarrow> insert_samples D ps (h\<lparr>h_power_samples := tadd (x\<lparr>ps_id := h_row_seq h\<rparr>) (h_power_samples h), h_row_seq := h_row_seq h + 1\<rparr>))"

definition ingest_power_samples :: "env \<Rightarrow> column_store \<Rightarrow> nonfinite \<Rightarrow> string \<Rightarrow> pyval list \<Rightarrow> hub \<Rightarrow> telemetry_error + (nat \<times> hub)" where
  "ingest_power_samples E D N did samples h =
     (if samples = [] then Inr (0, h)
      else if MAX_POWER_BATCH < length samples then Inl (TelemetryValueError ''too many power samples in one batch (max 3600)'')
      else case collect_rows (map (sample_row E N did (env_now E)) samples) of
        Inl e \<Rightarrow> Inl e
      | Inr rows \<Rightarrow> (case insert_samples D rows h of None \<Rightarrow> Inl TelemetryRefused | Some h1 \<Rightarrow> Inr (length rows, h1)))"

text \<open>\<open>int(round(x))\<close> rounds a half to the even neighbour.\<close>

definition round_half_even :: "rat \<Rightarrow> int" where
  "round_half_even r = (let n = \<lfloor>r\<rfloor>; rest = r - of_int n in if rest < 1 / 2 \<or> rest = 1 / 2 \<and> even n then n else n + 1)"

definition milliamps :: "pyfloat \<Rightarrow> telemetry_error + int" where
  "milliamps amps =
     (case amps of
        Finite a \<Rightarrow> (case rounded (a * 1000) of Finite x \<Rightarrow> Inr (round_half_even x) | _ \<Rightarrow> Inl TelemetryOverflow)
      | Infinite \<Rightarrow> Inl TelemetryOverflow
      | NotANumber \<Rightarrow> Inl (TelemetryValueError ''cannot convert float NaN to integer''))"

definition summary_current :: "pydict \<Rightarrow> telemetry_error + int option" where
  "summary_current r =
     (case as_float (first_of r [''i_a'', ''i_amps'', ''latest_a'']) ''power.i_a'' of
        Inl e \<Rightarrow> Inl e
      | Inr amps \<Rightarrow>
          (case as_int (dget r ''i_ma'') ''power.i_ma'' of
             Inl e \<Rightarrow> Inl e
           | Inr (Some m) \<Rightarrow> Inr (Some m)
           | Inr None \<Rightarrow> (case amps of None \<Rightarrow> Inr None | Some a \<Rightarrow> map_sum id Some (milliamps a))))"

definition summary_float :: "nonfinite \<Rightarrow> pydict \<Rightarrow> string \<Rightarrow> string list \<Rightarrow> string \<times> (telemetry_error + pyval)" where
  "summary_float N r k keys = (k, map_sum id (float_value N) (as_float (first_of r keys) (''power.'' @ k)))"

definition summary_int :: "pydict \<Rightarrow> string \<Rightarrow> string list \<Rightarrow> string \<Rightarrow> string \<times> (telemetry_error + pyval)" where
  "summary_int r k keys label = (k, map_sum id of_opt_int (as_int (first_of r keys) label))"

definition summary_columns :: "nonfinite \<Rightarrow> pydict \<Rightarrow> telemetry_error + pydict" where
  "summary_columns N r = collect
     [summary_float N r ''min_w'' [''min_w''], summary_float N r ''max_w'' [''max_w''], summary_float N r ''v_v'' [''v_v'', ''latest_v''],
      (''i_ma'', map_sum id of_opt_int (summary_current r)),
      summary_float N r ''pf'' [''pf'', ''latest_pf''], summary_float N r ''hz'' [''hz''],
      summary_int r ''energy_wh'' [''energy_wh''] ''power.energy_wh'',
      summary_int r ''crc_fail_count'' [''invalid_frame_count'', ''power_invalid_frame_count'', ''invalid_frames''] ''power.invalid_frame_count'',
      (''i_ma_estimated'', Inr (of_opt_bool (as_bool (first_of r [''i_ma_estimated'', ''power_current_estimated''])))),
      summary_int r ''i_ma_estimate'' [''i_ma_estimate'', ''power_estimated_current_ma''] ''power.i_ma_estimate'',
      summary_int r ''sampled_uptime_seconds'' [''sampled_uptime_seconds'', ''window_start_uptime_seconds''] ''power.sampled_uptime_seconds'']"

text \<open>The row a power summary gives, \<open>None\<close> without an average; it is written by the flush of the heartbeat.\<close>

definition ingest_power_summary :: "nonfinite \<Rightarrow> string \<Rightarrow> pydict \<Rightarrow> instant \<Rightarrow> telemetry_error + power_sample option" where
  "ingest_power_summary N did r received =
     (case as_float (first_of r [''avg_w'', ''p_w'']) ''power.avg_w'' of
        Inl e \<Rightarrow> Inl e
      | Inr None \<Rightarrow> Inr None
      | Inr (Some avg) \<Rightarrow>
          map_sum id (\<lambda>columns. Some
            \<lparr>ps_id = 0, ps_device_id = did, ps_channel_id = 0, ps_sampled_at = received, ps_received_at = received,
             ps_source = ''heartbeat'', ps_source_flags = 0, ps_columns = (''p_w'', float_value N (Some avg)) # columns\<rparr>)
            (summary_columns N r))"

section \<open>Failsafe reports\<close>

definition KNOWN_FAILSAFE_REASONS :: "string list" where
  "KNOWN_FAILSAFE_REASONS = [''boot_failure'', ''sha256_mismatch'', ''watchdog_reset'', ''timeout'', ''other'']"

text \<open>The parameters \<open>J\<close> and \<open>P\<close> are \<open>json.dumps\<close> with compact separators and \<open>json.loads\<close>.\<close>

definition failsafe_record ::
  "env \<Rightarrow> column_store \<Rightarrow> (pydict \<Rightarrow> string) \<Rightarrow> string \<Rightarrow> string option \<Rightarrow> string option \<Rightarrow> string \<Rightarrow> pydict option \<Rightarrow> hub \<Rightarrow> pydict \<times> hub" where
  "failsafe_record E D J did failed fallback reason0 details h =
     (let reason = take 40 (py_lower (py_strip (if reason0 = [] then ''other'' else reason0)));
          known = (\<lambda>v. case v of Some [] \<Rightarrow> None | _ \<Rightarrow> v);
          text = (case details of None \<Rightarrow> None | Some d \<Rightarrow> if d = [] then None else Some (J d));
          i = new_id (env_ulid E) ''fse'' (h_ulid h);
          reply = (\<lambda>x. [(''id'', x), (''received_at'', VStr (iso_z (env_now E))), (''reason'', VStr reason)])
      in case (store_value D ''device_failsafe_events.failed_version'' (of_opt_str (known failed)),
               store_value D ''device_failsafe_events.fallback_to_version'' (of_opt_str (known fallback)), get_device did h) of
           (Some v, Some w, Some _) \<Rightarrow>
             (reply (VStr i),
              h\<lparr>h_failsafe_events := tadd \<lparr>fse_id = i, fse_device_id = did, fse_received_at = env_now E,
                   fse_failed_version = column_text v, fse_fallback_to_version = column_text w, fse_reason = reason, fse_details = text\<rparr>
                 (h_failsafe_events h), h_ulid := Suc (h_ulid h)\<rparr>)
         | _ \<Rightarrow> (reply VNone, h))"

definition parse_details :: "(string \<Rightarrow> pyval option) \<Rightarrow> string option \<Rightarrow> pyval" where
  "parse_details P s =
     (case s of None \<Rightarrow> VNone | Some x \<Rightarrow> if x = [] then VNone else (case P x of None \<Rightarrow> VDict [(''_raw'', VStr x)] | Some v \<Rightarrow> v))"

definition failsafe_dict :: "(string \<Rightarrow> pyval option) \<Rightarrow> failsafe_event \<Rightarrow> pydict" where
  "failsafe_dict P f =
     [(''id'', VStr (fse_id f)), (''device_id'', VStr (fse_device_id f)), (''received_at'', VStr (iso_z (fse_received_at f))),
      (''failed_version'', of_opt_str (fse_failed_version f)), (''fallback_to_version'', of_opt_str (fse_fallback_to_version f)),
      (''reason'', VStr (fse_reason f)), (''details'', parse_details P (fse_details f))]"

definition failsafe_list_for_device :: "(string \<Rightarrow> pyval option) \<Rightarrow> string \<Rightarrow> int \<Rightarrow> hub \<Rightarrow> pydict list" where
  "failsafe_list_for_device P did limit h =
     map (failsafe_dict P) (take (clamp 200 limit) (sort_key (\<lambda>f. - fse_received_at f) (filter (\<lambda>f. fse_device_id f = did) (h_failsafe_events h))))"

definition failsafe_list_recent :: "env \<Rightarrow> (string \<Rightarrow> pyval option) \<Rightarrow> int \<Rightarrow> int \<Rightarrow> hub \<Rightarrow> pydict list" where
  "failsafe_list_recent E P limit since_hours h =
     map (failsafe_dict P) (take (clamp 500 limit) (sort_key (\<lambda>f. - fse_received_at f)
       (filter (\<lambda>f. env_now E - secs (since_hours * 3600) \<le> fse_received_at f) (h_failsafe_events h))))"

definition failsafe_count_recent :: "env \<Rightarrow> int \<Rightarrow> hub \<Rightarrow> nat" where
  "failsafe_count_recent E since_hours h =
     length (filter (\<lambda>f. env_now E - secs (since_hours * 3600) \<le> fse_received_at f) (h_failsafe_events h))"

end
