(* ===== verification/Heartbeats.thy ===== *)
theory Heartbeats
  imports Telemetry
begin

text \<open>
  Recording a heartbeat (\<open>app/services/heartbeats.py\<close>): the history row, the device's current truth, the detection of reboots
  and of recoveries, the assignment the report completes, the power summary, the configuration pushed after a recovery and
  the event for the browsers.
\<close>

definition HEARTBEAT_STATUS_FIELDS :: "string list" where
  "HEARTBEAT_STATUS_FIELDS = [''wifi_rssi_dbm'', ''recovery_mode'', ''auto_recovery_triggered'', ''last_known_good_restored'',
     ''consecutive_unhealthy_boots'', ''in_captive_portal'', ''holdoff_remaining_seconds'', ''cooldown_remaining_seconds'',
     ''central_enabled'', ''central_registered'', ''central_state'', ''central_device_id'', ''central_heartbeat_age_seconds'',
     ''power_analytics_enabled'', ''power_chip_type'', ''power_sample_rate_hz'', ''power_batch_seconds'']"

definition DEVICE_HOT_FIELDS :: "string list" where
  "DEVICE_HOT_FIELDS = [''recovery_mode'', ''auto_recovery_triggered'', ''last_known_good_restored'', ''consecutive_unhealthy_boots'',
     ''in_captive_portal'', ''central_enabled'', ''central_registered'', ''central_state'']"

datatype heartbeat_error =
    HeartbeatLookupError
  | HeartbeatAttributeError
  | HeartbeatReport report_error
  | HeartbeatRefused

section \<open>The history row\<close>

definition latest_heartbeat :: "string \<Rightarrow> hub \<Rightarrow> heartbeat option" where
  "latest_heartbeat did h =
     (case sort_key (\<lambda>b. - hb_received_at b) (filter (\<lambda>b. hb_device_id b = did) (h_heartbeats h)) of [] \<Rightarrow> None | b # _ \<Rightarrow> Some b)"

definition prior_uptime :: "string \<Rightarrow> hub \<Rightarrow> pyval" where
  "prior_uptime did h = (case latest_heartbeat did h of None \<Rightarrow> VNone | Some b \<Rightarrow> dget (hb_columns b) ''uptime_seconds'')"

definition nonempty_list :: "pyval \<Rightarrow> pyval list option" where
  "nonempty_list v = (case v of VList (x # xs) \<Rightarrow> Some (x # xs) | _ \<Rightarrow> None)"

definition heartbeat_columns :: "pydict \<Rightarrow> pydict" where
  "heartbeat_columns p =
     map (\<lambda>k. (k, dget p k)) [''firmware_version'', ''local_ip'', ''mode'', ''relay_on'', ''wifi_connected'', ''health_state'',
         ''uptime_seconds'', ''incident_cycles'', ''hour_cycles'', ''last_event_type'']
     @ map (\<lambda>k. (k, dget p k)) (filter (dhas p) HEARTBEAT_STATUS_FIELDS)
     @ (case nonempty_list (dget p ''heap_trajectory'') of None \<Rightarrow> [] | Some traj \<Rightarrow> [(''heap_trajectory'', VList traj)])"

definition last_event_time :: "env \<Rightarrow> pydict \<Rightarrow> heartbeat_error + instant option" where
  "last_event_time E p = (case parse_ts E (dget p ''last_event_at'') of Inl _ \<Rightarrow> Inl HeartbeatAttributeError | Inr t \<Rightarrow> Inr t)"

section \<open>The current truth\<close>

fun column_bool :: "pyval \<Rightarrow> bool option" where
  "column_bool (VBool b) = Some b"
| "column_bool _ = None"

fun column_int :: "pyval \<Rightarrow> int option" where
  "column_int (VInt i) = Some i"
| "column_int _ = None"

definition set_reported :: "string \<Rightarrow> pyval \<Rightarrow> device \<Rightarrow> device" where
  "set_reported k w d =
     (if k = ''recovery_mode'' then d\<lparr>dev_reported_recovery_mode := column_bool w\<rparr>
      else if k = ''auto_recovery_triggered'' then d\<lparr>dev_reported_auto_recovery_triggered := column_bool w\<rparr>
      else if k = ''last_known_good_restored'' then d\<lparr>dev_reported_last_known_good_restored := column_bool w\<rparr>
      else if k = ''consecutive_unhealthy_boots'' then d\<lparr>dev_reported_consecutive_unhealthy_boots := column_int w\<rparr>
      else if k = ''in_captive_portal'' then d\<lparr>dev_reported_in_captive_portal := column_bool w\<rparr>
      else if k = ''central_enabled'' then d\<lparr>dev_reported_central_enabled := column_bool w\<rparr>
      else if k = ''central_registered'' then d\<lparr>dev_reported_central_registered := column_bool w\<rparr>
      else d\<lparr>dev_reported_central_state := column_text w\<rparr>)"

fun store_hot :: "column_store \<Rightarrow> pydict \<Rightarrow> string list \<Rightarrow> device \<Rightarrow> device option" where
  "store_hot D p [] d = Some d"
| "store_hot D p (k # ks) d =
     (if dhas p k
      then case store_value D (''devices.reported_'' @ k) (dget p k) of None \<Rightarrow> None | Some w \<Rightarrow> store_hot D p ks (set_reported k w d)
      else store_hot D p ks d)"

definition store_opt :: "column_store \<Rightarrow> string \<Rightarrow> pyval \<Rightarrow> string option \<Rightarrow> string option option" where
  "store_opt D column v old = (if truthy v then map_option column_text (D column v) else Some old)"

definition contacted :: "instant \<Rightarrow> device \<Rightarrow> device" where
  "contacted now d = d\<lparr>dev_last_heartbeat_at := Some now, dev_last_seen_at := Some now, dev_last_known_relay_on := None\<rparr>"

definition store_report :: "column_store \<Rightarrow> pydict \<Rightarrow> instant \<Rightarrow> device \<Rightarrow> device option" where
  "store_report D p now d =
     (case (store_opt D ''devices.firmware_version'' (dget p ''firmware_version'') (dev_firmware_version d),
            store_opt D ''devices.local_ip'' (dget p ''local_ip'') (dev_local_ip d)) of
        (Some fw, Some ip) \<Rightarrow>
          (let d1 = (contacted now d)\<lparr>dev_firmware_version := fw, dev_local_ip := ip\<rparr>;
               d2 = (case nonempty_list (dget p ''wifi_scan'') of None \<Rightarrow> d1
                     | Some scan \<Rightarrow> d1\<lparr>dev_last_wifi_scan := Some scan, dev_last_wifi_scan_at := Some now\<rparr>);
               d3 = (case dget p ''reported_config'' of VDict cfg \<Rightarrow> d2\<lparr>dev_last_reported_config := Some cfg\<rparr> | _ \<Rightarrow> d2)
           in store_hot D p DEVICE_HOT_FIELDS d3)
      | _ \<Rightarrow> None)"

text \<open>\<open>is True\<close> and \<open>is False\<close> test for the two objects, so a number is neither.\<close>

definition recovery_trigger :: "pydict \<Rightarrow> device \<Rightarrow> string option" where
  "recovery_trigger p d =
     (let restored = (if dhas p ''last_known_good_restored'' then dget p ''last_known_good_restored''
                      else of_opt_bool (dev_reported_last_known_good_restored d));
          recovering = (if dhas p ''recovery_mode'' then dget p ''recovery_mode'' else of_opt_bool (dev_reported_recovery_mode d))
      in if dev_reported_last_known_good_restored d \<noteq> Some True \<and> restored = VBool True then Some ''last_known_good_restored''
         else if dev_reported_recovery_mode d = Some True \<and> recovering = VBool False then Some ''recovery_exit''
         else None)"

section \<open>Reboots\<close>

definition rebooted :: "pyval \<Rightarrow> pyval \<Rightarrow> bool" where
  "rebooted prior new \<longleftrightarrow> is_int prior \<and> is_int new \<and> int_of new < int_of prior"

definition reboot_event :: "env \<Rightarrow> string \<Rightarrow> pyval \<Rightarrow> pydict \<Rightarrow> device_event" where
  "reboot_event E did prior p =
     (let new = dget p ''uptime_seconds'';
          why = (if truthy (dget p ''reset_reason'') then dget p ''reset_reason'' else VStr ''unknown'');
          planned = (if truthy (dget p ''last_planned_restart_reason'') then dget p ''last_planned_restart_reason'' else VStr [])
      in \<lparr>de_id = 0, de_device_id = did, de_type = ''device.rebooted'', de_timestamp = env_now E, de_received_at = env_now E, de_mode = VNone,
          de_message = VStr (''Device rebooted: prior uptime '' @ py_str E prior @ ''s, now '' @ py_str E new @ ''s, reset_reason='' @ py_str E why
            @ (if truthy planned then '', planned_reason='' @ py_str E planned else [])),
          de_details = VDict [(''prior_uptime_seconds'', prior), (''new_uptime_seconds'', new), (''reset_reason'', why),
            (''last_planned_restart_reason'', planned)]\<rparr>)"

section \<open>The event for the browsers\<close>

definition last_sample :: "pydict \<Rightarrow> string \<Rightarrow> pyval" where
  "last_sample p k =
     (case nonempty_list (dget p ''heap_trajectory'') of
        None \<Rightarrow> VNone
      | Some traj \<Rightarrow> (case last traj of VDict s \<Rightarrow> dget s k | _ \<Rightarrow> VNone))"

text \<open>An event of this kind keeps everything but its kind, device and time in the payload.\<close>

definition state_changed_event :: "string \<Rightarrow> instant \<Rightarrow> pydict \<Rightarrow> bus_event" where
  "state_changed_event did now known =
     \<lparr>ev_kind = ''device_state_changed'', ev_command_id = [], ev_device_id = did, ev_device_local_ip = None, ev_type = [],
      ev_payload = known, ev_created_at = now\<rparr>"

definition heartbeat_event :: "string \<Rightarrow> instant \<Rightarrow> device \<Rightarrow> pydict \<Rightarrow> bus_event" where
  "heartbeat_event did now d p = state_changed_event did now
     [(''local_ip'', if truthy (dget p ''local_ip'') then dget p ''local_ip'' else of_opt_str (dev_local_ip d)),
      (''latest_relay_on'', if dhas p ''relay_on'' then VBool (truthy (dget p ''relay_on'')) else VNone),
      (''uptime_seconds'', dget p ''uptime_seconds''), (''health_state'', dget p ''health_state''),
      (''wifi_rssi_dbm'', dget p ''wifi_rssi_dbm''), (''free_heap'', last_sample p ''fh''), (''max_free_block'', last_sample p ''mfb''),
      (''heap_fragmentation_pct'', last_sample p ''fp''), (''source'', VStr ''heartbeat'')]"

section \<open>Recording\<close>

text \<open>A bad power summary is logged and dropped; one that converts is written by the same flush as the heartbeat.\<close>

definition power_rows :: "nonfinite \<Rightarrow> string \<Rightarrow> instant \<Rightarrow> pydict \<Rightarrow> power_sample list" where
  "power_rows N did now p =
     (case dget p ''power'' of
        VDict r \<Rightarrow> (case ingest_power_summary N did r now of Inr (Some row) \<Rightarrow> [row] | _ \<Rightarrow> [])
      | _ \<Rightarrow> [])"

definition insert_heartbeat :: "column_store \<Rightarrow> string \<Rightarrow> instant \<Rightarrow> instant option \<Rightarrow> pydict \<Rightarrow> hub \<Rightarrow> hub option" where
  "insert_heartbeat D did now last_event columns h =
     map_option (\<lambda>stored. h\<lparr>h_heartbeats := tadd \<lparr>hb_id = h_row_seq h, hb_device_id = did, hb_received_at = now,
          hb_last_event_at = last_event, hb_columns = stored\<rparr> (h_heartbeats h), h_row_seq := h_row_seq h + 1\<rparr>)
       (store_columns D ''device_heartbeats'' columns)"

definition flush_heartbeat ::
  "env \<Rightarrow> column_store \<Rightarrow> nonfinite \<Rightarrow> string \<Rightarrow> instant option \<Rightarrow> pydict \<Rightarrow> device \<Rightarrow> hub \<Rightarrow> hub option" where
  "flush_heartbeat E D N did last_event p d h =
     (case store_report D p (env_now E) d of
        None \<Rightarrow> None
      | Some d1 \<Rightarrow>
          (case insert_heartbeat D did (env_now E) last_event (heartbeat_columns p) (modify_device did (\<lambda>_. d1) h) of
             None \<Rightarrow> None
           | Some h1 \<Rightarrow>
               (case insert_events D (if rebooted (prior_uptime did h) (dget p ''uptime_seconds'')
                                      then [reboot_event E did (prior_uptime did h) p] else []) h1 of
                  None \<Rightarrow> None
                | Some h2 \<Rightarrow> insert_samples D (power_rows N did (env_now E) p) h2)))"

definition record_heartbeat ::
  "env \<Rightarrow> column_store \<Rightarrow> nonfinite \<Rightarrow> string \<Rightarrow> pydict \<Rightarrow> ctx \<times> hub \<Rightarrow> heartbeat_error + (pydict \<times> ctx \<times> hub)" where
  "record_heartbeat E D N did p s =
     (case last_event_time E p of
        Inl e \<Rightarrow> Inl e
      | Inr last_event \<Rightarrow>
     (case get_device did (snd s) of
        None \<Rightarrow> Inl HeartbeatLookupError
      | Some d \<Rightarrow>
     (case reconcile_assignment_reported_version D did (dget p ''firmware_version'') (dget p ''health_state'') (env_now E) (snd s) of
        Inl e \<Rightarrow> Inl (HeartbeatReport e)
      | Inr h1 \<Rightarrow>
     (case flush_heartbeat E D N did last_event p d h1 of
        None \<Rightarrow> Inl HeartbeatRefused
      | Some h2 \<Rightarrow>
          (let (c3, h3) = (case recovery_trigger p d of
                 None \<Rightarrow> (fst s, h2)
               | Some trigger \<Rightarrow> snd (maybe_push_after_recovery E did trigger (fst s, h2)))
           in Inr ([(''recorded_at'', VStr (iso_z (env_now E)))], c3, publish (heartbeat_event did (env_now E) d p) h3))))))"

section \<open>What a recording leaves behind\<close>

lemma get_device_put:
  assumes "dev_id d1 = did" and "get_device did h \<noteq> None"
  shows "get_device did (modify_device did (\<lambda>_. d1) h) = Some d1"
proof -
  have "tget dev_id did rs \<noteq> None \<Longrightarrow> tget dev_id did (tupd dev_id did (\<lambda>_. d1) rs) = Some d1" for rs
    using assms(1) by (induction rs) (auto simp: tupd_def split: if_splits)
  then show ?thesis using assms(2) by (simp add: get_device_def modify_device_def)
qed

lemma enqueue_config_keeps:
  assumes "enqueue_for_device gen now did ''apply_config'' p uid ttl gid ov False h = Inr (c, h')" and "get_device did h = Some d"
  shows "get_device did h' = Some d"
proof -
  have "get_device did h' = Some (apply_hold_off False ''apply_config'' d)"
    using enqueue_for_device_spec [OF assms(1)] assms(2) by auto
  then show ?thesis by (simp add: apply_hold_off_def POWER_ON_TYPES_def)
qed

text \<open>The configuration pushed after a recovery touches only the time of the push in the device's row.\<close>

lemma push_keeps:
  assumes "push_desired_config E i source uid h = Inr (r, h')" and "get_device i h = Some d"
  shows "\<exists>t. get_device i h' = Some (d\<lparr>dev_last_config_pushed_at := t\<rparr>)"
proof -
  have "h' = h \<or> (\<exists>c h1 q. enqueue_for_device (env_ulid E) (env_now E) i ''apply_config'' (Some q) uid (Some 600) None False False h = Inr (c, h1)
      \<and> h' = modify_device i (\<lambda>d. d\<lparr>dev_last_config_pushed_at := Some (env_now E)\<rparr>) h1)"
    using assms by (auto simp: push_desired_config_def split: if_splits option.splits sum.splits)
  then show ?thesis
  proof (elim disjE exE conjE)
    assume "h' = h"
    then show ?thesis using assms(2) by (intro exI [of _ "dev_last_config_pushed_at d"]) simp
  next
    fix c h1 q
    assume enq: "enqueue_for_device (env_ulid E) (env_now E) i ''apply_config'' (Some q) uid (Some 600) None False False h = Inr (c, h1)"
      and h': "h' = modify_device i (\<lambda>d. d\<lparr>dev_last_config_pushed_at := Some (env_now E)\<rparr>) h1"
    show ?thesis using enqueue_config_keeps [OF enq assms(2)] by (auto simp: h' get_device_modify_field)
  qed
qed

lemma maybe_push_keeps:
  assumes "get_device i (snd s) = Some d"
  shows "\<exists>t. get_device i (snd (snd (maybe_push_after_recovery E i trigger s))) = Some (d\<lparr>dev_last_config_pushed_at := t\<rparr>)"
proof -
  have same: "\<exists>t. get_device i (snd s) = Some (d\<lparr>dev_last_config_pushed_at := t\<rparr>)"
    using assms by (intro exI [of _ "dev_last_config_pushed_at d"]) simp
  show ?thesis
  proof (cases "get_desired_config i (snd s) = None \<or> \<not> is_feature_enabled E (fst s) (snd s)")
    case True
    then show ?thesis using same by (auto simp: maybe_push_after_recovery_def split: option.splits)
  next
    case False
    then obtain cfg where cfg: "get_desired_config i (snd s) = Some cfg" "is_feature_enabled E (fst s) (snd s)" by auto
    show ?thesis
    proof (cases "push_desired_config E i ''restore'' None (snd s)")
      case (Inl e)
      then show ?thesis using same cfg by (simp add: maybe_push_after_recovery_def)
    next
      case (Inr p)
      obtain r h1 where p: "p = (r, h1)" by (cases p)
      obtain t where t: "get_device i h1 = Some (d\<lparr>dev_last_config_pushed_at := t\<rparr>)" using push_keeps [OF Inr [unfolded p] assms] by blast
      obtain c' where "audit_record E ''device.recovery_config_pushed'' None None (Some ''device'') (Some i)
          [(''trigger'', VStr trigger), (''command_id'', of_opt_str (pr_command_id r)), (''pushed_fields'', VList (map VStr (sort (map fst cfg))))] None (fst s, h1)
        = (c', h1\<lparr>h_audit := h_audit h1 @ [build_event E (fst s) ''device.recovery_config_pushed'' None None (Some ''device'') (Some i)
          [(''trigger'', VStr trigger), (''command_id'', of_opt_str (pr_command_id r)), (''pushed_fields'', VList (map VStr (sort (map fst cfg))))] None]\<rparr>)"
        by (rule audit_recordE)
      then show ?thesis using t cfg Inr p by (auto simp: maybe_push_after_recovery_def get_device_def)
    qed
  qed
qed

lemma insert_events_effect:
  "insert_events D es h = Some h' \<Longrightarrow> \<exists>xs n. h' = h\<lparr>h_device_events := h_device_events h @ xs, h_row_seq := n\<rparr>
    \<and> list_all2 (\<lambda>e x. de_device_id x = de_device_id e \<and> de_type x = de_type e \<and> de_timestamp x = de_timestamp e
         \<and> de_received_at x = de_received_at e \<and> de_details x = de_details e) es xs"
proof (induction es arbitrary: h)
  case Nil
  then show ?case by (intro exI [of _ "[]"] exI [of _ "h_row_seq h"]) simp
next
  case (Cons e es)
  obtain y where y: "store_event D e = Some y"
    and rest: "insert_events D es (h\<lparr>h_device_events := tadd (y\<lparr>de_id := h_row_seq h\<rparr>) (h_device_events h), h_row_seq := h_row_seq h + 1\<rparr>) = Some h'"
    using Cons.prems by (auto split: if_splits option.splits)
  obtain xs n where xs: "h' = h\<lparr>h_device_events := (h_device_events h @ [y\<lparr>de_id := h_row_seq h\<rparr>]) @ xs, h_row_seq := n\<rparr>"
    and all: "list_all2 (\<lambda>e x. de_device_id x = de_device_id e \<and> de_type x = de_type e \<and> de_timestamp x = de_timestamp e
         \<and> de_received_at x = de_received_at e \<and> de_details x = de_details e) es xs"
    using Cons.IH [OF rest] by (auto simp: tadd_def)
  obtain m t where "y = e\<lparr>de_mode := m, de_message := t\<rparr>" using y by (auto simp: store_event_def split: option.splits)
  then have "de_device_id y = de_device_id e \<and> de_type y = de_type e \<and> de_timestamp y = de_timestamp e
      \<and> de_received_at y = de_received_at e \<and> de_details y = de_details e"
    by simp
  then show ?case using xs all by (intro exI [of _ "y\<lparr>de_id := h_row_seq h\<rparr> # xs"] exI [of _ n]) simp
qed

lemma insert_samples_effect:
  "insert_samples D ps h = Some h' \<Longrightarrow> \<exists>xs n. h' = h\<lparr>h_power_samples := h_power_samples h @ xs, h_row_seq := n\<rparr> \<and> length xs = length ps"
proof (induction ps arbitrary: h)
  case Nil
  then show ?case by (intro exI [of _ "[]"] exI [of _ "h_row_seq h"]) simp
next
  case (Cons p ps)
  obtain y where rest: "insert_samples D ps (h\<lparr>h_power_samples := tadd (y\<lparr>ps_id := h_row_seq h\<rparr>) (h_power_samples h), h_row_seq := h_row_seq h + 1\<rparr>) = Some h'"
    using Cons.prems by (auto split: if_splits option.splits)
  obtain xs n where xs: "h' = h\<lparr>h_power_samples := (h_power_samples h @ [y\<lparr>ps_id := h_row_seq h\<rparr>]) @ xs, h_row_seq := n\<rparr>" and len: "length xs = length ps"
    using Cons.IH [OF rest] by (auto simp: tadd_def)
  then show ?case by (intro exI [of _ "y\<lparr>ps_id := h_row_seq h\<rparr> # xs"] exI [of _ n]) simp
qed

lemma set_reported_id: "dev_id (set_reported k w d) = dev_id d"
  by (simp add: set_reported_def)

lemma store_hot_id: "store_hot D p ks d = Some d1 \<Longrightarrow> dev_id d1 = dev_id d"
  by (induction D p ks d rule: store_hot.induct) (auto simp: set_reported_id split: if_splits option.splits)

text \<open>The mirrored fields of a device, by name.\<close>

definition hot_field :: "device \<Rightarrow> string \<Rightarrow> pyval" where
  "hot_field d k =
     (if k = ''recovery_mode'' then of_opt_bool (dev_reported_recovery_mode d)
      else if k = ''auto_recovery_triggered'' then of_opt_bool (dev_reported_auto_recovery_triggered d)
      else if k = ''last_known_good_restored'' then of_opt_bool (dev_reported_last_known_good_restored d)
      else if k = ''consecutive_unhealthy_boots'' then of_opt_int (dev_reported_consecutive_unhealthy_boots d)
      else if k = ''in_captive_portal'' then of_opt_bool (dev_reported_in_captive_portal d)
      else if k = ''central_enabled'' then of_opt_bool (dev_reported_central_enabled d)
      else if k = ''central_registered'' then of_opt_bool (dev_reported_central_registered d)
      else of_opt_str (dev_reported_central_state d))"

lemma hot_cases:
  "k \<in> set DEVICE_HOT_FIELDS \<longleftrightarrow> k = ''recovery_mode'' \<or> k = ''auto_recovery_triggered'' \<or> k = ''last_known_good_restored''
    \<or> k = ''consecutive_unhealthy_boots'' \<or> k = ''in_captive_portal'' \<or> k = ''central_enabled'' \<or> k = ''central_registered'' \<or> k = ''central_state''"
  unfolding DEVICE_HOT_FIELDS_def by (simp only: list.set insert_iff empty_iff simp_thms)

lemma hot_field_other:
  assumes "k \<in> set DEVICE_HOT_FIELDS" and k': "k' \<in> set DEVICE_HOT_FIELDS" and ne: "k \<noteq> k'"
  shows "hot_field (set_reported k w d) k' = hot_field d k'"
proof (cases "k = ''central_state''")
  case True
  have s: "set_reported k w d = d\<lparr>dev_reported_central_state := column_text w\<rparr>" by (simp add: set_reported_def True)
  show ?thesis unfolding s using k' ne True unfolding hot_cases by (elim disjE) (simp_all add: hot_field_def)
next
  case False
  then have "k = ''recovery_mode'' \<or> k = ''auto_recovery_triggered'' \<or> k = ''last_known_good_restored''
    \<or> k = ''consecutive_unhealthy_boots'' \<or> k = ''in_captive_portal'' \<or> k = ''central_enabled'' \<or> k = ''central_registered''"
    using assms(1) unfolding hot_cases by argo
  then show ?thesis
    using ne by (elim disjE; simp add: hot_field_def set_reported_def not_sym [OF ne] cong: if_cong split del: if_split)
qed

lemma store_hot_keeps:
  "store_hot D p ks d = Some d1 \<Longrightarrow> set ks \<subseteq> set DEVICE_HOT_FIELDS \<Longrightarrow> k \<in> set DEVICE_HOT_FIELDS \<Longrightarrow> \<not> dhas p k
   \<Longrightarrow> hot_field d1 k = hot_field d k"
proof (induction D p ks d rule: store_hot.induct)
  case (2 D p j ks d)
  show ?case
  proof (cases "dhas p j")
    case True
    then obtain w where w: "store_value D (''devices.reported_'' @ j) (dget p j) = Some w" "store_hot D p ks (set_reported j w d) = Some d1"
      using 2(3) by (auto split: option.splits)
    have "hot_field d1 k = hot_field (set_reported j w d) k" using 2(1) [OF True w(1) w(2)] 2(4-6) by simp
    moreover have "j \<noteq> k" using True 2(6) by auto
    ultimately show ?thesis using hot_field_other [of j k] 2(4,5) by simp
  next
    case False
    then show ?thesis using 2(2) [OF False] 2(3-6) by simp
  qed
qed simp

lemma set_reported_contact:
  "dev_last_heartbeat_at (set_reported k w d) = dev_last_heartbeat_at d" "dev_last_seen_at (set_reported k w d) = dev_last_seen_at d"
  "dev_last_known_relay_on (set_reported k w d) = dev_last_known_relay_on d"
  by (simp_all add: set_reported_def)

lemma store_hot_contact:
  "store_hot D p ks d = Some d1 \<Longrightarrow> dev_last_heartbeat_at d1 = dev_last_heartbeat_at d \<and> dev_last_seen_at d1 = dev_last_seen_at d
    \<and> dev_last_known_relay_on d1 = dev_last_known_relay_on d"
  by (induction D p ks d rule: store_hot.induct) (auto simp: set_reported_contact split: if_splits option.splits)

lemma store_report_facts:
  assumes "store_report D p now d = Some d1"
  shows "dev_id d1 = dev_id d" and "dev_last_heartbeat_at d1 = Some now" and "dev_last_seen_at d1 = Some now"
    and "dev_last_known_relay_on d1 = None"
    and "k \<in> set DEVICE_HOT_FIELDS \<Longrightarrow> \<not> dhas p k \<Longrightarrow> hot_field d1 k = hot_field d k"
proof -
  obtain fw ip where fi: "store_opt D ''devices.firmware_version'' (dget p ''firmware_version'') (dev_firmware_version d) = Some fw"
      "store_opt D ''devices.local_ip'' (dget p ''local_ip'') (dev_local_ip d) = Some ip"
    using assms by (auto simp: store_report_def split: option.splits)
  let ?d1 = "(contacted now d)\<lparr>dev_firmware_version := fw, dev_local_ip := ip\<rparr>"
  let ?d2 = "case nonempty_list (dget p ''wifi_scan'') of None \<Rightarrow> ?d1 | Some scan \<Rightarrow> ?d1\<lparr>dev_last_wifi_scan := Some scan, dev_last_wifi_scan_at := Some now\<rparr>"
  define d3 where "d3 = (case dget p ''reported_config'' of VDict cfg \<Rightarrow> ?d2\<lparr>dev_last_reported_config := Some cfg\<rparr> | _ \<Rightarrow> ?d2)"
  have st: "store_hot D p DEVICE_HOT_FIELDS d3 = Some d1"
    using assms unfolding store_report_def fi option.case prod.case Let_def d3_def by simp
  have d3: "dev_id d3 = dev_id d \<and> dev_last_heartbeat_at d3 = Some now \<and> dev_last_seen_at d3 = Some now \<and> dev_last_known_relay_on d3 = None
      \<and> (\<forall>k. hot_field d3 k = hot_field d k)"
    unfolding d3_def by (simp add: contacted_def hot_field_def split: pyval.splits option.splits)
  show "dev_id d1 = dev_id d" "dev_last_heartbeat_at d1 = Some now" "dev_last_seen_at d1 = Some now" "dev_last_known_relay_on d1 = None"
    using d3 store_hot_id [OF st] store_hot_contact [OF st] by simp_all
  show "hot_field d1 k = hot_field d k" if "k \<in> set DEVICE_HOT_FIELDS" "\<not> dhas p k"
    using store_hot_keeps [OF st _ that] d3 by simp
qed

lemma reconcile_keeps:
  assumes "reconcile_assignment_reported_version D did v m now h = Inr h'"
  shows "\<exists>a. h' = h\<lparr>h_assignments := a\<rparr>"
proof (rule reconcile_cases [OF assms])
  assume "h' = h"
  then show ?thesis by (intro exI [of _ "h_assignments h"]) simp
qed (auto simp: modify_assignment_def)

lemma enqueue_keeps_history:
  assumes "enqueue_for_device gen now did ty p uid ttl gid ov hold h = Inr (c, h')"
  shows "h_device_events h' = h_device_events h"
  using assms by (auto simp: enqueue_for_device_def Let_def put_command_def modify_device_def publish_def split: if_splits sum.splits option.splits)

lemma push_keeps_history:
  "push_desired_config E i source uid h = Inr (r, h') \<Longrightarrow> h_device_events h' = h_device_events h"
  by (auto simp: push_desired_config_def modify_device_def dest!: enqueue_keeps_history split: if_splits option.splits sum.splits)

lemma maybe_push_keeps_history:
  "h_device_events (snd (snd (maybe_push_after_recovery E i trigger s))) = h_device_events (snd s)"
proof -
  have a: "h_device_events (snd (audit_record E action u e t k details ip (c, h))) = h_device_events h" for action u e t k details ip c h
    by (rule audit_recordE [of E action u e t k details ip c h]) simp
  show ?thesis
    by (auto simp: maybe_push_after_recovery_def a dest!: push_keeps_history split: option.splits sum.splits)
qed

lemma flush_effect:
  assumes "flush_heartbeat E D N did t p d h = Some h2" and "get_device did h = Some d"
  obtains d1 xs where "store_report D p (env_now E) d = Some d1" and "get_device did h2 = Some d1"
    and "h_device_events h2 = h_device_events h @ xs"
    and "list_all2 (\<lambda>e x. de_device_id x = de_device_id e \<and> de_type x = de_type e \<and> de_timestamp x = de_timestamp e
         \<and> de_received_at x = de_received_at e \<and> de_details x = de_details e)
       (if rebooted (prior_uptime did h) (dget p ''uptime_seconds'') then [reboot_event E did (prior_uptime did h) p] else []) xs"
proof -
  let ?evs = "if rebooted (prior_uptime did h) (dget p ''uptime_seconds'') then [reboot_event E did (prior_uptime did h) p] else []"
  obtain d1 h0 h1 where d1: "store_report D p (env_now E) d = Some d1"
    and h0: "insert_heartbeat D did (env_now E) t (heartbeat_columns p) (modify_device did (\<lambda>_. d1) h) = Some h0"
    and h1: "insert_events D ?evs h0 = Some h1"
    and h2: "insert_samples D (power_rows N did (env_now E) p) h1 = Some h2"
    using assms(1) by (auto simp: flush_heartbeat_def split: option.splits)
  have id: "dev_id d1 = did" using store_report_facts(1) [OF d1] assms(2) tget_SomeD [of dev_id] by (auto simp: get_device_def)
  have dev0: "h_devices h0 = h_devices (modify_device did (\<lambda>_. d1) h)" and ev0: "h_device_events h0 = h_device_events h"
    using h0 by (auto simp: insert_heartbeat_def modify_device_def)
  obtain xs n where xs: "h1 = h0\<lparr>h_device_events := h_device_events h0 @ xs, h_row_seq := n\<rparr>"
    "list_all2 (\<lambda>e x. de_device_id x = de_device_id e \<and> de_type x = de_type e \<and> de_timestamp x = de_timestamp e
         \<and> de_received_at x = de_received_at e \<and> de_details x = de_details e) ?evs xs"
    using insert_events_effect [OF h1] by blast
  obtain ys m where ys: "h2 = h1\<lparr>h_power_samples := h_power_samples h1 @ ys, h_row_seq := m\<rparr>" using insert_samples_effect [OF h2] by blast
  have g: "get_device did h2 = Some d1"
    using get_device_put [OF id, of h] assms(2) dev0 by (simp add: ys xs(1) get_device_def)
  show thesis by (rule that [OF d1 g _ xs(2)]) (simp add: ys xs(1) ev0)
qed

lemma record_heartbeat_shape:
  assumes "record_heartbeat E D N did p (c, h) = Inr (out, c', h')"
  obtains d d1 t xs where "get_device did h = Some d" and "store_report D p (env_now E) d = Some d1"
    and "get_device did h' = Some (d1\<lparr>dev_last_config_pushed_at := t\<rparr>)"
    and "h_device_events h' = h_device_events h @ xs"
    and "list_all2 (\<lambda>e x. de_device_id x = de_device_id e \<and> de_type x = de_type e \<and> de_timestamp x = de_timestamp e
         \<and> de_received_at x = de_received_at e \<and> de_details x = de_details e)
       (if rebooted (prior_uptime did h) (dget p ''uptime_seconds'') then [reboot_event E did (prior_uptime did h) p] else []) xs"
proof -
  obtain le d h1 h2 where d: "get_device did h = Some d"
    and rec: "reconcile_assignment_reported_version D did (dget p ''firmware_version'') (dget p ''health_state'') (env_now E) h = Inr h1"
    and fl: "flush_heartbeat E D N did le p d h1 = Some h2"
    and h': "h' = publish (heartbeat_event did (env_now E) d p) (snd (case recovery_trigger p d of None \<Rightarrow> (c, h2)
               | Some trigger \<Rightarrow> snd (maybe_push_after_recovery E did trigger (c, h2))))"
    using assms by (auto simp: record_heartbeat_def Let_def split: sum.splits option.splits prod.splits)
  obtain as where as: "h1 = h\<lparr>h_assignments := as\<rparr>" using reconcile_keeps [OF rec] by blast
  have d_h1: "get_device did h1 = Some d" using d by (simp add: as get_device_def)
  have pu: "prior_uptime did h1 = prior_uptime did h" by (simp add: as prior_uptime_def latest_heartbeat_def)
  obtain d1 xs where d1: "store_report D p (env_now E) d = Some d1" and g2: "get_device did h2 = Some d1"
    and ev: "h_device_events h2 = h_device_events h1 @ xs"
    and all: "list_all2 (\<lambda>e x. de_device_id x = de_device_id e \<and> de_type x = de_type e \<and> de_timestamp x = de_timestamp e
         \<and> de_received_at x = de_received_at e \<and> de_details x = de_details e)
       (if rebooted (prior_uptime did h1) (dget p ''uptime_seconds'') then [reboot_event E did (prior_uptime did h1) p] else []) xs"
    by (rule flush_effect [OF fl d_h1])
  have "\<exists>t. get_device did h' = Some (d1\<lparr>dev_last_config_pushed_at := t\<rparr>)"
  proof (cases "recovery_trigger p d")
    case None
    then show ?thesis using g2 by (intro exI [of _ "dev_last_config_pushed_at d1"]) (simp add: h')
  next
    case (Some trigger)
    then show ?thesis using maybe_push_keeps [of did "(c, h2)" d1 E trigger] g2 by (simp add: h')
  qed
  then obtain t where t: "get_device did h' = Some (d1\<lparr>dev_last_config_pushed_at := t\<rparr>)" by blast
  have "h_device_events h' = h_device_events h @ xs"
    using ev by (simp add: h' as publish_def maybe_push_keeps_history split: option.splits)
  then show thesis using that [OF d d1 t _ all [unfolded pu]] by blast
qed

text \<open>C29: after a recorded heartbeat the device counts as online, whatever its clock says and whatever the threshold is; the hint of
  the last relay confirmation is gone; and every mirrored status field the report does not mention keeps its last known value.\<close>
theorem heartbeat_refreshes_truth:
  assumes "record_heartbeat E D N did p (c, h) = Inr (out, c', h')" and "0 < threshold"
  shows "\<exists>d d'. get_device did h = Some d \<and> get_device did h' = Some d'
    \<and> heartbeat_state_for (dev_last_heartbeat_at d') (env_now E) threshold (dev_last_seen_at d') = Online
    \<and> dev_last_known_relay_on d' = None
    \<and> (\<forall>k \<in> set DEVICE_HOT_FIELDS. \<not> dhas p k \<longrightarrow> hot_field d' k = hot_field d k)"
proof -
  obtain d d1 t xs where d: "get_device did h = Some d" and d1: "store_report D p (env_now E) d = Some d1"
    and g: "get_device did h' = Some (d1\<lparr>dev_last_config_pushed_at := t\<rparr>)"
    by (rule record_heartbeat_shape [OF assms(1)])
  note f = store_report_facts [OF d1]
  have h: "hot_field (d1\<lparr>dev_last_config_pushed_at := t\<rparr>) k = hot_field d1 k" for k by (simp add: hot_field_def)
  show ?thesis
    using d g f assms(2) by (intro exI [of _ d] exI [of _ "d1\<lparr>dev_last_config_pushed_at := t\<rparr>"]) (simp add: h heartbeat_state_for_def effective_last_contact_def secs_def)
qed

text \<open>a heartbeat writes a reboot into the device's history exactly when its uptime is below the one of the device's latest
  recorded heartbeat, with both uptimes in the details, and nothing else.\<close>
theorem reboot_recorded:
  assumes "record_heartbeat E D N did p (c, h) = Inr (out, c', h')"
  shows "(if rebooted (prior_uptime did h) (dget p ''uptime_seconds'')
      then (\<exists>e. h_device_events h' = h_device_events h @ [e] \<and> de_device_id e = did \<and> de_type e = ''device.rebooted'' \<and> de_timestamp e = env_now E
              \<and> dget (dict_of (de_details e)) ''prior_uptime_seconds'' = prior_uptime did h
              \<and> dget (dict_of (de_details e)) ''new_uptime_seconds'' = dget p ''uptime_seconds'')
      else h_device_events h' = h_device_events h)"
proof -
  obtain d d1 t xs where ev: "h_device_events h' = h_device_events h @ xs"
    and all: "list_all2 (\<lambda>e x. de_device_id x = de_device_id e \<and> de_type x = de_type e \<and> de_timestamp x = de_timestamp e
         \<and> de_received_at x = de_received_at e \<and> de_details x = de_details e)
       (if rebooted (prior_uptime did h) (dget p ''uptime_seconds'') then [reboot_event E did (prior_uptime did h) p] else []) xs"
    by (rule record_heartbeat_shape [OF assms])
  show ?thesis
  proof (cases "rebooted (prior_uptime did h) (dget p ''uptime_seconds'')")
    case True
    then obtain e where xs: "xs = [e]" and e: "de_device_id e = de_device_id (reboot_event E did (prior_uptime did h) p)"
        "de_type e = de_type (reboot_event E did (prior_uptime did h) p)" "de_timestamp e = de_timestamp (reboot_event E did (prior_uptime did h) p)"
        "de_details e = de_details (reboot_event E did (prior_uptime did h) p)"
      using all by (auto simp: list_all2_Cons1)
    show ?thesis unfolding if_P [OF True] by (intro exI [of _ e]) (simp add: ev xs e reboot_event_def Let_def dget_def)
  next
    case False
    then show ?thesis using all ev by simp
  qed
qed

section \<open>A device that reports\<close>

definition beat :: pydict where
  "beat = [(''uptime_seconds'', VInt 5), (''relay_on'', VBool True), (''recovery_mode'', VBool False)]"

definition beat_hub :: hub where
  "beat_hub = demo_hub\<lparr>h_heartbeats := [\<lparr>hb_id = 1, hb_device_id = ''d1'', hb_received_at = 0, hb_last_event_at = None,
     hb_columns = [(''uptime_seconds'', VInt 90)]\<rparr>], h_row_seq := 2\<rparr>"

lemma record_heartbeat_succeeds:
  assumes "last_event_time E p = Inr t" and "get_device did h = Some d"
    and "reconcile_assignment_reported_version D did (dget p ''firmware_version'') (dget p ''health_state'') (env_now E) h = Inr h1"
    and "flush_heartbeat E D N did t p d h1 \<noteq> None"
  shows "\<exists>out c' h'. record_heartbeat E D N did p (c, h) = Inr (out, c', h')"
  using assms by (auto simp: record_heartbeat_def Let_def split: prod.splits option.splits)

lemma beat_recorded: "\<exists>out c' h'. record_heartbeat deploy_env (\<lambda>_. Some) (\<lambda>_. VNone) ''d1'' beat (scope_ctx None, beat_hub) = Inr (out, c', h')"
proof (rule record_heartbeat_succeeds)
  show "last_event_time deploy_env beat = Inr None" by code_simp
  show g: "get_device ''d1'' beat_hub = Some (new_device ''d1'' ''Router'' 0)" by (simp add: beat_hub_def get_device_def demo_defs)
  show "reconcile_assignment_reported_version (\<lambda>_. Some) ''d1'' (dget beat ''firmware_version'') (dget beat ''health_state'') (env_now deploy_env) beat_hub = Inr beat_hub"
    by (simp add: reconcile_assignment_reported_version_def beat_def dget_def strip_or_raise_def newest_assignment_def beat_hub_def demo_defs)
  have "flush_heartbeat deploy_env (\<lambda>_. Some) (\<lambda>_. VNone) ''d1'' None beat (the (get_device ''d1'' beat_hub)) beat_hub \<noteq> None" by code_simp
  then show "flush_heartbeat deploy_env (\<lambda>_. Some) (\<lambda>_. VNone) ''d1'' None beat (new_device ''d1'' ''Router'' 0) beat_hub \<noteq> None" by (simp add: g)
qed

theorem heartbeat_refreshes_truth_witness:
  "\<exists>h' d'. get_device ''d1'' h' = Some d' \<and> heartbeat_state_for (dev_last_heartbeat_at d') (env_now deploy_env) 180 (dev_last_seen_at d') = Online"
proof -
  obtain out c' h' where "record_heartbeat deploy_env (\<lambda>_. Some) (\<lambda>_. VNone) ''d1'' beat (scope_ctx None, beat_hub) = Inr (out, c', h')"
    using beat_recorded by blast
  from heartbeat_refreshes_truth [OF this, of 180] show ?thesis by auto
qed

theorem reboot_recorded_witness: "\<exists>(h' :: hub) e. h_device_events h' = [e] \<and> de_type e = ''device.rebooted''"
proof -
  obtain out c' h' where run: "record_heartbeat deploy_env (\<lambda>_. Some) (\<lambda>_. VNone) ''d1'' beat (scope_ctx None, beat_hub) = Inr (out, c', h')"
    using beat_recorded by blast
  have r: "rebooted (prior_uptime ''d1'' beat_hub) (dget beat ''uptime_seconds'')" by code_simp
  have "h_device_events beat_hub = []" by (simp add: beat_hub_def demo_defs)
  then obtain e where "h_device_events h' = [e]" "de_type e = ''device.rebooted''"
    using reboot_recorded [OF run] unfolding if_P [OF r] by auto
  then show ?thesis by blast
qed

end
