(* ===== verification/DeviceApi.thy ===== *)
theory DeviceApi
  imports Heartbeats Announcements
begin

text \<open>
  The API the devices call (\<open>app/blueprints/device_api.py\<close>), behind the authentication of \<open>Enrollment\<close>: registration, the
  heartbeat with the commands that ride on its reply, the long poll for commands, command results, events and
  failsafe reports; and the log of callers that could not be authenticated (\<open>app/services/unregistered.py\<close>). A JSON body is
  a value: an empty one counts as the empty object, and one of another type has no \<open>get\<close>. \<open>DeviceCrash\<close> is the 500 of an
  exception no handler catches; it leaves the state alone.
\<close>

record api_settings =
  api_poll_interval :: int
  api_heartbeat_interval :: int

datatype device_reply = DeviceErr string nat | DeviceOk pydict nat | DeviceCrash

definition body_dict :: "pyval \<Rightarrow> pydict option" where
  "body_dict b = (if \<not> truthy b then Some [] else case b of VDict d \<Rightarrow> Some d | _ \<Rightarrow> None)"

text \<open>\<open>body_id and body_id != device.id\<close>.\<close>

definition mismatched :: "pydict \<Rightarrow> string \<Rightarrow> bool" where
  "mismatched body did \<longleftrightarrow> truthy (dget body ''device_id'') \<and> dget body ''device_id'' \<noteq> VStr did"

section \<open>Registration\<close>

definition register_status :: "string \<Rightarrow> nat" where
  "register_status code =
     (if code = ''enrollment_expired'' then 410
      else if code = ''enrollment_consumed'' \<or> code = ''device_already_registered'' then 409 else 400)"

definition register ::
  "env \<Rightarrow> crypto \<Rightarrow> string \<Rightarrow> api_settings \<Rightarrow> pyval \<Rightarrow> ctx \<times> hub \<Rightarrow> device_reply \<times> ctx \<times> hub" where
  "register E K rnd cfg raw s =
     (case body_dict raw of
        None \<Rightarrow> (DeviceCrash, s)
      | Some body \<Rightarrow>
          (if \<not> truthy (dget body ''enrollment_token'') then (DeviceErr ''validation_failed'' 400, s)
           else case dget body ''enrollment_token'' of
             VStr token \<Rightarrow>
               (case consume_enrollment_token E K rnd token body s of
                  Inl (EnrollmentError code _) \<Rightarrow> (DeviceErr code (register_status code), s)
                | Inl _ \<Rightarrow> (DeviceCrash, s)
                | Inr (d, secret, s1) \<Rightarrow>
                    (DeviceOk [(''device_id'', VStr (dev_id d)), (''device_token'', VStr secret),
                               (''poll_interval_seconds'', VInt (api_poll_interval cfg)),
                               (''heartbeat_interval_seconds'', VInt (api_heartbeat_interval cfg)),
                               (''server_time'', VStr (iso_z (env_now E)))] 201, s1))
           | _ \<Rightarrow> ((if check_registration body = None then DeviceCrash else DeviceErr ''validation_failed'' 400), s)))"

section \<open>Heartbeats\<close>

definition POST_PIGGYBACK_GRACE_S :: int where "POST_PIGGYBACK_GRACE_S = 10"

definition deliver_pending :: "instant \<Rightarrow> string \<Rightarrow> hub \<Rightarrow> command list \<times> hub" where
  "deliver_pending now did h = list_pending_for_device now did True (Some POST_PIGGYBACK_GRACE_S) h"

definition command_dict :: "command \<Rightarrow> pyval" where
  "command_dict c =
     VDict [(''command_id'', VStr (c_id c)), (''type'', VStr (c_type c)), (''created_at'', VStr (iso_z (c_created_at c))),
            (''expires_at'', VStr (iso_z (c_expires_at c))), (''payload'', VDict (c_payload c))]"

definition next_poll :: "int \<Rightarrow> command list \<Rightarrow> int" where
  "next_poll configured cmds = (if cmds \<noteq> [] then 2 else if configured = 30 then 300 else configured)"

definition heartbeat_route ::
  "env \<Rightarrow> column_store \<Rightarrow> nonfinite \<Rightarrow> api_settings \<Rightarrow> string \<Rightarrow> pyval \<Rightarrow> ctx \<times> hub \<Rightarrow> device_reply \<times> ctx \<times> hub" where
  "heartbeat_route E D N cfg did raw s =
     (case body_dict raw of
        None \<Rightarrow> (DeviceCrash, s)
      | Some body \<Rightarrow>
          (if mismatched body did then (DeviceErr ''device_mismatch'' 400, s)
           else case record_heartbeat E D N did body s of
             Inl HeartbeatLookupError \<Rightarrow> (DeviceErr ''device_unknown'' 404, s)
           | Inl (HeartbeatReport ReportLookupError) \<Rightarrow> (DeviceErr ''device_unknown'' 404, s)
           | Inl _ \<Rightarrow> (DeviceCrash, s)
           | Inr (_, c1, h1) \<Rightarrow>
               (let (cmds, h2) = deliver_pending (env_now E) did h1
                in (DeviceOk [(''next_poll_after_seconds'', VInt (next_poll (api_poll_interval cfg) cmds)),
                              (''next_heartbeat_after_seconds'', VInt (api_heartbeat_interval cfg)),
                              (''pending_commands'', VList (map command_dict cmds))] 200, c1, h2))))"

section \<open>The long poll\<close>

definition LONG_POLL_MAX_WAIT_SECONDS :: int where "LONG_POLL_MAX_WAIT_SECONDS = 30"

definition strip_quotes :: "string \<Rightarrow> string" where
  "strip_quotes s = rev (dropWhile (\<lambda>c. c = CHR 0x22) (rev (dropWhile (\<lambda>c. c = CHR 0x22) s)))"

definition wait_token :: "string \<Rightarrow> string option" where
  "wait_token part =
     (let t = py_lower (py_strip part) in
      if starts_with t ''wait='' then Some (strip_quotes (py_strip (drop 5 t))) else None)"

definition parse_prefer_wait :: "string option \<Rightarrow> int" where
  "parse_prefer_wait header =
     (case header of
        None \<Rightarrow> 0
      | Some text \<Rightarrow>
          (if text = [] then 0
           else case filter (\<lambda>t. t \<noteq> None) (map wait_token (split_on (CHR '','') text)) of
             Some v # _ \<Rightarrow> (case int_of_string v of None \<Rightarrow> 0 | Some n \<Rightarrow> if n < 0 then 0 else min n LONG_POLL_MAX_WAIT_SECONDS)
           | _ \<Rightarrow> 0))"

text \<open>
  What happens while the request is held: the monotonic clock when the deadline is set and at each round, the wall clock and the other requests' effect on the hub at
  each round. \<open>None\<close> means that the rounds allowed by the first argument did not suffice.
\<close>

record surroundings =
  sur_start :: rat
  sur_monotonic :: "nat \<Rightarrow> rat"
  sur_wall :: "nat \<Rightarrow> instant"
  sur_others :: "nat \<Rightarrow> hub \<Rightarrow> hub"

fun hold_open :: "nat \<Rightarrow> surroundings \<Rightarrow> rat \<Rightarrow> string \<Rightarrow> nat \<Rightarrow> hub \<Rightarrow> (command list \<times> hub) option" where
  "hold_open 0 W deadline did n h = None"
| "hold_open (Suc fuel) W deadline did n h =
     (if deadline \<le> sur_monotonic W n then Some ([], h)
      else let (cmds, h1) = deliver_pending (sur_wall W n) did (sur_others W n h)
           in if cmds \<noteq> [] then Some (cmds, h1) else hold_open fuel W deadline did (Suc n) h1)"

record poll_reply =
  poll_commands_out :: "pyval list"
  poll_preference_applied :: "int option"

definition poll_commands ::
  "nat \<Rightarrow> surroundings \<Rightarrow> bool \<Rightarrow> string option \<Rightarrow> string option \<Rightarrow> string \<Rightarrow> instant \<Rightarrow> hub \<Rightarrow> ((string \<times> nat + poll_reply) \<times> hub) option" where
  "poll_commands fuel W disabled header query_id did now h =
     (if (case query_id of Some i \<Rightarrow> i \<noteq> [] \<and> i \<noteq> did | None \<Rightarrow> False) then Some (Inl (''device_mismatch'', 400), h)
      else let wait = (if disabled then 0 else parse_prefer_wait header);
               (cmds, h1) = deliver_pending now did h;
               reply = (\<lambda>cs. \<lparr>poll_commands_out = map command_dict cs, poll_preference_applied = (if wait \<le> 0 then None else Some wait)\<rparr>)
           in if cmds \<noteq> [] \<or> wait \<le> 0 then Some (Inr (reply cmds), h1)
              else map_option (\<lambda>(cs, h2). (Inr (reply cs), h2)) (hold_open fuel W (sur_start W + of_int wait) did 0 h1))"

section \<open>Command results\<close>

text \<open>The body with the types the firmware sends.\<close>

record result_body =
  rb_device_id :: "string option"
  rb_command_id :: "string option"
  rb_status :: "string option"
  rb_message :: "string option"
  rb_result :: "pydict option"
  rb_completed_at :: "string option"

definition command_result_route :: "env \<Rightarrow> string \<Rightarrow> result_body \<Rightarrow> hub \<Rightarrow> device_reply \<times> hub" where
  "command_result_route E did b h =
     (if opt_text (rb_device_id b) \<noteq> [] \<and> opt_text (rb_device_id b) \<noteq> did then (DeviceErr ''device_mismatch'' 400, h)
      else if opt_text (rb_command_id b) = [] \<or> opt_text (rb_status b) = [] then (DeviceErr ''validation_failed'' 400, h)
      else case record_result (env_ulid E) (env_now E) did (opt_text (rb_command_id b)) (opt_text (rb_status b)) (rb_message b) (rb_result b)
                  (query_bound E (rb_completed_at b)) h of
        Inl (LookupErr _) \<Rightarrow> (DeviceErr ''command_unknown'' 404, h)
      | Inl _ \<Rightarrow> (DeviceErr ''validation_failed'' 400, h)
      | Inr (r, h1) \<Rightarrow>
          (DeviceOk [(''command_id'', VStr (r_command_id r)), (''status'', VStr (r_status r)), (''received_at'', VStr (iso_z (r_received_at r)))] 200, h1))"

section \<open>Events, samples and failsafe reports\<close>

definition upload_events :: "env \<Rightarrow> column_store \<Rightarrow> string \<Rightarrow> pyval \<Rightarrow> hub \<Rightarrow> device_reply \<times> hub" where
  "upload_events E D did raw h =
     (case body_dict raw of
        None \<Rightarrow> (DeviceCrash, h)
      | Some body \<Rightarrow>
          (if mismatched body did then (DeviceErr ''device_mismatch'' 400, h)
           else case (if truthy (dget body ''events'') then dget body ''events'' else VList []) of
             VList events \<Rightarrow>
               (case ingest_events E D did events h of
                  Inl (TelemetryValueError _) \<Rightarrow> (DeviceErr ''validation_failed'' 400, h)
                | Inl _ \<Rightarrow> (DeviceCrash, h)
                | Inr (n, h1) \<Rightarrow> (DeviceOk [(''ingested'', VInt (int n))] 200, h1))
           | _ \<Rightarrow> (DeviceErr ''validation_failed'' 400, h)))"

definition upload_power_samples :: "string \<Rightarrow> pyval \<Rightarrow> device_reply" where
  "upload_power_samples did raw =
     (case body_dict raw of
        None \<Rightarrow> DeviceCrash
      | Some body \<Rightarrow>
          (if mismatched body did then DeviceErr ''device_mismatch'' 400
           else case (if truthy (dget body ''samples'') then dget body ''samples'' else VList []) of
             VList _ \<Rightarrow> DeviceErr ''endpoint_retired'' 410
           | _ \<Rightarrow> DeviceErr ''validation_failed'' 400))"

definition failsafe_report :: "env \<Rightarrow> column_store \<Rightarrow> (pydict \<Rightarrow> string) \<Rightarrow> string \<Rightarrow> pyval \<Rightarrow> hub \<Rightarrow> device_reply \<times> hub" where
  "failsafe_report E D J did raw h =
     (case body_dict raw of
        None \<Rightarrow> (DeviceCrash, h)
      | Some body \<Rightarrow>
          (case (strip_or_raise (dget body ''failed_version''), strip_or_raise (dget body ''fallback_to_version''),
                 strip_or_raise (if truthy (dget body ''reason'') then dget body ''reason'' else VStr ''other'')) of
             (Some failed, Some fallback, Some reason) \<Rightarrow>
               (let (out, h1) = failsafe_record E D J did (Some failed) (Some fallback) reason
                      (case dget body ''details'' of VDict d \<Rightarrow> Some d | _ \<Rightarrow> None) h
                in (DeviceOk out 201, h1))
           | _ \<Rightarrow> (DeviceCrash, h)))"

section \<open>Callers that could not be authenticated\<close>

definition MAX_ROWS_KEPT :: nat where "MAX_ROWS_KEPT = 5000"

definition sanitize :: "string option \<Rightarrow> nat \<Rightarrow> string option" where
  "sanitize v n = (case v of None \<Rightarrow> None | Some x \<Rightarrow> let s = py_strip x in if s = [] then None else Some (take n s))"

definition or_unknown :: "string option \<Rightarrow> string" where
  "or_unknown v = (case v of None \<Rightarrow> ''unknown'' | Some x \<Rightarrow> x)"

text \<open>
  The upsert: in SQL a \<open>NULL\<close> in the claimed identifier equals nothing, so the unique index never matches it and the row is
  inserted. Above the cap the oldest tenth goes.
\<close>

definition upsert_attempt :: "instant \<Rightarrow> string option \<Rightarrow> string \<Rightarrow> string \<Rightarrow> string option \<Rightarrow> bool \<Rightarrow> hub \<Rightarrow> hub" where
  "upsert_attempt now cdi ip ep ua auth h =
     (let same = (\<lambda>a. cdi \<noteq> None \<and> ua_claimed_device_id a = cdi \<and> ua_source_ip a = ip \<and> ua_endpoint a = ep) in
      if \<exists>a \<in> set (h_auth_attempts h). same a
      then h\<lparr>h_auth_attempts := map (\<lambda>a. if same a then a\<lparr>ua_last_seen_at := now, ua_hit_count := ua_hit_count a + 1,
                ua_user_agent := ua, ua_auth_present := auth\<rparr> else a) (h_auth_attempts h)\<rparr>
      else h\<lparr>h_auth_attempts := tadd \<lparr>ua_id = h_row_seq h, ua_claimed_device_id = cdi, ua_source_ip = ip, ua_endpoint = ep,
                ua_user_agent = ua, ua_auth_present = auth, ua_first_seen_at = now, ua_last_seen_at = now, ua_hit_count = 1\<rparr>
              (h_auth_attempts h), h_row_seq := h_row_seq h + 1\<rparr>)"

definition prune_attempts :: "auth_attempt list \<Rightarrow> auth_attempt list" where
  "prune_attempts rows =
     (if length rows \<le> MAX_ROWS_KEPT then rows
      else let oldest = map ua_id (take (max 1 (MAX_ROWS_KEPT div 10)) (sort_key ua_last_seen_at rows))
           in filter (\<lambda>a. ua_id a \<notin> set oldest) rows)"

definition record_attempt :: "env \<Rightarrow> string option \<Rightarrow> string option \<Rightarrow> string \<Rightarrow> string option \<Rightarrow> bool \<Rightarrow> hub \<Rightarrow> hub" where
  "record_attempt E claimed ip endpoint ua auth h =
     (let h1 = upsert_attempt (env_now E) (sanitize claimed 80) (or_unknown (sanitize ip 64)) (or_unknown (sanitize (Some endpoint) 80))
                 (sanitize ua 200) auth h
      in h1\<lparr>h_auth_attempts := prune_attempts (h_auth_attempts h1)\<rparr>)"

definition attempt_dict :: "auth_attempt \<Rightarrow> pydict" where
  "attempt_dict a =
     [(''id'', VInt (ua_id a)), (''claimed_device_id'', of_opt_str (ua_claimed_device_id a)), (''source_ip'', VStr (ua_source_ip a)),
      (''endpoint'', VStr (ua_endpoint a)), (''user_agent'', of_opt_str (ua_user_agent a)), (''auth_present'', VBool (ua_auth_present a)),
      (''hit_count'', VInt (ua_hit_count a)), (''first_seen_at'', VStr (iso_z (ua_first_seen_at a))), (''last_seen_at'', VStr (iso_z (ua_last_seen_at a)))]"

definition list_recent_attempts :: "env \<Rightarrow> int \<Rightarrow> int option \<Rightarrow> hub \<Rightarrow> pydict list" where
  "list_recent_attempts E limit since_minutes h =
     map attempt_dict (take (clamp 1000 limit) (sort_key (\<lambda>a. - ua_last_seen_at a)
       (filter (\<lambda>a. case since_minutes of None \<Rightarrow> True | Some m \<Rightarrow> m = 0 \<or> env_now E - secs (m * 60) \<le> ua_last_seen_at a) (h_auth_attempts h))))"

definition count_active_attempts :: "env \<Rightarrow> int \<Rightarrow> hub \<Rightarrow> nat" where
  "count_active_attempts E since_minutes h =
     length (filter (\<lambda>a. env_now E - secs (since_minutes * 60) \<le> ua_last_seen_at a) (h_auth_attempts h))"

text \<open>The gate of every route above but registration: an unauthenticated caller is logged and refused.\<close>

datatype device_gate = DeviceRefused | DeviceEntered device

definition device_auth_required ::
  "env \<Rightarrow> crypto \<Rightarrow> string \<Rightarrow> string option \<Rightarrow> string option \<Rightarrow> string \<Rightarrow> string option \<Rightarrow> ctx \<times> hub \<Rightarrow> device_gate \<times> ctx \<times> hub" where
  "device_auth_required E K authorization claimed ip path ua s =
     (case resolve_device E K authorization (snd s) of
        (None, h1) \<Rightarrow> (DeviceRefused, fst s, record_attempt E claimed ip path ua (starts_with authorization ''Bearer '') h1)
      | (Some (d, org), h1) \<Rightarrow> (DeviceEntered d, (fst s)\<lparr>cx_org := org\<rparr>, h1))"

section \<open>The wait of a poll\<close>

text \<open>whatever the Prefer header holds, the wait taken from it is between zero and thirty seconds, and a request with a wait
  that is honoured names exactly this wait in its reply.\<close>
theorem prefer_wait_bounds:
  "0 \<le> parse_prefer_wait header \<and> parse_prefer_wait header \<le> LONG_POLL_MAX_WAIT_SECONDS"
  by (simp add: parse_prefer_wait_def LONG_POLL_MAX_WAIT_SECONDS_def split: option.splits list.splits)

lemma hold_open_returns:
  assumes later: "\<And>n. sur_monotonic W n + 1 \<le> sur_monotonic W (Suc n)" and bound: "deadline \<le> sur_monotonic W m + of_nat k"
  shows "hold_open (Suc k) W deadline did m h \<noteq> None"
  using bound
proof (induction k arbitrary: m h)
  case (Suc k)
  have "deadline \<le> sur_monotonic W (Suc m) + of_nat k" using Suc.prems later [of m] by simp
  then have "hold_open (Suc k) W deadline did (Suc m) g \<noteq> None" for g by (rule Suc.IH)
  then show ?case unfolding hold_open.simps(2) [of "Suc k"] by (simp add: Let_def split: prod.splits del: hold_open.simps)
qed simp

text \<open>The hub after \<open>n\<close> rounds of the loop, and what round \<open>n\<close> delivers: other requests act while the request
  sleeps, then the pending commands are delivered.\<close>

fun after_rounds :: "surroundings \<Rightarrow> string \<Rightarrow> hub \<Rightarrow> nat \<Rightarrow> hub" where
  "after_rounds W did h 0 = h"
| "after_rounds W did h (Suc n) = snd (deliver_pending (sur_wall W n) did (sur_others W n (after_rounds W did h n)))"

definition round_delivers :: "surroundings \<Rightarrow> string \<Rightarrow> hub \<Rightarrow> nat \<Rightarrow> command list" where
  "round_delivers W did h n = fst (deliver_pending (sur_wall W n) did (sur_others W n (after_rounds W did h n)))"

text \<open>The loop ends in round \<open>n\<close>: every earlier round began before the deadline and found nothing; then either the
  deadline has come, or this round too began before it and has commands.\<close>

definition ends_in_round :: "surroundings \<Rightarrow> rat \<Rightarrow> string \<Rightarrow> hub \<Rightarrow> nat \<Rightarrow> command list \<Rightarrow> hub \<Rightarrow> bool" where
  "ends_in_round W deadline did h n cmds h' \<longleftrightarrow>
     (\<forall>k < n. sur_monotonic W k < deadline \<and> round_delivers W did h k = [])
     \<and> (if cmds = [] then deadline \<le> sur_monotonic W n \<and> h' = after_rounds W did h n
        else sur_monotonic W n < deadline \<and> cmds = round_delivers W did h n \<and> h' = after_rounds W did h (Suc n))"

lemma hold_open_ends:
  assumes "hold_open fuel W deadline did m (after_rounds W did h m) = Some (cmds, h')"
    and "\<forall>k < m. sur_monotonic W k < deadline \<and> round_delivers W did h k = []"
  shows "\<exists>n < m + fuel. ends_in_round W deadline did h n cmds h'"
  using assms
proof (induction fuel arbitrary: m)
  case (Suc fuel)
  show ?case
  proof (cases "deadline \<le> sur_monotonic W m")
    case True
    then show ?thesis using Suc.prems by (intro exI [of _ m]) (simp add: ends_in_round_def)
  next
    case early: False
    let ?d = "deliver_pending (sur_wall W m) did (sur_others W m (after_rounds W did h m))"
    show ?thesis
    proof (cases "round_delivers W did h m = []")
      case True
      have "hold_open fuel W deadline did (Suc m) (after_rounds W did h (Suc m)) = Some (cmds, h')"
        using Suc.prems(1) early True by (simp add: round_delivers_def split_beta)
      moreover have "\<forall>k < Suc m. sur_monotonic W k < deadline \<and> round_delivers W did h k = []"
        using Suc.prems(2) early True by (simp add: less_Suc_eq)
      ultimately show ?thesis using Suc.IH [of "Suc m"] by simp
    next
      case False
      then have "cmds = round_delivers W did h m \<and> h' = after_rounds W did h (Suc m)"
        using Suc.prems(1) early by (simp add: round_delivers_def split_beta)
      then show ?thesis using False early Suc.prems(2) by (intro exI [of _ m]) (simp add: ends_in_round_def)
    qed
  qed
qed simp

text \<open>C30: a long poll always returns, and returns what it should: when each round of the loop takes at least the second
  it sleeps, thirty-one rounds are enough for every header and every activity of other requests. Commands that wait
  already are delivered at once, and without a wait the answer is at once too; otherwise the reply is that of the
  first round that began before the deadline and found commands, or it is empty, and then the deadline has come and
  every round before it was made and delivered nothing.\<close>

theorem long_poll_returns:
  assumes "\<And>n. sur_monotonic W n + 1 \<le> sur_monotonic W (Suc n)" and "sur_start W \<le> sur_monotonic W 0"
  shows "\<exists>reply h'. poll_commands 31 W disabled header query_id did now h = Some (reply, h')
    \<and> (case reply of Inl e \<Rightarrow> h' = h
       | Inr r \<Rightarrow>
           (let (cmds, h1) = deliver_pending now did h in
            if cmds \<noteq> [] \<or> disabled \<or> parse_prefer_wait header = 0
            then poll_commands_out r = map command_dict cmds \<and> h' = h1
            else \<exists>n cs. n \<le> 30 \<and> poll_commands_out r = map command_dict cs
              \<and> ends_in_round W (sur_start W + of_int (parse_prefer_wait header)) did h1 n cs h'))"
proof (cases "case query_id of Some i \<Rightarrow> i \<noteq> [] \<and> i \<noteq> did | None \<Rightarrow> False")
  case True
  then show ?thesis by (simp add: poll_commands_def)
next
  case False
  define wait where "wait = (if disabled then 0 else parse_prefer_wait header)"
  obtain cmds h1 where dl: "deliver_pending now did h = (cmds, h1)" by (metis surj_pair)
  show ?thesis
  proof (cases "cmds \<noteq> [] \<or> wait \<le> 0")
    case True
    then show ?thesis
      using False prefer_wait_bounds [of header] by (auto simp: poll_commands_def dl wait_def Let_def split: if_splits)
  next
    case slow: False
    have w: "wait = parse_prefer_wait header" "0 < wait" "wait \<le> 30" "\<not> disabled" "cmds = []"
      using slow prefer_wait_bounds [of header] by (auto simp: wait_def LONG_POLL_MAX_WAIT_SECONDS_def split: if_splits)
    let ?deadline = "sur_start W + of_int wait"
    have "of_int wait \<le> (30::rat)" using w(3) by simp
    then have "?deadline \<le> sur_monotonic W 0 + of_nat 30" using assms(2) by simp
    then have "hold_open (Suc 30) W ?deadline did 0 h1 \<noteq> None" by (rule hold_open_returns [OF assms(1)])
    then obtain cs h2 where ho: "hold_open 31 W ?deadline did 0 h1 = Some (cs, h2)" by auto
    have run: "poll_commands 31 W disabled header query_id did now h
        = Some (Inr \<lparr>poll_commands_out = map command_dict cs, poll_preference_applied = (if wait \<le> 0 then None else Some wait)\<rparr>, h2)"
      unfolding poll_commands_def dl prod.case wait_def [symmetric] Let_def using False slow ho by (simp del: hold_open.simps)
    obtain n where "n < 31" "ends_in_round W ?deadline did h1 n cs h2"
      using hold_open_ends [of 31 W ?deadline did 0 h1 cs h2] ho by auto
    then have "n \<le> 30 \<and> map command_dict cs = map command_dict cs \<and> ends_in_round W (sur_start W + of_int (parse_prefer_wait header)) did h1 n cs h2"
      using w(1) by simp
    then show ?thesis unfolding run dl using w by (intro exI conjI) (rule refl, auto)
  qed
qed

definition idle_world :: surroundings where
  "idle_world = \<lparr>sur_start = 0, sur_monotonic = (\<lambda>n. of_nat n), sur_wall = int, sur_others = (\<lambda>n h. h)\<rparr>"

theorem long_poll_returns_witness:
  "\<exists>r h'. poll_commands 31 idle_world False (Some ''respond-async, wait=2'') None ''d1'' 0 demo_hub = Some (Inr r, h')"
proof -
  obtain reply h' where run: "poll_commands 31 idle_world False (Some ''respond-async, wait=2'') None ''d1'' 0 demo_hub = Some (reply, h')"
    using long_poll_returns [of idle_world False "Some ''respond-async, wait=2''" None "''d1''" 0 demo_hub] by (auto simp: idle_world_def)
  have "\<exists>r. reply = Inr r"
    using run by (cases reply) (auto simp: poll_commands_def Let_def split: if_splits prod.splits)
  then show ?thesis using run by blast
qed

section \<open>The log of refused callers\<close>

definition attempts_ok :: "hub \<Rightarrow> bool" where
  "attempts_ok h \<longleftrightarrow> length (h_auth_attempts h) \<le> MAX_ROWS_KEPT \<and> pk_ok ua_id (h_auth_attempts h)
     \<and> (\<forall>a \<in> set (h_auth_attempts h). ua_id a < h_row_seq h)"

lemma prune_bounded:
  assumes "length rows \<le> Suc MAX_ROWS_KEPT" and "distinct (map ua_id rows)"
  shows "length (prune_attempts rows) \<le> MAX_ROWS_KEPT"
proof (cases "length rows \<le> MAX_ROWS_KEPT")
  case False
  define oldest where "oldest = take (max 1 (MAX_ROWS_KEPT div 10)) (sort_key ua_last_seen_at rows)"
  have sub: "set oldest \<subseteq> set rows" unfolding oldest_def by (auto dest: in_set_takeD)
  have "sort_key ua_last_seen_at rows \<noteq> []" using False length_sort [of ua_last_seen_at rows] by (metis le0 list.size(3))
  then have "oldest \<noteq> []" by (simp add: oldest_def)
  then obtain a where a: "a \<in> set oldest" by (cases oldest) auto
  have "length (filter (\<lambda>b. ua_id b \<notin> set (map ua_id oldest)) rows) < length rows"
    by (rule length_filter_less [of a]) (use a sub in auto)
  then show ?thesis using False assms(1) by (simp add: prune_attempts_def oldest_def)
qed (simp add: prune_attempts_def)

lemma upsert_keeps:
  assumes "attempts_ok h"
  shows "length (h_auth_attempts (upsert_attempt now cdi ip ep ua auth h)) \<le> Suc MAX_ROWS_KEPT
    \<and> pk_ok ua_id (h_auth_attempts (upsert_attempt now cdi ip ep ua auth h))
    \<and> (\<forall>a \<in> set (h_auth_attempts (upsert_attempt now cdi ip ep ua auth h)). ua_id a < h_row_seq (upsert_attempt now cdi ip ep ua auth h))"
proof -
  have pk: "pk_ok ua_id (map f (h_auth_attempts h))" if "\<And>a. ua_id (f a) = ua_id a" for f :: "auth_attempt \<Rightarrow> auth_attempt"
    using assms that pk_ok_map [of ua_id f] by (simp add: attempts_ok_def)
  show ?thesis
    using assms by (auto simp: upsert_attempt_def Let_def attempts_ok_def pk pk_ok_tadd less_SucI intro: zless_add1_eq [THEN iffD2])
qed

lemma record_attempt_ok:
  assumes "attempts_ok h"
  shows "attempts_ok (record_attempt E claimed ip path ua auth h)"
proof -
  define h1 where "h1 = upsert_attempt (env_now E) (sanitize claimed 80) (or_unknown (sanitize ip 64)) (or_unknown (sanitize (Some path) 80)) (sanitize ua 200) auth h"
  have h1: "length (h_auth_attempts h1) \<le> Suc MAX_ROWS_KEPT" "pk_ok ua_id (h_auth_attempts h1)" "\<forall>a \<in> set (h_auth_attempts h1). ua_id a < h_row_seq h1"
    using upsert_keeps [OF assms] by (simp_all add: h1_def)
  have r: "record_attempt E claimed ip path ua auth h = h1\<lparr>h_auth_attempts := prune_attempts (h_auth_attempts h1)\<rparr>"
    by (simp add: record_attempt_def h1_def Let_def)
  have sub: "set (prune_attempts rows) \<subseteq> set rows" and dis: "pk_ok ua_id rows \<Longrightarrow> pk_ok ua_id (prune_attempts rows)" for rows
    by (auto simp: prune_attempts_def Let_def pk_ok_def distinct_map_filter)
  show ?thesis
    using h1 prune_bounded [OF h1(1)] sub dis [OF h1(2)] unfolding r attempts_ok_def by (auto simp: pk_ok_def)
qed

lemma upsert_frame: "\<exists>rows n. upsert_attempt now cdi ip ep ua auth h = h\<lparr>h_auth_attempts := rows, h_row_seq := n\<rparr>"
proof (cases "\<exists>a \<in> set (h_auth_attempts h). cdi \<noteq> None \<and> ua_claimed_device_id a = cdi \<and> ua_source_ip a = ip \<and> ua_endpoint a = ep")
  case True
  obtain rows where "upsert_attempt now cdi ip ep ua auth h = h\<lparr>h_auth_attempts := rows\<rparr>"
    unfolding upsert_attempt_def Let_def if_P [OF True] by blast
  then show ?thesis by (intro exI [of _ rows] exI [of _ "h_row_seq h"]) simp
next
  case False
  show ?thesis unfolding upsert_attempt_def Let_def if_not_P [OF False] by (intro exI) (rule refl)
qed

text \<open>C31: however often unknown callers knock, the log of refused requests never exceeds five thousand rows, and a refused
  request changes nothing but this log.\<close>
theorem refused_callers_bounded:
  assumes "attempts_ok h" and "device_auth_required E K authorization claimed ip path ua (c, h) = (gate, c', h')"
  shows "attempts_ok h' \<and> (gate = DeviceRefused \<longrightarrow> c' = c \<and> (\<exists>rows n. h' = h\<lparr>h_auth_attempts := rows, h_row_seq := n\<rparr>))"
proof (cases "resolve_device E K authorization h")
  case (Pair found h1)
  show ?thesis
  proof (cases found)
    case None
    then have h1: "h1 = h" using Pair by (auto simp: resolve_device_def Let_def split: if_splits option.splits)
    have h': "h' = record_attempt E claimed ip path ua (starts_with authorization ''Bearer '') h" and c': "c' = c"
      using assms(2) by (simp_all add: device_auth_required_def Pair None h1)
    have "\<exists>rows n. h' = h\<lparr>h_auth_attempts := rows, h_row_seq := n\<rparr>"
    proof -
      obtain rows n where "upsert_attempt (env_now E) (sanitize claimed 80) (or_unknown (sanitize ip 64)) (or_unknown (sanitize (Some path) 80)) (sanitize ua 200)
          (starts_with authorization ''Bearer '') h = h\<lparr>h_auth_attempts := rows, h_row_seq := n\<rparr>"
        using upsert_frame by blast
      then show ?thesis unfolding h' record_attempt_def Let_def
        by (intro exI [of _ "prune_attempts rows"] exI [of _ n]) simp
    qed
    then show ?thesis using record_attempt_ok [OF assms(1), of E claimed ip path ua "starts_with authorization ''Bearer ''"] h' c' by simp
  next
    case (Some p)
    then obtain d org where p: "found = Some (d, org)" by (cases p) auto
    have "h_auth_attempts h1 = h_auth_attempts h \<and> h_row_seq h1 = h_row_seq h"
      using Pair p by (auto simp: resolve_device_def Let_def modify_device_def split: if_splits option.splits)
    then show ?thesis using assms by (auto simp: device_auth_required_def Pair p attempts_ok_def)
  qed
qed

theorem refused_callers_bounded_witness:
  "\<exists>c' h'. device_auth_required deploy_env demo_crypto ''Basic x'' (Some ''d1'') None ''/api'' None (scope_ctx None, demo_hub) = (DeviceRefused, c', h')
     \<and> attempts_ok h'"
proof -
  obtain gate c' h' where run: "device_auth_required deploy_env demo_crypto ''Basic x'' (Some ''d1'') None ''/api'' None (scope_ctx None, demo_hub) = (gate, c', h')"
    by (metis surj_pair)
  have "gate = DeviceRefused" using run by (auto simp: device_auth_required_def resolve_device_def starts_with_def split: prod.splits option.splits)
  moreover have "attempts_ok demo_hub" by (simp add: attempts_ok_def demo_defs pk_ok_def)
  ultimately show ?thesis using refused_callers_bounded [OF _ run] run by blast
qed

end
