(* ===== verification/Numbers.thy ===== *)
theory Numbers
  imports RuleChecks
begin

text \<open>
  Python numbers and exceptions the probes, the pollers and the power views share: floats with their two infinities
  and NaN, the conversions \<open>float(v)\<close> and \<open>int(v)\<close> that raise, \<open>round\<close>, the string methods that only strings have, and
  the deadline \<open>now - timedelta(seconds=n)\<close> that leaves the range of a datetime. An exception is a value; its text is a
  parameter wherever it is shown.
\<close>

section \<open>Exceptions\<close>

datatype py_exc =
    AttributeExc pyval string
  | TypeExc string
  | ValueExc string
  | OverflowExc
  | IntegrityExc
  | RuntimeExc string
  | OtherExc string

text \<open>Sequencing: the first exception ends the call.\<close>

definition attempt :: "py_exc + 'a \<Rightarrow> ('a \<Rightarrow> py_exc + 'b) \<Rightarrow> py_exc + 'b" where
  "attempt r f = (case r of Inl e \<Rightarrow> Inl e | Inr x \<Rightarrow> f x)"

lemma attempt_simps [simp]: "attempt (Inl e) f = Inl e" "attempt (Inr x) f = f x"
  by (simp_all add: attempt_def)

lemma attempt_Inr_iff: "attempt r f = Inr y \<longleftrightarrow> (\<exists>x. r = Inr x \<and> f x = Inr y)"
  by (cases r) simp_all

fun attempt_all :: "('a \<Rightarrow> py_exc + 'b) \<Rightarrow> 'a list \<Rightarrow> py_exc + 'b list" where
  "attempt_all f [] = Inr []"
| "attempt_all f (x # xs) = attempt (f x) (\<lambda>y. map_sum id (\<lambda>ys. y # ys) (attempt_all f xs))"

section \<open>Values\<close>

text \<open>\<open>(v or "").strip()\<close> and \<open>d.get(k)\<close> on a value that ought to be a dictionary.\<close>

definition strip_or :: "pyval \<Rightarrow> py_exc + string" where
  "strip_or v = (if \<not> truthy v then Inr [] else case v of VStr s \<Rightarrow> Inr (py_strip s) | _ \<Rightarrow> Inl (AttributeExc v ''strip''))"

definition dict_get :: "pyval \<Rightarrow> string \<Rightarrow> py_exc + pyval" where
  "dict_get v k = (case v of VDict d \<Rightarrow> Inr (dget d k) | _ \<Rightarrow> Inl (AttributeExc v ''get''))"

text \<open>\<open>v or w\<close>.\<close>

definition value_or :: "pyval \<Rightarrow> pyval \<Rightarrow> pyval" where
  "value_or v w = (if truthy v then v else w)"

definition dict_or :: "pyval \<Rightarrow> pyval" where
  "dict_or v = value_or v (VDict [])"

lemma strip_or_simps [simp]:
  "strip_or VNone = Inr []" "strip_or (VStr s) = Inr (py_strip s)"
  by (auto simp: strip_or_def py_strip_def)

text \<open>\<open>needle in s\<close>.\<close>

definition contains_text :: "string \<Rightarrow> string \<Rightarrow> bool" where
  "contains_text needle s \<longleftrightarrow> list_ex (\<lambda>i. starts_with (drop i s) needle) [0..<Suc (length s)]"

lemma contains_text_sublist: "contains_text needle s \<longleftrightarrow> sublist needle s"
proof
  assume "contains_text needle s"
  then obtain i where "starts_with (drop i s) needle" unfolding contains_text_def list_ex_iff by blast
  then have "take (length needle) (drop i s) = needle" by (simp add: starts_with_def)
  then have "s = take i s @ needle @ drop (length needle) (drop i s)" by (metis append_take_drop_id)
  then show "sublist needle s" by (metis sublist_appendI)
next
  assume "sublist needle s"
  then obtain a b where s: "s = a @ needle @ b" by (auto simp: sublist_def)
  then have "starts_with (drop (length a) s) needle" by (simp add: starts_with_def)
  moreover have "length a \<in> set [0..<Suc (length s)]" by (simp add: s)
  ultimately show "contains_text needle s" unfolding contains_text_def list_ex_iff by blast
qed

section \<open>Floats\<close>

datatype number = Num rat | PlusInf | MinusInf | NaN

definition of_rat :: "rat \<Rightarrow> number" where
  "of_rat r = (case rounded r of Finite d \<Rightarrow> Num d | _ \<Rightarrow> if r < 0 then MinusInf else PlusInf)"

fun num_less :: "number \<Rightarrow> number \<Rightarrow> bool" where
  "num_less (Num a) (Num b) \<longleftrightarrow> a < b"
| "num_less MinusInf (Num _) \<longleftrightarrow> True"
| "num_less MinusInf PlusInf \<longleftrightarrow> True"
| "num_less (Num _) PlusInf \<longleftrightarrow> True"
| "num_less _ _ \<longleftrightarrow> False"

fun num_add :: "number \<Rightarrow> number \<Rightarrow> number" where
  "num_add (Num a) (Num b) = of_rat (a + b)"
| "num_add NaN _ = NaN"
| "num_add _ NaN = NaN"
| "num_add PlusInf MinusInf = NaN"
| "num_add MinusInf PlusInf = NaN"
| "num_add PlusInf _ = PlusInf"
| "num_add MinusInf _ = MinusInf"
| "num_add _ y = y"

text \<open>Multiplication and division by a finite positive number.\<close>

fun num_times :: "number \<Rightarrow> rat \<Rightarrow> number" where
  "num_times (Num a) q = of_rat (a * q)"
| "num_times x q = x"

fun num_over :: "number \<Rightarrow> rat \<Rightarrow> number" where
  "num_over (Num a) q = of_rat (a / q)"
| "num_over x q = x"

text \<open>\<open>sum\<close> starts from the integer 0.\<close>

definition num_sum :: "number list \<Rightarrow> number" where
  "num_sum xs = foldl num_add (Num 0) xs"

definition num_min :: "number list \<Rightarrow> number" where
  "num_min xs = foldl (\<lambda>m x. if num_less x m then x else m) (hd xs) (tl xs)"

definition num_max :: "number list \<Rightarrow> number" where
  "num_max xs = foldl (\<lambda>m x. if num_less m x then x else m) (hd xs) (tl xs)"

definition half_even :: "rat \<Rightarrow> int" where
  "half_even r = (let n = \<lfloor>r\<rfloor>; rest = r - of_int n in if rest < 1 / 2 \<or> rest = 1 / 2 \<and> even n then n else n + 1)"

text \<open>\<open>round(x, k)\<close>: the double next to the nearest decimal with \<open>k\<close> digits.\<close>

fun num_round :: "nat \<Rightarrow> number \<Rightarrow> number" where
  "num_round k (Num a) = of_rat (of_int (half_even (a * 10 ^ k)) / 10 ^ k)"
| "num_round k x = x"

lemma half_even_close: "\<bar>of_int (half_even r) - r\<bar> \<le> 1 / 2"
proof -
  have "of_int \<lfloor>r\<rfloor> \<le> r" and "r < of_int \<lfloor>r\<rfloor> + 1" by linarith+
  then show ?thesis by (simp add: half_even_def Let_def abs_le_iff)
qed

text \<open>\<open>float(v)\<close>. The sign of an infinity is the sign of its text.\<close>

definition to_float :: "pyval \<Rightarrow> py_exc + number" where
  "to_float v =
     (case py_float v of
        FloatOk (Finite r) \<Rightarrow> Inr (Num r)
      | FloatOk NotANumber \<Rightarrow> Inr NaN
      | FloatOk Infinite \<Rightarrow>
          Inr (case v of VStr s \<Rightarrow> if take 1 (py_strip s) = ''-'' then MinusInf else PlusInf | _ \<Rightarrow> PlusInf)
      | FloatOverflow \<Rightarrow> Inl OverflowExc
      | FloatInvalid \<Rightarrow> Inl (case v of VStr _ \<Rightarrow> ValueExc ''float'' | _ \<Rightarrow> TypeExc ''float''))"

text \<open>The calls guarded by \<open>except (TypeError, ValueError)\<close>: an overflow still escapes.\<close>

definition float_or :: "'a \<Rightarrow> (number \<Rightarrow> 'a) \<Rightarrow> pyval \<Rightarrow> py_exc + 'a" where
  "float_or d f v =
     (case to_float v of
        Inr x \<Rightarrow> Inr (f x)
      | Inl OverflowExc \<Rightarrow> Inl OverflowExc
      | Inl _ \<Rightarrow> Inr d)"

definition int_or :: "int \<Rightarrow> pyval \<Rightarrow> int" where
  "int_or d v = (if \<not> truthy v then d else case py_int v of None \<Rightarrow> d | Some i \<Rightarrow> i)"

text \<open>What JSON keeps of a float that is not finite is a parameter.\<close>

definition of_number :: "(number \<Rightarrow> pyval) \<Rightarrow> number \<Rightarrow> pyval" where
  "of_number N x = (case x of Num r \<Rightarrow> VFloat r | _ \<Rightarrow> N x)"

section \<open>Deadlines\<close>

definition MIN_INSTANT :: int where "MIN_INSTANT = secs (-62135596800)"
definition MAX_INSTANT :: int where "MAX_INSTANT = secs 253402300800 - 1"

definition in_datetime_range :: "instant \<Rightarrow> bool" where
  "in_datetime_range t \<longleftrightarrow> MIN_INSTANT \<le> t \<and> t \<le> MAX_INSTANT"

definition back_from :: "instant \<Rightarrow> int \<Rightarrow> py_exc + instant" where
  "back_from now n = (if in_datetime_range (now - secs n) then Inr (now - secs n) else Inl OverflowExc)"

lemma back_from_Inr: "back_from now n = Inr t \<Longrightarrow> t = now - secs n"
  by (auto simp: back_from_def split: if_splits)

end
