(* ===== verification/ExternalSensors.thy ===== *)
theory ExternalSensors
  imports Numbers Telemetry Announcements
begin

text \<open>
  External sources (\<open>app/services/external_sensors/_crud.py\<close>, \<open>_inbound.py\<close>, \<open>_query.py\<close>, the inbound route
  \<open>app/blueprints/api/integrations_webhook.py\<close>): the registry with its check per kind and its
  masked view, what arrives by webhook and MQTT, and the sample reads the watchdog probes stand on. The registry is
  tenant scoped, the samples are not. \<open>T n\<close> is the random hexadecimal token of \<open>n\<close> bytes that the call draws.
\<close>

section \<open>Kinds\<close>

definition EXTERNAL_SOURCE_KINDS :: "string list" where
  "EXTERNAL_SOURCE_KINDS = [''roku'', ''home_assistant'', ''weather'', ''ical'', ''solaredge'', ''enphase_envoy'', ''snmp'', ''plex'',
     ''jellyfin'', ''ios_shortcut'', ''mqtt'', ''google_calendar'']"

definition WEBHOOK_KINDS :: "string list" where
  "WEBHOOK_KINDS = [''plex'', ''jellyfin'', ''ios_shortcut'']"

definition SUBSCRIBER_KINDS :: "string list" where
  "SUBSCRIBER_KINDS = [''mqtt'']"

definition KIND_TO_MODALITY :: "(string \<times> string) list" where
  "KIND_TO_MODALITY = [(''roku'', ''media''), (''home_assistant'', ''appliance_state''), (''weather'', ''weather''), (''ical'', ''calendar''),
     (''solaredge'', ''solar''), (''enphase_envoy'', ''solar''), (''snmp'', ''network''), (''plex'', ''media''), (''jellyfin'', ''media''),
     (''ios_shortcut'', ''automation''), (''mqtt'', ''appliance_state''), (''google_calendar'', ''calendar'')]"

datatype sensor_error =
    UnknownKind string
  | SensorValueError string
  | SensorOverflow
  | SensorTypeError
  | SensorRefused tenant_error
  | SensorNotNullOrganization
  | SensorDataError
  | SensorIntegrityError

section \<open>The configuration of a kind\<close>

text \<open>\<open>str.splitlines\<close> for the line ends of ASCII text.\<close>

definition line_end :: "char \<Rightarrow> bool" where
  "line_end c \<longleftrightarrow> c \<in> {CHR 0x0A, CHR 0x0B, CHR 0x0C, CHR 0x0D, CHR 0x1C, CHR 0x1D, CHR 0x1E}"

fun lines_from :: "string \<Rightarrow> bool \<Rightarrow> string \<Rightarrow> string list" where
  "lines_from cur after_cr [] = (if cur = [] then [] else [rev cur])"
| "lines_from cur after_cr (c # cs) =
     (if c = CHR 0x0A \<and> after_cr then lines_from [] False cs
      else if line_end c then rev cur # lines_from [] (c = CHR 0x0D) cs
      else lines_from (c # cur) False cs)"

definition split_lines :: "string \<Rightarrow> string list" where
  "split_lines s = lines_from [] False s"

text \<open>\<open>str(config.get(k) or d).strip()\<close>.\<close>

definition text_setting :: "env \<Rightarrow> pydict \<Rightarrow> string \<Rightarrow> string \<Rightarrow> string" where
  "text_setting E cfg k d = py_strip (py_str E (value_or (dget cfg k) (VStr d)))"

definition optional :: "string \<Rightarrow> string \<Rightarrow> pydict" where
  "optional k s = (if s = [] then [] else [(k, VStr s)])"

definition stripped_texts :: "env \<Rightarrow> pyval list \<Rightarrow> string list" where
  "stripped_texts E xs = filter (\<lambda>s. s \<noteq> []) (map (\<lambda>x. py_strip (py_str E x)) xs)"

definition weather_config :: "pydict \<Rightarrow> sensor_error + pydict" where
  "weather_config cfg =
     (case attempt (to_float (dget cfg ''lat'')) (\<lambda>a. map_sum id (\<lambda>b. (a, b)) (to_float (dget cfg ''lng''))) of
        Inl OverflowExc \<Rightarrow> Inl SensorOverflow
      | Inl _ \<Rightarrow> Inl (SensorValueError ''weather config requires numeric lat + lng (decimal degrees)'')
      | Inr (Num a, Num b) \<Rightarrow>
          (if - 90 \<le> a \<and> a \<le> 90 \<and> - 180 \<le> b \<and> b \<le> 180 then Inr [(''lat'', VFloat a), (''lng'', VFloat b)]
           else Inl (SensorValueError ''weather lat/lng out of range''))
      | Inr _ \<Rightarrow> Inl (SensorValueError ''weather lat/lng out of range''))"

definition ical_config :: "env \<Rightarrow> pydict \<Rightarrow> sensor_error + pydict" where
  "ical_config E cfg =
     (let url = text_setting E cfg ''url'' [] in
      if url = [] then Inl (SensorValueError ''ical config.url is required (.ics feed URL)'')
      else if starts_with url ''http://'' \<or> starts_with url ''https://'' then Inr [(''url'', VStr url)]
      else if starts_with url ''webcal://'' then Inr [(''url'', VStr (''https://'' @ drop (length ''webcal://'') url))]
      else Inl (SensorValueError ''ical url must use http://, https://, or webcal:// scheme''))"

definition mqtt_config :: "env \<Rightarrow> (nat \<Rightarrow> string) \<Rightarrow> pydict \<Rightarrow> sensor_error + pydict" where
  "mqtt_config E T cfg =
     (let raw = (case dget cfg ''topics'' of
            VStr s \<Rightarrow> VList (map VStr (filter (\<lambda>t. t \<noteq> []) (map py_strip (split_lines s))))
          | v \<Rightarrow> v)
      in case raw of
           VList (x # xs) \<Rightarrow>
             (let topics = stripped_texts E (x # xs);
                  client = text_setting E cfg ''client_id'' []
              in if topics = [] then Inl (SensorValueError ''mqtt config.topics must contain at least one topic'')
                 else Inr ([(''topics'', VList (map VStr topics))] @ optional ''username'' (text_setting E cfg ''username'' [])
                           @ optional ''password'' (py_str E (value_or (dget cfg ''password'') (VStr [])))
                           @ [(''client_id'', VStr (if client = [] then ''rebooter-droids-'' @ T 4 else client))]))
         | _ \<Rightarrow> Inl (SensorValueError ''mqtt config.topics is required (a non-empty list of topic filters)''))"

definition webhook_config :: "env \<Rightarrow> (nat \<Rightarrow> string) \<Rightarrow> pydict \<Rightarrow> pydict" where
  "webhook_config E T cfg =
     (let secret = text_setting E cfg ''webhook_secret'' [] in
      (''webhook_secret'', VStr (if secret = [] then T 24 else secret)) # optional ''server_name'' (take 120 (text_setting E cfg ''server_name'' [])))"

definition snmp_v3_config :: "env \<Rightarrow> pydict \<Rightarrow> sensor_error + pydict" where
  "snmp_v3_config E cfg =
     (case dict_or (dget cfg ''v3'') of
        VDict v3 \<Rightarrow>
          (let user = text_setting E v3 ''user'' []; auth_key = text_setting E v3 ''auth_key'' []; priv_key = text_setting E v3 ''priv_key'' [];
               auth_proto = py_upper (text_setting E v3 ''auth_proto'' ''SHA''); priv_proto = py_upper (text_setting E v3 ''priv_proto'' ''AES'')
           in if user = [] \<or> auth_key = [] \<or> priv_key = []
              then Inl (SensorValueError ''snmp v3 requires v3.user, v3.auth_key, and v3.priv_key'')
              else if auth_proto \<notin> set [''SHA'', ''MD5''] then Inl (SensorValueError ''snmp v3.auth_proto must be SHA or MD5'')
              else if priv_proto \<notin> set [''AES'', ''DES''] then Inl (SensorValueError ''snmp v3.priv_proto must be AES or DES'')
              else Inr [(''version'', VStr ''3''),
                        (''v3'', VDict [(''user'', VStr user), (''auth_proto'', VStr auth_proto), (''auth_key'', VStr auth_key),
                                      (''priv_proto'', VStr priv_proto), (''priv_key'', VStr priv_key)])])
      | _ \<Rightarrow> Inl (SensorValueError ''snmp config.v3 must be an object''))"

definition snmp_config :: "env \<Rightarrow> pydict \<Rightarrow> sensor_error + pydict" where
  "snmp_config E cfg =
     (let version = py_lower (text_setting E cfg ''version'' ''2c'') in
      if version \<noteq> ''2c'' \<and> version \<noteq> ''3'' then Inl (SensorValueError (''snmp config.version must be '' @ quoted ''2c'' @ '' or '' @ quoted ''3''))
      else case (if version = ''2c''
                 then let community = text_setting E cfg ''community'' [] in
                      (if community = [] then Inl (SensorValueError ''snmp config.community is required for SNMP v2c'')
                       else Inr [(''version'', VStr ''2c''), (''community'', VStr community)])
                 else snmp_v3_config E cfg) of
        Inl e \<Rightarrow> Inl e
      | Inr out \<Rightarrow>
          (case dget cfg ''interface_filter'' of
             VList (x # xs) \<Rightarrow>
               (let names = stripped_texts E (x # xs)
                in Inr (out @ (if names = [] then [] else [(''interface_filter'', VList (map VStr names))])))
           | v \<Rightarrow> (if truthy v then Inl (SensorValueError ''snmp config.interface_filter must be a list'') else Inr out)))"

definition google_config :: "env \<Rightarrow> pydict \<Rightarrow> sensor_error + pydict" where
  "google_config E cfg =
     (let refresh = text_setting E cfg ''refresh_token'' []; calendar = text_setting E cfg ''calendar_id'' ''primary'' in
      if refresh = []
      then Inl (SensorValueError ''google_calendar config.refresh_token is required (set by the OAuth connect flow)'')
      else Inr ([(''refresh_token'', VStr refresh), (''calendar_id'', VStr (if calendar = [] then ''primary'' else calendar))]
                @ optional ''access_token'' (text_setting E cfg ''access_token'' [])
                @ optional ''access_token_expires_at'' (text_setting E cfg ''access_token_expires_at'' [])))"

definition validate_kind_config :: "env \<Rightarrow> (nat \<Rightarrow> string) \<Rightarrow> string \<Rightarrow> pydict \<Rightarrow> sensor_error + pydict" where
  "validate_kind_config E T kind cfg =
     (if kind = ''roku'' then Inr []
      else if kind = ''home_assistant'' then
        (let token = text_setting E cfg ''token'' [] in
         if token = [] then Inl (SensorValueError ''home_assistant config.token is required (HA long-lived access token)'')
         else Inr ((''token'', VStr token) # (if dget cfg ''verify_ssl'' = VNone then [] else [(''verify_ssl'', VBool (truthy (dget cfg ''verify_ssl'')))])))
      else if kind = ''weather'' then weather_config cfg
      else if kind = ''ical'' then ical_config E cfg
      else if kind = ''solaredge'' then
        (let site = text_setting E cfg ''site_id'' []; key = text_setting E cfg ''api_key'' [] in
         if site = [] then Inl (SensorValueError ''solaredge config.site_id is required'')
         else if key = [] then Inl (SensorValueError ''solaredge config.api_key is required (monitoring API key)'')
         else Inr [(''site_id'', VStr site), (''api_key'', VStr key)])
      else if kind = ''enphase_envoy'' then Inr (optional ''jwt'' (text_setting E cfg ''jwt'' []))
      else if kind = ''mqtt'' then mqtt_config E T cfg
      else if kind \<in> set WEBHOOK_KINDS then Inr (webhook_config E T cfg)
      else if kind = ''snmp'' then snmp_config E cfg
      else if kind = ''google_calendar'' then google_config E cfg
      else Inr [])"

section \<open>The registry\<close>

definition NEEDS_HOST :: "string list" where
  "NEEDS_HOST = [''roku'', ''home_assistant'', ''enphase_envoy'', ''snmp'', ''mqtt'']"

definition default_port :: "string \<Rightarrow> int" where
  "default_port kind =
     (if kind = ''roku'' then 8060 else if kind = ''home_assistant'' then 8123 else if kind = ''enphase_envoy'' then 80
      else if kind = ''snmp'' then 161 else if kind = ''mqtt'' then 1883 else 0)"

definition MASK :: string where "MASK = ''********''"

definition SENSOR_SECRET_KEYS :: "string list" where
  "SENSOR_SECRET_KEYS = [''token'', ''api_key'', ''jwt'', ''community'', ''password'']"

definition SECRET_V3_KEYS :: "string list" where
  "SECRET_V3_KEYS = [''auth_key'', ''priv_key'']"

definition mask_keys :: "string list \<Rightarrow> pydict \<Rightarrow> pydict" where
  "mask_keys keys d = foldl (\<lambda>d k. if truthy (dget d k) then dset d k (VStr MASK) else d) d keys"

definition redact_source_config :: "pydict \<Rightarrow> pydict" where
  "redact_source_config cfg =
     (if cfg = [] then []
      else let out = mask_keys SENSOR_SECRET_KEYS cfg in
        case dget out ''v3'' of VDict v3 \<Rightarrow> dset out ''v3'' (VDict (mask_keys SECRET_V3_KEYS v3)) | _ \<Rightarrow> out)"

definition serialize_source :: "sensor_source \<Rightarrow> pyval \<Rightarrow> pydict" where
  "serialize_source r latest =
     [(''id'', VStr (src_id r)), (''kind'', VStr (src_kind r)), (''modality'', of_opt_str (map_of KIND_TO_MODALITY (src_kind r))),
      (''display_name'', VStr (src_display_name r)), (''host'', VStr (src_host r)), (''port'', VInt (src_port r)),
      (''enabled'', VBool (src_enabled r)), (''poll_interval_seconds'', VInt (src_poll_interval_seconds r)),
      (''last_polled_at'', opt_iso (src_last_polled_at r)), (''last_success_at'', opt_iso (src_last_success_at r)),
      (''last_error'', of_opt_str (src_last_error r)), (''created_at'', VStr (iso_z (src_created_at r))),
      (''config'', VDict (redact_source_config (dict_or_empty (src_config r)))), (''latest_sample'', latest)]"

definition select_sources :: "env \<Rightarrow> ctx \<times> hub \<Rightarrow> sensor_source list \<times> ctx \<times> hub" where
  "select_sources E s = select_scoped E ''external_sensor_sources'' src_organization_id h_sensor_sources s"

text \<open>Samples of a source, newest first.\<close>

definition samples_of :: "string \<Rightarrow> hub \<Rightarrow> sensor_sample list" where
  "samples_of sid h = sort_key (\<lambda>p. - smp_sampled_at p) (filter (\<lambda>p. smp_source_id p = sid) (h_sensor_samples h))"

definition sample_view :: "sensor_sample \<Rightarrow> pyval" where
  "sample_view p = VDict [(''sampled_at'', VStr (iso_z (smp_sampled_at p))), (''payload'', dict_or (smp_payload p))]"

definition list_sources :: "env \<Rightarrow> ctx \<times> hub \<Rightarrow> pydict list \<times> ctx \<times> hub" where
  "list_sources E s =
     (let (rows, s1) = select_sources E s in
      (map (\<lambda>r. serialize_source r (case samples_of (src_id r) (snd s1) of [] \<Rightarrow> VNone | p # _ \<Rightarrow> sample_view p))
         (sort_key (\<lambda>r. - src_created_at r) rows), s1))"

record source_args =
  sg_kind :: string
  sg_display_name :: string
  sg_host :: string
  sg_port :: "int option"
  sg_poll_interval_seconds :: int
  sg_config :: pydict

text \<open>The checks of \<open>create_source\<close>: the kind, the name, the host, the port and the interval it stores, and the
  configuration.\<close>

definition check_source :: "env \<Rightarrow> (nat \<Rightarrow> string) \<Rightarrow> source_args \<Rightarrow> sensor_error + (string \<times> string \<times> string \<times> int \<times> int \<times> pydict)" where
  "check_source E T a =
     (let kind = py_lower (py_strip (sg_kind a)); name = py_strip (sg_display_name a); host = py_strip (sg_host a);
          needs_host = (kind \<in> set NEEDS_HOST);
          port = (case sg_port a of None \<Rightarrow> default_port kind | Some p \<Rightarrow> p);
          interval = (if sg_poll_interval_seconds a = 0 then 30 else sg_poll_interval_seconds a)
      in if kind \<notin> set EXTERNAL_SOURCE_KINDS then Inl (UnknownKind kind)
         else if name = [] then Inl (SensorValueError ''display_name is required'')
         else if needs_host \<and> host = [] then Inl (SensorValueError ''host is required for this kind'')
         else if needs_host \<and> (port < 1 \<or> 65535 < port) then Inl (SensorValueError ''port must be in 1..65535'')
         else if interval < 5 \<or> 3600 < interval then Inl (SensorValueError ''poll_interval_seconds must be in 5..3600'')
         else map_sum id (\<lambda>cfg. (kind, name, host, port, interval, cfg)) (validate_kind_config E T kind (sg_config a)))"

definition source_obj :: "string option \<Rightarrow> bool \<Rightarrow> flush_obj" where
  "source_obj org m = \<lparr>fo_class = ''ExternalSensorSource'', fo_org = org, fo_modified = m\<rparr>"

text \<open>What the columns make of a new row; \<open>None\<close> when one refuses its value.\<close>

definition store_source :: "column_store \<Rightarrow> sensor_source \<Rightarrow> sensor_source option" where
  "store_source D r =
     (case (D ''external_sensor_sources.display_name'' (VStr (src_display_name r)), D ''external_sensor_sources.host'' (VStr (src_host r)),
            D ''external_sensor_sources.port'' (VInt (src_port r)),
            store_value D ''external_sensor_sources.config'' (case src_config r of None \<Rightarrow> VNone | Some d \<Rightarrow> VDict d)) of
        (Some (VStr name), Some (VStr host), Some (VInt port), Some cfg) \<Rightarrow>
          Some (r\<lparr>src_display_name := name, src_host := host, src_port := port,
                  src_config := (case cfg of VDict d \<Rightarrow> Some d | _ \<Rightarrow> None)\<rparr>)
      | _ \<Rightarrow> None)"

definition create_source ::
  "env \<Rightarrow> column_store \<Rightarrow> (nat \<Rightarrow> string) \<Rightarrow> source_args \<Rightarrow> ctx \<times> hub \<Rightarrow> sensor_error + (pydict \<times> ctx \<times> hub)" where
  "create_source E D T a s =
     (case check_source E T a of
        Inl e \<Rightarrow> Inl e
      | Inr (kind, name, host, port, interval, cfg) \<Rightarrow>
          (case stamp_and_guard_tenant_writes E [source_obj None True] [] s of
             Inl e \<Rightarrow> Inl (SensorRefused e)
           | Inr (new, _, c, h) \<Rightarrow>
               (let r = \<lparr>src_id = new_id (env_ulid E) ''ext'' (h_ulid h), src_organization_id = fo_org (hd new), src_kind = kind,
                         src_display_name = name, src_host = host, src_port = port, src_enabled = True,
                         src_poll_interval_seconds = interval, src_last_polled_at = None, src_last_success_at = None,
                         src_last_error = None, src_config = (if cfg = [] then None else Some cfg),
                         src_created_at = env_now E, src_updated_at = env_now E\<rparr>
                in if src_organization_id r = None then Inl SensorNotNullOrganization
                   else if list_ex (\<lambda>q. src_id q = src_id r) (h_sensor_sources h) then Inl SensorIntegrityError
                   else case store_source D r of
                     None \<Rightarrow> Inl SensorDataError
                   | Some w \<Rightarrow> Inr (serialize_source r VNone,
                       c, h\<lparr>h_sensor_sources := tadd w (h_sensor_sources h), h_ulid := Suc (h_ulid h)\<rparr>))))"

definition get_source :: "env \<Rightarrow> string \<Rightarrow> ctx \<times> hub \<Rightarrow> sensor_source option \<times> ctx \<times> hub" where
  "get_source E i s = (let (rows, s1) = select_sources E s in (tget src_id i rows, s1))"

text \<open>Deleting a source deletes its samples with it (\<open>ON DELETE CASCADE\<close>).\<close>

definition delete_source :: "env \<Rightarrow> string \<Rightarrow> ctx \<times> hub \<Rightarrow> bool \<times> ctx \<times> hub" where
  "delete_source E i s =
     (case get_source E i s of
        (None, s1) \<Rightarrow> (False, s1)
      | (Some _, c, h) \<Rightarrow>
          (True, c, h\<lparr>h_sensor_sources := tdel src_id i (h_sensor_sources h),
                     h_sensor_samples := filter (\<lambda>p. smp_source_id p \<noteq> i) (h_sensor_samples h)\<rparr>))"

text \<open>A changed source row goes through the write guard.\<close>

definition flush_source :: "env \<Rightarrow> sensor_source \<Rightarrow> ctx \<times> hub \<Rightarrow> sensor_error + (ctx \<times> hub)" where
  "flush_source E r s =
     (case stamp_and_guard_tenant_writes E [] [source_obj (src_organization_id r) True] s of
        Inl e \<Rightarrow> Inl (SensorRefused e)
      | Inr (_, dirty, c, h) \<Rightarrow>
          Inr (c, h\<lparr>h_sensor_sources := tupd src_id (src_id r) (\<lambda>_. r\<lparr>src_organization_id := fo_org (hd dirty)\<rparr>) (h_sensor_sources h)\<rparr>))"

definition set_source_enabled :: "env \<Rightarrow> string \<Rightarrow> bool \<Rightarrow> ctx \<times> hub \<Rightarrow> sensor_error + (bool \<times> ctx \<times> hub)" where
  "set_source_enabled E i on s =
     (case get_source E i s of
        (None, s1) \<Rightarrow> Inr (False, s1)
      | (Some r, s1) \<Rightarrow> map_sum id (\<lambda>s2. (True, s2)) (flush_source E (r\<lparr>src_enabled := on, src_updated_at := env_now E\<rparr>) s1))"

section \<open>What arrives\<close>

text \<open>A sample of the source, and the source marked as heard from.\<close>

definition store_payload :: "env \<Rightarrow> column_store \<Rightarrow> sensor_source \<Rightarrow> pyval \<Rightarrow> ctx \<times> hub \<Rightarrow> sensor_error + (ctx \<times> hub)" where
  "store_payload E D r payload s =
     (case D ''external_sensor_samples.payload'' payload of
        None \<Rightarrow> Inl SensorDataError
      | Some w \<Rightarrow>
          (case flush_source E (r\<lparr>src_last_polled_at := Some (env_now E), src_last_success_at := Some (env_now E), src_last_error := None\<rparr>) s of
             Inl e \<Rightarrow> Inl e
           | Inr (c, h) \<Rightarrow>
               Inr (c, h\<lparr>h_sensor_samples := tadd \<lparr>smp_id = h_row_seq h, smp_source_id = src_id r, smp_sampled_at = env_now E, smp_payload = w\<rparr>
                           (h_sensor_samples h), h_row_seq := h_row_seq h + 1\<rparr>)))"

datatype inbound_result = NotRecorded string | Recorded string

definition record_webhook_event :: "env \<Rightarrow> column_store \<Rightarrow> string \<Rightarrow> pydict \<Rightarrow> ctx \<times> hub \<Rightarrow> sensor_error + (inbound_result \<times> ctx \<times> hub)" where
  "record_webhook_event E D i payload s =
     (case get_source E i s of
        (None, s1) \<Rightarrow> Inr (NotRecorded ''source not found'', s1)
      | (Some r, s1) \<Rightarrow>
          (if src_kind r \<notin> set WEBHOOK_KINDS then Inr (NotRecorded ''source is not a webhook kind'', s1)
           else if \<not> src_enabled r then Inr (NotRecorded ''source disabled'', s1)
           else map_sum id (\<lambda>s2. (Recorded (iso_z (env_now E)), s2)) (store_payload E D r (VDict payload) s1)))"

text \<open>\<open>record_mqtt_message\<close> swallows what goes wrong; then the session has been rolled back.\<close>

definition record_mqtt_message :: "env \<Rightarrow> column_store \<Rightarrow> string \<Rightarrow> string \<Rightarrow> string \<Rightarrow> ctx \<times> hub \<Rightarrow> inbound_result \<times> ctx \<times> hub" where
  "record_mqtt_message E D i topic msg s =
     (case get_source E i s of
        (None, s1) \<Rightarrow> (NotRecorded ''source missing/disabled/not mqtt'', s1)
      | (Some r, s1) \<Rightarrow>
          (if src_kind r \<noteq> ''mqtt'' \<or> \<not> src_enabled r then (NotRecorded ''source missing/disabled/not mqtt'', s1)
           else case store_payload E D r
                  (VDict [(''topic'', VStr (take 400 topic)), (''msg'', VStr (take 2000 msg)), (''received_at'', VStr (iso_z (env_now E)))]) s1 of
             Inl _ \<Rightarrow> (NotRecorded ''internal error'', s1)
           | Inr s2 \<Rightarrow> (Recorded (iso_z (env_now E)), s2)))"

section \<open>The inbound webhook route\<close>

text \<open>The body as the framework hands it over: \<open>request.get_json(silent=True)\<close> of a JSON request, or the
  \<open>payload\<close> field of a form, which \<open>json.loads\<close> parses or not.\<close>

datatype webhook_body = JsonBody pyval | FormPayload "pyval option" | OtherBody

record webhook_request =
  wq_content_length :: "int option"
  wq_secret :: string
  wq_body :: webhook_body
  wq_remote_addr :: "string option"

datatype webhook_reply = WebhookErr string nat | WebhookAccepted | WebhookCrash sensor_error

definition MAX_WEBHOOK_BODY_BYTES :: int where "MAX_WEBHOOK_BODY_BYTES = 64 * 1024"

definition webhook_payload :: "webhook_body \<Rightarrow> pydict option" where
  "webhook_payload b =
     (case b of
        JsonBody v \<Rightarrow> Some (dict_of v)
      | FormPayload None \<Rightarrow> None
      | FormPayload (Some v) \<Rightarrow> Some (dict_of v)
      | OtherBody \<Rightarrow> Some [])"

text \<open>\<open>compare_digest\<close> compares strings of ASCII characters; it raises a \<open>TypeError\<close> on anything else.\<close>

definition is_ascii :: "string \<Rightarrow> bool" where
  "is_ascii s \<longleftrightarrow> list_all (\<lambda>c. (of_char c :: nat) < 128) s"

definition compare_digest :: "string \<Rightarrow> pyval \<Rightarrow> bool option" where
  "compare_digest presented v =
     (case v of VStr s \<Rightarrow> if is_ascii presented \<and> is_ascii s then Some (presented = s) else None | _ \<Rightarrow> None)"

definition expected_secret :: "sensor_source \<Rightarrow> pyval" where
  "expected_secret r = value_or (dget (dict_or_empty (src_config r)) ''webhook_secret'') (VStr [])"

definition webhook_inbound :: "env \<Rightarrow> column_store \<Rightarrow> string \<Rightarrow> webhook_request \<Rightarrow> ctx \<times> hub \<Rightarrow> webhook_reply \<times> ctx \<times> hub" where
  "webhook_inbound E D i q s =
     (if (case wq_content_length q of None \<Rightarrow> False | Some n \<Rightarrow> MAX_WEBHOOK_BODY_BYTES < n) then (WebhookErr ''payload_too_large'' 413, s)
      else case get_source E i s of
        (None, s1) \<Rightarrow> (WebhookErr ''not_found'' 404, s1)
      | (Some r, s1) \<Rightarrow>
          (if src_kind r \<notin> set WEBHOOK_KINDS then (WebhookErr ''not_found'' 404, s1)
           else if \<not> src_enabled r then (WebhookErr ''source_disabled'' 403, s1)
           else if \<not> truthy (expected_secret r) then (WebhookErr ''auth_failed'' 401, s1)
           else case compare_digest (wq_secret q) (expected_secret r) of
             None \<Rightarrow> (WebhookCrash SensorTypeError, s1)
           | Some False \<Rightarrow> (WebhookErr ''auth_failed'' 401, s1)
           | Some True \<Rightarrow>
          (case webhook_payload (wq_body q) of
             None \<Rightarrow> (WebhookErr ''bad_payload'' 400, s1)
           | Some p \<Rightarrow>
               (case record_webhook_event E D i
                       (dset (dset p ''_received_at'' (VStr (iso_z (env_now E)))) ''_remote_addr'' (of_opt_str (wq_remote_addr q))) s1 of
                  Inl e \<Rightarrow> (WebhookCrash e, s1)
                | Inr (NotRecorded _, s2) \<Rightarrow> (WebhookErr ''webhook_failed'' 400, s2)
                | Inr (Recorded _, s2) \<Rightarrow> (WebhookAccepted, s2)))))"

section \<open>Sample reads\<close>

text \<open>A read gives the time of the sample, as text, and its payload.\<close>

type_synonym sample_read = "string \<times> pyval"

definition read_of :: "sensor_sample \<Rightarrow> sample_read" where
  "read_of p = (iso_z (smp_sampled_at p), dict_or (smp_payload p))"

definition fresh_samples :: "instant \<Rightarrow> string \<Rightarrow> hub \<Rightarrow> sensor_sample list" where
  "fresh_samples cutoff sid h = filter (\<lambda>p. cutoff \<le> smp_sampled_at p) (samples_of sid h)"

definition latest_sample :: "env \<Rightarrow> string \<Rightarrow> int \<Rightarrow> hub \<Rightarrow> py_exc + sample_read option" where
  "latest_sample E sid max_age h =
     attempt (back_from (env_now E) max_age)
       (\<lambda>cutoff. Inr (case fresh_samples cutoff sid h of [] \<Rightarrow> None | p # _ \<Rightarrow> Some (read_of p)))"

text \<open>\<open>latest_active_app\<close> is written out again in the source; it is the same read.\<close>

definition latest_active_app :: "env \<Rightarrow> string \<Rightarrow> int \<Rightarrow> hub \<Rightarrow> py_exc + sample_read option" where
  "latest_active_app E sid max_age h =
     attempt (back_from (env_now E) max_age)
       (\<lambda>cutoff. Inr (case fresh_samples cutoff sid h of [] \<Rightarrow> None | p # _ \<Rightarrow> Some (read_of p)))"

definition last_two_samples :: "env \<Rightarrow> string \<Rightarrow> int \<Rightarrow> hub \<Rightarrow> py_exc + (sensor_sample \<times> sensor_sample) option" where
  "last_two_samples E sid max_age h =
     attempt (back_from (env_now E) max_age)
       (\<lambda>cutoff. Inr (case samples_of sid h of
          newer # older # _ \<Rightarrow> (if smp_sampled_at newer < cutoff then None else Some (newer, older))
        | _ \<Rightarrow> None))"

definition on_topic :: "string \<Rightarrow> sensor_sample \<Rightarrow> bool" where
  "on_topic topic p \<longleftrightarrow> (case dict_or (smp_payload p) of VDict d \<Rightarrow> dget d ''topic'' = VStr topic | _ \<Rightarrow> False)"

definition latest_sample_for_topic :: "env \<Rightarrow> string \<Rightarrow> string \<Rightarrow> int \<Rightarrow> hub \<Rightarrow> py_exc + sample_read option" where
  "latest_sample_for_topic E sid topic max_age h =
     attempt (back_from (env_now E) max_age)
       (\<lambda>cutoff. Inr (map_option read_of (find (on_topic topic) (take 500 (fresh_samples cutoff sid h)))))"

definition ha_entity :: "string \<times> pyval \<Rightarrow> pydict option" where
  "ha_entity kv =
     (case snd kv of
        VDict entry \<Rightarrow>
          (let attrs = dict_of (dget entry ''attributes'') in
           Some [(''entity_id'', VStr (fst kv)), (''friendly_name'', dget attrs ''friendly_name''), (''state'', dget entry ''state''),
                 (''unit'', dget attrs ''unit_of_measurement''), (''last_changed'', dget entry ''last_changed'')])
      | _ \<Rightarrow> None)"

record entity_browser =
  eb_source_id :: string
  eb_display_name :: string
  eb_sampled_at :: "string option"
  eb_entities :: "pydict list"

definition ha_entities :: "env \<Rightarrow> string \<Rightarrow> ctx \<times> hub \<Rightarrow> entity_browser option \<times> ctx \<times> hub" where
  "ha_entities E sid s =
     (case get_source E sid s of
        (None, s1) \<Rightarrow> (None, s1)
      | (Some r, s1) \<Rightarrow>
          (if src_kind r \<noteq> ''home_assistant'' then (None, s1)
           else (Some (case samples_of sid (snd s1) of
                    [] \<Rightarrow> \<lparr>eb_source_id = sid, eb_display_name = src_display_name r, eb_sampled_at = None, eb_entities = []\<rparr>
                  | p # _ \<Rightarrow>
                      \<lparr>eb_source_id = sid, eb_display_name = src_display_name r, eb_sampled_at = Some (iso_z (smp_sampled_at p)),
                       eb_entities = List.map_filter ha_entity
                         (sort_key fst (dict_of (dget (dict_of (dict_or (smp_payload p))) ''entities'')))\<rparr>), s1)))"

end
