(* ===== verification/SensorPolls.thy ===== *)
theory SensorPolls
  imports ExternalSensors Ssrf
begin

text \<open>
  The pull side of the external sources (\<open>app/services/external_sensors/_pollers.py\<close>, \<open>app/services/google_oauth.py\<close>):
  one poll function per kind, the poll of one source, which records a sample or the error, and the tick over all that are
  due. The record \<open>world\<close> is what a poll finds outside the process: the HTTP and net-snmp replies, the JSON parser, URL
  quoting, \<open>strptime\<close>, number formatting, the text of an exception and the iteration order of a set.
\<close>

record http_call =
  hc_https :: bool
  hc_verified :: bool
  hc_host :: string
  hc_port :: int
  hc_path :: string
  hc_headers :: "(string \<times> string) list"

record http_reply =
  hr_status :: int
  hr_body :: string
  hr_location :: "string option"

datatype url_open = Opened string | HttpError int string | UrlError string | OpenRaised py_exc

datatype snmp_run = SnmpMissing | SnmpTimeout | SnmpExit int string string

record world =
  w_fetch :: "http_call \<Rightarrow> py_exc + http_reply"
  w_open :: "string \<Rightarrow> (string \<times> string) list \<Rightarrow> (string \<times> string) list option \<Rightarrow> url_open"
  w_json :: "string \<Rightarrow> string + pyval"
  w_quote :: "string \<Rightarrow> string \<Rightarrow> string"
  w_urlencode :: "(string \<times> string) list \<Rightarrow> string"
  w_urlparse :: "string \<Rightarrow> py_exc + (string \<times> string \<times> int option \<times> string \<times> string)"
  w_fixed4 :: "number \<Rightarrow> string"
  w_strptime :: "string \<Rightarrow> string \<Rightarrow> instant option"
  w_snmp :: "string \<Rightarrow> string list \<Rightarrow> string \<Rightarrow> string \<Rightarrow> snmp_run"
  w_order :: "string list \<Rightarrow> string list"
  w_repr :: "string \<Rightarrow> string"
  w_exc :: "py_exc \<Rightarrow> string"

text \<open>The text of an exception with its class, \<open>f"{type(e).__name__}: {e}"\<close>.\<close>

definition exc_label :: "world \<Rightarrow> py_exc \<Rightarrow> string" where
  "exc_label W e = (case e of RuntimeExc m \<Rightarrow> ''RuntimeError: '' @ m | _ \<Rightarrow> w_exc W e)"

definition runtime_error :: "string \<Rightarrow> py_exc + 'a" where
  "runtime_error m = Inl (RuntimeExc m)"

definition show_int :: "int \<Rightarrow> string" where
  "show_int i = (if i < 0 then CHR ''-'' # dec (nat (- i)) else dec (nat i))"

definition USER_AGENT :: "string \<times> string" where
  "USER_AGENT = (''User-Agent'', ''rebooter-droids/B17'')"

definition parse_body :: "world \<Rightarrow> string \<Rightarrow> string \<Rightarrow> py_exc + pyval" where
  "parse_body W who body = (case w_json W body of Inl t \<Rightarrow> runtime_error (who @ '' JSON parse failed: '' @ t) | Inr v \<Rightarrow> Inr v)"

text \<open>\<open>_num\<close>: a number or \<open>None\<close>; an integer too large for a float escapes.\<close>

definition num_value :: "(number \<Rightarrow> pyval) \<Rightarrow> pyval \<Rightarrow> py_exc + pyval" where
  "num_value N v = (if v = VNone then Inr VNone else float_or VNone (of_number N) v)"

section \<open>Roku\<close>

fun find_from :: "(string \<Rightarrow> 'a option) \<Rightarrow> string \<Rightarrow> 'a option" where
  "find_from f [] = f []"
| "find_from f (c # cs) = (case f (c # cs) of None \<Rightarrow> find_from f cs | Some x \<Rightarrow> Some x)"

definition strip_prefix_ci :: "string \<Rightarrow> string \<Rightarrow> string option" where
  "strip_prefix_ci p s = (if py_lower (take (length p) s) = p then Some (drop (length p) s) else None)"

text \<open>What follows \<open><app\<close>: a closing bracket at once, or white space and attributes up to one; then the name up to the
  next tag, which closes the element.\<close>

definition app_name :: "string \<Rightarrow> string \<Rightarrow> (string \<times> string) option" where
  "app_name attrs s =
     (if strip_prefix_ci ''</app>'' (dropWhile (\<lambda>c. c \<noteq> CHR ''<'') s) = None then None
      else Some (attrs, takeWhile (\<lambda>c. c \<noteq> CHR ''<'') s))"

definition app_at :: "string \<Rightarrow> (string \<times> string) option" where
  "app_at s =
     (case strip_prefix_ci ''<app'' s of
        None \<Rightarrow> None
      | Some [] \<Rightarrow> None
      | Some (c # rest) \<Rightarrow>
          (if c = CHR ''>'' then app_name [] rest
           else if \<not> py_isspace c then None
           else let attrs = dropWhile py_isspace rest; after = dropWhile (\<lambda>x. x \<noteq> CHR ''>'') attrs in
             (case after of [] \<Rightarrow> None | _ # body \<Rightarrow> app_name (takeWhile (\<lambda>x. x \<noteq> CHR ''>'') attrs) body)))"

definition word_char :: "char \<Rightarrow> bool" where
  "word_char c \<longleftrightarrow> is_digit c \<or> is_alpha c \<or> c = CHR ''_''"

definition screensaver_at :: "string \<Rightarrow> unit option" where
  "screensaver_at s =
     (case strip_prefix_ci ''<screensaver'' s of
        Some (c # rest) \<Rightarrow> if \<not> word_char c \<and> CHR ''>'' \<in> set (c # rest) then Some () else None
      | _ \<Rightarrow> None)"

definition id_at :: "string \<Rightarrow> string option" where
  "id_at s = (if starts_with s (''id='' @ [CHR 0x22]) \<and> CHR 0x22 \<in> set (drop 4 s) then Some (takeWhile (\<lambda>c. c \<noteq> CHR 0x22) (drop 4 s)) else None)"

definition opt_text_value :: "string \<Rightarrow> pyval" where
  "opt_text_value s = (if s = [] then VNone else VStr s)"

definition parse_roku_active_app :: "string \<Rightarrow> pydict" where
  "parse_roku_active_app xml =
     (let app = find_from app_at xml in
      [(''active_app'', case app of None \<Rightarrow> VNone | Some (_, name) \<Rightarrow> opt_text_value (py_strip name)),
       (''active_app_id'', case app of None \<Rightarrow> VNone | Some (attrs, _) \<Rightarrow> of_opt_str (find_from id_at attrs)),
       (''screensaver_active'', VBool (find_from screensaver_at xml \<noteq> None)), (''raw_xml'', VStr (take 500 xml))])"

definition poll_roku :: "world \<Rightarrow> string \<Rightarrow> int \<Rightarrow> py_exc + pydict" where
  "poll_roku W host port =
     attempt (w_fetch W \<lparr>hc_https = False, hc_verified = False, hc_host = host, hc_port = port, hc_path = ''/query/active-app'',
                         hc_headers = [USER_AGENT]\<rparr>)
       (\<lambda>r. if hr_status r \<noteq> 200 then runtime_error (''Roku ECP HTTP '' @ show_int (hr_status r))
            else Inr (parse_roku_active_app (hr_body r)))"

section \<open>Home Assistant\<close>

definition clip_attribute :: "pyval \<Rightarrow> pyval" where
  "clip_attribute v =
     (case v of VStr s \<Rightarrow> if length s < 200 then v else VStr (take 200 s @ [CHR 0xE2, CHR 0x80, CHR 0xA6]) | _ \<Rightarrow> v)"

definition clip_attributes :: "pyval \<Rightarrow> pydict" where
  "clip_attributes attrs =
     map (\<lambda>(k, v). (k, clip_attribute v))
       (filter (\<lambda>kv. \<not> starts_with (fst kv) ''device_'' \<and> \<not> starts_with (fst kv) ''entity_picture'') (dict_of attrs))"

text \<open>A key that is not a string is written to JSON by its text; lists and dictionaries cannot be keys.\<close>

definition entity_key :: "env \<Rightarrow> pyval \<Rightarrow> py_exc + string" where
  "entity_key E v =
     (case v of VStr s \<Rightarrow> Inr s | VBool b \<Rightarrow> Inr (if b then ''true'' else ''false'') | VList _ \<Rightarrow> Inl (TypeExc ''unhashable'')
      | VDict _ \<Rightarrow> Inl (TypeExc ''unhashable'') | _ \<Rightarrow> Inr (py_str E v))"

fun collect_entities :: "env \<Rightarrow> pydict \<Rightarrow> pyval list \<Rightarrow> py_exc + pydict" where
  "collect_entities E out [] = Inr out"
| "collect_entities E out (v # vs) =
     (case v of
        VDict d \<Rightarrow>
          (if \<not> truthy (dget d ''entity_id'') then collect_entities E out vs
           else attempt (entity_key E (dget d ''entity_id''))
             (\<lambda>k. collect_entities E
               (dset out k (VDict [(''state'', dget d ''state''), (''last_changed'', dget d ''last_changed''),
                                   (''attributes'', VDict (clip_attributes (dget d ''attributes'')))])) vs))
      | _ \<Rightarrow> collect_entities E out vs)"

definition poll_home_assistant :: "env \<Rightarrow> world \<Rightarrow> string \<Rightarrow> int \<Rightarrow> pydict \<Rightarrow> py_exc + pydict" where
  "poll_home_assistant E W host port cfg =
     attempt (strip_or (dget cfg ''token'')) (\<lambda>token.
       if token = [] then runtime_error ''home_assistant config.token is required''
       else attempt (w_fetch W \<lparr>hc_https = (port = 443 \<or> port = 8123 \<and> truthy (dget cfg ''https'')),
                                hc_verified = (if dhas cfg ''verify_ssl'' then truthy (dget cfg ''verify_ssl'') else True),
                                hc_host = host, hc_port = port, hc_path = ''/api/states'',
                                hc_headers = [(''Authorization'', ''Bearer '' @ token), (''Accept'', ''application/json''), USER_AGENT]\<rparr>)
         (\<lambda>r. if hr_status r = 401 then runtime_error (''home_assistant 401 '' @ [CHR 0xE2, CHR 0x80, CHR 0x94] @ '' bad/expired token'')
              else if hr_status r \<noteq> 200 then runtime_error (''home_assistant HTTP '' @ show_int (hr_status r))
              else attempt (parse_body W ''home_assistant'' (hr_body r)) (\<lambda>v. case v of
                VList states \<Rightarrow>
                  attempt (collect_entities E [] (take 1000 states))
                    (\<lambda>out. Inr [(''entity_count'', VInt (int (length out))), (''entities'', VDict out)])
              | _ \<Rightarrow> runtime_error ''home_assistant /api/states returned non-list'')))"

section \<open>Weather alerts\<close>

text \<open>\<open>(v or "")[:300]\<close>.\<close>

definition head_or :: "nat \<Rightarrow> pyval \<Rightarrow> py_exc + pyval" where
  "head_or n v =
     (if \<not> truthy v then Inr (VStr []) else case v of VStr s \<Rightarrow> Inr (VStr (take n s)) | VList xs \<Rightarrow> Inr (VList (take n xs)) | _ \<Rightarrow> Inl (TypeExc ''slice''))"

text \<open>What a \<open>for\<close> loop visits.\<close>

definition iter_or_raise :: "pyval \<Rightarrow> py_exc + pyval list" where
  "iter_or_raise v =
     (case v of VList xs \<Rightarrow> Inr xs | VDict d \<Rightarrow> Inr (map (VStr \<circ> fst) d) | VStr s \<Rightarrow> Inr (map (\<lambda>c. VStr [c]) s) | _ \<Rightarrow> Inl (TypeExc ''iter''))"

definition alert_of :: "pyval \<Rightarrow> py_exc + pyval" where
  "alert_of f =
     attempt (case f of VDict d \<Rightarrow> Inr (dict_or (dget d ''properties'')) | _ \<Rightarrow> Inr (VDict [])) (\<lambda>props.
     attempt (attempt (dict_get props ''event'') strip_or) (\<lambda>event.
     attempt (attempt (dict_get props ''severity'') strip_or) (\<lambda>severity.
     attempt (attempt (dict_get props ''headline'') (head_or 300)) (\<lambda>headline.
     attempt (dict_get props ''effective'') (\<lambda>effective.
     attempt (dict_get props ''ends'') (\<lambda>ends.
     attempt (dict_get props ''expires'') (\<lambda>expires.
       Inr (VDict [(''event'', VStr event), (''severity'', VStr severity), (''headline'', headline), (''effective'', effective),
                   (''ends'', value_or ends expires)]))))))))"

definition poll_weather :: "world \<Rightarrow> (number \<Rightarrow> pyval) \<Rightarrow> pydict \<Rightarrow> py_exc + pydict" where
  "poll_weather W N cfg =
     attempt (to_float (value_or (dget cfg ''lat'') (VInt 0))) (\<lambda>lat.
     attempt (to_float (value_or (dget cfg ''lng'') (VInt 0))) (\<lambda>lng.
     attempt (w_fetch W \<lparr>hc_https = True, hc_verified = True, hc_host = ''api.weather.gov'', hc_port = 443,
                         hc_path = ''/alerts/active?point='' @ w_fixed4 W lat @ '','' @ w_fixed4 W lng,
                         hc_headers = [(''User-Agent'', ''rebooter-droids/B17 (https://github.com/dblagbro/rebooter-droids)''),
                                       (''Accept'', ''application/geo+json'')]\<rparr>) (\<lambda>r.
       if hr_status r = 301 \<or> hr_status r = 302
       then runtime_error (''weather redirect to '' @ w_repr W (opt_text (hr_location r)) @ '' not followed'')
       else if hr_status r \<noteq> 200 then runtime_error (''weather HTTP '' @ show_int (hr_status r))
       else attempt (parse_body W ''weather'' (hr_body r)) (\<lambda>v.
            attempt (dict_get v ''features'') (\<lambda>f.
            attempt (iter_or_raise (value_or f (VList []))) (\<lambda>features.
            attempt (attempt_all alert_of features) (\<lambda>alerts.
              Inr [(''lat'', of_number N lat), (''lng'', of_number N lng), (''alerts'', VList alerts),
                   (''alert_count'', VInt (int (length alerts)))])))))))"

section \<open>Calendars\<close>

text \<open>\<open>BEGIN:VEVENT(.*?)END:VEVENT\<close> from left to right, in any case.\<close>

definition block_end :: "string \<Rightarrow> (string \<times> string) option" where
  "block_end s =
     (case List.find (\<lambda>i. strip_prefix_ci ''end:vevent'' (drop i s) \<noteq> None) [0..<Suc (length s)] of
        None \<Rightarrow> None | Some i \<Rightarrow> Some (take i s, drop (i + length ''end:vevent'') s))"

function vevent_blocks :: "string \<Rightarrow> string list" where
  "vevent_blocks s =
     (case s of
        [] \<Rightarrow> []
      | c # cs \<Rightarrow>
          (case strip_prefix_ci ''begin:vevent'' s of
             None \<Rightarrow> vevent_blocks cs
           | Some rest \<Rightarrow> (case block_end rest of None \<Rightarrow> vevent_blocks cs | Some (b, after) \<Rightarrow> b # vevent_blocks after)))"
  by pat_completeness auto

lemma block_end_shorter: "block_end s = Some (b, t) \<Longrightarrow> length t \<le> length s"
  by (auto simp: block_end_def split: option.splits)

lemma strip_prefix_shorter: "strip_prefix_ci p s = Some t \<Longrightarrow> length t \<le> length s"
  by (auto simp: strip_prefix_ci_def split: if_splits)

lemma strip_prefix_strict: "strip_prefix_ci p s = Some t \<Longrightarrow> p \<noteq> [] \<Longrightarrow> length t < length s"
  by (cases s) (auto simp: strip_prefix_ci_def py_lower_def split: if_splits)

lemma vevent_shorter:
  "strip_prefix_ci ''begin:vevent'' s = Some rest \<Longrightarrow> block_end rest = Some (b, after) \<Longrightarrow> length after < length s"
  using strip_prefix_strict [of "''begin:vevent''" s rest] block_end_shorter [of rest b after] by simp

termination vevent_blocks
  by (relation "measure length") (auto dest: vevent_shorter)

declare vevent_blocks.simps [simp del]

text \<open>Unfolding: a line end followed by a space or a tab is dropped.\<close>

fun unfold_lines :: "string \<Rightarrow> string" where
  "unfold_lines [] = []"
| "unfold_lines (a # s) =
     (case s of
        b # c # rest \<Rightarrow>
          (if a = CHR 0x0D \<and> b = CHR 0x0A \<and> (c = CHR '' '' \<or> c = CHR 0x09) then unfold_lines rest
           else if a = CHR 0x0A \<and> (b = CHR '' '' \<or> b = CHR 0x09) then unfold_lines (c # rest)
           else a # unfold_lines s)
      | [b] \<Rightarrow> (if a = CHR 0x0A \<and> (b = CHR '' '' \<or> b = CHR 0x09) then [] else a # unfold_lines s)
      | [] \<Rightarrow> [a])"

text \<open>\<open>NAME[;parameters]:value\<close>, the name of capital letters and hyphens.\<close>

definition key_char :: "char \<Rightarrow> bool" where
  "key_char c \<longleftrightarrow> (let n = of_char c :: nat in 65 \<le> n \<and> n \<le> 90) \<or> c = CHR ''-''"

definition ical_pair :: "string \<Rightarrow> (string \<times> string) option" where
  "ical_pair line =
     (let key = takeWhile key_char line; rest = dropWhile key_char line in
      if key = [] then None
      else case rest of
        [] \<Rightarrow> None
      | c # cs \<Rightarrow>
          (if c = CHR '':'' then Some (key, cs)
           else if c = CHR '';'' then (case dropWhile (\<lambda>x. x \<noteq> CHR '':'') cs of [] \<Rightarrow> None | _ # value \<Rightarrow> Some (key, value))
           else None))"

definition ical_fields :: "string \<Rightarrow> (string \<times> string) list" where
  "ical_fields block = rev (List.map_filter (\<lambda>l. ical_pair (py_strip l)) (split_lines (unfold_lines block)))"

text \<open>A field assigned twice keeps its last value: the list is reversed, so the lookup finds that one.\<close>

definition parse_ical_dt :: "world \<Rightarrow> string option \<Rightarrow> instant option" where
  "parse_ical_dt W raw0 =
     (case raw0 of
        None \<Rightarrow> None
      | Some [] \<Rightarrow> None
      | Some text \<Rightarrow>
          (let raw = py_strip text in
           if length raw = 8 \<and> list_all is_digit raw then w_strptime W ''%Y%m%d'' raw
           else case w_strptime W ''%Y%m%dT%H%M%SZ'' raw of Some t \<Rightarrow> Some t | None \<Rightarrow> w_strptime W ''%Y%m%dT%H%M%S'' raw))"

definition ical_event :: "env \<Rightarrow> world \<Rightarrow> string \<Rightarrow> (instant \<times> pydict) option" where
  "ical_event E W block =
     (let ev = ical_fields block; start = parse_ical_dt W (map_of ev ''DTSTART'');
          stop = (case parse_ical_dt W (map_of ev ''DTEND'') of None \<Rightarrow> start | Some t \<Rightarrow> Some t)
      in case (start, stop) of
           (Some a, Some b) \<Rightarrow>
             (if b < env_now E \<or> env_now E + secs (24 * 3600) < a then None
              else Some (a, [(''summary'', VStr (take 300 (opt_text (map_of ev ''SUMMARY'')))), (''start'', VStr (env_isoformat E a)),
                             (''end'', VStr (env_isoformat E b)), (''uid'', VStr (take 120 (opt_text (map_of ev ''UID''))))]))
         | _ \<Rightarrow> None)"

definition event_start :: "pydict \<Rightarrow> string" where
  "event_start e = (case dget e ''start'' of VStr s \<Rightarrow> s | _ \<Rightarrow> [])"

definition parse_ical_events :: "env \<Rightarrow> world \<Rightarrow> string \<Rightarrow> pydict list" where
  "parse_ical_events E W body = sort_key event_start (map snd (List.map_filter (ical_event E W) (vevent_blocks body)))"

definition poll_ical :: "env \<Rightarrow> world \<Rightarrow> pydict \<Rightarrow> py_exc + pydict" where
  "poll_ical E W cfg =
     attempt (strip_or (dget cfg ''url'')) (\<lambda>url.
       if url = [] then runtime_error ''ical config.url is required''
       else attempt (w_urlparse W url) (\<lambda>(scheme, host, port, path, query).
         if scheme \<noteq> ''http'' \<and> scheme \<noteq> ''https'' then runtime_error ''ical url must use http:// or https://''
         else attempt (w_fetch W \<lparr>hc_https = (scheme = ''https''), hc_verified = True, hc_host = host,
                hc_port = (case port of None \<Rightarrow> (if scheme = ''https'' then 443 else 80) | Some p \<Rightarrow> if p = 0 then (if scheme = ''https'' then 443 else 80) else p),
                hc_path = (if path = [] then ''/'' else path) @ (if query = [] then [] else CHR ''?'' # query),
                hc_headers = [USER_AGENT, (''Accept'', ''text/calendar, text/plain;q=0.9, */*;q=0.5'')]\<rparr>) (\<lambda>r.
           if hr_status r \<noteq> 200 then runtime_error (''ical HTTP '' @ show_int (hr_status r))
           else let events = parse_ical_events E W (hr_body r)
                in Inr [(''event_count'', VInt (int (length events))), (''events'', VList (map VDict (take 50 events)))])))"

section \<open>Google calendars\<close>

definition google_credentials :: "env \<Rightarrow> ctx \<Rightarrow> hub \<Rightarrow> string option \<times> string option" where
  "google_credentials E c h =
     (let read = (\<lambda>name var. or_else (Some (py_strip (py_str E (value_or (settings_get c (h_settings h) name (Some var) VNone) (VStr []))))) None)
      in (read ''google.oauth_client_id'' ''REBOOTER_GOOGLE_OAUTH_CLIENT_ID'',
          read ''google.oauth_client_secret'' ''REBOOTER_GOOGLE_OAUTH_CLIENT_SECRET''))"

definition google_is_configured :: "env \<Rightarrow> ctx \<Rightarrow> hub \<Rightarrow> bool" where
  "google_is_configured E c h = (case google_credentials E c h of (Some _, Some _) \<Rightarrow> True | _ \<Rightarrow> False)"

text \<open>\<open>GoogleOAuthError\<close> carries a code and a message; any other exception passes through.\<close>

datatype google_error = GoogleOAuthError string string | GoogleRaised py_exc

definition build_consent_url :: "env \<Rightarrow> world \<Rightarrow> string \<Rightarrow> string \<Rightarrow> ctx \<Rightarrow> hub \<Rightarrow> google_error + string" where
  "build_consent_url E W redirect_uri state c h =
     (case fst (google_credentials E c h) of
        None \<Rightarrow> Inl (GoogleOAuthError ''not_configured'' ''Google OAuth client credentials are not set.'')
      | Some cid \<Rightarrow> Inr (''https://accounts.google.com/o/oauth2/v2/auth?'' @ w_urlencode W
          [(''client_id'', cid), (''redirect_uri'', redirect_uri), (''response_type'', ''code''),
           (''scope'', ''https://www.googleapis.com/auth/calendar.readonly''), (''access_type'', ''offline''), (''prompt'', ''consent''),
           (''state'', state)]))"

definition google_fetch_json :: "world \<Rightarrow> string \<Rightarrow> (string \<times> string) list \<Rightarrow> (string \<times> string) list option \<Rightarrow> google_error + pyval" where
  "google_fetch_json W url headers form =
     (case w_open W url headers form of
        HttpError code detail \<Rightarrow> Inl (GoogleOAuthError ''http_error'' (''Google API HTTP '' @ show_int code @ '': '' @ take 300 detail))
      | UrlError reason \<Rightarrow> Inl (GoogleOAuthError ''transport_error'' (''Google API unreachable: '' @ reason))
      | OpenRaised e \<Rightarrow> Inl (GoogleRaised e)
      | Opened body \<Rightarrow>
          (case w_json W body of Inl t \<Rightarrow> Inl (GoogleOAuthError ''bad_response'' (''Google API returned non-JSON: '' @ t)) | Inr v \<Rightarrow> Inr v))"

definition TOKEN_URL :: string where "TOKEN_URL = ''https://oauth2.googleapis.com/token''"

definition exchange_code :: "env \<Rightarrow> world \<Rightarrow> string \<Rightarrow> string \<Rightarrow> ctx \<Rightarrow> hub \<Rightarrow> google_error + pydict" where
  "exchange_code E W code redirect_uri c h =
     (case google_credentials E c h of
        (Some cid, Some secret) \<Rightarrow>
          (case google_fetch_json W TOKEN_URL [] (Some [(''code'', code), (''client_id'', cid), (''client_secret'', secret),
                  (''redirect_uri'', redirect_uri), (''grant_type'', ''authorization_code'')]) of
             Inl e \<Rightarrow> Inl e
           | Inr (VDict tok) \<Rightarrow>
               (if truthy (dget tok ''refresh_token'') then Inr tok
                else Inl (GoogleOAuthError ''no_refresh_token''
                  (''Google did not return a refresh token '' @ [CHR 0xE2, CHR 0x80, CHR 0x94] @ '' reconnect and grant offline access.'')))
           | Inr v \<Rightarrow> Inl (GoogleRaised (AttributeExc v ''get'')))
      | _ \<Rightarrow> Inl (GoogleOAuthError ''not_configured'' ''Google OAuth client credentials are not set.''))"

definition refresh_access_token :: "env \<Rightarrow> world \<Rightarrow> string \<Rightarrow> ctx \<Rightarrow> hub \<Rightarrow> google_error + pyval" where
  "refresh_access_token E W refresh c h =
     (case google_credentials E c h of
        (Some cid, Some secret) \<Rightarrow>
          google_fetch_json W TOKEN_URL [] (Some [(''refresh_token'', refresh), (''client_id'', cid), (''client_secret'', secret),
            (''grant_type'', ''refresh_token'')])
      | _ \<Rightarrow> Inl (GoogleOAuthError ''not_configured'' ''Google OAuth client credentials are not set.''))"

definition as_runtime :: "string \<Rightarrow> google_error \<Rightarrow> py_exc" where
  "as_runtime what e = (case e of GoogleOAuthError _ m \<Rightarrow> RuntimeExc (what @ m) | GoogleRaised x \<Rightarrow> x)"

text \<open>One event; \<open>None\<close> is skipped.\<close>

definition gcal_event :: "env \<Rightarrow> pyval \<Rightarrow> py_exc + pydict option" where
  "gcal_event E v =
     (case v of
        VDict ev \<Rightarrow>
          (let start = dict_or (dget ev ''start''); stop = dict_or (dget ev ''end'') in
           attempt (dict_get start ''dateTime'') (\<lambda>a.
           attempt (dict_get start ''date'') (\<lambda>b.
             if \<not> truthy (value_or a b) then Inr None
             else attempt (dict_get stop ''dateTime'') (\<lambda>x.
                  attempt (dict_get stop ''date'') (\<lambda>y.
                    Inr (Some [(''summary'', VStr (take 300 (py_str E (value_or (dget ev ''summary'') (VStr []))))), (''start'', value_or a b),
                               (''end'', value_or x y)]))))))
      | _ \<Rightarrow> Inr None)"

text \<open>Strings compare with strings and numbers with numbers; a start that is a list is outside the model.\<close>

definition sort_by_start :: "pydict list \<Rightarrow> py_exc + pydict list" where
  "sort_by_start es =
     (if length es \<le> 1 then Inr es
      else if list_all (\<lambda>e. is_str (dget e ''start'')) es then Inr (sort_key event_start es)
      else if list_all (\<lambda>e. case dget e ''start'' of VInt _ \<Rightarrow> True | VFloat _ \<Rightarrow> True | VBool _ \<Rightarrow> True | _ \<Rightarrow> False) es
      then Inr (sort_key (\<lambda>e. case dget e ''start'' of VFloat r \<Rightarrow> r | v \<Rightarrow> of_int (int_of v)) es)
      else Inl (TypeExc ''<''))"

definition normalise_gcal_events :: "env \<Rightarrow> pyval \<Rightarrow> py_exc + pydict list" where
  "normalise_gcal_events E items =
     attempt (iter_or_raise (value_or items (VList []))) (\<lambda>vs.
     attempt (attempt_all (gcal_event E) vs) (\<lambda>es. sort_by_start (List.map_filter id es)))"

definition utc_offset_text :: "instant \<Rightarrow> string" where
  "utc_offset_text t = butlast (iso_z t) @ ''+00:00''"

definition token_fresh :: "env \<Rightarrow> pydict \<Rightarrow> bool" where
  "token_fresh E cfg \<longleftrightarrow>
     truthy (dget cfg ''access_token'') \<and> truthy (dget cfg ''access_token_expires_at'')
   \<and> (case env_fromiso E (py_str E (dget cfg ''access_token_expires_at'')) of None \<Rightarrow> False | Some t \<Rightarrow> env_now E + secs 60 < t)"

text \<open>The token to call with and the configuration to keep: the old one, or the one with a refreshed token.\<close>

definition google_token :: "env \<Rightarrow> world \<Rightarrow> string \<Rightarrow> pydict \<Rightarrow> ctx \<Rightarrow> hub \<Rightarrow> py_exc + (pyval \<times> pydict)" where
  "google_token E W refresh cfg c h =
     (if token_fresh E cfg then Inr (dget cfg ''access_token'', cfg)
      else case refresh_access_token E W refresh c h of
        Inl e \<Rightarrow> Inl (as_runtime ''google_calendar token refresh failed: '' e)
      | Inr tok \<Rightarrow>
          attempt (dict_get tok ''access_token'') (\<lambda>token.
            if \<not> truthy token then runtime_error ''google_calendar token refresh returned no access_token''
            else attempt (dict_get tok ''expires_in'') (\<lambda>expires.
              let t = env_now E + secs (int_or 3600 expires)
              in if \<not> in_datetime_range t then Inl OverflowExc
                 else Inr (token, dset (dset cfg ''access_token'' token) ''access_token_expires_at'' (VStr (utc_offset_text t))))))"

definition google_events :: "env \<Rightarrow> world \<Rightarrow> string \<Rightarrow> pyval \<Rightarrow> py_exc + pydict" where
  "google_events E W calendar token =
     (let url = ''https://www.googleapis.com/calendar/v3/calendars/'' @ w_quote W [] calendar @ ''/events?'' @ w_urlencode W
            [(''timeMin'', iso_z (env_now E)), (''timeMax'', iso_z (env_now E + secs (24 * 3600))), (''singleEvents'', ''true''),
             (''orderBy'', ''startTime''), (''maxResults'', ''50'')]
      in case google_fetch_json W url [(''Authorization'', ''Bearer '' @ py_str E token)] None of
           Inl e \<Rightarrow> Inl (as_runtime ''google_calendar API error: '' e)
         | Inr v \<Rightarrow>
             attempt (dict_get v ''items'') (\<lambda>items.
             attempt (normalise_gcal_events E items) (\<lambda>events.
               Inr [(''event_count'', VInt (int (length events))), (''events'', VList (map VDict (take 50 events)))])))"

text \<open>A refreshed token is kept even when the calendar call then fails.\<close>

definition poll_google_calendar :: "env \<Rightarrow> world \<Rightarrow> pydict \<Rightarrow> ctx \<Rightarrow> hub \<Rightarrow> pydict \<times> (py_exc + pydict)" where
  "poll_google_calendar E W cfg c h =
     (let refresh = text_setting E cfg ''refresh_token'' []; calendar = text_setting E cfg ''calendar_id'' ''primary'' in
      if refresh = [] then (cfg, runtime_error ''google_calendar source has no refresh_token'')
      else case google_token E W refresh cfg c h of
        Inl e \<Rightarrow> (cfg, Inl e)
      | Inr (token, cfg') \<Rightarrow> (cfg', google_events E W (if calendar = [] then ''primary'' else calendar) token))"

section \<open>Solar\<close>

definition member_or :: "pyval \<Rightarrow> string \<Rightarrow> py_exc + pyval" where
  "member_or v k = map_sum id dict_or (dict_get v k)"

definition nested_num :: "(number \<Rightarrow> pyval) \<Rightarrow> pyval \<Rightarrow> string \<Rightarrow> string \<Rightarrow> py_exc + pyval" where
  "nested_num N v k field = attempt (member_or v k) (\<lambda>inner. attempt (dict_get inner field) (num_value N))"

definition poll_solaredge :: "world \<Rightarrow> (number \<Rightarrow> pyval) \<Rightarrow> pydict \<Rightarrow> py_exc + pydict" where
  "poll_solaredge W N cfg =
     attempt (strip_or (dget cfg ''site_id'')) (\<lambda>site.
     attempt (strip_or (dget cfg ''api_key'')) (\<lambda>key.
       if site = [] \<or> key = [] then runtime_error ''solaredge config requires site_id + api_key''
       else attempt (w_fetch W \<lparr>hc_https = True, hc_verified = True, hc_host = ''monitoringapi.solaredge.com'', hc_port = 443,
              hc_path = ''/site/'' @ w_quote W ''/'' site @ ''/overview?api_key='' @ w_quote W ''/'' key,
              hc_headers = [USER_AGENT, (''Accept'', ''application/json'')]\<rparr>) (\<lambda>r.
         if hr_status r = 403 then runtime_error (''solaredge 403 '' @ [CHR 0xE2, CHR 0x80, CHR 0x94] @ '' bad api_key or site not authorized'')
         else if hr_status r = 429 then runtime_error (''solaredge 429 '' @ [CHR 0xE2, CHR 0x80, CHR 0x94] @ '' rate limited (300 requests/day cap)'')
         else if hr_status r \<noteq> 200 then runtime_error (''solaredge HTTP '' @ show_int (hr_status r))
         else attempt (parse_body W ''solaredge'' (hr_body r)) (\<lambda>v.
           let overview = dict_or (dget (dict_of v) ''overview'') in
           attempt (nested_num N overview ''currentPower'' ''power'') (\<lambda>power.
           attempt (nested_num N overview ''lifeTimeData'' ''energy'') (\<lambda>lifetime.
           attempt (nested_num N overview ''lastDayData'' ''energy'') (\<lambda>day.
           attempt (dict_get overview ''lastUpdateTime'') (\<lambda>updated.
             Inr [(''vendor'', VStr ''solaredge''), (''production_w'', power), (''lifetime_energy_wh'', lifetime), (''day_energy_wh'', day),
                  (''last_update_time'', updated)]))))))))"

definition reading_of_type :: "string \<Rightarrow> pyval list \<Rightarrow> pyval" where
  "reading_of_type t vs =
     (case find (\<lambda>v. is_dict v \<and> dget (dict_of v) ''type'' = VStr t) vs of None \<Rightarrow> VNone | Some v \<Rightarrow> v)"

definition poll_enphase_envoy :: "world \<Rightarrow> (number \<Rightarrow> pyval) \<Rightarrow> string \<Rightarrow> int \<Rightarrow> pydict \<Rightarrow> py_exc + pydict" where
  "poll_enphase_envoy W N host port cfg =
     attempt (strip_or (dget cfg ''jwt'')) (\<lambda>jwt.
       let use_https = (jwt \<noteq> [] \<or> port = 443) in
       attempt (w_fetch W \<lparr>hc_https = use_https, hc_verified = False, hc_host = host,
            hc_port = (if use_https then (if port \<noteq> 0 \<and> port \<noteq> 80 then port else 443) else (if port = 0 then 80 else port)),
            hc_path = ''/production.json'',
            hc_headers = [USER_AGENT, (''Accept'', ''application/json'')] @ (if jwt = [] then [] else [(''Authorization'', ''Bearer '' @ jwt)])\<rparr>) (\<lambda>r.
         if hr_status r = 401
         then runtime_error (''enphase_envoy 401 '' @ [CHR 0xE2, CHR 0x80, CHR 0x94] @ '' a JWT is required (firmware-7.0+ Envoy); set config.jwt'')
         else if hr_status r \<noteq> 200 then runtime_error (''enphase_envoy HTTP '' @ show_int (hr_status r))
         else attempt (parse_body W ''enphase_envoy'' (hr_body r)) (\<lambda>v.
           (case dget (dict_of v) ''production'' of
              VList production \<Rightarrow>
                (let chosen = dict_of (value_or (reading_of_type ''eim'' production) (reading_of_type ''inverters'' production)) in
                 attempt (num_value N (dget chosen ''wNow'')) (\<lambda>now_w.
                 attempt (num_value N (dget chosen ''whLifetime'')) (\<lambda>lifetime.
                   Inr [(''vendor'', VStr ''enphase_envoy''), (''production_w'', now_w), (''lifetime_energy_wh'', lifetime),
                        (''active_count'', dget chosen ''activeCount''), (''reading_type'', dget chosen ''type'')])))
            | _ \<Rightarrow> runtime_error ''enphase_envoy /production.json missing production array''))))"

section \<open>SNMP\<close>

definition SNMP_IFTABLE_COLS :: "(string \<times> string) list" where
  "SNMP_IFTABLE_COLS = [(''8'', ''oper_status''), (''13'', ''in_discards''), (''14'', ''in_errors''), (''19'', ''out_discards''), (''20'', ''out_errors'')]"

definition SNMP_IFXTABLE_COLS :: "(string \<times> string) list" where
  "SNMP_IFXTABLE_COLS = [(''1'', ''if_name''), (''6'', ''in_octets''), (''10'', ''out_octets''), (''15'', ''speed_mbps'')]"

definition SNMP_OPER_STATUS :: "(string \<times> string) list" where
  "SNMP_OPER_STATUS = [(''1'', ''up''), (''2'', ''down''), (''3'', ''testing''), (''4'', ''unknown''), (''5'', ''dormant''),
     (''6'', ''notPresent''), (''7'', ''lowerLayerDown'')]"

definition snmp_auth_args :: "env \<Rightarrow> pydict \<Rightarrow> py_exc + string list" where
  "snmp_auth_args E cfg =
     (let text = (\<lambda>d k dflt. py_str E (value_or (dget d k) (VStr dflt))) in
      attempt (strip_or (value_or (dget cfg ''version'') (VStr ''2c''))) (\<lambda>version.
        if py_lower version \<noteq> ''3'' then Inr [''-v'', ''2c'', ''-c'', text cfg ''community'' []]
        else case dict_or (dget cfg ''v3'') of
          VDict v3 \<Rightarrow> Inr [''-v'', ''3'', ''-l'', ''authPriv'', ''-u'', text v3 ''user'' [], ''-a'', text v3 ''auth_proto'' ''SHA'',
                          ''-A'', text v3 ''auth_key'' [], ''-x'', text v3 ''priv_proto'' ''AES'', ''-X'', text v3 ''priv_key'' []]
        | v \<Rightarrow> Inl (AttributeExc v ''get'')))"

definition text_lines :: "string \<Rightarrow> string list" where
  "text_lines s = filter (\<lambda>l. l \<noteq> []) (map py_strip (split_lines s))"

definition run_snmp :: "world \<Rightarrow> string \<Rightarrow> string list \<Rightarrow> string \<Rightarrow> string \<Rightarrow> py_exc + string" where
  "run_snmp W binary auth target oid =
     (case w_snmp W binary ([''-Oqn'', ''-t'', ''5'', ''-r'', ''1''] @ auth) target oid of
        SnmpMissing \<Rightarrow> runtime_error (''net-snmp not installed in container ('' @ binary @ '' missing)'')
      | SnmpTimeout \<Rightarrow> runtime_error (''snmp timeout polling '' @ target)
      | SnmpExit code out err \<Rightarrow>
          (if code = 0 then Inr out
           else case filter (\<lambda>l. \<not> starts_with l ''Created directory:'') (text_lines (if err = [] then out else err)) of
             [] \<Rightarrow> runtime_error ''snmp error: unknown''
           | l # _ \<Rightarrow> runtime_error (''snmp error: '' @ l)))"

text \<open>\<open>line.split(None, 1)\<close> of a stripped line: the first word and what follows the white space after it.\<close>

definition first_word :: "string \<Rightarrow> string \<times> string" where
  "first_word l = (takeWhile (\<lambda>c. \<not> py_isspace c) l, dropWhile py_isspace (dropWhile (\<lambda>c. \<not> py_isspace c) l))"

text \<open>\<open>.<oid> <value>\<close>: the row is the last component of the OID, the column the one before it.\<close>

definition snmp_cell :: "(string \<times> string) list \<Rightarrow> string \<Rightarrow> (string \<times> string \<times> string) option" where
  "snmp_cell cols l =
     (let (oid, v) = first_word l in
      if v = [] then None
      else case rev (split_on (CHR ''.'') (dropWhile (\<lambda>c. c = CHR ''.'') oid)) of
        row # col # _ \<Rightarrow> map_option (\<lambda>field. (row, field, py_strip v)) (map_of cols col)
      | _ \<Rightarrow> None)"

type_synonym snmp_table = "(string \<times> (string \<times> string) list) list"

definition put_cell :: "snmp_table \<Rightarrow> string \<times> string \<times> string \<Rightarrow> snmp_table" where
  "put_cell t = (\<lambda>(row, field, v). AList.update row (AList.update field v (case map_of t row of None \<Rightarrow> [] | Some r \<Rightarrow> r)) t)"

definition parse_snmp_table :: "string \<Rightarrow> (string \<times> string) list \<Rightarrow> snmp_table" where
  "parse_snmp_table out cols = foldl put_cell [] (List.map_filter (snmp_cell cols) (text_lines out))"

definition strip_dquotes :: "string \<Rightarrow> string" where
  "strip_dquotes s = rev (dropWhile (\<lambda>c. c = CHR 0x22) (rev (dropWhile (\<lambda>c. c = CHR 0x22) s)))"

definition last_part :: "string \<Rightarrow> string" where
  "last_part l = (let (a, b) = first_word l in py_strip (if b = [] then a else b))"

definition int_value :: "string option \<Rightarrow> pyval" where
  "int_value v = (case v of None \<Rightarrow> VNone | Some s \<Rightarrow> of_opt_int (int_of_string s))"

definition row_fields :: "snmp_table \<Rightarrow> string \<Rightarrow> (string \<times> string) list" where
  "row_fields t i = (case map_of t i of None \<Rightarrow> [] | Some r \<Rightarrow> r)"

definition snmp_interface :: "snmp_table \<Rightarrow> snmp_table \<Rightarrow> string \<Rightarrow> string \<times> pydict" where
  "snmp_interface ift ifx i =
     (let a = row_fields ift i; b = row_fields ifx i;
          name = strip_dquotes (py_strip (opt_text (map_of b ''if_name'')));
          status = (case map_of a ''oper_status'' of None \<Rightarrow> ''None'' | Some v \<Rightarrow> v)
      in (if name = [] then ''if'' @ i else name,
          [(''if_index'', int_value (Some i)), (''oper_status'', VStr (case map_of SNMP_OPER_STATUS status of None \<Rightarrow> status | Some t \<Rightarrow> t)),
           (''speed_mbps'', int_value (map_of b ''speed_mbps'')), (''in_octets'', int_value (map_of b ''in_octets'')),
           (''out_octets'', int_value (map_of b ''out_octets'')), (''in_errors'', int_value (map_of a ''in_errors'')),
           (''out_errors'', int_value (map_of a ''out_errors'')), (''in_discards'', int_value (map_of a ''in_discards'')),
           (''out_discards'', int_value (map_of a ''out_discards''))]))"

text \<open>\<open>name not in iface_filter\<close>: the filter is a list of names.\<close>

definition interface_wanted :: "pyval \<Rightarrow> string \<Rightarrow> bool" where
  "interface_wanted flt name \<longleftrightarrow> (case flt of VList (x # xs) \<Rightarrow> VStr name \<in> set (x # xs) | _ \<Rightarrow> True)"

definition snmp_interfaces :: "world \<Rightarrow> pyval \<Rightarrow> snmp_table \<Rightarrow> snmp_table \<Rightarrow> pydict" where
  "snmp_interfaces W flt ift ifx =
     foldl (\<lambda>out (name, d). if interface_wanted flt name then dset out name (VDict d) else out) []
       (map (snmp_interface ift ifx) (w_order W (remdups (map fst ift @ map fst ifx))))"

definition poll_snmp :: "env \<Rightarrow> world \<Rightarrow> string \<Rightarrow> int \<Rightarrow> pydict \<Rightarrow> py_exc + pydict" where
  "poll_snmp E W host port cfg =
     (let target = host @ '':'' @ show_int (if port = 0 then 161 else port) in
      attempt (snmp_auth_args E cfg) (\<lambda>auth.
      attempt (run_snmp W ''snmpbulkwalk'' auth target ''1.3.6.1.2.1.2.2.1'') (\<lambda>a.
      attempt (run_snmp W ''snmpbulkwalk'' auth target ''1.3.6.1.2.1.31.1.1.1'') (\<lambda>b.
      attempt (run_snmp W ''snmpget'' auth target ''1.3.6.1.2.1.1.5.0 1.3.6.1.2.1.1.3.0'') (\<lambda>sys.
        let sys_lines = text_lines sys;
            ticks = (case sys_lines of _ # l # _ \<Rightarrow> int_of_string (last_part l) | _ \<Rightarrow> None);
            interfaces = snmp_interfaces W (dget cfg ''interface_filter'') (parse_snmp_table a SNMP_IFTABLE_COLS) (parse_snmp_table b SNMP_IFXTABLE_COLS);
            up = length (filter (\<lambda>kv. dget (dict_of (snd kv)) ''oper_status'' = VStr ''up'') interfaces)
        in Inr [(''modality'', VStr ''network''),
                (''sys_name'', case sys_lines of [] \<Rightarrow> VNone | l # _ \<Rightarrow> VStr (strip_dquotes (last_part l))),
                (''sys_uptime_seconds'', of_opt_int (map_option (\<lambda>t. t div 100) ticks)),
                (''interface_count'', VInt (int (length interfaces))), (''interfaces_up'', VInt (int up)), (''interfaces'', VDict interfaces)])))))"

section \<open>One source\<close>

text \<open>The dispatch; only the Google poll changes the configuration.\<close>

definition poll_kind :: "env \<Rightarrow> world \<Rightarrow> (number \<Rightarrow> pyval) \<Rightarrow> sensor_source \<Rightarrow> ctx \<Rightarrow> hub \<Rightarrow> pydict \<times> (py_exc + pydict)" where
  "poll_kind E W N r c h =
     (let cfg = dict_or_empty (src_config r); kind = src_kind r in
      if kind = ''roku'' then (cfg, poll_roku W (src_host r) (src_port r))
      else if kind = ''home_assistant'' then (cfg, poll_home_assistant E W (src_host r) (src_port r) cfg)
      else if kind = ''weather'' then (cfg, poll_weather W N cfg)
      else if kind = ''ical'' then (cfg, poll_ical E W cfg)
      else if kind = ''solaredge'' then (cfg, poll_solaredge W N cfg)
      else if kind = ''enphase_envoy'' then (cfg, poll_enphase_envoy W N (src_host r) (src_port r) cfg)
      else if kind = ''snmp'' then (cfg, poll_snmp E W (src_host r) (src_port r) cfg)
      else if kind = ''google_calendar'' then poll_google_calendar E W cfg c h
      else (cfg, Inl (ValueExc (''unsupported source kind: '' @ kind))))"

datatype poll_result = PollError string | PollOk string pydict

definition WEBHOOK_NOT_POLLED :: string where
  "WEBHOOK_NOT_POLLED = ''This is a webhook source '' @ [CHR 0xE2, CHR 0x80, CHR 0x94] @ '' it receives inbound events and is not polled.''"

definition MQTT_NOT_POLLED :: string where
  "MQTT_NOT_POLLED = ''This is an MQTT source '' @ [CHR 0xE2, CHR 0x80, CHR 0x94] @ '' a background subscriber receives messages; it is not polled.''"

text \<open>A refreshed token goes into the row with the flush.\<close>

definition keep_config :: "column_store \<Rightarrow> pydict \<Rightarrow> sensor_source \<Rightarrow> sensor_source option" where
  "keep_config D cfg r =
     (if cfg = dict_or_empty (src_config r) then Some r
      else case D ''external_sensor_sources.config'' (VDict cfg) of Some (VDict d) \<Rightarrow> Some (r\<lparr>src_config := Some d\<rparr>) | _ \<Rightarrow> None)"

definition poll_source ::
  "env \<Rightarrow> column_store \<Rightarrow> world \<Rightarrow> (number \<Rightarrow> pyval) \<Rightarrow> string \<Rightarrow> ctx \<times> hub \<Rightarrow> sensor_error + (poll_result \<times> ctx \<times> hub)" where
  "poll_source E D W N i s =
     (case get_source E i s of
        (None, s1) \<Rightarrow> Inr (PollError ''source not found'', s1)
      | (Some r, s1) \<Rightarrow>
          (if src_kind r \<in> set WEBHOOK_KINDS then Inr (PollError WEBHOOK_NOT_POLLED, s1)
           else if src_kind r \<in> set SUBSCRIBER_KINDS then Inr (PollError MQTT_NOT_POLLED, s1)
           else
             let (cfg, outcome) = poll_kind E W N r (fst s1) (snd s1) in
             case keep_config D cfg r of
               None \<Rightarrow> Inl SensorDataError
             | Some r1 \<Rightarrow>
                 (case outcome of
                    Inl e \<Rightarrow>
                      (case store_value D ''external_sensor_sources.last_error'' (VStr (take 500 (exc_label W e))) of
                         None \<Rightarrow> Inl SensorDataError
                       | Some w \<Rightarrow> map_sum id (\<lambda>s2. (PollError (exc_label W e), s2))
                           (flush_source E (r1\<lparr>src_last_polled_at := Some (env_now E), src_last_error := column_text w\<rparr>) s1))
                  | Inr payload \<Rightarrow> map_sum id (\<lambda>s2. (PollOk (iso_z (env_now E)) payload, s2)) (store_payload E D r1 (VDict payload) s1))))"

section \<open>The tick\<close>

record poll_stats =
  pst_considered :: nat
  pst_polled :: nat
  pst_errors :: nat
  pst_skipped :: nat

definition polled_kind :: "sensor_source \<Rightarrow> bool" where
  "polled_kind r \<longleftrightarrow> src_enabled r \<and> src_kind r \<notin> set (WEBHOOK_KINDS @ SUBSCRIBER_KINDS)"

definition source_due :: "instant \<Rightarrow> sensor_source \<Rightarrow> bool" where
  "source_due now r \<longleftrightarrow>
     (case src_last_polled_at r of None \<Rightarrow> True | Some t \<Rightarrow> secs (src_poll_interval_seconds r) \<le> now - t)"

text \<open>Each poll has its own session; one whose flush fails ends the tick, and the polls before it stay.\<close>

fun poll_each ::
  "env \<Rightarrow> column_store \<Rightarrow> world \<Rightarrow> (number \<Rightarrow> pyval) \<Rightarrow> string list \<Rightarrow> poll_stats \<Rightarrow> ctx \<times> hub \<Rightarrow> (sensor_error + poll_stats) \<times> ctx \<times> hub" where
  "poll_each E D W N [] st s = (Inr st, s)"
| "poll_each E D W N (i # ids) st s =
     (case poll_source E D W N i s of
        Inl e \<Rightarrow> (Inl e, s)
      | Inr (PollError _, s1) \<Rightarrow> poll_each E D W N ids (st\<lparr>pst_errors := Suc (pst_errors st)\<rparr>) s1
      | Inr (PollOk _ _, s1) \<Rightarrow> poll_each E D W N ids (st\<lparr>pst_polled := Suc (pst_polled st)\<rparr>) s1)"

definition poll_all_due ::
  "env \<Rightarrow> column_store \<Rightarrow> world \<Rightarrow> (number \<Rightarrow> pyval) \<Rightarrow> ctx \<times> hub \<Rightarrow> (sensor_error + poll_stats) \<times> ctx \<times> hub" where
  "poll_all_due E D W N s =
     (let (rows, s1) = select_sources E s; polled = filter polled_kind rows; due = filter (source_due (env_now E)) polled
      in poll_each E D W N (map src_id due)
           \<lparr>pst_considered = length polled, pst_polled = 0, pst_errors = 0, pst_skipped = length polled - length due\<rparr> s1)"

end
