(* ===== verification/SensorProps.thy ===== *)
theory SensorProps
  imports SensorPolls Notifications
begin

text \<open>
  What holds of the external sources: the registry stays well formed through every operation, an inbound event is recorded
  only for the holder of the secret, and a completed tick leaves no source due.
\<close>

section \<open>Shapes\<close>

lemma get_source_shape:
  assumes "get_source E i (c, h) = (x, c', h')"
  shows "\<exists>a. h' = h\<lparr>h_audit := a\<rparr>" and "x = Some r \<Longrightarrow> r \<in> set (h_sensor_sources h) \<and> src_id r = i"
proof -
  obtain rows where sel: "select_scoped E ''external_sensor_sources'' src_organization_id h_sensor_sources (c, h) = (rows, c', h')"
    and x: "x = tget src_id i rows"
    using assms by (auto simp: get_source_def select_sources_def split: prod.splits)
  show "\<exists>a. h' = h\<lparr>h_audit := a\<rparr>" using select_scoped_facts(2) [OF sel] .
  show "x = Some r \<Longrightarrow> r \<in> set (h_sensor_sources h) \<and> src_id r = i"
    using tget_SomeD [of src_id i rows r] select_scoped_facts(1) [OF sel] x by auto
qed

definition put_source :: "sensor_source \<Rightarrow> hub \<Rightarrow> hub" where
  "put_source r h = h\<lparr>h_sensor_sources := tupd src_id (src_id r) (\<lambda>_. r) (h_sensor_sources h)\<rparr>"

lemma flush_source_shape:
  assumes "flush_source E r (c, h) = Inr (c', h')"
  shows "\<exists>a org. h' = put_source (r\<lparr>src_organization_id := org\<rparr>) (h\<lparr>h_audit := a\<rparr>)"
proof -
  obtain new dirty h1 where f: "stamp_and_guard_tenant_writes E [] [source_obj (src_organization_id r) True] (c, h) = Inr (new, dirty, c', h1)"
    and h': "h' = h1\<lparr>h_sensor_sources := tupd src_id (src_id r) (\<lambda>_. r\<lparr>src_organization_id := fo_org (hd dirty)\<rparr>) (h_sensor_sources h1)\<rparr>"
    using assms by (auto simp: flush_source_def split: sum.splits)
  obtain a where "h1 = h\<lparr>h_audit := a\<rparr>" using flush_same [OF f] by blast
  then show ?thesis using h' by (auto simp: put_source_def)
qed

lemma store_payload_shape:
  assumes "store_payload E D r v (c, h) = Inr (c', h')"
  shows "\<exists>a org w. h' = put_source (r\<lparr>src_last_polled_at := Some (env_now E), src_last_success_at := Some (env_now E), src_last_error := None,
             src_organization_id := org\<rparr>)
           (h\<lparr>h_audit := a, h_sensor_samples := tadd \<lparr>smp_id = h_row_seq h, smp_source_id = src_id r, smp_sampled_at = env_now E, smp_payload = w\<rparr>
              (h_sensor_samples h), h_row_seq := h_row_seq h + 1\<rparr>)"
proof -
  let ?r = "r\<lparr>src_last_polled_at := Some (env_now E), src_last_success_at := Some (env_now E), src_last_error := None\<rparr>"
  obtain w h1 where D: "D ''external_sensor_samples.payload'' v = Some w" and f: "flush_source E ?r (c, h) = Inr (c', h1)"
    and h': "h' = h1\<lparr>h_sensor_samples := tadd \<lparr>smp_id = h_row_seq h1, smp_source_id = src_id r, smp_sampled_at = env_now E, smp_payload = w\<rparr>
                     (h_sensor_samples h1), h_row_seq := h_row_seq h1 + 1\<rparr>"
    using assms by (auto simp: store_payload_def split: option.splits sum.splits)
  obtain a org where "h1 = put_source (?r\<lparr>src_organization_id := org\<rparr>) (h\<lparr>h_audit := a\<rparr>)" using flush_source_shape [OF f] by blast
  then have "h' = put_source (?r\<lparr>src_organization_id := org\<rparr>)
      (h\<lparr>h_audit := a, h_sensor_samples := tadd \<lparr>smp_id = h_row_seq h, smp_source_id = src_id r, smp_sampled_at = env_now E, smp_payload = w\<rparr>
              (h_sensor_samples h), h_row_seq := h_row_seq h + 1\<rparr>)" using h' by (simp add: put_source_def)
  then show ?thesis by (intro exI) simp
qed

section \<open>A well-formed registry\<close>

definition source_ok :: "sensor_source \<Rightarrow> bool" where
  "source_ok r \<longleftrightarrow> src_kind r \<in> set EXTERNAL_SOURCE_KINDS \<and> 5 \<le> src_poll_interval_seconds r \<and> src_poll_interval_seconds r \<le> 3600"

definition sources_ok :: "hub \<Rightarrow> bool" where
  "sources_ok h \<longleftrightarrow> list_all source_ok (h_sensor_sources h)"

lemma sources_ok_same: "sources_ok h \<Longrightarrow> h_sensor_sources h' = h_sensor_sources h \<Longrightarrow> sources_ok h'"
  by (simp add: sources_ok_def)

lemma sources_ok_put:
  assumes "sources_ok h" and "source_ok r" and "h_sensor_sources h' = h_sensor_sources (put_source r h)"
  shows "sources_ok h'"
  using assms by (auto simp: sources_ok_def put_source_def list_all_iff tupd_def)

text \<open>The operations change no kind and no interval, so what they write back is as good as what they read.\<close>

lemma source_ok_cong:
  "source_ok r \<Longrightarrow> src_kind q = src_kind r \<Longrightarrow> src_poll_interval_seconds q = src_poll_interval_seconds r \<Longrightarrow> source_ok q"
  by (simp add: source_ok_def)

lemma get_source_ok:
  assumes "get_source E i (c, h) = (x, c', h')" and "sources_ok h"
  shows "sources_ok h'" and "x = Some r \<Longrightarrow> source_ok r"
  using get_source_shape(1) [OF assms(1)] get_source_shape(2) [OF assms(1), of r] assms(2)
  by (auto simp: sources_ok_def list_all_iff)

lemma flush_source_ok:
  assumes "flush_source E r (c, h) = Inr (c', h')" and "sources_ok h" and "source_ok r"
  shows "sources_ok h'"
proof -
  obtain a org where h': "h' = put_source (r\<lparr>src_organization_id := org\<rparr>) (h\<lparr>h_audit := a\<rparr>)" using flush_source_shape [OF assms(1)] by blast
  have "source_ok (r\<lparr>src_organization_id := org\<rparr>)" by (rule source_ok_cong [OF assms(3)]) simp_all
  then show ?thesis by (rule sources_ok_put [OF assms(2)]) (simp add: h' put_source_def)
qed

lemma store_payload_ok:
  assumes "store_payload E D r v (c, h) = Inr (c', h')" and "sources_ok h" and "source_ok r"
  shows "sources_ok h'"
proof -
  obtain a org w where h': "h' = put_source (r\<lparr>src_last_polled_at := Some (env_now E), src_last_success_at := Some (env_now E), src_last_error := None,
             src_organization_id := org\<rparr>)
           (h\<lparr>h_audit := a, h_sensor_samples := tadd \<lparr>smp_id = h_row_seq h, smp_source_id = src_id r, smp_sampled_at = env_now E, smp_payload = w\<rparr>
              (h_sensor_samples h), h_row_seq := h_row_seq h + 1\<rparr>)" using store_payload_shape [OF assms(1)] by blast
  let ?r = "r\<lparr>src_last_polled_at := Some (env_now E), src_last_success_at := Some (env_now E), src_last_error := None, src_organization_id := org\<rparr>"
  have "source_ok ?r" by (rule source_ok_cong [OF assms(3)]) simp_all
  then show ?thesis by (rule sources_ok_put [OF assms(2)]) (simp add: h' put_source_def)
qed

lemma check_source_kind:
  assumes "check_source E T a = Inr (kind, name, host, port, interval, cfg)"
  shows "kind \<in> set EXTERNAL_SOURCE_KINDS" and "5 \<le> interval" and "interval \<le> 3600"
proof -
  have "map_sum id (\<lambda>cfg. (k, n, ho, p, i, cfg)) v = Inr (kind, name, host, port, interval, cfg) \<Longrightarrow> k = kind \<and> i = interval" for k n ho p i
    and v :: "sensor_error + pydict" by (cases v) auto
  then show "kind \<in> set EXTERNAL_SOURCE_KINDS" and "5 \<le> interval" and "interval \<le> 3600"
    using assms unfolding check_source_def Let_def by (fastforce split: if_splits)+
qed

lemma store_source_kind: "store_source D r = Some w \<Longrightarrow> src_kind w = src_kind r \<and> src_poll_interval_seconds w = src_poll_interval_seconds r"
  by (auto simp: store_source_def split: option.splits pyval.splits)

lemma create_source_ok:
  assumes "create_source E D T a (c, h) = Inr (out, c', h')" and "sources_ok h"
  shows "sources_ok h'"
proof -
  obtain kind name host port interval cfg where chk: "check_source E T a = Inr (kind, name, host, port, interval, cfg)"
    using assms(1) by (auto simp: create_source_def split: sum.splits)
  obtain new dirty c1 h1 where f: "stamp_and_guard_tenant_writes E [source_obj None True] [] (c, h) = Inr (new, dirty, c1, h1)"
    using assms(1) unfolding create_source_def chk by (auto split: sum.splits)
  let ?r = "\<lparr>src_id = new_id (env_ulid E) ''ext'' (h_ulid h1), src_organization_id = fo_org (hd new), src_kind = kind,
              src_display_name = name, src_host = host, src_port = port, src_enabled = True, src_poll_interval_seconds = interval,
              src_last_polled_at = None, src_last_success_at = None, src_last_error = None,
              src_config = (if cfg = [] then None else Some cfg), src_created_at = env_now E, src_updated_at = env_now E\<rparr>"
  obtain w where w: "store_source D ?r = Some w" and h': "h_sensor_sources h' = tadd w (h_sensor_sources h1)"
    using assms(1) unfolding create_source_def chk f Let_def sum.case prod.case
    by (cases "store_source D ?r") (auto simp del: tadd_def split: if_split_asm)
  have "source_ok w" using store_source_kind [OF w] check_source_kind [OF chk] by (simp add: source_ok_def)
  moreover obtain aud where "h1 = h\<lparr>h_audit := aud\<rparr>" using flush_same [OF f] by blast
  ultimately show ?thesis using assms(2) h' by (simp add: sources_ok_def tadd_def)
qed

lemma delete_source_ok:
  assumes "delete_source E i (c, h) = (b, c', h')" and "sources_ok h"
  shows "sources_ok h'"
proof -
  obtain x c1 h1 where g: "get_source E i (c, h) = (x, c1, h1)" by (metis prod.exhaust)
  have "sources_ok h1" by (rule get_source_ok(1) [OF g assms(2)])
  then show ?thesis using assms(1) g by (auto simp: delete_source_def sources_ok_def tdel_def list_all_iff split: option.splits)
qed

lemma set_source_enabled_ok:
  assumes "set_source_enabled E i on (c, h) = Inr (b, c', h')" and "sources_ok h"
  shows "sources_ok h'"
proof -
  obtain x c1 h1 where g: "get_source E i (c, h) = (x, c1, h1)" by (metis prod.exhaust)
  note ok = get_source_ok [OF g assms(2)]
  show ?thesis
  proof (cases x)
    case None
    then show ?thesis using assms(1) g ok(1) by (simp add: set_source_enabled_def)
  next
    case (Some r)
    then have "flush_source E (r\<lparr>src_enabled := on, src_updated_at := env_now E\<rparr>) (c1, h1) = Inr (c', h')"
      using assms(1) g by (cases "flush_source E (r\<lparr>src_enabled := on, src_updated_at := env_now E\<rparr>) (c1, h1)") (auto simp: set_source_enabled_def)
    then show ?thesis by (rule flush_source_ok [OF _ ok(1)]) (rule source_ok_cong [OF ok(2) [OF Some]], simp_all)
  qed
qed

lemma record_webhook_event_ok:
  assumes "record_webhook_event E D i p (c, h) = Inr (x, c', h')" and "sources_ok h"
  shows "sources_ok h'"
proof -
  obtain y c1 h1 where g: "get_source E i (c, h) = (y, c1, h1)" by (metis prod.exhaust)
  note ok = get_source_ok [OF g assms(2)]
  show ?thesis
  proof (cases y)
    case None
    then show ?thesis using assms(1) g ok(1) by (simp add: record_webhook_event_def)
  next
    case (Some r)
    show ?thesis
    proof (cases "src_kind r \<in> set WEBHOOK_KINDS \<and> src_enabled r")
      case True
      then have "store_payload E D r (VDict p) (c1, h1) = Inr (c', h')"
        using assms(1) g Some by (cases "store_payload E D r (VDict p) (c1, h1)") (auto simp: record_webhook_event_def)
      then show ?thesis by (rule store_payload_ok [OF _ ok(1) ok(2) [OF Some]])
    next
      case False
      then show ?thesis using assms(1) g Some ok(1) by (auto simp: record_webhook_event_def split: if_splits)
    qed
  qed
qed

text \<open>The route leaves the registry and the samples alone unless it gets as far as recording the event.\<close>

lemma webhook_inbound_cases:
  assumes "webhook_inbound E D i q (c, h) = (reply, c', h')"
  obtains (untouched) "h_sensor_samples h' = h_sensor_samples h" "h_sensor_sources h' = h_sensor_sources h" "reply \<noteq> WebhookAccepted"
  | (entered) r c1 h1 p x where "get_source E i (c, h) = (Some r, c1, h1)" "src_kind r \<in> set WEBHOOK_KINDS" "src_enabled r"
      "truthy (expected_secret r)" "compare_digest (wq_secret q) (expected_secret r) = Some True"
      "record_webhook_event E D i p (c1, h1) = Inr (x, c', h')"
proof -
  obtain y c1 h1 where g: "get_source E i (c, h) = (y, c1, h1)" by (metis prod.exhaust)
  obtain a where h1: "h1 = h\<lparr>h_audit := a\<rparr>" using get_source_shape(1) [OF g] by blast
  let ?p = "\<lambda>p. dset (dset p ''_received_at'' (VStr (iso_z (env_now E)))) ''_remote_addr'' (of_opt_str (wq_remote_addr q))"
  show ?thesis
  proof (cases "reply \<noteq> WebhookAccepted \<and> (h' = h \<or> h' = h1)")
    case True
    then show ?thesis using h1 by (intro untouched) auto
  next
    case False
    then obtain r where y: "y = Some r" using assms g by (auto simp: webhook_inbound_def split: if_splits option.splits)
    have guards: "src_kind r \<in> set WEBHOOK_KINDS" "src_enabled r" "truthy (expected_secret r)"
      "compare_digest (wq_secret q) (expected_secret r) = Some True"
      using assms g y False by (auto simp: webhook_inbound_def split: if_splits option.splits bool.splits)
    then obtain p where p: "webhook_payload (wq_body q) = Some p"
      using assms g y False by (cases "webhook_payload (wq_body q)") (auto simp: webhook_inbound_def split: if_splits)
    then obtain x where "record_webhook_event E D i (?p p) (c1, h1) = Inr (x, c', h')"
      using assms g y guards False
      by (auto simp: webhook_inbound_def split: if_splits sum.splits prod.splits inbound_result.splits)
    then show ?thesis using entered g y guards by blast
  qed
qed

lemma webhook_inbound_ok:
  assumes "webhook_inbound E D i q (c, h) = (reply, c', h')" and "sources_ok h"
  shows "sources_ok h'"
  using assms(1)
proof (cases rule: webhook_inbound_cases)
  case untouched
  then show ?thesis by (intro sources_ok_same [OF assms(2)])
next
  case (entered r c1 h1 p x)
  show ?thesis by (rule record_webhook_event_ok [OF entered(6) get_source_ok(1) [OF entered(1) assms(2)]])
qed

lemma record_mqtt_message_ok:
  assumes "record_mqtt_message E D i topic msg (c, h) = (x, c', h')" and "sources_ok h"
  shows "sources_ok h'"
proof -
  obtain y c1 h1 where g: "get_source E i (c, h) = (y, c1, h1)" by (metis prod.exhaust)
  note ok = get_source_ok [OF g assms(2)]
  let ?v = "VDict [(''topic'', VStr (take 400 topic)), (''msg'', VStr (take 2000 msg)), (''received_at'', VStr (iso_z (env_now E)))]"
  show ?thesis
  proof (cases y)
    case None
    then show ?thesis using assms(1) g ok(1) by (simp add: record_mqtt_message_def)
  next
    case (Some r)
    show ?thesis
    proof (cases "store_payload E D r ?v (c1, h1)")
      case (Inl e)
      then show ?thesis using assms(1) g Some ok(1) by (auto simp: record_mqtt_message_def split: if_splits)
    next
      case (Inr s2)
      then have "h' = h1 \<or> store_payload E D r ?v (c1, h1) = Inr (c', h')"
        using assms(1) g Some by (auto simp: record_mqtt_message_def split: if_splits)
      then show ?thesis using ok(1) store_payload_ok [OF _ ok(1) ok(2) [OF Some]] by blast
    qed
  qed
qed

text \<open>A poll of a source that is read writes its row at most once, with the time of the poll.\<close>

lemma keep_config_kind: "keep_config D cfg r = Some w \<Longrightarrow> \<exists>f. w = r\<lparr>src_config := f\<rparr>"
  by (auto simp: keep_config_def split: if_splits option.splits pyval.splits intro: exI [of _ "src_config r"])

lemma poll_source_cases:
  assumes "poll_source E D W N i (c, h) = Inr (res, c', h')"
  obtains (unread) c1 h1 x where "get_source E i (c, h) = (x, c1, h1)" "h' = h1" "c' = c1" "\<exists>m. res = PollError m"
      "x = None \<or> src_kind (the x) \<in> set (WEBHOOK_KINDS @ SUBSCRIBER_KINDS)"
  | (failed) c1 h1 r f m where "get_source E i (c, h) = (Some r, c1, h1)" "\<exists>m. res = PollError m"
      "flush_source E (r\<lparr>src_config := f, src_last_polled_at := Some (env_now E), src_last_error := m\<rparr>) (c1, h1) = Inr (c', h')"
  | (heard) c1 h1 r f v where "get_source E i (c, h) = (Some r, c1, h1)"
      "store_payload E D (r\<lparr>src_config := f\<rparr>) v (c1, h1) = Inr (c', h')"
proof -
  obtain x c1 h1 where g: "get_source E i (c, h) = (x, c1, h1)" by (metis prod.exhaust)
  show ?thesis
  proof (cases "x = None \<or> src_kind (the x) \<in> set (WEBHOOK_KINDS @ SUBSCRIBER_KINDS)")
    case True
    then have "h' = h1 \<and> c' = c1 \<and> (\<exists>m. res = PollError m)" using assms g by (auto simp: poll_source_def split: option.splits if_splits)
    then show ?thesis using unread g True by blast
  next
    case False
    then obtain r where x: "x = Some r" and kind: "src_kind r \<notin> set WEBHOOK_KINDS" "src_kind r \<notin> set SUBSCRIBER_KINDS" by auto
    obtain cfg out where pk: "poll_kind E W N r c1 h1 = (cfg, out)" by (metis prod.exhaust)
    have eq: "poll_source E D W N i (c, h) = (case keep_config D cfg r of None \<Rightarrow> Inl SensorDataError
        | Some r1 \<Rightarrow> (case out of
            Inl e \<Rightarrow> (case store_value D ''external_sensor_sources.last_error'' (VStr (take 500 (exc_label W e))) of None \<Rightarrow> Inl SensorDataError
               | Some w \<Rightarrow> map_sum id (\<lambda>s2. (PollError (exc_label W e), s2))
                   (flush_source E (r1\<lparr>src_last_polled_at := Some (env_now E), src_last_error := column_text w\<rparr>) (c1, h1)))
          | Inr payload \<Rightarrow> map_sum id (\<lambda>s2. (PollOk (iso_z (env_now E)) payload, s2)) (store_payload E D r1 (VDict payload) (c1, h1))))"
      using kind by (simp add: poll_source_def g x pk)
    obtain r1 where kc: "keep_config D cfg r = Some r1" using assms eq by (cases "keep_config D cfg r") auto
    obtain f where r1: "r1 = r\<lparr>src_config := f\<rparr>" using keep_config_kind [OF kc] by blast
    show ?thesis
    proof (cases out)
      case (Inl e)
      obtain w where w: "store_value D ''external_sensor_sources.last_error'' (VStr (take 500 (exc_label W e))) = Some w"
        using assms eq kc Inl by (cases "store_value D ''external_sensor_sources.last_error'' (VStr (take 500 (exc_label W e)))") auto
      let ?q = "r1\<lparr>src_last_polled_at := Some (env_now E), src_last_error := column_text w\<rparr>"
      have "map_sum id (\<lambda>s2. (PollError (exc_label W e), s2)) (flush_source E ?q (c1, h1)) = Inr (res, c', h')"
        using assms eq kc Inl w by simp
      then have "flush_source E ?q (c1, h1) = Inr (c', h')" and "res = PollError (exc_label W e)"
        by (cases "flush_source E ?q (c1, h1)", auto)+
      then show ?thesis using failed [where f = f and m = "column_text w"] g x r1 by simp
    next
      case (Inr payload)
      have "map_sum id (\<lambda>s2. (PollOk (iso_z (env_now E)) payload, s2)) (store_payload E D r1 (VDict payload) (c1, h1)) = Inr (res, c', h')"
        using assms eq kc Inr by simp
      then have "store_payload E D r1 (VDict payload) (c1, h1) = Inr (c', h')" by (cases "store_payload E D r1 (VDict payload) (c1, h1)") auto
      then show ?thesis using heard [where f = f and v = "VDict payload"] g x r1 by simp
    qed
  qed
qed

lemma poll_source_ok:
  assumes "poll_source E D W N i (c, h) = Inr (res, c', h')" and "sources_ok h"
  shows "sources_ok h'"
  using assms(1)
proof (cases rule: poll_source_cases)
  case (unread c1 h1 x)
  then show ?thesis using get_source_ok(1) [OF _ assms(2)] by blast
next
  case (failed c1 h1 r f m)
  note ok = get_source_ok [OF failed(1) assms(2)]
  show ?thesis by (rule flush_source_ok [OF failed(3) ok(1)]) (rule source_ok_cong [OF ok(2) [OF refl]], simp_all)
next
  case (heard c1 h1 r f v)
  note ok = get_source_ok [OF heard(1) assms(2)]
  show ?thesis by (rule store_payload_ok [OF heard(2) ok(1)]) (rule source_ok_cong [OF ok(2) [OF refl]], simp_all)
qed

lemma poll_each_ok:
  assumes "poll_each E D W N ids st (c, h) = (x, c', h')" and "sources_ok h"
  shows "sources_ok h'"
  using assms
proof (induction ids arbitrary: st c h)
  case Nil
  then show ?case by simp
next
  case (Cons i ids)
  show ?case
  proof (cases "poll_source E D W N i (c, h)")
    case (Inl e)
    then show ?thesis using Cons.prems by simp
  next
    case (Inr y)
    obtain res c1 h1 where y: "y = (res, c1, h1)" by (metis prod.exhaust)
    have ok: "sources_ok h1" by (rule poll_source_ok [OF Inr [unfolded y] Cons.prems(2)])
    show ?thesis using Cons.prems(1) Cons.IH [OF _ ok] by (cases res) (auto simp: Inr y)
  qed
qed

lemma poll_all_due_ok:
  assumes "poll_all_due E D W N (c, h) = (x, c', h')" and "sources_ok h"
  shows "sources_ok h'"
proof -
  obtain rows c1 h1 where sel: "select_scoped E ''external_sensor_sources'' src_organization_id h_sensor_sources (c, h) = (rows, c1, h1)"
    by (metis prod.exhaust)
  obtain a where "h1 = h\<lparr>h_audit := a\<rparr>" using select_scoped_facts(2) [OF sel] by blast
  then have "sources_ok h1" by (intro sources_ok_same [OF assms(2)]) simp
  then show ?thesis using assms(1) poll_each_ok [of E D W N] unfolding poll_all_due_def select_sources_def sel Let_def prod.case by blast
qed

section \<open>Samples and their sources\<close>

text \<open>Every sample belongs to a registered source. All operations but the deletion of a source only add: no source goes, and
  a new sample is one of a registered source.\<close>

definition source_ids :: "hub \<Rightarrow> string set" where
  "source_ids h = src_id ` set (h_sensor_sources h)"

definition samples_ok :: "hub \<Rightarrow> bool" where
  "samples_ok h \<longleftrightarrow> list_all (\<lambda>p. smp_source_id p \<in> source_ids h) (h_sensor_samples h)"

definition adds_samples :: "hub \<Rightarrow> hub \<Rightarrow> bool" where
  "adds_samples h h' \<longleftrightarrow> source_ids h \<subseteq> source_ids h'
     \<and> (\<forall>p \<in> set (h_sensor_samples h'). p \<in> set (h_sensor_samples h) \<or> smp_source_id p \<in> source_ids h')"

lemma adds_samples_keeps: "adds_samples h h' \<Longrightarrow> samples_ok h \<Longrightarrow> samples_ok h'"
  by (auto simp: adds_samples_def samples_ok_def list_all_iff)

lemma adds_samples_trans: "adds_samples h h1 \<Longrightarrow> adds_samples h1 h' \<Longrightarrow> adds_samples h h'"
  unfolding adds_samples_def by blast

lemma adds_samples_same [simp]:
  "h_sensor_sources h' = h_sensor_sources h \<Longrightarrow> h_sensor_samples h' = h_sensor_samples h \<Longrightarrow> adds_samples h h'"
  by (simp add: adds_samples_def source_ids_def)

lemma source_ids_put [simp]: "source_ids (put_source r h) = source_ids h"
proof -
  have "map src_id (tupd src_id (src_id r) (\<lambda>_. r) rs) = map src_id rs" for rs by (simp add: tupd_def)
  then show ?thesis unfolding source_ids_def put_source_def by (simp flip: set_map)
qed

lemma get_source_adds:
  assumes "get_source E i (c, h) = (x, c', h')"
  shows "adds_samples h h'" and "x = Some r \<Longrightarrow> src_id r \<in> source_ids h'"
  using get_source_shape(1) [OF assms] get_source_shape(2) [OF assms, of r] by (auto simp: source_ids_def)

lemma flush_source_adds: "flush_source E r (c, h) = Inr (c', h') \<Longrightarrow> adds_samples h h'"
  using flush_source_shape [of E r c h c' h'] source_ids_put
  by (auto simp: adds_samples_def) (auto simp: source_ids_def put_source_def)

lemma store_payload_adds:
  assumes "store_payload E D r v (c, h) = Inr (c', h')" and "src_id r \<in> source_ids h"
  shows "adds_samples h h'"
proof -
  obtain q g where h': "h' = put_source q g" and g: "h_sensor_sources g = h_sensor_sources h"
    and smp: "\<exists>w. smp_source_id w = src_id r \<and> h_sensor_samples g = h_sensor_samples h @ [w]"
    using store_payload_shape [OF assms(1)] by (force simp: tadd_def)
  have "source_ids g = source_ids h" by (simp add: source_ids_def g)
  moreover have "h_sensor_samples h' = h_sensor_samples g" by (simp add: h' put_source_def)
  ultimately show ?thesis using smp assms(2) by (auto simp: adds_samples_def h')
qed

lemma create_source_adds:
  assumes "create_source E D T a (c, h) = Inr (out, c', h')"
  shows "adds_samples h h'"
proof -
  obtain chk where chk: "check_source E T a = Inr chk" using assms by (auto simp: create_source_def split: sum.splits)
  obtain new dirty c1 h1 where f: "stamp_and_guard_tenant_writes E [source_obj None True] [] (c, h) = Inr (new, dirty, c1, h1)"
    using assms unfolding create_source_def chk by (auto split: sum.splits prod.splits)
  obtain aud where h1: "h1 = h\<lparr>h_audit := aud\<rparr>" using flush_same [OF f] by blast
  have "\<exists>w. h_sensor_sources h' = h_sensor_sources h @ [w] \<and> h_sensor_samples h' = h_sensor_samples h"
    using assms unfolding create_source_def chk f Let_def sum.case
    by (auto simp: h1 tadd_def split: prod.splits option.splits if_splits)
  then show ?thesis by (auto simp: adds_samples_def source_ids_def)
qed

lemma delete_source_samples:
  assumes "delete_source E i (c, h) = (b, c', h')" and "samples_ok h"
  shows "samples_ok h'"
proof -
  obtain x c1 h1 where g: "get_source E i (c, h) = (x, c1, h1)" by (metis prod.exhaust)
  have "samples_ok h1" by (rule adds_samples_keeps [OF get_source_adds(1) [OF g] assms(2)])
  then show ?thesis
    using assms(1) g by (fastforce simp: delete_source_def samples_ok_def source_ids_def tdel_def list_all_iff split: option.splits)
qed

lemma set_source_enabled_adds:
  assumes "set_source_enabled E i on (c, h) = Inr (b, c', h')"
  shows "adds_samples h h'"
proof -
  obtain x c1 h1 where g: "get_source E i (c, h) = (x, c1, h1)" by (metis prod.exhaust)
  note get = get_source_adds(1) [OF g]
  show ?thesis
  proof (cases x)
    case None
    then show ?thesis using assms g get by (simp add: set_source_enabled_def)
  next
    case (Some r)
    then have "flush_source E (r\<lparr>src_enabled := on, src_updated_at := env_now E\<rparr>) (c1, h1) = Inr (c', h')"
      using assms g by (cases "flush_source E (r\<lparr>src_enabled := on, src_updated_at := env_now E\<rparr>) (c1, h1)") (auto simp: set_source_enabled_def)
    then show ?thesis by (rule adds_samples_trans [OF get flush_source_adds])
  qed
qed

lemma record_webhook_event_adds:
  assumes "record_webhook_event E D i p (c, h) = Inr (x, c', h')"
  shows "adds_samples h h'"
proof -
  obtain y c1 h1 where g: "get_source E i (c, h) = (y, c1, h1)" by (metis prod.exhaust)
  note get = get_source_adds [OF g]
  have "h' = h1 \<or> (\<exists>r. y = Some r \<and> store_payload E D r (VDict p) (c1, h1) = Inr (c', h'))"
    using assms g
    by (cases y; cases "store_payload E D (the y) (VDict p) (c1, h1)") (auto simp: record_webhook_event_def split: if_splits)
  then show ?thesis using adds_samples_trans [OF get(1) store_payload_adds] get by blast
qed

lemma webhook_inbound_adds:
  assumes "webhook_inbound E D i q (c, h) = (reply, c', h')"
  shows "adds_samples h h'"
  using assms
proof (cases rule: webhook_inbound_cases)
  case (entered r c1 h1 p x)
  show ?thesis by (rule adds_samples_trans [OF get_source_adds(1) [OF entered(1)] record_webhook_event_adds [OF entered(6)]])
qed simp

lemma record_mqtt_message_adds:
  assumes "record_mqtt_message E D i topic msg (c, h) = (x, c', h')"
  shows "adds_samples h h'"
proof -
  obtain y c1 h1 where g: "get_source E i (c, h) = (y, c1, h1)" by (metis prod.exhaust)
  let ?v = "VDict [(''topic'', VStr (take 400 topic)), (''msg'', VStr (take 2000 msg)), (''received_at'', VStr (iso_z (env_now E)))]"
  note get = get_source_adds [OF g]
  have "h' = h1 \<or> (\<exists>r. y = Some r \<and> store_payload E D r ?v (c1, h1) = Inr (c', h'))"
    using assms g by (cases y; cases "store_payload E D (the y) ?v (c1, h1)") (auto simp: record_mqtt_message_def split: if_splits)
  then show ?thesis using adds_samples_trans [OF get(1) store_payload_adds] get by blast
qed

lemma poll_source_adds:
  assumes "poll_source E D W N i (c, h) = Inr (res, c', h')"
  shows "adds_samples h h'"
  using assms
proof (cases rule: poll_source_cases)
  case (unread c1 h1 x)
  then show ?thesis using get_source_adds(1) by blast
next
  case (failed c1 h1 r f m)
  show ?thesis by (rule adds_samples_trans [OF get_source_adds(1) [OF failed(1)] flush_source_adds [OF failed(3)]])
next
  case (heard c1 h1 r f v)
  note get = get_source_adds [OF heard(1)]
  have "adds_samples h1 h'" by (rule store_payload_adds [OF heard(2)]) (use get(2) [OF refl] in simp)
  then show ?thesis by (rule adds_samples_trans [OF get(1)])
qed

lemma poll_each_adds: "poll_each E D W N ids st (c, h) = (x, c', h') \<Longrightarrow> adds_samples h h'"
proof (induction ids arbitrary: st c h)
  case (Cons i ids)
  show ?case
  proof (cases "poll_source E D W N i (c, h)")
    case (Inr y)
    obtain res c1 h1 where y: "y = (res, c1, h1)" by (metis prod.exhaust)
    show ?thesis
      using Cons.prems Cons.IH [of _ c1 h1] adds_samples_trans [OF poll_source_adds [OF Inr [unfolded y]]]
      by (cases res) (auto simp: Inr y)
  qed (use Cons.prems in simp)
qed simp

lemma poll_all_due_adds:
  assumes "poll_all_due E D W N (c, h) = (x, c', h')"
  shows "adds_samples h h'"
proof -
  obtain rows c1 h1 where sel: "select_scoped E ''external_sensor_sources'' src_organization_id h_sensor_sources (c, h) = (rows, c1, h1)"
    by (metis prod.exhaust)
  obtain a where "h1 = h\<lparr>h_audit := a\<rparr>" using select_scoped_facts(2) [OF sel] by blast
  then have "adds_samples h h1" by simp
  moreover have "adds_samples h1 h'"
    using assms unfolding poll_all_due_def select_sources_def sel Let_def prod.case by (auto dest: poll_each_adds split: prod.splits sum.splits)
  ultimately show ?thesis by (rule adds_samples_trans)
qed

section \<open>The life of the registry\<close>

inductive sensor_step :: "ctx \<times> hub \<Rightarrow> ctx \<times> hub \<Rightarrow> bool" where
  created: "create_source E D T a s = Inr (out, s') \<Longrightarrow> sensor_step s s'"
| deleted: "delete_source E i s = (b, s') \<Longrightarrow> sensor_step s s'"
| toggled: "set_source_enabled E i on s = Inr (b, s') \<Longrightarrow> sensor_step s s'"
| posted: "webhook_inbound E D i q s = (reply, s') \<Longrightarrow> sensor_step s s'"
| published: "record_mqtt_message E D i topic msg s = (x, s') \<Longrightarrow> sensor_step s s'"
| polled: "poll_source E D W N i s = Inr (res, s') \<Longrightarrow> sensor_step s s'"
| ticked: "poll_all_due E D W N s = (y, s') \<Longrightarrow> sensor_step s s'"

definition keeps_registry :: "ctx \<times> hub \<Rightarrow> ctx \<times> hub \<Rightarrow> bool" where
  "keeps_registry s s' \<longleftrightarrow> (sources_ok (snd s) \<longrightarrow> sources_ok (snd s')) \<and> (samples_ok (snd s) \<longrightarrow> samples_ok (snd s'))"

interpretation sources: state_preorder keeps_registry
  by unfold_locales (auto simp: keeps_registry_def)

lemma sensor_step_sources: "sensor_step s s' \<Longrightarrow> sources_ok (snd s) \<Longrightarrow> sources_ok (snd s')"
proof (induction rule: sensor_step.induct)
  case (created E D T a s out s')
  then show ?case using create_source_ok [of E D T a "fst s" "snd s" out "fst s'" "snd s'"] by simp
next
  case (deleted E i s b s')
  then show ?case using delete_source_ok [of E i "fst s" "snd s" b "fst s'" "snd s'"] by simp
next
  case (toggled E i on s b s')
  then show ?case using set_source_enabled_ok [of E i on "fst s" "snd s" b "fst s'" "snd s'"] by simp
next
  case (posted E D i q s reply s')
  then show ?case using webhook_inbound_ok [of E D i q "fst s" "snd s" reply "fst s'" "snd s'"] by simp
next
  case (published E D i topic msg s x s')
  then show ?case using record_mqtt_message_ok [of E D i topic msg "fst s" "snd s" x "fst s'" "snd s'"] by simp
next
  case (polled E D W N i s res s')
  then show ?case using poll_source_ok [of E D W N i "fst s" "snd s" res "fst s'" "snd s'"] by simp
next
  case (ticked E D W N s y s')
  then show ?case using poll_all_due_ok [of E D W N "fst s" "snd s" y "fst s'" "snd s'"] by simp
qed

lemma sensor_step_samples: "sensor_step s s' \<Longrightarrow> samples_ok (snd s) \<Longrightarrow> samples_ok (snd s')"
proof (induction rule: sensor_step.induct)
  case (created E D T a s out s')
  then show ?case using create_source_adds [of E D T a "fst s" "snd s" out "fst s'" "snd s'"] adds_samples_keeps by simp
next
  case (deleted E i s b s')
  then show ?case using delete_source_samples [of E i "fst s" "snd s" b "fst s'" "snd s'"] by simp
next
  case (toggled E i on s b s')
  then show ?case using set_source_enabled_adds [of E i on "fst s" "snd s" b "fst s'" "snd s'"] adds_samples_keeps by simp
next
  case (posted E D i q s reply s')
  then show ?case using webhook_inbound_adds [of E D i q "fst s" "snd s" reply "fst s'" "snd s'"] adds_samples_keeps by simp
next
  case (published E D i topic msg s x s')
  then show ?case using record_mqtt_message_adds [of E D i topic msg "fst s" "snd s" x "fst s'" "snd s'"] adds_samples_keeps by simp
next
  case (polled E D W N i s res s')
  then show ?case using poll_source_adds [of E D W N i "fst s" "snd s" res "fst s'" "snd s'"] adds_samples_keeps by simp
next
  case (ticked E D W N s y s')
  then show ?case using poll_all_due_adds [of E D W N "fst s" "snd s" y "fst s'" "snd s'"] adds_samples_keeps by simp
qed

lemma sensor_step_keeps: "sensor_step s s' \<Longrightarrow> keeps_registry s s'"
  using sensor_step_sources sensor_step_samples by (simp add: keeps_registry_def)

text \<open>C34: Whatever sequence of operations the hub goes through, from registering, toggling and deleting sources over inbound
  webhooks and MQTT messages to polls and ticks, every registered source is of a known kind and has a polling interval
  between five seconds and an hour, so no source is ever polled in a tight loop; and every sample belongs to a
  registered source: no event or poll is recorded for one that does not exist, and deleting a source takes its
  samples along.\<close>

theorem sensor_registry_stays_ok:
  assumes "sensor_step\<^sup>*\<^sup>* s s'" and "sources_ok (snd s)" and "samples_ok (snd s)"
  shows "sources_ok (snd s') \<and> samples_ok (snd s')"
  using sources.leads_star [OF sensor_step_keeps assms(1)] assms(2,3) by (simp add: keeps_registry_def)

section \<open>Inbound events\<close>

lemma compare_digest_True: "compare_digest p v = Some True \<Longrightarrow> v = VStr p"
  by (auto simp: compare_digest_def split: pyval.splits if_splits)

text \<open>C35: An event is recorded for a source only when the caller holds its secret: if the route changed the samples,
  then the source exists, is of a webhook kind and enabled, and the presented secret is the one of the source, which is
  not empty.\<close>

theorem webhook_needs_secret:
  assumes "webhook_inbound E D i q (c, h) = (reply, c', h')" and "h_sensor_samples h' \<noteq> h_sensor_samples h"
  shows "\<exists>r \<in> set (h_sensor_sources h). src_id r = i \<and> src_kind r \<in> set WEBHOOK_KINDS \<and> src_enabled r
           \<and> expected_secret r = VStr (wq_secret q) \<and> wq_secret q \<noteq> []"
  using assms(1)
proof (cases rule: webhook_inbound_cases)
  case untouched
  then show ?thesis using assms(2) by simp
next
  case (entered r c1 h1 p x)
  have secret: "expected_secret r = VStr (wq_secret q)" by (rule compare_digest_True [OF entered(5)])
  have "r \<in> set (h_sensor_sources h)" and "src_id r = i" using get_source_shape(2) [OF entered(1) refl] by simp_all
  then show ?thesis using entered(2,3,4) secret by (intro bexI [of _ r]) auto
qed

section \<open>The tick catches up\<close>

lemma get_source_system [simp]: "cx_bypass c \<Longrightarrow> get_source E i (c, h) = (tget src_id i (h_sensor_sources h), c, h)"
  by (simp add: get_source_def select_sources_def)

lemma flush_source_system [simp]: "cx_bypass c \<Longrightarrow> flush_source E r (c, h) = Inr (c, put_source r h)"
  by (simp add: flush_source_def put_source_def source_obj_def)

lemma pk_put_source [simp]: "pk_ok src_id (h_sensor_sources (put_source r h)) \<longleftrightarrow> pk_ok src_id (h_sensor_sources h)"
proof -
  have "map src_id (tupd src_id (src_id r) (\<lambda>_. r) rs) = map src_id rs" for rs by (simp add: tupd_def)
  then show ?thesis by (simp add: pk_ok_def put_source_def)
qed

definition due_sources :: "instant \<Rightarrow> hub \<Rightarrow> string set" where
  "due_sources now h = src_id ` {r \<in> set (h_sensor_sources h). polled_kind r \<and> source_due now r}"

lemma due_sources_put:
  assumes "src_id q = i" and "src_last_polled_at q = Some now" and "source_ok q" and "h_sensor_sources h' = h_sensor_sources (put_source q h)"
  shows "due_sources now h' \<subseteq> due_sources now h - {i}"
proof -
  have "\<not> source_due now q" using assms(2,3) by (simp add: source_due_def source_ok_def secs_def)
  then show ?thesis using assms(1,4) by (auto simp: due_sources_def put_source_def tupd_def)
qed

lemma poll_source_catches_up:
  assumes "cx_bypass c" and pk: "pk_ok src_id (h_sensor_sources h)" and reg: "sources_ok h"
    and poll: "poll_source E D W N i (c, h) = Inr (res, c', h')"
  shows "c' = c \<and> pk_ok src_id (h_sensor_sources h') \<and> due_sources (env_now E) h' \<subseteq> due_sources (env_now E) h - {i}"
  using poll
proof (cases rule: poll_source_cases)
  case (unread c1 h1 x)
  then have x: "x = tget src_id i (h_sensor_sources h)" "c1 = c" "h1 = h" using assms(1) by auto
  have "i \<notin> due_sources (env_now E) h"
  proof
    assume "i \<in> due_sources (env_now E) h"
    then obtain r where r: "r \<in> set (h_sensor_sources h)" "src_id r = i" "polled_kind r" by (auto simp: due_sources_def)
    then have "x = Some r" using pk_ok_get [OF pk, of i r] x by simp
    then show False using unread(5) r(3) by (auto simp: polled_kind_def)
  qed
  then show ?thesis using unread(2,3) x pk by auto
next
  case (failed c1 h1 r f m)
  then have r: "r \<in> set (h_sensor_sources h)" "src_id r = i" using get_source_shape(2) [OF failed(1) refl] by simp_all
  let ?q = "r\<lparr>src_config := f, src_last_polled_at := Some (env_now E), src_last_error := m\<rparr>"
  have eq: "c' = c" "h' = put_source ?q h" using failed assms(1) by auto
  have "source_ok r" using reg r(1) by (simp add: sources_ok_def list_all_iff)
  then have "source_ok ?q" by (rule source_ok_cong) simp_all
  then have "due_sources (env_now E) h' \<subseteq> due_sources (env_now E) h - {i}" by (intro due_sources_put [of ?q]) (simp_all add: r eq)
  moreover have "pk_ok src_id (h_sensor_sources h')" using pk by (simp add: eq(2) pk_put_source)
  ultimately show ?thesis using eq by simp
next
  case (heard c1 h1 r f v)
  then have r: "r \<in> set (h_sensor_sources h)" "src_id r = i" using get_source_shape(2) [OF heard(1) refl] by simp_all
  have c: "c1 = c" "h1 = h" using heard(1) assms(1) by simp_all
  let ?r = "r\<lparr>src_config := f\<rparr>"
  let ?q = "?r\<lparr>src_last_polled_at := Some (env_now E), src_last_success_at := Some (env_now E), src_last_error := None\<rparr>"
  have eq: "c' = c" "h_sensor_sources h' = h_sensor_sources (put_source ?q h)"
    using heard(2) assms(1) c by (auto simp: store_payload_def put_source_def split: option.splits)
  have "source_ok r" using reg r(1) by (simp add: sources_ok_def list_all_iff)
  then have "source_ok ?q" by (rule source_ok_cong) simp_all
  then have "due_sources (env_now E) h' \<subseteq> due_sources (env_now E) h - {i}" by (intro due_sources_put [of ?q]) (simp_all add: r eq)
  moreover have "pk_ok src_id (h_sensor_sources h')" using pk by (simp add: eq(2) pk_put_source)
  ultimately show ?thesis using eq by simp
qed

lemma poll_each_catches_up:
  assumes "cx_bypass c" and "pk_ok src_id (h_sensor_sources h)" and "sources_ok h"
    and "poll_each E D W N ids st (c, h) = (Inr st', c', h')" and "due_sources (env_now E) h \<subseteq> set ids"
  shows "due_sources (env_now E) h' = {}"
  using assms
proof (induction ids arbitrary: st h)
  case Nil
  then show ?case by simp
next
  case (Cons i ids)
  obtain res c1 h1 where p: "poll_source E D W N i (c, h) = Inr (res, c1, h1)"
    using Cons.prems(4) by (cases "poll_source E D W N i (c, h)") auto
  note up = poll_source_catches_up [OF Cons.prems(1-3) p]
  have c1: "c1 = c" using up by blast
  have "due_sources (env_now E) h1 \<subseteq> set ids" using up Cons.prems(5) by auto
  moreover obtain st1 where "poll_each E D W N ids st1 (c, h1) = (Inr st', c', h')"
    using Cons.prems(4) c1 by (cases res) (auto simp: p)
  ultimately show ?case using up Cons.IH Cons.prems(1) poll_source_ok [OF p Cons.prems(3)] by blast
qed

text \<open>C36: A tick of the poller catches up: run under the system bypass, as the scheduler runs it, a tick that completes leaves
  no enabled source of a polled kind due, whatever the sources answered.\<close>

theorem tick_leaves_none_due:
  assumes "cx_bypass c" and "pk_ok src_id (h_sensor_sources h)" and "sources_ok h"
    and "poll_all_due E D W N (c, h) = (Inr st, c', h')"
  shows "list_all (\<lambda>r. \<not> (polled_kind r \<and> source_due (env_now E) r)) (h_sensor_sources h')"
proof -
  let ?due = "filter (source_due (env_now E)) (filter polled_kind (h_sensor_sources h))"
  obtain st0 where "poll_each E D W N (map src_id ?due) st0 (c, h) = (Inr st, c', h')"
    using assms(1,4) by (simp add: poll_all_due_def select_sources_def Let_def)
  moreover have "due_sources (env_now E) h \<subseteq> set (map src_id ?due)" by (auto simp: due_sources_def)
  ultimately have "due_sources (env_now E) h' = {}" by (rule poll_each_catches_up [OF assms(1-3)])
  then show ?thesis by (auto simp: due_sources_def list_all_iff)
qed

text \<open>The counts of a tick that completes add up.\<close>

lemma poll_each_counts:
  "poll_each E D W N ids st s = (Inr st', s') \<Longrightarrow>
     pst_polled st' + pst_errors st' = pst_polled st + pst_errors st + length ids \<and> pst_considered st' = pst_considered st
   \<and> pst_skipped st' = pst_skipped st"
proof (induction ids arbitrary: st s)
  case Nil
  then show ?case by simp
next
  case (Cons i ids)
  obtain res s1 where p: "poll_source E D W N i s = Inr (res, s1)" using Cons.prems by (cases "poll_source E D W N i s") auto
  show ?case
  proof (cases res)
    case (PollError m)
    then show ?thesis using Cons.prems Cons.IH [of "st\<lparr>pst_errors := Suc (pst_errors st)\<rparr>" s1] by (simp add: p)
  next
    case (PollOk t v)
    then show ?thesis using Cons.prems Cons.IH [of "st\<lparr>pst_polled := Suc (pst_polled st)\<rparr>" s1] by (simp add: p)
  qed
qed

lemma length_filter_conj_le: "length (filter (\<lambda>x. P x \<and> Q x) xs) \<le> length (filter P xs)"
  by (induction xs) auto

lemma poll_all_due_counts:
  "poll_all_due E D W N s = (Inr st, s') \<Longrightarrow> pst_considered st = pst_polled st + pst_errors st + pst_skipped st"
  by (auto simp: poll_all_due_def Let_def length_filter_conj_le dest!: poll_each_counts split: prod.splits)

section \<open>Masking\<close>

lemma mask_keys_other: "k \<notin> set keys \<Longrightarrow> dget (mask_keys keys d) k = dget d k"
  by (induction keys arbitrary: d) (auto simp: mask_keys_def)

lemma mask_keys_masks: "k \<in> set keys \<Longrightarrow> truthy (dget d k) \<Longrightarrow> dget (mask_keys keys d) k = VStr MASK"
proof (induction keys arbitrary: d)
  case Nil
  then show ?case by simp
next
  case (Cons x keys)
  let ?d = "if truthy (dget d x) then dset d x (VStr MASK) else d"
  have step: "mask_keys (x # keys) d = mask_keys keys ?d" by (simp add: mask_keys_def)
  show ?case
  proof (cases "k \<in> set keys")
    case True
    have "truthy (dget ?d k)" using Cons.prems(2) by (simp add: MASK_def)
    then show ?thesis using Cons.IH [OF True] step by simp
  next
    case False
    then have "k = x" using Cons.prems(1) by simp
    then show ?thesis using step mask_keys_other [OF False] Cons.prems(2) by simp
  qed
qed

text \<open>Every field the registry names as secret is masked in the view of a source; the tokens of a calendar are not among
  them.\<close>

lemma redact_masks: "k \<in> set SENSOR_SECRET_KEYS \<Longrightarrow> truthy (dget cfg k) \<Longrightarrow> dget (redact_source_config cfg) k = VStr MASK"
proof -
  assume k: "k \<in> set SENSOR_SECRET_KEYS" and t: "truthy (dget cfg k)"
  then have "cfg \<noteq> []" by (auto simp: dget_def)
  moreover have "k \<noteq> ''v3''" using k by (auto simp: SENSOR_SECRET_KEYS_def)
  ultimately show ?thesis using mask_keys_masks [OF k t] by (auto simp: redact_source_config_def Let_def split: pyval.splits)
qed

lemma google_tokens_shown:
  assumes "google_config E cfg = Inr out"
  shows "dget (redact_source_config out) ''refresh_token'' = dget out ''refresh_token''"
proof -
  have "dget (mask_keys SENSOR_SECRET_KEYS out) ''refresh_token'' = dget out ''refresh_token''"
    by (rule mask_keys_other) (simp add: SENSOR_SECRET_KEYS_def)
  then show ?thesis by (auto simp: redact_source_config_def Let_def split: pyval.splits)
qed

section \<open>Concrete runs\<close>

definition roku_source :: sensor_source where
  "roku_source = \<lparr>src_id = ''ext_1'', src_organization_id = Some ''org'', src_kind = ''roku'', src_display_name = ''Den'', src_host = ''10.0.0.9'',
     src_port = 8060, src_enabled = True, src_poll_interval_seconds = 30, src_last_polled_at = None, src_last_success_at = None,
     src_last_error = None, src_config = None, src_created_at = 0, src_updated_at = 0\<rparr>"

definition plex_source :: sensor_source where
  "plex_source = roku_source\<lparr>src_id := ''ext_2'', src_kind := ''plex'', src_config := Some [(''webhook_secret'', VStr ''s3cret'')]\<rparr>"

definition sensor_hub :: hub where
  "sensor_hub = empty_hub\<lparr>h_sensor_sources := [roku_source, plex_source]\<rparr>"

definition silent_world :: world where
  "silent_world = \<lparr>w_fetch = (\<lambda>_. Inl (OtherExc ''timed out'')), w_open = (\<lambda>_ _ _. UrlError ''down''), w_json = (\<lambda>_. Inl ''empty''),
     w_quote = (\<lambda>_ s. s), w_urlencode = (\<lambda>_. []), w_urlparse = (\<lambda>_. Inl (ValueExc ''url'')), w_fixed4 = (\<lambda>_. ''0.0000''),
     w_strptime = (\<lambda>_ _. None), w_snmp = (\<lambda>_ _ _ _. SnmpMissing), w_order = (\<lambda>xs. xs), w_repr = quoted,
     w_exc = (\<lambda>_. ''TimeoutError: timed out'')\<rparr>"

abbreviation keep_all :: column_store where "keep_all \<equiv> (\<lambda>_ v. Some v)"

abbreviation silent_tick :: "(sensor_error + poll_stats) \<times> ctx \<times> hub" where
  "silent_tick \<equiv> poll_all_due demo_env keep_all silent_world (\<lambda>_. VNone) (job_ctx, sensor_hub)"

lemma silent_tick_completes: "\<exists>st c h. silent_tick = (Inr st, c, h)"
proof -
  have get: "get_source demo_env ''ext_1'' (job_ctx, sensor_hub) = (Some roku_source, job_ctx, sensor_hub)"
    by (simp add: sensor_hub_def roku_source_def)
  have "\<exists>res s1. poll_source demo_env keep_all silent_world (\<lambda>_. VNone) ''ext_1'' (job_ctx, sensor_hub) = Inr (res, s1)"
    unfolding poll_source_def get
    by (simp add: roku_source_def WEBHOOK_KINDS_def SUBSCRIBER_KINDS_def poll_kind_def poll_roku_def silent_world_def dict_or_empty_def
        keep_config_def store_value_def)
  then obtain res s1 where p: "poll_source demo_env keep_all silent_world (\<lambda>_. VNone) ''ext_1'' (job_ctx, sensor_hub) = Inr (res, s1)" by blast
  have "map src_id (filter (source_due (env_now demo_env)) (filter polled_kind (h_sensor_sources sensor_hub))) = [''ext_1'']"
    by (simp add: sensor_hub_def roku_source_def plex_source_def polled_kind_def source_due_def WEBHOOK_KINDS_def SUBSCRIBER_KINDS_def)
  then show ?thesis by (cases res) (auto simp: poll_all_due_def select_sources_def Let_def p)
qed

lemma sensor_hub_ok: "sources_ok sensor_hub" "pk_ok src_id (h_sensor_sources sensor_hub)"
  by (simp_all add: sources_ok_def sensor_hub_def source_ok_def roku_source_def plex_source_def EXTERNAL_SOURCE_KINDS_def pk_ok_def)

theorem tick_leaves_none_due_witness:
  "list_all (\<lambda>r. \<not> (polled_kind r \<and> source_due (env_now demo_env) r)) (h_sensor_sources (snd (snd silent_tick)))"
proof -
  obtain st c h where "silent_tick = (Inr st, c, h)" using silent_tick_completes by blast
  then show ?thesis using tick_leaves_none_due [OF job_ctx_bypass sensor_hub_ok(2,1)] by simp
qed

text \<open>A tick of the poller, then the deletion of a source that has a sample.\<close>

definition heard_hub :: hub where
  "heard_hub = sensor_hub\<lparr>h_sensor_samples := [\<lparr>smp_id = 1, smp_source_id = ''ext_2'', smp_sampled_at = 0, smp_payload = VDict []\<rparr>]\<rparr>"

theorem sensor_registry_stays_ok_witness:
  "sources_ok (snd (snd (delete_source demo_env ''ext_2'' (job_ctx, heard_hub))))
   \<and> samples_ok (snd (snd (delete_source demo_env ''ext_2'' (job_ctx, heard_hub))))"
proof -
  have "sensor_step\<^sup>*\<^sup>* (job_ctx, heard_hub) (snd (delete_source demo_env ''ext_2'' (job_ctx, heard_hub)))"
    by (rule r_into_rtranclp, rule deleted, rule prod.collapse [symmetric])
  moreover have "sources_ok heard_hub" using sensor_hub_ok(1) by (simp add: sources_ok_def heard_hub_def)
  moreover have "samples_ok heard_hub"
    by (simp add: samples_ok_def heard_hub_def source_ids_def sensor_hub_def plex_source_def)
  ultimately show ?thesis using sensor_registry_stays_ok [of "(job_ctx, heard_hub)"] by simp
qed

definition plex_request :: webhook_request where
  "plex_request = \<lparr>wq_content_length = Some 30, wq_secret = ''s3cret'', wq_body = JsonBody (VDict [(''event'', VStr ''media.play'')]),
     wq_remote_addr = Some ''10.0.0.4''\<rparr>"

abbreviation plex_post :: "webhook_reply \<times> ctx \<times> hub" where
  "plex_post \<equiv> webhook_inbound demo_env keep_all ''ext_2'' plex_request (job_ctx, sensor_hub)"

lemma plex_post_recorded: "h_sensor_samples (snd (snd plex_post)) \<noteq> h_sensor_samples sensor_hub"
proof -
  have get: "get_source demo_env ''ext_2'' (job_ctx, sensor_hub) = (Some plex_source, job_ctx, sensor_hub)"
    by (simp add: sensor_hub_def roku_source_def plex_source_def)
  have plex: "src_kind plex_source \<in> set WEBHOOK_KINDS" "src_enabled plex_source" "expected_secret plex_source = VStr ''s3cret''"
    by (simp_all add: plex_source_def roku_source_def WEBHOOK_KINDS_def expected_secret_def dict_or_empty_def dget_def value_or_def)
  have digest: "compare_digest ''s3cret'' (VStr ''s3cret'') = Some True" by code_simp
  have "h_sensor_samples (snd (snd plex_post)) = h_sensor_samples sensor_hub @ [last (h_sensor_samples (snd (snd plex_post)))]"
    unfolding webhook_inbound_def get
    by (simp add: plex digest plex_request_def MAX_WEBHOOK_BODY_BYTES_def webhook_payload_def record_webhook_event_def get store_payload_def
        put_source_def tadd_def)
  then show ?thesis by (metis append_self_conv list.distinct(1))
qed

theorem webhook_needs_secret_witness:
  "\<exists>r \<in> set (h_sensor_sources sensor_hub). src_id r = ''ext_2'' \<and> src_kind r \<in> set WEBHOOK_KINDS \<and> src_enabled r
     \<and> expected_secret r = VStr (wq_secret plex_request) \<and> wq_secret plex_request \<noteq> []"
proof -
  obtain reply c h where post: "plex_post = (reply, c, h)" by (metis prod.exhaust)
  then have "h_sensor_samples h \<noteq> h_sensor_samples sensor_hub" using plex_post_recorded by simp
  then show ?thesis by (rule webhook_needs_secret [OF post])
qed

end
