(* ===== verification/PowerTelemetry.thy ===== *)
theory PowerTelemetry
  imports Numbers Telemetry Announcements
begin

text \<open>
  The power views (\<open>app/services/device_power.py\<close>): the flag decoder, the sample reads behind the device page and the
  power probes, the breakdown by source, the intraday series, the fleet summary and the daily rollups. Samples are what
  \<open>Telemetry\<close> ingested. The arithmetic is that of floats. The record \<open>sql\<close> is the database: how it reads a stored number
  that is no finite decimal, and its aggregates over the stored values of a group.
\<close>

definition MAX_FRESH_SAMPLE_AGE_SECONDS :: int where "MAX_FRESH_SAMPLE_AGE_SECONDS = 300"
definition RECENT_WINDOW_DEFAULT_SECONDS :: int where "RECENT_WINDOW_DEFAULT_SECONDS = 60 * 60"
definition RECENT_WINDOW_MAX_SECONDS :: int where "RECENT_WINDOW_MAX_SECONDS = 24 * 60 * 60"

definition REAL_POWER_SOURCES :: "string list" where
  "REAL_POWER_SOURCES = [''steady'', ''burst'']"

record sql =
  sq_read :: "pyval \<Rightarrow> number"
  sq_avg :: "pyval list \<Rightarrow> number"
  sq_min :: "pyval list \<Rightarrow> number"
  sq_max :: "pyval list \<Rightarrow> number"
  sq_sum :: "pyval list \<Rightarrow> number"

section \<open>Flags and sources\<close>

definition POWER_SOURCE_FLAG_NAMES :: "string list" where
  "POWER_SOURCE_FLAG_NAMES = [''SYNTHETIC'', ''REAL'', ''VOLTAGE_VALID'', ''CURRENT_VALID'', ''POWER_VALID'', ''FREQUENCY_VALID'',
     ''ENERGY_VALID'', ''CURRENT_ESTIMATED'']"

record decoded_flags =
  df_raw :: nat
  df_bits_set :: "nat list"
  df_names :: "string list"

text \<open>\<open>raw.bit_length()\<close>.\<close>

fun bit_length :: "nat \<Rightarrow> nat" where
  "bit_length n = (if n = 0 then 0 else Suc (bit_length (n div 2)))"

declare bit_length.simps [simp del]

definition bit_set :: "nat \<Rightarrow> nat \<Rightarrow> bool" where
  "bit_set raw i \<longleftrightarrow> odd (raw div 2 ^ i)"

definition decode_source_flags :: "int option \<Rightarrow> decoded_flags" where
  "decode_source_flags flags =
     (let raw = nat (case flags of None \<Rightarrow> 0 | Some i \<Rightarrow> i);
          bits = filter (bit_set raw) [0..<bit_length raw]
      in \<lparr>df_raw = raw, df_bits_set = bits,
          df_names = map ((!) POWER_SOURCE_FLAG_NAMES) (filter (\<lambda>i. i < length POWER_SOURCE_FLAG_NAMES) bits)\<rparr>)"

definition source_kind :: "string \<Rightarrow> string" where
  "source_kind source = (if source \<in> set REAL_POWER_SOURCES then ''real'' else ''synthetic'')"

section \<open>Samples\<close>

text \<open>\<open>float(v)\<close> of a stored decimal.\<close>

definition float_column :: "sql \<Rightarrow> pyval \<Rightarrow> number option" where
  "float_column Q v = (case v of VNone \<Rightarrow> None | VFloat r \<Rightarrow> Some (of_rat r) | VInt i \<Rightarrow> Some (of_rat (of_int i)) | _ \<Rightarrow> Some (sq_read Q v))"

record power_view =
  pw_id :: int
  pw_channel_id :: int
  pw_sampled_at :: string
  pw_received_at :: string
  pw_age_seconds :: int
  pw_is_stale :: bool
  pw_source :: string
  pw_source_kind :: string
  pw_source_flags :: int
  pw_flags_decoded :: decoded_flags
  pw_v_v :: "number option"
  pw_i_ma :: pyval
  pw_i_ma_estimated :: pyval
  pw_i_ma_estimate :: pyval
  pw_p_w :: "number option"
  pw_s_va :: "number option"
  pw_pf :: "number option"
  pw_hz :: "number option"
  pw_energy_wh :: pyval
  pw_rssi_dbm :: pyval
  pw_chip_type :: pyval
  pw_sampled_uptime_seconds :: pyval

definition sample_age :: "instant \<Rightarrow> power_sample \<Rightarrow> int" where
  "sample_age now p = max 0 ((now - ps_sampled_at p) div secs 1)"

definition serialize_sample :: "sql \<Rightarrow> instant \<Rightarrow> power_sample \<Rightarrow> power_view" where
  "serialize_sample Q now p =
     (let col = dget (ps_columns p); num = (\<lambda>k. float_column Q (dget (ps_columns p) k)) in
      \<lparr>pw_id = ps_id p, pw_channel_id = ps_channel_id p, pw_sampled_at = iso_z (ps_sampled_at p), pw_received_at = iso_z (ps_received_at p),
       pw_age_seconds = sample_age now p, pw_is_stale = (MAX_FRESH_SAMPLE_AGE_SECONDS < sample_age now p),
       pw_source = ps_source p, pw_source_kind = source_kind (ps_source p), pw_source_flags = ps_source_flags p,
       pw_flags_decoded = decode_source_flags (Some (ps_source_flags p)), pw_v_v = num ''v_v'', pw_i_ma = col ''i_ma'',
       pw_i_ma_estimated = col ''i_ma_estimated'', pw_i_ma_estimate = col ''i_ma_estimate'', pw_p_w = num ''p_w'', pw_s_va = num ''s_va'',
       pw_pf = num ''pf'', pw_hz = num ''hz'', pw_energy_wh = col ''energy_wh'', pw_rssi_dbm = col ''rssi_dbm'',
       pw_chip_type = col ''chip_type'', pw_sampled_uptime_seconds = col ''sampled_uptime_seconds''\<rparr>)"

definition channel_samples :: "string \<Rightarrow> int \<Rightarrow> hub \<Rightarrow> power_sample list" where
  "channel_samples did channel h = filter (\<lambda>p. ps_device_id p = did \<and> ps_channel_id p = channel) (h_power_samples h)"

text \<open>\<open>ORDER BY sampled_at DESC\<close>.\<close>

definition newest_first :: "power_sample list \<Rightarrow> power_sample list" where
  "newest_first ps = sort_key (\<lambda>p. - ps_sampled_at p) ps"

definition latest_power_sample :: "env \<Rightarrow> sql \<Rightarrow> string \<Rightarrow> int \<Rightarrow> hub \<Rightarrow> power_view option" where
  "latest_power_sample E Q did channel h =
     (if did = [] then None
      else case newest_first (channel_samples did channel h) of [] \<Rightarrow> None | p # _ \<Rightarrow> Some (serialize_sample Q (env_now E) p))"

text \<open>The batch read: the rows at the grouped maximum, the first of each device.\<close>

definition newest_at :: "power_sample list \<Rightarrow> instant" where
  "newest_at ps = Max (set (map ps_sampled_at ps))"

definition latest_samples_by_device :: "env \<Rightarrow> sql \<Rightarrow> string list \<Rightarrow> int \<Rightarrow> hub \<Rightarrow> (string \<times> power_view) list" where
  "latest_samples_by_device E Q device_ids channel h =
     (let ids = filter (\<lambda>d. d \<noteq> []) device_ids;
          rows = filter (\<lambda>p. ps_device_id p \<in> set ids \<and> ps_channel_id p = channel
                   \<and> ps_sampled_at p = newest_at (channel_samples (ps_device_id p) channel h)) (h_power_samples h)
      in foldl (\<lambda>out p. if map_of out (ps_device_id p) \<noteq> None then out
                        else out @ [(ps_device_id p, serialize_sample Q (env_now E) p)]) [] rows)"

text \<open>\<open>max(low, min(int(x or default), high))\<close>.\<close>

definition clamped :: "int \<Rightarrow> int \<Rightarrow> int \<Rightarrow> int \<Rightarrow> int" where
  "clamped low high dflt n = max low (min (if n = 0 then dflt else n) high)"

definition recent_samples :: "env \<Rightarrow> sql \<Rightarrow> string \<Rightarrow> int \<Rightarrow> int \<Rightarrow> nat \<Rightarrow> string option \<Rightarrow> hub \<Rightarrow> power_view list" where
  "recent_samples E Q did channel window limit source h =
     (if did = [] then []
      else let cutoff = env_now E - secs (clamped 60 RECENT_WINDOW_MAX_SECONDS RECENT_WINDOW_DEFAULT_SECONDS window);
               rows = filter (\<lambda>p. cutoff \<le> ps_sampled_at p \<and> (case source of None \<Rightarrow> True | Some s \<Rightarrow> s = [] \<or> ps_source p = s))
                        (channel_samples did channel h)
           in map (serialize_sample Q (env_now E)) (take limit (newest_first rows)))"

record source_breakdown =
  bd_window_seconds :: int
  bd_total :: nat
  bd_real :: nat
  bd_synthetic :: nat
  bd_by_source :: "(string \<times> nat) list"

text \<open>\<open>GROUP BY source\<close>.\<close>

definition count_by_source :: "power_sample list \<Rightarrow> (string \<times> nat) list" where
  "count_by_source ps = map (\<lambda>s. (s, length (filter (\<lambda>p. ps_source p = s) ps))) (remdups (map ps_source ps))"

definition window_samples :: "instant \<Rightarrow> string \<Rightarrow> int \<Rightarrow> hub \<Rightarrow> power_sample list" where
  "window_samples cutoff did channel h = filter (\<lambda>p. cutoff \<le> ps_sampled_at p) (channel_samples did channel h)"

definition power_source_breakdown :: "env \<Rightarrow> string \<Rightarrow> int \<Rightarrow> int \<Rightarrow> hub \<Rightarrow> source_breakdown" where
  "power_source_breakdown E did channel window h =
     (let win = clamped 60 (30 * 24 * 60 * 60) RECENT_WINDOW_DEFAULT_SECONDS window;
          by_source = (if did = [] then [] else count_by_source (window_samples (env_now E - secs win) did channel h));
          total = sum_list (map snd by_source);
          real = sum_list (map snd (filter (\<lambda>kv. fst kv \<in> set REAL_POWER_SOURCES) by_source))
      in \<lparr>bd_window_seconds = win, bd_total = total, bd_real = real, bd_synthetic = total - real, bd_by_source = by_source\<rparr>)"

section \<open>The intraday series\<close>

text \<open>The float nearest to a rational that is far from the largest one.\<close>

definition float_of :: "rat \<Rightarrow> rat" where
  "float_of r = (case rounded r of Finite d \<Rightarrow> d | _ \<Rightarrow> 0)"

record slice =
  sl_sum :: number
  sl_count :: nat
  sl_real :: nat
  sl_synthetic :: nat

record bucket =
  bk_t :: string
  bk_avg_w :: "number option"
  bk_sample_count :: nat
  bk_real :: nat
  bk_synthetic :: nat

record power_series =
  se_window_seconds :: int
  se_bucket_seconds :: int
  se_buckets :: "bucket list"
  se_max_w :: number
  se_point_count :: nat

definition slice_of :: "rat \<Rightarrow> instant \<Rightarrow> power_sample \<Rightarrow> int" where
  "slice_of width cutoff p =
     (let q = float_of (float_of (of_int (ps_sampled_at p - cutoff) / 1000000) / width) in if 0 \<le> q then \<lfloor>q\<rfloor> else \<lceil>q\<rceil>)"

definition add_to_slice :: "sql \<Rightarrow> power_sample \<Rightarrow> slice \<Rightarrow> slice" where
  "add_to_slice Q p s =
     (let s1 = (case float_column Q (dget (ps_columns p) ''p_w'') of None \<Rightarrow> s
                | Some w \<Rightarrow> s\<lparr>sl_sum := num_add (sl_sum s) w, sl_count := Suc (sl_count s)\<rparr>)
      in if ps_source p \<in> set REAL_POWER_SOURCES then s1\<lparr>sl_real := Suc (sl_real s1)\<rparr> else s1\<lparr>sl_synthetic := Suc (sl_synthetic s1)\<rparr>)"

definition fill_slice :: "sql \<Rightarrow> rat \<Rightarrow> instant \<Rightarrow> power_sample \<Rightarrow> slice list \<Rightarrow> slice list" where
  "fill_slice Q width cutoff p slices =
     (let i = slice_of width cutoff p in
      if i < 0 \<or> int (length slices) \<le> i then slices else slices[nat i := add_to_slice Q p (slices ! nat i)])"

text \<open>\<open>timedelta(seconds=x)\<close>: whole seconds, and the fraction rounded to microseconds.\<close>

definition timedelta_of :: "rat \<Rightarrow> int" where
  "timedelta_of x = secs \<lfloor>x\<rfloor> + half_even (float_of ((x - of_int \<lfloor>x\<rfloor>) * 1000000))"

definition bucket_of :: "rat \<Rightarrow> instant \<Rightarrow> nat \<Rightarrow> slice \<Rightarrow> bucket" where
  "bucket_of width cutoff i s =
     \<lparr>bk_t = iso_z (cutoff + timedelta_of (float_of (of_nat i * width))),
      bk_avg_w = (if sl_count s = 0 then None else Some (num_round 2 (num_over (sl_sum s) (of_nat (sl_count s))))),
      bk_sample_count = sl_count s, bk_real = sl_real s, bk_synthetic = sl_synthetic s\<rparr>"

definition intraday_power_series :: "env \<Rightarrow> sql \<Rightarrow> string \<Rightarrow> int \<Rightarrow> int \<Rightarrow> int \<Rightarrow> hub \<Rightarrow> power_series option" where
  "intraday_power_series E Q did channel window buckets h =
     (if did = [] then None
      else
        let win = clamped 600 (30 * 24 * 60 * 60) (24 * 60 * 60) window; n = clamped 12 1440 144 buckets;
            width = float_of (of_int win / of_int n); cutoff = env_now E - secs win;
            slices = fold (fill_slice Q width cutoff) (window_samples cutoff did channel h)
                       (replicate (nat n) \<lparr>sl_sum = Num 0, sl_count = 0, sl_real = 0, sl_synthetic = 0\<rparr>);
            out = map (\<lambda>(i, s). bucket_of width cutoff i s) (enumerate 0 slices);
            avgs = List.map_filter bk_avg_w out
        in Some \<lparr>se_window_seconds = win, se_bucket_seconds = \<lfloor>width\<rfloor>, se_buckets = out,
                 se_max_w = foldl (\<lambda>m x. if num_less m x then x else m) (Num 0) avgs, se_point_count = length avgs\<rparr>)"

section \<open>The fleet\<close>

text \<open>The operator's rate: \<open>None\<close> when none is set or it is no nonnegative number. An integer too large for a float escapes.\<close>

definition currency_setting :: "ctx \<Rightarrow> hub \<Rightarrow> pyval" where
  "currency_setting c h =
     (let v = settings_get c (h_settings h) ''power.currency'' None (VStr ''USD'') in if truthy v then v else VStr ''USD'')"

definition cost_rate_per_kwh :: "env \<Rightarrow> ctx \<Rightarrow> hub \<Rightarrow> py_exc + (number option \<times> pyval)" where
  "cost_rate_per_kwh E c h =
     (let raw = settings_get c (h_settings h) ''power.rate_per_kwh'' None VNone in
      if raw = VNone \<or> py_strip (py_str E raw) = [] then Inr (None, currency_setting c h)
      else map_sum id (\<lambda>rate. case rate of
              None \<Rightarrow> (None, VStr ''USD'')
            | Some x \<Rightarrow> if num_less x (Num 0) then (None, VStr ''USD'') else (Some x, VStr (py_str E (currency_setting c h))))
             (float_or None Some raw))"

fun num_mult :: "number \<Rightarrow> number \<Rightarrow> number" where
  "num_mult (Num a) (Num b) = of_rat (a * b)"
| "num_mult NaN _ = NaN"
| "num_mult _ NaN = NaN"
| "num_mult x y =
     (if x = Num 0 \<or> y = Num 0 then NaN
      else if num_less x (Num 0) = num_less y (Num 0) then PlusInf else MinusInf)"

record fleet_device =
  fd_device_id :: string
  fd_display_name :: string
  fd_sample_count :: nat
  fd_avg_w :: "number option"
  fd_min_w :: "number option"
  fd_max_w :: "number option"
  fd_first_sample_at :: string
  fd_last_sample_at :: string
  fd_latest_sample :: "power_view option"
  fd_kwh_window :: "number option"
  fd_cost_window :: "number option"

record fleet_view =
  fv_window_seconds :: int
  fv_window_started_at :: string
  fv_now :: string
  fv_fleet_avg_w :: "number option"
  fv_fleet_peak_w :: "number option"
  fv_fleet_kwh :: "number option"
  fv_fleet_cost :: "number option"
  fv_rate_per_kwh :: "number option"
  fv_currency :: pyval
  fv_per_device :: "fleet_device list"

text \<open>The stored values of a column in a group, \<open>NULL\<close>s left out, and an aggregate of them.\<close>

definition column_values :: "string \<Rightarrow> power_sample list \<Rightarrow> pyval list" where
  "column_values k ps = filter (\<lambda>v. v \<noteq> VNone) (map (\<lambda>p. dget (ps_columns p) k) ps)"

definition aggregate :: "(pyval list \<Rightarrow> number) \<Rightarrow> pyval list \<Rightarrow> number option" where
  "aggregate f vs = (if vs = [] then None else Some (f vs))"

definition device_label :: "string \<Rightarrow> hub \<Rightarrow> string" where
  "device_label did h =
     (case get_device did h of None \<Rightarrow> did | Some d \<Rightarrow> if dev_display_name d = [] then did else dev_display_name d)"

definition fleet_row :: "env \<Rightarrow> sql \<Rightarrow> (string \<times> power_view) list \<Rightarrow> hub \<Rightarrow> string \<Rightarrow> power_sample list \<Rightarrow> fleet_device" where
  "fleet_row E Q latest h did ps =
     \<lparr>fd_device_id = did, fd_display_name = device_label did h, fd_sample_count = length ps,
      fd_avg_w = aggregate (sq_avg Q) (column_values ''p_w'' ps), fd_min_w = aggregate (sq_min Q) (column_values ''p_w'' ps),
      fd_max_w = aggregate (sq_max Q) (column_values ''p_w'' ps),
      fd_first_sample_at = iso_z (Min (set (map ps_sampled_at ps))), fd_last_sample_at = iso_z (Max (set (map ps_sampled_at ps))),
      fd_latest_sample = map_of latest did, fd_kwh_window = None, fd_cost_window = None\<rparr>"

text \<open>The sort key \<open>d["avg_w"] or 0\<close>, largest first; an average that is NaN has no place in the order and counts as 0.\<close>

definition hog_key :: "fleet_device \<Rightarrow> int \<times> rat" where
  "hog_key d = (case fd_avg_w d of Some (Num r) \<Rightarrow> (1, - r) | Some PlusInf \<Rightarrow> (0, 0) | Some MinusInf \<Rightarrow> (2, 0) | _ \<Rightarrow> (1, 0))"

text \<open>Energy of the window: the rollups' sum, or else average power times hours; and its cost.\<close>

definition rollup_kwh :: "sql \<Rightarrow> instant \<Rightarrow> hub \<Rightarrow> string \<Rightarrow> number option" where
  "rollup_kwh Q cutoff h did =
     aggregate (sq_sum Q) (filter (\<lambda>v. v \<noteq> VNone)
       (map pr_kwh (filter (\<lambda>r. pr_device_id r = did \<and> cutoff \<le> pr_day_bucket r) (h_power_rollups h))))"

definition with_energy :: "sql \<Rightarrow> instant \<Rightarrow> int \<Rightarrow> number option \<Rightarrow> hub \<Rightarrow> fleet_device \<Rightarrow> fleet_device" where
  "with_energy Q cutoff win rate h d =
     (let kwh = (case rollup_kwh Q cutoff h (fd_device_id d) of
            Some k \<Rightarrow> Some k
          | None \<Rightarrow> map_option (\<lambda>w. num_over (num_over (num_times w (of_int win)) 3600) 1000) (fd_avg_w d))
      in d\<lparr>fd_kwh_window := kwh,
           fd_cost_window := (case (kwh, rate) of (Some k, Some r) \<Rightarrow> Some (num_mult k r) | _ \<Rightarrow> None)\<rparr>)"

definition nonzero :: "number \<Rightarrow> number option" where
  "nonzero x = (if x = Num 0 then None else Some x)"

definition fleet_groups :: "instant \<Rightarrow> hub \<Rightarrow> (string \<times> power_sample list) list" where
  "fleet_groups cutoff h =
     (let ps = filter (\<lambda>p. ps_channel_id p = 0 \<and> cutoff \<le> ps_sampled_at p) (h_power_samples h)
      in map (\<lambda>did. (did, filter (\<lambda>p. ps_device_id p = did) ps)) (remdups (map ps_device_id ps)))"

definition fleet_summary :: "env \<Rightarrow> sql \<Rightarrow> int \<Rightarrow> ctx \<Rightarrow> hub \<Rightarrow> py_exc + fleet_view" where
  "fleet_summary E Q window c h =
     (let win = clamped 60 (30 * 24 * 60 * 60) (24 * 60 * 60) window; cutoff = env_now E - secs win;
          groups = fleet_groups cutoff h;
          latest = latest_samples_by_device E Q (map fst groups) 0 h;
          rows = map (\<lambda>(did, ps). fleet_row E Q latest h did ps) groups;
          total_avg = foldl num_add (Num 0) (List.map_filter fd_avg_w rows);
          total_max = foldl (\<lambda>m x. if num_less m x then x else m) (Num 0) (List.map_filter fd_max_w rows)
      in attempt (cost_rate_per_kwh E c h) (\<lambda>(rate, currency).
           let devices = map (with_energy Q cutoff win rate h) (sort_key hog_key rows);
               kwhs = List.map_filter fd_kwh_window devices;
               fleet_kwh = (if kwhs = [] then None else Some (foldl num_add (Num 0) kwhs))
           in Inr \<lparr>fv_window_seconds = win, fv_window_started_at = iso_z cutoff, fv_now = iso_z (env_now E),
                   fv_fleet_avg_w = nonzero total_avg, fv_fleet_peak_w = nonzero total_max, fv_fleet_kwh = fleet_kwh,
                   fv_fleet_cost = (case (fleet_kwh, rate) of (Some k, Some r) \<Rightarrow> Some (num_mult k r) | _ \<Rightarrow> None),
                   fv_rate_per_kwh = rate, fv_currency = currency, fv_per_device = devices\<rparr>))"

section \<open>Daily rollups\<close>

definition DAY_US :: int where "DAY_US = secs 86400"

text \<open>\<open>replace(hour=0, ...)\<close>, and the day before.\<close>

definition midnight :: "instant \<Rightarrow> instant" where
  "midnight t = t div DAY_US * DAY_US"

definition rollup_day :: "env \<Rightarrow> instant option \<Rightarrow> instant" where
  "rollup_day E day = (case day of None \<Rightarrow> midnight (env_now E - DAY_US) | Some t \<Rightarrow> midnight t)"

definition day_groups :: "instant \<Rightarrow> hub \<Rightarrow> (string \<times> power_sample list) list" where
  "day_groups day h =
     (let ps = filter (\<lambda>p. ps_channel_id p = 0 \<and> day \<le> ps_sampled_at p \<and> ps_sampled_at p < day + DAY_US) (h_power_samples h)
      in map (\<lambda>did. (did, filter (\<lambda>p. ps_device_id p = did) ps)) (remdups (map ps_device_id ps)))"

text \<open>The energy of the day, from the first to the last counter; the column holds integers.\<close>

definition energy_delta :: "power_sample list \<Rightarrow> number option" where
  "energy_delta ps =
     (let es = map int_of (column_values ''energy_wh'' ps)
      in if es = [] then None else Some (of_rat (of_int (Max (set es) - Min (set es)) / 1000)))"

definition of_opt_number :: "(number \<Rightarrow> pyval) \<Rightarrow> number option \<Rightarrow> pyval" where
  "of_opt_number N x = (case x of None \<Rightarrow> VNone | Some y \<Rightarrow> of_number N y)"

text \<open>The upsert: the row of the device and day is overwritten, or a new one inserted (\<open>ON CONFLICT (device_id, day_bucket)\<close>).
  \<open>None\<close> when a column refuses a value.\<close>

definition rollup_row ::
  "env \<Rightarrow> sql \<Rightarrow> column_store \<Rightarrow> (number \<Rightarrow> pyval) \<Rightarrow> instant \<Rightarrow> string \<times> power_sample list \<Rightarrow> power_rollup option" where
  "rollup_row E Q D N day g =
     (let ps = snd g; col = (\<lambda>k f. store_value D (''device_power_rollups.'' @ k) (of_opt_number N (aggregate f (column_values ''p_w'' ps)))) in
      case (col ''avg_w'' (sq_avg Q), col ''min_w'' (sq_min Q), col ''max_w'' (sq_max Q),
            store_value D ''device_power_rollups.kwh'' (of_opt_number N (energy_delta ps))) of
        (Some a, Some b, Some d, Some k) \<Rightarrow>
          Some \<lparr>pr_id = 0, pr_device_id = fst g, pr_day_bucket = day, pr_computed_at = env_now E, pr_sample_count = int (length ps),
                pr_synthetic_sample_count = Some (int (length (filter (\<lambda>p. ps_source p = ''synthetic'') ps))),
                pr_avg_w = a, pr_min_w = b, pr_max_w = d, pr_kwh = k\<rparr>
      | _ \<Rightarrow> None)"

definition same_rollup :: "power_rollup \<Rightarrow> power_rollup \<Rightarrow> bool" where
  "same_rollup r q \<longleftrightarrow> pr_device_id q = pr_device_id r \<and> pr_day_bucket q = pr_day_bucket r"

definition upsert_rollup :: "power_rollup \<Rightarrow> hub \<Rightarrow> hub" where
  "upsert_rollup r h =
     (if list_ex (same_rollup r) (h_power_rollups h)
      then h\<lparr>h_power_rollups := map (\<lambda>q. if same_rollup r q then r\<lparr>pr_id := pr_id q\<rparr> else q) (h_power_rollups h)\<rparr>
      else h\<lparr>h_power_rollups := tadd (r\<lparr>pr_id := h_row_seq h\<rparr>) (h_power_rollups h), h_row_seq := h_row_seq h + 1\<rparr>)"

fun write_rollups :: "(string \<times> power_sample list \<Rightarrow> power_rollup option) \<Rightarrow> (string \<times> power_sample list) list \<Rightarrow> hub \<Rightarrow> hub option" where
  "write_rollups row [] h = Some h"
| "write_rollups row (g # gs) h = (case row g of None \<Rightarrow> None | Some r \<Rightarrow> write_rollups row gs (upsert_rollup r h))"

record rollup_stats =
  rst_day :: string
  rst_day_end :: string
  rst_device_count :: nat
  rst_rollups_written :: nat

text \<open>\<open>None\<close>: a statement failed and the whole run was rolled back.\<close>

definition compute_daily_rollups ::
  "env \<Rightarrow> sql \<Rightarrow> column_store \<Rightarrow> (number \<Rightarrow> pyval) \<Rightarrow> instant option \<Rightarrow> hub \<Rightarrow> (rollup_stats \<times> hub) option" where
  "compute_daily_rollups E Q D N day0 h =
     (let day = rollup_day E day0; groups = day_groups day h
      in map_option (\<lambda>h'. (\<lparr>rst_day = iso_z day, rst_day_end = iso_z (day + DAY_US), rst_device_count = length groups,
                            rst_rollups_written = length groups\<rparr>, h'))
           (write_rollups (rollup_row E Q D N day) groups h))"

record rollup_view =
  rv_device_id :: string
  rv_day_bucket :: string
  rv_sample_count :: int
  rv_synthetic_sample_count :: "int option"
  rv_is_synthetic_tainted :: "bool option"
  rv_avg_w :: "number option"
  rv_min_w :: "number option"
  rv_max_w :: "number option"
  rv_kwh :: "number option"
  rv_computed_at :: string

definition serialize_rollup :: "sql \<Rightarrow> power_rollup \<Rightarrow> rollup_view" where
  "serialize_rollup Q r =
     \<lparr>rv_device_id = pr_device_id r, rv_day_bucket = iso_z (pr_day_bucket r), rv_sample_count = pr_sample_count r,
      rv_synthetic_sample_count = pr_synthetic_sample_count r,
      rv_is_synthetic_tainted = map_option (\<lambda>n. n \<noteq> 0) (pr_synthetic_sample_count r),
      rv_avg_w = float_column Q (pr_avg_w r), rv_min_w = float_column Q (pr_min_w r), rv_max_w = float_column Q (pr_max_w r),
      rv_kwh = float_column Q (pr_kwh r), rv_computed_at = iso_z (pr_computed_at r)\<rparr>"

definition daily_rollups_for_device :: "env \<Rightarrow> sql \<Rightarrow> string \<Rightarrow> int \<Rightarrow> hub \<Rightarrow> rollup_view list" where
  "daily_rollups_for_device E Q did days h =
     (if did = [] then []
      else let cutoff = env_now E - clamped 1 365 7 days * DAY_US
           in map (serialize_rollup Q) (sort_key (\<lambda>r. - pr_day_bucket r)
                (filter (\<lambda>r. pr_device_id r = did \<and> cutoff \<le> pr_day_bucket r) (h_power_rollups h))))"

record fleet_rollups =
  fr_days :: int
  fr_day_keys :: "string list"
  fr_device_ids :: "string list"
  fr_device_names :: "(string \<times> string) list"
  fr_avg_w_by_day :: "(string \<times> number option list) list"

text \<open>The pivot: of two rollups of a device under one day key the later one counts.\<close>

definition day_value :: "sql \<Rightarrow> power_rollup list \<Rightarrow> string \<Rightarrow> string \<Rightarrow> number option" where
  "day_value Q rows day did =
     (case filter (\<lambda>r. iso_z (pr_day_bucket r) = day \<and> pr_device_id r = did \<and> pr_avg_w r \<noteq> VNone) rows of
        [] \<Rightarrow> None | r # rs \<Rightarrow> float_column Q (pr_avg_w (last (r # rs))))"

definition fleet_daily_rollups :: "env \<Rightarrow> sql \<Rightarrow> int \<Rightarrow> hub \<Rightarrow> fleet_rollups" where
  "fleet_daily_rollups E Q days h =
     (let n = clamped 1 365 30 days; cutoff = env_now E - n * DAY_US;
          rows = sort_key pr_day_bucket (filter (\<lambda>r. cutoff \<le> pr_day_bucket r) (h_power_rollups h));
          device_ids = sort (remdups (map pr_device_id rows)); day_keys = sort (remdups (map (\<lambda>r. iso_z (pr_day_bucket r)) rows))
      in \<lparr>fr_days = n, fr_day_keys = day_keys, fr_device_ids = device_ids,
          fr_device_names = map (\<lambda>d. (dev_id d, if dev_display_name d = [] then dev_id d else dev_display_name d))
            (filter (\<lambda>d. dev_id d \<in> set device_ids) (h_devices h)),
          fr_avg_w_by_day = map (\<lambda>k. (k, map (day_value Q rows k) device_ids)) day_keys\<rparr>)"

end
