(* ===== verification/PowerProps.thy ===== *)
theory PowerProps
  imports PowerTelemetry Notifications
begin

text \<open>
  What holds of the power views: the flag decoder loses nothing, the batch read is the single read, the breakdown by
  source accounts for every sample, and computing a day's rollups again changes nothing.
\<close>

section \<open>Flags\<close>

lemma bit_set_Suc: "bit_set n (Suc i) = bit_set (n div 2) i"
  by (simp add: bit_set_def div_mult2_eq)

lemma set_bits_step:
  "filter (bit_set n) [0..<Suc k] = (if odd n then [0] else []) @ map Suc (filter (bit_set (n div 2)) [0..<k])"
proof -
  have "filter (bit_set n) [0..<Suc k] = (if bit_set n 0 then [0] else []) @ filter (bit_set n) (map Suc [0..<k])"
    by (simp add: upt_conv_Cons map_Suc_upt del: upt_Suc)
  also have "filter (bit_set n) (map Suc [0..<k]) = map Suc (filter (bit_set (n div 2)) [0..<k])"
    by (simp add: filter_map comp_def bit_set_Suc)
  also have "bit_set n 0 \<longleftrightarrow> odd n" by (simp add: bit_set_def)
  finally show ?thesis .
qed

lemma sum_powers_Suc: "sum_list (map (\<lambda>i. 2 ^ i) (map Suc is)) = 2 * sum_list (map (\<lambda>i. 2 ^ i :: nat) is)"
  by (induction "is") auto

lemma sum_set_bits: "sum_list (map (\<lambda>i. 2 ^ i) (filter (bit_set n) [0..<bit_length n])) = n"
proof (induction n rule: bit_length.induct)
  case (1 n)
  show ?case
  proof (cases "n = 0")
    case True
    then show ?thesis by (simp add: bit_length.simps)
  next
    case False
    let ?rest = "filter (bit_set (n div 2)) [0..<bit_length (n div 2)]"
    have len: "bit_length n = Suc (bit_length (n div 2))" using False by (subst bit_length.simps) simp
    have "sum_list (map (\<lambda>i. 2 ^ i) (filter (bit_set n) [0..<bit_length n]))
        = (if odd n then 1 else 0) + sum_list (map (\<lambda>i. 2 ^ i) (map Suc ?rest))"
      unfolding len set_bits_step by simp
    also have "\<dots> = (if odd n then 1 else 0) + 2 * (n div 2)" unfolding sum_powers_Suc by (simp only: 1 [OF False])
    also have "\<dots> = n" by presburger
    finally show ?thesis .
  qed
qed

text \<open>Decoding the source flags of a power sample loses nothing: the powers of two of the listed bits add up to the reported
  word again, also for bits the table of names does not know.\<close>

theorem flags_decode_encode:
  "sum_list (map (\<lambda>i. 2 ^ i) (df_bits_set (decode_source_flags (Some (int n))))) = n"
  by (simp add: decode_source_flags_def Let_def sum_set_bits)

section \<open>The batch read\<close>

lemma first_wins:
  "map_of (foldl (\<lambda>out p. if map_of out (key p) \<noteq> None then out else out @ [(key p, f p)]) out ps) d
     = (case map_of out d of Some v \<Rightarrow> Some v | None \<Rightarrow> map_option f (find (\<lambda>p. key p = d) ps))"
proof (induction ps arbitrary: out)
  case Nil
  then show ?case by (simp split: option.splits)
next
  case (Cons p ps)
  then show ?case by (auto simp: map_add_def split: option.splits)
qed

lemma find_first_match: "find P (filter Q xs) = find (\<lambda>x. Q x \<and> P x) xs"
  by (induction xs) auto

lemma find_hd_filter: "find P xs = (case filter P xs of [] \<Rightarrow> None | x # _ \<Rightarrow> Some x)"
  by (induction xs) auto

text \<open>The head of a list sorted by descending time is the first element at the latest time.\<close>

lemma newest_first_head:
  fixes f :: "'a \<Rightarrow> int"
  assumes "xs \<noteq> []"
  shows "find (\<lambda>p. f p = Max (set (map f xs))) xs = Some (hd (sort_key (\<lambda>p. - f p) xs))"
proof -
  let ?s = "sort_key (\<lambda>p. - f p) xs"
  obtain y ys where s: "?s = y # ys" using assms by (metis list.exhaust length_0_conv length_sort)
  have sorted: "sorted (map (\<lambda>p. - f p) ?s)" by simp
  have le: "f p \<le> f y" if "p \<in> set xs" for p
  proof -
    have "p \<in> set ?s" using that by simp
    then show ?thesis using sorted unfolding s by auto
  qed
  have "y \<in> set xs" using s by (metis list.set_intros(1) set_sort)
  then have max: "Max (set (map f xs)) = f y" using le by (intro Max_eqI) auto
  have "filter (\<lambda>p. - f p = - f y) ?s = filter (\<lambda>p. - f p = - f y) xs" by (rule sort_key_stable)
  then have "filter (\<lambda>p. f p = f y) xs = filter (\<lambda>p. f p = f y) ?s" by simp
  then show ?thesis unfolding max find_hd_filter s by simp
qed

lemma newest_first_case:
  "(case newest_first xs of [] \<Rightarrow> None | p # _ \<Rightarrow> Some (g p)) = map_option g (find (\<lambda>p. ps_sampled_at p = newest_at xs) xs)"
proof (cases "xs = []")
  case True
  then show ?thesis by (simp add: newest_first_def)
next
  case False
  obtain y ys where s: "newest_first xs = y # ys"
    using False unfolding newest_first_def by (metis list.exhaust length_0_conv length_sort)
  then show ?thesis using newest_first_head [OF False, of ps_sampled_at] by (simp add: newest_at_def newest_first_def)
qed

text \<open>C37: The batch read behind the device list, a join with the grouped maximum, gives for every device asked for exactly what the
  single read of that device gives: its latest sample, the same one when several carry the same time, or nothing.\<close>

theorem batch_read_is_single_read:
  "map_of (latest_samples_by_device E Q ids channel h) did = (if did \<in> set ids then latest_power_sample E Q did channel h else None)"
proof -
  let ?f = "serialize_sample Q (env_now E)"
  let ?keep = "\<lambda>p. ps_device_id p \<in> set (filter (\<lambda>d. d \<noteq> []) ids) \<and> ps_channel_id p = channel
                \<and> ps_sampled_at p = newest_at (channel_samples (ps_device_id p) channel h)"
  have "map_of (latest_samples_by_device E Q ids channel h) did
      = map_option ?f (find (\<lambda>p. ?keep p \<and> ps_device_id p = did) (h_power_samples h))"
    unfolding latest_samples_by_device_def Let_def first_wins find_first_match by simp
  also have "\<dots> = (if did \<in> set ids then latest_power_sample E Q did channel h else None)"
  proof (cases "did \<in> set ids \<and> did \<noteq> []")
    case True
    then have "find (\<lambda>p. ?keep p \<and> ps_device_id p = did) (h_power_samples h)
        = find (\<lambda>p. ps_sampled_at p = newest_at (channel_samples did channel h)) (channel_samples did channel h)"
      unfolding channel_samples_def [of did] find_first_match by (intro arg_cong2 [where f = find] ext refl) (auto simp: channel_samples_def)
    then show ?thesis using True by (simp add: latest_power_sample_def newest_first_case)
  next
    case False
    then have "find (\<lambda>p. ?keep p \<and> ps_device_id p = did) (h_power_samples h) = None" by (auto simp: find_None_iff)
    then show ?thesis using False by (auto simp: latest_power_sample_def)
  qed
  finally show ?thesis .
qed

section \<open>The breakdown\<close>

lemma count_groups:
  "sum_list (map snd (filter (\<lambda>kv. P (fst kv)) (map (\<lambda>s. (s, length (filter (\<lambda>p. f p = s) ps))) (remdups (map f ps)))))
     = length (filter (\<lambda>p. P (f p)) ps)"
proof -
  let ?D = "set (filter P (remdups (map f ps)))"
  have "sum_list (map snd (filter (\<lambda>kv. P (fst kv)) (map (\<lambda>s. (s, length (filter (\<lambda>p. f p = s) ps))) (remdups (map f ps)))))
      = (\<Sum>s\<leftarrow>filter P (remdups (map f ps)). length (filter (\<lambda>p. f p = s) ps))"
    by (simp add: filter_map comp_def)
  also have "\<dots> = (\<Sum>s\<in>?D. length (filter (\<lambda>p. f p = s) ps))"
    by (rule sum_list_distinct_conv_sum_set) (simp add: distinct_filter)
  also have "\<dots> = (\<Sum>s\<in>?D. count (mset (map f (filter (\<lambda>p. P (f p)) ps))) s)"
  proof (rule sum.cong [OF refl])
    fix s assume "s \<in> ?D"
    then have eq: "filter (\<lambda>p. f p = s) (filter (\<lambda>p. P (f p)) ps) = filter (\<lambda>p. f p = s) ps" by (auto intro!: filter_cong simp: filter_filter)
    have "count (mset (map f ys)) s = length (filter (\<lambda>p. f p = s) ys)" for ys by (induction ys) simp_all
    from this [of "filter (\<lambda>p. P (f p)) ps"] show "length (filter (\<lambda>p. f p = s) ps) = count (mset (map f (filter (\<lambda>p. P (f p)) ps))) s"
      unfolding eq by (rule sym)
  qed
  also have "\<dots> = size (mset (map f (filter (\<lambda>p. P (f p)) ps)))"
  proof -
    have "?D = set_mset (mset (map f (filter (\<lambda>p. P (f p)) ps)))" by auto
    then show ?thesis by (simp add: size_multiset_overloaded_eq)
  qed
  also have "\<dots> = length (filter (\<lambda>p. P (f p)) ps)" by (simp only: size_mset length_map)
  finally show ?thesis .
qed

lemma breakdown_real:
  assumes "did \<noteq> []"
  shows "bd_real (power_source_breakdown E did channel window h)
    = length (filter (\<lambda>p. source_kind (ps_source p) = ''real'')
        (window_samples (env_now E - secs (bd_window_seconds (power_source_breakdown E did channel window h))) did channel h))"
  using assms count_groups [of "\<lambda>s. s \<in> set REAL_POWER_SOURCES" ps_source]
  by (simp add: power_source_breakdown_def Let_def count_by_source_def source_kind_def)

lemma breakdown_total:
  assumes "did \<noteq> []"
  shows "bd_total (power_source_breakdown E did channel window h)
    = length (window_samples (env_now E - secs (bd_window_seconds (power_source_breakdown E did channel window h))) did channel h)"
  using assms count_groups [of "\<lambda>_. True" ps_source] by (simp add: power_source_breakdown_def Let_def count_by_source_def)

text \<open>The breakdown by source accounts for every sample of its window: the samples counted as synthetic are exactly those whose
  own view is tagged synthetic, and those counted as real are the rest.\<close>

theorem breakdown_agrees_with_tags:
  assumes "did \<noteq> []"
  shows "bd_synthetic (power_source_breakdown E did channel window h)
    = length (filter (\<lambda>v. pw_source_kind v = ''synthetic'') (map (serialize_sample Q (env_now E))
        (window_samples (env_now E - secs (bd_window_seconds (power_source_breakdown E did channel window h))) did channel h)))"
proof -
  let ?b = "power_source_breakdown E did channel window h"
  let ?ps = "window_samples (env_now E - secs (bd_window_seconds ?b)) did channel h"
  have "bd_synthetic ?b = bd_total ?b - bd_real ?b" by (simp add: power_source_breakdown_def Let_def)
  also have "\<dots> = length ?ps - length (filter (\<lambda>p. source_kind (ps_source p) = ''real'') ?ps)"
    by (simp only: breakdown_total [OF assms] breakdown_real [OF assms])
  also have "\<dots> = length (filter (\<lambda>p. source_kind (ps_source p) \<noteq> ''real'') ?ps)"
    using sum_length_filter_compl [of "\<lambda>p. source_kind (ps_source p) = ''real''" ?ps] by simp
  also have "(\<lambda>p. source_kind (ps_source p) \<noteq> ''real'') = (\<lambda>p. source_kind (ps_source p) = ''synthetic'')"
    by (rule ext) (simp add: source_kind_def)
  finally show ?thesis by (simp add: filter_map comp_def serialize_sample_def Let_def)
qed

section \<open>Rollups\<close>

text \<open>The row is in the table, and every row of its device and day is it.\<close>

definition settled :: "power_rollup \<Rightarrow> hub \<Rightarrow> bool" where
  "settled r h \<longleftrightarrow> list_ex (same_rollup r) (h_power_rollups h) \<and> list_all (\<lambda>q. same_rollup r q \<longrightarrow> q = r\<lparr>pr_id := pr_id q\<rparr>) (h_power_rollups h)"

lemma same_rollup_self [simp]: "same_rollup r (r\<lparr>pr_id := i\<rparr>)"
  by (simp add: same_rollup_def)

lemma upsert_settles: "settled r (upsert_rollup r h)"
proof (cases "list_ex (same_rollup r) (h_power_rollups h)")
  case True
  then have "h_power_rollups (upsert_rollup r h) = map (\<lambda>q. if same_rollup r q then r\<lparr>pr_id := pr_id q\<rparr> else q) (h_power_rollups h)"
    by (simp add: upsert_rollup_def)
  moreover obtain q where "q \<in> set (h_power_rollups h)" "same_rollup r q" using True by (auto simp: list_ex_iff)
  ultimately have "r\<lparr>pr_id := pr_id q\<rparr> \<in> set (h_power_rollups (upsert_rollup r h))" by force
  then have "list_ex (same_rollup r) (h_power_rollups (upsert_rollup r h))" unfolding list_ex_iff by (rule bexI [rotated]) simp
  moreover have "list_all (\<lambda>q. same_rollup r q \<longrightarrow> q = r\<lparr>pr_id := pr_id q\<rparr>) (h_power_rollups (upsert_rollup r h))"
    using True by (auto simp: upsert_rollup_def list_all_iff)
  ultimately show ?thesis by (simp add: settled_def)
next
  case False
  then have eq: "h_power_rollups (upsert_rollup r h) = h_power_rollups h @ [r\<lparr>pr_id := h_row_seq h\<rparr>]"
    by (simp add: upsert_rollup_def tadd_def)
  show ?thesis using False unfolding settled_def eq by (auto simp: list_ex_iff list_all_iff)
qed

lemma settled_upsert_other:
  assumes "settled r h" and "pr_device_id r' \<noteq> pr_device_id r"
  shows "settled r (upsert_rollup r' h)"
proof -
  have other: "\<not> same_rollup r (r'\<lparr>pr_id := i\<rparr>)" for i using assms(2) by (simp add: same_rollup_def)
  have apart: "same_rollup r q \<Longrightarrow> \<not> same_rollup r' q" for q using assms(2) by (simp add: same_rollup_def)
  show ?thesis
  proof (cases "list_ex (same_rollup r') (h_power_rollups h)")
    case True
    then have "h_power_rollups (upsert_rollup r' h) = map (\<lambda>q. if same_rollup r' q then r'\<lparr>pr_id := pr_id q\<rparr> else q) (h_power_rollups h)"
      by (simp add: upsert_rollup_def)
    then show ?thesis using assms(1) other apart unfolding settled_def by (auto simp: list_ex_iff list_all_iff)
  next
    case False
    then have "h_power_rollups (upsert_rollup r' h) = h_power_rollups h @ [r'\<lparr>pr_id := h_row_seq h\<rparr>]"
      by (simp add: upsert_rollup_def tadd_def)
    then show ?thesis using assms(1) other unfolding settled_def by (auto simp: list_ex_iff list_all_iff)
  qed
qed

text \<open>A row function whose rows carry the device of their group.\<close>

definition names_device :: "(string \<times> power_sample list \<Rightarrow> power_rollup option) \<Rightarrow> bool" where
  "names_device row \<longleftrightarrow> (\<forall>g r. row g = Some r \<longrightarrow> pr_device_id r = fst g)"

lemma names_deviceD: "names_device row \<Longrightarrow> row g = Some r \<Longrightarrow> pr_device_id r = fst g"
  unfolding names_device_def by blast

lemma write_rollups_keeps:
  assumes "names_device row" and "write_rollups row gs h = Some h'" and "settled r h" and "pr_device_id r \<notin> fst ` set gs"
  shows "settled r h'"
  using assms(2-4)
proof (induction gs arbitrary: h)
  case Nil
  then show ?case by simp
next
  case (Cons g gs)
  obtain q where q: "row g = Some q" using Cons.prems(1) by (cases "row g") auto
  have "pr_device_id q = fst g" by (rule names_deviceD [OF assms(1) q])
  then have "settled r (upsert_rollup q h)" using Cons.prems(2,3) by (intro settled_upsert_other) auto
  then show ?case using Cons.prems(1,3) q by (intro Cons.IH) auto
qed

lemma write_rollups_settles:
  assumes "names_device row" and "write_rollups row gs h = Some h'" and "distinct (map fst gs)" and "g \<in> set gs" and "row g = Some r"
  shows "settled r h'"
  using assms(2-4)
proof (induction gs arbitrary: h)
  case Nil
  then show ?case by simp
next
  case (Cons a gs)
  obtain q where q: "row a = Some q" using Cons.prems(1) by (cases "row a") auto
  have rest: "write_rollups row gs (upsert_rollup q h) = Some h'" using Cons.prems(1) q by simp
  show ?case
  proof (cases "g = a")
    case True
    then have "q = r" using q assms(5) by simp
    moreover have "pr_device_id r = fst a" using names_deviceD [OF assms(1,5)] True by simp
    ultimately show ?thesis using write_rollups_keeps [OF assms(1) rest upsert_settles] Cons.prems(2) by auto
  next
    case False
    then show ?thesis using Cons.IH [OF rest] Cons.prems(2,3) by simp
  qed
qed

text \<open>Rows of a day, for some devices, with a new time of computation.\<close>

definition restamp :: "instant \<Rightarrow> instant \<Rightarrow> string set \<Rightarrow> power_rollup \<Rightarrow> power_rollup" where
  "restamp t day devices q = (if pr_day_bucket q = day \<and> pr_device_id q \<in> devices then q\<lparr>pr_computed_at := t\<rparr> else q)"

definition restamp_rollups :: "instant \<Rightarrow> instant \<Rightarrow> string set \<Rightarrow> hub \<Rightarrow> hub" where
  "restamp_rollups t day devices h = h\<lparr>h_power_rollups := map (restamp t day devices) (h_power_rollups h)\<rparr>"

lemma restamp_twice: "restamp t day A (restamp t day B q) = restamp t day (A \<union> B) q"
  by (auto simp: restamp_def)

lemma restamp_rollups_twice: "restamp_rollups t day A (restamp_rollups t day B h) = restamp_rollups t day (B \<union> A) h"
  by (simp add: restamp_rollups_def restamp_twice Un_commute)

lemma upsert_later:
  assumes "settled r h"
  shows "upsert_rollup (r\<lparr>pr_computed_at := t\<rparr>) h = restamp_rollups t (pr_day_bucket r) {pr_device_id r} h"
proof -
  have same: "same_rollup (r\<lparr>pr_computed_at := t\<rparr>) = same_rollup r" by (simp add: same_rollup_def fun_eq_iff)
  have row: "(if same_rollup r q then r\<lparr>pr_computed_at := t, pr_id := pr_id q\<rparr> else q) = restamp t (pr_day_bucket r) {pr_device_id r} q"
    if "q \<in> set (h_power_rollups h)" for q
  proof (cases "same_rollup r q")
    case True
    then have "q = r\<lparr>pr_id := pr_id q\<rparr>" using assms that by (simp add: settled_def list_all_iff)
    then have "q\<lparr>pr_computed_at := t\<rparr> = r\<lparr>pr_id := pr_id q\<rparr>\<lparr>pr_computed_at := t\<rparr>" by simp
    then show ?thesis using True by (simp add: restamp_def same_rollup_def)
  qed (auto simp: restamp_def same_rollup_def)
  have "list_ex (same_rollup r) (h_power_rollups h)" using assms by (simp add: settled_def)
  then show ?thesis by (simp add: upsert_rollup_def restamp_rollups_def same row cong: map_cong)
qed

lemma write_rollups_later:
  assumes "list_all (\<lambda>g. \<exists>r. row' g = Some (r\<lparr>pr_computed_at := t\<rparr>) \<and> settled r h \<and> pr_device_id r = fst g \<and> pr_day_bucket r = day) gs"
    and "distinct (map fst gs)"
  shows "write_rollups row' gs h = Some (restamp_rollups t day (fst ` set gs) h)"
  using assms
proof (induction gs arbitrary: h)
  case Nil
  then show ?case by (simp add: restamp_rollups_def restamp_def map_idI)
next
  case (Cons g gs)
  obtain r where r: "row' g = Some (r\<lparr>pr_computed_at := t\<rparr>)" "settled r h" "pr_device_id r = fst g" "pr_day_bucket r = day"
    using Cons.prems(1) by auto
  let ?h = "upsert_rollup (r\<lparr>pr_computed_at := t\<rparr>) h"
  have h: "?h = restamp_rollups t day {fst g} h" using upsert_later [OF r(2)] r(3,4) by simp
  have "\<exists>q. row' x = Some (q\<lparr>pr_computed_at := t\<rparr>) \<and> settled q ?h \<and> pr_device_id q = fst x \<and> pr_day_bucket q = day" if x: "x \<in> set gs" for x
  proof -
    obtain q where q: "row' x = Some (q\<lparr>pr_computed_at := t\<rparr>)" "settled q h" "pr_device_id q = fst x" "pr_day_bucket q = day"
      using Cons.prems(1) x by (auto simp: list_all_iff)
    have "fst x \<noteq> fst g" using Cons.prems(2) imageI [OF x, of fst] by (simp only: distinct.simps list.map set_map) metis
    then have "settled q ?h" using q(2,3) r(3) by (intro settled_upsert_other) simp_all
    then show ?thesis using q by blast
  qed
  then have "write_rollups row' gs ?h = Some (restamp_rollups t day (fst ` set gs) ?h)"
    using Cons.prems(2) by (intro Cons.IH) (auto simp: list_all_iff)
  then show ?case using r(1) by (simp add: h restamp_rollups_twice)
qed

lemma write_rollups_frame: "write_rollups row gs h = Some h' \<Longrightarrow> h_power_samples h' = h_power_samples h"
  by (induction gs arbitrary: h) (auto simp: upsert_rollup_def split: option.splits if_splits)

lemma write_rollups_rows: "write_rollups row gs h = Some h' \<Longrightarrow> g \<in> set gs \<Longrightarrow> \<exists>r. row g = Some r"
  by (induction gs arbitrary: h) (auto split: option.splits)

lemma rollup_row_names: "names_device (rollup_row E Q D N day)"
  by (auto simp: names_device_def rollup_row_def Let_def split: option.splits)

text \<open>A row computed at another time differs in that time only.\<close>

lemma rollup_row_later:
  "rollup_row E Q D N day g = Some r \<Longrightarrow>
     rollup_row E' Q D N day g = Some (r\<lparr>pr_computed_at := env_now E'\<rparr>) \<and> pr_day_bucket r = day"
  by (auto simp: rollup_row_def Let_def split: option.splits)

text \<open>C40: Computing a day's rollups again changes nothing but the time of computation, as the backfill relies on: when a run has
  succeeded, then at any later time a run for the same day over the same samples succeeds with the same counts, inserts no
  row and leaves every number of every row as it is; exactly the rows of that day of the devices with samples get the
  new \<open>computed_at\<close>. What was in the table before the first run does not matter.\<close>

theorem rollups_idempotent:
  assumes "compute_daily_rollups E Q D N day h = Some (st, h')" and "rollup_day E' day = rollup_day E day"
  shows "compute_daily_rollups E' Q D N day h'
    = Some (st, restamp_rollups (env_now E') (rollup_day E day) (fst ` set (day_groups (rollup_day E day) h)) h')"
proof -
  let ?day = "rollup_day E day"
  let ?row = "rollup_row E Q D N ?day"
  let ?gs = "day_groups ?day h"
  have w: "write_rollups ?row ?gs h = Some h'" using assms(1) by (auto simp: compute_daily_rollups_def Let_def)
  have same: "day_groups ?day h' = ?gs" using write_rollups_frame [OF w] by (simp add: day_groups_def)
  have dist: "distinct (map fst ?gs)" by (simp add: day_groups_def Let_def comp_def)
  have "\<exists>r. rollup_row E' Q D N ?day g = Some (r\<lparr>pr_computed_at := env_now E'\<rparr>) \<and> settled r h' \<and> pr_device_id r = fst g \<and> pr_day_bucket r = ?day"
    if g: "g \<in> set ?gs" for g
  proof -
    obtain r where r: "?row g = Some r" using write_rollups_rows [OF w g] by blast
    then show ?thesis
      using rollup_row_later [OF r, of E'] write_rollups_settles [OF rollup_row_names w dist g r] names_deviceD [OF rollup_row_names r]
      by blast
  qed
  then have "write_rollups (rollup_row E' Q D N ?day) ?gs h' = Some (restamp_rollups (env_now E') ?day (fst ` set ?gs) h')"
    by (intro write_rollups_later dist) (simp add: list_all_iff)
  then show ?thesis using assms w by (auto simp: compute_daily_rollups_def Let_def same)
qed

text \<open>A summary from a heartbeat counts as synthetic wherever samples are tagged, but not in a rollup.\<close>

lemma heartbeat_sample_counts_apart:
  assumes "ps_source p = ''heartbeat''" and "rollup_row E Q D N day (did, [p]) = Some r"
  shows "source_kind (ps_source p) = ''synthetic'' \<and> pr_synthetic_sample_count r = Some 0"
  using assms by (auto simp: rollup_row_def Let_def source_kind_def REAL_POWER_SOURCES_def split: option.splits)

section \<open>Concrete runs\<close>

definition power_row :: "int \<Rightarrow> string \<Rightarrow> instant \<Rightarrow> power_sample" where
  "power_row i source t =
     \<lparr>ps_id = i, ps_device_id = ''dev_1'', ps_channel_id = 0, ps_sampled_at = t, ps_received_at = t, ps_source = source,
      ps_source_flags = 0, ps_columns = [(''p_w'', VFloat 60), (''energy_wh'', VInt (10 * i))]\<rparr>"

definition power_hub :: hub where
  "power_hub = empty_hub\<lparr>h_power_samples := [power_row 1 ''steady'' (- DAY_US), power_row 2 ''heartbeat'' (- DAY_US + secs 60)]\<rparr>"

definition plain_sql :: sql where
  "plain_sql = \<lparr>sq_read = (\<lambda>_. NaN), sq_avg = (\<lambda>_. Num 60), sq_min = (\<lambda>_. Num 60), sq_max = (\<lambda>_. Num 60), sq_sum = (\<lambda>_. Num 0)\<rparr>"

theorem breakdown_agrees_with_tags_witness:
  "bd_synthetic (power_source_breakdown demo_env ''dev_1'' 0 172800 power_hub)
    = length (filter (\<lambda>v. pw_source_kind v = ''synthetic'') (map (serialize_sample plain_sql (env_now demo_env))
        (window_samples (env_now demo_env - secs (bd_window_seconds (power_source_breakdown demo_env ''dev_1'' 0 172800 power_hub))) ''dev_1'' 0 power_hub)))"
  by (rule breakdown_agrees_with_tags) simp

lemma write_rollups_total: "(\<And>g. row g \<noteq> None) \<Longrightarrow> write_rollups row gs h \<noteq> None"
  by (induction gs arbitrary: h) (simp_all split: option.splits)

theorem rollups_idempotent_witness:
  "\<exists>st h'. compute_daily_rollups demo_env plain_sql (\<lambda>_ v. Some v) (\<lambda>_. VNone) None power_hub = Some (st, h')
     \<and> compute_daily_rollups (demo_env\<lparr>env_now := secs 60\<rparr>) plain_sql (\<lambda>_ v. Some v) (\<lambda>_. VNone) None h'
       = Some (st, restamp_rollups (secs 60) (- DAY_US) {''dev_1''} h')"
proof -
  have "rollup_row demo_env plain_sql (\<lambda>_ v. Some v) (\<lambda>_. VNone) day g \<noteq> None" for day g
    by (simp add: rollup_row_def Let_def store_value_def)
  then have "write_rollups (rollup_row demo_env plain_sql (\<lambda>_ v. Some v) (\<lambda>_. VNone) (rollup_day demo_env None))
      (day_groups (rollup_day demo_env None) power_hub) power_hub \<noteq> None" by (rule write_rollups_total)
  then obtain st h' where run: "compute_daily_rollups demo_env plain_sql (\<lambda>_ v. Some v) (\<lambda>_. VNone) None power_hub = Some (st, h')"
    by (auto simp: compute_daily_rollups_def Let_def)
  have day: "rollup_day demo_env None = - DAY_US" "rollup_day (demo_env\<lparr>env_now := secs 60\<rparr>) None = - DAY_US" by code_simp+
  have "fst ` set (day_groups (- DAY_US) power_hub) = {''dev_1''}"
    by (simp add: day_groups_def power_hub_def power_row_def DAY_US_def secs_def)
  then show ?thesis using run rollups_idempotent [OF run, of "demo_env\<lparr>env_now := secs 60\<rparr>"] by (auto simp: day)
qed

end
