(* ===== verification/Epg.thy ===== *)
theory Epg
  imports SensorPolls Accounts
begin

text \<open>
  The television guide (\<open>app/services/epg.py\<close>): the daily refresh of the cache from TVMaze, the question whether a show is
  on the air, and the summary for the operator. The replies come from the \<open>world\<close> of the pollers.
\<close>

definition EPG_PROVIDER :: string where "EPG_PROVIDER = ''tvmaze''"
definition DEFAULT_RUNTIME_MIN :: int where "DEFAULT_RUNTIME_MIN = 30"

definition epg_date :: "instant \<Rightarrow> string" where
  "epg_date t = take 10 (iso_z t)"

definition fetch_tvmaze_schedule :: "world \<Rightarrow> string \<Rightarrow> py_exc + pyval list" where
  "fetch_tvmaze_schedule W date =
     attempt (w_fetch W \<lparr>hc_https = True, hc_verified = True, hc_host = ''api.tvmaze.com'', hc_port = 443,
                         hc_path = ''/schedule?country=US&date='' @ date,
                         hc_headers = [(''User-Agent'', ''rebooter-droids/B17 (https://github.com/dblagbro/rebooter-droids)''),
                                       (''Accept'', ''application/json'')]\<rparr>)
       (\<lambda>r. if hr_status r \<noteq> 200 then runtime_error (''tvmaze HTTP '' @ show_int (hr_status r) @ '' for '' @ date)
            else attempt (parse_body W ''tvmaze'' (hr_body r))
              (\<lambda>v. case v of VList eps \<Rightarrow> Inr eps | _ \<Rightarrow> runtime_error ''tvmaze /schedule returned non-list''))"

section \<open>Episodes\<close>

record airing =
  ai_channel :: string
  ai_start :: instant
  ai_end :: instant
  ai_show :: string
  ai_episode_title :: pyval
  ai_season :: "int option"
  ai_episode :: "int option"
  ai_extra :: pyval

definition positive_or :: "int \<Rightarrow> int \<Rightarrow> int" where
  "positive_or d n = (if n \<le> 0 then d else n)"

definition channel_name :: "pydict \<Rightarrow> py_exc + string" where
  "channel_name show =
     (case value_or (dget show ''network'') (value_or (dget show ''webChannel'') (VDict [])) of
        VDict n \<Rightarrow> strip_or (dget n ''name'') | _ \<Rightarrow> Inr [])"

text \<open>\<open>None\<close>: no title, no channel or no air time.\<close>

definition parse_episode :: "env \<Rightarrow> pyval \<Rightarrow> py_exc + airing option" where
  "parse_episode E v =
     (case v of
        VDict ep \<Rightarrow>
          (case dict_or (dget ep ''show'') of
             VDict show \<Rightarrow>
               attempt (strip_or (dget show ''name'')) (\<lambda>title.
                 if title = [] then Inr None
                 else attempt (channel_name show) (\<lambda>channel.
                   if channel = [] \<or> \<not> truthy (dget ep ''airstamp'') then Inr None
                   else case env_fromiso E (replace_z (py_str E (dget ep ''airstamp''))) of
                     None \<Rightarrow> Inr None
                   | Some start \<Rightarrow>
                       (let runtime = positive_or DEFAULT_RUNTIME_MIN
                              (int_or DEFAULT_RUNTIME_MIN (value_or (dget ep ''runtime'') (dget show ''averageRuntime'')));
                            stop = start + secs (60 * runtime);
                            genres = (case dget show ''genres'' of VList gs \<Rightarrow> gs | _ \<Rightarrow> [])
                        in if \<not> in_datetime_range stop then Inl OverflowExc
                           else attempt (head_or 300 (dget ep ''name'')) (\<lambda>name.
                             Inr (Some \<lparr>ai_channel = take 80 channel, ai_start = start, ai_end = stop, ai_show = take 300 title,
                                        ai_episode_title = value_or name VNone, ai_season = py_int (dget ep ''season''),
                                        ai_episode = py_int (dget ep ''number''),
                                        ai_extra = VDict [(''genres'', VList (take 8 genres)), (''runtime_min'', VInt runtime)]\<rparr>)))))
           | w \<Rightarrow> Inl (AttributeExc w ''get''))
      | _ \<Rightarrow> Inr None)"

section \<open>The refresh\<close>

record epg_stats =
  es_fetched :: nat
  es_stored :: nat
  es_pruned :: nat
  es_errors :: nat

text \<open>Today and tomorrow; a day that cannot be fetched is counted and skipped, an episode that raises ends the refresh.\<close>

fun fetch_days :: "env \<Rightarrow> world \<Rightarrow> string list \<Rightarrow> epg_stats \<Rightarrow> airing list \<Rightarrow> py_exc + (epg_stats \<times> airing list)" where
  "fetch_days E W [] st rows = Inr (st, rows)"
| "fetch_days E W (d # ds) st rows =
     (case fetch_tvmaze_schedule W d of
        Inl _ \<Rightarrow> fetch_days E W ds (st\<lparr>es_errors := Suc (es_errors st)\<rparr>) rows
      | Inr eps \<Rightarrow>
          attempt (attempt_all (parse_episode E) eps)
            (\<lambda>as. fetch_days E W ds (st\<lparr>es_fetched := es_fetched st + length eps\<rparr>) (rows @ List.map_filter id as)))"

type_synonym airing_key = "string \<times> instant \<times> string"

definition airing_key_of :: "airing \<Rightarrow> airing_key" where
  "airing_key_of a = (ai_channel a, ai_start a, ai_show a)"

definition row_key :: "epg_row \<Rightarrow> airing_key" where
  "row_key r = (epg_channel_id r, epg_airing_start r, epg_show_title r)"

text \<open>The first airing of a key counts.\<close>

fun first_of_key :: "airing_key list \<Rightarrow> airing list \<Rightarrow> airing list" where
  "first_of_key seen_keys [] = []"
| "first_of_key seen_keys (a # as) =
     (if airing_key_of a \<in> set seen_keys then first_of_key seen_keys as
      else a # first_of_key (airing_key_of a # seen_keys) as)"

text \<open>One insert: the columns keep, change or refuse the values, and the key must be new.\<close>

definition insert_airing :: "env \<Rightarrow> column_store \<Rightarrow> airing \<Rightarrow> hub \<Rightarrow> py_exc + hub" where
  "insert_airing E D a h =
     (let num = (\<lambda>k i. store_value D (''external_epg_cache.'' @ k) (of_opt_int i)) in
      case (store_value D ''external_epg_cache.episode_title'' (ai_episode_title a), num ''season'' (ai_season a), num ''episode'' (ai_episode a),
            store_value D ''external_epg_cache.extra'' (ai_extra a)) of
        (Some t, Some s, Some e, Some x) \<Rightarrow>
          (if list_ex (\<lambda>r. epg_provider r = EPG_PROVIDER \<and> row_key r = airing_key_of a) (h_epg_rows h) then Inl IntegrityExc
           else Inr (h\<lparr>h_epg_rows := tadd \<lparr>epg_id = h_row_seq h, epg_provider = EPG_PROVIDER, epg_channel_id = ai_channel a,
                       epg_airing_start = ai_start a, epg_airing_end = ai_end a, epg_show_title = ai_show a,
                       epg_episode_title = column_text t, epg_season = (case s of VInt i \<Rightarrow> Some i | _ \<Rightarrow> None),
                       epg_episode = (case e of VInt i \<Rightarrow> Some i | _ \<Rightarrow> None), epg_extra = x, epg_fetched_at = env_now E\<rparr> (h_epg_rows h),
                     h_row_seq := h_row_seq h + 1\<rparr>))
      | _ \<Rightarrow> Inl (OtherExc ''DataError''))"

fun insert_airings :: "env \<Rightarrow> column_store \<Rightarrow> airing list \<Rightarrow> hub \<Rightarrow> py_exc + hub" where
  "insert_airings E D [] h = Inr h"
| "insert_airings E D (a # as) h = attempt (insert_airing E D a h) (insert_airings E D as)"

text \<open>The window is replaced. Without autoflush both deletes reach the database before the new rows do, so the janitor sees
  only old ones.\<close>

definition in_window :: "instant \<Rightarrow> epg_row \<Rightarrow> bool" where
  "in_window window_start r \<longleftrightarrow> epg_provider r = EPG_PROVIDER \<and> window_start \<le> epg_airing_start r"

definition refresh_epg :: "env \<Rightarrow> column_store \<Rightarrow> world \<Rightarrow> hub \<Rightarrow> py_exc + (epg_stats \<times> hub)" where
  "refresh_epg E D W h =
     (let today = env_now E div secs 86400 * secs 86400 in
      attempt (fetch_days E W [epg_date today, epg_date (today + secs 86400)] \<lparr>es_fetched = 0, es_stored = 0, es_pruned = 0, es_errors = 0\<rparr> [])
        (\<lambda>(st, rows).
          if rows = [] \<and> es_errors st \<noteq> 0 then Inr (st, h)
          else
            let kept = filter (\<lambda>r. \<not> in_window today r) (h_epg_rows h);
                fresh = filter (\<lambda>r. \<not> epg_airing_end r < env_now E - secs 86400) kept;
                stored = first_of_key [] rows
            in map_sum id (\<lambda>h'. (st\<lparr>es_stored := length stored, es_pruned := length kept - length fresh\<rparr>, h'))
                 (insert_airings E D stored (h\<lparr>h_epg_rows := fresh\<rparr>))))"

section \<open>Questions\<close>

text \<open>\<open>show_title ILIKE '%show%'\<close>: a percent sign or an underscore in the name is a wildcard.\<close>

definition airing_now :: "env \<Rightarrow> string \<Rightarrow> string option \<Rightarrow> epg_row \<Rightarrow> bool" where
  "airing_now E show network r \<longleftrightarrow>
     epg_provider r = EPG_PROVIDER \<and> epg_airing_start r \<le> env_now E \<and> env_now E < epg_airing_end r
   \<and> sql_like (py_lower (''%'' @ show @ ''%'')) (py_lower (epg_show_title r))
   \<and> (case network of None \<Rightarrow> True | Some n \<Rightarrow> n = [] \<or> py_lower (epg_channel_id r) = py_lower n)"

definition show_airing_now :: "env \<Rightarrow> string \<Rightarrow> string option \<Rightarrow> hub \<Rightarrow> epg_row option" where
  "show_airing_now E show0 network h =
     (let show = py_strip show0 in
      if show = [] then None
      else case sort_key (\<lambda>r. - epg_airing_start r) (filter (airing_now E show network) (h_epg_rows h)) of [] \<Rightarrow> None | r # _ \<Rightarrow> Some r)"

record epg_summary =
  ep_cached_rows :: nat
  ep_last_refreshed_at :: "string option"

definition epg_status :: "hub \<Rightarrow> epg_summary" where
  "epg_status h =
     (let rows = filter (\<lambda>r. epg_provider r = EPG_PROVIDER) (h_epg_rows h)
      in \<lparr>ep_cached_rows = length rows,
          ep_last_refreshed_at = (if rows = [] then None else Some (iso_z (Max (set (map epg_fetched_at rows)))))\<rparr>)"

section \<open>The cache stays keyed\<close>

definition epg_keyed :: "hub \<Rightarrow> bool" where
  "epg_keyed h \<longleftrightarrow> distinct (map row_key (filter (\<lambda>r. epg_provider r = EPG_PROVIDER) (h_epg_rows h)))"

lemma insert_airing_keyed:
  assumes "insert_airing E D a h = Inr h'" and "epg_keyed h"
  shows "epg_keyed h'"
proof -
  obtain r where h': "h_epg_rows h' = tadd r (h_epg_rows h)" and r: "epg_provider r = EPG_PROVIDER" "row_key r = airing_key_of a"
    and new: "\<not> list_ex (\<lambda>r. epg_provider r = EPG_PROVIDER \<and> row_key r = airing_key_of a) (h_epg_rows h)"
    using assms(1) by (auto simp: insert_airing_def Let_def row_key_def airing_key_of_def split: option.splits if_splits)
  then show ?thesis using assms(2) by (auto simp: epg_keyed_def tadd_def list_ex_iff)
qed

lemma insert_airings_keyed: "insert_airings E D as h = Inr h' \<Longrightarrow> epg_keyed h \<Longrightarrow> epg_keyed h'"
proof (induction as arbitrary: h)
  case Nil
  then show ?case by simp
next
  case (Cons a as)
  then obtain h1 where "insert_airing E D a h = Inr h1" "insert_airings E D as h1 = Inr h'" by (auto simp: attempt_Inr_iff)
  then show ?case using insert_airing_keyed Cons by blast
qed

lemma map_sum_pair_Inr: "map_sum id (\<lambda>x. (a, x)) v = Inr (b, y) \<Longrightarrow> v = Inr y"
  by (cases v) auto

lemma refresh_epg_keyed:
  assumes "refresh_epg E D W h = Inr (st, h')" and "epg_keyed h"
  shows "epg_keyed h'"
proof -
  have sub: "epg_keyed (h\<lparr>h_epg_rows := filter P (filter Q (h_epg_rows h))\<rparr>)" for P Q
  proof -
    let ?rows = "filter (\<lambda>r. epg_provider r = EPG_PROVIDER) (h_epg_rows h)"
    have eq: "filter (\<lambda>r. epg_provider r = EPG_PROVIDER) (filter P (filter Q (h_epg_rows h))) = filter P (filter Q ?rows)"
      by (simp add: conj_commute conj_left_commute)
    have rows: "h_epg_rows (h\<lparr>h_epg_rows := filter P (filter Q (h_epg_rows h))\<rparr>) = filter P (filter Q (h_epg_rows h))" by simp
    have "distinct (map row_key (filter P (filter Q ?rows)))" using assms(2) unfolding epg_keyed_def by (rule distinct_map_filter [OF distinct_map_filter])
    then show ?thesis unfolding epg_keyed_def rows eq .
  qed
  let ?today = "env_now E div secs 86400 * secs 86400"
  let ?kept = "filter (\<lambda>r. \<not> in_window ?today r) (h_epg_rows h)"
  let ?fresh = "filter (\<lambda>r. \<not> epg_airing_end r < env_now E - secs 86400) ?kept"
  obtain st0 rows where f: "fetch_days E W [epg_date ?today, epg_date (?today + secs 86400)]
      \<lparr>es_fetched = 0, es_stored = 0, es_pruned = 0, es_errors = 0\<rparr> [] = Inr (st0, rows)"
    using assms(1) unfolding refresh_epg_def Let_def attempt_Inr_iff by (metis prod.exhaust)
  show ?thesis
  proof (cases "rows = [] \<and> es_errors st0 \<noteq> 0")
    case True
    then show ?thesis using assms unfolding refresh_epg_def Let_def f by simp
  next
    case False
    have "insert_airings E D (first_of_key [] rows) (h\<lparr>h_epg_rows := ?fresh\<rparr>) = Inr h'"
      using assms(1) unfolding refresh_epg_def Let_def f attempt_simps prod.case if_not_P [OF False] by (rule map_sum_pair_Inr)
    then show ?thesis by (rule insert_airings_keyed) (rule sub)
  qed
qed

end
