(* ===== verification/Probes.thy ===== *)
theory Probes
  imports PowerTelemetry Epg Heartbeats
begin

text \<open>
  The watchdog probes (\<open>app/services/watchdog_runtime/_probes.py\<close>, \<open>_probes_integrations.py\<close>): the dispatcher, the network
  probes, and the probes that read samples. A probe gives an outcome, \<open>success\<close> or \<open>failure\<close>, with details for the event
  log; what raises inside a probe becomes a failure. The record \<open>reach\<close> is what the network probes find: TCP connects, the ping
  program, HTTP replies, name resolution; and \<open>datetime.fromisoformat\<close> with whether the result carries an offset.
\<close>

datatype ping_run = PingTimeout | PingVanished | PingExit int string string | PingRaised py_exc

record reach =
  rc_connect :: "pyval \<Rightarrow> int \<Rightarrow> py_exc + bool"
  rc_ping :: "(string \<Rightarrow> int \<Rightarrow> ping_run) option"
  rc_head :: "http_call \<Rightarrow> py_exc + (int \<times> string option)"
  rc_urlparse :: "string \<Rightarrow> py_exc + (string \<times> string \<times> int option \<times> string \<times> string)"
  rc_urljoin :: "string \<Rightarrow> string \<Rightarrow> string option"
  rc_resolve :: "pyval \<Rightarrow> py_exc + bool"
  rc_fromiso :: "string \<Rightarrow> (instant \<times> bool) option"
  rc_exc :: "py_exc \<Rightarrow> string"
  rc_number :: "number \<Rightarrow> pyval"

type_synonym probe_result = "string \<times> pydict"

definition success_if :: "bool \<Rightarrow> pydict \<Rightarrow> py_exc + probe_result" where
  "success_if ok details = Inr (if ok then ''success'' else ''failure'', details)"

definition failure :: "pydict \<Rightarrow> py_exc + probe_result" where
  "failure details = Inr (''failure'', details)"

definition fails :: "string \<Rightarrow> pydict \<Rightarrow> py_exc + probe_result" where
  "fails reason details = Inr (''failure'', (''reason'', VStr reason) # details)"

definition PROBE_TIMEOUT_SECONDS :: int where "PROBE_TIMEOUT_SECONDS = 3"
definition MAX_INTERNET_TARGETS :: nat where "MAX_INTERNET_TARGETS = 8"

definition DEFAULT_INTERNET_TARGETS :: "pyval list" where
  "DEFAULT_INTERNET_TARGETS = map (\<lambda>a. VDict [(''host'', VStr a), (''port'', VInt 53)]) [''1.1.1.1'', ''8.8.8.8'', ''4.2.2.2'']"

definition DISPATCHED_PROBE_KINDS :: "string list" where
  "DISPATCHED_PROBE_KINDS = [''internet'', ''ping'', ''tcp'', ''host_awake'', ''http'', ''dns'', ''gateway'', ''roku_app_active'', ''ha_state_is'',
     ''ha_numeric_above'', ''ha_numeric_below'', ''weather_alert_active'', ''ical_event_active'', ''power_above'', ''power_below'',
     ''power_zero_while_on'', ''solar_production_above'', ''solar_production_below'', ''snmp_interface_down'', ''snmp_throughput_above'',
     ''snmp_throughput_below'', ''snmp_error_rate_above'', ''media_session_active'', ''webhook_field_equals'', ''mqtt_topic_equals'',
     ''epg_show_airing'', ''device_heartbeat_stale'']"

section \<open>Network probes\<close>

definition to_int :: "pyval \<Rightarrow> py_exc + int" where
  "to_int v = (case py_int v of Some i \<Rightarrow> Inr i | None \<Rightarrow> Inl (case v of VStr _ \<Rightarrow> ValueExc ''int'' | _ \<Rightarrow> TypeExc ''int''))"

definition probe_tcp :: "reach \<Rightarrow> pyval \<Rightarrow> int \<Rightarrow> py_exc + bool" where
  "probe_tcp R host port = (if \<not> truthy host \<or> port = 0 then Inr False else rc_connect R host port)"

text \<open>\<open>time[=<]\s*([0-9.]+)\s*ms\<close> in any case.\<close>

definition rtt_at :: "string \<Rightarrow> string option" where
  "rtt_at s =
     (case strip_prefix_ci ''time'' s of
        Some (c # rest) \<Rightarrow>
          (if c \<noteq> CHR ''='' \<and> c \<noteq> CHR ''<'' then None
           else let t = dropWhile py_isspace rest; d = takeWhile (\<lambda>x. is_digit x \<or> x = CHR ''.'') t;
                    u = dropWhile py_isspace (dropWhile (\<lambda>x. is_digit x \<or> x = CHR ''.'') t)
                in if d \<noteq> [] \<and> strip_prefix_ci ''ms'' u \<noteq> None then Some d else None)
      | _ \<Rightarrow> None)"

definition ping_rtt :: "reach \<Rightarrow> string \<Rightarrow> pydict" where
  "ping_rtt R out =
     (case find_from rtt_at out of
        None \<Rightarrow> []
      | Some d \<Rightarrow> (case to_float (VStr d) of Inl _ \<Rightarrow> [] | Inr x \<Rightarrow> [(''rtt_ms'', of_number (rc_number R) x)]))"

definition ping_fallback :: "reach \<Rightarrow> string \<Rightarrow> string \<Rightarrow> py_exc + probe_result" where
  "ping_fallback R host reason =
     attempt (probe_tcp R (VStr host) 80) (\<lambda>ok. success_if ok [(''fallback'', VStr ''tcp_80''), (''reason'', VStr reason)])"

definition probe_ping :: "reach \<Rightarrow> pydict \<Rightarrow> py_exc + probe_result" where
  "probe_ping R probe =
     attempt (strip_or (dget probe ''host'')) (\<lambda>host.
       if host = [] then fails ''missing host'' []
       else case rc_ping R of
         None \<Rightarrow> ping_fallback R host ''ping binary not available in container''
       | Some ping \<Rightarrow>
           (case ping host (max 1 (int_or PROBE_TIMEOUT_SECONDS (dget probe ''timeout_seconds''))) of
              PingTimeout \<Rightarrow> fails ''ping subprocess timeout'' []
            | PingVanished \<Rightarrow> ping_fallback R host ''ping disappeared mid-probe''
            | PingRaised e \<Rightarrow> Inl e
            | PingExit code out err \<Rightarrow>
                (if code = 0 then success_if True ((''host'', VStr host) # ping_rtt R out)
                 else let tail = (case rev (split_lines (py_strip (if err = [] then out else err))) of [] \<Rightarrow> [] | l # _ \<Rightarrow> l)
                      in failure [(''host'', VStr host), (''reason'', VStr (if code = 1 then ''no_reply'' else ''ping_error'')),
                                  (''exit_code'', VInt code), (''stderr_tail'', VStr (take 200 tail))])))"

text \<open>One target of the internet probe: reached, or why not.\<close>

definition bad_target :: "string \<Rightarrow> pyval \<Rightarrow> pydict" where
  "bad_target host port = [(''host'', VStr host), (''port'', port), (''error'', VStr ''bad target shape'')]"

definition probe_target :: "env \<Rightarrow> reach \<Rightarrow> pyval \<Rightarrow> (py_exc + bool) \<times> pydict" where
  "probe_target E R v =
     (case v of
        VDict t \<Rightarrow>
          (let text = py_str E (value_or (dget t ''host'') (VStr [])) in
           case py_int (value_or (dget t ''port'') (VInt 0)) of
             None \<Rightarrow> (Inr False, bad_target text (dget t ''port''))
           | Some port \<Rightarrow>
               (let host = py_strip text in
                if host = [] \<or> port \<le> 0 then (Inr False, bad_target host (VInt port))
                else let r = probe_tcp R (VStr host) port
                     in (r, [(''host'', VStr host), (''port'', VInt port)] @ (if r = Inr True then [] else [(''error'', VStr ''tcp_connect_failed'')]))))
      | _ \<Rightarrow> (Inr False, bad_target (py_str E v) VNone))"

fun probe_targets :: "env \<Rightarrow> reach \<Rightarrow> pyval list \<Rightarrow> py_exc + (pydict list \<times> pydict list)" where
  "probe_targets E R [] = Inr ([], [])"
| "probe_targets E R (t # ts) =
     (case probe_target E R t of
        (Inl e, _) \<Rightarrow> Inl e
      | (Inr ok, d) \<Rightarrow> attempt (probe_targets E R ts) (\<lambda>(good, bad). Inr (if ok then (d # good, bad) else (good, d # bad))))"

definition targets_or_default :: "pydict \<Rightarrow> pyval list \<times> bool" where
  "targets_or_default probe =
     (case dget probe ''targets'' of
        VList (t # ts) \<Rightarrow> (take MAX_INTERNET_TARGETS (t # ts), False)
      | _ \<Rightarrow> (DEFAULT_INTERNET_TARGETS, True))"

definition probe_internet :: "env \<Rightarrow> reach \<Rightarrow> pydict \<Rightarrow> py_exc + probe_result" where
  "probe_internet E R probe =
     (let (targets, defaulted) = targets_or_default probe in
      attempt (probe_targets E R targets) (\<lambda>(good, bad).
        success_if (good \<noteq> [])
          ([(''targets_succeeded'', VList (map VDict good)), (''targets_failed'', VList (map VDict bad)), (''targets_total'', VInt (int (length targets)))]
           @ (if defaulted then [(''used_default_targets'', VBool True)] else []))))"

text \<open>Redirects are followed up to \<open>max_redirects\<close> times, never to a URL seen before; whatever goes wrong is a failure.\<close>

definition http_get :: "reach \<Rightarrow> string \<Rightarrow> (int \<times> string option) option" where
  "http_get R url =
     (case rc_urlparse R url of
        Inl _ \<Rightarrow> None
      | Inr (scheme, host, port, path, query) \<Rightarrow>
          (if scheme \<noteq> ''http'' \<and> scheme \<noteq> ''https'' then None
           else case rc_head R \<lparr>hc_https = (scheme = ''https''), hc_verified = True, hc_host = host,
                   hc_port = (case port of None \<Rightarrow> (if scheme = ''https'' then 443 else 80)
                              | Some p \<Rightarrow> if p = 0 then (if scheme = ''https'' then 443 else 80) else p),
                   hc_path = (if path = [] then ''/'' else path) @ (if query = [] then [] else CHR ''?'' # query),
                   hc_headers = [(''User-Agent'', ''rebooter-watchdog/0.4.2'')]\<rparr> of
             Inl _ \<Rightarrow> None | Inr reply \<Rightarrow> Some reply))"

fun http_follow :: "reach \<Rightarrow> nat \<Rightarrow> string list \<Rightarrow> string \<Rightarrow> bool" where
  "http_follow R 0 visited url = False"
| "http_follow R (Suc n) visited url =
     (if url = [] \<or> url \<in> set visited then False
      else case http_get R url of
        None \<Rightarrow> False
      | Some (status, location) \<Rightarrow>
          (if 200 \<le> status \<and> status < 300 then True
           else if 300 \<le> status \<and> status < 400
           then (case location of
                   Some (c # cs) \<Rightarrow> (case rc_urljoin R url (c # cs) of None \<Rightarrow> False | Some u \<Rightarrow> http_follow R n (url # visited) u)
                 | _ \<Rightarrow> False)
           else False))"

definition MAX_REDIRECTS :: nat where "MAX_REDIRECTS = 3"

text \<open>A URL that is no string: a list cannot be remembered as visited, anything else cannot be parsed.\<close>

definition probe_http :: "reach \<Rightarrow> pyval \<Rightarrow> py_exc + bool" where
  "probe_http R url =
     (if \<not> truthy url then Inr False
      else case url of
        VStr u \<Rightarrow> Inr (http_follow R (Suc MAX_REDIRECTS) [] u)
      | VList _ \<Rightarrow> Inl (TypeExc ''unhashable'')
      | VDict _ \<Rightarrow> Inl (TypeExc ''unhashable'')
      | _ \<Rightarrow> Inr False)"

definition probe_dns :: "reach \<Rightarrow> pyval \<Rightarrow> py_exc + bool" where
  "probe_dns R hostname = (if \<not> truthy hostname then Inr False else rc_resolve R hostname)"

section \<open>Probes over samples\<close>

text \<open>What the probes over an external source share: the newest sample within the age the rule allows, or a failure.\<close>

definition with_sample ::
  "env \<Rightarrow> string \<Rightarrow> int \<Rightarrow> string \<Rightarrow> pydict \<Rightarrow> hub \<Rightarrow> (sample_read \<Rightarrow> py_exc + probe_result) \<Rightarrow> py_exc + probe_result" where
  "with_sample E sid max_age reason extra h f =
     attempt (latest_sample E sid max_age h) (\<lambda>s.
       case s of
         None \<Rightarrow> fails reason ([(''source_id'', VStr sid)] @ extra @ [(''max_sample_age_seconds'', VInt max_age)])
       | Some p \<Rightarrow> f p)"

definition newest_or_stale :: "env \<Rightarrow> string \<Rightarrow> int \<Rightarrow> hub \<Rightarrow> (sample_read \<Rightarrow> py_exc + probe_result) \<Rightarrow> py_exc + probe_result" where
  "newest_or_stale E sid max_age h f = with_sample E sid max_age ''stale_sample'' [] h f"

definition probe_roku_app_active :: "env \<Rightarrow> pydict \<Rightarrow> hub \<Rightarrow> py_exc + probe_result" where
  "probe_roku_app_active E probe h =
     attempt (strip_or (dget probe ''source_id'')) (\<lambda>sid.
     attempt (strip_or (dget probe ''app_name'')) (\<lambda>expected.
       if sid = [] then fails ''missing source_id'' []
       else if expected = [] then fails ''missing app_name'' []
       else let max_age = int_or 120 (dget probe ''max_sample_age_seconds'') in
         attempt (latest_active_app E sid max_age h) (\<lambda>s. case s of
           None \<Rightarrow> fails ''stale_sample'' [(''source_id'', VStr sid), (''max_sample_age_seconds'', VInt max_age)]
         | Some (at_text, payload) \<Rightarrow>
             attempt (attempt (dict_get payload ''active_app'') strip_or) (\<lambda>actual.
             attempt (dict_get payload ''screensaver_active'') (\<lambda>ss.
               if actual = []
               then fails ''no_active_app'' [(''source_id'', VStr sid), (''sampled_at'', VStr at_text), (''screensaver_active'', ss)]
               else success_if (contains_text (py_lower expected) (py_lower actual))
                 [(''source_id'', VStr sid), (''expected_app'', VStr expected), (''actual_app'', VStr actual), (''sampled_at'', VStr at_text),
                  (''screensaver_active'', ss)])))))"

text \<open>The entity of a Home Assistant sample, if it is there.\<close>

definition ha_entry :: "pyval \<Rightarrow> string \<Rightarrow> pydict option" where
  "ha_entry payload eid = (case dget (dict_of (dget (dict_of payload) ''entities'')) eid of VDict d \<Rightarrow> Some d | _ \<Rightarrow> None)"

definition probe_ha_state_is :: "env \<Rightarrow> pydict \<Rightarrow> hub \<Rightarrow> py_exc + probe_result" where
  "probe_ha_state_is E probe h =
     attempt (strip_or (dget probe ''source_id'')) (\<lambda>sid.
     attempt (strip_or (dget probe ''entity_id'')) (\<lambda>eid.
       let expected = py_strip (py_str E (value_or (dget probe ''expected_state'') (VStr []))) in
       if sid = [] \<or> eid = [] \<or> expected = [] then fails ''missing source_id / entity_id / expected_state'' []
       else newest_or_stale E sid (int_or 60 (dget probe ''max_sample_age_seconds'')) h (\<lambda>(at_text, payload).
         case ha_entry payload eid of
           None \<Rightarrow> fails ''entity_not_found'' [(''source_id'', VStr sid), (''entity_id'', VStr eid), (''sampled_at'', VStr at_text)]
         | Some entry \<Rightarrow>
             (let actual = py_str E (value_or (dget entry ''state'') (VStr [])) in
              success_if (py_lower actual = py_lower expected)
                [(''source_id'', VStr sid), (''entity_id'', VStr eid), (''expected_state'', VStr expected), (''actual_state'', VStr actual),
                 (''last_changed'', dget entry ''last_changed''), (''sampled_at'', VStr at_text)]))))"

text \<open>\<open>except (TypeError, ValueError)\<close> around a conversion: the number, nothing, or an exception that escapes.\<close>

definition guarded_float :: "pyval \<Rightarrow> py_exc + number option" where
  "guarded_float v = float_or None Some v"

definition probe_ha_numeric :: "env \<Rightarrow> reach \<Rightarrow> pydict \<Rightarrow> string \<Rightarrow> hub \<Rightarrow> py_exc + probe_result" where
  "probe_ha_numeric E R probe kind h =
     attempt (strip_or (dget probe ''source_id'')) (\<lambda>sid.
     attempt (strip_or (dget probe ''entity_id'')) (\<lambda>eid.
       if sid = [] \<or> eid = [] then fails ''missing source_id / entity_id'' []
       else attempt (strip_or (dget probe ''attribute'')) (\<lambda>attribute.
            attempt (guarded_float (dget probe ''threshold'')) (\<lambda>thr. case thr of
              None \<Rightarrow> fails ''missing or non-numeric threshold'' []
            | Some threshold \<Rightarrow>
                newest_or_stale E sid (int_or 60 (dget probe ''max_sample_age_seconds'')) h (\<lambda>(at_text, payload).
                  case ha_entry payload eid of
                    None \<Rightarrow> fails ''entity_not_found'' [(''source_id'', VStr sid), (''entity_id'', VStr eid), (''sampled_at'', VStr at_text)]
                  | Some entry \<Rightarrow>
                      attempt (if attribute = [] then Inr (dget entry ''state'') else dict_get (dict_or (dget entry ''attributes'')) attribute) (\<lambda>raw.
                      attempt (guarded_float raw) (\<lambda>x. case x of
                        None \<Rightarrow> fails ''non_numeric_reading'' [(''source_id'', VStr sid), (''entity_id'', VStr eid), (''attribute'', opt_text_value attribute),
                                  (''raw_value'', raw), (''sampled_at'', VStr at_text)]
                      | Some v \<Rightarrow>
                          success_if (\<not> (if kind = ''ha_numeric_above'' then num_less threshold v else num_less v threshold))
                            [(''source_id'', VStr sid), (''entity_id'', VStr eid), (''attribute'', opt_text_value attribute),
                             (''value'', of_number (rc_number R) v), (''threshold'', of_number (rc_number R) threshold),
                             (''last_changed'', dget entry ''last_changed''), (''sampled_at'', VStr at_text)])))))))"

definition alert_severity_rank :: "string \<Rightarrow> int" where
  "alert_severity_rank s = (case map_of [(''minor'', 1), (''moderate'', 2), (''severe'', 3), (''extreme'', 4)] s of None \<Rightarrow> 0 | Some n \<Rightarrow> n)"

definition alert_matches :: "env \<Rightarrow> string \<Rightarrow> int \<Rightarrow> pydict \<Rightarrow> bool" where
  "alert_matches E event_text min_sev a \<longleftrightarrow>
     (event_text = [] \<or> contains_text event_text (py_lower (py_str E (value_or (dget a ''event'') (VStr [])))))
   \<and> (min_sev = 0 \<or> min_sev \<le> alert_severity_rank (py_lower (py_str E (value_or (dget a ''severity'') (VStr [])))))"

definition list_member :: "pyval \<Rightarrow> string \<Rightarrow> pyval list" where
  "list_member payload k = (case dget (dict_of payload) k of VList xs \<Rightarrow> xs | _ \<Rightarrow> [])"

definition dicts_of :: "pyval list \<Rightarrow> pydict list" where
  "dicts_of vs = map dict_of (filter is_dict vs)"

definition probe_weather_alert_active :: "env \<Rightarrow> pydict \<Rightarrow> hub \<Rightarrow> py_exc + probe_result" where
  "probe_weather_alert_active E probe h =
     attempt (strip_or (dget probe ''source_id'')) (\<lambda>sid.
       if sid = [] then fails ''missing source_id'' []
       else attempt (strip_or (dget probe ''event_contains'')) (\<lambda>event0.
            attempt (strip_or (dget probe ''min_severity'')) (\<lambda>min_raw.
              newest_or_stale E sid (int_or 600 (dget probe ''max_sample_age_seconds'')) h (\<lambda>(at_text, payload).
                let alerts = list_member payload ''alerts''; event_text = py_lower event0;
                    matched = filter (alert_matches E event_text (alert_severity_rank (py_lower min_raw))) (dicts_of alerts)
                in success_if (matched \<noteq> [])
                     [(''source_id'', VStr sid), (''alerts_total'', VInt (int (length alerts))),
                      (''alerts_matched'', VList (map (\<lambda>a. VDict [(''event'', VStr (py_str E (value_or (dget a ''event'') (VStr [])))),
                          (''severity'', dget a ''severity''), (''headline'', dget a ''headline''), (''ends'', dget a ''ends'')]) matched)),
                      (''event_filter'', opt_text_value event_text), (''min_severity'', opt_text_value min_raw), (''sampled_at'', VStr at_text)]))))"

text \<open>Whether an event is on the air; a start or an end without an offset cannot be compared with the clock.\<close>

definition event_on_air :: "env \<Rightarrow> reach \<Rightarrow> pydict \<Rightarrow> py_exc + bool" where
  "event_on_air E R e =
     (case rc_fromiso R (replace_z (py_str E (value_or (dget e ''start'') (VStr [])))) of
        None \<Rightarrow> Inr False
      | Some (start, aware) \<Rightarrow>
          (let parsed = (if truthy (dget e ''end'') then rc_fromiso R (replace_z (py_str E (dget e ''end''))) else None);
               (stop, stop_aware) = (case parsed of None \<Rightarrow> (start + secs 86400, aware) | Some x \<Rightarrow> x)
           in if parsed = None \<and> \<not> in_datetime_range stop then Inl OverflowExc
              else if \<not> aware then Inl (TypeExc ''naive'')
              else if env_now E < start then Inr False
              else if \<not> stop_aware then Inl (TypeExc ''naive'')
              else Inr (env_now E < stop)))"

fun events_on_air :: "env \<Rightarrow> reach \<Rightarrow> string \<Rightarrow> pydict list \<Rightarrow> py_exc + pydict list" where
  "events_on_air E R needle [] = Inr []"
| "events_on_air E R needle (e # es) =
     (let summary = py_str E (value_or (dget e ''summary'') (VStr [])) in
      if needle \<noteq> [] \<and> \<not> contains_text needle (py_lower summary) then events_on_air E R needle es
      else attempt (event_on_air E R e) (\<lambda>on.
           attempt (events_on_air E R needle es) (\<lambda>rest.
             Inr (if on then [(''summary'', VStr summary), (''start'', dget e ''start''), (''end'', dget e ''end'')] # rest else rest))))"

definition probe_ical_event_active :: "env \<Rightarrow> reach \<Rightarrow> pydict \<Rightarrow> hub \<Rightarrow> py_exc + probe_result" where
  "probe_ical_event_active E R probe h =
     attempt (strip_or (dget probe ''source_id'')) (\<lambda>sid.
       if sid = [] then fails ''missing source_id'' []
       else attempt (strip_or (dget probe ''summary_contains'')) (\<lambda>needle.
         newest_or_stale E sid (int_or 1800 (dget probe ''max_sample_age_seconds'')) h (\<lambda>(at_text, payload).
           let events = list_member payload ''events'' in
           attempt (events_on_air E R (py_lower needle) (dicts_of events)) (\<lambda>on.
             success_if (on \<noteq> [])
               [(''source_id'', VStr sid), (''events_total'', VInt (int (length events))), (''events_active'', VList (map VDict on)),
                (''summary_filter'', opt_text_value (py_lower needle)), (''sampled_at'', VStr at_text)]))))"

section \<open>Power\<close>

definition between :: "int \<Rightarrow> int \<Rightarrow> int \<Rightarrow> int" where
  "between low high n = min high (max low n)"

definition relay_of_latest_heartbeat :: "string \<Rightarrow> hub \<Rightarrow> bool" where
  "relay_of_latest_heartbeat did h =
     (case sort_key (\<lambda>b. - hb_received_at b) (filter (\<lambda>b. hb_device_id b = did) (h_heartbeats h)) of
        [] \<Rightarrow> False | b # _ \<Rightarrow> truthy (dget (hb_columns b) ''relay_on''))"

text \<open>The verdict once there are readings.\<close>

definition power_verdict :: "reach \<Rightarrow> pydict \<Rightarrow> string \<Rightarrow> string \<Rightarrow> number \<Rightarrow> pydict \<Rightarrow> hub \<Rightarrow> py_exc + probe_result" where
  "power_verdict R probe kind did avg details h =
     (let num = of_number (rc_number R) in
      if kind = ''power_above'' \<or> kind = ''power_below'' then
        attempt (guarded_float (dget probe ''threshold_w'')) (\<lambda>thr. case thr of
          None \<Rightarrow> failure (details @ [(''reason'', VStr ''missing threshold_w'')])
        | Some t \<Rightarrow> success_if (\<not> (if kind = ''power_above'' then num_less t avg else num_less avg t)) (details @ [(''threshold_w'', num t)]))
      else if kind = ''power_zero_while_on'' then
        attempt (float_or (Num (1 / 2)) id (value_or (dget probe ''near_zero_threshold_w'') (VFloat (1 / 2)))) (\<lambda>near.
          let on = relay_of_latest_heartbeat did h
          in success_if (\<not> (on \<and> num_less avg near)) (details @ [(''near_zero_threshold_w'', num near), (''relay_on'', VBool on)]))
      else failure ((''reason'', VStr (''unknown power probe kind: '' @ kind)) # details))"

definition probe_power :: "env \<Rightarrow> reach \<Rightarrow> sql \<Rightarrow> pydict \<Rightarrow> string \<Rightarrow> hub \<Rightarrow> py_exc + probe_result" where
  "probe_power E R Q probe kind h =
     attempt (strip_or (dget probe ''device_id'')) (\<lambda>did.
       let window = between 30 86400 (int_or 300 (dget probe ''window_seconds'')); max_age = int_or 600 (dget probe ''max_sample_age_seconds'');
           num = of_number (rc_number R)
       in if did = [] then fails ''missing device_id'' []
          else case latest_power_sample E Q did 0 h of
            None \<Rightarrow> fails ''no_samples'' [(''device_id'', VStr did)]
          | Some latest \<Rightarrow>
              (if max_age < pw_age_seconds latest
               then fails ''stale_sample'' [(''device_id'', VStr did), (''sample_age_seconds'', VInt (pw_age_seconds latest)), (''max_sample_age_seconds'', VInt max_age)]
               else let recent = recent_samples E Q did 0 window 720 None h; vals = List.map_filter pw_p_w recent in
                 if recent = [] then fails ''no_samples_in_window'' [(''device_id'', VStr did), (''window_seconds'', VInt window)]
                 else if vals = [] then fails ''no_real_power_readings'' [(''device_id'', VStr did), (''sample_count'', VInt (int (length recent)))]
                 else let avg = num_over (num_sum vals) (of_nat (length vals)) in
                   power_verdict R probe kind did avg
                     [(''device_id'', VStr did), (''window_seconds'', VInt window), (''sample_count'', VInt (int (length recent))),
                      (''avg_w'', num (num_round 3 avg)), (''min_w'', num (num_round 3 (num_min vals))), (''max_w'', num (num_round 3 (num_max vals))),
                      (''latest_sample_age_seconds'', VInt (pw_age_seconds latest))] h))"

definition probe_solar :: "env \<Rightarrow> reach \<Rightarrow> pydict \<Rightarrow> string \<Rightarrow> hub \<Rightarrow> py_exc + probe_result" where
  "probe_solar E R probe kind h =
     attempt (strip_or (dget probe ''source_id'')) (\<lambda>sid.
       if sid = [] then fails ''missing source_id'' []
       else attempt (guarded_float (dget probe ''threshold_w'')) (\<lambda>thr. case thr of
         None \<Rightarrow> fails ''missing threshold_w'' [(''source_id'', VStr sid)]
       | Some threshold \<Rightarrow>
           newest_or_stale E sid (int_or 1800 (dget probe ''max_sample_age_seconds'')) h (\<lambda>(at_text, payload).
             let production = dget (dict_of payload) ''production_w'' in
             if production = VNone then fails ''no_production_reading'' [(''source_id'', VStr sid), (''sampled_at'', VStr at_text)]
             else attempt (guarded_float production) (\<lambda>x. case x of
               None \<Rightarrow> fails ''bad_production_reading'' [(''source_id'', VStr sid)]
             | Some w \<Rightarrow>
                 success_if (\<not> (if kind = ''solar_production_above'' then num_less threshold w else num_less w threshold))
                   [(''source_id'', VStr sid), (''production_w'', of_number (rc_number R) (num_round 1 w)),
                    (''threshold_w'', of_number (rc_number R) threshold), (''vendor'', dget (dict_of payload) ''vendor''),
                    (''sampled_at'', VStr at_text)]))))"

section \<open>Network devices\<close>

definition interface_of :: "pyval \<Rightarrow> string \<Rightarrow> py_exc + pydict option" where
  "interface_of payload name =
     attempt (dict_get payload ''interfaces'')
       (\<lambda>v. Inr (case dget (dict_of (dict_or v)) name of VDict d \<Rightarrow> Some d | _ \<Rightarrow> None))"

definition probe_snmp_interface_down :: "env \<Rightarrow> pydict \<Rightarrow> hub \<Rightarrow> py_exc + probe_result" where
  "probe_snmp_interface_down E probe h =
     attempt (strip_or (dget probe ''source_id'')) (\<lambda>sid.
     attempt (strip_or (dget probe ''interface'')) (\<lambda>name.
       if sid = [] \<or> name = [] then fails ''missing source_id / interface'' []
       else newest_or_stale E sid (int_or 600 (dget probe ''max_sample_age_seconds'')) h (\<lambda>(at_text, payload).
         attempt (interface_of payload name) (\<lambda>i. case i of
           None \<Rightarrow> fails ''interface_not_found'' [(''source_id'', VStr sid), (''interface'', VStr name), (''sampled_at'', VStr at_text)]
         | Some entry \<Rightarrow>
             success_if (dget entry ''oper_status'' = VStr ''up'')
               [(''source_id'', VStr sid), (''interface'', VStr name), (''oper_status'', dget entry ''oper_status''), (''sampled_at'', VStr at_text)]))))"

text \<open>The pair of samples the rate probes stand on: an early result, or the interface in both, the seconds between them and
  the time of the newer.\<close>

datatype snmp_pair = Early probe_result | Pair pydict pydict rat instant

definition snmp_pair_interface :: "env \<Rightarrow> pydict \<Rightarrow> hub \<Rightarrow> py_exc + snmp_pair" where
  "snmp_pair_interface E probe h =
     attempt (strip_or (dget probe ''source_id'')) (\<lambda>sid.
     attempt (strip_or (dget probe ''interface'')) (\<lambda>name.
       if sid = [] \<or> name = [] then Inr (Early (''failure'', [(''reason'', VStr ''missing source_id / interface'')]))
       else attempt (last_two_samples E sid (int_or 600 (dget probe ''max_sample_age_seconds'')) h) (\<lambda>p. case p of
         None \<Rightarrow> Inr (Early (''success'', [(''reason'', VStr ''insufficient_history''), (''source_id'', VStr sid)]))
       | Some (newer, older) \<Rightarrow>
           attempt (interface_of (dict_or (smp_payload newer)) name) (\<lambda>a.
           attempt (interface_of (dict_or (smp_payload older)) name) (\<lambda>b. case (a, b) of
             (Some x, Some y) \<Rightarrow>
               (if smp_sampled_at newer \<le> smp_sampled_at older
                then Inr (Early (''success'', [(''reason'', VStr ''bad_interval''), (''source_id'', VStr sid)]))
                else Inr (Pair x y (float_of (of_int (smp_sampled_at newer - smp_sampled_at older) / 1000000)) (smp_sampled_at newer)))
           | _ \<Rightarrow> Inr (Early (''failure'', [(''reason'', VStr ''interface_not_found''), (''source_id'', VStr sid), (''interface'', VStr name)])))))))"

text \<open>The counters are integers, as the poller stores them. \<open>None\<close>: a reading is missing or the counter was reset.\<close>

definition snmp_counter_delta :: "pydict \<Rightarrow> pydict \<Rightarrow> string \<Rightarrow> py_exc + int option" where
  "snmp_counter_delta n_if o_if field =
     (case (dget n_if field, dget o_if field) of
        (VNone, _) \<Rightarrow> Inr None
      | (_, VNone) \<Rightarrow> Inr None
      | (a, b) \<Rightarrow> (if is_int a \<and> is_int b then Inr (if int_of b \<le> int_of a then Some (int_of a - int_of b) else None) else Inl (TypeExc ''-'')))"

definition both :: "py_exc + int option \<Rightarrow> py_exc + int option \<Rightarrow> py_exc + int option" where
  "both x y = attempt x (\<lambda>a. attempt y (\<lambda>b. Inr (case (a, b) of (Some i, Some j) \<Rightarrow> Some (i + j) | _ \<Rightarrow> None)))"

text \<open>An integer divided by a float is first rounded to a float; one too large for it raises.\<close>

definition per_second :: "int \<Rightarrow> rat \<Rightarrow> py_exc + number" where
  "per_second n dt = (case of_rat (of_int n) of Num r \<Rightarrow> Inr (num_over (Num r) dt) | _ \<Rightarrow> Inl OverflowExc)"

definition snmp_names :: "pydict \<Rightarrow> py_exc + pydict" where
  "snmp_names probe =
     attempt (strip_or (dget probe ''source_id'')) (\<lambda>sid. attempt (strip_or (dget probe ''interface'')) (\<lambda>name.
       Inr [(''source_id'', VStr sid), (''interface'', VStr name)]))"

definition counter_reset :: "pydict \<Rightarrow> py_exc + probe_result" where
  "counter_reset probe = attempt (snmp_names probe) (\<lambda>names. success_if True ((''reason'', VStr ''counter_reset'') # names))"

definition probe_snmp_throughput :: "env \<Rightarrow> reach \<Rightarrow> pydict \<Rightarrow> string \<Rightarrow> hub \<Rightarrow> py_exc + probe_result" where
  "probe_snmp_throughput E R probe kind h =
     attempt (strip_or (value_or (dget probe ''direction'') (VStr ''total''))) (\<lambda>direction0.
       let direction = py_lower direction0; num = of_number (rc_number R) in
       if direction \<notin> set [''in'', ''out'', ''total''] then fails ''direction must be in / out / total'' []
       else attempt (guarded_float (dget probe ''threshold_bps'')) (\<lambda>thr. case thr of
         None \<Rightarrow> fails ''missing or non-numeric threshold_bps'' []
       | Some threshold \<Rightarrow>
           attempt (snmp_pair_interface E probe h) (\<lambda>p. case p of
             Early r \<Rightarrow> Inr r
           | Pair n_if o_if dt t \<Rightarrow>
               attempt (if direction = ''in'' then snmp_counter_delta n_if o_if ''in_octets''
                        else if direction = ''out'' then snmp_counter_delta n_if o_if ''out_octets''
                        else both (snmp_counter_delta n_if o_if ''in_octets'') (snmp_counter_delta n_if o_if ''out_octets'')) (\<lambda>d. case d of
                 None \<Rightarrow> counter_reset probe
               | Some octets \<Rightarrow>
                   attempt (per_second (octets * 8) dt) (\<lambda>bps.
                   attempt (snmp_names probe) (\<lambda>names.
                     success_if (\<not> (if kind = ''snmp_throughput_above'' then num_less threshold bps else num_less bps threshold))
                       (names @ [(''direction'', VStr direction), (''throughput_bps'', num (num_round 1 bps)), (''threshold_bps'', num threshold),
                                 (''interval_seconds'', num (num_round 1 (Num dt))), (''sampled_at'', VStr (iso_z t))])))))))"

definition probe_snmp_error_rate :: "env \<Rightarrow> reach \<Rightarrow> pydict \<Rightarrow> hub \<Rightarrow> py_exc + probe_result" where
  "probe_snmp_error_rate E R probe h =
     attempt (guarded_float (dget probe ''threshold_errors_per_min'')) (\<lambda>thr. case thr of
       None \<Rightarrow> fails ''missing or non-numeric threshold_errors_per_min'' []
     | Some threshold \<Rightarrow>
         attempt (snmp_pair_interface E probe h) (\<lambda>p. case p of
           Early r \<Rightarrow> Inr r
         | Pair n_if o_if dt t \<Rightarrow>
             attempt (both (snmp_counter_delta n_if o_if ''in_errors'') (snmp_counter_delta n_if o_if ''out_errors'')) (\<lambda>d. case d of
               None \<Rightarrow> counter_reset probe
             | Some errors \<Rightarrow>
                 attempt (per_second errors dt) (\<lambda>rate.
                 attempt (snmp_names probe) (\<lambda>names.
                   let per_min = num_times rate 60; num = of_number (rc_number R)
                   in success_if (\<not> num_less threshold per_min)
                        (names @ [(''errors_per_min'', num (num_round 2 per_min)), (''threshold_errors_per_min'', num threshold),
                                  (''interval_seconds'', num (num_round 1 (Num dt))), (''sampled_at'', VStr (iso_z t))]))))))"

section \<open>Events\<close>

definition MEDIA_STOPPED_TOKENS :: "string list" where
  "MEDIA_STOPPED_TOKENS = [''stop'', ''pause'']"

definition MEDIA_PLAYING_TOKENS :: "string list" where
  "MEDIA_PLAYING_TOKENS = [''play'', ''start'', ''resume'', ''progress'', ''scrobble'', ''unpause'']"

definition media_active :: "string \<Rightarrow> bool" where
  "media_active event \<longleftrightarrow>
     (if list_ex (\<lambda>t. contains_text t event) MEDIA_STOPPED_TOKENS then False else list_ex (\<lambda>t. contains_text t event) MEDIA_PLAYING_TOKENS)"

definition probe_media_session_active :: "env \<Rightarrow> pydict \<Rightarrow> hub \<Rightarrow> py_exc + probe_result" where
  "probe_media_session_active E probe h =
     attempt (strip_or (dget probe ''source_id'')) (\<lambda>sid.
       if sid = [] then fails ''missing source_id'' []
       else with_sample E sid (int_or (int_or 7200 (dget probe ''presumed_duration_seconds'')) (dget probe ''max_sample_age_seconds''))
              ''no_recent_event'' [] h (\<lambda>(at_text, payload).
         case payload of
           VDict d \<Rightarrow>
             (let event = py_lower (py_str E (value_or (dget d ''event'') (value_or (dget d ''NotificationType'') (value_or (dget d ''Event'') (VStr [])))))
              in success_if (media_active event)
                   [(''source_id'', VStr sid), (''event'', opt_text_value event), (''media_active'', VBool (media_active event)), (''sampled_at'', VStr at_text)])
         | _ \<Rightarrow> Inl (AttributeExc payload ''get'')))"

text \<open>\<open>str(v if v is not None else "")\<close>.\<close>

definition text_of_value :: "env \<Rightarrow> pyval \<Rightarrow> string" where
  "text_of_value E v = (if v = VNone then [] else py_str E v)"

definition probe_webhook_field_equals :: "env \<Rightarrow> pydict \<Rightarrow> hub \<Rightarrow> py_exc + probe_result" where
  "probe_webhook_field_equals E probe h =
     attempt (strip_or (dget probe ''source_id'')) (\<lambda>sid.
     attempt (strip_or (dget probe ''field'')) (\<lambda>field.
       let expected = py_strip (text_of_value E (dget probe ''expected'')) in
       if sid = [] \<or> field = [] then fails ''missing source_id / field'' []
       else newest_or_stale E sid (int_or 3600 (dget probe ''max_sample_age_seconds'')) h (\<lambda>(at_text, payload).
         let actual = text_of_value E (dget (dict_of payload) field)
         in success_if (py_lower (py_strip actual) = py_lower expected)
              [(''source_id'', VStr sid), (''field'', VStr field), (''expected'', VStr expected), (''actual'', VStr actual), (''sampled_at'', VStr at_text)])))"

definition probe_mqtt_topic_equals :: "env \<Rightarrow> pydict \<Rightarrow> hub \<Rightarrow> py_exc + probe_result" where
  "probe_mqtt_topic_equals E probe h =
     attempt (strip_or (dget probe ''source_id'')) (\<lambda>sid.
     attempt (strip_or (dget probe ''topic'')) (\<lambda>topic.
       let expected = py_strip (text_of_value E (dget probe ''expected_value'')); max_age = int_or 300 (dget probe ''max_sample_age_seconds'') in
       if sid = [] \<or> topic = [] then fails ''missing source_id / topic'' []
       else attempt (latest_sample_for_topic E sid topic max_age h) (\<lambda>s. case s of
         None \<Rightarrow> fails ''no_recent_message'' [(''source_id'', VStr sid), (''topic'', VStr topic), (''max_sample_age_seconds'', VInt max_age)]
       | Some (at_text, payload) \<Rightarrow>
           (let msg = py_str E (value_or (dget (dict_of payload) ''msg'') (VStr []))
            in success_if (py_lower (py_strip msg) = py_lower expected)
                 [(''source_id'', VStr sid), (''topic'', VStr topic), (''expected_value'', VStr expected), (''actual_value'', VStr msg),
                  (''sampled_at'', VStr at_text)]))))"

definition probe_epg_show_airing :: "env \<Rightarrow> pydict \<Rightarrow> hub \<Rightarrow> py_exc + probe_result" where
  "probe_epg_show_airing E probe h =
     attempt (strip_or (dget probe ''show'')) (\<lambda>show.
       if show = [] then fails ''missing show'' []
       else attempt (strip_or (dget probe ''network'')) (\<lambda>network.
         case show_airing_now E show (if network = [] then None else Some network) h of
           None \<Rightarrow> fails (if ep_cached_rows (epg_status h) = 0 then ''epg_cache_empty'' else ''not_airing'')
                     [(''show'', VStr show), (''network'', opt_text_value network)]
         | Some r \<Rightarrow> success_if True [(''show'', VStr show), (''network'', opt_text_value network), (''matched_show'', VStr (epg_show_title r)),
             (''channel'', VStr (epg_channel_id r)), (''episode_title'', of_opt_str (epg_episode_title r)), (''airing_end'', VStr (iso_z (epg_airing_end r)))]))"

definition probe_device_heartbeat_stale :: "env \<Rightarrow> reach \<Rightarrow> pydict \<Rightarrow> hub \<Rightarrow> py_exc + probe_result" where
  "probe_device_heartbeat_stale E R probe h =
     attempt (strip_or (dget probe ''device_id'')) (\<lambda>did.
       let max_age = between 30 86400 (int_or 300 (dget probe ''max_age_seconds'')) in
       if did = [] then fails ''missing device_id'' []
       else case (case get_device did h of None \<Rightarrow> None | Some d \<Rightarrow> dev_last_heartbeat_at d) of
         None \<Rightarrow> fails ''no_heartbeat'' [(''device_id'', VStr did), (''max_age_seconds'', VInt max_age)]
       | Some t \<Rightarrow>
           (let details = [(''device_id'', VStr did),
                  (''age_seconds'', of_number (rc_number R) (num_round 1 (of_rat (of_int (env_now E - t) / 1000000)))),
                  (''max_age_seconds'', VInt max_age), (''last_heartbeat_at'', VStr (env_isoformat E t))]
            in if secs max_age < env_now E - t then failure (details @ [(''reason'', VStr ''heartbeat_stale'')]) else success_if True details))"

section \<open>The dispatcher\<close>

definition of_bool_probe :: "py_exc + bool \<Rightarrow> py_exc + probe_result" where
  "of_bool_probe r = attempt r (\<lambda>ok. success_if ok [])"

definition dispatch_probe :: "env \<Rightarrow> reach \<Rightarrow> sql \<Rightarrow> pydict \<Rightarrow> string \<Rightarrow> hub \<Rightarrow> py_exc + probe_result" where
  "dispatch_probe E R Q probe kind h =
     (if kind = ''internet'' then probe_internet E R probe
      else if kind = ''ping'' then probe_ping R probe
      else if kind = ''roku_app_active'' then probe_roku_app_active E probe h
      else if kind = ''ha_state_is'' then probe_ha_state_is E probe h
      else if kind \<in> set [''ha_numeric_above'', ''ha_numeric_below''] then probe_ha_numeric E R probe kind h
      else if kind = ''weather_alert_active'' then probe_weather_alert_active E probe h
      else if kind = ''ical_event_active'' then probe_ical_event_active E R probe h
      else if kind \<in> set [''power_above'', ''power_below'', ''power_zero_while_on''] then probe_power E R Q probe kind h
      else if kind \<in> set [''solar_production_above'', ''solar_production_below''] then probe_solar E R probe kind h
      else if kind = ''snmp_interface_down'' then probe_snmp_interface_down E probe h
      else if kind \<in> set [''snmp_throughput_above'', ''snmp_throughput_below''] then probe_snmp_throughput E R probe kind h
      else if kind = ''snmp_error_rate_above'' then probe_snmp_error_rate E R probe h
      else if kind = ''media_session_active'' then probe_media_session_active E probe h
      else if kind = ''webhook_field_equals'' then probe_webhook_field_equals E probe h
      else if kind = ''mqtt_topic_equals'' then probe_mqtt_topic_equals E probe h
      else if kind = ''epg_show_airing'' then probe_epg_show_airing E probe h
      else if kind = ''device_heartbeat_stale'' then probe_device_heartbeat_stale E R probe h
      else if kind \<in> set [''tcp'', ''host_awake''] then
        of_bool_probe (attempt (to_int (value_or (dget probe ''port'') (VInt (if kind = ''host_awake'' then 22 else 0))))
          (\<lambda>port. probe_tcp R (if dhas probe ''host'' then dget probe ''host'' else VStr []) port))
      else if kind = ''http'' then of_bool_probe (probe_http R (if dhas probe ''url'' then dget probe ''url'' else VStr []))
      else if kind = ''dns'' then of_bool_probe (probe_dns R (if dhas probe ''hostname'' then dget probe ''hostname'' else VStr []))
      else if kind = ''gateway'' then success_if True [(''skipped'', VStr ''gateway probe needs device-side gateway info'')]
      else fails (''unknown probe kind: '' @ kind) [])"

text \<open>\<open>run_probe\<close>. The kind is looked up in a set before the guarded part: a list or a dictionary there raises.\<close>

definition run_probe :: "env \<Rightarrow> reach \<Rightarrow> sql \<Rightarrow> hub \<Rightarrow> watchdog_rule \<Rightarrow> string + probe_result" where
  "run_probe E R Q h r =
     (case dget (wr_probe r) ''kind'' of
        VList _ \<Rightarrow> Inl (rc_exc R (TypeExc ''unhashable''))
      | VDict _ \<Rightarrow> Inl (rc_exc R (TypeExc ''unhashable''))
      | VStr kind \<Rightarrow>
          (if kind \<notin> set DISPATCHED_PROBE_KINDS then Inr (''failure'', [(''reason'', VStr (''unknown probe kind: '' @ kind))])
           else case dispatch_probe E R Q (wr_probe r) kind h of
             Inl e \<Rightarrow> Inr (''failure'', [(''reason'', VStr ''probe_exception''), (''error'', VStr (rc_exc R e))])
           | Inr x \<Rightarrow> Inr x)
      | v \<Rightarrow> Inr (''failure'', [(''reason'', VStr (''unknown probe kind: '' @ py_str E v))]))"

end
