(* ===== verification/ProbeProps.thy ===== *)
theory ProbeProps
  imports Probes Notifications
begin

text \<open>
  What holds of the watchdog probes and of the tick that runs them: a probe always ends in a verdict, so a tick counts no
  probe error; a probe over stored data succeeds only on data young enough, and a rule of a kind with an allowed age fires once its
  source stayed silent for its number of failures.
\<close>

section \<open>Verdicts\<close>

text \<open>The result is an exception, a failure, or a success that holds only with \<open>b\<close>.\<close>

definition verdict :: "bool \<Rightarrow> py_exc + probe_result \<Rightarrow> bool" where
  "verdict b r \<longleftrightarrow> (case r of Inl _ \<Rightarrow> True | Inr (out, _) \<Rightarrow> out = ''failure'' \<or> out = ''success'' \<and> b)"

named_theorems settled_intros

lemma settled_leaf [settled_intros]:
  "verdict b (fails reason details)" "verdict b (failure details)" "verdict b (Inl e)" "b \<Longrightarrow> verdict b (success_if ok details)"
  by (simp_all add: verdict_def fails_def failure_def success_if_def)

lemma settled_attempt [settled_intros]: "(\<And>x. r = Inr x \<Longrightarrow> verdict b (f x)) \<Longrightarrow> verdict b (attempt r f)"
  by (cases r) (simp_all add: settled_leaf)

lemma settled_if [settled_intros]:
  "(c \<Longrightarrow> verdict b x) \<Longrightarrow> (\<not> c \<Longrightarrow> verdict b y) \<Longrightarrow> verdict b (if c then x else y)"
  by simp

lemma settled_option [settled_intros]:
  "(v = None \<Longrightarrow> verdict b x) \<Longrightarrow> (\<And>w. v = Some w \<Longrightarrow> verdict b (f w)) \<Longrightarrow> verdict b (case v of None \<Rightarrow> x | Some w \<Rightarrow> f w)"
  by (cases v) simp_all

lemma settled_prod [settled_intros]: "(\<And>x y. v = (x, y) \<Longrightarrow> verdict b (f x y)) \<Longrightarrow> verdict b (case v of (x, y) \<Rightarrow> f x y)"
  by (cases v) simp_all

lemma read_is_fresh:
  assumes "latest_sample E sid n h = Inr (Some p) \<or> latest_active_app E sid n h = Inr (Some p) \<or> latest_sample_for_topic E sid topic n h = Inr (Some p)"
  obtains cutoff where "back_from (env_now E) n = Inr cutoff" and "fresh_samples cutoff sid h \<noteq> []"
proof -
  obtain cutoff where cutoff: "back_from (env_now E) n = Inr cutoff"
    using assms by (auto simp: latest_sample_def latest_active_app_def latest_sample_for_topic_def attempt_Inr_iff)
  moreover have "fresh_samples cutoff sid h \<noteq> []"
    using assms by (cases "fresh_samples cutoff sid h") (simp_all add: latest_sample_def latest_active_app_def latest_sample_for_topic_def cutoff)
  ultimately show ?thesis by (rule that)
qed

lemma settled_with_sample [settled_intros]:
  assumes "\<And>cutoff p. back_from (env_now E) n = Inr cutoff \<Longrightarrow> fresh_samples cutoff sid h \<noteq> [] \<Longrightarrow> verdict b (f p)"
  shows "verdict b (with_sample E sid n reason extra h f)" "verdict b (newest_or_stale E sid n h f)"
proof -
  have "verdict b (with_sample E sid n r x h f)" for r x
    unfolding with_sample_def by (intro settled_intros) (auto elim!: read_is_fresh [OF disjI1] intro: assms)
  then show "verdict b (with_sample E sid n reason extra h f)" "verdict b (newest_or_stale E sid n h f)"
    by (simp_all add: newest_or_stale_def)
qed

lemma settled_event [settled_intros]:
  "(\<And>d. v = VDict d \<Longrightarrow> verdict b (f d)) \<Longrightarrow> (\<And>u. verdict b (g u)) \<Longrightarrow>
   verdict b (case v of VDict d \<Rightarrow> f d | VNone \<Rightarrow> g VNone | VBool x \<Rightarrow> g (VBool x) | VInt i \<Rightarrow> g (VInt i) | VFloat q \<Rightarrow> g (VFloat q)
     | VStr s \<Rightarrow> g (VStr s) | VList l \<Rightarrow> g (VList l))"
  by (cases v) simp_all

section \<open>The probes over an external source\<close>

text \<open>How old a sample may be, by the rule or by the default of its kind; \<open>None\<close> for the kinds that read no single sample.\<close>

definition allowed_age :: "string \<Rightarrow> pydict \<Rightarrow> int option" where
  "allowed_age kind probe =
     (if kind = ''media_session_active''
      then Some (int_or (int_or 7200 (dget probe ''presumed_duration_seconds'')) (dget probe ''max_sample_age_seconds''))
      else map_option (\<lambda>d. int_or d (dget probe ''max_sample_age_seconds''))
        (map_of [(''roku_app_active'', 120), (''ha_state_is'', 60), (''ha_numeric_above'', 60), (''ha_numeric_below'', 60),
           (''weather_alert_active'', 600), (''ical_event_active'', 1800), (''solar_production_above'', 1800),
           (''solar_production_below'', 1800), (''snmp_interface_down'', 600), (''webhook_field_equals'', 3600),
           (''mqtt_topic_equals'', 300)] kind))"

definition fresh_within :: "env \<Rightarrow> pydict \<Rightarrow> int \<Rightarrow> hub \<Rightarrow> bool" where
  "fresh_within E probe n h \<longleftrightarrow>
     (case (strip_or (dget probe ''source_id''), back_from (env_now E) n) of
        (Inr sid, Inr cutoff) \<Rightarrow> fresh_samples cutoff sid h \<noteq> [] | _ \<Rightarrow> False)"

lemma fresh_withinI:
  "strip_or (dget probe ''source_id'') = Inr sid \<Longrightarrow> back_from (env_now E) n = Inr cutoff \<Longrightarrow> fresh_samples cutoff sid h \<noteq> []
     \<Longrightarrow> fresh_within E probe n h"
  by (simp add: fresh_within_def)

lemma roku_settled: "verdict (fresh_within E probe (int_or 120 (dget probe ''max_sample_age_seconds'')) h) (probe_roku_app_active E probe h)"
  unfolding probe_roku_app_active_def Let_def
  by (intro settled_intros) (auto elim!: read_is_fresh [OF disjI2 [OF disjI1]] intro: fresh_withinI)

lemma ha_state_settled: "verdict (fresh_within E probe (int_or 60 (dget probe ''max_sample_age_seconds'')) h) (probe_ha_state_is E probe h)"
  unfolding probe_ha_state_is_def Let_def by (intro settled_intros) (auto intro: fresh_withinI)

lemma ha_numeric_settled:
  "verdict (fresh_within E probe (int_or 60 (dget probe ''max_sample_age_seconds'')) h) (probe_ha_numeric E R probe kind h)"
  unfolding probe_ha_numeric_def Let_def by (intro settled_intros) (auto intro: fresh_withinI)

lemma weather_settled:
  "verdict (fresh_within E probe (int_or 600 (dget probe ''max_sample_age_seconds'')) h) (probe_weather_alert_active E probe h)"
  unfolding probe_weather_alert_active_def Let_def by (intro settled_intros) (auto intro: fresh_withinI)

lemma ical_settled:
  "verdict (fresh_within E probe (int_or 1800 (dget probe ''max_sample_age_seconds'')) h) (probe_ical_event_active E R probe h)"
  unfolding probe_ical_event_active_def Let_def by (intro settled_intros) (auto intro: fresh_withinI)

lemma solar_settled:
  "verdict (fresh_within E probe (int_or 1800 (dget probe ''max_sample_age_seconds'')) h) (probe_solar E R probe kind h)"
  unfolding probe_solar_def Let_def by (intro settled_intros) (auto intro: fresh_withinI)

lemma snmp_interface_settled:
  "verdict (fresh_within E probe (int_or 600 (dget probe ''max_sample_age_seconds'')) h) (probe_snmp_interface_down E probe h)"
  unfolding probe_snmp_interface_down_def Let_def by (intro settled_intros) (auto intro: fresh_withinI)

lemma media_settled:
  "verdict (fresh_within E probe (int_or (int_or 7200 (dget probe ''presumed_duration_seconds'')) (dget probe ''max_sample_age_seconds'')) h)
     (probe_media_session_active E probe h)"
  unfolding probe_media_session_active_def Let_def by (intro settled_intros) (auto intro: fresh_withinI)

lemma webhook_settled:
  "verdict (fresh_within E probe (int_or 3600 (dget probe ''max_sample_age_seconds'')) h) (probe_webhook_field_equals E probe h)"
  unfolding probe_webhook_field_equals_def Let_def by (intro settled_intros) (auto intro: fresh_withinI)

lemma mqtt_settled:
  "verdict (fresh_within E probe (int_or 300 (dget probe ''max_sample_age_seconds'')) h) (probe_mqtt_topic_equals E probe h)"
  unfolding probe_mqtt_topic_equals_def Let_def
  by (intro settled_intros) (auto elim!: read_is_fresh [OF disjI2 [OF disjI2]] intro: fresh_withinI)

lemmas sample_probes_settled =
  roku_settled ha_state_settled ha_numeric_settled weather_settled ical_settled solar_settled snmp_interface_settled media_settled
  webhook_settled mqtt_settled

lemma settled_weaken: "verdict b r \<Longrightarrow> (b \<Longrightarrow> c) \<Longrightarrow> verdict c r"
  by (auto simp: verdict_def split: sum.splits)

section \<open>The other probes\<close>

lemma network_probes_settled [settled_intros]:
  "verdict True (of_bool_probe r)" "verdict True (probe_internet E R probe)" "verdict True (ping_fallback R host reason)"
  unfolding of_bool_probe_def probe_internet_def ping_fallback_def Let_def by ((intro settled_intros)?; auto)+

lemma ping_settled: "verdict True (probe_ping R probe)"
  unfolding probe_ping_def Let_def
  by (intro settled_intros; simp split: ping_run.splits if_splits) (auto intro!: settled_intros)

lemma power_verdict_settled [settled_intros]: "verdict True (power_verdict R probe kind did avg details h)"
  unfolding power_verdict_def Let_def by (intro settled_intros) auto

lemma power_settled: "verdict True (probe_power E R Q probe kind h)"
  unfolding probe_power_def Let_def by (intro settled_intros)

lemma epg_settled: "verdict True (probe_epg_show_airing E probe h)"
  unfolding probe_epg_show_airing_def by (intro settled_intros) auto

lemma heartbeat_settled: "verdict True (probe_device_heartbeat_stale E R probe h)"
  unfolding probe_device_heartbeat_stale_def Let_def by (intro settled_intros) auto

section \<open>The dispatcher\<close>

lemmas sample_probes_total = sample_probes_settled [THEN settled_weaken, OF TrueI]

lemmas other_probes_total = network_probes_settled ping_settled power_settled epg_settled heartbeat_settled

text \<open>An early end of the rate probes is a verdict as well.\<close>

definition early_ok :: "py_exc + snmp_pair \<Rightarrow> bool" where
  "early_ok x \<longleftrightarrow> (case x of Inr (Early r) \<Rightarrow> verdict True (Inr r) | _ \<Rightarrow> True)"

lemma early_ok_attempt: "(\<And>x. r = Inr x \<Longrightarrow> early_ok (f x)) \<Longrightarrow> early_ok (attempt r f)"
  by (cases r) (simp_all add: early_ok_def)

lemma early_ok_leaf:
  "early_ok (Inr (Early (''failure'', d)))" "early_ok (Inr (Early (''success'', d)))" "early_ok (Inr (Pair a b c t))"
  by (simp_all add: early_ok_def verdict_def)

lemma early_ok_pair: "early_ok (snmp_pair_interface E probe h)"
  unfolding snmp_pair_interface_def
  by (intro early_ok_attempt) (auto simp: early_ok_leaf split: option.splits intro!: early_ok_attempt)

lemma verdict_early [settled_intros]:
  assumes "\<And>a b c t. p = Pair a b c t \<Longrightarrow> verdict True (f a b c t)" and "x = Inr p" and "early_ok x"
  shows "verdict True (case p of Early r \<Rightarrow> Inr r | Pair a b c t \<Rightarrow> f a b c t)"
  using assms by (cases p) (simp_all add: early_ok_def)

lemma snmp_rates_total: "verdict True (probe_snmp_throughput E R probe kind h)" "verdict True (probe_snmp_error_rate E R probe h)"
  unfolding probe_snmp_throughput_def probe_snmp_error_rate_def counter_reset_def Let_def
  by ((intro settled_intros; (assumption | rule early_ok_pair TrueI)?)+)

lemma dispatch_total: "verdict True (dispatch_probe E R Q probe kind h)"
  unfolding dispatch_probe_def
  by (intro settled_intros sample_probes_total other_probes_total snmp_rates_total TrueI)

lemma allowed_age_kind:
  "allowed_age kind probe = Some n \<Longrightarrow> kind \<in> set [''roku_app_active'', ''ha_state_is'', ''ha_numeric_above'', ''ha_numeric_below'',
     ''weather_alert_active'', ''ical_event_active'', ''solar_production_above'', ''solar_production_below'', ''snmp_interface_down'',
     ''media_session_active'', ''webhook_field_equals'', ''mqtt_topic_equals'']"
  unfolding allowed_age_def by (auto split: if_splits)

lemma dispatch_fresh:
  assumes "allowed_age kind probe = Some n"
  shows "verdict (fresh_within E probe n h) (dispatch_probe E R Q probe kind h)"
proof -
  have "verdict (fresh_within E probe (the (allowed_age kind probe)) h) (dispatch_probe E R Q probe kind h)"
    using allowed_age_kind [OF assms] unfolding list.set insert_iff empty_iff
    by (elim disjE FalseE) (simp_all add: allowed_age_def dispatch_probe_def sample_probes_settled)
  then show ?thesis by (simp add: assms)
qed

lemma dispatched_are_known: "set DISPATCHED_PROBE_KINDS = set KNOWN_PROBE_KINDS"
  by code_simp

lemma allowed_age_known: "allowed_age kind probe = Some n \<Longrightarrow> kind \<in> set DISPATCHED_PROBE_KINDS"
  unfolding allowed_age_def DISPATCHED_PROBE_KINDS_def by (auto split: if_splits)

section \<open>Running a probe\<close>

text \<open>A kind that can be looked up in a set: anything but a list or a dictionary.\<close>

definition hashable_kind :: "watchdog_rule \<Rightarrow> bool" where
  "hashable_kind r \<longleftrightarrow> (case dget (wr_probe r) ''kind'' of VList _ \<Rightarrow> False | VDict _ \<Rightarrow> False | _ \<Rightarrow> True)"

lemma run_probe_ends:
  assumes "hashable_kind r"
  obtains out d where "run_probe E R Q h r = Inr (out, d)" and "out = ''success'' \<or> out = ''failure''"
proof -
  have "\<exists>out d. run_probe E R Q h r = Inr (out, d) \<and> (out = ''success'' \<or> out = ''failure'')"
  proof (cases "dget (wr_probe r) ''kind''")
    case (VStr kind)
    then show ?thesis using dispatch_total [of E R Q "wr_probe r" kind h]
      by (cases "dispatch_probe E R Q (wr_probe r) kind h") (auto simp: run_probe_def verdict_def)
  qed (use assms in \<open>auto simp: run_probe_def hashable_kind_def\<close>)
  then show ?thesis using that by blast
qed

lemma run_probe_needs_fresh:
  assumes kind: "dget (wr_probe r) ''kind'' = VStr kind" and age: "allowed_age kind (wr_probe r) = Some n"
    and none: "\<not> fresh_within E (wr_probe r) n h"
  obtains d where "run_probe E R Q h r = Inr (''failure'', d)"
proof (cases "dispatch_probe E R Q (wr_probe r) kind h")
  case (Inl e)
  then show ?thesis using allowed_age_known [OF age] by (intro that) (simp add: run_probe_def kind)
next
  case (Inr x)
  obtain out d where x: "x = (out, d)" by (cases x)
  have "out = ''failure''" using dispatch_fresh [OF age, of E h R Q] none by (simp add: verdict_def Inr x)
  then show ?thesis using allowed_age_known [OF age] by (intro that) (simp add: run_probe_def kind Inr x)
qed

section \<open>What a success stands on\<close>

text \<open>The latest power sample of the device is young enough, its last heartbeat is, and the two newest samples of a source
  are in order with the newer one young enough.\<close>

definition fresh_power :: "env \<Rightarrow> sql \<Rightarrow> pydict \<Rightarrow> hub \<Rightarrow> bool" where
  "fresh_power E Q probe h \<longleftrightarrow>
     (\<exists>did p. strip_or (dget probe ''device_id'') = Inr did \<and> latest_power_sample E Q did 0 h = Some p
        \<and> pw_age_seconds p \<le> int_or 600 (dget probe ''max_sample_age_seconds''))"

definition fresh_heartbeat :: "env \<Rightarrow> pydict \<Rightarrow> hub \<Rightarrow> bool" where
  "fresh_heartbeat E probe h \<longleftrightarrow>
     (\<exists>did d t. strip_or (dget probe ''device_id'') = Inr did \<and> get_device did h = Some d \<and> dev_last_heartbeat_at d = Some t
        \<and> env_now E - t \<le> secs (between 30 86400 (int_or 300 (dget probe ''max_age_seconds''))))"

definition fresh_pair :: "env \<Rightarrow> pydict \<Rightarrow> hub \<Rightarrow> bool" where
  "fresh_pair E probe h \<longleftrightarrow>
     (\<exists>sid newer older. strip_or (dget probe ''source_id'') = Inr sid
        \<and> last_two_samples E sid (int_or 600 (dget probe ''max_sample_age_seconds'')) h = Inr (Some (newer, older))
        \<and> smp_sampled_at older < smp_sampled_at newer)"

definition backed :: "env \<Rightarrow> sql \<Rightarrow> pydict \<Rightarrow> string \<Rightarrow> pydict \<Rightarrow> hub \<Rightarrow> bool" where
  "backed E Q probe kind details h \<longleftrightarrow>
     (case allowed_age kind probe of
        Some n \<Rightarrow> fresh_within E probe n h
      | None \<Rightarrow>
          (if kind \<in> set [''power_above'', ''power_below'', ''power_zero_while_on''] then fresh_power E Q probe h
           else if kind = ''device_heartbeat_stale'' then fresh_heartbeat E probe h
           else if kind \<in> set [''snmp_throughput_above'', ''snmp_throughput_below'', ''snmp_error_rate_above'']
           then fresh_pair E probe h \<or> dget details ''reason'' \<in> {VStr ''insufficient_history'', VStr ''bad_interval''}
           else True))"

lemma verdictD: "verdict b r \<Longrightarrow> r = Inr (''success'', d) \<Longrightarrow> b"
  by (simp add: verdict_def)

lemma power_fresh: "verdict (fresh_power E Q probe h) (probe_power E R Q probe kind h)"
  unfolding probe_power_def Let_def
  by (intro settled_intros) (auto simp: fresh_power_def intro: settled_weaken [OF power_verdict_settled])

lemma heartbeat_fresh: "verdict (fresh_heartbeat E probe h) (probe_device_heartbeat_stale E R probe h)"
  unfolding probe_device_heartbeat_stale_def Let_def
  by (intro settled_intros) (auto simp: fresh_heartbeat_def split: option.splits)

lemma reason_first: "dget ((''reason'', v) # d) ''reason'' = v"
  by (simp add: dget_def)

lemma pair_interface_cases:
  assumes "snmp_pair_interface E probe h = Inr p"
  shows "(\<exists>a b dt t. p = Pair a b dt t) \<and> fresh_pair E probe h \<or> (\<exists>d. p = Early (''failure'', d))
    \<or> (\<exists>d. p = Early (''success'', d) \<and> dget d ''reason'' \<in> {VStr ''insufficient_history'', VStr ''bad_interval''})"
proof -
  let ?age = "int_or 600 (dget probe ''max_sample_age_seconds'')"
  obtain sid name where sid: "strip_or (dget probe ''source_id'') = Inr sid" and name: "strip_or (dget probe ''interface'') = Inr name"
    using assms by (auto simp: snmp_pair_interface_def attempt_Inr_iff)
  show ?thesis
  proof (cases "sid = [] \<or> name = []")
    case True
    then show ?thesis using assms by (auto simp: snmp_pair_interface_def sid name)
  next
    case named: False
    then obtain l where l: "last_two_samples E sid ?age h = Inr l"
      using assms by (cases "last_two_samples E sid ?age h") (simp_all add: snmp_pair_interface_def sid name)
    show ?thesis
    proof (cases l)
      case None
      then show ?thesis using assms named by (auto simp: snmp_pair_interface_def sid name l reason_first)
    next
      case (Some q)
      obtain newer older where q: "q = (newer, older)" by (cases q)
      obtain a b where ab: "interface_of (dict_or (smp_payload newer)) name = Inr a" "interface_of (dict_or (smp_payload older)) name = Inr b"
        using assms named by (auto simp: snmp_pair_interface_def sid name l Some q attempt_Inr_iff)
      have pair: "fresh_pair E probe h" if "smp_sampled_at older < smp_sampled_at newer"
        unfolding fresh_pair_def using sid l Some q that by blast
      show ?thesis
        using assms named pair
        by (cases a; cases b; cases "smp_sampled_at newer \<le> smp_sampled_at older")
          (auto simp: snmp_pair_interface_def sid name l Some q ab reason_first)
    qed
  qed
qed

lemma throughput_success:
  assumes "probe_snmp_throughput E R probe kind h = Inr (''success'', d)"
  obtains p where "snmp_pair_interface E probe h = Inr p" and "p = Early (''success'', d) \<or> (\<exists>a b dt t. p = Pair a b dt t)"
proof (cases "snmp_pair_interface E probe h")
  case (Inl e)
  then show ?thesis using assms
    by (auto simp: probe_snmp_throughput_def Let_def attempt_Inr_iff fails_def split: if_splits option.splits)
next
  case (Inr p)
  show ?thesis
  proof (cases p)
    case (Early x)
    then show ?thesis using assms that [OF Inr]
      by (auto simp: probe_snmp_throughput_def Let_def attempt_Inr_iff fails_def Inr split: if_splits option.splits)
  qed (use that [OF Inr] in blast)
qed

lemma error_rate_success:
  assumes "probe_snmp_error_rate E R probe h = Inr (''success'', d)"
  obtains p where "snmp_pair_interface E probe h = Inr p" and "p = Early (''success'', d) \<or> (\<exists>a b dt t. p = Pair a b dt t)"
proof (cases "snmp_pair_interface E probe h")
  case (Inl e)
  then show ?thesis using assms
    by (auto simp: probe_snmp_error_rate_def Let_def attempt_Inr_iff fails_def split: if_splits option.splits)
next
  case (Inr p)
  show ?thesis
  proof (cases p)
    case (Early x)
    then show ?thesis using assms that [OF Inr]
      by (auto simp: probe_snmp_error_rate_def Let_def attempt_Inr_iff fails_def Inr split: if_splits option.splits)
  qed (use that [OF Inr] in blast)
qed

lemma pair_interface_success:
  assumes "snmp_pair_interface E probe h = Inr p" and "p = Early (''success'', d) \<or> (\<exists>a b dt t. p = Pair a b dt t)"
  shows "fresh_pair E probe h \<or> dget d ''reason'' \<in> {VStr ''insufficient_history'', VStr ''bad_interval''}"
  using pair_interface_cases [OF assms(1)] assms(2) by auto

lemma dispatch_power:
  "kind \<in> set [''power_above'', ''power_below'', ''power_zero_while_on''] \<Longrightarrow> dispatch_probe E R Q probe kind h = probe_power E R Q probe kind h"
  unfolding list.set insert_iff empty_iff by (elim disjE FalseE) (simp_all add: dispatch_probe_def)

lemma dispatch_throughput:
  "kind \<in> set [''snmp_throughput_above'', ''snmp_throughput_below''] \<Longrightarrow> dispatch_probe E R Q probe kind h = probe_snmp_throughput E R probe kind h"
  unfolding list.set insert_iff empty_iff by (elim disjE FalseE) (simp_all add: dispatch_probe_def)

lemma dispatch_single:
  "dispatch_probe E R Q probe ''device_heartbeat_stale'' h = probe_device_heartbeat_stale E R probe h"
  "dispatch_probe E R Q probe ''snmp_error_rate_above'' h = probe_snmp_error_rate E R probe h"
  by (simp_all add: dispatch_probe_def)

lemma dispatch_rates:
  assumes "dispatch_probe E R Q probe kind h = Inr (''success'', d)"
    and "kind \<in> set [''snmp_throughput_above'', ''snmp_throughput_below'', ''snmp_error_rate_above'']"
  shows "fresh_pair E probe h \<or> dget d ''reason'' \<in> {VStr ''insufficient_history'', VStr ''bad_interval''}"
proof (cases "kind \<in> set [''snmp_throughput_above'', ''snmp_throughput_below'']")
  case True
  then have "probe_snmp_throughput E R probe kind h = Inr (''success'', d)" using assms(1) by (simp only: dispatch_throughput)
  then show ?thesis by (rule throughput_success) (rule pair_interface_success)
next
  case False
  then have "kind = ''snmp_error_rate_above''" using assms(2) by (simp only: list.set) blast
  then have "probe_snmp_error_rate E R probe h = Inr (''success'', d)" using assms(1) by (simp only: dispatch_single)
  then show ?thesis by (rule error_rate_success) (rule pair_interface_success)
qed

lemma dispatch_backed:
  assumes "dispatch_probe E R Q probe kind h = Inr (''success'', d)"
  shows "backed E Q probe kind d h"
proof (cases "allowed_age kind probe")
  case (Some n)
  then show ?thesis using verdictD [OF dispatch_fresh [OF Some] assms] by (simp add: backed_def)
next
  case None
  have "fresh_power E Q probe h" if "kind \<in> set [''power_above'', ''power_below'', ''power_zero_while_on'']"
    by (rule verdictD [OF power_fresh assms [unfolded dispatch_power [OF that]]])
  moreover have "fresh_heartbeat E probe h" if "kind = ''device_heartbeat_stale''"
    by (rule verdictD [OF heartbeat_fresh assms [unfolded that dispatch_single(1)]])
  ultimately show ?thesis unfolding backed_def None option.case using dispatch_rates [OF assms] by meson
qed

text \<open>C32: A probe that reads stored data never passes on old data: when a rule's probe succeeds, then for every kind over
  an external source (Roku, Home Assistant, weather, calendar, solar, SNMP interface, media, webhook, MQTT) the
  source has a sample no older than the rule's \<open>max_sample_age_seconds\<close> or the default of the kind; for the power
  kinds the latest sample of the device is that young; a heartbeat probe has a heartbeat within its limit; and an
  SNMP rate rests on two samples in order, the newer one young enough, or says in its details that there was
  no such pair. A source that fell silent cannot keep a rule healthy.\<close>

theorem success_needs_fresh_data:
  assumes "run_probe E R Q h r = Inr (''success'', details)" and "dget (wr_probe r) ''kind'' = VStr kind"
  shows "backed E Q (wr_probe r) kind details h"
proof -
  have "dispatch_probe E R Q (wr_probe r) kind h = Inr (''success'', details)"
    using assms by (auto simp: run_probe_def split: if_splits sum.splits)
  then show ?thesis by (rule dispatch_backed)
qed

section \<open>The tick\<close>

lemma process_rule_counts:
  assumes "hashable_kind r" and "process_rule E (run_probe E R Q) now r (st, h) = (st', h')"
  shows "st_probed st' + st_in_window st' = st_probed st + st_in_window st + (if rule_is_due r now then 1 else 0)"
proof -
  obtain out d where p: "run_probe E R Q h r = Inr (out, d)" by (rule run_probe_ends [OF assms(1)])
  show ?thesis using assms(2) unfolding process_rule_def by (auto simp: Let_def p split: if_splits prod.splits)
qed

lemma fold_process_counts:
  assumes "list_all hashable_kind rs" and "fold (process_rule E (run_probe E R Q) now) rs (st, h) = (st', h')"
  shows "st_probed st' + st_in_window st' = st_probed st + st_in_window st + length (filter (\<lambda>r. rule_is_due r now) rs)"
  using assms
proof (induction rs arbitrary: st h)
  case Nil
  then show ?case by simp
next
  case (Cons r rs)
  obtain st1 h1 where step: "process_rule E (run_probe E R Q) now r (st, h) = (st1, h1)" by (metis prod.exhaust)
  have "hashable_kind r" using Cons.prems(1) by simp
  from process_rule_counts [OF this step] Cons.IH [of st1 h1] Cons.prems show ?case by (simp add: step)
qed

text \<open>C33: A tick probes every rule that is due or skips it for its maintenance window: whatever the network, the sources and the
  samples are like, no probe ends in an error.\<close>

theorem tick_probes_all_due:
  assumes "list_all hashable_kind (active_rules h)"
    and "watchdog_tick E disabled (run_probe E R Q) now h = (TickStats st, h')"
  shows "st_probed st + st_in_window st = length (filter (\<lambda>r. rule_is_due r now) (active_rules h))"
proof -
  have "fold (process_rule E (run_probe E R Q) now) (active_rules h) (zero_stats, h) = (st, h')"
    using assms(2) by (auto simp: watchdog_tick_def split: if_splits prod.splits)
  from fold_process_counts [OF assms(1) this] show ?thesis by (simp add: zero_stats_def)
qed

definition demo_reach :: reach where
  "demo_reach = \<lparr>rc_connect = (\<lambda>_ _. Inr False), rc_ping = None, rc_head = (\<lambda>_. Inl OverflowExc), rc_urlparse = (\<lambda>_. Inl OverflowExc),
     rc_urljoin = (\<lambda>_ _. None), rc_resolve = (\<lambda>_. Inr False), rc_fromiso = (\<lambda>_. None), rc_exc = (\<lambda>_. []), rc_number = (\<lambda>_. VNone)\<rparr>"

definition demo_sql :: sql where
  "demo_sql = \<lparr>sq_read = (\<lambda>_. NaN), sq_avg = (\<lambda>_. NaN), sq_min = (\<lambda>_. NaN), sq_max = (\<lambda>_. NaN), sq_sum = (\<lambda>_. NaN)\<rparr>"

lemma tick_probes_all_due_witness:
  "\<exists>st h'. watchdog_tick demo_env False (run_probe demo_env demo_reach demo_sql) 0 (empty_hub\<lparr>h_rules := [demo_rule []]\<rparr>) = (TickStats st, h')
     \<and> st_probed st + st_in_window st = 1"
proof -
  let ?h = "empty_hub\<lparr>h_rules := [demo_rule []]\<rparr>"
  have ok: "list_all hashable_kind (active_rules ?h)" by code_simp
  have due: "length (filter (\<lambda>r. rule_is_due r 0) (active_rules ?h)) = 1" by code_simp
  have on: "\<not> is_maintenance_mode_active ?h" by code_simp
  obtain st h' where run: "watchdog_tick demo_env False (run_probe demo_env demo_reach demo_sql) 0 ?h = (TickStats st, h')"
    using on by (cases "fold (process_rule demo_env (run_probe demo_env demo_reach demo_sql) 0) (active_rules ?h) (zero_stats, ?h)")
      (simp add: watchdog_tick_def)
  show ?thesis using run tick_probes_all_due [OF ok run] unfolding due by (intro exI conjI) 
qed

text \<open>The other side: a rule over one of the kinds with an allowed age (not the rate kinds, which take missing history for
  a success, and not a binding rule) fails when its source has no sample young enough, and fires as soon as its
  failures reach the threshold outside the cooldown. Silence acts like the bad reading, although the docstring of
  \<open>latest_active_app\<close> says that a stale sample must not trigger a rule.\<close>

theorem dead_source_fires:
  assumes "dget (wr_probe r) ''kind'' = VStr kind" and "allowed_age kind (wr_probe r) = Some n"
    and "\<not> fresh_within E (wr_probe r) n h"
    and "rule_is_due r now" and "\<not> in_maintenance_window E r now" and "\<not> is_binding r"
    and "wr_failure_threshold r \<le> wr_failure_streak r + 1" and "\<not> in_cooldown r now"
  shows "st_fired (fst (process_rule E (run_probe E R Q) now r (st, h))) = Suc (st_fired st)"
proof -
  obtain d where p: "run_probe E R Q h r = Inr (''failure'', d)" by (rule run_probe_needs_fresh [OF assms(1-3)])
  obtain b r' h' where up: "update_state_and_maybe_fire E r ''failure'' now (record_event r ''failure'' d now h) = (b, r', h')"
    by (metis prod_cases3)
  have "b" using update_state_fires_iff [OF assms(6) up] assms(7,8) by simp
  then show ?thesis using assms(4,5) by (simp add: process_rule_def p up)
qed

definition silent_rule :: watchdog_rule where
  "silent_rule = (demo_rule [])\<lparr>wr_probe := [(''kind'', VStr ''roku_app_active''), (''source_id'', VStr ''s''), (''app_name'', VStr ''TV'')],
     wr_failure_threshold := 1\<rparr>"

lemma dead_source_fires_witness:
  "st_fired (fst (process_rule demo_env (run_probe demo_env demo_reach demo_sql) 0 silent_rule (zero_stats, empty_hub))) = 1"
proof -
  have k: "dget (wr_probe silent_rule) ''kind'' = VStr ''roku_app_active''" by code_simp
  have a: "allowed_age ''roku_app_active'' (wr_probe silent_rule) = Some 120" by code_simp
  have f: "\<not> fresh_within demo_env (wr_probe silent_rule) 120 empty_hub" by code_simp
  have w: "rule_is_due silent_rule 0" "\<not> in_maintenance_window demo_env silent_rule 0" "\<not> is_binding silent_rule"
    "wr_failure_threshold silent_rule \<le> wr_failure_streak silent_rule + 1" "\<not> in_cooldown silent_rule 0" by code_simp+
  show ?thesis using dead_source_fires [OF k a f w, of demo_reach demo_sql zero_stats] by (simp add: zero_stats_def)
qed

definition mqtt_rule :: watchdog_rule where
  "mqtt_rule = (demo_rule [])\<lparr>wr_probe := [(''kind'', VStr ''mqtt_topic_equals''), (''source_id'', VStr ''s''), (''topic'', VStr ''door''),
     (''expected_value'', VStr ''shut'')]\<rparr>"

definition door_sample :: sensor_sample where
  "door_sample = \<lparr>smp_id = 1, smp_source_id = ''s'', smp_sampled_at = 0, smp_payload = VDict [(''topic'', VStr ''door''), (''msg'', VStr ''shut'')]\<rparr>"

definition door_hub :: hub where
  "door_hub = empty_hub\<lparr>h_sensor_samples := [door_sample]\<rparr>"

lemma success_needs_fresh_data_witness:
  "\<exists>details. run_probe demo_env demo_reach demo_sql door_hub mqtt_rule = Inr (''success'', details)
     \<and> backed demo_env demo_sql (wr_probe mqtt_rule) ''mqtt_topic_equals'' details door_hub"
proof -
  have texts: "py_strip ''s'' = ''s''" "py_strip ''door'' = ''door''"
    "py_strip (text_of_value demo_env (VStr ''shut'')) = ''shut''" "py_lower (py_strip (py_str demo_env (value_or (VStr ''shut'') (VStr [])))) = py_lower ''shut''"
    by code_simp+
  have read: "latest_sample_for_topic demo_env ''s'' ''door'' 300 door_hub = Inr (Some (iso_z 0, smp_payload door_sample))"
    by (simp add: latest_sample_for_topic_def fresh_samples_def samples_of_def door_hub_def door_sample_def on_topic_def dict_or_def dget_def
        read_of_def back_from_def demo_env_def secs_def value_or_def in_datetime_range_def MIN_INSTANT_def MAX_INSTANT_def)
  obtain details where run: "run_probe demo_env demo_reach demo_sql door_hub mqtt_rule = Inr (''success'', details)"
    by (simp add: run_probe_def mqtt_rule_def dispatch_probe_def DISPATCHED_PROBE_KINDS_def probe_mqtt_topic_equals_def dget_def texts
        int_or_def read door_sample_def success_if_def Let_def)
  have "dget (wr_probe mqtt_rule) ''kind'' = VStr ''mqtt_topic_equals''" by (simp add: mqtt_rule_def dget_def)
  then show ?thesis using success_needs_fresh_data [OF run] run by blast
qed

section \<open>Single probes\<close>

text \<open>The internet probe succeeds exactly when some target answers.\<close>

lemma probe_targets_good:
  "probe_targets E R ts = Inr (good, bad) \<Longrightarrow> good \<noteq> [] \<longleftrightarrow> list_ex (\<lambda>t. fst (probe_target E R t) = Inr True) ts"
proof (induction ts arbitrary: good bad)
  case Nil
  then show ?case by simp
next
  case (Cons t ts)
  then show ?case by (auto split: prod.splits sum.splits if_splits simp: attempt_Inr_iff)
qed

lemma internet_any_target:
  assumes "probe_internet E R probe = Inr (out, d)"
  shows "out = ''success'' \<longleftrightarrow> list_ex (\<lambda>t. fst (probe_target E R t) = Inr True) (fst (targets_or_default probe))"
proof -
  obtain targets dflt where t: "targets_or_default probe = (targets, dflt)" by (cases "targets_or_default probe")
  obtain good bad where p: "probe_targets E R targets = Inr (good, bad)" and out: "out = ''success'' \<longleftrightarrow> good \<noteq> []"
    using assms by (cases "probe_targets E R targets") (auto simp: probe_internet_def success_if_def t split: if_splits)
  show ?thesis unfolding out t fst_conv by (rule probe_targets_good [OF p])
qed

text \<open>\<open>unpause\<close> is listed among the playing events, but it contains \<open>pause\<close>, which is looked for first.\<close>

lemma unpause_is_stopped: "contains_text ''pause'' event \<Longrightarrow> \<not> media_active event"
  by (simp add: media_active_def MEDIA_STOPPED_TOKENS_def)

lemma unpause_example: "contains_text ''unpause'' ''playbackunpause'' \<and> \<not> media_active ''playbackunpause''"
  by code_simp

text \<open>An all-day event has a date for its start, which carries no offset: comparing it with the clock raises.\<close>

lemma naive_start_raises:
  assumes "rc_fromiso R (replace_z (py_str E (value_or (dget e ''start'') (VStr [])))) = Some (t, False)"
  shows "\<exists>x. event_on_air E R e = Inl x"
  using assms by (simp add: event_on_air_def Let_def split: option.splits prod.splits)

text \<open>A power rule whose window holds no sample fails, although its last sample may be young enough.\<close>

lemma empty_window_fails:
  assumes "strip_or (dget probe ''device_id'') = Inr did" and "did \<noteq> []"
    and "latest_power_sample E Q did 0 h = Some p" and "pw_age_seconds p \<le> int_or 600 (dget probe ''max_sample_age_seconds'')"
    and "recent_samples E Q did 0 (between 30 86400 (int_or 300 (dget probe ''window_seconds''))) 720 None h = []"
  shows "\<exists>d. probe_power E R Q probe kind h = Inr (''failure'', (''reason'', VStr ''no_samples_in_window'') # d)"
  using assms by (simp add: probe_power_def fails_def Let_def)

end
