(* ===== verification/Inbox.thy ===== *)
theory Inbox
  imports DeviceApi Rules Numbers
begin

text \<open>
  What needs the operator's attention (\<open>app/services/inbox.py\<close>) and the acknowledgements that hide items
  (\<open>app/services/attention_acks.py\<close>). Devices and the log of refused callers carry no organization, rules do. The
  best-effort blocks of the source only catch a database that does not answer; that is the argument \<open>answers\<close>.
\<close>

record attention_item =
  ai_kind :: string
  ai_id :: string
  ai_severity :: string
  ai_title :: string
  ai_device_id :: string
  ai_device_name :: string
  ai_source_ip :: "string option"
  ai_since :: "string option"
  ai_hint :: "string option"
  ai_rank :: int

definition SHORT_OFFLINE_SECONDS :: int where "SHORT_OFFLINE_SECONDS = 3 * 60"
definition LONG_OFFLINE_SECONDS :: int where "LONG_OFFLINE_SECONDS = 24 * 60 * 60"
definition NEVER_HEARTBEATED_GRACE_SECONDS :: int where "NEVER_HEARTBEATED_GRACE_SECONDS = 30 * 60"
definition ENROLLMENT_PENDING_WINDOW_SECONDS :: int where "ENROLLMENT_PENDING_WINDOW_SECONDS = 60 * 60"
definition DEVICE_AUTH_REJECTED_LOOKBACK_MINUTES :: int where "DEVICE_AUTH_REJECTED_LOOKBACK_MINUTES = 60"
definition DEVICE_AUTH_REJECTED_MIN_HITS :: int where "DEVICE_AUTH_REJECTED_MIN_HITS = 3"
definition DEVICE_FAILSAFE_LOOKBACK_HOURS :: int where "DEVICE_FAILSAFE_LOOKBACK_HOURS = 24"

definition NEVER_REAL_DEVICE_IPS :: "string list" where
  "NEVER_REAL_DEVICE_IPS = [''127.0.0.1'', ''::1'', ''192.168.18.1'']"

definition QA_AUTH_REJECTED_PREFIXES :: "string list" where
  "QA_AUTH_REJECTED_PREFIXES = [''qa '', ''qa-'', ''qa_'', ''test-'', ''test_'', ''playwright'', ''dev_qa_'', ''dev_test'']"

definition DASH :: string where "DASH = [CHR 0xE2, CHR 0x80, CHR 0x94]"
definition ARROW :: string where "ARROW = [CHR 0xE2, CHR 0x86, CHR 0x92]"

definition iso_opt :: "instant option \<Rightarrow> string option" where
  "iso_opt t = map_option iso_z t"

section \<open>Devices\<close>

datatype presence = PendingHeartbeat | NeverHeard | TooEarly | OfflineLong | OfflineShort | PresentNow

definition presence_of :: "instant \<Rightarrow> device \<Rightarrow> presence" where
  "presence_of now d =
     (case dev_last_heartbeat_at d of
        None \<Rightarrow>
          (if now - secs ENROLLMENT_PENDING_WINDOW_SECONDS \<le> dev_created_at d then PendingHeartbeat
           else if dev_created_at d < now - secs NEVER_HEARTBEATED_GRACE_SECONDS then NeverHeard
           else TooEarly)
      | Some t \<Rightarrow>
          (if t < now - secs LONG_OFFLINE_SECONDS then OfflineLong
           else if t < now - secs SHORT_OFFLINE_SECONDS then OfflineShort
           else PresentNow))"

definition name_or_id :: "device \<Rightarrow> string" where
  "name_or_id d = (if dev_display_name d = [] then dev_id d else dev_display_name d)"

definition device_item :: "device \<Rightarrow> string \<Rightarrow> string \<Rightarrow> string \<Rightarrow> instant option \<Rightarrow> string option \<Rightarrow> int \<Rightarrow> attention_item" where
  "device_item d kind severity title since hint rank =
     \<lparr>ai_kind = kind, ai_id = kind @ '':'' @ dev_id d, ai_severity = severity, ai_title = title, ai_device_id = dev_id d,
      ai_device_name = name_or_id d, ai_source_ip = None, ai_since = iso_opt since, ai_hint = hint, ai_rank = rank\<rparr>"

definition presence_items :: "instant \<Rightarrow> device \<Rightarrow> attention_item list" where
  "presence_items now d =
     (case presence_of now d of
        PendingHeartbeat \<Rightarrow>
          [device_item d ''enrollment_pending'' ''info'' (''Newly enrolled '' @ DASH @ '' waiting for first heartbeat'') (Some (dev_created_at d)) None 30]
      | NeverHeard \<Rightarrow>
          [device_item d ''device_never'' ''warn'' ''Never heartbeated since enrolment'' (Some (dev_created_at d))
             (Some ''Check the firmware: device powered? Wi-Fi joined? `central_base_url` correct?'') 50]
      | TooEarly \<Rightarrow> []
      | OfflineLong \<Rightarrow> [device_item d ''device_offline_long'' ''warn'' ''Offline > 24 h'' (dev_last_heartbeat_at d) None 60]
      | OfflineShort \<Rightarrow> [device_item d ''device_offline_short'' ''warn'' ''Offline > 3 min'' (dev_last_heartbeat_at d) None 40]
      | PresentNow \<Rightarrow> [])"

definition config_items :: "device \<Rightarrow> attention_item list" where
  "config_items d =
     (let desired = dict_or_empty (dev_desired_config d); reported = dict_or_empty (dev_last_reported_config d);
          missing = length (filter (\<lambda>k. \<not> dhas reported k) (map fst desired)); mismatched = length (mismatches desired reported)
      in if \<not> dev_central_management_enabled d \<or> desired = [] then []
         else if reported = [] then
           [device_item d ''desired_config_unconfirmed'' ''info'' ''Desired config set but never reported back'' (dev_desired_config_updated_at d)
              (Some (''Device hasn'' @ [CHR 0x27] @ ''t echoed its config in a heartbeat yet. Older firmware may not include reported_config '' @ DASH
                 @ '' check the firmware version.'')) 35]
         else if missing = 0 \<and> mismatched = 0 then []
         else
           [device_item d ''desired_config_drifted'' ''warn''
              (''Desired config drifted: '' @ join_with '', ''
                 ((if mismatched = 0 then [] else [dec mismatched @ '' mismatched'']) @ (if missing = 0 then [] else [dec missing @ '' missing''])))
              (dev_desired_config_updated_at d) 
              (Some (''Hub-side desired_config disagrees with the device'' @ [CHR 0x27] @ ''s last_reported_config. Push from the device-detail Desired Config card to reconcile.'')) 70])"

section \<open>Callers, failsafes and rules\<close>

definition auth_item :: "pydict \<Rightarrow> attention_item list" where
  "auth_item row =
     (let hits = int_of (dget row ''hit_count''); text = (\<lambda>k dflt. case dget row k of VStr (c # cs) \<Rightarrow> c # cs | _ \<Rightarrow> dflt);
          ip = text ''source_ip'' ''?''; cdi = text ''claimed_device_id'' ''(no device_id)''; ep = text ''endpoint'' []
      in if hits < DEVICE_AUTH_REJECTED_MIN_HITS \<or> ip \<in> set NEVER_REAL_DEVICE_IPS
            \<or> list_ex (starts_with (py_lower cdi)) QA_AUTH_REJECTED_PREFIXES
         then []
         else [\<lparr>ai_kind = ''device_auth_rejected'', ai_id = ''device_auth_rejected:'' @ cdi @ '':'' @ ip @ '':'' @ ep, ai_severity = ''warn'',
                ai_title = ''Device auth rejected ('' @ dec (nat hits) @ '' attempts) on '' @ ep, ai_device_id = cdi, ai_device_name = cdi,
                ai_source_ip = Some ip, ai_since = Some (text ''last_seen_at'' []),
                ai_hint = Some (''A device is calling with a stale or unknown bearer token. Mint a fresh enrollment token and re-enrol the device '' @ DASH
                  @ '' the firmware'' @ [CHR 0x27] @ ''s 401 '' @ ARROW @ '' re-enroll loop should pick it up automatically.''), ai_rank = 35\<rparr>])"

definition auth_items :: "env \<Rightarrow> hub \<Rightarrow> attention_item list" where
  "auth_items E h = concat (map auth_item (list_recent_attempts E 50 (Some DEVICE_AUTH_REJECTED_LOOKBACK_MINUTES) h))"

definition failsafe_item :: "env \<Rightarrow> hub \<Rightarrow> pydict \<Rightarrow> attention_item" where
  "failsafe_item E h fs =
     (let did = py_str E (dget fs ''device_id''); text = (\<lambda>k. py_str E (value_or (dget fs k) (VStr ''?'')));
          name = (case get_device did h of None \<Rightarrow> did | Some d \<Rightarrow> name_or_id d)
      in \<lparr>ai_kind = ''device_failsafe'', ai_id = ''device_failsafe:'' @ py_str E (dget fs ''id''), ai_severity = ''critical'',
          ai_title = ''Firmware failsafe: '' @ text ''failed_version'' @ '' '' @ ARROW @ '' '' @ text ''fallback_to_version'' @ '' (reason: '' @ text ''reason'' @ '')'',
          ai_device_id = did, ai_device_name = name, ai_source_ip = None, ai_since = Some (py_str E (dget fs ''received_at'')),
          ai_hint = Some (''The device fell back from a just-updated firmware to its known-good previous version. Check the device-detail page for ''
            @ ''the diagnostic blob and consider rolling back the firmware deployment until the failure is understood.''), ai_rank = 80\<rparr>)"

definition failsafe_items :: "env \<Rightarrow> (string \<Rightarrow> pyval option) \<Rightarrow> hub \<Rightarrow> attention_item list" where
  "failsafe_items E P h = map (failsafe_item E h) (failsafe_list_recent E P 20 DEVICE_FAILSAFE_LOOKBACK_HOURS h)"

definition fired_recently :: "instant \<Rightarrow> string \<Rightarrow> hub \<Rightarrow> bool" where
  "fired_recently now i h \<longleftrightarrow>
     list_ex (\<lambda>e. pe_rule_id e = i \<and> pe_outcome e = ''action_fired'' \<and> now - secs 3600 \<le> pe_at e) (h_probe_events h)"

definition target_label :: "env \<Rightarrow> pydict \<Rightarrow> string" where
  "target_label E target =
     (let text = (\<lambda>k. if dhas target k then py_str E (dget target k) else ''?'') in
      if dget target ''kind'' = VStr ''device'' then ''device '' @ text ''id''
      else if dget target ''kind'' = VStr ''group'' then ''group '' @ text ''id''
      else if dget target ''kind'' = VStr ''tag'' then ''tag `'' @ text ''tag'' @ ''`''
      else ''?'')"

definition firing_item :: "env \<Rightarrow> watchdog_rule \<Rightarrow> attention_item" where
  "firing_item E r =
     \<lparr>ai_kind = ''watchdog_firing'', ai_id = ''watchdog_firing:'' @ wr_id r, ai_severity = ''warn'', ai_title = ''Watchdog rule firing: '' @ wr_name r,
      ai_device_id = wr_id r, ai_device_name = wr_name r, ai_source_ip = None, ai_since = iso_opt (wr_last_action_at r),
      ai_hint = Some (''Probe failing on '' @ target_label E (wr_target r) @ ''. Last outcome: ''
        @ (case wr_last_outcome r of Some (c # cs) \<Rightarrow> c # cs | _ \<Rightarrow> ''?'') @ ''. See /app/rules for the event log.''),
      ai_rank = 70\<rparr>"

definition firing_items :: "env \<Rightarrow> ctx \<times> hub \<Rightarrow> attention_item list \<times> ctx \<times> hub" where
  "firing_items E s =
     (let (rows, s1) = select_rules E s in
      (map (firing_item E)
         (filter (\<lambda>r. wr_status r = ''firing'' \<or> fired_recently (env_now E) (wr_id r) (snd s1)) (filter wr_enabled rows)), s1))"

section \<open>Acknowledgements\<close>

definition ack_holds :: "instant \<Rightarrow> attention_ack \<Rightarrow> bool" where
  "ack_holds now r \<longleftrightarrow> (case ack_snooze_until r of None \<Rightarrow> True | Some t \<Rightarrow> now < t)"

definition acked_ids :: "instant \<Rightarrow> hub \<Rightarrow> string list" where
  "acked_ids now h = map ack_attention_id (filter (ack_holds now) (h_acks h))"

definition is_acked :: "instant \<Rightarrow> string \<Rightarrow> hub \<Rightarrow> bool" where
  "is_acked now i h \<longleftrightarrow> i \<in> set (acked_ids now h)"

datatype ack_error = AckIntegrityError | AckDataError | AckOverflow

record ack_view =
  av_id :: string
  av_attention_id :: string
  av_acked_at :: string
  av_snooze_until :: "string option"

definition view_ack :: "attention_ack \<Rightarrow> ack_view" where
  "view_ack r = \<lparr>av_id = ack_id r, av_attention_id = ack_attention_id r, av_acked_at = iso_z (ack_at r), av_snooze_until = iso_opt (ack_snooze_until r)\<rparr>"

definition snoozed_until :: "instant \<Rightarrow> int option \<Rightarrow> instant option" where
  "snoozed_until now snooze = (case snooze of Some n \<Rightarrow> if 0 < n then Some (now + secs n) else None | None \<Rightarrow> None)"

text \<open>The user must exist; the columns may refuse a text.\<close>

definition ack_item ::
  "env \<Rightarrow> column_store \<Rightarrow> string \<Rightarrow> string option \<Rightarrow> int option \<Rightarrow> string option \<Rightarrow> hub \<Rightarrow> ack_error + (ack_view \<times> hub)" where
  "ack_item E D i user snooze reason h =
     (let until = snoozed_until (env_now E) snooze in
      if (case until of None \<Rightarrow> False | Some t \<Rightarrow> \<not> in_datetime_range t) then Inl AckOverflow
      else if (case user of None \<Rightarrow> False | Some u \<Rightarrow> tget usr_id u (h_users h) = None) then Inl AckIntegrityError
      else case store_value D ''attention_acks.reason'' (of_opt_str reason) of
        None \<Rightarrow> Inl AckDataError
      | Some why \<Rightarrow>
          (case tget ack_attention_id i (h_acks h) of
             Some r \<Rightarrow>
               (let r' = r\<lparr>ack_by_user_id := user, ack_at := env_now E, ack_snooze_until := until,
                           ack_reason := (if reason = None \<or> reason = Some [] then ack_reason r else column_text why)\<rparr>
                in Inr (view_ack r', h\<lparr>h_acks := tupd ack_id (ack_id r) (\<lambda>_. r') (h_acks h)\<rparr>))
           | None \<Rightarrow>
               (case D ''attention_acks.attention_id'' (VStr i) of
                  Some (VStr j) \<Rightarrow>
                    (let r = \<lparr>ack_id = new_id (env_ulid E) ''ack'' (h_ulid h), ack_attention_id = j, ack_by_user_id = user, ack_at = env_now E,
                              ack_snooze_until = until, ack_reason = column_text why\<rparr>
                     in if tget ack_id (ack_id r) (h_acks h) \<noteq> None \<or> tget ack_attention_id j (h_acks h) \<noteq> None then Inl AckIntegrityError
                        else Inr (view_ack r, h\<lparr>h_acks := tadd r (h_acks h), h_ulid := Suc (h_ulid h)\<rparr>))
                | _ \<Rightarrow> Inl AckDataError)))"

definition unack_item :: "string \<Rightarrow> hub \<Rightarrow> bool \<times> hub" where
  "unack_item i h =
     (case tget ack_attention_id i (h_acks h) of
        None \<Rightarrow> (False, h) | Some r \<Rightarrow> (True, h\<lparr>h_acks := tdel ack_id (ack_id r) (h_acks h)\<rparr>))"

definition ack_expired :: "instant \<Rightarrow> attention_ack \<Rightarrow> bool" where
  "ack_expired now r \<longleftrightarrow> (case ack_snooze_until r of None \<Rightarrow> False | Some t \<Rightarrow> t < now - secs (24 * 3600))"

definition expire_old_acks :: "env \<Rightarrow> hub \<Rightarrow> nat \<times> hub" where
  "expire_old_acks E h =
     (length (filter (ack_expired (env_now E)) (h_acks h)), h\<lparr>h_acks := filter (\<lambda>r. \<not> ack_expired (env_now E) r) (h_acks h)\<rparr>)"

section \<open>The feed and the verdict\<close>

record inbox =
  ib_verdict :: string
  ib_label :: string
  ib_message :: string
  ib_attention :: "attention_item list"
  ib_totals :: pydict

text \<open>\<open>sort(key=lambda x: (-x["rank"], x.get("since") or ""))\<close>: by rank, then by time; both sorts are stable.\<close>

definition ranked :: "attention_item list \<Rightarrow> attention_item list" where
  "ranked xs = sort_key (\<lambda>a. - ai_rank a) (sort_key (\<lambda>a. opt_text (ai_since a)) xs)"

definition feed :: "nat \<Rightarrow> string list \<Rightarrow> attention_item list \<Rightarrow> attention_item list" where
  "feed limit hidden xs = take limit (ranked (filter (\<lambda>a. ai_id a \<notin> set hidden) xs))"

definition plural :: "nat \<Rightarrow> string" where "plural n = (if n = 1 then [] else ''s'')"

definition verdict_of :: "nat \<Rightarrow> nat \<Rightarrow> nat \<Rightarrow> string \<times> string \<times> string" where
  "verdict_of devices offline attention =
     (if devices = 0 then (''all-clear'', ''No devices yet'', ''Enrol your first device to start monitoring.'')
      else if devices < offline * 4 then (''degraded'', ''Degraded'', dec offline @ '' of '' @ dec devices @ '' devices offline'')
      else if 0 < attention then (''attention'', ''Attention'', dec attention @ '' item'' @ plural attention @ '' need attention'')
      else (''all-clear'', ''All clear'', ''All '' @ dec devices @ '' device'' @ plural devices @ '' online''))"

definition fleet :: "hub \<Rightarrow> device list" where
  "fleet h = filter (\<lambda>d. \<not> dev_is_qa_fixture d) (h_devices h)"

definition devices_in :: "instant \<Rightarrow> presence \<Rightarrow> hub \<Rightarrow> nat" where
  "devices_in now p h = length (filter (\<lambda>d. presence_of now d = p) (fleet h))"

definition compute_inbox :: "env \<Rightarrow> (string \<Rightarrow> pyval option) \<Rightarrow> nat \<Rightarrow> ctx \<times> hub \<Rightarrow> inbox \<times> ctx \<times> hub" where
  "compute_inbox E P limit s =
     (let now = env_now E; h = snd s; counted = (\<lambda>p. devices_in now p h);
          devices = concat (map (\<lambda>d. presence_items now d @ config_items d) (fleet h));
          auth = auth_items E h; failsafe = failsafe_items E P h; (firing, s1) = firing_items E s;
          offline = counted OfflineShort + counted OfflineLong;
          needing = offline + counted NeverHeard + counted PendingHeartbeat + length auth + length failsafe + length firing;
          (v, label, message) = verdict_of (length (fleet h)) offline needing
      in (\<lparr>ib_verdict = v, ib_label = label, ib_message = message,
           ib_attention = feed limit (acked_ids now (snd s1)) (devices @ auth @ failsafe @ firing),
           ib_totals = [(''attention_total'', VInt (int needing)), (''devices_total'', VInt (int (length (fleet h)))),
             (''devices_online'', VInt (int (counted PresentNow))), (''devices_offline_short'', VInt (int (counted OfflineShort))),
             (''devices_offline_long'', VInt (int (counted OfflineLong))), (''devices_never'', VInt (int (counted NeverHeard))),
             (''enrollments_pending'', VInt (int (counted PendingHeartbeat))), (''auth_rejected'', VInt (int (length auth))),
             (''failsafe'', VInt (int (length failsafe))), (''watchdog_firing'', VInt (int (length firing)))]\<rparr>, s1))"

definition UNREADABLE :: inbox where
  "UNREADABLE = \<lparr>ib_verdict = ''unknown'', ib_label = ''Unknown'', ib_message = ''Could not read fleet telemetry. Try again.'', ib_attention = [],
     ib_totals = map (\<lambda>k. (k, VInt 0)) [''attention_total'', ''devices_total'', ''devices_online'', ''devices_offline_short'',
       ''devices_offline_long'', ''devices_never'', ''enrollments_pending'', ''auth_rejected'', ''failsafe'']\<rparr>"

definition health_and_attention :: "env \<Rightarrow> (string \<Rightarrow> pyval option) \<Rightarrow> bool \<Rightarrow> nat \<Rightarrow> ctx \<times> hub \<Rightarrow> inbox \<times> ctx \<times> hub" where
  "health_and_attention E P answers limit s = (if answers then compute_inbox E P limit s else (UNREADABLE, s))"

end
