(* ===== verification/Signups.thy ===== *)
theory Signups
  imports Deployments Telemetry
begin

text \<open>
  Requests for an account from the public form (\<open>app/services/signup_requests.py\<close>): a request is filed, and an
  administrator approves or rejects it once. The table carries no organization and no foreign keys.
\<close>

datatype signup_error = SignupRequestError string string | SignupIntegrityError | SignupDataError

text \<open>The check for a pending request and the insertion are two sessions; \<open>h0\<close> is the database the check reads.\<close>

definition pending_for :: "string \<Rightarrow> hub \<Rightarrow> bool" where
  "pending_for email h \<longleftrightarrow> list_ex (\<lambda>r. sreq_email r = email \<and> sreq_status r = ''pending'') (h_signup_requests h)"

definition create_signup_request ::
  "env \<Rightarrow> column_store \<Rightarrow> string \<Rightarrow> string \<Rightarrow> string option \<Rightarrow> hub \<Rightarrow> hub \<Rightarrow> signup_error + (signup_request \<times> hub)" where
  "create_signup_request E D email0 name0 message h0 h =
     (let email = py_strip (py_lower email0); name = py_strip name0 in
      if email = [] \<or> CHR ''@'' \<notin> set email then Inl (SignupRequestError ''validation_failed'' ''Valid email is required'')
      else if name = [] then Inl (SignupRequestError ''validation_failed'' ''Display name is required'')
      else if pending_for email h0
      then Inl (SignupRequestError ''duplicate_request'' ''You already have a pending signup request. Please wait for admin review.'')
      else case (D ''signup_requests.email'' (VStr email), D ''signup_requests.display_name'' (VStr name),
                 store_value D ''signup_requests.message'' (of_opt_str message)) of
        (Some (VStr e), Some (VStr n), Some m) \<Rightarrow>
          (let r = \<lparr>sreq_id = new_id (env_ulid E) ''sreq'' (h_ulid h), sreq_email = e, sreq_display_name = n, sreq_message = column_text m,
                    sreq_status = ''pending'', sreq_reviewed_by_user_id = None, sreq_reviewed_at = None, sreq_invitation_id = None,
                    sreq_created_at = env_now E\<rparr>
           in if tget sreq_id (sreq_id r) (h_signup_requests h) \<noteq> None then Inl SignupIntegrityError
              else Inr (r, h\<lparr>h_signup_requests := tadd r (h_signup_requests h), h_ulid := Suc (h_ulid h)\<rparr>))
      | _ \<Rightarrow> Inl SignupDataError)"

definition list_signup_requests :: "string option \<Rightarrow> hub \<Rightarrow> signup_request list" where
  "list_signup_requests status h =
     filter (\<lambda>r. case status of None \<Rightarrow> True | Some s \<Rightarrow> s = [] \<or> sreq_status r = s) (sort_key (\<lambda>r. - sreq_created_at r) (h_signup_requests h))"

definition get_signup_request :: "string \<Rightarrow> hub \<Rightarrow> signup_request option" where
  "get_signup_request i h = tget sreq_id i (h_signup_requests h)"

text \<open>The review both ends share: only a pending request is reviewed.\<close>

definition review :: "(signup_request \<Rightarrow> signup_request) \<Rightarrow> string \<Rightarrow> hub \<Rightarrow> signup_error + (signup_request option \<times> hub)" where
  "review f i h =
     (case get_signup_request i h of
        None \<Rightarrow> Inr (None, h)
      | Some r \<Rightarrow>
          (if sreq_status r \<noteq> ''pending'' then Inl (SignupRequestError ''already_reviewed'' (''Request already '' @ sreq_status r))
           else Inr (Some (f r), h\<lparr>h_signup_requests := tupd sreq_id i (\<lambda>_. f r) (h_signup_requests h)\<rparr>)))"

definition approve_signup_request :: "env \<Rightarrow> string \<Rightarrow> string \<Rightarrow> string \<Rightarrow> hub \<Rightarrow> signup_error + (signup_request option \<times> hub)" where
  "approve_signup_request E i reviewer invitation h =
     review (\<lambda>r. r\<lparr>sreq_status := ''approved'', sreq_reviewed_by_user_id := Some reviewer, sreq_reviewed_at := Some (env_now E),
                    sreq_invitation_id := Some invitation\<rparr>) i h"

definition reject_signup_request :: "env \<Rightarrow> string \<Rightarrow> string \<Rightarrow> hub \<Rightarrow> signup_error + (signup_request option \<times> hub)" where
  "reject_signup_request E i reviewer h =
     review (\<lambda>r. r\<lparr>sreq_status := ''rejected'', sreq_reviewed_by_user_id := Some reviewer, sreq_reviewed_at := Some (env_now E)\<rparr>) i h"

definition count_pending_requests :: "hub \<Rightarrow> nat" where
  "count_pending_requests h = length (filter (\<lambda>r. sreq_status r = ''pending'') (h_signup_requests h))"

end
