(* ===== verification/InboxProps.thy ===== *)
theory InboxProps
  imports Inbox Signups Notifications
begin

text \<open>
  What holds of the operator's inbox and of signup requests: an all-clear verdict means that every device is online, failed
  updates are always in the feed, an acknowledged item stays hidden, and a request is reviewed once.
\<close>

section \<open>The verdict\<close>

text \<open>The grace for brand-new devices never applies: who is past the pending window is older than the grace.\<close>

lemma never_too_early: "presence_of now d \<noteq> TooEarly"
  by (auto simp: presence_of_def ENROLLMENT_PENDING_WINDOW_SECONDS_def NEVER_HEARTBEATED_GRACE_SECONDS_def secs_def split: option.splits)

lemma present_iff:
  "presence_of now d = PresentNow \<longleftrightarrow> (\<exists>t. dev_last_heartbeat_at d = Some t \<and> now - secs SHORT_OFFLINE_SECONDS \<le> t)"
  by (auto simp: presence_of_def SHORT_OFFLINE_SECONDS_def LONG_OFFLINE_SECONDS_def secs_def split: option.splits)

lemma devices_in_0: "devices_in now p h = 0 \<Longrightarrow> d \<in> set (fleet h) \<Longrightarrow> presence_of now d \<noteq> p"
  by (auto simp: devices_in_def filter_empty_conv)

lemma verdict_all_clear:
  "fst (verdict_of devices offline attention) = ''all-clear'' \<Longrightarrow> 0 < devices \<Longrightarrow> attention = 0"
  by (auto simp: verdict_of_def split: if_splits)

text \<open>C38: When the inbox says all clear, every device that is no test fixture has been heard from within the last three minutes.\<close>

theorem all_clear_means_online:
  assumes "compute_inbox E P limit s = (ib, s')" and "ib_verdict ib = ''all-clear''" and "d \<in> set (fleet (snd s))"
  shows "\<exists>t. dev_last_heartbeat_at d = Some t \<and> env_now E - secs SHORT_OFFLINE_SECONDS \<le> t"
proof -
  have pos: "0 < length (fleet (snd s))" using assms(3) by (cases "fleet (snd s)") simp_all
  obtain firing s1 where f: "firing_items E s = (firing, s1)" by (cases "firing_items E s")
  let ?n = "\<lambda>p. devices_in (env_now E) p (snd s)"
  let ?total = "?n OfflineShort + ?n OfflineLong + ?n NeverHeard + ?n PendingHeartbeat + length (auth_items E (snd s))
    + length (failsafe_items E P (snd s)) + length firing"
  have "fst (verdict_of (length (fleet (snd s))) (?n OfflineShort + ?n OfflineLong) ?total) = ''all-clear''"
    using assms(1,2) by (auto simp: compute_inbox_def Let_def f split: prod.splits)
  then have "?total = 0" using pos by (rule verdict_all_clear)
  then have "?n OfflineShort = 0" "?n OfflineLong = 0" "?n NeverHeard = 0" "?n PendingHeartbeat = 0" by simp_all
  note none = this [THEN devices_in_0, OF assms(3)]
  have "presence_of (env_now E) d = PresentNow"
    using none never_too_early [of "env_now E" d] by (cases "presence_of (env_now E) d") simp_all
  then show ?thesis by (simp add: present_iff)
qed

definition online_hub :: hub where
  "online_hub = empty_hub\<lparr>h_devices := [(new_device ''d1'' ''fan'' 0)\<lparr>dev_last_heartbeat_at := Some 0\<rparr>]\<rparr>"

theorem all_clear_means_online_witness:
  "ib_verdict (fst (compute_inbox demo_env (\<lambda>_. None) 50 (job_ctx, online_hub))) = ''all-clear''
   \<and> (\<exists>t. dev_last_heartbeat_at ((new_device ''d1'' ''fan'' 0)\<lparr>dev_last_heartbeat_at := Some 0\<rparr>) = Some t
        \<and> env_now demo_env - secs SHORT_OFFLINE_SECONDS \<le> t)"
proof -
  let ?r = "compute_inbox demo_env (\<lambda>_. None) 50 (job_ctx, online_hub)"
  have v: "ib_verdict (fst ?r) = ''all-clear''" by code_simp
  have m: "(new_device ''d1'' ''fan'' 0)\<lparr>dev_last_heartbeat_at := Some 0\<rparr> \<in> set (fleet (snd (job_ctx, online_hub)))"
    by (simp add: fleet_def online_hub_def new_device_def)
  show ?thesis using all_clear_means_online [OF prod.collapse [symmetric] v m] v by blast
qed

section \<open>The feed\<close>

text \<open>The head of a sorted list holds every element that few enough elements precede.\<close>

lemma length_filter_sort: "length (filter P (sort_key key xs)) = length (filter P xs)"
  by (metis mset_filter mset_sort size_mset)

lemma take_sort_key:
  fixes key :: "'a \<Rightarrow> int"
  assumes "x \<in> set xs" and "length (filter (\<lambda>y. key y \<le> key x) xs) \<le> n"
  shows "x \<in> set (take n (sort_key key xs))"
proof (rule ccontr)
  let ?L = "sort_key key xs" and ?Q = "\<lambda>y. key y \<le> key x"
  assume "x \<notin> set (take n ?L)"
  moreover have "x \<in> set ?L" using assms(1) by simp
  ultimately have drop: "x \<in> set (drop n ?L)" by (metis Un_iff append_take_drop_id set_append)
  then have len: "length (take n ?L) = n" by (cases "n \<le> length ?L") simp_all
  have "sorted (map key (take n ?L) @ map key (drop n ?L))" by (simp flip: map_append)
  then have "filter ?Q (take n ?L) = take n ?L" using drop by (fastforce simp: sorted_append filter_id_conv)
  moreover have "filter ?Q (drop n ?L) \<noteq> []" using drop by (auto simp: filter_empty_conv)
  ultimately have "n < length (filter ?Q (take n ?L)) + length (filter ?Q (drop n ?L))" using len by simp
  also have "\<dots> = length (filter ?Q ?L)" by (metis append_take_drop_id filter_append length_append)
  also have "\<dots> = length (filter ?Q xs)" by (rule length_filter_sort)
  finally show False using assms(2) by simp
qed

lemma top_rank_shown:
  "x \<in> set xs \<Longrightarrow> length (filter (\<lambda>a. ai_rank x \<le> ai_rank a) xs) \<le> n \<Longrightarrow> x \<in> set (take n (ranked xs))"
  using take_sort_key [of x "sort_key (\<lambda>a. opt_text (ai_since a)) xs" "\<lambda>a. - ai_rank a" n]
  by (simp add: ranked_def length_filter_sort)

lemma set_ranked [simp]: "set (ranked xs) = set xs"
  by (simp add: ranked_def)

lemma presence_rank: "list_all (\<lambda>a. ai_rank a < 80) (presence_items now d)"
  by (cases "presence_of now d") (simp_all add: presence_items_def device_item_def)

lemma at_most_one: "P x \<Longrightarrow> list_all P (if c then [] else [x])"
  by simp

lemma at_most_one_of: "P x \<Longrightarrow> P y \<Longrightarrow> list_all P (if c then [] else if d then [x] else if e then [] else [y])"
  by simp

lemma config_rank: "list_all (\<lambda>a. ai_rank a < 80) (config_items d)"
  unfolding config_items_def Let_def by (rule at_most_one_of) (simp_all add: device_item_def)

lemma auth_rank: "list_all (\<lambda>a. ai_rank a < 80) (auth_item row)"
  unfolding auth_item_def Let_def by (rule at_most_one) simp

lemma rank_below_failsafe:
  "a \<in> set (concat (map (\<lambda>d. presence_items now d @ config_items d) ds)) \<Longrightarrow> ai_rank a < 80"
  "a \<in> set (auth_items E h) \<Longrightarrow> ai_rank a < 80"
  "firing_items E s = (firing, s1) \<Longrightarrow> a \<in> set firing \<Longrightarrow> ai_rank a < 80"
proof -
  show "a \<in> set (concat (map (\<lambda>d. presence_items now d @ config_items d) ds)) \<Longrightarrow> ai_rank a < 80"
    using presence_rank config_rank unfolding list_all_iff by auto
  show "a \<in> set (auth_items E h) \<Longrightarrow> ai_rank a < 80"
    using auth_rank unfolding list_all_iff auth_items_def by auto
  show "firing_items E s = (firing, s1) \<Longrightarrow> a \<in> set firing \<Longrightarrow> ai_rank a < 80"
    by (auto simp: firing_items_def firing_item_def split: prod.splits)
qed

lemma failsafe_items_bounded: "length (failsafe_items E P h) \<le> 20"
  by (simp add: failsafe_items_def failsafe_list_recent_def clamp_def)

lemma failsafe_rank: "a \<in> set (failsafe_items E P h) \<Longrightarrow> ai_rank a = 80"
  by (auto simp: failsafe_items_def failsafe_item_def Let_def)

lemma failsafe_item_shown:
  assumes "compute_inbox E P limit s = (ib, s')" and "20 \<le> limit" and "a \<in> set (failsafe_items E P (snd s))"
    and "\<not> is_acked (env_now E) (ai_id a) (snd s')"
  shows "a \<in> set (ib_attention ib)"
proof -
  obtain firing s1 where f: "firing_items E s = (firing, s1)" by (cases "firing_items E s")
  let ?devices = "concat (map (\<lambda>d. presence_items (env_now E) d @ config_items d) (fleet (snd s)))"
  let ?all = "?devices @ auth_items E (snd s) @ failsafe_items E P (snd s) @ firing"
  let ?shown = "filter (\<lambda>x. ai_id x \<notin> set (acked_ids (env_now E) (snd s'))) ?all"
  have att: "s' = s1" "ib_attention ib = take limit (ranked ?shown)"
    using assms(1) by (auto simp: compute_inbox_def feed_def Let_def f split: prod.splits)
  have a: "a \<in> set ?shown" using assms(3,4) by (simp add: is_acked_def)
  have none: "filter (\<lambda>x. 80 \<le> ai_rank x) ?devices = []" "filter (\<lambda>x. 80 \<le> ai_rank x) (auth_items E (snd s)) = []"
    "filter (\<lambda>x. 80 \<le> ai_rank x) firing = []"
    using rank_below_failsafe(1) [of _ "env_now E" "fleet (snd s)"] rank_below_failsafe(2) [of _ E "snd s"] rank_below_failsafe(3) [OF f]
    by (fastforce simp: filter_empty_conv)+
  have "length (filter (\<lambda>x. 80 \<le> ai_rank x) ?shown) \<le> length (filter (\<lambda>x. 80 \<le> ai_rank x) ?all)"
    by (metis (no_types, lifting) filter_filter filter_cong length_filter_le conj_commute)
  also have "\<dots> \<le> length (failsafe_items E P (snd s))"
    unfolding filter_append none by simp
  also have "\<dots> \<le> limit" using failsafe_items_bounded [of E P "snd s"] assms(2) by simp
  finally show ?thesis unfolding att(2) using top_rank_shown [OF a] failsafe_rank [OF assms(3)] by simp
qed

text \<open>The item of a report: among the newest twenty of the last day it is one of the items.\<close>

lemma failsafe_item_listed:
  assumes "f \<in> set (h_failsafe_events h)" and "env_now E - secs (24 * 3600) \<le> fse_received_at f"
    and "length (filter (\<lambda>g. fse_received_at f \<le> fse_received_at g) (h_failsafe_events h)) \<le> 20"
  shows "failsafe_item E h (failsafe_dict P f) \<in> set (failsafe_items E P h)"
proof -
  let ?rows = "filter (\<lambda>g. env_now E - secs (24 * 3600) \<le> fse_received_at g) (h_failsafe_events h)"
  have "length (filter (\<lambda>g. fse_received_at f \<le> fse_received_at g) ?rows) \<le> 20"
    using assms(3) by (metis (no_types, lifting) filter_filter filter_cong length_filter_le conj_commute le_trans)
  then have "f \<in> set (take 20 (sort_key (\<lambda>g. - fse_received_at g) ?rows))"
    using take_sort_key [of f ?rows "\<lambda>g. - fse_received_at g" 20] assms(1,2) by simp
  then show ?thesis
    by (simp add: failsafe_items_def failsafe_list_recent_def DEVICE_FAILSAFE_LOOKBACK_HOURS_def clamp_def)
qed

lemma failsafe_item_names:
  "ai_id (failsafe_item E h (failsafe_dict P f)) = ''device_failsafe:'' @ fse_id f"
  "ai_device_id (failsafe_item E h (failsafe_dict P f)) = fse_device_id f" "ai_severity (failsafe_item E h (failsafe_dict P f)) = ''critical''"
  by (simp_all add: failsafe_item_def failsafe_dict_def dget_def Let_def py_str_def)

text \<open>C39: A failed firmware update of the last day is in the feed: when a device reported a failsafe within the last 24
  hours, at most twenty reports are as new (the code reads the newest twenty), the feed has room for twenty items
  (its default is fifty) and the item was not acknowledged, the feed lists it as critical under the id of the
  report and the device -- no number of devices offline, refused callers or firing rules crowds it out.\<close>

theorem failsafes_always_shown:
  assumes "compute_inbox E P limit s = (ib, s')" and "20 \<le> limit"
    and "f \<in> set (h_failsafe_events (snd s))" and "env_now E - secs (24 * 3600) \<le> fse_received_at f"
    and "length (filter (\<lambda>g. fse_received_at f \<le> fse_received_at g) (h_failsafe_events (snd s))) \<le> 20"
    and "\<not> is_acked (env_now E) (''device_failsafe:'' @ fse_id f) (snd s')"
  shows "\<exists>a \<in> set (ib_attention ib). ai_id a = ''device_failsafe:'' @ fse_id f \<and> ai_device_id a = fse_device_id f
    \<and> ai_severity a = ''critical''"
proof -
  let ?a = "failsafe_item E (snd s) (failsafe_dict P f)"
  have "\<not> is_acked (env_now E) (ai_id ?a) (snd s')" unfolding failsafe_item_names by (rule assms(6))
  then have "?a \<in> set (ib_attention ib)" by (rule failsafe_item_shown [OF assms(1,2) failsafe_item_listed [OF assms(3-5)]])
  then show ?thesis by (intro bexI [of _ ?a]) (simp_all only: failsafe_item_names simp_thms)
qed

section \<open>Acknowledgements\<close>

lemma firing_items_acks: "firing_items E s = (firing, s1) \<Longrightarrow> h_acks (snd s1) = h_acks (snd s)"
proof -
  assume f: "firing_items E s = (firing, s1)"
  obtain c h where s: "s = (c, h)" by (cases s)
  obtain rows c1 h1 where sel: "select_rules E (c, h) = (rows, c1, h1)" by (metis prod_cases3)
  have "\<exists>a. h1 = h\<lparr>h_audit := a\<rparr>" using select_scoped_facts(2) sel unfolding select_rules_def by blast
  then show ?thesis using f by (auto simp: firing_items_def s sel)
qed

lemma ack_item_row:
  assumes "ack_item E D i user snooze reason h = Inr (v, h1)"
  obtains r where "r \<in> set (h_acks h1)" and "ack_attention_id r = av_attention_id v" and "ack_snooze_until r = snoozed_until (env_now E) snooze"
proof (cases "tget ack_attention_id i (h_acks h)")
  case None
  have "\<exists>r. v = view_ack r \<and> h_acks h1 = tadd r (h_acks h) \<and> ack_snooze_until r = snoozed_until (env_now E) snooze"
    using assms by (auto simp: ack_item_def Let_def None split: if_splits option.splits pyval.splits)
  then obtain q where "v = view_ack q" "h_acks h1 = tadd q (h_acks h)" "ack_snooze_until q = snoozed_until (env_now E) snooze" by blast
  then show ?thesis by (intro that [of q]) (simp_all add: view_ack_def tadd_def)
next
  case (Some r)
  have "\<exists>q. v = view_ack q \<and> h_acks h1 = tupd ack_id (ack_id r) (\<lambda>_. q) (h_acks h) \<and> ack_snooze_until q = snoozed_until (env_now E) snooze"
    using assms by (auto simp: ack_item_def Let_def Some split: if_splits option.splits)
  then obtain q where q: "v = view_ack q" "h_acks h1 = tupd ack_id (ack_id r) (\<lambda>_. q) (h_acks h)"
    "ack_snooze_until q = snoozed_until (env_now E) snooze" by blast
  have "r \<in> set (h_acks h)" using tget_SomeD [OF Some] by simp
  then have "q \<in> set (h_acks h1)" unfolding q(2) set_tupd by (auto intro!: image_eqI [of _ _ r])
  then show ?thesis using that q(1,3) by (simp add: view_ack_def)
qed

text \<open>An acknowledged item stays out of the feed as long as the acknowledgement lasts.\<close>

lemma acknowledged_stays_hidden:
  assumes "ack_item E D i user snooze reason h = Inr (v, h1)"
    and "h_acks (snd s) = h_acks h1" and "compute_inbox E' P limit s = (ib, s')"
    and "case snooze of Some n \<Rightarrow> n \<le> 0 \<or> env_now E' < env_now E + secs n | None \<Rightarrow> True"
  shows "list_all (\<lambda>a. ai_id a \<noteq> av_attention_id v) (ib_attention ib)"
proof -
  obtain r where r: "r \<in> set (h_acks h1)" "ack_attention_id r = av_attention_id v"
    and until: "ack_snooze_until r = snoozed_until (env_now E) snooze"
    by (rule ack_item_row [OF assms(1)])
  have holds: "ack_holds (env_now E') r" using until assms(4) by (auto simp: ack_holds_def snoozed_until_def split: option.splits if_splits)
  obtain firing s1 where f: "firing_items E' s = (firing, s1)" by (cases "firing_items E' s")
  have ids: "av_attention_id v \<in> set (acked_ids (env_now E') (snd s1))"
    using r holds firing_items_acks [OF f] assms(2) by (force simp: acked_ids_def)
  have "\<exists>xs. ib_attention ib = feed limit (acked_ids (env_now E') (snd s1)) xs"
    using assms(3) by (auto simp: compute_inbox_def Let_def f split: prod.splits)
  then show ?thesis using ids by (auto simp: feed_def list_all_iff dest!: in_set_takeD)
qed

definition failsafe_hub :: hub where
  "failsafe_hub = online_hub\<lparr>h_failsafe_events := [\<lparr>fse_id = ''f1'', fse_device_id = ''d1'', fse_received_at = 0, fse_failed_version = None,
     fse_fallback_to_version = None, fse_reason = ''boot'', fse_details = None\<rparr>]\<rparr>"

lemma compute_inbox_acks: "compute_inbox E P limit s = (ib, s') \<Longrightarrow> h_acks (snd s') = h_acks (snd s)"
  using firing_items_acks [of E s] by (cases "firing_items E s") (auto simp: compute_inbox_def Let_def split: prod.splits)

theorem failsafes_always_shown_witness:
  "list_ex (\<lambda>a. ai_id a = ''device_failsafe:f1'' \<and> ai_device_id a = ''d1'' \<and> ai_severity a = ''critical'')
     (ib_attention (fst (compute_inbox demo_env (\<lambda>_. None) 50 (job_ctx, failsafe_hub))))"
proof -
  let ?s = "(job_ctx, failsafe_hub)" and ?P = "\<lambda>_ :: string. None :: pyval option"
  obtain ib s' where r: "compute_inbox demo_env ?P 50 ?s = (ib, s')" by (metis prod.exhaust)
  obtain f where f: "h_failsafe_events failsafe_hub = [f]" "fse_id f = ''f1''" "fse_device_id f = ''d1''" "fse_received_at f = 0"
    by (simp add: failsafe_hub_def)
  have "\<not> is_acked (env_now demo_env) (''device_failsafe:'' @ fse_id f) (snd s')"
    using compute_inbox_acks [OF r] by (simp add: is_acked_def acked_ids_def failsafe_hub_def online_hub_def empty_hub_def)
  from failsafes_always_shown [OF r _ _ _ _ this] show ?thesis
    unfolding r fst_conv list_ex_iff by (simp add: f demo_env_def secs_def)
qed

section \<open>Signup requests\<close>

inductive signup_step :: "hub \<Rightarrow> hub \<Rightarrow> bool" where
  create: "create_signup_request E D email name message h0 h = Inr (r, h') \<Longrightarrow> signup_step h h'"
| approve: "approve_signup_request E i reviewer invitation h = Inr (r, h') \<Longrightarrow> signup_step h h'"
| reject: "reject_signup_request E i reviewer h = Inr (r, h') \<Longrightarrow> signup_step h h'"

lemma tget_tupd_other: "i \<noteq> j \<Longrightarrow> key x = i \<Longrightarrow> tget key j (tupd key i (\<lambda>_. x) rs) = tget key j rs"
  by (induction rs) (auto simp: tupd_def tget_def)

lemma review_keeps_reviewed:
  assumes "review f i h = Inr (x, h')" and "\<And>r. sreq_id (f r) = sreq_id r"
    and "get_signup_request j h = Some q" and "sreq_status q \<noteq> ''pending''"
  shows "get_signup_request j h' = Some q"
proof (cases "get_signup_request i h")
  case None
  then show ?thesis using assms by (simp add: review_def)
next
  case (Some r)
  then have pending: "sreq_status r = ''pending''" and h': "h' = h\<lparr>h_signup_requests := tupd sreq_id i (\<lambda>_. f r) (h_signup_requests h)\<rparr>"
    using assms(1) by (auto simp: review_def split: if_splits)
  have "i \<noteq> j" using assms(3,4) pending Some by auto
  moreover have "sreq_id (f r) = i" using tget_SomeD [OF Some [unfolded get_signup_request_def]] assms(2) by simp
  ultimately show ?thesis using assms(3) unfolding h' get_signup_request_def
    by (simp add: tget_tupd_other)
qed

lemma signup_step_final:
  assumes "signup_step h h'" and "get_signup_request j h = Some q" and "sreq_status q \<noteq> ''pending''"
  shows "get_signup_request j h' = Some q"
  using assms(1)
proof cases
  case (create E D email name message h0 r)
  then obtain a where "h_signup_requests h' = h_signup_requests h @ [a]"
    by (auto simp: create_signup_request_def Let_def tadd_def split: if_splits option.splits pyval.splits prod.splits)
  then show ?thesis using assms(2) by (simp add: get_signup_request_def tget_append)
next
  case (approve E i reviewer invitation r)
  then show ?thesis unfolding approve_signup_request_def by (rule review_keeps_reviewed) (simp_all add: assms(2,3))
next
  case (reject E i reviewer r)
  then show ?thesis unfolding reject_signup_request_def by (rule review_keeps_reviewed) (simp_all add: assms(2,3))
qed

text \<open>A signup request is reviewed once: along every sequence of further requests and reviews an approved or rejected request
  keeps its status, its reviewer and its invitation.\<close>

theorem review_is_final:
  assumes "signup_step\<^sup>*\<^sup>* h h'" and "get_signup_request j h = Some q" and "sreq_status q \<noteq> ''pending''"
  shows "get_signup_request j h' = Some q"
  using assms by (induction rule: rtranclp_induct) (simp_all add: signup_step_final)

definition rejected_request :: signup_request where
  "rejected_request = \<lparr>sreq_id = ''q'', sreq_email = ''a@b'', sreq_display_name = ''A'', sreq_message = None, sreq_status = ''rejected'',
     sreq_reviewed_by_user_id = Some ''u'', sreq_reviewed_at = Some 0, sreq_invitation_id = None, sreq_created_at = 0\<rparr>"

definition request_again :: "hub \<Rightarrow> hub \<Rightarrow> hub" where
  "request_again h0 h = (case create_signup_request demo_env (\<lambda>_ v. Some v) ''a@b'' ''A'' None h0 h of Inl _ \<Rightarrow> h | Inr (_, h') \<Rightarrow> h')"

theorem review_is_final_witness:
  "length (h_signup_requests (request_again empty_hub (empty_hub\<lparr>h_signup_requests := [rejected_request]\<rparr>))) = 2
   \<and> get_signup_request ''q'' (request_again empty_hub (empty_hub\<lparr>h_signup_requests := [rejected_request]\<rparr>)) = Some rejected_request"
proof -
  let ?h = "empty_hub\<lparr>h_signup_requests := [rejected_request]\<rparr>"
  have two: "length (h_signup_requests (request_again empty_hub ?h)) = 2" by code_simp
  obtain r h' where c: "create_signup_request demo_env (\<lambda>_ v. Some v) ''a@b'' ''A'' None empty_hub ?h = Inr (r, h')"
    using two by (auto simp: request_again_def split: sum.splits)
  then have "signup_step\<^sup>*\<^sup>* ?h (request_again empty_hub ?h)"
    by (auto simp: request_again_def intro: signup_step.create)
  moreover have "get_signup_request ''q'' ?h = Some rejected_request" by (simp add: get_signup_request_def tget_def rejected_request_def)
  moreover have "sreq_status rejected_request \<noteq> ''pending''" by (simp add: rejected_request_def)
  ultimately show ?thesis using review_is_final two by blast
qed

text \<open>The check for a pending request is a session of its own: two forms sent at once are both filed.\<close>

lemma two_pending_requests:
  "map sreq_status (filter (\<lambda>r. sreq_email r = ''a@b'') (h_signup_requests (request_again empty_hub (request_again empty_hub empty_hub)))) = [''pending'', ''pending'']"
  by code_simp

end
