(* ===== verification/Spec2Isabelle.thy ===== *)
theory Spec2Isabelle
  imports ScheduleRuntime EventBus SyncProps WebhookDelivery RegistryProps ApiTokens Directory RuleForms DeviceApi SensorProps PowerProps ProbeProps InboxProps
begin

text \<open>
  Verification of the hub of rebooter-droids, a server that controls remote power switches: operators and
  automations queue commands, devices poll for them, several organizations share one hub, and
  several hubs replicate each other. The Python sources are under \<open>src/app/\<close>.

  \<^bold>\<open>Parts and how they meet.\<close> All state lives in one database. Background jobs (the watchdog, the
  schedule tick, the expiry sweep, the replicator) and request handlers call the services; the services
  open a session, and a session that raises is rolled back. Two layers sit between a service and
  the database: the tenant scope, which adds an organization filter to every SELECT and guards
  every flush, and the emission hooks, which copy changes of four tables into an outbox for the peers.
  Watchdog and schedules reach devices only through the command queue, whose enqueueing holds the
  operator's lockout.

  \<^bold>\<open>State.\<close> \<open>Models\<close> has one record per ORM class with a field per column, and the record \<open>hub\<close> with
  one list per table plus the event bus, the calls that leave the process and a counter for ids. A
  table is a list of rows in insertion order; \<open>Prelude\<close> has its operations (\<open>tget\<close>, \<open>tupd\<close>, \<open>tadd\<close>, \<open>tdel\<close>), the locale
  \<open>row_store\<close> for tables with a primary key (interpreted for devices and commands), JSON values and Python's
  truthiness, conversions and string methods. Times are integers (microseconds), so arithmetic is exact.
  A function that raises returns \<open>Inl\<close> of its component's error type without a state, which is the
  rollback; where the code commits in a session of its own before raising, the state is returned
  beside the error.

  \<^bold>\<open>Theories and sources.\<close>
  \<^item> \<open>EventBus\<close>: \<open>services/event_bus.py\<close>. Publishing is bounded and keeps every backlog.
  \<^item> \<open>Commands\<close>: \<open>services/commands.py\<close>, every operation. Exact effect of enqueueing for a device and a group,
    of delivery with the redelivery grace and of expiry; an inductive step relation over all of them
    with the queue invariant; a late report that reopens a finished command.
  \<^item> \<open>RuntimeFlags\<close>, \<open>RuntimeSettings\<close>: \<open>services/runtime_flags.py\<close>, \<open>runtime_settings.py\<close>. The two key/value stores, the
    process context of the tenant layer and the change callbacks.
  \<^item> \<open>WatchdogActions\<close>, \<open>WatchdogState\<close>: \<open>services/watchdog_runtime/\<close>. Target resolution and every action kind, the
    rule state machine (edge-triggered and binding rules) and the tick: when a rule fires, how far
    apart, how it recovers, that bindings apply an edge once, and that the lockout holds throughout
    (\<open>lockout_kept\<close>, a preorder by the locale \<open>state_preorder\<close>).
  \<^item> \<open>TenantScope\<close>: \<open>services/tenant_scope.py\<close>. Read filter, write guard and the cached enforcement mode; isolation
    under enforcement, the bound on the cache's staleness, and what shadow mode lets through.
  \<^item> \<open>AuditLog\<close>: \<open>services/audit.py\<close>. Recording on the open session, in its own, scoped and per device.
  \<^item> \<open>RoleBindings\<close>, \<open>RbacFilter\<close>: \<open>services/role_bindings.py\<close>, \<open>rbac_filter.py\<close>. Grant and revoke, the resolvers, the gate
    and the list filters. Each \<open>can_act_on\<close> is characterised by a declarative relation on bindings (locale
    \<open>scope_check\<close>, interpreted for devices, sites and groups); one organization's bindings never
    matter in another; lists show exactly what the gate lets through, except to a super admin.
  \<^item> \<open>Schedules\<close>, \<open>ScheduleRuntime\<close>: \<open>services/schedules.py\<close>, \<open>schedule_runtime.py\<close>. The next run is the least future
    instant that matches; a tick is settled; one-shots fire once; maintenance windows open
    and close the maintenance flag and never override an operator.
  \<^item> \<open>Sync\<close>, \<open>SyncProps\<close>: \<open>services/sync.py\<close>, \<open>sync_emission.py\<close>, \<open>sync_replicator.py\<close>. Last-writer-wins does not depend on the
    order of arrival, also where the schema's constraints refuse snapshots, tombstones are permanent, enforced applies stay inside the claimed
    organization, a batch always progresses; and three ways around these guarantees.
  \<^item> \<open>PyText\<close>, \<open>Ssrf\<close>: Python's text methods and \<open>services/ssrf_guard.py\<close>. Addresses are 32- and 128-bit words; a URL that
    passes is pinned to a public address, or to one in the deprecated site-local range \<open>fec0::/10\<close>, which the guard misses.
  \<^item> \<open>Notifications\<close>, \<open>WebhookDelivery\<close>: \<open>services/notifications.py\<close>, \<open>webhook_delivery.py\<close>. Channels, subscriptions, queueing and
    the worker, with a log of its sends: at most five attempts for each delivery (locale \<open>bounded_retry\<close>), only addresses
    the guard admits, blocked ones dead.
  \<^item> \<open>Accounts\<close>, \<open>Invitations\<close>: \<open>services/users.py\<close>, \<open>auth.py\<close>, \<open>sessions.py\<close>, \<open>org_membership.py\<close>, \<open>middleware/admin_auth.py\<close>,
    \<open>services/invitations.py\<close>, \<open>password_resets.py\<close>. The cut-off of a password change, the scope of a request
    (kept as it was when its lookup raises), and tokens that work once (locale \<open>one_time_token\<close>).
  \<^item> \<open>DeviceConfig\<close>, \<open>Enrollment\<close>, \<open>Announcements\<close>, \<open>Registry\<close>, \<open>RegistryProps\<close>: \<open>services/device_config.py\<close>, \<open>enrollment.py\<close>,
    \<open>announcements.py\<close>, \<open>middleware/device_auth.py\<close>. \<open>Registry\<close> is the abstract machine (each token used at most once, each
    device one key); \<open>RegistryProps\<close> shows that every sequence of the detailed operations is a run of it.
  \<^item> \<open>ApiTokens\<close>: \<open>services/api_tokens.py\<close>, \<open>middleware/token_auth.py\<close>. Minting and verification round trip, the gate.
  \<^item> \<open>Directory\<close>: \<open>services/sites.py\<close>, \<open>groups.py\<close>, \<open>mass_action.py\<close>, the audit query and the route that commands a group.
  \<^item> \<open>RuleChecks\<close>, \<open>Scenes\<close>, \<open>Rules\<close>, \<open>RuleProps\<close>: \<open>services/watchdog/\<close>, \<open>services/scenes.py\<close>. The checks of every probe and
    action, management of rules and scenes; stored rules stay well formed along every interleaving with
    the watchdog, and fire.
  \<^item> \<open>Conflicts\<close>, \<open>RuleForms\<close>: \<open>services/conflict_detection.py\<close>, \<open>blueprints/admin/_rules_forms.py\<close>, \<open>rules.py\<close>. When a
    proposed rule is blocked, and that saving through the form keeps the rules from fighting.
  \<^item> \<open>Firmware\<close>, \<open>Deployments\<close>: \<open>services/_versions.py\<close>, \<open>firmware.py\<close>, \<open>deployments.py\<close>, \<open>blueprints/admin/firmware.py\<close>. Versions are
    compared by number; a scan of the directory settles; a device has one assignment in flight, which goes from
    pending to delivered at the offer and to completed at its own report.
  \<^item> \<open>Devices\<close>: \<open>services/devices/\<close>. The power topology has no loops, protected devices survive a bulk deletion, the badge of
    a device and the newest stable release mean what they say.
  \<^item> \<open>Telemetry\<close>, \<open>Heartbeats\<close>, \<open>DeviceApi\<close>: \<open>services/events.py\<close>, \<open>failsafe.py\<close>, \<open>heartbeats.py\<close>, \<open>unregistered.py\<close>,
    \<open>blueprints/device_api.py\<close>. What a heartbeat makes of the device's current truth and of its uptime, the long poll,
    which always returns, with commands or once its deadline has come, and the bounded log of refused callers.
  \<^item> \<open>Numbers\<close>: Python's exceptions and floats, shared by the following.
  \<^item> \<open>ExternalSensors\<close>, \<open>SensorPolls\<close>, \<open>SensorProps\<close>: \<open>services/external_sensors/\<close>, \<open>google_oauth.py\<close>,
    \<open>blueprints/api/integrations_webhook.py\<close>. The registry of external sources, every poller with its parser, the
    inbound webhook. The registry stays well formed and every sample
    has its source, a webhook needs the stored secret, a tick leaves nothing due.
  \<^item> \<open>PowerTelemetry\<close>, \<open>PowerProps\<close>: \<open>services/device_power.py\<close>. The power views and the daily rollups: the batch read
    is the single read, computing a day again, at any later time, changes only \<open>computed_at\<close>.
  \<^item> \<open>Epg\<close>: \<open>services/epg.py\<close>. The cached programme guide.
  \<^item> \<open>Probes\<close>, \<open>ProbeProps\<close>: \<open>services/watchdog_runtime/_probes.py\<close>, \<open>_probes_integrations.py\<close>. The probes that fill the
    argument of the watchdog tick: a tick over them counts no error, and a probe over stored data never
    passes on old data.
  \<^item> \<open>Inbox\<close>, \<open>Signups\<close>, \<open>InboxProps\<close>: \<open>services/inbox.py\<close>, \<open>attention_acks.py\<close>, \<open>signup_requests.py\<close>. All clear means
    that every device is online, the newest twenty failed updates of a day are in the feed, acknowledged items stay hidden, and a signup
    request is reviewed once.
  \<^item> This theory: the lockout over every interleaving of the two automations.

  \<^bold>\<open>Interfaces.\<close> The locales of \<open>Prelude\<close> and the components are all interpreted on the model: \<open>row_store\<close> (tables with
  a key), \<open>state_preorder\<close> (what every step of a family keeps, as \<open>kept\<close>, \<open>safely\<close>, \<open>sim\<close> and \<open>growing\<close>), \<open>scope_check\<close>,
  \<open>bounded_retry\<close> and \<open>one_time_token\<close>.

  \<^bold>\<open>What comes from outside.\<close> \<open>env\<close> carries the ULID generator, the clock during a call, \<open>fromisoformat\<close>,
  \<open>isoformat\<close> and \<open>repr\<close> (\<open>poll_all_due\<close> polls all its sources at that one time, where the code reads the clock again for
  each); \<open>crypto\<close> hashing, token generation and the JWT codec; \<open>net\<close> the resolver and the HTTP
  client; \<open>settings\<close> the configuration; a watchdog probe is a function of the hub and the rule, for which \<open>run_probe\<close> is the code's;
  \<open>world\<close> is what the pollers reach (HTTP calls, the SNMP programs, JSON, URL and date parsing), \<open>reach\<close> what the network
  probes reach, \<open>sql\<close> the aggregates the database computes over decimals; \<open>arrange\<close> is the order
  in which Python iterates a set; \<open>qexc\<close> names the exception a query raises on an id that is no string; \<open>column_store\<close> is what a database
  column makes of a reported value (keep, change or refuse it) and \<open>nonfinite\<close> what the driver makes of a float that is no
  number; \<open>surroundings\<close> are the clocks and the other requests during a long poll; \<open>sync_env\<close> adds
  the schema's constraints and column defaults and \<open>fetch\<close> is the HTTP call to a peer. Statements assume of them
  only what their hypotheses say. The long poll has fuel, and thirty-one rounds are shown to be enough; the HTTP probe follows three redirects, as its source does; the walk through the power topology has the fifty
  hops of the source; other loops run over a list or a bounded number of days (\<open>compute_next_run_at\<close> tries seven), and \<open>action_to_phrase\<close>, which recurses into the parts of an
  action, is a \<open>function\<close> that terminates by the size of the value.

  \<^bold>\<open>Not modelled.\<close> Network I/O itself, mail, the HMAC of peers, the thread of the MQTT client, password hashing, templates and
  most handlers, which are thin wrappers over the services, the schema migrations and dashboards.
  Concurrency is the interleaving of transactions: one service call is one step.
\<close>

section \<open>The automations together\<close>

text \<open>One step of the background jobs that act on devices: a watchdog tick or a schedule tick, at any
  time, with any probe results.\<close>

inductive auto_step :: "hub \<Rightarrow> hub \<Rightarrow> bool" where
  watchdog: "auto_step h (snd (watchdog_tick E disabled probe now h))"
| schedule: "auto_step h (snd (schedule_tick E qexc disabled now h))"

lemma auto_step_kept: "auto_step h h' \<Longrightarrow> lockout_kept h h'"
  by (erule auto_step.cases) (auto intro: watchdog_tick_kept schedule_tick_kept)

text \<open>C3: The operator's lockout holds against automation: over any interleaving of watchdog and schedule
  ticks, the queue only grows, every power command added is for an existing device that is not
  protected, and no device's protection flag changes.\<close>

theorem automation_honours_lockout:
  assumes "auto_step\<^sup>*\<^sup>* h h'"
  shows "protection h' = protection h \<and>
    (\<exists>cs. h_commands h' = h_commands h @ cs
       \<and> list_all (\<lambda>c. c_type c \<in> set POWER_TYPES
                        \<longrightarrow> (\<exists>d. get_device (c_device_id c) h = Some d \<and> \<not> dev_is_protected d)) cs)"
  using kept.leads_star [OF auto_step_kept assms]
  by (auto simp: lockout_kept_def unprotected_power_def list_all_iff split: option.splits)

definition auto_hub :: hub where
  "auto_hub = demo_hub\<lparr>h_rules := [(demo_rule [(''kind'', VStr ''cycle'')])\<lparr>wr_failure_threshold := 1\<rparr>],
     h_schedules := [(demo_schedule ''daily'')\<lparr>sch_next_run_at := Some 3\<rparr>]\<rparr>"

definition auto_after :: hub where
  "auto_after = snd (schedule_tick (sched_env 5) ''TypeError'' False 5
     (snd (watchdog_tick demo_env False (\<lambda>h r. Inr (''failure'', [])) 0 auto_hub)))"

lemma auto_after_commands:
  "map c_device_id (h_commands auto_after) = [''d1'', ''d1''] \<and> map_option dev_is_protected (get_device ''d2'' auto_hub) = Some True"
  by code_simp

theorem automation_honours_lockout_witness:
  "map c_device_id (h_commands auto_after) = [''d1'', ''d1''] \<and> protection auto_after ''d2'' = Some True"
proof -
  have "auto_step\<^sup>*\<^sup>* auto_hub auto_after"
    unfolding auto_after_def by (meson auto_step.intros r_into_rtranclp rtranclp_trans)
  from automation_honours_lockout [OF this] have "protection auto_after = protection auto_hub" by simp
  then show ?thesis using auto_after_commands by (simp add: protection_def)
qed

end
